(* ===== verification/Base.thy ===== *)
theory Base
  imports Main "HOL-Library.AList" "HOL-Library.Sublist"
begin

text \<open>
  The prelude of the development: what every component shares. It models the part of Python's
  data model the sources rely on (decoded JSON values, truthiness, \<open>str.split\<close>,
  \<open>dict.get\<close>), results that may raise (a sum with the exception on the left), the clock
  (an instant is an integer number of microseconds, passed to each operation as \<open>now\<close>)
  and database tables (a list of rows in insertion order, addressed by a primary key).
\<close>

section \<open>Collections of facts\<close>

named_theorems handler_defs \<open>definitions of handlers, unfolded to follow their branches\<close>
named_theorems frame_simps \<open>tables and fields that an operation leaves alone\<close>

section \<open>Results that may raise\<close>

text \<open>
  \<open>Inl e\<close> is the raised exception, \<open>Inr x\<close> the returned value. A transaction that raises
  is rolled back, so an error carries no state.
\<close>

definition bindE :: "'e + 'a \<Rightarrow> ('a \<Rightarrow> 'e + 'b) \<Rightarrow> 'e + 'b" where
  "bindE r f = (case r of Inl e \<Rightarrow> Inl e | Inr x \<Rightarrow> f x)"

lemma bindE_simps [simp]: "bindE (Inl e) f = Inl e" "bindE (Inr x) f = f x"
  by (simp_all add: bindE_def)

lemma bindE_Inr_iff: "bindE r f = Inr y \<longleftrightarrow> (\<exists>x. r = Inr x \<and> f x = Inr y)"
  by (cases r) auto

lemma bindE_InrE:
  assumes "bindE r f = Inr y"
  obtains x where "r = Inr x" "f x = Inr y"
  using assms by (auto simp: bindE_Inr_iff)

lemma bindE_assoc: "bindE (bindE r f) g = bindE r (\<lambda>x. bindE (f x) g)"
  by (cases r) auto

text \<open>Wrap the exception of a callee: an exception type of the caller has one case per callee.\<close>

definition map_err :: "('e \<Rightarrow> 'f) \<Rightarrow> 'e + 'a \<Rightarrow> 'f + 'a" where
  "map_err f r = (case r of Inl e \<Rightarrow> Inl (f e) | Inr x \<Rightarrow> Inr x)"

lemma map_err_simps [simp]: "map_err f (Inl e) = Inl (f e)" "map_err f (Inr x) = Inr x"
  by (simp_all add: map_err_def)

lemma map_err_Inr_iff [simp]: "map_err f r = Inr x \<longleftrightarrow> r = Inr x"
  by (cases r) auto

text \<open>Fold a raising step over a list: a Python \<open>for\<close> loop whose body may raise.\<close>

fun foldE :: "('a \<Rightarrow> 's \<Rightarrow> 'e + 's) \<Rightarrow> 'a list \<Rightarrow> 's \<Rightarrow> 'e + 's" where
  "foldE f [] s = Inr s"
| "foldE f (x # xs) s = bindE (f x s) (foldE f xs)"

lemma foldE_append: "foldE f (xs @ ys) s = bindE (foldE f xs s) (foldE f ys)"
proof (induction xs arbitrary: s)
  case (Cons x xs)
  then show ?case by (cases "f x s") simp_all
qed simp

lemma foldE_inv:
  assumes "foldE f xs s = Inr t" and "P s"
    and "\<And>x u v. x \<in> set xs \<Longrightarrow> P u \<Longrightarrow> f x u = Inr v \<Longrightarrow> P v"
  shows "P t"
  using assms by (induction xs arbitrary: s) (auto simp: bindE_Inr_iff)

text \<open>Map a raising function over a list: a loop that collects results.\<close>

fun mapE :: "('a \<Rightarrow> 'e + 'b) \<Rightarrow> 'a list \<Rightarrow> 'e + 'b list" where
  "mapE f [] = Inr []"
| "mapE f (x # xs) = bindE (f x) (\<lambda>y. bindE (mapE f xs) (\<lambda>ys. Inr (y # ys)))"

lemma mapE_Inr_iff: "mapE f xs = Inr ys \<longleftrightarrow> list_all2 (\<lambda>x y. f x = Inr y) xs ys"
  by (induction xs arbitrary: ys) (auto simp: bindE_Inr_iff list_all2_Cons1)

lemma mapE_all: "(\<And>x. x \<in> set xs \<Longrightarrow> f x = Inr (g x)) \<Longrightarrow> mapE f xs = Inr (map g xs)"
  by (induction xs) auto

lemma mapE_mem:
  assumes "mapE f xs = Inr ys" "y \<in> set ys"
  shows "\<exists>x \<in> set xs. f x = Inr y"
  using assms by (induction xs arbitrary: ys) (auto simp: bindE_Inr_iff)

section \<open>Service calls\<close>

text \<open>
  A call on a service runs several transactions: it returns or raises, and either way leaves a state,
  since what was committed before a raise stays.
\<close>

definition bindS ::
  "('s \<Rightarrow> ('e + 'a) \<times> 's) \<Rightarrow> ('a \<Rightarrow> 's \<Rightarrow> ('e + 'b) \<times> 's) \<Rightarrow> 's \<Rightarrow> ('e + 'b) \<times> 's" where
  "bindS m f s = (case m s of (Inl e, s') \<Rightarrow> (Inl e, s') | (Inr x, s') \<Rightarrow> f x s')"

definition doneS :: "'a \<Rightarrow> 's \<Rightarrow> ('e + 'a) \<times> 's" where "doneS x s = (Inr x, s)"
definition failS :: "'e \<Rightarrow> 's \<Rightarrow> ('e + 'a) \<times> 's" where "failS e s = (Inl e, s)"

lemma bindS_Inr_iff:
  "bindS m f s = (Inr y, s') \<longleftrightarrow> (\<exists>x s1. m s = (Inr x, s1) \<and> f x s1 = (Inr y, s'))"
  by (auto simp: bindS_def split: prod.splits sum.splits)

section \<open>Decoded JSON values\<close>

text \<open>
  What \<open>json.loads\<close> returns and \<open>json.dumps\<close> takes. A float is \<open>mantissa * 10 ^ exponent\<close>
  (the sources only ask whether it is zero or an int); a dict is an association list with its
  keys in insertion order. Text columns that hold \<open>json.dumps x\<close> are modelled as \<open>x\<close>.
\<close>

datatype json =
    JNull
  | JBool bool
  | JInt int
  | JFloat int int
  | JStr string
  | JArr "json list"
  | JObj "(string \<times> json) list"

type_synonym obj = "(string \<times> json) list"

text \<open>Python's truth value of a decoded JSON value: \<open>if value:\<close>.\<close>

fun truthy :: "json \<Rightarrow> bool" where
  "truthy JNull = False"
| "truthy (JBool b) = b"
| "truthy (JInt n) = (n \<noteq> 0)"
| "truthy (JFloat m e) = (m \<noteq> 0)"
| "truthy (JStr s) = (s \<noteq> [])"
| "truthy (JArr xs) = (xs \<noteq> [])"
| "truthy (JObj kvs) = (kvs \<noteq> [])"

text \<open>\<open>dict.get(key)\<close>: \<open>None\<close> (here \<open>JNull\<close>) when the key is absent.\<close>

definition obj_get :: "obj \<Rightarrow> string \<Rightarrow> json" where
  "obj_get kvs k = (case map_of kvs k of None \<Rightarrow> JNull | Some v \<Rightarrow> v)"

lemma obj_get_simps [simp]:
  "obj_get [] k = JNull"
  "obj_get ((k', v) # kvs) k = (if k = k' then v else obj_get kvs k)"
  by (auto simp: obj_get_def)

lemma obj_get_update [simp]:
  "obj_get (AList.update k v kvs) k' = (if k' = k then v else obj_get kvs k')"
  by (simp add: obj_get_def update_conv)

text \<open>\<open>a or b\<close> on values.\<close>

definition py_or :: "json \<Rightarrow> json \<Rightarrow> json" where
  "py_or a b = (if truthy a then a else b)"

text \<open>
  The integer of a value for which \<open>isinstance(value, int)\<close> holds. \<open>bool\<close> is a subclass of
  \<open>int\<close> in Python, so \<open>True\<close> passes such a check and counts as 1.
\<close>

fun as_int :: "json \<Rightarrow> int option" where
  "as_int (JInt n) = Some n"
| "as_int (JBool b) = Some (if b then 1 else 0)"
| "as_int _ = None"

fun as_str :: "json \<Rightarrow> string option" where
  "as_str (JStr s) = Some s"
| "as_str _ = None"

text \<open>The strings among the members of a list value (members of any other type are skipped).\<close>

fun json_strs :: "json \<Rightarrow> string list" where
  "json_strs (JArr xs) = List.map_filter as_str xs"
| "json_strs _ = []"

lemma json_strs_map [simp]: "json_strs (JArr (map JStr ss)) = ss"
  by (induction ss) (auto simp: map_filter_simps)

fun is_obj :: "json \<Rightarrow> bool" where
  "is_obj (JObj _) = True"
| "is_obj _ = False"

text \<open>A value of the wrong type for a set lookup: \<open>x in frozenset\<close> hashes \<open>x\<close>, and lists
  and dicts are unhashable (\<open>TypeError\<close>).\<close>

fun unhashable :: "json \<Rightarrow> bool" where
  "unhashable (JArr _) = True"
| "unhashable (JObj _) = True"
| "unhashable _ = False"

section \<open>Strings\<close>

text \<open>Python's \<open>s.split(c)\<close> for a one-character separator: never empty.\<close>

fun split_on :: "char \<Rightarrow> string \<Rightarrow> string list" where
  "split_on c [] = [[]]"
| "split_on c (x # xs) =
     (if x = c then [] # split_on c xs
      else (case split_on c xs of [] \<Rightarrow> [[x]] | y # ys \<Rightarrow> (x # y) # ys))"

lemma split_on_nonempty [simp]: "split_on c s \<noteq> []"
  by (induction s) (auto split: list.splits)

lemma split_on_no_sep: "c \<notin> set s \<Longrightarrow> split_on c s = [s]"
  by (induction s) auto

lemma split_on_append:
  "c \<notin> set p \<Longrightarrow> split_on c (p @ c # s) = p # split_on c s"
  by (induction p) auto

lemma split_on_parts: "p \<in> set (split_on c s) \<Longrightarrow> c \<notin> set p"
  by (induction s arbitrary: p) (fastforce split: list.splits if_splits)+

text \<open>The inverse of \<open>split_on\<close>: Python's \<open>c.join(parts)\<close>.\<close>

fun join_with :: "char \<Rightarrow> string list \<Rightarrow> string" where
  "join_with c [] = []"
| "join_with c [p] = p"
| "join_with c (p # q # ps) = p @ c # join_with c (q # ps)"

lemma join_split [simp]: "join_with c (split_on c s) = s"
proof (induction s)
  case (Cons x xs)
  then show ?case
    by (cases "split_on c xs" rule: list.exhaust; cases "tl (split_on c xs)") auto
qed simp

text \<open>ASCII case folding: \<open>str.lower()\<close> on the ASCII range.\<close>

definition lower_char :: "char \<Rightarrow> char" where
  "lower_char c =
     (if 65 \<le> (of_char c :: nat) \<and> (of_char c :: nat) \<le> 90
      then char_of ((of_char c :: nat) + 32) else c)"

definition lower :: "string \<Rightarrow> string" where
  "lower s = map lower_char s"

text \<open>\<open>str.strip()\<close> with the whitespace of the ASCII range.\<close>

definition is_space :: "char \<Rightarrow> bool" where
  "is_space c = (let n = (of_char c :: nat) in n = 32 \<or> (9 \<le> n \<and> n \<le> 13) \<or> (28 \<le> n \<and> n \<le> 31))"

definition strip :: "string \<Rightarrow> string" where
  "strip s = rev (dropWhile is_space (rev (dropWhile is_space s)))"

lemma strip_mem: "c \<in> set (strip s) \<Longrightarrow> c \<in> set s"
  unfolding strip_def by (metis set_dropWhileD set_rev)

text \<open>\<open>marker in text\<close>.\<close>

fun contains :: "string \<Rightarrow> string \<Rightarrow> bool" where
  "contains m [] = (m = [])"
| "contains m (x # xs) = (prefix m (x # xs) \<or> contains m xs)"

lemma contains_iff: "contains m s \<longleftrightarrow> (\<exists>a b. s = a @ m @ b)"
proof (induction s)
  case (Cons x xs)
  show ?case
  proof
    assume "contains m (x # xs)"
    then consider "prefix m (x # xs)" | "contains m xs" by auto
    then show "\<exists>a b. x # xs = a @ m @ b"
    proof cases
      case 1
      then obtain b where "x # xs = [] @ m @ b" by (auto simp: prefix_def)
      then show ?thesis by blast
    next
      case 2
      with Cons.IH obtain a b where "xs = a @ m @ b" by auto
      then have "x # xs = (x # a) @ m @ b" by simp
      then show ?thesis by blast
    qed
  next
    assume "\<exists>a b. x # xs = a @ m @ b"
    then obtain a b where *: "x # xs = a @ m @ b" by blast
    show "contains m (x # xs)"
    proof (cases a)
      case Nil
      with * have "prefix m (x # xs)" by (auto simp: prefix_def)
      then show ?thesis by simp
    next
      case (Cons y ys)
      with * have "xs = ys @ m @ b" by auto
      with Cons.IH show ?thesis by auto
    qed
  qed
qed auto

text \<open>
  SQL \<open>LIKE\<close> as SQLite evaluates it: \<open>%\<close> matches any run of characters, \<open>_\<close> any one, and
  letters match up to ASCII case.
\<close>

function sql_like :: "string \<Rightarrow> string \<Rightarrow> bool" where
  "sql_like [] s = (s = [])"
| "sql_like (p # ps) s =
     (if p = CHR ''%'' then sql_like ps s \<or> (case s of [] \<Rightarrow> False | _ # t \<Rightarrow> sql_like (p # ps) t)
      else (case s of [] \<Rightarrow> False
            | c # t \<Rightarrow> (p = CHR ''_'' \<or> lower_char p = lower_char c) \<and> sql_like ps t))"
  by pat_completeness auto
termination
  by (relation "measure (\<lambda>(p, s). length p + length s)") auto

declare sql_like.simps(2) [simp del]

lemma ex_split_Cons:
  "(\<exists>a b. c # t = a @ b \<and> P a b) \<longleftrightarrow> P [] (c # t) \<or> (\<exists>a b. t = a @ b \<and> P (c # a) b)"
  by (simp add: Cons_eq_append_conv) blast

lemma sql_like_percent: "sql_like (CHR ''%'' # ps) s \<longleftrightarrow> (\<exists>a b. s = a @ b \<and> sql_like ps b)"
proof (induction s)
  case Nil
  then show ?case by (simp add: sql_like.simps(2))
next
  case (Cons c t)
  have "sql_like (CHR ''%'' # ps) (c # t) \<longleftrightarrow> sql_like ps (c # t) \<or> sql_like (CHR ''%'' # ps) t"
    by (simp add: sql_like.simps(2))
  also have "\<dots> \<longleftrightarrow> (\<exists>a b. c # t = a @ b \<and> sql_like ps b)"
    unfolding Cons.IH ex_split_Cons by simp
  finally show ?case .
qed

lemma sql_like_any [simp]: "sql_like ''%'' s"
  by (auto simp: sql_like_percent)

definition no_wildcard :: "string \<Rightarrow> bool" where
  "no_wildcard p \<longleftrightarrow> CHR ''%'' \<notin> set p \<and> CHR ''_'' \<notin> set p"

lemma sql_like_literal:
  "no_wildcard p \<Longrightarrow> sql_like (p @ q) s \<longleftrightarrow> (\<exists>a b. s = a @ b \<and> lower a = lower p \<and> sql_like q b)"
proof (induction p arbitrary: s)
  case Nil
  then show ?case by (auto simp: lower_def)
next
  case (Cons c p)
  show ?case
  proof (cases s)
    case Nil
    with Cons.prems show ?thesis by (auto simp: sql_like.simps(2) no_wildcard_def lower_def)
  next
    case (Cons d t)
    have "sql_like ((c # p) @ q) (d # t) \<longleftrightarrow> lower_char c = lower_char d \<and> sql_like (p @ q) t"
      using Cons.prems by (auto simp: sql_like.simps(2) no_wildcard_def)
    also have "\<dots> \<longleftrightarrow> (\<exists>a b. t = a @ b \<and> lower (d # a) = lower (c # p) \<and> sql_like q b)"
      using Cons.prems Cons.IH [of t] by (simp add: no_wildcard_def lower_def) metis
    finally show ?thesis
      unfolding Cons ex_split_Cons by (simp add: lower_def)
  qed
qed

text \<open>The form of every actor handle: a leading @ is added unless it is there.\<close>

definition at_handle :: "string \<Rightarrow> string" where
  "at_handle v = (if prefix ''@'' v then v else CHR ''@'' # v)"

lemma at_handle_prefix [simp]: "prefix ''@'' (at_handle v)"
  by (simp add: at_handle_def)

lemma at_handle_nonempty [simp]: "at_handle v \<noteq> []"
  by (auto simp: at_handle_def)

lemma at_handle_fixed: "prefix ''@'' v \<Longrightarrow> at_handle v = v"
  by (simp add: at_handle_def)

lemma at_handle_idem [simp]: "at_handle (at_handle v) = at_handle v"
  by (simp add: at_handle_fixed)

lemma find_SomeD: "List.find P xs = Some x \<Longrightarrow> x \<in> set xs \<and> P x"
  by (induction xs) (auto split: if_splits)

section \<open>Time\<close>

text \<open>Instants are microseconds since the epoch; \<open>timedelta(seconds=n)\<close> is \<open>seconds n\<close>.\<close>

type_synonym instant = int

definition seconds :: "int \<Rightarrow> int" where
  "seconds n = n * 1000000"

lemma seconds_pos_iff [simp]: "0 < seconds n \<longleftrightarrow> 0 < n"
  by (simp add: seconds_def)

lemma seconds_mono [simp]: "seconds m \<le> seconds n \<longleftrightarrow> m \<le> n"
  by (simp add: seconds_def)

section \<open>Tables\<close>

text \<open>
  A table is the list of its rows in insertion order; \<open>key\<close> reads a row's primary key.
  \<open>row_get\<close> is \<open>session.get(Model, key)\<close>, \<open>row_upd\<close> the assignment to attributes of the
  loaded row that the next flush writes.
\<close>

definition row_get :: "('r \<Rightarrow> 'k) \<Rightarrow> 'k \<Rightarrow> 'r list \<Rightarrow> 'r option" where
  "row_get key k rows = List.find (\<lambda>r. key r = k) rows"

definition row_upd :: "('r \<Rightarrow> 'k) \<Rightarrow> 'k \<Rightarrow> ('r \<Rightarrow> 'r) \<Rightarrow> 'r list \<Rightarrow> 'r list" where
  "row_upd key k f rows = map (\<lambda>r. if key r = k then f r else r) rows"

lemma row_get_Nil [simp]: "row_get key k [] = None"
  by (simp add: row_get_def)

lemma row_get_Cons: "row_get key k (r # rows) = (if key r = k then Some r else row_get key k rows)"
  by (simp add: row_get_def)

lemma row_get_SomeD: "row_get key k rows = Some r \<Longrightarrow> key r = k \<and> r \<in> set rows"
  by (induction rows) (auto simp: row_get_Cons split: if_splits)

lemma row_get_None_iff: "row_get key k rows = None \<longleftrightarrow> k \<notin> key ` set rows"
  by (induction rows) (auto simp: row_get_Cons)

lemma row_get_None_iff_all: "row_get key k rows = None \<longleftrightarrow> (\<forall>r \<in> set rows. key r \<noteq> k)"
  by (auto simp: row_get_None_iff)

lemma row_get_append:
  "row_get key k (xs @ ys) =
     (case row_get key k xs of None \<Rightarrow> row_get key k ys | Some r \<Rightarrow> Some r)"
  by (induction xs) (auto simp: row_get_Cons)

lemma row_get_upd_same:
  assumes "\<And>r. key r = k \<Longrightarrow> key (f r) = k"
  shows "row_get key k (row_upd key k f rows) = map_option f (row_get key k rows)"
  using assms by (induction rows) (auto simp: row_get_Cons row_upd_def)

lemma row_get_upd_other:
  assumes "k' \<noteq> k" "\<And>r. key r = k \<Longrightarrow> key (f r) = k"
  shows "row_get key k' (row_upd key k f rows) = row_get key k' rows"
  using assms by (induction rows) (auto simp: row_get_Cons row_upd_def)

lemma row_upd_keys:
  assumes "\<And>r. key r = k \<Longrightarrow> key (f r) = k"
  shows "map key (row_upd key k f rows) = map key rows"
  using assms by (induction rows) (auto simp: row_upd_def)

lemma row_upd_length [simp]: "length (row_upd key k f rows) = length rows"
  by (simp add: row_upd_def)

lemma row_upd_mem:
  "r \<in> set (row_upd key k f rows) \<Longrightarrow>
     (r \<in> set rows \<and> key r \<noteq> k) \<or> (\<exists>r0 \<in> set rows. key r0 = k \<and> r = f r0)"
  by (auto simp: row_upd_def split: if_splits)

lemma row_get_distinct:
  assumes "distinct (map key rows)" "r \<in> set rows"
  shows "row_get key (key r) rows = Some r"
  using assms by (induction rows) (auto simp: row_get_Cons)

lemma row_upd_id: "k \<notin> key ` set rows \<Longrightarrow> row_upd key k f rows = rows"
  by (induction rows) (auto simp: row_upd_def)

text \<open>Reading by one key after rows were changed in ways that keep that key.\<close>

lemma row_get_map:
  "(\<And>x. key (f x) = key x) \<Longrightarrow> row_get key k (map f rows) = map_option f (row_get key k rows)"
  by (induction rows) (auto simp: row_get_Cons)

lemma row_upd_split:
  assumes "distinct (map key (ys @ a # zs))"
  shows "row_upd key (key a) f (ys @ a # zs) = ys @ f a # zs"
proof -
  have "map (\<lambda>r. if key r = key a then f r else r) xs = xs" if "key a \<notin> key ` set xs" for xs
    using that by (induction xs) auto
  with assms show ?thesis by (simp add: row_upd_def)
qed

lemma row_get_filter:
  "row_get key k (filter (\<lambda>r. key r \<notin> D) rows) = (if k \<in> D then None else row_get key k rows)"
  by (induction rows) (auto simp: row_get_Cons)

lemmas row_get_simps = row_get_Cons row_get_append row_get_upd_same row_get_upd_other

text \<open>Ordered queries: a stable sort of the selected rows, then \<open>LIMIT\<close>.\<close>

definition select_desc :: "('r \<Rightarrow> int) \<Rightarrow> ('r \<Rightarrow> bool) \<Rightarrow> 'r list \<Rightarrow> 'r list" where
  "select_desc key p rows = sort_key (\<lambda>r. - key r) (filter p rows)"

definition select_asc :: "('r \<Rightarrow> int) \<Rightarrow> ('r \<Rightarrow> bool) \<Rightarrow> 'r list \<Rightarrow> 'r list" where
  "select_asc key p rows = sort_key key (filter p rows)"

lemma set_select_desc [simp]: "set (select_desc key p rows) = {r \<in> set rows. p r}"
  by (auto simp: select_desc_def)

lemma set_select_asc [simp]: "set (select_asc key p rows) = {r \<in> set rows. p r}"
  by (auto simp: select_asc_def)

lemma select_asc_sorted: "sorted (map key (select_asc key p rows))"
  by (simp add: select_asc_def)

lemma select_desc_hd_max:
  assumes "r \<in> set rows" "p r"
  shows "select_desc key p rows \<noteq> []" "key r \<le> key (hd (select_desc key p rows))"
proof -
  have mem: "r \<in> set (select_desc key p rows)" using assms by simp
  then show ne: "select_desc key p rows \<noteq> []" by (metis empty_iff list.set(1))
  have "sorted (map (\<lambda>r. - key r) (select_desc key p rows))"
    by (simp add: select_desc_def)
  with ne mem show "key r \<le> key (hd (select_desc key p rows))"
    by (cases "select_desc key p rows") auto
qed

lemma select_asc_hd_min:
  assumes "r \<in> set rows" "p r"
  shows "key (hd (select_asc key p rows)) \<le> key r"
proof -
  have mem: "r \<in> set (select_asc key p rows)" using assms by simp
  with select_asc_sorted [of key p rows] show ?thesis
    by (cases "select_asc key p rows") auto
qed

text \<open>\<open>max(1, min(int(limit), cap))\<close>: the clamp every paged query applies.\<close>

definition clamp_limit :: "int \<Rightarrow> int \<Rightarrow> nat" where
  "clamp_limit cap n = nat (max 1 (min n cap))"

lemma clamp_limit_bounds: "1 \<le> cap \<Longrightarrow> 1 \<le> clamp_limit cap n \<and> int (clamp_limit cap n) \<le> cap"
  by (auto simp: clamp_limit_def)

end
