(* ===== verification/Lease.thy ===== *)
theory Lease
  imports Base
begin

text \<open>
  The contract of a lease: a holder keeps a resource until the lease expires, whatever the other
  parties do in the meantime. The kernel's task queue and its resource leases are two providers;
  the run lemmas below are proved once for both.
\<close>

text \<open>Ids and tokens are generated (\<open>uuid4\<close>, a fresh number here) or supplied by the caller.\<close>

datatype key = Gen nat | Ext string

definition key_or :: "string option \<Rightarrow> key \<Rightarrow> key" where
  "key_or given k = (case given of None \<Rightarrow> k | Some s \<Rightarrow> if s = [] then k else Ext s)"

definition key_pick :: "key option \<Rightarrow> key \<Rightarrow> key" where
  "key_pick given k = (case given of None \<Rightarrow> k | Some t \<Rightarrow> if t = Ext [] then k else t)"

text \<open>
  A run: the acts of any parties (time and party), in the order their transactions commit, with a
  clock that does not go backwards.
\<close>

fun acts_run :: "(instant \<Rightarrow> 'h \<Rightarrow> 's \<Rightarrow> 's \<Rightarrow> bool) \<Rightarrow> (instant \<times> 'h) list \<Rightarrow> 's \<Rightarrow> 's \<Rightarrow> bool" where
  "acts_run step [] s s' = (s' = s)"
| "acts_run step ((now, h) # acts) s s' = (\<exists>s1. step now h s s1 \<and> acts_run step acts s1 s')"

fun clocked :: "instant \<Rightarrow> (instant \<times> 'h) list \<Rightarrow> bool" where
  "clocked t [] = True"
| "clocked t ((now, h) # acts) = (t \<le> now \<and> clocked now acts)"

fun end_time :: "instant \<Rightarrow> (instant \<times> 'h) list \<Rightarrow> instant" where
  "end_time t [] = t"
| "end_time t ((now, h) # acts) = end_time now acts"

text \<open>
  \<open>held r h e s\<close>: in state \<open>s\<close>, resource \<open>r\<close> is leased to \<open>h\<close> until \<open>e\<close>. \<open>step now h s s'\<close>:
  party \<open>h\<close> acts at time \<open>now\<close>. \<open>sole now s\<close>: no resource has two unexpired holders at \<open>now\<close>.
\<close>

locale lease_provider =
  fixes held :: "'r \<Rightarrow> 'h \<Rightarrow> instant \<Rightarrow> 's \<Rightarrow> bool"
    and step :: "instant \<Rightarrow> 'h \<Rightarrow> 's \<Rightarrow> 's \<Rightarrow> bool"
    and inv :: "instant \<Rightarrow> 's \<Rightarrow> bool"
  assumes keeps:
      "inv t s \<Longrightarrow> t \<le> now \<Longrightarrow> step now h s s' \<Longrightarrow> held r h' e s \<Longrightarrow> now < e \<Longrightarrow> h \<noteq> h' \<Longrightarrow>
         held r h' e s'"
    and step_inv: "inv t s \<Longrightarrow> t \<le> now \<Longrightarrow> step now h s s' \<Longrightarrow> inv now s'"
    and sole: "inv t s \<Longrightarrow> held r h1 e1 s \<Longrightarrow> held r h2 e2 s \<Longrightarrow> t < e1 \<Longrightarrow> t < e2 \<Longrightarrow> h1 = h2"
begin

lemma run_inv: "inv t s \<Longrightarrow> clocked t acts \<Longrightarrow> acts_run step acts s s' \<Longrightarrow> inv (end_time t acts) s'"
proof (induction acts arbitrary: t s)
  case (Cons a acts)
  obtain now h where a: "a = (now, h)" by (cases a)
  with Cons.prems obtain s1 where 1: "step now h s s1" "acts_run step acts s1 s'" "t \<le> now" "clocked now acts"
    by auto
  have "inv now s1" using Cons.prems(1) 1(3,1) by (rule step_inv)
  then have "inv (end_time now acts) s'" using 1(4,2) by (rule Cons.IH)
  then show ?case by (simp add: a)
qed simp

lemma run_keeps:
  assumes "inv t s" "clocked t acts" "acts_run step acts s s'" "held r h' e s"
    and "\<And>now h. (now, h) \<in> set acts \<Longrightarrow> now < e \<and> h \<noteq> h'"
  shows "held r h' e s'"
  using assms
proof (induction acts arbitrary: t s)
  case (Cons a acts)
  obtain now h where a: "a = (now, h)" by (cases a)
  with Cons.prems obtain s1 where 1: "step now h s s1" "acts_run step acts s1 s'" "t \<le> now" "clocked now acts"
    by auto
  have own: "now < e" "h \<noteq> h'" using Cons.prems(5) [of now h] a by auto
  have inv: "inv now s1" using Cons.prems(1) 1(3,1) by (rule step_inv)
  have held: "held r h' e s1" using Cons.prems(1) 1(3,1) Cons.prems(4) own by (rule keeps)
  have rest: "(now, h) \<in> set acts \<Longrightarrow> now < e \<and> h \<noteq> h'" for now h
    using Cons.prems(5) [of now h] by simp
  show ?case using inv 1(4,2) held rest by (rule Cons.IH)
qed simp

text \<open>Nobody else holds a resource at the end of a run that stayed within its holder's lease.\<close>

lemma run_exclusive:
  assumes "inv t s" "clocked t acts" "acts_run step acts s s'" "held r h' e s" "end_time t acts < e"
    and "\<And>now h. (now, h) \<in> set acts \<Longrightarrow> now < e \<and> h \<noteq> h'"
    and "held r h2 e2 s'" "end_time t acts < e2"
  shows "h2 = h'"
  using sole [OF run_inv [OF assms(1-3)] assms(7) run_keeps [OF assms(1-4)]] assms(5,6,8) by blast

end

end
