(* ===== verification/KernelTasks.thy ===== *)
theory KernelTasks
  imports Lease
begin

text \<open>
  \<open>kernel/tasks.py\<close>: the generic task queue. Workers claim the most urgent queued task and get a
  lease token; heartbeats extend the lease, lapsed leases go back to the queue. A session that
  raises is rolled back, so an error carries no queue.
\<close>

section \<open>Rows\<close>

abbreviation TASK_STATUS_QUEUED :: string where "TASK_STATUS_QUEUED \<equiv> ''queued''"
abbreviation TASK_STATUS_CLAIMED :: string where "TASK_STATUS_CLAIMED \<equiv> ''claimed''"
abbreviation TASK_STATUS_EXECUTING :: string where "TASK_STATUS_EXECUTING \<equiv> ''executing''"
abbreviation TASK_STATUS_COMPLETED :: string where "TASK_STATUS_COMPLETED \<equiv> ''completed''"
abbreviation TASK_STATUS_FAILED :: string where "TASK_STATUS_FAILED \<equiv> ''failed''"
abbreviation TASK_STATUS_CANCELLED :: string where "TASK_STATUS_CANCELLED \<equiv> ''cancelled''"

definition TASK_TERMINAL_STATUSES :: "string list" where
  "TASK_TERMINAL_STATUSES = [TASK_STATUS_COMPLETED, TASK_STATUS_FAILED, TASK_STATUS_CANCELLED]"

record ktask =
  k_id :: key
  k_space :: string
  k_kind :: string
  k_status :: string
  k_priority :: int
  k_payload :: obj
  k_requested_by :: string
  k_owner :: "string option"
  k_token :: "nat option"
  k_lease :: "instant option"
  k_claims :: int
  k_result :: "obj option"
  k_error :: "obj option"
  k_parent :: "key option"
  k_created :: instant
  k_updated :: instant
  k_started :: "instant option"
  k_completed :: "instant option"

text \<open>\<open>q_next\<close> supplies generated ids and lease tokens.\<close>

record kqueue =
  q_rows :: "ktask list"
  q_next :: nat

datatype task_error = TaskValueError string | TaskLeaseError | TaskExists

section \<open>Operations\<close>

definition enqueue ::
  "instant \<Rightarrow> string \<Rightarrow> string \<Rightarrow> obj \<Rightarrow> int \<Rightarrow> string \<Rightarrow> key option \<Rightarrow> string option \<Rightarrow> kqueue
     \<Rightarrow> task_error + ktask \<times> kqueue" where
  "enqueue now space kind payload priority requested_by parent ext q =
     (if space = [] then Inl (TaskValueError ''space_id is required'')
      else if kind = [] then Inl (TaskValueError ''kind is required'')
      else
        let tid = key_or ext (Gen (q_next q));
            row = \<lparr>k_id = tid, k_space = space, k_kind = kind, k_status = TASK_STATUS_QUEUED,
                   k_priority = priority, k_payload = payload, k_requested_by = requested_by,
                   k_owner = None, k_token = None, k_lease = None, k_claims = 0, k_result = None,
                   k_error = None, k_parent = parent, k_created = now, k_updated = now,
                   k_started = None, k_completed = None\<rparr>
        in if row_get k_id tid (q_rows q) \<noteq> None then Inl TaskExists
           else Inr (row, \<lparr>q_rows = q_rows q @ [row], q_next = Suc (q_next q)\<rparr>))"

definition task_get :: "key \<Rightarrow> kqueue \<Rightarrow> ktask option" where
  "task_get k q = row_get k_id k (q_rows q)"

definition task_upd :: "key \<Rightarrow> (ktask \<Rightarrow> ktask) \<Rightarrow> kqueue \<Rightarrow> kqueue" where
  "task_upd k f q = q\<lparr>q_rows := row_upd k_id k f (q_rows q)\<rparr>"

text \<open>
  \<open>_release_expired_locked\<close>: of the first \<open>batch_size\<close> leased rows, those whose lease has lapsed
  go back to the queue; the count of released rows is returned.
\<close>

definition leased :: "ktask \<Rightarrow> bool" where
  "leased r \<longleftrightarrow> k_status r \<in> {TASK_STATUS_CLAIMED, TASK_STATUS_EXECUTING} \<and> k_lease r \<noteq> None"

definition lapsed :: "instant \<Rightarrow> ktask \<Rightarrow> bool" where
  "lapsed now r \<longleftrightarrow> (case k_lease r of None \<Rightarrow> False | Some e \<Rightarrow> e \<le> now)"

definition requeue :: "instant \<Rightarrow> ktask \<Rightarrow> ktask" where
  "requeue now r = r\<lparr>k_status := TASK_STATUS_QUEUED, k_owner := None, k_token := None,
                     k_lease := None, k_updated := now\<rparr>"

definition release_expired :: "instant \<Rightarrow> int \<Rightarrow> kqueue \<Rightarrow> int \<times> kqueue" where
  "release_expired now batch_size q =
     (let stale = filter (lapsed now) (take (nat (max 1 batch_size)) (filter leased (q_rows q)))
      in (int (length stale),
          q\<lparr>q_rows := map (\<lambda>r. if k_id r \<in> k_id ` set stale then requeue now r else r) (q_rows q)\<rparr>))"

text \<open>The queued rows a worker asks for, most urgent first, oldest first among equals.\<close>

definition matches :: "string option \<Rightarrow> string list \<Rightarrow> ktask \<Rightarrow> bool" where
  "matches space kinds r \<longleftrightarrow>
     k_status r = TASK_STATUS_QUEUED
     \<and> (case space of None \<Rightarrow> True | Some s \<Rightarrow> s = [] \<or> k_space r = s)
     \<and> (filter (\<lambda>k. k \<noteq> []) kinds = [] \<or> k_kind r \<in> set (filter (\<lambda>k. k \<noteq> []) kinds))"

definition candidates :: "string option \<Rightarrow> string list \<Rightarrow> kqueue \<Rightarrow> ktask list" where
  "candidates space kinds q =
     sort_key (\<lambda>r. - k_priority r) (select_asc k_created (matches space kinds) (q_rows q))"

definition claim_next ::
  "instant \<Rightarrow> string option \<Rightarrow> string list \<Rightarrow> string \<Rightarrow> int \<Rightarrow> kqueue
     \<Rightarrow> task_error + (ktask \<times> nat \<times> instant) option \<times> kqueue" where
  "claim_next now space kinds actor lease_seconds q =
     (if actor = [] then Inl (TaskValueError ''actor_id is required'')
      else if lease_seconds \<le> 0 then Inl (TaskValueError ''lease_seconds must be positive'')
      else
        let q1 = snd (release_expired now 1000 q)
        in case candidates space kinds q1 of
             [] \<Rightarrow> Inr (None, q1)
           | r # _ \<Rightarrow>
               let tok = q_next q1; expires = now + seconds lease_seconds;
                   r' = r\<lparr>k_status := TASK_STATUS_CLAIMED, k_owner := Some actor, k_token := Some tok,
                          k_lease := Some expires, k_claims := k_claims r + 1,
                          k_started := (case k_started r of None \<Rightarrow> Some now | Some t \<Rightarrow> Some t),
                          k_updated := now\<rparr>
               in Inr (Some (r', tok, expires),
                       (task_upd (k_id r) (\<lambda>_. r') q1)\<lparr>q_next := Suc tok\<rparr>))"

definition require_owned_row :: "key \<Rightarrow> nat \<Rightarrow> kqueue \<Rightarrow> task_error + ktask" where
  "require_owned_row k tok q =
     (case task_get k q of
        None \<Rightarrow> Inl TaskLeaseError
      | Some r \<Rightarrow> if k_token r \<noteq> Some tok then Inl TaskLeaseError else Inr r)"

definition heartbeat ::
  "instant \<Rightarrow> key \<Rightarrow> nat \<Rightarrow> int \<Rightarrow> string \<Rightarrow> kqueue \<Rightarrow> task_error + ktask \<times> kqueue" where
  "heartbeat now k tok lease_seconds status q =
     (if status \<notin> {TASK_STATUS_CLAIMED, TASK_STATUS_EXECUTING}
      then Inl (TaskValueError ''heartbeat status must be claimed or executing'')
      else bindE (require_owned_row k tok q) (\<lambda>r.
             let r' = r\<lparr>k_status := status, k_lease := Some (now + seconds lease_seconds),
                        k_updated := now\<rparr>
             in Inr (r', task_upd k (\<lambda>_. r') q)))"

definition complete ::
  "instant \<Rightarrow> key \<Rightarrow> nat \<Rightarrow> obj \<Rightarrow> kqueue \<Rightarrow> task_error + ktask \<times> kqueue" where
  "complete now k tok result q =
     bindE (require_owned_row k tok q) (\<lambda>r.
       let r' = r\<lparr>k_status := TASK_STATUS_COMPLETED, k_result := Some result,
                  k_completed := Some now, k_lease := None, k_updated := now\<rparr>
       in Inr (r', task_upd k (\<lambda>_. r') q))"

definition fail ::
  "instant \<Rightarrow> key \<Rightarrow> nat \<Rightarrow> obj \<Rightarrow> kqueue \<Rightarrow> task_error + ktask \<times> kqueue" where
  "fail now k tok err q =
     bindE (require_owned_row k tok q) (\<lambda>r.
       let r' = r\<lparr>k_status := TASK_STATUS_FAILED, k_error := Some err,
                  k_completed := Some now, k_lease := None, k_updated := now\<rparr>
       in Inr (r', task_upd k (\<lambda>_. r') q))"

definition cancel :: "instant \<Rightarrow> key \<Rightarrow> string option \<Rightarrow> kqueue \<Rightarrow> ktask option \<times> kqueue" where
  "cancel now k why q =
     (case task_get k q of
        None \<Rightarrow> (None, q)
      | Some r \<Rightarrow>
          (if k_status r \<in> set TASK_TERMINAL_STATUSES then (Some r, q)
           else
             let r' = r\<lparr>k_status := TASK_STATUS_CANCELLED,
                        k_error := Some [(''kind'', JStr ''cancelled''),
                          (''reason'', case why of None \<Rightarrow> JNull | Some [] \<Rightarrow> JNull | Some s \<Rightarrow> JStr s)],
                        k_completed := Some now, k_lease := None, k_updated := now\<rparr>
             in (Some r', task_upd k (\<lambda>_. r') q)))"

definition list_tasks ::
  "string option \<Rightarrow> string list \<Rightarrow> string list \<Rightarrow> int \<Rightarrow> kqueue \<Rightarrow> ktask list" where
  "list_tasks space kinds statuses limit q =
     take (nat (max 1 limit))
       (select_asc k_created
          (\<lambda>r. (case space of None \<Rightarrow> True | Some s \<Rightarrow> s = [] \<or> k_space r = s)
               \<and> (filter (\<lambda>k. k \<noteq> []) kinds = [] \<or> k_kind r \<in> set (filter (\<lambda>k. k \<noteq> []) kinds))
               \<and> (filter (\<lambda>s. s \<noteq> []) statuses = [] \<or> k_status r \<in> set (filter (\<lambda>s. s \<noteq> []) statuses)))
          (q_rows q))"

section \<open>The invariant\<close>

definition row_ok :: "ktask \<Rightarrow> bool" where
  "row_ok r \<longleftrightarrow>
     (k_status r = TASK_STATUS_QUEUED \<and> k_owner r = None \<and> k_token r = None \<and> k_lease r = None)
     \<or> (k_status r \<in> {TASK_STATUS_CLAIMED, TASK_STATUS_EXECUTING}
        \<and> k_owner r \<noteq> None \<and> k_token r \<noteq> None \<and> k_lease r \<noteq> None)
     \<or> (k_status r \<in> set TASK_TERMINAL_STATUSES \<and> k_lease r = None \<and> k_completed r \<noteq> None
        \<and> (k_token r \<noteq> None \<longrightarrow> k_owner r \<noteq> None))"

definition tokens_of :: "ktask list \<Rightarrow> nat list" where
  "tokens_of rows = List.map_filter k_token rows"

definition queue_ok :: "kqueue \<Rightarrow> bool" where
  "queue_ok q \<longleftrightarrow>
     distinct (map k_id (q_rows q)) \<and> (\<forall>r \<in> set (q_rows q). row_ok r)
     \<and> (\<forall>r \<in> set (q_rows q). \<forall>n. k_id r = Gen n \<longrightarrow> n < q_next q)
     \<and> distinct (tokens_of (q_rows q)) \<and> (\<forall>t \<in> set (tokens_of (q_rows q)). t < q_next q)"

lemma tokens_of_simps [simp]:
  "tokens_of [] = []"
  "tokens_of (r # rows) = (case k_token r of None \<Rightarrow> tokens_of rows | Some t \<Rightarrow> t # tokens_of rows)"
  "tokens_of (xs @ ys) = tokens_of xs @ tokens_of ys"
  by (auto simp: tokens_of_def map_filter_def split: option.splits)

lemma mem_tokens_of: "t \<in> set (tokens_of rows) \<longleftrightarrow> (\<exists>r \<in> set rows. k_token r = Some t)"
  by (induction rows) (auto split: option.splits)

text \<open>Rewriting rows by a function that keeps or drops each row's token keeps them distinct.\<close>

lemma tokens_of_map_drop:
  assumes "distinct (tokens_of rows)" "\<And>r. r \<in> set rows \<Longrightarrow> k_token (f r) = k_token r \<or> k_token (f r) = None"
  shows "distinct (tokens_of (map f rows)) \<and> set (tokens_of (map f rows)) \<subseteq> set (tokens_of rows)"
  using assms
proof (induction rows)
  case (Cons r rows)
  then have "distinct (tokens_of (map f rows)) \<and> set (tokens_of (map f rows)) \<subseteq> set (tokens_of rows)"
    by (auto split: option.splits)
  then show ?case using Cons.prems(1) Cons.prems(2) [of r] by (auto split: option.splits)
qed simp

text \<open>Giving one row a token nobody has keeps them distinct as well.\<close>

lemma tokens_of_upd:
  assumes "distinct (map k_id rows)" "distinct (tokens_of rows)"
    and "k_token r' = Some t" "\<And>r. r \<in> set rows \<Longrightarrow> k_id r \<noteq> k \<Longrightarrow> k_token r \<noteq> Some t"
  shows "distinct (tokens_of (row_upd k_id k (\<lambda>_. r') rows))
    \<and> set (tokens_of (row_upd k_id k (\<lambda>_. r') rows)) \<subseteq> insert t (set (tokens_of rows))"
  using assms
proof (induction rows)
  case (Cons r rows)
  show ?case
  proof (cases "k_id r = k")
    case True
    then have "k \<notin> k_id ` set rows" using Cons.prems(1) by auto
    then have same: "row_upd k_id k (\<lambda>_. r') rows = rows" by (rule row_upd_id)
    have "t \<notin> set (tokens_of rows)"
      using Cons.prems(4) \<open>k \<notin> k_id ` set rows\<close> by (auto simp: mem_tokens_of)
    with True same Cons.prems(2,3) show ?thesis
      by (auto simp: row_upd_def split: option.splits)
  next
    case False
    have "k_token r \<noteq> Some t" using Cons.prems(4) [of r] False by simp
    moreover have "distinct (tokens_of (row_upd k_id k (\<lambda>_. r') rows))
        \<and> set (tokens_of (row_upd k_id k (\<lambda>_. r') rows)) \<subseteq> insert t (set (tokens_of rows))"
      using Cons.prems by (intro Cons.IH) (auto split: option.splits)
    ultimately show ?thesis using False Cons.prems(2)
      by (auto simp: row_upd_def split: option.splits)
  qed
qed (simp add: row_upd_def)

lemma task_get_SomeD: "task_get k q = Some r \<Longrightarrow> r \<in> set (q_rows q) \<and> k_id r = k"
  by (auto simp: task_get_def dest: row_get_SomeD)

lemma task_get_mem: "queue_ok q \<Longrightarrow> r \<in> set (q_rows q) \<Longrightarrow> task_get (k_id r) q = Some r"
  by (simp add: queue_ok_def task_get_def row_get_distinct)

lemma task_get_upd:
  assumes "k_id r' = k"
  shows "task_get k' (task_upd k (\<lambda>_. r') q) =
    (if k' = k then map_option (\<lambda>_. r') (task_get k q) else task_get k' q)"
  using assms by (auto simp: task_get_def task_upd_def row_get_upd_same row_get_upd_other)

lemma task_upd_rows:
  assumes "r' \<in> set (q_rows (task_upd k (\<lambda>_. r0) q))"
  shows "r' = r0 \<or> (r' \<in> set (q_rows q) \<and> k_id r' \<noteq> k)"
  using assms by (auto simp: task_upd_def row_upd_def)

lemma queue_ok_row: "queue_ok q \<Longrightarrow> task_get k q = Some r \<Longrightarrow> row_ok r"
  by (auto simp: queue_ok_def dest: task_get_SomeD)

text \<open>An update of one row that keeps its id, and keeps its token or takes a fresh one.\<close>

lemma task_upd_ok:
  assumes ok: "queue_ok q" and get: "task_get k q = Some r"
    and id: "k_id r' = k" and row: "row_ok r'"
    and tok: "k_token r' = k_token r \<or> (\<exists>t. k_token r' = Some t \<and> q_next q \<le> t \<and> t < n)"
    and n: "q_next q \<le> n"
  shows "queue_ok ((task_upd k (\<lambda>_. r') q)\<lparr>q_next := n\<rparr>)"
proof -
  have r: "r \<in> set (q_rows q)" "k_id r = k" using task_get_SomeD [OF get] by auto
  have uniq: "x = r" if "x \<in> set (q_rows q)" "k_id x = k" for x
    using that r ok by (auto simp: queue_ok_def distinct_map inj_on_def)
  let ?rows = "row_upd k_id k (\<lambda>_. r') (q_rows q)"
  have ids: "map k_id ?rows = map k_id (q_rows q)" using id by (intro row_upd_keys) simp
  have toks: "distinct (tokens_of ?rows) \<and> (\<forall>t \<in> set (tokens_of ?rows). t < n)"
  proof (cases "k_token r'")
    case None
    have "distinct (tokens_of ?rows) \<and> set (tokens_of ?rows) \<subseteq> set (tokens_of (q_rows q))"
      unfolding row_upd_def using ok None
      by (intro tokens_of_map_drop) (auto simp: queue_ok_def)
    with ok n show ?thesis by (fastforce simp: queue_ok_def)
  next
    case (Some t)
    have other: "k_token x \<noteq> Some t" if "x \<in> set (q_rows q)" "k_id x \<noteq> k" for x
    proof (cases "k_token r' = k_token r")
      case True
      show ?thesis
      proof
        assume x: "k_token x = Some t"
        from split_list [OF r(1)] obtain a b where ab: "q_rows q = a @ r # b" by blast
        then have "x \<in> set a \<union> set b" using that r(2) by auto
        moreover have "k_token r = Some t" using True Some by simp
        ultimately have "\<not> distinct (tokens_of (q_rows q))"
          using x ab by (auto simp: mem_tokens_of)
        with ok show False by (simp add: queue_ok_def)
      qed
    next
      case False
      with tok Some have "q_next q \<le> t" by auto
      moreover have "k_token x = Some t \<Longrightarrow> t < q_next q"
        using ok that(1) by (auto simp: queue_ok_def mem_tokens_of)
      ultimately show ?thesis by auto
    qed
    have "t < n"
    proof (cases "k_token r' = k_token r")
      case True
      with Some r(1) ok have "t < q_next q" by (auto simp: queue_ok_def mem_tokens_of)
      with n show ?thesis by simp
    qed (use tok Some in auto)
    moreover have "distinct (tokens_of ?rows) \<and> set (tokens_of ?rows) \<subseteq> insert t (set (tokens_of (q_rows q)))"
      using ok Some other by (intro tokens_of_upd) (auto simp: queue_ok_def)
    ultimately show ?thesis using ok n by (fastforce simp: queue_ok_def)
  qed
  have mem: "x = r' \<or> x \<in> set (q_rows q)" if "x \<in> set ?rows" for x
    using that by (auto simp: row_upd_def)
  have gen: "m < n" if "x \<in> set ?rows" "k_id x = Gen m" for x m
  proof -
    have "\<exists>y \<in> set (q_rows q). k_id y = Gen m" using mem [OF that(1)] that(2) id r by auto
    then show ?thesis using ok n by (fastforce simp: queue_ok_def)
  qed
  have rows: "row_ok x" if "x \<in> set ?rows" for x
    using mem [OF that] row ok by (auto simp: queue_ok_def)
  show ?thesis
    using ok ids toks rows gen by (auto simp: queue_ok_def task_upd_def)
qed

section \<open>Operations keep the invariant\<close>

lemma sublist_mem: "r \<in> set (filter P (take n xs)) \<Longrightarrow> r \<in> set xs \<and> P r"
  by (auto dest: in_set_takeD)

lemma release_rows:
  "q_rows (snd (release_expired now b q)) =
     map (\<lambda>r. if k_id r \<in> k_id ` set (filter (lapsed now) (take (nat (max 1 b)) (filter leased (q_rows q))))
              then requeue now r else r) (q_rows q)"
  "q_next (snd (release_expired now b q)) = q_next q"
  by (simp_all add: release_expired_def Let_def)

lemma requeue_simps [simp]:
  "k_id (requeue now r) = k_id r" "k_token (requeue now r) = None"
  "k_status (requeue now r) = TASK_STATUS_QUEUED" "row_ok (requeue now r)"
  "k_space (requeue now r) = k_space r" "k_kind (requeue now r) = k_kind r"
  "k_priority (requeue now r) = k_priority r" "k_created (requeue now r) = k_created r"
  by (simp_all add: requeue_def row_ok_def)

lemma release_expired_ok: "queue_ok q \<Longrightarrow> queue_ok (snd (release_expired now b q))"
proof -
  assume ok: "queue_ok q"
  let ?f = "\<lambda>r. if k_id r \<in> k_id ` set (filter (lapsed now) (take (nat (max 1 b)) (filter leased (q_rows q))))
              then requeue now r else r"
  have ids: "map k_id (map ?f (q_rows q)) = map k_id (q_rows q)" by (simp add: comp_def)
  have "distinct (tokens_of (map ?f (q_rows q))) \<and> set (tokens_of (map ?f (q_rows q))) \<subseteq> set (tokens_of (q_rows q))"
    using ok by (intro tokens_of_map_drop) (auto simp: queue_ok_def)
  with ok ids show ?thesis
    unfolding queue_ok_def release_rows by (auto simp del: map_map)
qed

lemma require_owned_Inr:
  "require_owned_row k tok q = Inr r \<longleftrightarrow> task_get k q = Some r \<and> k_token r = Some tok"
  by (auto simp: require_owned_row_def split: option.splits)

lemma task_upd_ok': 
  assumes "queue_ok q" "task_get k q = Some r" "k_id r' = k" "row_ok r'" "k_token r' = k_token r"
  shows "queue_ok (task_upd k (\<lambda>_. r') q)"
  using task_upd_ok [OF assms(1-4), of "q_next q"] assms(5) by (simp add: task_upd_def)

lemma owned_row:
  "queue_ok q \<Longrightarrow> task_get k q = Some r \<Longrightarrow> k_token r = Some tok \<Longrightarrow> k_owner r \<noteq> None \<and> k_id r = k"
  using queue_ok_row [of q k r] task_get_SomeD [of k q r] by (auto simp: row_ok_def)

lemma heartbeat_Inr:
  assumes "heartbeat now k tok secs st q = Inr (r', q')"
  obtains r where "task_get k q = Some r" "k_token r = Some tok"
    "st \<in> {TASK_STATUS_CLAIMED, TASK_STATUS_EXECUTING}"
    "r' = r\<lparr>k_status := st, k_lease := Some (now + seconds secs), k_updated := now\<rparr>"
    "q' = task_upd k (\<lambda>_. r') q"
  using assms by (auto simp: heartbeat_def bindE_Inr_iff require_owned_Inr Let_def split: if_splits)

lemma heartbeat_ok:
  assumes "queue_ok q" "heartbeat now k tok secs st q = Inr (r', q')"
  shows "queue_ok q'"
proof -
  obtain r where r: "task_get k q = Some r" "k_token r = Some tok"
    "st \<in> {TASK_STATUS_CLAIMED, TASK_STATUS_EXECUTING}"
    "r' = r\<lparr>k_status := st, k_lease := Some (now + seconds secs), k_updated := now\<rparr>"
    "q' = task_upd k (\<lambda>_. r') q"
    using heartbeat_Inr [OF assms(2)] .
  show ?thesis
    unfolding r(5) using owned_row [OF assms(1) r(1,2)] r(2-4)
    by (intro task_upd_ok' [OF assms(1) r(1)]) (auto simp: row_ok_def)
qed

lemma finish_ok:
  assumes "queue_ok q" "task_get k q = Some r" "k_token r = Some tok"
    "r' = r\<lparr>k_status := st, k_result := res, k_error := err, k_completed := Some now, k_lease := None,
            k_updated := now\<rparr>"
    "st \<in> set TASK_TERMINAL_STATUSES"
  shows "queue_ok (task_upd k (\<lambda>_. r') q)"
  using owned_row [OF assms(1-3)] assms(3-5)
  by (intro task_upd_ok' [OF assms(1,2)]) (auto simp: row_ok_def)

lemma complete_Inr:
  assumes "complete now k tok res q = Inr (r', q')"
  obtains r where "task_get k q = Some r" "k_token r = Some tok" "q' = task_upd k (\<lambda>_. r') q"
    "r' = r\<lparr>k_status := TASK_STATUS_COMPLETED, k_result := Some res, k_completed := Some now,
            k_lease := None, k_updated := now\<rparr>"
  using assms by (auto simp: complete_def bindE_Inr_iff require_owned_Inr Let_def)

lemma fail_Inr:
  assumes "fail now k tok err q = Inr (r', q')"
  obtains r where "task_get k q = Some r" "k_token r = Some tok" "q' = task_upd k (\<lambda>_. r') q"
    "r' = r\<lparr>k_status := TASK_STATUS_FAILED, k_error := Some err, k_completed := Some now,
            k_lease := None, k_updated := now\<rparr>"
  using assms by (auto simp: fail_def bindE_Inr_iff require_owned_Inr Let_def)

lemma complete_ok:
  assumes "queue_ok q" "complete now k tok res q = Inr (r', q')"
  shows "queue_ok q'"
proof -
  obtain r where r: "task_get k q = Some r" "k_token r = Some tok" "q' = task_upd k (\<lambda>_. r') q"
    "r' = r\<lparr>k_status := TASK_STATUS_COMPLETED, k_result := Some res, k_completed := Some now,
            k_lease := None, k_updated := now\<rparr>"
    using complete_Inr [OF assms(2)] .
  show ?thesis unfolding r(3)
    by (rule finish_ok [OF assms(1) r(1,2), where err = "k_error r"])
       (auto simp: r(4) TASK_TERMINAL_STATUSES_def)
qed

lemma fail_ok:
  assumes "queue_ok q" "fail now k tok err q = Inr (r', q')"
  shows "queue_ok q'"
proof -
  obtain r where r: "task_get k q = Some r" "k_token r = Some tok" "q' = task_upd k (\<lambda>_. r') q"
    "r' = r\<lparr>k_status := TASK_STATUS_FAILED, k_error := Some err, k_completed := Some now,
            k_lease := None, k_updated := now\<rparr>"
    using fail_Inr [OF assms(2)] .
  show ?thesis unfolding r(3)
    by (rule finish_ok [OF assms(1) r(1,2), where res = "k_result r"])
       (auto simp: r(4) TASK_TERMINAL_STATUSES_def)
qed

lemma cancel_ok: "queue_ok q \<Longrightarrow> queue_ok (snd (cancel now k why q))"
proof (cases "task_get k q")
  case (Some r)
  assume ok: "queue_ok q"
  have row: "row_ok r" "k_id r = k" using queue_ok_row [OF ok Some] task_get_SomeD [OF Some] by auto
  have "queue_ok (task_upd k (\<lambda>_. r\<lparr>k_status := TASK_STATUS_CANCELLED, k_error := err,
      k_completed := Some now, k_lease := None, k_updated := now\<rparr>) q)" for err
    using row by (intro task_upd_ok' [OF ok Some]) (auto simp: row_ok_def TASK_TERMINAL_STATUSES_def)
  then show ?thesis using ok Some by (simp add: cancel_def Let_def)
qed (simp add: cancel_def)

lemma enqueue_ok:
  assumes "queue_ok q" "enqueue now sp kd pl pr rb par ext q = Inr (r, q')"
  shows "queue_ok q'"
proof -
  have r: "row_get k_id (k_id r) (q_rows q) = None" "row_ok r" "k_token r = None"
    "\<And>n. k_id r = Gen n \<Longrightarrow> n = q_next q"
    and q': "q' = \<lparr>q_rows = q_rows q @ [r], q_next = Suc (q_next q)\<rparr>"
    using assms(2)
    by (auto simp: enqueue_def Let_def row_ok_def key_or_def split: if_splits option.splits)
  then show ?thesis
    using assms(1) by (auto simp: queue_ok_def q' row_get_None_iff less_Suc_eq)
qed

lemma candidates_mem: "r \<in> set (candidates sp kinds q) \<longleftrightarrow> r \<in> set (q_rows q) \<and> matches sp kinds r"
  by (simp add: candidates_def)

definition claimed_row :: "instant \<Rightarrow> string \<Rightarrow> nat \<Rightarrow> instant \<Rightarrow> ktask \<Rightarrow> ktask" where
  "claimed_row now actor tok e r =
     r\<lparr>k_status := TASK_STATUS_CLAIMED, k_owner := Some actor, k_token := Some tok,
       k_lease := Some e, k_claims := k_claims r + 1,
       k_started := (case k_started r of None \<Rightarrow> Some now | Some t \<Rightarrow> Some t), k_updated := now\<rparr>"

lemma claimed_row_simps [simp]:
  "k_id (claimed_row now a t e r) = k_id r" "k_token (claimed_row now a t e r) = Some t"
  "k_lease (claimed_row now a t e r) = Some e" "k_owner (claimed_row now a t e r) = Some a"
  "k_status (claimed_row now a t e r) = TASK_STATUS_CLAIMED" "row_ok (claimed_row now a t e r)"
  by (simp_all add: claimed_row_def row_ok_def)

lemma claim_next_Some:
  assumes "claim_next now sp kinds actor secs q = Inr (Some (r', tok, e), q')"
  shows "\<exists>r rs. actor \<noteq> [] \<and> 0 < secs
    \<and> candidates sp kinds (snd (release_expired now 1000 q)) = r # rs
    \<and> tok = q_next q \<and> e = now + seconds secs \<and> r' = claimed_row now actor tok e r
    \<and> q' = (task_upd (k_id r) (\<lambda>_. r') (snd (release_expired now 1000 q)))\<lparr>q_next := Suc tok\<rparr>"
  using assms
  by (auto simp: claim_next_def Let_def release_rows(2) claimed_row_def split: if_splits list.splits)

lemma claim_next_None:
  "claim_next now sp kinds actor secs q = Inr (None, q') \<longleftrightarrow>
     actor \<noteq> [] \<and> 0 < secs \<and> candidates sp kinds (snd (release_expired now 1000 q)) = []
     \<and> q' = snd (release_expired now 1000 q)"
  by (auto simp: claim_next_def Let_def split: if_splits list.splits)

lemma claim_next_ok:
  assumes "queue_ok q" "claim_next now sp kinds actor secs q = Inr (res, q')"
  shows "queue_ok q'"
proof (cases res)
  case None
  with assms show ?thesis by (auto simp: claim_next_None release_expired_ok)
next
  case (Some x)
  obtain r' tok e where x: "x = (r', tok, e)" by (cases x) auto
  let ?q = "snd (release_expired now 1000 q)"
  obtain r rs where c: "candidates sp kinds ?q = r # rs" "tok = q_next q"
    "r' = claimed_row now actor tok e r"
    "q' = (task_upd (k_id r) (\<lambda>_. r') ?q)\<lparr>q_next := Suc tok\<rparr>"
    using claim_next_Some [OF assms(2) [unfolded Some x]] by blast
  have ok: "queue_ok ?q" using assms(1) by (rule release_expired_ok)
  have "r \<in> set (q_rows ?q)" using c(1) candidates_mem [of r sp kinds ?q] by simp
  then have "task_get (k_id r) ?q = Some r" using ok by (intro task_get_mem)
  then show ?thesis
    unfolding c(4) by (intro task_upd_ok [OF ok]) (auto simp: c(2,3) release_rows(2))
qed

section \<open>The queue as a lease provider\<close>

text \<open>
  What a worker with token \<open>tok\<close> does at time \<open>now\<close>, and what anybody may do: enqueue, sweep,
  and claims that find nothing. A claim's party is the token it is issued.
\<close>

inductive kt_act :: "instant \<Rightarrow> nat \<Rightarrow> kqueue \<Rightarrow> kqueue \<Rightarrow> bool" where
  enq: "enqueue now sp kd pl pr rb par ext q = Inr (r, q') \<Longrightarrow> kt_act now tok q q'"
| claim: "claim_next now sp kinds actor secs q = Inr (Some (r, tok, e), q') \<Longrightarrow> kt_act now tok q q'"
| nothing: "claim_next now sp kinds actor secs q = Inr (None, q') \<Longrightarrow> kt_act now tok q q'"
| beat: "heartbeat now k tok secs st q = Inr (r, q') \<Longrightarrow> kt_act now tok q q'"
| finish: "complete now k tok res q = Inr (r, q') \<Longrightarrow> kt_act now tok q q'"
| failed: "fail now k tok err q = Inr (r, q') \<Longrightarrow> kt_act now tok q q'"
| sweep: "kt_act now tok q (snd (release_expired now b q))"

inductive_cases kt_actE: "kt_act now tok q q'"

definition held_task :: "key \<Rightarrow> nat \<Rightarrow> instant \<Rightarrow> kqueue \<Rightarrow> bool" where
  "held_task k tok e q \<longleftrightarrow>
     (\<exists>r. task_get k q = Some r \<and> leased r \<and> k_token r = Some tok \<and> k_lease r = Some e)"

lemma kt_act_ok: "kt_act now tok q q' \<Longrightarrow> queue_ok q \<Longrightarrow> queue_ok q'"
  by (induction rule: kt_act.induct)
     (auto intro: enqueue_ok claim_next_ok heartbeat_ok complete_ok fail_ok release_expired_ok)

lemma release_get:
  "task_get k (snd (release_expired now b q)) =
     map_option (\<lambda>r. if k_id r \<in> k_id ` set (filter (lapsed now) (take (nat (max 1 b)) (filter leased (q_rows q))))
              then requeue now r else r) (task_get k q)"
  unfolding task_get_def release_rows by (rule row_get_map) simp

lemma stale_lapsed:
  assumes "queue_ok q" "r \<in> set (q_rows q)"
    "k_id r \<in> k_id ` set (filter (lapsed now) (take n (filter leased (q_rows q))))"
  shows "lapsed now r \<and> leased r"
proof -
  obtain x where x: "x \<in> set (take n (filter leased (q_rows q)))" "lapsed now x" "k_id x = k_id r"
    using assms(3) by auto
  then have "x \<in> set (q_rows q)" "leased x" by (auto dest: in_set_takeD)
  moreover have "x = r"
    using assms(1,2) x(3) \<open>x \<in> set (q_rows q)\<close> by (auto simp: queue_ok_def distinct_map inj_on_def)
  ultimately show ?thesis using x(2) by simp
qed

lemma held_release:
  assumes "queue_ok q" "held_task k tok e q" "now < e"
  shows "held_task k tok e (snd (release_expired now b q))"
proof -
  obtain r where r: "task_get k q = Some r" "leased r" "k_token r = Some tok" "k_lease r = Some e"
    using assms(2) by (auto simp: held_task_def)
  have "\<not> lapsed now r" using r(4) assms(3) by (simp add: lapsed_def)
  then have "k_id r \<notin> k_id ` set (filter (lapsed now) (take (nat (max 1 b)) (filter leased (q_rows q))))"
    using stale_lapsed [OF assms(1), of r now] task_get_SomeD [OF r(1)] by blast
  then show ?thesis using r by (simp add: held_task_def release_get)
qed

lemma held_next [simp]: "held_task k tok e (q\<lparr>q_next := n\<rparr>) = held_task k tok e q"
  by (simp add: held_task_def task_get_def)

lemma held_upd_other:
  "k_id r' = k \<Longrightarrow> k' \<noteq> k \<Longrightarrow> held_task k' tok e (task_upd k (\<lambda>_. r') q) = held_task k' tok e q"
  by (simp add: held_task_def task_get_upd)

lemma held_upd_owned:
  assumes "held_task k' tok' e q" "task_get k q = Some r" "k_token r = Some tok" "tok \<noteq> tok'" "k_id r' = k"
  shows "held_task k' tok' e (task_upd k (\<lambda>_. r') q)"
proof -
  have "k' \<noteq> k" using assms(1-4) by (auto simp: held_task_def)
  with assms(1,5) show ?thesis by (simp add: held_upd_other)
qed

lemma held_claim:
  assumes "queue_ok q" "held_task k tok' e' q" "now < e'"
    and "claim_next now sp kinds actor secs q = Inr (Some (r', tok, e), q')"
  shows "held_task k tok' e' q'"
proof -
  let ?q = "snd (release_expired now 1000 q)"
  obtain r rs where c: "candidates sp kinds ?q = r # rs"
    "q' = (task_upd (k_id r) (\<lambda>_. r') ?q)\<lparr>q_next := Suc tok\<rparr>" "k_id r' = k_id r"
    using claim_next_Some [OF assms(4)] claimed_row_simps(1) by blast
  have h: "held_task k tok' e' ?q" using assms(1-3) by (rule held_release)
  have "r \<in> set (q_rows ?q)" "k_status r = TASK_STATUS_QUEUED"
    using c(1) candidates_mem [of r sp kinds ?q] by (auto simp: matches_def)
  then have "task_get (k_id r) ?q = Some r" "\<not> leased r"
    using release_expired_ok [OF assms(1)] by (auto simp: task_get_mem leased_def)
  then have "k \<noteq> k_id r" using h by (auto simp: held_task_def)
  with h c(2,3) show ?thesis by (simp add: held_upd_other)
qed

text \<open>Heartbeat, complete and fail write the one row whose token they present.\<close>

lemma owned_write:
  assumes "heartbeat now k tok secs st q = Inr (r', q') \<or> complete now k tok res q = Inr (r', q')
    \<or> fail now k tok err q = Inr (r', q')"
  shows "\<exists>r. task_get k q = Some r \<and> k_token r = Some tok \<and> q' = task_upd k (\<lambda>_. r') q
    \<and> k_id r' = k \<and> k_token r' = Some tok"
  using assms
  by (auto simp: heartbeat_def complete_def fail_def bindE_Inr_iff require_owned_Inr Let_def
        dest: task_get_SomeD split: if_splits)

lemma kt_act_keeps:
  assumes "queue_ok q" "kt_act now h q q'" "held_task k tok e q" "now < e" "h \<noteq> tok"
  shows "held_task k tok e q'"
  using assms(2,1,3-)
proof (induction rule: kt_act.induct)
  case (enq now sp kd pl pr rb par ext q r q' h)
  then show ?case
    by (auto simp: enqueue_def Let_def held_task_def task_get_def row_get_append
          split: if_splits option.splits)
next
  case (claim now sp kinds actor secs q r tok' e' q')
  then show ?case using held_claim by blast
next
  case (nothing now sp kinds actor secs q q' tok')
  then show ?case by (auto simp: claim_next_None held_release)
next
  case (beat now k' tok' secs st q r' q')
  then show ?case using owned_write held_upd_owned by blast
next
  case (finish now k' tok' res q r' q')
  then show ?case using owned_write held_upd_owned by blast
next
  case (failed now k' tok' err q r' q')
  then show ?case using owned_write held_upd_owned by blast
qed (simp add: held_release)

interpretation lq: lease_provider held_task kt_act "\<lambda>_. queue_ok"
proof
  fix t now e :: instant and s s' :: kqueue and h h' :: nat and r :: key
  assume "queue_ok s" "kt_act now h s s'" "held_task r h' e s" "now < e" "h \<noteq> h'"
  then show "held_task r h' e s'" by (rule kt_act_keeps)
next
  fix t now :: instant and s s' :: kqueue and h :: nat
  assume "queue_ok s" "kt_act now h s s'"
  then show "queue_ok s'" using kt_act_ok by blast
next
  fix t e1 e2 :: instant and s :: kqueue and h1 h2 :: nat and r :: key
  assume "held_task r h1 e1 s" "held_task r h2 e2 s"
  then show "h1 = h2" by (auto simp: held_task_def)
qed

section \<open>Urgency\<close>

definition no_later :: "ktask \<Rightarrow> ktask \<Rightarrow> bool" where
  "no_later r x \<longleftrightarrow>
     k_priority x < k_priority r \<or> (k_priority x = k_priority r \<and> k_created r \<le> k_created x)"

lemma sorted_hd_le: "sorted (map f xs) \<Longrightarrow> x \<in> set xs \<Longrightarrow> f (hd xs) \<le> f x"
  by (cases xs) auto

lemma candidates_hd:
  assumes "candidates sp kinds q = r # rs" "x \<in> set (q_rows q)" "matches sp kinds x"
  shows "no_later r x"
proof -
  let ?base = "select_asc k_created (matches sp kinds) (q_rows q)" and ?f = "\<lambda>r. - k_priority r"
  have x: "x \<in> set (candidates sp kinds q)" using assms(2,3) by (simp add: candidates_mem)
  have "sorted (map ?f (candidates sp kinds q))" by (simp add: candidates_def)
  from sorted_hd_le [OF this x] have prio: "k_priority x \<le> k_priority r" using assms(1) by simp
  have "k_created r \<le> k_created x" if eq: "k_priority x = k_priority r"
  proof -
    have same: "filter (\<lambda>y. ?f y = ?f r) (candidates sp kinds q) = filter (\<lambda>y. ?f y = ?f r) ?base"
      unfolding candidates_def by (rule sort_key_stable)
    have "sorted (map k_created (filter (\<lambda>y. ?f y = ?f r) ?base))"
      using select_asc_sorted [of k_created] by (rule sorted_filter)
    then have "sorted (map k_created (filter (\<lambda>y. ?f y = ?f r) (candidates sp kinds q)))"
      unfolding same .
    moreover have "x \<in> set (filter (\<lambda>y. ?f y = ?f r) (candidates sp kinds q))" using x eq by simp
    moreover have "hd (filter (\<lambda>y. ?f y = ?f r) (candidates sp kinds q)) = r" using assms(1) by simp
    ultimately show ?thesis using sorted_hd_le by metis
  qed
  with prio show ?thesis by (auto simp: no_later_def)
qed

section \<open>Workers claiming in turn\<close>

text \<open>
  The rows a worker may get at \<open>now\<close>: queued, or leased with a lapsed lease, and asked for; in the
  order of urgency and then age. \<open>claims_in_turn\<close> lets the workers of a list (name and lease
  seconds) claim one after the other and collects the ids they get.
\<close>

definition claimable :: "instant \<Rightarrow> string option \<Rightarrow> string list \<Rightarrow> ktask \<Rightarrow> bool" where
  "claimable now space kinds r \<longleftrightarrow>
     (k_status r = TASK_STATUS_QUEUED \<or> (leased r \<and> lapsed now r))
     \<and> (case space of None \<Rightarrow> True | Some s \<Rightarrow> s = [] \<or> k_space r = s)
     \<and> (filter (\<lambda>k. k \<noteq> []) kinds = [] \<or> k_kind r \<in> set (filter (\<lambda>k. k \<noteq> []) kinds))"

definition ranked :: "instant \<Rightarrow> string option \<Rightarrow> string list \<Rightarrow> kqueue \<Rightarrow> ktask list" where
  "ranked now space kinds q =
     sort_key (\<lambda>r. - k_priority r) (select_asc k_created (claimable now space kinds) (q_rows q))"

fun claims_in_turn :: "instant \<Rightarrow> string option \<Rightarrow> string list \<Rightarrow> (string \<times> int) list \<Rightarrow> kqueue \<Rightarrow> key list" where
  "claims_in_turn now space kinds [] q = []"
| "claims_in_turn now space kinds ((actor, secs) # ws) q =
     (case claim_next now space kinds actor secs q of
        Inr (Some (r, _, _), q') \<Rightarrow> k_id r # claims_in_turn now space kinds ws q'
      | _ \<Rightarrow> [])"

definition no_lapsed :: "instant \<Rightarrow> kqueue \<Rightarrow> bool" where
  "no_lapsed now q \<longleftrightarrow> (\<forall>r \<in> set (q_rows q). leased r \<longrightarrow> \<not> lapsed now r)"

lemma insort_key_map: "(\<And>x. f (g x) = f x) \<Longrightarrow> insort_key f (g x) (map g xs) = map g (insort_key f x xs)"
  by (induction xs) auto

lemma sort_key_map: "(\<And>x. f (g x) = f x) \<Longrightarrow> sort_key f (map g xs) = map g (sort_key f xs)"
  by (induction xs) (simp_all add: insort_key_map)

lemma release_none:
  assumes "no_lapsed now q"
  shows "release_expired now b q = (0, q)"
proof -
  have "filter (lapsed now) (take (nat (max 1 b)) (filter leased (q_rows q))) = []"
    using assms set_take_subset [of "nat (max 1 b)" "filter leased (q_rows q)"]
    by (auto simp: no_lapsed_def filter_empty_conv)
  then show ?thesis by (simp only: release_expired_def Let_def) simp
qed

text \<open>With at most a thousand leased rows, the sweep of a claim reaches all that lapsed.\<close>

lemma release_all:
  assumes ok: "queue_ok q" and few: "length (filter leased (q_rows q)) \<le> 1000"
  shows "q_rows (snd (release_expired now 1000 q)) =
    map (\<lambda>r. if leased r \<and> lapsed now r then requeue now r else r) (q_rows q)"
proof -
  have "k_id r \<in> k_id ` {x \<in> set (q_rows q). leased x \<and> lapsed now x} \<longleftrightarrow> leased r \<and> lapsed now r"
    if "r \<in> set (q_rows q)" for r
    using that ok by (auto simp: queue_ok_def distinct_map inj_on_def)
  then show ?thesis
    using few by (auto simp: release_expired_def Let_def conj_commute)
qed

lemma release_no_lapsed:
  assumes "queue_ok q" "length (filter leased (q_rows q)) \<le> 1000"
  shows "no_lapsed now (snd (release_expired now 1000 q))"
  unfolding no_lapsed_def release_all [OF assms] by (auto simp: leased_def)

lemma candidates_ranked:
  assumes ok: "queue_ok q" and few: "length (filter leased (q_rows q)) \<le> 1000"
  shows "map k_id (candidates sp ks (snd (release_expired now 1000 q))) = map k_id (ranked now sp ks q)"
proof -
  let ?u = "\<lambda>r. if leased r \<and> lapsed now r then requeue now r else r"
  have "matches sp ks (?u r) \<longleftrightarrow> claimable now sp ks r" for r
    by (cases sp; cases "leased r \<and> lapsed now r") (auto simp: matches_def claimable_def leased_def)
  then have "filter (matches sp ks) (map ?u (q_rows q)) = map ?u (filter (claimable now sp ks) (q_rows q))"
    by (simp add: filter_map comp_def)
  then have "candidates sp ks (snd (release_expired now 1000 q)) = map ?u (ranked now sp ks q)"
    unfolding candidates_def ranked_def select_asc_def release_all [OF assms]
    by (simp add: sort_key_map)
  then show ?thesis by (simp add: comp_def if_distrib cong: if_cong)
qed

text \<open>A claim from a queue without lapsed leases takes the first candidate and leaves the others.\<close>

lemma claim_takes_first:
  assumes ok: "queue_ok q" and fresh: "no_lapsed now q" and w: "actor \<noteq> []" "0 < secs"
    and c: "candidates sp ks q = r # rs"
  shows "\<exists>r' tok e q'. claim_next now sp ks actor secs q = Inr (Some (r', tok, e), q') \<and> k_id r' = k_id r
    \<and> queue_ok q' \<and> no_lapsed now q' \<and> candidates sp ks q' = rs"
proof -
  define r' where "r' = claimed_row now actor (q_next q) (now + seconds secs) r"
  define q' where "q' = (task_upd (k_id r) (\<lambda>_. r') q)\<lparr>q_next := Suc (q_next q)\<rparr>"
  have run: "claim_next now sp ks actor secs q = Inr (Some (r', q_next q, now + seconds secs), q')"
    using c w by (simp add: claim_next_def release_none [OF fresh] Let_def r'_def q'_def claimed_row_def)
  have rows: "q_rows q' = map (\<lambda>x. if k_id x = k_id r then r' else x) (q_rows q)"
    by (simp add: q'_def task_upd_def row_upd_def)
  have "\<not> lapsed now r'" using w(2) by (simp add: r'_def lapsed_def claimed_row_def seconds_def)
  then have "no_lapsed now q'" using fresh by (auto simp: no_lapsed_def rows)
  moreover have "candidates sp ks q' = rs"
  proof -
    have "\<not> matches sp ks r'" by (simp add: r'_def matches_def claimed_row_def)
    then have "filter (matches sp ks) (map (\<lambda>x. if k_id x = k_id r then r' else x) xs) =
        filter (\<lambda>x. k_id x \<noteq> k_id r) (filter (matches sp ks) xs)" for xs
      by (induction xs) auto
    then have "filter (matches sp ks) (q_rows q') = filter (\<lambda>x. k_id x \<noteq> k_id r) (filter (matches sp ks) (q_rows q))"
      by (simp only: rows)
    then have "candidates sp ks q' = filter (\<lambda>x. k_id x \<noteq> k_id r) (candidates sp ks q)"
      by (simp add: candidates_def select_asc_def filter_sort)
    moreover have "k_id r \<notin> k_id ` set rs"
    proof -
      have "distinct (map k_id (candidates sp ks q))"
        using ok by (auto simp: candidates_def select_asc_def queue_ok_def distinct_map intro: inj_on_subset)
      then show ?thesis by (simp add: c)
    qed
    then have "filter (\<lambda>x. k_id x \<noteq> k_id r) rs = rs" by (intro filter_True) (metis imageI)
    ultimately show ?thesis by (simp add: c)
  qed
  moreover have "queue_ok q'" using ok run by (rule claim_next_ok)
  ultimately show ?thesis using run by (auto simp: r'_def)
qed

lemma claims_no_lapsed:
  assumes "queue_ok q" "no_lapsed now q" "\<forall>(w, secs) \<in> set ws. w \<noteq> [] \<and> 0 < secs"
  shows "claims_in_turn now sp ks ws q = map k_id (take (length ws) (candidates sp ks q))"
  using assms
proof (induction ws arbitrary: q)
  case (Cons a ws)
  obtain w secs where a: "a = (w, secs)" by (cases a)
  have w: "w \<noteq> []" "0 < secs" using Cons.prems(3) a by auto
  show ?case
  proof (cases "candidates sp ks q")
    case Nil
    then show ?thesis using w by (simp add: a claim_next_def release_none [OF Cons.prems(2)] Let_def)
  next
    case (Cons r rs)
    obtain r' tok e q' where c: "claim_next now sp ks w secs q = Inr (Some (r', tok, e), q')" "k_id r' = k_id r"
      "queue_ok q'" "no_lapsed now q'" "candidates sp ks q' = rs"
      using claim_takes_first [OF Cons.prems(1,2) w Cons] by blast
    then show ?thesis using Cons.IH [OF c(3,4)] Cons.prems(3) Cons by (simp add: a)
  qed
qed simp

section \<open>Properties\<close>

definition empty_queue :: kqueue where
  "empty_queue = \<lparr>q_rows = [], q_next = 0\<rparr>"

definition sample_queue :: kqueue where
  "sample_queue =
     (case enqueue 1 ''s'' ''build'' [] 0 ''ann'' None None empty_queue of
        Inl _ \<Rightarrow> empty_queue
      | Inr (_, q) \<Rightarrow>
          (case enqueue 2 ''s'' ''build'' [] 5 ''ann'' None (Some ''x7'') q of
             Inl _ \<Rightarrow> q | Inr (_, q') \<Rightarrow> q'))"

lemma empty_queue_ok: "queue_ok empty_queue"
  by (simp add: queue_ok_def empty_queue_def)

lemma sample_queue_ok: "queue_ok sample_queue"
  by (auto simp: sample_queue_def empty_queue_ok split: sum.splits
        intro: enqueue_ok [OF enqueue_ok [OF empty_queue_ok]] enqueue_ok [OF empty_queue_ok])

text \<open>C22: Every operation of the queue, the administrative cancel included, keeps its invariant:
  ids are distinct, a queued row has no owner, token or lease, a claimed or executing row has all
  three, a terminal row has a completion time and no lease, and no two rows share a token.\<close>

theorem task_queue_invariant:
  assumes "queue_ok q" "kt_act now tok q q' \<or> (\<exists>k why. q' = snd (cancel now k why q))"
  shows "queue_ok q'"
  using assms kt_act_ok cancel_ok by blast

theorem task_queue_invariant_witness:
  "queue_ok (snd (cancel 9 (Ext ''x7'') None sample_queue))"
  using task_queue_invariant [OF sample_queue_ok, of 9 0] by blast

text \<open>\<open>claim_next\<close> hands out, among the queued rows that match the filters once lapsed leases are
  requeued, one of highest priority and, among those, of earliest creation; it becomes claimed by
  the caller under a token nobody had before, with the lease asked for, and no other row changes.
  It returns nothing only when no row matches.\<close>

theorem claim_next_picks:
  assumes "queue_ok q" "claim_next now sp kinds actor secs q = Inr (res, q')"
  shows "let q1 = snd (release_expired now 1000 q) in
    case res of
      None \<Rightarrow> q' = q1 \<and> (\<forall>x \<in> set (q_rows q1). \<not> matches sp kinds x)
    | Some (r', tok, e) \<Rightarrow>
        \<exists>r \<in> set (q_rows q1). matches sp kinds r
          \<and> (\<forall>x \<in> set (q_rows q1). matches sp kinds x \<longrightarrow> no_later r x)
          \<and> tok \<notin> set (tokens_of (q_rows q)) \<and> e = now + seconds secs
          \<and> r' = claimed_row now actor tok e r
          \<and> task_get (k_id r) q' = Some r'
          \<and> (\<forall>k. k \<noteq> k_id r \<longrightarrow> task_get k q' = task_get k q1)"
proof (cases res)
  case None
  with assms(2) have "candidates sp kinds (snd (release_expired now 1000 q)) = []"
    "q' = snd (release_expired now 1000 q)"
    by (auto simp: claim_next_None)
  moreover have "\<not> matches sp kinds x" if "x \<in> set (q_rows (snd (release_expired now 1000 q)))" for x
    using that candidates_mem [of x sp kinds "snd (release_expired now 1000 q)"] calculation(1) by simp
  ultimately show ?thesis by (simp add: None Let_def)
next
  case (Some x)
  obtain r' tok e where x: "x = (r', tok, e)" by (cases x) auto
  let ?q = "snd (release_expired now 1000 q)"
  obtain r rs where c: "candidates sp kinds ?q = r # rs" "tok = q_next q" "e = now + seconds secs"
    "r' = claimed_row now actor tok e r"
    "q' = (task_upd (k_id r) (\<lambda>_. r') ?q)\<lparr>q_next := Suc tok\<rparr>"
    using claim_next_Some [OF assms(2) [unfolded Some x]] by blast
  have r: "r \<in> set (q_rows ?q)" "matches sp kinds r"
    using c(1) candidates_mem [of r sp kinds ?q] by simp_all
  then have get: "task_get (k_id r) ?q = Some r" using release_expired_ok [OF assms(1)] by (intro task_get_mem)
  have get': "task_get k q' = (if k = k_id r then Some r' else task_get k ?q)" for k
    using get task_get_upd [of r' "k_id r" k ?q] c(4,5) by (simp add: task_get_def)
  have fresh: "tok \<notin> set (tokens_of (q_rows q))" using assms(1) c(2) by (auto simp: queue_ok_def)
  have first: "\<forall>x \<in> set (q_rows ?q). matches sp kinds x \<longrightarrow> no_later r x"
    using candidates_hd [OF c(1)] by blast
  have mine: "task_get (k_id r) q' = Some r'"
    and others: "\<forall>k. k \<noteq> k_id r \<longrightarrow> task_get k q' = task_get k ?q"
    using get' by simp_all
  show ?thesis
    unfolding Some x Let_def option.case prod.case
    by (intro bexI [of _ r] conjI r fresh first mine others c(3,4))
qed

theorem claim_next_picks_witness:
  "\<exists>r' tok e q'. claim_next 3 (Some ''s'') [''build''] ''w'' 60 sample_queue = Inr (Some (r', tok, e), q')
     \<and> k_id r' = Ext ''x7'' \<and> task_get (k_id r') q' = Some r'"
proof -
  have "(case claim_next 3 (Some ''s'') [''build''] ''w'' 60 sample_queue of
      Inr (Some (r', _, _), _) \<Rightarrow> k_id r' = Ext ''x7'' | _ \<Rightarrow> False)"
    by code_simp
  then obtain r' tok e q' where run:
      "claim_next 3 (Some ''s'') [''build''] ''w'' 60 sample_queue = Inr (Some (r', tok, e), q')"
    and id: "k_id r' = Ext ''x7''"
    by (auto split: sum.splits option.splits)
  from claim_next_picks [OF sample_queue_ok run] have "task_get (k_id r') q' = Some r'"
    by (auto simp: Let_def)
  with run id show ?thesis by blast
qed

text \<open>C5: A lease protects its holder. From the claim until the lease expires, whatever other
  workers do (enqueue, sweep, claim, heartbeat, complete, fail, in any order and number), the task
  stays leased to the claimer under the token it was given.\<close>

theorem lease_protects_holder:
  assumes "queue_ok q" "claim_next now sp kinds actor secs q = Inr (Some (r, tok, e), q1)"
    and "acts_run kt_act acts q1 q2" "clocked now acts"
    and "\<forall>(t, h) \<in> set acts. t < e \<and> h \<noteq> tok"
  shows "held_task (k_id r) tok e q2"
proof -
  have ok: "queue_ok q1" using assms(1,2) by (rule claim_next_ok)
  have "task_get (k_id r) q1 = Some r \<and> leased r \<and> k_token r = Some tok \<and> k_lease r = Some e"
    using claim_next_picks [OF assms(1,2)] by (auto simp: Let_def leased_def)
  then have "held_task (k_id r) tok e q1" by (auto simp: held_task_def)
  then show ?thesis using lq.run_keeps [OF ok assms(4,3)] assms(5) by fast
qed

theorem lease_protects_holder_witness:
  "\<exists>r tok e q1 q2. claim_next 3 None [] ''w'' 60 sample_queue = Inr (Some (r, tok, e), q1)
     \<and> acts_run kt_act [(4, 99), (5, 99)] q1 q2 \<and> held_task (k_id r) tok e q2"
proof -
  have "(case claim_next 3 None [] ''w'' 60 sample_queue of
      Inr (Some (_, tok, e), _) \<Rightarrow> tok = 2 \<and> e = 60000003 | _ \<Rightarrow> False)"
    by code_simp
  then obtain r tok e q1 where run: "claim_next 3 None [] ''w'' 60 sample_queue = Inr (Some (r, tok, e), q1)"
    and te: "tok = 2" "e = 60000003"
    by (auto split: sum.splits option.splits)
  let ?q2 = "snd (release_expired 5 10 (snd (release_expired 4 10 q1)))"
  have acts: "acts_run kt_act [(4, 99), (5, 99)] q1 ?q2" by (auto intro: kt_act.sweep)
  have "held_task (k_id r) tok e ?q2"
    using lease_protects_holder [OF sample_queue_ok run acts] te by simp
  with run acts show ?thesis by blast
qed

text \<open>C23: No work is stuck behind a dead worker. As long as at most a thousand rows are leased, workers
  that claim one after the other are handed exactly the rows that are queued or whose lease has
  lapsed, the most urgent first and the oldest first among equals: a row whose lease lapsed has its
  place in that order like any other, and as many workers as there are such rows take every one.\<close>

theorem lapsed_work_is_claimable:
  assumes "queue_ok q" "length (filter leased (q_rows q)) \<le> 1000"
    and "\<forall>(actor, secs) \<in> set ws. actor \<noteq> [] \<and> 0 < secs"
  shows "claims_in_turn now space kinds ws q = map k_id (take (length ws) (ranked now space kinds q))
    \<and> (r \<in> set (q_rows q) \<and> claimable now space kinds r \<and> length (ranked now space kinds q) \<le> length ws
         \<longrightarrow> k_id r \<in> set (claims_in_turn now space kinds ws q))"
proof -
  let ?q = "snd (release_expired now 1000 q)"
  have fresh: "no_lapsed now ?q" using assms(1,2) by (rule release_no_lapsed)
  have "claims_in_turn now space kinds ws q = claims_in_turn now space kinds ws ?q"
    by (cases ws) (auto simp: claim_next_def release_none [OF fresh])
  also have "\<dots> = map k_id (take (length ws) (candidates space kinds ?q))"
    using release_expired_ok [OF assms(1)] fresh assms(3) by (rule claims_no_lapsed)
  also have "\<dots> = map k_id (take (length ws) (ranked now space kinds q))"
    by (simp add: candidates_ranked [OF assms(1,2)] flip: take_map)
  finally have run: "claims_in_turn now space kinds ws q = map k_id (take (length ws) (ranked now space kinds q))" .
  moreover have "set (ranked now space kinds q) = {r \<in> set (q_rows q). claimable now space kinds r}"
    by (simp add: ranked_def)
  ultimately show ?thesis by auto
qed

definition dead_worker_queue :: kqueue where
  "dead_worker_queue =
     (case claim_next 3 (Some ''s'') [] ''w'' 60 sample_queue of Inl _ \<Rightarrow> sample_queue | Inr (_, q) \<Rightarrow> q)"

theorem lapsed_work_is_claimable_witness:
  "map k_status (q_rows dead_worker_queue) = [TASK_STATUS_QUEUED, TASK_STATUS_CLAIMED]
   \<and> claims_in_turn 60000003 (Some ''s'') [''build''] [(''v'', 60), (''u'', 60)] dead_worker_queue
     = map k_id (take 2 (ranked 60000003 (Some ''s'') [''build''] dead_worker_queue))
   \<and> map k_id (ranked 60000003 (Some ''s'') [''build''] dead_worker_queue) = [Ext ''x7'', Gen 0]"
proof -
  have "queue_ok dead_worker_queue"
    using sample_queue_ok claim_next_ok by (auto simp: dead_worker_queue_def split: sum.splits)
  moreover have "length (filter leased (q_rows dead_worker_queue)) = 1" by code_simp
  moreover have "map k_status (q_rows dead_worker_queue) = [TASK_STATUS_QUEUED, TASK_STATUS_CLAIMED]"
    "map k_id (ranked 60000003 (Some ''s'') [''build''] dead_worker_queue) = [Ext ''x7'', Gen 0]"
    by code_simp+
  moreover have "length [(''v'' :: string, 60 :: int), (''u'', 60)] = 2" "\<forall>(w, secs) \<in> set [(''v'' :: string, 60 :: int), (''u'', 60)]. w \<noteq> [] \<and> 0 < secs"
    by simp_all
  ultimately show ?thesis
    using lapsed_work_is_claimable [of dead_worker_queue "[(''v'', 60), (''u'', 60)]" 60000003 "Some ''s''" "[''build'']"]
    by (simp only: one_le_numeral simp_thms)
qed

text \<open>Finishing a task does not retire its token: after \<open>complete\<close>, \<open>fail\<close> or a cancel of a
  claimed task, a heartbeat with the same token succeeds and puts the task back to executing with
  a live lease.\<close>

theorem terminal_task_revived:
  assumes "task_get k q = Some r" "k_token r = Some tok"
    and "q1 = snd (cancel now k why q) \<or> (\<exists>r1. complete now k tok res q = Inr (r1, q1))
      \<or> (\<exists>r1. fail now k tok res q = Inr (r1, q1))"
  shows "\<exists>r2 q2. heartbeat later k tok secs TASK_STATUS_EXECUTING q1 = Inr (r2, q2)
      \<and> task_get k q2 = Some r2 \<and> k_status r2 = TASK_STATUS_EXECUTING
      \<and> k_lease r2 = Some (later + seconds secs)"
proof -
  have id: "k_id r = k" using task_get_SomeD [OF assms(1)] by simp
  have "\<exists>r1. task_get k q1 = Some r1 \<and> k_token r1 = Some tok \<and> k_id r1 = k"
    using assms(3)
  proof (elim disjE exE)
    assume "q1 = snd (cancel now k why q)"
    then show ?thesis using assms(1,2) id by (simp add: cancel_def Let_def task_get_upd)
  next
    fix r1 assume "complete now k tok res q = Inr (r1, q1)"
    then show ?thesis using assms(1,2) id
      by (auto simp: complete_def require_owned_row_def Let_def task_get_upd)
  next
    fix r1 assume "fail now k tok res q = Inr (r1, q1)"
    then show ?thesis using assms(1,2) id
      by (auto simp: fail_def require_owned_row_def Let_def task_get_upd)
  qed
  then show ?thesis by (auto simp: heartbeat_def require_owned_row_def Let_def task_get_upd)
qed

theorem terminal_task_revived_witness:
  "\<exists>r tok e q1 r1 q2 r2 q3. claim_next 3 None [] ''w'' 60 sample_queue = Inr (Some (r, tok, e), q1)
     \<and> complete 4 (k_id r) tok [] q1 = Inr (r1, q2)
     \<and> heartbeat 5 (k_id r) tok 60 TASK_STATUS_EXECUTING q2 = Inr (r2, q3)
     \<and> k_status r2 = TASK_STATUS_EXECUTING"
proof -
  have "(case claim_next 3 None [] ''w'' 60 sample_queue of Inr (Some _, _) \<Rightarrow> True | _ \<Rightarrow> False)"
    by code_simp
  then obtain r tok e q1 where run: "claim_next 3 None [] ''w'' 60 sample_queue = Inr (Some (r, tok, e), q1)"
    by (auto split: sum.splits option.splits)
  have get: "task_get (k_id r) q1 = Some r" "k_token r = Some tok"
    using claim_next_picks [OF sample_queue_ok run] by (auto simp: Let_def)
  obtain r1 q2 where fin: "complete 4 (k_id r) tok [] q1 = Inr (r1, q2)"
    using get by (auto simp: complete_def require_owned_row_def Let_def)
  obtain r2 q3 where "heartbeat 5 (k_id r) tok 60 TASK_STATUS_EXECUTING q2 = Inr (r2, q3)"
    "k_status r2 = TASK_STATUS_EXECUTING"
    using terminal_task_revived [OF get, of q2 4 None "[]" 5 60] fin by blast
  with run fin show ?thesis by blast
qed

end
