(* ===== verification/Scratch.thy ===== *)
theory Scratch
  imports Lease
begin

text \<open>
  \<open>kernel/scratch.py\<close>: a key-value side channel with optional expiry, keyed by actor, space and
  key. The host session does not autoflush: a row handed to \<open>session.delete\<close> is still found by
  queries and is gone only after the next flush, and assignments to such a row are dropped with it.
\<close>

section \<open>Rows and the session\<close>

type_synonym scratch_key = "string \<times> string \<times> string"

record scratch_row =
  sc_key :: scratch_key
  sc_value :: json
  sc_created :: instant
  sc_updated :: instant
  sc_expires :: "instant option"

text \<open>\<open>sc_doomed\<close> holds the keys of the rows marked for deletion and not yet flushed.\<close>

record scratch =
  sc_rows :: "scratch_row list"
  sc_doomed :: "scratch_key list"

definition flush :: "scratch \<Rightarrow> scratch" where
  "flush st = \<lparr>sc_rows = filter (\<lambda>r. sc_key r \<notin> set (sc_doomed st)) (sc_rows st), sc_doomed = []\<rparr>"

section \<open>Operations\<close>

definition fetch_row :: "scratch_key \<Rightarrow> scratch \<Rightarrow> scratch_row option" where
  "fetch_row k st = row_get sc_key k (sc_rows st)"

text \<open>\<open>None\<close> is the caller's default.\<close>

definition scratch_get :: "instant \<Rightarrow> scratch_key \<Rightarrow> scratch \<Rightarrow> json option" where
  "scratch_get now k st =
     (case fetch_row k st of
        None \<Rightarrow> None
      | Some r \<Rightarrow>
          (case sc_expires r of
             Some e \<Rightarrow> if e \<le> now then None else Some (sc_value r)
           | None \<Rightarrow> Some (sc_value r)))"

definition scratch_has :: "instant \<Rightarrow> scratch_key \<Rightarrow> scratch \<Rightarrow> bool" where
  "scratch_has now k st \<longleftrightarrow> scratch_get now k st \<noteq> None"

definition scratch_delete :: "scratch_key \<Rightarrow> scratch \<Rightarrow> bool \<times> scratch" where
  "scratch_delete k st =
     (case fetch_row k st of
        None \<Rightarrow> (False, st)
      | Some r \<Rightarrow> (True, st\<lparr>sc_doomed := k # sc_doomed st\<rparr>))"

definition scratch_set :: "instant \<Rightarrow> scratch_key \<Rightarrow> json \<Rightarrow> int option \<Rightarrow> scratch \<Rightarrow> scratch" where
  "scratch_set now k v ttl st =
     (if (case ttl of None \<Rightarrow> False | Some n \<Rightarrow> n \<le> 0) then snd (scratch_delete k st)
      else
        let expires = map_option (\<lambda>n. now + seconds n) ttl
        in case fetch_row k st of
             None \<Rightarrow>
               flush (st\<lparr>sc_rows := sc_rows st @ [\<lparr>sc_key = k, sc_value = v, sc_created = now,
                                                   sc_updated = now, sc_expires = expires\<rparr>]\<rparr>)
           | Some _ \<Rightarrow>
               flush (st\<lparr>sc_rows := row_upd sc_key k
                           (\<lambda>r. r\<lparr>sc_value := v, sc_updated := now, sc_expires := expires\<rparr>) (sc_rows st)\<rparr>))"

definition cleanup_expired :: "instant \<Rightarrow> int \<Rightarrow> scratch \<Rightarrow> int \<times> scratch" where
  "cleanup_expired now batch_size st =
     (let rows = take (nat (max 1 batch_size)) (filter (\<lambda>r. sc_expires r \<noteq> None) (sc_rows st));
          dead = filter (\<lambda>r. case sc_expires r of None \<Rightarrow> False | Some e \<Rightarrow> e \<le> now) rows
      in (int (length dead), st\<lparr>sc_doomed := map sc_key dead @ sc_doomed st\<rparr>))"

section \<open>The map it stands for\<close>

text \<open>
  The specification: a map from keys to values with a deadline; a reader at \<open>now\<close> sees the entries
  whose deadline has not passed.
\<close>

type_synonym deadline_map = "scratch_key \<Rightarrow> (json \<times> instant option) option"

definition visible :: "instant \<Rightarrow> deadline_map \<Rightarrow> scratch_key \<Rightarrow> json option" where
  "visible now m k =
     (case m k of
        None \<Rightarrow> None
      | Some (v, d) \<Rightarrow> (case d of None \<Rightarrow> Some v | Some e \<Rightarrow> if e \<le> now then None else Some v))"

definition abs_map :: "scratch \<Rightarrow> deadline_map" where
  "abs_map st k = map_option (\<lambda>r. (sc_value r, sc_expires r)) (fetch_row k st)"

text \<open>One transaction with one operation, committed.\<close>

datatype scratch_op =
    Put scratch_key json "int option"
  | Remove scratch_key
  | Cleanup int

fun apply_op :: "instant \<Rightarrow> scratch_op \<Rightarrow> scratch \<Rightarrow> scratch" where
  "apply_op now (Put k v ttl) st = flush (scratch_set now k v ttl st)"
| "apply_op now (Remove k) st = flush (snd (scratch_delete k st))"
| "apply_op now (Cleanup b) st = flush (snd (cleanup_expired now b st))"

fun spec_op :: "instant \<Rightarrow> scratch_op \<Rightarrow> deadline_map \<Rightarrow> deadline_map" where
  "spec_op now (Put k v ttl) m =
     m(k := (case ttl of None \<Rightarrow> Some (v, None)
             | Some n \<Rightarrow> if n \<le> 0 then None else Some (v, Some (now + seconds n))))"
| "spec_op now (Remove k) m = m(k := None)"
| "spec_op now (Cleanup b) m = m"

fun run_ops :: "(instant \<times> scratch_op) list \<Rightarrow> scratch \<Rightarrow> scratch" where
  "run_ops [] st = st"
| "run_ops ((now, x) # xs) st = run_ops xs (apply_op now x st)"

fun spec_ops :: "(instant \<times> scratch_op) list \<Rightarrow> deadline_map \<Rightarrow> deadline_map" where
  "spec_ops [] m = m"
| "spec_ops ((now, x) # xs) m = spec_ops xs (spec_op now x m)"

definition clean :: "scratch \<Rightarrow> bool" where
  "clean st \<longleftrightarrow> sc_doomed st = [] \<and> distinct (map sc_key (sc_rows st))"

section \<open>Lemmas\<close>

lemma scratch_get_visible: "scratch_get now k st = visible now (abs_map st) k"
  by (simp add: scratch_get_def visible_def abs_map_def split: option.splits)

lemma fetch_flush [simp]:
  "fetch_row k (flush st) = (if k \<in> set (sc_doomed st) then None else fetch_row k st)"
  by (simp add: fetch_row_def flush_def row_get_filter)

lemma fetch_doom [simp]: "fetch_row k (st\<lparr>sc_doomed := d\<rparr>) = fetch_row k st"
  by (simp add: fetch_row_def)

lemma fetch_add [simp]:
  "fetch_row k (st\<lparr>sc_rows := sc_rows st @ [r]\<rparr>) =
     (case fetch_row k st of None \<Rightarrow> if sc_key r = k then Some r else None | Some x \<Rightarrow> Some x)"
  by (simp add: fetch_row_def row_get_append row_get_Cons split: option.splits)

lemma fetch_upd:
  assumes "\<And>r. sc_key (f r) = sc_key r"
  shows "fetch_row k' (st\<lparr>sc_rows := row_upd sc_key k f (sc_rows st)\<rparr>) =
    (if k' = k then map_option f (fetch_row k st) else fetch_row k' st)"
  using assms by (simp add: fetch_row_def row_get_upd_same row_get_upd_other)

lemma abs_map_flush: "abs_map (flush st) k = (if k \<in> set (sc_doomed st) then None else abs_map st k)"
  by (simp add: abs_map_def)

lemma flush_clean: "distinct (map sc_key (sc_rows st)) \<Longrightarrow> clean (flush st)"
  by (simp add: clean_def flush_def distinct_map_filter)

lemma flush_id: "clean st \<Longrightarrow> flush st = st"
  by (simp add: clean_def flush_def)

lemma set_clean: "clean st \<Longrightarrow> clean (flush (scratch_set now k v ttl st))"
proof (rule flush_clean)
  assume st: "clean st"
  then have st': "distinct (map sc_key (sc_rows st))" by (simp add: clean_def)
  have keys: "map sc_key (row_upd sc_key k (\<lambda>r. r\<lparr>sc_value := v, sc_updated := now, sc_expires := e\<rparr>) (sc_rows st))
      = map sc_key (sc_rows st)" for e
    by (rule row_upd_keys) simp
  have fresh: "fetch_row k st = None \<Longrightarrow> k \<notin> sc_key ` set (sc_rows st)"
    by (simp add: fetch_row_def row_get_None_iff)
  show "distinct (map sc_key (sc_rows (scratch_set now k v ttl st)))"
    using st' keys fresh
    by (auto simp: scratch_set_def scratch_delete_def Let_def flush_def distinct_map_filter
          split: option.splits if_splits)
qed

lemma apply_clean: "clean st \<Longrightarrow> clean (apply_op now x st)"
proof (cases x)
  case (Put k v ttl)
  assume "clean st"
  with Put show ?thesis by (simp add: set_clean)
next
  case (Remove k)
  assume "clean st"
  then have "distinct (map sc_key (sc_rows (snd (scratch_delete k st))))"
    by (simp add: scratch_delete_def clean_def split: option.splits)
  with Remove show ?thesis by (simp add: flush_clean)
next
  case (Cleanup b)
  assume "clean st"
  then have "distinct (map sc_key (sc_rows (snd (cleanup_expired now b st))))"
    by (simp add: cleanup_expired_def clean_def Let_def)
  with Cleanup show ?thesis by (simp add: flush_clean)
qed

lemma abs_delete: "clean st \<Longrightarrow> abs_map (flush (snd (scratch_delete k st))) = (abs_map st)(k := None)"
  by (rule ext) (simp add: scratch_delete_def clean_def abs_map_def split: option.splits)

lemma abs_put_new:
  assumes "clean st" "fetch_row k st = None"
  shows "abs_map (flush (st\<lparr>sc_rows := sc_rows st @ [\<lparr>sc_key = k, sc_value = v, sc_created = t,
           sc_updated = t, sc_expires = e\<rparr>]\<rparr>)) = (abs_map st)(k \<mapsto> (v, e))"
  by (rule ext) (use assms in \<open>simp add: abs_map_def clean_def split: option.splits\<close>)

lemma abs_put_old:
  assumes "clean st" "fetch_row k st = Some r"
  shows "abs_map (flush (st\<lparr>sc_rows := row_upd sc_key k
           (\<lambda>r. r\<lparr>sc_value := v, sc_updated := t, sc_expires := e\<rparr>) (sc_rows st)\<rparr>)) = (abs_map st)(k \<mapsto> (v, e))"
  by (rule ext) (use assms in \<open>simp add: abs_map_def clean_def fetch_upd\<close>)

lemma abs_put: "clean st \<Longrightarrow> abs_map (apply_op now (Put k v ttl) st) = spec_op now (Put k v ttl) (abs_map st)"
proof -
  assume st: "clean st"
  show ?thesis
  proof (cases "case ttl of None \<Rightarrow> False | Some n \<Rightarrow> n \<le> 0")
    case True
    then have "scratch_set now k v ttl st = snd (scratch_delete k st)" by (simp add: scratch_set_def)
    with True st show ?thesis by (auto simp: abs_delete split: option.splits)
  next
    case False
    define e where "e = map_option (\<lambda>n. now + seconds n) ttl"
    have spec: "spec_op now (Put k v ttl) (abs_map st) = (abs_map st)(k \<mapsto> (v, e))"
      using False by (auto simp: e_def split: option.splits)
    have once: "flush (flush s) = flush s" for s by (simp add: flush_def)
    show ?thesis
      using False st abs_put_new [OF st] abs_put_old [OF st]
      unfolding spec by (cases "fetch_row k st") (simp_all add: scratch_set_def once flip: e_def)
  qed
qed

text \<open>A cleanup drops only what no later reader sees.\<close>

lemma visible_cleanup:
  assumes "clean st" "now \<le> later"
  shows "visible later (abs_map (apply_op now (Cleanup b) st)) k = visible later (abs_map st) k"
proof -
  define dead where "dead = filter (\<lambda>r. case sc_expires r of None \<Rightarrow> False | Some e \<Rightarrow> e \<le> now)
    (take (nat (max 1 b)) (filter (\<lambda>r. sc_expires r \<noteq> None) (sc_rows st)))"
  have doomed: "abs_map (apply_op now (Cleanup b) st) k = (if k \<in> sc_key ` set dead then None else abs_map st k)"
    using assms(1) by (auto simp: cleanup_expired_def Let_def dead_def abs_map_flush clean_def abs_map_def)
  show ?thesis
  proof (cases "k \<in> sc_key ` set dead")
    case True
    then obtain r where r: "r \<in> set dead" "sc_key r = k" by blast
    then have mem: "r \<in> set (sc_rows st)" by (auto simp: dead_def dest: in_set_takeD)
    have "fetch_row k st = Some r"
      using row_get_distinct [of sc_key, OF _ mem] assms(1) r(2) by (simp add: fetch_row_def clean_def)
    moreover have "\<exists>e. sc_expires r = Some e \<and> e \<le> now"
      using r(1) by (auto simp: dead_def split: option.splits)
    ultimately have "visible later (abs_map st) k = None"
      using assms(2) by (auto simp: visible_def abs_map_def)
    with doomed True show ?thesis by (simp add: visible_def)
  next
    case False
    with doomed show ?thesis by (simp add: visible_def)
  qed
qed

lemma visible_spec_cong:
  assumes "\<forall>later \<ge> now. visible later m = visible later m'"
  shows "\<forall>later \<ge> now. visible later (spec_op now x m) = visible later (spec_op now x m')"
  using assms by (cases x) (auto simp: visible_def fun_eq_iff)

lemma visible_refines:
  assumes "clean st" "clocked t xs" "\<forall>later \<ge> t. visible later (abs_map st) = visible later m"
  shows "\<forall>later \<ge> end_time t xs. visible later (abs_map (run_ops xs st)) = visible later (spec_ops xs m)"
  using assms
proof (induction xs arbitrary: t st m)
  case (Cons a xs)
  obtain now x where a: "a = (now, x)" by (cases a)
  with Cons.prems have now: "t \<le> now" "clocked now xs" by auto
  have "visible later (abs_map (apply_op now x st)) = visible later (spec_op now x (abs_map st))"
    if "now \<le> later" for later
  proof (cases x)
    case (Put k v ttl)
    with Cons.prems(1) show ?thesis by (simp only: abs_put)
  next
    case (Remove k)
    with Cons.prems(1) show ?thesis by (simp add: abs_delete)
  next
    case (Cleanup b)
    show ?thesis
      by (rule ext) (simp only: Cleanup spec_op.simps visible_cleanup [OF Cons.prems(1) that])
  qed
  moreover have "\<forall>later \<ge> now. visible later (spec_op now x (abs_map st)) = visible later (spec_op now x m)"
    using Cons.prems(3) now(1) by (intro visible_spec_cong) auto
  ultimately have "\<forall>later \<ge> now. visible later (abs_map (apply_op now x st)) = visible later (spec_op now x m)"
    by simp
  with Cons.IH [OF apply_clean [OF Cons.prems(1)] now(2)] show ?case by (simp add: a)
qed simp

section \<open>Properties\<close>

definition no_scratch :: scratch where
  "no_scratch = \<lparr>sc_rows = [], sc_doomed = []\<rparr>"

text \<open>C24: The scratch table implements a map with deadlines. After any committed sets, deletes and
  cleanups with a clock that does not go back, a reader at any later time sees exactly what the map
  with the same updates shows at that time, where cleanup does nothing.\<close>

theorem scratch_refines_map:
  assumes "clean st" "clocked t xs" "end_time t xs \<le> now"
  shows "scratch_get now k (run_ops xs st) = visible now (spec_ops xs (abs_map st)) k"
  using visible_refines [OF assms(1,2), of "abs_map st"] assms(3) by (simp add: scratch_get_visible)

theorem scratch_refines_map_witness:
  "scratch_get (seconds 4) ([], [], ''n'')
     (run_ops [(0, Put ([], [], ''n'') (JInt 1) (Some 2)), (seconds 3, Cleanup 10),
               (seconds 3, Put ([], [], ''n'') (JInt 2) None)] no_scratch) = Some (JInt 2)"
proof -
  have "clean no_scratch" by (simp add: clean_def no_scratch_def)
  from scratch_refines_map [OF this, of 0 "[(0, Put ([], [], ''n'') (JInt 1) (Some 2)), (seconds 3, Cleanup 10),
      (seconds 3, Put ([], [], ''n'') (JInt 2) None)]" "seconds 4" "([], [], ''n'')"]
  show ?thesis by (simp add: seconds_def visible_def)
qed

text \<open>Within one transaction a set after a delete of the same key is lost: the row found by the
  set is the one marked for deletion, the flush removes it with the new value, and after the commit
  the key has no value.\<close>

theorem set_after_delete_is_lost:
  assumes "fetch_row k st = Some r" "\<not> (\<exists>n. ttl = Some n \<and> n \<le> 0)"
  shows "scratch_get now k (flush (scratch_set now k v ttl (snd (scratch_delete k st)))) = None"
proof -
  have "\<not> (case ttl of None \<Rightarrow> False | Some n \<Rightarrow> n \<le> 0)" using assms(2) by (auto split: option.splits)
  with assms(1) have "fetch_row k (scratch_set now k v ttl (snd (scratch_delete k st))) = None"
    by (simp add: scratch_set_def scratch_delete_def Let_def)
  then show ?thesis by (simp add: scratch_get_def)
qed

theorem set_after_delete_is_lost_witness:
  "scratch_get 1 ([], [], ''n'') (flush (scratch_set 1 ([], [], ''n'') (JInt 2) None
     (snd (scratch_delete ([], [], ''n'') (apply_op 0 (Put ([], [], ''n'') (JInt 1) None) no_scratch))))) = None"
proof -
  have "\<exists>r. fetch_row ([], [], ''n'') (apply_op 0 (Put ([], [], ''n'') (JInt 1) None) no_scratch) = Some r"
    by (simp add: scratch_set_def fetch_row_def no_scratch_def flush_def row_get_Cons)
  then show ?thesis using set_after_delete_is_lost [of "([], [], ''n'')" _ _ None] by blast
qed

end
