(* ===== verification/Contract.thy ===== *)
theory Contract
  imports Base
begin

text \<open>
  The protocol contract, \<open>nas_bridge/app/kernel/v2/contract.py\<close>: vocabulary, resolution sets,
  the per-kind transition graph, the event-kind taxonomy, the next-responder inference and the
  validators of \<open>expected_response\<close>, artifact descriptors and operation policies.
  Constants are the source's strings. Every \<open>raise\<close> is an \<open>Inl\<close>; a message is kept up to
  its first interpolated value.
\<close>

datatype contract_error =
    ValueError string
  | TypeError

section \<open>Vocabulary\<close>

abbreviation KIND_GENERAL :: string where "KIND_GENERAL \<equiv> ''general''"
abbreviation KIND_INQUIRY :: string where "KIND_INQUIRY \<equiv> ''inquiry''"
abbreviation KIND_PROPOSAL :: string where "KIND_PROPOSAL \<equiv> ''proposal''"
abbreviation KIND_TASK :: string where "KIND_TASK \<equiv> ''task''"

abbreviation STATE_OPEN :: string where "STATE_OPEN \<equiv> ''open''"
abbreviation STATE_CLAIMED :: string where "STATE_CLAIMED \<equiv> ''claimed''"
abbreviation STATE_EXECUTING :: string where "STATE_EXECUTING \<equiv> ''executing''"
abbreviation STATE_BLOCKED_APPROVAL :: string where "STATE_BLOCKED_APPROVAL \<equiv> ''blocked_approval''"
abbreviation STATE_VERIFYING :: string where "STATE_VERIFYING \<equiv> ''verifying''"
abbreviation STATE_CLOSED :: string where "STATE_CLOSED \<equiv> ''closed''"

definition ALL_KINDS :: "string list" where
  "ALL_KINDS = [KIND_GENERAL, KIND_INQUIRY, KIND_PROPOSAL, KIND_TASK]"

definition SPEECH_KINDS :: "string list" where
  "SPEECH_KINDS =
     [''claim'', ''question'', ''answer'', ''propose'', ''agree'', ''object'', ''evidence'',
      ''block'', ''defer'', ''summarize'', ''react'', ''move_close'', ''ratify'', ''invite'',
      ''join'']"

definition ALLOWED_RESOLUTIONS :: "string \<Rightarrow> string list option" where
  "ALLOWED_RESOLUTIONS = map_of
     [(KIND_INQUIRY, [''answered'', ''dropped'', ''escalated'', ''abandoned'']),
      (KIND_PROPOSAL, [''accepted'', ''rejected'', ''withdrawn'', ''superseded'', ''abandoned'']),
      (KIND_TASK, [''completed'', ''failed'', ''cancelled'', ''abandoned'']),
      (KIND_GENERAL, [])]"

definition ALLOWED_TRANSITIONS :: "string \<Rightarrow> (string \<times> string list) list option" where
  "ALLOWED_TRANSITIONS = map_of
     [(KIND_GENERAL, [(STATE_OPEN, [])]),
      (KIND_INQUIRY, [(STATE_OPEN, [])]),
      (KIND_PROPOSAL, [(STATE_OPEN, [])]),
      (KIND_TASK,
        [(STATE_OPEN, [STATE_CLAIMED]),
         (STATE_CLAIMED, [STATE_EXECUTING, STATE_OPEN]),
         (STATE_EXECUTING, [STATE_BLOCKED_APPROVAL, STATE_VERIFYING, STATE_CLAIMED]),
         (STATE_BLOCKED_APPROVAL, [STATE_EXECUTING, STATE_CLAIMED]),
         (STATE_VERIFYING, [STATE_EXECUTING])])]"

definition EVENT_KIND_TO_TARGET_STATE :: "(string \<times> string) list" where
  "EVENT_KIND_TO_TARGET_STATE =
     [(''chat.task.claimed'', STATE_CLAIMED),
      (''chat.task.evidence'', STATE_EXECUTING),
      (''chat.task.approval_requested'', STATE_BLOCKED_APPROVAL)]"

abbreviation EVENT_SYSTEM_NUDGE :: string where "EVENT_SYSTEM_NUDGE \<equiv> ''chat.system.nudge''"

abbreviation CAP_CONVERSATION_OPEN :: string where "CAP_CONVERSATION_OPEN \<equiv> ''conversation.open''"
abbreviation CAP_CONVERSATION_CLOSE :: string where "CAP_CONVERSATION_CLOSE \<equiv> ''conversation.close''"
abbreviation CAP_CONVERSATION_CLOSE_OPENER :: string
  where "CAP_CONVERSATION_CLOSE_OPENER \<equiv> ''conversation.close.opener''"
abbreviation CAP_CONVERSATION_HANDOFF :: string
  where "CAP_CONVERSATION_HANDOFF \<equiv> ''conversation.handoff''"
abbreviation CAP_SPEECH_SUBMIT :: string where "CAP_SPEECH_SUBMIT \<equiv> ''speech.submit''"
abbreviation CAP_TASK_CLAIM :: string where "CAP_TASK_CLAIM \<equiv> ''task.claim''"
abbreviation CAP_TASK_COMPLETE :: string where "CAP_TASK_COMPLETE \<equiv> ''task.complete''"
abbreviation CAP_TASK_FAIL :: string where "CAP_TASK_FAIL \<equiv> ''task.fail''"
abbreviation CAP_TASK_APPROVE_DESTRUCTIVE :: string
  where "CAP_TASK_APPROVE_DESTRUCTIVE \<equiv> ''task.approve.destructive''"

definition ALL_CAPABILITIES :: "string list" where
  "ALL_CAPABILITIES =
     [CAP_CONVERSATION_OPEN, CAP_CONVERSATION_CLOSE, CAP_CONVERSATION_CLOSE_OPENER,
      CAP_CONVERSATION_HANDOFF, CAP_SPEECH_SUBMIT, CAP_TASK_CLAIM, CAP_TASK_COMPLETE,
      CAP_TASK_FAIL, CAP_TASK_APPROVE_DESTRUCTIVE]"

definition DEFAULT_CAPABILITIES_HUMAN :: "string list" where
  "DEFAULT_CAPABILITIES_HUMAN =
     [CAP_CONVERSATION_OPEN, CAP_CONVERSATION_CLOSE, CAP_CONVERSATION_CLOSE_OPENER,
      CAP_CONVERSATION_HANDOFF, CAP_SPEECH_SUBMIT, CAP_TASK_CLAIM, CAP_TASK_COMPLETE,
      CAP_TASK_FAIL]"

definition DEFAULT_CAPABILITIES_AI :: "string list" where
  "DEFAULT_CAPABILITIES_AI =
     [CAP_CONVERSATION_OPEN, CAP_CONVERSATION_CLOSE_OPENER, CAP_CONVERSATION_HANDOFF,
      CAP_SPEECH_SUBMIT, CAP_TASK_CLAIM, CAP_TASK_COMPLETE, CAP_TASK_FAIL]"

section \<open>Event-kind taxonomy\<close>

text \<open>\<open>_category_of\<close>: the first known category among all dot-separated tokens but the last.\<close>

definition KNOWN_CATEGORIES :: "string list" where
  "KNOWN_CATEGORIES = [''speech'', ''system'', ''conversation'', ''task'']"

definition category_of :: "string \<Rightarrow> string option" where
  "category_of kind =
     (if kind = [] then None
      else List.find (\<lambda>tok. tok \<in> set KNOWN_CATEGORIES) (butlast (split_on CHR ''.'' kind)))"

definition is_speech_kind :: "string \<Rightarrow> bool" where
  "is_speech_kind kind \<longleftrightarrow> category_of kind = Some ''speech''"

definition is_system_kind :: "string \<Rightarrow> bool" where
  "is_system_kind kind \<longleftrightarrow> category_of kind = Some ''system''"

text \<open>\<open>kind.rsplit(".", 1)[-1]\<close> is the last token.\<close>

definition speech_action :: "string \<Rightarrow> string option" where
  "speech_action kind =
     (if is_speech_kind kind then Some (last (split_on CHR ''.'' kind)) else None)"

section \<open>Next-responder inference\<close>

datatype channel = Handle | ActorId

text \<open>
  \<open>infer_implicit_responder\<close>. Actor ids are never empty strings (they are generated keys), so
  the two id channels only test presence; a handle list that holds a non-string or an empty
  string first falls through to the next channel.
\<close>

definition first_handle :: "json \<Rightarrow> string option" where
  "first_handle v =
     (case v of
        JArr (JStr h # _) \<Rightarrow> (if h \<noteq> [] then Some h else None)
      | _ \<Rightarrow> None)"

definition infer_implicit_responder ::
  "obj option \<Rightarrow> 'id list \<Rightarrow> 'id option \<Rightarrow> (string + 'id) option" where
  "infer_implicit_responder expected addressed replies_to_author =
     (case (case expected of None \<Rightarrow> None
            | Some ex \<Rightarrow> first_handle (obj_get ex ''from_actor_handles'')) of
        Some h \<Rightarrow> Some (Inl h)
      | None \<Rightarrow>
          (case addressed of
             a # _ \<Rightarrow> Some (Inr a)
           | [] \<Rightarrow> map_option Inr replies_to_author))"

section \<open>Validating an expected response\<close>

abbreviation EXPECTED_RESPONSE_KIND_WILDCARD :: string
  where "EXPECTED_RESPONSE_KIND_WILDCARD \<equiv> ''*''"

text \<open>A lone string is wrapped in a list; anything else that is no list is refused.\<close>

definition as_list :: "string \<Rightarrow> json \<Rightarrow> contract_error + json list" where
  "as_list msg v =
     (case v of JStr s \<Rightarrow> Inr [JStr s] | JArr xs \<Rightarrow> Inr xs | _ \<Rightarrow> Inl (ValueError msg))"

definition norm_handle :: "json \<Rightarrow> contract_error + json" where
  "norm_handle h =
     (case h of
        JStr s \<Rightarrow>
          (if s = [] then Inl (ValueError ''expected_response.from_actor_handles entries'')
           else Inr (JStr (at_handle s)))
      | _ \<Rightarrow> Inl (ValueError ''expected_response.from_actor_handles entries''))"

definition check_kind :: "json \<Rightarrow> contract_error + json" where
  "check_kind k =
     (if k = JStr EXPECTED_RESPONSE_KIND_WILDCARD then Inr k
      else if unhashable k then Inl TypeError
      else if k \<in> JStr ` set SPEECH_KINDS then Inr k
      else Inl (ValueError ''expected_response.kinds: unknown speech kind''))"

definition check_by_round :: "json \<Rightarrow> contract_error + obj" where
  "check_by_round by =
     (if by = JNull then Inr []
      else case as_int by of
        None \<Rightarrow> Inl (ValueError ''expected_response.by_round_seq'')
      | Some n \<Rightarrow>
          (if n < 0 then Inl (ValueError ''expected_response.by_round_seq'')
           else Inr [(''by_round_seq'', by)]))"

definition check_kinds :: "json \<Rightarrow> contract_error + obj" where
  "check_kinds kinds =
     (if kinds = JNull then Inr []
      else bindE (as_list ''expected_response.kinds must be a list'' kinds) (\<lambda>ks.
           bindE (mapE check_kind ks) (\<lambda>ks'. Inr [(''kinds'', JArr ks')])))"

definition validate_expected_response :: "json \<Rightarrow> contract_error + obj option" where
  "validate_expected_response v =
     (case v of
        JNull \<Rightarrow> Inr None
      | JObj [] \<Rightarrow> Inr None
      | JObj kvs \<Rightarrow>
          bindE (as_list ''expected_response.from_actor_handles must be a list''
                   (py_or (py_or (obj_get kvs ''from_actor_handles'') (obj_get kvs ''from''))
                          (JArr []))) (\<lambda>handles.
          bindE (mapE norm_handle handles) (\<lambda>norm_handles.
          bindE (check_kinds (obj_get kvs ''kinds'')) (\<lambda>kinds_part.
          bindE (check_by_round (obj_get kvs ''by_round_seq'')) (\<lambda>by_part.
          Inr (Some ((''from_actor_handles'', JArr norm_handles) # kinds_part @ by_part))))))
      | _ \<Rightarrow> Inl (ValueError ''expected_response must be a dict''))"

text \<open>The shape every stored expected response has.\<close>

definition handle_ok :: "json \<Rightarrow> bool" where
  "handle_ok h \<longleftrightarrow> (\<exists>s. h = JStr s \<and> prefix ''@'' s)"

definition kind_ok :: "json \<Rightarrow> bool" where
  "kind_ok k \<longleftrightarrow> (\<exists>s. k = JStr s \<and> (s = EXPECTED_RESPONSE_KIND_WILDCARD \<or> s \<in> set SPEECH_KINDS))"

definition kinds_part_ok :: "obj \<Rightarrow> bool" where
  "kinds_part_ok part \<longleftrightarrow>
     part = [] \<or> (\<exists>ks. part = [(''kinds'', JArr ks)] \<and> list_all kind_ok ks)"

definition by_part_ok :: "obj \<Rightarrow> bool" where
  "by_part_ok part \<longleftrightarrow>
     part = [] \<or> (\<exists>by n. part = [(''by_round_seq'', by)] \<and> as_int by = Some n \<and> 0 \<le> n)"

definition expected_ok :: "obj \<Rightarrow> bool" where
  "expected_ok ex \<longleftrightarrow>
     (\<exists>hs kinds_part by_part.
        ex = (''from_actor_handles'', JArr hs) # kinds_part @ by_part
        \<and> list_all handle_ok hs \<and> kinds_part_ok kinds_part \<and> by_part_ok by_part)"

lemma norm_handle_ok: "norm_handle h = Inr h' \<Longrightarrow> handle_ok h'"
  by (auto simp: norm_handle_def handle_ok_def split: json.splits if_splits)

lemma norm_handle_fixed: "handle_ok h \<Longrightarrow> norm_handle h = Inr h"
  by (auto simp: norm_handle_def handle_ok_def at_handle_fixed)

lemma check_kind_ok: "check_kind k = Inr k' \<longleftrightarrow> k' = k \<and> kind_ok k"
  by (auto simp: check_kind_def kind_ok_def split: if_splits)

lemma mapE_check_kind: "mapE check_kind ks = Inr ks' \<longleftrightarrow> ks' = ks \<and> list_all kind_ok ks"
  by (induction ks arbitrary: ks') (auto simp: bindE_Inr_iff check_kind_ok)

lemma mapE_norm_handle_ok: "mapE norm_handle hs = Inr hs' \<Longrightarrow> list_all handle_ok hs'"
  by (induction hs arbitrary: hs') (auto simp: bindE_Inr_iff dest: norm_handle_ok)

lemma mapE_norm_handle_fixed: "list_all handle_ok hs \<Longrightarrow> mapE norm_handle hs = Inr hs"
  by (induction hs) (auto simp: norm_handle_fixed)

lemma check_kinds_ok: "check_kinds v = Inr part \<Longrightarrow> kinds_part_ok part"
  by (auto simp: check_kinds_def kinds_part_ok_def bindE_Inr_iff mapE_check_kind split: if_splits)

lemma check_by_round_ok: "check_by_round v = Inr part \<Longrightarrow> by_part_ok part"
  by (auto simp: check_by_round_def by_part_ok_def split: option.splits if_splits)

lemma as_list_JArr [simp]: "as_list m (JArr xs) = Inr xs"
  by (simp add: as_list_def)

lemma py_or_JArr_Nil [simp]: "py_or (py_or (JArr xs) JNull) (JArr []) = JArr xs"
  by (simp add: py_or_def)

lemma validate_expected_ok:
  assumes "validate_expected_response v = Inr (Some ex)"
  shows "expected_ok ex"
proof -
  obtain kv kvs where v: "v = JObj (kv # kvs)"
    using assms by (cases v) (auto simp: validate_expected_response_def split: list.splits)
  with assms show ?thesis
    unfolding validate_expected_response_def expected_ok_def
    by (fastforce simp: bindE_Inr_iff
          dest: mapE_norm_handle_ok check_kinds_ok check_by_round_ok)
qed

text \<open>A stored expected response is a fixed point: what is read back needs no second check.\<close>

lemma check_parts_fixed:
  assumes "kinds_part_ok kp" "by_part_ok bp"
  shows "check_kinds (obj_get (kp @ bp) ''kinds'') = Inr kp"
    and "check_by_round (obj_get (kp @ bp) ''by_round_seq'') = Inr bp"
    and "obj_get (kp @ bp) ''from'' = JNull"
  using assms
  by (auto simp: kinds_part_ok_def by_part_ok_def check_kinds_def check_by_round_def mapE_check_kind
        bindE_Inr_iff)

lemma validate_expected_fixed:
  assumes "expected_ok ex"
  shows "validate_expected_response (JObj ex) = Inr (Some ex)"
  using assms unfolding expected_ok_def
  by (auto simp: validate_expected_response_def check_parts_fixed mapE_norm_handle_fixed)

section \<open>Properties\<close>

text \<open>An expected response that validates is stored in one normal form (handles prefixed
  with @, known speech kinds or the wildcard, a non-negative round), and validating the stored
  form again returns it unchanged.\<close>

theorem expected_response_normal_form:
  assumes "validate_expected_response v = Inr (Some ex)"
  shows "expected_ok ex \<and> validate_expected_response (JObj ex) = Inr (Some ex)"
  using validate_expected_ok [OF assms] validate_expected_fixed by blast

theorem expected_response_normal_form_witness:
  "validate_expected_response (JObj [(''from'', JStr ''bob''), (''kinds'', JArr [JStr ''ratify''])])
     = Inr (Some [(''from_actor_handles'', JArr [JStr ''@bob'']), (''kinds'', JArr [JStr ''ratify''])])
   \<and> expected_ok [(''from_actor_handles'', JArr [JStr ''@bob'']), (''kinds'', JArr [JStr ''ratify''])]"
proof -
  have run: "validate_expected_response
       (JObj [(''from'', JStr ''bob''), (''kinds'', JArr [JStr ''ratify''])])
     = Inr (Some [(''from_actor_handles'', JArr [JStr ''@bob'']), (''kinds'', JArr [JStr ''ratify''])])"
    by code_simp
  show ?thesis using run expected_response_normal_form [OF run] by blast
qed

text \<open>The next responder is inferred by a fixed priority: the first handle of the expected
  response, else the first addressed actor, else the author of the event replied to; a message
  with none of the three is terminal.\<close>

theorem infer_responder_priority:
  "infer_implicit_responder expected addressed author =
     (if \<exists>ex h hs. expected = Some ex \<and> obj_get ex ''from_actor_handles'' = JArr (JStr h # hs) \<and> h \<noteq> []
      then Some (Inl (the (first_handle (obj_get (the expected) ''from_actor_handles''))))
      else if addressed \<noteq> [] then Some (Inr (hd addressed))
      else map_option Inr author)"
  by (auto simp: infer_implicit_responder_def first_handle_def
        split: option.splits list.splits json.splits)

end
