(* ===== verification/Validators.thy ===== *)
theory Validators
  imports Contract
begin

text \<open>
  The remaining validators of \<open>kernel/v2/contract.py\<close>: operation policies
  (\<open>validate_operation_policy\<close>), artifact descriptors (\<open>validate_artifact_payload\<close>,
  \<open>validate_artifacts_list\<close>) and the import-time self check (\<open>validate_contract\<close>).
\<close>

section \<open>Operation policy\<close>

abbreviation CLOSE_POLICY_OPENER_UNILATERAL :: string
  where "CLOSE_POLICY_OPENER_UNILATERAL \<equiv> ''opener_unilateral''"
abbreviation CLOSE_POLICY_ANY_PARTICIPANT :: string
  where "CLOSE_POLICY_ANY_PARTICIPANT \<equiv> ''any_participant''"
abbreviation CLOSE_POLICY_QUORUM :: string where "CLOSE_POLICY_QUORUM \<equiv> ''quorum''"
abbreviation CLOSE_POLICY_OPERATOR_RATIFIES :: string
  where "CLOSE_POLICY_OPERATOR_RATIFIES \<equiv> ''operator_ratifies''"
abbreviation JOIN_POLICY_INVITE_ONLY :: string where "JOIN_POLICY_INVITE_ONLY \<equiv> ''invite_only''"
abbreviation JOIN_POLICY_SELF_OR_INVITE :: string
  where "JOIN_POLICY_SELF_OR_INVITE \<equiv> ''self_or_invite''"
abbreviation JOIN_POLICY_OPEN :: string where "JOIN_POLICY_OPEN \<equiv> ''open''"
abbreviation CONTEXT_COMPACTION_NONE :: string where "CONTEXT_COMPACTION_NONE \<equiv> ''none''"
abbreviation CONTEXT_COMPACTION_ROLLING_SUMMARY :: string
  where "CONTEXT_COMPACTION_ROLLING_SUMMARY \<equiv> ''rolling_summary''"

definition ALL_CLOSE_POLICIES :: "string list" where
  "ALL_CLOSE_POLICIES =
     [CLOSE_POLICY_OPENER_UNILATERAL, CLOSE_POLICY_ANY_PARTICIPANT, CLOSE_POLICY_QUORUM,
      CLOSE_POLICY_OPERATOR_RATIFIES]"

definition ALL_JOIN_POLICIES :: "string list" where
  "ALL_JOIN_POLICIES =
     [JOIN_POLICY_INVITE_ONLY, JOIN_POLICY_SELF_OR_INVITE, JOIN_POLICY_OPEN]"

definition ALL_CONTEXT_COMPACTIONS :: "string list" where
  "ALL_CONTEXT_COMPACTIONS = [CONTEXT_COMPACTION_NONE, CONTEXT_COMPACTION_ROLLING_SUMMARY]"

text \<open>
  The policy dict has a fixed set of keys, so it is a record. \<open>max_rounds\<close> and
  \<open>min_ratifiers\<close> hold the number the value compares as (Python's \<open>True\<close> is 1).
\<close>

record op_policy =
  close_policy :: string
  join_policy :: string
  context_compaction :: string
  max_rounds :: "int option"
  min_ratifiers :: "int option"
  bot_open :: bool
  bind_remote_task :: bool
  requires_artifact :: bool

definition DEFAULT_OPERATION_POLICY :: op_policy where
  "DEFAULT_OPERATION_POLICY =
     \<lparr>close_policy = CLOSE_POLICY_OPENER_UNILATERAL, join_policy = JOIN_POLICY_SELF_OR_INVITE,
      context_compaction = CONTEXT_COMPACTION_NONE, max_rounds = None, min_ratifiers = None,
      bot_open = True, bind_remote_task = True, requires_artifact = False\<rparr>"

text \<open>The three kinds of field check: membership of an enum, a positive int, a bool.\<close>

definition check_enum ::
  "string \<Rightarrow> string list \<Rightarrow> (string \<Rightarrow> op_policy \<Rightarrow> op_policy) \<Rightarrow> json \<Rightarrow> op_policy
     \<Rightarrow> contract_error + op_policy" where
  "check_enum msg allowed upd v base =
     (if v = JNull then Inr base
      else if unhashable v then Inl TypeError
      else case v of
        JStr s \<Rightarrow> (if s \<in> set allowed then Inr (upd s base) else Inl (ValueError msg))
      | _ \<Rightarrow> Inl (ValueError msg))"

definition check_pos_int ::
  "string \<Rightarrow> (int \<Rightarrow> op_policy \<Rightarrow> op_policy) \<Rightarrow> json \<Rightarrow> op_policy \<Rightarrow> contract_error + op_policy"
  where
  "check_pos_int msg upd v base =
     (if v = JNull then Inr base
      else case as_int v of
        None \<Rightarrow> Inl (ValueError msg)
      | Some n \<Rightarrow> (if n \<le> 0 then Inl (ValueError msg) else Inr (upd n base)))"

definition check_bool ::
  "string \<Rightarrow> (bool \<Rightarrow> op_policy \<Rightarrow> op_policy) \<Rightarrow> json \<Rightarrow> op_policy \<Rightarrow> contract_error + op_policy"
  where
  "check_bool msg upd v base =
     (case v of JNull \<Rightarrow> Inr base | JBool b \<Rightarrow> Inr (upd b base) | _ \<Rightarrow> Inl (ValueError msg))"

definition policy_fields :: "obj \<Rightarrow> op_policy \<Rightarrow> contract_error + op_policy" where
  "policy_fields v base =
     bindE (check_enum ''policy.close_policy: unknown'' ALL_CLOSE_POLICIES
              (\<lambda>x. close_policy_update (\<lambda>_. x)) (obj_get v ''close_policy'') base) (\<lambda>base.
     bindE (check_enum ''policy.join_policy: unknown'' ALL_JOIN_POLICIES
              (\<lambda>x. join_policy_update (\<lambda>_. x)) (obj_get v ''join_policy'') base) (\<lambda>base.
     bindE (check_enum ''policy.context_compaction: unknown'' ALL_CONTEXT_COMPACTIONS
              (\<lambda>x. context_compaction_update (\<lambda>_. x)) (obj_get v ''context_compaction'') base) (\<lambda>base.
     bindE (check_pos_int ''policy.max_rounds must be a positive int''
              (\<lambda>n. max_rounds_update (\<lambda>_. Some n)) (obj_get v ''max_rounds'') base) (\<lambda>base.
     bindE (check_pos_int ''policy.min_ratifiers must be a positive int''
              (\<lambda>n. min_ratifiers_update (\<lambda>_. Some n)) (obj_get v ''min_ratifiers'') base) (\<lambda>base.
     bindE (check_bool ''policy.bot_open must be a bool''
              (\<lambda>b. bot_open_update (\<lambda>_. b)) (obj_get v ''bot_open'') base) (\<lambda>base.
     bindE (check_bool ''policy.bind_remote_task must be a bool''
              (\<lambda>b. bind_remote_task_update (\<lambda>_. b)) (obj_get v ''bind_remote_task'') base) (\<lambda>base.
     check_bool ''policy.requires_artifact must be a bool''
              (\<lambda>b. requires_artifact_update (\<lambda>_. b)) (obj_get v ''requires_artifact'') base)))))))"

definition validate_operation_policy :: "json \<Rightarrow> contract_error + op_policy" where
  "validate_operation_policy v =
     bindE (if truthy v
            then (case v of JObj kvs \<Rightarrow> policy_fields kvs DEFAULT_OPERATION_POLICY
                  | _ \<Rightarrow> Inl (ValueError ''policy must be a dict''))
            else Inr DEFAULT_OPERATION_POLICY) (\<lambda>base.
     if close_policy base = CLOSE_POLICY_QUORUM
        \<and> (min_ratifiers base = None \<or> min_ratifiers base = Some 0)
     then Inl (ValueError ''policy.close_policy=quorum requires min_ratifiers'')
     else Inr base)"

text \<open>How the normalized dict is stored in \<open>metadata["policy"]\<close>.\<close>

definition int_json :: "int option \<Rightarrow> json" where
  "int_json n = (case n of None \<Rightarrow> JNull | Some n \<Rightarrow> JInt n)"

definition policy_json :: "op_policy \<Rightarrow> json" where
  "policy_json p = JObj
     [(''close_policy'', JStr (close_policy p)),
      (''join_policy'', JStr (join_policy p)),
      (''context_compaction'', JStr (context_compaction p)),
      (''max_rounds'', int_json (max_rounds p)),
      (''min_ratifiers'', int_json (min_ratifiers p)),
      (''bot_open'', JBool (bot_open p)),
      (''bind_remote_task'', JBool (bind_remote_task p)),
      (''requires_artifact'', JBool (requires_artifact p))]"

definition policy_ok :: "op_policy \<Rightarrow> bool" where
  "policy_ok p \<longleftrightarrow>
     close_policy p \<in> set ALL_CLOSE_POLICIES \<and> join_policy p \<in> set ALL_JOIN_POLICIES
     \<and> context_compaction p \<in> set ALL_CONTEXT_COMPACTIONS
     \<and> (\<forall>n. max_rounds p = Some n \<longrightarrow> 0 < n) \<and> (\<forall>n. min_ratifiers p = Some n \<longrightarrow> 0 < n)
     \<and> (close_policy p = CLOSE_POLICY_QUORUM \<longrightarrow> min_ratifiers p \<noteq> None)"

text \<open>The field ranges without the cross-field rule: what every field check maintains.\<close>

definition fields_ok :: "op_policy \<Rightarrow> bool" where
  "fields_ok p \<longleftrightarrow>
     close_policy p \<in> set ALL_CLOSE_POLICIES \<and> join_policy p \<in> set ALL_JOIN_POLICIES
     \<and> context_compaction p \<in> set ALL_CONTEXT_COMPACTIONS
     \<and> (\<forall>n. max_rounds p = Some n \<longrightarrow> 0 < n) \<and> (\<forall>n. min_ratifiers p = Some n \<longrightarrow> 0 < n)"

lemma check_enum_inv:
  assumes "check_enum msg allowed upd v base = Inr p" "P base"
    "\<And>s. s \<in> set allowed \<Longrightarrow> P (upd s base)"
  shows "P p"
  using assms by (auto simp: check_enum_def split: json.splits if_splits)

lemma check_pos_int_inv:
  assumes "check_pos_int msg upd v base = Inr p" "P base" "\<And>n. 0 < n \<Longrightarrow> P (upd n base)"
  shows "P p"
  using assms by (auto simp: check_pos_int_def split: option.splits if_splits)

lemma check_bool_inv:
  assumes "check_bool msg upd v base = Inr p" "P base" "\<And>b. P (upd b base)"
  shows "P p"
  using assms by (auto simp: check_bool_def split: json.splits)

lemma fields_ok_updates [simp]:
  "fields_ok p \<Longrightarrow> s \<in> set ALL_CLOSE_POLICIES \<Longrightarrow> fields_ok (p\<lparr>close_policy := s\<rparr>)"
  "fields_ok p \<Longrightarrow> s \<in> set ALL_JOIN_POLICIES \<Longrightarrow> fields_ok (p\<lparr>join_policy := s\<rparr>)"
  "fields_ok p \<Longrightarrow> s \<in> set ALL_CONTEXT_COMPACTIONS \<Longrightarrow> fields_ok (p\<lparr>context_compaction := s\<rparr>)"
  "fields_ok p \<Longrightarrow> 0 < n \<Longrightarrow> fields_ok (p\<lparr>max_rounds := Some n\<rparr>)"
  "fields_ok p \<Longrightarrow> 0 < n \<Longrightarrow> fields_ok (p\<lparr>min_ratifiers := Some n\<rparr>)"
  "fields_ok p \<Longrightarrow> fields_ok (p\<lparr>bot_open := b\<rparr>)"
  "fields_ok p \<Longrightarrow> fields_ok (p\<lparr>bind_remote_task := b\<rparr>)"
  "fields_ok p \<Longrightarrow> fields_ok (p\<lparr>requires_artifact := b\<rparr>)"
  by (auto simp: fields_ok_def)

lemma fields_ok_default [simp]: "fields_ok DEFAULT_OPERATION_POLICY"
  by (simp add: fields_ok_def DEFAULT_OPERATION_POLICY_def ALL_CLOSE_POLICIES_def
        ALL_JOIN_POLICIES_def ALL_CONTEXT_COMPACTIONS_def)

lemma policy_fields_ok:
  assumes "policy_fields v base = Inr p" "fields_ok base"
  shows "fields_ok p"
proof -
  obtain p1 p2 p3 p4 p5 p6 p7 where steps:
    "check_enum ''policy.close_policy: unknown'' ALL_CLOSE_POLICIES
       (\<lambda>x. close_policy_update (\<lambda>_. x)) (obj_get v ''close_policy'') base = Inr p1"
    "check_enum ''policy.join_policy: unknown'' ALL_JOIN_POLICIES
       (\<lambda>x. join_policy_update (\<lambda>_. x)) (obj_get v ''join_policy'') p1 = Inr p2"
    "check_enum ''policy.context_compaction: unknown'' ALL_CONTEXT_COMPACTIONS
       (\<lambda>x. context_compaction_update (\<lambda>_. x)) (obj_get v ''context_compaction'') p2 = Inr p3"
    "check_pos_int ''policy.max_rounds must be a positive int''
       (\<lambda>n. max_rounds_update (\<lambda>_. Some n)) (obj_get v ''max_rounds'') p3 = Inr p4"
    "check_pos_int ''policy.min_ratifiers must be a positive int''
       (\<lambda>n. min_ratifiers_update (\<lambda>_. Some n)) (obj_get v ''min_ratifiers'') p4 = Inr p5"
    "check_bool ''policy.bot_open must be a bool''
       (\<lambda>b. bot_open_update (\<lambda>_. b)) (obj_get v ''bot_open'') p5 = Inr p6"
    "check_bool ''policy.bind_remote_task must be a bool''
       (\<lambda>b. bind_remote_task_update (\<lambda>_. b)) (obj_get v ''bind_remote_task'') p6 = Inr p7"
    "check_bool ''policy.requires_artifact must be a bool''
       (\<lambda>b. requires_artifact_update (\<lambda>_. b)) (obj_get v ''requires_artifact'') p7 = Inr p"
    using assms(1) unfolding policy_fields_def bindE_Inr_iff by blast
  have "fields_ok p1" using steps(1) assms(2) by (rule check_enum_inv) (simp add: assms(2))
  then have "fields_ok p2" by (intro check_enum_inv [OF steps(2), of fields_ok]) simp_all
  then have "fields_ok p3" by (intro check_enum_inv [OF steps(3), of fields_ok]) simp_all
  then have "fields_ok p4" by (intro check_pos_int_inv [OF steps(4), of fields_ok]) simp_all
  then have "fields_ok p5" by (intro check_pos_int_inv [OF steps(5), of fields_ok]) simp_all
  then have "fields_ok p6" by (intro check_bool_inv [OF steps(6), of fields_ok]) simp_all
  then have "fields_ok p7" by (intro check_bool_inv [OF steps(7), of fields_ok]) simp_all
  then show ?thesis by (intro check_bool_inv [OF steps(8), of fields_ok]) simp_all
qed

lemma validated_policy_ok:
  assumes "validate_operation_policy v = Inr p"
  shows "policy_ok p"
proof -
  from assms have "fields_ok p" and "close_policy p = CLOSE_POLICY_QUORUM \<longrightarrow> min_ratifiers p \<noteq> None"
    unfolding validate_operation_policy_def
    by (auto simp: bindE_Inr_iff intro: policy_fields_ok split: if_splits json.splits)
  then show ?thesis by (auto simp: fields_ok_def policy_ok_def)
qed

lemma validate_default: "validate_operation_policy JNull = Inr DEFAULT_OPERATION_POLICY"
  by (simp add: validate_operation_policy_def DEFAULT_OPERATION_POLICY_def)

text \<open>A stored policy reads back as itself: validation is idempotent through the metadata column.\<close>

lemma check_enum_JStr: "s \<in> set allowed \<Longrightarrow> check_enum m allowed upd (JStr s) base = Inr (upd s base)"
  by (simp add: check_enum_def)

lemma check_pos_int_json:
  assumes "\<And>n. x = Some n \<Longrightarrow> 0 < n"
  shows "check_pos_int m upd (int_json x) base
         = Inr (case x of None \<Rightarrow> base | Some n \<Rightarrow> upd n base)"
  using assms by (fastforce simp: check_pos_int_def int_json_def split: option.splits)

lemma check_bool_JBool: "check_bool m upd (JBool b) base = Inr (upd b base)"
  by (simp add: check_bool_def)

lemma policy_fields_json:
  assumes "policy_ok p" "policy_json p = JObj kvs"
  shows "policy_fields kvs DEFAULT_OPERATION_POLICY = Inr p"
proof -
  have kvs: "obj_get kvs ''close_policy'' = JStr (close_policy p)"
    "obj_get kvs ''join_policy'' = JStr (join_policy p)"
    "obj_get kvs ''context_compaction'' = JStr (context_compaction p)"
    "obj_get kvs ''max_rounds'' = int_json (max_rounds p)"
    "obj_get kvs ''min_ratifiers'' = int_json (min_ratifiers p)"
    "obj_get kvs ''bot_open'' = JBool (bot_open p)"
    "obj_get kvs ''bind_remote_task'' = JBool (bind_remote_task p)"
    "obj_get kvs ''requires_artifact'' = JBool (requires_artifact p)"
    using assms(2) by (auto simp: policy_json_def)
  have ok: "close_policy p \<in> set ALL_CLOSE_POLICIES" "join_policy p \<in> set ALL_JOIN_POLICIES"
    "context_compaction p \<in> set ALL_CONTEXT_COMPACTIONS"
    "\<And>n. max_rounds p = Some n \<Longrightarrow> 0 < n" "\<And>n. min_ratifiers p = Some n \<Longrightarrow> 0 < n"
    using assms(1) by (auto simp: policy_ok_def)
  show ?thesis
    unfolding policy_fields_def kvs
    by (simp add: check_enum_JStr check_bool_JBool check_pos_int_json ok
          DEFAULT_OPERATION_POLICY_def split: option.splits)
qed

lemma validate_policy_json:
  assumes "policy_ok p"
  shows "validate_operation_policy (policy_json p) = Inr p"
proof -
  obtain kv kvs where j: "policy_json p = JObj (kv # kvs)" by (simp add: policy_json_def)
  have "min_ratifiers p \<noteq> Some 0" using assms by (auto simp: policy_ok_def)
  moreover have "policy_fields (kv # kvs) DEFAULT_OPERATION_POLICY = Inr p"
    using assms j by (rule policy_fields_json)
  ultimately show ?thesis
    using assms by (simp add: validate_operation_policy_def j policy_ok_def)
qed

section \<open>Artifact descriptors\<close>

text \<open>
  \<open>validate_artifact_payload\<close>: \<open>None\<close> for a value that is no artifact at all, an error for one
  that has some artifact key but not the required shape. \<open>len(sha256) != 64\<close> counts
  characters; that they are hex digits is not checked by the code.
\<close>

definition ARTIFACT_REQUIRED :: "string list" where
  "ARTIFACT_REQUIRED = [''kind'', ''uri'', ''sha256'', ''mime'', ''size_bytes'']"

definition ARTIFACT_INTENDED :: "string list" where
  "ARTIFACT_INTENDED = ARTIFACT_REQUIRED @ [''label'', ''metadata'']"

definition has_key :: "obj \<Rightarrow> string \<Rightarrow> bool" where
  "has_key kvs k \<longleftrightarrow> k \<in> fst ` set kvs"

definition nonempty_str :: "json \<Rightarrow> bool" where
  "nonempty_str v = (case v of JStr s \<Rightarrow> s \<noteq> [] | _ \<Rightarrow> False)"

definition sha256_str :: "json \<Rightarrow> bool" where
  "sha256_str v = (case v of JStr s \<Rightarrow> length s = 64 | _ \<Rightarrow> False)"

definition size_ok :: "json \<Rightarrow> bool" where
  "size_ok v = (case as_int v of None \<Rightarrow> False | Some n \<Rightarrow> 0 \<le> n)"

definition optional_part :: "string \<Rightarrow> json \<Rightarrow> obj" where
  "optional_part k v = (if v = JNull then [] else [(k, v)])"

definition artifact_form :: "obj \<Rightarrow> obj" where
  "artifact_form kvs =
     [(''kind'', obj_get kvs ''kind''), (''uri'', obj_get kvs ''uri''),
      (''sha256'', obj_get kvs ''sha256''), (''mime'', obj_get kvs ''mime''),
      (''size_bytes'', obj_get kvs ''size_bytes'')]
     @ optional_part ''label'' (obj_get kvs ''label'')
     @ optional_part ''metadata'' (obj_get kvs ''metadata'')"

definition validate_artifact_payload :: "json \<Rightarrow> contract_error + obj option" where
  "validate_artifact_payload v =
     (case v of
        JObj kvs \<Rightarrow>
          (if \<not> list_ex (has_key kvs) ARTIFACT_INTENDED then Inr None
           else if \<not> list_all (has_key kvs) ARTIFACT_REQUIRED
             then Inl (ValueError ''payload.artifact missing required fields'')
           else if \<not> nonempty_str (obj_get kvs ''kind'')
             then Inl (ValueError ''payload.artifact.kind must be a non-empty str'')
           else if \<not> nonempty_str (obj_get kvs ''uri'')
             then Inl (ValueError ''payload.artifact.uri must be a non-empty str'')
           else if \<not> sha256_str (obj_get kvs ''sha256'')
             then Inl (ValueError ''payload.artifact.sha256 must be a 64-char hex string'')
           else if as_str (obj_get kvs ''mime'') = None
             then Inl (ValueError ''payload.artifact.mime must be a str'')
           else if \<not> size_ok (obj_get kvs ''size_bytes'')
             then Inl (ValueError ''payload.artifact.size_bytes must be a non-negative int'')
           else if obj_get kvs ''label'' \<noteq> JNull \<and> as_str (obj_get kvs ''label'') = None
             then Inl (ValueError ''payload.artifact.label must be a str when set'')
           else if obj_get kvs ''metadata'' \<noteq> JNull \<and> \<not> is_obj (obj_get kvs ''metadata'')
             then Inl (ValueError ''payload.artifact.metadata must be a dict when set'')
           else Inr (Some (artifact_form kvs)))
      | _ \<Rightarrow> Inr None)"

definition validate_artifacts_item :: "json \<Rightarrow> contract_error + obj" where
  "validate_artifacts_item item =
     (case validate_artifact_payload item of
        Inl e \<Rightarrow> Inl e
      | Inr None \<Rightarrow> Inl (ValueError ''not a valid artifact dict'')
      | Inr (Some a) \<Rightarrow> Inr a)"

definition validate_artifacts_list :: "json \<Rightarrow> contract_error + obj list option" where
  "validate_artifacts_list v =
     (case v of
        JNull \<Rightarrow> Inr None
      | JArr items \<Rightarrow> bindE (mapE validate_artifacts_item items) (\<lambda>out. Inr (Some out))
      | _ \<Rightarrow> Inl (ValueError ''payload.artifacts must be a list''))"

text \<open>What a consumer of a validated artifact may rely on.\<close>

definition artifact_ok :: "obj \<Rightarrow> bool" where
  "artifact_ok a \<longleftrightarrow>
     nonempty_str (obj_get a ''kind'') \<and> nonempty_str (obj_get a ''uri'')
     \<and> sha256_str (obj_get a ''sha256'') \<and> as_str (obj_get a ''mime'') \<noteq> None
     \<and> size_ok (obj_get a ''size_bytes'')
     \<and> (obj_get a ''label'' = JNull \<or> as_str (obj_get a ''label'') \<noteq> None)
     \<and> (obj_get a ''metadata'' = JNull \<or> is_obj (obj_get a ''metadata''))"

lemma has_key_obj_get: "obj_get kvs k \<noteq> JNull \<Longrightarrow> has_key kvs k"
  by (auto simp: obj_get_def has_key_def split: option.splits dest!: map_of_SomeD) force

lemma artifact_form_get:
  "obj_get (artifact_form kvs) ''kind'' = obj_get kvs ''kind''"
  "obj_get (artifact_form kvs) ''uri'' = obj_get kvs ''uri''"
  "obj_get (artifact_form kvs) ''sha256'' = obj_get kvs ''sha256''"
  "obj_get (artifact_form kvs) ''mime'' = obj_get kvs ''mime''"
  "obj_get (artifact_form kvs) ''size_bytes'' = obj_get kvs ''size_bytes''"
  "obj_get (artifact_form kvs) ''label'' = obj_get kvs ''label''"
  "obj_get (artifact_form kvs) ''metadata'' = obj_get kvs ''metadata''"
  by (simp_all add: artifact_form_def optional_part_def)

lemma artifact_form_idem: "artifact_form (artifact_form kvs) = artifact_form kvs"
  unfolding artifact_form_def [of "artifact_form kvs"] artifact_form_get
  by (simp add: artifact_form_def)

lemma artifact_ok_form: "artifact_ok (artifact_form kvs) = artifact_ok kvs"
  by (simp add: artifact_ok_def artifact_form_get)

lemma artifact_ok_required:
  assumes "artifact_ok a"
  shows "list_all (has_key a) ARTIFACT_REQUIRED"
proof -
  have "obj_get a k \<noteq> JNull" if "k \<in> set ARTIFACT_REQUIRED" for k
    using assms that
    by (auto simp: artifact_ok_def ARTIFACT_REQUIRED_def nonempty_str_def sha256_str_def size_ok_def)
  then show ?thesis by (auto simp: list_all_iff intro: has_key_obj_get)
qed

text \<open>The branches of the validator collapse to one equivalence.\<close>

lemma validate_artifact_iff:
  "validate_artifact_payload v = Inr (Some a) \<longleftrightarrow>
     (\<exists>kvs. v = JObj kvs \<and> artifact_ok kvs \<and> a = artifact_form kvs)"
proof (cases v)
  case (JObj kvs)
  have "artifact_ok kvs \<Longrightarrow> list_ex (has_key kvs) ARTIFACT_INTENDED"
    using artifact_ok_required [of kvs] by (simp add: ARTIFACT_INTENDED_def ARTIFACT_REQUIRED_def)
  moreover note artifact_ok_required [of kvs]
  ultimately show ?thesis
    unfolding JObj validate_artifact_payload_def artifact_ok_def by (simp, blast)
qed (simp_all add: validate_artifact_payload_def)

lemma validate_artifact_idem:
  "validate_artifact_payload v = Inr (Some a) \<Longrightarrow> validate_artifact_payload (JObj a) = Inr (Some a)"
  by (auto simp: validate_artifact_iff artifact_ok_form artifact_form_idem)

lemma validate_artifacts_item_iff:
  "validate_artifacts_item item = Inr a \<longleftrightarrow> validate_artifact_payload item = Inr (Some a)"
  by (auto simp: validate_artifacts_item_def split: sum.splits option.splits)

lemma validate_artifacts_list_iff:
  "validate_artifacts_list v = Inr (Some out) \<longleftrightarrow>
     (\<exists>items. v = JArr items
        \<and> list_all2 (\<lambda>i a. \<exists>kvs. i = JObj kvs \<and> artifact_ok kvs \<and> a = artifact_form kvs) items out)"
  by (cases v) (auto simp: validate_artifacts_list_def bindE_Inr_iff mapE_Inr_iff
                  validate_artifacts_item_iff validate_artifact_iff)

section \<open>The import-time self check\<close>

text \<open>\<open>validate_contract()\<close>, branch by branch; it holds of the tables above.\<close>

definition kinds_complete :: bool where
  "kinds_complete \<longleftrightarrow>
     list_all (\<lambda>k. ALLOWED_RESOLUTIONS k \<noteq> None \<and> ALLOWED_TRANSITIONS k \<noteq> None) ALL_KINDS"

definition graph_of :: "string \<Rightarrow> (string \<times> string list) list" where
  "graph_of k = (case ALLOWED_TRANSITIONS k of None \<Rightarrow> [] | Some g \<Rightarrow> g)"

definition all_targets :: "string list" where
  "all_targets = concat (map (\<lambda>k. concat (map snd (graph_of k))) ALL_KINDS)"

definition event_targets_known :: bool where
  "event_targets_known \<longleftrightarrow>
     list_all (\<lambda>(ev, target). target \<in> set all_targets) EVENT_KIND_TO_TARGET_STATE"

definition no_orphan_states :: "string \<Rightarrow> bool" where
  "no_orphan_states k \<longleftrightarrow>
     list_all (\<lambda>(from, _). from = STATE_OPEN
                 \<or> list_ex (\<lambda>(_, tgts). from \<in> set tgts) (graph_of k)) (graph_of k)"

definition default_caps_known :: bool where
  "default_caps_known \<longleftrightarrow>
     set DEFAULT_CAPABILITIES_HUMAN \<subseteq> set ALL_CAPABILITIES
     \<and> set DEFAULT_CAPABILITIES_AI \<subseteq> set ALL_CAPABILITIES"

definition validate_contract :: bool where
  "validate_contract \<longleftrightarrow>
     kinds_complete \<and> event_targets_known \<and> list_all no_orphan_states ALL_KINDS \<and> default_caps_known"

section \<open>Properties\<close>

text \<open>A policy that validates satisfies every field range and the quorum rule, and what is
  stored for it reads back as the same policy, so a stored policy never fails its own
  validation.\<close>

theorem policy_roundtrip:
  assumes "validate_operation_policy v = Inr p"
  shows "policy_ok p \<and> validate_operation_policy (policy_json p) = Inr p"
  using validated_policy_ok [OF assms] validate_policy_json by blast

theorem policy_roundtrip_witness:
  "\<exists>p. validate_operation_policy (JObj [(''close_policy'', JStr ''quorum''), (''min_ratifiers'', JInt 2)])
         = Inr p \<and> policy_ok p \<and> validate_operation_policy (policy_json p) = Inr p"
proof -
  have run: "validate_operation_policy (JObj [(''close_policy'', JStr ''quorum''), (''min_ratifiers'', JInt 2)])
     = Inr (DEFAULT_OPERATION_POLICY\<lparr>close_policy := CLOSE_POLICY_QUORUM, min_ratifiers := Some 2\<rparr>)"
    by code_simp
  show ?thesis using run policy_roundtrip [OF run] by blast
qed

text \<open>The artifact validator returns an artifact exactly for the dicts of the required shape
  (non-empty kind and uri, a 64-character sha256, a str mime, a non-negative int size, optional
  label and metadata of the right types), as its canonical form; and that form is a fixed point
  of the validator.\<close>

theorem artifact_validator_exact:
  "(validate_artifact_payload v = Inr (Some a) \<longleftrightarrow>
      (\<exists>kvs. v = JObj kvs \<and> artifact_ok kvs \<and> a = artifact_form kvs))
   \<and> artifact_form (artifact_form kvs) = artifact_form kvs
   \<and> artifact_ok (artifact_form kvs) = artifact_ok kvs"
  by (simp add: validate_artifact_iff artifact_form_idem artifact_ok_form)

text \<open>A list of artifacts validates exactly when every member does, in order, with nothing
  dropped or added: one malformed member refuses the whole list.\<close>

theorem artifacts_list_exact:
  "validate_artifacts_list v = Inr (Some out) \<longleftrightarrow>
     (\<exists>items. v = JArr items
        \<and> list_all2 (\<lambda>i a. validate_artifact_payload i = Inr (Some a)) items out)"
  by (simp add: validate_artifacts_list_iff validate_artifact_iff)

text \<open>The protocol tables are consistent: every kind has resolutions and a transition graph,
  every event kind's target state occurs in a graph, no state of a graph is an orphan, and the
  default capabilities are known ones.\<close>

theorem contract_consistent: "validate_contract"
  by code_simp

end
