(* ===== verification/StateMachine.thy ===== *)
theory StateMachine
  imports Validators
begin

text \<open>
  \<open>kernel/v2/state_machine.py\<close>: the pure validator of operation transitions, and the lifecycle
  of one operation as a step relation over it. A rejected decision carries its reason up to the
  first interpolated value.
\<close>

record decision =
  allowed :: bool
  reason :: string
  forced_close :: bool

definition reject :: "string \<Rightarrow> decision" where
  "reject why = \<lparr>allowed = False, reason = why, forced_close = False\<rparr>"

definition accept :: decision where
  "accept = \<lparr>allowed = True, reason = [], forced_close = False\<rparr>"

definition can_transition :: "string \<Rightarrow> string \<Rightarrow> string \<Rightarrow> decision" where
  "can_transition kind from_state to_state =
     (case ALLOWED_TRANSITIONS kind of
        None \<Rightarrow> reject ''unknown kind''
      | Some per_state \<Rightarrow>
          (case map_of per_state from_state of
             None \<Rightarrow> reject ''unknown from_state''
           | Some targets \<Rightarrow>
               (if to_state \<notin> set targets then reject ''not allowed; valid next states''
                else accept)))"

definition can_close :: "string \<Rightarrow> string \<Rightarrow> string \<Rightarrow> bool \<Rightarrow> decision" where
  "can_close kind from_state resolution sys =
     (if from_state = STATE_CLOSED then reject ''operation already closed''
      else if kind = KIND_GENERAL then reject ''general operations cannot be closed''
      else if sys \<and> resolution = ''abandoned''
        then \<lparr>allowed = True, reason = [], forced_close = True\<rparr>
      else if resolution \<notin> set (case ALLOWED_RESOLUTIONS kind of None \<Rightarrow> [] | Some rs \<Rightarrow> rs)
        then reject ''resolution not allowed''
      else accept)"

datatype sm_error = StateMachineError string

definition assert_transition :: "string \<Rightarrow> string \<Rightarrow> string \<Rightarrow> sm_error + unit" where
  "assert_transition kind from_state to_state =
     (let d = can_transition kind from_state to_state
      in if allowed d then Inr () else Inl (StateMachineError (reason d)))"

definition assert_close :: "string \<Rightarrow> string \<Rightarrow> string \<Rightarrow> bool \<Rightarrow> sm_error + unit" where
  "assert_close kind from_state resolution sys =
     (let d = can_close kind from_state resolution sys
      in if allowed d then Inr () else Inl (StateMachineError (reason d)))"

lemma reject_simps [simp]: "allowed (reject w) = False" "reason (reject w) = w"
  by (simp_all add: reject_def)

lemma accept_simps [simp]: "allowed accept" "\<not> forced_close accept"
  by (simp_all add: accept_def)

lemma allowed_transition_iff:
  "allowed (can_transition kind s t) \<longleftrightarrow>
     (\<exists>g tgts. ALLOWED_TRANSITIONS kind = Some g \<and> map_of g s = Some tgts \<and> t \<in> set tgts)"
  by (auto simp: can_transition_def split: option.splits)

lemma assert_transition_ok [simp]:
  "assert_transition kind s t = Inr u \<longleftrightarrow> allowed (can_transition kind s t)"
  by (simp add: assert_transition_def Let_def)

lemma assert_close_ok [simp]:
  "assert_close kind s r sys = Inr u \<longleftrightarrow> allowed (can_close kind s r sys)"
  by (simp add: assert_close_def Let_def)

lemma transitions_cases:
  assumes "ALLOWED_TRANSITIONS kind = Some g"
  shows "kind \<in> set ALL_KINDS"
  using assms by (auto simp: ALLOWED_TRANSITIONS_def ALL_KINDS_def split: if_splits)

lemma graph_tables:
  "ALLOWED_TRANSITIONS KIND_GENERAL = Some [(STATE_OPEN, [])]"
  "ALLOWED_TRANSITIONS KIND_INQUIRY = Some [(STATE_OPEN, [])]"
  "ALLOWED_TRANSITIONS KIND_PROPOSAL = Some [(STATE_OPEN, [])]"
  "ALLOWED_TRANSITIONS KIND_TASK = Some
     [(STATE_OPEN, [STATE_CLAIMED]),
      (STATE_CLAIMED, [STATE_EXECUTING, STATE_OPEN]),
      (STATE_EXECUTING, [STATE_BLOCKED_APPROVAL, STATE_VERIFYING, STATE_CLAIMED]),
      (STATE_BLOCKED_APPROVAL, [STATE_EXECUTING, STATE_CLAIMED]),
      (STATE_VERIFYING, [STATE_EXECUTING])]"
  by (simp_all add: ALLOWED_TRANSITIONS_def)

lemma transition_edges:
  "allowed (can_transition kind s t) \<longleftrightarrow>
     kind = KIND_TASK \<and>
     (s, t) \<in> {(STATE_OPEN, STATE_CLAIMED),
               (STATE_CLAIMED, STATE_EXECUTING), (STATE_CLAIMED, STATE_OPEN),
               (STATE_EXECUTING, STATE_BLOCKED_APPROVAL), (STATE_EXECUTING, STATE_VERIFYING),
               (STATE_EXECUTING, STATE_CLAIMED),
               (STATE_BLOCKED_APPROVAL, STATE_EXECUTING), (STATE_BLOCKED_APPROVAL, STATE_CLAIMED),
               (STATE_VERIFYING, STATE_EXECUTING)}"
proof (cases "kind = KIND_TASK")
  case True
  then show ?thesis
    unfolding allowed_transition_iff by (auto simp: graph_tables split: if_splits)
next
  case False
  then show ?thesis
    unfolding allowed_transition_iff
    by (auto simp: ALLOWED_TRANSITIONS_def split: if_splits)
qed

section \<open>The lifecycle of an operation\<close>

text \<open>
  What the callers do with the decisions: \<open>V2Repository.transition_operation_state\<close> after
  \<open>assert_transition\<close>, \<open>close_operation\<close> after \<open>assert_close\<close>. A configuration is the state
  column and the resolution column.
\<close>

type_synonym op_config = "string \<times> string option"

inductive op_step :: "string \<Rightarrow> op_config \<Rightarrow> op_config \<Rightarrow> bool" for kind where
  move: "allowed (can_transition kind s t) \<Longrightarrow> op_step kind (s, r) (t, r)"
| close: "allowed (can_close kind s res sys) \<Longrightarrow> op_step kind (s, r) (STATE_CLOSED, Some res)"

inductive_cases op_stepE: "op_step kind (s, r) c"
inductive_simps op_step_closed_simps: "op_step kind (STATE_CLOSED, r) c"

abbreviation initial_config :: op_config where
  "initial_config \<equiv> (STATE_OPEN, None)"

definition op_reach :: "string \<Rightarrow> op_config \<Rightarrow> bool" where
  "op_reach kind c \<longleftrightarrow> (op_step kind)\<^sup>*\<^sup>* initial_config c"

definition task_states :: "string set" where
  "task_states =
     {STATE_OPEN, STATE_CLAIMED, STATE_EXECUTING, STATE_BLOCKED_APPROVAL, STATE_VERIFYING}"

text \<open>The invariant of a reachable configuration.\<close>

definition config_inv :: "string \<Rightarrow> op_config \<Rightarrow> bool" where
  "config_inv kind c \<longleftrightarrow>
     (case c of
        (s, None) \<Rightarrow> s = STATE_OPEN \<or> kind = KIND_TASK \<and> s \<in> task_states
      | (s, Some res) \<Rightarrow> s = STATE_CLOSED \<and> kind \<noteq> KIND_GENERAL
          \<and> (res = ''abandoned'' \<or> res \<in> set (the (ALLOWED_RESOLUTIONS kind))))"

lemma can_close_allowed:
  "allowed (can_close kind s res sys) \<longleftrightarrow>
     s \<noteq> STATE_CLOSED \<and> kind \<noteq> KIND_GENERAL
     \<and> (sys \<and> res = ''abandoned''
        \<or> (\<exists>rs. ALLOWED_RESOLUTIONS kind = Some rs \<and> res \<in> set rs))"
  by (auto simp: can_close_def split: option.splits)

lemma no_step_from_closed: "\<not> op_step kind (STATE_CLOSED, r) c"
  by (auto simp: transition_edges can_close_allowed elim!: op_stepE)

lemma op_step_inv:
  assumes "op_step kind c d" "config_inv kind c"
  shows "config_inv kind d"
  using assms
proof (induction rule: op_step.induct)
  case (move s t r)
  then show ?case
    by (auto simp: transition_edges config_inv_def task_states_def split: option.splits)
next
  case (close s res sys r)
  then show ?case by (auto simp: can_close_allowed config_inv_def)
qed

lemma op_reach_inv: "op_reach kind c \<Longrightarrow> config_inv kind c"
  unfolding op_reach_def
proof (induction rule: rtranclp_induct)
  case base
  show ?case by (simp add: config_inv_def)
next
  case (step c d)
  then show ?case by (blast intro: op_step_inv)
qed

lemma op_reach_refl: "op_reach kind initial_config"
  by (simp add: op_reach_def)

lemma op_reach_move:
  "op_reach kind (s, r) \<Longrightarrow> allowed (can_transition kind s t) \<Longrightarrow> op_reach kind (t, r)"
  unfolding op_reach_def by (blast intro: rtranclp.rtrancl_into_rtrancl op_step.move)

lemma op_reach_close:
  "op_reach kind (s, r) \<Longrightarrow> allowed (can_close kind s res sys) \<Longrightarrow>
     op_reach kind (STATE_CLOSED, Some res)"
  unfolding op_reach_def by (blast intro: rtranclp.rtrancl_into_rtrancl op_step.close)

text \<open>Every task state is reached along the graph.\<close>

lemma task_states_reached: "s \<in> task_states \<Longrightarrow> op_reach KIND_TASK (s, None)"
proof -
  have o: "op_reach KIND_TASK (STATE_OPEN, None)" by (rule op_reach_refl)
  then have c: "op_reach KIND_TASK (STATE_CLAIMED, None)"
    by (rule op_reach_move) (simp add: transition_edges)
  then have e: "op_reach KIND_TASK (STATE_EXECUTING, None)"
    by (rule op_reach_move) (simp add: transition_edges)
  then have "op_reach KIND_TASK (STATE_BLOCKED_APPROVAL, None)"
    and "op_reach KIND_TASK (STATE_VERIFYING, None)"
    by (auto intro: op_reach_move simp: transition_edges)
  then show "s \<in> task_states \<Longrightarrow> op_reach KIND_TASK (s, None)"
    using o c e by (auto simp: task_states_def)
qed

section \<open>Properties\<close>

lemma task_resolutions: "ALLOWED_RESOLUTIONS KIND_TASK = Some [''completed'', ''failed'', ''cancelled'', ''abandoned'']"
  by (simp add: ALLOWED_RESOLUTIONS_def)

text \<open>The transition validator accepts exactly the nine edges of the task graph, in the
  documented direction, and no transition at all for the three collaboration kinds or an unknown
  kind; in particular it never admits a move into or out of \<open>closed\<close>.\<close>

theorem can_transition_exact:
  "allowed (can_transition kind s t) \<longleftrightarrow>
     kind = KIND_TASK \<and>
     (s, t) \<in> {(STATE_OPEN, STATE_CLAIMED),
               (STATE_CLAIMED, STATE_EXECUTING), (STATE_CLAIMED, STATE_OPEN),
               (STATE_EXECUTING, STATE_BLOCKED_APPROVAL), (STATE_EXECUTING, STATE_VERIFYING),
               (STATE_EXECUTING, STATE_CLAIMED),
               (STATE_BLOCKED_APPROVAL, STATE_EXECUTING), (STATE_BLOCKED_APPROVAL, STATE_CLAIMED),
               (STATE_VERIFYING, STATE_EXECUTING)}"
  by (rule transition_edges)

text \<open>The lifecycle of a task, characterised: the configurations reachable from a fresh
  operation are the five live states with no resolution, and \<open>closed\<close> with a resolution of the
  task vocabulary. Nothing else is reachable, and all of it is.\<close>

theorem task_lifecycle_reachable:
  "op_reach KIND_TASK (s, r) \<longleftrightarrow>
     (s \<in> task_states \<and> r = None)
     \<or> (s = STATE_CLOSED \<and> (\<exists>res. r = Some res \<and> res \<in> {''completed'', ''failed'', ''cancelled'', ''abandoned''}))"
proof
  assume "op_reach KIND_TASK (s, r)"
  then have "config_inv KIND_TASK (s, r)" by (rule op_reach_inv)
  then show "(s \<in> task_states \<and> r = None) \<or> (s = STATE_CLOSED
      \<and> (\<exists>res. r = Some res \<and> res \<in> {''completed'', ''failed'', ''cancelled'', ''abandoned''}))"
    by (auto simp: config_inv_def task_states_def task_resolutions split: option.splits)
next
  have fin: "op_reach KIND_TASK (STATE_CLOSED, Some res)"
    if "res \<in> {''completed'', ''failed'', ''cancelled'', ''abandoned''}" for res
    by (rule op_reach_close [OF op_reach_refl, where sys = True])
      (use that in \<open>auto simp: can_close_allowed task_resolutions\<close>)
  assume "(s \<in> task_states \<and> r = None) \<or> (s = STATE_CLOSED
      \<and> (\<exists>res. r = Some res \<and> res \<in> {''completed'', ''failed'', ''cancelled'', ''abandoned''}))"
  then show "op_reach KIND_TASK (s, r)" using task_states_reached fin by auto
qed

text \<open>A closed operation admits no further transition and no second close, whatever its kind,
  the requested resolution and the caller's authority; a \<open>general\<close> operation cannot be closed.\<close>

theorem closed_is_final:
  "\<not> allowed (can_transition kind STATE_CLOSED t)
   \<and> \<not> allowed (can_close kind STATE_CLOSED res sys)
   \<and> \<not> allowed (can_close KIND_GENERAL s res sys)"
  by (auto simp: transition_edges can_close_allowed)

end
