(* ===== verification/Store.thy ===== *)
theory Store
  imports StateMachine
begin

text \<open>
  The protocol v2 tables and \<open>V2Repository\<close>: \<open>kernel/v2/models.py\<close>, \<open>kernel/v2/repository.py\<close>.
  A database is the list of rows of each table. Keys that the source draws with \<open>uuid4\<close> are
  natural numbers drawn from \<open>next_id\<close>: freshness is the one property of uuid4 in use. The
  database runs with \<open>foreign_keys=ON\<close> (\<open>db.py\<close>), so an insert checks its foreign keys and its
  UNIQUE constraints and raises \<open>IntegrityError\<close> otherwise. JSON columns hold the decoded value.
\<close>

type_synonym id = nat

record actor =
  a_id :: id
  a_handle :: string
  a_display :: string
  a_kind :: string
  a_caps :: "string list"
  a_status :: string
  a_last_seen :: "instant option"

record operation =
  o_id :: id
  o_space :: string
  o_parent :: "id option"
  o_kind :: string
  o_state :: string
  o_title :: string
  o_intent :: "string option"
  o_metadata :: obj
  o_resolution :: "string option"
  o_summary :: "string option"
  o_closed_by :: "id option"
  o_created :: instant
  o_updated :: instant
  o_closed_at :: "instant option"

record participant =
  p_op :: id
  p_actor :: id
  p_role :: string
  p_joined :: instant
  p_seen_seq :: int

record event =
  e_id :: id
  e_op :: id
  e_actor :: id
  e_seq :: int
  e_kind :: string
  e_payload :: obj
  e_addressed :: "id list"
  e_replies_to :: "id option"
  e_private :: "id list option"
  e_created :: instant

record artifact =
  r_id :: id
  r_op :: id
  r_event :: id
  r_kind :: string
  r_uri :: string
  r_sha256 :: string
  r_mime :: string
  r_size :: int
  r_label :: "string option"
  r_metadata :: obj

record token =
  t_id :: id
  t_actor :: id
  t_hash :: string
  t_label :: "string option"
  t_scope :: string
  t_created :: instant
  t_revoked :: "instant option"

record v2db =
  actors :: "actor list"
  operations :: "operation list"
  participants :: "participant list"
  events :: "event list"
  artifacts :: "artifact list"
  tokens :: "token list"
  next_id :: id

definition empty_db :: v2db where
  "empty_db = \<lparr>actors = [], operations = [], participants = [], events = [], artifacts = [],
               tokens = [], next_id = 0\<rparr>"

datatype db_error = UniqueViolation string | ForeignKeyViolation string | RetryExhausted

abbreviation get_actor :: "id \<Rightarrow> v2db \<Rightarrow> actor option" where
  "get_actor k db \<equiv> row_get a_id k (actors db)"

abbreviation get_event :: "id \<Rightarrow> v2db \<Rightarrow> event option" where
  "get_event k db \<equiv> row_get e_id k (events db)"

section \<open>Actor tokens\<close>

definition create_actor_token ::
  "instant \<Rightarrow> id \<Rightarrow> string \<Rightarrow> string option \<Rightarrow> string \<Rightarrow> v2db \<Rightarrow> db_error + token \<times> v2db" where
  "create_actor_token now actor_id token_hash label scope db =
     (if get_actor actor_id db = None then Inl (ForeignKeyViolation ''actor_tokens_v2.actor_id'')
      else if list_ex (\<lambda>t. t_hash t = token_hash) (tokens db)
        then Inl (UniqueViolation ''actor_tokens_v2.token_hash'')
      else let row = \<lparr>t_id = next_id db, t_actor = actor_id, t_hash = token_hash, t_label = label,
                      t_scope = scope, t_created = now, t_revoked = None\<rparr>
           in Inr (row, db\<lparr>tokens := tokens db @ [row], next_id := Suc (next_id db)\<rparr>))"

definition get_actor_token_by_hash :: "string \<Rightarrow> v2db \<Rightarrow> token option" where
  "get_actor_token_by_hash h db =
     List.find (\<lambda>t. t_hash t = h \<and> t_revoked t = None) (tokens db)"

definition list_actor_tokens :: "id \<Rightarrow> v2db \<Rightarrow> token list" where
  "list_actor_tokens k db = select_asc t_created (\<lambda>t. t_actor t = k) (tokens db)"

definition revoke_actor_token :: "instant \<Rightarrow> id \<Rightarrow> v2db \<Rightarrow> token option \<times> v2db" where
  "revoke_actor_token now k db =
     (case row_get t_id k (tokens db) of
        None \<Rightarrow> (None, db)
      | Some row \<Rightarrow>
          (if t_revoked row \<noteq> None then (Some row, db)
           else (Some (row\<lparr>t_revoked := Some now\<rparr>),
                 db\<lparr>tokens := row_upd t_id k (t_revoked_update (\<lambda>_. Some now)) (tokens db)\<rparr>)))"

section \<open>Actors\<close>

definition get_actor_by_handle :: "string \<Rightarrow> v2db \<Rightarrow> actor option" where
  "get_actor_by_handle h db = row_get a_handle h (actors db)"

definition insert_actor ::
  "string \<Rightarrow> string \<Rightarrow> string \<Rightarrow> string list \<Rightarrow> string \<Rightarrow> v2db \<Rightarrow> db_error + actor \<times> v2db" where
  "insert_actor handle display kind caps status db =
     (if list_ex (\<lambda>a. a_handle a = handle) (actors db)
      then Inl (UniqueViolation ''actors_v2.handle'')
      else let row = \<lparr>a_id = next_id db, a_handle = handle, a_display = display, a_kind = kind,
                      a_caps = caps, a_status = status, a_last_seen = None\<rparr>
           in Inr (row, db\<lparr>actors := actors db @ [row], next_id := Suc (next_id db)\<rparr>))"

definition update_actor_presence ::
  "id \<Rightarrow> string \<Rightarrow> instant \<Rightarrow> v2db \<Rightarrow> actor option \<times> v2db" where
  "update_actor_presence k status last_seen db =
     (case get_actor k db of
        None \<Rightarrow> (None, db)
      | Some row \<Rightarrow>
          (Some (row\<lparr>a_status := status, a_last_seen := Some last_seen\<rparr>),
           db\<lparr>actors := row_upd a_id k
                 (\<lambda>a. a\<lparr>a_status := status, a_last_seen := Some last_seen\<rparr>) (actors db)\<rparr>))"

section \<open>Operations\<close>

definition insert_operation ::
  "instant \<Rightarrow> string \<Rightarrow> string \<Rightarrow> string \<Rightarrow> string option \<Rightarrow> id option \<Rightarrow> obj \<Rightarrow> string \<Rightarrow> v2db
     \<Rightarrow> db_error + operation \<times> v2db" where
  "insert_operation now space kind title intent parent metadata state db =
     (if parent \<noteq> None \<and> row_get o_id (the parent) (operations db) = None
      then Inl (ForeignKeyViolation ''operations_v2.parent_operation_id'')
      else let row = \<lparr>o_id = next_id db, o_space = space, o_parent = parent, o_kind = kind,
                      o_state = state, o_title = title, o_intent = intent, o_metadata = metadata,
                      o_resolution = None, o_summary = None, o_closed_by = None, o_created = now,
                      o_updated = now, o_closed_at = None\<rparr>
           in Inr (row, db\<lparr>operations := operations db @ [row], next_id := Suc (next_id db)\<rparr>))"

definition get_operation :: "id \<Rightarrow> v2db \<Rightarrow> operation option" where
  "get_operation k db = row_get o_id k (operations db)"

text \<open>
  Assigning to columns of a loaded row: an UPDATE is emitted when a value changes, and
  \<open>onupdate=_utcnow\<close> then stamps \<open>updated_at\<close>.
\<close>

definition touch_op :: "instant \<Rightarrow> (operation \<Rightarrow> operation) \<Rightarrow> operation \<Rightarrow> operation" where
  "touch_op now f r = (let r' = f r in if r' = r then r else r'\<lparr>o_updated := now\<rparr>)"

definition upd_operation :: "instant \<Rightarrow> id \<Rightarrow> (operation \<Rightarrow> operation) \<Rightarrow> v2db \<Rightarrow> v2db" where
  "upd_operation now k f db =
     db\<lparr>operations := row_upd o_id k (touch_op now f) (operations db)\<rparr>"

definition operation_policy :: "operation \<Rightarrow> contract_error + op_policy" where
  "operation_policy row = validate_operation_policy (obj_get (o_metadata row) ''policy'')"

definition set_operation_policy ::
  "instant \<Rightarrow> id \<Rightarrow> op_policy \<Rightarrow> v2db \<Rightarrow> operation option \<times> v2db" where
  "set_operation_policy now k policy db =
     (case get_operation k db of
        None \<Rightarrow> (None, db)
      | Some row \<Rightarrow>
          let db' = upd_operation now k
                (o_metadata_update (AList.update ''policy'' (policy_json policy))) db
          in (get_operation k db', db'))"

definition list_operations_in_space ::
  "string \<Rightarrow> string option \<Rightarrow> string option \<Rightarrow> int \<Rightarrow> v2db \<Rightarrow> operation list" where
  "list_operations_in_space space kind state limit db =
     take (clamp_limit 1000 limit)
       (select_desc o_created
          (\<lambda>r. o_space r = space \<and> (kind = None \<or> kind = Some (o_kind r))
               \<and> (state = None \<or> state = Some (o_state r))) (operations db))"

definition transition_operation_state ::
  "instant \<Rightarrow> id \<Rightarrow> string \<Rightarrow> v2db \<Rightarrow> operation option \<times> v2db" where
  "transition_operation_state now k to_state db =
     (case get_operation k db of
        None \<Rightarrow> (None, db)
      | Some row \<Rightarrow>
          let db' = upd_operation now k (o_state_update (\<lambda>_. to_state)) db
          in (get_operation k db', db'))"

definition close_operation ::
  "instant \<Rightarrow> id \<Rightarrow> id option \<Rightarrow> string \<Rightarrow> string option \<Rightarrow> v2db \<Rightarrow> operation option \<times> v2db" where
  "close_operation now k closed_by resolution summary db =
     (case get_operation k db of
        None \<Rightarrow> (None, db)
      | Some row \<Rightarrow>
          let db' = upd_operation now k
                (\<lambda>r. r\<lparr>o_state := STATE_CLOSED, o_resolution := Some resolution,
                       o_summary := summary, o_closed_by := closed_by, o_closed_at := Some now\<rparr>) db
          in (get_operation k db', db'))"

definition ACTIVE_STATES :: "string list" where
  "ACTIVE_STATES =
     [STATE_OPEN, STATE_CLAIMED, STATE_EXECUTING, STATE_BLOCKED_APPROVAL, STATE_VERIFYING]"

definition recent_active_ops :: "instant option \<Rightarrow> int \<Rightarrow> v2db \<Rightarrow> operation list" where
  "recent_active_ops since limit db =
     take (clamp_limit 1000 limit)
       (select_desc o_updated
          (\<lambda>r. o_state r \<in> set ACTIVE_STATES
               \<and> (case since of None \<Rightarrow> True | Some t \<Rightarrow> t \<le> o_updated r)) (operations db))"

section \<open>Participants\<close>

definition add_participant ::
  "instant \<Rightarrow> id \<Rightarrow> id \<Rightarrow> string \<Rightarrow> v2db \<Rightarrow> db_error + v2db" where
  "add_participant now op actor role db =
     (if get_operation op db = None \<or> get_actor actor db = None
      then Inl (ForeignKeyViolation ''operation_participants_v2'')
      else if list_ex (\<lambda>p. p_op p = op \<and> p_actor p = actor \<and> p_role p = role) (participants db)
      then Inl (UniqueViolation ''uq_op_participants_v2_op_actor_role'')
      else Inr (db\<lparr>participants := participants db @
              [\<lparr>p_op = op, p_actor = actor, p_role = role, p_joined = now, p_seen_seq = 0\<rparr>]\<rparr>))"

definition list_participants :: "id \<Rightarrow> v2db \<Rightarrow> participant list" where
  "list_participants op db = filter (\<lambda>p. p_op p = op) (participants db)"

definition operations_for_actor ::
  "id \<Rightarrow> string list \<Rightarrow> string option \<Rightarrow> int \<Rightarrow> v2db \<Rightarrow> (operation \<times> string) list" where
  "operations_for_actor actor roles state limit db =
     take (clamp_limit 1000 limit)
       (sort_key (\<lambda>(r, _). - o_updated r)
          [(r, p_role p). r \<leftarrow> operations db, p \<leftarrow> participants db,
             p_op p = o_id r \<and> p_actor p = actor \<and> (roles = [] \<or> p_role p \<in> set roles)
             \<and> (state = None \<or> state = Some (o_state r))])"

definition update_participant_seen_seq :: "id \<Rightarrow> id \<Rightarrow> int \<Rightarrow> v2db \<Rightarrow> v2db" where
  "update_participant_seen_seq op actor seq db =
     db\<lparr>participants := map (\<lambda>p.
          if p_op p = op \<and> p_actor p = actor \<and> p_seen_seq p < seq
          then p\<lparr>p_seen_seq := seq\<rparr> else p) (participants db)\<rparr>"

section \<open>Events\<close>

definition op_events :: "id \<Rightarrow> v2db \<Rightarrow> event list" where
  "op_events op db = filter (\<lambda>e. e_op e = op) (events db)"

text \<open>\<open>coalesce(max(seq), 0)\<close> over the operation's events.\<close>

definition max_seq :: "id \<Rightarrow> v2db \<Rightarrow> int" where
  "max_seq op db = fold max (map e_seq (op_events op db)) 0"

record new_event =
  n_op :: id
  n_actor :: id
  n_kind :: string
  n_payload :: obj
  n_addressed :: "id list"
  n_replies_to :: "id option"
  n_private :: "id list option"

definition event_fks_ok :: "new_event \<Rightarrow> v2db \<Rightarrow> bool" where
  "event_fks_ok n db \<longleftrightarrow>
     get_operation (n_op n) db \<noteq> None \<and> get_actor (n_actor n) db \<noteq> None
     \<and> (case n_replies_to n of None \<Rightarrow> True | Some e \<Rightarrow> get_event e db \<noteq> None)"

definition mk_event :: "instant \<Rightarrow> new_event \<Rightarrow> int \<Rightarrow> v2db \<Rightarrow> event" where
  "mk_event now n seq db =
     \<lparr>e_id = next_id db, e_op = n_op n, e_actor = n_actor n, e_seq = seq, e_kind = n_kind n,
      e_payload = n_payload n, e_addressed = n_addressed n, e_replies_to = n_replies_to n,
      e_private = (if n_private n = Some [] then None else n_private n), e_created = now\<rparr>"

text \<open>
  \<open>insert_event\<close>: read \<open>MAX(seq)\<close>, insert the successor, retry on a UNIQUE failure. Each attempt
  takes from the list \<open>envs\<close> what other writers commit between its read and its insert (the
  identity under SQLite's serial writers); the list's length is \<open>max_retries\<close>.
\<close>

fun insert_event ::
  "(v2db \<Rightarrow> v2db) list \<Rightarrow> instant \<Rightarrow> new_event \<Rightarrow> v2db \<Rightarrow> db_error + event \<times> v2db" where
  "insert_event [] now n db = Inl RetryExhausted"
| "insert_event (env # envs) now n db =
     (let next_seq = max_seq (n_op n) db + 1; db' = env db
      in if \<not> event_fks_ok n db' then Inl (ForeignKeyViolation ''operation_events_v2'')
         else if list_ex (\<lambda>e. e_op e = n_op n \<and> e_seq e = next_seq) (events db')
         then (if envs = [] then Inl (UniqueViolation ''uq_op_events_v2_op_seq'')
               else insert_event envs now n db')
         else let row = mk_event now n next_seq db'
              in Inr (row, db'\<lparr>events := events db' @ [row], next_id := Suc (next_id db')\<rparr>))"

definition insert_event_serial ::
  "instant \<Rightarrow> new_event \<Rightarrow> v2db \<Rightarrow> db_error + event \<times> v2db" where
  "insert_event_serial now n db = insert_event (replicate 3 (\<lambda>d. d)) now n db"

text \<open>
  The one write to a stored event: \<open>append_event\<close> of the HTTP layer puts the intent of a ratification
  into the payload of the event it has just written.
\<close>

definition patch_intent :: "id \<Rightarrow> string \<Rightarrow> v2db \<Rightarrow> v2db" where
  "patch_intent k intent db =
     db\<lparr>events := row_upd e_id k (e_payload_update (AList.update ''intent'' (JStr intent))) (events db)\<rparr>"

text \<open>The filter the speech queries put on \<open>kind\<close>.\<close>

definition like_speech :: "string \<Rightarrow> bool" where
  "like_speech kind \<longleftrightarrow> sql_like ''%.speech.%'' kind \<or> sql_like ''speech.%'' kind"

definition count_events :: "id \<Rightarrow> string list \<Rightarrow> string option \<Rightarrow> v2db \<Rightarrow> int" where
  "count_events op kinds kind_prefix db =
     int (length (filter (\<lambda>e. (kinds = [] \<or> e_kind e \<in> set kinds)
        \<and> (case kind_prefix of None \<Rightarrow> True | Some p \<Rightarrow> sql_like (p @ ''%'') (e_kind e)))
        (op_events op db)))"

definition count_speech_events :: "id \<Rightarrow> v2db \<Rightarrow> int" where
  "count_speech_events op db =
     int (length (filter (\<lambda>e. like_speech (e_kind e)) (op_events op db)))"

definition list_events :: "id \<Rightarrow> int option \<Rightarrow> string list \<Rightarrow> int \<Rightarrow> v2db \<Rightarrow> event list" where
  "list_events op after_seq kinds limit db =
     take (clamp_limit 1000 limit)
       (select_asc e_seq
          (\<lambda>e. e_op e = op \<and> (case after_seq of None \<Rightarrow> True | Some s \<Rightarrow> s < e_seq e)
               \<and> (kinds = [] \<or> e_kind e \<in> set kinds)) (events db))"

definition last_event_for_op :: "id \<Rightarrow> v2db \<Rightarrow> event option" where
  "last_event_for_op op db =
     (case select_desc e_seq (\<lambda>e. e_op e = op) (events db) of [] \<Rightarrow> None | e # _ \<Rightarrow> Some e)"

definition last_speech_event_for_op :: "id \<Rightarrow> v2db \<Rightarrow> event option" where
  "last_speech_event_for_op op db =
     (case select_desc e_seq (\<lambda>e. e_op e = op \<and> like_speech (e_kind e)) (events db) of
        [] \<Rightarrow> None | e # _ \<Rightarrow> Some e)"

definition event_expected_response :: "event \<Rightarrow> obj option" where
  "event_expected_response e =
     (case py_or (obj_get (e_payload e) ''_meta'') (JObj []) of
        JObj meta \<Rightarrow>
          (case obj_get meta ''expected_response'' of JObj ex \<Rightarrow> Some ex | _ \<Rightarrow> None)
      | _ \<Rightarrow> None)"

section \<open>Artifacts\<close>

definition insert_artifact ::
  "id \<Rightarrow> id \<Rightarrow> string \<Rightarrow> string \<Rightarrow> string \<Rightarrow> string \<Rightarrow> int \<Rightarrow> string option \<Rightarrow> obj \<Rightarrow> v2db
     \<Rightarrow> db_error + artifact \<times> v2db" where
  "insert_artifact op ev kind uri sha256 mime size_bytes label metadata db =
     (if get_operation op db = None \<or> get_event ev db = None
      then Inl (ForeignKeyViolation ''operation_artifacts_v2'')
      else let row = \<lparr>r_id = next_id db, r_op = op, r_event = ev, r_kind = kind, r_uri = uri,
                      r_sha256 = sha256, r_mime = mime, r_size = size_bytes, r_label = label,
                      r_metadata = metadata\<rparr>
           in Inr (row, db\<lparr>artifacts := artifacts db @ [row], next_id := Suc (next_id db)\<rparr>))"

definition list_artifacts_for_event :: "id \<Rightarrow> v2db \<Rightarrow> artifact list" where
  "list_artifacts_for_event ev db = filter (\<lambda>a. r_event a = ev) (artifacts db)"

definition list_artifacts_for_operation :: "id \<Rightarrow> string option \<Rightarrow> v2db \<Rightarrow> artifact list" where
  "list_artifacts_for_operation op kind db =
     filter (\<lambda>a. r_op a = op \<and> (kind = None \<or> kind = Some (r_kind a))) (artifacts db)"

end
