(* ===== verification/StoreInv.thy ===== *)
theory StoreInv
  imports Store
begin

text \<open>
  The invariant of the protocol v2 tables and what the repository's operations guarantee: keys are
  unique and below the supply, UNIQUE and foreign-key constraints hold, and each operation's event
  log is numbered 1, 2, 3, \<dots> without gaps. The interface \<open>event_log\<close> states what the clients
  (policy engine, mirror, sweepers) rely on; the repository's \<open>insert_event\<close> is its provider.
\<close>

section \<open>Fresh keys\<close>

definition fresh_keys :: "('r \<Rightarrow> id) \<Rightarrow> id \<Rightarrow> 'r list \<Rightarrow> bool" where
  "fresh_keys key n rows \<longleftrightarrow> distinct (map key rows) \<and> (\<forall>r \<in> set rows. key r < n)"

lemma fresh_keys_append:
  "fresh_keys key n rows \<Longrightarrow> key r = n \<Longrightarrow> fresh_keys key (Suc n) (rows @ [r])"
  by (fastforce simp: fresh_keys_def)

lemma fresh_keys_Suc: "fresh_keys key n rows \<Longrightarrow> fresh_keys key (Suc n) rows"
  by (auto simp: fresh_keys_def)

lemma fresh_keys_upd:
  assumes "fresh_keys key n rows" "\<And>r. key (f r) = key r"
  shows "fresh_keys key n (row_upd key k f rows)"
proof -
  have "map key (row_upd key k f rows) = map key rows"
    using assms(2) by (intro row_upd_keys) simp
  moreover have "\<forall>r \<in> set (row_upd key k f rows). key r < n"
    using assms by (auto simp: fresh_keys_def row_upd_def)
  ultimately show ?thesis using assms(1) by (simp add: fresh_keys_def)
qed

lemma fresh_keys_get:
  "fresh_keys key n rows \<Longrightarrow> r \<in> set rows \<Longrightarrow> row_get key (key r) rows = Some r"
  by (simp add: fresh_keys_def row_get_distinct)

lemma fresh_keys_unused: "fresh_keys key n rows \<Longrightarrow> row_get key n rows = None"
  by (auto simp: fresh_keys_def row_get_None_iff_all)

section \<open>The invariant\<close>

definition keys_ok :: "v2db \<Rightarrow> bool" where
  "keys_ok db \<longleftrightarrow>
     fresh_keys a_id (next_id db) (actors db) \<and> fresh_keys o_id (next_id db) (operations db)
     \<and> fresh_keys e_id (next_id db) (events db) \<and> fresh_keys r_id (next_id db) (artifacts db)
     \<and> fresh_keys t_id (next_id db) (tokens db)"

definition unique_ok :: "v2db \<Rightarrow> bool" where
  "unique_ok db \<longleftrightarrow>
     distinct (map a_handle (actors db))
     \<and> distinct (map (\<lambda>p. (p_op p, p_actor p, p_role p)) (participants db))
     \<and> distinct (map t_hash (tokens db))"

definition fks_ok :: "v2db \<Rightarrow> bool" where
  "fks_ok db \<longleftrightarrow>
     (\<forall>p \<in> set (participants db).
        p_op p \<in> o_id ` set (operations db) \<and> p_actor p \<in> a_id ` set (actors db))
     \<and> (\<forall>e \<in> set (events db).
        e_op e \<in> o_id ` set (operations db) \<and> e_actor e \<in> a_id ` set (actors db)
        \<and> (\<forall>r. e_replies_to e = Some r \<longrightarrow> r \<in> e_id ` set (events db)))
     \<and> (\<forall>r \<in> set (artifacts db).
        r_op r \<in> o_id ` set (operations db) \<and> r_event r \<in> e_id ` set (events db))"

text \<open>The numbers a log of \<open>n\<close> events carries.\<close>

definition numbered :: "nat \<Rightarrow> int list" where
  "numbered n = map int [1..<Suc n]"

definition log_ok :: "v2db \<Rightarrow> bool" where
  "log_ok db \<longleftrightarrow>
     (\<forall>op. map e_seq (op_events op db) = numbered (length (op_events op db)))"

definition db_ok :: "v2db \<Rightarrow> bool" where
  "db_ok db \<longleftrightarrow> keys_ok db \<and> unique_ok db \<and> fks_ok db \<and> log_ok db"

lemma db_okD:
  assumes "db_ok db"
  shows "keys_ok db" "unique_ok db" "fks_ok db" "log_ok db"
  using assms by (simp_all add: db_ok_def)

lemma get_actor_Some_iff: "get_actor k db \<noteq> None \<longleftrightarrow> k \<in> a_id ` set (actors db)"
  by (simp add: row_get_None_iff)

lemma get_operation_Some_iff: "get_operation k db \<noteq> None \<longleftrightarrow> k \<in> o_id ` set (operations db)"
  by (simp add: row_get_None_iff get_operation_def)

lemma get_event_Some_iff: "get_event k db \<noteq> None \<longleftrightarrow> k \<in> e_id ` set (events db)"
  by (simp add: row_get_None_iff)

section \<open>Sequence numbers\<close>

lemma numbered_simps [simp]:
  "numbered 0 = []" "numbered (Suc n) = numbered n @ [int (Suc n)]" "length (numbered n) = n"
  by (simp_all add: numbered_def)

lemma set_numbered [simp]: "set (numbered n) = {1..int n}"
proof (induction n)
  case (Suc n)
  then show ?case by auto
qed simp

lemma sorted_numbered [simp]: "sorted (numbered n)"
  by (induction n) (auto simp: sorted_append)

lemma numbered_nth: "i < n \<Longrightarrow> numbered n ! i = int (Suc i)"
  by (induction n) (auto simp: nth_append less_Suc_eq)

lemma fold_max_numbered: "fold max (numbered n) (0::int) = int n"
  by (induction n) auto

lemma max_seq_log: "log_ok db \<Longrightarrow> max_seq op db = int (length (op_events op db))"
  unfolding max_seq_def log_ok_def by (simp only: fold_max_numbered)

lemma db_ok_empty: "db_ok empty_db"
  by (simp add: db_ok_def keys_ok_def unique_ok_def fks_ok_def log_ok_def fresh_keys_def
        empty_db_def op_events_def)

lemma op_events_append:
  "op_events op (db\<lparr>events := events db @ [e], next_id := n\<rparr>) =
     (if e_op e = op then op_events op db @ [e] else op_events op db)"
  by (simp add: op_events_def)

lemma log_seq_bounds:
  assumes "log_ok db" "e \<in> set (events db)"
  shows "1 \<le> e_seq e \<and> e_seq e \<le> int (length (op_events (e_op e) db))"
proof -
  have "e \<in> set (op_events (e_op e) db)" using assms(2) by (simp add: op_events_def)
  then have "e_seq e \<in> set (map e_seq (op_events (e_op e) db))" by simp
  with assms(1) show ?thesis by (simp add: log_ok_def)
qed

lemma log_no_collision:
  assumes "log_ok db"
  shows "\<not> list_ex (\<lambda>e. e_op e = op \<and> e_seq e = max_seq op db + 1) (events db)"
  using log_seq_bounds [OF assms] by (fastforce simp: list_ex_iff max_seq_log [OF assms])

lemma log_sorted: "log_ok db \<Longrightarrow> sorted (map e_seq (op_events op db))"
  by (simp add: log_ok_def)

lemma log_nth:
  assumes "log_ok db" "i < length (op_events op db)"
  shows "e_seq (op_events op db ! i) = int (Suc i)"
proof -
  have "map e_seq (op_events op db) ! i = numbered (length (op_events op db)) ! i"
    using assms(1) by (simp add: log_ok_def)
  then show ?thesis using assms(2) by (simp add: numbered_nth)
qed

text \<open>Appending the successor of the maximum keeps the log gap-free.\<close>

lemma log_ok_append:
  assumes "log_ok db" "e_seq e = int (length (op_events (e_op e) db)) + 1"
  shows "log_ok (db\<lparr>events := events db @ [e], next_id := n\<rparr>)"
  using assms by (simp add: log_ok_def op_events_append)

section \<open>\<open>insert_event\<close>\<close>

text \<open>
  One attempt against interference that itself only appends to a well-formed log either collides
  or appends the next number. A stored ratification may change in the intent of its payload:
  \<open>settled\<close> is the rest of it. Every other event is settled as a whole.
\<close>

definition settled :: "event \<Rightarrow> event" where
  "settled e = (if e_kind e = ''chat.speech.ratify''
     then e\<lparr>e_payload := AList.delete ''intent'' (e_payload e)\<rparr> else e)"

definition append_only :: "v2db \<Rightarrow> v2db \<Rightarrow> bool" where
  "append_only db db' \<longleftrightarrow> (\<forall>op. prefix (map settled (op_events op db)) (map settled (op_events op db')))"

lemma settled_simps [simp]:
  "e_id (settled e) = e_id e" "e_op (settled e) = e_op e" "e_seq (settled e) = e_seq e" "e_kind (settled e) = e_kind e"
  "e_kind e = ''chat.speech.ratify'' \<Longrightarrow> settled (e_payload_update (AList.update ''intent'' v) e) = settled e"
  by (simp_all add: settled_def delete_update_same)

lemma patch_intent_settled:
  assumes "\<forall>e \<in> set (events db). e_id e = k \<longrightarrow> e_kind e = ''chat.speech.ratify''"
  shows "map settled (events (patch_intent k t db)) = map settled (events db)"
  using assms by (simp add: patch_intent_def row_upd_def comp_def)

lemma patch_op_events: "op_events op (patch_intent k t db)
    = map (\<lambda>e. if e_id e = k then e_payload_update (AList.update ''intent'' (JStr t)) e else e) (op_events op db)"
  by (simp add: op_events_def patch_intent_def row_upd_def filter_map comp_def if_distrib cong: if_cong)

lemma patch_intent_ok: "db_ok db \<Longrightarrow> db_ok (patch_intent k t db)"
proof -
  assume ok: "db_ok db"
  have "map e_id (events (patch_intent k t db)) = map e_id (events db)"
    by (simp add: patch_intent_def row_upd_def)
  then have ids: "e_id ` set (events (patch_intent k t db)) = e_id ` set (events db)" by (metis set_map)
  have rows: "\<exists>e0 \<in> set (events db). e_op e0 = e_op e \<and> e_actor e0 = e_actor e \<and> e_replies_to e0 = e_replies_to e"
    if "e \<in> set (events (patch_intent k t db))" for e
    using that by (auto simp: patch_intent_def dest!: row_upd_mem)
  have "log_ok (patch_intent k t db)"
    using ok by (simp add: db_ok_def log_ok_def patch_op_events comp_def if_distrib cong: if_cong)
  moreover have "keys_ok (patch_intent k t db)"
    using ok by (auto simp: db_ok_def keys_ok_def patch_intent_def intro: fresh_keys_upd)
  moreover have "unique_ok (patch_intent k t db)" using ok by (simp add: db_ok_def unique_ok_def patch_intent_def)
  moreover have "fks_ok (patch_intent k t db)"
  proof -
    have same: "operations (patch_intent k t db) = operations db" "actors (patch_intent k t db) = actors db"
      "participants (patch_intent k t db) = participants db" "artifacts (patch_intent k t db) = artifacts db"
      by (simp_all add: patch_intent_def)
    have "fks_ok db" using ok by (simp add: db_ok_def)
    then show ?thesis unfolding fks_ok_def same ids by (metis rows)
  qed
  ultimately show ?thesis by (simp add: db_ok_def)
qed

lemma append_only_refl [simp]: "append_only db db"
  by (simp add: append_only_def)

lemma append_only_trans: "append_only a b \<Longrightarrow> append_only b c \<Longrightarrow> append_only a c"
  by (meson append_only_def prefix_order.trans)

lemma append_only_event: "append_only db (db\<lparr>events := events db @ [e], next_id := n\<rparr>)"
  by (simp add: append_only_def op_events_append)

lemma attempt_seq:
  assumes "log_ok db" "log_ok db'" "append_only db db'"
    and "\<not> list_ex (\<lambda>e. e_op e = op \<and> e_seq e = max_seq op db + 1) (events db')"
  shows "max_seq op db = max_seq op db'"
proof (rule ccontr)
  let ?n = "length (op_events op db)" and ?n' = "length (op_events op db')"
  assume "max_seq op db \<noteq> max_seq op db'"
  with assms(1-3) have "?n < ?n'"
    by (metis append_only_def le_neq_implies_less max_seq_log prefix_length_le length_map)
  then have "op_events op db' ! ?n \<in> set (events db')" and "e_op (op_events op db' ! ?n) = op"
    using nth_mem [of ?n "op_events op db'"] by (auto simp: op_events_def)
  moreover have "e_seq (op_events op db' ! ?n) = max_seq op db + 1"
    using log_nth [OF assms(2) \<open>?n < ?n'\<close>] max_seq_log [OF assms(1)] by simp
  ultimately show False using assms(4) by (auto simp: list_ex_iff)
qed

lemma insert_event_Inr:
  assumes "insert_event envs now n db = Inr (row, out)"
    and "log_ok db"
    and "\<And>env d. env \<in> set envs \<Longrightarrow> log_ok d \<Longrightarrow> log_ok (env d) \<and> append_only d (env d)"
  shows "\<exists>db'. log_ok db' \<and> append_only db db' \<and> event_fks_ok n db'
          \<and> row = mk_event now n (int (length (op_events (n_op n) db')) + 1) db'
          \<and> out = db'\<lparr>events := events db' @ [row], next_id := Suc (next_id db')\<rparr>"
  using assms
proof (induction envs arbitrary: db)
  case (Cons env envs)
  let ?db = "env db"
  have ok: "log_ok ?db" "append_only db ?db" using Cons.prems by auto
  show ?case
  proof (cases "list_ex (\<lambda>e. e_op e = n_op n \<and> e_seq e = max_seq (n_op n) db + 1) (events ?db)")
    case True
    with Cons.prems(1) have "insert_event envs now n ?db = Inr (row, out)"
      by (auto simp: Let_def split: if_splits)
    then obtain db' where "log_ok db'" "append_only ?db db'" "event_fks_ok n db'"
      "row = mk_event now n (int (length (op_events (n_op n) db')) + 1) db'"
      "out = db'\<lparr>events := events db' @ [row], next_id := Suc (next_id db')\<rparr>"
      using Cons.IH [OF _ ok(1)] Cons.prems(3) by (auto; blast)
    with ok(2) show ?thesis by (blast intro: append_only_trans)
  next
    case False
    with Cons.prems ok have "max_seq (n_op n) db = max_seq (n_op n) ?db"
      by (intro attempt_seq) auto
    with Cons.prems(1) False ok show ?thesis
      by (auto simp: Let_def max_seq_log split: if_splits)
  qed
qed simp

lemma insert_event_serial_eq:
  assumes "log_ok db"
  shows "insert_event_serial now n db =
     (if event_fks_ok n db
      then let row = mk_event now n (int (length (op_events (n_op n) db)) + 1) db
           in Inr (row, db\<lparr>events := events db @ [row], next_id := Suc (next_id db)\<rparr>)
      else Inl (ForeignKeyViolation ''operation_events_v2''))"
  using log_no_collision [OF assms, of "n_op n"]
  by (simp add: insert_event_serial_def numeral_3_eq_3 Let_def max_seq_log [OF assms])

end
