(* ===== verification/EventLog.thy ===== *)
theory EventLog
  imports StoreInv
begin

text \<open>
  Every repository operation keeps the invariant of the tables; the paged queries read the log
  in order; and the contract \<open>event_log\<close> under which the clients of the log reason, interpreted
  on \<open>insert_event\<close>.
\<close>

section \<open>Operations keep the invariant\<close>

named_theorems db_ok_intros \<open>every repository operation keeps the invariant\<close>

lemmas inv_defs = db_ok_def keys_ok_def unique_ok_def fks_ok_def

lemma log_ok_same_events: "events db' = events db \<Longrightarrow> log_ok db' = log_ok db"
  by (simp add: log_ok_def op_events_def)

lemma insert_actor_ok [db_ok_intros]:
  assumes "db_ok db" "insert_actor h d k c s db = Inr (row, db')"
  shows "db_ok db'"
proof -
  have db': "db' = db\<lparr>actors := actors db @ [row], next_id := Suc (next_id db)\<rparr>"
    and id: "a_id row = next_id db" and h: "a_handle row \<notin> a_handle ` set (actors db)"
    using assms(2) by (auto simp: insert_actor_def Let_def list_ex_iff split: if_splits)
  have "keys_ok db'"
    using assms(1) id by (auto simp: inv_defs db' intro: fresh_keys_append fresh_keys_Suc)
  moreover have "unique_ok db'" using assms(1) h by (auto simp: inv_defs db')
  moreover have "fks_ok db'" using assms(1) by (fastforce simp: inv_defs db')
  moreover have "log_ok db'"
    using assms(1) by (subst log_ok_same_events [of _ db]) (auto simp: db' db_ok_def)
  ultimately show ?thesis by (simp add: db_ok_def)
qed

lemma upd_actor_ok:
  assumes "db_ok db" "\<And>a. a_id (f a) = a_id a" "\<And>a. a_handle (f a) = a_handle a"
  shows "db_ok (db\<lparr>actors := row_upd a_id k f (actors db)\<rparr>)"
proof -
  let ?db = "db\<lparr>actors := row_upd a_id k f (actors db)\<rparr>"
  have ids: "map a_id (row_upd a_id k f (actors db)) = map a_id (actors db)"
    using assms(2) by (intro row_upd_keys) simp
  have "keys_ok ?db" using assms by (auto simp: inv_defs intro: fresh_keys_upd)
  moreover have "map a_handle (row_upd a_id k f (actors db)) = map a_handle (actors db)"
    using assms(3) by (simp add: row_upd_def)
  then have "unique_ok ?db" using assms(1) by (simp add: inv_defs)
  moreover have "a_id ` set (row_upd a_id k f (actors db)) = a_id ` set (actors db)"
    using arg_cong [OF ids, of set] by simp
  then have "fks_ok ?db" using assms(1) by (auto simp: inv_defs)
  moreover have "log_ok ?db"
    using assms(1) by (subst log_ok_same_events [of _ db]) (auto simp: db_ok_def)
  ultimately show ?thesis by (simp add: db_ok_def)
qed

lemma update_actor_presence_ok [db_ok_intros]:
  "db_ok db \<Longrightarrow> db_ok (snd (update_actor_presence k s t db))"
  by (auto simp: update_actor_presence_def intro!: upd_actor_ok split: option.splits)

lemma insert_operation_ok [db_ok_intros]:
  assumes "db_ok db" "insert_operation now sp k t i par m st db = Inr (row, db')"
  shows "db_ok db'"
proof -
  have db': "db' = db\<lparr>operations := operations db @ [row], next_id := Suc (next_id db)\<rparr>"
    and id: "o_id row = next_id db"
    using assms(2) by (auto simp: insert_operation_def Let_def split: if_splits)
  have "keys_ok db'"
    using assms(1) id by (auto simp: inv_defs db' intro: fresh_keys_append fresh_keys_Suc)
  moreover have "unique_ok db'" using assms(1) by (auto simp: inv_defs db')
  moreover have "fks_ok db'" using assms(1) by (fastforce simp: inv_defs db')
  moreover have "log_ok db'"
    using assms(1) by (subst log_ok_same_events [of _ db]) (auto simp: db' db_ok_def)
  ultimately show ?thesis by (simp add: db_ok_def)
qed

lemma upd_operation_ok [db_ok_intros]:
  assumes "db_ok db" "\<And>r. o_id (f r) = o_id r"
  shows "db_ok (upd_operation now k f db)"
proof -
  let ?f = "touch_op now f"
  have key: "o_id (?f r) = o_id r" for r using assms(2) by (simp add: touch_op_def Let_def)
  have ids: "map o_id (row_upd o_id k ?f (operations db)) = map o_id (operations db)"
    using key by (intro row_upd_keys) simp
  have "keys_ok (upd_operation now k f db)"
    using assms(1) key by (auto simp: inv_defs upd_operation_def intro: fresh_keys_upd)
  moreover have "unique_ok (upd_operation now k f db)"
    using assms(1) by (auto simp: inv_defs upd_operation_def)
  moreover have "o_id ` set (row_upd o_id k ?f (operations db)) = o_id ` set (operations db)"
    using arg_cong [OF ids, of set] by simp
  then have "fks_ok (upd_operation now k f db)"
    using assms(1) by (auto simp: inv_defs upd_operation_def)
  moreover have "log_ok (upd_operation now k f db)"
    using assms(1) by (subst log_ok_same_events [of _ db]) (auto simp: upd_operation_def db_ok_def)
  ultimately show ?thesis by (simp add: db_ok_def)
qed

lemma transition_operation_state_ok [db_ok_intros]:
  "db_ok db \<Longrightarrow> db_ok (snd (transition_operation_state now k s db))"
  by (auto simp: transition_operation_state_def Let_def split: option.splits intro: upd_operation_ok)

lemma close_operation_ok [db_ok_intros]:
  "db_ok db \<Longrightarrow> db_ok (snd (close_operation now k c r s db))"
  by (auto simp: close_operation_def Let_def split: option.splits intro!: upd_operation_ok)

lemma set_operation_policy_ok [db_ok_intros]:
  "db_ok db \<Longrightarrow> db_ok (snd (set_operation_policy now k p db))"
  by (auto simp: set_operation_policy_def Let_def split: option.splits intro!: upd_operation_ok)

lemma add_participant_ok [db_ok_intros]:
  assumes "db_ok db" "add_participant now op a role db = Inr db'"
  shows "db_ok db'"
proof -
  have fk: "op \<in> o_id ` set (operations db)" "a \<in> a_id ` set (actors db)"
    and new: "\<not> list_ex (\<lambda>p. p_op p = op \<and> p_actor p = a \<and> p_role p = role) (participants db)"
    and db': "db' = db\<lparr>participants := participants db @
              [\<lparr>p_op = op, p_actor = a, p_role = role, p_joined = now, p_seen_seq = 0\<rparr>]\<rparr>"
    using assms(2) get_actor_Some_iff [of a db] get_operation_Some_iff [of op db]
    by (auto simp: add_participant_def split: if_splits)
  have "keys_ok db'" using assms(1) by (auto simp: inv_defs db')
  moreover have "unique_ok db'" using assms(1) new by (auto simp: inv_defs db' list_ex_iff)
  moreover have "fks_ok db'" using assms(1) fk by (auto simp: inv_defs db')
  moreover have "log_ok db'"
    using assms(1) by (subst log_ok_same_events [of _ db]) (auto simp: db' db_ok_def)
  ultimately show ?thesis by (simp add: db_ok_def)
qed

lemma update_seen_seq_ok [db_ok_intros]:
  assumes "db_ok db"
  shows "db_ok (update_participant_seen_seq op a q db)"
proof -
  let ?f = "\<lambda>p. if p_op p = op \<and> p_actor p = a \<and> p_seen_seq p < q then p\<lparr>p_seen_seq := q\<rparr> else p"
  let ?db = "update_participant_seen_seq op a q db"
  have same: "(\<lambda>p. (p_op p, p_actor p, p_role p)) \<circ> ?f = (\<lambda>p. (p_op p, p_actor p, p_role p))"
    by (auto simp: fun_eq_iff)
  have "keys_ok ?db" using assms by (auto simp: inv_defs update_participant_seen_seq_def)
  moreover have "unique_ok ?db"
    using assms by (simp add: inv_defs update_participant_seen_seq_def same)
  moreover have "fks_ok ?db" using assms by (auto simp: inv_defs update_participant_seen_seq_def)
  moreover have "log_ok ?db"
    using assms
    by (subst log_ok_same_events [of _ db]) (auto simp: update_participant_seen_seq_def db_ok_def)
  ultimately show ?thesis by (simp add: db_ok_def)
qed

lemma append_event_ok:
  assumes "db_ok db" "event_fks_ok n db"
    "row = mk_event now n (int (length (op_events (n_op n) db)) + 1) db"
  shows "db_ok (db\<lparr>events := events db @ [row], next_id := Suc (next_id db)\<rparr>)" (is "db_ok ?db")
proof -
  have row: "e_id row = next_id db" "e_op row = n_op n" "e_actor row = n_actor n"
    "e_replies_to row = n_replies_to n"
    using assms(3) by (simp_all add: mk_event_def)
  have fk: "n_op n \<in> o_id ` set (operations db)" "n_actor n \<in> a_id ` set (actors db)"
    "\<And>r. n_replies_to n = Some r \<Longrightarrow> r \<in> e_id ` set (events db)"
    using assms(2) get_actor_Some_iff [of "n_actor n" db] get_operation_Some_iff [of "n_op n" db]
      get_event_Some_iff [of _ db]
    by (auto simp: event_fks_ok_def split: option.splits)
  have "keys_ok ?db" using assms(1) row by (auto simp: inv_defs intro: fresh_keys_append fresh_keys_Suc)
  moreover have "unique_ok ?db" using assms(1) by (auto simp: inv_defs)
  moreover have "fks_ok ?db" using assms(1) fk row by (fastforce simp: inv_defs)
  moreover have "log_ok ?db"
    using assms(1,3) by (intro log_ok_append) (auto simp: db_ok_def mk_event_def)
  ultimately show ?thesis by (simp add: db_ok_def)
qed

lemma insert_event_serial_ok [db_ok_intros]:
  assumes "db_ok db" "insert_event_serial now n db = Inr (row, db')"
  shows "db_ok db'"
  using assms append_event_ok [OF assms(1)]
  by (auto simp: insert_event_serial_eq db_ok_def Let_def split: if_splits)

lemma insert_artifact_ok [db_ok_intros]:
  assumes "db_ok db" "insert_artifact op ev k u sh mi sz l m db = Inr (row, db')"
  shows "db_ok db'"
proof -
  have fk: "op \<in> o_id ` set (operations db)" "ev \<in> e_id ` set (events db)"
    and row: "r_op row = op" "r_event row = ev" "r_id row = next_id db"
    and db': "db' = db\<lparr>artifacts := artifacts db @ [row], next_id := Suc (next_id db)\<rparr>"
    using assms(2) get_event_Some_iff [of ev db] get_operation_Some_iff [of op db]
    by (auto simp: insert_artifact_def Let_def split: if_splits)
  have "keys_ok db'"
    using assms(1) row by (auto simp: inv_defs db' intro: fresh_keys_append fresh_keys_Suc)
  moreover have "unique_ok db'" using assms(1) by (auto simp: inv_defs db')
  moreover have "fks_ok db'" using assms(1) fk row by (auto simp: inv_defs db')
  moreover have "log_ok db'"
    using assms(1) by (subst log_ok_same_events [of _ db]) (auto simp: db' db_ok_def)
  ultimately show ?thesis by (simp add: db_ok_def)
qed

lemma create_actor_token_ok [db_ok_intros]:
  assumes "db_ok db" "create_actor_token now a h l s db = Inr (row, db')"
  shows "db_ok db'"
proof -
  have row: "t_id row = next_id db" and new: "t_hash row \<notin> t_hash ` set (tokens db)"
    and db': "db' = db\<lparr>tokens := tokens db @ [row], next_id := Suc (next_id db)\<rparr>"
    using assms(2) by (auto simp: create_actor_token_def Let_def list_ex_iff split: if_splits)
  have "keys_ok db'"
    using assms(1) row by (auto simp: inv_defs db' intro: fresh_keys_append fresh_keys_Suc)
  moreover have "unique_ok db'" using assms(1) new by (auto simp: inv_defs db')
  moreover have "fks_ok db'" using assms(1) by (auto simp: inv_defs db')
  moreover have "log_ok db'"
    using assms(1) by (subst log_ok_same_events [of _ db]) (auto simp: db' db_ok_def)
  ultimately show ?thesis by (simp add: db_ok_def)
qed

lemma revoke_actor_token_ok [db_ok_intros]:
  assumes "db_ok db"
  shows "db_ok (snd (revoke_actor_token now k db))"
proof -
  let ?ts = "row_upd t_id k (t_revoked_update (\<lambda>_. Some now)) (tokens db)"
  have "map t_hash ?ts = map t_hash (tokens db)" by (simp add: row_upd_def)
  moreover have "fresh_keys t_id (next_id db) ?ts"
    using assms by (auto simp: inv_defs intro: fresh_keys_upd)
  ultimately have "db_ok (db\<lparr>tokens := ?ts\<rparr>)"
    using assms log_ok_same_events [of "db\<lparr>tokens := ?ts\<rparr>" db] by (auto simp: inv_defs)
  with assms show ?thesis
    by (auto simp: revoke_actor_token_def split: option.splits)
qed

section \<open>The contract of an event log\<close>

text \<open>
  \<open>append\<close> adds a numbered entry to the log of its key and leaves every other log alone. The
  lemmas of the block are what a reader of such a log may conclude.
\<close>

locale event_log =
  fixes entries :: "'k \<Rightarrow> 's \<Rightarrow> 'e list"
    and seq_of :: "'e \<Rightarrow> int"
    and key_of :: "'n \<Rightarrow> 'k"
    and invar :: "'s \<Rightarrow> bool"
    and append :: "'n \<Rightarrow> 's \<Rightarrow> 'err + 'e \<times> 's"
  assumes entries_append:
      "invar s \<Longrightarrow> append n s = Inr (e, s') \<Longrightarrow>
         entries k s' = (if k = key_of n then entries k s @ [e] else entries k s)"
    and append_invar: "invar s \<Longrightarrow> append n s = Inr (e, s') \<Longrightarrow> invar s'"
    and invar_numbered: "invar s \<Longrightarrow> map seq_of (entries k s) = numbered (length (entries k s))"
begin

lemma append_seq:
  assumes "invar s" "append n s = Inr (e, s')"
  shows "seq_of e = int (length (entries (key_of n) s)) + 1"
proof -
  have "map seq_of (entries (key_of n) s') = numbered (length (entries (key_of n) s'))"
    using append_invar [OF assms] by (rule invar_numbered)
  with entries_append [OF assms, of "key_of n"] invar_numbered [OF assms(1), of "key_of n"]
  show ?thesis by simp
qed

lemma entries_grow: "invar s \<Longrightarrow> append n s = Inr (e, s') \<Longrightarrow> prefix (entries k s) (entries k s')"
  by (simp add: entries_append)

text \<open>Reading after a cursor returns exactly what was appended since.\<close>

lemma after_cursor:
  assumes "invar s" "i \<le> length (entries k s)"
  shows "filter (\<lambda>e. int i < seq_of e) (entries k s) = drop i (entries k s)"
proof -
  let ?es = "entries k s"
  have seq: "seq_of (?es ! j) = int (Suc j)" if "j < length ?es" for j
  proof -
    have "map seq_of ?es ! j = numbered (length ?es) ! j" by (simp add: invar_numbered [OF assms(1)])
    with that show ?thesis by (simp add: numbered_nth)
  qed
  have "filter (\<lambda>e. int i < seq_of e) (take i ?es @ drop i ?es) = drop i ?es"
  proof -
    have "filter (\<lambda>e. int i < seq_of e) (take i ?es) = []"
      using assms(2) by (auto simp: filter_empty_conv in_set_conv_nth seq)
    moreover have "filter (\<lambda>e. int i < seq_of e) (drop i ?es) = drop i ?es"
      using assms(2) by (auto simp: filter_id_conv in_set_conv_nth seq)
    ultimately show ?thesis by (simp only: filter_append append_Nil)
  qed
  then show ?thesis by simp
qed

text \<open>A whole run of appends: the log of a key grows by exactly the entries written under it.\<close>

definition append_one :: "'n \<Rightarrow> 'e list \<times> 's \<Rightarrow> 'err + 'e list \<times> 's" where
  "append_one n = (\<lambda>(es, s). bindE (append n s) (\<lambda>(e, s'). Inr (es @ [e], s')))"

lemma append_one_Inr:
  "append_one n (es, s) = Inr r \<longleftrightarrow> (\<exists>e s'. append n s = Inr (e, s') \<and> r = (es @ [e], s'))"
  by (auto simp: append_one_def bindE_Inr_iff)

lemma append_run:
  assumes "foldE append_one ns (es, s) = Inr (es', s')" "invar s"
  shows "invar s' \<and> (\<exists>new. es' = es @ new \<and> length new = length ns
           \<and> entries k s' = entries k s @ map fst (filter (\<lambda>(e, n). key_of n = k) (zip new ns)))"
  using assms
proof (induction ns arbitrary: es s)
  case (Cons n ns)
  obtain e s1 where step: "append n s = Inr (e, s1)"
    and rest: "foldE append_one ns (es @ [e], s1) = Inr (es', s')"
    using Cons.prems(1) by (auto simp: append_one_Inr bindE_Inr_iff)
  obtain new where "invar s'" "es' = (es @ [e]) @ new" "length new = length ns"
    "entries k s' = entries k s1 @ map fst (filter (\<lambda>(e, n). key_of n = k) (zip new ns))"
    using Cons.IH [OF rest append_invar [OF Cons.prems(2) step]] by blast
  then show ?case
    using entries_append [OF Cons.prems(2) step, of k]
    by (intro conjI exI [of _ "e # new"]) auto
qed auto

end

interpretation v2log: event_log op_events e_seq n_op db_ok "insert_event_serial now" for now
proof
  fix s n e s' k
  assume ok: "db_ok s" and ins: "insert_event_serial now n s = Inr (e, s')"
  then show "op_events k s' = (if k = n_op n then op_events k s @ [e] else op_events k s)"
    by (auto simp: insert_event_serial_eq db_ok_def Let_def mk_event_def op_events_append
          split: if_splits)
  from ok ins show "db_ok s'" by (rule insert_event_serial_ok)
next
  fix s k
  assume "db_ok s"
  then show "map e_seq (op_events k s) = numbered (length (op_events k s))"
    by (simp add: db_ok_def log_ok_def)
qed

section \<open>Queries on the log\<close>

lemma list_events_eq:
  assumes "db_ok db"
  shows "list_events op after kinds limit db =
     take (clamp_limit 1000 limit)
       (filter (\<lambda>e. (case after of None \<Rightarrow> True | Some s \<Rightarrow> s < e_seq e)
                  \<and> (kinds = [] \<or> e_kind e \<in> set kinds)) (op_events op db))"
proof -
  let ?p = "\<lambda>e. (case after of None \<Rightarrow> True | Some s \<Rightarrow> s < e_seq e) \<and> (kinds = [] \<or> e_kind e \<in> set kinds)"
  have "sorted (map e_seq (filter ?p (op_events op db)))"
    using log_sorted [of db op] assms by (simp add: db_ok_def sorted_filter)
  then have "sort_key e_seq (filter ?p (op_events op db)) = filter ?p (op_events op db)"
    by (rule sort_key_id_if_sorted)
  moreover have "filter (\<lambda>e. e_op e = op \<and> ?p e) (events db) = filter ?p (op_events op db)"
    by (simp add: op_events_def conj_commute)
  ultimately show ?thesis by (simp add: list_events_def select_asc_def)
qed

lemma list_events_all:
  "db_ok db \<Longrightarrow> list_events op None [] limit db = take (clamp_limit 1000 limit) (op_events op db)"
  by (simp add: list_events_eq)

lemma list_events_after:
  assumes "db_ok db" "i \<le> length (op_events op db)"
  shows "list_events op (Some (int i)) [] limit db =
           take (clamp_limit 1000 limit) (drop i (op_events op db))"
  using v2log.after_cursor [OF assms] by (simp add: list_events_eq [OF assms(1)])

lemma op_events_get:
  assumes "db_ok db" "e \<in> set (op_events op db)"
  shows "get_event (e_id e) db = Some e"
  using assms by (intro fresh_keys_get) (auto simp: inv_defs op_events_def)

section \<open>Properties\<close>

text \<open>A writer that appends one event to operation \<open>op\<close> between another's read and insert.\<close>

definition rival :: "instant \<Rightarrow> id \<Rightarrow> id \<Rightarrow> v2db \<Rightarrow> v2db" where
  "rival now op actor db =
     (case insert_event_serial now \<lparr>n_op = op, n_actor = actor, n_kind = ''chat.speech.claim'',
              n_payload = [], n_addressed = [], n_replies_to = None, n_private = None\<rparr> db of
        Inl _ \<Rightarrow> db | Inr (_, db') \<Rightarrow> db')"

definition sample_db :: v2db where
  "sample_db = (case insert_actor ''@ann'' ''ann'' ''ai'' [] ''online'' empty_db of
      Inl _ \<Rightarrow> empty_db
    | Inr (a, db1) \<Rightarrow>
        (case insert_operation 0 ''chat:t'' KIND_INQUIRY ''q'' None None [] STATE_OPEN db1 of
           Inl _ \<Rightarrow> db1 | Inr (op, db2) \<Rightarrow> db2))"

definition sample_event :: new_event where
  "sample_event = \<lparr>n_op = 1, n_actor = 0, n_kind = ''chat.speech.question'', n_payload = [],
     n_addressed = [], n_replies_to = None, n_private = None\<rparr>"

lemma sample_db_ok: "db_ok sample_db"
proof -
  have 1: "insert_actor ''@ann'' ''ann'' ''ai'' [] ''online'' empty_db =
      Inr (hd (actors sample_db), empty_db\<lparr>actors := actors sample_db, next_id := 1\<rparr>)"
    by code_simp
  have 2: "insert_operation 0 ''chat:t'' KIND_INQUIRY ''q'' None None [] STATE_OPEN
      (empty_db\<lparr>actors := actors sample_db, next_id := 1\<rparr>) = Inr (hd (operations sample_db), sample_db)"
    by code_simp
  show ?thesis
    using insert_operation_ok [OF insert_actor_ok [OF db_ok_empty 1] 2] .
qed

lemma rival_ok:
  assumes "log_ok db"
  shows "log_ok (rival now op a db) \<and> append_only db (rival now op a db)"
  using assms
  by (auto simp: rival_def insert_event_serial_eq Let_def mk_event_def append_only_event
        intro: log_ok_append)

text \<open>C1: However other writers interleave with its attempts, a successful \<open>insert_event\<close> leaves
  the operation's log numbered 1, 2, 3, ... without a gap or a duplicate, with the returned event
  last and everything that was there before still in place (the intent of a ratification may have been
  added meanwhile).\<close>

theorem insert_event_gap_free:
  assumes "insert_event envs now n db = Inr (row, db')" "log_ok db"
    and "\<And>env d. env \<in> set envs \<Longrightarrow> log_ok d \<Longrightarrow> log_ok (env d) \<and> append_only d (env d)"
  shows "log_ok db' \<and> append_only db db'
    \<and> (\<exists>before. op_events (n_op n) db' = before @ [row] \<and> e_seq row = int (length before) + 1)"
proof -
  obtain db1 where 1: "log_ok db1" "append_only db db1"
      "row = mk_event now n (int (length (op_events (n_op n) db1)) + 1) db1"
      "db' = db1\<lparr>events := events db1 @ [row], next_id := Suc (next_id db1)\<rparr>"
    using insert_event_Inr [OF assms(1,2)] assms(3) by blast
  then have "log_ok db'" by (auto simp: mk_event_def intro: log_ok_append)
  moreover have "append_only db db'" using 1 append_only_event append_only_trans by blast
  ultimately show ?thesis using 1 by (auto simp: op_events_append mk_event_def)
qed

theorem insert_event_gap_free_witness:
  "\<exists>row db'. insert_event [rival 5 1 0, rival 6 1 0, \<lambda>d. d] 7 sample_event sample_db = Inr (row, db')
     \<and> e_seq row = 3 \<and> log_ok db' \<and> append_only sample_db db'"
proof -
  let ?envs = "[rival 5 1 0, rival 6 1 0, \<lambda>d. d]"
  have "case insert_event ?envs 7 sample_event sample_db of Inl _ \<Rightarrow> False | Inr (row, _) \<Rightarrow> e_seq row = 3"
    by code_simp
  then obtain row db' where run: "insert_event ?envs 7 sample_event sample_db = Inr (row, db')"
    and seq: "e_seq row = 3" by (auto split: sum.splits)
  have "log_ok db' \<and> append_only sample_db db'
    \<and> (\<exists>before. op_events (n_op sample_event) db' = before @ [row] \<and> e_seq row = int (length before) + 1)"
    using run sample_db_ok rival_ok by (intro insert_event_gap_free [of ?envs]) (auto simp: db_ok_def)
  with run seq show ?thesis by blast
qed

text \<open>With the tables' invariant and the event's foreign keys in place, an insert returns:
  one attempt that meets no rival suffices, wherever it stands among the retries, and the event
  gets the next number of its operation; a dangling foreign key is the only error left to the
  serial writer.\<close>

theorem insert_event_retry_succeeds:
  assumes "log_ok db" "envs = rivals @ (\<lambda>d. d) # rest"
    and "\<And>env d. env \<in> set rivals \<Longrightarrow> log_ok d \<Longrightarrow>
           log_ok (env d) \<and> append_only d (env d)
           \<and> (event_fks_ok n d \<longrightarrow> event_fks_ok n (env d))"
    and "event_fks_ok n db"
  shows "\<exists>row db'. insert_event envs now n db = Inr (row, db')"
  using assms
proof (induction rivals arbitrary: envs db)
  case Nil
  then show ?case using log_no_collision [OF Nil.prems(1), of "n_op n"] by (simp add: Let_def)
next
  case (Cons env rivals)
  let ?coll = "list_ex (\<lambda>e. e_op e = n_op n \<and> e_seq e = max_seq (n_op n) db + 1) (events (env db))"
  have step: "log_ok (env db)" "event_fks_ok n (env db)" using Cons.prems by auto
  show ?case
  proof (cases ?coll)
    case True
    have "\<exists>row db'. insert_event (rivals @ (\<lambda>d. d) # rest) now n (env db) = Inr (row, db')"
      using Cons.prems(3) step by (intro Cons.IH) auto
    with True step Cons.prems(2) show ?thesis by (simp add: Let_def)
  next
    case False
    with step Cons.prems(2) show ?thesis by (simp add: Let_def)
  qed
qed

theorem insert_event_retry_succeeds_witness:
  "\<exists>row db'. insert_event [rival 5 1 0, rival 6 1 0, \<lambda>d. d] 7 sample_event sample_db = Inr (row, db')"
proof -
  have fk: "event_fks_ok sample_event (rival t 1 0 d)" if "event_fks_ok sample_event d" for t d
    using that
    by (auto simp: rival_def insert_event_serial_def event_fks_ok_def get_operation_def
          numeral_3_eq_3 Let_def sample_event_def split: sum.splits if_splits)
  have "event_fks_ok sample_event sample_db" by code_simp
  then show ?thesis
    using sample_db_ok rival_ok fk
    by (intro insert_event_retry_succeeds [where rivals = "[rival 5 1 0, rival 6 1 0]" and rest = "[]"])
       (auto simp: db_ok_def)
qed

text \<open>Reading an operation's events after the cursor \<open>i\<close> returns exactly the events numbered
  from \<open>i + 1\<close> on, in order and cut at the clamped limit, so consecutive pages cover the log
  once.\<close>

theorem list_events_page:
  assumes "db_ok db" "i \<le> length (op_events op db)"
  shows "list_events op (Some (int i)) [] limit db =
           take (clamp_limit 1000 limit) (drop i (op_events op db))
    \<and> (\<forall>j < length (list_events op (Some (int i)) [] limit db).
         e_seq (list_events op (Some (int i)) [] limit db ! j) = int (Suc (i + j)))"
proof -
  have eq: "list_events op (Some (int i)) [] limit db =
           take (clamp_limit 1000 limit) (drop i (op_events op db))"
    using assms by (rule list_events_after)
  have "log_ok db" using assms(1) by (simp add: db_ok_def)
  then show ?thesis using assms(2) by (auto simp: eq log_nth)
qed

theorem list_events_page_witness:
  "map e_seq (list_events 1 (Some (int 1)) [] 1 (rival 6 1 0 (rival 5 1 0 sample_db))) = [2]"
proof -
  let ?db = "rival 6 1 0 (rival 5 1 0 sample_db)"
  have ok: "db_ok (rival t 1 0 d)" if "db_ok d" for t d
    using that insert_event_serial_ok [OF that]
    by (auto simp: rival_def split: sum.splits)
  have "db_ok ?db" by (intro ok sample_db_ok)
  moreover have "op_events 1 ?db \<noteq> [] \<and> length (op_events 1 ?db) = 2" by code_simp
  ultimately have "list_events 1 (Some (int 1)) [] 1 ?db =
      take (clamp_limit 1000 1) (drop 1 (op_events 1 ?db))"
    using list_events_page [of ?db 1 1 1] by simp
  moreover have "map e_seq (take (clamp_limit 1000 1) (drop 1 (op_events 1 ?db))) = [2]" by code_simp
  ultimately show ?thesis by simp
qed

end
