(* ===== verification/Actors.thy ===== *)
theory Actors
  imports EventLog
begin

text \<open>
  Identity and authorization: \<open>kernel/v2/actor_service.py\<close> (auto-provisioned actor rows) and
  \<open>kernel/v2/capabilities.py\<close> (explicit capability lists with per-kind defaults).
\<close>

section \<open>Actor service\<close>

abbreviation DEFAULT_OPERATOR_HANDLE :: string where "DEFAULT_OPERATOR_HANDLE \<equiv> ''@operator''"

definition ensure_actor_by_handle ::
  "instant \<Rightarrow> string \<Rightarrow> string option \<Rightarrow> string \<Rightarrow> string list \<Rightarrow> v2db \<Rightarrow> db_error + actor \<times> v2db" where
  "ensure_actor_by_handle now handle display kind caps db =
     (case get_actor_by_handle handle db of
        Some existing \<Rightarrow>
          let db' = snd (update_actor_presence (a_id existing) ''online'' now db)
          in Inr (existing\<lparr>a_status := ''online'', a_last_seen := Some now\<rparr>, db')
      | None \<Rightarrow>
          insert_actor handle
            (case display of None \<Rightarrow> handle | Some d \<Rightarrow> if d = [] then handle else d)
            kind caps ''online'' db)"

definition actor_for_caller ::
  "instant \<Rightarrow> string option \<Rightarrow> string \<Rightarrow> v2db \<Rightarrow> db_error + actor \<times> v2db" where
  "actor_for_caller now asserted operator db =
     (case asserted of
        Some cid \<Rightarrow>
          (if cid \<noteq> []
           then ensure_actor_by_handle now (CHR ''@'' # cid) (Some cid) ''ai'' [] db
           else ensure_actor_by_handle now operator (Some ''Operator'') ''human'' [] db)
      | None \<Rightarrow> ensure_actor_by_handle now operator (Some ''Operator'') ''human'' [] db)"

section \<open>Capabilities\<close>

definition effective_capabilities :: "actor \<Rightarrow> string list" where
  "effective_capabilities a =
     (if a_caps a \<noteq> [] then a_caps a
      else if a_kind a = ''human'' then DEFAULT_CAPABILITIES_HUMAN
      else DEFAULT_CAPABILITIES_AI)"

definition actor_can :: "string \<Rightarrow> string \<Rightarrow> v2db \<Rightarrow> bool" where
  "actor_can actor_handle capability db =
     (case get_actor_by_handle (at_handle actor_handle) db of
        None \<Rightarrow> False
      | Some a \<Rightarrow> capability \<in> set (effective_capabilities a))"

definition set_caps :: "id \<Rightarrow> string list \<Rightarrow> v2db \<Rightarrow> v2db" where
  "set_caps k caps db = db\<lparr>actors := row_upd a_id k (a_caps_update (\<lambda>_. caps)) (actors db)\<rparr>"

definition grant ::
  "instant \<Rightarrow> string \<Rightarrow> string list \<Rightarrow> v2db \<Rightarrow> db_error + string list \<times> v2db" where
  "grant now actor_handle capabilities db =
     bindE (ensure_actor_by_handle now (at_handle actor_handle) None ''ai'' [] db) (\<lambda>(a, db1).
       let existing = a_caps a; added = filter (\<lambda>c. c \<notin> set existing) capabilities
       in if added = [] then Inr (existing, db1)
          else Inr (existing @ added, set_caps (a_id a) (existing @ added) db1))"

definition revoke :: "string \<Rightarrow> string list \<Rightarrow> v2db \<Rightarrow> string list \<times> v2db" where
  "revoke actor_handle capabilities db =
     (case get_actor_by_handle (at_handle actor_handle) db of
        None \<Rightarrow> ([], db)
      | Some a \<Rightarrow>
          let existing = a_caps a; kept = filter (\<lambda>c. c \<notin> set capabilities) existing
          in if length kept = length existing then (existing, db)
             else (kept, set_caps (a_id a) kept db))"

text \<open>
  \<open>make_per_capability_authorizer\<close>: the closure the chat services call, with its own transaction.
  A provisioning failure propagates as the exception it is.
\<close>

definition authorize ::
  "bool \<Rightarrow> instant \<Rightarrow> string \<Rightarrow> string \<Rightarrow> v2db \<Rightarrow> db_error + bool \<times> v2db" where
  "authorize auto_provision now actor_name capability db =
     (if auto_provision
      then bindE (ensure_actor_by_handle now (at_handle actor_name) None ''ai'' [] db)
             (\<lambda>(_, db1). Inr (actor_can actor_name capability db1, db1))
      else Inr (actor_can actor_name capability db, db))"

section \<open>Lemmas\<close>

lemma get_actor_by_handle_SomeD:
  "get_actor_by_handle h db = Some a \<Longrightarrow> a \<in> set (actors db) \<and> a_handle a = h"
  by (auto simp: get_actor_by_handle_def dest: row_get_SomeD)

lemma get_actor_by_handle_None:
  "get_actor_by_handle h db = None \<longleftrightarrow> \<not> list_ex (\<lambda>a. a_handle a = h) (actors db)"
  by (auto simp: get_actor_by_handle_def row_get_None_iff_all list_ex_iff)

text \<open>Rows of one actor updated by id, read back by handle.\<close>

lemma find_handle_upd:
  assumes "db_ok db" "get_actor_by_handle h db = Some a" "\<And>x. a_handle (f x) = a_handle x"
    and "\<And>x. a_id (f x) = a_id x"
  shows "get_actor_by_handle h' (db\<lparr>actors := row_upd a_id (a_id a) f (actors db)\<rparr>) =
           (if h' = h then Some (f a) else get_actor_by_handle h' db)"
proof -
  let ?g = "\<lambda>r. if a_id r = a_id a then f r else r"
  have a: "a \<in> set (actors db)" "a_handle a = h" using get_actor_by_handle_SomeD [OF assms(2)] by auto
  have "row_get a_handle h' (map ?g (actors db)) = map_option ?g (row_get a_handle h' (actors db))"
    using assms(3) by (intro row_get_map) simp
  moreover have "map_option ?g (get_actor_by_handle h' db) = get_actor_by_handle h' db" if "h' \<noteq> h"
  proof (cases "get_actor_by_handle h' db")
    case (Some b)
    have b: "b \<in> set (actors db)" "a_handle b = h'" using get_actor_by_handle_SomeD [OF Some] by auto
    have "a_id b \<noteq> a_id a"
    proof
      assume "a_id b = a_id a"
      moreover have "distinct (map a_id (actors db))" using assms(1) by (simp add: inv_defs fresh_keys_def)
      ultimately have "b = a" using a(1) b(1) by (auto simp: distinct_map inj_on_def)
      with a(2) b(2) that show False by simp
    qed
    with Some show ?thesis by simp
  qed simp
  ultimately show ?thesis
    using assms(2) by (simp add: get_actor_by_handle_def row_upd_def)
qed

lemma ensure_actor_total: "\<exists>a db'. ensure_actor_by_handle now h d k c db = Inr (a, db')"
  by (auto simp: ensure_actor_by_handle_def insert_actor_def get_actor_by_handle_None Let_def
        split: option.split)

lemma ensure_actor_ok [db_ok_intros]:
  "db_ok db \<Longrightarrow> ensure_actor_by_handle now h d k c db = Inr (a, db') \<Longrightarrow> db_ok db'"
  by (auto simp: ensure_actor_by_handle_def Let_def split: option.splits
        intro: insert_actor_ok update_actor_presence_ok)

lemma update_presence_existing:
  "a \<in> set (actors db) \<Longrightarrow>
     snd (update_actor_presence (a_id a) s t db) =
       db\<lparr>actors := row_upd a_id (a_id a) (\<lambda>r. r\<lparr>a_status := s, a_last_seen := Some t\<rparr>) (actors db)\<rparr>"
  using row_get_None_iff [of a_id "a_id a" "actors db"]
  by (auto simp: update_actor_presence_def split: option.splits)

lemma ensure_actor_existing:
  assumes "get_actor_by_handle h db = Some b"
  shows "ensure_actor_by_handle now h d k c db =
     Inr (b\<lparr>a_status := ''online'', a_last_seen := Some now\<rparr>,
          db\<lparr>actors := row_upd a_id (a_id b)
                (\<lambda>r. r\<lparr>a_status := ''online'', a_last_seen := Some now\<rparr>) (actors db)\<rparr>)"
  using assms get_actor_by_handle_SomeD [OF assms]
  by (simp add: ensure_actor_by_handle_def update_presence_existing)

lemma ensure_actor_new:
  assumes "get_actor_by_handle h db = None"
  shows "\<exists>d'. ensure_actor_by_handle now h d k c db =
     (let row = \<lparr>a_id = next_id db, a_handle = h, a_display = d', a_kind = k, a_caps = c,
                 a_status = ''online'', a_last_seen = None\<rparr>
      in Inr (row, db\<lparr>actors := actors db @ [row], next_id := Suc (next_id db)\<rparr>))"
  using assms get_actor_by_handle_None [of h db]
  by (auto simp: ensure_actor_by_handle_def insert_actor_def Let_def)

text \<open>After the call the handle resolves to the returned row; other handles are untouched.\<close>

lemma ensure_actor_lookup:
  assumes "db_ok db" "ensure_actor_by_handle now h d k c db = Inr (a, db')"
  shows "get_actor_by_handle h db' = Some a"
    and "h' \<noteq> h \<Longrightarrow> get_actor_by_handle h' db' = get_actor_by_handle h' db"
    and "a_handle a = h"
    and "a_caps a = (case get_actor_by_handle h db of None \<Rightarrow> c | Some b \<Rightarrow> a_caps b)"
    and "a_kind a = (case get_actor_by_handle h db of None \<Rightarrow> k | Some b \<Rightarrow> a_kind b)"
    and "a_id a = (case get_actor_by_handle h db of None \<Rightarrow> next_id db | Some b \<Rightarrow> a_id b)"
proof -
  have "get_actor_by_handle h db' = Some a
      \<and> (h' \<noteq> h \<longrightarrow> get_actor_by_handle h' db' = get_actor_by_handle h' db) \<and> a_handle a = h
      \<and> a_caps a = (case get_actor_by_handle h db of None \<Rightarrow> c | Some b \<Rightarrow> a_caps b)
      \<and> a_kind a = (case get_actor_by_handle h db of None \<Rightarrow> k | Some b \<Rightarrow> a_kind b)
      \<and> a_id a = (case get_actor_by_handle h db of None \<Rightarrow> next_id db | Some b \<Rightarrow> a_id b)" for h'
  proof (cases "get_actor_by_handle h db")
    case None
    obtain d' where "ensure_actor_by_handle now h d k c db =
       (let row = \<lparr>a_id = next_id db, a_handle = h, a_display = d', a_kind = k, a_caps = c,
                 a_status = ''online'', a_last_seen = None\<rparr>
        in Inr (row, db\<lparr>actors := actors db @ [row], next_id := Suc (next_id db)\<rparr>))"
      using ensure_actor_new [OF None] by blast
    with None assms(2) show ?thesis
      by (auto simp: Let_def get_actor_by_handle_def row_get_simps split: option.splits)
  next
    case (Some b)
    then show ?thesis
      using assms(2) find_handle_upd [OF assms(1) Some, of "\<lambda>r. r\<lparr>a_status := ''online'', a_last_seen := Some now\<rparr>"]
        get_actor_by_handle_SomeD [OF Some]
      by (auto simp: ensure_actor_existing)
  qed
  then show "get_actor_by_handle h db' = Some a"
    and "h' \<noteq> h \<Longrightarrow> get_actor_by_handle h' db' = get_actor_by_handle h' db"
    and "a_handle a = h"
    and "a_caps a = (case get_actor_by_handle h db of None \<Rightarrow> c | Some b \<Rightarrow> a_caps b)"
    and "a_kind a = (case get_actor_by_handle h db of None \<Rightarrow> k | Some b \<Rightarrow> a_kind b)"
    and "a_id a = (case get_actor_by_handle h db of None \<Rightarrow> next_id db | Some b \<Rightarrow> a_id b)"
    by blast+
qed

lemma ensure_actor_frame [frame_simps]:
  assumes "ensure_actor_by_handle now h d k c db = Inr (a, db')"
  shows "operations db' = operations db" "participants db' = participants db"
    "events db' = events db" "artifacts db' = artifacts db" "tokens db' = tokens db"
  using assms
  by (auto simp: ensure_actor_by_handle_def insert_actor_def update_actor_presence_def Let_def
        split: option.splits if_splits)

lemma ensure_actor_get:
  assumes "db_ok db" "ensure_actor_by_handle now h d k c db = Inr (a, db')"
  shows "get_actor (a_id a) db' = Some a"
proof -
  have "db_ok db'" using assms by (rule ensure_actor_ok)
  moreover have "a \<in> set (actors db')"
    using ensure_actor_lookup(1) [OF assms] get_actor_by_handle_SomeD by blast
  ultimately show ?thesis by (auto simp: inv_defs intro: fresh_keys_get)
qed

lemma ensure_actor_ids:
  assumes "ensure_actor_by_handle now h d k c db = Inr (a, db')"
  shows "a_id ` set (actors db) \<subseteq> a_id ` set (actors db')"
proof (cases "get_actor_by_handle h db")
  case None
  with ensure_actor_new [OF None, of now d k c] assms show ?thesis by (auto simp: Let_def)
next
  case (Some b)
  have "map a_id (row_upd a_id (a_id b) (\<lambda>r. r\<lparr>a_status := ''online'', a_last_seen := Some now\<rparr>) (actors db))
        = map a_id (actors db)"
    by (intro row_upd_keys) simp
  from arg_cong [OF this, of set] have
    "a_id ` set (row_upd a_id (a_id b) (\<lambda>r. r\<lparr>a_status := ''online'', a_last_seen := Some now\<rparr>) (actors db))
        = a_id ` set (actors db)"
    by simp
  with ensure_actor_existing [OF Some] assms show ?thesis by (auto simp del: set_map)
qed

lemma set_caps_ok [db_ok_intros]: "db_ok db \<Longrightarrow> db_ok (set_caps k caps db)"
  by (simp add: set_caps_def upd_actor_ok)

lemma set_caps_lookup:
  assumes "db_ok db" "get_actor_by_handle h db = Some a"
  shows "get_actor_by_handle h' (set_caps (a_id a) caps db) =
           (if h' = h then Some (a\<lparr>a_caps := caps\<rparr>) else get_actor_by_handle h' db)"
  using find_handle_upd [OF assms, of "a_caps_update (\<lambda>_. caps)"] by (simp add: set_caps_def)

section \<open>Properties\<close>

definition default_capabilities :: "actor \<Rightarrow> string list" where
  "default_capabilities a =
     (if a_kind a = ''human'' then DEFAULT_CAPABILITIES_HUMAN else DEFAULT_CAPABILITIES_AI)"

lemma effective_eq: "effective_capabilities a = (if a_caps a = [] then default_capabilities a else a_caps a)"
  by (simp add: effective_capabilities_def default_capabilities_def)

lemma actor_can_frame:
  "get_actor_by_handle (at_handle h) db' = get_actor_by_handle (at_handle h) db \<Longrightarrow>
     actor_can h c db' = actor_can h c db"
  by (simp add: actor_can_def)

text \<open>Provisioning an actor never fails and is stable: the handle resolves to the returned row,
  a second call returns the same actor, an existing actor keeps its kind and its capabilities, and
  every other handle resolves as before.\<close>

theorem ensure_actor_stable:
  assumes "db_ok db"
  shows "\<exists>a db'. ensure_actor_by_handle now h d k caps db = Inr (a, db') \<and> db_ok db'
     \<and> get_actor_by_handle h db' = Some a
     \<and> (\<forall>now' d' k' c'. \<exists>b db''. ensure_actor_by_handle now' h d' k' c' db' = Inr (b, db'')
          \<and> a_id b = a_id a \<and> a_kind b = a_kind a \<and> a_caps b = a_caps a)
     \<and> (\<forall>b. get_actor_by_handle h db = Some b \<longrightarrow>
          a_id a = a_id b \<and> a_kind a = a_kind b \<and> a_caps a = a_caps b)
     \<and> (\<forall>h'. h' \<noteq> h \<longrightarrow> get_actor_by_handle h' db' = get_actor_by_handle h' db)"
proof -
  obtain a db' where 1: "ensure_actor_by_handle now h d k caps db = Inr (a, db')"
    using ensure_actor_total by blast
  note look = ensure_actor_lookup [OF assms 1]
  have again: "\<forall>now' d' k' c'. \<exists>b db''. ensure_actor_by_handle now' h d' k' c' db' = Inr (b, db'')
          \<and> a_id b = a_id a \<and> a_kind b = a_kind a \<and> a_caps b = a_caps a"
    using ensure_actor_existing [OF look(1)] by simp
  have old: "\<forall>b. get_actor_by_handle h db = Some b \<longrightarrow>
          a_id a = a_id b \<and> a_kind a = a_kind b \<and> a_caps a = a_caps b"
    using look(4,5,6) by simp
  have others: "\<forall>h'. h' \<noteq> h \<longrightarrow> get_actor_by_handle h' db' = get_actor_by_handle h' db"
    using look(2) by simp
  have "db_ok db'" using assms 1 by (rule ensure_actor_ok)
  then show ?thesis
    using 1 look(1) again old others by (intro exI [of _ a] exI [of _ db'] conjI) assumption+
qed

theorem ensure_actor_stable_witness:
  "\<exists>a db'. ensure_actor_by_handle 9 ''@ann'' None ''human'' [] sample_db = Inr (a, db') \<and> db_ok db'
     \<and> get_actor_by_handle ''@ann'' db' = Some a"
  using ensure_actor_stable [OF sample_db_ok, of 9 "''@ann''" None "''human''" "[]"]
  by (elim exE conjE) (intro exI conjI; assumption)

text \<open>After a grant the actor can do everything granted, and no other actor's rights
  changed.\<close>

theorem grant_effect:
  assumes "db_ok db" "grant now h caps db = Inr (all_caps, db')"
  shows "db_ok db' \<and> (\<forall>c \<in> set caps. actor_can h c db')
     \<and> (\<forall>h' c. at_handle h' \<noteq> at_handle h \<longrightarrow> actor_can h' c db' = actor_can h' c db)"
proof -
  obtain a db1 where 1: "ensure_actor_by_handle now (at_handle h) None ''ai'' [] db = Inr (a, db1)"
    and 2: "(let added = filter (\<lambda>c. c \<notin> set (a_caps a)) caps
             in if added = [] then Inr (a_caps a, db1)
                else Inr (a_caps a @ added, set_caps (a_id a) (a_caps a @ added) db1)) = (Inr (all_caps, db') :: db_error + string list \<times> v2db)"
    using assms(2) by (auto simp: grant_def bindE_Inr_iff Let_def)
  have ok: "db_ok db1" using assms(1) 1 by (rule ensure_actor_ok)
  note look = ensure_actor_lookup [OF assms(1) 1]
  let ?added = "filter (\<lambda>c. c \<notin> set (a_caps a)) caps"
  show ?thesis
  proof (cases "?added = []")
    case True
    with 2 have db': "db' = db1" by simp
    have "set caps \<subseteq> set (a_caps a)" using True by (auto simp: filter_empty_conv)
    then have "\<forall>c \<in> set caps. actor_can h c db'"
      using look(1) by (auto simp: db' actor_can_def effective_eq)
    moreover have "actor_can h' c db' = actor_can h' c db" if "at_handle h' \<noteq> at_handle h" for h' c
      using that look(2) by (intro actor_can_frame) (simp add: db')
    ultimately show ?thesis using ok by (simp add: db')
  next
    case False
    then have db': "db' = set_caps (a_id a) (a_caps a @ ?added) db1"
      and ne: "a_caps a @ ?added \<noteq> []"
      using 2 by (auto simp: Let_def)
    have "get_actor_by_handle (at_handle h) db' = Some (a\<lparr>a_caps := a_caps a @ ?added\<rparr>)"
      using set_caps_lookup [OF ok look(1)] by (simp add: db')
    then have "\<forall>c \<in> set caps. actor_can h c db'"
      using ne by (auto simp: actor_can_def effective_eq)
    moreover have "actor_can h' c db' = actor_can h' c db" if "at_handle h' \<noteq> at_handle h" for h' c
      using that look(2) set_caps_lookup [OF ok look(1), of "at_handle h'"]
      by (intro actor_can_frame) (simp add: db')
    ultimately show ?thesis using ok by (simp add: db' set_caps_ok)
  qed
qed

theorem grant_effect_witness:
  "\<exists>all_caps db'. grant 9 ''ann'' [CAP_TASK_APPROVE_DESTRUCTIVE] sample_db = Inr (all_caps, db')
     \<and> actor_can ''ann'' CAP_TASK_APPROVE_DESTRUCTIVE db'"
proof -
  have "\<not> isl (grant 9 ''ann'' [CAP_TASK_APPROVE_DESTRUCTIVE] sample_db)" by code_simp
  then obtain all_caps db' where
    "grant 9 ''ann'' [CAP_TASK_APPROVE_DESTRUCTIVE] sample_db = Inr (all_caps, db')"
    by (cases "grant 9 ''ann'' [CAP_TASK_APPROVE_DESTRUCTIVE] sample_db") auto
  with grant_effect [OF sample_db_ok this] show ?thesis by auto
qed

lemma revoke_parts:
  assumes "db_ok db" "get_actor_by_handle (at_handle h) db = Some a"
  shows "actor_can h c (snd (revoke h caps db)) \<longleftrightarrow>
      (let kept = filter (\<lambda>x. x \<notin> set caps) (a_caps a)
       in c \<in> set (if kept = [] then default_capabilities a else kept))"
    and "at_handle h' \<noteq> at_handle h \<longrightarrow> actor_can h' c (snd (revoke h caps db)) = actor_can h' c db"
proof -
  let ?kept = "filter (\<lambda>x. x \<notin> set caps) (a_caps a)"
  have same: "\<forall>x \<in> set (a_caps a). x \<notin> set caps" if "length ?kept = length (a_caps a)"
    using that length_filter_less [of _ "a_caps a" "\<lambda>x. x \<notin> set caps"] by fastforce
  then have same': "?kept = a_caps a" if "length ?kept = length (a_caps a)"
    using that by (simp add: filter_id_conv)
  have rev: "snd (revoke h caps db) =
      (if length ?kept = length (a_caps a) then db else set_caps (a_id a) ?kept db)"
    using assms(2) by (simp add: revoke_def Let_def)
  show "actor_can h c (snd (revoke h caps db)) \<longleftrightarrow>
      (let kept = ?kept in c \<in> set (if kept = [] then default_capabilities a else kept))"
  proof (cases "length ?kept = length (a_caps a)")
    case True
    with assms(2) same' show ?thesis by (simp add: rev actor_can_def effective_eq Let_def)
  next
    case False
    with assms(2) show ?thesis
      by (simp add: rev actor_can_def effective_eq Let_def set_caps_lookup [OF assms]
            default_capabilities_def)
  qed
  show "at_handle h' \<noteq> at_handle h \<longrightarrow> actor_can h' c (snd (revoke h caps db)) = actor_can h' c db"
    using set_caps_lookup [OF assms, of "at_handle h'"] by (auto simp: rev intro!: actor_can_frame)
qed

text \<open>What a revoke leaves an actor able to do: the explicit capabilities that were not revoked,
  if any is left. When none is left, the defaults of the actor's kind apply again, so revoking
  every explicit capability (or a default one from an actor with no explicit list) does not take
  the default rights away. No other actor's rights change.\<close>

theorem revoke_effect:
  assumes "db_ok db" "get_actor_by_handle (at_handle h) db = Some a"
  shows "(actor_can h c (snd (revoke h caps db)) \<longleftrightarrow>
      (let kept = filter (\<lambda>x. x \<notin> set caps) (a_caps a)
       in c \<in> set (if kept = [] then default_capabilities a else kept)))
    \<and> (\<forall>h' c'. at_handle h' \<noteq> at_handle h \<longrightarrow>
         actor_can h' c' (snd (revoke h caps db)) = actor_can h' c' db)"
  using revoke_parts [OF assms] by blast

theorem revoke_effect_witness:
  "actor_can ''ann'' CAP_SPEECH_SUBMIT (snd (revoke ''ann'' [CAP_SPEECH_SUBMIT] sample_db))"
proof -
  have "\<exists>a. get_actor_by_handle (at_handle ''ann'') sample_db = Some a \<and> a_caps a = [] \<and> a_kind a = ''ai''"
  proof -
    have "map_option (\<lambda>a. (a_caps a, a_kind a)) (get_actor_by_handle (at_handle ''ann'') sample_db)
        = Some ([], ''ai'')"
      by code_simp
    then show ?thesis by auto
  qed
  then obtain a where a: "get_actor_by_handle (at_handle ''ann'') sample_db = Some a"
    and "a_caps a = []" "a_kind a = ''ai''" by blast
  then show ?thesis
    using revoke_effect [OF sample_db_ok a, of CAP_SPEECH_SUBMIT "[CAP_SPEECH_SUBMIT]"]
    by (simp add: default_capabilities_def DEFAULT_CAPABILITIES_AI_def)
qed

text \<open>Approving destructive evidence is never a default right: an actor can do it exactly when
  its own row lists the capability.\<close>

theorem destructive_needs_grant:
  "actor_can h CAP_TASK_APPROVE_DESTRUCTIVE db \<longleftrightarrow>
     (\<exists>a. get_actor_by_handle (at_handle h) db = Some a \<and> CAP_TASK_APPROVE_DESTRUCTIVE \<in> set (a_caps a))"
  by (auto simp: actor_can_def effective_eq default_capabilities_def DEFAULT_CAPABILITIES_AI_def
        DEFAULT_CAPABILITIES_HUMAN_def split: option.splits if_splits)

end
