(* ===== verification/PolicyEngine.thy ===== *)
theory PolicyEngine
  imports Actors
begin

text \<open>
  \<open>kernel/v2/policy_engine.py\<close>: the gates on speech, membership and close that an operation's
  stored policy demands. A gate returns \<open>Inr ()\<close> or the violation's stable code.
\<close>

abbreviation CODE_MAX_ROUNDS_EXHAUSTED :: string
  where "CODE_MAX_ROUNDS_EXHAUSTED \<equiv> ''policy.max_rounds_exhausted''"
abbreviation CODE_REPLY_KIND_REJECTED :: string
  where "CODE_REPLY_KIND_REJECTED \<equiv> ''policy.reply_kind_rejected''"
abbreviation CODE_CLOSE_NEEDS_OPERATOR :: string
  where "CODE_CLOSE_NEEDS_OPERATOR \<equiv> ''policy.close_needs_operator_ratify''"
abbreviation CODE_CLOSE_NEEDS_QUORUM :: string
  where "CODE_CLOSE_NEEDS_QUORUM \<equiv> ''policy.close_needs_quorum''"
abbreviation CODE_CLOSE_NEEDS_PARTICIPANT :: string
  where "CODE_CLOSE_NEEDS_PARTICIPANT \<equiv> ''policy.close_needs_participant''"
abbreviation CODE_JOIN_INVITE_ONLY :: string
  where "CODE_JOIN_INVITE_ONLY \<equiv> ''policy.join_invite_only''"
abbreviation CODE_INVITE_NEEDS_PARTICIPANT :: string
  where "CODE_INVITE_NEEDS_PARTICIPANT \<equiv> ''policy.invite_needs_participant''"
abbreviation CODE_CLOSE_NEEDS_ARTIFACT :: string
  where "CODE_CLOSE_NEEDS_ARTIFACT \<equiv> ''policy.close_needs_artifact''"

text \<open>\<open>BadPolicy\<close>: the stored policy itself does not validate, so reading it raises.\<close>

datatype policy_error = PolicyViolation string | BadPolicy contract_error

definition read_policy :: "operation \<Rightarrow> policy_error + op_policy" where
  "read_policy op = (case operation_policy op of Inl e \<Rightarrow> Inl (BadPolicy e) | Inr p \<Rightarrow> Inr p)"

section \<open>Speech gate\<close>

definition UNIVERSAL_KINDS :: "string list" where
  "UNIVERSAL_KINDS = [''defer'', ''evidence'', ''object'']"

definition check_max_rounds :: "operation \<Rightarrow> op_policy \<Rightarrow> v2db \<Rightarrow> policy_error + unit" where
  "check_max_rounds op policy db =
     (case max_rounds policy of
        None \<Rightarrow> Inr ()
      | Some m \<Rightarrow>
          (if m \<noteq> 0 \<and> m \<le> count_speech_events (o_id op) db
           then Inl (PolicyViolation CODE_MAX_ROUNDS_EXHAUSTED) else Inr ()))"

definition check_reply_kind :: "string \<Rightarrow> id option \<Rightarrow> v2db \<Rightarrow> policy_error + unit" where
  "check_reply_kind speech_kind replies_to db =
     (if speech_kind \<in> set UNIVERSAL_KINDS then Inr ()
      else case replies_to of
        None \<Rightarrow> Inr ()
      | Some ev \<Rightarrow>
          (case get_event ev db of
             None \<Rightarrow> Inr ()
           | Some trigger \<Rightarrow>
               (case event_expected_response trigger of
                  None \<Rightarrow> Inr ()
                | Some ex \<Rightarrow>
                    let kinds = obj_get ex ''kinds'' in
                    if truthy kinds
                       \<and> EXPECTED_RESPONSE_KIND_WILDCARD \<notin> set (json_strs kinds)
                       \<and> speech_kind \<notin> set (json_strs kinds)
                    then Inl (PolicyViolation CODE_REPLY_KIND_REJECTED)
                    else Inr ())))"

definition check_speech_admissible ::
  "operation \<Rightarrow> string \<Rightarrow> id option \<Rightarrow> v2db \<Rightarrow> policy_error + unit" where
  "check_speech_admissible op speech_kind replies_to db =
     bindE (read_policy op) (\<lambda>policy.
     bindE (check_max_rounds op policy db) (\<lambda>_.
     check_reply_kind speech_kind replies_to db))"

section \<open>Membership gates\<close>

definition check_join_admissible :: "operation \<Rightarrow> bool \<Rightarrow> policy_error + unit" where
  "check_join_admissible op is_invited =
     bindE (read_policy op) (\<lambda>policy.
     if join_policy policy \<in> {JOIN_POLICY_OPEN, JOIN_POLICY_SELF_OR_INVITE} then Inr ()
     else if join_policy policy = JOIN_POLICY_INVITE_ONLY
       then (if is_invited then Inr () else Inl (PolicyViolation CODE_JOIN_INVITE_ONLY))
     else Inr ())"

definition is_participant :: "id \<Rightarrow> id \<Rightarrow> v2db \<Rightarrow> bool" where
  "is_participant op actor db \<longleftrightarrow> list_ex (\<lambda>p. p_actor p = actor) (list_participants op db)"

definition check_invite_admissible :: "operation \<Rightarrow> id \<Rightarrow> v2db \<Rightarrow> policy_error + unit" where
  "check_invite_admissible op inviter db =
     (if is_participant (o_id op) inviter db then Inr ()
      else Inl (PolicyViolation CODE_INVITE_NEEDS_PARTICIPANT))"

section \<open>Close gate\<close>

text \<open>
  A ratify event votes for closing when it says so, replies to a \<open>move_close\<close>, replies to an event
  with an artifact, or follows an artifact of the operation.
\<close>

definition explicit_close_intent :: "event \<Rightarrow> bool" where
  "explicit_close_intent ev =
     (case obj_get (e_payload ev) ''intent'' of JStr s \<Rightarrow> lower s = ''close'' | _ \<Rightarrow> False)"

definition trigger_close_intent :: "event \<Rightarrow> v2db \<Rightarrow> bool" where
  "trigger_close_intent ev db =
     (case e_replies_to ev of
        None \<Rightarrow> False
      | Some t \<Rightarrow>
          (case get_event t db of
             None \<Rightarrow> False
           | Some trigger \<Rightarrow>
               speech_action (e_kind trigger) = Some ''move_close''
               \<or> list_artifacts_for_event (e_id trigger) db \<noteq> []))"

definition artifact_before :: "event \<Rightarrow> v2db \<Rightarrow> bool" where
  "artifact_before ev db =
     list_ex (\<lambda>a. case get_event (r_event a) db of None \<Rightarrow> False | Some src \<Rightarrow> e_seq src \<le> e_seq ev)
       (list_artifacts_for_operation (e_op ev) None db)"

definition is_close_intent_ratify :: "event \<Rightarrow> v2db \<Rightarrow> bool" where
  "is_close_intent_ratify ev db \<longleftrightarrow>
     explicit_close_intent ev \<or> trigger_close_intent ev db \<or> artifact_before ev db"

text \<open>The dict \<open>latest\<close>: the scanned events in order, a later vote replacing an earlier one.\<close>

definition ratify_events_by_actor :: "operation \<Rightarrow> v2db \<Rightarrow> (id \<times> event) list" where
  "ratify_events_by_actor op db =
     fold (\<lambda>ev latest.
             if speech_action (e_kind ev) = Some ''ratify'' \<and> is_close_intent_ratify ev db
             then AList.update (e_actor ev) ev latest else latest)
       (list_events (o_id op) None [] 1000 db) []"

definition require_role_ratify :: "operation \<Rightarrow> string \<Rightarrow> v2db \<Rightarrow> policy_error + unit" where
  "require_role_ratify op role db =
     (let role_actor_ids = map p_actor (filter (\<lambda>p. p_role p = role) (list_participants (o_id op) db))
      in if role_actor_ids = [] then Inl (PolicyViolation CODE_CLOSE_NEEDS_OPERATOR)
         else if set role_actor_ids \<inter> fst ` set (ratify_events_by_actor op db) = {}
         then Inl (PolicyViolation CODE_CLOSE_NEEDS_OPERATOR)
         else Inr ())"

definition require_quorum_ratify :: "operation \<Rightarrow> int \<Rightarrow> v2db \<Rightarrow> policy_error + unit" where
  "require_quorum_ratify op min_r db =
     (if min_r \<le> 0 then Inr ()
      else if int (length (ratify_events_by_actor op db)) < min_r
      then Inl (PolicyViolation CODE_CLOSE_NEEDS_QUORUM)
      else Inr ())"

definition NON_SUCCESS_RESOLUTIONS :: "string list" where
  "NON_SUCCESS_RESOLUTIONS =
     [''abandoned'', ''cancelled'', ''failed'', ''withdrawn'', ''superseded'', ''dropped'']"

definition is_terminal_success :: "string option \<Rightarrow> bool" where
  "is_terminal_success resolution =
     (case resolution of None \<Rightarrow> True | Some r \<Rightarrow> r \<notin> set NON_SUCCESS_RESOLUTIONS)"

definition check_close_policy ::
  "operation \<Rightarrow> op_policy \<Rightarrow> id option \<Rightarrow> v2db \<Rightarrow> policy_error + unit" where
  "check_close_policy op policy closer db =
     (let cp = close_policy policy in
      if cp = CLOSE_POLICY_OPENER_UNILATERAL then Inr ()
      else if cp = CLOSE_POLICY_ANY_PARTICIPANT then
        (case closer of
           None \<Rightarrow> Inr ()
         | Some c \<Rightarrow> (if is_participant (o_id op) c db then Inr ()
                      else Inl (PolicyViolation CODE_CLOSE_NEEDS_PARTICIPANT)))
      else if cp = CLOSE_POLICY_OPERATOR_RATIFIES then require_role_ratify op ''operator'' db
      else if cp = CLOSE_POLICY_QUORUM then
        require_quorum_ratify op (case min_ratifiers policy of None \<Rightarrow> 0 | Some n \<Rightarrow> n) db
      else Inl (PolicyViolation CODE_CLOSE_NEEDS_PARTICIPANT))"

definition check_close_admissible ::
  "operation \<Rightarrow> id option \<Rightarrow> string option \<Rightarrow> v2db \<Rightarrow> policy_error + unit" where
  "check_close_admissible op closer resolution db =
     bindE (read_policy op) (\<lambda>policy.
     if requires_artifact policy \<and> is_terminal_success resolution
        \<and> list_artifacts_for_operation (o_id op) None db = []
     then Inl (PolicyViolation CODE_CLOSE_NEEDS_ARTIFACT)
     else check_close_policy op policy closer db)"

section \<open>What the ratification table holds\<close>

definition counted_ratify :: "v2db \<Rightarrow> event \<Rightarrow> bool" where
  "counted_ratify db ev \<longleftrightarrow>
     speech_action (e_kind ev) = Some ''ratify'' \<and> is_close_intent_ratify ev db"

lemma fold_latest:
  "fold (\<lambda>ev latest. if P ev then AList.update (k ev) ev latest else latest) evs m =
   fold (\<lambda>ev latest. AList.update (k ev) ev latest) (filter P evs) m"
  by (induction evs arbitrary: m) auto

lemma fold_update_keys:
  "fst ` set (fold (\<lambda>ev latest. AList.update (k ev) ev latest) evs m) = fst ` set m \<union> k ` set evs"
  by (induction evs arbitrary: m) (auto simp: dom_update)

lemma fold_update_distinct:
  "distinct (map fst m) \<Longrightarrow> distinct (map fst (fold (\<lambda>ev latest. AList.update (k ev) ev latest) evs m))"
  by (induction evs arbitrary: m) (auto simp: distinct_update)

lemma ratify_keys:
  "fst ` set (ratify_events_by_actor op db) =
     e_actor ` {ev \<in> set (list_events (o_id op) None [] 1000 db). counted_ratify db ev}"
  unfolding ratify_events_by_actor_def fold_latest fold_update_keys
  by (auto simp: counted_ratify_def)

lemma ratify_distinct: "distinct (map fst (ratify_events_by_actor op db))"
  unfolding ratify_events_by_actor_def fold_latest
  by (rule fold_update_distinct) simp

lemma ratify_count:
  "length (ratify_events_by_actor op db) =
     card (e_actor ` {ev \<in> set (list_events (o_id op) None [] 1000 db). counted_ratify db ev})"
proof -
  have "length (ratify_events_by_actor op db) = card (set (map fst (ratify_events_by_actor op db)))"
    using distinct_card [OF ratify_distinct] by simp
  then show ?thesis by (simp add: ratify_keys)
qed

text \<open>The distinct actors whose close-intent ratification is among the scanned events.\<close>

definition ratifiers :: "operation \<Rightarrow> v2db \<Rightarrow> id set" where
  "ratifiers op db =
     e_actor ` {ev \<in> set (take 1000 (op_events (o_id op) db)). counted_ratify db ev}"

lemma scanned_events:
  "db_ok db \<Longrightarrow> list_events op None [] 1000 db = take 1000 (op_events op db)"
  by (simp add: list_events_all clamp_limit_def)

lemma ratifiers_eq:
  assumes "db_ok db"
  shows "fst ` set (ratify_events_by_actor op db) = ratifiers op db"
    and "length (ratify_events_by_actor op db) = card (ratifiers op db)"
  by (simp_all add: ratify_keys ratify_count ratifiers_def scanned_events [OF assms])

lemma quorum_iff:
  assumes "db_ok db"
  shows "require_quorum_ratify op m db = Inr () \<longleftrightarrow> m \<le> int (card (ratifiers op db))"
  by (auto simp: require_quorum_ratify_def ratifiers_eq [OF assms])

lemma role_ratify_iff:
  assumes "db_ok db"
  shows "require_role_ratify op role db = Inr () \<longleftrightarrow>
     (\<exists>p \<in> set (participants db).
        p_op p = o_id op \<and> p_role p = role \<and> p_actor p \<in> ratifiers op db)"
  by (auto simp: require_role_ratify_def Let_def ratifiers_eq [OF assms] list_participants_def
        filter_empty_conv)

lemma is_participant_iff:
  "is_participant op a db \<longleftrightarrow> (\<exists>p \<in> set (participants db). p_op p = op \<and> p_actor p = a)"
  by (auto simp: is_participant_def list_participants_def list_ex_iff)

lemma read_policy_ok: "read_policy op = Inr p \<Longrightarrow> policy_ok p"
  by (auto simp: read_policy_def operation_policy_def split: sum.splits dest: validated_policy_ok)

section \<open>The round cap as a gate on an event log\<close>

text \<open>
  A log with an admission gate in front of its appends: the gate refuses once the number of
  counted entries reaches the cap, so a gated run never exceeds it.
\<close>

locale capped_log = event_log entries seq_of key_of invar append
  for entries :: "'k \<Rightarrow> 's \<Rightarrow> 'e list"
    and seq_of :: "'e \<Rightarrow> int"
    and key_of :: "'n \<Rightarrow> 'k"
    and invar :: "'s \<Rightarrow> bool"
    and append :: "'n \<Rightarrow> 's \<Rightarrow> 'err + 'e \<times> 's" +
  fixes counted :: "'e \<Rightarrow> bool"
    and cap :: "'k \<Rightarrow> nat option"
    and admit :: "'k \<Rightarrow> 'n \<Rightarrow> 's \<Rightarrow> bool"
  assumes admit_below:
    "admit k n s \<Longrightarrow> cap k = Some c \<Longrightarrow> length (filter counted (entries k s)) < c"
begin

definition gated_append :: "'n \<Rightarrow> 's \<Rightarrow> 's" where
  "gated_append n s =
     (if admit (key_of n) n s
      then (case append n s of Inl _ \<Rightarrow> s | Inr (e, s') \<Rightarrow> s') else s)"

definition within_cap :: "'k \<Rightarrow> 's \<Rightarrow> bool" where
  "within_cap k s \<longleftrightarrow>
     (case cap k of None \<Rightarrow> True | Some c \<Rightarrow> length (filter counted (entries k s)) \<le> c)"

lemma gated_append_inv:
  assumes "invar s" "within_cap k s"
  shows "invar (gated_append n s) \<and> within_cap k (gated_append n s)"
proof (cases "admit (key_of n) n s \<and> (\<exists>e s'. append n s = Inr (e, s'))")
  case True
  then obtain e s' where app: "append n s = Inr (e, s')" and adm: "admit (key_of n) n s" by blast
  have "within_cap k s'"
    using assms(2) admit_below [OF adm] entries_append [OF assms(1) app, of k]
    by (auto simp: within_cap_def Suc_le_eq split: option.splits)
  with app adm show ?thesis by (simp add: gated_append_def append_invar [OF assms(1) app])
next
  case False
  with assms show ?thesis by (auto simp: gated_append_def split: sum.splits)
qed

lemma gated_run:
  "invar s \<Longrightarrow> within_cap k s \<Longrightarrow>
     invar (fold gated_append ns s) \<and> within_cap k (fold gated_append ns s)"
  by (induction ns arbitrary: s) (auto simp: gated_append_inv)

end

definition round_cap :: "operation \<Rightarrow> nat option" where
  "round_cap op =
     (case operation_policy op of Inl _ \<Rightarrow> None | Inr p \<Rightarrow> map_option nat (max_rounds p))"

lemma speech_gate_below:
  assumes "check_speech_admissible op kind rep db = Inr ()" "round_cap op = Some c"
  shows "length (filter (\<lambda>e. like_speech (e_kind e)) (op_events (o_id op) db)) < c"
  using assms read_policy_ok [of op]
  by (fastforce simp: check_speech_admissible_def check_max_rounds_def round_cap_def read_policy_def
        policy_ok_def count_speech_events_def bindE_Inr_iff split: sum.splits option.splits if_splits)

text \<open>The speech action of the event to append is the last token of its kind.\<close>

definition speech_admitted :: "operation \<Rightarrow> id \<Rightarrow> new_event \<Rightarrow> v2db \<Rightarrow> bool" where
  "speech_admitted op k n db \<longleftrightarrow>
     k = o_id op \<longrightarrow>
       check_speech_admissible op (last (split_on CHR ''.'' (n_kind n))) (n_replies_to n) db = Inr ()"

interpretation v2cap: capped_log op_events e_seq n_op db_ok "insert_event_serial now"
  "\<lambda>e. like_speech (e_kind e)" "\<lambda>k. if k = o_id op then round_cap op else None"
  "speech_admitted op"
  for now op
  by unfold_locales (auto simp: speech_admitted_def speech_gate_below split: if_splits)

section \<open>Properties\<close>

text \<open>What a reply must be when the event it replies to restricts its kind.\<close>

definition reply_fits :: "string \<Rightarrow> id option \<Rightarrow> v2db \<Rightarrow> bool" where
  "reply_fits kind replies_to db \<longleftrightarrow>
     kind \<in> {''defer'', ''evidence'', ''object''}
     \<or> (\<forall>e trigger ex. replies_to = Some e \<longrightarrow> get_event e db = Some trigger \<longrightarrow>
          event_expected_response trigger = Some ex \<longrightarrow> truthy (obj_get ex ''kinds'') \<longrightarrow>
          {''*'', kind} \<inter> set (json_strs (obj_get ex ''kinds'')) \<noteq> {})"

lemma reply_kind_iff: "check_reply_kind kind rep db = Inr u \<longleftrightarrow> reply_fits kind rep db"
  by (auto simp: check_reply_kind_def reply_fits_def UNIVERSAL_KINDS_def Let_def split: option.splits)

lemma max_rounds_iff:
  "check_max_rounds op p db = Inr u \<longleftrightarrow>
     (\<forall>m. max_rounds p = Some m \<longrightarrow> m \<noteq> 0 \<longrightarrow> count_speech_events (o_id op) db < m)"
  by (auto simp: check_max_rounds_def split: option.splits)

text \<open>Speech is admitted exactly when the stored policy reads back, the operation has had fewer
  speech events than its round cap, and the kind fits what the event replied to expects:
  \<open>defer\<close>, \<open>evidence\<close> and \<open>object\<close> always fit, and so does any reply to an event that
  lists no kinds or the wildcard.\<close>

theorem speech_gate_exact:
  "check_speech_admissible op kind rep db = Inr () \<longleftrightarrow>
     (\<exists>p. operation_policy op = Inr p
        \<and> (\<forall>m. max_rounds p = Some m \<longrightarrow> count_speech_events (o_id op) db < m)
        \<and> reply_fits kind rep db)"
proof -
  have pos: "m \<noteq> 0" if "operation_policy op = Inr p" "max_rounds p = Some m" for p m
    using that validated_policy_ok by (force simp: operation_policy_def policy_ok_def)
  show ?thesis
  proof (cases "operation_policy op")
    case (Inr p)
    then have "check_speech_admissible op kind rep db = Inr () \<longleftrightarrow>
        (\<forall>m. max_rounds p = Some m \<longrightarrow> m \<noteq> 0 \<longrightarrow> count_speech_events (o_id op) db < m)
        \<and> reply_fits kind rep db"
      by (simp add: check_speech_admissible_def read_policy_def bindE_Inr_iff max_rounds_iff reply_kind_iff)
    with pos [OF Inr] Inr show ?thesis by auto
  qed (simp add: check_speech_admissible_def read_policy_def)
qed

theorem speech_gate_exact_witness:
  "check_speech_admissible (hd (operations sample_db)) ''claim'' None sample_db = Inr ()"
proof -
  have "operation_policy (hd (operations sample_db)) = Inr DEFAULT_OPERATION_POLICY" by code_simp
  then show ?thesis
    by (subst speech_gate_exact) (simp add: DEFAULT_OPERATION_POLICY_def reply_fits_def)
qed

text \<open>A run of the gated append over a list of requested events: what the speech path does.\<close>

definition gated_insert :: "instant \<Rightarrow> operation \<Rightarrow> new_event \<Rightarrow> v2db \<Rightarrow> v2db" where
  "gated_insert now op n db =
     (if speech_admitted op (n_op n) n db
      then (case insert_event_serial now n db of Inl _ \<Rightarrow> db | Inr (_, db') \<Rightarrow> db') else db)"

lemma gated_insert_eq: "gated_insert now op = v2cap.gated_append now op"
  by (simp add: fun_eq_iff gated_insert_def v2cap.gated_append_def)

text \<open>C10: The round cap bounds the whole run: whatever events are requested, in whatever order and
  with the operation's log starting within the cap, the gated appends never push the number of
  its speech events past \<open>max_rounds\<close>.\<close>

theorem round_cap_never_exceeded:
  assumes "db_ok db" "operation_policy op = Inr p" "max_rounds p = Some m"
    and "count_speech_events (o_id op) db \<le> m"
  shows "count_speech_events (o_id op) (fold (gated_insert now op) ns db) \<le> m"
proof -
  have pos: "0 < m" using validated_policy_ok assms(2,3) by (force simp: operation_policy_def policy_ok_def)
  have cap: "round_cap op = Some (nat m)" using assms(2,3) by (simp add: round_cap_def)
  have "v2cap.within_cap op (o_id op) db"
    using assms(4) pos by (simp add: v2cap.within_cap_def cap count_speech_events_def nat_le_iff le_nat_iff)
  then have "v2cap.within_cap op (o_id op) (fold (gated_insert now op) ns db)"
    unfolding gated_insert_eq using v2cap.gated_run [OF assms(1)] by blast
  then show ?thesis
    using pos by (simp add: v2cap.within_cap_def cap count_speech_events_def le_nat_iff)
qed

definition capped_op :: operation where
  "capped_op = (hd (operations sample_db))
     \<lparr>o_metadata := [(''policy'', JObj [(''max_rounds'', JInt 2)])]\<rparr>"

theorem round_cap_never_exceeded_witness:
  "count_speech_events 1 (fold (gated_insert 3 capped_op) (replicate 5 sample_event) sample_db) \<le> 2"
proof -
  have pol: "operation_policy capped_op = Inr (DEFAULT_OPERATION_POLICY\<lparr>max_rounds := Some 2\<rparr>)"
    by code_simp
  have "o_id capped_op = 1" and "count_speech_events 1 sample_db = 0" by code_simp+
  with round_cap_never_exceeded [OF sample_db_ok pol, of 2 3 "replicate 5 sample_event"]
  show ?thesis by simp
qed

text \<open>What each close policy asks of the participants and the ratifications.\<close>

definition close_policy_met :: "operation \<Rightarrow> op_policy \<Rightarrow> id option \<Rightarrow> v2db \<Rightarrow> bool" where
  "close_policy_met op p closer db \<longleftrightarrow>
     (if close_policy p = CLOSE_POLICY_ANY_PARTICIPANT
      then \<forall>c. closer = Some c \<longrightarrow> (\<exists>q \<in> set (participants db). p_op q = o_id op \<and> p_actor q = c)
      else if close_policy p = CLOSE_POLICY_OPERATOR_RATIFIES
      then \<exists>q \<in> set (participants db).
             p_op q = o_id op \<and> p_role q = ''operator'' \<and> p_actor q \<in> ratifiers op db
      else if close_policy p = CLOSE_POLICY_QUORUM
      then the (min_ratifiers p) \<le> int (card (ratifiers op db))
      else True)"

lemma close_policy_iff:
  assumes "db_ok db" "policy_ok p"
  shows "check_close_policy op p closer db = Inr () \<longleftrightarrow> close_policy_met op p closer db"
proof -
  have "close_policy p \<in> {CLOSE_POLICY_OPENER_UNILATERAL, CLOSE_POLICY_ANY_PARTICIPANT,
      CLOSE_POLICY_OPERATOR_RATIFIES, CLOSE_POLICY_QUORUM}"
    using assms(2) by (auto simp: policy_ok_def ALL_CLOSE_POLICIES_def)
  moreover have "close_policy p = CLOSE_POLICY_QUORUM \<Longrightarrow> min_ratifiers p \<noteq> None"
    using assms(2) by (simp add: policy_ok_def)
  ultimately show ?thesis
    by (auto simp: check_close_policy_def close_policy_met_def quorum_iff [OF assms(1)]
          role_ratify_iff [OF assms(1)] is_participant_iff split: option.splits)
qed

lemma no_artifacts_iff:
  "list_artifacts_for_operation k None db = [] \<longleftrightarrow> \<not> (\<exists>a \<in> set (artifacts db). r_op a = k)"
  by (auto simp: list_artifacts_for_operation_def filter_empty_conv)

text \<open>C9: A close is admitted exactly when the stored policy reads back, a successful resolution of
  a policy that requires an artifact finds one on the operation, and the close policy holds: the
  opener decides alone; or the closer takes part; or an actor with the role \<open>operator\<close> is
  among the ratifiers; or at least \<open>min_ratifiers\<close> distinct actors are. The ratifiers are the
  actors of close-intent \<open>ratify\<close> events among the operation's first thousand events.\<close>

theorem close_gate_exact:
  assumes "db_ok db"
  shows "check_close_admissible op closer res db = Inr () \<longleftrightarrow>
     (\<exists>p. operation_policy op = Inr p
        \<and> (requires_artifact p \<and> is_terminal_success res \<longrightarrow>
             (\<exists>a \<in> set (artifacts db). r_op a = o_id op))
        \<and> close_policy_met op p closer db)"
proof (cases "operation_policy op")
  case (Inr p)
  then have "policy_ok p" using validated_policy_ok by (simp add: operation_policy_def)
  with Inr show ?thesis
    by (simp add: check_close_admissible_def read_policy_def no_artifacts_iff
          close_policy_iff [OF assms])
qed (simp add: check_close_admissible_def read_policy_def)

theorem close_gate_exact_witness:
  "check_close_admissible (hd (operations sample_db)) (Some 0) (Some ''answered'') sample_db = Inr ()"
proof -
  have "operation_policy (hd (operations sample_db)) = Inr DEFAULT_OPERATION_POLICY" by code_simp
  then show ?thesis
    using close_gate_exact [OF sample_db_ok, of "hd (operations sample_db)"]
    by (simp add: DEFAULT_OPERATION_POLICY_def close_policy_met_def)
qed

end
