(* ===== verification/Mirror.thy ===== *)
theory Mirror
  imports PolicyEngine
begin

text \<open>
  \<open>kernel/v2/operation_mirror.py\<close>: the writes that keep a protocol v2 operation beside a chat
  conversation. Each entry point runs inside its caller's transaction, so an error discards the
  tables it built.
\<close>

datatype mirror_error = DbErr db_error | SmErr sm_error

definition normalize_handle :: "string option \<Rightarrow> string option" where
  "normalize_handle actor =
     (case actor of None \<Rightarrow> None | Some s \<Rightarrow> if s = [] then None else Some (at_handle s))"

text \<open>The text of a chat message: written by an actor, or \<open>json.dumps\<close> of a value.\<close>

datatype content = Text string | Dumped json

fun content_json :: "content \<Rightarrow> json" where
  "content_json (Text s) = JStr s"
| "content_json (Dumped v) = v"

section \<open>Participants\<close>

definition ensure_default :: "instant \<Rightarrow> string \<Rightarrow> v2db \<Rightarrow> db_error + actor \<times> v2db" where
  "ensure_default now h db = ensure_actor_by_handle now h None ''ai'' [] db"

fun ensure_all :: "instant \<Rightarrow> string list \<Rightarrow> v2db \<Rightarrow> db_error + id list \<times> v2db" where
  "ensure_all now [] db = Inr ([], db)"
| "ensure_all now (h # hs) db =
     bindE (ensure_default now h db) (\<lambda>(a, db1).
     bindE (ensure_all now hs db1) (\<lambda>(ids, db2). Inr (a_id a # ids, db2)))"

text \<open>The loop over the addressed actors, with the set \<open>existing_actor_ids\<close> it extends.\<close>

fun join_missing ::
  "instant \<Rightarrow> id \<Rightarrow> string \<Rightarrow> id list \<Rightarrow> id list \<Rightarrow> v2db \<Rightarrow> db_error + id list \<times> v2db" where
  "join_missing now op role [] known db = Inr (known, db)"
| "join_missing now op role (a # ids) known db =
     (if a \<in> set known then join_missing now op role ids known db
      else bindE (add_participant now op a role db) (\<lambda>db1.
           join_missing now op role ids (a # known) db1))"

definition join_as ::
  "instant \<Rightarrow> id \<Rightarrow> string \<Rightarrow> string \<Rightarrow> v2db \<Rightarrow> db_error + v2db" where
  "join_as now op h role db =
     bindE (ensure_default now h db) (\<lambda>(a, db1). add_participant now op (a_id a) role db1)"

section \<open>Opening\<close>

definition mirror_conversation_open ::
  "instant \<Rightarrow> id \<Rightarrow> string \<Rightarrow> string \<Rightarrow> string \<Rightarrow> string option \<Rightarrow> string \<Rightarrow> string option
     \<Rightarrow> string option \<Rightarrow> bool \<Rightarrow> v2db \<Rightarrow> db_error + id \<times> v2db" where
  "mirror_conversation_open now v1_id thread kind title intent opener_actor owner_actor
       addressed_to is_general db =
     (let opener_handle = (case normalize_handle (Some opener_actor) of
                             None \<Rightarrow> ''@system'' | Some h \<Rightarrow> h);
          owner_handle = normalize_handle owner_actor;
          addr_handle = normalize_handle addressed_to
      in bindE (ensure_actor_by_handle now opener_handle None
                  (if opener_handle = ''@system'' then ''human'' else ''ai'') [] db) (\<lambda>(opener, db1).
         bindE (insert_operation now (''chat:'' @ thread) kind title intent None
                  [(''v1_conversation_id'', JInt (int v1_id)), (''is_general'', JBool is_general)]
                  STATE_OPEN db1) (\<lambda>(op, db2).
         bindE (add_participant now (o_id op) (a_id opener) ''opener'' db2) (\<lambda>db3.
         bindE (case owner_handle of
                  Some h \<Rightarrow> (if h \<noteq> opener_handle then join_as now (o_id op) h ''owner'' db3 else Inr db3)
                | None \<Rightarrow> Inr db3) (\<lambda>db4.
         bindE (case addr_handle of
                  Some h \<Rightarrow> (if h \<noteq> opener_handle \<and> owner_handle \<noteq> Some h
                            then join_as now (o_id op) h ''addressed'' db4 else Inr db4)
                | None \<Rightarrow> Inr db4) (\<lambda>db5.
         Inr (o_id op, db5)))))))"

section \<open>Messages\<close>

text \<open>\<open>addressed_handles\<close>: the primary, then each extra not yet in the list.\<close>

definition addressed_handles :: "string option \<Rightarrow> string list \<Rightarrow> string list" where
  "addressed_handles addressed_to extras =
     fold (\<lambda>extra hs. case normalize_handle (Some extra) of
             None \<Rightarrow> hs | Some h \<Rightarrow> if h \<in> set hs then hs else hs @ [h])
       extras (case normalize_handle addressed_to of None \<Rightarrow> [] | Some h \<Rightarrow> [h])"

definition lifecycle_part :: "string \<Rightarrow> content \<Rightarrow> obj" where
  "lifecycle_part event_kind body =
     (if is_speech_kind event_kind then []
      else case body of Dumped (JObj kvs) \<Rightarrow> [(''lifecycle'', JObj kvs)] | _ \<Rightarrow> [])"

definition meta_part :: "obj option \<Rightarrow> obj" where
  "meta_part expected =
     (case expected of
        None \<Rightarrow> []
      | Some ex \<Rightarrow> (if ex = [] then [] else [(''_meta'', JObj [(''expected_response'', JObj ex)])]))"

definition private_ids ::
  "instant \<Rightarrow> string list option \<Rightarrow> v2db \<Rightarrow> db_error + id list option \<times> v2db" where
  "private_ids now private_to db =
     (case private_to of
        None \<Rightarrow> Inr (None, db)
      | Some [] \<Rightarrow> Inr (None, db)
      | Some hs \<Rightarrow>
          bindE (ensure_all now (List.map_filter (\<lambda>h. normalize_handle (Some h)) hs) db)
            (\<lambda>(ids, db1). Inr (Some ids, db1)))"

definition mirror_message ::
  "instant \<Rightarrow> id option \<Rightarrow> string \<Rightarrow> string \<Rightarrow> content \<Rightarrow> string option \<Rightarrow> string list \<Rightarrow> id option
     \<Rightarrow> string list option \<Rightarrow> obj option \<Rightarrow> v2db \<Rightarrow> db_error + id option \<times> v2db" where
  "mirror_message now v2_op actor_name event_kind body addressed_to extras replies_to private_to
       expected db =
     (case v2_op of
        None \<Rightarrow> Inr (None, db)
      | Some op \<Rightarrow>
          bindE (ensure_actor_by_handle now
                   (case normalize_handle (Some actor_name) of None \<Rightarrow> ''@system'' | Some h \<Rightarrow> h) None
                   (if actor_name = ''system'' then ''human'' else ''ai'') [] db) (\<lambda>(actor, db1).
          bindE (ensure_all now (addressed_handles addressed_to extras) db1) (\<lambda>(addr_ids, db2).
          bindE (join_missing now op ''addressed'' addr_ids
                   (map p_actor (list_participants op db2)) db2) (\<lambda>(known, db3).
          bindE (if a_id actor \<in> set known then Inr db3
                 else add_participant now op (a_id actor) ''speaker'' db3) (\<lambda>db4.
          bindE (private_ids now private_to db4) (\<lambda>(private, db5).
          bindE (insert_event_serial now
                   \<lparr>n_op = op, n_actor = a_id actor, n_kind = event_kind,
                    n_payload = (''text'', content_json body)
                      # lifecycle_part event_kind body @ meta_part expected,
                    n_addressed = addr_ids, n_replies_to = replies_to, n_private = private\<rparr> db5)
                (\<lambda>(ev, db6). Inr (Some (e_id ev), db6))))))))"

section \<open>State, artifacts, closing\<close>

definition transition_state ::
  "instant \<Rightarrow> id option \<Rightarrow> string \<Rightarrow> v2db \<Rightarrow> mirror_error + v2db" where
  "transition_state now v2_op to_state db =
     (case v2_op of
        None \<Rightarrow> Inr db
      | Some k \<Rightarrow>
          (case get_operation k db of
             None \<Rightarrow> Inr db
           | Some op \<Rightarrow>
               (if o_state op = to_state then Inr db
                else bindE (map_err SmErr (assert_transition (o_kind op) (o_state op) to_state))
                       (\<lambda>_. Inr (snd (transition_operation_state now k to_state db))))))"

text \<open>
  \<open>attach_artifact\<close>: a missing key or a size that \<open>int()\<close> refuses makes it a no-op. \<open>str_of\<close>
  and \<open>int_of\<close> are the interpreter's \<open>str()\<close> and \<open>int()\<close> on values other than strings and ints.
\<close>

definition py_str :: "(json \<Rightarrow> string) \<Rightarrow> json \<Rightarrow> string" where
  "py_str str_of v = (case v of JStr s \<Rightarrow> s | _ \<Rightarrow> str_of v)"

definition py_int :: "(json \<Rightarrow> int option) \<Rightarrow> json \<Rightarrow> int option" where
  "py_int int_of v = (case as_int v of Some n \<Rightarrow> Some n | None \<Rightarrow> int_of v)"

definition attach_artifact ::
  "(json \<Rightarrow> string) \<Rightarrow> (json \<Rightarrow> int option) \<Rightarrow> id option \<Rightarrow> id option \<Rightarrow> obj \<Rightarrow> v2db
     \<Rightarrow> db_error + id option \<times> v2db" where
  "attach_artifact str_of int_of v2_op v2_event art db =
     (case (v2_op, v2_event) of
        (Some op, Some ev) \<Rightarrow>
          (if \<not> list_all (has_key art) [''kind'', ''uri'', ''sha256'', ''mime'', ''size_bytes'']
           then Inr (None, db)
           else case py_int int_of (obj_get art ''size_bytes'') of
             None \<Rightarrow> Inr (None, db)
           | Some size_bytes \<Rightarrow>
               bindE (insert_artifact op ev
                        (py_str str_of (obj_get art ''kind'')) (py_str str_of (obj_get art ''uri''))
                        (py_str str_of (obj_get art ''sha256'')) (py_str str_of (obj_get art ''mime''))
                        size_bytes
                        (if obj_get art ''label'' = JNull then None
                         else Some (py_str str_of (obj_get art ''label'')))
                        (case obj_get art ''metadata'' of JObj m \<Rightarrow> m | _ \<Rightarrow> []) db)
                 (\<lambda>(row, db1). Inr (Some (r_id row), db1)))
      | _ \<Rightarrow> Inr (None, db))"

definition resolve_closer :: "instant \<Rightarrow> string option \<Rightarrow> v2db \<Rightarrow> db_error + id option \<times> v2db" where
  "resolve_closer now closed_by db =
     (case normalize_handle closed_by of
        None \<Rightarrow> Inr (None, db)
      | Some h \<Rightarrow>
          (if h = ''@system'' then Inr (None, db)
           else bindE (ensure_default now h db) (\<lambda>(a, db1). Inr (Some (a_id a), db1))))"

definition mirror_conversation_close ::
  "instant \<Rightarrow> id option \<Rightarrow> string option \<Rightarrow> string \<Rightarrow> string option \<Rightarrow> bool \<Rightarrow> v2db
     \<Rightarrow> mirror_error + v2db" where
  "mirror_conversation_close now v2_op closed_by resolution summary system_bypass db =
     (case v2_op of
        None \<Rightarrow> Inr db
      | Some k \<Rightarrow>
          bindE (case get_operation k db of
                   None \<Rightarrow> Inr ()
                 | Some op \<Rightarrow>
                     map_err SmErr (assert_close (o_kind op) (o_state op) resolution system_bypass))
            (\<lambda>_.
          bindE (map_err DbErr (resolve_closer now closed_by db)) (\<lambda>(closer, db1). Inr (snd (close_operation now k closer resolution summary db1)))))"

section \<open>Writes that only touch people\<close>

text \<open>What provisioning actors and adding participants may change.\<close>

definition people_only :: "v2db \<Rightarrow> v2db \<Rightarrow> bool" where
  "people_only db db' \<longleftrightarrow>
     operations db' = operations db \<and> events db' = events db \<and> artifacts db' = artifacts db
     \<and> tokens db' = tokens db \<and> prefix (participants db) (participants db')
     \<and> a_id ` set (actors db) \<subseteq> a_id ` set (actors db')"

lemma people_only_refl [simp]: "people_only db db"
  by (simp add: people_only_def)

lemma people_only_trans: "people_only a b \<Longrightarrow> people_only b c \<Longrightarrow> people_only a c"
  by (auto simp: people_only_def intro: prefix_order.trans)

lemma ensure_people:
  assumes "ensure_actor_by_handle now h d k c db = Inr (a, db')"
  shows "people_only db db'"
  using ensure_actor_frame [OF assms] ensure_actor_ids [OF assms] by (simp add: people_only_def)

lemma add_participant_people: "add_participant now op a role db = Inr db' \<Longrightarrow> people_only db db'"
  by (auto simp: add_participant_def people_only_def split: if_splits)

lemma ensure_all_people: "ensure_all now hs db = Inr (ids, db') \<Longrightarrow> people_only db db'"
  by (induction hs arbitrary: db ids)
     (auto simp: bindE_Inr_iff ensure_default_def intro: people_only_trans dest: ensure_people)

lemma ensure_all_ok: "db_ok db \<Longrightarrow> ensure_all now hs db = Inr (ids, db') \<Longrightarrow> db_ok db'"
  by (induction hs arbitrary: db ids)
     (auto simp: bindE_Inr_iff ensure_default_def dest: ensure_actor_ok)

lemma ensure_all_total: "db_ok db \<Longrightarrow> \<exists>ids db'. ensure_all now hs db = Inr (ids, db')"
proof (induction hs arbitrary: db)
  case (Cons h hs)
  obtain a db1 where 1: "ensure_default now h db = Inr (a, db1)"
    using ensure_actor_total [of now h None "''ai''" "[]" db] by (auto simp: ensure_default_def)
  then have "db_ok db1" using Cons.prems ensure_actor_ok by (auto simp: ensure_default_def)
  with Cons.IH 1 show ?case by fastforce
qed simp

lemma people_only_ids: "people_only db db' \<Longrightarrow> k \<in> a_id ` set (actors db) \<Longrightarrow> k \<in> a_id ` set (actors db')"
  by (auto simp: people_only_def)

lemma ensure_all_ids:
  "db_ok db \<Longrightarrow> ensure_all now hs db = Inr (ids, db') \<Longrightarrow> set ids \<subseteq> a_id ` set (actors db')"
proof (induction hs arbitrary: db ids)
  case (Cons h hs)
  obtain a db1 is1 where 1: "ensure_actor_by_handle now h None ''ai'' [] db = Inr (a, db1)"
    and 2: "ensure_all now hs db1 = Inr (is1, db')" and ids: "ids = a_id a # is1"
    using Cons.prems(2) by (auto simp: bindE_Inr_iff ensure_default_def)
  have ok: "db_ok db1" using Cons.prems(1) 1 by (rule ensure_actor_ok)
  have "get_actor (a_id a) db1 = Some a" using Cons.prems(1) 1 by (rule ensure_actor_get)
  then have "a_id a \<in> a_id ` set (actors db1)" using get_actor_Some_iff [of "a_id a" db1] by simp
  then have "a_id a \<in> a_id ` set (actors db')"
    using people_only_ids [OF ensure_all_people [OF 2]] by blast
  with Cons.IH [OF ok 2] ids show ?case by simp
qed simp

text \<open>The actors that take part in an operation.\<close>

definition members :: "id \<Rightarrow> v2db \<Rightarrow> id set" where
  "members op db = p_actor ` {p \<in> set (participants db). p_op p = op}"

lemma members_list: "set (map p_actor (list_participants op db)) = members op db"
  by (auto simp: members_def list_participants_def)

lemma members_people: "people_only db db' \<Longrightarrow> members op db \<subseteq> members op db'"
  by (auto simp: people_only_def members_def dest: set_mono_prefix)

lemma members_same: "participants db' = participants db \<Longrightarrow> members op db' = members op db"
  by (simp add: members_def)

lemma members_append:
  "members op (db\<lparr>participants := participants db @ [r]\<rparr>) =
     (if p_op r = op then insert (p_actor r) (members op db) else members op db)"
proof -
  have "{p \<in> set (participants db @ [r]). p_op p = op} =
      (if p_op r = op then insert r {p \<in> set (participants db). p_op p = op}
       else {p \<in> set (participants db). p_op p = op})"
    by auto
  then show ?thesis by (simp add: members_def)
qed

lemma add_participant_members:
  assumes "add_participant now op a role db = Inr db'"
  shows "members op' db' = (if op' = op then insert a (members op' db) else members op' db)"
proof -
  have "db' = db\<lparr>participants := participants db @
              [\<lparr>p_op = op, p_actor = a, p_role = role, p_joined = now, p_seen_seq = 0\<rparr>]\<rparr>"
    using assms by (auto simp: add_participant_def split: if_splits)
  then show ?thesis by (simp add: members_append)
qed

lemma add_participant_total:
  assumes "op \<in> o_id ` set (operations db)" "a \<in> a_id ` set (actors db)" "a \<notin> members op db"
  shows "\<exists>db'. add_participant now op a role db = Inr db'"
proof -
  have "get_operation op db \<noteq> None" "get_actor a db \<noteq> None"
    using assms get_operation_Some_iff [of op db] get_actor_Some_iff [of a db] by auto
  with assms(3) show ?thesis
    by (auto simp: add_participant_def members_def list_ex_iff)
qed

lemma join_missing_people: "join_missing now op role ids known db = Inr (known', db') \<Longrightarrow> people_only db db'"
  by (induction ids arbitrary: known db)
     (auto simp: bindE_Inr_iff intro: people_only_trans dest: add_participant_people split: if_splits)

lemma join_missing_ok:
  "db_ok db \<Longrightarrow> join_missing now op role ids known db = Inr (known', db') \<Longrightarrow> db_ok db'"
  by (induction ids arbitrary: known db)
     (auto simp: bindE_Inr_iff dest: add_participant_ok split: if_splits)

lemma join_missing_members:
  assumes "join_missing now op role ids known db = Inr (known', db')" "set known = members op db"
  shows "set known' = members op db' \<and> members op db' = members op db \<union> set ids"
  using assms
proof (induction ids arbitrary: known db)
  case (Cons a ids)
  show ?case
  proof (cases "a \<in> set known")
    case True
    with Cons show ?thesis by auto
  next
    case False
    with Cons.prems(1) obtain db1 where 1: "add_participant now op a role db = Inr db1"
      and 2: "join_missing now op role ids (a # known) db1 = Inr (known', db')"
      by (auto simp: bindE_Inr_iff)
    have "set (a # known) = members op db1"
      using add_participant_members [OF 1, of op] Cons.prems(2) by simp
    from Cons.IH [OF 2 this] add_participant_members [OF 1, of op] show ?thesis by auto
  qed
qed auto

lemma join_missing_total:
  assumes "op \<in> o_id ` set (operations db)" "set ids \<subseteq> a_id ` set (actors db)"
    and "set known = members op db"
  shows "\<exists>r. join_missing now op role ids known db = Inr r"
  using assms
proof (induction ids arbitrary: known db)
  case (Cons a ids)
  show ?case
  proof (cases "a \<in> set known")
    case True
    with Cons show ?thesis by auto
  next
    case False
    with Cons.prems obtain db1 where 1: "add_participant now op a role db = Inr db1"
      using add_participant_total [of op db a now role] by auto
    have "people_only db db1" using 1 by (rule add_participant_people)
    then have "op \<in> o_id ` set (operations db1)" "set ids \<subseteq> a_id ` set (actors db1)"
      using Cons.prems by (auto simp: people_only_def)
    moreover have "set (a # known) = members op db1"
      using add_participant_members [OF 1, of op] Cons.prems(3) by simp
    ultimately show ?thesis using Cons.IH 1 False by simp
  qed
qed simp

section \<open>What mirroring a message does\<close>

lemma private_ids_cases:
  assumes "private_ids now ps db = Inr (r, db')"
  shows "db' = db \<or> (\<exists>hs ids. ensure_all now hs db = Inr (ids, db'))"
proof (cases "ps = None \<or> ps = Some []")
  case True
  with assms show ?thesis by (auto simp: private_ids_def)
next
  case False
  then obtain h hs where "ps = Some (h # hs)" by (cases ps) (auto simp: neq_Nil_conv)
  with assms show ?thesis
    by (auto simp: private_ids_def bindE_Inr_iff simp del: ensure_all.simps)
qed

lemma private_ids_people: "private_ids now ps db = Inr (r, db') \<Longrightarrow> people_only db db'"
  by (auto dest!: private_ids_cases ensure_all_people)

lemma private_ids_ok: "db_ok db \<Longrightarrow> private_ids now ps db = Inr (r, db') \<Longrightarrow> db_ok db'"
  by (auto dest!: private_ids_cases dest: ensure_all_ok)

lemma private_ids_total:
  assumes "db_ok db"
  shows "\<exists>r. private_ids now ps db = Inr r"
proof (cases "ps = None \<or> ps = Some []")
  case True
  then show ?thesis by (auto simp: private_ids_def)
next
  case False
  then obtain h hs where ps: "ps = Some (h # hs)" by (cases ps) (auto simp: neq_Nil_conv)
  obtain ids db' where
    "ensure_all now (List.map_filter (\<lambda>h. normalize_handle (Some h)) (h # hs)) db = Inr (ids, db')"
    using ensure_all_total [OF assms] by blast
  with ps show ?thesis by (simp add: private_ids_def del: ensure_all.simps)
qed

lemma ensure_actor_participants:
  "ensure_actor_by_handle now h d k c db = Inr (a, db') \<Longrightarrow> participants db' = participants db"
  by (rule ensure_actor_frame(2))

lemma ensure_all_participants: "ensure_all now hs db = Inr (ids, db') \<Longrightarrow> participants db' = participants db"
  by (induction hs arbitrary: db ids)
     (auto simp: bindE_Inr_iff ensure_default_def dest: ensure_actor_participants)

lemma private_ids_participants: "private_ids now ps db = Inr (r, db') \<Longrightarrow> participants db' = participants db"
  by (auto dest!: private_ids_cases ensure_all_participants)

text \<open>The speaker and everyone addressed, resolved and joined: the part before the insert.\<close>

definition message_people ::
  "instant \<Rightarrow> id \<Rightarrow> string \<Rightarrow> string option \<Rightarrow> string list \<Rightarrow> string list option \<Rightarrow> v2db
     \<Rightarrow> db_error + (id \<times> id list \<times> id list option) \<times> v2db" where
  "message_people now op actor_name addressed_to extras private_to db =
     bindE (ensure_actor_by_handle now
              (case normalize_handle (Some actor_name) of None \<Rightarrow> ''@system'' | Some h \<Rightarrow> h) None
              (if actor_name = ''system'' then ''human'' else ''ai'') [] db) (\<lambda>(actor, db1).
     bindE (ensure_all now (addressed_handles addressed_to extras) db1) (\<lambda>(addr_ids, db2).
     bindE (join_missing now op ''addressed'' addr_ids
              (map p_actor (list_participants op db2)) db2) (\<lambda>(known, db3).
     bindE (if a_id actor \<in> set known then Inr db3
            else add_participant now op (a_id actor) ''speaker'' db3) (\<lambda>db4.
     bindE (private_ids now private_to db4) (\<lambda>(private, db5).
     Inr ((a_id actor, addr_ids, private), db5))))))"

definition message_event ::
  "id \<Rightarrow> string \<Rightarrow> content \<Rightarrow> id option \<Rightarrow> obj option \<Rightarrow> id \<times> id list \<times> id list option \<Rightarrow> new_event" where
  "message_event op event_kind body replies_to expected who =
     (case who of (actor, addr_ids, private) \<Rightarrow>
        \<lparr>n_op = op, n_actor = actor, n_kind = event_kind,
         n_payload = (''text'', content_json body)
           # lifecycle_part event_kind body @ meta_part expected,
         n_addressed = addr_ids, n_replies_to = replies_to, n_private = private\<rparr>)"

lemma mirror_message_split:
  "mirror_message now (Some op) who k body addr extras re priv ex db =
     bindE (message_people now op who addr extras priv db) (\<lambda>(w, db5).
     bindE (insert_event_serial now (message_event op k body re ex w) db5)
       (\<lambda>(ev, db6). Inr (Some (e_id ev), db6)))"
  by (simp add: mirror_message_def message_people_def message_event_def bindE_assoc split_def)

lemma message_people_effect:
  assumes "db_ok db" and "message_people now op who addr extras priv db = Inr ((a, ids, ps), db')"
  shows "db_ok db' \<and> people_only db db' \<and> members op db' = insert a (members op db \<union> set ids)
           \<and> a \<in> a_id ` set (actors db')"
proof -
  let ?h = "case normalize_handle (Some who) of None \<Rightarrow> ''@system'' | Some h \<Rightarrow> h"
  let ?k = "if who = ''system'' then ''human'' else ''ai''"
  obtain act db1 db2 known db3 db4 where
      1: "ensure_actor_by_handle now ?h None ?k [] db = Inr (act, db1)"
    and 2: "ensure_all now (addressed_handles addr extras) db1 = Inr (ids, db2)"
    and 3: "join_missing now op ''addressed'' ids (map p_actor (list_participants op db2)) db2
              = Inr (known, db3)"
    and 4: "(if a_id act \<in> set known then Inr db3
             else add_participant now op (a_id act) ''speaker'' db3) = Inr db4"
    and 5: "private_ids now priv db4 = Inr (ps, db')"
    and a: "a = a_id act"
    using assms(2) unfolding message_people_def by (auto simp: bindE_Inr_iff)
  have ok1: "db_ok db1" using assms(1) 1 by (rule ensure_actor_ok)
  have ok2: "db_ok db2" using ok1 2 by (rule ensure_all_ok)
  have ok3: "db_ok db3" using ok2 3 by (rule join_missing_ok)
  have ok4: "db_ok db4" using 4 ok3 by (auto split: if_splits intro: add_participant_ok)
  have p4: "people_only db3 db4" using 4 by (auto split: if_splits dest: add_participant_people)
  have "people_only db db1" "people_only db1 db2" "people_only db2 db3" "people_only db4 db'"
    using 1 2 3 5 by (auto dest: ensure_people ensure_all_people join_missing_people private_ids_people)
  with p4 have p: "people_only db db'" and p1: "people_only db1 db'"
    by (blast intro: people_only_trans)+
  have "get_actor (a_id act) db1 = Some act" using assms(1) 1 by (rule ensure_actor_get)
  then have "a_id act \<in> a_id ` set (actors db1)"
    using get_actor_Some_iff [of "a_id act" db1] by simp
  then have actor: "a \<in> a_id ` set (actors db')" unfolding a by (rule people_only_ids [OF p1])
  have "members op db2 = members op db"
    using ensure_all_participants [OF 2] ensure_actor_participants [OF 1] by (intro members_same) simp
  moreover have known: "set known = members op db3" "members op db3 = members op db2 \<union> set ids"
    using join_missing_members [OF 3 members_list] by auto
  moreover have "members op db4 = insert a (members op db3)"
    using 4 known a
    by (auto split: if_splits simp: add_participant_members [of now op "a_id act" "''speaker''" db3 db4 op])
  moreover have "members op db' = members op db4"
    using private_ids_participants [OF 5] by (rule members_same)
  ultimately have "members op db' = insert a (members op db \<union> set ids)" by auto
  with ok4 5 p actor show ?thesis by (auto intro: private_ids_ok)
qed

lemma message_people_total:
  assumes "db_ok db" "op \<in> o_id ` set (operations db)"
  shows "\<exists>r. message_people now op who addr extras priv db = Inr r"
proof -
  let ?h = "case normalize_handle (Some who) of None \<Rightarrow> ''@system'' | Some h \<Rightarrow> h"
  let ?k = "if who = ''system'' then ''human'' else ''ai''"
  obtain act db1 where 1: "ensure_actor_by_handle now ?h None ?k [] db = Inr (act, db1)"
    using ensure_actor_total by blast
  have ok1: "db_ok db1" using assms(1) 1 by (rule ensure_actor_ok)
  obtain ids db2 where 2: "ensure_all now (addressed_handles addr extras) db1 = Inr (ids, db2)"
    using ensure_all_total [OF ok1] by blast
  have ok2: "db_ok db2" using ok1 2 by (rule ensure_all_ok)
  have p12: "people_only db db2" "people_only db1 db2"
    using ensure_people [OF 1] ensure_all_people [OF 2] by (auto intro: people_only_trans)
  have op2: "op \<in> o_id ` set (operations db2)" using assms(2) p12 by (simp add: people_only_def)
  obtain known db3 where 3: "join_missing now op ''addressed'' ids
      (map p_actor (list_participants op db2)) db2 = Inr (known, db3)"
    using join_missing_total [OF op2 ensure_all_ids [OF ok1 2] members_list] by fastforce
  have p23: "people_only db2 db3" using 3 by (rule join_missing_people)
  have known: "set known = members op db3" using join_missing_members [OF 3 members_list] by simp
  have ok3: "db_ok db3" using ok2 3 by (rule join_missing_ok)
  have "get_actor (a_id act) db1 = Some act" using assms(1) 1 by (rule ensure_actor_get)
  then have "a_id act \<in> a_id ` set (actors db1)"
    using get_actor_Some_iff [of "a_id act" db1] by simp
  then have act: "a_id act \<in> a_id ` set (actors db3)"
    using people_only_ids [OF people_only_trans [OF p12(2) p23]] by blast
  have op3: "op \<in> o_id ` set (operations db3)" using op2 p23 by (simp add: people_only_def)
  obtain db4 where 4: "(if a_id act \<in> set known then Inr db3
      else add_participant now op (a_id act) ''speaker'' db3) = (Inr db4 :: db_error + v2db)"
    using add_participant_total [OF op3 act, of now "''speaker''"] known
    by (cases "a_id act \<in> set known") auto
  have ok4: "db_ok db4" using 4 ok3 by (auto split: if_splits intro: add_participant_ok)
  have "\<exists>r. private_ids now priv db4 = Inr r" using ok4 by (rule private_ids_total)
  with 1 2 3 4 show ?thesis unfolding message_people_def by auto
qed

lemma mirror_message_effect:
  assumes "db_ok db" "mirror_message now (Some op) who k body addr extras re priv ex db = Inr (r, db')"
  shows "db_ok db' \<and> operations db' = operations db
     \<and> (\<exists>ev. r = Some (e_id ev) \<and> e_kind ev = k \<and> e_replies_to ev = re
          \<and> e_payload ev = (''text'', content_json body) # lifecycle_part k body @ meta_part ex
          \<and> e_op ev = op \<and> e_seq ev = int (length (op_events op db)) + 1
          \<and> events db' = events db @ [ev]
          \<and> members op db' = insert (e_actor ev) (members op db \<union> set (e_addressed ev)))"
proof -
  obtain a ids ps db5 ev where p: "message_people now op who addr extras priv db = Inr ((a, ids, ps), db5)"
    and ins: "insert_event_serial now (message_event op k body re ex (a, ids, ps)) db5 = Inr (ev, db')"
    and r: "r = Some (e_id ev)"
    using assms(2) unfolding mirror_message_split by (auto simp: bindE_Inr_iff)
  have eff: "db_ok db5" "people_only db db5" "members op db5 = insert a (members op db \<union> set ids)"
    using message_people_effect [OF assms(1) p] by auto
  let ?n = "message_event op k body re ex (a, ids, ps)"
  have same: "events db5 = events db" "operations db5 = operations db"
    using eff(2) by (simp_all add: people_only_def)
  have ev: "ev = mk_event now ?n (int (length (op_events op db)) + 1) db5"
    and db': "db' = db5\<lparr>events := events db5 @ [ev], next_id := Suc (next_id db5)\<rparr>"
    using ins eff(1) same
    by (auto simp: insert_event_serial_eq db_ok_def Let_def message_event_def op_events_def split: if_splits)
  have "db_ok db'" using eff(1) ins by (rule insert_event_serial_ok)
  moreover have "members op db' = members op db5" by (simp add: db' members_def)
  ultimately show ?thesis
    using eff(3) r same by (simp add: db' ev mk_event_def message_event_def)
qed

lemma mirror_message_total:
  assumes "db_ok db" "op \<in> o_id ` set (operations db)"
    and "\<And>e. re = Some e \<Longrightarrow> e \<in> e_id ` set (events db)"
  shows "\<exists>r db'. mirror_message now (Some op) who k body addr extras re priv ex db = Inr (Some r, db')"
proof -
  obtain a ids ps db5 where p: "message_people now op who addr extras priv db = Inr ((a, ids, ps), db5)"
    using message_people_total [OF assms(1,2)] by fastforce
  note eff = message_people_effect [OF assms(1) p]
  let ?n = "message_event op k body re ex (a, ids, ps)"
  have "get_operation op db5 \<noteq> None" "get_actor a db5 \<noteq> None"
    using eff assms(2) get_operation_Some_iff [of op db5] get_actor_Some_iff [of a db5]
    by (auto simp: people_only_def)
  moreover have "get_event e db5 \<noteq> None" if "re = Some e" for e
    using eff assms(3) [OF that] get_event_Some_iff [of e db5] by (auto simp: people_only_def)
  ultimately have "event_fks_ok ?n db5"
    by (auto simp: event_fks_ok_def message_event_def split: option.splits)
  with eff p show ?thesis
    unfolding mirror_message_split by (auto simp: insert_event_serial_eq db_ok_def Let_def)
qed

section \<open>Stored operations follow the lifecycle\<close>

text \<open>Every stored row is a configuration its kind's lifecycle reaches.\<close>

definition lifecycle_ok :: "v2db \<Rightarrow> bool" where
  "lifecycle_ok db \<longleftrightarrow>
     (\<forall>o1 \<in> set (operations db). op_reach (o_kind o1) (o_state o1, o_resolution o1))"

lemma lifecycle_ok_same: "operations db' = operations db \<Longrightarrow> lifecycle_ok db' = lifecycle_ok db"
  by (simp add: lifecycle_ok_def)

lemma touch_op_simps [simp]:
  "o_state (touch_op now f r) = o_state (f r)" "o_kind (touch_op now f r) = o_kind (f r)"
  "o_resolution (touch_op now f r) = o_resolution (f r)" "o_id (touch_op now f r) = o_id (f r)"
  by (auto simp: touch_op_def Let_def)

lemma get_operation_SomeD: "get_operation k db = Some r \<Longrightarrow> r \<in> set (operations db) \<and> o_id r = k"
  by (auto simp: get_operation_def dest: row_get_SomeD)

lemma upd_operation_lifecycle:
  assumes "lifecycle_ok db" "db_ok db" "get_operation k db = Some r"
    and "op_reach (o_kind (f r)) (o_state (f r), o_resolution (f r))"
  shows "lifecycle_ok (upd_operation now k f db)"
proof -
  have "x = r" if "x \<in> set (operations db)" "o_id x = k" for x
    using fresh_keys_get [of o_id "next_id db" "operations db" x] that assms(2,3)
    by (simp add: inv_defs get_operation_def)
  then show ?thesis
    using assms(1,4) by (auto simp: lifecycle_ok_def upd_operation_def row_upd_def)
qed

lemma transition_state_lifecycle:
  assumes "db_ok db" "lifecycle_ok db" "transition_state now k s db = Inr db'"
  shows "lifecycle_ok db'"
proof (cases "k = None \<or> get_operation (the k) db = None \<or> o_state (the (get_operation (the k) db)) = s")
  case True
  with assms show ?thesis by (auto simp: transition_state_def split: option.splits)
next
  case False
  then obtain k' r where k: "k = Some k'" "get_operation k' db = Some r" "o_state r \<noteq> s" by auto
  with assms(3) have al: "allowed (can_transition (o_kind r) (o_state r) s)"
    and db': "db' = upd_operation now k' (o_state_update (\<lambda>_. s)) db"
    by (auto simp: transition_state_def bindE_Inr_iff transition_operation_state_def Let_def)
  have "op_reach (o_kind r) (o_state r, o_resolution r)"
    using assms(2) get_operation_SomeD [OF k(2)] by (auto simp: lifecycle_ok_def)
  then have "op_reach (o_kind r) (s, o_resolution r)" using al by (rule op_reach_move)
  with assms(1,2) k show ?thesis unfolding db' by (intro upd_operation_lifecycle) auto
qed

lemma resolve_closer_people:
  assumes "resolve_closer now c db = Inr (closer, db1)" "db_ok db"
  shows "db_ok db1 \<and> people_only db db1"
proof (cases "normalize_handle c = None \<or> normalize_handle c = Some ''@system''")
  case True
  with assms show ?thesis by (auto simp: resolve_closer_def)
next
  case False
  then obtain h a where "ensure_actor_by_handle now h None ''ai'' [] db = Inr (a, db1)"
    using assms(1) by (auto simp: resolve_closer_def ensure_default_def bindE_Inr_iff)
  with assms(2) show ?thesis by (auto dest: ensure_actor_ok ensure_people)
qed

lemma resolve_closer_total: "\<exists>closer db1. resolve_closer now c db = Inr (closer, db1)"
proof (cases "normalize_handle c")
  case (Some h)
  obtain a db' where "ensure_actor_by_handle now h None ''ai'' [] db = Inr (a, db')"
    using ensure_actor_total by blast
  with Some show ?thesis by (simp add: resolve_closer_def ensure_default_def)
qed (simp add: resolve_closer_def)

lemma mirror_close_split:
  assumes "mirror_conversation_close now (Some k) c res sm sys db = Inr db'" "db_ok db"
  shows "\<exists>closer db1. db_ok db1 \<and> people_only db db1
    \<and> db' = snd (close_operation now k closer res sm db1)
    \<and> (\<forall>r. get_operation k db = Some r \<longrightarrow> allowed (can_close (o_kind r) (o_state r) res sys))"
proof -
  obtain closer db1 where who: "resolve_closer now c db = Inr (closer, db1)"
    and db': "db' = snd (close_operation now k closer res sm db1)"
    and al: "(case get_operation k db of
                   None \<Rightarrow> Inr ()
                 | Some op \<Rightarrow> map_err SmErr (assert_close (o_kind op) (o_state op) res sys))
       = Inr ()"
    using assms(1) by (auto simp: mirror_conversation_close_def bindE_Inr_iff)
  have close_ok: "allowed (can_close (o_kind r) (o_state r) res sys)" if "get_operation k db = Some r" for r
    using al that by simp
  show ?thesis
    using resolve_closer_people [OF who assms(2)] db' close_ok by blast
qed

lemma mirror_close_lifecycle:
  assumes "db_ok db" "lifecycle_ok db"
    and "mirror_conversation_close now k c res sm sys db = Inr db'"
  shows "lifecycle_ok db'"
proof (cases k)
  case None
  with assms show ?thesis by (simp add: mirror_conversation_close_def)
next
  case (Some k')
  obtain closer db1 where 1: "db_ok db1" "people_only db db1"
      "db' = snd (close_operation now k' closer res sm db1)"
    and al: "\<And>r. get_operation k' db = Some r \<Longrightarrow> allowed (can_close (o_kind r) (o_state r) res sys)"
    using mirror_close_split [OF assms(3) [unfolded Some] assms(1)] by blast
  have lc: "lifecycle_ok db1"
    using 1(2) assms(2) lifecycle_ok_same [of db1 db] by (simp add: people_only_def)
  show ?thesis
  proof (cases "get_operation k' db")
    case None
    then have "get_operation k' db1 = None" using 1(2) by (simp add: people_only_def get_operation_def)
    with 1 lc show ?thesis by (simp add: close_operation_def)
  next
    case (Some r)
    then have g: "get_operation k' db1 = Some r" using 1(2) by (simp add: people_only_def get_operation_def)
    have "op_reach (o_kind r) (o_state r, o_resolution r)"
      using lc get_operation_SomeD [OF g] by (auto simp: lifecycle_ok_def)
    then have "op_reach (o_kind r) (STATE_CLOSED, Some res)"
      using al [OF Some] by (rule op_reach_close)
    with 1 g lc show ?thesis
      by (auto simp: close_operation_def Let_def intro!: upd_operation_lifecycle)
  qed
qed

lemma transition_state_ok: "db_ok db \<Longrightarrow> transition_state now k s db = Inr db' \<Longrightarrow> db_ok db'"
  by (auto simp: transition_state_def bindE_Inr_iff split: option.splits if_splits
        intro: transition_operation_state_ok)

lemma mirror_close_ok:
  "db_ok db \<Longrightarrow> mirror_conversation_close now k c res sm sys db = Inr db' \<Longrightarrow> db_ok db'"
proof (cases k)
  case (Some k')
  assume "db_ok db" "mirror_conversation_close now k c res sm sys db = Inr db'"
  then obtain closer db1 where "db_ok db1" "db' = snd (close_operation now k' closer res sm db1)"
    using mirror_close_split [of now k' c res sm sys db db'] Some by blast
  then show ?thesis by (simp add: close_operation_ok)
qed (simp add: mirror_conversation_close_def)

lemma mirror_message_lifecycle:
  "db_ok db \<Longrightarrow> lifecycle_ok db \<Longrightarrow>
     mirror_message now k who kd body addr extras re priv ex db = Inr (r, db') \<Longrightarrow>
     db_ok db' \<and> lifecycle_ok db'"
proof (cases k)
  case (Some op)
  assume "db_ok db" "lifecycle_ok db"
    and "mirror_message now k who kd body addr extras re priv ex db = Inr (r, db')"
  then show ?thesis
    using mirror_message_effect [of db now op who kd body addr extras re priv ex r db'] Some
    by (simp add: lifecycle_ok_same [of db' db])
qed (simp add: mirror_message_def)

section \<open>What opening does\<close>

lemma join_as_effect:
  assumes "join_as now op h role db = Inr db'" "db_ok db"
  shows "db_ok db' \<and> people_only db db'"
  using assms
  by (auto simp: join_as_def bindE_Inr_iff ensure_default_def
        intro: people_only_trans add_participant_ok ensure_actor_ok
        dest: ensure_people add_participant_people)

lemma optional_join_effect:
  assumes "(case h of Some x \<Rightarrow> (if P x then join_as now op x role db else Inr db) | None \<Rightarrow> Inr db) = Inr db'"
    and "db_ok db"
  shows "db_ok db' \<and> people_only db db'"
  using assms by (auto split: option.splits if_splits dest: join_as_effect)

lemma insert_operation_Inr:
  assumes "insert_operation now sp k t i par m st db = Inr (r, db')"
  shows "o_id r = next_id db \<and> o_space r = sp \<and> o_kind r = k \<and> o_title r = t \<and> o_intent r = i
    \<and> o_metadata r = m \<and> o_state r = st \<and> o_resolution r = None
    \<and> db' = db\<lparr>operations := operations db @ [r], next_id := Suc (next_id db)\<rparr>"
  using assms by (auto simp: insert_operation_def Let_def split: if_splits)

text \<open>
  Opening adds one open operation and its members to the tables; no event is written yet.
\<close>

lemma mirror_open_effect:
  assumes "db_ok db" "lifecycle_ok db"
    and "mirror_conversation_open now cid th k t i op_actor own addr gen db = Inr (op, db')"
  shows "db_ok db' \<and> lifecycle_ok db' \<and> events db' = events db
     \<and> op \<notin> o_id ` set (operations db)
     \<and> (\<exists>r. operations db' = operations db @ [r] \<and> o_id r = op \<and> o_kind r = k
          \<and> o_state r = STATE_OPEN \<and> o_resolution r = None \<and> o_space r = ''chat:'' @ th)"
proof -
  let ?h = "case normalize_handle (Some op_actor) of None \<Rightarrow> ''@system'' | Some h \<Rightarrow> h"
  let ?k = "if ?h = ''@system'' then ''human'' else ''ai''"
  obtain a db1 r db2 db3 db4 where
      1: "ensure_actor_by_handle now ?h None ?k [] db = Inr (a, db1)"
    and 2: "insert_operation now (''chat:'' @ th) k t i None
              [(''v1_conversation_id'', JInt (int cid)), (''is_general'', JBool gen)] STATE_OPEN db1
            = Inr (r, db2)"
    and 3: "add_participant now (o_id r) (a_id a) ''opener'' db2 = Inr db3"
    and 4: "(case normalize_handle own of
               Some h \<Rightarrow> (if h \<noteq> ?h then join_as now (o_id r) h ''owner'' db3 else Inr db3)
             | None \<Rightarrow> Inr db3) = Inr db4"
    and 5: "(case normalize_handle addr of
               Some h \<Rightarrow> (if h \<noteq> ?h \<and> normalize_handle own \<noteq> Some h
                         then join_as now (o_id r) h ''addressed'' db4 else Inr db4)
             | None \<Rightarrow> Inr db4) = Inr db'"
    and op: "op = o_id r"
    using assms(3) by (auto simp: mirror_conversation_open_def Let_def bindE_Inr_iff)
  have ok1: "db_ok db1" "people_only db db1" using 1 assms(1) by (auto dest: ensure_actor_ok ensure_people)
  note ins = insert_operation_Inr [OF 2]
  have ok2: "db_ok db2" using ok1(1) 2 by (rule insert_operation_ok)
  have ok3: "db_ok db3" "people_only db2 db3"
    using 3 ok2 by (auto dest: add_participant_ok add_participant_people)
  note e4 = optional_join_effect [OF 4 ok3(1)]
  note e5 = optional_join_effect [OF 5 conjunct1 [OF e4]]
  have ops: "operations db' = operations db @ [r]" "events db' = events db"
    using ok1 ok3 e4 e5 ins by (simp_all add: people_only_def)
  have "op_reach k (STATE_OPEN, None)" by (rule op_reach_refl)
  then have "lifecycle_ok db'" using assms(2) ins ops by (simp add: lifecycle_ok_def)
  moreover have "op \<notin> o_id ` set (operations db)"
  proof -
    have "next_id db1 \<notin> o_id ` set (operations db1)" using ok1(1) by (auto simp: inv_defs fresh_keys_def)
    then show ?thesis using ok1(2) op ins by (simp add: people_only_def)
  qed
  ultimately show ?thesis using e5 ops op ins by blast
qed

section \<open>The protocol tables as a transition system\<close>

text \<open>
  Every write the program makes to the protocol tables, as one step: provisioning, capability and
  token changes, policies, membership cursors, the mirror's five entry points, and the intent the HTTP
  layer adds to a ratification it has just stored.
\<close>

inductive v2_step :: "v2db \<Rightarrow> v2db \<Rightarrow> bool" where
  ensure: "ensure_actor_by_handle now h d k c db = Inr (a, db') \<Longrightarrow> v2_step db db'"
| presence: "v2_step db (snd (update_actor_presence k s t db))"
| caps: "v2_step db (set_caps k caps db)"
| token: "create_actor_token now k h l sc db = Inr (t, db') \<Longrightarrow> v2_step db db'"
| untoken: "v2_step db (snd (revoke_actor_token now k db))"
| policy: "v2_step db (snd (set_operation_policy now k p db))"
| join: "add_participant now op k role db = Inr db' \<Longrightarrow> v2_step db db'"
| seen: "v2_step db (update_participant_seen_seq op k q db)"
| opens: "mirror_conversation_open now cid th k t i who own addr gen db = Inr (op, db') \<Longrightarrow>
            v2_step db db'"
| message: "mirror_message now op who k body addr extras re priv ex db = Inr (r, db') \<Longrightarrow>
            v2_step db db'"
| transition: "transition_state now op s db = Inr db' \<Longrightarrow> v2_step db db'"
| attach: "attach_artifact f g op ev art db = Inr (r, db') \<Longrightarrow> v2_step db db'"
| close: "mirror_conversation_close now op who res sm sys db = Inr db' \<Longrightarrow> v2_step db db'"
| intent: "get_event k db = Some e \<Longrightarrow> e_kind e = ''chat.speech.ratify'' \<Longrightarrow> v2_step db (patch_intent k text db)"

definition v2_reach :: "v2db \<Rightarrow> bool" where
  "v2_reach db \<longleftrightarrow> v2_step\<^sup>*\<^sup>* empty_db db"

lemma insert_artifact_frame:
  assumes "insert_artifact op ev k u sh mi sz l m db = Inr (row, db')"
  shows "operations db' = operations db \<and> events db' = events db \<and> r_op row = op \<and> r_event row = ev
    \<and> artifacts db' = artifacts db @ [row] \<and> participants db' = participants db"
  using assms by (auto simp: insert_artifact_def Let_def split: if_splits)

lemma attach_artifact_cases:
  assumes "attach_artifact f g op ev art db = Inr (r, db')"
  shows "(r = None \<and> db' = db)
    \<or> (\<exists>o1 e1 k u sh mi sz l m row. op = Some o1 \<and> ev = Some e1 \<and> r = Some (r_id row)
         \<and> insert_artifact o1 e1 k u sh mi sz l m db = Inr (row, db'))"
  using assms unfolding attach_artifact_def
  by (auto simp: bindE_Inr_iff split: option.splits if_splits)

lemma attach_artifact_Inr:
  assumes "attach_artifact f g op ev art db = Inr (r, db')" "db_ok db"
  shows "db_ok db' \<and> operations db' = operations db \<and> events db' = events db"
  using attach_artifact_cases [OF assms(1)] assms(2)
  by (auto dest: insert_artifact_frame intro: insert_artifact_ok)

lemma update_ops_lifecycle:
  assumes "lifecycle_ok db"
    and "\<And>r. (o_kind (f r), o_state (f r), o_resolution (f r)) = (o_kind r, o_state r, o_resolution r)"
  shows "lifecycle_ok (upd_operation now k f db)"
  using assms by (auto simp: lifecycle_ok_def upd_operation_def row_upd_def)

lemma set_policy_lifecycle:
  "lifecycle_ok db \<Longrightarrow> lifecycle_ok (snd (set_operation_policy now k p db))"
  by (auto simp: set_operation_policy_def Let_def intro!: update_ops_lifecycle split: option.splits)

lemma same_ops:
  "update_actor_presence k s t db = (r, db1) \<Longrightarrow> operations db1 = operations db"
  "operations (set_caps k cs db) = operations db"
  "create_actor_token now k h l sc db = Inr (tk, db2) \<Longrightarrow> operations db2 = operations db"
  "operations (snd (revoke_actor_token now k db)) = operations db"
  "operations (update_participant_seen_seq op k q db) = operations db"
  "add_participant now op k role db = Inr db3 \<Longrightarrow> operations db3 = operations db"
  by (auto simp: update_actor_presence_def set_caps_def create_actor_token_def Let_def
        revoke_actor_token_def update_participant_seen_seq_def add_participant_def
        split: option.splits if_splits)

lemma v2_step_inv:
  assumes "v2_step db db'" "db_ok db" "lifecycle_ok db"
  shows "db_ok db' \<and> lifecycle_ok db'"
  using assms
proof (induction rule: v2_step.induct)
  case (ensure now h d k c db a db')
  then show ?case using ensure_actor_frame(1) [OF ensure.hyps] ensure_actor_ok
    by (auto simp: lifecycle_ok_def)
next
  case (presence db k s t)
  then show ?case using same_ops(1) [of k s t db] update_actor_presence_ok
    by (auto simp: lifecycle_ok_def prod_eq_iff)
next
  case (token now k h l sc db t db')
  then show ?case using same_ops(3) [OF token.hyps] create_actor_token_ok
    by (auto simp: lifecycle_ok_def)
next
  case (join now op k role db db')
  then show ?case using same_ops(6) [OF join.hyps] add_participant_ok
    by (auto simp: lifecycle_ok_def)
next
  case (opens now cid th k t i who own addr gen db op db')
  then show ?case using mirror_open_effect by blast
next
  case (message now op who k body addr extras re priv ex db r db')
  then show ?case using mirror_message_lifecycle by blast
next
  case (transition now op s db db')
  then show ?case using transition_state_lifecycle transition_state_ok by blast
next
  case (attach f g op ev art db r db')
  then show ?case using attach_artifact_Inr [OF attach.hyps] by (simp add: lifecycle_ok_def)
next
  case (close now op who res sm sys db db')
  then show ?case using mirror_close_lifecycle mirror_close_ok by blast
next
  case (intent k db e t)
  then show ?case using patch_intent_ok by (simp add: lifecycle_ok_def patch_intent_def)
qed (simp_all add: lifecycle_ok_def same_ops set_caps_ok revoke_actor_token_ok update_seen_seq_ok
       set_operation_policy_ok set_policy_lifecycle [unfolded lifecycle_ok_def])

lemma v2_reach_inv: "v2_reach db \<Longrightarrow> db_ok db \<and> lifecycle_ok db"
  unfolding v2_reach_def
proof (induction rule: rtranclp_induct)
  case base
  have "lifecycle_ok empty_db" by (simp add: lifecycle_ok_def empty_db_def)
  with db_ok_empty show ?case by blast
next
  case (step db db')
  then show ?case using v2_step_inv by blast
qed

section \<open>Logs only grow\<close>

lemma append_only_same: "events db' = events db \<Longrightarrow> append_only db db'"
  by (simp add: append_only_def op_events_def)

lemma mirror_close_events:
  assumes "mirror_conversation_close now k c res sm sys db = Inr db'" "db_ok db"
  shows "events db' = events db"
proof (cases k)
  case (Some k')
  obtain closer db1 where "people_only db db1" "db' = snd (close_operation now k' closer res sm db1)"
    using mirror_close_split [OF assms(1) [unfolded Some] assms(2)] by blast
  then show ?thesis
    by (auto simp: close_operation_def people_only_def upd_operation_def Let_def split: option.splits)
qed (use assms(1) in \<open>simp add: mirror_conversation_close_def\<close>)

lemma transition_state_events:
  "transition_state now k s db = Inr db' \<Longrightarrow> events db' = events db"
  by (auto simp: transition_state_def bindE_Inr_iff transition_operation_state_def Let_def
        upd_operation_def split: option.splits if_splits)

lemma v2_step_events:
  assumes "v2_step db db'" "db_ok db" "lifecycle_ok db"
  shows "prefix (map settled (events db)) (map settled (events db'))"
  using assms
proof (induction rule: v2_step.induct)
  case (ensure now h d k c db a db')
  then show ?case using ensure_actor_frame(3) [OF ensure.hyps] by simp
next
  case (opens now cid th k t i who own addr gen db op db')
  then have "events db' = events db" using mirror_open_effect by blast
  then show ?case by simp
next
  case (message now op who k body addr extras re priv ex db r db')
  then show ?case
  proof (cases op)
    case (Some x)
    then have "\<exists>ev. events db' = events db @ [ev]"
      using mirror_message_effect [of db now x who k body addr extras re priv ex r db'] message by blast
    then show ?thesis by auto
  qed (simp add: mirror_message_def)
next
  case (transition now op s db db')
  then show ?case using transition_state_events by fastforce
next
  case (attach f g op ev art db r db')
  then show ?case using attach_artifact_Inr [OF attach.hyps] by simp
next
  case (close now op who res sm sys db db')
  then show ?case using mirror_close_events by fastforce
next
  case (intent k db e t)
  have "inj_on e_id (set (events db))"
    using intent.prems by (simp add: db_ok_def keys_ok_def fresh_keys_def distinct_map)
  then have "e' = e" if "e' \<in> set (events db)" "e_id e' = k" for e'
    using row_get_SomeD [OF intent.hyps(1)] that by (metis inj_onD)
  then have "\<forall>e' \<in> set (events db). e_id e' = k \<longrightarrow> e_kind e' = ''chat.speech.ratify''"
    using intent.hyps(2) by blast
  then show ?case by (simp only: patch_intent_settled prefix_order.refl)
qed (auto simp: update_actor_presence_def set_caps_def create_actor_token_def revoke_actor_token_def
       set_operation_policy_def upd_operation_def update_participant_seen_seq_def add_participant_def
       Let_def split: option.splits if_splits)

section \<open>Properties\<close>

text \<open>C3: Every state of the protocol tables reachable from the empty database keeps the whole
  invariant: primary keys are fresh and distinct, the UNIQUE and foreign-key constraints hold,
  each operation's log is numbered from 1 without gaps, and every operation row is in a
  configuration its kind's lifecycle can reach.\<close>

theorem protocol_invariant:
  assumes "v2_reach db"
  shows "db_ok db \<and> lifecycle_ok db"
  using assms by (rule v2_reach_inv)

definition opened :: "(id \<times> v2db) option" where
  "opened = (case mirror_conversation_open 1 7 ''t'' KIND_TASK ''build'' None ''ann'' None (Some ''bob'')
       False empty_db of Inl _ \<Rightarrow> None | Inr x \<Rightarrow> Some x)"

definition opened_db :: v2db where
  "opened_db = snd (the opened)"

lemma opened_run:
  "mirror_conversation_open 1 7 ''t'' KIND_TASK ''build'' None ''ann'' None (Some ''bob'') False empty_db
     = Inr (1, opened_db)"
proof -
  have "map_option fst opened = Some 1" by code_simp
  then show ?thesis by (auto simp: opened_db_def opened_def split: sum.splits)
qed

lemma opened_ok: "db_ok opened_db \<and> lifecycle_ok opened_db"
  using mirror_open_effect [OF db_ok_empty _ opened_run] by (simp add: lifecycle_ok_def empty_db_def)

theorem protocol_invariant_witness: "db_ok opened_db \<and> lifecycle_ok opened_db"
proof -
  have "v2_step empty_db opened_db" using opened_run by (rule v2_step.opens)
  then have "v2_reach opened_db" by (simp add: v2_reach_def)
  then show ?thesis by (rule protocol_invariant)
qed

text \<open>C21: The audit log is append-only but for one field. No write of the program removes or reorders
  a stored event, and none edits one, except that the HTTP layer writes the intent into the payload of a
  ratification it has stored: every event of another kind stays as it is, and a ratification keeps
  everything but the intent of its payload.\<close>

theorem event_log_append_only:
  assumes "v2_reach db" "v2_step\<^sup>*\<^sup>* db db'"
  shows "prefix (map settled (events db)) (map settled (events db'))"
  using assms(2)
proof (induction rule: rtranclp_induct)
  case (step d d')
  have "v2_reach d" using assms(1) step.hyps(1) by (simp add: v2_reach_def)
  then have "db_ok d \<and> lifecycle_ok d" by (rule v2_reach_inv)
  then have "prefix (map settled (events d)) (map settled (events d'))" using step.hyps(2) v2_step_events by blast
  with step.IH show ?case by (rule prefix_order.trans)
qed simp

theorem event_log_append_only_witness:
  "\<exists>db. opened_db \<noteq> db \<and> prefix (map settled (events opened_db)) (map settled (events db))"
proof -
  have 1: "v2_step empty_db opened_db" using opened_run by (rule v2_step.opens)
  then have reach: "v2_reach opened_db" by (simp add: v2_reach_def)
  have empty: "events opened_db = []" by code_simp
  obtain r db where run: "mirror_message 2 (Some 1) ''ann'' ''chat.speech.ratify'' (Text ''ok'') None [] None None None opened_db
      = Inr (r, db)"
  proof -
    have "case mirror_message 2 (Some 1) ''ann'' ''chat.speech.ratify'' (Text ''ok'') None [] None None None opened_db of
        Inl _ \<Rightarrow> False | Inr _ \<Rightarrow> True" by code_simp
    then show thesis by (auto intro: that split: sum.splits)
  qed
  then obtain ev where ev: "r = Some (e_id ev)" "e_kind ev = ''chat.speech.ratify''" "events db = [ev]"
    using mirror_message_effect [OF conjunct1 [OF opened_ok] run] empty by auto
  have 2: "v2_step opened_db db" using run by (rule v2_step.message)
  have 3: "v2_step db (patch_intent (e_id ev) ''close'' db)"
    by (rule v2_step.intent [where e = ev]) (simp_all add: ev row_get_Cons)
  have "length (events (patch_intent (e_id ev) ''close'' db)) = 1" by (simp add: patch_intent_def ev)
  with empty have "opened_db \<noteq> patch_intent (e_id ev) ''close'' db" by auto
  moreover have "v2_step\<^sup>*\<^sup>* opened_db (patch_intent (e_id ev) ''close'' db)"
    using 2 3 by (meson r_into_rtranclp rtranclp.rtrancl_into_rtrancl)
  ultimately show ?thesis using event_log_append_only [OF reach] by blast
qed

text \<open>Mirroring a message into an existing operation always succeeds, appends exactly one event
  with the next number, the given kind, reply link and payload, and makes the speaker and everyone
  addressed members of the operation, without removing a member or touching an operation row.\<close>

theorem mirror_message_spec:
  assumes "db_ok db" "op \<in> o_id ` set (operations db)"
    and "set_option re \<subseteq> e_id ` set (events db)"
  shows "\<exists>ev db'. mirror_message now (Some op) who k body addr extras re priv ex db = Inr (Some (e_id ev), db')
     \<and> db_ok db' \<and> operations db' = operations db \<and> events db' = events db @ [ev]
     \<and> e_op ev = op \<and> e_seq ev = int (length (op_events op db)) + 1 \<and> e_kind ev = k
     \<and> e_replies_to ev = re
     \<and> e_payload ev = (''text'', content_json body) # lifecycle_part k body @ meta_part ex
     \<and> members op db' = insert (e_actor ev) (members op db \<union> set (e_addressed ev))"
proof -
  obtain r db' where run: "mirror_message now (Some op) who k body addr extras re priv ex db = Inr (Some r, db')"
    using mirror_message_total [OF assms(1,2)] assms(3) by (metis elem_set subsetD)
  from run mirror_message_effect [OF assms(1) run] show ?thesis by auto
qed

theorem mirror_message_spec_witness:
  "\<exists>(ev :: event) db'. mirror_message 2 (Some 1) ''bob'' ''chat.speech.claim'' (Text ''hi'') (Some ''cat'') [] None None
       None opened_db = Inr (Some (e_id ev), db')
     \<and> e_seq ev = 1 \<and> members 1 db' = insert (e_actor ev) (members 1 opened_db \<union> set (e_addressed ev))"
proof -
  have mem: "1 \<in> o_id ` set (operations opened_db)" and none: "op_events 1 opened_db = []"
    by code_simp+
  have pre: "set_option None \<subseteq> e_id ` set (events opened_db)" by simp
  obtain ev :: event and db' where "mirror_message 2 (Some 1) ''bob'' ''chat.speech.claim'' (Text ''hi'') (Some ''cat'')
      [] None None None opened_db = Inr (Some (e_id ev), db')"
    and "e_seq ev = int (length (op_events 1 opened_db)) + 1"
    and "members 1 db' = insert (e_actor ev) (members 1 opened_db \<union> set (e_addressed ev))"
    using mirror_message_spec [where re = None, OF conjunct1 [OF opened_ok] mem pre, of 2 "''bob''"
        "''chat.speech.claim''" "Text ''hi''" "Some ''cat''" "[]" None None]
    by blast
  moreover have "int (length (op_events 1 opened_db)) + 1 = (1::int)" using none by simp
  ultimately show ?thesis by metis
qed

end
