(* ===== verification/ChatStore.thy ===== *)
theory ChatStore
  imports Mirror
begin

text \<open>
  The chat behavior's tables, \<open>behaviors/chat/models.py\<close>: rooms (chat threads), their conversations
  and messages, the participants and their read positions. Keys drawn with \<open>uuid4\<close> are numbers from
  \<open>r_next\<close>; the text of such a key is \<open>uid k\<close>, a parameter of the functions that need it. A message
  body is the text an actor wrote or the value handed to \<open>json.dumps\<close>.
\<close>

abbreviation CONVERSATION_KIND_GENERAL :: string where "CONVERSATION_KIND_GENERAL \<equiv> ''general''"
abbreviation CONVERSATION_KIND_TASK :: string where "CONVERSATION_KIND_TASK \<equiv> ''task''"
abbreviation CONVERSATION_STATE_OPEN :: string where "CONVERSATION_STATE_OPEN \<equiv> ''open''"
abbreviation CONVERSATION_STATE_CLOSED :: string where "CONVERSATION_STATE_CLOSED \<equiv> ''closed''"

record chat_thread =
  h_id :: id
  h_guild :: string
  h_channel :: string
  h_discord :: string
  h_title :: string
  h_topic :: "string option"
  h_created_by :: string
  h_status :: string
  h_turns :: int
  h_last_actor :: "string option"
  h_last_preview :: "string option"
  h_last_at :: "instant option"
  h_created :: instant

record chat_member =
  cp_thread :: id
  cp_actor :: string
  cp_kind :: string
  cp_turns :: int
  cp_preview :: "string option"
  cp_last_at :: "instant option"

record member_state =
  ps_thread :: id
  ps_actor :: string
  ps_seen :: "instant option"
  ps_read :: "id option"
  ps_read_at :: "instant option"

record conversation =
  c_id :: id
  c_thread :: id
  c_kind :: string
  c_title :: string
  c_intent :: "string option"
  c_state :: string
  c_opener :: string
  c_owner :: "string option"
  c_expected :: "string option"
  c_parent :: "id option"
  c_task :: "string option"
  c_v2 :: "id option"
  c_resolution :: "string option"
  c_summary :: "string option"
  c_closed_by :: "string option"
  c_general :: bool
  c_last_speech :: "instant option"
  c_speech_count :: int
  c_warned_at :: "instant option"
  c_warnings :: int
  c_unaddressed :: int
  c_created :: instant
  c_updated :: instant
  c_closed_at :: "instant option"

record chat_message =
  m_id :: id
  m_thread :: id
  m_conv :: "id option"
  m_actor :: string
  m_kind :: string
  m_to :: "string option"
  m_many :: "string list option"
  m_replies_to :: "id option"
  m_body :: content
  m_v2 :: "id option"
  m_created :: instant

record read_cursor =
  rc_conv :: id
  rc_actor :: string
  rc_speech :: "id option"
  rc_at :: "instant option"

text \<open>\<open>m_pos\<close>: where a message stands in \<open>ORDER BY created_at, id\<close>; ids compare as texts.\<close>

fun str_less :: "string \<Rightarrow> string \<Rightarrow> bool" where
  "str_less xs [] = False"
| "str_less [] (y # ys) = True"
| "str_less (x # xs) (y # ys) =
     ((of_char x :: nat) < of_char y \<or> (x = y \<and> str_less xs ys))"

lemma str_less_irrefl [simp]: "\<not> str_less s s"
  by (induction s) auto

lemma str_less_Nil [simp]: "str_less [] s \<longleftrightarrow> s \<noteq> []"
  by (cases s) auto

lemma str_less_trans: "str_less a b \<Longrightarrow> str_less b c \<Longrightarrow> str_less a c"
proof (induction a b arbitrary: c rule: str_less.induct)
  case (2 y ys)
  then show ?case by (cases c) auto
next
  case (3 x xs y ys)
  then show ?case by (cases c) auto
qed simp

lemma str_less_linear: "str_less a b \<or> a = b \<or> str_less b a"
proof (induction a b rule: str_less.induct)
  case (1 xs)
  then show ?case by (cases xs) auto
next
  case (3 x xs y ys)
  show ?case
  proof (cases "x = y")
    case False
    then have "(of_char x :: nat) \<noteq> of_char y" by simp
    then have "(of_char x :: nat) < of_char y \<or> (of_char y :: nat) < of_char x" by linarith
    then show ?thesis by auto
  qed (use 3 in auto)
qed simp

lemma str_less_asym: "str_less a b \<Longrightarrow> \<not> str_less b a"
  using str_less_trans str_less_irrefl by blast

datatype position = Position instant string

instantiation position :: linorder
begin

fun less_position :: "position \<Rightarrow> position \<Rightarrow> bool" where
  "less_position (Position s a) (Position t b) = (s < t \<or> (s = t \<and> str_less a b))"

definition less_eq_position :: "position \<Rightarrow> position \<Rightarrow> bool" where
  "less_eq_position p q = (p = q \<or> p < q)"

instance
proof
  fix p q r :: position
  obtain s a t b u c where pqr: "p = Position s a" "q = Position t b" "r = Position u c"
    by (cases p; cases q; cases r)
  show "p < q \<longleftrightarrow> p \<le> q \<and> \<not> q \<le> p"
    using str_less_asym [of a b] by (auto simp: pqr less_eq_position_def)
  show "p \<le> p" by (simp add: less_eq_position_def)
  show "p \<le> q \<Longrightarrow> q \<le> r \<Longrightarrow> p \<le> r"
    using str_less_trans [of a b c] by (auto simp: pqr less_eq_position_def)
  show "p \<le> q \<Longrightarrow> q \<le> p \<Longrightarrow> p = q"
    using str_less_asym [of a b] by (auto simp: pqr less_eq_position_def)
  show "p \<le> q \<or> q \<le> p"
    using str_less_linear [of a b] by (auto simp: pqr less_eq_position_def)
qed

end

definition m_pos :: "(id \<Rightarrow> string) \<Rightarrow> chat_message \<Rightarrow> position" where
  "m_pos uid m = Position (m_created m) (uid (m_id m))"

end
