(* ===== verification/Feed.thy ===== *)
theory Feed
  imports ChatStore "HOL-Library.Multiset"
begin

text \<open>
  \<open>kernel/events.py\<close> and the event provider of \<open>behaviors/chat/kernel_binding.py\<close>: cursors, pages of
  envelopes, and a reader that follows the pages of a room while messages are published.
\<close>

section \<open>Cursors\<close>

definition digit :: "nat \<Rightarrow> char" where
  "digit d = char_of (48 + d)"

fun dec :: "nat \<Rightarrow> string" where
  "dec n = (if n < 10 then [digit n] else dec (n div 10) @ [digit (n mod 10)])"

declare dec.simps [simp del]

text \<open>The format \<open>:020d\<close>: zeros between the sign and the digits, to a width of 20.\<close>

definition pad20 :: "int \<Rightarrow> string" where
  "pad20 n =
     (if n < 0 then CHR ''-'' # replicate (19 - length (dec (nat (- n)))) (CHR ''0'') @ dec (nat (- n))
      else replicate (20 - length (dec (nat n))) (CHR ''0'') @ dec (nat n))"

definition encode_event_cursor :: "instant \<Rightarrow> string \<Rightarrow> string" where
  "encode_event_cursor created event_id = pad20 created @ CHR '':'' # event_id"

definition is_digit :: "char \<Rightarrow> bool" where
  "is_digit c \<longleftrightarrow> (48::nat) \<le> of_char c \<and> of_char c \<le> (57::nat)"

definition is_valid_event_cursor :: "string option \<Rightarrow> bool" where
  "is_valid_event_cursor cursor =
     (case cursor of
        None \<Rightarrow> True
      | Some s \<Rightarrow>
          (if s = [] then True
           else let prefix = takeWhile (\<lambda>c. c \<noteq> CHR '':'') s; rest = dropWhile (\<lambda>c. c \<noteq> CHR '':'') s
                in rest \<noteq> [] \<and> prefix \<noteq> [] \<and> list_all is_digit prefix \<and> tl rest \<noteq> []))"

section \<open>Envelopes and pages\<close>

record envelope =
  v_cursor :: string
  v_space :: string
  v_id :: string
  v_kind :: string
  v_actor :: string
  v_body :: content
  v_created :: instant

record delta =
  d_space :: string
  d_domain :: string
  d_items :: "envelope list"
  d_next :: "string option"
  d_more :: bool

definition make_message_envelope :: "(id \<Rightarrow> string) \<Rightarrow> id \<Rightarrow> chat_message \<Rightarrow> envelope" where
  "make_message_envelope uid space m =
     \<lparr>v_cursor = encode_event_cursor (m_created m) (uid (m_id m)), v_space = uid space,
      v_id = uid (m_id m), v_kind = m_kind m, v_actor = m_actor m, v_body = m_body m,
      v_created = m_created m\<rparr>"

text \<open>Python's \<open>xs[:n]\<close>.\<close>

definition py_take :: "int \<Rightarrow> 'a list \<Rightarrow> 'a list" where
  "py_take n xs = (if 0 \<le> n then take (nat n) xs else take (length xs - nat (- n)) xs)"

definition of_kinds :: "string list \<Rightarrow> envelope list \<Rightarrow> envelope list" where
  "of_kinds kinds items = (if kinds = [] then items else filter (\<lambda>v. v_kind v \<in> set kinds) items)"

definition paginate_event_envelopes ::
  "string \<Rightarrow> string \<Rightarrow> envelope list \<Rightarrow> string option \<Rightarrow> int \<Rightarrow> string list \<Rightarrow> delta" where
  "paginate_event_envelopes space domain items after_cursor limit kinds =
     (let filtered = of_kinds kinds items
      in case after_cursor of
           None \<Rightarrow>
             (let page = (if 0 < limit then drop (length filtered - nat limit) filtered else filtered)
              in \<lparr>d_space = space, d_domain = domain, d_items = page,
                  d_next = (if page = [] then None else Some (v_cursor (last page))),
                  d_more = length page < length filtered\<rparr>)
         | Some c \<Rightarrow>
             (let unread = filter (\<lambda>v. str_less c (v_cursor v)) filtered; page = py_take limit unread
              in \<lparr>d_space = space, d_domain = domain, d_items = page,
                  d_next = (if page = [] then Some c else Some (v_cursor (last page))),
                  d_more = limit < int (length unread)\<rparr>))"

text \<open>The chat provider: the messages of one room in \<open>ORDER BY created_at, id\<close>.\<close>

definition room_envelopes :: "(id \<Rightarrow> string) \<Rightarrow> id \<Rightarrow> chat_message list \<Rightarrow> envelope list" where
  "room_envelopes uid space msgs =
     map (make_message_envelope uid space) (sort_key (m_pos uid) (filter (\<lambda>m. m_thread m = space) msgs))"

definition chat_event_response ::
  "(id \<Rightarrow> string) \<Rightarrow> id \<Rightarrow> chat_message list \<Rightarrow> string option \<Rightarrow> int \<Rightarrow> string list \<Rightarrow> delta" where
  "chat_event_response uid space msgs after_cursor limit kinds =
     paginate_event_envelopes (uid space) ''chat'' (room_envelopes uid space msgs) after_cursor limit kinds"

definition chat_events_for_space ::
  "(id \<Rightarrow> string) \<Rightarrow> chat_thread list \<Rightarrow> chat_message list \<Rightarrow> id \<Rightarrow> string option \<Rightarrow> int \<Rightarrow> string list
     \<Rightarrow> delta option" where
  "chat_events_for_space uid threads msgs space after_cursor limit kinds =
     (case row_get h_id space threads of
        None \<Rightarrow> None
      | Some h \<Rightarrow> Some (chat_event_response uid (h_id h) msgs after_cursor limit kinds))"

definition chat_events_for_thread ::
  "(id \<Rightarrow> string) \<Rightarrow> chat_thread list \<Rightarrow> chat_message list \<Rightarrow> string \<Rightarrow> string option \<Rightarrow> int \<Rightarrow> string list
     \<Rightarrow> delta option" where
  "chat_events_for_thread uid threads msgs discord after_cursor limit kinds =
     (case row_get h_discord discord threads of
        None \<Rightarrow> None
      | Some h \<Rightarrow> Some (chat_event_response uid (h_id h) msgs after_cursor limit kinds))"

text \<open>The services over all providers: the first that answers wins.\<close>

fun first_answer :: "('q \<Rightarrow> 'a option) list \<Rightarrow> 'q \<Rightarrow> 'a option" where
  "first_answer [] q = None"
| "first_answer (p # ps) q = (case p q of None \<Rightarrow> first_answer ps q | Some r \<Rightarrow> Some r)"

lemma first_answer_None: "first_answer ps q = None \<longleftrightarrow> (\<forall>p \<in> set ps. p q = None)"
  by (induction ps) (auto split: option.splits)

lemma first_answer_skip: "\<forall>p \<in> set ps. p q = None \<Longrightarrow> first_answer (ps @ qs) q = first_answer qs q"
  by (induction ps) auto

section \<open>The order of cursors\<close>

definition dval :: "char \<Rightarrow> nat" where
  "dval c = of_char c - 48"

fun numval :: "string \<Rightarrow> nat" where
  "numval [] = 0"
| "numval (c # cs) = dval c * 10 ^ length cs + numval cs"

lemma of_char_digit: "d < 10 \<Longrightarrow> of_char (digit d) = 48 + d"
  by (simp add: digit_def)

lemma is_digit_digit [simp]: "d < 10 \<Longrightarrow> is_digit (digit d)"
  by (simp add: is_digit_def of_char_digit)

lemma dval_digit [simp]: "d < 10 \<Longrightarrow> dval (digit d) = d"
  by (simp add: dval_def of_char_digit)

lemma dval_less: "is_digit c \<Longrightarrow> dval c < 10"
  by (auto simp: is_digit_def dval_def)

lemma numval_append: "numval (xs @ ys) = numval xs * 10 ^ length ys + numval ys"
  by (induction xs) (simp_all add: power_add algebra_simps)

lemma numval_bound: "list_all is_digit xs \<Longrightarrow> numval xs < 10 ^ length xs"
proof (induction xs)
  case (Cons c cs)
  then have "dval c * 10 ^ length cs + numval cs < dval c * 10 ^ length cs + 10 ^ length cs" by simp
  also have "\<dots> = (dval c + 1) * 10 ^ length cs" by simp
  also have "\<dots> \<le> 10 * 10 ^ length cs" using dval_less [of c] Cons.prems by (intro mult_right_mono) auto
  finally show ?case by simp
qed simp

lemma dec_digits: "list_all is_digit (dec n)"
  by (induction n rule: dec.induct) (subst dec.simps, simp)

lemma numval_dec: "numval (dec n) = n"
proof (induction n rule: dec.induct)
  case (1 n)
  show ?case
  proof (cases "n < 10")
    case True
    then show ?thesis by (subst dec.simps) simp
  next
    case False
    with 1 show ?thesis by (subst dec.simps) (simp add: numval_append)
  qed
qed

lemma dec_nonempty [simp]: "dec n \<noteq> []"
  by (subst dec.simps) simp

lemma dec_length: "0 < k \<Longrightarrow> n < 10 ^ k \<Longrightarrow> length (dec n) \<le> k"
proof (induction n arbitrary: k rule: dec.induct)
  case (1 n)
  show ?case
  proof (cases "n < 10")
    case True
    with 1 show ?thesis by (subst dec.simps) simp
  next
    case False
    with 1 obtain j where k: "k = Suc j" "0 < j" by (cases k) (auto split: if_splits, fastforce)
    then have "n div 10 < 10 ^ j" using 1(3) by (simp add: less_mult_imp_div_less mult.commute)
    with 1 False k show ?thesis by (subst dec.simps) simp
  qed
qed

lemma str_less_digits:
  assumes "length xs = length ys" "list_all is_digit xs" "list_all is_digit ys"
  shows "str_less xs ys \<longleftrightarrow> numval xs < numval ys"
  using assms
proof (induction xs ys rule: list_induct2)
  case (Cons x xs y ys)
  have b: "numval xs < 10 ^ length xs" "numval ys < 10 ^ length xs"
    using Cons numval_bound [of xs] numval_bound [of ys] by auto
  have cmp: "(of_char x :: nat) < of_char y \<longleftrightarrow> dval x < dval y"
    using Cons.prems by (auto simp: is_digit_def dval_def)
  have eq: "x = y \<longleftrightarrow> dval x = dval y"
  proof
    assume "dval x = dval y"
    moreover have "(48::nat) \<le> of_char x" "(48::nat) \<le> of_char y" using Cons.prems by (auto simp: is_digit_def)
    ultimately have "(of_char x :: nat) = of_char y" unfolding dval_def by linarith
    then show "x = y" by simp
  qed simp
  consider "dval x < dval y" | "dval x = dval y" | "dval y < dval x" by linarith
  then show ?case
  proof cases
    case 1
    then have "dval x * 10 ^ length xs + 10 ^ length xs \<le> dval y * 10 ^ length xs"
      by (metis Suc_leI add.commute mult_Suc mult_le_mono1)
    with 1 b Cons.hyps show ?thesis by (simp add: cmp)
  next
    case 2
    with Cons show ?thesis by (simp add: cmp eq)
  next
    case 3
    then have "dval y * 10 ^ length xs + 10 ^ length xs \<le> dval x * 10 ^ length xs"
      by (metis Suc_leI add.commute mult_Suc mult_le_mono1)
    with 3 b Cons.hyps show ?thesis by (simp add: cmp eq)
  qed
qed simp

lemma str_less_append:
  "length p = length q \<Longrightarrow> str_less (p @ a) (q @ b) \<longleftrightarrow> str_less p q \<or> (p = q \<and> str_less a b)"
proof (induction p q rule: list_induct2)
  case (Cons x p y q)
  then show ?case by auto
qed simp

definition micros_ok :: "instant \<Rightarrow> bool" where
  "micros_ok t \<longleftrightarrow> 0 \<le> t \<and> t < 10 ^ 20"

lemma pad20_props:
  assumes "micros_ok t"
  shows "length (pad20 t) = 20" "list_all is_digit (pad20 t)" "numval (pad20 t) = nat t"
proof -
  have "nat t < 10 ^ 20" using assms by (simp add: micros_ok_def nat_less_iff)
  then have len: "length (dec (nat t)) \<le> 20" by (rule dec_length [rotated]) simp
  have zeros: "numval (replicate k (CHR ''0'') @ xs) = numval xs" for k xs
    by (induction k) (simp_all add: dval_def)
  have zd: "is_digit (CHR ''0'')" by (simp add: is_digit_def)
  have p: "pad20 t = replicate (20 - length (dec (nat t))) (CHR ''0'') @ dec (nat t)"
    using assms by (simp add: pad20_def micros_ok_def)
  show "length (pad20 t) = 20" using len by (simp add: p)
  show "list_all is_digit (pad20 t)" using zd dec_digits [of "nat t"] by (auto simp: p list_all_iff)
  show "numval (pad20 t) = nat t" by (simp add: p zeros numval_dec)
qed

lemma cursor_less:
  assumes "micros_ok s" "micros_ok t"
  shows "str_less (encode_event_cursor s a) (encode_event_cursor t b) \<longleftrightarrow> Position s a < Position t b"
proof -
  note ps = pad20_props [OF assms(1)] pad20_props [OF assms(2)]
  have "str_less (pad20 s) (pad20 t) \<longleftrightarrow> s < t"
    using ps assms by (simp add: str_less_digits micros_ok_def) linarith
  moreover have "pad20 s = pad20 t \<longleftrightarrow> s = t"
    using ps assms by (metis eq_nat_nat_iff micros_ok_def)
  ultimately show ?thesis
    using ps by (simp add: encode_event_cursor_def str_less_append)
qed

lemma cursor_valid:
  assumes "micros_ok t" "i \<noteq> []"
  shows "is_valid_event_cursor (Some (encode_event_cursor t i))"
proof -
  note ps = pad20_props [OF assms(1)]
  have no: "\<forall>c \<in> set (pad20 t). c \<noteq> CHR '':''" using ps(2) by (auto simp: list_all_iff is_digit_def)
  then have "takeWhile (\<lambda>c. c \<noteq> CHR '':'') (encode_event_cursor t i) = pad20 t"
    "dropWhile (\<lambda>c. c \<noteq> CHR '':'') (encode_event_cursor t i) = CHR '':'' # i"
    by (simp_all add: encode_event_cursor_def takeWhile_append2 dropWhile_append2)
  moreover have "pad20 t \<noteq> []" using ps(1) by auto
  ultimately show ?thesis
    using ps assms(2) by (simp add: is_valid_event_cursor_def encode_event_cursor_def)
qed

section \<open>A reader that follows the feed\<close>

text \<open>What is still ahead of a cursor.\<close>

definition unread :: "(id \<Rightarrow> string) \<Rightarrow> id \<Rightarrow> string list \<Rightarrow> string \<Rightarrow> chat_message list \<Rightarrow> envelope list" where
  "unread uid space kinds c msgs =
     filter (\<lambda>v. str_less c (v_cursor v)) (of_kinds kinds (room_envelopes uid space msgs))"

text \<open>
  A message that enters the room at a position the reader's cursor \<open>c\<close> has already reached: it is past
  the reader's starting point but not ahead of the reader.
\<close>

definition late :: "(id \<Rightarrow> string) \<Rightarrow> id \<Rightarrow> string list \<Rightarrow> string \<Rightarrow> string \<Rightarrow> chat_message \<Rightarrow> envelope list" where
  "late uid space kinds c0 c m =
     filter (\<lambda>v. str_less c0 (v_cursor v) \<and> \<not> str_less c (v_cursor v))
       (of_kinds kinds (if m_thread m = space then [make_message_envelope uid space m] else []))"

text \<open>
  Messages enter the room in any number and at any position not yet taken (a transaction may commit
  after one with a later time), and the reader asks for its next page with the cursor of the last
  one. The last argument collects the late messages.
\<close>

inductive reading ::
  "(id \<Rightarrow> string) \<Rightarrow> id \<Rightarrow> string list \<Rightarrow> int \<Rightarrow> string \<Rightarrow> chat_message list
     \<Rightarrow> chat_message list \<Rightarrow> string \<Rightarrow> envelope list \<Rightarrow> envelope list \<Rightarrow> bool"
  for uid space kinds limit c0 msgs0 where
  start: "reading uid space kinds limit c0 msgs0 msgs0 c0 [] []"
| publish: "reading uid space kinds limit c0 msgs0 msgs c seen missed \<Longrightarrow>
     \<forall>x \<in> set msgs. m_thread x = space \<longrightarrow> m_pos uid x \<noteq> m_pos uid m \<Longrightarrow> micros_ok (m_created m) \<Longrightarrow>
     reading uid space kinds limit c0 msgs0 (msgs @ [m]) c seen (missed @ late uid space kinds c0 c m)"
| poll: "reading uid space kinds limit c0 msgs0 msgs c seen missed \<Longrightarrow>
     chat_event_response uid space msgs (Some c) limit kinds = d \<Longrightarrow> d_next d = Some c' \<Longrightarrow>
     reading uid space kinds limit c0 msgs0 msgs c' (seen @ d_items d) missed"

definition room_ok :: "(id \<Rightarrow> string) \<Rightarrow> id \<Rightarrow> chat_message list \<Rightarrow> bool" where
  "room_ok uid space msgs \<longleftrightarrow>
     distinct (map (m_pos uid) (filter (\<lambda>m. m_thread m = space) msgs))
     \<and> (\<forall>m \<in> set msgs. m_thread m = space \<longrightarrow> micros_ok (m_created m))"

lemma unread_publish:
  "mset (unread uid space kinds c (msgs @ [m])) = mset (unread uid space kinds c msgs) +
    mset (filter (\<lambda>v. str_less c (v_cursor v))
      (of_kinds kinds (if m_thread m = space then [make_message_envelope uid space m] else [])))"
  by (simp add: unread_def of_kinds_def room_envelopes_def)

text \<open>For a reader at or past its start, a new message is ahead of it, late, or not its concern.\<close>

lemma publish_split:
  assumes "c = c0 \<or> str_less c0 c"
  shows "mset (unread uid space kinds c0 (msgs @ [m])) + mset (unread uid space kinds c msgs) =
    mset (unread uid space kinds c0 msgs) + mset (unread uid space kinds c (msgs @ [m])) + mset (late uid space kinds c0 c m)"
proof -
  have ahead: "str_less c (v_cursor v) \<Longrightarrow> str_less c0 (v_cursor v)" for v :: envelope
    using assms str_less_trans by blast
  have "mset (filter (\<lambda>v. str_less c0 (v_cursor v)) vs) = mset (filter (\<lambda>v. str_less c (v_cursor v)) vs)
      + mset (filter (\<lambda>v. str_less c0 (v_cursor v) \<and> \<not> str_less c (v_cursor v)) vs)" for vs :: "envelope list"
    by (induction vs) (auto dest: ahead)
  then show ?thesis by (simp add: unread_publish late_def)
qed

text \<open>The cursors of a room's envelopes rise strictly.\<close>

definition rising :: "envelope list \<Rightarrow> bool" where
  "rising vs \<longleftrightarrow> sorted_wrt (\<lambda>v w. str_less (v_cursor v) (v_cursor w)) vs"

lemma sorted_less_distinct: "sorted_wrt str_less xs \<Longrightarrow> distinct xs"
  by (induction xs) auto

lemma rising_filter: "rising vs \<Longrightarrow> rising (filter P vs)"
  by (simp add: rising_def sorted_wrt_filter)

lemma rising_room:
  assumes "room_ok uid space msgs"
  shows "rising (room_envelopes uid space msgs)"
proof -
  define ms where "ms = sort_key (m_pos uid) (filter (\<lambda>m. m_thread m = space) msgs)"
  have "mset (map (m_pos uid) ms) = mset (map (m_pos uid) (filter (\<lambda>m. m_thread m = space) msgs))"
    by (simp add: ms_def)
  then have "distinct (map (m_pos uid) ms)"
    using assms by (metis mset_eq_imp_distinct_iff room_ok_def)
  then have "sorted_wrt (<) (map (m_pos uid) ms)"
    by (simp add: ms_def strict_sorted_iff)
  then have "sorted_wrt (\<lambda>m n. m_pos uid m < m_pos uid n) ms" by (simp add: sorted_wrt_map)
  then have "sorted_wrt (\<lambda>m n. str_less (v_cursor (make_message_envelope uid space m))
                               (v_cursor (make_message_envelope uid space n))) ms"
  proof (rule sorted_wrt_mono_rel [rotated])
    fix m n assume "m \<in> set ms" "n \<in> set ms" and less: "m_pos uid m < m_pos uid n"
    then have "micros_ok (m_created m)" "micros_ok (m_created n)"
      using assms by (auto simp: ms_def room_ok_def)
    with less show "str_less (v_cursor (make_message_envelope uid space m))
                               (v_cursor (make_message_envelope uid space n))"
      by (simp add: make_message_envelope_def cursor_less m_pos_def)
  qed
  then show ?thesis by (simp add: rising_def room_envelopes_def sorted_wrt_map ms_def)
qed

text \<open>After reading a first part of a rising list, what is ahead of its last cursor is the rest.\<close>

lemma rising_split:
  assumes "rising (ys @ zs)" "ys \<noteq> []"
  shows "filter (\<lambda>v. str_less (v_cursor (last ys)) (v_cursor v)) (ys @ zs) = zs"
proof -
  have split: "ys = butlast ys @ [last ys]" using assms(2) by simp
  have "\<forall>v \<in> set (butlast ys). str_less (v_cursor v) (v_cursor (last ys))"
    using assms(1) split by (metis (no_types, lifting) in_set_conv_decomp list.set_intros(1) rising_def sorted_wrt_append)
  then have "\<forall>v \<in> set ys. \<not> str_less (v_cursor (last ys)) (v_cursor v)"
    using split str_less_asym str_less_irrefl by (metis in_set_conv_decomp rotate1.simps(2) set_ConsD set_rotate1)
  moreover have "\<forall>v \<in> set zs. str_less (v_cursor (last ys)) (v_cursor v)"
    using assms by (auto simp: rising_def sorted_wrt_append)
  ultimately show ?thesis by simp
qed

lemma unread_after:
  assumes ok: "room_ok uid space msgs" and split: "unread uid space kinds c msgs = ys @ zs" and ne: "ys \<noteq> []"
  shows "unread uid space kinds (v_cursor (last ys)) msgs = zs"
proof -
  define all where "all = of_kinds kinds (room_envelopes uid space msgs)"
  have rise: "rising all" using rising_room [OF ok] by (auto simp: all_def of_kinds_def rising_filter)
  have u: "filter (\<lambda>v. str_less c (v_cursor v)) all = ys @ zs" using split by (simp add: unread_def all_def)
  have "last ys \<in> set (filter (\<lambda>v. str_less c (v_cursor v)) all)" unfolding u using ne by simp
  then have "str_less c (v_cursor (last ys))" by simp
  then have "filter (\<lambda>v. str_less (v_cursor (last ys)) (v_cursor v)) all =
      filter (\<lambda>v. str_less (v_cursor (last ys)) (v_cursor v)) (filter (\<lambda>v. str_less c (v_cursor v)) all)"
    by (auto intro!: filter_cong dest: str_less_trans)
  also have "\<dots> = zs"
    unfolding u using rising_filter [OF rise, of "\<lambda>v. str_less c (v_cursor v)"] ne
    by (intro rising_split) (simp_all add: u)
  finally show ?thesis by (simp add: unread_def all_def)
qed

lemma poll_page:
  assumes "room_ok uid space msgs" "0 < limit"
  shows "let d = chat_event_response uid space msgs (Some c) limit kinds; n = nat limit in
    d_items d = take n (unread uid space kinds c msgs)
    \<and> (\<exists>c'. d_next d = Some c' \<and> unread uid space kinds c' msgs = drop n (unread uid space kinds c msgs))"
proof -
  define u where "u = unread uid space kinds c msgs"
  have d: "chat_event_response uid space msgs (Some c) limit kinds =
      \<lparr>d_space = uid space, d_domain = ''chat'', d_items = take (nat limit) u,
       d_next = (if take (nat limit) u = [] then Some c else Some (v_cursor (last (take (nat limit) u)))),
       d_more = limit < int (length u)\<rparr>"
    using assms(2) by (simp add: chat_event_response_def paginate_event_envelopes_def Let_def py_take_def unread_def u_def)
  show ?thesis
  proof (cases "take (nat limit) u = []")
    case True
    then have "u = []" using assms(2) by auto
    with d show ?thesis by (simp add: u_def)
  next
    case False
    have "unread uid space kinds c msgs = take (nat limit) u @ drop (nat limit) u" by (simp add: u_def)
    from unread_after [OF assms(1) this False] d False show ?thesis by (simp add: u_def)
  qed
qed

lemma room_ok_publish:
  assumes "room_ok uid space msgs" "\<forall>x \<in> set msgs. m_thread x = space \<longrightarrow> m_pos uid x \<noteq> m_pos uid m"
    and "micros_ok (m_created m)"
  shows "room_ok uid space (msgs @ [m])"
  using assms by (auto simp: room_ok_def)

definition msg_cursor :: "(id \<Rightarrow> string) \<Rightarrow> chat_message \<Rightarrow> string" where
  "msg_cursor uid m = encode_event_cursor (m_created m) (uid (m_id m))"

text \<open>The reader's cursor is where it started or that of a message it was given.\<close>

definition cursor_from :: "(id \<Rightarrow> string) \<Rightarrow> id \<Rightarrow> string \<Rightarrow> chat_message list \<Rightarrow> string \<Rightarrow> bool" where
  "cursor_from uid space c0 msgs c \<longleftrightarrow>
     c = c0 \<or> (str_less c0 c \<and> (\<exists>x \<in> set msgs. m_thread x = space \<and> c = msg_cursor uid x))"

lemma unread_mem:
  "v \<in> set (unread uid space kinds c msgs) \<Longrightarrow>
     str_less c (v_cursor v) \<and> (\<exists>x \<in> set msgs. m_thread x = space \<and> v_cursor v = msg_cursor uid x)"
  by (auto simp: unread_def of_kinds_def room_envelopes_def make_message_envelope_def msg_cursor_def split: if_splits)

text \<open>What was given and what was missed is not ahead of the cursor.\<close>

definition behind :: "string \<Rightarrow> envelope list \<Rightarrow> bool" where
  "behind c vs \<longleftrightarrow> (\<forall>v \<in> set vs. \<not> str_less c (v_cursor v))"

lemma behind_simps [simp]:
  "behind c []" "behind c (vs @ ws) \<longleftrightarrow> behind c vs \<and> behind c ws" "behind c (late uid space kinds c0 c m)"
  by (auto simp: behind_def late_def)

lemma behind_later: "behind c vs \<Longrightarrow> c' = c \<or> str_less c c' \<Longrightarrow> behind c' vs"
  unfolding behind_def using str_less_trans by blast

lemma rising_behind: "rising ys \<Longrightarrow> ys \<noteq> [] \<Longrightarrow> behind (v_cursor (last ys)) ys"
  using rising_split [of ys "[]"] by (simp add: behind_def filter_empty_conv)

lemma rising_join:
  assumes "rising vs" "behind c vs" "rising ws" "\<forall>w \<in> set ws. str_less c (v_cursor w)"
  shows "rising (vs @ ws)"
proof -
  have "str_less (v_cursor v) (v_cursor w)" if "v \<in> set vs" "w \<in> set ws" for v w
    using that assms(2,4) str_less_linear [of c "v_cursor v"] str_less_trans unfolding behind_def by metis
  with assms(1,3) show ?thesis by (auto simp: rising_def sorted_wrt_append)
qed

lemma rising_unread: "room_ok uid space msgs \<Longrightarrow> rising (unread uid space kinds c msgs)"
  by (simp add: unread_def of_kinds_def rising_filter rising_room)

text \<open>The page after a cursor, and the cursor it leaves.\<close>

lemma poll_next:
  assumes "chat_event_response uid space msgs (Some c) limit kinds = d" "d_next d = Some c'" "0 < limit"
  shows "if d_items d = [] then c' = c else c' = v_cursor (last (d_items d))"
  using assms
  by (auto simp: chat_event_response_def paginate_event_envelopes_def Let_def py_take_def split: if_splits)

lemma reading_inv:
  assumes "reading uid space kinds limit c0 msgs0 msgs c seen missed" "room_ok uid space msgs0" "0 < limit"
  shows "room_ok uid space msgs \<and> cursor_from uid space c0 msgs c \<and> rising seen \<and> behind c seen \<and> behind c missed
    \<and> mset (unread uid space kinds c0 msgs) = mset seen + mset (unread uid space kinds c msgs) + mset missed"
  using assms(1)
proof (induction rule: reading.induct)
  case start
  then show ?case using assms(2) by (simp add: cursor_from_def rising_def)
next
  case (publish msgs c seen missed m)
  then have "room_ok uid space (msgs @ [m])" by (simp add: room_ok_publish)
  moreover have "cursor_from uid space c0 (msgs @ [m]) c" using publish.IH by (auto simp: cursor_from_def)
  moreover have "c = c0 \<or> str_less c0 c" using publish.IH by (auto simp: cursor_from_def)
  note publish_split [OF this, of uid space kinds msgs m]
  ultimately show ?case using publish.IH by (simp add: union_ac)
next
  case (poll msgs c seen missed d c')
  have ok: "room_ok uid space msgs" using poll.IH by simp
  from poll_page [OF ok assms(3), of c kinds] poll.hyps(2,3)
  have page: "d_items d = take (nat limit) (unread uid space kinds c msgs)"
    and rest: "unread uid space kinds c' msgs = drop (nat limit) (unread uid space kinds c msgs)"
    by (auto simp: Let_def)
  then have parts: "unread uid space kinds c msgs = d_items d @ unread uid space kinds c' msgs" by simp
  have ahead: "\<forall>v \<in> set (d_items d). str_less c (v_cursor v)"
    using unread_mem parts by (metis UnCI set_append)
  have rise: "rising (d_items d)"
    using rising_unread [OF ok, of kinds c] parts by (simp add: rising_def sorted_wrt_append)
  have next': "if d_items d = [] then c' = c else c' = v_cursor (last (d_items d))"
    by (rule poll_next [OF poll.hyps(2,3) assms(3)])
  then have moved: "c' = c \<or> str_less c c'" using ahead by (auto split: if_splits)
  have "cursor_from uid space c0 msgs c'"
  proof (cases "d_items d = []")
    case False
    then have "last (d_items d) \<in> set (unread uid space kinds c msgs)" unfolding parts by simp
    with False show ?thesis using unread_mem poll.IH next' str_less_trans unfolding cursor_from_def by metis
  qed (use poll.IH next' in simp)
  moreover have "rising (seen @ d_items d)" using poll.IH rise ahead by (blast intro: rising_join)
  moreover have "behind c' (seen @ d_items d)"
  proof (cases "d_items d = []")
    case False
    with rise next' have "behind c' (d_items d)" by (simp add: rising_behind)
    with poll.IH moved show ?thesis by (auto intro: behind_later)
  qed (use poll.IH next' in simp)
  moreover have "behind c' missed" using poll.IH moved by (blast intro: behind_later)
  moreover have "mset (unread uid space kinds c0 msgs) =
      mset (seen @ d_items d) + mset (unread uid space kinds c' msgs) + mset missed"
    using poll.IH parts by (simp add: union_ac)
  ultimately show ?case using ok by blast
qed

text \<open>A message whose position is after every position of the room is never late.\<close>

definition in_order :: "(id \<Rightarrow> string) \<Rightarrow> id \<Rightarrow> chat_message list \<Rightarrow> bool" where
  "in_order uid space msgs \<longleftrightarrow> sorted_wrt (\<lambda>x y. m_pos uid x < m_pos uid y) (filter (\<lambda>m. m_thread m = space) msgs)"

lemma not_late:
  assumes "room_ok uid space msgs" "cursor_from uid space c0 msgs c" "in_order uid space (msgs @ [m])" "micros_ok (m_created m)"
  shows "late uid space kinds c0 c m = []"
proof -
  have "str_less c (msg_cursor uid m)" if "m_thread m = space" "str_less c0 (msg_cursor uid m)"
  proof (cases "c = c0")
    case False
    then obtain x where x: "x \<in> set msgs" "m_thread x = space" "c = msg_cursor uid x"
      using assms(2) by (auto simp: cursor_from_def)
    then have "micros_ok (m_created x)" "m_pos uid x < m_pos uid m"
      using assms(1,3) that(1) by (auto simp: room_ok_def in_order_def sorted_wrt_append)
    then show ?thesis using x(3) assms(4) by (simp add: msg_cursor_def cursor_less m_pos_def)
  qed (use that in simp)
  then show ?thesis
    by (auto simp: late_def of_kinds_def make_message_envelope_def msg_cursor_def filter_empty_conv)
qed

lemma in_order_none_missed:
  assumes "reading uid space kinds limit c0 msgs0 msgs c seen missed" "room_ok uid space msgs0" "0 < limit"
    and "in_order uid space msgs"
  shows "missed = []"
  using assms(1,4)
proof (induction rule: reading.induct)
  case (publish msgs c seen missed m)
  have "in_order uid space msgs" using publish.prems by (simp add: in_order_def sorted_wrt_append split: if_splits)
  then have "missed = []" by (rule publish.IH)
  moreover have "late uid space kinds c0 c m = []"
    using reading_inv [OF publish.hyps(1) assms(2,3)] publish.prems publish.hyps(3) by (intro not_late) auto
  ultimately show ?case by simp
qed simp_all

section \<open>Properties\<close>

text \<open>Cursors compare as texts exactly as their times and then their ids do, for all times from
  1970 until the twenty digits run out.\<close>

theorem cursor_order:
  assumes "micros_ok s" "micros_ok t"
  shows "str_less (encode_event_cursor s a) (encode_event_cursor t b) \<longleftrightarrow> s < t \<or> (s = t \<and> str_less a b)"
  using cursor_less [OF assms] by simp

theorem cursor_order_witness:
  "str_less (encode_event_cursor 9 ''b'') (encode_event_cursor 10 ''a'')"
  using cursor_order [of 9 10 "''b''" "''a''"] by (simp add: micros_ok_def)

text \<open>C6: A reader follows the pages of a room while messages enter it at any free position. Of the
  messages past its starting cursor, of the kinds it asked for, each one is given to it exactly once,
  is still ahead of its cursor, or was missed because the cursor had already reached the position at
  which it entered; a missed one is never given. What the reader is given comes in cursor order, also
  with what is still ahead; nothing is missed when messages enter in order; and while something is
  ahead, the next page is not empty.\<close>

theorem feed_exactly_once:
  assumes "reading uid space kinds limit c0 msgs0 msgs c seen missed" "room_ok uid space msgs0" "0 < limit"
  shows "mset (unread uid space kinds c0 msgs) = mset (seen @ unread uid space kinds c msgs @ missed)
    \<and> distinct (map v_cursor (seen @ unread uid space kinds c msgs @ missed))
    \<and> rising (seen @ unread uid space kinds c msgs)
    \<and> behind c missed \<and> (in_order uid space msgs \<longrightarrow> missed = [])
    \<and> (unread uid space kinds c msgs \<noteq> [] \<longrightarrow>
        d_items (chat_event_response uid space msgs (Some c) limit kinds) \<noteq> [])"
proof -
  from reading_inv [OF assms] have inv: "room_ok uid space msgs" "rising seen" "behind c seen" "behind c missed"
    and all: "mset (unread uid space kinds c0 msgs) = mset (seen @ unread uid space kinds c msgs @ missed)"
    by (auto simp: union_ac)
  have "sorted_wrt str_less (map v_cursor (unread uid space kinds c0 msgs))"
    using rising_unread [OF inv(1)] by (simp add: rising_def sorted_wrt_map)
  then have "distinct (map v_cursor (unread uid space kinds c0 msgs))" by (rule sorted_less_distinct)
  then have "distinct (map v_cursor (seen @ unread uid space kinds c msgs @ missed))"
    using all by (metis mset_eq_imp_distinct_iff mset_map)
  moreover have "rising (seen @ unread uid space kinds c msgs)"
    using inv unread_mem by (intro rising_join [where c = c]) (auto simp: rising_unread)
  moreover have "unread uid space kinds c msgs \<noteq> [] \<longrightarrow>
      d_items (chat_event_response uid space msgs (Some c) limit kinds) \<noteq> []"
    using poll_page [OF inv(1) assms(3), of c kinds] assms(3) by (auto simp: Let_def)
  ultimately show ?thesis using all inv(4) in_order_none_missed [OF assms] by blast
qed

definition feed_uid :: "id \<Rightarrow> string" where
  "feed_uid k = dec k"

definition feed_msg :: "id \<Rightarrow> string \<Rightarrow> instant \<Rightarrow> chat_message" where
  "feed_msg k kind t =
     \<lparr>m_id = k, m_thread = 0, m_conv = None, m_actor = ''ann'', m_kind = kind, m_to = None, m_many = None,
      m_replies_to = None, m_body = Text ''hi'', m_v2 = None, m_created = t\<rparr>"

theorem feed_exactly_once_witness:
  "\<exists>c seen missed.
     reading feed_uid 0 [] 1 [] [feed_msg 2 ''claim'' 5] [feed_msg 2 ''claim'' 5, feed_msg 1 ''claim'' 5] c seen missed
     \<and> mset (unread feed_uid 0 [] [] [feed_msg 2 ''claim'' 5, feed_msg 1 ''claim'' 5])
       = mset (seen @ unread feed_uid 0 [] c [feed_msg 2 ''claim'' 5, feed_msg 1 ''claim'' 5] @ missed)
     \<and> length seen = 1 \<and> length missed = 1"
proof -
  define d where "d = chat_event_response feed_uid 0 [feed_msg 2 ''claim'' 5] (Some []) 1 []"
  define c where "c = msg_cursor feed_uid (feed_msg 2 ''claim'' 5)"
  let ?missed = "late feed_uid 0 [] [] c (feed_msg 1 ''claim'' 5)"
  have "reading feed_uid 0 [] 1 [] [feed_msg 2 ''claim'' 5] [feed_msg 2 ''claim'' 5] c ([] @ d_items d) []"
    by (rule reading.poll [OF reading.start], simp add: d_def)
       (simp add: d_def c_def feed_msg_def chat_event_response_def paginate_event_envelopes_def of_kinds_def
         room_envelopes_def make_message_envelope_def msg_cursor_def encode_event_cursor_def py_take_def)
  moreover have "feed_uid 1 \<noteq> feed_uid 2" by code_simp
  ultimately have "reading feed_uid 0 [] 1 [] [feed_msg 2 ''claim'' 5] ([feed_msg 2 ''claim'' 5] @ [feed_msg 1 ''claim'' 5]) c
      ([] @ d_items d) ([] @ ?missed)"
    by (intro reading.publish) (simp_all add: feed_msg_def m_pos_def micros_ok_def)
  then have r: "reading feed_uid 0 [] 1 [] [feed_msg 2 ''claim'' 5] [feed_msg 2 ''claim'' 5, feed_msg 1 ''claim'' 5] c
      (d_items d) ?missed"
    by simp
  have ok: "room_ok feed_uid 0 [feed_msg 2 ''claim'' 5]" by (simp add: room_ok_def feed_msg_def micros_ok_def)
  have "length (d_items d) = 1" "length ?missed = 1" unfolding d_def c_def by code_simp+
  with feed_exactly_once [OF r ok] r show ?thesis by auto
qed

text \<open>
  How a message is missed: stored later with the same time and a smaller id, it is behind the cursor
  of a reader who has read the first one.
\<close>

lemma late_message_skipped:
  "unread feed_uid 0 [] (msg_cursor feed_uid (feed_msg 2 ''claim'' 5)) [feed_msg 2 ''claim'' 5, feed_msg 1 ''claim'' 5] = []"
proof -
  have "msg_cursor feed_uid (feed_msg 1 ''claim'' 5) = ''00000000000000000005:1''"
    "msg_cursor feed_uid (feed_msg 2 ''claim'' 5) = ''00000000000000000005:2''" by code_simp+
  then show ?thesis
    by (auto simp: unread_def of_kinds_def room_envelopes_def filter_empty_conv make_message_envelope_def msg_cursor_def)
qed

text \<open>
  A first page says there is more when older messages were left out, yet reading on from its cursor
  gives nothing: \<open>has_more\<close> points backwards there.
\<close>

lemma snapshot_has_more:
  "let d = chat_event_response feed_uid 0 [feed_msg 1 ''claim'' 5, feed_msg 2 ''claim'' 6] None 1 [] in
     d_more d \<and> d_items (chat_event_response feed_uid 0 [feed_msg 1 ''claim'' 5, feed_msg 2 ''claim'' 6] (d_next d) 1 []) = []"
  by code_simp

end
