(* ===== verification/Digest.thy ===== *)
theory Digest
  imports Feed
begin

text \<open>
  The digest behavior, \<open>behaviors/digest/service.py\<close>: the summary card that a close attaches to its
  operation, and the rollup of the operations of a space that closed in a window of time. The text
  of a key, of an instant, of a JSON value and the two encodings of the card are the library \<open>lib\<close>
  that the functions take: \<open>l_iso\<close> is \<open>datetime.isoformat\<close>, \<open>l_dumps\<close> is \<open>json.dumps\<close>, \<open>l_sorted\<close>
  is \<open>json.dumps\<close> with sorted keys as UTF-8 bytes, \<open>l_b64\<close> and \<open>l_sha256\<close> encode such bytes,
  and \<open>l_str\<close>, \<open>l_int\<close> are Python's \<open>str(v)\<close> and \<open>int(v)\<close> of a value that is neither text nor integer.
\<close>

record lib =
  l_uid :: "id \<Rightarrow> string"
  l_iso :: "instant \<Rightarrow> string"
  l_dumps :: "json \<Rightarrow> string"
  l_sorted :: "json \<Rightarrow> string"
  l_b64 :: "string \<Rightarrow> string"
  l_sha256 :: "string \<Rightarrow> string"
  l_str :: "json \<Rightarrow> string"
  l_int :: "json \<Rightarrow> int option"

abbreviation jkey :: "lib \<Rightarrow> id \<Rightarrow> json" where "jkey L k \<equiv> JStr (l_uid L k)"
abbreviation jtime :: "lib \<Rightarrow> instant \<Rightarrow> json" where "jtime L t \<equiv> JStr (l_iso L t)"

definition jopt :: "('a \<Rightarrow> json) \<Rightarrow> 'a option \<Rightarrow> json" where
  "jopt f v = (case v of None \<Rightarrow> JNull | Some x \<Rightarrow> f x)"

text \<open>\<open>int(delta.total_seconds())\<close> cuts toward zero.\<close>

definition whole_seconds :: "int \<Rightarrow> int" where
  "whole_seconds d = (if 0 \<le> d then d div 1000000 else - ((- d) div 1000000))"

section \<open>The summary card\<close>

text \<open>The \<open>text\<close> entry of a payload; a system event stores its dumped payload there.\<close>

definition payload_text :: "lib \<Rightarrow> event \<Rightarrow> string" where
  "payload_text L ev =
     (if has_key (e_payload ev) ''text''
      then (case obj_get (e_payload ev) ''text'' of JStr s \<Rightarrow> s | v \<Rightarrow> l_dumps L v) else [])"

definition text_preview :: "lib \<Rightarrow> event \<Rightarrow> string" where
  "text_preview L ev = take 200 (payload_text L ev)"

record tally =
  y_speech :: int
  y_evidence :: int
  y_whispers :: int
  y_lifecycle :: int
  y_question :: "string option"
  y_addressed :: "json option"

definition no_tally :: tally where
  "no_tally = \<lparr>y_speech = 0, y_evidence = 0, y_whispers = 0, y_lifecycle = 0, y_question = None,
               y_addressed = None\<rparr>"

definition addressed_card :: "lib \<Rightarrow> event \<Rightarrow> json" where
  "addressed_card L ev = JObj
     [(''seq'', JInt (e_seq ev)), (''kind'', JStr (e_kind ev)), (''actor_id'', jkey L (e_actor ev)),
      (''addressed_to_actor_ids'', JArr (map (jkey L) (e_addressed ev))),
      (''text_preview'', JStr (text_preview L ev))]"

text \<open>One turn of the loop over the events.\<close>

definition tally_event :: "lib \<Rightarrow> event \<Rightarrow> tally \<Rightarrow> tally" where
  "tally_event L ev y =
     (let y1 =
        (if prefix ''chat.speech.'' (e_kind ev) then
           y\<lparr>y_speech := y_speech y + 1,
             y_question := (if e_kind ev = ''chat.speech.question'' \<and> y_question y = None
                            then Some (text_preview L ev) else y_question y),
             y_addressed := (if e_addressed ev \<noteq> [] then Some (addressed_card L ev) else y_addressed y)\<rparr>
         else if e_kind ev = ''chat.task.evidence'' then y\<lparr>y_evidence := y_evidence y + 1\<rparr>
         else if prefix ''chat.conversation.'' (e_kind ev) \<or> prefix ''chat.task.'' (e_kind ev)
         then y\<lparr>y_lifecycle := y_lifecycle y + 1\<rparr>
         else y)
      in if e_private ev \<noteq> None then y1\<lparr>y_whispers := y_whispers y1 + 1\<rparr> else y1)"

definition build_summary :: "lib \<Rightarrow> operation \<Rightarrow> v2db \<Rightarrow> obj" where
  "build_summary L op db =
     (let evs = list_events (o_id op) None [] 1000 db;
          y = fold (tally_event L) evs no_tally
      in [(''operation_id'', jkey L (o_id op)), (''space_id'', JStr (o_space op)),
          (''kind'', JStr (o_kind op)), (''title'', JStr (o_title op)), (''intent'', jopt JStr (o_intent op)),
          (''resolution'', jopt JStr (o_resolution op)),
          (''resolution_summary'', jopt JStr (o_summary op)),
          (''closed_by_actor_id'', jopt (jkey L) (o_closed_by op)),
          (''opened_at'', jtime L (o_created op)), (''closed_at'', jopt (jtime L) (o_closed_at op)),
          (''duration_seconds'', jopt (\<lambda>t. JInt (whole_seconds (t - o_created op))) (o_closed_at op)),
          (''participants'', JArr (map (\<lambda>p. JObj [(''actor_id'', jkey L (p_actor p)), (''role'', JStr (p_role p))])
             (list_participants (o_id op) db))),
          (''totals'', JObj
             [(''events'', JInt (int (length evs))), (''speech'', JInt (y_speech y)),
              (''evidence'', JInt (y_evidence y)), (''lifecycle'', JInt (y_lifecycle y)),
              (''whispers'', JInt (y_whispers y)),
              (''artifacts'', JInt (int (length (list_artifacts_for_operation (o_id op) None db))))]),
          (''opening_question'', jopt JStr (y_question y)),
          (''last_addressed_speech'', jopt (\<lambda>v. v) (y_addressed y))])"

definition record_close ::
  "lib \<Rightarrow> id option \<Rightarrow> id option \<Rightarrow> v2db \<Rightarrow> db_error + id option \<times> v2db" where
  "record_close L v2_op close_event db =
     (case (v2_op, close_event) of
        (Some k, Some ev) \<Rightarrow>
          (case get_operation k db of
             None \<Rightarrow> Inr (None, db)
           | Some op \<Rightarrow>
               (if o_state op \<noteq> STATE_CLOSED then Inr (None, db)
                else let card = build_summary L op db; bytes = l_sorted L (JObj card)
                  in bindE (insert_artifact k ev ''summary'' (''data:application/json;base64,'' @ l_b64 L bytes)
                         (l_sha256 L bytes) ''application/json'' (int (length bytes))
                         (Some (''digest:'' @ o_kind op @ '':''
                           @ (case o_resolution op of None \<Rightarrow> ''closed'' | Some r \<Rightarrow> if r = [] then ''closed'' else r)))
                         card db)
                       (\<lambda>(row, db1). Inr (Some (r_id row), db1))))
      | _ \<Rightarrow> Inr (None, db))"

section \<open>Rollups\<close>

definition closed_within :: "instant \<Rightarrow> instant \<Rightarrow> operation \<Rightarrow> bool" where
  "closed_within since until op \<longleftrightarrow>
     o_state op = STATE_CLOSED
     \<and> (case o_closed_at op of None \<Rightarrow> False | Some t \<Rightarrow> since \<le> t \<and> t < until)"

record rollup_item =
  i_op :: id
  i_kind :: string
  i_title :: string
  i_resolution :: "string option"
  i_duration :: "int option"
  i_closed :: "instant option"

record rollup =
  u_roll_space :: string
  u_since :: instant
  u_until :: instant
  u_total :: nat
  u_by_kind :: "(string \<times> nat) list"
  u_by_resolution :: "(string \<times> nat) list"
  u_items :: "rollup_item list"

text \<open>\<open>counts[k] = counts.get(k, 0) + 1\<close>.\<close>

definition count_up :: "'k \<Rightarrow> ('k \<times> nat) list \<Rightarrow> ('k \<times> nat) list" where
  "count_up k counts = AList.update k (Suc (case map_of counts k of None \<Rightarrow> 0 | Some n \<Rightarrow> n)) counts"

definition resolution_name :: "operation \<Rightarrow> string" where
  "resolution_name op = (case o_resolution op of None \<Rightarrow> ''<unresolved>'' | Some r \<Rightarrow> if r = [] then ''<unresolved>'' else r)"

definition compose_space_rollup :: "string \<Rightarrow> instant \<Rightarrow> instant \<Rightarrow> v2db \<Rightarrow> rollup" where
  "compose_space_rollup space since until db =
     (let ops = select_asc (\<lambda>op. case o_closed_at op of None \<Rightarrow> 0 | Some t \<Rightarrow> t)
                  (\<lambda>op. o_space op = space \<and> closed_within since until op) (operations db)
      in \<lparr>u_roll_space = space, u_since = since, u_until = until, u_total = length ops,
          u_by_kind = fold (\<lambda>op. count_up (o_kind op)) ops [],
          u_by_resolution = fold (\<lambda>op. count_up (resolution_name op)) ops [],
          u_items = map (\<lambda>op. \<lparr>i_op = o_id op, i_kind = o_kind op, i_title = o_title op,
              i_resolution = o_resolution op,
              i_duration = map_option (\<lambda>t. whole_seconds (t - o_created op)) (o_closed_at op),
              i_closed = o_closed_at op\<rparr>) ops\<rparr>)"

text \<open>\<open>render_rollup_markdown\<close>: the lines of the post.\<close>

definition dec_int :: "int \<Rightarrow> string" where
  "dec_int n = (if n < 0 then CHR ''-'' # dec (nat (- n)) else dec (nat n))"

definition tally_text :: "(string \<times> nat) list \<Rightarrow> string" where
  "tally_text counts =
     (let parts = map (\<lambda>(k, n). k @ ''='' @ dec n) (sort_key (\<lambda>(k, n). Position 0 k) counts)
      in concat (case parts of [] \<Rightarrow> [] | p # ps \<Rightarrow> p # map (\<lambda>q. '', '' @ q) ps))"

definition item_line :: "rollup_item \<Rightarrow> string" where
  "item_line i = ''- ['' @ i_kind i @ ''] '' @ i_title i @ '' -> ''
     @ (case i_resolution i of None \<Rightarrow> ''None'' | Some r \<Rightarrow> r) @ '' (''
     @ (case i_duration i of None \<Rightarrow> ''?'' | Some d \<Rightarrow> dec_int d @ ''s'') @ '')''"

definition render_rollup_markdown :: "(instant \<Rightarrow> string) \<Rightarrow> rollup \<Rightarrow> string" where
  "render_rollup_markdown show_at r = join_with (char_of (10::nat))
     ([''### Daily digest -- '' @ show_at (u_since r) @ '' to '' @ show_at (u_until r),
       ''closed: **'' @ dec (u_total r) @ ''** operation(s)'']
      @ (if u_by_kind r = [] then [] else [''by kind: '' @ tally_text (u_by_kind r)])
      @ (if u_by_resolution r = [] then [] else [''by resolution: '' @ tally_text (u_by_resolution r)])
      @ (if u_items r = [] then [] else [] # map item_line (u_items r)))"

section \<open>What a card counts\<close>

lemma tally_counts:
  "y_speech (fold (tally_event L) evs y) = y_speech y + int (length (filter (\<lambda>e. prefix ''chat.speech.'' (e_kind e)) evs))"
  "y_whispers (fold (tally_event L) evs y) = y_whispers y + int (length (filter (\<lambda>e. e_private e \<noteq> None) evs))"
  "y_evidence (fold (tally_event L) evs y) = y_evidence y + int (length (filter (\<lambda>e. e_kind e = ''chat.task.evidence'') evs))"
proof (induction evs arbitrary: y)
  case (Cons e evs)
  {
    case 1
    show ?case using Cons.IH(1) by (simp add: tally_event_def Let_def)
  next
    case 2
    show ?case using Cons.IH(2) by (simp add: tally_event_def Let_def)
  next
    case 3
    have "\<not> prefix ''chat.speech.'' ''chat.task.evidence''" by simp
    then show ?case using Cons.IH(3) by (auto simp: tally_event_def Let_def simp del: Cons_prefix_Cons)
  }
qed simp_all

text \<open>Attaching the card writes one artifact row and nothing else.\<close>

lemma record_close_frame:
  assumes "record_close L k ev db = Inr (r, db')"
  shows "operations db' = operations db \<and> events db' = events db \<and> actors db' = actors db
    \<and> participants db' = participants db \<and> tokens db' = tokens db"
  using assms
  by (auto simp: record_close_def insert_artifact_def bindE_Inr_iff Let_def split: option.splits if_splits)

lemma record_close_ok:
  assumes "db_ok db" "record_close L k ev db = Inr (r, db')"
  shows "db_ok db'"
  using assms
  by (auto simp: record_close_def bindE_Inr_iff Let_def intro: insert_artifact_ok split: option.splits if_splits)

lemma record_close_total:
  assumes "\<And>e. ev = Some e \<Longrightarrow> get_event e db \<noteq> None"
  shows "\<exists>r db'. record_close L k ev db = Inr (r, db')"
  using assms
  by (auto simp: record_close_def insert_artifact_def Let_def split: option.splits)

section \<open>What a rollup counts\<close>

lemma sum_count_up: "sum_list (map snd (count_up k counts)) = Suc (sum_list (map snd counts))"
proof (induction counts)
  case (Cons kv counts)
  obtain k' n where "kv = (k', n)" by force
  with Cons show ?case by (cases "k' = k") (auto simp: count_up_def)
qed (simp add: count_up_def)

lemma sum_counts:
  "sum_list (map snd (fold (\<lambda>x. count_up (f x)) xs counts)) = length xs + sum_list (map snd counts)"
  by (induction xs arbitrary: counts) (simp_all add: sum_count_up)

lemma rollup_sums:
  "sum_list (map snd (u_by_kind (compose_space_rollup sp a b db))) = u_total (compose_space_rollup sp a b db)"
  "sum_list (map snd (u_by_resolution (compose_space_rollup sp a b db))) = u_total (compose_space_rollup sp a b db)"
  by (simp_all add: compose_space_rollup_def Let_def sum_counts)

lemma rollup_items:
  "set (map i_op (u_items (compose_space_rollup sp a b db))) =
     o_id ` {op \<in> set (operations db). o_space op = sp \<and> closed_within a b op}"
  by (simp add: compose_space_rollup_def Let_def image_image)

end
