(* ===== verification/Broker.thy ===== *)
theory Broker
  imports Feed
begin

text \<open>
  \<open>kernel/subscriptions.py\<close>: the in-process broker that hands published envelopes to the queues of
  live subscriptions, and the fan-out of protocol v2 events to the inboxes of the participants
  (\<open>_publish_v2_inbox_fanout\<close> of \<open>conversation_service.py\<close>). The broker's dict of dicts of
  subscriptions is one list in insertion order, a subscription carrying its space.
\<close>

section \<open>State\<close>

record subscription =
  u_id :: nat
  u_space :: string
  u_kinds :: "string list"
  u_subscriber :: "string option"
  u_queue :: "envelope list"
  u_after :: "string option"
  u_latest :: "string option"

record broker =
  b_ttl :: int
  b_limit :: nat
  b_subs :: "subscription list"
  b_backlog :: "(string \<times> envelope list) list"
  b_presence :: "((string \<times> string) \<times> (instant \<times> instant)) list"
  b_next :: nat

section \<open>Operations\<close>

definition broker_touch :: "instant \<Rightarrow> string option \<Rightarrow> string \<Rightarrow> broker \<Rightarrow> broker" where
  "broker_touch now subscriber space b =
     (case subscriber of
        None \<Rightarrow> b
      | Some s \<Rightarrow>
          (if s = [] then b
           else b\<lparr>b_presence := AList.update (space, s) (now, now + seconds (b_ttl b)) (b_presence b)\<rparr>))"

text \<open>\<open>deque(maxlen)\<close>: the oldest member falls out.\<close>

definition push_bounded :: "nat \<Rightarrow> 'a list \<Rightarrow> 'a \<Rightarrow> 'a list" where
  "push_bounded limit xs x = (let ys = xs @ [x] in drop (length ys - limit) ys)"

definition backlog_of :: "string \<Rightarrow> broker \<Rightarrow> envelope list" where
  "backlog_of space b = (case map_of (b_backlog b) space of None \<Rightarrow> [] | Some xs \<Rightarrow> xs)"

definition wants :: "string \<Rightarrow> envelope \<Rightarrow> subscription \<Rightarrow> bool" where
  "wants space item s \<longleftrightarrow> u_space s = space \<and> (u_kinds s = [] \<or> v_kind item \<in> set (u_kinds s))"

definition broker_publish :: "instant \<Rightarrow> string \<Rightarrow> envelope \<Rightarrow> broker \<Rightarrow> broker" where
  "broker_publish now space item b =
     (let listeners = filter (wants space item) (b_subs b);
          b1 = b\<lparr>b_backlog := AList.update space (push_bounded (b_limit b) (backlog_of space b) item) (b_backlog b),
                 b_subs := map (\<lambda>s. if wants space item s then s\<lparr>u_queue := u_queue s @ [item]\<rparr> else s) (b_subs b)\<rparr>
      in fold (\<lambda>s. broker_touch now (u_subscriber s) space) listeners b1)"

definition broker_subscribe ::
  "instant \<Rightarrow> string \<Rightarrow> string option \<Rightarrow> string list \<Rightarrow> string option \<Rightarrow> broker \<Rightarrow> subscription \<times> broker" where
  "broker_subscribe now space after_cursor kinds subscriber b =
     (let backlog = backlog_of space b;
          s = \<lparr>u_id = b_next b, u_space = space, u_kinds = kinds, u_subscriber = subscriber, u_queue = [],
               u_after = after_cursor,
               u_latest = (if backlog = [] then None else Some (v_cursor (last backlog)))\<rparr>
      in (s, broker_touch now subscriber space (b\<lparr>b_subs := b_subs b @ [s], b_next := Suc (b_next b)\<rparr>)))"

definition broker_unsubscribe :: "nat \<Rightarrow> broker \<Rightarrow> broker" where
  "broker_unsubscribe k b = b\<lparr>b_subs := filter (\<lambda>s. u_id s \<noteq> k) (b_subs b)\<rparr>"

text \<open>A wait on an empty queue that times out returns \<open>None\<close>; the presence is renewed before the wait.\<close>

definition next_event :: "instant \<Rightarrow> nat \<Rightarrow> broker \<Rightarrow> envelope option \<times> broker" where
  "next_event now k b =
     (case row_get u_id k (b_subs b) of
        None \<Rightarrow> (None, b)
      | Some s \<Rightarrow>
          let b1 = broker_touch now (u_subscriber s) (u_space s) b
          in case u_queue s of
               [] \<Rightarrow> (None, b1)
             | item # rest \<Rightarrow>
                 (Some item,
                  broker_touch now (u_subscriber s) (u_space s)
                    (b1\<lparr>b_subs := row_upd u_id k (\<lambda>x. x\<lparr>u_queue := rest\<rparr>) (b_subs b1)\<rparr>)))"

definition broker_list_presence ::
  "instant \<Rightarrow> string \<Rightarrow> broker \<Rightarrow> ((string \<times> string) \<times> (instant \<times> instant)) list \<times> broker" where
  "broker_list_presence now space b =
     (let live = filter (\<lambda>(k, (seen, expires)). now < expires) (b_presence b)
      in (sort_key (\<lambda>((sp, u), _). Position 0 u) (filter (\<lambda>((sp, u), _). sp = space) live),
          b\<lparr>b_presence := live\<rparr>))"

section \<open>The inbox fan-out\<close>

definition inbox_space :: "(id \<Rightarrow> string) \<Rightarrow> id \<Rightarrow> string" where
  "inbox_space uid a = ''v2:inbox:'' @ uid a"

definition json_ids :: "(id \<Rightarrow> string) \<Rightarrow> id list \<Rightarrow> json" where
  "json_ids uid ids = JArr (map (\<lambda>k. JStr (uid k)) ids)"

definition inbox_wrapped :: "(id \<Rightarrow> string) \<Rightarrow> id \<Rightarrow> event \<Rightarrow> json" where
  "inbox_wrapped uid op ev = JObj
     [(''operation_id'', JStr (uid op)), (''seq'', JInt (e_seq ev)), (''payload'', JObj (e_payload ev)),
      (''addressed_to_actor_ids'', json_ids uid (e_addressed ev)),
      (''private_to_actor_ids'', case e_private ev of None \<Rightarrow> JNull | Some ids \<Rightarrow> json_ids uid ids),
      (''replies_to_event_id'', case e_replies_to ev of None \<Rightarrow> JNull | Some k \<Rightarrow> JStr (uid k)),
      (''expected_response'', case event_expected_response ev of None \<Rightarrow> JNull | Some ex \<Rightarrow> JObj ex)]"

definition inbox_envelope :: "(id \<Rightarrow> string) \<Rightarrow> id \<Rightarrow> event \<Rightarrow> id \<Rightarrow> envelope" where
  "inbox_envelope uid op ev a =
     \<lparr>v_cursor = encode_event_cursor (e_created ev) (uid (e_id ev)), v_space = inbox_space uid a,
      v_id = uid (e_id ev), v_kind = e_kind ev, v_actor = uid (e_actor ev),
      v_body = Dumped (inbox_wrapped uid op ev), v_created = e_created ev\<rparr>"

text \<open>The participants an event is for, in table order (one entry per role).\<close>

definition inbox_actors :: "id \<Rightarrow> event \<Rightarrow> v2db \<Rightarrow> id list" where
  "inbox_actors op ev db =
     filter (\<lambda>a. case e_private ev of None \<Rightarrow> True | Some ids \<Rightarrow> a \<in> set ids \<or> a = e_actor ev)
       (map p_actor (list_participants op db))"

definition publish_v2_inbox_fanout ::
  "(id \<Rightarrow> string) \<Rightarrow> instant \<Rightarrow> id option \<Rightarrow> id option \<Rightarrow> v2db \<Rightarrow> broker \<Rightarrow> broker" where
  "publish_v2_inbox_fanout uid now op ev_id db b =
     (case (op, ev_id) of
        (Some k, Some e) \<Rightarrow>
          (case get_event e db of
             None \<Rightarrow> b
           | Some ev \<Rightarrow>
               fold (\<lambda>a. broker_publish now (inbox_space uid a) (inbox_envelope uid k ev a))
                 (inbox_actors k ev db) b)
      | _ \<Rightarrow> b)"

section \<open>Queues\<close>

definition sub_get :: "nat \<Rightarrow> broker \<Rightarrow> subscription option" where
  "sub_get k b = row_get u_id k (b_subs b)"

lemma touch_subs [simp]: "b_subs (broker_touch now s sp b) = b_subs b"
  "b_next (broker_touch now s sp b) = b_next b"
  by (simp_all add: broker_touch_def split: option.splits)

lemma fold_touch_subs [simp]:
  "b_subs (fold (\<lambda>s. broker_touch now (u_subscriber s) sp) xs b) = b_subs b"
  "b_next (fold (\<lambda>s. broker_touch now (u_subscriber s) sp) xs b) = b_next b"
  by (induction xs arbitrary: b) simp_all

lemma sub_get_touch [simp]: "sub_get k (broker_touch now s sp b) = sub_get k b"
  by (simp add: sub_get_def)

lemma sub_get_publish:
  "sub_get k (broker_publish now sp item b) =
     map_option (\<lambda>s. if wants sp item s then s\<lparr>u_queue := u_queue s @ [item]\<rparr> else s) (sub_get k b)"
  by (simp add: sub_get_def broker_publish_def Let_def row_get_map)

lemma publish_next [simp]: "b_next (broker_publish now sp item b) = b_next b"
  by (simp add: broker_publish_def Let_def)

text \<open>
  A subscription under watch: what was published to its space since it was opened, and what its
  owner has taken from its queue, while anything else happens at the broker.
\<close>

inductive watching :: "nat \<Rightarrow> string \<Rightarrow> string list \<Rightarrow> broker \<Rightarrow> envelope list \<Rightarrow> envelope list \<Rightarrow> bool" where
  opened: "broker_subscribe now sp after kinds who b = (s, b') \<Longrightarrow> k = u_id s \<Longrightarrow> sub_get k b = None \<Longrightarrow>
     watching k sp kinds b' [] []"
| published: "watching k sp kinds b pub got \<Longrightarrow>
     watching k sp kinds (broker_publish now sp' item b) (if sp' = sp then pub @ [item] else pub) got"
| taken: "watching k sp kinds b pub got \<Longrightarrow> next_event now k b = (Some item, b') \<Longrightarrow>
     watching k sp kinds b' pub (got @ [item])"
| timeout: "watching k sp kinds b pub got \<Longrightarrow> next_event now k b = (None, b') \<Longrightarrow> watching k sp kinds b' pub got"
| other_taken: "watching k sp kinds b pub got \<Longrightarrow> next_event now k' b = (x, b') \<Longrightarrow> k' \<noteq> k \<Longrightarrow>
     watching k sp kinds b' pub got"
| other_opened: "watching k sp kinds b pub got \<Longrightarrow> broker_subscribe now sp' after kinds' who b = (s, b') \<Longrightarrow>
     watching k sp kinds b' pub got"
| other_closed: "watching k sp kinds b pub got \<Longrightarrow> k' \<noteq> k \<Longrightarrow> watching k sp kinds (broker_unsubscribe k' b) pub got"
| looked: "watching k sp kinds b pub got \<Longrightarrow> broker_list_presence now sp' b = (r, b') \<Longrightarrow>
     watching k sp kinds b' pub got"

lemma sub_get_subscribe:
  "broker_subscribe now sp after kinds who b = (s, b') \<Longrightarrow>
     sub_get k b' = (case sub_get k b of None \<Rightarrow> if k = u_id s then Some s else None | Some x \<Rightarrow> Some x)"
  by (auto simp: broker_subscribe_def Let_def sub_get_def row_get_append row_get_Cons split: option.splits)

lemma sub_get_unsubscribe: "k' \<noteq> k \<Longrightarrow> sub_get k (broker_unsubscribe k' b) = sub_get k b"
  using row_get_filter [of u_id k "{k'}" "b_subs b"] by (simp add: sub_get_def broker_unsubscribe_def)

lemma sub_get_next_other:
  assumes "next_event now k b = (x, b')" "j \<noteq> k"
  shows "sub_get j b' = sub_get j b"
proof -
  have "row_get u_id j (row_upd u_id k (\<lambda>s. s\<lparr>u_queue := rest\<rparr>) (b_subs b)) = row_get u_id j (b_subs b)" for rest
    by (rule row_get_upd_other [OF assms(2)]) simp
  with assms(1) show ?thesis
    by (auto simp: next_event_def sub_get_def Let_def split: option.splits list.splits)
qed

lemma sub_get_next_None: "next_event now k b = (None, b') \<Longrightarrow> sub_get j b' = sub_get j b"
  by (auto simp: next_event_def sub_get_def Let_def split: option.splits list.splits)

lemma sub_get_next_Some:
  assumes "next_event now k b = (Some item, b')" "sub_get k b = Some s"
  shows "\<exists>rest. u_queue s = item # rest \<and> sub_get k b' = Some (s\<lparr>u_queue := rest\<rparr>)"
proof -
  have "row_get u_id k (row_upd u_id k (\<lambda>s. s\<lparr>u_queue := rest\<rparr>) (b_subs b)) =
      map_option (\<lambda>s. s\<lparr>u_queue := rest\<rparr>) (row_get u_id k (b_subs b))" for rest
    by (rule row_get_upd_same) simp
  with assms show ?thesis
    by (auto simp: next_event_def sub_get_def Let_def split: list.splits)
qed

lemma watching_inv:
  assumes "watching k sp kinds b pub got"
  shows "\<exists>s. sub_get k b = Some s \<and> u_space s = sp \<and> u_kinds s = kinds
    \<and> got @ u_queue s = filter (\<lambda>v. kinds = [] \<or> v_kind v \<in> set kinds) pub"
  using assms
proof (induction rule: watching.induct)
  case (opened now sp "after" kinds who b s b' k)
  then have "sub_get k b' = Some s" by (simp add: sub_get_subscribe)
  moreover have "u_space s = sp" "u_kinds s = kinds" "u_queue s = []"
    using opened(1) by (auto simp: broker_subscribe_def Let_def)
  ultimately show ?case by simp
next
  case (published k sp kinds b pub got now sp' item)
  then show ?case by (auto simp: sub_get_publish wants_def)
next
  case (taken k sp kinds b pub got now item b')
  then show ?case using sub_get_next_Some by fastforce
next
  case (timeout k sp kinds b pub got now b')
  then show ?case by (simp add: sub_get_next_None)
next
  case (other_taken k sp kinds b pub got now k' x b')
  then show ?case using sub_get_next_other by fastforce
next
  case (other_opened k sp kinds b pub got now sp' "after" kinds' who s b')
  then show ?case using sub_get_subscribe [OF other_opened.hyps(2), of k] by auto
next
  case (other_closed k sp kinds b pub got k')
  then show ?case by (simp add: sub_get_unsubscribe)
next
  case (looked k sp kinds b pub got now sp' r b')
  then have "b_subs b' = b_subs b" by (auto simp: broker_list_presence_def Let_def)
  with looked show ?case by (simp add: sub_get_def)
qed

section \<open>Who gets an event\<close>

lemma backlog_touch [simp]: "b_backlog (broker_touch now s sp b) = b_backlog b" "b_limit (broker_touch now s sp b) = b_limit b"
  by (simp_all add: broker_touch_def split: option.splits)

definition permits :: "event \<Rightarrow> id \<Rightarrow> bool" where
  "permits ev a \<longleftrightarrow> (case e_private ev of None \<Rightarrow> True | Some ids \<Rightarrow> a \<in> set ids \<or> a = e_actor ev)"

lemma inbox_actors_permits: "inbox_actors op ev db = filter (permits ev) (map p_actor (list_participants op db))"
proof -
  have "permits ev = (\<lambda>a. case e_private ev of None \<Rightarrow> True | Some ids \<Rightarrow> a \<in> set ids \<or> a = e_actor ev)"
    by (rule ext) (simp add: permits_def)
  then show ?thesis by (simp only: inbox_actors_def)
qed

lemma inbox_space_inj: "inj uid \<Longrightarrow> inbox_space uid a = inbox_space uid b \<longleftrightarrow> a = b"
  by (auto simp: inbox_space_def dest: injD)

lemma sub_get_fanout:
  assumes "inj uid" "u_space s = inbox_space uid a" "u_kinds s = [] \<or> v_kind (env a) \<in> set (u_kinds s)"
  shows "sub_get k b = Some s \<Longrightarrow>
    sub_get k (fold (\<lambda>x. broker_publish now (inbox_space uid x) (env x)) as b) =
      Some (s\<lparr>u_queue := u_queue s @ replicate (length (filter (\<lambda>x. x = a) as)) (env a)\<rparr>)"
  using assms(2,3)
proof (induction as arbitrary: b s)
  case (Cons x as)
  show ?case
  proof (cases "x = a")
    case True
    with Cons.prems have 1: "sub_get k (broker_publish now (inbox_space uid x) (env x) b) =
        Some (s\<lparr>u_queue := u_queue s @ [env a]\<rparr>)"
      by (simp add: sub_get_publish wants_def)
    with Cons.IH [OF 1] Cons.prems True show ?thesis by simp
  next
    case False
    with Cons.prems assms(1) have 1: "sub_get k (broker_publish now (inbox_space uid x) (env x) b) = Some s"
      by (auto simp: sub_get_publish wants_def inbox_space_inj)
    with Cons.IH [OF 1] Cons.prems False show ?thesis by simp
  qed
qed simp

lemma filter_eq_permits: "filter (\<lambda>x. x = a) (filter P xs) = (if P a then filter (\<lambda>x. x = a) xs else [])"
  by (induction xs) auto

section \<open>Properties\<close>

text \<open>C25: A subscription loses nothing and invents nothing: whatever else happens at the broker, what
  its owner has taken followed by what is in its queue is exactly the sequence of envelopes of its
  kinds published to its space since it was opened.\<close>

theorem broker_fifo:
  assumes "watching k sp kinds b pub got"
  shows "\<exists>s. sub_get k b = Some s \<and> got @ u_queue s = filter (\<lambda>v. kinds = [] \<or> v_kind v \<in> set kinds) pub"
  using watching_inv [OF assms] by blast

definition new_broker :: broker where
  "new_broker = \<lparr>b_ttl = 60, b_limit = 1024, b_subs = [], b_backlog = [], b_presence = [], b_next = 0\<rparr>"

theorem broker_fifo_witness:
  "\<exists>s. sub_get 0 (broker_publish 1 ''room'' (make_message_envelope feed_uid 0 (feed_msg 1 ''claim'' 1))
        (snd (broker_subscribe 0 ''room'' None [] (Some ''ann'') new_broker))) = Some s
     \<and> u_queue s = [make_message_envelope feed_uid 0 (feed_msg 1 ''claim'' 1)]"
proof -
  have "watching 0 ''room'' [] (snd (broker_subscribe 0 ''room'' None [] (Some ''ann'') new_broker)) [] []"
    by (rule watching.opened [of 0 "''room''" None "[]" "Some ''ann''" new_broker])
       (auto simp: broker_subscribe_def new_broker_def Let_def sub_get_def)
  from broker_fifo [OF watching.published [OF this, of 1 "''room''" "make_message_envelope feed_uid 0 (feed_msg 1 ''claim'' 1)"]]
  show ?thesis by auto
qed

text \<open>The inbox fan-out reaches exactly who it should: a subscription to the inbox of an actor gets
  the event once for each role the actor has in the operation when the event is public or the actor
  is a recipient or the speaker, and nothing otherwise; so whispers stay private.\<close>

theorem fanout_exact:
  assumes "get_event e db = Some ev" "inj uid" "sub_get k b = Some s" "u_space s = inbox_space uid a" "u_kinds s = []"
  shows "sub_get k (publish_v2_inbox_fanout uid now (Some op) (Some e) db b) =
    Some (s\<lparr>u_queue := u_queue s @
      replicate (if permits ev a then length (filter (\<lambda>p. p_actor p = a) (list_participants op db)) else 0)
        (inbox_envelope uid op ev a)\<rparr>)"
proof -
  have "sub_get k (publish_v2_inbox_fanout uid now (Some op) (Some e) db b) =
    Some (s\<lparr>u_queue := u_queue s @
      replicate (length (filter (\<lambda>x. x = a) (inbox_actors op ev db))) (inbox_envelope uid op ev a)\<rparr>)"
    using assms by (simp add: publish_v2_inbox_fanout_def sub_get_fanout)
  also have "length (filter (\<lambda>x. x = a) (inbox_actors op ev db)) =
      (if permits ev a then length (filter (\<lambda>p. p_actor p = a) (list_participants op db)) else 0)"
    unfolding inbox_actors_permits filter_eq_permits by (simp add: filter_map comp_def)
  finally show ?thesis .
qed

definition whisper_db :: v2db where
  "whisper_db = empty_db\<lparr>
     events := [\<lparr>e_id = 9, e_op = 5, e_actor = 0, e_seq = 1, e_kind = ''chat.speech.claim'', e_payload = [],
                 e_addressed = [], e_replies_to = None, e_private = Some [1], e_created = 0\<rparr>],
     participants := [\<lparr>p_op = 5, p_actor = 0, p_role = ''opener'', p_joined = 0, p_seen_seq = 0\<rparr>,
                      \<lparr>p_op = 5, p_actor = 1, p_role = ''addressed'', p_joined = 0, p_seen_seq = 0\<rparr>,
                      \<lparr>p_op = 5, p_actor = 2, p_role = ''addressed'', p_joined = 0, p_seen_seq = 0\<rparr>]\<rparr>"

theorem fanout_exact_witness:
  "let (s1, b1) = broker_subscribe 0 (inbox_space feed_uid 1) None [] None new_broker;
       (s2, b2) = broker_subscribe 0 (inbox_space feed_uid 2) None [] None b1;
       b = publish_v2_inbox_fanout feed_uid 1 (Some 5) (Some 9) whisper_db b2
   in map_option (length \<circ> u_queue) (sub_get 0 b) = Some 1 \<and> map_option (length \<circ> u_queue) (sub_get 1 b) = Some 0"
proof -
  obtain s1 b1 where 1: "broker_subscribe 0 (inbox_space feed_uid 1) None [] None new_broker = (s1, b1)" by fastforce
  obtain s2 b2 where 2: "broker_subscribe 0 (inbox_space feed_uid 2) None [] None b1 = (s2, b2)" by fastforce
  have inj: "inj feed_uid" unfolding feed_uid_def by (metis injI numval_dec)
  have s: "sub_get 0 b2 = Some s1" "sub_get 1 b2 = Some s2" "u_space s1 = inbox_space feed_uid 1"
    "u_space s2 = inbox_space feed_uid 2" "u_kinds s1 = []" "u_kinds s2 = []" "u_queue s1 = []" "u_queue s2 = []"
    using 1 2 by (auto simp: broker_subscribe_def Let_def new_broker_def sub_get_def row_get_Cons broker_touch_def)
  obtain ev where ev: "get_event 9 whisper_db = Some ev" "e_private ev = Some [1]" "e_actor ev = 0"
    by (simp add: whisper_db_def row_get_Cons)
  have roles: "length (filter (\<lambda>p. p_actor p = 1) (list_participants 5 whisper_db)) = 1"
    by (simp add: whisper_db_def list_participants_def)
  have "sub_get 0 (publish_v2_inbox_fanout feed_uid 1 (Some 5) (Some 9) whisper_db b2) =
      Some (s1\<lparr>u_queue := [inbox_envelope feed_uid 5 ev 1]\<rparr>)"
    using fanout_exact [OF ev(1) inj s(1,3,5), of 1 5] by (simp add: permits_def ev roles [simplified] s)
  moreover have "sub_get 1 (publish_v2_inbox_fanout feed_uid 1 (Some 5) (Some 9) whisper_db b2) = Some (s2\<lparr>u_queue := []\<rparr>)"
    using fanout_exact [OF ev(1) inj s(2,4,6), of 1 5] by (simp add: permits_def ev s)
  ultimately show ?thesis by (simp only: 1 2 Let_def prod.case) simp
qed

end
