(* ===== verification/Presence.thy ===== *)
theory Presence
  imports Lease
begin

text \<open>
  \<open>kernel/presence.py\<close>: who is present in a scope, and exclusive leases on named resources. A
  lease belongs to an actor and is guarded by a token; a row whose lease has run out is marked
  expired when the next claim finds it.
\<close>

section \<open>Rows\<close>

record actor_session =
  s_id :: key
  s_actor :: string
  s_scope_kind :: string
  s_scope_id :: string
  s_status :: string
  s_seen :: instant
  s_expires :: instant
  s_created :: instant

record rlease =
  l_id :: nat
  l_kind :: string
  l_rid :: string
  l_holder :: string
  l_token :: key
  l_claimed :: instant
  l_expires :: instant
  l_status :: string
  l_released :: "instant option"
  l_updated :: instant

record presence =
  p_sessions :: "actor_session list"
  p_leases :: "rlease list"
  p_next :: nat

datatype lease_error =
  LeaseHeldBy string | LeaseNotFound | NotHolder | TokenMismatch | AlreadyReleased | LeaseExpired

text \<open>The field validators of the requests: \<open>max(10, min(value, 3600))\<close>.\<close>

definition clamp_seconds :: "int \<Rightarrow> int" where
  "clamp_seconds v = max 10 (min v 3600)"

section \<open>Sessions\<close>

definition upsert_actor_session ::
  "instant \<Rightarrow> string option \<Rightarrow> string \<Rightarrow> string \<Rightarrow> string \<Rightarrow> string \<Rightarrow> int \<Rightarrow> presence
     \<Rightarrow> actor_session \<times> presence" where
  "upsert_actor_session now session actor scope_kind scope_id status ttl db =
     (let k = key_or session (Gen (p_next db));
          write = (\<lambda>created. \<lparr>s_id = k, s_actor = actor, s_scope_kind = scope_kind,
                     s_scope_id = scope_id, s_status = status, s_seen = now,
                     s_expires = now + seconds (clamp_seconds ttl), s_created = created\<rparr>)
      in case row_get s_id k (p_sessions db) of
           Some row \<Rightarrow> (write (s_created row),
             db\<lparr>p_sessions := row_upd s_id k (\<lambda>_. write (s_created row)) (p_sessions db)\<rparr>)
         | None \<Rightarrow> (write now,
             db\<lparr>p_sessions := p_sessions db @ [write now], p_next := Suc (p_next db)\<rparr>))"

definition list_presence ::
  "instant \<Rightarrow> string \<Rightarrow> string \<Rightarrow> bool \<Rightarrow> presence \<Rightarrow> actor_session list" where
  "list_presence now scope_kind scope_id active_only db =
     filter (\<lambda>r. \<not> active_only \<or> (now < s_expires r \<and> s_status r \<notin> {''closed'', ''expired''}))
       (sort_key (\<lambda>r. - s_seen r)
         (select_desc s_created
            (\<lambda>r. s_scope_kind r = scope_kind \<and> s_scope_id r = scope_id) (p_sessions db)))"

section \<open>Leases\<close>

definition lease_rows :: "string \<Rightarrow> string \<Rightarrow> presence \<Rightarrow> rlease list" where
  "lease_rows kind rid db =
     sort_key (\<lambda>r. - l_claimed r)
       (select_desc l_updated (\<lambda>r. l_kind r = kind \<and> l_rid r = rid) (p_leases db))"

definition current_at :: "instant \<Rightarrow> rlease \<Rightarrow> bool" where
  "current_at now r \<longleftrightarrow> l_released r = None \<and> now < l_expires r \<and> l_status r \<noteq> ''expired''"

definition get_current_lease :: "instant \<Rightarrow> string \<Rightarrow> string \<Rightarrow> presence \<Rightarrow> rlease option" where
  "get_current_lease now kind rid db = List.find (current_at now) (lease_rows kind rid db)"

definition latest_lease :: "string \<Rightarrow> string \<Rightarrow> presence \<Rightarrow> rlease option" where
  "latest_lease kind rid db = (case lease_rows kind rid db of [] \<Rightarrow> None | r # _ \<Rightarrow> Some r)"

definition lease_upd :: "nat \<Rightarrow> (rlease \<Rightarrow> rlease) \<Rightarrow> presence \<Rightarrow> presence" where
  "lease_upd k f db = db\<lparr>p_leases := row_upd l_id k f (p_leases db)\<rparr>"

text \<open>The stale row, if the latest one ran out without a release, is marked expired.\<close>

definition expire_stale :: "instant \<Rightarrow> string \<Rightarrow> string \<Rightarrow> presence \<Rightarrow> presence" where
  "expire_stale now kind rid db =
     (case latest_lease kind rid db of
        None \<Rightarrow> db
      | Some stale \<Rightarrow>
          (if l_released stale = None \<and> l_expires stale \<le> now
           then lease_upd (l_id stale) (\<lambda>r. r\<lparr>l_status := ''expired'', l_updated := now\<rparr>) db
           else db))"

definition claim_resource_lease ::
  "instant \<Rightarrow> string \<Rightarrow> string \<Rightarrow> string \<Rightarrow> key option \<Rightarrow> int \<Rightarrow> string \<Rightarrow> presence
     \<Rightarrow> lease_error + rlease \<times> presence" where
  "claim_resource_lease now kind rid holder token lease_seconds status db =
     (let expires = now + seconds (clamp_seconds lease_seconds)
      in case get_current_lease now kind rid db of
           Some current \<Rightarrow>
             (if l_holder current \<noteq> holder then Inl (LeaseHeldBy (l_holder current))
              else let r' = current\<lparr>l_token := key_pick token (l_token current), l_expires := expires,
                                    l_status := status, l_updated := now\<rparr>
                   in Inr (r', lease_upd (l_id current) (\<lambda>_. r') db))
         | None \<Rightarrow>
             let db1 = expire_stale now kind rid db; k = p_next db1;
                 row = \<lparr>l_id = k, l_kind = kind, l_rid = rid, l_holder = holder,
                        l_token = key_pick token (Gen (Suc k)), l_claimed = now, l_expires = expires,
                        l_status = status, l_released = None, l_updated = now\<rparr>
             in Inr (row, db1\<lparr>p_leases := p_leases db1 @ [row], p_next := Suc (Suc k)\<rparr>))"

definition require_lease :: "nat \<Rightarrow> presence \<Rightarrow> lease_error + rlease" where
  "require_lease k db =
     (case row_get l_id k (p_leases db) of None \<Rightarrow> Inl LeaseNotFound | Some r \<Rightarrow> Inr r)"

definition validate_lease_holder :: "rlease \<Rightarrow> string \<Rightarrow> key \<Rightarrow> lease_error + unit" where
  "validate_lease_holder r holder token =
     (if l_holder r \<noteq> holder then Inl NotHolder
      else if l_token r \<noteq> token then Inl TokenMismatch else Inr ())"

definition heartbeat_resource_lease ::
  "instant \<Rightarrow> nat \<Rightarrow> string \<Rightarrow> key \<Rightarrow> int \<Rightarrow> string option \<Rightarrow> presence
     \<Rightarrow> lease_error + rlease \<times> presence" where
  "heartbeat_resource_lease now k holder token lease_seconds status db =
     bindE (require_lease k db) (\<lambda>r.
     bindE (validate_lease_holder r holder token) (\<lambda>_.
     if l_released r \<noteq> None \<or> l_status r = ''released'' then Inl AlreadyReleased
     else if l_expires r \<le> now then Inl LeaseExpired
     else let r' = r\<lparr>l_expires := now + seconds (clamp_seconds lease_seconds),
                     l_status := (case status of None \<Rightarrow> l_status r
                                  | Some s \<Rightarrow> if s = [] then l_status r else s),
                     l_updated := now\<rparr>
          in Inr (r', lease_upd k (\<lambda>_. r') db)))"

definition release_resource_lease ::
  "instant \<Rightarrow> nat \<Rightarrow> string \<Rightarrow> key \<Rightarrow> string \<Rightarrow> presence \<Rightarrow> lease_error + rlease \<times> presence" where
  "release_resource_lease now k holder token status db =
     bindE (require_lease k db) (\<lambda>r.
     bindE (validate_lease_holder r holder token) (\<lambda>_.
       let r' = r\<lparr>l_status := status, l_released := Some now, l_expires := now, l_updated := now\<rparr>
       in Inr (r', lease_upd k (\<lambda>_. r') db)))"

section \<open>The invariant\<close>

text \<open>
  At time \<open>t\<close>: ids are distinct and below the supply, a row marked expired has in fact run out, and
  no resource has two current leases.
\<close>

definition presence_inv :: "instant \<Rightarrow> presence \<Rightarrow> bool" where
  "presence_inv t db \<longleftrightarrow>
     distinct (map l_id (p_leases db)) \<and> (\<forall>r \<in> set (p_leases db). l_id r < p_next db)
     \<and> (\<forall>r \<in> set (p_leases db). l_status r = ''expired'' \<longrightarrow> l_released r \<noteq> None \<or> l_expires r \<le> t)
     \<and> (\<forall>r1 \<in> set (p_leases db). \<forall>r2 \<in> set (p_leases db).
          l_kind r1 = l_kind r2 \<and> l_rid r1 = l_rid r2 \<and> current_at t r1 \<and> current_at t r2 \<longrightarrow> r1 = r2)"

lemma current_earlier: "current_at now r \<Longrightarrow> t \<le> now \<Longrightarrow> current_at t r"
  by (auto simp: current_at_def)

lemma presence_inv_later:
  assumes "presence_inv t db" "t \<le> now"
  shows "presence_inv now db"
  using assms current_earlier [OF _ assms(2)] unfolding presence_inv_def
  by (meson order.trans)

lemma lease_rows_mem: "r \<in> set (lease_rows kind rid db) \<longleftrightarrow> r \<in> set (p_leases db) \<and> l_kind r = kind \<and> l_rid r = rid"
  by (auto simp: lease_rows_def)

lemma get_current_SomeD:
  "get_current_lease now kind rid db = Some r \<Longrightarrow>
     r \<in> set (p_leases db) \<and> l_kind r = kind \<and> l_rid r = rid \<and> current_at now r"
  unfolding get_current_lease_def by (drule find_SomeD) (simp add: lease_rows_mem)

lemma find_None_iff_all: "List.find P xs = None \<longleftrightarrow> (\<forall>x \<in> set xs. \<not> P x)"
  by (induction xs) auto

lemma get_current_NoneD:
  "get_current_lease now kind rid db = None \<Longrightarrow> r \<in> set (p_leases db) \<Longrightarrow> l_kind r = kind \<Longrightarrow>
     l_rid r = rid \<Longrightarrow> \<not> current_at now r"
  unfolding get_current_lease_def find_None_iff_all by (simp add: lease_rows_mem)

lemma presence_inv_sole:
  "presence_inv t db \<Longrightarrow> r1 \<in> set (p_leases db) \<Longrightarrow> r2 \<in> set (p_leases db) \<Longrightarrow>
     l_kind r1 = l_kind r2 \<Longrightarrow> l_rid r1 = l_rid r2 \<Longrightarrow> current_at t r1 \<Longrightarrow> current_at t r2 \<Longrightarrow> r1 = r2"
  by (simp add: presence_inv_def)

text \<open>Under the invariant the current lease is the one row that is current.\<close>

lemma get_current_iff:
  assumes "presence_inv t db" "t \<le> now"
  shows "get_current_lease now kind rid db = Some r \<longleftrightarrow>
     r \<in> set (p_leases db) \<and> l_kind r = kind \<and> l_rid r = rid \<and> current_at now r"
proof
  assume r: "r \<in> set (p_leases db) \<and> l_kind r = kind \<and> l_rid r = rid \<and> current_at now r"
  then obtain x where x: "get_current_lease now kind rid db = Some x"
    using get_current_NoneD by (cases "get_current_lease now kind rid db") auto
  from get_current_SomeD [OF x] r have "x = r"
    by (intro presence_inv_sole [OF presence_inv_later [OF assms]]) auto
  with x show "get_current_lease now kind rid db = Some r" by simp
qed (rule get_current_SomeD)

lemma lease_same:
  "presence_inv t db \<Longrightarrow> r \<in> set (p_leases db) \<Longrightarrow> x \<in> set (p_leases db) \<Longrightarrow> l_id x = l_id r \<Longrightarrow> x = r"
  by (auto simp: presence_inv_def distinct_map inj_on_def)

lemma lease_upd_mem:
  "x \<in> set (p_leases (lease_upd k (\<lambda>_. r') db)) \<Longrightarrow> x = r' \<or> (x \<in> set (p_leases db) \<and> l_id x \<noteq> k)"
  by (auto simp: lease_upd_def row_upd_def)

text \<open>Rewriting one row keeps the invariant unless it makes the row current.\<close>

lemma lease_upd_inv:
  assumes inv: "presence_inv t db" and r: "r \<in> set (p_leases db)"
    and same: "l_id r' = l_id r" "l_kind r' = l_kind r" "l_rid r' = l_rid r"
    and cur: "current_at t r' \<Longrightarrow> current_at t r"
    and exp: "l_status r' = ''expired'' \<Longrightarrow> l_released r' \<noteq> None \<or> l_expires r' \<le> t"
  shows "presence_inv t (lease_upd (l_id r) (\<lambda>_. r') db)"
proof -
  let ?db = "lease_upd (l_id r) (\<lambda>_. r') db"
  have ids: "map l_id (p_leases ?db) = map l_id (p_leases db)"
    using same(1) unfolding lease_upd_def by (simp add: row_upd_keys)
  have below: "l_id x < p_next ?db" if "x \<in> set (p_leases ?db)" for x
    using lease_upd_mem [OF that] inv r same(1) by (auto simp: presence_inv_def lease_upd_def)
  have marked: "l_released x \<noteq> None \<or> l_expires x \<le> t"
    if "x \<in> set (p_leases ?db)" "l_status x = ''expired''" for x
    using lease_upd_mem [OF that(1)] that(2) inv exp by (auto simp: presence_inv_def)
  have key: "\<exists>y \<in> set (p_leases db). l_id y = l_id x \<and> l_kind y = l_kind x \<and> l_rid y = l_rid x
      \<and> current_at t y \<and> (x = r' \<or> y = x)"
    if "x \<in> set (p_leases ?db)" "current_at t x" for x
    using lease_upd_mem [OF that(1)] that(2) r same cur by auto
  have sole: "x1 = x2"
    if "x1 \<in> set (p_leases ?db)" "x2 \<in> set (p_leases ?db)" "l_kind x1 = l_kind x2" "l_rid x1 = l_rid x2"
      "current_at t x1" "current_at t x2" for x1 x2
  proof -
    from key [OF that(1,5)] key [OF that(2,6)] obtain y1 y2 where
      y: "y1 \<in> set (p_leases db)" "y2 \<in> set (p_leases db)" "l_id y1 = l_id x1" "l_id y2 = l_id x2"
        "l_kind y1 = l_kind x1" "l_kind y2 = l_kind x2" "l_rid y1 = l_rid x1" "l_rid y2 = l_rid x2"
        "current_at t y1" "current_at t y2"
      by blast
    have "y1 = y2" using y that(3,4) by (intro presence_inv_sole [OF inv]) auto
    then have id: "l_id x1 = l_id x2" using y(3,4) by simp
    show ?thesis
      using lease_upd_mem [OF that(1)] lease_upd_mem [OF that(2)] id lease_same [OF inv]
      by (metis same(1))
  qed
  show ?thesis
    unfolding presence_inv_def using inv ids below marked sole by (auto simp: presence_inv_def)
qed

lemma expire_stale_cases:
  "expire_stale now kind rid db = db \<or>
     (\<exists>r. r \<in> set (p_leases db) \<and> l_kind r = kind \<and> l_rid r = rid \<and> l_released r = None
        \<and> l_expires r \<le> now
        \<and> expire_stale now kind rid db =
            lease_upd (l_id r) (\<lambda>r. r\<lparr>l_status := ''expired'', l_updated := now\<rparr>) db)"
proof (cases "lease_rows kind rid db")
  case (Cons r rs)
  then have "r \<in> set (p_leases db) \<and> l_kind r = kind \<and> l_rid r = rid"
    using lease_rows_mem [of r kind rid db] by simp
  with Cons show ?thesis by (auto simp: expire_stale_def latest_lease_def)
qed (simp add: expire_stale_def latest_lease_def)

lemma lease_upd_const:
  assumes "presence_inv t db" "r \<in> set (p_leases db)"
  shows "lease_upd (l_id r) f db = lease_upd (l_id r) (\<lambda>_. f r) db"
proof -
  have "map (\<lambda>x. if l_id x = l_id r then f x else x) (p_leases db) =
      map (\<lambda>x. if l_id x = l_id r then f r else x) (p_leases db)"
    using lease_same [OF assms(1,2)] by (auto intro!: map_cong)
  then show ?thesis by (simp add: lease_upd_def row_upd_def)
qed

lemma expire_stale_inv:
  assumes "presence_inv now db"
  shows "presence_inv now (expire_stale now kind rid db)"
  using expire_stale_cases [of now kind rid db]
proof (elim disjE exE conjE)
  fix r
  assume r: "r \<in> set (p_leases db)" "l_expires r \<le> now"
    "expire_stale now kind rid db =
       lease_upd (l_id r) (\<lambda>r. r\<lparr>l_status := ''expired'', l_updated := now\<rparr>) db"
  show ?thesis
    unfolding r(3) lease_upd_const [where f = "\<lambda>r. r\<lparr>l_status := ''expired'', l_updated := now\<rparr>", OF assms r(1)]
    using r(2) by (intro lease_upd_inv [OF assms r(1)]) (auto simp: current_at_def)
qed (simp add: assms)

lemma expire_stale_current:
  assumes "presence_inv now db" "current_at now r"
  shows "r \<in> set (p_leases (expire_stale now kind rid db)) \<longleftrightarrow> r \<in> set (p_leases db)"
proof -
  from expire_stale_cases [of now kind rid db]
  consider "expire_stale now kind rid db = db"
    | x where "x \<in> set (p_leases db)" "l_expires x \<le> now"
        "expire_stale now kind rid db =
           lease_upd (l_id x) (\<lambda>r. r\<lparr>l_status := ''expired'', l_updated := now\<rparr>) db"
    by blast
  then show ?thesis
  proof cases
    case 2
    show ?thesis
    proof
      assume "r \<in> set (p_leases (expire_stale now kind rid db))"
      then have "r \<in> set (p_leases (lease_upd (l_id x) (\<lambda>_. x\<lparr>l_status := ''expired'', l_updated := now\<rparr>) db))"
        using 2(3) lease_upd_const [where f = "\<lambda>r. r\<lparr>l_status := ''expired'', l_updated := now\<rparr>", OF assms(1) 2(1)] by simp
      then have "r = x\<lparr>l_status := ''expired'', l_updated := now\<rparr> \<or> r \<in> set (p_leases db)"
        by (auto dest: lease_upd_mem)
      then show "r \<in> set (p_leases db)" using assms(2) by (auto simp: current_at_def)
    next
      assume r: "r \<in> set (p_leases db)"
      have "l_id r \<noteq> l_id x" using lease_same [OF assms(1) 2(1) r] 2(2) assms(2) by (auto simp: current_at_def)
      with r 2(3) show "r \<in> set (p_leases (expire_stale now kind rid db))"
        by (auto simp: lease_upd_def row_upd_def)
    qed
  qed simp
qed

section \<open>Leases as a lease provider\<close>

text \<open>
  What actor \<open>h\<close> does at time \<open>now\<close>. The caller chooses the status text it writes, \<open>expired\<close>
  included, which is also the table's own mark: in a tame act nobody writes it.
\<close>

inductive pr_act :: "instant \<Rightarrow> string \<Rightarrow> presence \<Rightarrow> presence \<Rightarrow> bool" where
  claim: "claim_resource_lease now kind rid h tok secs st db = Inr (r, db') \<Longrightarrow> pr_act now h db db'"
| beat: "heartbeat_resource_lease now k h tok secs st db = Inr (r, db') \<Longrightarrow> pr_act now h db db'"
| release: "release_resource_lease now k h tok st db = Inr (r, db') \<Longrightarrow> pr_act now h db db'"
| session: "pr_act now h db (snd (upsert_actor_session now sid act sk sc st ttl db))"

inductive tame_act :: "instant \<Rightarrow> string \<Rightarrow> presence \<Rightarrow> presence \<Rightarrow> bool" where
  claim: "claim_resource_lease now kind rid h tok secs st db = Inr (r, db') \<Longrightarrow> st \<noteq> ''expired'' \<Longrightarrow>
            tame_act now h db db'"
| beat: "heartbeat_resource_lease now k h tok secs st db = Inr (r, db') \<Longrightarrow> st \<noteq> Some ''expired'' \<Longrightarrow>
            tame_act now h db db'"
| release: "release_resource_lease now k h tok st db = Inr (r, db') \<Longrightarrow> tame_act now h db db'"
| session: "tame_act now h db (snd (upsert_actor_session now sid act sk sc st ttl db))"

definition held_lease :: "string \<times> string \<Rightarrow> string \<Rightarrow> instant \<Rightarrow> presence \<Rightarrow> bool" where
  "held_lease res h e db \<longleftrightarrow>
     (\<exists>r \<in> set (p_leases db). (l_kind r, l_rid r) = res \<and> l_holder r = h \<and> l_expires r = e
        \<and> l_released r = None \<and> l_status r \<noteq> ''expired'')"

lemma held_current: "held_lease res h e db \<Longrightarrow> now < e \<Longrightarrow>
   \<exists>r \<in> set (p_leases db). (l_kind r, l_rid r) = res \<and> l_holder r = h \<and> l_expires r = e \<and> current_at now r"
  by (auto simp: held_lease_def current_at_def)

lemma held_other_row:
  assumes "held_lease res h' e db" "l_holder r \<noteq> h'" "r \<in> set (p_leases db)" "presence_inv t db"
  shows "held_lease res h' e (lease_upd (l_id r) (\<lambda>_. r') db)"
proof -
  obtain x where x: "x \<in> set (p_leases db)" "(l_kind x, l_rid x) = res" "l_holder x = h'"
    "l_expires x = e" "l_released x = None" "l_status x \<noteq> ''expired''"
    using assms(1) by (auto simp: held_lease_def)
  have "l_id x \<noteq> l_id r" using lease_same [OF assms(4,3) x(1)] x(3) assms(2) by auto
  then have "x \<in> set (p_leases (lease_upd (l_id r) (\<lambda>_. r') db))"
    using x(1) by (auto simp: lease_upd_def row_upd_def)
  with x show ?thesis by (auto simp: held_lease_def)
qed

text \<open>A claim either renews the actor's own current row or adds a row for a free resource.\<close>

lemma claim_cases:
  assumes "claim_resource_lease now kind rid h tok secs st db = Inr (r', db')"
  shows "(\<exists>r. get_current_lease now kind rid db = Some r \<and> l_holder r = h
        \<and> r' = r\<lparr>l_token := key_pick tok (l_token r), l_expires := now + seconds (clamp_seconds secs),
                 l_status := st, l_updated := now\<rparr>
        \<and> db' = lease_upd (l_id r) (\<lambda>_. r') db)
    \<or> (get_current_lease now kind rid db = None
        \<and> l_kind r' = kind \<and> l_rid r' = rid \<and> l_holder r' = h \<and> l_released r' = None \<and> l_status r' = st
        \<and> l_expires r' = now + seconds (clamp_seconds secs)
        \<and> (let db1 = expire_stale now kind rid db
           in l_id r' = p_next db1
              \<and> db' = db1\<lparr>p_leases := p_leases db1 @ [r'], p_next := Suc (Suc (p_next db1))\<rparr>))"
  using assms
  by (auto simp: claim_resource_lease_def Let_def split: option.splits if_splits)

lemma add_lease_inv:
  assumes "presence_inv now db" "l_id r = p_next db" "l_status r \<noteq> ''expired''"
    and "\<And>x. x \<in> set (p_leases db) \<Longrightarrow> l_kind x = l_kind r \<Longrightarrow> l_rid x = l_rid r \<Longrightarrow> \<not> current_at now x"
  shows "presence_inv now (db\<lparr>p_leases := p_leases db @ [r], p_next := Suc (Suc (p_next db))\<rparr>)"
proof -
  let ?db = "db\<lparr>p_leases := p_leases db @ [r], p_next := Suc (Suc (p_next db))\<rparr>"
  have sole: "x1 = x2"
    if "x1 \<in> set (p_leases ?db)" "x2 \<in> set (p_leases ?db)" "l_kind x1 = l_kind x2" "l_rid x1 = l_rid x2"
      "current_at now x1" "current_at now x2" for x1 x2
    using that assms(4) presence_inv_sole [OF assms(1), of x1 x2] by auto
  have "distinct (map l_id (p_leases ?db))"
    using assms(1,2) by (fastforce simp: presence_inv_def)
  moreover have "\<forall>x \<in> set (p_leases ?db). l_id x < p_next ?db"
    using assms(1,2) by (fastforce simp: presence_inv_def)
  moreover have "\<forall>x \<in> set (p_leases ?db). l_status x = ''expired'' \<longrightarrow> l_released x \<noteq> None \<or> l_expires x \<le> now"
    using assms(1,3) by (auto simp: presence_inv_def)
  ultimately show ?thesis using sole unfolding presence_inv_def by blast
qed

lemma expire_stale_next: "p_next (expire_stale now kind rid db) = p_next db"
  by (auto simp: expire_stale_def lease_upd_def split: option.splits)

lemma expire_stale_none_current:
  assumes "presence_inv now db" "get_current_lease now kind rid db = None"
    "x \<in> set (p_leases (expire_stale now kind rid db))" "l_kind x = kind" "l_rid x = rid"
  shows "\<not> current_at now x"
  using expire_stale_current [OF assms(1), of x kind rid] get_current_NoneD [OF assms(2)] assms(3-5) by blast

lemma claim_inv:
  assumes "presence_inv now db" "claim_resource_lease now kind rid h tok secs st db = Inr (r', db')"
    "st \<noteq> ''expired''"
  shows "presence_inv now db'"
  using claim_cases [OF assms(2)]
proof (elim disjE exE conjE)
  fix r
  assume r: "get_current_lease now kind rid db = Some r"
    "r' = r\<lparr>l_token := key_pick tok (l_token r), l_expires := now + seconds (clamp_seconds secs),
             l_status := st, l_updated := now\<rparr>"
    "db' = lease_upd (l_id r) (\<lambda>_. r') db"
  show ?thesis
    unfolding r(3) using get_current_SomeD [OF r(1)] r(2) assms(3)
    by (intro lease_upd_inv [OF assms(1)]) auto
next
  assume new: "get_current_lease now kind rid db = None" "l_kind r' = kind" "l_rid r' = rid"
    "l_status r' = st" "let db1 = expire_stale now kind rid db in l_id r' = p_next db1
       \<and> db' = db1\<lparr>p_leases := p_leases db1 @ [r'], p_next := Suc (Suc (p_next db1))\<rparr>"
  then show ?thesis
    using expire_stale_none_current [OF assms(1) new(1)] assms(3)
    by (auto simp: Let_def intro!: add_lease_inv expire_stale_inv [OF assms(1)])
qed

lemma require_lease_Inr:
  "require_lease k db = Inr r \<Longrightarrow> r \<in> set (p_leases db) \<and> l_id r = k"
  by (auto simp: require_lease_def dest: row_get_SomeD split: option.splits)

lemma validate_holder_Inr: "validate_lease_holder r h tok = Inr u \<longleftrightarrow> l_holder r = h \<and> l_token r = tok"
  by (simp add: validate_lease_holder_def)

lemma heartbeat_cases:
  assumes "heartbeat_resource_lease now k h tok secs st db = Inr (r', db')"
  shows "\<exists>r. r \<in> set (p_leases db) \<and> l_id r = k \<and> l_holder r = h \<and> l_token r = tok
    \<and> l_released r = None \<and> now < l_expires r
    \<and> r' = r\<lparr>l_expires := now + seconds (clamp_seconds secs),
             l_status := (case st of None \<Rightarrow> l_status r | Some s \<Rightarrow> if s = [] then l_status r else s),
             l_updated := now\<rparr>
    \<and> db' = lease_upd k (\<lambda>_. r') db"
  using assms
  by (auto simp: heartbeat_resource_lease_def bindE_Inr_iff validate_holder_Inr Let_def
        dest!: require_lease_Inr split: if_splits)

lemma release_cases:
  assumes "release_resource_lease now k h tok st db = Inr (r', db')"
  shows "\<exists>r. r \<in> set (p_leases db) \<and> l_id r = k \<and> l_holder r = h \<and> l_token r = tok
    \<and> r' = r\<lparr>l_status := st, l_released := Some now, l_expires := now, l_updated := now\<rparr>
    \<and> db' = lease_upd k (\<lambda>_. r') db"
  using assms
  by (auto simp: release_resource_lease_def bindE_Inr_iff validate_holder_Inr Let_def
        dest!: require_lease_Inr)

lemma tame_act_inv:
  assumes "tame_act now h db db'" "presence_inv now db"
  shows "presence_inv now db'"
  using assms
proof (induction rule: tame_act.induct)
  case (claim now kind rid h tok secs st db r db')
  then show ?case by (intro claim_inv [OF claim.prems claim.hyps])
next
  case (beat now k h tok secs st db r' db')
  obtain r where r: "r \<in> set (p_leases db)" "l_id r = k" "l_released r = None" "now < l_expires r"
    "r' = r\<lparr>l_expires := now + seconds (clamp_seconds secs),
             l_status := (case st of None \<Rightarrow> l_status r | Some s \<Rightarrow> if s = [] then l_status r else s),
             l_updated := now\<rparr>"
    "db' = lease_upd (l_id r) (\<lambda>_. r') db"
    using heartbeat_cases [OF beat.hyps(1)] by blast
  have "l_status r \<noteq> ''expired''" using beat.prems r(1,3,4) by (auto simp: presence_inv_def)
  then have cur: "current_at now r" "l_status r' \<noteq> ''expired''"
    using r(3-5) beat.hyps(2) by (auto simp: current_at_def split: option.splits)
  then show ?case
    unfolding r(6) using r(5) by (intro lease_upd_inv [OF beat.prems r(1)]) auto
next
  case (release now k h tok st db r' db')
  obtain r where r: "r \<in> set (p_leases db)" "l_id r = k"
    "r' = r\<lparr>l_status := st, l_released := Some now, l_expires := now, l_updated := now\<rparr>"
    "db' = lease_upd (l_id r) (\<lambda>_. r') db"
    using release_cases [OF release.hyps] by blast
  then show ?case by (auto simp: current_at_def intro!: lease_upd_inv [OF release.prems r(1)])
next
  case (session now h db sid act sk sc st ttl)
  then show ?case
    by (auto simp: upsert_actor_session_def Let_def presence_inv_def less_Suc_eq split: option.splits)
qed

lemma tame_act_keeps:
  assumes "tame_act now h db db'" "presence_inv now db" "held_lease res h' e db" "now < e" "h \<noteq> h'"
  shows "held_lease res h' e db'"
  using assms
proof (induction rule: tame_act.induct)
  case (claim now kind rid h tok secs st db r' db')
  obtain x where x: "x \<in> set (p_leases db)" "(l_kind x, l_rid x) = res" "l_holder x = h'" "l_expires x = e"
    "current_at now x"
    using held_current [OF claim.prems(2,3)] by blast
  from claim_cases [OF claim.hyps(1)] show ?case
  proof (elim disjE exE conjE)
    fix r
    assume "get_current_lease now kind rid db = Some r" "l_holder r = h" "db' = lease_upd (l_id r) (\<lambda>_. r') db"
    then show ?thesis using claim.prems get_current_SomeD [of now kind rid db r] held_other_row by blast
  next
    assume "let db1 = expire_stale now kind rid db in l_id r' = p_next db1
       \<and> db' = db1\<lparr>p_leases := p_leases db1 @ [r'], p_next := Suc (Suc (p_next db1))\<rparr>"
    then have "x \<in> set (p_leases db')"
      using x(1) expire_stale_current [OF claim.prems(1) x(5)] by (auto simp: Let_def)
    then show ?thesis using x by (auto simp: held_lease_def current_at_def)
  qed
next
  case (beat now k h tok secs st db r' db')
  then show ?case using heartbeat_cases held_other_row by blast
next
  case (release now k h tok st db r' db')
  then show ?case using release_cases held_other_row by blast
next
  case (session now h db sid act sk sc st ttl)
  then show ?case
    by (auto simp: upsert_actor_session_def Let_def held_lease_def split: option.splits)
qed

interpretation tl: lease_provider held_lease tame_act presence_inv
proof
  fix t now e :: instant and s s' :: presence and h h' :: string and r :: "string \<times> string"
  assume a: "presence_inv t s" "t \<le> now" "tame_act now h s s'" "held_lease r h' e s" "now < e" "h \<noteq> h'"
  show "held_lease r h' e s'"
    by (rule tame_act_keeps [OF a(3) presence_inv_later [OF a(1,2)] a(4-6)])
next
  fix t now :: instant and s s' :: presence and h :: string
  assume a: "presence_inv t s" "t \<le> now" "tame_act now h s s'"
  show "presence_inv now s'" by (rule tame_act_inv [OF a(3) presence_inv_later [OF a(1,2)]])
next
  fix t e1 e2 :: instant and s :: presence and h1 h2 :: string and r :: "string \<times> string"
  assume a: "presence_inv t s" "held_lease r h1 e1 s" "held_lease r h2 e2 s" "t < e1" "t < e2"
  from held_current [OF a(2,4)] held_current [OF a(3,5)] presence_inv_sole [OF a(1)]
  show "h1 = h2" by (metis prod.inject)
qed

section \<open>Leases whatever the status texts\<close>

text \<open>
  Without any rule for the texts the table still keeps its ids and never carries a time ahead of the
  clock. A lease is safe when its own row is not marked expired and every other row of the
  resource was released or had run out when the row was last written: a row that ran out cannot be
  renewed, and nobody adds one while the lease is current.
\<close>

definition ids_ok :: "instant \<Rightarrow> presence \<Rightarrow> bool" where
  "ids_ok t db \<longleftrightarrow> distinct (map l_id (p_leases db))
     \<and> (\<forall>r \<in> set (p_leases db). l_id r < p_next db \<and> l_updated r \<le> t)"

definition live_at :: "instant \<Rightarrow> rlease \<Rightarrow> bool" where
  "live_at now r \<longleftrightarrow> l_released r = None \<and> now < l_expires r"

definition safe_row :: "rlease \<Rightarrow> presence \<Rightarrow> bool" where
  "safe_row x db \<longleftrightarrow> x \<in> set (p_leases db) \<and> l_released x = None \<and> l_status x \<noteq> ''expired''
     \<and> (\<forall>y \<in> set (p_leases db). (l_kind y, l_rid y) = (l_kind x, l_rid x) \<longrightarrow> y = x \<or> \<not> live_at (l_updated x) y)"

definition safe_lease :: "string \<times> string \<Rightarrow> string \<Rightarrow> instant \<Rightarrow> presence \<Rightarrow> bool" where
  "safe_lease res h e db \<longleftrightarrow>
     (\<exists>x. safe_row x db \<and> (l_kind x, l_rid x) = res \<and> l_holder x = h \<and> l_expires x = e)"

text \<open>The rows of a resource that have not run out: at most one, and not marked expired.\<close>

definition one_live :: "instant \<Rightarrow> string \<Rightarrow> string \<Rightarrow> presence \<Rightarrow> bool" where
  "one_live now kind rid db \<longleftrightarrow>
     (\<forall>r1 \<in> set (p_leases db). \<forall>r2 \<in> set (p_leases db).
        (l_kind r1, l_rid r1) = (kind, rid) \<and> (l_kind r2, l_rid r2) = (kind, rid) \<and> live_at now r1 \<and> live_at now r2
        \<longrightarrow> r1 = r2 \<and> l_status r1 \<noteq> ''expired'')"

lemma current_live: "current_at now r \<longleftrightarrow> live_at now r \<and> l_status r \<noteq> ''expired''"
  by (auto simp: current_at_def live_at_def)

lemma live_earlier: "live_at now r \<Longrightarrow> t \<le> now \<Longrightarrow> live_at t r"
  by (auto simp: live_at_def)

lemma ids_ok_later: "ids_ok t db \<Longrightarrow> t \<le> now \<Longrightarrow> ids_ok now db"
  by (force simp: ids_ok_def)

lemma ids_ok_same: "ids_ok t db \<Longrightarrow> r \<in> set (p_leases db) \<Longrightarrow> x \<in> set (p_leases db) \<Longrightarrow> l_id x = l_id r \<Longrightarrow> x = r"
  by (auto simp: ids_ok_def distinct_map inj_on_def)

lemma safe_row_only:
  assumes "safe_row x db" "ids_ok t db" "y \<in> set (p_leases db)" "l_kind y = l_kind x" "l_rid y = l_rid x" "live_at t y"
  shows "y = x"
proof -
  have "l_updated x \<le> t" using assms(1,2) by (auto simp: safe_row_def ids_ok_def)
  with assms show ?thesis by (auto simp: safe_row_def dest: live_earlier)
qed

lemma safe_row_current:
  assumes "safe_row x db" "ids_ok now db" "now < l_expires x"
  shows "get_current_lease now (l_kind x) (l_rid x) db = Some x"
proof -
  have x: "x \<in> set (p_leases db)" "current_at now x" using assms(1,3) by (auto simp: safe_row_def current_at_def)
  then obtain y where y: "get_current_lease now (l_kind x) (l_rid x) db = Some y"
    using get_current_NoneD by (cases "get_current_lease now (l_kind x) (l_rid x) db") auto
  from get_current_SomeD [OF y] have "y = x" using safe_row_only [OF assms(1,2)] by (auto simp: current_live)
  with y show ?thesis by simp
qed

lemma upd_ids_ok:
  assumes "ids_ok t db" "t \<le> now" "\<And>r. l_id (f r) = l_id r" "\<And>r. l_updated (f r) = now"
  shows "ids_ok now (lease_upd k f db)"
  using assms ids_ok_later [OF assms(1,2)]
  by (auto simp: ids_ok_def lease_upd_def row_upd_def comp_def if_distrib cong: if_cong)

text \<open>Rewriting another row keeps a lease safe unless it makes a row of the resource live.\<close>

lemma upd_safe_row:
  assumes "safe_row x db" "k \<noteq> l_id x" "\<And>r. (l_kind (f r), l_rid (f r)) = (l_kind r, l_rid r)"
    and "\<And>r. r \<in> set (p_leases db) \<Longrightarrow> l_id r = k \<Longrightarrow> (l_kind r, l_rid r) = (l_kind x, l_rid x) \<Longrightarrow>
           \<not> live_at (l_updated x) (f r)"
  shows "safe_row x (lease_upd k f db)"
  using assms by (auto simp: safe_row_def lease_upd_def row_upd_def)

lemma add_safe_row:
  assumes "safe_row x db" "(l_kind r, l_rid r) \<noteq> (l_kind x, l_rid x)"
  shows "safe_row x (db\<lparr>p_leases := p_leases db @ [r], p_next := n\<rparr>)"
  using assms by (auto simp: safe_row_def)

lemma expire_stale_upd:
  "expire_stale now kind rid db = db \<or> (\<exists>r. r \<in> set (p_leases db) \<and> l_kind r = kind \<and> l_rid r = rid \<and> l_expires r \<le> now
     \<and> expire_stale now kind rid db = lease_upd (l_id r) (\<lambda>r. r\<lparr>l_status := ''expired'', l_updated := now\<rparr>) db)"
  using expire_stale_cases by blast

lemma expire_stale_ids_ok: "ids_ok now db \<Longrightarrow> ids_ok now (expire_stale now kind rid db)"
  using expire_stale_upd [of now kind rid db] upd_ids_ok [of now db now "\<lambda>r. r\<lparr>l_status := ''expired'', l_updated := now\<rparr>"]
  by auto

lemma expire_stale_live: "r \<in> set (p_leases (expire_stale now kind rid db)) \<Longrightarrow>
    \<exists>y \<in> set (p_leases db). l_kind y = l_kind r \<and> l_rid y = l_rid r \<and> live_at t y = live_at t r"
  using expire_stale_upd [of now kind rid db] unfolding live_at_def
  by (elim disjE exE conjE) (force simp: lease_upd_def row_upd_def)+

lemma expire_stale_safe_row:
  assumes "safe_row x db" "ids_ok now db" "(kind, rid) \<noteq> (l_kind x, l_rid x)"
  shows "safe_row x (expire_stale now kind rid db)"
  using expire_stale_upd [of now kind rid db]
proof (elim disjE exE conjE)
  fix r
  assume r: "r \<in> set (p_leases db)" "l_kind r = kind" "l_rid r = rid"
    "expire_stale now kind rid db = lease_upd (l_id r) (\<lambda>r. r\<lparr>l_status := ''expired'', l_updated := now\<rparr>) db"
  have "l_id r \<noteq> l_id x" using ids_ok_same [OF assms(2), of x r] r assms(1,3) by (auto simp: safe_row_def)
  then show ?thesis
    unfolding r(4) using r(1-3) assms ids_ok_same [OF assms(2) r(1)] by (intro upd_safe_row) auto
qed (simp add: assms(1))

lemma add_ids_ok:
  assumes "ids_ok now db" "l_id r = p_next db" "l_updated r = now"
  shows "ids_ok now (db\<lparr>p_leases := p_leases db @ [r], p_next := Suc (Suc (p_next db))\<rparr>)"
  using assms by (fastforce simp: ids_ok_def)

lemma claim_updated:
  assumes "claim_resource_lease now kind rid h tok secs st db = Inr (r, db')"
  shows "l_updated r = now \<and> l_expires r = now + seconds (clamp_seconds secs) \<and> l_status r = st \<and> l_holder r = h
    \<and> l_kind r = kind \<and> l_rid r = rid"
  using assms get_current_SomeD by (auto simp: claim_resource_lease_def Let_def split: option.splits if_splits)

lemma pr_act_ids:
  assumes "pr_act now h db db'" "ids_ok t db" "t \<le> now"
  shows "ids_ok now db'"
  using assms
proof (induction rule: pr_act.induct)
  case (claim now kind rid h tok secs st db r db')
  note ok = ids_ok_later [OF claim.prems]
  from claim_cases [OF claim.hyps] show ?case
  proof (elim disjE exE conjE)
    fix x
    assume "get_current_lease now kind rid db = Some x" "db' = lease_upd (l_id x) (\<lambda>_. r) db"
      and "r = x\<lparr>l_token := key_pick tok (l_token x), l_expires := now + seconds (clamp_seconds secs),
               l_status := st, l_updated := now\<rparr>"
    then show ?thesis using ok get_current_SomeD [of now kind rid db x]
      by (auto simp: ids_ok_def lease_upd_def row_upd_def comp_def if_distrib cong: if_cong)
  next
    assume "let db1 = expire_stale now kind rid db in l_id r = p_next db1
       \<and> db' = db1\<lparr>p_leases := p_leases db1 @ [r], p_next := Suc (Suc (p_next db1))\<rparr>"
    then show ?thesis
      using add_ids_ok [OF expire_stale_ids_ok [OF ok]] claim_updated [OF claim.hyps] by (auto simp: Let_def)
  qed
next
  case (beat now k h tok secs st db r' db')
  then show ?case using heartbeat_cases [OF beat.hyps] ids_ok_later [OF beat.prems]
    by (auto simp: ids_ok_def lease_upd_def row_upd_def comp_def if_distrib cong: if_cong)
next
  case (release now k h tok st db r' db')
  then show ?case using release_cases [OF release.hyps] ids_ok_later [OF release.prems]
    by (auto simp: ids_ok_def lease_upd_def row_upd_def comp_def if_distrib cong: if_cong)
next
  case (session now h db sid act sk sc st ttl)
  then show ?case using ids_ok_later [OF session.prems]
    by (auto simp: upsert_actor_session_def Let_def ids_ok_def less_Suc_eq split: option.splits)
qed

lemma pr_act_safe:
  assumes "pr_act now h db db'" "ids_ok now db" "safe_row x db" "now < l_expires x" "h \<noteq> l_holder x"
  shows "safe_row x db'"
  using assms
proof (induction rule: pr_act.induct)
  case (claim now kind rid h tok secs st db r db')
  note cur = safe_row_current [OF claim.prems(2,1,3)]
  from claim_cases [OF claim.hyps] show ?case
  proof (elim disjE exE conjE)
    fix y
    assume y: "get_current_lease now kind rid db = Some y" "l_holder y = h" "db' = lease_upd (l_id y) (\<lambda>_. r) db"
      "r = y\<lparr>l_token := key_pick tok (l_token y), l_expires := now + seconds (clamp_seconds secs),
               l_status := st, l_updated := now\<rparr>"
    have res: "(kind, rid) \<noteq> (l_kind x, l_rid x)" using y(1,2) cur claim.prems(4) by auto
    have yin: "y \<in> set (p_leases db)" "l_kind y = kind" "l_rid y = rid" using get_current_SomeD [OF y(1)] by auto
    have "l_id y \<noteq> l_id x" using ids_ok_same [OF claim.prems(1), of x y] yin res claim.prems(2) by (auto simp: safe_row_def)
    then show ?thesis using claim.prems(2) yin res y(4) unfolding y(3)
      by (auto simp: safe_row_def lease_upd_def row_upd_def)
  next
    assume none: "get_current_lease now kind rid db = None"
      and r: "l_kind r = kind" "l_rid r = rid"
      and db': "let db1 = expire_stale now kind rid db in l_id r = p_next db1
       \<and> db' = db1\<lparr>p_leases := p_leases db1 @ [r], p_next := Suc (Suc (p_next db1))\<rparr>"
    have res: "(kind, rid) \<noteq> (l_kind x, l_rid x)" using none cur by auto
    show ?thesis
      using add_safe_row [OF expire_stale_safe_row [OF claim.prems(2,1) res]] r res db' by (auto simp: Let_def)
  qed
next
  case (beat now k h tok secs st db r' db')
  from heartbeat_cases [OF beat.hyps] obtain y where
    y: "y \<in> set (p_leases db)" "l_id y = k" "l_holder y = h" "live_at now y" "db' = lease_upd k (\<lambda>_. r') db"
      "(l_kind r', l_rid r') = (l_kind y, l_rid y)"
    by (auto simp: live_at_def)
  have "y \<noteq> x" using y(3) beat.prems(4) by auto
  then have "(l_kind y, l_rid y) \<noteq> (l_kind x, l_rid x)" "k \<noteq> l_id x"
    using safe_row_only [OF beat.prems(2,1) y(1) _ _ y(4)] ids_ok_same [OF beat.prems(1), of x y] y(1,2) beat.prems(2)
    by (auto simp: safe_row_def)
  then show ?case using beat.prems(2) y unfolding y(5) by (auto simp: safe_row_def lease_upd_def row_upd_def)
next
  case (release now k h tok st db r' db')
  from release_cases [OF release.hyps] obtain y where
    y: "y \<in> set (p_leases db)" "l_id y = k" "l_holder y = h" "l_released r' \<noteq> None" "db' = lease_upd k (\<lambda>_. r') db"
    by auto
  have "k \<noteq> l_id x"
    using ids_ok_same [OF release.prems(1), of x y] y(1-3) release.prems(2,4) by (auto simp: safe_row_def)
  then show ?case using release.prems(2) y(4) unfolding y(5)
    by (auto simp: safe_row_def lease_upd_def row_upd_def live_at_def)
next
  case (session now h db sid act sk sc st ttl)
  then show ?case
    by (auto simp: upsert_actor_session_def Let_def safe_row_def split: option.splits)
qed

interpretation rl: lease_provider safe_lease pr_act ids_ok
proof
  fix t now e :: instant and s s' :: presence and h h' :: string and r :: "string \<times> string"
  assume a: "ids_ok t s" "t \<le> now" "pr_act now h s s'" "safe_lease r h' e s" "now < e" "h \<noteq> h'"
  then show "safe_lease r h' e s'"
    using pr_act_safe [OF a(3) ids_ok_later [OF a(1,2)]] unfolding safe_lease_def by metis
next
  fix t now :: instant and s s' :: presence and h :: string
  assume "ids_ok t s" "t \<le> now" "pr_act now h s s'"
  then show "ids_ok now s'" by (elim pr_act_ids)
next
  fix t e1 e2 :: instant and s :: presence and h1 h2 :: string and r :: "string \<times> string"
  assume a: "ids_ok t s" "safe_lease r h1 e1 s" "safe_lease r h2 e2 s" "t < e1" "t < e2"
  obtain x y where x: "safe_row x s" "(l_kind x, l_rid x) = r" "l_holder x = h1" "t < l_expires x"
    and y: "safe_row y s" "(l_kind y, l_rid y) = r" "l_holder y = h2" "t < l_expires y"
    using a(2-5) by (auto simp: safe_lease_def)
  have res: "l_kind x = l_kind y" "l_rid x = l_rid y" using x(2) y(2) by auto
  have "x = y"
    using safe_row_only [OF y(1) a(1) _ res] x(1,4) by (simp add: safe_row_def live_at_def)
  with x(3) y(3) show "h1 = h2" by simp
qed

section \<open>What an operation does to the current leases\<close>

lemma option_ext: "(\<And>x. a = Some x \<longleftrightarrow> b = Some x) \<Longrightarrow> a = b"
  by (cases a; cases b) auto

text \<open>Rewriting the current row of a resource.\<close>

lemma lease_upd_current:
  assumes inv: "presence_inv now db" and r: "get_current_lease now (l_kind r) (l_rid r) db = Some r"
    and same: "l_id r' = l_id r" "l_kind r' = l_kind r" "l_rid r' = l_rid r" and st: "l_status r' \<noteq> ''expired'' \<or> l_expires r' \<le> now"
  shows "get_current_lease now kind rid (lease_upd (l_id r) (\<lambda>_. r') db) =
    (if kind = l_kind r \<and> rid = l_rid r then (if current_at now r' then Some r' else None)
     else get_current_lease now kind rid db)"
proof (rule option_ext)
  fix x
  have rin: "r \<in> set (p_leases db)" "current_at now r" using get_current_SomeD [OF r] by auto
  have inv': "presence_inv now (lease_upd (l_id r) (\<lambda>_. r') db)"
    using rin same st by (intro lease_upd_inv [OF inv rin(1)]) auto
  have mem: "x \<in> set (p_leases (lease_upd (l_id r) (\<lambda>_. r') db)) \<longleftrightarrow> x = r' \<or> (x \<in> set (p_leases db) \<and> x \<noteq> r)"
    using rin(1) lease_same [OF inv rin(1), of x] by (auto simp: lease_upd_def row_upd_def)
  have sole: "x \<in> set (p_leases db) \<Longrightarrow> l_kind x = l_kind r \<Longrightarrow> l_rid x = l_rid r \<Longrightarrow> current_at now x \<Longrightarrow> x = r"
    using presence_inv_sole [OF inv _ rin(1)] rin(2) by blast
  show "get_current_lease now kind rid (lease_upd (l_id r) (\<lambda>_. r') db) = Some x \<longleftrightarrow>
    (if kind = l_kind r \<and> rid = l_rid r then (if current_at now r' then Some r' else None)
     else get_current_lease now kind rid db) = Some x"
    unfolding get_current_iff [OF inv' order_refl] mem
    using sole same by (auto simp: get_current_iff [OF inv order_refl])
qed

lemma claim_current:
  assumes inv: "presence_inv now db"
    and c: "claim_resource_lease now kind rid h tok secs st db = Inr (r', db')" and st: "st \<noteq> ''expired''"
  shows "get_current_lease now k i db' = (if k = kind \<and> i = rid then Some r' else get_current_lease now k i db)"
    and "l_holder r' = h" "l_expires r' = now + seconds (clamp_seconds secs)"
proof -
  have pos: "now < now + seconds (clamp_seconds secs)" by (simp add: clamp_seconds_def)
  from claim_cases [OF c] consider
    (old) r where "get_current_lease now kind rid db = Some r" "l_holder r = h"
      "r' = r\<lparr>l_token := key_pick tok (l_token r), l_expires := now + seconds (clamp_seconds secs),
               l_status := st, l_updated := now\<rparr>" "db' = lease_upd (l_id r) (\<lambda>_. r') db"
    | (fresh) "get_current_lease now kind rid db = None" "l_kind r' = kind" "l_rid r' = rid" "l_holder r' = h"
      "l_released r' = None" "l_status r' = st" "l_expires r' = now + seconds (clamp_seconds secs)"
      "p_leases db' = p_leases (expire_stale now kind rid db) @ [r']"
    by (auto simp: Let_def)
  then have "get_current_lease now k i db' = (if k = kind \<and> i = rid then Some r' else get_current_lease now k i db)
    \<and> l_holder r' = h \<and> l_expires r' = now + seconds (clamp_seconds secs)"
  proof cases
    case old
    have res: "l_kind r = kind" "l_rid r = rid" "current_at now r" using get_current_SomeD [OF old(1)] by auto
    then have "get_current_lease now k i db' =
      (if k = l_kind r \<and> i = l_rid r then (if current_at now r' then Some r' else None) else get_current_lease now k i db)"
      unfolding old(4) using old(1,3) st by (intro lease_upd_current [OF inv]) simp_all
    moreover have "current_at now r'" using res(3) old(3) st pos by (simp add: current_at_def)
    ultimately show ?thesis using res old by simp
  next
    case fresh
    have inv': "presence_inv now db'" by (rule claim_inv [OF inv c st])
    have cur: "current_at now r'" using fresh st pos by (simp add: current_at_def)
    have "get_current_lease now k i db' = Some x \<longleftrightarrow>
        (if k = kind \<and> i = rid then Some r' else get_current_lease now k i db) = Some x" for x
      unfolding get_current_iff [OF inv' order_refl]
      using cur expire_stale_current [OF inv, of x kind rid] get_current_NoneD [OF fresh(1), of x] fresh(2,3,8)
      by (auto simp: get_current_iff [OF inv order_refl])
    then have "get_current_lease now k i db' = (if k = kind \<and> i = rid then Some r' else get_current_lease now k i db)"
      by (rule option_ext)
    with fresh show ?thesis by simp
  qed
  then show "get_current_lease now k i db' = (if k = kind \<and> i = rid then Some r' else get_current_lease now k i db)"
    "l_holder r' = h" "l_expires r' = now + seconds (clamp_seconds secs)" by auto
qed

lemma heartbeat_current:
  assumes inv: "presence_inv now db" and r: "get_current_lease now kind rid db = Some r"
    and h: "l_holder r = h" "l_token r = tok" and st: "st \<noteq> [] " "st \<notin> {''released'', ''expired''}" "l_status r \<noteq> ''released''"
  shows "\<exists>r' db'. heartbeat_resource_lease now (l_id r) h tok secs (Some st) db = Inr (r', db')
    \<and> l_holder r' = h \<and> l_token r' = tok \<and> l_expires r' = now + seconds (clamp_seconds secs) \<and> l_status r' = st
    \<and> presence_inv now db'
    \<and> (\<forall>k i. get_current_lease now k i db' = (if k = kind \<and> i = rid then Some r' else get_current_lease now k i db))"
proof -
  have res: "r \<in> set (p_leases db)" "l_kind r = kind" "l_rid r = rid" "l_released r = None" "now < l_expires r"
    using get_current_SomeD [OF r] by (auto simp: current_at_def)
  have get: "row_get l_id (l_id r) (p_leases db) = Some r"
    using inv res(1) by (simp add: presence_inv_def row_get_distinct)
  define r' where "r' = r\<lparr>l_expires := now + seconds (clamp_seconds secs), l_status := st, l_updated := now\<rparr>"
  have b: "heartbeat_resource_lease now (l_id r) h tok secs (Some st) db = Inr (r', lease_upd (l_id r) (\<lambda>_. r') db)"
    using res h st get
    by (simp add: heartbeat_resource_lease_def require_lease_def validate_lease_holder_def r'_def Let_def)
  have cur: "current_at now r'" using res st by (simp add: r'_def current_at_def clamp_seconds_def)
  have "presence_inv now (lease_upd (l_id r) (\<lambda>_. r') db)"
    using res get_current_SomeD [OF r] st by (intro lease_upd_inv [OF inv]) (auto simp: r'_def)
  moreover have "get_current_lease now k i (lease_upd (l_id r) (\<lambda>_. r') db) =
      (if k = kind \<and> i = rid then Some r' else get_current_lease now k i db)" for k i
    using lease_upd_current [OF inv, of r r' k i] r res st cur by (simp add: r'_def)
  ultimately show ?thesis using b h by (auto simp: r'_def)
qed

lemma release_current:
  assumes inv: "presence_inv now db" and r: "get_current_lease now kind rid db = Some r"
    and h: "l_holder r = h" "l_token r = tok"
  shows "\<exists>r' db'. release_resource_lease now (l_id r) h tok st db = Inr (r', db') \<and> presence_inv now db'
    \<and> (\<forall>k i. get_current_lease now k i db' = (if k = kind \<and> i = rid then None else get_current_lease now k i db))"
proof -
  have res: "r \<in> set (p_leases db)" "l_kind r = kind" "l_rid r = rid"
    using get_current_SomeD [OF r] by auto
  have get: "row_get l_id (l_id r) (p_leases db) = Some r"
    using inv res(1) by (simp add: presence_inv_def row_get_distinct)
  define r' where "r' = r\<lparr>l_status := st, l_released := Some now, l_expires := now, l_updated := now\<rparr>"
  have b: "release_resource_lease now (l_id r) h tok st db = Inr (r', lease_upd (l_id r) (\<lambda>_. r') db)"
    using res h get
    by (simp add: release_resource_lease_def require_lease_def validate_lease_holder_def r'_def Let_def)
  have "presence_inv now (lease_upd (l_id r) (\<lambda>_. r') db)"
    using res by (intro lease_upd_inv [OF inv]) (auto simp: r'_def current_at_def)
  moreover have "get_current_lease now k i (lease_upd (l_id r) (\<lambda>_. r') db) =
      (if k = kind \<and> i = rid then None else get_current_lease now k i db)" for k i
    using lease_upd_current [OF inv, of r r' k i] r res by (simp add: r'_def current_at_def)
  ultimately show ?thesis using b by blast
qed

lemma upsert_current [simp]:
  "get_current_lease now k i (snd (upsert_actor_session t sid act sk sc st ttl db)) = get_current_lease now k i db"
  "presence_inv now db \<Longrightarrow> presence_inv now (snd (upsert_actor_session t sid act sk sc st ttl db))"
  by (auto simp: upsert_actor_session_def Let_def get_current_lease_def lease_rows_def presence_inv_def
        less_Suc_eq split: option.splits)

section \<open>Properties\<close>

definition no_presence :: presence where
  "no_presence = \<lparr>p_sessions = [], p_leases = [], p_next = 0\<rparr>"

lemma no_presence_inv: "presence_inv t no_presence"
  by (simp add: presence_inv_def no_presence_def)

lemma claim_safe:
  assumes ok: "ids_ok now db" "one_live now kind rid db" and st: "st \<noteq> ''expired''"
    and run: "claim_resource_lease now kind rid h tok secs st db = Inr (r, db')"
  shows "safe_lease (kind, rid) h (l_expires r) db'"
proof -
  note r = claim_updated [OF run]
  have "safe_row r db'"
    using claim_cases [OF run]
  proof (elim disjE exE conjE)
    fix x
    assume x: "get_current_lease now kind rid db = Some x"
      "r = x\<lparr>l_token := key_pick tok (l_token x), l_expires := now + seconds (clamp_seconds secs),
               l_status := st, l_updated := now\<rparr>"
      "db' = lease_upd (l_id x) (\<lambda>_. r) db"
    have xin: "x \<in> set (p_leases db)" "l_kind x = kind" "l_rid x = rid" "live_at now x"
      using get_current_SomeD [OF x(1)] by (auto simp: current_live)
    then have "\<not> live_at now y" if "y \<in> set (p_leases db)" "l_kind y = kind" "l_rid y = rid" "l_id y \<noteq> l_id x" for y
      using ok(2) that unfolding one_live_def by blast
    moreover have "r \<in> set (p_leases db')" unfolding x(3) using xin(1) by (force simp: lease_upd_def row_upd_def)
    ultimately show ?thesis
      using x(2,3) xin r st by (auto simp: safe_row_def lease_upd_def row_upd_def live_at_def)
  next
    assume none: "get_current_lease now kind rid db = None" and new: "l_released r = None"
      and db': "let db1 = expire_stale now kind rid db in l_id r = p_next db1
       \<and> db' = db1\<lparr>p_leases := p_leases db1 @ [r], p_next := Suc (Suc (p_next db1))\<rparr>"
    have "\<not> live_at now y" if "y \<in> set (p_leases db)" "l_kind y = kind" "l_rid y = rid" for y
      using get_current_NoneD [OF none that] ok(2) that unfolding one_live_def current_live by blast
    then have "\<not> live_at now y" if "y \<in> set (p_leases (expire_stale now kind rid db))" "l_kind y = kind" "l_rid y = rid" for y
      using expire_stale_live [OF that(1), of now] that(2,3) by auto
    then show ?thesis using new db' r st by (auto simp: safe_row_def Let_def)
  qed
  with r show ?thesis by (auto simp: safe_lease_def)
qed

text \<open>C8: Mutual exclusion. Take a resource on which at most one lease is unreleased and unexpired,
  and that one not marked expired, and an actor that claims it with a status other than \<open>expired\<close>.
  Then until its lease runs out, and whatever the other actors do in the meantime in any order and
  with any status text, every claim of the resource by anybody else is refused, naming the holder.\<close>

theorem lease_excludes_others:
  assumes "ids_ok now db" "one_live now kind rid db" "st \<noteq> ''expired''"
    and "claim_resource_lease now kind rid h tok secs st db = Inr (r, db1)"
    and "acts_run pr_act acts db1 db2" "clocked now acts" "\<forall>(u, h') \<in> set acts. u < l_expires r \<and> h' \<noteq> h"
    and "end_time now acts \<le> later" "later < l_expires r" "h2 \<noteq> h"
  shows "claim_resource_lease later kind rid h2 tok2 secs2 st2 db2 = Inl (LeaseHeldBy h)"
proof -
  have ids: "ids_ok now db1" using pr_act.claim [OF assms(4)] assms(1) by (rule pr_act_ids) simp
  have safe: "safe_lease (kind, rid) h (l_expires r) db1" using assms(1-4) by (rule claim_safe)
  have "ids_ok (end_time now acts) db2" using ids assms(6,5) by (rule rl.run_inv)
  then have ids2: "ids_ok later db2" using assms(8) by (rule ids_ok_later)
  have "safe_lease (kind, rid) h (l_expires r) db2"
    using ids assms(6,5) safe by (rule rl.run_keeps) (use assms(7) in blast)
  then obtain x where "safe_row x db2" "l_kind x = kind" "l_rid x = rid" "l_holder x = h" "later < l_expires x"
    using assms(9) by (auto simp: safe_lease_def)
  with safe_row_current [OF _ ids2] assms(10) show ?thesis by (auto simp: claim_resource_lease_def Let_def)
qed

theorem lease_excludes_others_witness:
  "\<exists>r db1 q db2. claim_resource_lease 0 ''task'' ''t1'' ''ann'' None 60 ''claimed'' no_presence = Inr (r, db1)
     \<and> claim_resource_lease 3 ''task'' ''t2'' ''bob'' None 60 ''expired'' db1 = Inr (q, db2)
     \<and> claim_resource_lease 5 ''task'' ''t1'' ''bob'' None 60 ''claimed'' db2 = Inl (LeaseHeldBy ''ann'')"
proof -
  have "case claim_resource_lease 0 ''task'' ''t1'' ''ann'' None 60 ''claimed'' no_presence of
      Inl _ \<Rightarrow> False | Inr (r, db1) \<Rightarrow> l_expires r = 60000000 \<and>
        (case claim_resource_lease 3 ''task'' ''t2'' ''bob'' None 60 ''expired'' db1 of Inl _ \<Rightarrow> False | Inr _ \<Rightarrow> True)"
    by code_simp
  then obtain r db1 where
    run: "claim_resource_lease 0 ''task'' ''t1'' ''ann'' None 60 ''claimed'' no_presence = Inr (r, db1)"
    and e: "l_expires r = 60000000"
    and free: "case claim_resource_lease 3 ''task'' ''t2'' ''bob'' None 60 ''expired'' db1 of Inl _ \<Rightarrow> False | Inr _ \<Rightarrow> True"
    by (cases "claim_resource_lease 0 ''task'' ''t1'' ''ann'' None 60 ''claimed'' no_presence") auto
  from free obtain q db2 where other: "claim_resource_lease 3 ''task'' ''t2'' ''bob'' None 60 ''expired'' db1 = Inr (q, db2)"
    by (cases "claim_resource_lease 3 ''task'' ''t2'' ''bob'' None 60 ''expired'' db1") auto
  have acts: "acts_run pr_act [(3, ''bob'')] db1 db2" using pr_act.claim [OF other] by simp
  have "ids_ok 0 no_presence" "one_live 0 ''task'' ''t1'' no_presence"
    by (simp_all add: ids_ok_def one_live_def no_presence_def)
  from lease_excludes_others [OF this _ run acts, of 5 "''bob''"] e run other show ?thesis by auto
qed

text \<open>The invariant holds of every state reachable from the empty tables by any tame acts in clock
  order, so at any later moment the current lease of a resource is unique and
  \<open>get_current_lease\<close> returns it.\<close>

theorem current_lease_unique:
  assumes "acts_run tame_act acts no_presence db" "clocked t acts" "end_time t acts \<le> now"
  shows "get_current_lease now kind rid db = Some r \<longleftrightarrow>
     r \<in> set (p_leases db) \<and> l_kind r = kind \<and> l_rid r = rid \<and> current_at now r"
  using get_current_iff [OF tl.run_inv [OF no_presence_inv assms(2,1)] assms(3)] .

theorem current_lease_unique_witness:
  "get_current_lease 9 ''task'' ''t1'' (snd (upsert_actor_session 3 None ''bob'' ''s'' ''x'' ''active'' 60 no_presence))
     = None"
proof -
  let ?db = "snd (upsert_actor_session 3 None ''bob'' ''s'' ''x'' ''active'' 60 no_presence)"
  have run: "acts_run tame_act [(3, ''bob'')] no_presence ?db" by (auto intro: tame_act.session)
  have "p_leases ?db = []" by code_simp
  then show ?thesis
    using current_lease_unique [OF run, of 3 9 "''task''" "''t1''"]
    by (cases "get_current_lease 9 ''task'' ''t1'' ?db") auto
qed

definition two_holders :: "(rlease \<times> rlease) option" where
  "two_holders =
     (case claim_resource_lease 0 ''task'' ''t1'' ''ann'' (Some (Ext ''a'')) 60 ''claimed'' no_presence of
        Inl _ \<Rightarrow> None
      | Inr (r, db1) \<Rightarrow>
     (case heartbeat_resource_lease 1 (l_id r) ''ann'' (Ext ''a'') 60 (Some ''expired'') db1 of
        Inl _ \<Rightarrow> None
      | Inr (_, db2) \<Rightarrow>
     (case claim_resource_lease 2 ''task'' ''t1'' ''bob'' (Some (Ext ''b'')) 60 ''claimed'' db2 of
        Inl _ \<Rightarrow> None
      | Inr (r2, db3) \<Rightarrow>
     (case heartbeat_resource_lease 3 (l_id r) ''ann'' (Ext ''a'') 60 (Some ''claimed'') db3 of
        Inl _ \<Rightarrow> None
      | Inr (r1, db4) \<Rightarrow>
          if r1 \<in> set (p_leases db4) \<and> r2 \<in> set (p_leases db4) then Some (r1, r2) else None))))"

text \<open>The status text of a renewal is not checked: a holder that renews with the status
  \<open>expired\<close> no longer counts as the current holder, another actor claims the resource, and a
  renewal by the first then makes both leases current at once.\<close>

theorem expired_status_gives_two_holders:
  "case two_holders of None \<Rightarrow> False
   | Some (r1, r2) \<Rightarrow> l_holder r1 = ''ann'' \<and> l_holder r2 = ''bob'' \<and> current_at 4 r1 \<and> current_at 4 r2
       \<and> (l_kind r1, l_rid r1) = (l_kind r2, l_rid r2)"
  by code_simp

end
