(* ===== verification/Settle.thy ===== *)
theory Settle
  imports Lease
begin

text \<open>
  Rows that settle: once a row reaches a final state no operation changes it, and a row whose
  deadline has passed can only settle as lapsed. Approvals of the kernel and of the remote tasks
  are of this kind; the run lemmas are proved once here.
\<close>

text \<open>A run of acts in commit order, each at its own time.\<close>

fun timed_run :: "(instant \<Rightarrow> 's \<Rightarrow> 's \<Rightarrow> bool) \<Rightarrow> instant list \<Rightarrow> 's \<Rightarrow> 's \<Rightarrow> bool" where
  "timed_run step [] s s' = (s' = s)"
| "timed_run step (now # ts) s s' = (\<exists>s1. step now s s1 \<and> timed_run step ts s1 s')"

locale settling =
  fixes look :: "'s \<Rightarrow> 'k \<Rightarrow> 'r option"
    and settled :: "'r \<Rightarrow> bool"
    and step :: "instant \<Rightarrow> 's \<Rightarrow> 's \<Rightarrow> bool"
  assumes stays: "step now s s' \<Longrightarrow> look s k = Some r \<Longrightarrow> settled r \<Longrightarrow> look s' k = Some r"
    and persists: "step now s s' \<Longrightarrow> look s k = Some r \<Longrightarrow> \<exists>r'. look s' k = Some r'"
begin

lemma run_stays:
  "timed_run step ts s s' \<Longrightarrow> look s k = Some r \<Longrightarrow> settled r \<Longrightarrow> look s' k = Some r"
  by (induction ts arbitrary: s) (auto dest: stays)

lemma run_persists: "timed_run step ts s s' \<Longrightarrow> look s k = Some r \<Longrightarrow> \<exists>r'. look s' k = Some r'"
proof (induction ts arbitrary: s r)
  case (Cons now ts)
  then obtain s1 where "step now s s1" "timed_run step ts s1 s'" by auto
  with Cons show ?case by (meson persists)
qed simp

end

locale deadline = settling look settled step
  for look :: "'s \<Rightarrow> 'k \<Rightarrow> 'r option" and settled :: "'r \<Rightarrow> bool" and step :: "instant \<Rightarrow> 's \<Rightarrow> 's \<Rightarrow> bool" +
  fixes due :: "instant \<Rightarrow> 'r \<Rightarrow> bool"
    and lapse :: "instant \<Rightarrow> 'r \<Rightarrow> 'r"
  assumes due_mono: "due t r \<Longrightarrow> t \<le> now \<Longrightarrow> due now r"
    and late: "step now s s' \<Longrightarrow> look s k = Some r \<Longrightarrow> \<not> settled r \<Longrightarrow> due now r \<Longrightarrow>
                 look s' k = Some r \<or> look s' k = Some (lapse now r)"
    and lapse_settled: "settled (lapse now r)"
begin

text \<open>Past its deadline a row stays as it is or is lapsed at one of the acts, whatever they are.\<close>

lemma run_late:
  "timed_run step ts s s' \<Longrightarrow> \<forall>now \<in> set ts. t \<le> now \<Longrightarrow> due t r \<Longrightarrow> \<not> settled r \<Longrightarrow> look s k = Some r \<Longrightarrow>
     look s' k = Some r \<or> (\<exists>now \<in> set ts. look s' k = Some (lapse now r))"
proof (induction ts arbitrary: s)
  case (Cons now ts)
  then obtain s1 where 1: "step now s s1" "timed_run step ts s1 s'" by auto
  have "due now r" using Cons.prems(2,3) due_mono by auto
  with 1 Cons.prems have "look s1 k = Some r \<or> look s1 k = Some (lapse now r)" by (meson late)
  then show ?case
  proof
    assume "look s1 k = Some r"
    with 1 Cons show ?thesis by auto
  next
    assume "look s1 k = Some (lapse now r)"
    with 1(2) lapse_settled have "look s' k = Some (lapse now r)" by (meson run_stays)
    then show ?thesis by auto
  qed
qed simp

end

end
