(* ===== verification/Approvals.thy ===== *)
theory Approvals
  imports Settle
begin

text \<open>
  \<open>kernel/approvals.py\<close>: approval requests that an actor resolves or that expire. Every reader
  marks the rows it finds expired, so expiry is recorded lazily.
\<close>

section \<open>Rows\<close>

abbreviation APPROVAL_STATUS_PENDING :: string where "APPROVAL_STATUS_PENDING \<equiv> ''pending''"
abbreviation APPROVAL_STATUS_APPROVED :: string where "APPROVAL_STATUS_APPROVED \<equiv> ''approved''"
abbreviation APPROVAL_STATUS_REJECTED :: string where "APPROVAL_STATUS_REJECTED \<equiv> ''rejected''"
abbreviation APPROVAL_STATUS_EXPIRED :: string where "APPROVAL_STATUS_EXPIRED \<equiv> ''expired''"

definition APPROVAL_TERMINAL_STATUSES :: "string list" where
  "APPROVAL_TERMINAL_STATUSES =
     [APPROVAL_STATUS_APPROVED, APPROVAL_STATUS_REJECTED, APPROVAL_STATUS_EXPIRED]"

definition APPROVAL_DECISIONS :: "(string \<times> string) list" where
  "APPROVAL_DECISIONS =
     [(''approved'', APPROVAL_STATUS_APPROVED), (''approved_for_session'', APPROVAL_STATUS_APPROVED),
      (''rejected'', APPROVAL_STATUS_REJECTED), (''abort'', APPROVAL_STATUS_REJECTED)]"

record approval =
  ap_id :: key
  ap_space :: string
  ap_kind :: string
  ap_status :: string
  ap_payload :: obj
  ap_requested_by :: string
  ap_requested :: instant
  ap_resolved_by :: "string option"
  ap_resolved :: "instant option"
  ap_resolution :: "string option"
  ap_note :: "string option"
  ap_expires :: "instant option"

record approvals =
  ap_rows :: "approval list"
  ap_next :: nat

datatype approval_error = ApprovalValueError string | ApprovalExists

section \<open>Operations\<close>

definition request ::
  "instant \<Rightarrow> string \<Rightarrow> string \<Rightarrow> obj \<Rightarrow> string \<Rightarrow> int option \<Rightarrow> string option \<Rightarrow> approvals
     \<Rightarrow> approval_error + approval \<times> approvals" where
  "request now space kind payload requested_by ttl ext db =
     (if space = [] then Inl (ApprovalValueError ''space_id is required'')
      else if kind = [] then Inl (ApprovalValueError ''kind is required'')
      else
        let aid = key_or ext (Gen (ap_next db));
            row = \<lparr>ap_id = aid, ap_space = space, ap_kind = kind, ap_status = APPROVAL_STATUS_PENDING,
                   ap_payload = payload, ap_requested_by = requested_by, ap_requested = now,
                   ap_resolved_by = None, ap_resolved = None, ap_resolution = None, ap_note = None,
                   ap_expires = (case ttl of None \<Rightarrow> None
                                 | Some n \<Rightarrow> if 0 < n then Some (now + seconds n) else None)\<rparr>
        in if row_get ap_id aid (ap_rows db) \<noteq> None then Inl ApprovalExists
           else Inr (row, \<lparr>ap_rows = ap_rows db @ [row], ap_next = Suc (ap_next db)\<rparr>))"

definition is_expired :: "instant \<Rightarrow> approval \<Rightarrow> bool" where
  "is_expired now r =
     (if ap_status r \<noteq> APPROVAL_STATUS_PENDING then False
      else case ap_expires r of None \<Rightarrow> False | Some e \<Rightarrow> e \<le> now)"

definition mark_row_expired :: "instant \<Rightarrow> approval \<Rightarrow> approval" where
  "mark_row_expired now r =
     r\<lparr>ap_status := APPROVAL_STATUS_EXPIRED,
       ap_resolution := (case ap_resolution r of None \<Rightarrow> Some ''expired''
                         | Some s \<Rightarrow> if s = [] then Some ''expired'' else Some s),
       ap_resolved := Some now\<rparr>"

definition approval_look :: "approvals \<Rightarrow> key \<Rightarrow> approval option" where
  "approval_look db k = row_get ap_id k (ap_rows db)"

definition approval_upd :: "key \<Rightarrow> (approval \<Rightarrow> approval) \<Rightarrow> approvals \<Rightarrow> approvals" where
  "approval_upd k f db = db\<lparr>ap_rows := row_upd ap_id k f (ap_rows db)\<rparr>"

definition approval_get :: "instant \<Rightarrow> key \<Rightarrow> approvals \<Rightarrow> approval option \<times> approvals" where
  "approval_get now k db =
     (case approval_look db k of
        None \<Rightarrow> (None, db)
      | Some r \<Rightarrow>
          (if is_expired now r
           then (Some (mark_row_expired now r), approval_upd k (\<lambda>_. mark_row_expired now r) db)
           else (Some r, db)))"

definition NEGATIVE_MARKERS :: "string list" where
  "NEGATIVE_MARKERS = [''reject'', ''denied'', ''abort'', ''cancel'', ''no'']"

definition target_status :: "string \<Rightarrow> string" where
  "target_status normalized =
     (case map_of APPROVAL_DECISIONS (lower normalized) of
        Some st \<Rightarrow> st
      | None \<Rightarrow>
          (if list_ex (\<lambda>m. contains m (lower normalized)) NEGATIVE_MARKERS
           then APPROVAL_STATUS_REJECTED else APPROVAL_STATUS_APPROVED))"

definition resolve ::
  "instant \<Rightarrow> key \<Rightarrow> string \<Rightarrow> string \<Rightarrow> string option \<Rightarrow> approvals
     \<Rightarrow> approval_error + approval option \<times> approvals" where
  "resolve now k resolution resolved_by note db =
     (case approval_look db k of
        None \<Rightarrow> Inr (None, db)
      | Some r \<Rightarrow>
          (if is_expired now r
           then Inr (Some (mark_row_expired now r), approval_upd k (\<lambda>_. mark_row_expired now r) db)
           else if ap_status r \<in> set APPROVAL_TERMINAL_STATUSES then Inr (Some r, db)
           else
             let normalized = strip resolution
             in if normalized = [] then Inl (ApprovalValueError ''resolution is required'')
                else
                  let r' = r\<lparr>ap_status := target_status normalized, ap_resolution := Some normalized,
                             ap_resolved_by := Some resolved_by, ap_resolved := Some now,
                             ap_note := (case note of None \<Rightarrow> ap_note r | Some n \<Rightarrow> Some n)\<rparr>
                  in Inr (Some r', approval_upd k (\<lambda>_. r') db)))"

definition mark_all :: "instant \<Rightarrow> approval list \<Rightarrow> approvals \<Rightarrow> approvals" where
  "mark_all now dead db =
     db\<lparr>ap_rows := map (\<lambda>r. if r \<in> set dead then mark_row_expired now r else r) (ap_rows db)\<rparr>"

definition list_pending ::
  "instant \<Rightarrow> string \<Rightarrow> string list \<Rightarrow> int \<Rightarrow> approvals \<Rightarrow> approval list \<times> approvals" where
  "list_pending now space kinds limit db =
     (let rows = take (nat (max 1 limit))
                   (select_asc ap_requested
                      (\<lambda>r. ap_space r = space \<and> ap_status r = APPROVAL_STATUS_PENDING
                           \<and> (filter (\<lambda>k. k \<noteq> []) kinds = [] \<or> ap_kind r \<in> set (filter (\<lambda>k. k \<noteq> []) kinds)))
                      (ap_rows db))
      in (filter (\<lambda>r. \<not> is_expired now r) rows, mark_all now (filter (is_expired now) rows) db))"

definition expire_due :: "instant \<Rightarrow> int \<Rightarrow> approvals \<Rightarrow> int \<times> approvals" where
  "expire_due now batch_size db =
     (let rows = take (nat (max 1 batch_size))
                   (filter (\<lambda>r. ap_status r = APPROVAL_STATUS_PENDING \<and> ap_expires r \<noteq> None) (ap_rows db));
          dead = filter (is_expired now) rows
      in (int (length dead), mark_all now dead db))"

text \<open>What any caller may do to the table at time \<open>now\<close>.\<close>

inductive ap_act :: "instant \<Rightarrow> approvals \<Rightarrow> approvals \<Rightarrow> bool" where
  request: "request now sp kd pl rb ttl ext db = Inr (r, db') \<Longrightarrow> ap_act now db db'"
| get: "ap_act now db (snd (approval_get now k db))"
| resolve: "resolve now k res rby note db = Inr (r, db') \<Longrightarrow> ap_act now db db'"
| list: "ap_act now db (snd (list_pending now sp kinds lim db))"
| sweep: "ap_act now db (snd (expire_due now b db))"

inductive_cases ap_actE: "ap_act now db db'"

section \<open>What each operation does to one row\<close>

definition resolved_row :: "instant \<Rightarrow> string \<Rightarrow> string \<Rightarrow> string option \<Rightarrow> approval \<Rightarrow> approval" where
  "resolved_row now resolution rby note r =
     r\<lparr>ap_status := target_status resolution, ap_resolution := Some resolution,
       ap_resolved_by := Some rby, ap_resolved := Some now,
       ap_note := (case note of None \<Rightarrow> ap_note r | Some n \<Rightarrow> Some n)\<rparr>"

lemma mark_row_expired_simps [simp]:
  "ap_id (mark_row_expired now r) = ap_id r" "ap_status (mark_row_expired now r) = APPROVAL_STATUS_EXPIRED"
  by (simp_all add: mark_row_expired_def)

lemma resolved_row_simps [simp]:
  "ap_id (resolved_row now res rby note r) = ap_id r"
  "ap_status (resolved_row now res rby note r) = target_status res"
  by (simp_all add: resolved_row_def)

lemma is_expiredD: "is_expired now r \<Longrightarrow> ap_status r = APPROVAL_STATUS_PENDING"
  by (simp add: is_expired_def split: if_splits)

lemma is_expired_mono: "is_expired t r \<Longrightarrow> t \<le> now \<Longrightarrow> is_expired now r"
  by (auto simp: is_expired_def split: if_splits option.splits)

lemma look_upd:
  assumes "approval_look db k = Some r" "ap_id r' = ap_id r"
  shows "approval_look (approval_upd k (\<lambda>_. r') db) k0 = (if k0 = k then Some r' else approval_look db k0)"
proof -
  have id: "ap_id r' = k" using assms by (auto simp: approval_look_def dest: row_get_SomeD)
  show ?thesis
  proof (cases "k0 = k")
    case True
    have "row_get ap_id k (row_upd ap_id k (\<lambda>_. r') (ap_rows db)) = map_option (\<lambda>_. r') (row_get ap_id k (ap_rows db))"
      by (rule row_get_upd_same) (simp add: id)
    with True assms show ?thesis by (simp add: approval_look_def approval_upd_def)
  next
    case False
    then have "row_get ap_id k0 (row_upd ap_id k (\<lambda>_. r') (ap_rows db)) = row_get ap_id k0 (ap_rows db)"
      by (rule row_get_upd_other) (simp add: id)
    with False show ?thesis by (simp add: approval_look_def approval_upd_def)
  qed
qed

lemma look_mark_all:
  "approval_look (mark_all now dead db) k =
     map_option (\<lambda>r. if r \<in> set dead then mark_row_expired now r else r) (approval_look db k)"
  by (simp add: approval_look_def mark_all_def row_get_map)

lemma look_request:
  assumes "request now sp kd pl rb ttl ext db = Inr (r, db')"
  shows "approval_look db (ap_id r) = None \<and> approval_look db' k = (if k = ap_id r then Some r else approval_look db k)"
  using assms
  by (auto simp: request_def Let_def approval_look_def row_get_append row_get_Cons split: if_splits option.splits)

text \<open>
  One act leaves a row alone, marks it expired, or resolves it; the last two only when the row is
  pending, the last only before its deadline.
\<close>

lemma look_marked:
  assumes "approval_look db k = Some r" "list_all (is_expired now) dead"
  shows "approval_look (mark_all now dead db) k = Some r
    \<or> (approval_look (mark_all now dead db) k = Some (mark_row_expired now r) \<and> is_expired now r)"
  using assms by (simp add: look_mark_all list_all_iff)

lemma act_row:
  assumes "ap_act now db db'" "approval_look db k = Some r"
  obtains "approval_look db' k = Some r"
  | "approval_look db' k = Some (mark_row_expired now r)" "is_expired now r"
  | res rby nt where "approval_look db' k = Some (resolved_row now (strip res) rby nt r)"
      "ap_status r \<notin> set APPROVAL_TERMINAL_STATUSES" "\<not> is_expired now r" "strip res \<noteq> []"
  using assms(1)
proof (cases rule: ap_act.cases)
  case (request sp kd pl rb ttl ext r1)
  from look_request [OF this, of k] assms(2) that(1) show ?thesis by (auto split: if_splits)
next
  case (get k1)
  show ?thesis
  proof (cases "\<exists>r1. approval_look db k1 = Some r1 \<and> is_expired now r1")
    case True
    then obtain r1 where r1: "approval_look db k1 = Some r1" "is_expired now r1" by blast
    then have "approval_look db' k = (if k = k1 then Some (mark_row_expired now r1) else approval_look db k)"
      using get by (simp add: approval_get_def look_upd)
    with r1 assms(2) that(1,2) show ?thesis by (auto split: if_splits)
  next
    case False
    then have "db' = db" using get by (auto simp: approval_get_def split: option.splits)
    with assms(2) that(1) show ?thesis by simp
  qed
next
  case (resolve k1 res rby nt r1)
  show ?thesis
  proof (cases "approval_look db k1")
    case None
    with resolve assms(2) that(1) show ?thesis by (simp add: resolve_def)
  next
    case (Some r2)
    consider (ex) "is_expired now r2" | (fin) "\<not> is_expired now r2" "ap_status r2 \<in> set APPROVAL_TERMINAL_STATUSES"
      | (live) "\<not> is_expired now r2" "ap_status r2 \<notin> set APPROVAL_TERMINAL_STATUSES" by blast
    then show ?thesis
    proof cases
      case ex
      then have "db' = approval_upd k1 (\<lambda>_. mark_row_expired now r2) db"
        using resolve Some by (simp add: resolve_def)
      then have "approval_look db' k = (if k = k1 then Some (mark_row_expired now r2) else approval_look db k)"
        using Some by (simp add: look_upd)
      with Some ex assms(2) that(1,2) show ?thesis by (auto split: if_splits)
    next
      case fin
      with resolve Some assms(2) that(1) show ?thesis by (simp add: resolve_def)
    next
      case live
      then have ne: "strip res \<noteq> []" and "db' = approval_upd k1 (\<lambda>_. resolved_row now (strip res) rby nt r2) db"
        using resolve Some by (auto simp: resolve_def Let_def resolved_row_def split: if_splits)
      then have "approval_look db' k =
          (if k = k1 then Some (resolved_row now (strip res) rby nt r2) else approval_look db k)"
        using Some by (simp add: look_upd)
      with Some live ne assms(2) that(1,3) show ?thesis by (auto split: if_splits)
    qed
  qed
next
  case (list sp kinds lim)
  define dead where "dead = filter (is_expired now) (take (nat (max 1 lim))
    (select_asc ap_requested (\<lambda>r. ap_space r = sp \<and> ap_status r = APPROVAL_STATUS_PENDING
       \<and> (filter (\<lambda>k. k \<noteq> []) kinds = [] \<or> ap_kind r \<in> set (filter (\<lambda>k. k \<noteq> []) kinds))) (ap_rows db)))"
  have "db' = mark_all now dead db" using list by (simp add: list_pending_def Let_def dead_def)
  moreover have "list_all (is_expired now) dead" by (simp add: dead_def list_all_iff)
  ultimately show ?thesis using look_marked assms(2) that(1,2) by blast
next
  case (sweep b)
  define dead where "dead = filter (is_expired now) (take (nat (max 1 b))
    (filter (\<lambda>r. ap_status r = APPROVAL_STATUS_PENDING \<and> ap_expires r \<noteq> None) (ap_rows db)))"
  have "db' = mark_all now dead db" using sweep by (simp add: expire_due_def Let_def dead_def)
  moreover have "list_all (is_expired now) dead" by (simp add: dead_def list_all_iff)
  ultimately show ?thesis using look_marked assms(2) that(1,2) by blast
qed

lemma terminal_mem: "ap_status r \<in> set APPROVAL_TERMINAL_STATUSES \<Longrightarrow> \<not> is_expired now r"
  by (auto simp: is_expired_def APPROVAL_TERMINAL_STATUSES_def)

interpretation ap: deadline approval_look "\<lambda>r. ap_status r \<in> set APPROVAL_TERMINAL_STATUSES" ap_act
    is_expired mark_row_expired
proof
  fix now s s' k r
  assume step: "ap_act now s s'" and r: "approval_look s k = Some r"
  show "approval_look s' k = Some r" if "ap_status r \<in> set APPROVAL_TERMINAL_STATUSES"
    using step r by (rule act_row) (use that terminal_mem in auto)
  show "\<exists>r'. approval_look s' k = Some r'"
    using step r by (rule act_row) auto
  show "approval_look s' k = Some r \<or> approval_look s' k = Some (mark_row_expired now r)"
    if "ap_status r \<notin> set APPROVAL_TERMINAL_STATUSES" "is_expired now r"
    using step r by (rule act_row) (use that in auto)
qed (auto intro: is_expired_mono simp: APPROVAL_TERMINAL_STATUSES_def)

section \<open>Properties\<close>

text \<open>The words: the four decisions by name; any other text rejects when it contains a negative marker.\<close>

lemma target_status_cases:
  "target_status w =
     (if lower w \<in> {''approved'', ''approved_for_session''} then APPROVAL_STATUS_APPROVED
      else if \<exists>m \<in> set NEGATIVE_MARKERS. contains m (lower w) then APPROVAL_STATUS_REJECTED
      else APPROVAL_STATUS_APPROVED)"
proof -
  have "contains ''reject'' ''rejected''" "contains ''abort'' ''abort''" by code_simp+
  then show ?thesis
    by (auto simp: target_status_def APPROVAL_DECISIONS_def NEGATIVE_MARKERS_def list_ex_iff)
qed

lemma resolve_live:
  assumes "approval_look db k = Some r" "ap_status r = APPROVAL_STATUS_PENDING" "\<not> is_expired now r" "strip res \<noteq> []"
  shows "resolve now k res rby nt db =
    Inr (Some (resolved_row now (strip res) rby nt r), approval_upd k (\<lambda>_. resolved_row now (strip res) rby nt r) db)"
  using assms by (simp add: resolve_def Let_def resolved_row_def APPROVAL_TERMINAL_STATUSES_def)

text \<open>Plain words of assent that happen to contain "no" are read as a rejection.\<close>

lemma assent_rejected:
  "target_status ''acknowledged'' = APPROVAL_STATUS_REJECTED"
  "target_status ''ok, noted'' = APPROVAL_STATUS_REJECTED"
  "target_status ''yes, do it now'' = APPROVAL_STATUS_REJECTED"
  by code_simp+

text \<open>C11: An approval is decided once and in time. A row that is already decided or expired stays as
  it is, and a row whose deadline has passed is afterwards unchanged or marked expired, whatever
  requests, reads, resolutions, listings and sweeps follow, in any order and number.\<close>

theorem approval_decided_once:
  assumes "timed_run ap_act ts db db'" "approval_look db k = Some r"
    and "ap_status r \<in> set APPROVAL_TERMINAL_STATUSES \<or> (is_expired t r \<and> (\<forall>now \<in> set ts. t \<le> now))"
  shows "approval_look db' k = Some r
    \<or> (ap_status r = APPROVAL_STATUS_PENDING \<and> (\<exists>now \<in> set ts. approval_look db' k = Some (mark_row_expired now r)))"
proof (cases "ap_status r \<in> set APPROVAL_TERMINAL_STATUSES")
  case True
  with assms show ?thesis using ap.run_stays by blast
next
  case False
  with assms have late: "is_expired t r" "\<forall>now \<in> set ts. t \<le> now" by auto
  have "approval_look db' k = Some r \<or> (\<exists>now \<in> set ts. approval_look db' k = Some (mark_row_expired now r))"
    using assms(1) late(2,1) False assms(2) by (rule ap.run_late)
  with is_expiredD [OF late(1)] show ?thesis by blast
qed

definition sample_approvals :: approvals where
  "sample_approvals = (case request 0 ''s'' ''exec'' [] ''ann'' (Some 5) None \<lparr>ap_rows = [], ap_next = 0\<rparr> of
     Inr (_, db) \<Rightarrow> db | Inl _ \<Rightarrow> \<lparr>ap_rows = [], ap_next = 0\<rparr>)"

theorem approval_decided_once_witness:
  "approval_look (snd (approval_get (seconds 7) (Gen 0) sample_approvals)) (Gen 0)
     \<in> {approval_look sample_approvals (Gen 0),
        map_option (mark_row_expired (seconds 7)) (approval_look sample_approvals (Gen 0))}"
proof -
  obtain r where r: "approval_look sample_approvals (Gen 0) = Some r" "is_expired (seconds 6) r"
  proof -
    have "case approval_look sample_approvals (Gen 0) of None \<Rightarrow> False | Some r \<Rightarrow> is_expired (seconds 6) r"
      by code_simp
    then show ?thesis using that by (auto split: option.splits)
  qed
  have "timed_run ap_act [seconds 7] sample_approvals (snd (approval_get (seconds 7) (Gen 0) sample_approvals))"
    by (auto intro: ap_act.get)
  from approval_decided_once [OF this r(1), of "seconds 6"] r show ?thesis by auto
qed

end
