(* ===== verification/RemoteTasks.thy ===== *)
theory RemoteTasks
  imports Presence Approvals
begin

text \<open>
  \<open>services/remote_task_service.py\<close> over the tables of \<open>kernel/operations.py\<close>: tasks a machine's
  agents claim, work on and settle. A claim takes a kernel lease on the task and an assignment with
  the lease's token; approvals are mirrored to the kernel's approvals. The ids of tasks and of
  approvals, drawn with \<open>uuid4\<close>, are arguments of the operations that create them.
\<close>

section \<open>Rows\<close>

record rtask =
  x_id :: string
  x_machine :: string
  x_thread :: string
  x_surface :: string
  x_message :: "string option"
  x_objective :: string
  x_criteria :: obj
  x_status :: string
  x_priority :: string
  x_owner :: "string option"
  x_created_by :: string
  x_created :: instant
  x_updated :: instant

record assignment =
  g_id :: nat
  g_task :: string
  g_actor :: string
  g_token :: key
  g_expires :: instant
  g_status :: string
  g_claimed :: instant
  g_released :: "instant option"

record beat =
  hb_task :: string
  hb_actor :: string
  hb_phase :: string
  hb_summary :: "string option"
  hb_commands :: int
  hb_reads :: int
  hb_writes :: int
  hb_tests :: int
  hb_created :: instant

record evidence =
  w_task :: string
  w_actor :: string
  w_kind :: string
  w_summary :: string
  w_payload :: obj
  w_created :: instant

record task_approval =
  ta_id :: string
  ta_task :: string
  ta_actor :: string
  ta_reason :: string
  ta_status :: string
  ta_note :: "string option"
  ta_requested :: instant
  ta_resolved :: "instant option"
  ta_resolved_by :: "string option"
  ta_resolution :: "string option"

record task_note =
  tn_task :: string
  tn_actor :: string
  tn_kind :: string
  tn_content :: string
  tn_created :: instant

record remote =
  t_tasks :: "rtask list"
  t_assigns :: "assignment list"
  t_beats :: "beat list"
  t_evidence :: "evidence list"
  t_approvals :: "task_approval list"
  t_notes :: "task_note list"
  t_presence :: presence
  t_kernel :: approvals
  t_next :: nat

datatype remote_error =
  TaskIdExists | TaskNotFound | NoAssignment | OwnedBy string | TokenDiffers | AssignmentExpired
| NoKernelLease | KernelLeaseDiffers | LeaseErr lease_error | NoPendingApproval | UnsupportedStatus

abbreviation REMOTE_TASK_RESOURCE_KIND :: string where "REMOTE_TASK_RESOURCE_KIND \<equiv> ''remote_task''"
abbreviation MACHINE_SCOPE_KIND :: string where "MACHINE_SCOPE_KIND \<equiv> ''machine''"
abbreviation REMOTE_TASK_APPROVAL_KIND :: string where "REMOTE_TASK_APPROVAL_KIND \<equiv> ''remote_task.approval''"

definition remote_task_space_id :: "string \<Rightarrow> string" where
  "remote_task_space_id k = ''remote_task:'' @ k"

definition WORK_EVIDENCE_KINDS :: "string list" where
  "WORK_EVIDENCE_KINDS =
     [''command_execution'', ''file_read'', ''file_write'', ''test_result'', ''runtime_turn_started'',
      ''runtime_turn_completed'']"

section \<open>Reading\<close>

definition task_row :: "string \<Rightarrow> remote \<Rightarrow> rtask option" where
  "task_row k db = row_get x_id k (t_tasks db)"

definition require_task :: "string \<Rightarrow> remote \<Rightarrow> remote_error + rtask" where
  "require_task k db = (case task_row k db of None \<Rightarrow> Inl TaskNotFound | Some r \<Rightarrow> Inr r)"

definition claimed_by :: "string \<Rightarrow> assignment \<Rightarrow> bool" where
  "claimed_by k a \<longleftrightarrow> g_task a = k \<and> g_status a = ''claimed''"

definition current_assignment :: "string \<Rightarrow> remote \<Rightarrow> assignment option" where
  "current_assignment k db =
     (case select_desc g_claimed (claimed_by k) (t_assigns db) of [] \<Rightarrow> None | a # _ \<Rightarrow> Some a)"

definition latest_approval :: "string \<Rightarrow> remote \<Rightarrow> task_approval option" where
  "latest_approval k db =
     (case select_desc ta_requested (\<lambda>a. ta_task a = k) (t_approvals db) of [] \<Rightarrow> None | a # _ \<Rightarrow> Some a)"

definition latest_beat :: "string \<Rightarrow> remote \<Rightarrow> beat option" where
  "latest_beat k db =
     (case select_desc hb_created (\<lambda>b. hb_task b = k) (t_beats db) of [] \<Rightarrow> None | b # _ \<Rightarrow> Some b)"

record task_summary =
  ts_row :: rtask
  ts_assignment :: "assignment option"
  ts_approval :: "task_approval option"
  ts_beat :: "beat option"
  ts_evidence :: "evidence list"

definition to_summary :: "rtask \<Rightarrow> remote \<Rightarrow> task_summary" where
  "to_summary r db =
     \<lparr>ts_row = r, ts_assignment = current_assignment (x_id r) db, ts_approval = latest_approval (x_id r) db,
      ts_beat = latest_beat (x_id r) db,
      ts_evidence = take 10 (select_desc w_created (\<lambda>w. w_task w = x_id r) (t_evidence db))\<rparr>"

definition remote_list_tasks ::
  "string option \<Rightarrow> string option \<Rightarrow> string list \<Rightarrow> int \<Rightarrow> remote \<Rightarrow> task_summary list" where
  "remote_list_tasks machine thread statuses limit db =
     map (\<lambda>r. to_summary r db)
       (take (nat (max 1 (min limit 200)))
         (sort_key (\<lambda>r. - x_updated r)
           (select_desc x_created
             (\<lambda>r. (case machine of None \<Rightarrow> True | Some m \<Rightarrow> m = [] \<or> x_machine r = m)
                  \<and> (case thread of None \<Rightarrow> True | Some t \<Rightarrow> t = [] \<or> x_thread r = t)
                  \<and> (statuses = [] \<or> x_status r \<in> set statuses)) (t_tasks db))))"

definition get_task :: "string \<Rightarrow> remote \<Rightarrow> remote_error + task_summary" where
  "get_task k db = bindE (require_task k db) (\<lambda>r. Inr (to_summary r db))"

definition get_latest_approval :: "string \<Rightarrow> remote \<Rightarrow> remote_error + task_approval option" where
  "get_latest_approval k db = bindE (require_task k db) (\<lambda>r. Inr (latest_approval k db))"

section \<open>Writing\<close>

definition task_set :: "string \<Rightarrow> (rtask \<Rightarrow> rtask) \<Rightarrow> remote \<Rightarrow> remote" where
  "task_set k f db = db\<lparr>t_tasks := row_upd x_id k f (t_tasks db)\<rparr>"

definition assign_set :: "nat \<Rightarrow> (assignment \<Rightarrow> assignment) \<Rightarrow> remote \<Rightarrow> remote" where
  "assign_set k f db = db\<lparr>t_assigns := row_upd g_id k f (t_assigns db)\<rparr>"

text \<open>The loaded row is written with its status and owner; the caller gets its summary.\<close>

definition finish ::
  "instant \<Rightarrow> rtask \<Rightarrow> string option \<Rightarrow> string \<Rightarrow> remote \<Rightarrow> task_summary \<times> remote" where
  "finish now r owner status db =
     (let r' = r\<lparr>x_status := status, x_updated := now,
                  x_owner := (case owner of None \<Rightarrow> x_owner r | Some h \<Rightarrow> Some h)\<rparr>;
          db' = task_set (x_id r) (\<lambda>_. r') db
      in (to_summary r' db', db'))"

definition create_task ::
  "instant \<Rightarrow> string \<Rightarrow> string \<Rightarrow> string \<Rightarrow> string \<Rightarrow> obj \<Rightarrow> string \<Rightarrow> string option \<Rightarrow> string \<Rightarrow> string
     \<Rightarrow> remote \<Rightarrow> remote_error + task_summary \<times> remote" where
  "create_task now k machine thread objective criteria surface message priority created_by db =
     (let r = \<lparr>x_id = k, x_machine = machine, x_thread = thread, x_surface = surface, x_message = message,
               x_objective = objective, x_criteria = criteria, x_status = ''queued'', x_priority = priority,
               x_owner = None, x_created_by = created_by, x_created = now, x_updated = now\<rparr>;
          db' = db\<lparr>t_tasks := t_tasks db @ [r]\<rparr>
      in if task_row k db \<noteq> None then Inl TaskIdExists else Inr (to_summary r db', db'))"

definition upsert_machine_presence ::
  "instant \<Rightarrow> rtask \<Rightarrow> string \<Rightarrow> int \<Rightarrow> string \<Rightarrow> remote \<Rightarrow> remote" where
  "upsert_machine_presence now r actor ttl status db =
     db\<lparr>t_presence := snd (upsert_actor_session now None actor MACHINE_SCOPE_KIND (x_machine r) status ttl
                             (t_presence db))\<rparr>"

definition upsert_assignment_from_lease ::
  "instant \<Rightarrow> rtask \<Rightarrow> assignment option \<Rightarrow> rlease \<Rightarrow> remote \<Rightarrow> remote" where
  "upsert_assignment_from_lease now r a l db =
     (let new = db\<lparr>t_assigns := t_assigns db @
                  [\<lparr>g_id = t_next db, g_task = x_id r, g_actor = l_holder l, g_token = l_token l,
                    g_expires = l_expires l, g_status = ''claimed'', g_claimed = l_claimed l, g_released = None\<rparr>],
                  t_next := Suc (t_next db)\<rparr>
      in case a of
           None \<Rightarrow> new
         | Some x \<Rightarrow>
             (if g_expires x \<le> now \<and> g_released x = None
              then assign_set (g_id x) (\<lambda>y. y\<lparr>g_status := ''expired'', g_released := Some now\<rparr>) new
              else if g_actor x = l_holder l \<and> g_released x = None \<and> g_status x = ''claimed''
              then assign_set (g_id x) (\<lambda>y. y\<lparr>g_token := l_token l, g_expires := l_expires l\<rparr>) db
              else new))"

definition claim_in_session ::
  "instant \<Rightarrow> string \<Rightarrow> int \<Rightarrow> rtask \<Rightarrow> remote \<Rightarrow> remote_error + task_summary \<times> remote" where
  "claim_in_session now actor secs r db =
     (let a = current_assignment (x_id r) db;
          token = (case a of None \<Rightarrow> None | Some x \<Rightarrow> if g_actor x = actor then Some (g_token x) else None)
      in bindE (map_err LeaseErr (claim_resource_lease now REMOTE_TASK_RESOURCE_KIND (x_id r) actor token
                  (clamp_seconds secs) ''claimed'' (t_presence db))) (\<lambda>(l, p1).
           Inr (finish now r (Some actor) ''claimed''
                  (upsert_machine_presence now r actor (clamp_seconds secs) ''claimed''
                    (upsert_assignment_from_lease now r a l (db\<lparr>t_presence := p1\<rparr>))))))"

definition claim_task ::
  "instant \<Rightarrow> string \<Rightarrow> string \<Rightarrow> int \<Rightarrow> remote \<Rightarrow> remote_error + task_summary \<times> remote" where
  "claim_task now k actor secs db = bindE (require_task k db) (\<lambda>r. claim_in_session now actor secs r db)"

definition priority_rank :: "string \<Rightarrow> nat" where
  "priority_rank p = (if p = ''critical'' then 0 else if p = ''high'' then 1 else if p = ''normal'' then 2 else 3)"

definition exclude_surfaces :: "string list \<Rightarrow> string list" where
  "exclude_surfaces items =
     fold (\<lambda>item acc. let t = lower (strip item) in if t = [] \<or> t \<in> set acc then acc else acc @ [t]) items []"

definition claim_next_task ::
  "instant \<Rightarrow> string \<Rightarrow> string \<Rightarrow> int \<Rightarrow> string list \<Rightarrow> remote
     \<Rightarrow> remote_error + task_summary option \<times> remote" where
  "claim_next_task now machine actor secs exclude db =
     (case sort_key (\<lambda>r. priority_rank (x_priority r))
             (select_asc x_created
               (\<lambda>r. x_machine r = machine \<and> x_status r = ''queued''
                    \<and> x_surface r \<notin> set (exclude_surfaces exclude)) (t_tasks db)) of
        [] \<Rightarrow> Inr (None, db)
      | r # _ \<Rightarrow> bindE (claim_in_session now actor secs r db) (\<lambda>(s, db'). Inr (Some s, db')))"

definition require_active_assignment ::
  "instant \<Rightarrow> rtask \<Rightarrow> string \<Rightarrow> key \<Rightarrow> remote \<Rightarrow> remote_error + assignment" where
  "require_active_assignment now r actor token db =
     (case current_assignment (x_id r) db of
        None \<Rightarrow> Inl NoAssignment
      | Some a \<Rightarrow>
          (if g_actor a \<noteq> actor then Inl (OwnedBy (g_actor a))
           else if g_token a \<noteq> token then Inl TokenDiffers
           else if g_expires a \<le> now then Inl AssignmentExpired
           else Inr a))"

definition status_for_heartbeat :: "string \<Rightarrow> int \<Rightarrow> int \<Rightarrow> int \<Rightarrow> int \<Rightarrow> string" where
  "status_for_heartbeat phase commands reads writes tests =
     (let p = lower (strip phase); work = 0 < commands \<or> 0 < reads \<or> 0 < writes \<or> 0 < tests
      in if p \<in> {''blocked_approval'', ''approval'', ''waiting_approval''} then ''blocked_approval''
         else if p \<in> {''interrupted'', ''interrupting''} then ''interrupted''
         else if p = ''verifying'' then (if work then ''verifying'' else ''claimed'')
         else if p \<in> {''executing'', ''working'', ''running''} then (if work then ''executing'' else ''claimed'')
         else ''claimed'')"

definition heartbeat_task ::
  "instant \<Rightarrow> string \<Rightarrow> string \<Rightarrow> key \<Rightarrow> string \<Rightarrow> string option \<Rightarrow> int \<Rightarrow> int \<Rightarrow> int \<Rightarrow> int \<Rightarrow> int \<Rightarrow> remote
     \<Rightarrow> remote_error + task_summary \<times> remote" where
  "heartbeat_task now k actor token phase summary commands reads writes tests secs db =
     bindE (require_task k db) (\<lambda>r.
     bindE (require_active_assignment now r actor token db) (\<lambda>a.
     case get_current_lease now REMOTE_TASK_RESOURCE_KIND (x_id r) (t_presence db) of
       None \<Rightarrow> Inl NoKernelLease
     | Some l0 \<Rightarrow>
     bindE (map_err LeaseErr (heartbeat_resource_lease now (l_id l0) actor token (max 0 secs) (Some ''claimed'')
              (t_presence db))) (\<lambda>(l, p1).
       let status = status_for_heartbeat phase (max 0 commands) (max 0 reads) (max 0 writes) (max 0 tests);
           b = \<lparr>hb_task = x_id r, hb_actor = actor, hb_phase = phase, hb_summary = summary,
                hb_commands = max 0 commands, hb_reads = max 0 reads, hb_writes = max 0 writes,
                hb_tests = max 0 tests, hb_created = now\<rparr>;
           db1 = assign_set (g_id a) (\<lambda>y. y\<lparr>g_expires := l_expires l\<rparr>)
                   (db\<lparr>t_beats := t_beats db @ [b], t_presence := p1\<rparr>)
       in Inr (finish now r (Some actor) status (upsert_machine_presence now r actor (max 0 secs) status db1)))))"

definition add_evidence_row :: "instant \<Rightarrow> string \<Rightarrow> string \<Rightarrow> string \<Rightarrow> string \<Rightarrow> obj \<Rightarrow> remote \<Rightarrow> remote" where
  "add_evidence_row now k actor kind summary payload db =
     db\<lparr>t_evidence := t_evidence db @
        [\<lparr>w_task = k, w_actor = actor, w_kind = kind, w_summary = summary, w_payload = payload, w_created = now\<rparr>]\<rparr>"

definition add_evidence ::
  "instant \<Rightarrow> string \<Rightarrow> string \<Rightarrow> string \<Rightarrow> string \<Rightarrow> obj \<Rightarrow> remote \<Rightarrow> remote_error + task_summary \<times> remote" where
  "add_evidence now k actor kind summary payload db =
     bindE (require_task k db) (\<lambda>r.
       Inr (finish now r None
              (if kind \<in> set WORK_EVIDENCE_KINDS \<and> x_status r \<in> {''queued'', ''claimed''}
               then ''executing'' else x_status r)
              (add_evidence_row now (x_id r) actor kind summary payload db)))"

text \<open>The kernel mirror of an approval; its failures are swallowed.\<close>

definition mirror_approval_request :: "instant \<Rightarrow> string \<Rightarrow> task_approval \<Rightarrow> approvals \<Rightarrow> approvals" where
  "mirror_approval_request now k ap db =
     (case request now (remote_task_space_id k) REMOTE_TASK_APPROVAL_KIND
             [(''task_id'', JStr k), (''actor_id'', JStr (ta_actor ap)), (''reason'', JStr (ta_reason ap))]
             (ta_actor ap) None (Some (ta_id ap)) db of
        Inl e \<Rightarrow> db
      | Inr (x, db') \<Rightarrow> db')"

definition mirror_approval_resolve ::
  "instant \<Rightarrow> string \<Rightarrow> string \<Rightarrow> string \<Rightarrow> string option \<Rightarrow> approvals \<Rightarrow> approvals" where
  "mirror_approval_resolve now k resolution resolved_by note' db =
     (case resolve now (Ext k) resolution resolved_by note' db of Inl e \<Rightarrow> db | Inr (x, db') \<Rightarrow> db')"

definition request_approval ::
  "instant \<Rightarrow> string \<Rightarrow> string \<Rightarrow> string \<Rightarrow> key \<Rightarrow> string \<Rightarrow> string option \<Rightarrow> remote
     \<Rightarrow> remote_error + task_summary \<times> remote" where
  "request_approval now aid k actor token reason note' db =
     bindE (require_task k db) (\<lambda>r.
     bindE (require_active_assignment now r actor token db) (\<lambda>a.
       let ap = \<lparr>ta_id = aid, ta_task = x_id r, ta_actor = actor, ta_reason = reason, ta_status = ''pending'',
                 ta_note = note', ta_requested = now, ta_resolved = None, ta_resolved_by = None,
                 ta_resolution = None\<rparr>
       in Inr (finish now r (Some actor) ''blocked_approval''
                 (db\<lparr>t_approvals := t_approvals db @ [ap],
                     t_kernel := mirror_approval_request now (x_id r) ap (t_kernel db)\<rparr>))))"

definition resolve_approval ::
  "instant \<Rightarrow> string \<Rightarrow> string \<Rightarrow> string \<Rightarrow> string option \<Rightarrow> remote \<Rightarrow> remote_error + task_summary \<times> remote" where
  "resolve_approval now k resolved_by resolution note' db =
     bindE (require_task k db) (\<lambda>r.
       case latest_approval (x_id r) db of
         None \<Rightarrow> Inl NoPendingApproval
       | Some ap \<Rightarrow>
           (if ta_status ap \<noteq> ''pending'' then Inl NoPendingApproval
            else
              let db1 = db\<lparr>t_approvals := row_upd ta_id (ta_id ap)
                         (\<lambda>y. y\<lparr>ta_status := ''resolved'',
                                ta_note := (case note' of None \<Rightarrow> ta_note y
                                            | Some s \<Rightarrow> if s = [] then ta_note y else Some s),
                                ta_resolved := Some now, ta_resolved_by := Some resolved_by,
                                ta_resolution := Some resolution\<rparr>) (t_approvals db),
                       t_kernel := mirror_approval_resolve now (ta_id ap) resolution resolved_by note' (t_kernel db)\<rparr>
              in Inr (finish now r None (if resolution = ''approved'' then ''claimed'' else ''failed'') db1)))"

definition add_note ::
  "instant \<Rightarrow> string \<Rightarrow> string \<Rightarrow> string \<Rightarrow> string \<Rightarrow> remote \<Rightarrow> remote_error + task_note \<times> remote" where
  "add_note now k actor kind content db =
     bindE (require_task k db) (\<lambda>r.
       let n = \<lparr>tn_task = x_id r, tn_actor = actor, tn_kind = kind, tn_content = content, tn_created = now\<rparr>
       in Inr (n, task_set (x_id r) (\<lambda>y. y\<lparr>x_updated := now\<rparr>) (db\<lparr>t_notes := t_notes db @ [n]\<rparr>)))"

definition list_notes :: "string \<Rightarrow> remote \<Rightarrow> remote_error + task_note list" where
  "list_notes k db =
     bindE (require_task k db) (\<lambda>r. Inr (select_asc tn_created (\<lambda>n. tn_task n = x_id r) (t_notes db)))"

definition release_kernel_lease_if_present ::
  "instant \<Rightarrow> rtask \<Rightarrow> string \<Rightarrow> key \<Rightarrow> string \<Rightarrow> remote \<Rightarrow> remote_error + remote" where
  "release_kernel_lease_if_present now r actor token status db =
     (case get_current_lease now REMOTE_TASK_RESOURCE_KIND (x_id r) (t_presence db) of
        None \<Rightarrow> Inr db
      | Some l \<Rightarrow>
          (if l_holder l \<noteq> actor \<or> l_token l \<noteq> token then Inl KernelLeaseDiffers
           else bindE (map_err LeaseErr (release_resource_lease now (l_id l) actor token status (t_presence db)))
                  (\<lambda>(l', p1). Inr (db\<lparr>t_presence := p1\<rparr>))))"

text \<open>
  What \<open>interrupt_task\<close>, \<open>complete_task\<close> and \<open>fail_task\<close> share once the caller's assignment is
  known to be active: release the lease, settle the assignment, the row and the presence.
\<close>

definition settle ::
  "instant \<Rightarrow> rtask \<Rightarrow> assignment \<Rightarrow> string \<Rightarrow> key \<Rightarrow> string \<Rightarrow> remote \<Rightarrow> remote_error + task_summary \<times> remote" where
  "settle now r a actor token status db =
     bindE (release_kernel_lease_if_present now r actor token ''released'' db) (\<lambda>db1.
       Inr (finish now r (Some actor) status
              (upsert_machine_presence now r actor 60 ''idle''
                (assign_set (g_id a) (\<lambda>y. y\<lparr>g_status := status, g_released := Some now\<rparr>) db1))))"

definition interrupt_task ::
  "instant \<Rightarrow> string \<Rightarrow> string \<Rightarrow> key \<Rightarrow> string option \<Rightarrow> remote \<Rightarrow> remote_error + task_summary \<times> remote" where
  "interrupt_task now k actor token note' db =
     bindE (require_task k db) (\<lambda>r.
     bindE (require_active_assignment now r actor token db) (\<lambda>a.
       settle now r a actor token ''interrupted''
         (case note' of
            None \<Rightarrow> db
          | Some s \<Rightarrow> if s = [] then db
              else db\<lparr>t_notes := t_notes db @ [\<lparr>tn_task = x_id r, tn_actor = actor, tn_kind = ''interrupt'',
                                               tn_content = s, tn_created = now\<rparr>]\<rparr>)))"

definition complete_task ::
  "instant \<Rightarrow> string \<Rightarrow> string \<Rightarrow> key \<Rightarrow> string option \<Rightarrow> remote \<Rightarrow> remote_error + task_summary \<times> remote" where
  "complete_task now k actor token summary db =
     bindE (require_task k db) (\<lambda>r.
     bindE (require_active_assignment now r actor token db) (\<lambda>a.
       settle now r a actor token ''completed''
         (case summary of
            None \<Rightarrow> db
          | Some s \<Rightarrow> if s = [] then db
              else add_evidence_row now (x_id r) actor ''result'' s [(''kind'', JStr ''result'')] db)))"

definition fail_task ::
  "instant \<Rightarrow> string \<Rightarrow> string \<Rightarrow> key \<Rightarrow> string \<Rightarrow> remote \<Rightarrow> remote_error + task_summary \<times> remote" where
  "fail_task now k actor token error_text db =
     bindE (require_task k db) (\<lambda>r.
     bindE (require_active_assignment now r actor token db) (\<lambda>a.
       settle now r a actor token ''failed''
         (add_evidence_row now (x_id r) actor ''error'' error_text [(''kind'', JStr ''error'')] db)))"

definition settle_stale_task ::
  "instant \<Rightarrow> string \<Rightarrow> string \<Rightarrow> string \<Rightarrow> obj \<Rightarrow> remote \<Rightarrow> remote_error + task_summary \<times> remote" where
  "settle_stale_task now k final_status summary payload db =
     (if final_status \<notin> {''completed'', ''failed'', ''interrupted''} then Inl UnsupportedStatus
      else bindE (require_task k db) (\<lambda>r.
        if x_status r \<in> {''completed'', ''failed'', ''interrupted''} then Inr (to_summary r db, db)
        else
          let a = current_assignment (x_id r) db;
              actor = (case a of Some x \<Rightarrow> g_actor x
                       | None \<Rightarrow> (case x_owner r of None \<Rightarrow> ''bridge-service''
                                 | Some h \<Rightarrow> if h = [] then ''bridge-service'' else h))
          in bindE (case (get_current_lease now REMOTE_TASK_RESOURCE_KIND (x_id r) (t_presence db), a) of
                 (Some l, Some x) \<Rightarrow>
                   (if l_holder l = g_actor x \<and> l_token l = g_token x
                    then bindE (map_err LeaseErr (release_resource_lease now (l_id l) (g_actor x) (g_token x)
                             ''released'' (t_presence db))) (\<lambda>(l', p1). Inr (db\<lparr>t_presence := p1\<rparr>))
                    else Inr db)
               | _ \<Rightarrow> Inr db) (\<lambda>db1.
               let db2 = (case a of
                            Some x \<Rightarrow> (if g_released x = None
                              then assign_set (g_id x) (\<lambda>y. y\<lparr>g_status := final_status, g_released := Some now\<rparr>) db1
                              else db1)
                          | None \<Rightarrow> db1);
                   db3 = add_evidence_row now (x_id r) actor
                           (if final_status = ''completed'' then ''result'' else ''error'') summary
                           (fold (\<lambda>(f, v) o'. AList.update f v o') payload
                             [(''kind'', JStr ''stale_task_cleanup''), (''finalStatus'', JStr final_status)]) db2
               in Inr (finish now r (Some actor) final_status db3))))"

section \<open>Leases and assignments agree\<close>

definition claimed_of :: "string \<Rightarrow> remote \<Rightarrow> assignment list" where
  "claimed_of k db = filter (claimed_by k) (t_assigns db)"

definition task_lease :: "instant \<Rightarrow> string \<Rightarrow> remote \<Rightarrow> rlease option" where
  "task_lease now k db = get_current_lease now REMOTE_TASK_RESOURCE_KIND k (t_presence db)"

text \<open>
  At \<open>now\<close>, the current kernel lease of a task is that of its one claimed assignment; without a
  lease there is at most one claimed assignment, and it has run out.
\<close>

definition agree :: "instant \<Rightarrow> string \<Rightarrow> remote \<Rightarrow> bool" where
  "agree now k db =
     (case task_lease now k db of
        Some l \<Rightarrow> l_status l = ''claimed''
          \<and> (\<exists>a. claimed_of k db = [a] \<and> g_actor a = l_holder l \<and> g_token a = l_token l \<and> g_expires a = l_expires l)
      | None \<Rightarrow> claimed_of k db = [] \<or> (\<exists>a. claimed_of k db = [a] \<and> g_expires a \<le> now))"

definition remote_ok :: "instant \<Rightarrow> remote \<Rightarrow> bool" where
  "remote_ok now db \<longleftrightarrow>
     presence_inv now (t_presence db)
     \<and> distinct (map g_id (t_assigns db)) \<and> (\<forall>a \<in> set (t_assigns db). g_id a < t_next db)
     \<and> (\<forall>a \<in> set (t_assigns db). g_status a = ''claimed'' \<longrightarrow> g_released a = None)
     \<and> (\<forall>k. agree now k db)"

lemma remote_okD:
  assumes "remote_ok now db"
  shows "presence_inv now (t_presence db)" "distinct (map g_id (t_assigns db))" "agree now k db"
    and "a \<in> set (t_assigns db) \<Longrightarrow> g_id a < t_next db"
    and "a \<in> set (t_assigns db) \<Longrightarrow> g_status a = ''claimed'' \<Longrightarrow> g_released a = None"
  using assms by (auto simp: remote_ok_def)

lemma current_of_claimed:
  "claimed_of k db = [a] \<Longrightarrow> current_assignment k db = Some a"
  "claimed_of k db = [] \<Longrightarrow> current_assignment k db = None"
  by (simp_all add: claimed_of_def current_assignment_def select_desc_def)

lemma claimed_of_mem: "claimed_of k db = [a] \<Longrightarrow> a \<in> set (t_assigns db) \<and> g_task a = k \<and> g_status a = ''claimed''"
proof -
  assume "claimed_of k db = [a]"
  then have "a \<in> set (claimed_of k db)" by simp
  then show ?thesis by (simp add: claimed_of_def claimed_by_def)
qed

lemma agree_cases:
  assumes "remote_ok now db"
  obtains (held) l a where "task_lease now k db = Some l" "claimed_of k db = [a]" "g_actor a = l_holder l"
      "g_token a = l_token l" "g_expires a = l_expires l" "l_status l = ''claimed''" "now < l_expires l"
  | (free) "task_lease now k db = None" "claimed_of k db = []"
  | (lapsed) a where "task_lease now k db = None" "claimed_of k db = [a]" "g_expires a \<le> now"
proof (cases "task_lease now k db")
  case None
  with remote_okD(3) [OF assms, of k] free lapsed show ?thesis by (auto simp: agree_def)
next
  case (Some l)
  then have "now < l_expires l" unfolding task_lease_def by (auto dest!: get_current_SomeD simp: current_at_def)
  with Some remote_okD(3) [OF assms, of k] held show ?thesis by (auto simp: agree_def)
qed

text \<open>The rest of the tables does not matter to the invariant.\<close>

lemma agree_cong:
  "task_lease now k db' = task_lease now k db \<Longrightarrow> claimed_of k db' = claimed_of k db \<Longrightarrow> agree now k db' = agree now k db"
  by (simp only: agree_def)

lemma claimed_of_cong: "t_assigns db' = t_assigns db \<Longrightarrow> claimed_of k db' = claimed_of k db"
  by (simp add: claimed_of_def)

lemma remote_ok_frame:
  assumes "remote_ok now db" "t_assigns db' = t_assigns db" "t_next db' = t_next db"
    and "\<And>k. task_lease now k db' = task_lease now k db" "presence_inv now (t_presence db')"
  shows "remote_ok now db'"
  using assms agree_cong [OF assms(4) claimed_of_cong [OF assms(2)]] by (simp add: remote_ok_def)

lemma task_set_frame [simp]:
  "t_assigns (task_set k f db) = t_assigns db" "t_next (task_set k f db) = t_next db"
  "t_presence (task_set k f db) = t_presence db"
  by (simp_all add: task_set_def)

lemma finish_frame [simp]:
  "t_assigns (snd (finish now r h st db)) = t_assigns db" "t_next (snd (finish now r h st db)) = t_next db"
  "t_presence (snd (finish now r h st db)) = t_presence db"
  by (simp_all add: finish_def Let_def)

lemma presence_frame [simp]:
  "t_assigns (upsert_machine_presence now r h ttl st db) = t_assigns db"
  "t_next (upsert_machine_presence now r h ttl st db) = t_next db"
  "task_lease t k (upsert_machine_presence now r h ttl st db) = task_lease t k db"
  by (simp_all add: upsert_machine_presence_def task_lease_def)

lemma finish_remote_ok: "remote_ok now (snd (finish t r h st db)) \<longleftrightarrow> remote_ok now db"
proof -
  have "agree now k (snd (finish t r h st db)) = agree now k db" for k
    by (rule agree_cong) (simp add: task_lease_def, rule claimed_of_cong, simp)
  then show ?thesis by (simp add: remote_ok_def)
qed

lemma finish_presence_ok:
  "remote_ok now db \<Longrightarrow> remote_ok now (snd (finish t r h st (upsert_machine_presence t r h' ttl st' db)))"
  unfolding finish_remote_ok
  by (rule remote_ok_frame) (simp_all, simp add: upsert_machine_presence_def remote_okD(1))

lemma remote_ok_later:
  assumes "remote_ok t db" "t \<le> now"
  shows "remote_ok now db"
proof -
  have inv: "presence_inv t (t_presence db)" by (rule remote_okD(1) [OF assms(1)])
  have "agree now k db" for k
  proof (cases "task_lease now k db")
    case (Some l)
    then have "task_lease t k db = Some l"
      using get_current_iff [OF inv order_refl] get_current_iff [OF inv assms(2)] current_earlier [OF _ assms(2)]
      unfolding task_lease_def by blast
    with Some remote_okD(3) [OF assms(1), of k] show ?thesis by (simp add: agree_def)
  next
    case None
    show ?thesis using assms(1)
    proof (cases rule: agree_cases [where k = k])
      case (held l a)
      have "\<not> current_at now l" "current_at t l"
        using get_current_SomeD [OF held(1) [unfolded task_lease_def]] get_current_NoneD [OF None [unfolded task_lease_def], of l]
        by auto
      then have "l_expires l \<le> now" by (auto simp: current_at_def)
      with None held show ?thesis by (simp add: agree_def)
    qed (use None assms(2) in \<open>auto simp: agree_def\<close>)
  qed
  with assms(1) presence_inv_later [OF inv assms(2)] show ?thesis by (simp add: remote_ok_def)
qed

text \<open>Writing the one claimed assignment of a task.\<close>

lemma assign_set_claimed:
  assumes "distinct (map g_id (t_assigns db))" "claimed_of (g_task a) db = [a]" "g_task (f a) = g_task a"
  shows "claimed_of k (assign_set (g_id a) f db) =
    (if k = g_task a then (if g_status (f a) = ''claimed'' then [f a] else []) else claimed_of k db)"
proof -
  have "a \<in> set (t_assigns db)" using claimed_of_mem [OF assms(2)] by simp
  then obtain ys zs where split: "t_assigns db = ys @ a # zs" by (auto simp: in_set_conv_decomp)
  then have upd: "t_assigns (assign_set (g_id a) f db) = ys @ f a # zs"
    using row_upd_split [of g_id ys a zs f] assms(1) by (simp add: assign_set_def)
  have cl: "claimed_by (g_task a) a" using claimed_of_mem [OF assms(2)] by (simp add: claimed_by_def)
  have "filter (claimed_by (g_task a)) ys @ [a] @ filter (claimed_by (g_task a)) zs = [a]"
    using assms(2) cl by (simp add: claimed_of_def split)
  then have "filter (claimed_by (g_task a)) ys = []" "filter (claimed_by (g_task a)) zs = []"
    by (auto simp: append_eq_Cons_conv)
  with assms(3) cl show ?thesis
    by (auto simp: claimed_of_def upd split claimed_by_def)
qed

lemma assign_set_ids:
  assumes "\<And>a. g_id (f a) = g_id a"
  shows "map g_id (t_assigns (assign_set i f db)) = map g_id (t_assigns db)"
  using assms unfolding assign_set_def by (simp add: row_upd_keys)

lemma assign_set_frame [simp]:
  "t_next (assign_set i f db) = t_next db" "t_presence (assign_set i f db) = t_presence db"
  "task_lease now k (assign_set i f db) = task_lease now k db"
  by (simp_all add: assign_set_def task_lease_def)

section \<open>Every operation keeps the agreement\<close>

text \<open>Changing the one claimed assignment of a task together with its lease.\<close>

lemma remote_ok_assign:
  assumes ok: "remote_ok now db" and a: "claimed_of k db = [a]"
    and f: "\<And>y. g_id (f y) = g_id y" "\<And>y. g_task (f y) = g_task y"
      "g_status (f a) = ''claimed'' \<longrightarrow> g_released (f a) = None"
    and p: "presence_inv now p1" "\<And>j. j \<noteq> k \<Longrightarrow> get_current_lease now REMOTE_TASK_RESOURCE_KIND j p1 = task_lease now j db"
    and agreek: "agree now k (assign_set (g_id a) f (db\<lparr>t_presence := p1\<rparr>))"
  shows "remote_ok now (assign_set (g_id a) f (db\<lparr>t_presence := p1\<rparr>))"
proof -
  let ?db = "assign_set (g_id a) f (db\<lparr>t_presence := p1\<rparr>)"
  have mem: "a \<in> set (t_assigns db)" "g_task a = k" using claimed_of_mem [OF a] by auto
  have claimed: "claimed_of j ?db = (if j = k then (if g_status (f a) = ''claimed'' then [f a] else []) else claimed_of j db)" for j
    using assign_set_claimed [of "db\<lparr>t_presence := p1\<rparr>" a f j] a mem(2) f(2) remote_okD(2) [OF ok]
    by (simp add: claimed_of_def)
  have "agree now j ?db" for j
  proof (cases "j = k")
    case False
    have "task_lease now j ?db = task_lease now j db" using p(2) [OF False] by (simp add: task_lease_def)
    moreover have "claimed_of j ?db = claimed_of j db" using False claimed by simp
    ultimately show ?thesis using agree_cong remote_okD(3) [OF ok] by blast
  qed (use agreek in simp)
  moreover have ids: "map g_id (t_assigns ?db) = map g_id (t_assigns db)"
    using assign_set_ids [of f "g_id a" "db\<lparr>t_presence := p1\<rparr>"] f(1) by simp
  then have "distinct (map g_id (t_assigns ?db))" using remote_okD(2) [OF ok] by simp
  moreover have "\<forall>y \<in> set (t_assigns ?db). g_id y < t_next ?db"
  proof
    fix y assume "y \<in> set (t_assigns ?db)"
    then have "g_id y \<in> set (map g_id (t_assigns ?db))" by simp
    then have "g_id y \<in> g_id ` set (t_assigns db)" unfolding ids by simp
    then show "g_id y < t_next ?db" using remote_okD(4) [OF ok] by auto
  qed
  moreover have "\<forall>y \<in> set (t_assigns ?db). g_status y = ''claimed'' \<longrightarrow> g_released y = None"
  proof
    fix y assume "y \<in> set (t_assigns ?db)"
    then consider "y \<in> set (t_assigns db)" | y0 where "y0 \<in> set (t_assigns db)" "g_id y0 = g_id a" "y = f y0"
      by (auto simp: assign_set_def dest!: row_upd_mem)
    then show "g_status y = ''claimed'' \<longrightarrow> g_released y = None"
    proof cases
      case 1
      then show ?thesis using remote_okD(5) [OF ok] by blast
    next
      case 2
      then have "y0 = a" using remote_okD(2) [OF ok] mem(1) by (auto simp: distinct_map inj_on_def)
      with 2 f(3) show ?thesis by simp
    qed
  qed
  ultimately show ?thesis using p(1) by (simp add: remote_ok_def)
qed

text \<open>A new assignment for a task that has no other claimed one.\<close>

lemma remote_ok_new:
  assumes ok: "remote_ok now db" and none: "claimed_of k db = []"
    and a: "g_task a = k" "g_id a = t_next db" "g_status a = ''claimed''" "g_released a = None"
    and p: "presence_inv now p1" "\<And>j. j \<noteq> k \<Longrightarrow> get_current_lease now REMOTE_TASK_RESOURCE_KIND j p1 = task_lease now j db"
      "get_current_lease now REMOTE_TASK_RESOURCE_KIND k p1 = Some l"
    and l: "l_status l = ''claimed''" "g_actor a = l_holder l" "g_token a = l_token l" "g_expires a = l_expires l"
  shows "remote_ok now (db\<lparr>t_presence := p1, t_assigns := t_assigns db @ [a], t_next := Suc (t_next db)\<rparr>)"
proof -
  let ?db = "db\<lparr>t_presence := p1, t_assigns := t_assigns db @ [a], t_next := Suc (t_next db)\<rparr>"
  have claimed: "claimed_of j ?db = (if j = k then [a] else claimed_of j db)" for j
    using none a by (auto simp: claimed_of_def claimed_by_def)
  have "agree now j ?db" for j
  proof (cases "j = k")
    case True
    with claimed p(3) l show ?thesis by (simp add: agree_def task_lease_def)
  next
    case False
    have "task_lease now j ?db = task_lease now j db" using p(2) [OF False] by (simp add: task_lease_def)
    moreover have "claimed_of j ?db = claimed_of j db" using False claimed by simp
    ultimately show ?thesis using agree_cong remote_okD(3) [OF ok] by blast
  qed
  moreover have "distinct (map g_id (t_assigns ?db))"
    using remote_okD(2) [OF ok] remote_okD(4) [OF ok] a(2) by fastforce
  moreover have "\<forall>y \<in> set (t_assigns ?db). g_id y < t_next ?db"
    using remote_okD(4) [OF ok] a(2) by (auto simp: less_Suc_eq)
  ultimately show ?thesis using p(1) a(4) remote_okD(5) [OF ok] by (auto simp: remote_ok_def)
qed

lemma settle_expired_assignment:
  assumes "remote_ok now db" "claimed_of k db = [a]" "g_expires a \<le> now" "task_lease now k db = None"
    and "\<And>y. g_id (f y) = g_id y" "\<And>y. g_task (f y) = g_task y" "\<And>y. g_status (f y) \<noteq> ''claimed''"
  shows "remote_ok now (assign_set (g_id a) f db)"
    and "claimed_of k (assign_set (g_id a) f db) = []"
proof -
  have k: "g_task a = k" using claimed_of_mem [OF assms(2)] by simp
  show c: "claimed_of k (assign_set (g_id a) f db) = []"
    using assign_set_claimed [of db a f k] remote_okD(2) [OF assms(1)] assms(2,6,7) k by simp
  have "remote_ok now (assign_set (g_id a) f (db\<lparr>t_presence := t_presence db\<rparr>))"
    using c assms(4,5,6,7) remote_okD(1) [OF assms(1)]
    by (intro remote_ok_assign [OF assms(1,2)]) (simp_all add: agree_def task_lease_def)
  then show "remote_ok now (assign_set (g_id a) f db)" by simp
qed

lemma claim_in_session_ok:
  assumes ok: "remote_ok now db" and c: "claim_in_session now actor secs r db = Inr (s, db')"
  shows "remote_ok now db'"
proof -
  let ?k = "x_id r" and ?a = "current_assignment (x_id r) db"
  let ?tok = "case ?a of None \<Rightarrow> None | Some x \<Rightarrow> if g_actor x = actor then Some (g_token x) else None"
  obtain l p1 where l: "claim_resource_lease now REMOTE_TASK_RESOURCE_KIND ?k actor ?tok (clamp_seconds secs) ''claimed''
        (t_presence db) = Inr (l, p1)"
    and db': "db' = snd (finish now r (Some actor) ''claimed'' (upsert_machine_presence now r actor (clamp_seconds secs) ''claimed''
        (upsert_assignment_from_lease now r ?a l (db\<lparr>t_presence := p1\<rparr>))))"
    using c by (auto simp: claim_in_session_def Let_def bindE_Inr_iff prod_eq_iff)
  have inv: "presence_inv now (t_presence db)" by (rule remote_okD(1) [OF ok])
  note cur = claim_current [OF inv l]
  have p1: "presence_inv now p1" by (rule claim_inv [OF inv l]) simp
  have lease: "get_current_lease now REMOTE_TASK_RESOURCE_KIND j p1 = (if j = ?k then Some l else task_lease now j db)" for j
    using cur(1) by (simp add: task_lease_def)
  have holder: "l_holder l = actor" using cur(2) by simp
  have status: "l_status l = ''claimed''" using claim_cases [OF l] by auto
  have "remote_ok now (upsert_assignment_from_lease now r ?a l (db\<lparr>t_presence := p1\<rparr>))"
    using ok
  proof (cases rule: agree_cases [where k = ?k])
    case (held l0 a)
    have old: "l_holder l0 = actor" "l = l0\<lparr>l_token := key_pick ?tok (l_token l0), l_expires := now + seconds (clamp_seconds (clamp_seconds secs)),
                 l_status := ''claimed'', l_updated := now\<rparr>"
      using claim_cases [OF l] held(1) by (auto simp: task_lease_def)
    have a: "?a = Some a" "a \<in> set (t_assigns db)" "g_status a = ''claimed''" "g_task a = ?k"
      using current_of_claimed(1) [OF held(2)] claimed_of_mem [OF held(2)] by auto
    have rel: "g_released a = None" by (rule remote_okD(5) [OF ok a(2,3)])
    have up: "upsert_assignment_from_lease now r ?a l (db\<lparr>t_presence := p1\<rparr>) =
        assign_set (g_id a) (\<lambda>y. y\<lparr>g_token := l_token l, g_expires := l_expires l\<rparr>) (db\<lparr>t_presence := p1\<rparr>)"
      using a held(3,5,7) rel holder old(1) by (simp add: upsert_assignment_from_lease_def Let_def)
    have "claimed_of ?k (assign_set (g_id a) (\<lambda>y. y\<lparr>g_token := l_token l, g_expires := l_expires l\<rparr>) (db\<lparr>t_presence := p1\<rparr>))
        = [a\<lparr>g_token := l_token l, g_expires := l_expires l\<rparr>]"
      using assign_set_claimed [of "db\<lparr>t_presence := p1\<rparr>" a "\<lambda>y. y\<lparr>g_token := l_token l, g_expires := l_expires l\<rparr>" ?k]
        a held(2) remote_okD(2) [OF ok] by (simp add: claimed_of_def)
    then have "agree now ?k (assign_set (g_id a) (\<lambda>y. y\<lparr>g_token := l_token l, g_expires := l_expires l\<rparr>) (db\<lparr>t_presence := p1\<rparr>))"
      using lease status holder held(3) old(1) by (simp add: agree_def task_lease_def)
    then show ?thesis
      unfolding up using lease p1 rel by (intro remote_ok_assign [OF ok held(2)]) simp_all
  next
    case free
    have a: "?a = None" by (rule current_of_claimed(2) [OF free(2)])
    show ?thesis
      using remote_ok_new [OF ok free(2), of "\<lparr>g_id = t_next db, g_task = ?k, g_actor = l_holder l, g_token = l_token l,
          g_expires = l_expires l, g_status = ''claimed'', g_claimed = l_claimed l, g_released = None\<rparr>" p1 l]
        lease p1 status by (simp add: a upsert_assignment_from_lease_def Let_def)
  next
    case (lapsed a)
    let ?f = "\<lambda>y. y\<lparr>g_status := ''expired'', g_released := Some now\<rparr>"
    let ?n = "\<lparr>g_id = t_next db, g_task = ?k, g_actor = l_holder l, g_token = l_token l,
          g_expires = l_expires l, g_status = ''claimed'', g_claimed = l_claimed l, g_released = None\<rparr>"
    have a: "?a = Some a" "a \<in> set (t_assigns db)" "g_status a = ''claimed''"
      using current_of_claimed(1) [OF lapsed(2)] claimed_of_mem [OF lapsed(2)] by auto
    have rel: "g_released a = None" by (rule remote_okD(5) [OF ok a(2,3)])
    have ok1: "remote_ok now (assign_set (g_id a) ?f db)" and none: "claimed_of ?k (assign_set (g_id a) ?f db) = []"
      using settle_expired_assignment [OF ok lapsed(2,3,1), of ?f] by simp_all
    have lt: "t_next db \<noteq> g_id a" using remote_okD(4) [OF ok a(2)] by simp
    have "upsert_assignment_from_lease now r ?a l (db\<lparr>t_presence := p1\<rparr>) =
        (assign_set (g_id a) ?f db)\<lparr>t_presence := p1,
           t_assigns := t_assigns (assign_set (g_id a) ?f db) @ [?n], t_next := Suc (t_next (assign_set (g_id a) ?f db))\<rparr>"
      using lapsed(3) rel a(1) lt
      by (simp add: upsert_assignment_from_lease_def Let_def assign_set_def row_upd_def)
    then show ?thesis
      using remote_ok_new [OF ok1 none, of ?n p1 l] lease p1 status by simp
  qed
  then show ?thesis unfolding db' by (rule finish_presence_ok)
qed

lemma require_task_Inr: "require_task k db = Inr r \<longleftrightarrow> task_row k db = Some r"
  by (simp add: require_task_def split: option.splits)

lemma task_row_id: "task_row k db = Some r \<Longrightarrow> x_id r = k"
  by (auto simp: task_row_def dest: row_get_SomeD)

text \<open>An active assignment has the current lease of its task behind it.\<close>

lemma active_lease:
  assumes "remote_ok now db" "require_active_assignment now r actor token db = Inr a"
  shows "\<exists>l. task_lease now (x_id r) db = Some l \<and> claimed_of (x_id r) db = [a] \<and> g_actor a = actor \<and> g_token a = token
    \<and> l_holder l = actor \<and> l_token l = token \<and> g_expires a = l_expires l \<and> l_status l = ''claimed'' \<and> now < l_expires l"
  using assms(1)
proof (cases rule: agree_cases [where k = "x_id r"])
  case (held l x)
  then have "current_assignment (x_id r) db = Some x" by (simp add: current_of_claimed)
  with held assms(2) show ?thesis
    by (auto simp: require_active_assignment_def split: if_splits)
next
  case free
  with assms(2) show ?thesis by (simp add: require_active_assignment_def current_of_claimed)
next
  case (lapsed x)
  with assms(2) show ?thesis by (auto simp: require_active_assignment_def current_of_claimed split: if_splits)
qed

lemma active_iff:
  assumes "remote_ok now db"
  shows "(\<exists>a. require_active_assignment now r actor token db = Inr a) \<longleftrightarrow>
    (\<exists>l. task_lease now (x_id r) db = Some l \<and> l_holder l = actor \<and> l_token l = token)"
proof
  assume "\<exists>l. task_lease now (x_id r) db = Some l \<and> l_holder l = actor \<and> l_token l = token"
  then obtain l where l: "task_lease now (x_id r) db = Some l" "l_holder l = actor" "l_token l = token" by blast
  show "\<exists>a. require_active_assignment now r actor token db = Inr a"
    using assms
  proof (cases rule: agree_cases [where k = "x_id r"])
    case (held l1 x)
    with l show ?thesis by (auto simp: require_active_assignment_def current_of_claimed)
  qed (use l in auto)
qed (use active_lease [OF assms] in blast)

lemma settle_total:
  assumes ok: "remote_ok now db" and act: "require_active_assignment now r actor token db = Inr a"
    and st: "status \<noteq> ''claimed''"
  shows "\<exists>s db'. settle now r a actor token status db = Inr (s, db') \<and> remote_ok now db'
    \<and> task_lease now (x_id r) db' = None \<and> claimed_of (x_id r) db' = [] \<and> x_status (ts_row s) = status"
proof -
  let ?k = "x_id r" and ?f = "\<lambda>y. y\<lparr>g_status := status, g_released := Some now\<rparr>"
  obtain l where l: "task_lease now ?k db = Some l" "claimed_of ?k db = [a]" "l_holder l = actor" "l_token l = token"
    using active_lease [OF ok act] by blast
  have inv: "presence_inv now (t_presence db)" by (rule remote_okD(1) [OF ok])
  obtain l' p1 where p1: "release_resource_lease now (l_id l) actor token ''released'' (t_presence db) = Inr (l', p1)"
    "presence_inv now p1"
    "\<And>k i. get_current_lease now k i p1 = (if k = REMOTE_TASK_RESOURCE_KIND \<and> i = ?k then None
        else get_current_lease now k i (t_presence db))"
    using release_current [OF inv l(1) [unfolded task_lease_def] l(3,4)] by blast
  let ?db = "assign_set (g_id a) ?f (db\<lparr>t_presence := p1\<rparr>)"
  have a: "g_task a = ?k" using claimed_of_mem [OF l(2)] by simp
  have none: "claimed_of ?k ?db = []"
    using assign_set_claimed [of "db\<lparr>t_presence := p1\<rparr>" a ?f ?k] a l(2) remote_okD(2) [OF ok] st
    by (simp add: claimed_of_def)
  have lease: "task_lease now ?k ?db = None" by (simp add: task_lease_def p1(3))
  have "remote_ok now ?db"
    using p1(2,3) none lease st by (intro remote_ok_assign [OF ok l(2)]) (simp_all add: agree_def task_lease_def)
  then have ok': "remote_ok now (snd (finish now r (Some actor) status (upsert_machine_presence now r actor 60 ''idle'' ?db)))"
    by (rule finish_presence_ok)
  have rel: "release_kernel_lease_if_present now r actor token ''released'' db = Inr (db\<lparr>t_presence := p1\<rparr>)"
    using l p1(1) by (simp add: release_kernel_lease_if_present_def task_lease_def)
  have "settle now r a actor token status db = Inr (finish now r (Some actor) status (upsert_machine_presence now r actor 60 ''idle'' ?db))"
    by (simp add: settle_def rel)
  moreover have "task_lease now ?k (snd (finish now r (Some actor) status (upsert_machine_presence now r actor 60 ''idle'' ?db))) = None"
    using lease by (simp add: task_lease_def upsert_machine_presence_def)
  moreover have "claimed_of ?k (snd (finish now r (Some actor) status (upsert_machine_presence now r actor 60 ''idle'' ?db))) = []"
    using none by (simp add: claimed_of_def)
  moreover have "x_status (ts_row (fst (finish now r (Some actor) status (upsert_machine_presence now r actor 60 ''idle'' ?db)))) = status"
    by (simp add: finish_def Let_def to_summary_def)
  ultimately show ?thesis using ok' by (metis prod.collapse)
qed

lemma active_frame:
  "t_assigns db' = t_assigns db \<Longrightarrow> require_active_assignment now r actor token db' = require_active_assignment now r actor token db"
  by (simp add: require_active_assignment_def current_assignment_def)

text \<open>Writes that add to the history of a task do not touch its assignments and leases.\<close>

definition same_core :: "remote \<Rightarrow> remote \<Rightarrow> bool" where
  "same_core db db' \<longleftrightarrow> t_assigns db' = t_assigns db \<and> t_next db' = t_next db \<and> t_presence db' = t_presence db"

lemma same_core_ok: "same_core db db' \<Longrightarrow> remote_ok now db \<Longrightarrow> remote_ok now db'"
  by (rule remote_ok_frame) (simp_all add: same_core_def task_lease_def remote_okD(1))

lemma same_core_finish: "same_core db (snd (finish now r h st db))"
  by (simp add: same_core_def)

lemma same_core_trans: "same_core a b \<Longrightarrow> same_core b c \<Longrightarrow> same_core a c"
  by (simp add: same_core_def)

lemma same_core_add [simp]:
  "same_core db (add_evidence_row now k h kd s p db)" "same_core db (db\<lparr>t_notes := ns\<rparr>)"
  "same_core db (db\<lparr>t_approvals := aps, t_kernel := kn\<rparr>)" "same_core db (task_set k f (db\<lparr>t_notes := ns\<rparr>))"
  "same_core db db"
  by (simp_all add: same_core_def add_evidence_row_def)

lemma settle_after_core:
  assumes "remote_ok now db" "require_active_assignment now r actor token db = Inr a" "same_core db db0" "status \<noteq> ''claimed''"
  shows "\<exists>s db'. settle now r a actor token status db0 = Inr (s, db') \<and> remote_ok now db'
    \<and> task_lease now (x_id r) db' = None \<and> claimed_of (x_id r) db' = [] \<and> x_status (ts_row s) = status"
  using assms by (intro settle_total same_core_ok [OF assms(3)]) (simp_all add: same_core_def active_frame [of db0 db])

lemma heartbeat_task_total:
  assumes ok: "remote_ok now db" and row: "task_row k db = Some r"
    and act: "require_active_assignment now r actor token db = Inr a"
  shows "\<exists>s db'. heartbeat_task now k actor token phase sm c rd wr ts secs db = Inr (s, db') \<and> remote_ok now db'
    \<and> (\<exists>l. task_lease now k db' = Some l \<and> l_holder l = actor \<and> l_token l = token
         \<and> l_expires l = now + seconds (clamp_seconds (max 0 secs)))"
proof -
  obtain l where l: "task_lease now (x_id r) db = Some l" "claimed_of (x_id r) db = [a]" "l_holder l = actor" "l_token l = token"
      "g_actor a = actor" "g_token a = token" "l_status l = ''claimed''"
    using active_lease [OF ok act] by blast
  have k: "x_id r = k" by (rule task_row_id [OF row])
  have inv: "presence_inv now (t_presence db)" by (rule remote_okD(1) [OF ok])
  have "l_status l \<noteq> ''released''" using l(7) by simp
  from heartbeat_current [OF inv l(1) [unfolded task_lease_def] l(3,4) _ _ this, of "''claimed''" "max 0 secs"]
  obtain l' p1 where p1: "heartbeat_resource_lease now (l_id l) actor token (max 0 secs) (Some ''claimed'') (t_presence db) = Inr (l', p1)"
    "l_holder l' = actor" "l_token l' = token" "l_expires l' = now + seconds (clamp_seconds (max 0 secs))"
    "l_status l' = ''claimed''" "presence_inv now p1"
    "\<And>j i. get_current_lease now j i p1 = (if j = REMOTE_TASK_RESOURCE_KIND \<and> i = x_id r then Some l'
        else get_current_lease now j i (t_presence db))"
    by auto
  define b where "b = \<lparr>hb_task = x_id r, hb_actor = actor, hb_phase = phase, hb_summary = sm,
        hb_commands = max 0 c, hb_reads = max 0 rd, hb_writes = max 0 wr, hb_tests = max 0 ts, hb_created = now\<rparr>"
  let ?f = "\<lambda>y. y\<lparr>g_expires := l_expires l'\<rparr>"
  let ?db0 = "db\<lparr>t_beats := t_beats db @ [b]\<rparr>"
  let ?db1 = "assign_set (g_id a) ?f (?db0\<lparr>t_presence := p1\<rparr>)"
  let ?st = "status_for_heartbeat phase (max 0 c) (max 0 rd) (max 0 wr) (max 0 ts)"
  have core: "same_core db ?db0" by (simp add: same_core_def)
  have ok0: "remote_ok now ?db0" by (rule same_core_ok [OF core ok])
  have a: "claimed_of (x_id r) ?db0 = [a]" "g_task a = x_id r" "g_status a = ''claimed''" "a \<in> set (t_assigns db)"
    using l(2) claimed_of_mem [OF l(2)] by (simp_all add: claimed_of_def)
  have cl: "claimed_of (x_id r) ?db1 = [?f a]"
    using assign_set_claimed [of "?db0\<lparr>t_presence := p1\<rparr>" a ?f "x_id r"] a remote_okD(2) [OF ok]
    by (simp add: claimed_of_def)
  have lease: "task_lease now (x_id r) ?db1 = Some l'" by (simp add: task_lease_def p1(7))
  have rel: "g_released a = None" by (rule remote_okD(5) [OF ok a(4,3)])
  have "remote_ok now ?db1"
    using p1 cl lease l(5,6) rel
    by (intro remote_ok_assign [OF ok0 a(1)]) (simp_all add: agree_def task_lease_def)
  then have ok': "remote_ok now (snd (finish now r (Some actor) ?st (upsert_machine_presence now r actor (max 0 secs) ?st ?db1)))"
    by (rule finish_presence_ok)
  have "heartbeat_task now k actor token phase sm c rd wr ts secs db =
      Inr (finish now r (Some actor) ?st (upsert_machine_presence now r actor (max 0 secs) ?st ?db1))"
    using row act l(1) p1(1)
    by (simp add: heartbeat_task_def require_task_def task_lease_def Let_def b_def)
  moreover have "task_lease now k (snd (finish now r (Some actor) ?st (upsert_machine_presence now r actor (max 0 secs) ?st ?db1))) = Some l'"
    using lease k by (simp add: task_lease_def upsert_machine_presence_def)
  ultimately show ?thesis using ok' p1(2-4) by (metis prod.collapse)
qed

section \<open>The task service as a step relation\<close>

text \<open>Any call of the service that succeeds at time \<open>now\<close>.\<close>

inductive rt_act :: "instant \<Rightarrow> remote \<Rightarrow> remote \<Rightarrow> bool" where
  create: "create_task now k m th ob cr sf ms pr by' db = Inr (s, db') \<Longrightarrow> rt_act now db db'"
| claim: "claim_task now k actor secs db = Inr (s, db') \<Longrightarrow> rt_act now db db'"
| claim_next: "claim_next_task now m actor secs ex db = Inr (s', db') \<Longrightarrow> rt_act now db db'"
| beat: "heartbeat_task now k actor tok ph sm c rd wr ts secs db = Inr (s, db') \<Longrightarrow> rt_act now db db'"
| evidence: "add_evidence now k actor kd sm pl db = Inr (s, db') \<Longrightarrow> rt_act now db db'"
| ask: "request_approval now aid k actor tok rs nt db = Inr (s, db') \<Longrightarrow> rt_act now db db'"
| answer: "resolve_approval now k rby res nt db = Inr (s, db') \<Longrightarrow> rt_act now db db'"
| remark: "add_note now k actor kd ct db = Inr (n, db') \<Longrightarrow> rt_act now db db'"
| interrupt: "interrupt_task now k actor tok nt db = Inr (s, db') \<Longrightarrow> rt_act now db db'"
| complete: "complete_task now k actor tok sm db = Inr (s, db') \<Longrightarrow> rt_act now db db'"
| fail: "fail_task now k actor tok er db = Inr (s, db') \<Longrightarrow> rt_act now db db'"
| stale: "settle_stale_task now k fs sm pl db = Inr (s, db') \<Longrightarrow> rt_act now db db'"

text \<open>A stale task is settled over the tables \<open>db1\<close> in which its lease is released.\<close>

definition stale_written ::
  "instant \<Rightarrow> rtask \<Rightarrow> string \<Rightarrow> string \<Rightarrow> obj \<Rightarrow> assignment option \<Rightarrow> string \<Rightarrow> remote \<Rightarrow> task_summary \<times> remote" where
  "stale_written now r fs sm pl a actor db1 =
     finish now r (Some actor) fs
       (add_evidence_row now (x_id r) actor (if fs = ''completed'' then ''result'' else ''error'') sm
          (fold (\<lambda>(f, v) o'. AList.update f v o') pl [(''kind'', JStr ''stale_task_cleanup''), (''finalStatus'', JStr fs)])
          (case a of
             Some x \<Rightarrow> (if g_released x = None
               then assign_set (g_id x) (\<lambda>y. y\<lparr>g_status := fs, g_released := Some now\<rparr>) db1 else db1)
           | None \<Rightarrow> db1))"

lemma stale_written_ok:
  assumes "remote_ok now (case a of
             Some x \<Rightarrow> (if g_released x = None
               then assign_set (g_id x) (\<lambda>y. y\<lparr>g_status := fs, g_released := Some now\<rparr>) db1 else db1)
           | None \<Rightarrow> db1)"
  shows "remote_ok now (snd (stale_written now r fs sm pl a actor db1))"
  unfolding stale_written_def finish_remote_ok by (rule same_core_ok [OF same_core_add(1) assms])

lemma settle_stale_ok:
  assumes ok: "remote_ok now db" and c: "settle_stale_task now k fs sm pl db = Inr (s, db')"
  shows "remote_ok now db'"
proof -
  have fs: "fs \<in> {''completed'', ''failed'', ''interrupted''}" "fs \<noteq> ''claimed''"
    using c by (auto simp: settle_stale_task_def split: if_splits)
  from c obtain r where row: "task_row k db = Some r"
    by (auto simp: settle_stale_task_def bindE_Inr_iff require_task_Inr split: if_splits)
  show ?thesis
  proof (cases "x_status r \<in> {''completed'', ''failed'', ''interrupted''}")
    case True
    have "settle_stale_task now k fs sm pl db = Inr (to_summary r db, db)"
      unfolding settle_stale_task_def using row True fs(1) by (simp add: require_task_def)
    with c ok show ?thesis by simp
  next
    case live: False
    let ?k = "x_id r" and ?f = "\<lambda>y. y\<lparr>g_status := fs, g_released := Some now\<rparr>"
    define a where "a = current_assignment ?k db"
    define actor where "actor = (case a of Some x \<Rightarrow> g_actor x
                       | None \<Rightarrow> (case x_owner r of None \<Rightarrow> ''bridge-service''
                                 | Some h \<Rightarrow> if h = [] then ''bridge-service'' else h))"
    have call: "settle_stale_task now k fs sm pl db =
        bindE (case (task_lease now ?k db, a) of
                 (Some l, Some x) \<Rightarrow>
                   (if l_holder l = g_actor x \<and> l_token l = g_token x
                    then bindE (map_err LeaseErr (release_resource_lease now (l_id l) (g_actor x) (g_token x)
                             ''released'' (t_presence db))) (\<lambda>(l', p1). Inr (db\<lparr>t_presence := p1\<rparr>))
                    else Inr db)
               | _ \<Rightarrow> Inr db) (\<lambda>db1. Inr (stale_written now r fs sm pl a actor db1))"
      unfolding settle_stale_task_def using row live fs(1)
      by (simp add: require_task_def Let_def task_lease_def stale_written_def a_def actor_def)
    show ?thesis using ok
    proof (cases rule: agree_cases [where k = ?k])
      case (held l x)
      have x: "a = Some x" "g_released x = None" "g_task x = ?k"
        using current_of_claimed(1) [OF held(2)] claimed_of_mem [OF held(2)] remote_okD(5) [OF ok] by (auto simp: a_def)
      have inv: "presence_inv now (t_presence db)" by (rule remote_okD(1) [OF ok])
      obtain l' p1 where p1: "release_resource_lease now (l_id l) (g_actor x) (g_token x) ''released'' (t_presence db) = Inr (l', p1)"
        "presence_inv now p1"
        "\<And>j i. get_current_lease now j i p1 = (if j = REMOTE_TASK_RESOURCE_KIND \<and> i = ?k then None
            else get_current_lease now j i (t_presence db))"
        using release_current [OF inv held(1) [unfolded task_lease_def] held(3,4) [symmetric]] by blast
      have none: "claimed_of ?k (assign_set (g_id x) ?f (db\<lparr>t_presence := p1\<rparr>)) = []"
        using assign_set_claimed [of "db\<lparr>t_presence := p1\<rparr>" x ?f ?k] x(3) held(2) remote_okD(2) [OF ok] fs(2)
        by (simp add: claimed_of_def)
      have "remote_ok now (assign_set (g_id x) ?f (db\<lparr>t_presence := p1\<rparr>))"
        using p1(2,3) none fs(2) by (intro remote_ok_assign [OF ok held(2)]) (simp_all add: agree_def task_lease_def)
      then have "remote_ok now (snd (stale_written now r fs sm pl a actor (db\<lparr>t_presence := p1\<rparr>)))"
        by (intro stale_written_ok) (simp add: x)
      moreover have "settle_stale_task now k fs sm pl db = Inr (stale_written now r fs sm pl a actor (db\<lparr>t_presence := p1\<rparr>))"
        unfolding call using held(1,3,4) x(1) p1(1) by simp
      ultimately show ?thesis using c by (metis snd_conv sum.inject(2))
    next
      case free
      then have "a = None" by (simp add: a_def current_of_claimed)
      then have "remote_ok now (snd (stale_written now r fs sm pl a actor db))" by (intro stale_written_ok) (simp add: ok)
      moreover have "settle_stale_task now k fs sm pl db = Inr (stale_written now r fs sm pl a actor db)"
        unfolding call using free(1) by simp
      ultimately show ?thesis using c by (metis snd_conv sum.inject(2))
    next
      case (lapsed x)
      have x: "a = Some x" "g_released x = None"
        using current_of_claimed(1) [OF lapsed(2)] claimed_of_mem [OF lapsed(2)] remote_okD(5) [OF ok] by (auto simp: a_def)
      have "remote_ok now (assign_set (g_id x) ?f db)"
        using settle_expired_assignment(1) [OF ok lapsed(2,3,1), of ?f] fs(2) by simp
      then have "remote_ok now (snd (stale_written now r fs sm pl a actor db))"
        by (intro stale_written_ok) (simp add: x)
      moreover have "settle_stale_task now k fs sm pl db = Inr (stale_written now r fs sm pl a actor db)"
        unfolding call using lapsed(1) by simp
      ultimately show ?thesis using c by (metis snd_conv sum.inject(2))
    qed
  qed
qed

text \<open>The three ways for a worker to end a task go through \<open>settle\<close>.\<close>

lemma interrupt_settles:
  assumes "interrupt_task now k actor tok nt db = Inr (s, db')"
  shows "\<exists>r a db0. task_row k db = Some r \<and> require_active_assignment now r actor tok db = Inr a \<and> same_core db db0
    \<and> settle now r a actor tok ''interrupted'' db0 = Inr (s, db')"
proof -
  have "same_core db (case nt of None \<Rightarrow> db | Some s \<Rightarrow> if s = [] then db
              else db\<lparr>t_notes := t_notes db @ [\<lparr>tn_task = x_id r, tn_actor = actor, tn_kind = ''interrupt'',
                                               tn_content = s, tn_created = now\<rparr>]\<rparr>)" for r
    by (simp split: option.splits)
  moreover obtain r a where "task_row k db = Some r" "require_active_assignment now r actor tok db = Inr a"
    "settle now r a actor tok ''interrupted'' (case nt of None \<Rightarrow> db | Some s \<Rightarrow> if s = [] then db
              else db\<lparr>t_notes := t_notes db @ [\<lparr>tn_task = x_id r, tn_actor = actor, tn_kind = ''interrupt'',
                                               tn_content = s, tn_created = now\<rparr>]\<rparr>) = Inr (s, db')"
    using assms unfolding interrupt_task_def bindE_Inr_iff require_task_Inr by blast
  ultimately show ?thesis by blast
qed

lemma complete_settles:
  assumes "complete_task now k actor tok sm db = Inr (s, db')"
  shows "\<exists>r a db0. task_row k db = Some r \<and> require_active_assignment now r actor tok db = Inr a \<and> same_core db db0
    \<and> settle now r a actor tok ''completed'' db0 = Inr (s, db')"
proof -
  have "same_core db (case sm of None \<Rightarrow> db | Some s \<Rightarrow> if s = [] then db
              else add_evidence_row now (x_id r) actor ''result'' s [(''kind'', JStr ''result'')] db)" for r
    by (simp split: option.splits)
  moreover obtain r a where "task_row k db = Some r" "require_active_assignment now r actor tok db = Inr a"
    "settle now r a actor tok ''completed'' (case sm of None \<Rightarrow> db | Some s \<Rightarrow> if s = [] then db
              else add_evidence_row now (x_id r) actor ''result'' s [(''kind'', JStr ''result'')] db) = Inr (s, db')"
    using assms unfolding complete_task_def bindE_Inr_iff require_task_Inr by blast
  ultimately show ?thesis by blast
qed

lemma fail_settles:
  assumes "fail_task now k actor tok er db = Inr (s, db')"
  shows "\<exists>r a db0. task_row k db = Some r \<and> require_active_assignment now r actor tok db = Inr a \<and> same_core db db0
    \<and> settle now r a actor tok ''failed'' db0 = Inr (s, db')"
  using assms same_core_add(1) unfolding fail_task_def bindE_Inr_iff require_task_Inr by blast

lemma rt_act_ok:
  assumes "rt_act now db db'" "remote_ok now db"
  shows "remote_ok now db'"
  using assms
proof (induction rule: rt_act.induct)
  case (create now k m th ob cr sf ms pr by' db s db')
  then have "same_core db db'" by (auto simp: create_task_def Let_def same_core_def split: if_splits)
  then show ?case using create.prems by (rule same_core_ok)
next
  case (claim now k actor secs db s db')
  then show ?case by (auto simp: claim_task_def bindE_Inr_iff dest: claim_in_session_ok)
next
  case (claim_next now m actor secs ex db s' db')
  then show ?case by (auto simp: claim_next_task_def bindE_Inr_iff dest: claim_in_session_ok split: list.splits)
next
  case (beat now k actor tok ph sm c rd wr ts secs db s db')
  then obtain r a where "task_row k db = Some r" "require_active_assignment now r actor tok db = Inr a"
    by (auto simp: heartbeat_task_def bindE_Inr_iff require_task_Inr)
  from heartbeat_task_total [OF beat.prems this, of ph sm c rd wr ts secs] beat.hyps show ?case by auto
next
  case (evidence now k actor kd sm pl db s db')
  then obtain r st where "db' = snd (finish now r None st (add_evidence_row now (x_id r) actor kd sm pl db))"
    by (auto simp: add_evidence_def bindE_Inr_iff prod_eq_iff)
  then have "same_core db db'" by (simp add: same_core_def add_evidence_row_def)
  then show ?case using evidence.prems by (rule same_core_ok)
next
  case (ask now aid k actor tok rs nt db s db')
  then have "same_core db db'" by (auto simp: request_approval_def bindE_Inr_iff Let_def same_core_def prod_eq_iff)
  then show ?case using ask.prems by (rule same_core_ok)
next
  case (answer now k rby res nt db s db')
  then have "same_core db db'"
    by (auto simp: resolve_approval_def bindE_Inr_iff Let_def same_core_def prod_eq_iff split: option.splits if_splits)
  then show ?case using answer.prems by (rule same_core_ok)
next
  case (remark now k actor kd ct db n db')
  then have "same_core db db'" by (auto simp: add_note_def bindE_Inr_iff Let_def)
  then show ?case using remark.prems by (rule same_core_ok)
next
  case (interrupt now k actor tok nt db s db')
  from interrupt_settles [OF interrupt.hyps] obtain r a db0
    where x: "require_active_assignment now r actor tok db = Inr a" "same_core db db0"
      "settle now r a actor tok ''interrupted'' db0 = Inr (s, db')" by blast
  from settle_after_core [OF interrupt.prems x(1,2), of "''interrupted''"] x(3) show ?case by auto
next
  case (complete now k actor tok sm db s db')
  from complete_settles [OF complete.hyps] obtain r a db0
    where x: "require_active_assignment now r actor tok db = Inr a" "same_core db db0"
      "settle now r a actor tok ''completed'' db0 = Inr (s, db')" by blast
  from settle_after_core [OF complete.prems x(1,2), of "''completed''"] x(3) show ?case by auto
next
  case (fail now k actor tok er db s db')
  from fail_settles [OF fail.hyps] obtain r a db0
    where x: "require_active_assignment now r actor tok db = Inr a" "same_core db db0"
      "settle now r a actor tok ''failed'' db0 = Inr (s, db')" by blast
  from settle_after_core [OF fail.prems x(1,2), of "''failed''"] x(3) show ?case by auto
next
  case (stale now k fs sm pl db s db')
  show ?case by (rule settle_stale_ok [OF stale.prems stale.hyps])
qed

definition no_remote :: remote where
  "no_remote = \<lparr>t_tasks = [], t_assigns = [], t_beats = [], t_evidence = [], t_approvals = [], t_notes = [],
     t_presence = no_presence, t_kernel = \<lparr>ap_rows = [], ap_next = 0\<rparr>, t_next = 0\<rparr>"

lemma no_remote_ok: "remote_ok now no_remote"
proof -
  have "presence_inv now (t_presence no_remote)" by (simp add: no_remote_def no_presence_inv)
  moreover have "agree now k no_remote" for k
    by (simp add: agree_def no_remote_def task_lease_def claimed_of_def get_current_lease_def lease_rows_def
        no_presence_def select_desc_def)
  ultimately show ?thesis by (simp add: remote_ok_def) (simp add: no_remote_def)
qed

lemma rt_run_ok:
  "timed_run rt_act ts db db' \<Longrightarrow> remote_ok t db \<Longrightarrow> sorted (t # ts) \<Longrightarrow> \<forall>u \<in> set (t # ts). u \<le> now \<Longrightarrow> remote_ok now db'"
proof (induction ts arbitrary: t db)
  case Nil
  then show ?case using remote_ok_later by auto
next
  case (Cons u ts)
  then obtain db1 where 1: "rt_act u db db1" "timed_run rt_act ts db1 db'" by auto
  have "remote_ok u db" using Cons.prems by (intro remote_ok_later [of t db u]) auto
  with 1(1) have "remote_ok u db1" by (rule rt_act_ok)
  then show ?case using Cons.prems by (intro Cons.IH [OF 1(2)]) auto
qed

lemma rt_reach_ok:
  assumes "timed_run rt_act ts no_remote db" "sorted ts" "\<forall>u \<in> set ts. u \<le> now"
  shows "remote_ok now db"
proof (cases ts)
  case Nil
  with assms no_remote_ok show ?thesis by simp
next
  case (Cons u us)
  then show ?thesis
    using assms by (intro rt_run_ok [of ts no_remote db u now]) (auto simp: no_remote_ok)
qed

text \<open>A task is claimed unless somebody else holds its lease.\<close>

lemma claim_task_held:
  assumes "remote_ok now db" "task_row k db = Some r" "task_lease now k db = Some l" "l_holder l \<noteq> actor"
  shows "claim_task now k actor secs db = Inl (LeaseErr (LeaseHeldBy (l_holder l)))"
  using assms task_row_id [OF assms(2)]
  by (simp add: claim_task_def require_task_def claim_in_session_def Let_def claim_resource_lease_def task_lease_def)

lemma claim_task_free:
  assumes "task_row k db = Some r" "task_lease now k db = None"
  shows "\<exists>s db'. claim_task now k actor secs db = Inr (s, db') \<and> x_status (ts_row s) = ''claimed''
    \<and> x_owner (ts_row s) = Some actor"
  using assms task_row_id [OF assms(1)]
  by (simp add: claim_task_def require_task_def claim_in_session_def Let_def claim_resource_lease_def task_lease_def
      finish_def to_summary_def)

section \<open>Properties\<close>

text \<open>C12: In every state the task service reaches, authority over a task is its kernel lease: a caller
  passes the assignment check with an actor and a token exactly when the current kernel lease of the
  task has that holder and that token.\<close>

theorem assignment_is_lease:
  assumes "timed_run rt_act ts no_remote db" "sorted ts" "\<forall>u \<in> set ts. u \<le> now"
  shows "(\<exists>a. require_active_assignment now r actor token db = Inr a) \<longleftrightarrow>
    (\<exists>l. get_current_lease now REMOTE_TASK_RESOURCE_KIND (x_id r) (t_presence db) = Some l
         \<and> l_holder l = actor \<and> l_token l = token)"
  using active_iff [OF rt_reach_ok [OF assms]] by (simp add: task_lease_def)

definition sample_remote :: "remote_error + task_summary \<times> remote" where
  "sample_remote =
     bindE (create_task 0 ''t1'' ''pc'' ''room'' ''build'' [] ''chat'' None ''normal'' ''ann'' no_remote) (\<lambda>(s, db).
     claim_task 1 ''t1'' ''bob'' 60 db)"

lemma sample_run:
  assumes "sample_remote = Inr (s, db)"
  shows "timed_run rt_act [0, 1] no_remote db"
proof -
  from assms obtain s1 db1 where
    1: "create_task 0 ''t1'' ''pc'' ''room'' ''build'' [] ''chat'' None ''normal'' ''ann'' no_remote = Inr (s1, db1)"
    and 2: "claim_task 1 ''t1'' ''bob'' 60 db1 = Inr (s, db)"
    by (auto simp: sample_remote_def bindE_Inr_iff)
  show ?thesis using rt_act.create [OF 1] rt_act.claim [OF 2] by auto
qed

lemma sample_holds:
  "case sample_remote of Inl _ \<Rightarrow> False
   | Inr (s, db) \<Rightarrow> (case get_current_lease 2 REMOTE_TASK_RESOURCE_KIND ''t1'' (t_presence db) of
       None \<Rightarrow> False | Some l \<Rightarrow> l_holder l = ''bob'' \<and> l_token l = Gen 1) \<and> task_row ''t1'' db = Some (ts_row s)
       \<and> x_id (ts_row s) = ''t1''"
  by code_simp

lemma sample_obtains:
  obtains s db l where "sample_remote = Inr (s, db)"
    "get_current_lease 2 REMOTE_TASK_RESOURCE_KIND ''t1'' (t_presence db) = Some l"
    "l_holder l = ''bob''" "l_token l = Gen 1" "task_row ''t1'' db = Some (ts_row s)" "x_id (ts_row s) = ''t1''"
proof (cases sample_remote)
  case (Inl e)
  have False using sample_holds unfolding Inl by simp
  then show ?thesis ..
next
  case (Inr p)
  obtain s db where p: "p = (s, db)" by force
  show ?thesis
  proof (cases "get_current_lease 2 REMOTE_TASK_RESOURCE_KIND ''t1'' (t_presence db)")
    case None
    have False using sample_holds unfolding Inr p by (simp add: None)
    then show ?thesis ..
  next
    case (Some l)
    have "l_holder l = ''bob'' \<and> l_token l = Gen 1" "task_row ''t1'' db = Some (ts_row s)" "x_id (ts_row s) = ''t1''"
      using sample_holds unfolding Inr p by (simp_all add: Some)
    with Inr p Some show ?thesis by (intro that [of s db l]) simp_all
  qed
qed

theorem assignment_is_lease_witness:
  "case sample_remote of Inl _ \<Rightarrow> False
   | Inr (s, db) \<Rightarrow> (case require_active_assignment 2 (ts_row s) ''bob'' (Gen 1) db of Inl _ \<Rightarrow> False | Inr _ \<Rightarrow> True)"
proof -
  obtain s db l where s: "sample_remote = Inr (s, db)"
    and l: "get_current_lease 2 REMOTE_TASK_RESOURCE_KIND ''t1'' (t_presence db) = Some l"
    "l_holder l = ''bob''" "l_token l = Gen 1" "x_id (ts_row s) = ''t1''" using sample_obtains by metis
  have "\<exists>a. require_active_assignment 2 (ts_row s) ''bob'' (Gen 1) db = Inr a"
    using l by (subst assignment_is_lease [OF sample_run [OF s]]) auto
  then show ?thesis unfolding s by (auto simp del: One_nat_def)
qed

text \<open>C26: Who holds a task can always finish. In every reachable state, a worker whose assignment is
  active can renew it, complete it, fail it and interrupt it, and the claim of anybody else is
  refused with the worker's name.\<close>

theorem worker_owns_task:
  assumes "timed_run rt_act ts no_remote db" "sorted ts" "\<forall>u \<in> set ts. u \<le> now"
    and "task_row k db = Some r" "require_active_assignment now r actor token db = Inr a"
  shows "(\<exists>s db'. complete_task now k actor token sm db = Inr (s, db') \<and> x_status (ts_row s) = ''completed'')
    \<and> (\<exists>s db'. fail_task now k actor token er db = Inr (s, db') \<and> x_status (ts_row s) = ''failed'')
    \<and> (\<exists>s db'. interrupt_task now k actor token nt db = Inr (s, db') \<and> x_status (ts_row s) = ''interrupted'')
    \<and> (\<exists>s db'. heartbeat_task now k actor token ph hs c rd wr ts' secs db = Inr (s, db'))
    \<and> (other \<noteq> actor \<longrightarrow> claim_task now k other secs db = Inl (LeaseErr (LeaseHeldBy actor)))"
proof -
  have ok: "remote_ok now db" by (rule rt_reach_ok [OF assms(1-3)])
  have k: "x_id r = k" by (rule task_row_id [OF assms(4)])
  note st = settle_after_core [OF ok assms(5)]
  obtain l where l: "task_lease now k db = Some l" "l_holder l = actor" using active_lease [OF ok assms(5)] k by auto
  have "same_core db (case sm of None \<Rightarrow> db | Some s \<Rightarrow> if s = [] then db
              else add_evidence_row now (x_id r) actor ''result'' s [(''kind'', JStr ''result'')] db)"
    by (simp split: option.splits)
  from st [OF this, of "''completed''"]
  have 1: "\<exists>s db'. complete_task now k actor token sm db = Inr (s, db') \<and> x_status (ts_row s) = ''completed''"
    using assms(4,5) by (auto simp: complete_task_def require_task_def)
  have 2: "\<exists>s db'. fail_task now k actor token er db = Inr (s, db') \<and> x_status (ts_row s) = ''failed''"
    using st [OF same_core_add(1), of "''failed''"] assms(4,5) by (fastforce simp: fail_task_def require_task_def)
  have "same_core db (case nt of None \<Rightarrow> db | Some s \<Rightarrow> if s = [] then db
              else db\<lparr>t_notes := t_notes db @ [\<lparr>tn_task = x_id r, tn_actor = actor, tn_kind = ''interrupt'',
                                               tn_content = s, tn_created = now\<rparr>]\<rparr>)"
    by (simp split: option.splits)
  from st [OF this, of "''interrupted''"]
  have 3: "\<exists>s db'. interrupt_task now k actor token nt db = Inr (s, db') \<and> x_status (ts_row s) = ''interrupted''"
    using assms(4,5) by (auto simp: interrupt_task_def require_task_def)
  have 4: "\<exists>s db'. heartbeat_task now k actor token ph hs c rd wr ts' secs db = Inr (s, db')"
    using heartbeat_task_total [OF ok assms(4,5)] by blast
  have 5: "other \<noteq> actor \<longrightarrow> claim_task now k other secs db = Inl (LeaseErr (LeaseHeldBy actor))"
    using claim_task_held [OF ok assms(4) l(1)] l(2) by auto
  from 1 2 3 4 5 show ?thesis by blast
qed

theorem worker_owns_task_witness:
  "case sample_remote of Inl _ \<Rightarrow> False
   | Inr (s, db) \<Rightarrow> claim_task 2 ''t1'' ''eve'' 60 db = Inl (LeaseErr (LeaseHeldBy ''bob''))"
proof -
  obtain s db l where s: "sample_remote = Inr (s, db)"
    and l: "get_current_lease 2 REMOTE_TASK_RESOURCE_KIND ''t1'' (t_presence db) = Some l"
    "l_holder l = ''bob''" "l_token l = Gen 1" "x_id (ts_row s) = ''t1''"
    and row: "task_row ''t1'' db = Some (ts_row s)" using sample_obtains by metis
  have "remote_ok 2 db" using rt_reach_ok [OF sample_run [OF s], of 2] by simp
  with l have "\<exists>a. require_active_assignment 2 (ts_row s) ''bob'' (Gen 1) db = Inr a"
    by (simp add: active_iff task_lease_def)
  then obtain a where a: "require_active_assignment 2 (ts_row s) ''bob'' (Gen 1) db = Inr a" by blast
  show ?thesis using worker_owns_task [OF sample_run [OF s] _ _ row a]
    unfolding s by auto
qed

end
