(* ===== verification/Room.thy ===== *)
theory Room
  imports Digest Broker RemoteTasks
begin

text \<open>
  What the chat services share (\<open>behaviors/chat/conversation_service.py\<close>, \<open>metrics.py\<close>): the chat
  database with the protocol v2 tables and the remote tasks that live in the same store, the process
  state around it (broker, counters), transactions, the general conversation of a room, and the
  dual write of a chat message to the v2 log. Everything inside one \<open>session_scope\<close> is a function to
  \<open>chat_error + 'a \<times> chat\<close>; a raise rolls the transaction back. A service call is a \<open>run\<close>: it
  passes the process state and may commit several transactions before it raises.
\<close>

section \<open>State\<close>

record chat =
  w_threads :: "chat_thread list"
  w_members :: "chat_member list"
  w_states :: "member_state list"
  w_convs :: "conversation list"
  w_messages :: "chat_message list"
  w_reads :: "read_cursor list"
  w_v2 :: v2db
  w_tasks :: remote
  w_next :: id

record metrics =
  k_opened :: nat
  k_closed :: "(string \<times> nat) list"
  k_warned :: "(nat \<times> nat) list"
  k_handoffs :: nat
  k_speech :: "(string \<times> nat) list"
  k_task :: "(string \<times> nat) list"

record service =
  s_db :: chat
  s_broker :: broker
  s_metrics :: metrics

text \<open>
  The wiring of a service: the legacy authorizer (already applied to the caller), the capability
  authorizer, the presence of a task service and of a digest service, and \<open>ChatPolicyConfig\<close>.
\<close>

record chat_policy =
  g_tier1 :: int
  g_tier2 :: int
  g_tier3 :: int
  g_over :: int

record wiring =
  f_actor_auth :: "(string \<Rightarrow> bool) option"
  f_cap_auth :: "(instant \<Rightarrow> string \<Rightarrow> string \<Rightarrow> v2db \<Rightarrow> db_error + bool \<times> v2db) option"
  f_tasks :: bool
  f_digest :: bool
  f_policy :: chat_policy

definition chat_policy_config :: "int \<Rightarrow> int \<Rightarrow> int \<Rightarrow> int \<Rightarrow> string + chat_policy" where
  "chat_policy_config t1 t2 t3 over =
     (if \<not> (t1 \<le> t2 \<and> t2 \<le> t3) then Inl ''tier multipliers must be monotonically non-decreasing''
      else if over < 1 then Inl ''over_speech_threshold must be >= 1''
      else Inr \<lparr>g_tier1 = t1, g_tier2 = t2, g_tier3 = t3, g_over = over\<rparr>)"

definition default_chat_policy :: chat_policy where
  "default_chat_policy = \<lparr>g_tier1 = 1, g_tier2 = 4, g_tier3 = 48, g_over = 5\<rparr>"

datatype state_reason =
    InvalidPolicy contract_error
  | NeedsObjective
  | NoTaskService
  | GeneralNotClosable
  | AlreadyClosed "string option"
  | ResolutionNotValid string
  | CloserNotAuthorized
  | PolicyRefused string
  | TaskStillActive string
  | ClosedForSpeech
  | InvalidExpected contract_error
  | GeneralHasNoOwner
  | OwnerFollowsLease
  | HandoffNotAuthorized
  | SpeechNotInConversation

datatype chat_error =
    ConversationNotFound id
  | ThreadNotFound string
  | StateError state_reason
  | IdentityError string
  | StoreFailed db_error
  | LifecycleFailed sm_error
  | StoredPolicyBad contract_error
  | TaskFailed remote_error
  | BindingError string
  | Crash string

text \<open>An \<open>except ValueError\<close> clause around a validator; a \<open>TypeError\<close> is not caught.\<close>

fun of_contract :: "(contract_error \<Rightarrow> state_reason) \<Rightarrow> contract_error \<Rightarrow> chat_error" where
  "of_contract f TypeError = Crash ''TypeError''"
| "of_contract f e = StateError (f e)"

fun of_mirror :: "mirror_error \<Rightarrow> chat_error" where
  "of_mirror (DbErr e) = StoreFailed e"
| "of_mirror (SmErr e) = LifecycleFailed e"

text \<open>\<open>except PolicyViolation\<close>: a violation becomes a state error, any other error passes through.\<close>

fun of_policy :: "policy_error \<Rightarrow> chat_error" where
  "of_policy (PolicyViolation code) = StateError (PolicyRefused code)"
| "of_policy (BadPolicy e) = StoredPolicyBad e"

section \<open>Service calls\<close>

type_synonym 'a run = "service \<Rightarrow> (chat_error + 'a) \<times> service"

text \<open>\<open>with session_scope() as db\<close>: commit the result, or leave the store as it was and raise.\<close>

definition tx :: "(chat \<Rightarrow> chat_error + 'a \<times> chat) \<Rightarrow> 'a run" where
  "tx f s = (case f (s_db s) of Inl e \<Rightarrow> (Inl e, s) | Inr (x, db) \<Rightarrow> (Inr x, s\<lparr>s_db := db\<rparr>))"

definition look :: "(chat \<Rightarrow> chat_error + 'a) \<Rightarrow> 'a run" where
  "look f s = (f (s_db s), s)"

definition count :: "(metrics \<Rightarrow> metrics) \<Rightarrow> unit run" where
  "count f s = (Inr (), s\<lparr>s_metrics := f (s_metrics s)\<rparr>)"

lemma tx_Inr_iff: "tx f s = (Inr x, s') \<longleftrightarrow> (\<exists>db. f (s_db s) = Inr (x, db) \<and> s' = s\<lparr>s_db := db\<rparr>)"
  by (auto simp: tx_def split: sum.splits)

lemma look_Inr_iff: "look f s = (Inr x, s') \<longleftrightarrow> f (s_db s) = Inr x \<and> s' = s"
  by (auto simp: look_def)

text \<open>
  \<open>triple E P m Q\<close>: from a store with \<open>P\<close> the call returns with \<open>Q\<close>, or raises and leaves \<open>E\<close>. A raise
  keeps the transactions committed before it, so \<open>E\<close> is what those establish.
\<close>

definition triple :: "(chat \<Rightarrow> bool) \<Rightarrow> (chat \<Rightarrow> bool) \<Rightarrow> 'a run \<Rightarrow> ('a \<Rightarrow> chat \<Rightarrow> bool) \<Rightarrow> bool" where
  "triple E P m Q \<longleftrightarrow>
     (\<forall>s. P (s_db s) \<longrightarrow> (case m s of (Inl e, s') \<Rightarrow> E (s_db s') | (Inr x, s') \<Rightarrow> Q x (s_db s')))"

lemma tripleD: "triple E P m Q \<Longrightarrow> P (s_db s) \<Longrightarrow> m s = (Inr x, s') \<Longrightarrow> Q x (s_db s')"
  "triple E P m Q \<Longrightarrow> P (s_db s) \<Longrightarrow> m s = (Inl e, s') \<Longrightarrow> E (s_db s')"
  by (fastforce simp: triple_def)+

lemma triple_keep: "triple I I m (\<lambda>_. I) \<Longrightarrow> I (s_db s) \<Longrightarrow> I (s_db (snd (m s)))"
  by (cases "m s"; cases "fst (m s)") (auto dest: tripleD)

lemma triple_bind: "triple E P m Q \<Longrightarrow> (\<And>x. triple E (Q x) (f x) R) \<Longrightarrow> triple E P (bindS m f) R"
  by (fastforce simp: triple_def bindS_def split: prod.splits sum.splits)

lemma triple_weaken:
  "triple E P m Q \<Longrightarrow> (\<And>db. P' db \<Longrightarrow> P db) \<Longrightarrow> (\<And>x db. Q x db \<Longrightarrow> Q' x db) \<Longrightarrow> triple E P' m Q'"
  by (fastforce simp: triple_def split: prod.splits sum.splits)

lemma triple_done: "(\<And>db. P db \<Longrightarrow> Q x db) \<Longrightarrow> triple E P (doneS x) Q"
  by (simp add: triple_def doneS_def)

lemma triple_fail: "(\<And>db. P db \<Longrightarrow> E db) \<Longrightarrow> triple E P (failS e) Q"
  by (simp add: triple_def failS_def)

lemma triple_look:
  "(\<And>db x. P db \<Longrightarrow> f db = Inr x \<Longrightarrow> Q x db) \<Longrightarrow> (\<And>db. P db \<Longrightarrow> E db) \<Longrightarrow> triple E P (look f) Q"
  by (auto simp: triple_def look_def split: sum.splits)

lemma triple_tx:
  "(\<And>db x db'. P db \<Longrightarrow> f db = Inr (x, db') \<Longrightarrow> Q x db') \<Longrightarrow> (\<And>db. P db \<Longrightarrow> E db) \<Longrightarrow> triple E P (tx f) Q"
  by (auto simp: triple_def tx_def split: sum.splits)

lemma triple_count: "(\<And>db. P db \<Longrightarrow> Q () db) \<Longrightarrow> triple E P (count f) Q"
  by (simp add: triple_def count_def)

lemma triple_if:
  "(b \<Longrightarrow> triple E P m Q) \<Longrightarrow> (\<not> b \<Longrightarrow> triple E P n Q) \<Longrightarrow> triple E P (if b then m else n) Q"
  by simp

section \<open>Publishing\<close>

text \<open>\<open>_publish\<close> and \<open>_publish_v2_inbox_fanout\<close> run after the commit and read the committed store.\<close>

definition publish_message :: "lib \<Rightarrow> instant \<Rightarrow> chat_message \<Rightarrow> unit run" where
  "publish_message L now m s =
     (let v = make_message_envelope (l_uid L) (m_thread m) m
      in (Inr (), s\<lparr>s_broker := broker_publish now (v_space v) v (s_broker s)\<rparr>))"

definition fan_out :: "lib \<Rightarrow> instant \<Rightarrow> id option \<Rightarrow> id option \<Rightarrow> unit run" where
  "fan_out L now op ev s =
     (Inr (), s\<lparr>s_broker := publish_v2_inbox_fanout (l_uid L) now op ev (w_v2 (s_db s)) (s_broker s)\<rparr>)"

definition announce :: "lib \<Rightarrow> instant \<Rightarrow> conversation \<Rightarrow> chat_message \<Rightarrow> unit run" where
  "announce L now c m = bindS (publish_message L now m) (\<lambda>_. fan_out L now (c_v2 c) (m_v2 m))"

lemma triple_publish:
  "(\<And>db. P db \<Longrightarrow> Q () db) \<Longrightarrow> triple E P (publish_message L now m) Q"
  "(\<And>db. P db \<Longrightarrow> Q () db) \<Longrightarrow> triple E P (fan_out L now op ev) Q"
  by (simp_all add: triple_def publish_message_def fan_out_def Let_def)

lemma triple_announce: "(\<And>db. P db \<Longrightarrow> Q () db) \<Longrightarrow> triple E P (announce L now c m) Q"
  unfolding announce_def by (rule triple_bind, rule triple_publish(1), assumption) (simp add: triple_publish)

section \<open>Gates and lookups\<close>

definition check_actor :: "wiring \<Rightarrow> string \<Rightarrow> unit run" where
  "check_actor W actor =
     (case f_actor_auth W of
        None \<Rightarrow> doneS ()
      | Some auth \<Rightarrow> if auth actor then doneS () else failS (IdentityError actor))"

definition check_capability :: "wiring \<Rightarrow> instant \<Rightarrow> string \<Rightarrow> string \<Rightarrow> unit run" where
  "check_capability W now actor capability =
     (case f_cap_auth W of
        Some auth \<Rightarrow>
          bindS (tx (\<lambda>db. case auth now actor capability (w_v2 db) of
                       Inl e \<Rightarrow> Inl (StoreFailed e)
                     | Inr (b, v2) \<Rightarrow> Inr (b, db\<lparr>w_v2 := v2\<rparr>)))
            (\<lambda>b. if b then doneS () else failS (IdentityError capability))
      | None \<Rightarrow> check_actor W actor)"

abbreviation get_conv :: "id \<Rightarrow> chat \<Rightarrow> conversation option" where
  "get_conv k db \<equiv> row_get c_id k (w_convs db)"

abbreviation get_message :: "id \<Rightarrow> chat \<Rightarrow> chat_message option" where
  "get_message k db \<equiv> row_get m_id k (w_messages db)"

abbreviation get_thread :: "id \<Rightarrow> chat \<Rightarrow> chat_thread option" where
  "get_thread k db \<equiv> row_get h_id k (w_threads db)"

definition require_conv :: "id \<Rightarrow> chat \<Rightarrow> chat_error + conversation" where
  "require_conv k db = (case get_conv k db of None \<Rightarrow> Inl (ConversationNotFound k) | Some c \<Rightarrow> Inr c)"

definition get_thread_row_by_discord :: "string \<Rightarrow> chat \<Rightarrow> chat_thread option" where
  "get_thread_row_by_discord d db = row_get h_discord d (w_threads db)"

definition require_thread :: "string \<Rightarrow> chat \<Rightarrow> chat_error + chat_thread" where
  "require_thread d db = (case get_thread_row_by_discord d db of None \<Rightarrow> Inl (ThreadNotFound d) | Some h \<Rightarrow> Inr h)"

definition set_conv :: "id \<Rightarrow> (conversation \<Rightarrow> conversation) \<Rightarrow> chat \<Rightarrow> chat" where
  "set_conv k f db = db\<lparr>w_convs := row_upd c_id k f (w_convs db)\<rparr>"

section \<open>The general conversation of a room\<close>

definition general_of :: "id \<Rightarrow> chat \<Rightarrow> conversation option" where
  "general_of thread db = List.find (\<lambda>c. c_thread c = thread \<and> c_general c) (w_convs db)"

definition new_conversation ::
  "instant \<Rightarrow> id \<Rightarrow> id \<Rightarrow> string \<Rightarrow> string \<Rightarrow> string option \<Rightarrow> string \<Rightarrow> string option \<Rightarrow> bool \<Rightarrow> conversation" where
  "new_conversation now k thread kind title intent opener owner general =
     \<lparr>c_id = k, c_thread = thread, c_kind = kind, c_title = title, c_intent = intent,
      c_state = CONVERSATION_STATE_OPEN, c_opener = opener, c_owner = owner, c_expected = None,
      c_parent = None, c_task = None, c_v2 = None, c_resolution = None, c_summary = None,
      c_closed_by = None, c_general = general, c_last_speech = None, c_speech_count = 0,
      c_warned_at = None, c_warnings = 0, c_unaddressed = 0, c_created = now, c_updated = now,
      c_closed_at = None\<rparr>"

definition get_or_create_general_conversation ::
  "instant \<Rightarrow> chat_thread \<Rightarrow> chat \<Rightarrow> conversation \<times> chat" where
  "get_or_create_general_conversation now h db =
     (case general_of (h_id h) db of
        Some c \<Rightarrow> (c, db)
      | None \<Rightarrow>
          let c = new_conversation now (w_next db) (h_id h) CONVERSATION_KIND_GENERAL ''General''
                    (Some ''Casual chat and unstructured updates.'') ''system'' None True
          in (c, db\<lparr>w_convs := w_convs db @ [c], w_next := Suc (w_next db)\<rparr>))"

text \<open>The dual write of a new conversation: the row gets the key of its v2 operation.\<close>

definition mirror_open :: "lib \<Rightarrow> instant \<Rightarrow> conversation \<Rightarrow> chat \<Rightarrow> chat_error + conversation \<times> chat" where
  "mirror_open L now c db =
     bindE (map_err StoreFailed (mirror_conversation_open now (c_id c) (l_uid L (c_thread c)) (c_kind c) (c_title c)
              (c_intent c) (c_opener c) (c_owner c) (c_expected c) (c_general c) (w_v2 db))) (\<lambda>(op, v2).
     Inr (c\<lparr>c_v2 := Some op\<rparr>, set_conv (c_id c) (\<lambda>_. c\<lparr>c_v2 := Some op\<rparr>) (db\<lparr>w_v2 := v2\<rparr>)))"

definition get_or_create_general :: "lib \<Rightarrow> instant \<Rightarrow> chat_thread \<Rightarrow> chat \<Rightarrow> chat_error + conversation \<times> chat" where
  "get_or_create_general L now h db =
     (let existed = (general_of (h_id h) db \<noteq> None); (c, db1) = get_or_create_general_conversation now h db
      in if \<not> existed \<and> c_v2 c = None then mirror_open L now c db1 else Inr (c, db1))"

section \<open>Messages and their dual write\<close>

definition add_message ::
  "instant \<Rightarrow> conversation \<Rightarrow> string \<Rightarrow> string \<Rightarrow> string option \<Rightarrow> string list option \<Rightarrow> id option \<Rightarrow> content
     \<Rightarrow> chat \<Rightarrow> chat_error + chat_message \<times> chat" where
  "add_message now c actor kind to many reply body db =
     (let m = \<lparr>m_id = w_next db, m_thread = c_thread c, m_conv = Some (c_id c), m_actor = actor, m_kind = kind,
               m_to = to, m_many = many, m_replies_to = reply, m_body = body, m_v2 = None, m_created = now\<rparr>
      in if get_thread (c_thread c) db = None \<or> get_conv (c_id c) db = None
            \<or> (case reply of None \<Rightarrow> False | Some k \<Rightarrow> get_message k db = None)
         then Inl (StoreFailed (ForeignKeyViolation ''chat_messages''))
         else Inr (m, db\<lparr>w_messages := w_messages db @ [m], w_next := Suc (w_next db)\<rparr>))"

text \<open>
  \<open>_mirror_v1_message_to_v2\<close>. The reply of the v2 event is the event of the parent message; only when
  there is none the caller's v2 reply is used.
\<close>

definition v2_parent :: "chat_message \<Rightarrow> id option \<Rightarrow> chat \<Rightarrow> id option" where
  "v2_parent m reply_v2 db =
     (let parent = (case m_replies_to m of None \<Rightarrow> None
                    | Some k \<Rightarrow> (case get_message k db of None \<Rightarrow> None | Some p \<Rightarrow> m_v2 p))
      in if parent = None then reply_v2 else parent)"

definition mirror_v1_message_to_v2 ::
  "instant \<Rightarrow> chat_message \<Rightarrow> conversation \<Rightarrow> string list option \<Rightarrow> obj option \<Rightarrow> id option
     \<Rightarrow> chat \<Rightarrow> chat_error + chat_message \<times> chat" where
  "mirror_v1_message_to_v2 now m c private expected reply_v2 db =
     (if c_v2 c = None then Inr (m, db)
      else bindE (map_err StoreFailed (mirror_message now (c_v2 c) (m_actor m) (m_kind m) (m_body m) (m_to m)
              (case m_many m of None \<Rightarrow> [] | Some hs \<Rightarrow> hs) (v2_parent m reply_v2 db) private expected (w_v2 db)))
        (\<lambda>(ev, v2). Inr (m\<lparr>m_v2 := ev\<rparr>,
           db\<lparr>w_v2 := v2, w_messages := row_upd m_id (m_id m) (\<lambda>x. x\<lparr>m_v2 := ev\<rparr>) (w_messages db)\<rparr>)))"

text \<open>The pair of steps every service takes for an event of its own: the row, then its mirror.\<close>

definition emit ::
  "instant \<Rightarrow> conversation \<Rightarrow> string \<Rightarrow> string \<Rightarrow> string option \<Rightarrow> json \<Rightarrow> chat \<Rightarrow> chat_error + chat_message \<times> chat" where
  "emit now c actor kind to body db =
     bindE (add_message now c actor kind to None None (Dumped body) db) (\<lambda>(m, db1).
     mirror_v1_message_to_v2 now m c None None None db1)"

end
