(* ===== verification/Conversation.thy ===== *)
theory Conversation
  imports Room
begin

text \<open>
  The conversation protocol of a chat room, \<open>behaviors/chat/conversation_service.py\<close>
  (\<open>ChatConversationService\<close>): opening, closing, speech with its turn-taking gauge, handing over,
  the idle sweep, read positions, the audit log, and the views of a room. A call returns the rows
  whose fields the response models copy. A capability check runs in a transaction of its own, as in
  the source; \<open>W\<close> is the wiring of the service and \<open>L\<close> the library of text encodings.
\<close>

section \<open>Vocabulary\<close>

abbreviation EVENT_CONVERSATION_OPENED :: string where "EVENT_CONVERSATION_OPENED \<equiv> ''chat.conversation.opened''"
abbreviation EVENT_CONVERSATION_CLOSED :: string where "EVENT_CONVERSATION_CLOSED \<equiv> ''chat.conversation.closed''"
abbreviation EVENT_CONVERSATION_IDLE_WARNING :: string
  where "EVENT_CONVERSATION_IDLE_WARNING \<equiv> ''chat.conversation.idle_warning''"
abbreviation EVENT_CONVERSATION_HANDOFF :: string where "EVENT_CONVERSATION_HANDOFF \<equiv> ''chat.conversation.handoff''"
abbreviation EVENT_CONVERSATION_OVER_SPEECH :: string
  where "EVENT_CONVERSATION_OVER_SPEECH \<equiv> ''chat.conversation.over_speech''"
abbreviation CHAT_TASK_MACHINE_ID :: string where "CHAT_TASK_MACHINE_ID \<equiv> ''chat''"

definition TASK_NON_TERMINAL_STATUSES :: "string list" where
  "TASK_NON_TERMINAL_STATUSES =
     [''queued'', ''claimed'', ''executing'', ''blocked_approval'', ''verifying'', ''interrupted'', ''stalled'']"

definition speech_event_kind :: "string \<Rightarrow> string" where
  "speech_event_kind kind = ''chat.speech.'' @ kind"

definition is_resolution_allowed :: "string \<Rightarrow> string \<Rightarrow> bool" where
  "is_resolution_allowed kind resolution =
     (case ALLOWED_RESOLUTIONS kind of None \<Rightarrow> True | Some rs \<Rightarrow> rs = [] \<or> resolution \<in> set rs)"

text \<open>The payload of a lifecycle event: \<open>_summary_payload\<close>.\<close>

definition summary_payload :: "lib \<Rightarrow> conversation \<Rightarrow> json" where
  "summary_payload L c = JObj
     [(''id'', jkey L (c_id c)), (''thread_id'', jkey L (c_thread c)), (''kind'', JStr (c_kind c)),
      (''title'', JStr (c_title c)), (''intent'', jopt JStr (c_intent c)), (''state'', JStr (c_state c)),
      (''opener_actor'', JStr (c_opener c)), (''owner_actor'', jopt JStr (c_owner c)),
      (''expected_speaker'', jopt JStr (c_expected c)),
      (''parent_conversation_id'', jopt (jkey L) (c_parent c)), (''bound_task_id'', jopt JStr (c_task c)),
      (''resolution'', jopt JStr (c_resolution c)), (''resolution_summary'', jopt JStr (c_summary c)),
      (''closed_by'', jopt JStr (c_closed_by c)), (''is_general'', JBool (c_general c)),
      (''last_speech_at'', jopt (jtime L) (c_last_speech c)), (''speech_count'', JInt (c_speech_count c)),
      (''idle_warning_emitted_at'', jopt (jtime L) (c_warned_at c)),
      (''idle_warning_count'', JInt (c_warnings c)), (''unaddressed_speech_count'', JInt (c_unaddressed c)),
      (''created_at'', jtime L (c_created c)), (''closed_at'', jopt (jtime L) (c_closed_at c))]"

section \<open>Rooms\<close>

definition ensure_general :: "lib \<Rightarrow> instant \<Rightarrow> string \<Rightarrow> conversation run" where
  "ensure_general L now discord =
     tx (\<lambda>db. bindE (require_thread discord db) (\<lambda>h. get_or_create_general L now h db))"

definition ensure_general_for_thread_id :: "lib \<Rightarrow> instant \<Rightarrow> id \<Rightarrow> conversation run" where
  "ensure_general_for_thread_id L now k =
     tx (\<lambda>db. case get_thread k db of None \<Rightarrow> Inl (ThreadNotFound (l_uid L k))
              | Some h \<Rightarrow> get_or_create_general L now h db)"

text \<open>The loop body of \<open>backfill_general_conversations\<close>: orphans of a room join its general conversation.\<close>

definition adopt_orphans :: "lib \<Rightarrow> instant \<Rightarrow> chat_thread \<Rightarrow> nat \<times> chat \<Rightarrow> chat_error + nat \<times> chat" where
  "adopt_orphans L now h acc =
     (case acc of (migrated, db) \<Rightarrow>
        bindE (get_or_create_general L now h db) (\<lambda>(c, db1).
        let orphan = (\<lambda>m. m_thread m = h_id h \<and> m_conv m = None);
            attached = map (\<lambda>m. if orphan m then m\<lparr>m_conv := Some (c_id c)\<rparr> else m) (w_messages db1);
            typed = map (\<lambda>m. if m_thread m = h_id h \<and> m_kind m = ''message'' then m\<lparr>m_kind := ''claim''\<rparr> else m) attached
        in Inr (migrated + length (filter orphan (w_messages db1)), db1\<lparr>w_messages := typed\<rparr>)))"

definition backfill_general_conversations :: "lib \<Rightarrow> instant \<Rightarrow> nat run" where
  "backfill_general_conversations L now =
     tx (\<lambda>db. if list_ex (\<lambda>m. m_conv m = None \<or> m_kind m = ''message'') (w_messages db)
              then foldE (adopt_orphans L now) (w_threads db) (0, db)
              else Inr (0, db))"

section \<open>Opening\<close>

record open_request =
  q_kind :: string
  q_title :: string
  q_opener :: string
  q_intent :: "string option"
  q_owner :: "string option"
  q_to :: "string option"
  q_parent :: "id option"
  q_objective :: "string option"
  q_criteria :: obj
  q_priority :: string
  q_policy :: json

definition blank :: "string option \<Rightarrow> bool" where
  "blank v \<longleftrightarrow> v = None \<or> v = Some []"

definition open_row :: "instant \<Rightarrow> chat_thread \<Rightarrow> open_request \<Rightarrow> string option \<Rightarrow> chat \<Rightarrow> conversation" where
  "open_row now h q task db =
     (new_conversation now (w_next db) (h_id h) (q_kind q) (q_title q) (q_intent q) (q_opener q)
        (if blank (q_owner q) then Some (q_opener q) else q_owner q) False)
      \<lparr>c_expected := q_to q, c_parent := q_parent q, c_task := task\<rparr>"

definition open_tx ::
  "lib \<Rightarrow> instant \<Rightarrow> chat_thread \<Rightarrow> open_request \<Rightarrow> op_policy \<Rightarrow> string option \<Rightarrow> chat
     \<Rightarrow> chat_error + (conversation \<times> chat_message) \<times> chat" where
  "open_tx L now h q policy task db =
     bindE (get_or_create_general L now h db) (\<lambda>(g, db1).
     let c0 = open_row now h q task db1
     in if (case q_parent q of None \<Rightarrow> False | Some p \<Rightarrow> get_conv p db1 = None)
        then Inl (StoreFailed (ForeignKeyViolation ''chat_conversations.parent_conversation_id''))
        else bindE (mirror_open L now c0 (db1\<lparr>w_convs := w_convs db1 @ [c0], w_next := Suc (w_next db1)\<rparr>)) (\<lambda>(c, db2).
             let db3 = (case c_v2 c of None \<Rightarrow> db2
                        | Some op \<Rightarrow> db2\<lparr>w_v2 := snd (set_operation_policy now op policy (w_v2 db2))\<rparr>)
             in bindE (emit now c (c_opener c) EVENT_CONVERSATION_OPENED (c_expected c) (summary_payload L c) db3)
                  (\<lambda>(m, db4). Inr ((c, m), db4))))"

text \<open>\<open>create_task\<close> commits in its own session while the opening transaction is still running.\<close>

definition bind_task :: "lib \<Rightarrow> instant \<Rightarrow> string \<Rightarrow> chat_thread \<Rightarrow> open_request \<Rightarrow> string run" where
  "bind_task L now tk h q =
     tx (\<lambda>db. bindE (map_err TaskFailed (create_task now tk CHAT_TASK_MACHINE_ID (l_uid L (h_id h))
              (case q_objective q of None \<Rightarrow> [] | Some t \<Rightarrow> t) (q_criteria q) ''chat'' None (q_priority q)
              (q_opener q) (w_tasks db))) (\<lambda>(t, r). Inr (x_id (ts_row t), db\<lparr>w_tasks := r\<rparr>)))"

definition open_conversation ::
  "lib \<Rightarrow> wiring \<Rightarrow> instant \<Rightarrow> string \<Rightarrow> string \<Rightarrow> open_request \<Rightarrow> conversation run" where
  "open_conversation L W now tk discord q =
     bindS (check_capability W now (q_opener q) CAP_CONVERSATION_OPEN) (\<lambda>_.
     case validate_operation_policy (q_policy q) of
       Inl e \<Rightarrow> failS (of_contract InvalidPolicy e)
     | Inr policy \<Rightarrow>
         let binds = (q_kind q = CONVERSATION_KIND_TASK \<and> bind_remote_task policy)
         in if q_kind q = CONVERSATION_KIND_TASK \<and> blank (q_objective q) then failS (StateError NeedsObjective)
            else if binds \<and> \<not> f_tasks W then failS (StateError NoTaskService)
            else bindS (look (\<lambda>db. bindE (require_thread discord db) (\<lambda>h.
                               bindE (get_or_create_general L now h db) (\<lambda>_. Inr h)))) (\<lambda>h.
                 bindS (if binds then bindS (bind_task L now tk h q) (\<lambda>t. doneS (Some t)) else doneS None) (\<lambda>task.
                 bindS (tx (open_tx L now h q policy task)) (\<lambda>(c, m).
                 bindS (count (\<lambda>k. k\<lparr>k_opened := Suc (k_opened k)\<rparr>)) (\<lambda>_.
                 bindS (announce L now c m) (\<lambda>_. doneS c))))))"

section \<open>Closing\<close>

text \<open>The checks that read the conversation, in the order of the source.\<close>

definition close_guard :: "id \<Rightarrow> string \<Rightarrow> string \<Rightarrow> bool \<Rightarrow> chat \<Rightarrow> chat_error + conversation" where
  "close_guard k closed_by resolution bypass db =
     bindE (require_conv k db) (\<lambda>c.
       if c_general c then Inl (StateError GeneralNotClosable)
       else if c_state c = CONVERSATION_STATE_CLOSED then Inl (StateError (AlreadyClosed (c_resolution c)))
       else if \<not> bypass \<and> \<not> is_resolution_allowed (c_kind c) resolution
       then Inl (StateError (ResolutionNotValid resolution))
       else if \<not> bypass \<and> closed_by \<noteq> c_opener c \<and> (blank (c_owner c) \<or> Some closed_by \<noteq> c_owner c)
       then Inl (StateError CloserNotAuthorized)
       else Inr c)"

text \<open>The close policy of the mirrored operation; the closer's actor row is provisioned on the way.\<close>

definition close_policy_gate ::
  "instant \<Rightarrow> conversation \<Rightarrow> string \<Rightarrow> string \<Rightarrow> v2db \<Rightarrow> chat_error + v2db" where
  "close_policy_gate now c closed_by resolution db =
     (case c_v2 c of
        None \<Rightarrow> Inr db
      | Some k \<Rightarrow>
          (case get_operation k db of
             None \<Rightarrow> Inr db
           | Some op \<Rightarrow>
               bindE (map_err StoreFailed (ensure_default now (at_handle closed_by) db)) (\<lambda>(a, db1).
               bindE (map_err of_policy (check_close_admissible op (Some (a_id a)) (Some resolution) db1)) (\<lambda>_.
               Inr db1))))"

definition task_gate :: "wiring \<Rightarrow> conversation \<Rightarrow> chat \<Rightarrow> chat_error + unit" where
  "task_gate W c db =
     (if blank (c_task c) \<or> \<not> f_tasks W then Inr ()
      else bindE (map_err TaskFailed (get_task (the (c_task c)) (w_tasks db))) (\<lambda>t.
        if x_status (ts_row t) \<in> set TASK_NON_TERMINAL_STATUSES
        then Inl (StateError (TaskStillActive (x_status (ts_row t)))) else Inr ()))"

definition closed_row :: "instant \<Rightarrow> string \<Rightarrow> string \<Rightarrow> string option \<Rightarrow> conversation \<Rightarrow> conversation" where
  "closed_row now closed_by resolution summary c =
     c\<lparr>c_state := CONVERSATION_STATE_CLOSED, c_resolution := Some resolution, c_summary := summary,
       c_closed_by := Some closed_by, c_closed_at := Some now, c_updated := now\<rparr>"

definition attach_digest :: "lib \<Rightarrow> wiring \<Rightarrow> conversation \<Rightarrow> chat_message \<Rightarrow> chat \<Rightarrow> chat_error + chat" where
  "attach_digest L W c m db =
     (if f_digest W \<and> c_v2 c \<noteq> None \<and> m_v2 m \<noteq> None
      then bindE (map_err StoreFailed (record_close L (c_v2 c) (m_v2 m) (w_v2 db)))
             (\<lambda>(_, v2). Inr (db\<lparr>w_v2 := v2\<rparr>))
      else Inr db)"

definition close_tx ::
  "lib \<Rightarrow> wiring \<Rightarrow> instant \<Rightarrow> conversation \<Rightarrow> string \<Rightarrow> string \<Rightarrow> string option \<Rightarrow> bool \<Rightarrow> chat
     \<Rightarrow> chat_error + (conversation \<times> chat_message) \<times> chat" where
  "close_tx L W now c closed_by resolution summary bypass db =
     bindE (if bypass then Inr (w_v2 db) else close_policy_gate now c closed_by resolution (w_v2 db)) (\<lambda>v2.
     bindE (if bypass then Inr () else task_gate W c db) (\<lambda>_.
     bindE (map_err of_mirror (mirror_conversation_close now (c_v2 c) (Some closed_by) resolution summary bypass v2))
       (\<lambda>v2'.
     let c' = closed_row now closed_by resolution summary c;
         db1 = set_conv (c_id c) (\<lambda>_. c') (db\<lparr>w_v2 := v2'\<rparr>)
     in bindE (emit now c' closed_by EVENT_CONVERSATION_CLOSED None (summary_payload L c') db1) (\<lambda>(m, db2).
        bindE (attach_digest L W c' m db2) (\<lambda>db3. Inr ((c', m), db3))))))"

definition close_conversation ::
  "lib \<Rightarrow> wiring \<Rightarrow> instant \<Rightarrow> id \<Rightarrow> string \<Rightarrow> string \<Rightarrow> string option \<Rightarrow> bool \<Rightarrow> conversation run" where
  "close_conversation L W now k closed_by resolution summary bypass =
     bindS (look (close_guard k closed_by resolution bypass)) (\<lambda>c.
     bindS (if bypass then doneS () else check_capability W now closed_by CAP_CONVERSATION_CLOSE_OPENER) (\<lambda>_.
     bindS (tx (close_tx L W now c closed_by resolution summary bypass)) (\<lambda>(c', m).
     bindS (count (\<lambda>n. n\<lparr>k_closed := count_up resolution (k_closed n)\<rparr>)) (\<lambda>_.
     bindS (announce L now c' m) (\<lambda>_. doneS c')))))"

section \<open>Speech\<close>

record speech_request =
  z_actor :: string
  z_actor_kind :: string
  z_kind :: string
  z_content :: string
  z_to :: "string option"
  z_many :: "string list"
  z_reply :: "id option"
  z_reply_v2 :: "id option"
  z_private :: "string list"
  z_expected :: json

text \<open>Addressees: the primary one, lifted from the list when the single slot is empty, and the stored list.\<close>

definition primary_addr :: "speech_request \<Rightarrow> string option" where
  "primary_addr r = (case z_to r of Some a \<Rightarrow> Some a | None \<Rightarrow> (case z_many r of [] \<Rightarrow> None | a # _ \<Rightarrow> Some a))"

definition stored_addressees :: "speech_request \<Rightarrow> string list option" where
  "stored_addressees r =
     (let primary = primary_addr r;
          others = (if z_to r = None \<and> z_many r \<noteq> [] then tl (z_many r)
                    else filter (\<lambda>a. Some a \<noteq> primary) (z_many r))
      in if \<not> blank primary \<and> others \<noteq> [] then Some (the primary # others)
         else if \<not> blank primary \<and> z_many r \<noteq> [] then Some [the primary]
         else if others \<noteq> [] then Some others else None)"

text \<open>Indexing a truthy value that is neither a list nor a string raises.\<close>

definition compute_effective_addr :: "string option \<Rightarrow> json \<Rightarrow> chat_error + string option" where
  "compute_effective_addr primary expected =
     (if \<not> blank primary then Inr primary
      else case expected of
        JObj ex \<Rightarrow>
          (let handles = obj_get ex ''from_actor_handles'' in
           if \<not> truthy handles then Inr None
           else case handles of
             JArr (JStr h # _) \<Rightarrow> Inr (if h = [] then None else Some h)
           | JArr _ \<Rightarrow> Inr None
           | JStr s \<Rightarrow> Inr (Some (take 1 s))
           | _ \<Rightarrow> Inl (Crash ''handles[0]''))
      | _ \<Rightarrow> Inr None)"

text \<open>The soft turn-taking gauge; the flag says that this speech trips the over-speech event.\<close>

definition gauge :: "int \<Rightarrow> string option \<Rightarrow> string \<Rightarrow> conversation \<Rightarrow> conversation \<times> bool" where
  "gauge threshold addr actor c =
     (if \<not> blank addr then
        (c\<lparr>c_unaddressed := (if addr \<noteq> c_expected c then 0 else c_unaddressed c), c_expected := addr\<rparr>, False)
      else if Some actor = c_expected c then (c\<lparr>c_expected := None, c_unaddressed := 0\<rparr>, False)
      else if \<not> blank (c_expected c) then
        (c\<lparr>c_unaddressed := c_unaddressed c + 1\<rparr>, c_unaddressed c + 1 = threshold)
      else (c, False))"

definition spoken_row :: "wiring \<Rightarrow> instant \<Rightarrow> string option \<Rightarrow> string \<Rightarrow> conversation \<Rightarrow> conversation \<times> bool" where
  "spoken_row W now addr actor c =
     (case gauge (g_over (f_policy W)) addr actor (c\<lparr>c_last_speech := Some now, c_speech_count := c_speech_count c + 1\<rparr>) of
        (c1, over) \<Rightarrow> (c1\<lparr>c_updated := now\<rparr>, over))"

definition speech_policy_gate ::
  "instant \<Rightarrow> conversation \<Rightarrow> speech_request \<Rightarrow> v2db \<Rightarrow> chat_error + v2db" where
  "speech_policy_gate now c r db =
     (case c_v2 c of
        None \<Rightarrow> Inr db
      | Some k \<Rightarrow>
          (case get_operation k db of
             None \<Rightarrow> Inr db
           | Some op \<Rightarrow>
               bindE (map_err of_policy (check_speech_admissible op (z_kind r) (z_reply_v2 r) db)) (\<lambda>_.
               if z_kind r \<in> {''invite'', ''join''} then
                 bindE (map_err StoreFailed (ensure_actor_by_handle now (at_handle (z_actor r)) None
                          (if z_actor_kind r = ''ai'' then ''ai'' else ''human'') [] db)) (\<lambda>(a, db1).
                 bindE (map_err of_policy
                          (if z_kind r = ''invite'' then check_invite_admissible op (a_id a) db1
                           else check_join_admissible op (is_participant (o_id op) (a_id a) db1))) (\<lambda>_.
                 Inr db1))
               else Inr db)))"

definition over_speech_payload :: "lib \<Rightarrow> int \<Rightarrow> conversation \<Rightarrow> json" where
  "over_speech_payload L threshold c = JObj
     [(''conversationId'', jkey L (c_id c)), (''expectedSpeaker'', jopt JStr (c_expected c)),
      (''unaddressedSpeechCount'', JInt (c_unaddressed c)), (''threshold'', JInt threshold)]"

text \<open>The end of a speech: the row of the conversation, and the over-speech event when the gauge trips.\<close>

definition settle_speech ::
  "lib \<Rightarrow> wiring \<Rightarrow> instant \<Rightarrow> string option \<Rightarrow> string \<Rightarrow> conversation \<Rightarrow> chat
     \<Rightarrow> chat_error + (conversation \<times> chat_message option) \<times> chat" where
  "settle_speech L W now addr actor c db =
     (let (c', over) = spoken_row W now addr actor c; db1 = set_conv (c_id c) (\<lambda>_. c') db
      in if over
         then bindE (emit now c' ''system'' EVENT_CONVERSATION_OVER_SPEECH (c_expected c')
                       (over_speech_payload L (g_over (f_policy W)) c') db1)
                (\<lambda>(om, db2). Inr ((c', Some om), db2))
         else Inr ((c', None), db1))"

definition submit_tx ::
  "lib \<Rightarrow> wiring \<Rightarrow> (string \<Rightarrow> string) \<Rightarrow> instant \<Rightarrow> id \<Rightarrow> speech_request \<Rightarrow> chat
     \<Rightarrow> chat_error + (conversation \<times> chat_message \<times> chat_message option) \<times> chat" where
  "submit_tx L W clean now k r db =
     bindE (require_conv k db) (\<lambda>c.
     if c_state c = CONVERSATION_STATE_CLOSED then Inl (StateError ClosedForSpeech)
     else bindE (compute_effective_addr (primary_addr r) (z_expected r)) (\<lambda>addr.
     bindE (add_message now c (z_actor r) (speech_event_kind (z_kind r)) (primary_addr r) (stored_addressees r)
              (z_reply r) (Text (clean (z_content r))) db) (\<lambda>(m, db1).
     bindE (map_err (of_contract InvalidExpected) (validate_expected_response (z_expected r))) (\<lambda>expected.
     bindE (speech_policy_gate now c r (w_v2 db1)) (\<lambda>v2.
     bindE (mirror_v1_message_to_v2 now m c (if z_private r = [] then None else Some (z_private r)) expected
              (z_reply_v2 r) (db1\<lparr>w_v2 := v2\<rparr>)) (\<lambda>(m', db2).
     bindE (settle_speech L W now addr (z_actor r) c db2) (\<lambda>((c', over), db3). Inr ((c', m', over), db3))))))))"

definition submit_speech ::
  "lib \<Rightarrow> wiring \<Rightarrow> (string \<Rightarrow> string) \<Rightarrow> instant \<Rightarrow> id \<Rightarrow> speech_request \<Rightarrow> chat_message run" where
  "submit_speech L W clean now k r =
     bindS (check_capability W now (z_actor r) CAP_SPEECH_SUBMIT) (\<lambda>_.
     bindS (tx (submit_tx L W clean now k r)) (\<lambda>(c, m, over).
     bindS (count (\<lambda>n. n\<lparr>k_speech := count_up (z_kind r) (k_speech n)\<rparr>)) (\<lambda>_.
     bindS (announce L now c m) (\<lambda>_.
     bindS (case over of None \<Rightarrow> doneS () | Some om \<Rightarrow> announce L now c om) (\<lambda>_. doneS m)))))"

section \<open>Handing over\<close>

definition handoff_guard :: "id \<Rightarrow> string \<Rightarrow> chat \<Rightarrow> chat_error + conversation" where
  "handoff_guard k by_actor db =
     bindE (require_conv k db) (\<lambda>c.
       if c_general c then Inl (StateError GeneralHasNoOwner)
       else if c_state c = CONVERSATION_STATE_CLOSED then Inl (StateError (AlreadyClosed (c_resolution c)))
       else if \<not> blank (c_task c) then Inl (StateError OwnerFollowsLease)
       else if by_actor \<noteq> c_opener c \<and> (blank (c_owner c) \<or> Some by_actor \<noteq> c_owner c)
       then Inl (StateError HandoffNotAuthorized)
       else Inr c)"

definition handoff_payload :: "lib \<Rightarrow> conversation \<Rightarrow> string \<Rightarrow> string \<Rightarrow> string option \<Rightarrow> json" where
  "handoff_payload L c new_owner by_actor why = JObj
     [(''conversationId'', jkey L (c_id c)), (''previousOwner'', jopt JStr (c_owner c)),
      (''newOwner'', JStr new_owner), (''byActor'', JStr by_actor), (''reason'', jopt JStr why)]"

definition transfer_tx ::
  "lib \<Rightarrow> instant \<Rightarrow> id \<Rightarrow> string \<Rightarrow> string \<Rightarrow> string option \<Rightarrow> chat
     \<Rightarrow> chat_error + (conversation \<times> chat_message) \<times> chat" where
  "transfer_tx L now k by_actor new_owner why db =
     bindE (handoff_guard k by_actor db) (\<lambda>c.
     let c' = c\<lparr>c_owner := Some new_owner, c_expected := Some new_owner, c_updated := now\<rparr>
     in bindE (emit now c' by_actor EVENT_CONVERSATION_HANDOFF (Some new_owner)
                 (handoff_payload L c new_owner by_actor why) (set_conv k (\<lambda>_. c') db))
          (\<lambda>(m, db1). Inr ((c', m), db1)))"

definition transfer_owner ::
  "lib \<Rightarrow> wiring \<Rightarrow> instant \<Rightarrow> id \<Rightarrow> string \<Rightarrow> string \<Rightarrow> string option \<Rightarrow> conversation run" where
  "transfer_owner L W now k by_actor new_owner why =
     bindS (check_capability W now by_actor CAP_CONVERSATION_HANDOFF) (\<lambda>_.
     bindS (tx (transfer_tx L now k by_actor new_owner why)) (\<lambda>(c, m).
     bindS (count (\<lambda>n. n\<lparr>k_handoffs := Suc (k_handoffs n)\<rparr>)) (\<lambda>_.
     bindS (announce L now c m) (\<lambda>_. doneS c))))"

section \<open>Idle sweep\<close>

definition last_active :: "conversation \<Rightarrow> instant" where
  "last_active c = (case c_last_speech c of None \<Rightarrow> c_created c | Some t \<Rightarrow> t)"

definition target_tier :: "chat_policy \<Rightarrow> int \<Rightarrow> int \<Rightarrow> nat" where
  "target_tier p threshold age =
     (if seconds (g_tier3 p * threshold) \<le> age then 3
      else if seconds (g_tier2 p * threshold) \<le> age then 2
      else if seconds (g_tier1 p * threshold) \<le> age then 1 else 0)"

definition warning_payload :: "lib \<Rightarrow> instant \<Rightarrow> int \<Rightarrow> conversation \<Rightarrow> nat \<Rightarrow> json" where
  "warning_payload L now threshold c tier = JObj
     [(''conversationId'', jkey L (c_id c)), (''kind'', JStr (c_kind c)), (''title'', JStr (c_title c)),
      (''expectedSpeaker'', jopt JStr (c_expected c)), (''ownerActor'', jopt JStr (c_owner c)),
      (''lastSpeechAt'', jtime L (last_active c)), (''ageSeconds'', JInt (whole_seconds (now - last_active c))),
      (''idleThresholdSeconds'', JInt threshold), (''level'', JInt (int tier))]"

text \<open>One warning: the event of the tier, then the row's columns.\<close>

definition warn ::
  "lib \<Rightarrow> instant \<Rightarrow> int \<Rightarrow> nat \<Rightarrow> conversation \<times> chat_message list \<times> chat
     \<Rightarrow> chat_error + conversation \<times> chat_message list \<times> chat" where
  "warn L now threshold tier acc =
     (case acc of (c, ms, db) \<Rightarrow>
        bindE (emit now c ''system'' EVENT_CONVERSATION_IDLE_WARNING (c_expected c)
                 (warning_payload L now threshold c tier) db) (\<lambda>(m, db1).
        let c' = c\<lparr>c_warned_at := (case c_warned_at c of None \<Rightarrow> Some now | Some t \<Rightarrow> Some t),
                   c_warnings := int tier\<rparr>
        in Inr (c', ms @ [m], set_conv (c_id c) (\<lambda>_. c') db1)))"

record sweep =
  x_pubs :: "(conversation \<times> chat_message) list"
  x_flagged :: "conversation list"
  x_abandon :: "(id \<times> instant) list"
  x_tiers :: "nat list"

definition no_sweep :: sweep where
  "no_sweep = \<lparr>x_pubs = [], x_flagged = [], x_abandon = [], x_tiers = []\<rparr>"

definition sweep_row ::
  "lib \<Rightarrow> wiring \<Rightarrow> instant \<Rightarrow> int \<Rightarrow> conversation \<Rightarrow> sweep \<times> chat \<Rightarrow> chat_error + sweep \<times> chat" where
  "sweep_row L W now threshold c acc =
     (case acc of (x, db) \<Rightarrow>
        let target = target_tier (f_policy W) threshold (now - last_active c)
        in if int target \<le> c_warnings c then Inr (x, db)
           else let tiers = [nat (c_warnings c + 1)..<Suc (min target 2)] in
             bindE (foldE (warn L now threshold) tiers (c, [], db)) (\<lambda>(c1, ms, db1).
             let c' = c1\<lparr>c_updated := now\<rparr>
             in Inr (x\<lparr>x_pubs := x_pubs x @ map (\<lambda>m. (c', m)) ms,
                       x_flagged := (if target = 3 then x_flagged x else x_flagged x @ [c']),
                       x_abandon := (if target = 3 then x_abandon x @ [(c_id c, last_active c)] else x_abandon x),
                       x_tiers := x_tiers x @ tiers\<rparr>,
                     set_conv (c_id c) (\<lambda>_. c') db1)))"

definition sweepable :: "id \<Rightarrow> conversation \<Rightarrow> bool" where
  "sweepable thread c \<longleftrightarrow> c_thread c = thread \<and> c_state c = CONVERSATION_STATE_OPEN \<and> \<not> c_general c"

definition sweep_tx ::
  "lib \<Rightarrow> wiring \<Rightarrow> instant \<Rightarrow> string \<Rightarrow> int \<Rightarrow> chat \<Rightarrow> chat_error + sweep \<times> chat" where
  "sweep_tx L W now discord threshold db =
     bindE (require_thread discord db) (\<lambda>h.
       foldE (sweep_row L W now threshold) (filter (sweepable (h_id h)) (w_convs db)) (no_sweep, db))"

fun each :: "('a \<Rightarrow> unit run) \<Rightarrow> 'a list \<Rightarrow> unit run" where
  "each f [] = doneS ()"
| "each f (x # xs) = bindS (f x) (\<lambda>_. each f xs)"

definition abandon_text :: "lib \<Rightarrow> instant \<Rightarrow> int \<Rightarrow> instant \<Rightarrow> string" where
  "abandon_text L now threshold seen =
     ''auto-abandoned: tier-3 idle threshold exceeded (age='' @ dec_int (whole_seconds (now - seen))
     @ ''s, base='' @ dec_int threshold @ ''s, last='' @ l_iso L seen @ '')''"

definition abandon ::
  "lib \<Rightarrow> wiring \<Rightarrow> instant \<Rightarrow> int \<Rightarrow> id \<times> instant \<Rightarrow> conversation list run" where
  "abandon L W now threshold a =
     (case a of (k, seen) \<Rightarrow>
        bindS (close_conversation L W now k ''system'' ''abandoned'' (Some (abandon_text L now threshold seen)) True) (\<lambda>_.
        tx (\<lambda>db. case get_conv k db of
                    None \<Rightarrow> Inr ([], db)
                  | Some c \<Rightarrow> Inr ([c\<lparr>c_warnings := 3\<rparr>], set_conv k (\<lambda>c. c\<lparr>c_warnings := 3, c_updated := now\<rparr>) db))))"

fun abandon_all ::
  "lib \<Rightarrow> wiring \<Rightarrow> instant \<Rightarrow> int \<Rightarrow> (id \<times> instant) list \<Rightarrow> conversation list run" where
  "abandon_all L W now threshold [] = doneS []"
| "abandon_all L W now threshold (a # as) =
     bindS (abandon L W now threshold a) (\<lambda>cs. bindS (abandon_all L W now threshold as) (\<lambda>ds. doneS (cs @ ds)))"

definition sweep_idle_conversations ::
  "lib \<Rightarrow> wiring \<Rightarrow> instant \<Rightarrow> string \<Rightarrow> int \<Rightarrow> conversation list run" where
  "sweep_idle_conversations L W now discord secs =
     (if max 0 secs = 0 then doneS []
      else bindS (tx (sweep_tx L W now discord secs)) (\<lambda>x.
           bindS (count (\<lambda>n. n\<lparr>k_warned := fold count_up (x_tiers x) (k_warned n)\<rparr>)) (\<lambda>_.
           bindS (each (\<lambda>(c, m). publish_message L now m) (x_pubs x)) (\<lambda>_.
           bindS (each (\<lambda>(c, m). fan_out L now (c_v2 c) (m_v2 m)) (x_pubs x)) (\<lambda>_.
           bindS (abandon_all L W now secs (x_abandon x)) (\<lambda>cs. doneS (x_flagged x @ cs)))))))"

section \<open>Read positions\<close>

definition unread_count :: "id \<Rightarrow> instant option \<Rightarrow> chat \<Rightarrow> nat" where
  "unread_count k cursor db =
     length (filter (\<lambda>m. m_conv m = Some k \<and> (case cursor of None \<Rightarrow> True | Some t \<Rightarrow> t < m_created m)) (w_messages db))"

record read_status =
  n_conv :: id
  n_reader :: string
  n_speech :: "id option"
  n_at :: "instant option"
  n_unread :: nat

definition cursor_of :: "id \<Rightarrow> string \<Rightarrow> chat \<Rightarrow> read_cursor option" where
  "cursor_of k actor db = List.find (\<lambda>r. rc_conv r = k \<and> rc_actor r = actor) (w_reads db)"

definition read_target :: "id \<Rightarrow> id option \<Rightarrow> chat \<Rightarrow> chat_error + id option \<times> instant option" where
  "read_target k speech db =
     (case speech of
        None \<Rightarrow> (case select_desc m_created (\<lambda>m. m_conv m = Some k) (w_messages db) of
                  [] \<Rightarrow> Inr (None, None) | m # _ \<Rightarrow> Inr (Some (m_id m), Some (m_created m)))
      | Some s \<Rightarrow> (case get_message s db of
                   None \<Rightarrow> Inl (StateError SpeechNotInConversation)
                 | Some m \<Rightarrow> if m_conv m = Some k then Inr (Some s, Some (m_created m))
                            else Inl (StateError SpeechNotInConversation)))"

definition put_cursor :: "id \<Rightarrow> string \<Rightarrow> id option \<Rightarrow> instant option \<Rightarrow> chat \<Rightarrow> chat" where
  "put_cursor k actor speech at_time db =
     (let row = \<lparr>rc_conv = k, rc_actor = actor, rc_speech = speech, rc_at = at_time\<rparr>
      in case cursor_of k actor db of
           None \<Rightarrow> db\<lparr>w_reads := w_reads db @ [row]\<rparr>
         | Some _ \<Rightarrow> db\<lparr>w_reads := map (\<lambda>r. if rc_conv r = k \<and> rc_actor r = actor then row else r) (w_reads db)\<rparr>)"

definition mark_conversation_read ::
  "wiring \<Rightarrow> id \<Rightarrow> string \<Rightarrow> id option \<Rightarrow> read_status run" where
  "mark_conversation_read W k actor speech =
     bindS (check_actor W actor) (\<lambda>_.
     tx (\<lambda>db. bindE (require_conv k db) (\<lambda>_.
         bindE (read_target k speech db) (\<lambda>(target, at_time).
         let db' = put_cursor k actor target at_time db
         in Inr (\<lparr>n_conv = k, n_reader = actor, n_speech = target, n_at = at_time,
                  n_unread = unread_count k at_time db'\<rparr>, db')))))"

definition get_conversation_read_status :: "id \<Rightarrow> string \<Rightarrow> read_status run" where
  "get_conversation_read_status k actor =
     look (\<lambda>db. bindE (require_conv k db) (\<lambda>_.
       let r = cursor_of k actor db; at_time = (case r of None \<Rightarrow> None | Some x \<Rightarrow> rc_at x)
       in Inr \<lparr>n_conv = k, n_reader = actor, n_speech = (case r of None \<Rightarrow> None | Some x \<Rightarrow> rc_speech x),
               n_at = at_time, n_unread = unread_count k at_time db\<rparr>))"

section \<open>Closing many, and the audit log\<close>

text \<open>Each close is a call of its own; an error is reported for its conversation and the loop goes on.\<close>

fun close_each ::
  "lib \<Rightarrow> wiring \<Rightarrow> instant \<Rightarrow> string \<Rightarrow> string \<Rightarrow> string option \<Rightarrow> bool \<Rightarrow> id list
     \<Rightarrow> (id \<times> (chat_error + string option)) list run" where
  "close_each L W now closed_by resolution summary bypass [] = doneS []"
| "close_each L W now closed_by resolution summary bypass (k # ks) =
     (\<lambda>s. case close_conversation L W now k closed_by resolution summary bypass s of
            (r, s1) \<Rightarrow>
              bindS (close_each L W now closed_by resolution summary bypass ks)
                (\<lambda>rs. doneS ((k, map_sum id c_resolution r) # rs)) s1)"

record bulk_result =
  b_requested :: nat
  b_succeeded :: nat
  b_failed :: nat
  b_results :: "(id \<times> (chat_error + string option)) list"

definition bulk_close_conversations ::
  "lib \<Rightarrow> wiring \<Rightarrow> instant \<Rightarrow> id list \<Rightarrow> string \<Rightarrow> string \<Rightarrow> string option \<Rightarrow> bool \<Rightarrow> bulk_result run" where
  "bulk_close_conversations L W now ks closed_by resolution summary bypass =
     bindS (if bypass then doneS () else check_actor W closed_by) (\<lambda>_.
     bindS (close_each L W now closed_by resolution summary bypass ks) (\<lambda>rs.
     let n = length (filter (\<lambda>(k, r). case r of Inl _ \<Rightarrow> False | Inr _ \<Rightarrow> True) rs)
     in doneS \<lparr>b_requested = length ks, b_succeeded = n, b_failed = length ks - n, b_results = rs\<rparr>))"

record audit_query =
  l_thread :: "string option"
  l_conv :: "id option"
  l_actor :: "string option"
  l_kind :: "string option"
  l_prefix :: "string option"
  l_from :: "instant option"
  l_to :: "instant option"

definition audit_match :: "audit_query \<Rightarrow> id option \<Rightarrow> chat_message \<Rightarrow> bool" where
  "audit_match q thread m \<longleftrightarrow>
     (case thread of None \<Rightarrow> True | Some t \<Rightarrow> m_thread m = t)
     \<and> (l_conv q = None \<or> m_conv m = l_conv q)
     \<and> (case l_actor q of None \<Rightarrow> True | Some a \<Rightarrow> m_actor m = a)
     \<and> (case l_kind q of None \<Rightarrow> True | Some k \<Rightarrow> m_kind m = k)
     \<and> (case l_prefix q of None \<Rightarrow> True | Some p \<Rightarrow> sql_like (p @ ''%'') (m_kind m))
     \<and> (case l_from q of None \<Rightarrow> True | Some t \<Rightarrow> t \<le> m_created m)
     \<and> (case l_to q of None \<Rightarrow> True | Some t \<Rightarrow> m_created m \<le> t)"

record audit_page =
  j_items :: "chat_message list"
  j_more :: bool
  j_next :: "nat option"

definition audit_rows :: "audit_query \<Rightarrow> chat \<Rightarrow> chat_message list option" where
  "audit_rows q db =
     (case l_thread q of
        None \<Rightarrow> Some (select_desc m_created (audit_match q None) (w_messages db))
      | Some d \<Rightarrow> (case get_thread_row_by_discord d db of
                   None \<Rightarrow> None
                 | Some h \<Rightarrow> Some (select_desc m_created (audit_match q (Some (h_id h))) (w_messages db))))"

definition search_audit_log :: "audit_query \<Rightarrow> int \<Rightarrow> int \<Rightarrow> chat \<Rightarrow> audit_page" where
  "search_audit_log q limit offset db =
     (let cap = nat (max 1 (min limit 1000)); off = nat (max 0 offset)
      in case audit_rows q db of
           None \<Rightarrow> \<lparr>j_items = [], j_more = False, j_next = None\<rparr>
         | Some all \<Rightarrow>
             let rows = take (cap + 1) (drop off all); more = (cap < length rows)
             in \<lparr>j_items = take cap rows, j_more = more, j_next = (if more then Some (off + cap) else None)\<rparr>)"

section \<open>Views of a room\<close>

record room_health =
  h_open :: nat
  h_idle :: nat
  h_expected :: "string list"
  h_bound :: nat

text \<open>\<open>sorted({...})\<close>: the distinct values in ascending order.\<close>

definition sorted_set :: "string list \<Rightarrow> string list" where
  "sorted_set xs = sort_key (Position 0) (remdups xs)"

definition get_room_health :: "instant \<Rightarrow> string \<Rightarrow> int \<Rightarrow> chat \<Rightarrow> chat_error + room_health" where
  "get_room_health now discord secs db =
     bindE (require_thread discord db) (\<lambda>h.
       let rows = filter (\<lambda>c. c_thread c = h_id h \<and> c_state c = CONVERSATION_STATE_OPEN) (w_convs db);
           work = filter (\<lambda>c. \<not> c_general c) rows
       in Inr \<lparr>h_open = length rows,
               h_idle = length (filter (\<lambda>c. seconds (max 0 secs) \<le> now - last_active c \<and> c_warnings c < 1) work),
               h_expected = sorted_set (map (\<lambda>c. the (c_expected c)) (filter (\<lambda>c. \<not> blank (c_expected c)) work)),
               h_bound = length (filter (\<lambda>c. c_kind c = CONVERSATION_KIND_TASK \<and> c_task c \<noteq> None) work)\<rparr>)"

text \<open>\<open>ORDER BY is_general DESC, state ASC, updated_at DESC\<close>: three stable sorts.\<close>

definition list_conversations ::
  "string \<Rightarrow> string option \<Rightarrow> string option \<Rightarrow> bool \<Rightarrow> nat \<Rightarrow> chat \<Rightarrow> chat_error + conversation list" where
  "list_conversations discord state kind include_general limit db =
     bindE (require_thread discord db) (\<lambda>h.
       Inr (take limit
         (sort_key (\<lambda>c. \<not> c_general c)
           (sort_key (\<lambda>c. Position 0 (c_state c))
             (sort_key (\<lambda>c. - c_updated c)
               (filter (\<lambda>c. c_thread c = h_id h \<and> (state = None \<or> state = Some (c_state c))
                            \<and> (kind = None \<or> kind = Some (c_kind c)) \<and> (include_general \<or> \<not> c_general c))
                 (w_convs db)))))))"

text \<open>Who may see a message: the speaker by name, everybody for a public one, the recipients of a whisper.\<close>

definition visible_to :: "string \<Rightarrow> chat \<Rightarrow> chat_message \<Rightarrow> bool" where
  "visible_to viewer db m \<longleftrightarrow>
     m_actor m = dropWhile (\<lambda>ch. ch = CHR ''@'') viewer
     \<or> (case m_v2 m of
          None \<Rightarrow> True
        | Some e \<Rightarrow> (case get_event e (w_v2 db) of
            None \<Rightarrow> True
          | Some ev \<Rightarrow> (case e_private ev of
              None \<Rightarrow> True
            | Some ids \<Rightarrow> (case get_actor_by_handle (at_handle viewer) (w_v2 db) of
                None \<Rightarrow> False | Some a \<Rightarrow> a_id a \<in> set ids))))"

definition get_conversation ::
  "id \<Rightarrow> nat \<Rightarrow> string list \<Rightarrow> string option \<Rightarrow> chat \<Rightarrow> chat_error + conversation \<times> chat_message list" where
  "get_conversation k recent kinds viewer db =
     bindE (require_conv k db) (\<lambda>c.
       let ms = rev (take recent (select_desc m_created
                  (\<lambda>m. m_conv m = Some k \<and> (kinds = [] \<or> m_kind m \<in> set kinds)) (w_messages db)))
       in Inr (c, case viewer of None \<Rightarrow> ms | Some v \<Rightarrow> filter (visible_to v db) ms))"

text \<open>\<open>_speech_summary\<close> shows the kind of a speech without its prefix.\<close>

definition shown_kind :: "chat_message \<Rightarrow> string" where
  "shown_kind m = (if prefix ''chat.speech.'' (m_kind m) then drop 12 (m_kind m) else m_kind m)"

section \<open>Events of the system\<close>

definition emit_system_event ::
  "lib \<Rightarrow> instant \<Rightarrow> id \<Rightarrow> string \<Rightarrow> string option \<Rightarrow> id option \<Rightarrow> obj \<Rightarrow> (id \<times> id option) run" where
  "emit_system_event L now k kind to reply_v2 payload =
     bindS (tx (\<lambda>db. bindE (require_conv k db) (\<lambda>c.
         bindE (add_message now c ''system'' kind to None None (Dumped (JObj payload)) db) (\<lambda>(m, db1).
         bindE (mirror_v1_message_to_v2 now m c None None reply_v2 db1) (\<lambda>(m', db2). Inr ((c, m'), db2))))))
       (\<lambda>(c, m). bindS (announce L now c m) (\<lambda>_. doneS (m_id m, m_v2 m)))"

end
