(* ===== verification/Lifecycle.thy ===== *)
theory Lifecycle
  imports Conversation
begin

text \<open>
  The life of one conversation as the services of \<open>conversation_service.py\<close>, \<open>service.py\<close> and
  \<open>task_coordinator.py\<close> promise it: \<open>conv_step\<close> lists what a row may become and when, and \<open>moves\<close> says
  that a change of the chat database is made of such steps, of newly opened rows and of appended
  messages. The services are shown to refine this in the theories that follow; here is what it gives.
\<close>

section \<open>The steps of a row\<close>

inductive conv_step :: "wiring \<Rightarrow> conversation \<Rightarrow> conversation \<Rightarrow> bool" for W where
  link: "c_v2 c = None \<Longrightarrow> conv_step W c (c\<lparr>c_v2 := Some op\<rparr>)"
| post: "c_general c \<Longrightarrow>
    conv_step W c (c\<lparr>c_last_speech := Some now, c_speech_count := c_speech_count c + 1, c_updated := now\<rparr>)"
| speak: "c_state c \<noteq> CONVERSATION_STATE_CLOSED \<Longrightarrow> conv_step W c (fst (spoken_row W now addr who c))"
| handoff: "\<not> c_general c \<Longrightarrow> c_state c \<noteq> CONVERSATION_STATE_CLOSED \<Longrightarrow> blank (c_task c) \<Longrightarrow>
    conv_step W c (c\<lparr>c_owner := Some h, c_expected := Some h, c_updated := now\<rparr>)"
| warn: "\<not> c_general c \<Longrightarrow> c_state c \<noteq> CONVERSATION_STATE_CLOSED \<Longrightarrow> c_warnings c < int t \<Longrightarrow> t \<le> 2 \<Longrightarrow>
    conv_step W c (c\<lparr>c_warned_at := (case c_warned_at c of None \<Rightarrow> Some now | Some t \<Rightarrow> Some t), c_warnings := int t\<rparr>)"
| stamp: "\<not> c_general c \<Longrightarrow> c_state c \<noteq> CONVERSATION_STATE_CLOSED \<Longrightarrow> conv_step W c (c\<lparr>c_updated := now\<rparr>)"
| give_up: "c_state c = CONVERSATION_STATE_CLOSED \<Longrightarrow> conv_step W c (c\<lparr>c_warnings := 3, c_updated := now\<rparr>)"
| touch: "c_kind c = CONVERSATION_KIND_TASK \<Longrightarrow> \<not> blank (c_task c) \<Longrightarrow>
    conv_step W c (c\<lparr>c_owner := own, c_expected := ex, c_last_speech := Some now,
      c_speech_count := c_speech_count c + 1, c_updated := now\<rparr>)"
| close: "\<not> c_general c \<Longrightarrow> c_state c \<noteq> CONVERSATION_STATE_CLOSED \<Longrightarrow> conv_step W c (closed_row now who res sm c)"

text \<open>A row as the services insert it.\<close>

definition born :: "conversation \<Rightarrow> bool" where
  "born c \<longleftrightarrow> c_state c = CONVERSATION_STATE_OPEN \<and> c_v2 c = None \<and> c_resolution c = None \<and> c_summary c = None
     \<and> c_closed_by c = None \<and> c_closed_at c = None \<and> c_last_speech c = None \<and> c_speech_count c = 0
     \<and> c_warned_at c = None \<and> c_warnings c = 0 \<and> c_unaddressed c = 0"

abbreviation conv_steps :: "wiring \<Rightarrow> conversation \<Rightarrow> conversation \<Rightarrow> bool" where
  "conv_steps W \<equiv> (conv_step W)\<^sup>*\<^sup>*"

lemma born_new: "born (new_conversation now k th kd t i who own g)" "born (open_row now h q task db)"
  by (simp_all add: born_def new_conversation_def open_row_def)

lemma spoken_row_cases:
  "\<exists>ex u. fst (spoken_row W now addr who c) = c\<lparr>c_last_speech := Some now, c_speech_count := c_speech_count c + 1,
       c_expected := ex, c_unaddressed := u, c_updated := now\<rparr> \<and> (0 \<le> c_unaddressed c \<longrightarrow> 0 \<le> u)"
  by (rule exI [of _ "c_expected (fst (gauge (g_over (f_policy W)) addr who c))"],
      rule exI [of _ "c_unaddressed (fst (gauge (g_over (f_policy W)) addr who c))"], cases c)
     (simp add: spoken_row_def gauge_def)

section \<open>What the steps keep\<close>

definition same_identity :: "conversation \<Rightarrow> conversation \<Rightarrow> bool" where
  "same_identity c c' \<longleftrightarrow> c_id c' = c_id c \<and> c_thread c' = c_thread c \<and> c_kind c' = c_kind c \<and> c_title c' = c_title c
     \<and> c_opener c' = c_opener c \<and> c_parent c' = c_parent c \<and> c_task c' = c_task c \<and> c_general c' = c_general c
     \<and> c_created c' = c_created c \<and> (c_v2 c \<noteq> None \<longrightarrow> c_v2 c' = c_v2 c) \<and> c_speech_count c \<le> c_speech_count c'"

definition same_outcome :: "conversation \<Rightarrow> conversation \<Rightarrow> bool" where
  "same_outcome c c' \<longleftrightarrow> c_state c' = c_state c \<and> c_resolution c' = c_resolution c \<and> c_summary c' = c_summary c
     \<and> c_closed_by c' = c_closed_by c \<and> c_closed_at c' = c_closed_at c"

definition outcome_typed :: "string \<Rightarrow> string option \<Rightarrow> string option \<Rightarrow> instant option \<Rightarrow> bool \<Rightarrow> bool" where
  "outcome_typed st res who at general \<longleftrightarrow>
     (if st = CONVERSATION_STATE_CLOSED then res \<noteq> None \<and> who \<noteq> None \<and> at \<noteq> None \<and> \<not> general
      else st = CONVERSATION_STATE_OPEN \<and> res = None \<and> who = None \<and> at = None)"

definition row_typed :: "conversation \<Rightarrow> bool" where
  "row_typed c \<longleftrightarrow> outcome_typed (c_state c) (c_resolution c) (c_closed_by c) (c_closed_at c) (c_general c)
     \<and> 0 \<le> c_warnings c \<and> c_warnings c \<le> 3 \<and> (c_warnings c = 3 \<longrightarrow> c_state c = CONVERSATION_STATE_CLOSED)
     \<and> 0 \<le> c_unaddressed c \<and> 0 \<le> c_speech_count c \<and> (c_last_speech c = None \<longleftrightarrow> c_speech_count c = 0)"

lemma step_identity: "conv_step W c c' \<Longrightarrow> same_identity c c'"
proof (induction rule: conv_step.induct)
  case (speak c now addr who)
  show ?case using spoken_row_cases [of W now addr who c] by (auto simp: same_identity_def)
qed (simp_all add: same_identity_def closed_row_def)

lemma step_outcome: "conv_step W c c' \<Longrightarrow> c_state c = CONVERSATION_STATE_CLOSED \<Longrightarrow> same_outcome c c'"
  by (induction rule: conv_step.induct) (simp_all add: same_outcome_def)

lemma step_typed: "conv_step W c c' \<Longrightarrow> row_typed c \<Longrightarrow> row_typed c'"
proof (induction rule: conv_step.induct)
  case (speak c now addr who)
  obtain ex u where row: "fst (spoken_row W now addr who c) = c\<lparr>c_last_speech := Some now, c_speech_count := c_speech_count c + 1,
       c_expected := ex, c_unaddressed := u, c_updated := now\<rparr>" "0 \<le> c_unaddressed c \<longrightarrow> 0 \<le> u"
    using spoken_row_cases [of W now addr who c] by blast
  then show ?case using speak.prems unfolding row(1) row_typed_def by simp
next
  case (close c now who res sm)
  then show ?case by (simp add: row_typed_def closed_row_def outcome_typed_def)
qed (simp_all add: row_typed_def)

lemma steps_identity: "conv_steps W c c' \<Longrightarrow> same_identity c c'"
proof (induction rule: rtranclp_induct)
  case (step d e)
  then show ?case using step_identity [OF step.hyps(2)] by (simp add: same_identity_def)
qed (simp add: same_identity_def)

lemma steps_outcome: "conv_steps W c c' \<Longrightarrow> c_state c = CONVERSATION_STATE_CLOSED \<Longrightarrow> same_outcome c c'"
proof (induction rule: rtranclp_induct)
  case (step d e)
  then show ?case using step_outcome [OF step.hyps(2)] by (simp add: same_outcome_def)
qed (simp add: same_outcome_def)

lemma steps_typed: "conv_steps W c c' \<Longrightarrow> row_typed c \<Longrightarrow> row_typed c'"
  by (induction rule: rtranclp_induct) (auto intro: step_typed)

lemma born_typed: "born c \<Longrightarrow> row_typed c"
  by (simp add: born_def row_typed_def outcome_typed_def)

section \<open>Changes of the database\<close>

definition moves :: "wiring \<Rightarrow> chat \<Rightarrow> chat \<Rightarrow> bool" where
  "moves W db db' \<longleftrightarrow>
     (\<forall>k c. get_conv k db = Some c \<longrightarrow> (\<exists>c'. get_conv k db' = Some c' \<and> conv_steps W c c'))
     \<and> (\<forall>k c'. get_conv k db = None \<longrightarrow> get_conv k db' = Some c' \<longrightarrow> (\<exists>c. born c \<and> conv_steps W c c'))
     \<and> prefix (w_messages db) (w_messages db')"

lemma moves_same: "w_convs db' = w_convs db \<Longrightarrow> prefix (w_messages db) (w_messages db') \<Longrightarrow> moves W db db'"
  by (auto simp: moves_def)

lemma moves_refl [simp]: "moves W db db"
  by (simp add: moves_same)

lemma moves_trans:
  assumes "moves W a b" "moves W b c"
  shows "moves W a c"
proof -
  have "\<exists>z. get_conv k c = Some z \<and> conv_steps W x z" if "get_conv k a = Some x" for k x
    using that assms unfolding moves_def by (meson rtranclp_trans)
  moreover have "\<exists>x. born x \<and> conv_steps W x z" if new: "get_conv k a = None" "get_conv k c = Some z" for k z
  proof (cases "get_conv k b")
    case (Some y)
    then obtain x where "born x" "conv_steps W x y" using new(1) assms(1) unfolding moves_def by blast
    moreover have "conv_steps W y z" using Some new(2) assms(2) unfolding moves_def by fastforce
    ultimately show ?thesis by (meson rtranclp_trans)
  qed (use new assms(2) in \<open>auto simp: moves_def\<close>)
  moreover have "prefix (w_messages a) (w_messages c)" using assms unfolding moves_def by (meson prefix_order.trans)
  ultimately show ?thesis unfolding moves_def by blast
qed

lemma moves_one:
  assumes "get_conv k db = Some c" "get_conv k db' = Some c'" "conv_steps W c c'"
    and "\<And>j. j \<noteq> k \<Longrightarrow> get_conv j db' = get_conv j db" "prefix (w_messages db) (w_messages db')"
  shows "moves W db db'"
  unfolding moves_def
proof (intro conjI allI impI)
  fix j x assume "get_conv j db = Some x"
  then show "\<exists>x'. get_conv j db' = Some x' \<and> conv_steps W x x'" using assms by (cases "j = k") auto
next
  fix j x assume "get_conv j db = None" "get_conv j db' = Some x"
  then show "\<exists>c. born c \<and> conv_steps W c x" using assms by (cases "j = k") auto
qed (rule assms(5))

lemma moves_add:
  assumes "born c" "w_messages db' = w_messages db" "w_convs db' = w_convs db @ [c]"
  shows "moves W db db'"
  using assms unfolding moves_def by (auto simp: row_get_append row_get_Cons split: option.splits if_splits)

end
