(* ===== verification/DualWrite.thy ===== *)
theory DualWrite
  imports Lifecycle
begin

text \<open>
  The dual write of \<open>conversation_service.py\<close> is coherent: a conversation and its v2 operation agree on
  kind, lifecycle and resolution, and the operation's log is the list of the conversation's messages.
  First what each operation on the v2 tables does to that view of them, then the invariant of the chat
  database and its preservation by every transaction of the conversation service.
\<close>

section \<open>The lifecycle view of the v2 tables\<close>

type_synonym op_view = "string \<times> string \<times> string option"

definition view :: "id \<Rightarrow> v2db \<Rightarrow> op_view option" where
  "view k v = map_option (\<lambda>r. (o_kind r, o_state r, o_resolution r)) (get_operation k v)"

text \<open>What changes neither a view nor a log.\<close>

definition quiet :: "v2db \<Rightarrow> v2db \<Rightarrow> bool" where
  "quiet v v' \<longleftrightarrow> events v' = events v \<and> (\<forall>k. view k v' = view k v)"

lemma quiet_refl [simp]: "quiet v v"
  by (simp add: quiet_def)

lemma quiet_trans: "quiet a b \<Longrightarrow> quiet b c \<Longrightarrow> quiet a c"
  by (simp add: quiet_def)

lemma quiet_same: "events v' = events v \<Longrightarrow> operations v' = operations v \<Longrightarrow> quiet v v'"
  by (simp add: quiet_def view_def get_operation_def)

lemma quiet_people: "people_only v v' \<Longrightarrow> quiet v v'"
  by (simp add: people_only_def quiet_same)

lemma lifecycle_people: "people_only v v' \<Longrightarrow> lifecycle_ok v \<Longrightarrow> lifecycle_ok v'"
  by (simp add: people_only_def lifecycle_ok_def)

lemma view_upd:
  assumes "\<And>r. o_id (f r) = o_id r"
  shows "view k' (upd_operation now k f v) =
    (if k' = k then map_option (\<lambda>r. (o_kind (f r), o_state (f r), o_resolution (f r))) (get_operation k v) else view k' v)"
proof -
  have key: "o_id (touch_op now f r) = k" if "o_id r = k" for r using assms that by simp
  show ?thesis
  proof (cases "k' = k")
    case True
    have "row_get o_id k (row_upd o_id k (touch_op now f) (operations v)) =
        map_option (touch_op now f) (row_get o_id k (operations v))"
      by (rule row_get_upd_same) (rule key)
    with True show ?thesis
      by (simp add: view_def get_operation_def upd_operation_def option.map_comp comp_def)
  next
    case False
    have "row_get o_id k' (row_upd o_id k (touch_op now f) (operations v)) = row_get o_id k' (operations v)"
      by (rule row_get_upd_other [OF False]) (rule key)
    with False show ?thesis by (simp add: view_def get_operation_def upd_operation_def)
  qed
qed

lemma events_upd [simp]: "events (upd_operation now k f v) = events v"
  by (simp add: upd_operation_def)

lemma quiet_policy: "quiet v (snd (set_operation_policy now k p v))"
proof (cases "get_operation k v")
  case (Some r)
  have "view k' (upd_operation now k (o_metadata_update (AList.update ''policy'' (policy_json p))) v) = view k' v" for k'
    by (subst view_upd) (auto simp: view_def)
  with Some show ?thesis by (simp add: set_operation_policy_def Let_def quiet_def)
qed (simp add: set_operation_policy_def)

lemma view_close:
  "view k' (snd (close_operation now k who res sm v)) =
     (if k' = k then map_option (\<lambda>(kd, _, _). (kd, STATE_CLOSED, Some res)) (view k v) else view k' v)"
proof (cases "get_operation k v")
  case None
  then show ?thesis by (simp add: close_operation_def view_def)
next
  case (Some r)
  then show ?thesis by (simp add: close_operation_def Let_def view_upd) (simp add: view_def)
qed

lemma events_close [simp]: "events (snd (close_operation now k who res sm v)) = events v"
  by (simp add: close_operation_def Let_def split: option.splits)

lemma mirror_close_view:
  assumes "mirror_conversation_close now (Some k) who res sm sys v = Inr v'" "db_ok v"
    and "view k v = Some (kd, s, r0)"
  shows "s \<noteq> STATE_CLOSED \<and> events v' = events v \<and> view k v' = Some (kd, STATE_CLOSED, Some res)
    \<and> (\<forall>k'. k' \<noteq> k \<longrightarrow> view k' v' = view k' v)"
proof -
  obtain closer v1 where 1: "db_ok v1" "people_only v v1" "v' = snd (close_operation now k closer res sm v1)"
    and al: "\<forall>r. get_operation k v = Some r \<longrightarrow> allowed (can_close (o_kind r) (o_state r) res sys)"
    using mirror_close_split [OF assms(1,2)] by blast
  have q: "quiet v v1" using 1(2) by (rule quiet_people)
  have "s \<noteq> STATE_CLOSED" using al assms(3) by (auto simp: view_def can_close_def)
  with q 1(3) assms(3) show ?thesis by (simp add: quiet_def view_close)
qed

lemma transition_view:
  assumes "transition_state now (Some k) s v = Inr v'" "view k v = Some (kd, s0, r0)"
  shows "events v' = events v \<and> view k v' = Some (kd, s, r0) \<and> (\<forall>k'. k' \<noteq> k \<longrightarrow> view k' v' = view k' v)
    \<and> (s0 = s \<or> s0 \<noteq> STATE_CLOSED \<and> s \<noteq> STATE_CLOSED)"
proof -
  obtain r where r: "get_operation k v = Some r" "kd = o_kind r" "s0 = o_state r" "r0 = o_resolution r"
    using assms(2) by (auto simp: view_def)
  show ?thesis
  proof (cases "o_state r = s")
    case True
    with assms r show ?thesis by (auto simp: transition_state_def)
  next
    case False
    have al: "allowed (can_transition (o_kind r) (o_state r) s)"
      and v': "v' = upd_operation now k (o_state_update (\<lambda>_. s)) v"
      using assms(1) r False by (auto simp: transition_state_def bindE_Inr_iff transition_operation_state_def Let_def)
    have "o_state r \<noteq> STATE_CLOSED" "s \<noteq> STATE_CLOSED" using al unfolding transition_edges by auto
    with r show ?thesis by (simp add: v' view_upd)
  qed
qed

lemma open_view:
  assumes "db_ok v" "lifecycle_ok v"
    and "mirror_conversation_open now cid th kd t i who own addr gen v = Inr (op, v')"
  shows "db_ok v' \<and> lifecycle_ok v' \<and> events v' = events v \<and> view op v = None \<and> op_events op v' = []
    \<and> view op v' = Some (kd, STATE_OPEN, None) \<and> (\<forall>k. k \<noteq> op \<longrightarrow> view k v' = view k v)"
proof -
  note e = mirror_open_effect [OF assms]
  obtain r where r: "operations v' = operations v @ [r]" "o_id r = op" "o_kind r = kd" "o_state r = STATE_OPEN"
    "o_resolution r = None" using e by auto
  have fresh: "get_operation op v = None" using e get_operation_Some_iff [of op v] by auto
  then have "row_get o_id op (operations v) = None" by (simp add: get_operation_def)
  then have "view op v' = Some (kd, STATE_OPEN, None)"
    using r by (simp add: view_def get_operation_def row_get_append row_get_Cons)
  moreover have "view k v' = view k v" if "k \<noteq> op" for k
    using r that by (simp add: view_def get_operation_def row_get_append row_get_Cons split: option.splits)
  moreover have "op_events op v' = []"
  proof -
    have "\<forall>x \<in> set (events v). get_operation (e_op x) v \<noteq> None"
      using assms(1) unfolding get_operation_Some_iff by (simp add: db_ok_def fks_ok_def)
    with fresh e show ?thesis by (auto simp: op_events_def filter_empty_conv)
  qed
  ultimately show ?thesis using e fresh by (simp add: view_def)
qed

lemma message_view:
  assumes "db_ok v" "lifecycle_ok v"
    and "mirror_message now (Some op) who k body addr extras re priv ex v = Inr (r, v')"
  shows "db_ok v' \<and> lifecycle_ok v' \<and> (\<forall>k. view k v' = view k v)
    \<and> (\<exists>ev. r = Some (e_id ev) \<and> e_kind ev = k \<and> e_op ev = op \<and> obj_get (e_payload ev) ''text'' = content_json body
         \<and> events v' = events v @ [ev] \<and> op_events op v' = op_events op v @ [ev]
         \<and> (\<forall>k'. k' \<noteq> op \<longrightarrow> op_events k' v' = op_events k' v))"
proof -
  note e = mirror_message_effect [OF assms(1,3)]
  then obtain ev where ev: "r = Some (e_id ev)" "e_kind ev = k" "e_op ev = op"
      "e_payload ev = (''text'', content_json body) # lifecycle_part k body @ meta_part ex"
      "events v' = events v @ [ev]" by auto
  have "view k v' = view k v" for k using e by (simp add: view_def get_operation_def)
  moreover have "lifecycle_ok v'" using e assms(2) by (simp add: lifecycle_ok_def)
  moreover have "op_events op v' = op_events op v @ [ev]" using ev by (simp add: op_events_def)
  moreover have "op_events k' v' = op_events k' v" if "k' \<noteq> op" for k' using ev that by (simp add: op_events_def)
  ultimately show ?thesis using e ev by auto
qed

section \<open>The invariant\<close>

text \<open>\<open>copied m ev\<close>: the event is the dual write of the message.\<close>

definition copied :: "chat_message \<Rightarrow> event \<Rightarrow> bool" where
  "copied m ev \<longleftrightarrow> m_v2 m = Some (e_id ev) \<and> e_kind ev = m_kind m
     \<and> obj_get (e_payload ev) ''text'' = content_json (m_body m)"

definition conv_log :: "id \<Rightarrow> chat \<Rightarrow> chat_message list" where
  "conv_log k db = filter (\<lambda>m. m_conv m = Some k) (w_messages db)"

definition agrees :: "conversation \<Rightarrow> op_view option \<Rightarrow> bool" where
  "agrees c v \<longleftrightarrow> (\<exists>s. v = Some (c_kind c, s, c_resolution c) \<and> (s = STATE_CLOSED \<longleftrightarrow> c_state c = CONVERSATION_STATE_CLOSED))"

definition mirrored :: "chat \<Rightarrow> conversation \<Rightarrow> bool" where
  "mirrored db c \<longleftrightarrow>
     (\<forall>k. c_v2 c = Some k \<longrightarrow>
        agrees c (view k (w_v2 db)) \<and> list_all2 copied (conv_log (c_id c) db) (op_events k (w_v2 db)))"

text \<open>No two conversations share an operation.\<close>

definition links_ok :: "conversation list \<Rightarrow> bool" where
  "links_ok cs \<longleftrightarrow> (\<forall>c \<in> set cs. \<forall>c' \<in> set cs. \<forall>k. c_v2 c = Some k \<longrightarrow> c_v2 c' = Some k \<longrightarrow> c_id c = c_id c')"

definition chat_ok :: "chat \<Rightarrow> bool" where
  "chat_ok db \<longleftrightarrow>
     db_ok (w_v2 db) \<and> lifecycle_ok (w_v2 db)
     \<and> fresh_keys c_id (w_next db) (w_convs db) \<and> fresh_keys m_id (w_next db) (w_messages db)
     \<and> (\<forall>m \<in> set (w_messages db). \<exists>c \<in> set (w_convs db). m_conv m = Some (c_id c))
     \<and> links_ok (w_convs db)
     \<and> (\<forall>c \<in> set (w_convs db). mirrored db c)"

lemma chat_okD:
  assumes "chat_ok db"
  shows "db_ok (w_v2 db)" "lifecycle_ok (w_v2 db)"
    "fresh_keys c_id (w_next db) (w_convs db)" "fresh_keys m_id (w_next db) (w_messages db)"
    "m \<in> set (w_messages db) \<Longrightarrow> \<exists>c \<in> set (w_convs db). m_conv m = Some (c_id c)"
    "c \<in> set (w_convs db) \<Longrightarrow> c' \<in> set (w_convs db) \<Longrightarrow> c_v2 c = Some k \<Longrightarrow> c_v2 c' = Some k \<Longrightarrow> c_id c = c_id c'"
    "c \<in> set (w_convs db) \<Longrightarrow> mirrored db c"
  using assms unfolding chat_ok_def links_ok_def by blast+

lemma get_conv_iff:
  assumes "chat_ok db"
  shows "get_conv k db = Some c \<longleftrightarrow> c \<in> set (w_convs db) \<and> c_id c = k"
  using fresh_keys_get [OF chat_okD(3) [OF assms], of c] row_get_SomeD [of c_id k "w_convs db" c] by auto

lemma mirrored_cong:
  "c_v2 c' = c_v2 c \<Longrightarrow> c_id c' = c_id c \<Longrightarrow> c_kind c' = c_kind c \<Longrightarrow> c_resolution c' = c_resolution c \<Longrightarrow>
   c_state c' = c_state c \<Longrightarrow> w_messages db' = w_messages db \<Longrightarrow> quiet (w_v2 db) (w_v2 db') \<Longrightarrow>
   mirrored db' c' \<longleftrightarrow> mirrored db c"
  by (simp add: mirrored_def agrees_def conv_log_def quiet_def op_events_def)

text \<open>Tables outside the invariant, and quiet changes of the v2 tables.\<close>

lemma chat_ok_quiet:
  assumes "chat_ok db" "quiet (w_v2 db) (w_v2 db')" "db_ok (w_v2 db')" "lifecycle_ok (w_v2 db')"
    and "w_convs db' = w_convs db" "w_messages db' = w_messages db" "w_next db' = w_next db"
  shows "chat_ok db'"
proof -
  have "mirrored db' c = mirrored db c" for c using assms by (intro mirrored_cong) simp_all
  with assms show ?thesis by (simp add: chat_ok_def)
qed

lemma chat_ok_v2: "chat_ok db \<Longrightarrow> quiet (w_v2 db) v \<Longrightarrow> db_ok v \<Longrightarrow> lifecycle_ok v \<Longrightarrow> chat_ok (db\<lparr>w_v2 := v\<rparr>)"
  by (rule chat_ok_quiet) simp_all

text \<open>The intent of a ratification is not part of the dual write.\<close>

lemma lifecycle_patch: "lifecycle_ok (patch_intent k t v) = lifecycle_ok v"
  by (simp add: lifecycle_ok_def patch_intent_def)

lemma chat_ok_intent:
  assumes ok: "chat_ok db"
  shows "chat_ok (db\<lparr>w_v2 := patch_intent k t (w_v2 db)\<rparr>)"
proof -
  have copy: "copied m (if e_id e = k then e_payload_update (AList.update ''intent'' (JStr t)) e else e) = copied m e" for m e
    by (simp add: copied_def)
  have "view j (patch_intent k t (w_v2 db)) = view j (w_v2 db)" for j
    by (simp add: view_def get_operation_def patch_intent_def)
  then have "mirrored (db\<lparr>w_v2 := patch_intent k t (w_v2 db)\<rparr>) c = mirrored db c" for c
    by (simp add: mirrored_def conv_log_def patch_op_events list_all2_map2 copy)
  with ok show ?thesis by (simp add: chat_ok_def patch_intent_ok lifecycle_patch)
qed

text \<open>A write to the columns of a conversation row that the invariant does not read.\<close>

definition same_lifecycle :: "conversation \<Rightarrow> conversation \<Rightarrow> bool" where
  "same_lifecycle c c' \<longleftrightarrow> c_id c' = c_id c \<and> c_thread c' = c_thread c \<and> c_v2 c' = c_v2 c \<and> c_kind c' = c_kind c
     \<and> c_resolution c' = c_resolution c \<and> c_state c' = c_state c"

lemma set_conv_simps [simp]:
  "w_messages (set_conv k f db) = w_messages db" "w_v2 (set_conv k f db) = w_v2 db"
  "w_next (set_conv k f db) = w_next db" "w_threads (set_conv k f db) = w_threads db"
  "w_tasks (set_conv k f db) = w_tasks db" "w_convs (set_conv k f db) = row_upd c_id k f (w_convs db)"
  by (simp_all add: set_conv_def)

lemma get_set_conv:
  assumes "\<And>c. c_id c = k \<Longrightarrow> c_id (f c) = k"
  shows "get_conv k' (set_conv k f db) = (if k' = k then map_option f (get_conv k db) else get_conv k' db)"
  using row_get_upd_same [of c_id k f "w_convs db"] row_get_upd_other [of k' k c_id f "w_convs db"] assms by simp

text \<open>One conversation changes, together with its log and its operation; the others keep theirs.\<close>

lemma chat_ok_replace:
  assumes ok: "chat_ok db" and get: "get_conv (c_id c) db = Some c" and c': "f c = c'" "c_id c' = c_id c"
    and convs: "w_convs db' = row_upd c_id (c_id c) f (w_convs db)"
    and v2: "db_ok (w_v2 db')" "lifecycle_ok (w_v2 db')"
    and keys: "w_next db \<le> w_next db'" "fresh_keys m_id (w_next db') (w_messages db')"
    and homes: "\<And>m. m \<in> set (w_messages db') \<Longrightarrow> m_conv m = Some (c_id c) \<or> (\<exists>m0 \<in> set (w_messages db). m_conv m0 = m_conv m)"
    and logs: "\<And>k. k \<noteq> c_id c \<Longrightarrow> conv_log k db' = conv_log k db"
    and others: "\<And>x k. x \<in> set (w_convs db) \<Longrightarrow> c_id x \<noteq> c_id c \<Longrightarrow> c_v2 x = Some k \<Longrightarrow>
        view k (w_v2 db') = view k (w_v2 db) \<and> op_events k (w_v2 db') = op_events k (w_v2 db) \<and> c_v2 c' \<noteq> Some k"
    and own: "mirrored db' c'"
  shows "chat_ok db'"
proof -
  have mem: "x = c" if "x \<in> set (w_convs db)" "c_id x = c_id c" for x
    using fresh_keys_get [OF chat_okD(3) [OF ok] that(1)] that(2) get by simp
  have c: "c \<in> set (w_convs db)" using get row_get_SomeD by fast
  have upd: "w_convs db' = map (\<lambda>x. if x = c then c' else x) (w_convs db)"
    using mem c' by (auto simp: convs row_upd_def)
  have ids: "map c_id (w_convs db') = map c_id (w_convs db)"
    using c' by (auto simp: upd)
  have rows: "x = c' \<or> x \<in> set (w_convs db) \<and> c_id x \<noteq> c_id c" if "x \<in> set (w_convs db')" for x
    using that mem by (auto simp: upd)
  have id_set: "c_id ` set (w_convs db') = c_id ` set (w_convs db)"
    using arg_cong [OF ids, of set] by simp
  have "\<forall>x \<in> set (w_convs db'). c_id x < w_next db'"
  proof
    fix x assume "x \<in> set (w_convs db')"
    then have "c_id x \<in> c_id ` set (w_convs db)" unfolding id_set [symmetric] by blast
    with chat_okD(3) [OF ok] keys(1) show "c_id x < w_next db'" by (auto simp: fresh_keys_def)
  qed
  with chat_okD(3) [OF ok] ids have "fresh_keys c_id (w_next db') (w_convs db')" by (simp add: fresh_keys_def)
  moreover have "\<exists>x \<in> set (w_convs db'). m_conv m = Some (c_id x)" if "m \<in> set (w_messages db')" for m
  proof -
    have "\<exists>y \<in> set (w_convs db). m_conv m = Some (c_id y)"
      using homes [OF that] chat_okD(5) [OF ok] c by metis
    then obtain y where y: "y \<in> set (w_convs db)" "m_conv m = Some (c_id y)" by blast
    then have "c_id y \<in> c_id ` set (w_convs db')" unfolding id_set by blast
    with y(2) show ?thesis by auto
  qed
  moreover have "links_ok (w_convs db')"
    unfolding links_ok_def
  proof (intro ballI allI impI)
    fix x y k assume xy: "x \<in> set (w_convs db')" "y \<in> set (w_convs db')" "c_v2 x = Some k" "c_v2 y = Some k"
    then show "c_id x = c_id y"
      using rows [OF xy(1)] rows [OF xy(2)] others [of x k] others [of y k] chat_okD(6) [OF ok, of x y k] by metis
  qed
  moreover have "mirrored db' x" if "x \<in> set (w_convs db')" for x
    using rows [OF that]
  proof
    assume x: "x \<in> set (w_convs db) \<and> c_id x \<noteq> c_id c"
    then have "mirrored db x" using chat_okD(7) [OF ok] by blast
    with x others [of x] logs [of "c_id x"] show ?thesis by (auto simp: mirrored_def)
  qed (use own in simp)
  ultimately show ?thesis using v2 keys by (simp add: chat_ok_def)
qed

lemma chat_ok_set:
  assumes ok: "chat_ok db" and get: "get_conv (c_id c) db = Some c" and core: "same_lifecycle c (f c)"
  shows "chat_ok (set_conv (c_id c) f db)"
proof (rule chat_ok_replace [OF ok get refl])
  have c: "c \<in> set (w_convs db)" using get row_get_SomeD by fast
  show "mirrored (set_conv (c_id c) f db) (f c)"
    using mirrored_cong [of "f c" c "set_conv (c_id c) f db" db] core chat_okD(7) [OF ok c] by (simp add: same_lifecycle_def)
  fix x k assume x: "x \<in> set (w_convs db)" "c_id x \<noteq> c_id c" "c_v2 x = Some k"
  then have "c_v2 c \<noteq> Some k" using chat_okD(6) [OF ok x(1) c x(3)] by blast
  then show "view k (w_v2 (set_conv (c_id c) f db)) = view k (w_v2 db) \<and>
      op_events k (w_v2 (set_conv (c_id c) f db)) = op_events k (w_v2 db) \<and> c_v2 (f c) \<noteq> Some k"
    using core by (simp add: same_lifecycle_def)
qed (use core chat_okD [OF ok] in \<open>auto simp: same_lifecycle_def conv_log_def\<close>)

lemma chat_ok_add_conv:
  assumes ok: "chat_ok db" and c: "c_id c = w_next db" "c_v2 c = None"
  shows "chat_ok (db\<lparr>w_convs := w_convs db @ [c], w_next := Suc (w_next db)\<rparr>)"
proof -
  let ?db = "db\<lparr>w_convs := w_convs db @ [c], w_next := Suc (w_next db)\<rparr>"
  have "mirrored ?db x = mirrored db x" for x by (rule mirrored_cong) simp_all
  moreover have "mirrored db c" using c(2) by (simp add: mirrored_def)
  moreover have "links_ok (w_convs ?db)"
    unfolding links_ok_def
  proof (intro ballI allI impI)
    fix x y k assume "x \<in> set (w_convs ?db)" "y \<in> set (w_convs ?db)" and xy: "c_v2 x = Some k" "c_v2 y = Some k"
    then have "x \<in> set (w_convs db)" "y \<in> set (w_convs db)" using c(2) by auto
    then show "c_id x = c_id y" using chat_okD(6) [OF ok] xy by blast
  qed
  ultimately show ?thesis
    using ok c(1) by (auto simp: chat_ok_def fresh_keys_append fresh_keys_Suc)
qed

lemma fresh_conv:
  assumes "chat_ok db"
  shows "get_conv (w_next db) db = None" "conv_log (w_next db) db = []"
proof -
  show 1: "get_conv (w_next db) db = None" using chat_okD(3) [OF assms] by (rule fresh_keys_unused)
  have "m_conv m \<noteq> Some (w_next db)" if "m \<in> set (w_messages db)" for m
    using chat_okD(5) [OF assms that] 1 by (auto simp: row_get_None_iff_all)
  then show "conv_log (w_next db) db = []" by (simp add: conv_log_def)
qed

section \<open>Opening and posting\<close>

lemma mirror_open_ok:
  assumes ok: "chat_ok db" and get: "get_conv (c_id c) db = Some c" and c: "c_v2 c = None"
    "conv_log (c_id c) db = []" "c_state c = CONVERSATION_STATE_OPEN" "c_resolution c = None"
    and run: "mirror_open L now c db = Inr (c', db')"
  shows "chat_ok db' \<and> get_conv (c_id c) db' = Some c' \<and> (\<exists>op. c' = c\<lparr>c_v2 := Some op\<rparr>)
    \<and> w_messages db' = w_messages db \<and> w_threads db' = w_threads db \<and> w_tasks db' = w_tasks db
    \<and> w_next db' = w_next db \<and> (\<forall>k. k \<noteq> c_id c \<longrightarrow> get_conv k db' = get_conv k db) \<and> moves W db db'"
proof -
  obtain op v where open1: "mirror_conversation_open now (c_id c) (l_uid L (c_thread c)) (c_kind c) (c_title c)
        (c_intent c) (c_opener c) (c_owner c) (c_expected c) (c_general c) (w_v2 db) = Inr (op, v)"
    and c': "c' = c\<lparr>c_v2 := Some op\<rparr>" and db': "db' = set_conv (c_id c) (\<lambda>_. c') (db\<lparr>w_v2 := v\<rparr>)"
    using run by (auto simp: mirror_open_def bindE_Inr_iff)
  note v = open_view [OF chat_okD(1,2) [OF ok] open1]
  have "chat_ok db'"
  proof (rule chat_ok_replace [OF ok get, of "\<lambda>_. c'" c'])
    show "mirrored db' c'" using v c by (simp add: mirrored_def agrees_def db' c' conv_log_def)
    fix x k assume x: "x \<in> set (w_convs db)" "c_id x \<noteq> c_id c" "c_v2 x = Some k"
    have "view k (w_v2 db) \<noteq> None" using chat_okD(7) [OF ok x(1)] x(3) by (auto simp: mirrored_def agrees_def)
    then have "k \<noteq> op" using v by auto
    with v show "view k (w_v2 db') = view k (w_v2 db) \<and> op_events k (w_v2 db') = op_events k (w_v2 db) \<and> c_v2 c' \<noteq> Some k"
      by (auto simp: db' c' op_events_def)
  qed (use v chat_okD(4) [OF ok] in \<open>auto simp: db' c' conv_log_def\<close>)
  moreover have gets: "get_conv k db' = (if k = c_id c then Some c' else get_conv k db)" for k
    using get get_set_conv [of "c_id c" "\<lambda>_. c'" k "db\<lparr>w_v2 := v\<rparr>"] by (simp add: db' c')
  moreover have "moves W db db'"
    using get gets link [OF c(1), of W op] by (intro moves_one [of "c_id c" db c _ c']) (auto simp: db' c')
  moreover have "\<exists>op. c' = c\<lparr>c_v2 := Some op\<rparr>" using c' by blast
  ultimately show ?thesis by (simp add: db')
qed

lemma get_or_create_general_ok:
  assumes ok: "chat_ok db" and run: "get_or_create_general L now h db = Inr (c, db')"
  shows "chat_ok db' \<and> w_messages db' = w_messages db \<and> w_threads db' = w_threads db \<and> w_tasks db' = w_tasks db
    \<and> w_next db \<le> w_next db' \<and> get_conv (c_id c) db' = Some c \<and> c_thread c = h_id h \<and> c_general c
    \<and> (\<forall>k c0. get_conv k db = Some c0 \<longrightarrow> get_conv k db' = Some c0) \<and> moves W db db'"
proof (cases "general_of (h_id h) db")
  case (Some g)
  then have g: "g \<in> set (w_convs db)" "c_thread g = h_id h" "c_general g"
    using find_SomeD [of _ "w_convs db" g] by (auto simp: general_of_def)
  have "c = g" "db' = db"
    using run Some by (simp_all add: get_or_create_general_def get_or_create_general_conversation_def)
  then show ?thesis using g ok fresh_keys_get [OF chat_okD(3) [OF ok] g(1)] by simp
next
  case None
  let ?g = "new_conversation now (w_next db) (h_id h) CONVERSATION_KIND_GENERAL ''General''
              (Some ''Casual chat and unstructured updates.'') ''system'' None True"
  let ?db = "db\<lparr>w_convs := w_convs db @ [?g], w_next := Suc (w_next db)\<rparr>"
  have open1: "mirror_open L now ?g ?db = Inr (c, db')"
    using run None by (simp add: get_or_create_general_def get_or_create_general_conversation_def Let_def new_conversation_def)
  have ok1: "chat_ok ?db" by (rule chat_ok_add_conv [OF ok]) (simp_all add: new_conversation_def)
  have get1: "get_conv (c_id ?g) ?db = Some ?g" "conv_log (c_id ?g) ?db = []"
    using fresh_conv [OF ok] by (simp_all add: row_get_append row_get_Cons new_conversation_def conv_log_def)
  have "c_v2 ?g = None" "c_state ?g = CONVERSATION_STATE_OPEN" "c_resolution ?g = None"
    by (simp_all add: new_conversation_def)
  note m = mirror_open_ok [OF ok1 get1(1) this(1) get1(2) this(2,3) open1, of W]
  have "moves W db ?db" by (rule moves_add [OF born_new(1)]) simp_all
  then have mv: "moves W db db'" using m moves_trans by blast
  have "get_conv k db' = Some c0" if "get_conv k db = Some c0" for k c0
  proof -
    have "k \<noteq> c_id ?g" using fresh_conv(1) [OF ok] that by (auto simp: new_conversation_def)
    then have "get_conv k db' = get_conv k ?db" using m by blast
    with that show ?thesis by (simp add: row_get_append)
  qed
  with m mv show ?thesis by (auto simp: new_conversation_def)
qed

lemma list_all2_snoc: "list_all2 P (xs @ [x]) (ys @ [y]) \<longleftrightarrow> list_all2 P xs ys \<and> P x y"
proof -
  have "length xs = length ys" if "list_all2 P (xs @ [x]) (ys @ [y])" using list_all2_lengthD [OF that] by simp
  moreover have "length xs = length ys" if "list_all2 P xs ys" using that by (rule list_all2_lengthD)
  ultimately show ?thesis by (auto simp: list_all2_append)
qed

text \<open>The row of a message and its event, with quiet changes of the v2 tables in between.\<close>

lemma dual_post:
  assumes ok: "chat_ok db" and get: "get_conv (c_id c) db = Some c0" and c: "c_v2 c = c_v2 c0"
    and add: "add_message now c actor kind to many re body db = Inr (m, db1)"
    and v: "quiet (w_v2 db) v" "db_ok v" "lifecycle_ok v"
    and run: "mirror_v1_message_to_v2 now m c priv ex rv (db1\<lparr>w_v2 := v\<rparr>) = Inr (m', db2)"
  shows "chat_ok db2 \<and> w_convs db2 = w_convs db \<and> w_threads db2 = w_threads db \<and> w_tasks db2 = w_tasks db
    \<and> w_messages db2 = w_messages db @ [m'] \<and> m_conv m' = Some (c_id c) \<and> m_id m' = w_next db
    \<and> m_kind m' = kind \<and> m_body m' = body \<and> m_actor m' = actor \<and> m_created m' = now \<and> (m_v2 m' = None \<longleftrightarrow> c_v2 c = None)
    \<and> w_next db2 = Suc (w_next db) \<and> (\<forall>k. view k (w_v2 db2) = view k (w_v2 db))"
proof -
  have id0: "c_id c0 = c_id c" using get row_get_SomeD by fast
  have c0: "c0 \<in> set (w_convs db)" using get row_get_SomeD by fast
  have m: "m_conv m = Some (c_id c)" "m_id m = w_next db" "m_kind m = kind" "m_body m = body" "m_actor m = actor"
      "m_created m = now" "m_v2 m = None"
    and db1: "db1 = db\<lparr>w_messages := w_messages db @ [m], w_next := Suc (w_next db)\<rparr>"
    using add by (auto simp: add_message_def Let_def split: if_splits)
  have new: "m_id x \<noteq> w_next db" if "x \<in> set (w_messages db)" for x
    using chat_okD(4) [OF ok] that by (auto simp: fresh_keys_def)
  have keys: "fresh_keys m_id (Suc (w_next db)) (w_messages db @ [x])" if "m_id x = w_next db" for x
    using fresh_keys_append [OF chat_okD(4) [OF ok] that] .
  have old: "mirrored db c0" using chat_okD(7) [OF ok c0] .
  have same: "row_upd c_id (c_id c0) (\<lambda>x. x) (w_convs db) = w_convs db" by (simp add: row_upd_def)
  have others: "view k v' = view k (w_v2 db) \<and> op_events k v' = op_events k (w_v2 db) \<and> c_v2 c0 \<noteq> Some k"
    if "x \<in> set (w_convs db)" "c_id x \<noteq> c_id c0" "c_v2 x = Some k" "\<forall>k. view k v' = view k v"
      "\<forall>k. c_v2 c0 \<noteq> Some k \<longrightarrow> op_events k v' = op_events k v" for x k v'
  proof -
    have "c_v2 c0 \<noteq> Some k" using chat_okD(6) [OF ok that(1) c0 that(3)] that(2) by blast
    with that(4,5) v(1) show ?thesis by (simp add: quiet_def op_events_def)
  qed
  have fin: "chat_ok db2" if db2: "w_convs db2 = w_convs db" "w_messages db2 = w_messages db @ [m']"
      "w_next db2 = Suc (w_next db)" "db_ok (w_v2 db2)" "lifecycle_ok (w_v2 db2)" "m_id m' = w_next db" "m_conv m' = Some (c_id c)"
      "\<forall>k. view k (w_v2 db2) = view k v" "\<forall>k. c_v2 c0 \<noteq> Some k \<longrightarrow> op_events k (w_v2 db2) = op_events k v"
      "mirrored db2 c0"
  proof (rule chat_ok_replace [of db c0 "\<lambda>x. x" c0])
    show "get_conv (c_id c0) db = Some c0" using get id0 by simp
    fix x k assume "x \<in> set (w_convs db)" "c_id x \<noteq> c_id c0" "c_v2 x = Some k"
    then show "view k (w_v2 db2) = view k (w_v2 db) \<and> op_events k (w_v2 db2) = op_events k (w_v2 db) \<and> c_v2 c0 \<noteq> Some k"
      using db2(8,9) by (intro others) simp_all
  qed (use ok db2 keys same id0 in \<open>auto simp: conv_log_def\<close>)
  show ?thesis
  proof (cases "c_v2 c")
    case None
    then have "m' = m" "db2 = db1\<lparr>w_v2 := v\<rparr>" using run by (simp_all add: mirror_v1_message_to_v2_def)
    moreover have "mirrored db2 c0" using None c by (simp add: mirrored_def)
    ultimately show ?thesis using None v m fin by (simp add: db1 quiet_def)
  next
    case (Some op)
    obtain r v' where msg: "mirror_message now (Some op) actor kind body (m_to m) (case m_many m of None \<Rightarrow> [] | Some hs \<Rightarrow> hs)
          (v2_parent m rv (db1\<lparr>w_v2 := v\<rparr>)) priv ex v = Inr (r, v')" and m': "m' = m\<lparr>m_v2 := r\<rparr>"
      and db2: "db2 = db1\<lparr>w_v2 := v', w_messages := row_upd m_id (m_id m) (\<lambda>x. x\<lparr>m_v2 := r\<rparr>) (w_messages db1)\<rparr>"
      using run Some m by (auto simp: mirror_v1_message_to_v2_def bindE_Inr_iff)
    note e = message_view [OF v(2,3) msg]
    then obtain ev where ev: "r = Some (e_id ev)" "e_kind ev = kind" "obj_get (e_payload ev) ''text'' = content_json body"
        "op_events op v' = op_events op v @ [ev]" "\<forall>k. k \<noteq> op \<longrightarrow> op_events k v' = op_events k v" by auto
    have msgs: "row_upd m_id (m_id m) (\<lambda>x. x\<lparr>m_v2 := r\<rparr>) (w_messages db @ [m]) = w_messages db @ [m']"
      using new m(2) by (simp add: row_upd_def m' map_idI)
    have tables: "w_messages db2 = w_messages db @ [m']" "w_convs db2 = w_convs db" "w_threads db2 = w_threads db"
        "w_tasks db2 = w_tasks db" "w_next db2 = Suc (w_next db)" "w_v2 db2 = v'"
      using msgs by (simp_all add: db2 db1)
    have log: "conv_log (c_id c0) db2 = conv_log (c_id c0) db @ [m']"
      using m(1) id0 by (simp add: conv_log_def tables) (simp add: m')
    have "agrees c0 (view op (w_v2 db)) \<and> list_all2 copied (conv_log (c_id c0) db) (op_events op (w_v2 db))"
      using old Some c by (simp add: mirrored_def)
    then have "mirrored db2 c0"
      using Some c ev e v(1) m unfolding mirrored_def log
      by (simp add: list_all2_snoc copied_def m' tables quiet_def op_events_def)
    moreover have "chat_ok db2" if "mirrored db2 c0"
      using that Some c e ev m by (intro fin) (simp_all add: tables, simp_all add: m')
    ultimately show ?thesis using e v(1) m Some ev by (simp add: tables quiet_def) (simp add: m')
  qed
qed

section \<open>Every service call keeps the invariant\<close>

text \<open>
  What the services ask of an authorizer: it may provision actors and write capabilities, nothing else
  of the v2 tables. The production authorizer does that.
\<close>

definition wiring_ok :: "wiring \<Rightarrow> bool" where
  "wiring_ok W \<longleftrightarrow>
     (\<forall>auth now a cap v b v'. f_cap_auth W = Some auth \<longrightarrow> db_ok v \<longrightarrow> auth now a cap v = Inr (b, v') \<longrightarrow>
        db_ok v' \<and> quiet v v' \<and> (lifecycle_ok v \<longrightarrow> lifecycle_ok v'))"

lemma authorize_effect:
  assumes "db_ok v" "authorize p now a cap v = Inr (b, v')"
  shows "db_ok v' \<and> people_only v v'"
  using assms
  by (cases p) (auto simp: authorize_def bindE_Inr_iff dest: ensure_people intro: ensure_actor_ok)

lemma production_wiring: "f_cap_auth W = Some (authorize p) \<Longrightarrow> wiring_ok W"
  unfolding wiring_ok_def by (auto dest: authorize_effect intro: quiet_people lifecycle_people)

text \<open>What every call keeps, from the store \<open>d\<close> it started on.\<close>

definition advances :: "wiring \<Rightarrow> chat \<Rightarrow> chat \<Rightarrow> bool" where
  "advances W old db \<longleftrightarrow> chat_ok db \<and> moves W old db"

lemma advances_ok [simp]: "advances W old db \<Longrightarrow> chat_ok db"
  by (simp add: advances_def)

lemma advances_step: "advances W old db \<Longrightarrow> chat_ok db' \<Longrightarrow> moves W db db' \<Longrightarrow> advances W old db'"
  unfolding advances_def by (blast intro: moves_trans)

lemma advances_same:
  "advances W old db \<Longrightarrow> chat_ok db' \<Longrightarrow> w_convs db' = w_convs db \<Longrightarrow> w_messages db' = w_messages db \<Longrightarrow> advances W old db'"
  by (rule advances_step) (auto intro: moves_same)

lemma advances_frame [simp]:
  "advances W old (db\<lparr>w_tasks := r\<rparr>) = advances W old db" "advances W old (db\<lparr>w_reads := rs\<rparr>) = advances W old db"
  by (simp_all add: advances_def moves_def chat_ok_def mirrored_def conv_log_def)

lemma triple_advance:
  assumes "\<And>db x db'. chat_ok db \<Longrightarrow> f db = Inr (x, db') \<Longrightarrow> chat_ok db' \<and> moves W db db'"
  shows "triple (advances W old) (advances W old) (tx f) (\<lambda>_. advances W old)"
proof (rule triple_tx)
  fix db x db' assume a: "advances W old db" "f db = Inr (x, db')"
  then show "advances W old db'" using assms [OF advances_ok [OF a(1)] a(2)] by (blast intro: advances_step)
qed

lemma triple_capability:
  assumes W: "wiring_ok W" and P: "\<And>db. P db \<Longrightarrow> chat_ok db" "\<And>db. P db \<Longrightarrow> E db"
    "\<And>db v. P db \<Longrightarrow> chat_ok (db\<lparr>w_v2 := v\<rparr>) \<Longrightarrow> P (db\<lparr>w_v2 := v\<rparr>)"
  shows "triple E P (check_capability W now a cap) (\<lambda>_. P)"
proof (cases "f_cap_auth W")
  case None
  then show ?thesis
    using P(2) by (auto simp: check_capability_def check_actor_def intro!: triple_done triple_fail triple_if split: option.splits)
next
  case (Some auth)
  have "P (db\<lparr>w_v2 := v\<rparr>)" if "P db" "auth now a cap (w_v2 db) = Inr (b, v)" for db b v
  proof -
    have v: "db_ok v" "quiet (w_v2 db) v" "lifecycle_ok v"
      using W Some that(2) chat_okD(1,2) [OF P(1) [OF that(1)]] unfolding wiring_ok_def by blast+
    show ?thesis by (rule P(3) [OF that(1)]) (rule chat_ok_v2 [OF P(1) [OF that(1)] v(2,1,3)])
  qed
  then show ?thesis
    using Some P(2)
    by (auto simp: check_capability_def split: sum.splits
        intro!: triple_bind [where Q = "\<lambda>_. P"] triple_tx triple_if triple_done triple_fail)
qed

lemma capability_step:
  "wiring_ok W \<Longrightarrow> triple (advances W old) (advances W old) (check_capability W now a cap) (\<lambda>_. advances W old)"
  by (erule triple_capability) (auto intro: advances_same)

lemma emit_ok:
  assumes ok: "chat_ok db" and get: "get_conv (c_id c) db = Some c0" "c_v2 c = c_v2 c0"
    and run: "emit now c actor kind to body db = Inr (m, db')"
  shows "chat_ok db' \<and> w_convs db' = w_convs db \<and> w_threads db' = w_threads db \<and> w_tasks db' = w_tasks db
    \<and> w_messages db' = w_messages db @ [m] \<and> m_conv m = Some (c_id c) \<and> m_kind m = kind \<and> m_body m = Dumped body
    \<and> (m_v2 m = None \<longleftrightarrow> c_v2 c = None) \<and> (\<forall>k. view k (w_v2 db') = view k (w_v2 db))"
proof -
  obtain m0 db1 where add: "add_message now c actor kind to None None (Dumped body) db = Inr (m0, db1)"
    and mir: "mirror_v1_message_to_v2 now m0 c None None None db1 = Inr (m, db')"
    using run by (auto simp: emit_def bindE_Inr_iff)
  have "w_v2 db1 = w_v2 db" using add by (auto simp: add_message_def Let_def split: if_splits)
  then have "db1 = db1\<lparr>w_v2 := w_v2 db\<rparr>" by simp
  then have mir': "mirror_v1_message_to_v2 now m0 c None None None (db1\<lparr>w_v2 := w_v2 db\<rparr>) = Inr (m, db')" using mir by simp
  from dual_post [OF ok get add quiet_refl chat_okD(1,2) [OF ok] mir'] show ?thesis by simp
qed

lemma require_conv_iff [simp]: "require_conv k db = Inr c \<longleftrightarrow> get_conv k db = Some c"
  by (auto simp: require_conv_def split: option.splits)

lemma get_conv_id: "get_conv k db = Some c \<Longrightarrow> c_id c = k"
  using row_get_SomeD by fast

subsection \<open>Opening\<close>

lemma policy_ok: "chat_ok db \<Longrightarrow> chat_ok (db\<lparr>w_v2 := snd (set_operation_policy now op p (w_v2 db))\<rparr>)"
  by (intro chat_ok_v2 quiet_policy set_operation_policy_ok set_policy_lifecycle) (auto dest: chat_okD)

lemma open_tx_ok:
  assumes ok: "chat_ok db" and run: "open_tx L now h q p task db = Inr ((c, m), db')"
  shows "chat_ok db' \<and> get_conv (c_id c) db' = Some c \<and> c_v2 c \<noteq> None \<and> moves W db db'"
proof -
  obtain g db1 where gen: "get_or_create_general L now h db = Inr (g, db1)"
    using run by (auto simp: open_tx_def bindE_Inr_iff)
  have ok1: "chat_ok db1" and mv1: "moves W db db1" using get_or_create_general_ok [OF ok gen, of W] by auto
  let ?c0 = "open_row now h q task db1"
  let ?db = "db1\<lparr>w_convs := w_convs db1 @ [?c0], w_next := Suc (w_next db1)\<rparr>"
  obtain db2 where open1: "mirror_open L now ?c0 ?db = Inr (c, db2)"
    and em: "emit now c (c_opener c) EVENT_CONVERSATION_OPENED (c_expected c) (summary_payload L c)
      (case c_v2 c of None \<Rightarrow> db2 | Some op \<Rightarrow> db2\<lparr>w_v2 := snd (set_operation_policy now op p (w_v2 db2))\<rparr>) = Inr (m, db')"
    using run gen by (auto simp: open_tx_def bindE_Inr_iff Let_def split: if_splits)
  have c0: "c_id ?c0 = w_next db1" "c_v2 ?c0 = None" "c_state ?c0 = CONVERSATION_STATE_OPEN" "c_resolution ?c0 = None"
    by (simp_all add: open_row_def new_conversation_def)
  have okc: "chat_ok ?db" by (rule chat_ok_add_conv [OF ok1 c0(1,2)])
  have "get_conv (c_id ?c0) ?db = Some ?c0" "conv_log (c_id ?c0) ?db = []"
    using fresh_conv [OF ok1] c0(1) by (simp_all add: row_get_append row_get_Cons conv_log_def)
  note o = mirror_open_ok [OF okc this(1) c0(2) this(2) c0(3,4) open1, of W]
  then obtain op where op: "c = ?c0\<lparr>c_v2 := Some op\<rparr>" by blast
  let ?db2 = "db2\<lparr>w_v2 := snd (set_operation_policy now op p (w_v2 db2))\<rparr>"
  have ok2: "chat_ok ?db2" using o by (intro policy_ok) blast
  have get: "get_conv (c_id c) ?db2 = Some c" using o op by simp
  have em2: "emit now c (c_opener c) EVENT_CONVERSATION_OPENED (c_expected c) (summary_payload L c) ?db2 = Inr (m, db')"
    using em op by simp
  note e = emit_ok [OF ok2 get refl em2]
  have "moves W db1 ?db" by (rule moves_add [OF born_new(2)]) simp_all
  moreover have "moves W db2 db'" using e by (intro moves_same) auto
  ultimately have "moves W db db'" using mv1 o moves_trans by blast
  with e get op show ?thesis by simp
qed

lemma require_thread_iff: "require_thread d db = Inr h \<longleftrightarrow> get_thread_row_by_discord d db = Some h"
  by (auto simp: require_thread_def split: option.splits)

lemma chat_ok_tasks [simp]: "chat_ok (db\<lparr>w_tasks := r\<rparr>) \<longleftrightarrow> chat_ok db"
  by (simp add: chat_ok_def mirrored_def conv_log_def)

lemma chat_ok_reads [simp]: "chat_ok (db\<lparr>w_reads := r\<rparr>) \<longleftrightarrow> chat_ok db"
  by (simp add: chat_ok_def mirrored_def conv_log_def)

lemma open_step:
  assumes "advances W old db" "open_tx L now h q p task db = Inr ((c, m), db')"
  shows "advances W old db' \<and> get_conv (c_id c) db' = Some c \<and> c_v2 c \<noteq> None"
  using open_tx_ok [OF advances_ok [OF assms(1)] assms(2), of W] assms(1) by (auto intro: advances_step)

lemma open_conversation_ok:
  assumes W: "wiring_ok W"
  shows "triple (advances W old) (advances W old) (open_conversation L W now tk d q) (\<lambda>c db. advances W old db \<and> get_conv (c_id c) db = Some c \<and> c_v2 c \<noteq> None)"
proof -
  let ?R = "\<lambda>c db. advances W old db \<and> get_conv (c_id c) db = Some c \<and> c_v2 c \<noteq> None"
  have main: "triple (advances W old) (advances W old)
      (bindS (tx (open_tx L now h q p task)) (\<lambda>(c, m). bindS (count f) (\<lambda>_. bindS (announce L now c m) (\<lambda>_. doneS c)))) ?R"
    for h p task f
    by (rule triple_bind [where Q = "\<lambda>(c, m). ?R c"])
       (auto intro!: triple_tx triple_bind [where Q = "\<lambda>_. ?R _"] triple_count triple_announce triple_done dest: open_step)
  have task: "triple (advances W old) (advances W old) (if b then bindS (bind_task L now tk h q) (\<lambda>t. doneS (Some t)) else doneS None) (\<lambda>_. advances W old)" for b h
    by (auto simp: bind_task_def bindE_Inr_iff intro!: triple_if triple_bind [where Q = "\<lambda>_. advances W old"] triple_tx triple_done intro: advances_same)
  have rest: "triple (advances W old) (advances W old) (bindS (look g) (\<lambda>h. bindS (if b then bindS (bind_task L now tk h q) (\<lambda>t. doneS (Some t)) else doneS None)
      (\<lambda>task. bindS (tx (open_tx L now h q p task)) (\<lambda>(c, m). bindS (count f) (\<lambda>_. bindS (announce L now c m) (\<lambda>_. doneS c)))))) ?R"
    for g b p f
    by (rule triple_bind [where Q = "\<lambda>_. advances W old"], rule triple_look, assumption, assumption,
        rule triple_bind [where Q = "\<lambda>_. advances W old"], rule task, rule main)
  show ?thesis
    unfolding open_conversation_def
  proof (rule triple_bind [where Q = "\<lambda>_. advances W old"], rule capability_step [OF W])
    show "triple (advances W old) (advances W old) (case validate_operation_policy (q_policy q) of
         Inl e \<Rightarrow> failS (of_contract InvalidPolicy e)
       | Inr policy \<Rightarrow>
           let binds = (q_kind q = CONVERSATION_KIND_TASK \<and> bind_remote_task policy)
           in if q_kind q = CONVERSATION_KIND_TASK \<and> blank (q_objective q) then failS (StateError NeedsObjective)
              else if binds \<and> \<not> f_tasks W then failS (StateError NoTaskService)
              else bindS (look (\<lambda>db. bindE (require_thread d db) (\<lambda>h.
                                 bindE (get_or_create_general L now h db) (\<lambda>_. Inr h)))) (\<lambda>h.
                   bindS (if binds then bindS (bind_task L now tk h q) (\<lambda>t. doneS (Some t)) else doneS None) (\<lambda>task.
                   bindS (tx (open_tx L now h q policy task)) (\<lambda>(c, m).
                   bindS (count (\<lambda>k. k\<lparr>k_opened := Suc (k_opened k)\<rparr>)) (\<lambda>_.
                   bindS (announce L now c m) (\<lambda>_. doneS c)))))) ?R"
    proof (cases "validate_operation_policy (q_policy q)")
      case (Inr p)
      show ?thesis
        unfolding Inr sum.case Let_def
        by (rule triple_if, rule triple_fail, assumption, rule triple_if, rule triple_fail, assumption, rule rest)
    qed (simp add: triple_fail)
  qed
qed

lemma open_keeps:
  assumes "wiring_ok W"
  shows "triple (advances W old) (advances W old) (open_conversation L W now tk d q) (\<lambda>_. advances W old)"
  by (rule triple_weaken [OF open_conversation_ok [OF assms]]) auto

subsection \<open>Closing\<close>

lemma ensure_quiet:
  assumes "db_ok v" "ensure_actor_by_handle now h d k cs v = Inr (a, v')"
  shows "db_ok v' \<and> quiet v v' \<and> (lifecycle_ok v \<longrightarrow> lifecycle_ok v')"
  using ensure_actor_ok [OF assms] ensure_people [OF assms(2)] quiet_people lifecycle_people by blast

lemma close_policy_gate_quiet:
  assumes "close_policy_gate now c who res v = Inr v'" "db_ok v" "lifecycle_ok v"
  shows "db_ok v' \<and> lifecycle_ok v' \<and> quiet v v'"
proof (cases "\<exists>k op. c_v2 c = Some k \<and> get_operation k v = Some op")
  case True
  then obtain a where "ensure_actor_by_handle now (at_handle who) None ''ai'' [] v = Inr (a, v')"
    using assms(1) by (auto simp: close_policy_gate_def bindE_Inr_iff ensure_default_def)
  from ensure_quiet [OF assms(2) this] assms(3) show ?thesis by blast
next
  case False
  with assms show ?thesis by (auto simp: close_policy_gate_def split: option.splits)
qed

lemma record_close_lifecycle: "record_close L k ev v = Inr (r, v') \<Longrightarrow> lifecycle_ok v \<Longrightarrow> lifecycle_ok v'"
  using record_close_frame [of L k ev v r v'] by (simp add: lifecycle_ok_def)

lemma attach_digest_ok:
  assumes "chat_ok db" "attach_digest L W c m db = Inr db'"
  shows "chat_ok db' \<and> w_convs db' = w_convs db \<and> w_messages db' = w_messages db \<and> w_tasks db' = w_tasks db
    \<and> w_threads db' = w_threads db \<and> quiet (w_v2 db) (w_v2 db')"
proof (cases "f_digest W \<and> c_v2 c \<noteq> None \<and> m_v2 m \<noteq> None")
  case True
  then obtain r v where v: "record_close L (c_v2 c) (m_v2 m) (w_v2 db) = Inr (r, v)" and db': "db' = db\<lparr>w_v2 := v\<rparr>"
    using assms(2) by (auto simp: attach_digest_def bindE_Inr_iff)
  have q: "quiet (w_v2 db) v" using record_close_frame [OF v] by (intro quiet_same) auto
  have "chat_ok (db\<lparr>w_v2 := v\<rparr>)"
    using q record_close_ok [OF chat_okD(1) [OF assms(1)] v] record_close_lifecycle [OF v chat_okD(2) [OF assms(1)]]
    by (rule chat_ok_v2 [OF assms(1)])
  with q show ?thesis by (simp add: db')
qed (use assms in \<open>auto simp: attach_digest_def\<close>)

lemma closed_row_simps [simp]:
  "c_id (closed_row now who res sm c) = c_id c" "c_v2 (closed_row now who res sm c) = c_v2 c"
  "c_kind (closed_row now who res sm c) = c_kind c" "c_state (closed_row now who res sm c) = CONVERSATION_STATE_CLOSED"
  "c_resolution (closed_row now who res sm c) = Some res" "c_general (closed_row now who res sm c) = c_general c"
  by (simp_all add: closed_row_def)

text \<open>The step of a close: the row and the mirrored operation together.\<close>

lemma close_rows_ok:
  assumes ok: "chat_ok db" and get: "get_conv (c_id c) db = Some c"
    and v: "quiet (w_v2 db) v" "db_ok v" "lifecycle_ok v"
    and mir: "mirror_conversation_close now (c_v2 c) who res sm sys v = Inr v'"
  shows "chat_ok (set_conv (c_id c) (\<lambda>_. closed_row now who2 res sm2 c) (db\<lparr>w_v2 := v'\<rparr>))"
proof (rule chat_ok_replace [OF ok get, of "\<lambda>_. closed_row now who2 res sm2 c" "closed_row now who2 res sm2 c"])
  let ?c = "closed_row now who2 res sm2 c"
  let ?db = "set_conv (c_id c) (\<lambda>_. ?c) (db\<lparr>w_v2 := v'\<rparr>)"
  have c: "c \<in> set (w_convs db)" using get row_get_SomeD by fast
  have eff: "db_ok v'" "lifecycle_ok v'" using mirror_close_ok [OF v(2) mir] mirror_close_lifecycle [OF v(2,3) mir] by auto
  then show "db_ok (w_v2 ?db)" "lifecycle_ok (w_v2 ?db)" by simp_all
  have logs: "events v' = events (w_v2 db)" using mirror_close_events [OF mir v(2)] v(1) by (simp add: quiet_def)
  have view: "(\<forall>k. c_v2 c = Some k \<longrightarrow> view k v' = Some (c_kind c, STATE_CLOSED, Some res))
      \<and> (\<forall>k. c_v2 c \<noteq> Some k \<longrightarrow> view k v' = view k (w_v2 db))"
  proof (cases "c_v2 c")
    case None
    then show ?thesis using mir v(1) by (simp add: mirror_conversation_close_def quiet_def)
  next
    case (Some k)
    have "agrees c (view k (w_v2 db))" using chat_okD(7) [OF ok c] Some by (simp add: mirrored_def)
    then obtain s where "view k v = Some (c_kind c, s, c_resolution c)" using v(1) by (auto simp: agrees_def quiet_def)
    from mirror_close_view [OF mir [unfolded Some] v(2) this] v(1) Some show ?thesis by (auto simp: quiet_def)
  qed
  show "mirrored ?db ?c"
    using view chat_okD(7) [OF ok c] logs by (auto simp: mirrored_def agrees_def conv_log_def op_events_def)
  fix x k assume x: "x \<in> set (w_convs db)" "c_id x \<noteq> c_id c" "c_v2 x = Some k"
  then have "c_v2 c \<noteq> Some k" using chat_okD(6) [OF ok x(1) c x(3)] by blast
  with view logs show "view k (w_v2 ?db) = view k (w_v2 db) \<and> op_events k (w_v2 ?db) = op_events k (w_v2 db) \<and> c_v2 ?c \<noteq> Some k"
    by (simp add: op_events_def)
qed (use chat_okD(4) [OF ok] in \<open>auto simp: conv_log_def\<close>)

lemma close_tx_ok:
  assumes ok: "chat_ok db" and get: "get_conv (c_id c) db = Some c"
    and open1: "\<not> c_general c" "c_state c \<noteq> CONVERSATION_STATE_CLOSED"
    and run: "close_tx L W now c who res sm bypass db = Inr ((c', m), db')"
  shows "chat_ok db' \<and> get_conv (c_id c) db' = Some c' \<and> c' = closed_row now who res sm c
    \<and> (\<forall>k. k \<noteq> c_id c \<longrightarrow> get_conv k db' = get_conv k db)
    \<and> w_messages db' = w_messages db @ [m] \<and> m_kind m = EVENT_CONVERSATION_CLOSED
    \<and> w_tasks db' = w_tasks db \<and> w_threads db' = w_threads db \<and> moves W db db'"
proof -
  obtain v v' db2 where gate: "(if bypass then Inr (w_v2 db) else close_policy_gate now c who res (w_v2 db)) = Inr v"
    and mir: "mirror_conversation_close now (c_v2 c) (Some who) res sm bypass v = Inr v'"
    and c': "c' = closed_row now who res sm c"
    and em: "emit now c' who EVENT_CONVERSATION_CLOSED None (summary_payload L c')
          (set_conv (c_id c) (\<lambda>_. c') (db\<lparr>w_v2 := v'\<rparr>)) = Inr (m, db2)"
    and dig: "attach_digest L W c' m db2 = Inr db'"
  proof -
    obtain v where gate: "(if bypass then Inr (w_v2 db) else close_policy_gate now c who res (w_v2 db)) = Inr v"
      and run1: "bindE (if bypass then Inr () else task_gate W c db) (\<lambda>_.
         bindE (map_err of_mirror (mirror_conversation_close now (c_v2 c) (Some who) res sm bypass v))
           (\<lambda>v2'. let c' = closed_row now who res sm c; db1 = set_conv (c_id c) (\<lambda>_. c') (db\<lparr>w_v2 := v2'\<rparr>)
              in bindE (emit now c' who EVENT_CONVERSATION_CLOSED None (summary_payload L c') db1) (\<lambda>(m, db2).
                 bindE (attach_digest L W c' m db2) (\<lambda>db3. Inr ((c', m), db3))))) = Inr ((c', m), db')"
      using run unfolding close_tx_def by (rule bindE_InrE)
    then show thesis using that [OF gate] by (auto simp: bindE_Inr_iff Let_def)
  qed
  have v: "quiet (w_v2 db) v \<and> db_ok v \<and> lifecycle_ok v"
    using gate chat_okD(1,2) [OF ok] close_policy_gate_quiet [of now c who res "w_v2 db" v] by (cases bypass) auto
  let ?db1 = "set_conv (c_id c) (\<lambda>_. c') (db\<lparr>w_v2 := v'\<rparr>)"
  have ok1: "chat_ok ?db1" unfolding c' using v by (intro close_rows_ok [OF ok get _ _ _ mir]) auto
  have gets: "get_conv k ?db1 = (if k = c_id c then Some c' else get_conv k db)" for k
    using get get_set_conv [of "c_id c" "\<lambda>_. c'" k "db\<lparr>w_v2 := v'\<rparr>"] c' by simp
  have get1: "get_conv (c_id c') ?db1 = Some c'" using gets c' by simp
  note e = emit_ok [OF ok1 get1 refl em]
  note a = attach_digest_ok [OF conjunct1 [OF e] dig]
  have "moves W db db'"
    using a e gets get c' close [OF open1, of W now who res sm] by (intro moves_one [of "c_id c" db c _ c']) auto
  with a e gets c' show ?thesis by simp
qed

lemma close_guard_Inr:
  "close_guard k who res bypass db = Inr c \<longleftrightarrow>
     get_conv k db = Some c \<and> \<not> c_general c \<and> c_state c \<noteq> CONVERSATION_STATE_CLOSED
     \<and> (bypass \<or> is_resolution_allowed (c_kind c) res \<and> (who = c_opener c \<or> \<not> blank (c_owner c) \<and> Some who = c_owner c))"
  by (auto simp: close_guard_def bindE_Inr_iff)

lemma close_step:
  assumes "close_tx L W now c who res sm bypass db = Inr ((c', m), db')" "advances W old db"
    "get_conv (c_id c) db = Some c" "\<not> c_general c" "c_state c \<noteq> CONVERSATION_STATE_CLOSED"
  shows "advances W old db' \<and> get_conv (c_id c) db' = Some c' \<and> c' = closed_row now who res sm c"
  using close_tx_ok [OF advances_ok [OF assms(2)] assms(3-5,1)] assms(2) by (auto intro: advances_step)

lemma close_conversation_ok:
  assumes W: "wiring_ok W"
  shows "triple (advances W old) (advances W old) (close_conversation L W now k who res sm bypass)
    (\<lambda>c db. advances W old db \<and> get_conv k db = Some c \<and> c_state c = CONVERSATION_STATE_CLOSED)"
proof -
  let ?P = "\<lambda>c db. advances W old db \<and> get_conv (c_id c) db = Some c \<and> c_id c = k \<and> \<not> c_general c
    \<and> c_state c \<noteq> CONVERSATION_STATE_CLOSED"
  let ?R = "\<lambda>c db. advances W old db \<and> get_conv k db = Some c \<and> c_state c = CONVERSATION_STATE_CLOSED"
  have a: "triple (advances W old) (advances W old) (look (close_guard k who res bypass)) ?P"
    by (rule triple_look) (auto simp: close_guard_Inr dest: get_conv_id)
  have b: "triple (advances W old) (?P c) (if bypass then doneS () else check_capability W now who CAP_CONVERSATION_CLOSE_OPENER) (\<lambda>_. ?P c)" for c
    by (rule triple_if, simp add: triple_done, rule triple_capability [OF W]) (auto intro: advances_same)
  have d: "triple (advances W old) (?P c) (tx (close_tx L W now c who res sm bypass)) (\<lambda>(c', m). ?R c')" for c
    by (rule triple_tx) (auto dest: close_step)
  have f: "triple (advances W old) (case x of (c', m) \<Rightarrow> ?R c')
      (case x of (c', m) \<Rightarrow> bindS (count g) (\<lambda>_. bindS (announce L now c' m) (\<lambda>_. doneS c'))) ?R" for x g
    by (cases x) (auto intro!: triple_bind [where Q = "\<lambda>_. ?R _"] triple_count triple_announce triple_done)
  show ?thesis
    unfolding close_conversation_def
    by (rule triple_bind [OF a], rule triple_bind [OF b], rule triple_bind [OF d], rule f)
qed

subsection \<open>Speech and handing over\<close>

lemma speech_policy_gate_quiet:
  assumes "speech_policy_gate now c r v = Inr v'" "db_ok v" "lifecycle_ok v"
  shows "db_ok v' \<and> lifecycle_ok v' \<and> quiet v v'"
proof (cases "v' = v")
  case False
  then obtain h kd a where "ensure_actor_by_handle now h None kd [] v = Inr (a, v')"
    using assms(1) by (auto simp: speech_policy_gate_def bindE_Inr_iff split: option.splits if_splits)
  from ensure_quiet [OF assms(2) this] assms(3) show ?thesis by blast
qed (use assms in simp)

lemma gauge_core: "same_lifecycle c (fst (gauge n addr actor c))" "c_id (fst (gauge n addr actor c)) = c_id c"
  "c_v2 (fst (gauge n addr actor c)) = c_v2 c"
  by (simp_all add: gauge_def same_lifecycle_def)

lemma spoken_core: "spoken_row W now addr actor c = (c', over) \<Longrightarrow> same_lifecycle c c'"
  by (auto simp: spoken_row_def gauge_def same_lifecycle_def split: if_splits)

lemma if_raise_Inr [simp]: "(if b then Inl e else x) = Inr y \<longleftrightarrow> \<not> b \<and> x = Inr y"
  by simp

lemma settle_speech_ok:
  assumes ok: "chat_ok db" and get: "get_conv (c_id c) db = Some c"
    and run: "settle_speech L W now addr actor c db = Inr ((c', om), db')"
  shows "chat_ok db' \<and> get_conv (c_id c) db' = Some c' \<and> (\<forall>j. j \<noteq> c_id c \<longrightarrow> get_conv j db' = get_conv j db)
    \<and> w_messages db' = w_messages db @ (case om of None \<Rightarrow> [] | Some o1 \<Rightarrow> [o1]) \<and> w_tasks db' = w_tasks db
    \<and> spoken_row W now addr actor c = (c', om \<noteq> None)"
proof -
  obtain c1 over where row: "spoken_row W now addr actor c = (c1, over)" by force
  have c1: "c' = c1" using run row by (auto simp: settle_speech_def Let_def bindE_Inr_iff split: if_splits)
  have core: "same_lifecycle c c1" using row by (rule spoken_core)
  let ?db = "set_conv (c_id c) (\<lambda>_. c1) db"
  have ok1: "chat_ok ?db" using ok get core by (rule chat_ok_set)
  have gets: "get_conv j ?db = (if j = c_id c then Some c1 else get_conv j db)" for j
    using get_set_conv [of "c_id c" "\<lambda>_. c1" j db] core get by (simp add: same_lifecycle_def)
  show ?thesis
  proof (cases over)
    case True
    then obtain o1 where o1: "om = Some o1" and em: "emit now c1 ''system'' EVENT_CONVERSATION_OVER_SPEECH (c_expected c1)
         (over_speech_payload L (g_over (f_policy W)) c1) ?db = Inr (o1, db')"
      using run row by (auto simp: settle_speech_def Let_def bindE_Inr_iff)
    have "get_conv (c_id c1) ?db = Some c1" using gets core by (simp add: same_lifecycle_def)
    from emit_ok [OF ok1 this refl em] show ?thesis using gets o1 c1 row True by simp
  next
    case False
    then have "om = None" "db' = ?db" using run row by (auto simp: settle_speech_def Let_def)
    then show ?thesis using ok1 gets c1 row False by simp
  qed
qed

lemma submit_tx_ok:
  assumes ok: "chat_ok db" and run: "submit_tx L W clean now k r db = Inr ((c', m, om), db')"
  shows "chat_ok db' \<and> get_conv k db' = Some c' \<and> (\<forall>j. j \<noteq> k \<longrightarrow> get_conv j db' = get_conv j db)
    \<and> w_messages db' = w_messages db @ m # (case om of None \<Rightarrow> [] | Some o1 \<Rightarrow> [o1])
    \<and> m_kind m = speech_event_kind (z_kind r) \<and> m_body m = Text (clean (z_content r)) \<and> m_conv m = Some k
    \<and> w_tasks db' = w_tasks db \<and> moves W db db'
    \<and> (\<exists>c addr. get_conv k db = Some c \<and> c_state c \<noteq> CONVERSATION_STATE_CLOSED
         \<and> compute_effective_addr (primary_addr r) (z_expected r) = Inr addr
         \<and> spoken_row W now addr (z_actor r) c = (c', om \<noteq> None))"
proof -
  obtain c addr m0 db1 expected v db2 where get: "get_conv k db = Some c" "c_state c \<noteq> CONVERSATION_STATE_CLOSED"
      "compute_effective_addr (primary_addr r) (z_expected r) = Inr addr"
    and add: "add_message now c (z_actor r) (speech_event_kind (z_kind r)) (primary_addr r) (stored_addressees r)
       (z_reply r) (Text (clean (z_content r))) db = Inr (m0, db1)"
    and gate: "speech_policy_gate now c r (w_v2 db1) = Inr v"
    and mir: "mirror_v1_message_to_v2 now m0 c (if z_private r = [] then None else Some (z_private r)) expected
       (z_reply_v2 r) (db1\<lparr>w_v2 := v\<rparr>) = Inr (m, db2)"
    and fin: "settle_speech L W now addr (z_actor r) c db2 = Inr ((c', om), db')"
    using run unfolding submit_tx_def by (auto simp: bindE_Inr_iff)
  have k: "c_id c = k" using get(1) by (rule get_conv_id)
  have "w_v2 db1 = w_v2 db" using add by (auto simp: add_message_def Let_def)
  with gate have v: "quiet (w_v2 db) v" "db_ok v" "lifecycle_ok v"
    using speech_policy_gate_quiet [of now c r "w_v2 db" v] chat_okD(1,2) [OF ok] by auto
  have getc: "get_conv (c_id c) db = Some c" using get k by simp
  note p = dual_post [OF ok getc refl add v mir]
  have ok2: "chat_ok db2" "get_conv (c_id c) db2 = Some c" using p getc by simp_all
  have "\<exists>c addr. get_conv k db = Some c \<and> c_state c \<noteq> CONVERSATION_STATE_CLOSED
         \<and> compute_effective_addr (primary_addr r) (z_expected r) = Inr addr
         \<and> spoken_row W now addr (z_actor r) c = (c', om \<noteq> None)"
    using settle_speech_ok [OF ok2 fin] get by blast
  moreover have "conv_step W c c'"
    using settle_speech_ok [OF ok2 fin] speak [OF get(2), of W now addr "z_actor r"] by simp
  then have "moves W db db'"
    using settle_speech_ok [OF ok2 fin] p k get by (intro moves_one [of k db c _ c']) auto
  ultimately show ?thesis using settle_speech_ok [OF ok2 fin] p k by simp
qed

lemma triple_unit_bind:
  "triple E P m (\<lambda>_. P) \<Longrightarrow> triple E P n Q \<Longrightarrow> triple E P (bindS m (\<lambda>_. n)) Q"
  by (rule triple_bind)

lemma submit_speech_ok:
  assumes W: "wiring_ok W"
  shows "triple (advances W old) (advances W old) (submit_speech L W clean now k r) (\<lambda>_. advances W old)"
proof -
  have a: "triple (advances W old) (advances W old) (tx (submit_tx L W clean now k r)) (\<lambda>_. advances W old)"
    by (rule triple_advance) (auto dest: submit_tx_ok)
  have b: "triple (advances W old) (advances W old) (case x of (c, m, over) \<Rightarrow> bindS (count g) (\<lambda>_. bindS (announce L now c m) (\<lambda>_.
      bindS (case over of None \<Rightarrow> doneS () | Some om \<Rightarrow> announce L now c om) (\<lambda>_. doneS m)))) (\<lambda>_. advances W old)" for x g
    by (cases x) (auto split: option.splits
        intro!: triple_unit_bind triple_count triple_announce triple_done)
  show ?thesis
    unfolding submit_speech_def
    by (rule triple_unit_bind [OF capability_step [OF W]], rule triple_bind [OF a], rule b)
qed

lemma handoff_guard_Inr:
  "handoff_guard k who db = Inr c \<longleftrightarrow> get_conv k db = Some c \<and> \<not> c_general c \<and> c_state c \<noteq> CONVERSATION_STATE_CLOSED
     \<and> blank (c_task c) \<and> (who = c_opener c \<or> \<not> blank (c_owner c) \<and> Some who = c_owner c)"
  by (auto simp: handoff_guard_def bindE_Inr_iff)

lemma transfer_tx_ok:
  assumes ok: "chat_ok db" and run: "transfer_tx L now k who new_owner why db = Inr ((c', m), db')"
  shows "chat_ok db' \<and> get_conv k db' = Some c' \<and> c_owner c' = Some new_owner \<and> c_expected c' = Some new_owner \<and> moves W db db'"
proof -
  obtain c where get: "get_conv k db = Some c" and free: "\<not> c_general c" "c_state c \<noteq> CONVERSATION_STATE_CLOSED" "blank (c_task c)"
    and c': "c' = c\<lparr>c_owner := Some new_owner, c_expected := Some new_owner, c_updated := now\<rparr>"
    and em: "emit now c' who EVENT_CONVERSATION_HANDOFF (Some new_owner) (handoff_payload L c new_owner who why)
      (set_conv k (\<lambda>_. c') db) = Inr (m, db')"
    using run by (auto simp: transfer_tx_def bindE_Inr_iff Let_def handoff_guard_Inr)
  have k: "c_id c = k" using get by (rule get_conv_id)
  have core: "same_lifecycle c c'" by (simp add: c' same_lifecycle_def)
  have ok1: "chat_ok (set_conv k (\<lambda>_. c') db)" using chat_ok_set [OF ok, of c "\<lambda>_. c'"] get core k by simp
  have get1: "get_conv (c_id c') (set_conv k (\<lambda>_. c') db) = Some c'"
    using get_set_conv [of k "\<lambda>_. c'" k db] get k c' by simp
  note e = emit_ok [OF ok1 get1 refl em]
  have "get_conv j db' = (if j = k then Some c' else get_conv j db)" for j
    using e get_set_conv [of k "\<lambda>_. c'" j db] get k c' by simp
  then have "moves W db db'"
    using e get c' handoff [OF free, of W now new_owner] by (intro moves_one [of k db c _ c']) auto
  with e get1 k c' show ?thesis by simp
qed

lemma transfer_owner_ok:
  assumes W: "wiring_ok W"
  shows "triple (advances W old) (advances W old) (transfer_owner L W now k who new_owner why) (\<lambda>_. advances W old)"
proof -
  have a: "triple (advances W old) (advances W old) (tx (transfer_tx L now k who new_owner why)) (\<lambda>_. advances W old)"
    by (rule triple_advance) (auto dest: transfer_tx_ok)
  have b: "triple (advances W old) (advances W old) (case x of (c, m) \<Rightarrow> bindS (count g) (\<lambda>_. bindS (announce L now c m) (\<lambda>_. doneS c))) (\<lambda>_. advances W old)" for x g
    by (cases x) (auto intro!: triple_unit_bind triple_count triple_announce triple_done)
  show ?thesis
    unfolding transfer_owner_def
    by (rule triple_unit_bind [OF capability_step [OF W]], rule triple_bind [OF a], rule b)
qed

subsection \<open>The idle sweep\<close>

lemma warn_ok:
  assumes ok: "chat_ok db" and get: "get_conv (c_id c) db = Some c"
    and may: "\<not> c_general c" "c_state c \<noteq> CONVERSATION_STATE_CLOSED" "c_warnings c < int t" "t \<le> 2"
    and run: "warn L now th t (c, ms, db) = Inr (c', ms', db')"
  shows "chat_ok db' \<and> get_conv (c_id c) db' = Some c' \<and> same_lifecycle c c' \<and> c_warnings c' = int t
    \<and> (\<forall>j. j \<noteq> c_id c \<longrightarrow> get_conv j db' = get_conv j db)
    \<and> (\<exists>m. ms' = ms @ [m] \<and> w_messages db' = w_messages db @ [m] \<and> m_kind m = EVENT_CONVERSATION_IDLE_WARNING
           \<and> m_conv m = Some (c_id c))
    \<and> moves W db db' \<and> c_general c' = c_general c \<and> c_last_speech c' = c_last_speech c \<and> c_created c' = c_created c"
proof -
  obtain m db1 where em: "emit now c ''system'' EVENT_CONVERSATION_IDLE_WARNING (c_expected c)
        (warning_payload L now th c t) db = Inr (m, db1)"
    and c': "c' = c\<lparr>c_warned_at := (case c_warned_at c of None \<Rightarrow> Some now | Some t \<Rightarrow> Some t), c_warnings := int t\<rparr>"
    and ms': "ms' = ms @ [m]" and db': "db' = set_conv (c_id c) (\<lambda>_. c') db1"
    using run by (auto simp: warn_def bindE_Inr_iff Let_def)
  note e = emit_ok [OF ok get refl em]
  have core: "same_lifecycle c c'" by (simp add: c' same_lifecycle_def)
  have get1: "get_conv (c_id c) db1 = Some c" using e get by simp
  have "chat_ok db'" using chat_ok_set [of db1 c "\<lambda>_. c'"] e get1 core by (simp add: db')
  moreover have gets: "get_conv j db' = (if j = c_id c then Some c' else get_conv j db)" for j
    using get_set_conv [of "c_id c" "\<lambda>_. c'" j db1] get1 e c' by (simp add: db')
  moreover have "moves W db db'"
    using gets get e conv_step.warn [OF may, of W now] by (intro moves_one [of "c_id c" db c _ c']) (auto simp: db' c')
  ultimately show ?thesis using e ms' core c' by (simp add: db')
qed

lemma warn_all_ok:
  assumes "foldE (warn L now th) ts (c, ms, db) = Inr (c', ms', db')" "chat_ok db" "get_conv (c_id c) db = Some c"
    "\<not> c_general c" "c_state c \<noteq> CONVERSATION_STATE_CLOSED" "sorted_wrt (<) ts" "\<forall>t \<in> set ts. c_warnings c < int t \<and> t \<le> 2"
  shows "chat_ok db' \<and> get_conv (c_id c) db' = Some c' \<and> same_lifecycle c c'
    \<and> (\<forall>j. j \<noteq> c_id c \<longrightarrow> get_conv j db' = get_conv j db)
    \<and> (ts \<noteq> [] \<longrightarrow> c_warnings c' = int (last ts)) \<and> (ts = [] \<longrightarrow> c_warnings c' = c_warnings c)
    \<and> (\<exists>new. w_messages db' = w_messages db @ new \<and> length new = length ts
          \<and> (\<forall>m \<in> set new. m_kind m = EVENT_CONVERSATION_IDLE_WARNING \<and> m_conv m = Some (c_id c)))
    \<and> moves W db db' \<and> c_general c' = c_general c \<and> c_last_speech c' = c_last_speech c \<and> c_created c' = c_created c"
  using assms
proof (induction ts arbitrary: c ms db)
  case Nil
  then show ?case by (simp add: same_lifecycle_def)
next
  case (Cons t ts)
  obtain c1 ms1 db1 where 1: "warn L now th t (c, ms, db) = Inr (c1, ms1, db1)"
    and 2: "foldE (warn L now th) ts (c1, ms1, db1) = Inr (c', ms', db')"
    using Cons.prems(1) by (auto simp: bindE_Inr_iff)
  have w: "c_warnings c < int t" "t \<le> 2" using Cons.prems(7) by simp_all
  note w = warn_ok [OF Cons.prems(2-5) w 1, of W]
  have id1: "c_id c1 = c_id c" using w by (simp add: same_lifecycle_def)
  have get1: "get_conv (c_id c1) db1 = Some c1" using w id1 by simp
  have "\<not> c_general c1" "c_state c1 \<noteq> CONVERSATION_STATE_CLOSED" "sorted_wrt (<) ts"
    "\<forall>t \<in> set ts. c_warnings c1 < int t \<and> t \<le> 2" using w Cons.prems(4-7) by (auto simp: same_lifecycle_def)
  note ih = Cons.IH [OF 2 conjunct1 [OF w] get1 this]
  have mv: "moves W db db'" using w ih moves_trans by blast
  obtain m where m: "w_messages db1 = w_messages db @ [m]" "m_kind m = EVENT_CONVERSATION_IDLE_WARNING" "m_conv m = Some (c_id c)"
    using w by blast
  obtain new where new: "w_messages db' = w_messages db1 @ new" "length new = length ts"
      "\<forall>m \<in> set new. m_kind m = EVENT_CONVERSATION_IDLE_WARNING \<and> m_conv m = Some (c_id c1)" using ih by blast
  have "w_messages db' = w_messages db @ (m # new)" "length (m # new) = length (t # ts)"
    "\<forall>x \<in> set (m # new). m_kind x = EVENT_CONVERSATION_IDLE_WARNING \<and> m_conv x = Some (c_id c)" using m new id1 by simp_all
  then have "\<exists>new. w_messages db' = w_messages db @ new \<and> length new = length (t # ts)
          \<and> (\<forall>m \<in> set new. m_kind m = EVENT_CONVERSATION_IDLE_WARNING \<and> m_conv m = Some (c_id c))" by blast
  moreover have "same_lifecycle c c'" using w ih by (simp add: same_lifecycle_def)
  moreover have "c_warnings c' = int (last (t # ts))" using w ih by (cases ts) auto
  ultimately show ?case using ih w id1 mv by simp
qed

lemma sweep_row_ok:
  assumes run: "sweep_row L W now th c (x, db) = Inr (x', db')" and ok: "chat_ok db" and get: "get_conv (c_id c) db = Some c"
    and may: "\<not> c_general c" "c_state c \<noteq> CONVERSATION_STATE_CLOSED"
  shows "chat_ok db' \<and> moves W db db' \<and> (\<forall>j. j \<noteq> c_id c \<longrightarrow> get_conv j db' = get_conv j db)
    \<and> set (map fst (x_abandon x')) \<subseteq> insert (c_id c) (set (map fst (x_abandon x)))"
proof (cases "int (target_tier (f_policy W) th (now - last_active c)) \<le> c_warnings c")
  case True
  with run ok show ?thesis by (simp add: sweep_row_def subset_insertI)
next
  case False
  let ?target = "target_tier (f_policy W) th (now - last_active c)"
  let ?ts = "[nat (c_warnings c + 1)..<Suc (min ?target 2)]"
  obtain c1 ms db1 where 1: "foldE (warn L now th) ?ts (c, [], db) = Inr (c1, ms, db1)"
    and x': "x' = x\<lparr>x_pubs := x_pubs x @ map (\<lambda>m. (c1\<lparr>c_updated := now\<rparr>, m)) ms,
                       x_flagged := (if ?target = 3 then x_flagged x else x_flagged x @ [c1\<lparr>c_updated := now\<rparr>]),
                       x_abandon := (if ?target = 3 then x_abandon x @ [(c_id c, last_active c)] else x_abandon x),
                       x_tiers := x_tiers x @ ?ts\<rparr>"
    and db': "db' = set_conv (c_id c) (\<lambda>_. c1\<lparr>c_updated := now\<rparr>) db1"
    using run False by (auto simp: sweep_row_def Let_def bindE_Inr_iff simp del: upt_Suc)
  have ab: "set (map fst (x_abandon x')) \<subseteq> insert (c_id c) (set (map fst (x_abandon x)))"
    by (auto simp: x')
  have "\<forall>t \<in> set ?ts. c_warnings c < int t \<and> t \<le> 2" by auto
  note w = warn_all_ok [OF 1 ok get may sorted_wrt_upt this, of W]
  have core: "same_lifecycle c1 (c1\<lparr>c_updated := now\<rparr>)" by (simp add: same_lifecycle_def)
  have id1: "c_id c1 = c_id c" using w by (simp add: same_lifecycle_def)
  have "chat_ok db'" using chat_ok_set [of db1 c1 "\<lambda>_. c1\<lparr>c_updated := now\<rparr>"] w id1 core by (simp add: db')
  moreover have gets: "get_conv j db' = (if j = c_id c then Some (c1\<lparr>c_updated := now\<rparr>) else get_conv j db)" for j
    using get_set_conv [of "c_id c" "\<lambda>_. c1\<lparr>c_updated := now\<rparr>" j db1] w id1 by (simp add: db')
  moreover have "conv_step W c1 (c1\<lparr>c_updated := now\<rparr>)" using w may by (intro stamp) (auto simp: same_lifecycle_def)
  then have "moves W db1 db'" using gets w id1 by (intro moves_one [of "c_id c" db1 c1 _ "c1\<lparr>c_updated := now\<rparr>"]) (auto simp: db')
  with w have "moves W db db'" using moves_trans by blast
  ultimately show ?thesis using ab by simp
qed

lemma sweep_rows_ok:
  assumes "foldE (sweep_row L W now th) cs (x, db) = Inr (x', db')" "chat_ok db" "distinct (map c_id cs)"
    "\<forall>c \<in> set cs. get_conv (c_id c) db = Some c \<and> \<not> c_general c \<and> c_state c \<noteq> CONVERSATION_STATE_CLOSED"
  shows "chat_ok db' \<and> moves W db db'"
  using assms
proof (induction cs arbitrary: x db)
  case (Cons c cs)
  obtain x1 db1 where 1: "sweep_row L W now th c (x, db) = Inr (x1, db1)"
    and 2: "foldE (sweep_row L W now th) cs (x1, db1) = Inr (x', db')"
    using Cons.prems(1) by (auto simp: bindE_Inr_iff)
  have s: "chat_ok db1" "\<forall>j. j \<noteq> c_id c \<longrightarrow> get_conv j db1 = get_conv j db" "moves W db db1"
    using sweep_row_ok [OF 1 Cons.prems(2)] Cons.prems(4) by auto
  have "get_conv (c_id y) db1 = Some y" if "y \<in> set cs" for y
  proof -
    have "c_id c \<notin> c_id ` set cs" using Cons.prems(3) by simp
    with that have "c_id y \<noteq> c_id c" by (metis imageI)
    with s(2) Cons.prems(4) that show ?thesis by simp
  qed
  with Cons.prems(3,4) s(1) have "chat_ok db' \<and> moves W db1 db'" by (intro Cons.IH [OF 2]) auto
  with s(3) show ?case using moves_trans by blast
qed simp

lemma sweep_tx_ok:
  assumes "sweep_tx L W now d th db = Inr (x, db')" "chat_ok db"
  shows "chat_ok db' \<and> moves W db db'"
proof -
  obtain h :: chat_thread where 1: "foldE (sweep_row L W now th) (filter (sweepable (h_id h)) (w_convs db)) (no_sweep, db) = Inr (x, db')"
    using assms(1) unfolding sweep_tx_def bindE_Inr_iff by blast
  have "distinct (map c_id (w_convs db))" using chat_okD(3) [OF assms(2)] by (simp add: fresh_keys_def)
  then have "distinct (map c_id (filter (sweepable (h_id h)) (w_convs db)))" by (rule distinct_map_filter)
  then show ?thesis using fresh_keys_get [OF chat_okD(3) [OF assms(2)]] by (intro sweep_rows_ok [OF 1 assms(2)]) (auto simp: sweepable_def)
qed

lemma triple_each: "(\<And>x. triple E P (f x) (\<lambda>_. P)) \<Longrightarrow> triple E P (each f xs) (\<lambda>_. P)"
  by (induction xs) (auto intro: triple_done triple_unit_bind)

lemma abandon_ok:
  assumes W: "wiring_ok W"
  shows "triple (advances W old) (advances W old) (abandon L W now th a) (\<lambda>_. advances W old)"
proof -
  obtain k seen where a: "a = (k, seen)" by force
  have "advances W old (set_conv k (\<lambda>c. c\<lparr>c_warnings := 3, c_updated := now\<rparr>) db)"
    if "advances W old db" "get_conv k db = Some c" "c_state c = CONVERSATION_STATE_CLOSED" for db c
  proof (rule advances_step [OF that(1)])
    let ?f = "\<lambda>c. c\<lparr>c_warnings := 3, c_updated := now\<rparr>"
    have k: "c_id c = k" by (rule get_conv_id [OF that(2)])
    then show "chat_ok (set_conv k ?f db)"
      using chat_ok_set [OF advances_ok [OF that(1)], of c ?f] that by (simp add: same_lifecycle_def)
    have "get_conv j (set_conv k ?f db) = (if j = k then map_option ?f (get_conv k db) else get_conv j db)" for j
      by (rule get_set_conv) simp
    with that(2) give_up [OF that(3), of W now] show "moves W db (set_conv k ?f db)"
      by (intro moves_one [of k db c _ "?f c"]) auto
  qed
  then show ?thesis
    unfolding a abandon_def
    by (auto intro!: triple_bind [OF close_conversation_ok [OF W]] triple_tx split: option.splits)
qed

lemma abandon_all_ok:
  assumes W: "wiring_ok W"
  shows "triple (advances W old) (advances W old) (abandon_all L W now th as) (\<lambda>_. advances W old)"
proof (induction as)
  case (Cons a as)
  show ?case
    by (auto intro!: triple_bind [OF abandon_ok [OF W]] triple_bind [OF Cons.IH] triple_done)
qed (simp add: triple_done)

lemma sweep_idle_ok:
  assumes W: "wiring_ok W"
  shows "triple (advances W old) (advances W old) (sweep_idle_conversations L W now d secs) (\<lambda>_. advances W old)"
  unfolding sweep_idle_conversations_def
  by (auto intro!: triple_if triple_done triple_unit_bind triple_bind [OF abandon_all_ok [OF W]] triple_each triple_count
      triple_publish triple_bind [OF triple_advance] dest: sweep_tx_ok split: prod.splits)

subsection \<open>The rest\<close>

lemma mark_read_ok:
  "triple (advances W old) (advances W old) (mark_conversation_read W k actor speech) (\<lambda>_. advances W old)"
proof -
  have "advances W old (put_cursor k actor s t db)" if "advances W old db" for s t db
    by (rule advances_same [OF that]) (use that in \<open>simp_all add: put_cursor_def Let_def split: option.splits\<close>)
  then show ?thesis
    unfolding mark_conversation_read_def check_actor_def
    by (auto intro!: triple_unit_bind triple_tx triple_done triple_fail triple_if simp: bindE_Inr_iff Let_def split: option.splits)
qed

lemma close_keeps:
  assumes "wiring_ok W"
  shows "triple (advances W old) (advances W old) (close_conversation L W now k who res sm bypass) (\<lambda>_. advances W old)"
  by (rule triple_weaken [OF close_conversation_ok [OF assms]]) auto

lemma close_each_ok:
  assumes W: "wiring_ok W"
  shows "triple (advances W old) (advances W old) (close_each L W now who res sm bypass ks) (\<lambda>_. advances W old)"
proof (induction ks)
  case (Cons k ks)
  have tail: "triple (advances W old) (advances W old) (bindS (close_each L W now who res sm bypass ks) (\<lambda>rs. doneS (y # rs))) (\<lambda>_. advances W old)" for y
    by (auto intro!: triple_bind [OF Cons.IH] triple_done)
  show ?case
    unfolding triple_def
  proof (intro allI impI)
    fix s :: service assume s: "advances W old (s_db s)"
    obtain r s1 where r: "close_conversation L W now k who res sm bypass s = (r, s1)" by force
    have "advances W old (s_db s1)" using triple_keep [OF close_keeps [OF W] s] r by (metis snd_conv)
    with tail [of "(k, map_sum id c_resolution r)"]
    show "case close_each L W now who res sm bypass (k # ks) s of
        (Inl e, s') \<Rightarrow> advances W old (s_db s') | (Inr x, s') \<Rightarrow> advances W old (s_db s')"
      by (simp add: r triple_def)
  qed
qed (simp add: triple_done)

lemma bulk_close_ok:
  assumes W: "wiring_ok W"
  shows "triple (advances W old) (advances W old) (bulk_close_conversations L W now ks who res sm bypass) (\<lambda>_. advances W old)"
  unfolding bulk_close_conversations_def check_actor_def
  by (auto intro!: triple_if triple_done triple_fail triple_unit_bind triple_bind [OF close_each_ok [OF W]] simp: Let_def split: option.splits)

lemma ensure_general_ok:
  "triple (advances W old) (advances W old) (ensure_general L now d) (\<lambda>_. advances W old)"
  "triple (advances W old) (advances W old) (ensure_general_for_thread_id L now k) (\<lambda>_. advances W old)"
  unfolding ensure_general_def ensure_general_for_thread_id_def
  by (auto intro!: triple_advance simp: bindE_Inr_iff dest: get_or_create_general_ok split: option.splits)

lemma emit_system_ok:
  "triple (advances W old) (advances W old) (emit_system_event L now k kd to re payload) (\<lambda>_. advances W old)"
proof -
  have "advances W old db2" if "advances W old db" "get_conv k db = Some c"
    "add_message now c ''system'' kd to None None (Dumped (JObj payload)) db = Inr (m, db1)"
    "mirror_v1_message_to_v2 now m c None None re db1 = Inr (m', db2)" for db c m db1 m' db2
  proof -
    have "w_v2 db1 = w_v2 db" using that(3) by (auto simp: add_message_def Let_def)
    then have "db1 = db1\<lparr>w_v2 := w_v2 db\<rparr>" by simp
    with that(4) have mir: "mirror_v1_message_to_v2 now m c None None re (db1\<lparr>w_v2 := w_v2 db\<rparr>) = Inr (m', db2)" by simp
    have gc: "get_conv (c_id c) db = Some c" using that(2) get_conv_id [OF that(2)] by simp
    note ok = advances_ok [OF that(1)]
    from dual_post [OF ok gc refl that(3) quiet_refl chat_okD(1,2) [OF ok] mir]
    have "chat_ok db2" "moves W db db2"
      by (auto intro: moves_same)
    with that(1) show ?thesis by (rule advances_step)
  qed
  then show ?thesis
    unfolding emit_system_event_def
    by (auto intro!: triple_bind [OF triple_tx [where Q = "\<lambda>_. advances W old"]] triple_unit_bind triple_announce triple_done
        simp: bindE_Inr_iff)
qed

text \<open>From a store without orphans the backfill has only legacy kinds to rewrite.\<close>

lemma backfill_idle:
  assumes "\<forall>m \<in> set (w_messages (s_db s)). m_conv m \<noteq> None \<and> m_kind m \<noteq> ''message''"
  shows "backfill_general_conversations L now s = (Inr 0, s)"
proof -
  have "\<not> list_ex (\<lambda>m. m_conv m = None \<or> m_kind m = ''message'') (w_messages (s_db s))"
    using assms by (auto simp: list_ex_iff)
  then show ?thesis by (simp add: backfill_general_conversations_def tx_def)
qed

end
