(* ===== verification/Strings.thy ===== *)
theory Strings
  imports Base
begin

text \<open>
  Whitespace handling shared by the services: \<open>str.split()\<close>, the one-line previews of the chat rooms and
  the \<open>compact_text\<close> normal form of the remote executors.
\<close>

section \<open>Words\<close>

text \<open>\<open>str.split()\<close> without an argument: the maximal runs of other characters than whitespace.\<close>

function words :: "string \<Rightarrow> string list" where
  "words s =
     (let t = dropWhile is_space s in
      if t = [] then [] else takeWhile (\<lambda>c. \<not> is_space c) t # words (dropWhile (\<lambda>c. \<not> is_space c) t))"
  by auto
termination
proof (relation "measure length")
  fix s t :: string assume t: "t = dropWhile is_space s" "t \<noteq> []"
  from t(2) obtain c cs where c: "t = c # cs" by (cases t) auto
  have "\<not> is_space (hd t)" using t hd_dropWhile [of is_space s] by metis
  then have "\<not> is_space c" using c by simp
  have "length (dropWhile (\<lambda>c. \<not> is_space c) t) \<le> length cs"
    using c \<open>\<not> is_space c\<close> length_dropWhile_le [of "\<lambda>c. \<not> is_space c" cs] by simp
  also have "\<dots> < length t" using c by simp
  also have "\<dots> \<le> length s" using length_dropWhile_le [of is_space s] t by simp
  finally show "(dropWhile (\<lambda>c. \<not> is_space c) t, s) \<in> measure length" by simp
qed simp

declare words.simps [simp del]

lemma words_Nil [simp]: "words [] = []"
  by (simp add: words.simps)

lemma words_space: "is_space c \<Longrightarrow> words (c # s) = words s"
  by (subst (1 2) words.simps) simp

definition word :: "string \<Rightarrow> bool" where
  "word w \<longleftrightarrow> w \<noteq> [] \<and> (\<forall>c \<in> set w. \<not> is_space c)"

lemma words_end:
  assumes "word w" "s = [] \<or> is_space (hd s)"
  shows "words (w @ s) = w # words s"
proof -
  obtain c w' where w: "w = c # w'" "\<not> is_space c" using assms(1) by (cases w) (auto simp: word_def)
  have all: "\<forall>x \<in> set w. \<not> is_space x" using assms(1) by (simp add: word_def)
  have s: "takeWhile (\<lambda>c. \<not> is_space c) s = []" "dropWhile (\<lambda>c. \<not> is_space c) s = s"
    using assms(2) by (cases s; simp)+
  have "dropWhile is_space (w @ s) = w @ s" using w by simp
  moreover have "takeWhile (\<lambda>c. \<not> is_space c) (w @ s) = w" "dropWhile (\<lambda>c. \<not> is_space c) (w @ s) = s"
    using all s by (simp_all add: takeWhile_append2 dropWhile_append2)
  ultimately show ?thesis using w by (subst words.simps) simp
qed

lemma words_ok: "w \<in> set (words s) \<Longrightarrow> word w"
proof (induction s rule: words.induct)
  case (1 s)
  let ?t = "dropWhile is_space s"
  show ?case
  proof (cases "?t = []")
    case False
    have "\<not> is_space (hd ?t)" using False by (rule hd_dropWhile)
    then have "word (takeWhile (\<lambda>c. \<not> is_space c) ?t)"
      using False by (cases ?t) (auto simp: word_def dest: set_takeWhileD)
    moreover have "words s = takeWhile (\<lambda>c. \<not> is_space c) ?t # words (dropWhile (\<lambda>c. \<not> is_space c) ?t)"
      using False by (subst words.simps) (simp add: Let_def)
    ultimately show ?thesis using 1 False by auto
  qed (use 1 in \<open>simp add: words.simps\<close>)
qed

lemma words_join: "\<forall>w \<in> set ws. word w \<Longrightarrow> words (join_with (CHR '' '') ws) = ws"
proof (induction "CHR '' ''" ws rule: join_with.induct)
  case (2 p)
  then show ?case using words_end [of p "[]"] by simp
next
  case (3 p q ps)
  have sp: "is_space (CHR '' '')" by (simp add: is_space_def)
  have "words (p @ CHR '' '' # join_with (CHR '' '') (q # ps)) = p # words (CHR '' '' # join_with (CHR '' '') (q # ps))"
    using 3(2) sp by (intro words_end) simp_all
  then show ?case using 3 sp by (simp add: words_space)
qed simp

text \<open>The words of a text on one line, and texts already in that form.\<close>

definition one_line :: "string \<Rightarrow> string" where
  "one_line s = join_with (CHR '' '') (words s)"

lemma words_one_line [simp]: "words (one_line s) = words s"
  unfolding one_line_def by (rule words_join) (use words_ok in blast)

lemma one_line_idem [simp]: "one_line (one_line s) = one_line s"
  by (simp add: one_line_def [of "one_line s"]) (simp add: one_line_def)

lemma one_line_Nil [simp]: "one_line [] = []"
  by (simp add: one_line_def)

lemma join_words_ends:
  "ws \<noteq> [] \<Longrightarrow> \<forall>w \<in> set ws. word w \<Longrightarrow>
     join_with (CHR '' '') ws \<noteq> [] \<and> \<not> is_space (hd (join_with (CHR '' '') ws)) \<and> \<not> is_space (last (join_with (CHR '' '') ws))"
proof (induction "CHR '' ''" ws rule: join_with.induct)
  case (2 p)
  then show ?case by (auto simp: word_def)
next
  case (3 p q ps)
  then show ?case by (auto simp: word_def)
qed simp

lemma dropWhile_fixed: "s = [] \<or> \<not> P (hd s) \<Longrightarrow> dropWhile P s = s"
  by (cases s) auto

lemma strip_fixed: "s = [] \<or> (\<not> is_space (hd s) \<and> \<not> is_space (last s)) \<Longrightarrow> strip s = s"
  unfolding strip_def by (subst (2) dropWhile_fixed, blast, subst dropWhile_fixed) (auto simp: hd_rev)

lemma strip_one_line [simp]: "strip (one_line s) = one_line s"
proof (cases "words s = []")
  case False
  with join_words_ends [of "words s"] words_ok show ?thesis
    unfolding one_line_def by (intro strip_fixed) blast
qed (simp add: one_line_def strip_def)

lemma one_line_chars: "c \<in> set (one_line s) \<Longrightarrow> c = CHR '' '' \<or> \<not> is_space c"
proof -
  have join: "x \<in> set (join_with (CHR '' '') ws) \<Longrightarrow> x = CHR '' '' \<or> (\<exists>w \<in> set ws. x \<in> set w)" for x ws
    by (induction "CHR '' ''" ws rule: join_with.induct) auto
  assume "c \<in> set (one_line s)"
  then consider "c = CHR '' ''" | w where "w \<in> set (words s)" "c \<in> set w"
    using join unfolding one_line_def by blast
  then show ?thesis using words_ok by cases (auto simp: word_def)
qed

section \<open>Previews\<close>

definition rstrip :: "string \<Rightarrow> string" where
  "rstrip s = rev (dropWhile is_space (rev s))"

definition preview_text :: "nat \<Rightarrow> string \<Rightarrow> string" where
  "preview_text limit content =
     (let compact = join_with (CHR '' '') (words content)
      in if length compact \<le> limit then compact else rstrip (take (limit - 3) compact) @ ''...'')"

end
