(* ===== verification/ChatRoom.thy ===== *)
theory ChatRoom
  imports DualWrite Strings
begin

text \<open>
  The free-form side of a chat room, \<open>behaviors/chat/service.py\<close> (\<open>ChatBehaviorService\<close>): rooms and
  their general conversation, participants and their read positions, the delta a participant polls,
  and free-form messages. The Discord calls around these transactions are not modelled; the id of the
  Discord thread is an argument.
\<close>

section \<open>Rooms and participants\<close>

definition create_chat_thread ::
  "instant \<Rightarrow> string \<Rightarrow> string \<Rightarrow> string \<Rightarrow> string \<Rightarrow> string option \<Rightarrow> string \<Rightarrow> chat_thread run" where
  "create_chat_thread now discord guild channel title topic created_by =
     tx (\<lambda>db.
       let h = \<lparr>h_id = w_next db, h_guild = guild, h_channel = channel, h_discord = discord, h_title = title,
                h_topic = topic, h_created_by = created_by, h_status = ''active'', h_turns = 0, h_last_actor = None,
                h_last_preview = None, h_last_at = None, h_created = now\<rparr>
       in if get_thread_row_by_discord discord db \<noteq> None
          then Inl (StoreFailed (UniqueViolation ''chat_threads.discord_thread_id''))
          else Inr (h, snd (get_or_create_general_conversation now h
                 (db\<lparr>w_threads := w_threads db @ [h], w_next := Suc (w_next db)\<rparr>))))"

definition member_of :: "id \<Rightarrow> string \<Rightarrow> chat \<Rightarrow> chat_member option" where
  "member_of thread actor db = List.find (\<lambda>p. cp_thread p = thread \<and> cp_actor p = actor) (w_members db)"

definition state_of :: "id \<Rightarrow> string \<Rightarrow> chat \<Rightarrow> member_state option" where
  "state_of thread actor db = List.find (\<lambda>p. ps_thread p = thread \<and> ps_actor p = actor) (w_states db)"

definition set_member :: "id \<Rightarrow> string \<Rightarrow> chat_member \<Rightarrow> chat \<Rightarrow> chat" where
  "set_member thread actor p db = db\<lparr>w_members := map (\<lambda>x. if cp_thread x = thread \<and> cp_actor x = actor then p else x) (w_members db)\<rparr>"

definition set_state :: "id \<Rightarrow> string \<Rightarrow> member_state \<Rightarrow> chat \<Rightarrow> chat" where
  "set_state thread actor p db = db\<lparr>w_states := map (\<lambda>x. if ps_thread x = thread \<and> ps_actor x = actor then p else x) (w_states db)\<rparr>"

definition ensure_participant :: "chat_thread \<Rightarrow> string \<Rightarrow> string \<Rightarrow> chat \<Rightarrow> chat_member \<times> chat" where
  "ensure_participant h actor kind db =
     (case member_of (h_id h) actor db of
        None \<Rightarrow>
          let p = \<lparr>cp_thread = h_id h, cp_actor = actor, cp_kind = kind, cp_turns = 0, cp_preview = None, cp_last_at = None\<rparr>
          in (p, db\<lparr>w_members := w_members db @ [p]\<rparr>)
      | Some p \<Rightarrow>
          if kind \<noteq> [] \<and> cp_kind p \<noteq> kind
          then let p' = p\<lparr>cp_kind := kind\<rparr> in (p', set_member (h_id h) actor p' db) else (p, db))"

definition ensure_participant_state :: "chat_thread \<Rightarrow> string \<Rightarrow> chat \<Rightarrow> member_state \<times> chat" where
  "ensure_participant_state h actor db =
     (case state_of (h_id h) actor db of
        None \<Rightarrow>
          let p = \<lparr>ps_thread = h_id h, ps_actor = actor, ps_seen = None, ps_read = None, ps_read_at = None\<rparr>
          in (p, db\<lparr>w_states := w_states db @ [p]\<rparr>)
      | Some p \<Rightarrow> (p, db))"

text \<open>The room of a Discord id; the services answer \<open>None\<close> when there is none.\<close>

definition in_room :: "string \<Rightarrow> (chat_thread \<Rightarrow> chat \<Rightarrow> chat_error + 'a \<times> chat) \<Rightarrow> 'a option run" where
  "in_room discord f =
     tx (\<lambda>db. case get_thread_row_by_discord discord db of
                None \<Rightarrow> Inr (None, db)
              | Some h \<Rightarrow> bindE (f h db) (\<lambda>(x, db'). Inr (Some x, db')))"

definition get_chat_thread :: "string \<Rightarrow> chat_thread option run" where
  "get_chat_thread discord = in_room discord (\<lambda>h db. Inr (h, db))"

definition register_participant ::
  "instant \<Rightarrow> string \<Rightarrow> string \<Rightarrow> string \<Rightarrow> (chat_member \<times> member_state) option run" where
  "register_participant now discord actor kind =
     in_room discord (\<lambda>h db.
       let (p, db1) = ensure_participant h actor kind db; (st, db2) = ensure_participant_state h actor db1;
           st' = st\<lparr>ps_seen := Some now\<rparr>
       in Inr ((p, st'), set_state (h_id h) actor st' db2))"

definition heartbeat_participant :: "instant \<Rightarrow> string \<Rightarrow> string \<Rightarrow> (chat_member \<times> member_state) option run" where
  "heartbeat_participant now discord actor =
     in_room discord (\<lambda>h db.
       let (p, db1) = ensure_participant h actor ''ai'' db; (st, db2) = ensure_participant_state h actor db1;
           st' = st\<lparr>ps_seen := Some now\<rparr>
       in Inr ((p, st'), set_state (h_id h) actor st' db2))"

section \<open>The delta of a participant\<close>

text \<open>Python's \<open>xs[-n:]\<close>: everything for \<open>n = 0\<close>, a suffix that drops \<open>-n\<close> members for a negative \<open>n\<close>.\<close>

definition py_last :: "int \<Rightarrow> 'a list \<Rightarrow> 'a list" where
  "py_last n xs = (if 0 < n then drop (length xs - nat n) xs else drop (nat (- n)) xs)"

definition messages_after_cursor :: "chat_message list \<Rightarrow> id option \<Rightarrow> int \<Rightarrow> chat_message list" where
  "messages_after_cursor all cursor limit =
     (case cursor of
        None \<Rightarrow> py_last limit all
      | Some k \<Rightarrow> (let rest = dropWhile (\<lambda>m. m_id m \<noteq> k) all
                   in py_take limit (if rest = [] then all else tl rest)))"

definition room_messages :: "chat_thread \<Rightarrow> chat \<Rightarrow> chat_message list" where
  "room_messages h db = select_asc m_created (\<lambda>m. m_thread m = h_id h) (w_messages db)"

record room_delta =
  e_thread :: chat_thread
  e_self :: "chat_member \<times> member_state"
  e_members :: "(chat_member \<times> member_state option) list"
  e_messages :: "chat_message list"

text \<open>
  The session does not flush before it lists the participants, so a caller that is new to the room is
  not among them: the list is read from the tables before its rows are added.
\<close>

definition get_thread_delta ::
  "instant \<Rightarrow> string \<Rightarrow> string \<Rightarrow> id option \<Rightarrow> int \<Rightarrow> bool \<Rightarrow> room_delta option run" where
  "get_thread_delta now discord actor after limit mark_read =
     in_room discord (\<lambda>h db.
       let (p, db1) = ensure_participant h actor ''ai'' db; (st, db2) = ensure_participant_state h actor db1;
           ms = messages_after_cursor (room_messages h db2) (case after of None \<Rightarrow> ps_read st | Some k \<Rightarrow> Some k) limit;
           st' = (if mark_read \<and> ms \<noteq> []
                  then st\<lparr>ps_seen := Some now, ps_read := Some (m_id (last ms)), ps_read_at := Some (m_created (last ms))\<rparr>
                  else st\<lparr>ps_seen := Some now\<rparr>);
           db3 = set_state (h_id h) actor st' db2;
           known = filter (\<lambda>x. cp_thread x = h_id h \<and> member_of (h_id h) (cp_actor x) db \<noteq> None) (w_members db3)
       in Inr (\<lparr>e_thread = h, e_self = (p, st'),
                e_members = map (\<lambda>x. (x, if state_of (h_id h) (cp_actor x) db = None then None
                                         else state_of (h_id h) (cp_actor x) db3))
                              (sort_key (\<lambda>x. Position 0 (cp_actor x)) known),
                e_messages = ms\<rparr>, db3))"

section \<open>Free-form messages\<close>

definition append_message ::
  "(string \<Rightarrow> string) \<Rightarrow> instant \<Rightarrow> chat_thread \<Rightarrow> chat_member \<Rightarrow> string \<Rightarrow> string \<Rightarrow> conversation \<Rightarrow> chat
     \<Rightarrow> chat_error + (chat_thread \<times> chat_member \<times> chat_message) \<times> chat" where
  "append_message clean now h p actor content c db =
     (let text = clean content; preview = preview_text 120 text;
          h' = h\<lparr>h_turns := h_turns h + 1, h_last_actor := Some actor, h_last_preview := Some preview, h_last_at := Some now\<rparr>;
          p' = p\<lparr>cp_turns := cp_turns p + 1, cp_preview := Some preview, cp_last_at := Some now\<rparr>
      in bindE (add_message now c actor ''claim'' None None None (Text text) db) (\<lambda>(m, db1).
         bindE (mirror_v1_message_to_v2 now m c None None None db1) (\<lambda>(m', db2).
         Inr ((h', p', m'),
           set_conv (c_id c) (\<lambda>x. x\<lparr>c_last_speech := Some now, c_speech_count := c_speech_count x + 1, c_updated := now\<rparr>)
             (set_member (h_id h) actor p'
               (db2\<lparr>w_threads := row_upd h_id (h_id h) (\<lambda>_. h') (w_threads db2)\<rparr>))))))"

definition submit_participant_message ::
  "lib \<Rightarrow> (string \<Rightarrow> string) \<Rightarrow> instant \<Rightarrow> string \<Rightarrow> string \<Rightarrow> string \<Rightarrow> string
     \<Rightarrow> (chat_thread \<times> (chat_member \<times> member_state) \<times> chat_message) option run" where
  "submit_participant_message L clean now discord actor content kind =
     bindS (in_room discord (\<lambda>h db.
       let (p, db1) = ensure_participant h actor kind db; (st, db2) = ensure_participant_state h actor db1;
           (g, db3) = get_or_create_general_conversation now h db2
       in bindE (append_message clean now h p actor content g db3) (\<lambda>((h', p', m), db4).
          let st' = st\<lparr>ps_seen := Some now, ps_read := Some (m_id m), ps_read_at := Some (m_created m)\<rparr>
          in Inr ((h', (p', st'), m), set_state (h_id h) actor st' db4))))
       (\<lambda>r. case r of None \<Rightarrow> doneS None
            | Some (h, pst, m) \<Rightarrow> bindS (publish_message L now m) (\<lambda>_. doneS (Some (h, pst, m))))"

definition record_message ::
  "lib \<Rightarrow> (string \<Rightarrow> string) \<Rightarrow> instant \<Rightarrow> string \<Rightarrow> string \<Rightarrow> string \<Rightarrow> chat_thread option run" where
  "record_message L clean now discord actor content =
     bindS (submit_participant_message L clean now discord actor content ''participant'')
       (\<lambda>r. doneS (map_option fst r))"

section \<open>The invariant is kept\<close>

lemma chat_ok_frame:
  assumes "w_convs db' = w_convs db" "w_messages db' = w_messages db" "w_v2 db' = w_v2 db" "w_next db' = w_next db"
  shows "chat_ok db' \<longleftrightarrow> chat_ok db"
  using assms by (simp add: chat_ok_def mirrored_def conv_log_def)

lemma people_frame [simp]:
  "chat_ok (db\<lparr>w_members := ms\<rparr>) = chat_ok db" "chat_ok (db\<lparr>w_states := ss\<rparr>) = chat_ok db"
  "chat_ok (db\<lparr>w_threads := hs\<rparr>) = chat_ok db" "chat_ok (set_member k a p db) = chat_ok db" "chat_ok (set_state k a st db) = chat_ok db"
  by (rule chat_ok_frame; simp add: set_member_def set_state_def)+

lemma ensure_frame:
  "ensure_participant h a k db = (p, db') \<Longrightarrow> \<exists>ms. db' = db\<lparr>w_members := ms\<rparr>"
  "ensure_participant_state h a db = (st, db') \<Longrightarrow> \<exists>ss. db' = db\<lparr>w_states := ss\<rparr>"
proof -
  have same: "\<exists>ms. x = x\<lparr>w_members := ms\<rparr>" "\<exists>ss. x = x\<lparr>w_states := ss\<rparr>" for x :: chat
    by (rule exI [of _ "w_members x"], simp, rule exI [of _ "w_states x"], simp)
  show "ensure_participant h a k db = (p, db') \<Longrightarrow> \<exists>ms. db' = db\<lparr>w_members := ms\<rparr>"
    using same(1) by (auto simp: ensure_participant_def set_member_def Let_def split: option.splits if_splits)
  show "ensure_participant_state h a db = (st, db') \<Longrightarrow> \<exists>ss. db' = db\<lparr>w_states := ss\<rparr>"
    using same(2) by (auto simp: ensure_participant_state_def Let_def split: option.splits)
qed

lemma ensure_frame_ok:
  assumes "ensure_participant h a k db = (p, db1)" "ensure_participant_state h a db1 = (st, db2)"
  shows "chat_ok db2 = chat_ok db" "w_convs db2 = w_convs db" "w_messages db2 = w_messages db" "w_v2 db2 = w_v2 db"
    "w_threads db2 = w_threads db" "w_next db2 = w_next db" "w_tasks db2 = w_tasks db"
  using ensure_frame(1) [OF assms(1)] ensure_frame(2) [OF assms(2)] by auto

lemma ensure_moves:
  assumes "ensure_participant h a k db = (p, db1)" "ensure_participant_state h a db1 = (st, db2)" "chat_ok db"
  shows "chat_ok db2" "moves W db (set_state j a st' db2)"
  using ensure_frame_ok [OF assms(1,2)] assms(3) by (auto simp: set_state_def intro!: moves_same)

lemma triple_room:
  assumes "\<And>h db x db'. chat_ok db \<Longrightarrow> f h db = Inr (x, db') \<Longrightarrow> chat_ok db' \<and> moves W db db'"
  shows "triple (advances W old) (advances W old) (in_room d f) (\<lambda>_. advances W old)"
  unfolding in_room_def using assms by (auto intro!: triple_advance simp: bindE_Inr_iff split: option.splits)

lemma participants_ok:
  "triple (advances W old) (advances W old) (get_chat_thread d) (\<lambda>_. advances W old)"
  "triple (advances W old) (advances W old) (register_participant now d a k) (\<lambda>_. advances W old)"
  "triple (advances W old) (advances W old) (heartbeat_participant now d a) (\<lambda>_. advances W old)"
  "triple (advances W old) (advances W old) (get_thread_delta now d a after limit mark) (\<lambda>_. advances W old)"
  unfolding get_chat_thread_def register_participant_def heartbeat_participant_def get_thread_delta_def Let_def
  by (rule triple_room; auto simp: ensure_moves split: prod.splits)+

lemma get_or_create_conversation_ok:
  assumes "chat_ok db" "get_or_create_general_conversation now h db = (c, db')"
  shows "chat_ok db' \<and> get_conv (c_id c) db' = Some c \<and> w_messages db' = w_messages db \<and> w_threads db' = w_threads db
    \<and> c_general c \<and> moves W db db'"
proof (cases "general_of (h_id h) db")
  case (Some g)
  then have "g \<in> set (w_convs db)" "c_general g" using find_SomeD [of _ "w_convs db" g] by (auto simp: general_of_def)
  then show ?thesis
    using assms Some fresh_keys_get [OF chat_okD(3) [OF assms(1)], of g] by (simp add: get_or_create_general_conversation_def)
next
  case None
  let ?c = "new_conversation now (w_next db) (h_id h) CONVERSATION_KIND_GENERAL ''General''
                    (Some ''Casual chat and unstructured updates.'') ''system'' None True"
  have c: "c = ?c" "db' = db\<lparr>w_convs := w_convs db @ [?c], w_next := Suc (w_next db)\<rparr>"
    using assms(2) None by (auto simp: get_or_create_general_conversation_def Let_def)
  have "chat_ok db'" unfolding c(2) by (rule chat_ok_add_conv [OF assms(1)]) (simp_all add: new_conversation_def)
  moreover have "get_conv (c_id c) db' = Some c"
    using fresh_conv(1) [OF assms(1)] by (simp add: c row_get_append row_get_Cons new_conversation_def)
  moreover have "moves W db db'" unfolding c(2) by (rule moves_add [OF born_new(1)]) simp_all
  ultimately show ?thesis by (simp add: c new_conversation_def)
qed

lemma create_chat_thread_ok: "triple (advances W old) (advances W old) (create_chat_thread now d g ch t tp who) (\<lambda>_. advances W old)"
proof -
  have "chat_ok db' \<and> moves W db db'"
    if "chat_ok db" "db' = snd (get_or_create_general_conversation now h (db\<lparr>w_threads := hs, w_next := Suc (w_next db)\<rparr>))" for h hs db db'
  proof -
    let ?db = "db\<lparr>w_threads := hs, w_next := Suc (w_next db)\<rparr>"
    have "chat_ok ?db" using that(1) by (simp add: chat_ok_def mirrored_def conv_log_def fresh_keys_Suc)
    then have "chat_ok db' \<and> moves W ?db db'"
      using get_or_create_conversation_ok [of ?db now h "fst (get_or_create_general_conversation now h ?db)" db' W] that(2) by simp
    moreover have "moves W db ?db" by (rule moves_same) simp_all
    ultimately show ?thesis using moves_trans by blast
  qed
  then show ?thesis unfolding create_chat_thread_def by (auto intro!: triple_advance simp: Let_def)
qed

lemma append_message_ok:
  assumes ok: "chat_ok db" and get: "get_conv (c_id c) db = Some c" and gen: "c_general c"
    and run: "append_message clean now h p a content c db = Inr ((h', p', m), db')"
  shows "chat_ok db' \<and> moves W db db' \<and> w_messages db' = w_messages db @ [m] \<and> m_conv m = Some (c_id c) \<and> m_kind m = ''claim''
    \<and> (\<forall>k. k \<noteq> c_id c \<longrightarrow> get_conv k db' = get_conv k db)
    \<and> get_conv (c_id c) db' = Some (c\<lparr>c_last_speech := Some now, c_speech_count := c_speech_count c + 1, c_updated := now\<rparr>)"
proof -
  obtain m0 db1 db2 where add: "add_message now c a ''claim'' None None None (Text (clean content)) db = Inr (m0, db1)"
    and mir: "mirror_v1_message_to_v2 now m0 c None None None db1 = Inr (m, db2)"
    and db': "db' = set_conv (c_id c) (\<lambda>x. x\<lparr>c_last_speech := Some now, c_speech_count := c_speech_count x + 1, c_updated := now\<rparr>)
             (set_member (h_id h) a p' (db2\<lparr>w_threads := row_upd h_id (h_id h) (\<lambda>_. h') (w_threads db2)\<rparr>))"
    using run by (auto simp: append_message_def Let_def bindE_Inr_iff)
  have "w_v2 db1 = w_v2 db" using add by (auto simp: add_message_def Let_def)
  then have "db1 = db1\<lparr>w_v2 := w_v2 db\<rparr>" by simp
  with mir have mir': "mirror_v1_message_to_v2 now m0 c None None None (db1\<lparr>w_v2 := w_v2 db\<rparr>) = Inr (m, db2)" by simp
  note d = dual_post [OF ok get refl add quiet_refl chat_okD(1,2) [OF ok] mir']
  let ?db = "set_member (h_id h) a p' (db2\<lparr>w_threads := row_upd h_id (h_id h) (\<lambda>_. h') (w_threads db2)\<rparr>)"
  have ok2: "chat_ok ?db" using d by simp
  have get2: "get_conv k ?db = get_conv k db" for k using d by (simp add: set_member_def)
  let ?f = "\<lambda>x. x\<lparr>c_last_speech := Some now, c_speech_count := c_speech_count x + 1, c_updated := now\<rparr>"
  have "chat_ok db'" unfolding db' using get2 get by (intro chat_ok_set [OF ok2]) (simp_all add: same_lifecycle_def)
  moreover have gets: "get_conv k db' = (if k = c_id c then Some (?f c) else get_conv k db)" for k
    unfolding db' using get2 get get_set_conv [of "c_id c" ?f k ?db] by simp
  moreover have "moves W db db'"
    using gets get d post [OF gen, of W now] by (intro moves_one [of "c_id c" db c _ "?f c"]) (auto simp: db' set_member_def)
  ultimately show ?thesis using d by (simp add: db' set_member_def)
qed

lemma submit_message_ok: "triple (advances W old) (advances W old) (submit_participant_message L clean now d a content k) (\<lambda>_. advances W old)"
proof -
  have "chat_ok db5 \<and> moves W db db5" if "chat_ok db" "ensure_participant h a k db = (p, db1)" "ensure_participant_state h a db1 = (st, db2)"
    "get_or_create_general_conversation now h db2 = (g, db3)"
    "append_message clean now h p a content g db3 = Inr ((h', p', m), db4)" "db5 = set_state (h_id h) a st' db4"
    for db h p db1 st db2 g db3 h' p' m db4 db5 st'
  proof -
    note f = ensure_frame_ok [OF that(2,3)]
    have 2: "chat_ok db2" "moves W db db2" using f that(1) by (auto intro: moves_same)
    note g = get_or_create_conversation_ok [OF 2(1) that(4), of W]
    then have 3: "chat_ok db3" "get_conv (c_id g) db3 = Some g" "c_general g" by auto
    note a = append_message_ok [OF 3 that(5), of W]
    have 4: "moves W db4 db5" unfolding that(6) by (rule moves_same) (simp_all add: set_state_def)
    have "moves W db db5" using 2(2) g a 4 moves_trans by blast
    with a that(6) show ?thesis by simp
  qed
  then have "triple (advances W old) (advances W old) (in_room d (\<lambda>h db.
       let (p, db1) = ensure_participant h a k db; (st, db2) = ensure_participant_state h a db1;
           (g, db3) = get_or_create_general_conversation now h db2
       in bindE (append_message clean now h p a content g db3) (\<lambda>((h', p', m), db4).
          let st' = st\<lparr>ps_seen := Some now, ps_read := Some (m_id m), ps_read_at := Some (m_created m)\<rparr>
          in Inr ((h', (p', st'), m), set_state (h_id h) a st' db4)))) (\<lambda>_. advances W old)"
    by (intro triple_room) (auto simp: Let_def bindE_Inr_iff split: prod.splits)
  then show ?thesis
    unfolding submit_participant_message_def
    by (rule triple_bind) (auto intro!: triple_done triple_unit_bind triple_publish split: option.splits)
qed

lemma record_message_ok: "triple (advances W old) (advances W old) (record_message L clean now d a content) (\<lambda>_. advances W old)"
  unfolding record_message_def by (auto intro!: triple_bind [OF submit_message_ok] triple_done)

end
