(* ===== verification/TaskCoordinator.thy ===== *)
theory TaskCoordinator
  imports ChatRoom
begin

text \<open>
  \<open>behaviors/chat/task_coordinator.py\<close> (\<open>ChatTaskCoordinator\<close>): the lifecycle of the remote task that a
  task conversation is bound to. Each call commits the task service's transaction, then a transaction
  that writes the conversation row, its event, the v2 mirror and the v2 state, and for a terminal call
  the close; a failure in a later transaction leaves the earlier ones committed.
\<close>

section \<open>Vocabulary\<close>

abbreviation EVENT_TASK_CLAIMED :: string where "EVENT_TASK_CLAIMED \<equiv> ''chat.task.claimed''"
abbreviation EVENT_TASK_HEARTBEAT :: string where "EVENT_TASK_HEARTBEAT \<equiv> ''chat.task.heartbeat''"
abbreviation EVENT_TASK_EVIDENCE :: string where "EVENT_TASK_EVIDENCE \<equiv> ''chat.task.evidence''"
abbreviation EVENT_TASK_COMPLETED :: string where "EVENT_TASK_COMPLETED \<equiv> ''chat.task.completed''"
abbreviation EVENT_TASK_FAILED :: string where "EVENT_TASK_FAILED \<equiv> ''chat.task.failed''"
abbreviation EVENT_TASK_INTERRUPTED :: string where "EVENT_TASK_INTERRUPTED \<equiv> ''chat.task.interrupted''"
abbreviation EVENT_TASK_APPROVAL_REQUESTED :: string
  where "EVENT_TASK_APPROVAL_REQUESTED \<equiv> ''chat.task.approval_requested''"
abbreviation EVENT_TASK_APPROVAL_RESOLVED :: string
  where "EVENT_TASK_APPROVAL_RESOLVED \<equiv> ''chat.task.approval_resolved''"
abbreviation EVENT_TASK_NOTE :: string where "EVENT_TASK_NOTE \<equiv> ''chat.task.note''"

section \<open>Shared steps\<close>

definition remote_call :: "(remote \<Rightarrow> remote_error + 'a \<times> remote) \<Rightarrow> 'a run" where
  "remote_call f = tx (\<lambda>db. bindE (map_err TaskFailed (f (w_tasks db))) (\<lambda>(x, r). Inr (x, db\<lparr>w_tasks := r\<rparr>)))"

definition require_bound_task :: "id \<Rightarrow> string run" where
  "require_bound_task k = look (\<lambda>db.
     case get_conv k db of
       None \<Rightarrow> Inl (BindingError ''conversation not found'')
     | Some c \<Rightarrow>
         if c_kind c \<noteq> CONVERSATION_KIND_TASK \<or> blank (c_task c)
         then Inl (BindingError ''not a task conversation'') else Inr (the (c_task c)))"

text \<open>
  What a call does to the conversation row besides its event: the owner, and the expected speaker
  (unchanged, cleared or set). The v2 state follows the event kind unless the call fixes it.
\<close>

datatype speaker_change = Keep | Clear | Expect string
datatype v2_target = Auto | Fixed "string option"

definition task_touched :: "instant \<Rightarrow> string option \<Rightarrow> speaker_change \<Rightarrow> conversation \<Rightarrow> conversation" where
  "task_touched now owner speaker c =
     c\<lparr>c_owner := (case owner of None \<Rightarrow> c_owner c | Some h \<Rightarrow> Some h),
       c_expected := (case speaker of Keep \<Rightarrow> c_expected c | Clear \<Rightarrow> None | Expect h \<Rightarrow> Some h),
       c_last_speech := Some now, c_speech_count := c_speech_count c + 1, c_updated := now\<rparr>"

definition target_state :: "v2_target \<Rightarrow> string \<Rightarrow> string option" where
  "target_state t event_kind = (case t of Auto \<Rightarrow> map_of EVENT_KIND_TO_TARGET_STATE event_kind | Fixed s \<Rightarrow> s)"

definition attach_evidence :: "lib \<Rightarrow> conversation \<Rightarrow> chat_message \<Rightarrow> obj \<Rightarrow> chat \<Rightarrow> chat_error + chat" where
  "attach_evidence L c m art db =
     (if art = [] then Inr db
      else bindE (map_err StoreFailed (attach_artifact (l_str L) (l_int L) (c_v2 c) (m_v2 m) art (w_v2 db)))
             (\<lambda>(r, v). Inr (db\<lparr>w_v2 := v\<rparr>)))"

definition move_state :: "instant \<Rightarrow> conversation \<Rightarrow> string option \<Rightarrow> chat \<Rightarrow> chat_error + chat" where
  "move_state now c target db =
     (case target of
        None \<Rightarrow> Inr db
      | Some t \<Rightarrow> bindE (map_err of_mirror (transition_state now (c_v2 c) t (w_v2 db))) (\<lambda>v. Inr (db\<lparr>w_v2 := v\<rparr>)))"

definition owner_tx ::
  "lib \<Rightarrow> instant \<Rightarrow> id \<Rightarrow> string \<Rightarrow> string \<Rightarrow> json \<Rightarrow> string option \<Rightarrow> speaker_change \<Rightarrow> obj \<Rightarrow> v2_target \<Rightarrow> chat
     \<Rightarrow> chat_error + chat_message option \<times> chat" where
  "owner_tx L now k actor event_kind payload owner speaker art target db =
     (case get_conv k db of
        None \<Rightarrow> Inr (None, db)
      | Some c \<Rightarrow>
          let c' = task_touched now owner speaker c
          in bindE (emit now c' actor event_kind None payload (set_conv k (\<lambda>_. c') db)) (\<lambda>(m, db1).
             bindE (attach_evidence L c' m art db1) (\<lambda>db2.
             bindE (move_state now c' (target_state target event_kind) db2) (\<lambda>db3. Inr (Some m, db3)))))"

definition update_owner_and_emit ::
  "lib \<Rightarrow> instant \<Rightarrow> id \<Rightarrow> string \<Rightarrow> string \<Rightarrow> json \<Rightarrow> string option \<Rightarrow> speaker_change \<Rightarrow> obj \<Rightarrow> v2_target \<Rightarrow> unit run" where
  "update_owner_and_emit L now k actor event_kind payload owner speaker art target =
     bindS (tx (owner_tx L now k actor event_kind payload owner speaker art target))
       (\<lambda>r. case r of None \<Rightarrow> doneS () | Some m \<Rightarrow> publish_message L now m)"

definition build_response :: "id \<Rightarrow> task_summary \<Rightarrow> (conversation \<times> task_summary) run" where
  "build_response k t = look (\<lambda>db. bindE (get_conversation k 1 [] None db) (\<lambda>(c, _). Inr (c, t)))"

definition count_task :: "string \<Rightarrow> unit run" where
  "count_task what = count (\<lambda>n. n\<lparr>k_task := count_up what (k_task n)\<rparr>)"

definition task_payload :: "task_summary \<Rightarrow> obj \<Rightarrow> json" where
  "task_payload t extra = JObj ([(''taskId'', JStr (x_id (ts_row t))), (''status'', JStr (x_status (ts_row t)))] @ extra)"

section \<open>The lifecycle calls\<close>

definition coord_claim :: "lib \<Rightarrow> wiring \<Rightarrow> instant \<Rightarrow> id \<Rightarrow> string \<Rightarrow> int \<Rightarrow> (conversation \<times> task_summary) run" where
  "coord_claim L W now k actor secs =
     bindS (check_capability W now actor CAP_TASK_CLAIM) (\<lambda>_.
     bindS (require_bound_task k) (\<lambda>t.
     bindS (count_task ''claimed'') (\<lambda>_.
     bindS (remote_call (claim_task now t actor secs)) (\<lambda>s.
     bindS (update_owner_and_emit L now k actor EVENT_TASK_CLAIMED
              (task_payload s [(''leaseExpiresAt'', jopt (\<lambda>a. jtime L (g_expires a)) (ts_assignment s))])
              (Some actor) (Expect actor) [] Auto) (\<lambda>_.
     build_response k s)))))"

definition coord_heartbeat ::
  "lib \<Rightarrow> instant \<Rightarrow> id \<Rightarrow> string \<Rightarrow> key \<Rightarrow> string \<Rightarrow> string option \<Rightarrow> int \<Rightarrow> int \<Rightarrow> int \<Rightarrow> int \<Rightarrow> int
     \<Rightarrow> (conversation \<times> task_summary) run" where
  "coord_heartbeat L now k actor token phase summary commands reads writes tests secs =
     bindS (require_bound_task k) (\<lambda>t.
     bindS (count_task ''heartbeat'') (\<lambda>_.
     bindS (remote_call (heartbeat_task now t actor token phase summary commands reads writes tests secs)) (\<lambda>s.
     bindS (update_owner_and_emit L now k actor EVENT_TASK_HEARTBEAT
              (task_payload s [(''phase'', JStr phase), (''summary'', jopt JStr summary),
                 (''metrics'', JObj [(''commandsRunCount'', JInt commands), (''filesReadCount'', JInt reads),
                    (''filesModifiedCount'', JInt writes), (''testsRunCount'', JInt tests)])])
              None Keep [] Auto) (\<lambda>_.
     build_response k s))))"

definition holds_assignment :: "string \<Rightarrow> key \<Rightarrow> task_summary \<Rightarrow> chat_error + unit" where
  "holds_assignment actor token s =
     (case ts_assignment s of
        None \<Rightarrow> Inl (BindingError ''no active assignment'')
      | Some a \<Rightarrow> if g_actor a \<noteq> actor \<or> g_token a \<noteq> token then Inl (BindingError ''actor or lease_token mismatch'')
                  else Inr ())"

definition coord_add_evidence ::
  "lib \<Rightarrow> instant \<Rightarrow> id \<Rightarrow> string \<Rightarrow> key \<Rightarrow> string \<Rightarrow> string \<Rightarrow> obj \<Rightarrow> (conversation \<times> task_summary) run" where
  "coord_add_evidence L now k actor token kind summary payload =
     bindS (require_bound_task k) (\<lambda>t.
     bindS (look (\<lambda>db. bindE (map_err TaskFailed (get_task t (w_tasks db))) (holds_assignment actor token))) (\<lambda>_.
     bindS (count_task ''evidence'') (\<lambda>_.
     bindS (remote_call (add_evidence now t actor kind summary payload)) (\<lambda>s.
     bindS (update_owner_and_emit L now k actor EVENT_TASK_EVIDENCE
              (task_payload s [(''evidenceKind'', JStr kind), (''summary'', JStr summary)])
              None Keep (case obj_get payload ''artifact'' of JObj a \<Rightarrow> a | _ \<Rightarrow> []) Auto) (\<lambda>_.
     build_response k s)))))"

definition evidence_count :: "id \<Rightarrow> chat \<Rightarrow> nat" where
  "evidence_count k db = length (filter (\<lambda>m. m_conv m = Some k \<and> m_kind m = EVENT_TASK_EVIDENCE) (w_messages db))"

definition coord_complete ::
  "lib \<Rightarrow> wiring \<Rightarrow> instant \<Rightarrow> id \<Rightarrow> string \<Rightarrow> key \<Rightarrow> string option \<Rightarrow> (conversation \<times> task_summary) run" where
  "coord_complete L W now k actor token summary =
     bindS (check_capability W now actor CAP_TASK_COMPLETE) (\<lambda>_.
     bindS (require_bound_task k) (\<lambda>t.
     bindS (look (\<lambda>db. if evidence_count k db = 0 then Inl (BindingError ''complete requires evidence'') else Inr ())) (\<lambda>_.
     bindS (count_task ''completed'') (\<lambda>_.
     bindS (remote_call (complete_task now t actor token summary)) (\<lambda>s.
     bindS (update_owner_and_emit L now k actor EVENT_TASK_COMPLETED (task_payload s [(''summary'', jopt JStr summary)])
              None Clear [] Auto) (\<lambda>_.
     bindS (close_conversation L W now k actor ''completed'' summary True) (\<lambda>_.
     build_response k s)))))))"

definition coord_fail ::
  "lib \<Rightarrow> wiring \<Rightarrow> instant \<Rightarrow> id \<Rightarrow> string \<Rightarrow> key \<Rightarrow> string \<Rightarrow> (conversation \<times> task_summary) run" where
  "coord_fail L W now k actor token error_text =
     bindS (check_capability W now actor CAP_TASK_FAIL) (\<lambda>_.
     bindS (require_bound_task k) (\<lambda>t.
     bindS (count_task ''failed'') (\<lambda>_.
     bindS (remote_call (fail_task now t actor token error_text)) (\<lambda>s.
     bindS (update_owner_and_emit L now k actor EVENT_TASK_FAILED (task_payload s [(''errorText'', JStr error_text)])
              None Clear [] Auto) (\<lambda>_.
     bindS (close_conversation L W now k actor ''failed'' (Some error_text) True) (\<lambda>_.
     build_response k s))))))"

definition coord_request_approval ::
  "lib \<Rightarrow> instant \<Rightarrow> string \<Rightarrow> id \<Rightarrow> string \<Rightarrow> key \<Rightarrow> string \<Rightarrow> string option \<Rightarrow> (conversation \<times> task_summary) run" where
  "coord_request_approval L now aid k actor token why note' =
     bindS (require_bound_task k) (\<lambda>t.
     bindS (remote_call (request_approval now aid t actor token why note')) (\<lambda>s.
     bindS (update_owner_and_emit L now k actor EVENT_TASK_APPROVAL_REQUESTED
              (task_payload s [(''reason'', JStr why), (''note'', jopt JStr note')]) None Keep [] Auto) (\<lambda>_.
     build_response k s)))"

definition coord_resolve_approval ::
  "lib \<Rightarrow> wiring \<Rightarrow> instant \<Rightarrow> id \<Rightarrow> string \<Rightarrow> string \<Rightarrow> string option \<Rightarrow> (conversation \<times> task_summary) run" where
  "coord_resolve_approval L W now k resolved_by resolution note' =
     bindS (if resolution = ''approved'' then check_capability W now resolved_by CAP_TASK_APPROVE_DESTRUCTIVE else doneS ()) (\<lambda>_.
     bindS (require_bound_task k) (\<lambda>t.
     bindS (remote_call (resolve_approval now t resolved_by resolution note')) (\<lambda>s.
     bindS (update_owner_and_emit L now k resolved_by EVENT_TASK_APPROVAL_RESOLVED
              (task_payload s [(''resolution'', JStr resolution), (''note'', jopt JStr note')]) None Keep []
              (Fixed (if resolution = ''approved'' then Some STATE_EXECUTING else None))) (\<lambda>_.
     bindS (if resolution = ''denied''
            then bindS (close_conversation L W now k resolved_by ''cancelled''
                   (Some (''approval denied: '' @ (if blank note' then ''(no note)'' else the note'))) True) (\<lambda>_. doneS ())
            else doneS ()) (\<lambda>_.
     build_response k s)))))"

definition coord_interrupt ::
  "lib \<Rightarrow> instant \<Rightarrow> id \<Rightarrow> string \<Rightarrow> key \<Rightarrow> string option \<Rightarrow> (conversation \<times> task_summary) run" where
  "coord_interrupt L now k actor token note' =
     bindS (require_bound_task k) (\<lambda>t.
     bindS (remote_call (interrupt_task now t actor token note')) (\<lambda>s.
     bindS (update_owner_and_emit L now k actor EVENT_TASK_INTERRUPTED (task_payload s [(''note'', jopt JStr note')])
              None Keep [] Auto) (\<lambda>_.
     build_response k s)))"

definition coord_add_note :: "lib \<Rightarrow> instant \<Rightarrow> id \<Rightarrow> string \<Rightarrow> string \<Rightarrow> string \<Rightarrow> (conversation \<times> task_note) run" where
  "coord_add_note L now k actor kind content =
     bindS (require_bound_task k) (\<lambda>t.
     bindS (remote_call (add_note now t actor kind content)) (\<lambda>n.
     bindS (update_owner_and_emit L now k actor EVENT_TASK_NOTE
              (JObj [(''taskId'', JStr t), (''noteKind'', JStr kind), (''content'', JStr content)]) None Keep [] Auto) (\<lambda>_.
     look (\<lambda>db. bindE (get_conversation k 1 [] None db) (\<lambda>(c, _). Inr (c, n))))))"

section \<open>The dual write stays coherent\<close>

lemma attach_evidence_ok:
  assumes "chat_ok db" "attach_evidence L c m art db = Inr db'"
  shows "chat_ok db' \<and> w_convs db' = w_convs db \<and> w_messages db' = w_messages db"
proof (cases "art = []")
  case False
  then obtain r v where v: "attach_artifact (l_str L) (l_int L) (c_v2 c) (m_v2 m) art (w_v2 db) = Inr (r, v)"
    and db': "db' = db\<lparr>w_v2 := v\<rparr>"
    using assms(2) by (auto simp: attach_evidence_def bindE_Inr_iff)
  have a: "db_ok v \<and> operations v = operations (w_v2 db) \<and> events v = events (w_v2 db)"
    by (rule attach_artifact_Inr [OF v chat_okD(1) [OF assms(1)]])
  then have l: "lifecycle_ok v" using chat_okD(2) [OF assms(1)] by (simp add: lifecycle_ok_def)
  have "chat_ok (db\<lparr>w_v2 := v\<rparr>)" using a l by (intro chat_ok_v2 [OF assms(1)] quiet_same) simp_all
  then show ?thesis by (simp add: db')
qed (use assms in \<open>simp add: attach_evidence_def\<close>)

text \<open>A move of the v2 state never enters or leaves \<open>closed\<close>, so it agrees with the row.\<close>

lemma move_state_ok:
  assumes ok: "chat_ok db" and get: "get_conv (c_id c) db = Some c" and run: "move_state now c t db = Inr db'"
  shows "chat_ok db' \<and> w_convs db' = w_convs db \<and> w_messages db' = w_messages db"
proof (cases "t = None \<or> c_v2 c = None")
  case True
  then show ?thesis
    using ok run by (auto simp: move_state_def transition_state_def bindE_Inr_iff split: option.splits)
next
  case False
  then obtain s k v where k: "t = Some s" "c_v2 c = Some k" and v: "transition_state now (Some k) s (w_v2 db) = Inr v"
    and db': "db' = db\<lparr>w_v2 := v\<rparr>"
    using run by (auto simp: move_state_def bindE_Inr_iff)
  have c: "c \<in> set (w_convs db)" using get row_get_SomeD by fast
  have own: "agrees c (view k (w_v2 db)) \<and> list_all2 copied (conv_log (c_id c) db) (op_events k (w_v2 db))"
    using chat_okD(7) [OF ok c] k by (simp add: mirrored_def)
  then obtain s0 where s0: "view k (w_v2 db) = Some (c_kind c, s0, c_resolution c)" by (auto simp: agrees_def)
  note t = transition_view [OF v s0]
  have eff: "db_ok v" "lifecycle_ok v"
    using transition_state_ok [OF chat_okD(1) [OF ok] v] transition_state_lifecycle [OF chat_okD(1,2) [OF ok] v] by auto
  have "chat_ok db'"
  proof (rule chat_ok_replace [OF ok get, of "\<lambda>x. x" c])
    show "mirrored db' c"
      using own t s0 k by (auto simp: mirrored_def agrees_def db' conv_log_def op_events_def)
    fix x j assume x: "x \<in> set (w_convs db)" "c_id x \<noteq> c_id c" "c_v2 x = Some j"
    then have "c_v2 c \<noteq> Some j" using chat_okD(6) [OF ok x(1) c x(3)] by blast
    with t k show "view j (w_v2 db') = view j (w_v2 db) \<and> op_events j (w_v2 db') = op_events j (w_v2 db) \<and> c_v2 c \<noteq> Some j"
      by (auto simp: db' op_events_def)
  qed (use eff chat_okD(4) [OF ok] in \<open>auto simp: db' conv_log_def row_upd_def\<close>)
  then show ?thesis by (simp add: db')
qed

definition bound_task :: "id \<Rightarrow> chat \<Rightarrow> bool" where
  "bound_task k db \<longleftrightarrow> (\<exists>c. get_conv k db = Some c \<and> c_kind c = CONVERSATION_KIND_TASK \<and> \<not> blank (c_task c))"

lemma owner_tx_ok:
  assumes ok: "chat_ok db" and bound: "bound_task k db"
    and run: "owner_tx L now k actor kd payload owner speaker art target db = Inr (r, db')"
  shows "chat_ok db' \<and> moves W db db' \<and> bound_task k db' \<and> (\<forall>c. get_conv k db = Some c \<longrightarrow>
     get_conv k db' = Some (task_touched now owner speaker c)
     \<and> (\<exists>m. r = Some m \<and> m_kind m = kd \<and> m_conv m = Some k \<and> m_body m = Dumped payload \<and> w_messages db' = w_messages db @ [m]))"
proof -
  obtain c where Some: "get_conv k db = Some c" and task: "c_kind c = CONVERSATION_KIND_TASK" "\<not> blank (c_task c)"
    using bound by (auto simp: bound_task_def)
  let ?c = "task_touched now owner speaker c"
  obtain m db1 db2 where em: "emit now ?c actor kd None payload (set_conv k (\<lambda>_. ?c) db) = Inr (m, db1)"
    and at: "attach_evidence L ?c m art db1 = Inr db2" and mv: "move_state now ?c (target_state target kd) db2 = Inr db'"
    and r: "r = Some m"
    using run Some by (auto simp: owner_tx_def bindE_Inr_iff Let_def)
  have k: "c_id c = k" using Some by (rule get_conv_id)
  have core: "same_lifecycle c ?c" by (simp add: task_touched_def same_lifecycle_def)
  have id: "c_id ?c = k" using k by (simp add: task_touched_def)
  have ok0: "chat_ok (set_conv k (\<lambda>_. ?c) db)" using chat_ok_set [OF ok, of c "\<lambda>_. ?c"] Some core k by simp
  have gets: "get_conv j (set_conv k (\<lambda>_. ?c) db) = (if j = k then Some ?c else get_conv j db)" for j
    using get_set_conv [of k "\<lambda>_. ?c" j db] Some id by simp
  have get0: "get_conv (c_id ?c) (set_conv k (\<lambda>_. ?c) db) = Some ?c" using gets id by simp
  note e = emit_ok [OF ok0 get0 refl em]
  note a = attach_evidence_ok [OF conjunct1 [OF e] at]
  have "get_conv (c_id ?c) db2 = Some ?c" using get0 e a by simp
  note v = move_state_ok [OF conjunct1 [OF a] this mv]
  have "conv_step W c ?c" unfolding task_touched_def by (rule touch [OF task])
  then have "moves W db db'" using v a e gets Some by (intro moves_one [of k db c _ ?c]) auto
  moreover have "bound_task k db'" using v a e gets task by (simp add: bound_task_def task_touched_def)
  ultimately show ?thesis using v a e gets r Some id by simp
qed

text \<open>Once the binding is checked, the steps of a call keep it.\<close>

definition bound_advances :: "wiring \<Rightarrow> chat \<Rightarrow> id \<Rightarrow> chat \<Rightarrow> bool" where
  "bound_advances W old k db \<longleftrightarrow> advances W old db \<and> bound_task k db"

lemma bound_frame [simp]: "bound_advances W old k (db\<lparr>w_tasks := r\<rparr>) = bound_advances W old k db"
  by (simp add: bound_advances_def bound_task_def)

abbreviation coord_triple :: "wiring \<Rightarrow> chat \<Rightarrow> id \<Rightarrow> 'a run \<Rightarrow> bool" where
  "coord_triple W old k m \<equiv> triple (advances W old) (bound_advances W old k) m (\<lambda>_. advances W old)"

lemma coord_bind:
  assumes "triple (advances W old) (bound_advances W old k) m (\<lambda>_. bound_advances W old k)"
    "\<And>x. coord_triple W old k (f x)"
  shows "coord_triple W old k (bindS m f)"
  by (rule triple_bind [OF assms])

lemma coord_loose: "triple (advances W old) (advances W old) m (\<lambda>_. advances W old) \<Longrightarrow> coord_triple W old k m"
  by (erule triple_weaken) (simp_all add: bound_advances_def)

lemma coord_start:
  assumes "\<And>t. coord_triple W old k (f t)"
  shows "triple (advances W old) (advances W old) (bindS (require_bound_task k) f) (\<lambda>_. advances W old)"
proof (rule triple_bind [where Q = "\<lambda>_. bound_advances W old k"])
  show "triple (advances W old) (advances W old) (require_bound_task k) (\<lambda>_. bound_advances W old k)"
    unfolding require_bound_task_def
    by (rule triple_look) (auto simp: bound_advances_def bound_task_def split: option.splits if_splits)
qed (rule assms)

lemma coord_remote: "(\<And>x. coord_triple W old k (f x)) \<Longrightarrow> coord_triple W old k (bindS (remote_call g) f)"
  by (rule coord_bind) (auto simp: remote_call_def bindE_Inr_iff bound_advances_def bound_task_def intro!: triple_tx)

lemma coord_count: "(\<And>x. coord_triple W old k (f x)) \<Longrightarrow> coord_triple W old k (bindS (count_task w) f)"
  by (rule coord_bind) (auto simp: count_task_def intro!: triple_count)

lemma coord_look:
  "(\<And>x. coord_triple W old k (f x)) \<Longrightarrow> coord_triple W old k (bindS (look g) f)"
  "coord_triple W old k (look g)" "coord_triple W old k (build_response k s)"
  by (rule coord_bind) (auto simp: build_response_def bound_advances_def intro!: triple_look)

lemma coord_owner:
  assumes "\<And>x. coord_triple W old k (f x)"
  shows "coord_triple W old k (bindS (update_owner_and_emit L now k actor kd payload owner speaker art target) f)"
proof (rule coord_bind [OF _ assms])
  have step: "bound_advances W old k db'" if "bound_advances W old k db"
    "owner_tx L now k actor kd payload owner speaker art target db = Inr (r, db')" for db r db'
    using owner_tx_ok [of db k L now actor kd payload owner speaker art target r db' W] that
    by (auto simp: bound_advances_def intro: advances_step)
  show "triple (advances W old) (bound_advances W old k)
      (update_owner_and_emit L now k actor kd payload owner speaker art target) (\<lambda>_. bound_advances W old k)"
    unfolding update_owner_and_emit_def
    by (rule triple_bind [where Q = "\<lambda>_. bound_advances W old k"])
       (auto intro!: triple_tx triple_done triple_publish intro: step simp: bound_advances_def split: option.splits)
qed

lemma coord_finish:
  assumes "wiring_ok W"
  shows "coord_triple W old k (bindS (close_conversation L W now j who res sm bypass) (\<lambda>_. build_response k s))"
    "coord_triple W old k (bindS (if b then bindS (close_conversation L W now j who res sm bypass) (\<lambda>_. doneS ()) else doneS ())
       (\<lambda>_. build_response k s))"
  by (auto simp: build_response_def intro!: coord_loose triple_unit_bind [OF close_keeps [OF assms]] triple_unit_bind
      triple_if triple_done triple_look)

lemmas coord_steps = coord_start coord_remote coord_count coord_owner coord_look coord_finish

lemma coord_calls_ok:
  assumes W: "wiring_ok W"
  shows "triple (advances W old) (advances W old) (coord_claim L W now k actor secs) (\<lambda>_. advances W old)"
    "triple (advances W old) (advances W old) (coord_heartbeat L now k actor token ph sm nc nr nw nt secs) (\<lambda>_. advances W old)"
    "triple (advances W old) (advances W old) (coord_add_evidence L now k actor token kd es payload) (\<lambda>_. advances W old)"
    "triple (advances W old) (advances W old) (coord_complete L W now k actor token sm) (\<lambda>_. advances W old)"
    "triple (advances W old) (advances W old) (coord_fail L W now k actor token err) (\<lambda>_. advances W old)"
    "triple (advances W old) (advances W old) (coord_request_approval L now aid k actor token why nt') (\<lambda>_. advances W old)"
    "triple (advances W old) (advances W old) (coord_resolve_approval L W now k actor res nt') (\<lambda>_. advances W old)"
    "triple (advances W old) (advances W old) (coord_interrupt L now k actor token nt') (\<lambda>_. advances W old)"
    "triple (advances W old) (advances W old) (coord_add_note L now k actor kd content) (\<lambda>_. advances W old)"
  unfolding coord_claim_def coord_heartbeat_def coord_add_evidence_def coord_complete_def coord_fail_def
    coord_request_approval_def coord_resolve_approval_def coord_interrupt_def coord_add_note_def
  by (intro triple_unit_bind [OF capability_step [OF W]] triple_unit_bind [OF triple_if, OF capability_step [OF W] triple_done]
      coord_steps W | assumption)+

end
