(* ===== verification/Collab.thy ===== *)
theory Collab
  imports TaskCoordinator
begin

text \<open>
  The chat services as one transition system: a step is a whole call of \<open>ChatConversationService\<close>,
  \<open>ChatBehaviorService\<close> or \<open>ChatTaskCoordinator\<close>, whether it returns or raises, or a step of the
  other users of the store. What holds of every reachable state.
\<close>

section \<open>Calls\<close>

definition with_db :: "(chat \<Rightarrow> chat) \<Rightarrow> service \<Rightarrow> service" where
  "with_db f s = s\<lparr>s_db := f (s_db s)\<rparr>"

inductive chat_call :: "lib \<Rightarrow> wiring \<Rightarrow> service \<Rightarrow> service \<Rightarrow> bool" for L W where
  room: "chat_call L W s (snd (create_chat_thread now d g ch t tp who s))"
| register: "chat_call L W s (snd (register_participant now d a k s))"
| heartbeat: "chat_call L W s (snd (heartbeat_participant now d a s))"
| poll: "chat_call L W s (snd (get_thread_delta now d a after limit mark s))"
| submit: "chat_call L W s (snd (submit_participant_message L clean now d a content k s))"
| posted: "chat_call L W s (snd (record_message L clean now d a content s))"
| general: "chat_call L W s (snd (ensure_general L now d s))"
| general_id: "chat_call L W s (snd (ensure_general_for_thread_id L now k s))"
| opens: "chat_call L W s (snd (open_conversation L W now tk d q s))"
| speech: "chat_call L W s (snd (submit_speech L W clean now k r s))"
| handover: "chat_call L W s (snd (transfer_owner L W now k who new_owner why s))"
| closing: "chat_call L W s (snd (close_conversation L W now k who res sm bypass s))"
| bulk: "chat_call L W s (snd (bulk_close_conversations L W now ks who res sm bypass s))"
| sweep: "chat_call L W s (snd (sweep_idle_conversations L W now d secs s))"
| read: "chat_call L W s (snd (mark_conversation_read W k actor sp s))"
| system: "chat_call L W s (snd (emit_system_event L now k kd to re payload s))"
| claim: "chat_call L W s (snd (coord_claim L W now k actor secs s))"
| beat: "chat_call L W s (snd (coord_heartbeat L now k actor token ph sm nc nr nw nt secs s))"
| evidence: "chat_call L W s (snd (coord_add_evidence L now k actor token kd es payload s))"
| complete: "chat_call L W s (snd (coord_complete L W now k actor token sm s))"
| fail: "chat_call L W s (snd (coord_fail L W now k actor token err s))"
| ask: "chat_call L W s (snd (coord_request_approval L now aid k actor token why nt' s))"
| answer: "chat_call L W s (snd (coord_resolve_approval L W now k actor res nt' s))"
| interrupt: "chat_call L W s (snd (coord_interrupt L now k actor token nt' s))"
| note': "chat_call L W s (snd (coord_add_note L now k actor kd content s))"
| tasks: "chat_call L W s (with_db (w_tasks_update (\<lambda>_. r)) s)"
| intent: "chat_call L W s (with_db (w_v2_update (patch_intent k text)) s)"
| protocol: "v2_step (w_v2 (s_db s)) v \<Longrightarrow> quiet (w_v2 (s_db s)) v \<Longrightarrow> chat_call L W s (with_db (w_v2_update (\<lambda>_. v)) s)"

text \<open>
  The last three are the rest of the program: the task service's other clients may do anything to the
  tasks, the HTTP layer adds the intent to a ratification, and the protocol API provisions actors,
  tokens, policies and cursors between the calls.
\<close>

definition empty_service :: service where
  "empty_service =
     \<lparr>s_db = \<lparr>w_threads = [], w_members = [], w_states = [], w_convs = [], w_messages = [], w_reads = [],
               w_v2 = empty_db, w_tasks = no_remote, w_next = 1\<rparr>,
      s_broker = new_broker,
      s_metrics = \<lparr>k_opened = 0, k_closed = [], k_warned = [], k_handoffs = 0, k_speech = [], k_task = []\<rparr>\<rparr>"

abbreviation chat_calls :: "lib \<Rightarrow> wiring \<Rightarrow> service \<Rightarrow> service \<Rightarrow> bool" where
  "chat_calls L W \<equiv> (chat_call L W)\<^sup>*\<^sup>*"

lemma empty_service_ok: "chat_ok (s_db empty_service)"
  using db_ok_empty by (simp add: empty_service_def chat_ok_def links_ok_def lifecycle_ok_def empty_db_def fresh_keys_def)

lemma chat_call_advances:
  assumes W: "wiring_ok W" and call: "chat_call L W s s'" and ok: "chat_ok (s_db s)"
  shows "advances W (s_db s) (s_db s')"
proof -
  have start: "advances W (s_db s) (s_db s)" using ok by (simp add: advances_def)
  have run: "advances W (s_db s) (s_db (snd (m s)))"
    if "\<And>old. triple (advances W old) (advances W old) m (\<lambda>_. advances W old)" for m :: "'a run"
    using triple_keep [OF that start] .
  have patch: "advances W (s_db s) (s_db (with_db (w_v2_update (patch_intent k t)) s))" for k t
  proof -
    have "chat_ok (w_v2_update (patch_intent k t) (s_db s))"
      using chat_ok_intent [OF ok, of k t] by (cases "s_db s") simp
    from advances_same [OF start this] show ?thesis by (simp add: with_db_def)
  qed
  from call start show ?thesis
  proof cases
    case (protocol v)
    have "chat_ok (s_db s\<lparr>w_v2 := v\<rparr>)"
      using protocol v2_step_inv chat_okD(1,2) [OF ok] by (intro chat_ok_v2 [OF ok]) blast+
    with start protocol(1) show ?thesis by (auto simp: with_db_def intro: advances_same)
  qed (simp_all only: patch run participants_ok submit_message_ok record_message_ok create_chat_thread_ok ensure_general_ok
      open_keeps [OF W] submit_speech_ok [OF W] transfer_owner_ok [OF W] close_keeps [OF W] bulk_close_ok [OF W]
      sweep_idle_ok [OF W] mark_read_ok emit_system_ok coord_calls_ok [OF W], simp add: with_db_def)
qed

lemma reach_inv:
  assumes W: "wiring_ok W" and run: "chat_calls L W s s'" and ok: "chat_ok (s_db s)"
  shows "advances W (s_db s) (s_db s')"
  using run
proof (induction rule: rtranclp_induct)
  case base
  show ?case using ok by (simp add: advances_def)
next
  case (step t u)
  then have "advances W (s_db t) (s_db u)" using chat_call_advances [OF W step.hyps(2)] by simp
  with step.IH show ?case by (simp add: advances_def) (blast intro: moves_trans)
qed

lemma reach_ok: "wiring_ok W \<Longrightarrow> chat_calls L W empty_service s \<Longrightarrow> chat_ok (s_db s)"
  using reach_inv [OF _ _ empty_service_ok] advances_ok by blast

lemma reach_typed:
  assumes "wiring_ok W" "chat_calls L W empty_service s" "c \<in> set (w_convs (s_db s))"
  shows "row_typed c"
proof -
  have ok: "chat_ok (s_db s)" and mv: "moves W (s_db empty_service) (s_db s)"
    using reach_inv [OF assms(1,2) empty_service_ok] by (simp_all add: advances_def)
  have "get_conv (c_id c) (s_db s) = Some c" using assms(3) by (simp add: get_conv_iff [OF ok])
  moreover have "get_conv (c_id c) (s_db empty_service) = None" by (simp add: empty_service_def)
  ultimately obtain c0 where "born c0" "conv_steps W c0 c" using mv unfolding moves_def by blast
  then show ?thesis using born_typed steps_typed by blast
qed

text \<open>The mirror: every conversation's row and history are those of its operation.\<close>

definition coherent :: "conversation \<Rightarrow> chat \<Rightarrow> bool" where
  "coherent c db \<longleftrightarrow>
     (case c_v2 c of
        None \<Rightarrow> True
      | Some k \<Rightarrow> agrees c (view k (w_v2 db)) \<and> list_all2 copied (conv_log (c_id c) db) (op_events k (w_v2 db)))"

section \<open>A sample run\<close>

text \<open>A room, a conversation in it, one speech, the close; the capabilities are the production ones.\<close>

definition sample_lib :: lib where
  "sample_lib = \<lparr>l_uid = dec, l_iso = (\<lambda>t. dec (nat t)), l_dumps = (\<lambda>_. ''{}''), l_sorted = (\<lambda>_. ''{}''), l_b64 = id,
     l_sha256 = id, l_str = (\<lambda>_. []), l_int = (\<lambda>_. None)\<rparr>"

definition sample_wiring :: wiring where
  "sample_wiring = \<lparr>f_actor_auth = None, f_cap_auth = Some (authorize True), f_tasks = True, f_digest = True,
     f_policy = default_chat_policy\<rparr>"

definition sample_open :: open_request where
  "sample_open = \<lparr>q_kind = ''inquiry'', q_title = ''why'', q_opener = ''ann'', q_intent = None, q_owner = None, q_to = Some ''bob'',
     q_parent = None, q_objective = None, q_criteria = [], q_priority = ''normal'', q_policy = JNull\<rparr>"

definition sample_speech :: speech_request where
  "sample_speech = \<lparr>z_actor = ''bob'', z_actor_kind = ''ai'', z_kind = ''claim'', z_content = ''because'', z_to = None, z_many = [],
     z_reply = None, z_reply_v2 = None, z_private = [], z_expected = JNull\<rparr>"

definition sample_room :: service where
  "sample_room = snd (create_chat_thread 0 ''d'' ''g'' ''c'' ''room'' None ''ann'' empty_service)"
definition sample_opened :: service where
  "sample_opened = snd (open_conversation sample_lib sample_wiring 1 ''t'' ''d'' sample_open sample_room)"
definition sample_spoken :: service where
  "sample_spoken = snd (submit_speech sample_lib sample_wiring id 2 3 sample_speech sample_opened)"
definition sample_closed :: service where
  "sample_closed = snd (close_conversation sample_lib sample_wiring 3 3 ''ann'' ''answered'' None False sample_spoken)"

lemma sample_wiring_ok: "wiring_ok sample_wiring"
  by (rule production_wiring [of _ True]) (simp add: sample_wiring_def)

lemma sample_calls_spoken: "chat_calls sample_lib sample_wiring empty_service sample_spoken"
proof -
  have 1: "chat_call sample_lib sample_wiring empty_service sample_room" unfolding sample_room_def by (rule chat_call.room)
  have 2: "chat_call sample_lib sample_wiring sample_room sample_opened" unfolding sample_opened_def by (rule chat_call.opens)
  have 3: "chat_call sample_lib sample_wiring sample_opened sample_spoken" unfolding sample_spoken_def by (rule chat_call.speech)
  note step = converse_rtranclp_into_rtranclp [where r = "chat_call sample_lib sample_wiring"]
  show ?thesis by (rule step [OF 1], rule step [OF 2], rule step [OF 3], rule rtranclp.rtrancl_refl)
qed

lemma sample_calls: "chat_calls sample_lib sample_wiring empty_service sample_closed"
proof -
  have "chat_call sample_lib sample_wiring sample_spoken sample_closed" unfolding sample_closed_def by (rule chat_call.closing)
  with sample_calls_spoken show ?thesis by (rule rtranclp.rtrancl_into_rtrancl)
qed

lemma sample_row:
  "map_option (\<lambda>c. (c_state c, c_v2 c, c_resolution c)) (get_conv 3 (s_db sample_closed))
     = Some (CONVERSATION_STATE_CLOSED, Some 1, Some ''answered'')"
  by code_simp

lemma sample_conv:
  obtains c where "get_conv 3 (s_db sample_closed) = Some c" "c \<in> set (w_convs (s_db sample_closed))"
    "c_state c = CONVERSATION_STATE_CLOSED" "c_v2 c = Some 1" "c_resolution c = Some ''answered''"
  using sample_row row_get_SomeD [of c_id 3 "w_convs (s_db sample_closed)"] by auto

section \<open>Properties\<close>

text \<open>C4: The dual write is coherent in every state the chat services reach, whatever raised on the way:
  a mirrored conversation and its v2 operation have the same kind and resolution and are closed
  together, and the operation's log is, one for one and in order, the copy of the conversation's
  messages (same kind, same text, linked by the event's key).\<close>

theorem dual_write_coherent:
  assumes "wiring_ok W" "chat_calls L W empty_service s" "c \<in> set (w_convs (s_db s))"
  shows "coherent c (s_db s)"
  using chat_okD(7) [OF reach_ok [OF assms(1,2)] assms(3)] by (simp add: coherent_def mirrored_def split: option.splits)

theorem dual_write_coherent_witness:
  "\<exists>c. c_v2 c = Some 1 \<and> c_state c = CONVERSATION_STATE_CLOSED \<and> coherent c (s_db sample_closed)"
  using sample_conv dual_write_coherent [OF sample_wiring_ok sample_calls] by metis

text \<open>C27: Conversation rows are well typed in every reachable state: open or closed; closed exactly when
  resolution, closer and closing time are recorded; the general conversation never closes; the idle
  level is 0, 1 or 2 while the conversation is open and never above 3; the gauge and the speech count
  are never negative, and a last speech exists exactly when something was said.\<close>

theorem conversation_typed:
  assumes "wiring_ok W" "chat_calls L W empty_service s" "c \<in> set (w_convs (s_db s))"
  shows "row_typed c"
  using assms by (rule reach_typed)

theorem conversation_typed_witness:
  "\<exists>c. c_state c = CONVERSATION_STATE_CLOSED \<and> row_typed c"
  using sample_conv conversation_typed [OF sample_wiring_ok sample_calls] by metis

text \<open>C28: A closed conversation is final and nothing said is lost: from a reachable state on, whatever the
  services do, the conversation stays closed with its resolution, summary, closer and time, keeps its
  identity (room, kind, title, opener, task, operation), and the messages are only appended to.\<close>

theorem closed_conversation_final:
  assumes "wiring_ok W" "chat_calls L W empty_service s" "chat_calls L W s s'"
    and "get_conv k (s_db s) = Some c" "c_state c = CONVERSATION_STATE_CLOSED"
  shows "\<exists>c'. get_conv k (s_db s') = Some c' \<and> same_outcome c c' \<and> same_identity c c'
    \<and> prefix (w_messages (s_db s)) (w_messages (s_db s'))"
proof -
  have mv: "moves W (s_db s) (s_db s')"
    using reach_inv [OF assms(1,3) reach_ok [OF assms(1,2)]] by (simp add: advances_def)
  then obtain c' where "get_conv k (s_db s') = Some c'" "conv_steps W c c'" using assms(4) unfolding moves_def by blast
  moreover have "prefix (w_messages (s_db s)) (w_messages (s_db s'))" using mv by (simp add: moves_def)
  ultimately show ?thesis using steps_outcome steps_identity assms(5) by blast
qed

theorem closed_conversation_final_witness:
  "\<exists>c'. get_conv 3 (s_db (snd (sweep_idle_conversations sample_lib sample_wiring 9 ''d'' 1 sample_closed))) = Some c'
     \<and> c_resolution c' = Some ''answered''"
proof -
  obtain c where c: "get_conv 3 (s_db sample_closed) = Some c" "c_state c = CONVERSATION_STATE_CLOSED" "c_resolution c = Some ''answered''"
    by (rule sample_conv)
  have "chat_calls sample_lib sample_wiring sample_closed
      (snd (sweep_idle_conversations sample_lib sample_wiring 9 ''d'' 1 sample_closed))" by (intro r_into_rtranclp chat_call.sweep)
  from closed_conversation_final [OF sample_wiring_ok sample_calls this c(1,2)] c(3) show ?thesis by (auto simp: same_outcome_def)
qed

end
