(* ===== verification/Idle.thy ===== *)
theory Idle
  imports Collab
begin

text \<open>
  What one idle sweep of a room does (\<open>sweep_idle_conversations\<close>): how many warnings each conversation
  gets and at which level it is left.
\<close>

definition warned :: "id \<Rightarrow> chat \<Rightarrow> nat" where
  "warned k db = length (filter (\<lambda>m. m_conv m = Some k \<and> m_kind m = EVENT_CONVERSATION_IDLE_WARNING) (w_messages db))"

text \<open>The level a sweep leads to, at most 2: level 3 is a close.\<close>

definition due :: "wiring \<Rightarrow> int \<Rightarrow> instant \<Rightarrow> conversation \<Rightarrow> int" where
  "due W th now c = int (min (target_tier (f_policy W) th (now - last_active c)) 2)"

lemma warned_append: "w_messages db' = w_messages db @ new \<Longrightarrow>
    (\<forall>m \<in> set new. m_kind m = EVENT_CONVERSATION_IDLE_WARNING \<and> m_conv m = Some j) \<Longrightarrow>
    warned k db' = warned k db + (if k = j then length new else 0)"
proof -
  assume a: "w_messages db' = w_messages db @ new"
    "\<forall>m \<in> set new. m_kind m = EVENT_CONVERSATION_IDLE_WARNING \<and> m_conv m = Some j"
  have "length (filter (\<lambda>m. m_conv m = Some k \<and> m_kind m = EVENT_CONVERSATION_IDLE_WARNING) new) = (if k = j then length new else 0)"
    using a(2) by (induction new) auto
  with a(1) show ?thesis by (simp add: warned_def)
qed

lemma sweep_row_exact:
  assumes run: "sweep_row L W now th c (x, db) = Inr (x', db')" and ok: "chat_ok db" and get: "get_conv (c_id c) db = Some c"
    and may: "\<not> c_general c" "c_state c \<noteq> CONVERSATION_STATE_CLOSED" and lvl: "0 \<le> c_warnings c"
  shows "(\<exists>c'. get_conv (c_id c) db' = Some c' \<and> c_warnings c' = max (c_warnings c) (due W th now c))
    \<and> (\<forall>k. warned k db' = warned k db + (if k = c_id c then nat (due W th now c - c_warnings c) else 0))"
proof (cases "int (target_tier (f_policy W) th (now - last_active c)) \<le> c_warnings c")
  case True
  with run get show ?thesis by (auto simp: sweep_row_def due_def)
next
  case False
  let ?target = "target_tier (f_policy W) th (now - last_active c)"
  let ?ts = "[nat (c_warnings c + 1)..<Suc (min ?target 2)]"
  obtain c1 ms db1 where 1: "foldE (warn L now th) ?ts (c, [], db) = Inr (c1, ms, db1)"
    and db': "db' = set_conv (c_id c) (\<lambda>_. c1\<lparr>c_updated := now\<rparr>) db1"
    using run False by (auto simp: sweep_row_def Let_def bindE_Inr_iff simp del: upt_Suc)
  have "\<forall>t \<in> set ?ts. c_warnings c < int t \<and> t \<le> 2" by auto
  note w = warn_all_ok [OF 1 ok get may sorted_wrt_upt this, of W]
  have id1: "c_id c1 = c_id c" using w by (simp add: same_lifecycle_def)
  have gets: "get_conv (c_id c) db' = Some (c1\<lparr>c_updated := now\<rparr>)"
    using get_set_conv [of "c_id c" "\<lambda>_. c1\<lparr>c_updated := now\<rparr>" "c_id c" db1] w id1 by (simp add: db')
  have lev: "c_warnings c1 = max (c_warnings c) (due W th now c)"
  proof (cases "?ts = []")
    case True
    then have "Suc (min ?target 2) \<le> nat (c_warnings c + 1)" by (simp del: upt_Suc)
    then have "due W th now c \<le> c_warnings c" using lvl unfolding due_def by linarith
    with True w show ?thesis by simp
  next
    case False
    then have lt: "nat (c_warnings c + 1) < Suc (min ?target 2)" by (simp del: upt_Suc)
    then have "last ?ts = min ?target 2" by (subst upt_Suc) auto
    moreover have "c_warnings c < due W th now c" using lt lvl unfolding due_def by linarith
    ultimately have "last ?ts = min ?target 2" "c_warnings c < due W th now c" by simp_all
    with False w show ?thesis by (simp add: due_def del: upt_Suc)
  qed
  obtain new where new: "w_messages db1 = w_messages db @ new" "length new = length ?ts"
      "\<forall>m \<in> set new. m_kind m = EVENT_CONVERSATION_IDLE_WARNING \<and> m_conv m = Some (c_id c)"
    using w by blast
  have "length ?ts = Suc (min ?target 2) - nat (c_warnings c + 1)" by (simp del: upt_Suc)
  also have "\<dots> = nat (due W th now c - c_warnings c)" using lvl unfolding due_def by linarith
  finally have len: "length ?ts = nat (due W th now c - c_warnings c)" .
  then have "warned k db' = warned k db + (if k = c_id c then nat (due W th now c - c_warnings c) else 0)" for k
    using warned_append [of db' db new "c_id c" k] new len by (simp add: db' del: upt_Suc)
  with gets lev show ?thesis by simp
qed

lemma sweep_rows_exact:
  assumes "foldE (sweep_row L W now th) cs (x, db) = Inr (x', db')" "chat_ok db" "distinct (map c_id cs)"
    "\<forall>c \<in> set cs. get_conv (c_id c) db = Some c \<and> \<not> c_general c \<and> c_state c \<noteq> CONVERSATION_STATE_CLOSED \<and> 0 \<le> c_warnings c"
  shows "(\<forall>c \<in> set cs. (\<exists>c'. get_conv (c_id c) db' = Some c' \<and> c_warnings c' = max (c_warnings c) (due W th now c))
             \<and> warned (c_id c) db' = warned (c_id c) db + nat (due W th now c - c_warnings c))
    \<and> (\<forall>k. k \<notin> c_id ` set cs \<longrightarrow> get_conv k db' = get_conv k db \<and> warned k db' = warned k db)"
  using assms
proof (induction cs arbitrary: x db)
  case (Cons c cs)
  obtain x1 db1 where 1: "sweep_row L W now th c (x, db) = Inr (x1, db1)"
    and 2: "foldE (sweep_row L W now th) cs (x1, db1) = Inr (x', db')"
    using Cons.prems(1) by (auto simp: bindE_Inr_iff)
  have c: "get_conv (c_id c) db = Some c" "\<not> c_general c" "c_state c \<noteq> CONVERSATION_STATE_CLOSED" "0 \<le> c_warnings c"
    using Cons.prems(4) by simp_all
  note r = sweep_row_ok [OF 1 Cons.prems(2) c(1-3)]
  note e = sweep_row_exact [OF 1 Cons.prems(2) c]
  have ids: "c_id c \<notin> c_id ` set cs" using Cons.prems(3) by simp
  have same: "get_conv j db1 = get_conv j db" "warned j db1 = warned j db" if "j \<noteq> c_id c" for j using r e that by auto
  have "\<forall>y \<in> set cs. get_conv (c_id y) db1 = Some y \<and> \<not> c_general y \<and> c_state y \<noteq> CONVERSATION_STATE_CLOSED \<and> 0 \<le> c_warnings y"
  proof
    fix y assume y: "y \<in> set cs"
    then have "c_id y \<noteq> c_id c" using ids by (metis imageI)
    with same(1) Cons.prems(4) y
    show "get_conv (c_id y) db1 = Some y \<and> \<not> c_general y \<and> c_state y \<noteq> CONVERSATION_STATE_CLOSED \<and> 0 \<le> c_warnings y" by simp
  qed
  moreover have "distinct (map c_id cs)" using Cons.prems(3) by simp
  ultimately have ih: "\<forall>y \<in> set cs. (\<exists>c'. get_conv (c_id y) db' = Some c' \<and> c_warnings c' = max (c_warnings y) (due W th now y))
             \<and> warned (c_id y) db' = warned (c_id y) db1 + nat (due W th now y - c_warnings y)"
    and rest: "\<forall>k. k \<notin> c_id ` set cs \<longrightarrow> get_conv k db' = get_conv k db1 \<and> warned k db' = warned k db1"
    using Cons.IH [OF 2 conjunct1 [OF r]] by blast+
  show ?case
  proof (intro conjI ballI allI impI)
    fix y assume y: "y \<in> set (c # cs)"
    show "\<exists>c'. get_conv (c_id y) db' = Some c' \<and> c_warnings c' = max (c_warnings y) (due W th now y)"
      using y ih rest ids e by (cases "y = c") auto
    show "warned (c_id y) db' = warned (c_id y) db + nat (due W th now y - c_warnings y)"
    proof (cases "y = c")
      case True
      with rest ids e show ?thesis by simp
    next
      case False
      with y have "y \<in> set cs" by simp
      moreover from this have "c_id y \<noteq> c_id c" using ids by (metis imageI)
      ultimately show ?thesis using ih same(2) by simp
    qed
  next
    fix k assume "k \<notin> c_id ` set (c # cs)"
    then have "k \<noteq> c_id c" "k \<notin> c_id ` set cs" by auto
    then show "get_conv k db' = get_conv k db" "warned k db' = warned k db" using rest same by auto
  qed
qed simp

text \<open>A sweep warns exactly once per level: an open conversation of the room gets one warning for each level
  between the one it was at and the one its idle time calls for (two at most), and is left at that
  level, so a later sweep repeats none of them; general, closed and foreign conversations get nothing.\<close>

theorem idle_warnings_exact:
  assumes "wiring_ok W" "chat_calls L W empty_service s" "sweep_tx L W now d th (s_db s) = Inr (x, db')"
    and "get_thread_row_by_discord d (s_db s) = Some h" "get_conv k (s_db s) = Some c"
  shows "if sweepable (h_id h) c
         then (\<exists>c'. get_conv k db' = Some c' \<and> c_warnings c' = max (c_warnings c) (due W th now c))
              \<and> warned k db' = warned k (s_db s) + nat (due W th now c - c_warnings c)
         else get_conv k db' = Some c \<and> warned k db' = warned k (s_db s)"
proof -
  let ?db = "s_db s" let ?cs = "filter (sweepable (h_id h)) (w_convs ?db)"
  have ok: "chat_ok ?db" using assms(1,2) by (rule reach_ok)
  note keys = chat_okD(3) [OF ok]
  have run: "foldE (sweep_row L W now th) ?cs (no_sweep, ?db) = Inr (x, db')"
    using assms(3,4) unfolding sweep_tx_def bindE_Inr_iff require_thread_iff by auto
  have c: "c \<in> set (w_convs ?db)" "c_id c = k" using assms(5) row_get_SomeD by fast+
  have "distinct (map c_id (w_convs ?db))" using keys by (simp add: fresh_keys_def)
  then have dist: "distinct (map c_id ?cs)" by (rule distinct_map_filter)
  have "0 \<le> c_warnings y" if "y \<in> set ?cs" for y
    using reach_typed [OF assms(1,2), of y] that by (simp add: row_typed_def)
  then have all: "\<forall>c \<in> set ?cs. get_conv (c_id c) ?db = Some c \<and> \<not> c_general c \<and> c_state c \<noteq> CONVERSATION_STATE_CLOSED \<and> 0 \<le> c_warnings c"
    using fresh_keys_get [OF keys] by (auto simp: sweepable_def)
  note e = sweep_rows_exact [OF run ok dist all]
  show ?thesis
  proof (cases "sweepable (h_id h) c")
    case True
    then have "c \<in> set ?cs" using c(1) by simp
    with e c(2) True show ?thesis by auto
  next
    case False
    have "k \<notin> c_id ` set ?cs"
    proof
      assume "k \<in> c_id ` set ?cs"
      then obtain y where y: "y \<in> set (w_convs ?db)" "sweepable (h_id h) y" "c_id y = k" by auto
      then have "y = c" using fresh_keys_get [OF keys y(1)] assms(5) by simp
      with y(2) False show False by simp
    qed
    with e False assms(5) show ?thesis by simp
  qed
qed

text \<open>Five seconds of silence with a one-second base: two warnings at once.\<close>

definition idle_probe :: "chat \<Rightarrow> (bool \<times> nat) option \<times> int \<times> nat \<times> nat list option" where
  "idle_probe db =
     (map_option (\<lambda>h. (list_all (sweepable (h_id h)) (filter (\<lambda>c. c_id c = 3) (w_convs db)), h_id h)) (get_thread_row_by_discord ''d'' db),
      (case get_conv 3 db of None \<Rightarrow> -1 | Some c \<Rightarrow> due sample_wiring 1 5000002 c - c_warnings c), warned 3 db,
      (case sweep_tx sample_lib sample_wiring 5000002 ''d'' 1 db of Inl _ \<Rightarrow> None | Inr (x, _) \<Rightarrow> Some (x_tiers x)))"

lemma idle_probe_sample: "idle_probe (s_db sample_spoken) = (Some (True, 1), 2, 0, Some [1, 2])"
  by code_simp

theorem idle_warnings_exact_witness:
  "\<exists>x db'. sweep_tx sample_lib sample_wiring 5000002 ''d'' 1 (s_db sample_spoken) = Inr (x, db') \<and> warned 3 db' = 2"
proof -
  let ?db = "s_db sample_spoken"
  obtain h :: chat_thread where h: "get_thread_row_by_discord ''d'' ?db = Some h" "list_all (sweepable (h_id h)) (filter (\<lambda>c. c_id c = 3) (w_convs ?db))"
    using idle_probe_sample by (auto simp: idle_probe_def)
  obtain c where c: "get_conv 3 ?db = Some c" "due sample_wiring 1 5000002 c - c_warnings c = 2" "warned 3 ?db = 0"
    using idle_probe_sample by (auto simp: idle_probe_def split: option.splits)
  obtain x db' where run: "sweep_tx sample_lib sample_wiring 5000002 ''d'' 1 ?db = Inr (x, db')"
    using idle_probe_sample by (auto simp: idle_probe_def split: sum.splits)
  have "sweepable (h_id h) c" using h(2) c(1) row_get_SomeD [of c_id 3 "w_convs ?db" c] by (auto simp: list_all_iff)
  with idle_warnings_exact [OF sample_wiring_ok sample_calls_spoken run h(1) c(1)] c run show ?thesis by simp
qed

end
