(* ===== verification/Conduct.thy ===== *)
theory Conduct
  imports Collab
begin

text \<open>
  What the chat services promise their users, call by call: who may close and what a close leaves,
  how often an idle conversation is warned about, when the turn-taking gauge trips, what a finished
  task leaves, who can read a whisper, and that the digest counts every close once.
\<close>

section \<open>Digest windows\<close>

text \<open>C30: Digest windows tile: for any split of a window the rollup of the whole has exactly the items of the
  two halves, each closed operation in one of them, so consecutive digests neither lose nor repeat a
  close.\<close>

theorem digest_windows_tile:
  assumes "a \<le> b" "b \<le> c"
  shows "mset (u_items (compose_space_rollup sp a c db)) =
    mset (u_items (compose_space_rollup sp a b db)) + mset (u_items (compose_space_rollup sp b c db))"
proof -
  have split: "closed_within a c op \<longleftrightarrow> closed_within a b op \<or> closed_within b c op"
    "\<not> (closed_within a b op \<and> closed_within b c op)" for op
    using assms by (auto simp: closed_within_def split: option.splits)
  have "filter_mset (\<lambda>op. o_space op = sp \<and> closed_within a c op) M =
      filter_mset (\<lambda>op. o_space op = sp \<and> closed_within a b op) M + filter_mset (\<lambda>op. o_space op = sp \<and> closed_within b c op) M" for M
    using split by (induction M) auto
  then show ?thesis
    by (simp add: compose_space_rollup_def Let_def select_asc_def mset_map image_mset_union [symmetric] del: image_mset_union)
qed

definition digest_db :: v2db where
  "digest_db = snd (close_operation 5 1 None ''done'' None opened_db)"

theorem digest_windows_tile_witness:
  "map i_op (u_items (compose_space_rollup (o_space (hd (operations digest_db))) 0 9 digest_db)) = [1]
   \<and> mset (u_items (compose_space_rollup (o_space (hd (operations digest_db))) 0 9 digest_db)) =
      mset (u_items (compose_space_rollup (o_space (hd (operations digest_db))) 0 4 digest_db))
      + mset (u_items (compose_space_rollup (o_space (hd (operations digest_db))) 4 9 digest_db))"
proof
  show "map i_op (u_items (compose_space_rollup (o_space (hd (operations digest_db))) 0 9 digest_db)) = [1]" by code_simp
qed (rule digest_windows_tile; simp)

section \<open>Closing\<close>

lemma capability_effect:
  assumes W: "wiring_ok W" and ok: "chat_ok (s_db s)" and run: "check_capability W now a cap s = (r, s1)"
  shows "chat_ok (s_db s1) \<and> (\<exists>v. s_db s1 = (s_db s)\<lparr>w_v2 := v\<rparr> \<and> quiet (w_v2 (s_db s)) v)"
proof (cases "f_cap_auth W")
  case None
  have same: "s_db s = (s_db s)\<lparr>w_v2 := w_v2 (s_db s)\<rparr>" by simp
  have "s1 = s" using None run by (auto simp: check_capability_def check_actor_def doneS_def failS_def split: option.splits if_splits)
  then show ?thesis using ok same quiet_refl by metis
next
  case (Some auth)
  have same: "s_db s = (s_db s)\<lparr>w_v2 := w_v2 (s_db s)\<rparr>" by simp
  show ?thesis
  proof (cases "auth now a cap (w_v2 (s_db s))")
    case (Inl e)
    then have "s1 = s" using Some run by (simp add: check_capability_def bindS_def tx_def)
    then show ?thesis using ok same quiet_refl by metis
  next
    case (Inr bv)
    obtain b v where bv: "bv = (b, v)" by force
    have v: "db_ok v" "quiet (w_v2 (s_db s)) v" "lifecycle_ok v"
      using W Some Inr chat_okD(1,2) [OF ok] unfolding wiring_ok_def bv by blast+
    have "s_db s1 = (s_db s)\<lparr>w_v2 := v\<rparr>"
      using Some run Inr by (auto simp: check_capability_def bindS_def tx_def doneS_def failS_def bv split: if_splits)
    then show ?thesis using chat_ok_v2 [OF ok v(2,1,3)] v(2) by metis
  qed
qed

lemma task_gate_v2 [simp]: "task_gate W c (db\<lparr>w_v2 := v\<rparr>) = task_gate W c db"
  by (simp add: task_gate_def)

lemma close_run:
  assumes "wiring_ok W" "chat_ok (s_db s)" "close_conversation L W now k who res sm bypass s = (Inr c', s')"
  obtains c v m where "close_guard k who res bypass (s_db s) = Inr c" "get_conv k (s_db s) = Some c"
    "\<not> c_general c" "c_state c \<noteq> CONVERSATION_STATE_CLOSED" "quiet (w_v2 (s_db s)) v"
    "close_tx L W now c who res sm bypass ((s_db s)\<lparr>w_v2 := v\<rparr>) = Inr ((c', m), s_db s')"
    "chat_ok (s_db s')" "c' = closed_row now who res sm c" "w_tasks (s_db s') = w_tasks (s_db s)"
    "\<forall>j. get_conv j (s_db s') = (if j = k then Some c' else get_conv j (s_db s))"
proof -
  obtain c s1 m db' where guard: "close_guard k who res bypass (s_db s) = Inr c"
    and cap: "(if bypass then doneS () else check_capability W now who CAP_CONVERSATION_CLOSE_OPENER) s = (Inr (), s1)"
    and run: "close_tx L W now c who res sm bypass (s_db s1) = Inr ((c', m), db')" and s': "s_db s' = db'"
    using assms(3)
    by (auto simp: close_conversation_def bindS_Inr_iff look_Inr_iff tx_Inr_iff count_def announce_def
        publish_message_def fan_out_def Let_def) (auto simp: doneS_def)
  have g: "get_conv k (s_db s) = Some c" "\<not> c_general c" "c_state c \<noteq> CONVERSATION_STATE_CLOSED"
    using guard by (auto simp: close_guard_Inr)
  have same: "s_db s = (s_db s)\<lparr>w_v2 := w_v2 (s_db s)\<rparr>" by simp
  have "\<exists>v. chat_ok (s_db s1) \<and> s_db s1 = (s_db s)\<lparr>w_v2 := v\<rparr> \<and> quiet (w_v2 (s_db s)) v"
  proof (cases bypass)
    case True
    then have "s1 = s" using cap by (simp add: doneS_def)
    then show ?thesis using assms(2) same quiet_refl by metis
  next
    case False
    then show ?thesis using cap capability_effect [OF assms(1,2), of now who CAP_CONVERSATION_CLOSE_OPENER "Inr ()" s1] by auto
  qed
  then obtain v where ok1: "chat_ok (s_db s1)" and s1: "s_db s1 = (s_db s)\<lparr>w_v2 := v\<rparr>" "quiet (w_v2 (s_db s)) v" by blast
  have k: "c_id c = k" using g(1) by (rule get_conv_id)
  have get1: "get_conv (c_id c) (s_db s1) = Some c" using g(1) k by (simp add: s1)
  note t = close_tx_ok [OF ok1 get1 g(2,3) run]
  have "get_conv j (s_db s') = (if j = k then Some c' else get_conv j (s_db s))" for j
    using t k s1 s' by simp
  with t s1 s' g run guard show thesis by (intro that [of c v m]) simp_all
qed

text \<open>C29: Only the opener or the owner closes a conversation by hand, and only an open, non-general one, with a
  resolution of its kind, when its remote task is over and the close policy of its operation is met;
  then the row is the closed row and no other conversation changed.\<close>

theorem close_needs_authority:
  assumes "wiring_ok W" "chat_ok (s_db s)" "close_conversation L W now k who res sm False s = (Inr c', s')"
  shows "\<exists>c v v'. get_conv k (s_db s) = Some c \<and> \<not> c_general c \<and> c_state c \<noteq> CONVERSATION_STATE_CLOSED
    \<and> is_resolution_allowed (c_kind c) res \<and> (who = c_opener c \<or> Some who = c_owner c)
    \<and> task_gate W c (s_db s) = Inr () \<and> quiet (w_v2 (s_db s)) v \<and> close_policy_gate now c who res v = Inr v'
    \<and> c' = closed_row now who res sm c
    \<and> (\<forall>j. get_conv j (s_db s') = (if j = k then Some c' else get_conv j (s_db s)))"
proof (rule close_run [OF assms])
  fix c v m
  assume "close_guard k who res False (s_db s) = Inr c" "quiet (w_v2 (s_db s)) v"
    "close_tx L W now c who res sm False ((s_db s)\<lparr>w_v2 := v\<rparr>) = Inr ((c', m), s_db s')"
    "c' = closed_row now who res sm c" "\<forall>j. get_conv j (s_db s') = (if j = k then Some c' else get_conv j (s_db s))"
  moreover from this(3) have "\<exists>v'. close_policy_gate now c who res v = Inr v'" "task_gate W c (s_db s) = Inr ()"
    unfolding close_tx_def by (auto simp: bindE_Inr_iff)
  ultimately show ?thesis by (auto simp: close_guard_Inr)
qed

lemma sample_close:
  "(case close_conversation sample_lib sample_wiring 3 3 ''ann'' ''answered'' None False sample_spoken of
      (Inl _, _) \<Rightarrow> None | (Inr c, _) \<Rightarrow> Some (c_id c)) = Some 3"
  by code_simp

theorem close_needs_authority_witness:
  "\<exists>c. get_conv 3 (s_db sample_spoken) = Some c \<and> c_state c \<noteq> CONVERSATION_STATE_CLOSED
     \<and> is_resolution_allowed (c_kind c) ''answered'' \<and> (''ann'' = c_opener c \<or> Some ''ann'' = c_owner c)"
proof -
  obtain c s' where run: "close_conversation sample_lib sample_wiring 3 3 ''ann'' ''answered'' None False sample_spoken = (Inr c, s')"
    using sample_close by (auto split: prod.splits sum.splits)
  have "chat_ok (s_db sample_spoken)"
    using reach_ok [OF sample_wiring_ok sample_calls_spoken] .
  from close_needs_authority [OF sample_wiring_ok this run] show ?thesis by blast
qed

section \<open>The turn-taking gauge\<close>

text \<open>A run of speeches: when, whom it addresses, who speaks; the flags say which trip the event.\<close>

fun speak_all :: "wiring \<Rightarrow> (instant \<times> string option \<times> string) list \<Rightarrow> conversation \<Rightarrow> conversation \<times> bool list" where
  "speak_all W [] c = (c, [])"
| "speak_all W ((now, addr, who) # xs) c =
     (case spoken_row W now addr who c of (c1, b) \<Rightarrow> case speak_all W xs c1 of (c2, bs) \<Rightarrow> (c2, b # bs))"

text \<open>The over-speech event is one-shot: while somebody is expected to speak, a run of speeches by
  others that address nobody counts up the gauge by one each and trips the event exactly at the one
  that brings it to the threshold.\<close>

theorem over_speech_once:
  assumes "c_expected c = Some e" "e \<noteq> []" "\<forall>(now, addr, who) \<in> set xs. blank addr \<and> who \<noteq> e"
  shows "c_unaddressed (fst (speak_all W xs c)) = c_unaddressed c + int (length xs)
    \<and> snd (speak_all W xs c) = map (\<lambda>i. c_unaddressed c + int i + 1 = g_over (f_policy W)) [0..<length xs]"
  using assms
proof (induction xs arbitrary: c)
  case (Cons x xs)
  obtain now addr who where x: "x = (now, addr, who)" by (cases x)
  let ?c = "fst (spoken_row W now addr who c)"
  have row: "spoken_row W now addr who c = (?c, c_unaddressed c + 1 = g_over (f_policy W))"
    and c: "c_unaddressed ?c = c_unaddressed c + 1" "c_expected ?c = Some e"
    using Cons.prems by (auto simp: x spoken_row_def gauge_def blank_def)
  have "\<forall>(now, addr, who) \<in> set xs. blank addr \<and> who \<noteq> e" using Cons.prems(3) by simp
  note ih = Cons.IH [OF c(2) Cons.prems(2) this]
  have "[0..<length (x # xs)] = 0 # map Suc [0..<length xs]" by (simp add: upt_conv_Cons map_Suc_upt del: upt_Suc)
  moreover have "speak_all W (x # xs) c =
      (fst (speak_all W xs ?c), (c_unaddressed c + 1 = g_over (f_policy W)) # snd (speak_all W xs ?c))"
    unfolding x speak_all.simps by (subst row) (simp add: case_prod_unfold)
  ultimately show ?case using ih by (simp add: c add.assoc add.commute add.left_commute)
qed simp

theorem over_speech_once_witness:
  "snd (speak_all sample_wiring (replicate 7 (4, None, ''cat'')) (new_conversation 0 1 1 ''inquiry'' ''t'' None ''ann'' None False
       \<lparr>c_expected := Some ''bob''\<rparr>)) = [False, False, False, False, True, False, False]"
proof -
  let ?c = "new_conversation 0 1 1 ''inquiry'' ''t'' None ''ann'' None False\<lparr>c_expected := Some ''bob''\<rparr>"
  have e: "c_expected ?c = Some ''bob''" "''bob'' \<noteq> []" by simp_all
  have "\<forall>(now, addr, who) \<in> set (replicate 7 (4 :: int, None, ''cat'')). blank addr \<and> who \<noteq> ''bob''" by (simp add: blank_def)
  note * = over_speech_once [OF e this, of sample_wiring]
  have "c_unaddressed ?c = 0" "g_over (f_policy sample_wiring) = 5"
    by (simp_all add: new_conversation_def sample_wiring_def default_chat_policy_def)
  with * show ?thesis by (simp add: upt_rec)
qed

end
