(* ===== verification/TaskOutcome.thy ===== *)
theory TaskOutcome
  imports Conduct
begin

text \<open>
  What the calls of \<open>ChatTaskCoordinator\<close> leave in the two services they drive: the remote task and the
  task conversation.
\<close>

lemma complete_status: "complete_task now k actor token sm db = Inr (t, db') \<Longrightarrow> x_status (ts_row t) = ''completed''"
  by (auto simp: complete_task_def settle_def bindE_Inr_iff finish_def Let_def to_summary_def)

lemma fail_status: "fail_task now k actor token er db = Inr (t, db') \<Longrightarrow> x_status (ts_row t) = ''failed''"
  by (auto simp: fail_task_def settle_def bindE_Inr_iff finish_def Let_def to_summary_def)

lemma update_owner_run:
  assumes "update_owner_and_emit L now k actor kd payload owner speaker art target s = (Inr (), s')"
    and "chat_ok (s_db s)" "bound_task k (s_db s)" "get_conv k (s_db s) = Some c"
  shows "chat_ok (s_db s') \<and> bound_task k (s_db s') \<and> get_conv k (s_db s') = Some (task_touched now owner speaker c)
    \<and> w_tasks (s_db s') = w_tasks (s_db s)"
proof -
  obtain r db where run: "owner_tx L now k actor kd payload owner speaker art target (s_db s) = Inr (r, db)" and s': "s_db s' = db"
    using assms(1)
    by (auto simp: update_owner_and_emit_def bindS_Inr_iff tx_Inr_iff doneS_def publish_message_def Let_def split: option.splits)
  have "w_tasks db = w_tasks (s_db s)"
    using run assms(4)
    by (auto simp: owner_tx_def bindE_Inr_iff Let_def emit_def add_message_def mirror_v1_message_to_v2_def attach_evidence_def
        move_state_def split: if_splits option.splits)
  with owner_tx_ok [OF assms(2,3) run, of W] assms(4) s' show ?thesis by simp
qed

lemma bound_task_run:
  "require_bound_task k s = (Inr t, s') \<longleftrightarrow>
     s' = s \<and> (\<exists>c. get_conv k (s_db s) = Some c \<and> c_kind c = CONVERSATION_KIND_TASK \<and> \<not> blank (c_task c) \<and> c_task c = Some t)"
  by (auto simp: require_bound_task_def look_Inr_iff blank_def split: option.splits)

lemma remote_call_run:
  "remote_call f s = (Inr x, s') \<longleftrightarrow> (\<exists>r. f (w_tasks (s_db s)) = Inr (x, r) \<and> s' = s\<lparr>s_db := (s_db s)\<lparr>w_tasks := r\<rparr>\<rparr>)"
  by (auto simp: remote_call_def tx_Inr_iff bindE_Inr_iff)

lemma get_conversation_row: "get_conversation k n kinds viewer db = Inr (c, ms) \<Longrightarrow> get_conv k db = Some c"
  by (auto simp: get_conversation_def bindE_Inr_iff Let_def)

text \<open>C31: A completed task is completed everywhere: when \<open>complete\<close> returns, the conversation had evidence
  and the caller's lease was active, the remote task is settled as completed, and the conversation is
  closed as completed by the caller with nobody expected to speak.\<close>

theorem complete_settles_both:
  assumes "wiring_ok W" "chat_ok (s_db s)" "coord_complete L W now k actor token sm s = (Inr (c, t), s')"
  shows "0 < evidence_count k (s_db s) \<and> x_status (ts_row t) = ''completed''
    \<and> (\<exists>tid. complete_task now tid actor token sm (w_tasks (s_db s)) = Inr (t, w_tasks (s_db s')) \<and> c_task c = Some tid)
    \<and> get_conv k (s_db s') = Some c \<and> c_state c = CONVERSATION_STATE_CLOSED \<and> c_resolution c = Some ''completed''
    \<and> c_closed_by c = Some actor \<and> c_expected c = None"
proof -
  obtain s1 tid c0 m r s4 c5 s5 where cap: "check_capability W now actor CAP_TASK_COMPLETE s = (Inr (), s1)"
    and c0: "get_conv k (s_db s1) = Some c0" "c_kind c0 = CONVERSATION_KIND_TASK" "\<not> blank (c_task c0)" "c_task c0 = Some tid"
    and ev: "evidence_count k (s_db s1) \<noteq> 0"
    and rem: "complete_task now tid actor token sm (w_tasks (s_db s1)) = Inr (t, r)"
    and upd: "update_owner_and_emit L now k actor EVENT_TASK_COMPLETED (task_payload t [(''summary'', jopt JStr sm)]) None Clear [] Auto
         (s1\<lparr>s_metrics := m, s_db := (s_db s1)\<lparr>w_tasks := r\<rparr>\<rparr>) = (Inr (), s4)"
    and cl: "close_conversation L W now k actor ''completed'' sm True s4 = (Inr c5, s')"
    and c: "get_conv k (s_db s') = Some c"
    using assms(3)
    by (auto simp: coord_complete_def bindS_Inr_iff bound_task_run remote_call_run look_Inr_iff count_task_def count_def
        build_response_def bindE_Inr_iff dest: get_conversation_row)
  obtain v where s1: "chat_ok (s_db s1)" "s_db s1 = (s_db s)\<lparr>w_v2 := v\<rparr>"
    using capability_effect [OF assms(1,2) cap] by blast
  let ?s3 = "s1\<lparr>s_metrics := m, s_db := (s_db s1)\<lparr>w_tasks := r\<rparr>\<rparr>"
  have 3: "chat_ok (s_db ?s3)" "bound_task k (s_db ?s3)" "get_conv k (s_db ?s3) = Some c0"
    using s1(1) c0 by (simp_all add: bound_task_def)
  note u = update_owner_run [OF upd 3]
  show ?thesis
  proof (rule close_run [OF assms(1) conjunct1 [OF u] cl])
    fix y
    assume y: "get_conv k (s_db s4) = Some y" "c5 = closed_row now actor ''completed'' sm y" "w_tasks (s_db s') = w_tasks (s_db s4)"
      "\<forall>j. get_conv j (s_db s') = (if j = k then Some c5 else get_conv j (s_db s4))"
    then have "y = task_touched now None Clear c0" "c = c5" using u c by auto
    with y u rem ev s1(2) c0(4) complete_status [OF rem] show ?thesis
      by (auto simp: closed_row_def task_touched_def evidence_count_def)
  qed
qed

text \<open>A service's own event is always stored and mirrored when its conversation, room and operation exist.\<close>

lemma emit_total:
  assumes "chat_ok db" "get_conv (c_id c) db = Some c0" "c_v2 c = c_v2 c0" "get_thread (c_thread c) db \<noteq> None"
    and "c_v2 c = Some op" "get_operation op (w_v2 db) = Some row"
  shows "\<exists>m db1. emit now c actor kind None body db = Inr (m, db1) \<and> (\<forall>k. view k (w_v2 db1) = view k (w_v2 db))"
proof -
  have "op \<in> o_id ` set (operations (w_v2 db))" using assms(6) by (auto simp: get_operation_def dest!: row_get_SomeD)
  then have "\<exists>ev v. mirror_message now (Some op) actor kind (Dumped body) None [] None None None (w_v2 db) = Inr (Some ev, v)"
    by (rule mirror_message_total [OF chat_okD(1) [OF assms(1)]]) simp_all
  then have "\<exists>m db1. emit now c actor kind None body db = Inr (m, db1)"
    using assms(2,4,5) by (auto simp: emit_def add_message_def mirror_v1_message_to_v2_def v2_parent_def Let_def)
  then show ?thesis using emit_ok [OF assms(1-3)] by blast
qed

text \<open>A request for approval writes the pending approval and the blocked status.\<close>

lemma request_approval_rows:
  assumes "request_approval now aid t actor token why nt db = Inr (sm, r)"
  shows "(\<exists>row. task_row t r = Some row \<and> x_status row = ''blocked_approval'')
    \<and> (\<exists>ap \<in> set (t_approvals r). ta_id ap = aid \<and> ta_task ap = t \<and> ta_reason ap = why \<and> ta_status ap = ''pending'')"
proof -
  obtain x where x: "task_row t db = Some x"
    and r: "r = snd (finish now x (Some actor) ''blocked_approval'' (db\<lparr>t_approvals := t_approvals db @ [\<lparr>ta_id = aid,
        ta_task = x_id x, ta_actor = actor, ta_reason = why, ta_status = ''pending'', ta_note = nt, ta_requested = now,
        ta_resolved = None, ta_resolved_by = None, ta_resolution = None\<rparr>],
      t_kernel := mirror_approval_request now (x_id x) \<lparr>ta_id = aid, ta_task = x_id x, ta_actor = actor, ta_reason = why,
        ta_status = ''pending'', ta_note = nt, ta_requested = now, ta_resolved = None, ta_resolved_by = None,
        ta_resolution = None\<rparr> (t_kernel db)\<rparr>))"
    using assms by (auto simp: request_approval_def bindE_Inr_iff require_task_Inr Let_def dest!: arg_cong [of _ _ snd])
  note id = task_row_id [OF x]
  have "task_row t r = Some (x\<lparr>x_status := ''blocked_approval'', x_updated := now, x_owner := Some actor\<rparr>)"
    using x id by (simp add: r finish_def Let_def task_set_def task_row_def row_get_upd_same)
  then show ?thesis using id by (simp add: r finish_def Let_def task_set_def)
qed

text \<open>C32: An approval asked for before the first evidence is lost half-way. The remote task is committed as
  blocked, with the approval stored as pending; then the state machine refuses to move the operation
  from claimed to blocked, so the call raises that refusal, and the conversation, its messages and its
  operation are as they were.\<close>

theorem early_approval_stranded:
  assumes "get_conv k (s_db s) = Some c" "c_kind c = CONVERSATION_KIND_TASK" "c_task c = Some t" "t \<noteq> []" "chat_ok (s_db s)"
    and "get_thread (c_thread c) (s_db s) \<noteq> None"
    and "c_v2 c = Some op" "view op (w_v2 (s_db s)) = Some (CONVERSATION_KIND_TASK, STATE_CLAIMED, None)"
    and "request_approval now aid t actor token why nt (w_tasks (s_db s)) = Inr (sm, r)"
  shows "coord_request_approval L now aid k actor token why nt s =
      (Inl (LifecycleFailed (StateMachineError (reason (can_transition CONVERSATION_KIND_TASK STATE_CLAIMED STATE_BLOCKED_APPROVAL)))),
       s\<lparr>s_db := (s_db s)\<lparr>w_tasks := r\<rparr>\<rparr>)
    \<and> (\<exists>row. task_row t r = Some row \<and> x_status row = ''blocked_approval'')
    \<and> (\<exists>ap \<in> set (t_approvals r). ta_id ap = aid \<and> ta_task ap = t \<and> ta_reason ap = why \<and> ta_status ap = ''pending'')"
proof -
  let ?s = "s\<lparr>s_db := (s_db s)\<lparr>w_tasks := r\<rparr>\<rparr>" and ?kd = EVENT_TASK_APPROVAL_REQUESTED
  let ?p = "task_payload sm [(''reason'', JStr why), (''note'', jopt JStr nt)]" and ?c = "task_touched now None Keep c"
  let ?e = "LifecycleFailed (StateMachineError (reason (can_transition CONVERSATION_KIND_TASK STATE_CLAIMED STATE_BLOCKED_APPROVAL)))"
  have bound: "require_bound_task k s = (Inr t, s)" using assms(1-4) by (simp add: bound_task_run blank_def)
  have rem: "remote_call (request_approval now aid t actor token why nt) s = (Inr sm, ?s)"
    unfolding remote_call_run using assms(9) by blast
  let ?db = "set_conv k (\<lambda>_. ?c) (s_db ?s)"
  have k: "c_id c = k" using assms(1) by (rule get_conv_id)
  have ok: "chat_ok ?db"
    using chat_ok_set [of "s_db ?s" c "\<lambda>_. ?c"] assms(1,5) k by (simp add: task_touched_def same_lifecycle_def)
  have get: "get_conv (c_id ?c) ?db = Some ?c"
    using get_set_conv [of k "\<lambda>_. ?c" k "s_db ?s"] assms(1) k by (simp add: task_touched_def)
  obtain row where row: "get_operation op (w_v2 (s_db s)) = Some row" using assms(8) by (auto simp: view_def)
  have there: "get_thread (c_thread ?c) ?db \<noteq> None" "c_v2 ?c = Some op" "get_operation op (w_v2 ?db) = Some row"
    using assms(6,7) row by (simp_all add: task_touched_def set_conv_def)
  obtain m db1 where em: "emit now ?c actor ?kd None ?p ?db = Inr (m, db1)" and view: "view op (w_v2 db1) = view op (w_v2 ?db)"
    using emit_total [OF ok get refl there, of now actor ?kd ?p] by blast
  then obtain row1 where row1: "get_operation op (w_v2 db1) = Some row1" "o_kind row1 = CONVERSATION_KIND_TASK" "o_state row1 = STATE_CLAIMED"
    using assms(8) by (auto simp: view_def set_conv_def)
  have refused: "\<not> allowed (can_transition CONVERSATION_KIND_TASK STATE_CLAIMED STATE_BLOCKED_APPROVAL)" unfolding transition_edges by simp
  have "target_state Auto ?kd = Some STATE_BLOCKED_APPROVAL" by (simp add: target_state_def EVENT_KIND_TO_TARGET_STATE_def)
  then have "move_state now ?c (target_state Auto ?kd) db1 = Inl ?e"
    using row1 refused there(2) by (simp add: move_state_def transition_state_def assert_transition_def Let_def)
  then have "owner_tx L now k actor ?kd ?p None Keep [] Auto (s_db ?s) = Inl ?e"
    using em assms(1) by (simp add: owner_tx_def attach_evidence_def Let_def)
  then have "update_owner_and_emit L now k actor ?kd ?p None Keep [] Auto ?s = (Inl ?e, ?s)"
    by (simp add: update_owner_and_emit_def bindS_def tx_def)
  with bound rem have "coord_request_approval L now aid k actor token why nt s = (Inl ?e, ?s)"
    unfolding coord_request_approval_def by (simp add: bindS_def)
  with request_approval_rows [OF assms(9)] show ?thesis by blast
qed

section \<open>A task on the worker's bench\<close>

text \<open>A remote task, created and claimed by \<open>bob\<close>, and the conversation row bound to it.\<close>

definition bench_tasks :: remote where
  "bench_tasks =
     (case create_task 1 ''t1'' ''m'' ''h'' ''do it'' [] ''chat'' None ''normal'' ''ann'' no_remote of
        Inl _ \<Rightarrow> no_remote
      | Inr (_, r) \<Rightarrow> (case claim_task 2 ''t1'' ''bob'' 60 r of Inl _ \<Rightarrow> no_remote | Inr (_, r') \<Rightarrow> r'))"

definition bench_row :: "id option \<Rightarrow> conversation" where
  "bench_row op = (new_conversation 1 1 0 CONVERSATION_KIND_TASK ''why'' None ''ann'' (Some ''ann'') False)
     \<lparr>c_task := Some ''t1'', c_v2 := op\<rparr>"

definition bench_evidence :: chat_message where
  "bench_evidence = \<lparr>m_id = 2, m_thread = 0, m_conv = Some 1, m_actor = ''bob'', m_kind = EVENT_TASK_EVIDENCE, m_to = None,
     m_many = None, m_replies_to = None, m_body = Dumped JNull, m_v2 = None, m_created = 2\<rparr>"

definition bench_room :: chat_thread where
  "bench_room = \<lparr>h_id = 0, h_guild = ''g'', h_channel = ''c'', h_discord = ''d'', h_title = ''room'', h_topic = None,
     h_created_by = ''ann'', h_status = ''open'', h_turns = 0, h_last_actor = None, h_last_preview = None, h_last_at = None,
     h_created = 0\<rparr>"

text \<open>A row from before the dual write: no operation, one evidence message.\<close>

definition bench :: service where
  "bench = empty_service\<lparr>s_db := (s_db empty_service)\<lparr>w_threads := [bench_room], w_convs := [bench_row None], w_messages := [bench_evidence],
     w_tasks := bench_tasks, w_next := 3\<rparr>\<rparr>"

lemma bench_ok: "chat_ok (s_db bench)"
  using empty_service_ok
  by (simp add: chat_ok_def bench_def bench_row_def bench_evidence_def new_conversation_def mirrored_def links_ok_def
      fresh_keys_def)

lemma bench_done:
  "(case coord_complete sample_lib sample_wiring 4 1 ''bob'' (Gen 1) None bench of
      (Inl _, _) \<Rightarrow> None | (Inr (c, t), _) \<Rightarrow> Some (c_id c)) = Some 1"
  by code_simp

theorem complete_settles_both_witness:
  "\<exists>c t s'. coord_complete sample_lib sample_wiring 4 1 ''bob'' (Gen 1) None bench = (Inr (c, t), s')
     \<and> c_resolution c = Some ''completed'' \<and> x_status (ts_row t) = ''completed''"
proof -
  obtain c t s' where run: "coord_complete sample_lib sample_wiring 4 1 ''bob'' (Gen 1) None bench = (Inr (c, t), s')"
    using bench_done by (auto split: prod.splits sum.splits)
  from complete_settles_both [OF sample_wiring_ok bench_ok run] run show ?thesis by blast
qed

text \<open>The same task under a mirrored conversation whose operation has just been claimed.\<close>

definition claimed_chat :: "(conversation \<times> chat) option" where
  "claimed_chat =
     (case open_tx sample_lib 1 bench_room (sample_open\<lparr>q_kind := CONVERSATION_KIND_TASK\<rparr>) DEFAULT_OPERATION_POLICY (Some ''t1'')
             ((s_db empty_service)\<lparr>w_threads := [bench_room], w_tasks := bench_tasks\<rparr>) of
        Inl _ \<Rightarrow> None
      | Inr (x, db) \<Rightarrow> (case move_state 2 (fst x) (Some STATE_CLAIMED) db of Inl _ \<Rightarrow> None | Inr db' \<Rightarrow> Some (fst x, db')))"

lemma claimed_chat_ok:
  assumes "claimed_chat = Some (c, db)"
  shows "chat_ok db \<and> get_conv (c_id c) db = Some c"
proof -
  let ?db0 = "(s_db empty_service)\<lparr>w_threads := [bench_room], w_tasks := bench_tasks\<rparr>"
  obtain m db1 where run: "open_tx sample_lib 1 bench_room (sample_open\<lparr>q_kind := CONVERSATION_KIND_TASK\<rparr>) DEFAULT_OPERATION_POLICY
      (Some ''t1'') ?db0 = Inr ((c, m), db1)" and mv: "move_state 2 c (Some STATE_CLAIMED) db1 = Inr db"
    using assms by (auto simp: claimed_chat_def split: sum.splits prod.splits)
  have "chat_ok ?db0" using empty_service_ok by (simp add: chat_ok_def mirrored_def conv_log_def)
  note o = open_tx_ok [OF this run, of sample_wiring]
  from o have "get_conv (c_id c) db1 = Some c" "chat_ok db1" by simp_all
  with move_state_ok [OF this(2,1) mv] show ?thesis by simp
qed

definition claimed_probe :: "(id \<times> string \<times> string option \<times> id option \<times> op_view option \<times> bool \<times> bool) option" where
  "claimed_probe =
     (case claimed_chat of
        None \<Rightarrow> None
      | Some (c, db) \<Rightarrow>
          Some (c_id c, c_kind c, c_task c, c_v2 c, view 3 (w_v2 db),
            (case request_approval 3 ''a'' ''t1'' ''bob'' (Gen 1) ''why'' None (w_tasks db) of Inl _ \<Rightarrow> False | Inr _ \<Rightarrow> True),
            case get_thread (c_thread c) db of None \<Rightarrow> False | Some _ \<Rightarrow> True))"

lemma claimed_probe_run:
  "claimed_probe = Some (2, CONVERSATION_KIND_TASK, Some ''t1'', Some 3, Some (CONVERSATION_KIND_TASK, STATE_CLAIMED, None), True, True)"
  by code_simp

theorem early_approval_stranded_witness:
  "\<exists>s e s' row. coord_request_approval sample_lib 3 ''a'' 2 ''bob'' (Gen 1) ''why'' None s = (Inl (LifecycleFailed e), s')
     \<and> w_convs (s_db s') = w_convs (s_db s) \<and> w_v2 (s_db s') = w_v2 (s_db s)
     \<and> task_row ''t1'' (w_tasks (s_db s')) = Some row \<and> x_status row = ''blocked_approval''"
proof -
  obtain c db where run: "claimed_chat = Some (c, db)" and c: "c_id c = 2" "c_kind c = CONVERSATION_KIND_TASK" "c_task c = Some ''t1''"
      "c_v2 c = Some 3" and v: "view 3 (w_v2 db) = Some (CONVERSATION_KIND_TASK, STATE_CLAIMED, None)"
      and q: "(case request_approval 3 ''a'' ''t1'' ''bob'' (Gen 1) ''why'' None (w_tasks db) of Inl _ \<Rightarrow> False | Inr _ \<Rightarrow> True)"
      and h: "get_thread (c_thread c) db \<noteq> None"
    using claimed_probe_run by (auto simp: claimed_probe_def split: option.splits prod.splits)
  let ?s = "empty_service\<lparr>s_db := db\<rparr>"
  obtain sm r where q: "request_approval 3 ''a'' ''t1'' ''bob'' (Gen 1) ''why'' None (w_tasks (s_db ?s)) = Inr (sm, r)"
    using q by (auto split: sum.splits)
  have g: "get_conv 2 (s_db ?s) = Some c" "chat_ok (s_db ?s)" "get_thread (c_thread c) (s_db ?s) \<noteq> None"
    using claimed_chat_ok [OF run] c(1) h by simp_all
  have "view 3 (w_v2 (s_db ?s)) = Some (CONVERSATION_KIND_TASK, STATE_CLAIMED, None)" "''t1'' \<noteq> []" using v by simp_all
  note early_approval_stranded [OF g(1) c(2,3) this(2) g(2,3) c(4) this(1) q, of sample_lib]
  then obtain e row where "coord_request_approval sample_lib 3 ''a'' 2 ''bob'' (Gen 1) ''why'' None ?s =
      (Inl (LifecycleFailed e), ?s\<lparr>s_db := (s_db ?s)\<lparr>w_tasks := r\<rparr>\<rparr>)" "task_row ''t1'' r = Some row" "x_status row = ''blocked_approval''"
    by blast
  then show ?thesis
    by (intro exI [of _ ?s] exI [of _ e] exI [of _ "?s\<lparr>s_db := (s_db ?s)\<lparr>w_tasks := r\<rparr>\<rparr>"] exI [of _ row]) simp
qed

end
