(* ===== verification/CodexValues.thy ===== *)
theory CodexValues
  imports Digest Strings
begin

text \<open>
  The values of the remote Codex behavior, the module-level functions of
  \<open>behaviors/remote_codex/state_service.py\<close> and \<open>behaviors/remote_codex/service.py\<close>: texts folded to
  one line, integers with a fallback, columns that hold JSON or plain text, machine liveness, who asked
  for a command and what was attached to it. \<open>str\<close> and \<open>int\<close> of a value that is not text are
  parameters of the model (\<open>l_str\<close>, \<open>l_int\<close>), as is \<open>json.loads\<close> on text the module did not write itself.
\<close>

section \<open>Texts and numbers\<close>

definition value_text :: "lib \<Rightarrow> json \<Rightarrow> string" where
  "value_text L v = (case v of JStr s \<Rightarrow> s | _ \<Rightarrow> if truthy v then l_str L v else [])"

definition compact :: "string \<Rightarrow> string" where
  "compact s = strip (one_line (map (\<lambda>c. if c = CHR 0x0D \<or> c = CHR 0x0A then CHR '' '' else c) s))"

lemma compact_idem [simp]: "compact (compact s) = compact s"
proof -
  have "map (\<lambda>c. if c = CHR 0x0D \<or> c = CHR 0x0A then CHR '' '' else c) (one_line t) = one_line t" for t
    by (rule map_idI) (auto dest!: one_line_chars simp: is_space_def)
  then show ?thesis by (simp add: compact_def)
qed

lemma compact_Nil [simp]: "compact [] = []"
  by (simp add: compact_def strip_def)

definition compact_text :: "lib \<Rightarrow> json \<Rightarrow> string \<Rightarrow> string" where
  "compact_text L v fallback = (let t = compact (value_text L v) in if t = [] then fallback else t)"

abbreviation compacted :: "lib \<Rightarrow> json \<Rightarrow> string" where "compacted L v \<equiv> compact_text L v []"

text \<open>\<open>compact_text(...) or None\<close>.\<close>

definition some_text :: "string \<Rightarrow> string option" where
  "some_text s = (if s = [] then None else Some s)"

definition coerce_int :: "lib \<Rightarrow> json \<Rightarrow> int \<Rightarrow> int" where
  "coerce_int L v fallback =
     (case v of JInt n \<Rightarrow> n | JBool b \<Rightarrow> (if b then 1 else 0) | JNull \<Rightarrow> fallback | JArr _ \<Rightarrow> fallback | JObj _ \<Rightarrow> fallback
      | _ \<Rightarrow> (case l_int L v of None \<Rightarrow> fallback | Some n \<Rightarrow> n))"

definition prompt_preview :: "string option \<Rightarrow> nat \<Rightarrow> string option" where
  "prompt_preview prompt limit =
     (let t = compact (case prompt of None \<Rightarrow> [] | Some p \<Rightarrow> p)
      in if t = [] then None else if length t \<le> limit then Some t else Some (take (limit - 3) t @ ''...''))"

definition normalize_message_text :: "string \<Rightarrow> string" where
  "normalize_message_text s = lower (compact s)"

section \<open>Columns that hold JSON or text\<close>

text \<open>
  A column written by \<open>serialize_maybe_json\<close> holds either a dumped value or a text kept as it came,
  because it looked like JSON.
\<close>

definition serialize_maybe_json :: "json \<Rightarrow> content option" where
  "serialize_maybe_json v =
     (case v of
        JNull \<Rightarrow> None
      | JStr s \<Rightarrow>
          (let t = strip s
           in if t = [] then None
              else if prefix ''{'' t \<or> prefix ''['' t then Some (Text t) else Some (Dumped (JStr t)))
      | _ \<Rightarrow> Some (Dumped v))"

definition restore_maybe_json :: "(string \<Rightarrow> json option) \<Rightarrow> content option \<Rightarrow> json" where
  "restore_maybe_json parse c =
     (case c of
        None \<Rightarrow> JNull
      | Some (Dumped v) \<Rightarrow> v
      | Some (Text t) \<Rightarrow> if t = [] then JNull else (case parse t of None \<Rightarrow> JStr t | Some v \<Rightarrow> v))"

section \<open>Liveness\<close>

definition DEFAULT_DEGRADED_AFTER_SECONDS :: int where "DEFAULT_DEGRADED_AFTER_SECONDS = 45"
definition DEFAULT_OFFLINE_AFTER_SECONDS :: int where "DEFAULT_OFFLINE_AFTER_SECONDS = 90"
definition DEFAULT_STORED_MESSAGE_WINDOW :: nat where "DEFAULT_STORED_MESSAGE_WINDOW = 200"
definition DEFAULT_THREAD_MESSAGE_LIMIT :: int where "DEFAULT_THREAD_MESSAGE_LIMIT = 120"
definition DEFAULT_PENDING_COMMAND_VISIBILITY_SECONDS :: int where "DEFAULT_PENDING_COMMAND_VISIBILITY_SECONDS = 180"

definition compute_machine_status :: "instant \<Rightarrow> instant option \<Rightarrow> int \<Rightarrow> int \<Rightarrow> string" where
  "compute_machine_status now seen degraded offline =
     (case seen of
        None \<Rightarrow> ''offline''
      | Some t \<Rightarrow>
          (let age = max 0 (now - t)
           in if seconds offline < age then ''offline'' else if seconds degraded < age then ''degraded'' else ''online''))"

abbreviation machine_status :: "instant \<Rightarrow> instant \<Rightarrow> string" where
  "machine_status now t \<equiv>
     compute_machine_status now (Some t) DEFAULT_DEGRADED_AFTER_SECONDS DEFAULT_OFFLINE_AFTER_SECONDS"

section \<open>Who asked\<close>

text \<open>\<open>payload.get(a) or payload.get(b)\<close>: the camel-case field, or its snake-case spelling.\<close>

definition either_get :: "obj \<Rightarrow> string \<Rightarrow> string \<Rightarrow> json" where
  "either_get kvs a b = py_or (obj_get kvs a) (obj_get kvs b)"

definition jtext :: "string option \<Rightarrow> json" where
  "jtext t = (case t of None \<Rightarrow> JNull | Some s \<Rightarrow> JStr s)"

definition normalize_requested_by :: "lib \<Rightarrow> obj \<Rightarrow> obj" where
  "normalize_requested_by L p =
     [(''authMethod'', JStr (compact_text L (either_get p ''authMethod'' ''auth_method'') ''unknown'')),
      (''email'', jtext (some_text (compacted L (obj_get p ''email'')))),
      (''name'', jtext (some_text (compacted L (obj_get p ''name'')))),
      (''subject'', jtext (some_text (compacted L (obj_get p ''subject'')))),
      (''assertedClientId'', jtext (some_text (compacted L (either_get p ''assertedClientId'' ''asserted_client_id''))))]"

definition created_by :: "lib \<Rightarrow> obj \<Rightarrow> string" where
  "created_by L r =
     (let e = compacted L (obj_get r ''email''); n = compacted L (obj_get r ''name''); s = compacted L (obj_get r ''subject'')
      in if e \<noteq> [] then e else if n \<noteq> [] then n else if s \<noteq> [] then s else ''bridge-service'')"

definition requested_by_of ::
  "lib \<Rightarrow> json \<Rightarrow> json \<Rightarrow> json \<Rightarrow> json \<Rightarrow> json \<Rightarrow> obj" where
  "requested_by_of L auth email name subject client =
     [(''authMethod'', JStr (compact_text L auth ''unknown'')),
      (''email'', jtext (some_text (compacted L email))),
      (''name'', jtext (some_text (compacted L name))),
      (''subject'', jtext (some_text (compacted L subject))),
      (''assertedClientId'', jtext (some_text (compacted L client)))]"

section \<open>Attachments\<close>

text \<open>The data of an image is its URL, that of any other file its base64 text.\<close>

datatype attachment_data = DataUrl string | BytesBase64 string

record attachment =
  at_name :: string
  at_mime :: string
  at_kind :: string
  at_size :: int
  at_data :: attachment_data

fun data_field :: "attachment_data \<Rightarrow> string \<times> json" where
  "data_field (DataUrl u) = (''dataUrl'', JStr u)"
| "data_field (BytesBase64 b) = (''bytesBase64'', JStr b)"

definition attachment_fields :: "attachment \<Rightarrow> obj" where
  "attachment_fields a =
     [(''name'', JStr (at_name a)), (''mimeType'', JStr (at_mime a)), (''kind'', JStr (at_kind a)), (''size'', JInt (at_size a))]"

definition attachment_obj :: "attachment \<Rightarrow> json" where
  "attachment_obj a = JObj (attachment_fields a @ [data_field (at_data a)])"

definition attachment_kind :: "lib \<Rightarrow> obj \<Rightarrow> string \<Rightarrow> string" where
  "attachment_kind L kvs mime =
     (let k = lower (compacted L (obj_get kvs ''kind''))
      in if k = [] then (if prefix ''image/'' mime then ''image'' else ''file'') else k)"

definition normalize_command_attachment :: "lib \<Rightarrow> json \<Rightarrow> attachment option" where
  "normalize_command_attachment L v =
     (case v of
        JObj kvs \<Rightarrow>
          (let name = compact_text L (obj_get kvs ''name'') ''attachment'';
               mime = compact_text L (either_get kvs ''mimeType'' ''mime_type'') ''application/octet-stream'';
               kind = attachment_kind L kvs mime;
               size = max 0 (coerce_int L (obj_get kvs ''size'') 0);
               url = compacted L (either_get kvs ''dataUrl'' ''data_url'');
               b64 = compacted L (either_get kvs ''bytesBase64'' ''bytes_base64'')
           in if kind \<notin> {''image'', ''file''} then None
              else if kind = ''image''
              then (if url = [] then None
                    else Some \<lparr>at_name = name, at_mime = mime, at_kind = kind, at_size = size, at_data = DataUrl url\<rparr>)
              else if b64 = [] then None
              else Some \<lparr>at_name = name, at_mime = mime, at_kind = kind, at_size = size, at_data = BytesBase64 b64\<rparr>)
      | _ \<Rightarrow> None)"

definition normalize_command_attachments :: "lib \<Rightarrow> obj \<Rightarrow> attachment list" where
  "normalize_command_attachments L p =
     (case py_or (py_or (obj_get p ''attachments'') (obj_get p ''browserAttachments'')) (JArr []) of
        JArr xs \<Rightarrow> List.map_filter (normalize_command_attachment L) xs
      | _ \<Rightarrow> [])"

definition serialize_requested_by :: "lib \<Rightarrow> obj \<Rightarrow> obj" where
  "serialize_requested_by L p =
     (let who = normalize_requested_by L p; files = normalize_command_attachments L p
      in if files = [] then who else who @ [(''attachments'', JArr (map attachment_obj files))])"

definition public_command_attachments :: "lib \<Rightarrow> obj \<Rightarrow> bool \<Rightarrow> json list" where
  "public_command_attachments L p with_data =
     map (\<lambda>a. JObj (attachment_fields a @ (if with_data then [data_field (at_data a)] else [])))
       (normalize_command_attachments L p)"

text \<open>
  The browser's upload, \<open>normalize_browser_turn_attachments\<close>: here \<open>size\<close> goes through \<open>int(x or 0)\<close>, and a
  kind other than \<open>image\<close> is stored as \<open>file\<close>.
\<close>

definition normalize_browser_attachment :: "lib \<Rightarrow> json \<Rightarrow> attachment option" where
  "normalize_browser_attachment L v =
     (case v of
        JObj kvs \<Rightarrow>
          (let name = compact_text L (obj_get kvs ''name'') ''attachment'';
               mime = compact_text L (either_get kvs ''mimeType'' ''mime_type'') ''application/octet-stream'';
               kind = attachment_kind L kvs mime;
               size = max 0 (coerce_int L (py_or (obj_get kvs ''size'') (JInt 0)) 0);
               url = compacted L (either_get kvs ''dataUrl'' ''data_url'');
               b64 = compacted L (either_get kvs ''bytesBase64'' ''bytes_base64'')
           in if kind = ''image''
              then (if url = [] then None
                    else Some \<lparr>at_name = name, at_mime = mime, at_kind = ''image'', at_size = size, at_data = DataUrl url\<rparr>)
              else if b64 = [] then None
              else Some \<lparr>at_name = name, at_mime = mime, at_kind = ''file'', at_size = size, at_data = BytesBase64 b64\<rparr>)
      | _ \<Rightarrow> None)"

definition normalize_browser_turn_attachments :: "lib \<Rightarrow> json list \<Rightarrow> attachment list" where
  "normalize_browser_turn_attachments L xs = List.map_filter (normalize_browser_attachment L) xs"

fun join_text :: "string \<Rightarrow> string list \<Rightarrow> string" where
  "join_text sep [] = []"
| "join_text sep [x] = x"
| "join_text sep (x # y # ys) = x @ sep @ join_text sep (y # ys)"

definition build_browser_turn_prompt :: "string \<Rightarrow> attachment list \<Rightarrow> string" where
  "build_browser_turn_prompt prompt files =
     (let p = compact prompt; names = filter (\<lambda>n. n \<noteq> []) (map (\<lambda>a. compact (at_name a)) files)
      in if p \<noteq> [] then p
         else if files = [] then []
         else if names \<noteq> [] then ''Use the attached context: '' @ join_text '', '' (take 3 names)
         else ''Use the attached files and images as context for this turn.'')"

definition normalize_thread_status :: "json \<Rightarrow> json" where
  "normalize_thread_status status =
     (let raw = (case status of JStr s \<Rightarrow> JStr s | JObj kvs \<Rightarrow> obj_get kvs ''type'' | _ \<Rightarrow> JNull)
      in if raw = JStr ''active'' then JStr ''inProgress'' else if raw = JStr ''notLoaded'' then JStr ''idle'' else raw)"

section \<open>What is stored is what comes back\<close>

definition attachment_ok :: "attachment \<Rightarrow> bool" where
  "attachment_ok a \<longleftrightarrow>
     at_name a \<noteq> [] \<and> compact (at_name a) = at_name a \<and> at_mime a \<noteq> [] \<and> compact (at_mime a) = at_mime a \<and> 0 \<le> at_size a
     \<and> (case at_data a of DataUrl u \<Rightarrow> at_kind a = ''image'' \<and> u \<noteq> [] \<and> compact u = u
        | BytesBase64 b \<Rightarrow> at_kind a = ''file'' \<and> b \<noteq> [] \<and> compact b = b)"

lemma compact_text_fixed [simp]:
  "compact s = s \<Longrightarrow> s \<noteq> [] \<Longrightarrow> compact_text L (JStr s) fb = s"
  by (simp add: compact_text_def value_text_def)

lemma compact_text_result: "compact fb = fb \<Longrightarrow> compact (compact_text L v fb) = compact_text L v fb"
  by (simp add: compact_text_def Let_def)

lemma compact_text_nonempty: "fb \<noteq> [] \<Longrightarrow> compact_text L v fb \<noteq> []"
  by (simp add: compact_text_def Let_def)

lemma compact_defaults [simp]: "compact ''attachment'' = ''attachment''"
  "compact ''application/octet-stream'' = ''application/octet-stream''"
  "compact ''image'' = ''image''" "compact ''file'' = ''file''" "lower ''image'' = ''image''" "lower ''file'' = ''file''"
  by code_simp+

lemma browser_attachment_ok:
  assumes "normalize_browser_attachment L v = Some a"
  shows "attachment_ok a"
  using assms compact_text_result [of "[]"] compact_text_nonempty
  by (auto simp: normalize_browser_attachment_def attachment_ok_def Let_def compact_text_result split: json.splits if_splits)

lemma command_attachment_back:
  assumes "attachment_ok a"
  shows "normalize_command_attachment L (attachment_obj a) = Some a"
proof (cases "at_data a")
  case (DataUrl u)
  with assms show ?thesis
    by (cases a) (auto simp: attachment_ok_def normalize_command_attachment_def attachment_obj_def attachment_fields_def
        either_get_def py_or_def attachment_kind_def coerce_int_def)
next
  case (BytesBase64 b)
  with assms show ?thesis
    by (cases a) (auto simp: attachment_ok_def normalize_command_attachment_def attachment_obj_def attachment_fields_def
        either_get_def py_or_def attachment_kind_def coerce_int_def)
qed

lemma command_attachments_back:
  "\<forall>a \<in> set files. attachment_ok a \<Longrightarrow> List.map_filter (normalize_command_attachment L) (map attachment_obj files) = files"
  by (induction files) (auto simp: map_filter_simps command_attachment_back)

lemma browser_attachments_ok: "\<forall>a \<in> set (normalize_browser_turn_attachments L xs). attachment_ok a"
  by (auto simp: normalize_browser_turn_attachments_def map_filter_def dest: browser_attachment_ok)

end
