(* ===== verification/CodexState.thy ===== *)
theory CodexState
  imports CodexValues Broker RemoteTasks KernelTasks
begin

text \<open>
  \<open>RemoteCodexStateService\<close> of \<open>behaviors/remote_codex/state_service.py\<close>: the machines that run a Codex
  executor, their threads and messages as last synced, and the queue of commands the browser sends to
  a machine. Every command is shadowed by a row of the kernel task queue (\<open>KernelTasks\<close>), and every
  publication goes to the behavior's own subscribers and to the kernel broker. A thread's messages hang
  on its surrogate key, \<open>ct_row\<close>.
\<close>

section \<open>State\<close>

abbreviation COMMAND_QUEUED :: string where "COMMAND_QUEUED \<equiv> ''queued''"
abbreviation COMMAND_RUNNING :: string where "COMMAND_RUNNING \<equiv> ''running''"
abbreviation COMMAND_COMPLETED :: string where "COMMAND_COMPLETED \<equiv> ''completed''"
abbreviation COMMAND_FAILED :: string where "COMMAND_FAILED \<equiv> ''failed''"
abbreviation TURN_START :: string where "TURN_START \<equiv> ''turn.start''"
abbreviation TURN_INTERRUPT :: string where "TURN_INTERRUPT \<equiv> ''turn.interrupt''"
abbreviation THREAD_DELETE :: string where "THREAD_DELETE \<equiv> ''thread.delete''"
abbreviation THREAD_START :: string where "THREAD_START \<equiv> ''thread.start''"
abbreviation FS_LIST :: string where "FS_LIST \<equiv> ''fs.list''"
abbreviation FS_MKDIR :: string where "FS_MKDIR \<equiv> ''fs.mkdir''"

definition ACTIVE_PENDING_TASK_STATUSES :: "string list" where
  "ACTIVE_PENDING_TASK_STATUSES = [''queued'', ''claimed'', ''executing'', ''verifying'', ''blocked_approval'']"
definition PENDING_COMMAND_TURN_STATUSES :: "string list" where
  "PENDING_COMMAND_TURN_STATUSES = [''queued'', ''inprogress'', ''in_progress'', ''running'']"

text \<open>The library calls that need a value back: \<open>json.loads\<close> and \<open>datetime.fromisoformat\<close>.\<close>

record codex_lib =
  z_lib :: lib
  z_parse :: "string \<Rightarrow> json option"
  z_time :: "json \<Rightarrow> instant option"

record codex_machine =
  cm_id :: string
  cm_name :: string
  cm_source :: string
  cm_transport :: string
  cm_mode :: string
  cm_available :: bool
  cm_capabilities :: json
  cm_descriptor :: "content option"
  cm_error :: json
  cm_diagnostic :: json
  cm_seen :: instant
  cm_sync :: instant

record codex_thread =
  ct_row :: nat
  ct_machine :: string
  ct_id :: string
  ct_title :: string
  ct_cwd :: string
  ct_rollout :: string
  ct_updated_ms :: int
  ct_created_ms :: int
  ct_source :: "string option"
  ct_provider :: "string option"
  ct_model :: "string option"
  ct_effort :: "string option"
  ct_cli :: "string option"
  ct_first :: string
  ct_forked :: "string option"
  ct_ephemeral :: bool
  ct_status :: "content option"
  ct_nickname :: "string option"
  ct_role :: "string option"
  ct_total :: int
  ct_lines :: int
  ct_size :: int
  ct_synced :: "instant option"

record codex_message =
  mg_row :: nat
  mg_line :: int
  mg_time :: json
  mg_role :: string
  mg_phase :: "string option"
  mg_text :: string
  mg_images :: json

record command =
  y_id :: string
  y_type :: string
  y_status :: string
  y_machine :: string
  y_thread :: string
  y_task :: "string option"
  y_turn :: "string option"
  y_prompt :: "string option"
  y_requested :: obj
  y_worker :: "string option"
  y_result :: "obj option"
  y_error :: "obj option"
  y_created :: instant
  y_updated :: instant
  y_started :: "instant option"
  y_completed :: "instant option"

record listener =
  sl_id :: nat
  sl_machine :: string
  sl_thread :: string
  sl_queue :: "obj list"

record codex =
  cx_machines :: "codex_machine list"
  cx_threads :: "codex_thread list"
  cx_messages :: "codex_message list"
  cx_commands :: "command list"
  cx_kernel :: kqueue
  cx_tasks :: remote
  cx_listeners :: "listener list"
  cx_broker :: "broker option"
  cx_next :: nat

datatype codex_error =
  CodexError string | CodexBusy string | CodexAttribute | CodexDb string | CodexTask remote_error

section \<open>Publishing\<close>

definition remote_codex_machine_space_id :: "string \<Rightarrow> string" where
  "remote_codex_machine_space_id m = ''remote_codex.machine:'' @ m"

definition remote_codex_thread_space_id :: "string \<Rightarrow> string" where
  "remote_codex_thread_space_id t = ''remote_codex.thread:'' @ t"

definition codex_subscribe :: "string \<Rightarrow> string \<Rightarrow> codex \<Rightarrow> nat \<times> codex" where
  "codex_subscribe m t s =
     (cx_next s, s\<lparr>cx_listeners := cx_listeners s @ [\<lparr>sl_id = cx_next s, sl_machine = m, sl_thread = t, sl_queue = []\<rparr>],
        cx_next := Suc (cx_next s)\<rparr>)"

definition subscribe_machine :: "string \<Rightarrow> codex \<Rightarrow> nat \<times> codex" where
  "subscribe_machine m = codex_subscribe m ''*''"

definition codex_unsubscribe :: "nat \<Rightarrow> codex \<Rightarrow> codex" where
  "codex_unsubscribe k s = s\<lparr>cx_listeners := filter (\<lambda>l. sl_id l \<noteq> k) (cx_listeners s)\<rparr>"

definition hears :: "string \<Rightarrow> string \<Rightarrow> listener \<Rightarrow> bool" where
  "hears m t l \<longleftrightarrow> sl_machine l = m \<and> (t = ''*'' \<or> sl_thread l = t \<or> sl_thread l = ''*'')"

text \<open>Where the kernel broker sees a publication: its space, event id, kind and actor.\<close>

definition kernel_route :: "lib \<Rightarrow> instant \<Rightarrow> string \<Rightarrow> string \<Rightarrow> obj \<Rightarrow> (string \<times> string \<times> string \<times> string) option" where
  "kernel_route L now m t payload =
     (let kind = value_text L (py_or (obj_get payload ''kind'') (JStr ''event'')); mt = compact m; actor = (if mt = [] then ''remote_codex'' else mt)
      in if kind = ''command''
         then (case obj_get payload ''command'' of
                 JObj c \<Rightarrow>
                   (let ev = compacted L (obj_get c ''commandId''); st = compacted L (obj_get c ''status'');
                        w = compacted L (obj_get c ''workerId'')
                    in if ev = [] then None
                       else Some (remote_codex_machine_space_id m, ev,
                              if st = [] then ''remote_codex.command'' else ''remote_codex.command.'' @ st,
                              if w = [] then actor else w))
               | _ \<Rightarrow> None)
         else if kind = ''machine''
         then (let c = (case obj_get payload ''machine'' of JObj c \<Rightarrow> c | _ \<Rightarrow> []); ev = compacted L (obj_get c ''machineId'')
               in Some (remote_codex_machine_space_id m, if ev \<noteq> [] then ev else if mt \<noteq> [] then mt else ''remote_codex.machine'',
                    ''remote_codex.machine'', actor))
         else if t = [] \<or> t = ''*'' then None
         else Some (remote_codex_thread_space_id t, t @ ''-'' @ kind @ ''-'' @ dec_int now, ''remote_codex.'' @ kind, actor))"

definition mirror_to_kernel_broker :: "lib \<Rightarrow> instant \<Rightarrow> string \<Rightarrow> string \<Rightarrow> obj \<Rightarrow> broker \<Rightarrow> broker" where
  "mirror_to_kernel_broker L now m t payload b =
     (case kernel_route L now m t payload of
        None \<Rightarrow> b
      | Some (space, ev, kind, actor) \<Rightarrow>
          broker_publish now space
            \<lparr>v_cursor = encode_event_cursor now ev, v_space = space, v_id = ev, v_kind = kind, v_actor = actor,
             v_body = Dumped (JObj (fold (\<lambda>(f, v) o'. AList.update f v o') payload
                        [(''machineId'', JStr m), (''threadId'', JStr t)])), v_created = now\<rparr> b)"

definition codex_publish :: "lib \<Rightarrow> instant \<Rightarrow> string \<Rightarrow> string \<Rightarrow> obj \<Rightarrow> codex \<Rightarrow> codex" where
  "codex_publish L now m t payload s =
     s\<lparr>cx_broker := map_option (mirror_to_kernel_broker L now m t payload) (cx_broker s),
       cx_listeners := map (\<lambda>l. if hears m t l then l\<lparr>sl_queue := sl_queue l @ [payload]\<rparr> else l) (cx_listeners s)\<rparr>"

section \<open>The kernel shadow of a command\<close>

text \<open>
  An error of the shadow is swallowed, except that a clash of keys at the flush leaves the session
  unusable, so that the commit raises.
\<close>

definition mirror_command_enqueue :: "lib \<Rightarrow> instant \<Rightarrow> command \<Rightarrow> kqueue \<Rightarrow> codex_error + kqueue" where
  "mirror_command_enqueue L now c q =
     (case enqueue now (remote_codex_machine_space_id (y_machine c)) ''remote_codex.command''
             [(''machine_id'', JStr (y_machine c)), (''thread_id'', JStr (y_thread c)), (''command_type'', JStr (y_type c)),
              (''turn_id'', jtext (y_turn c)), (''task_id'', jtext (y_task c))]
             0 (compacted L (obj_get (y_requested c) ''actorId'')) None (Some (y_id c)) q of
        Inl TaskExists \<Rightarrow> Inl (CodexDb ''PendingRollback'')
      | Inl _ \<Rightarrow> Inr q
      | Inr (_, q') \<Rightarrow> Inr q')"

definition shadow_row ::
  "instant \<Rightarrow> string \<Rightarrow> string option \<Rightarrow> obj option \<Rightarrow> obj option \<Rightarrow> ktask \<Rightarrow> ktask" where
  "shadow_row now status owner result err r =
     (let r1 = r\<lparr>k_status := status, k_owner := (case owner of None \<Rightarrow> k_owner r | Some a \<Rightarrow> Some a), k_updated := now\<rparr>;
          r2 = (if status = TASK_STATUS_CLAIMED
                then r1\<lparr>k_claims := k_claims r + 1, k_started := (case k_started r of None \<Rightarrow> Some now | Some t \<Rightarrow> Some t)\<rparr>
                else r1)
      in if status = TASK_STATUS_COMPLETED \<and> result \<noteq> None
         then r2\<lparr>k_result := result, k_completed := Some now, k_lease := None\<rparr>
         else if status = TASK_STATUS_FAILED
         then r2\<lparr>k_error := Some (case err of None \<Rightarrow> [(''message'', JStr ''Unknown error'')]
                     | Some e \<Rightarrow> if e = [] then [(''message'', JStr ''Unknown error'')] else e),
                 k_completed := Some now, k_lease := None\<rparr>
         else r2)"

definition mirror_command_transition ::
  "instant \<Rightarrow> string \<Rightarrow> string \<Rightarrow> string option \<Rightarrow> obj option \<Rightarrow> obj option \<Rightarrow> kqueue \<Rightarrow> kqueue" where
  "mirror_command_transition now k status owner result err q = task_upd (Ext k) (shadow_row now status owner result err) q"

section \<open>Public shapes\<close>

definition jtime_opt :: "lib \<Rightarrow> instant option \<Rightarrow> json" where
  "jtime_opt L t = jopt (jtime L) t"

definition machine_public :: "codex_lib \<Rightarrow> instant \<Rightarrow> codex_machine \<Rightarrow> nat \<Rightarrow> obj" where
  "machine_public Z now r n =
     [(''machineId'', JStr (cm_id r)), (''displayName'', JStr (cm_name r)),
      (''source'', JStr (if cm_source r = [] then ''agent'' else cm_source r)),
      (''status'', JStr (machine_status now (cm_seen r))),
      (''activeTransport'', JStr (if cm_transport r = [] then ''filesystem-storage'' else cm_transport r)),
      (''runtimeMode'', JStr (if cm_mode r = [] then ''filesystem-readonly'' else cm_mode r)),
      (''runtimeAvailable'', JBool (cm_available r)), (''capabilities'', cm_capabilities r),
      (''runtimeDescriptor'', restore_maybe_json (z_parse Z) (cm_descriptor r)),
      (''lastSeenAt'', jtime (z_lib Z) (cm_seen r)), (''lastSyncAt'', jtime (z_lib Z) (cm_sync r)),
      (''lastRuntimeError'', cm_error r), (''lastDiagnostic'', cm_diagnostic r), (''threadCount'', JInt (int n))]"

definition thread_public :: "codex_lib \<Rightarrow> codex_thread \<Rightarrow> obj" where
  "thread_public Z r =
     [(''id'', JStr (ct_id r)), (''title'', JStr (if ct_title r = [] then ''(untitled)'' else ct_title r)),
      (''cwd'', JStr (ct_cwd r)), (''rolloutPath'', JStr (ct_rollout r)), (''updatedAtMs'', JInt (ct_updated_ms r)),
      (''createdAtMs'', JInt (ct_created_ms r)), (''source'', jtext (ct_source r)), (''modelProvider'', jtext (ct_provider r)),
      (''model'', jtext (ct_model r)), (''reasoningEffort'', jtext (ct_effort r)), (''cliVersion'', jtext (ct_cli r)),
      (''firstUserMessage'', JStr (ct_first r)), (''forkedFromId'', jtext (ct_forked r)), (''ephemeral'', JBool (ct_ephemeral r)),
      (''status'', restore_maybe_json (z_parse Z) (ct_status r)), (''agentNickname'', jtext (ct_nickname r)),
      (''agentRole'', jtext (ct_role r))]"

definition message_public :: "codex_message \<Rightarrow> obj" where
  "message_public r =
     [(''lineNumber'', JInt (mg_line r)), (''timestamp'', mg_time r), (''role'', JStr (mg_role r)),
      (''phase'', jtext (mg_phase r)), (''text'', JStr (mg_text r)), (''images'', mg_images r)]"

definition command_turn_id :: "lib \<Rightarrow> command \<Rightarrow> string option" where
  "command_turn_id L c =
     (let t = compact (case y_turn c of None \<Rightarrow> [] | Some t \<Rightarrow> t)
      in if t \<noteq> [] then Some t
         else case y_result c of None \<Rightarrow> None | Some r \<Rightarrow> some_text (compacted L (obj_get r ''turnId'')))"

definition command_turn_status :: "lib \<Rightarrow> obj option \<Rightarrow> string" where
  "command_turn_status L r = (case r of None \<Rightarrow> [] | Some kvs \<Rightarrow> lower (compacted L (obj_get kvs ''turnStatus'')))"

definition command_public :: "lib \<Rightarrow> command \<Rightarrow> bool \<Rightarrow> obj" where
  "command_public L c with_data =
     [(''commandId'', JStr (y_id c)), (''type'', JStr (y_type c)), (''status'', JStr (y_status c)),
      (''machineId'', JStr (y_machine c)), (''threadId'', JStr (y_thread c)), (''taskId'', jtext (y_task c)),
      (''turnId'', jtext (command_turn_id L c)), (''prompt'', jtext (y_prompt c)),
      (''promptPreview'', jtext (prompt_preview (y_prompt c) 160)), (''createdAt'', jtime L (y_created c)),
      (''updatedAt'', jtime L (y_updated c)), (''startedAt'', jtime_opt L (y_started c)),
      (''completedAt'', jtime_opt L (y_completed c)),
      (''requestedBy'', JObj (normalize_requested_by L (y_requested c))),
      (''attachments'', JArr (public_command_attachments L (y_requested c) with_data)),
      (''result'', jopt JObj (y_result c)), (''error'', jopt JObj (y_error c))]"

definition command_row :: "string \<Rightarrow> codex \<Rightarrow> command option" where
  "command_row k s = row_get y_id k (cx_commands s)"

definition get_command_public :: "lib \<Rightarrow> string \<Rightarrow> codex \<Rightarrow> obj option" where
  "get_command_public L k s =
     map_option (\<lambda>c. command_public L c False @ [(''id'', JStr (y_id c))]) (command_row k s)"

end
