(* ===== verification/CodexQueue.thy ===== *)
theory CodexQueue
  imports CodexState
begin

text \<open>
  The reads of \<open>RemoteCodexStateService\<close> and its command queue: enqueue, claim, complete, fail, the rule
  that calls a command stale, and the snapshot of a thread with the turns that are still pending.
\<close>

section \<open>Machines and threads\<close>

definition thread_count :: "string \<Rightarrow> codex \<Rightarrow> nat" where
  "thread_count m s = length (filter (\<lambda>t. ct_machine t = m) (cx_threads s))"

definition machine_row :: "string \<Rightarrow> codex \<Rightarrow> codex_machine option" where
  "machine_row m s = row_get cm_id m (cx_machines s)"

definition thread_row :: "string \<Rightarrow> string \<Rightarrow> codex \<Rightarrow> codex_thread option" where
  "thread_row m t s = List.find (\<lambda>r. ct_machine r = m \<and> ct_id r = t) (cx_threads s)"

definition status_rank :: "string \<Rightarrow> nat" where
  "status_rank st = (if st = ''online'' then 0 else if st = ''degraded'' then 1 else if st = ''offline'' then 2 else 99)"

definition active_machines :: "instant \<Rightarrow> bool \<Rightarrow> codex \<Rightarrow> codex_machine list" where
  "active_machines now active_only s =
     sort_key (\<lambda>r. status_rank (machine_status now (cm_seen r)))
       (sort_key (\<lambda>r. - cm_seen r)
         (filter (\<lambda>r. active_only \<longrightarrow> machine_status now (cm_seen r) = ''online'') (cx_machines s)))"

definition list_machines :: "codex_lib \<Rightarrow> instant \<Rightarrow> bool \<Rightarrow> codex \<Rightarrow> obj list" where
  "list_machines Z now active_only s =
     map (\<lambda>r. machine_public Z now r (thread_count (cm_id r) s)) (active_machines now active_only s)"

definition machine_summary :: "instant \<Rightarrow> bool \<Rightarrow> codex \<Rightarrow> obj" where
  "machine_summary now active_only s =
     (let ms = active_machines now active_only s;
          n = (\<lambda>st. JInt (int (length (filter (\<lambda>r. machine_status now (cm_seen r) = st) ms))))
      in [(''totalMachines'', JInt (int (length ms))), (''onlineMachines'', n ''online''),
          (''degradedMachines'', n ''degraded''), (''offlineMachines'', n ''offline'')])"

definition get_machine :: "codex_lib \<Rightarrow> instant \<Rightarrow> string \<Rightarrow> codex \<Rightarrow> obj option" where
  "get_machine Z now m s = map_option (\<lambda>r. machine_public Z now r (thread_count m s)) (machine_row m s)"

definition get_threads :: "codex_lib \<Rightarrow> string \<Rightarrow> string \<Rightarrow> int \<Rightarrow> codex \<Rightarrow> obj list option" where
  "get_threads Z m query limit s =
     (case machine_row m s of
        None \<Rightarrow> None
      | Some _ \<Rightarrow>
          (let rows = sort_key (\<lambda>r. - ct_updated_ms r) (sort_key (\<lambda>r. Position 0 (ct_title r)) (filter (\<lambda>r. ct_machine r = m) (cx_threads s)));
               items = map (thread_public Z) rows; q = lower (compact query);
               hits = (if q = [] then items
                       else filter (\<lambda>i. list_ex (\<lambda>f. contains q (lower (compacted (z_lib Z) (obj_get i f))))
                              [''title'', ''cwd'', ''firstUserMessage'']) items)
           in Some (take (clamp_limit 200 limit) hits)))"

definition codex_get_thread :: "codex_lib \<Rightarrow> string \<Rightarrow> string \<Rightarrow> codex \<Rightarrow> obj option" where
  "codex_get_thread Z m t s = map_option (thread_public Z) (thread_row m t s)"

section \<open>Stale commands\<close>

definition of_thread :: "string \<Rightarrow> string \<Rightarrow> command \<Rightarrow> bool" where
  "of_thread m t c \<longleftrightarrow> y_machine c = m \<and> y_thread c = t"

definition recent_commands :: "string \<Rightarrow> string \<Rightarrow> codex \<Rightarrow> command list" where
  "recent_commands m t s = sort_key (\<lambda>c. - y_updated c) (select_desc y_created (of_thread m t) (cx_commands s))"

definition finished_turn :: "command \<Rightarrow> bool" where
  "finished_turn c \<longleftrightarrow> lower (compact (y_type c)) = TURN_START \<and> lower (compact (y_status c)) = COMMAND_COMPLETED"

definition latest_turn :: "lib \<Rightarrow> command list \<Rightarrow> string option" where
  "latest_turn L rows =
     (case List.map_filter (command_turn_id L) (filter finished_turn rows) of [] \<Rightarrow> None | t # _ \<Rightarrow> Some t)"

definition linked_status :: "codex \<Rightarrow> command \<Rightarrow> string" where
  "linked_status s c =
     (case y_task c of
        None \<Rightarrow> []
      | Some k \<Rightarrow> if k = [] then []
                   else case task_row k (cx_tasks s) of None \<Rightarrow> [] | Some r \<Rightarrow> lower (compact (x_status r)))"

definition linked_active :: "codex \<Rightarrow> command \<Rightarrow> bool" where
  "linked_active s c \<longleftrightarrow> linked_status s c \<in> set ACTIVE_PENDING_TASK_STATUSES"

definition command_age :: "instant \<Rightarrow> command \<Rightarrow> int" where
  "command_age now c = max 0 (now - y_created c)"

definition stale_turn :: "lib \<Rightarrow> instant \<Rightarrow> command list \<Rightarrow> codex \<Rightarrow> command \<Rightarrow> bool" where
  "stale_turn L now rows s c \<longleftrightarrow>
     finished_turn c \<and> command_turn_status L (y_result c) \<in> set PENDING_COMMAND_TURN_STATUSES
     \<and> ((case (latest_turn L rows, command_turn_id L c) of (Some a, Some b) \<Rightarrow> b \<noteq> a | _ \<Rightarrow> False)
        \<or> (\<not> linked_active s c \<and> seconds DEFAULT_PENDING_COMMAND_VISIBILITY_SECONDS < command_age now c))"

definition stale_thread_command_ids ::
  "lib \<Rightarrow> instant \<Rightarrow> string \<Rightarrow> string \<Rightarrow> codex \<Rightarrow> string list \<times> string list" where
  "stale_thread_command_ids L now m t s =
     (let rows = recent_commands m t s; stale = filter (stale_turn L now rows s) rows
      in (map y_id stale, map y_id (filter (\<lambda>c. \<not> linked_active s c) stale)))"

definition drop_commands :: "string list \<Rightarrow> codex \<Rightarrow> codex" where
  "drop_commands ids s = s\<lparr>cx_commands := filter (\<lambda>c. y_id c \<notin> set ids) (cx_commands s)\<rparr>"

text \<open>The read deletes the stale commands that no live task holds on to.\<close>

definition list_thread_commands ::
  "lib \<Rightarrow> instant \<Rightarrow> string \<Rightarrow> string \<Rightarrow> int \<Rightarrow> bool \<Rightarrow> codex \<Rightarrow> command list \<times> codex" where
  "list_thread_commands L now m t limit include_stale s =
     (case stale_thread_command_ids L now m t s of (stale, deletable) \<Rightarrow>
        (let s' = drop_commands deletable s; rows = take (clamp_limit 30 limit) (recent_commands m t s')
         in (if include_stale then rows else filter (\<lambda>c. y_id c \<notin> set stale) rows, s')))"

definition get_active_thread_command ::
  "lib \<Rightarrow> instant \<Rightarrow> string \<Rightarrow> string \<Rightarrow> string option \<Rightarrow> codex \<Rightarrow> command option \<times> codex" where
  "get_active_thread_command L now m t ty s =
     (case list_thread_commands L now m t 20 False s of (rows, s') \<Rightarrow>
        (List.find (\<lambda>c. (case ty of None \<Rightarrow> True | Some x \<Rightarrow> x = [] \<or> y_type c = x) \<and> y_status c \<in> {COMMAND_QUEUED, COMMAND_RUNNING}) rows, s'))"

definition get_latest_turn_id :: "lib \<Rightarrow> instant \<Rightarrow> string \<Rightarrow> string \<Rightarrow> codex \<Rightarrow> string option \<times> codex" where
  "get_latest_turn_id L now m t s =
     (case list_thread_commands L now m t 20 False s of (rows, s') \<Rightarrow>
        (case List.map_filter (\<lambda>c. if y_type c = TURN_START \<and> y_status c = COMMAND_COMPLETED then command_turn_id L c else None) rows of
           [] \<Rightarrow> (None, s') | x # _ \<Rightarrow> (Some x, s')))"

section \<open>The command queue\<close>

definition command_set :: "string \<Rightarrow> (command \<Rightarrow> command) \<Rightarrow> codex \<Rightarrow> codex" where
  "command_set k f s = s\<lparr>cx_commands := row_upd y_id k f (cx_commands s)\<rparr>"

definition command_event :: "lib \<Rightarrow> command \<Rightarrow> obj" where
  "command_event L c = [(''kind'', JStr ''command''), (''command'', JObj (command_public L c False))]"

definition enqueue_command ::
  "lib \<Rightarrow> instant \<Rightarrow> string \<Rightarrow> string \<Rightarrow> string \<Rightarrow> string \<Rightarrow> obj \<Rightarrow> string option \<Rightarrow> string option \<Rightarrow> string option
     \<Rightarrow> codex \<Rightarrow> (codex_error + command) \<times> codex" where
  "enqueue_command L now k ty m t requested_by prompt turn task s =
     (let c = \<lparr>y_id = k, y_type = ty, y_status = COMMAND_QUEUED, y_machine = m, y_thread = t, y_task = task, y_turn = turn,
               y_prompt = prompt, y_requested = serialize_requested_by L requested_by, y_worker = None, y_result = None,
               y_error = None, y_created = now, y_updated = now, y_started = None, y_completed = None\<rparr>
      in if command_row k s \<noteq> None then (Inl (CodexDb ''UNIQUE remote_codex_commands.command_id''), s)
         else case mirror_command_enqueue L now c (cx_kernel s) of
                Inl e \<Rightarrow> (Inl e, s)
              | Inr q \<Rightarrow> (Inr c, codex_publish L now m t (command_event L c) (s\<lparr>cx_commands := cx_commands s @ [c], cx_kernel := q\<rparr>)))"

definition waiting_commands :: "string \<Rightarrow> codex \<Rightarrow> command list" where
  "waiting_commands m s = select_asc y_created (\<lambda>c. y_machine c = m \<and> y_status c = COMMAND_QUEUED) (cx_commands s)"

text \<open>The claimer's copy carries the attachments' data, the broadcast one does not.\<close>

definition claim_next_command :: "lib \<Rightarrow> instant \<Rightarrow> string \<Rightarrow> string \<Rightarrow> codex \<Rightarrow> command option \<times> codex" where
  "claim_next_command L now m worker s =
     (case waiting_commands m s of
        [] \<Rightarrow> (None, s)
      | c # _ \<Rightarrow>
          let w = compact_text L (JStr worker) ''unknown-worker'';
              c' = c\<lparr>y_status := COMMAND_RUNNING, y_worker := Some w, y_started := Some now, y_updated := now\<rparr>;
              s1 = (command_set (y_id c) (\<lambda>_. c') s)
                     \<lparr>cx_kernel := mirror_command_transition now (y_id c) TASK_STATUS_CLAIMED (Some w) None None (cx_kernel s)\<rparr>
          in (Some c', codex_publish L now m (y_thread c) (command_event L c') s1))"

definition settle_command ::
  "lib \<Rightarrow> instant \<Rightarrow> string \<Rightarrow> (command \<Rightarrow> command) \<Rightarrow> string \<Rightarrow> obj option \<Rightarrow> obj option \<Rightarrow> codex
     \<Rightarrow> (codex_error + command) \<times> codex" where
  "settle_command L now k f status result err s =
     (case command_row k s of
        None \<Rightarrow> (Inl (CodexError ''Unknown command''), s)
      | Some c \<Rightarrow>
          let c' = f c;
              s1 = (command_set k (\<lambda>_. c') s)\<lparr>cx_kernel := mirror_command_transition now k status (y_worker c') result err (cx_kernel s)\<rparr>
          in (Inr c', codex_publish L now (y_machine c') (y_thread c') (command_event L c') s1))"

definition settled_worker :: "lib \<Rightarrow> string \<Rightarrow> command \<Rightarrow> string option" where
  "settled_worker L worker c = Some (compact_text L (JStr worker) (case y_worker c of None \<Rightarrow> [] | Some w \<Rightarrow> w))"

definition complete_command ::
  "lib \<Rightarrow> instant \<Rightarrow> string \<Rightarrow> string \<Rightarrow> obj option \<Rightarrow> codex \<Rightarrow> (codex_error + command) \<times> codex" where
  "complete_command L now k worker result s =
     settle_command L now k
       (\<lambda>c. c\<lparr>y_status := COMMAND_COMPLETED, y_worker := settled_worker L worker c,
              y_result := Some (case result of None \<Rightarrow> [] | Some r \<Rightarrow> r), y_completed := Some now, y_updated := now,
              y_turn := (case result of None \<Rightarrow> y_turn c
                         | Some r \<Rightarrow> let t = compacted L (obj_get r ''turnId'') in if t = [] then y_turn c else Some t)\<rparr>)
       TASK_STATUS_COMPLETED result None s"

definition fail_command ::
  "lib \<Rightarrow> instant \<Rightarrow> string \<Rightarrow> string \<Rightarrow> obj option \<Rightarrow> codex \<Rightarrow> (codex_error + command) \<times> codex" where
  "fail_command L now k worker err s =
     settle_command L now k
       (\<lambda>c. c\<lparr>y_status := COMMAND_FAILED, y_worker := settled_worker L worker c,
              y_error := Some (case err of None \<Rightarrow> [(''message'', JStr ''Unknown error'')]
                     | Some e \<Rightarrow> if e = [] then [(''message'', JStr ''Unknown error'')] else e),
              y_completed := Some now, y_updated := now\<rparr>)
       TASK_STATUS_FAILED None err s"

section \<open>The snapshot of a thread\<close>

text \<open>
  A command is shown as a pending message of the user when it starts a turn, has a prompt that no
  shown message repeats, and is still on its way.
\<close>

definition pending_visible :: "lib \<Rightarrow> instant \<Rightarrow> codex \<Rightarrow> command \<Rightarrow> bool" where
  "pending_visible L now s c \<longleftrightarrow>
     (let st = lower (compact (y_status c)); turn = command_turn_status L (y_result c);
          live = (command_age now c \<le> seconds DEFAULT_PENDING_COMMAND_VISIBILITY_SECONDS \<or> linked_active s c)
      in (st \<in> {COMMAND_QUEUED, COMMAND_RUNNING} \<and> live)
         \<or> (st = COMMAND_COMPLETED \<and> turn \<in> set PENDING_COMMAND_TURN_STATUSES \<and> live))"

fun image_ref :: "attachment \<Rightarrow> json option" where
  "image_ref a = (case at_data a of
      DataUrl u \<Rightarrow> (if at_kind a = ''image'' \<and> compact u \<noteq> []
         then Some (JObj [(''src'', JStr u), (''alt'', JStr (at_name a)), (''title'', JStr (at_name a))]) else None)
    | BytesBase64 _ \<Rightarrow> None)"

definition pending_message :: "lib \<Rightarrow> instant \<Rightarrow> codex \<Rightarrow> string list \<Rightarrow> command \<Rightarrow> obj option" where
  "pending_message L now s texts c =
     (let prompt = compact (case y_prompt c of None \<Rightarrow> [] | Some p \<Rightarrow> p)
      in if y_type c \<noteq> TURN_START \<or> prompt = [] \<or> normalize_message_text prompt \<in> set texts \<or> \<not> pending_visible L now s c then None
         else Some [(''lineNumber'', JInt (- max 1 (y_created c div 1000))), (''timestamp'', jtime L (y_created c)),
                    (''role'', JStr ''user''), (''phase'', JNull), (''text'', JStr prompt),
                    (''images'', JArr (List.map_filter image_ref (normalize_command_attachments L (y_requested c))))])"

text \<open>Each pending message shown keeps a later command with the same prompt from being shown again.\<close>

fun pending_messages :: "lib \<Rightarrow> instant \<Rightarrow> codex \<Rightarrow> string list \<Rightarrow> command list \<Rightarrow> obj list" where
  "pending_messages L now s texts [] = []"
| "pending_messages L now s texts (c # cs) =
     (case pending_message L now s texts c of
        None \<Rightarrow> pending_messages L now s texts cs
      | Some m \<Rightarrow> m # pending_messages L now s
          (normalize_message_text (compact (case y_prompt c of None \<Rightarrow> [] | Some p \<Rightarrow> p)) # texts) cs)"

definition thread_messages :: "nat \<Rightarrow> int \<Rightarrow> codex \<Rightarrow> codex_message list" where
  "thread_messages row after s =
     select_asc mg_line (\<lambda>g. mg_row g = row \<and> max 0 after < mg_line g) (cx_messages s)"

definition window :: "int \<Rightarrow> 'a list \<Rightarrow> 'a list" where
  "window limit xs =
     (let n = (if limit \<le> 0 then 0 else min (nat limit) DEFAULT_STORED_MESSAGE_WINDOW)
      in if n = 0 then xs else drop (length xs - n) xs)"

record snapshot =
  ss_machine :: obj
  ss_thread :: obj
  ss_messages :: "obj list"
  ss_total :: int
  ss_lines :: int
  ss_size :: int
  ss_synced :: "instant option"

definition get_thread_snapshot ::
  "codex_lib \<Rightarrow> instant \<Rightarrow> string \<Rightarrow> string \<Rightarrow> int \<Rightarrow> int \<Rightarrow> codex \<Rightarrow> snapshot option \<times> codex" where
  "get_thread_snapshot Z now m t limit after s =
     (case (machine_row m s, thread_row m t s) of
        (Some mr, Some tr) \<Rightarrow>
          (case stale_thread_command_ids (z_lib Z) now m t s of (stale, deletable) \<Rightarrow>
             (let s' = drop_commands deletable s; rows = thread_messages (ct_row tr) after s';
                  texts = map (\<lambda>g. normalize_message_text (mg_text g)) (filter (\<lambda>g. compact (mg_role g) = ''user'') rows);
                  cmds = filter (\<lambda>c. y_id c \<notin> set stale) (select_asc y_created (of_thread m t) (cx_commands s'));
                  pending = pending_messages (z_lib Z) now s' texts cmds
              in (Some \<lparr>ss_machine = machine_public Z now mr (thread_count m s'), ss_thread = thread_public Z tr,
                        ss_messages = window limit (map message_public rows @ pending),
                        ss_total = ct_total tr + int (length pending), ss_lines = ct_lines tr, ss_size = ct_size tr,
                        ss_synced = ct_synced tr\<rparr>, s')))
      | _ \<Rightarrow> (None, s))"

end
