(* ===== verification/CodexSync.thy ===== *)
theory CodexSync
  imports CodexQueue
begin

text \<open>
  \<open>RemoteCodexStateService.apply_agent_sync\<close>: a machine's agent uploads its row, its list of threads and
  the transcripts of some of them. The machine row is upserted, threads the list no longer names are
  deleted with their messages, the others upserted, and a transcript replaces the stored messages of
  its thread by its last two hundred. It is one transaction; an unusable upload changes nothing.
\<close>

section \<open>The machine row\<close>

definition as_object :: "json \<Rightarrow> codex_error + obj" where
  "as_object v = (case v of JObj kvs \<Rightarrow> Inr kvs | _ \<Rightarrow> Inl CodexAttribute)"

text \<open>A dict or a list cannot be bound to a text column.\<close>

definition bindable :: "json \<Rightarrow> bool" where
  "bindable v = (case v of JArr _ \<Rightarrow> False | JObj _ \<Rightarrow> False | _ \<Rightarrow> True)"

definition bound_text :: "json \<Rightarrow> codex_error + json" where
  "bound_text v = (if bindable v then Inr v else Inl (CodexDb ''InterfaceError''))"

definition upload_time :: "codex_lib \<Rightarrow> instant \<Rightarrow> json \<Rightarrow> codex_error + instant" where
  "upload_time Z now v =
     (if \<not> truthy v then Inr now
      else case z_time Z v of None \<Rightarrow> Inl (CodexError ''Invalid isoformat string'') | Some t \<Rightarrow> Inr t)"

definition sync_machine :: "codex_lib \<Rightarrow> instant \<Rightarrow> string \<Rightarrow> obj \<Rightarrow> codex_error + codex_machine" where
  "sync_machine Z now m p =
     (let L = z_lib Z in
      bindE (bound_text (either_get p ''lastRuntimeError'' ''last_runtime_error'')) (\<lambda>err.
      bindE (bound_text (either_get p ''lastDiagnostic'' ''last_diagnostic'')) (\<lambda>diag.
      bindE (upload_time Z now (obj_get p ''lastSeenAt'')) (\<lambda>seen.
      bindE (upload_time Z now (obj_get p ''lastSyncAt'')) (\<lambda>sync.
      Inr \<lparr>cm_id = m, cm_name = compact_text L (either_get p ''displayName'' ''display_name'') m,
           cm_source = compact_text L (obj_get p ''source'') ''agent'',
           cm_transport = compact_text L (either_get p ''activeTransport'' ''active_transport'') ''filesystem-storage'',
           cm_mode = compact_text L (either_get p ''runtimeMode'' ''runtime_mode'') ''filesystem-readonly'',
           cm_available = truthy (either_get p ''runtimeAvailable'' ''runtime_available''),
           cm_capabilities = py_or (obj_get p ''capabilities'') (JObj []),
           cm_descriptor = serialize_maybe_json (either_get p ''runtimeDescriptor'' ''runtime_descriptor''),
           cm_error = err, cm_diagnostic = diag, cm_seen = seen, cm_sync = sync\<rparr>)))))"

definition put_machine :: "codex_machine \<Rightarrow> codex \<Rightarrow> codex" where
  "put_machine r s =
     s\<lparr>cx_machines := (if machine_row (cm_id r) s = None then cx_machines s @ [r]
                      else row_upd cm_id (cm_id r) (\<lambda>_. r) (cx_machines s))\<rparr>"

section \<open>Thread rows\<close>

definition listed_thread :: "lib \<Rightarrow> obj \<Rightarrow> codex_thread \<Rightarrow> codex_thread" where
  "listed_thread L p r =
     r\<lparr>ct_title := compact_text L (obj_get p ''title'') ''(untitled)'', ct_cwd := compacted L (obj_get p ''cwd''),
       ct_rollout := compacted L (either_get p ''rolloutPath'' ''rollout_path''),
       ct_updated_ms := coerce_int L (obj_get p ''updatedAtMs'') 0, ct_created_ms := coerce_int L (obj_get p ''createdAtMs'') 0,
       ct_source := some_text (compacted L (obj_get p ''source'')),
       ct_provider := some_text (compacted L (either_get p ''modelProvider'' ''model_provider'')),
       ct_model := some_text (compacted L (obj_get p ''model'')),
       ct_effort := some_text (compacted L (either_get p ''reasoningEffort'' ''reasoning_effort'')),
       ct_cli := some_text (compacted L (either_get p ''cliVersion'' ''cli_version'')),
       ct_first := compacted L (either_get p ''firstUserMessage'' ''first_user_message''),
       ct_forked := some_text (compacted L (either_get p ''forkedFromId'' ''forked_from_id'')),
       ct_ephemeral := truthy (obj_get p ''ephemeral''), ct_status := serialize_maybe_json (obj_get p ''status''),
       ct_nickname := some_text (compacted L (either_get p ''agentNickname'' ''agent_nickname'')),
       ct_role := some_text (compacted L (either_get p ''agentRole'' ''agent_role''))\<rparr>"

abbreviation opt_text :: "string option \<Rightarrow> string" where "opt_text t \<equiv> (case t of None \<Rightarrow> [] | Some s \<Rightarrow> s)"

text \<open>A transcript keeps what it does not mention.\<close>

definition snapshot_thread :: "lib \<Rightarrow> obj \<Rightarrow> obj \<Rightarrow> instant \<Rightarrow> codex_thread \<Rightarrow> codex_thread" where
  "snapshot_thread L p item synced r =
     r\<lparr>ct_title := compact_text L (obj_get p ''title'') (if ct_title r = [] then ''(untitled)'' else ct_title r),
       ct_cwd := compact_text L (obj_get p ''cwd'') (ct_cwd r),
       ct_rollout := compact_text L (either_get p ''rolloutPath'' ''rollout_path'') (ct_rollout r),
       ct_updated_ms := coerce_int L (obj_get p ''updatedAtMs'') (ct_updated_ms r),
       ct_created_ms := coerce_int L (obj_get p ''createdAtMs'') (ct_created_ms r),
       ct_source := some_text (compact_text L (obj_get p ''source'') (opt_text (ct_source r))),
       ct_provider := some_text (compact_text L (either_get p ''modelProvider'' ''model_provider'') (opt_text (ct_provider r))),
       ct_model := some_text (compact_text L (obj_get p ''model'') (opt_text (ct_model r))),
       ct_effort := some_text (compact_text L (either_get p ''reasoningEffort'' ''reasoning_effort'') (opt_text (ct_effort r))),
       ct_cli := some_text (compact_text L (either_get p ''cliVersion'' ''cli_version'') (opt_text (ct_cli r))),
       ct_first := compact_text L (either_get p ''firstUserMessage'' ''first_user_message'') (ct_first r),
       ct_forked := some_text (compact_text L (either_get p ''forkedFromId'' ''forked_from_id'') (opt_text (ct_forked r))),
       ct_ephemeral := (case map_of p ''ephemeral'' of None \<Rightarrow> ct_ephemeral r | Some v \<Rightarrow> truthy v),
       ct_status := (case serialize_maybe_json (obj_get p ''status'') of None \<Rightarrow> ct_status r | Some c \<Rightarrow> Some c),
       ct_nickname := some_text (compact_text L (either_get p ''agentNickname'' ''agent_nickname'') (opt_text (ct_nickname r))),
       ct_role := some_text (compact_text L (either_get p ''agentRole'' ''agent_role'') (opt_text (ct_role r))),
       ct_total := coerce_int L (obj_get item ''totalMessages'') (ct_total r),
       ct_lines := coerce_int L (obj_get item ''lineCount'') (ct_lines r),
       ct_size := coerce_int L (obj_get item ''fileSize'') (ct_size r), ct_synced := Some synced\<rparr>"

definition new_thread :: "nat \<Rightarrow> string \<Rightarrow> string \<Rightarrow> codex_thread" where
  "new_thread k m t =
     \<lparr>ct_row = k, ct_machine = m, ct_id = t, ct_title = ''(untitled)'', ct_cwd = [], ct_rollout = [], ct_updated_ms = 0,
      ct_created_ms = 0, ct_source = None, ct_provider = None, ct_model = None, ct_effort = None, ct_cli = None,
      ct_first = [], ct_forked = None, ct_ephemeral = False, ct_status = None, ct_nickname = None, ct_role = None,
      ct_total = 0, ct_lines = 0, ct_size = 0, ct_synced = None\<rparr>"

definition thread_set :: "string \<Rightarrow> string \<Rightarrow> (codex_thread \<Rightarrow> codex_thread) \<Rightarrow> codex \<Rightarrow> codex" where
  "thread_set m t f s = s\<lparr>cx_threads := map (\<lambda>r. if ct_machine r = m \<and> ct_id r = t then f r else r) (cx_threads s)\<rparr>"

definition add_thread :: "string \<Rightarrow> string \<Rightarrow> codex \<Rightarrow> codex" where
  "add_thread m t s = s\<lparr>cx_threads := cx_threads s @ [new_thread (cx_next s) m t], cx_next := Suc (cx_next s)\<rparr>"

section \<open>The upload\<close>

definition upload_id :: "lib \<Rightarrow> obj \<Rightarrow> string" where
  "upload_id L p = compacted L (obj_get p ''id'')"

text \<open>Threads of the machine that the list does not name go, with their messages (\<open>ON DELETE CASCADE\<close>).\<close>

definition prune_threads :: "string \<Rightarrow> string list \<Rightarrow> codex \<Rightarrow> codex" where
  "prune_threads m incoming s =
     (let gone = filter (\<lambda>r. ct_machine r = m \<and> ct_id r \<notin> set incoming) (cx_threads s)
      in s\<lparr>cx_threads := filter (\<lambda>r. r \<notin> set gone) (cx_threads s),
           cx_messages := filter (\<lambda>g. mg_row g \<notin> ct_row ` set gone) (cx_messages s)\<rparr>)"

definition list_thread :: "lib \<Rightarrow> string \<Rightarrow> obj \<Rightarrow> codex \<Rightarrow> codex" where
  "list_thread L m p s =
     (let t = upload_id L p in
      if t = [] then s
      else thread_set m t (listed_thread L p) (if thread_row m t s = None then add_thread m t s else s))"

definition upload_message :: "lib \<Rightarrow> nat \<Rightarrow> json \<Rightarrow> codex_error + codex_message" where
  "upload_message L row v =
     bindE (as_object v) (\<lambda>p.
     bindE (bound_text (obj_get p ''timestamp'')) (\<lambda>t.
     Inr \<lparr>mg_row = row, mg_line = coerce_int L (obj_get p ''lineNumber'') 0, mg_time = t,
          mg_role = compact_text L (obj_get p ''role'') ''assistant'', mg_phase = some_text (compacted L (obj_get p ''phase'')),
          mg_text = value_text L (obj_get p ''text''), mg_images = py_or (obj_get p ''images'') (JArr [])\<rparr>))"

definition last_n :: "nat \<Rightarrow> 'a list \<Rightarrow> 'a list" where
  "last_n n xs = drop (length xs - n) xs"

definition upload_messages :: "lib \<Rightarrow> nat \<Rightarrow> obj \<Rightarrow> codex_error + codex_message list" where
  "upload_messages L row item =
     bindE (case py_or (obj_get item ''messages'') (JArr []) of JArr xs \<Rightarrow> Inr xs | _ \<Rightarrow> Inl CodexAttribute) (\<lambda>xs.
     bindE (mapE (upload_message L row) (last_n DEFAULT_STORED_MESSAGE_WINDOW xs)) (\<lambda>ms.
     if distinct (map mg_line ms) then Inr ms else Inl (CodexDb ''UNIQUE thread_row_id, line_number'')))"

text \<open>
  \<open>gone\<close>: the threads just deleted. The code still finds their rows in \<open>existing_threads\<close>, so a transcript
  of one of them changes nothing but tries to store its messages under a deleted row.
\<close>

definition apply_snapshot ::
  "codex_lib \<Rightarrow> instant \<Rightarrow> string \<Rightarrow> string list \<Rightarrow> obj \<Rightarrow> codex \<Rightarrow> codex_error + codex" where
  "apply_snapshot Z now m gone item s =
     bindE (as_object (py_or (obj_get item ''thread'') (JObj []))) (\<lambda>p.
     let L = z_lib Z; t = upload_id L p in
     if t = [] then Inr s
     else bindE (upload_time Z now (obj_get item ''syncedAt'')) (\<lambda>synced.
       if t \<in> set gone
       then bindE (upload_messages L 0 item) (\<lambda>ms. if ms = [] then Inr s else Inl (CodexDb ''FOREIGN KEY thread_row_id''))
       else
         let s1 = thread_set m t (snapshot_thread L p item synced) (if thread_row m t s = None then add_thread m t s else s);
             row = (case thread_row m t s1 of None \<Rightarrow> 0 | Some r \<Rightarrow> ct_row r)
         in bindE (upload_messages L row item) (\<lambda>ms.
              Inr (s1\<lparr>cx_messages := filter (\<lambda>g. mg_row g \<noteq> row) (cx_messages s1) @ ms\<rparr>))))"

definition snapshot_id :: "lib \<Rightarrow> obj \<Rightarrow> string" where
  "snapshot_id L item = (case obj_get item ''thread'' of JObj p \<Rightarrow> upload_id L p | _ \<Rightarrow> [])"

definition drop_stale :: "lib \<Rightarrow> instant \<Rightarrow> string \<Rightarrow> string \<Rightarrow> codex \<Rightarrow> codex" where
  "drop_stale L now m t s = drop_commands (snd (stale_thread_command_ids L now m t s)) s"

text \<open>
  \<open>sync_tx\<close> is the transaction; it returns the ids of the threads whose subscribers are told. The
  threads known to the loop are those stored before, those listed and those with a transcript.
\<close>

definition sync_tx ::
  "codex_lib \<Rightarrow> instant \<Rightarrow> string \<Rightarrow> obj \<Rightarrow> json list \<Rightarrow> json list \<Rightarrow> codex \<Rightarrow> codex_error + string list \<times> codex" where
  "sync_tx Z now m machine threads snapshots s =
     (let L = z_lib Z in
      bindE (sync_machine Z now m machine) (\<lambda>r.
      bindE (mapE as_object threads) (\<lambda>items.
      bindE (mapE as_object snapshots) (\<lambda>snaps.
      let incoming = filter (\<lambda>t. t \<noteq> []) (map (upload_id L) items);
          told = filter (\<lambda>t. t \<noteq> []) (map (snapshot_id L) snaps);
          stored = map ct_id (filter (\<lambda>x. ct_machine x = m) (cx_threads s));
          gone = filter (\<lambda>t. t \<notin> set incoming) stored;
          s1 = fold (list_thread L m) items (prune_threads m incoming (put_machine r s))
      in bindE (foldE (apply_snapshot Z now m gone) snaps s1) (\<lambda>s2.
         Inr (remdups (incoming @ told), fold (drop_stale L now m) (remdups (stored @ incoming @ told)) s2))))))"

definition apply_agent_sync ::
  "codex_lib \<Rightarrow> instant \<Rightarrow> obj \<Rightarrow> json list \<Rightarrow> json list \<Rightarrow> codex \<Rightarrow> (codex_error + obj) \<times> codex" where
  "apply_agent_sync Z now machine threads snapshots s =
     (let L = z_lib Z; m = compacted L (either_get machine ''machineId'' ''machine_id'') in
      if m = [] then (Inl (CodexError ''machine.machineId is required.''), s)
      else case sync_tx Z now m machine threads snapshots s of
             Inl e \<Rightarrow> (Inl e, s)
           | Inr (changed, s') \<Rightarrow>
               (case get_machine Z now m s' of
                  None \<Rightarrow> (Inl CodexAttribute, s)
                | Some public \<Rightarrow>
                    (Inr public, fold (\<lambda>t. codex_publish L now m t [(''kind'', JStr ''snapshot'')]) changed
                       (codex_publish L now m ''*'' [(''kind'', JStr ''machine''), (''machine'', JObj public)] s'))))"

end
