(* ===== verification/CodexService.thy ===== *)
theory CodexService
  imports CodexSync
begin

text \<open>
  \<open>RemoteCodexBehaviorService\<close> of \<open>behaviors/remote_codex/service.py\<close>: it couples the command queue of the
  state service with the remote task service. A browser turn is a task plus a command; the machine's
  worker claims the command and with it the task, and its result settles both. Each inner call commits
  on its own, so a call that raises keeps what came before.
\<close>

type_synonym 'a codex_run = "codex \<Rightarrow> (codex_error + 'a) \<times> codex"

definition remote_step :: "(remote \<Rightarrow> remote_error + 'a \<times> remote) \<Rightarrow> 'a codex_run" where
  "remote_step f s = (case f (cx_tasks s) of Inl e \<Rightarrow> (Inl (CodexTask e), s) | Inr (x, r) \<Rightarrow> (Inr x, s\<lparr>cx_tasks := r\<rparr>))"

definition remote_read :: "(remote \<Rightarrow> remote_error + 'a) \<Rightarrow> 'a codex_run" where
  "remote_read f s = (map_err CodexTask (f (cx_tasks s)), s)"

definition state_step :: "(codex \<Rightarrow> 'a \<times> codex) \<Rightarrow> 'a codex_run" where
  "state_step f s = (case f s of (x, s') \<Rightarrow> (Inr x, s'))"

definition state_read :: "(codex \<Rightarrow> codex_error + 'a) \<Rightarrow> 'a codex_run" where
  "state_read f s = (f s, s)"

section \<open>The browser's shape of a task\<close>

definition key_text :: "lib \<Rightarrow> key \<Rightarrow> string" where
  "key_text L k = (case k of Gen n \<Rightarrow> l_uid L n | Ext s \<Rightarrow> s)"

definition browser_approval :: "lib \<Rightarrow> task_approval \<Rightarrow> json" where
  "browser_approval L a =
     (let st = (if ta_status a = ''resolved''
                then (if ta_resolution a = Some ''approved'' then ''approved''
                      else if ta_resolution a \<in> {Some ''denied'', Some ''rejected''} then ''rejected'' else ''resolved'')
                else ta_status a)
      in JObj [(''id'', JStr (ta_id a)), (''actorId'', JStr (ta_actor a)), (''reason'', JStr (ta_reason a)), (''status'', JStr st),
           (''note'', jtext (ta_note a)), (''requestedAt'', jtime L (ta_requested a)), (''resolvedAt'', jtime_opt L (ta_resolved a)),
           (''resolvedBy'', jtext (ta_resolved_by a)), (''resolution'', jtext (ta_resolution a))])"

text \<open>Evidence rows have no id of their own in the model of the task service; that field is left out.\<close>

definition task_to_browser :: "lib \<Rightarrow> task_summary \<Rightarrow> obj" where
  "task_to_browser L t =
     (let r = ts_row t in
      [(''taskId'', JStr (x_id r)), (''machineId'', JStr (x_machine r)), (''threadId'', JStr (x_thread r)),
       (''sourceSurface'', JStr (x_surface r)), (''objective'', JStr (x_objective r)), (''status'', JStr (x_status r)),
       (''priority'', JStr (x_priority r)), (''ownerActorId'', jtext (x_owner r)), (''createdBy'', JStr (x_created_by r)),
       (''createdAt'', jtime L (x_created r)), (''updatedAt'', jtime L (x_updated r)),
       (''currentClaim'', jopt (\<lambda>a. JObj [(''actorId'', JStr (g_actor a)), (''workerId'', JNull),
          (''leaseToken'', JStr (key_text L (g_token a))), (''claimedAt'', jtime L (g_claimed a)),
          (''leaseExpiresAt'', jtime L (g_expires a))]) (ts_assignment t)),
       (''latestHeartbeat'', jopt (\<lambda>b. JObj [(''actorId'', JStr (hb_actor b)), (''phase'', JStr (hb_phase b)),
          (''summary'', jtext (hb_summary b)), (''commandsRunCount'', JInt (hb_commands b)), (''filesReadCount'', JInt (hb_reads b)),
          (''filesModifiedCount'', JInt (hb_writes b)), (''testsRunCount'', JInt (hb_tests b)),
          (''createdAt'', jtime L (hb_created b))]) (ts_beat t)),
       (''recentEvidence'', JArr (map (\<lambda>w. JObj [(''actorId'', JStr (w_actor w)), (''kind'', JStr (w_kind w)),
          (''summary'', JStr (w_summary w)), (''payload'', JObj (w_payload w)), (''createdAt'', jtime L (w_created w))]) (ts_evidence t))),
       (''latestApproval'', jopt (browser_approval L) (ts_approval t))])"

definition publish_task :: "lib \<Rightarrow> instant \<Rightarrow> task_summary \<Rightarrow> unit codex_run" where
  "publish_task L now t =
     state_step (\<lambda>s. ((), codex_publish L now (x_machine (ts_row t)) (x_thread (ts_row t))
       [(''kind'', JStr ''task''), (''task'', JObj (task_to_browser L t))] s))"

text \<open>Every task call of the service: run it, tell the thread's subscribers, return the task.\<close>

definition task_call :: "lib \<Rightarrow> instant \<Rightarrow> (remote \<Rightarrow> remote_error + task_summary \<times> remote) \<Rightarrow> task_summary codex_run" where
  "task_call L now f = bindS (remote_step f) (\<lambda>t. bindS (publish_task L now t) (\<lambda>_. doneS t))"

section \<open>Health\<close>

definition live_control :: "codex_machine \<Rightarrow> codex_error + bool" where
  "live_control r = (case cm_capabilities r of JObj c \<Rightarrow> Inr (truthy (obj_get c ''liveControl'')) | _ \<Rightarrow> Inl CodexAttribute)"

definition control_mode :: "string \<Rightarrow> bool \<Rightarrow> bool \<Rightarrow> string \<Rightarrow> string \<Rightarrow> obj \<Rightarrow> obj" where
  "control_mode mode multi live because detail summary =
     [(''supported'', JBool live), (''mode'', JStr mode), (''activeTransport'', JStr ''opscure-remote-codex''),
      (''reason'', JStr because), (''detail'', JStr detail),
      (''capabilities'', JObj [(''multiMachineRead'', JBool multi), (''liveControl'', JBool live)]),
      (''machineSummary'', JObj summary)]"

definition get_control_status :: "instant \<Rightarrow> codex \<Rightarrow> codex_error + obj" where
  "get_control_status now s =
     (let ms = active_machines now True s; summary = machine_summary now True s in
      bindE (mapE live_control (filter (\<lambda>r. machine_status now (cm_seen r) = ''online'') ms)) (\<lambda>live.
      Inr (if ms \<noteq> [] \<and> True \<in> set live
           then control_mode ''live-control'' True True
             ''Machine-scoped reading and live turn control are available through Opscure remote_codex.''
             ''The browser is reading machine, thread, transcript, and task state directly from the Opscure remote_codex behavior.''
             summary
           else if ms \<noteq> []
           then control_mode ''read-only'' True False
             ''Machines are online, but none currently report live turn control.''
             ''The browser can browse cached remote Codex state, but turn submission remains disabled until a machine reports liveControl support.''
             summary
           else control_mode ''read-only'' False False
             ''No remote Codex machine is currently online.''
             ''Start a remote executor or machine sync source so the browser has at least one machine to read.''
             summary)))"

definition get_health :: "codex_lib \<Rightarrow> instant \<Rightarrow> codex \<Rightarrow> codex_error + obj" where
  "get_health Z now s =
     bindE (get_control_status now s) (\<lambda>c.
     Inr [(''ok'', JBool True), (''mode'', obj_get c ''mode''),
          (''remoteCodex'', JObj [(''canonicalOwner'', JStr ''Opscure remote_codex behavior''),
             (''bridgeMode'', JStr ''opscure-canonical''), (''localBridgeTransitional'', JBool False)]),
          (''machineSummary'', JObj (machine_summary now True s)), (''machines'', JArr (map JObj (list_machines Z now True s)))])"

section \<open>Reading a thread\<close>

definition require_machine :: "string \<Rightarrow> codex \<Rightarrow> codex_error + codex_machine" where
  "require_machine m s = (case machine_row m s of None \<Rightarrow> Inl (CodexError ''machine_not_found'') | Some r \<Rightarrow> Inr r)"

definition require_thread_row :: "string \<Rightarrow> string \<Rightarrow> codex \<Rightarrow> codex_error + codex_thread" where
  "require_thread_row m t s = (case thread_row m t s of None \<Rightarrow> Inl (CodexError ''thread_not_found'') | Some r \<Rightarrow> Inr r)"

definition require_online :: "instant \<Rightarrow> string \<Rightarrow> codex \<Rightarrow> codex_error + codex_machine" where
  "require_online now m s =
     bindE (require_machine m s) (\<lambda>r.
       if machine_status now (cm_seen r) \<noteq> ''online'' then Inl (CodexError ''machine_offline'') else Inr r)"

definition require_live :: "instant \<Rightarrow> string \<Rightarrow> codex \<Rightarrow> codex_error + codex_machine" where
  "require_live now m s =
     bindE (require_online now m s) (\<lambda>r. bindE (live_control r) (\<lambda>b.
       if b then Inr r else Inl (CodexError ''machine_live_control_unavailable'')))"

definition list_machine_threads :: "codex_lib \<Rightarrow> instant \<Rightarrow> string \<Rightarrow> string \<Rightarrow> int \<Rightarrow> codex \<Rightarrow> codex_error + obj \<times> obj list" where
  "list_machine_threads Z now m query limit s =
     bindE (require_machine m s) (\<lambda>r.
       Inr (machine_public Z now r (thread_count m s), case get_threads Z m query limit s of None \<Rightarrow> [] | Some ts \<Rightarrow> ts))"

definition get_thread_messages :: "codex_lib \<Rightarrow> instant \<Rightarrow> string \<Rightarrow> string \<Rightarrow> int \<Rightarrow> int \<Rightarrow> snapshot codex_run" where
  "get_thread_messages Z now m t limit after =
     bindS (state_step (get_thread_snapshot Z now m t limit after))
       (\<lambda>r. case r of None \<Rightarrow> failS (CodexError ''thread_not_found'') | Some x \<Rightarrow> doneS x)"

definition get_thread_commands ::
  "codex_lib \<Rightarrow> instant \<Rightarrow> string \<Rightarrow> string \<Rightarrow> int \<Rightarrow> (codex_machine \<times> codex_thread \<times> command list) codex_run" where
  "get_thread_commands Z now m t limit =
     bindS (state_read (require_machine m)) (\<lambda>r. bindS (state_read (require_thread_row m t)) (\<lambda>h.
     bindS (state_step (list_thread_commands (z_lib Z) now m t limit False)) (\<lambda>cs. doneS (r, h, cs))))"

section \<open>Tasks whose command is gone or done\<close>

definition STALE_BROWSER_TASK_GRACE_SECONDS :: int where "STALE_BROWSER_TASK_GRACE_SECONDS = 1800"

text \<open>What to do with a browser task, given the newest command that carries it: the final status,
  the summary and the payload of the cleanup, or nothing.\<close>

definition stale_verdict ::
  "lib \<Rightarrow> instant \<Rightarrow> task_summary \<Rightarrow> command option \<Rightarrow> json \<Rightarrow> string option \<Rightarrow> (string \<times> string \<times> obj) option" where
  "stale_verdict L now t cmd thread_status latest =
     (let r = ts_row t;
          expired = (case ts_assignment t of None \<Rightarrow> False | Some a \<Rightarrow> g_expires a \<le> now);
          old = (seconds STALE_BROWSER_TASK_GRACE_SECONDS \<le> max 0 (now - x_updated r))
      in if x_surface r \<noteq> ''browser'' \<or> x_status r \<notin> {''claimed'', ''executing'', ''verifying''} then None
         else case cmd of
                None \<Rightarrow>
                  (if expired \<and> old
                   then Some (''failed'', ''Stale browser task cleanup: the task lost its command tracking before completion.'',
                          [(''reason'', JStr ''missing_command'')])
                   else None)
              | Some c \<Rightarrow>
                  (let st = lower (compact (y_status c)); ty = lower (compact (y_type c)) in
                   if st = COMMAND_FAILED
                   then Some (''failed'', ''Remote command failed before the browser task could finish.'',
                          [(''reason'', JStr ''command_failed''), (''commandId'', JStr (y_id c))])
                   else if ty = TURN_START \<and> st = COMMAND_COMPLETED
                   then Some (''completed'', ''Turn request accepted by the local Codex runtime.'',
                          [(''reason'', JStr ''turn_command_completed''), (''commandId'', JStr (y_id c)),
                           (''turnId'', jtext (command_turn_id L c)), (''latestTurnId'', jtext latest),
                           (''turnStatus'', JStr (command_turn_status L (y_result c))),
                           (''threadStatus'', normalize_thread_status thread_status)])
                   else if expired \<and> old \<and> st \<in> {COMMAND_QUEUED, COMMAND_RUNNING}
                   then Some (''failed'', ''Stale browser task cleanup: the queued command stopped progressing after its lease expired.'',
                          [(''reason'', JStr ''expired_command''), (''commandId'', JStr (y_id c)), (''commandStatus'', JStr st)])
                   else None))"

definition maybe_cleanup_stale_task ::
  "lib \<Rightarrow> instant \<Rightarrow> task_summary \<Rightarrow> command option \<Rightarrow> json \<Rightarrow> string option \<Rightarrow> task_summary option codex_run" where
  "maybe_cleanup_stale_task L now t cmd thread_status latest =
     (case stale_verdict L now t cmd thread_status latest of
        None \<Rightarrow> doneS None
      | Some (final, summary, payload) \<Rightarrow>
          bindS (task_call L now (settle_stale_task now (x_id (ts_row t)) final summary payload)) (\<lambda>t'. doneS (Some t')))"

definition carries :: "string \<Rightarrow> command \<Rightarrow> bool" where
  "carries k c \<longleftrightarrow> compact (case y_task c of None \<Rightarrow> [] | Some x \<Rightarrow> x) = k"

text \<open>The dict by task id keeps the last command of the list, the search the first.\<close>

definition command_by_task :: "command list \<Rightarrow> string \<Rightarrow> command option" where
  "command_by_task cs k = (if k = [] then None else List.find (carries k) (rev cs))"

fun cleanup_each ::
  "lib \<Rightarrow> instant \<Rightarrow> command list \<Rightarrow> json \<Rightarrow> string option \<Rightarrow> task_summary list \<Rightarrow> bool codex_run" where
  "cleanup_each L now cs st latest [] = doneS False"
| "cleanup_each L now cs st latest (t # ts) =
     bindS (maybe_cleanup_stale_task L now t (command_by_task cs (x_id (ts_row t))) st latest) (\<lambda>n.
     bindS (cleanup_each L now cs st latest ts) (\<lambda>changed.
     doneS ((case n of None \<Rightarrow> False
             | Some t' \<Rightarrow> x_status (ts_row t') \<noteq> x_status (ts_row t) \<or> x_updated (ts_row t') \<noteq> x_updated (ts_row t)) \<or> changed)))"

definition list_thread_tasks ::
  "codex_lib \<Rightarrow> instant \<Rightarrow> string \<Rightarrow> string \<Rightarrow> string list \<Rightarrow> int \<Rightarrow> task_summary list codex_run" where
  "list_thread_tasks Z now m t statuses limit =
     (let L = z_lib Z; tasks = (\<lambda>s. Inr (remote_list_tasks (Some m) (Some t) statuses limit (cx_tasks s))) in
      bindS (state_read (require_machine m)) (\<lambda>_. bindS (state_read (require_thread_row m t)) (\<lambda>h.
      bindS (state_read tasks) (\<lambda>ts.
      if ts = [] then doneS ts
      else bindS (state_step (list_thread_commands L now m t 200 True)) (\<lambda>cs.
           bindS (state_step (get_latest_turn_id L now m t)) (\<lambda>latest.
           bindS (cleanup_each L now cs (restore_maybe_json (z_parse Z) (ct_status h)) latest ts) (\<lambda>changed.
           if changed then state_read tasks else doneS ts)))))))"

definition codex_get_task :: "codex_lib \<Rightarrow> instant \<Rightarrow> string \<Rightarrow> task_summary codex_run" where
  "codex_get_task Z now k =
     (let L = z_lib Z in
      bindS (remote_read (get_task k)) (\<lambda>t.
      let m = x_machine (ts_row t); h = x_thread (ts_row t) in
      bindS (state_read (\<lambda>s. Inr (thread_row m h s))) (\<lambda>th.
      case th of None \<Rightarrow> doneS t
      | Some r \<Rightarrow>
          bindS (state_step (list_thread_commands L now m h 200 True)) (\<lambda>cs.
          case List.find (carries (x_id (ts_row t))) cs of None \<Rightarrow> doneS t
          | Some c \<Rightarrow>
              bindS (state_step (get_latest_turn_id L now m h)) (\<lambda>latest.
              bindS (maybe_cleanup_stale_task L now t (Some c) (restore_maybe_json (z_parse Z) (ct_status r)) latest) (\<lambda>n.
              doneS (case n of None \<Rightarrow> t | Some t' \<Rightarrow> t')))))))"

section \<open>Commands of the browser\<close>

definition browser_task ::
  "instant \<Rightarrow> string \<Rightarrow> string \<Rightarrow> string \<Rightarrow> string \<Rightarrow> string list \<Rightarrow> string \<Rightarrow> task_summary codex_run" where
  "browser_task now k m t objective criteria who =
     remote_step (create_task now k m t objective [(''browser'', JArr (map JStr criteria))] ''browser'' None ''normal'' who)"

definition enqueue_turn ::
  "codex_lib \<Rightarrow> instant \<Rightarrow> string \<Rightarrow> string \<Rightarrow> string \<Rightarrow> string \<Rightarrow> string \<Rightarrow> json list \<Rightarrow> obj
     \<Rightarrow> (task_summary \<times> command) codex_run" where
  "enqueue_turn Z now tk ck m t prompt attachments requested_by =
     (let L = z_lib Z; files = normalize_browser_turn_attachments L attachments; text = build_browser_turn_prompt prompt files;
          who = (if files = [] then requested_by
                 else AList.update ''attachments'' (JArr (map attachment_obj files)) requested_by) in
      bindS (state_read (require_live now m)) (\<lambda>_. bindS (state_read (require_thread_row m t)) (\<lambda>_.
      if text = [] then failS (CodexError ''missing_prompt'')
      else bindS (browser_task now tk m t text [''task row'', ''command queue'', ''transcript update''] (created_by L requested_by)) (\<lambda>task.
           bindS (enqueue_command L now ck TURN_START m t who (Some text) None (Some tk)) (\<lambda>c.
           bindS (state_step (\<lambda>s. ((), codex_publish L now m t [(''kind'', JStr ''task''), (''task'', JObj (task_to_browser L task))] s))) (\<lambda>_.
           doneS (task, c)))))))"

definition enqueue_interrupt ::
  "codex_lib \<Rightarrow> instant \<Rightarrow> string \<Rightarrow> string \<Rightarrow> string \<Rightarrow> string \<Rightarrow> obj \<Rightarrow> string option \<Rightarrow> (task_summary \<times> command) codex_run" where
  "enqueue_interrupt Z now tk ck m t requested_by turn =
     (let L = z_lib Z; given = compact (case turn of None \<Rightarrow> [] | Some x \<Rightarrow> x) in
      bindS (state_read (require_live now m)) (\<lambda>_. bindS (state_read (require_thread_row m t)) (\<lambda>_.
      bindS (state_step (get_active_thread_command L now m t (Some TURN_INTERRUPT))) (\<lambda>active.
      if active \<noteq> None then failS (CodexBusy ''interrupt_command_in_progress'')
      else bindS (if given \<noteq> [] then doneS (Some given) else state_step (get_latest_turn_id L now m t)) (\<lambda>next_turn.
           case next_turn of None \<Rightarrow> failS (CodexError ''missing_turn_id'')
           | Some turn' \<Rightarrow>
               bindS (browser_task now tk m t (''Interrupt turn '' @ turn') [''interrupt task'', ''command result''] (created_by L requested_by)) (\<lambda>task.
               bindS (enqueue_command L now ck TURN_INTERRUPT m t requested_by None (Some turn') (Some tk)) (\<lambda>c.
               bindS (state_step (\<lambda>s. ((), codex_publish L now m t [(''kind'', JStr ''task''), (''task'', JObj (task_to_browser L task))] s))) (\<lambda>_.
               doneS (task, c)))))))))"

definition enqueue_thread_delete :: "codex_lib \<Rightarrow> instant \<Rightarrow> string \<Rightarrow> string \<Rightarrow> string \<Rightarrow> obj \<Rightarrow> command codex_run" where
  "enqueue_thread_delete Z now ck m t requested_by =
     (let L = z_lib Z in
      bindS (state_read (require_online now m)) (\<lambda>_. bindS (state_read (require_thread_row m t)) (\<lambda>_.
      bindS (state_step (get_active_thread_command L now m t None)) (\<lambda>active.
      if active \<noteq> None then failS (CodexBusy ''turn_command_in_progress'')
      else enqueue_command L now ck THREAD_DELETE m t requested_by None None None))))"

text \<open>Commands without a thread: their parameters travel in the prompt, as JSON.\<close>

definition machine_command ::
  "codex_lib \<Rightarrow> instant \<Rightarrow> string \<Rightarrow> string \<Rightarrow> string \<Rightarrow> obj \<Rightarrow> obj \<Rightarrow> command codex_run" where
  "machine_command Z now ck ty m params requested_by =
     bindS (state_read (require_online now m)) (\<lambda>_.
       enqueue_command (z_lib Z) now ck ty m [] requested_by (Some (l_dumps (z_lib Z) (JObj params))) None None)"

definition enqueue_thread_start ::
  "codex_lib \<Rightarrow> instant \<Rightarrow> string \<Rightarrow> string \<Rightarrow> string option \<Rightarrow> string option \<Rightarrow> string option \<Rightarrow> string option \<Rightarrow> string option
     \<Rightarrow> obj \<Rightarrow> command codex_run" where
  "enqueue_thread_start Z now ck m cwd title model policy sandbox requested_by =
     machine_command Z now ck THREAD_START m
       (List.map_filter (\<lambda>(f, v). case v of None \<Rightarrow> None | Some t \<Rightarrow> if t = [] then None else Some (f, JStr (compact t)))
          [(''cwd'', cwd), (''title'', title), (''model'', model), (''approvalPolicy'', policy), (''sandbox'', sandbox)])
       requested_by"

definition enqueue_fs_list :: "codex_lib \<Rightarrow> instant \<Rightarrow> string \<Rightarrow> string \<Rightarrow> string \<Rightarrow> obj \<Rightarrow> command codex_run" where
  "enqueue_fs_list Z now ck m path requested_by =
     machine_command Z now ck FS_LIST m [(''path'', JStr (compact path))] requested_by"

definition enqueue_fs_mkdir :: "codex_lib \<Rightarrow> instant \<Rightarrow> string \<Rightarrow> string \<Rightarrow> string \<Rightarrow> string \<Rightarrow> obj \<Rightarrow> command codex_run" where
  "enqueue_fs_mkdir Z now ck m parent name requested_by =
     machine_command Z now ck FS_MKDIR m [(''parent'', JStr (compact parent)), (''name'', JStr (compact name))] requested_by"

section \<open>The machine's worker\<close>

text \<open>The command is committed as running before the task is claimed for the machine.\<close>

definition claim_command :: "codex_lib \<Rightarrow> instant \<Rightarrow> string \<Rightarrow> string \<Rightarrow> command option codex_run" where
  "claim_command Z now m worker =
     (let L = z_lib Z in
      bindS (state_step (claim_next_command L now m worker)) (\<lambda>r.
      case r of None \<Rightarrow> doneS None
      | Some c \<Rightarrow>
          (case y_task c of None \<Rightarrow> doneS (Some c)
           | Some k \<Rightarrow> if k = [] then doneS (Some c)
                else bindS (remote_step (claim_task now k m 120)) (\<lambda>t.
                     bindS (state_step (\<lambda>s. ((), codex_publish L now (y_machine c) (y_thread c)
                       [(''kind'', JStr ''task''), (''task'', JObj (task_to_browser L t))] s))) (\<lambda>_. doneS (Some c))))))"

definition settle_with_command ::
  "codex_lib \<Rightarrow> instant \<Rightarrow> command \<Rightarrow> (string \<Rightarrow> assignment \<Rightarrow> remote \<Rightarrow> remote_error + task_summary \<times> remote) \<Rightarrow> unit codex_run" where
  "settle_with_command Z now c f =
     (case y_task c of None \<Rightarrow> doneS ()
      | Some k \<Rightarrow> if k = [] then doneS ()
           else bindS (remote_read (get_task k)) (\<lambda>t.
                case ts_assignment t of None \<Rightarrow> doneS ()
                | Some a \<Rightarrow> bindS (task_call (z_lib Z) now (f k a)) (\<lambda>_. doneS ())))"

definition record_command_result ::
  "codex_lib \<Rightarrow> instant \<Rightarrow> string \<Rightarrow> string \<Rightarrow> string \<Rightarrow> obj option \<Rightarrow> obj option \<Rightarrow> command codex_run" where
  "record_command_result Z now k worker status result err =
     (let L = z_lib Z in
      if lower (compact status) = COMMAND_COMPLETED
      then bindS (complete_command L now k worker result) (\<lambda>c.
           bindS (if y_type c \<in> {TURN_START, TURN_INTERRUPT}
                  then settle_with_command Z now c (\<lambda>tk a. complete_task now tk (y_machine c) (g_token a)
                    (Some (if y_type c = TURN_START then ''Turn request accepted by the local Codex runtime.''
                           else ''Interrupt request completed.'')))
                  else doneS ()) (\<lambda>_. doneS c))
      else bindS (fail_command L now k worker err) (\<lambda>c.
           bindS (settle_with_command Z now c (\<lambda>tk a. fail_task now tk (y_machine c) (g_token a)
                    (compact_text L (obj_get (case err of None \<Rightarrow> [] | Some e \<Rightarrow> e) ''message'') ''Unknown error''))) (\<lambda>_. doneS c)))"

text \<open>The calls that only pass on to the task service.\<close>

definition codex_create_task ::
  "lib \<Rightarrow> instant \<Rightarrow> string \<Rightarrow> string \<Rightarrow> string \<Rightarrow> string \<Rightarrow> obj \<Rightarrow> string \<Rightarrow> string option \<Rightarrow> string \<Rightarrow> string \<Rightarrow> task_summary codex_run" where
  "codex_create_task L now k m t objective criteria surface message priority who =
     task_call L now (create_task now k m t objective criteria surface message priority who)"

definition codex_claim_task :: "lib \<Rightarrow> instant \<Rightarrow> string \<Rightarrow> string \<Rightarrow> int \<Rightarrow> task_summary codex_run" where
  "codex_claim_task L now k actor secs = task_call L now (claim_task now k actor secs)"

definition claim_next_machine_task :: "lib \<Rightarrow> instant \<Rightarrow> string \<Rightarrow> string \<Rightarrow> int \<Rightarrow> string list \<Rightarrow> task_summary option codex_run" where
  "claim_next_machine_task L now m actor secs exclude =
     bindS (remote_step (claim_next_task now m actor secs exclude))
       (\<lambda>r. case r of None \<Rightarrow> doneS None | Some t \<Rightarrow> bindS (publish_task L now t) (\<lambda>_. doneS (Some t)))"

definition codex_complete_task :: "lib \<Rightarrow> instant \<Rightarrow> string \<Rightarrow> string \<Rightarrow> key \<Rightarrow> string option \<Rightarrow> task_summary codex_run" where
  "codex_complete_task L now k actor token summary = task_call L now (complete_task now k actor token summary)"

definition codex_fail_task :: "lib \<Rightarrow> instant \<Rightarrow> string \<Rightarrow> string \<Rightarrow> key \<Rightarrow> string \<Rightarrow> task_summary codex_run" where
  "codex_fail_task L now k actor token er = task_call L now (fail_task now k actor token er)"

definition codex_interrupt_task :: "lib \<Rightarrow> instant \<Rightarrow> string \<Rightarrow> string \<Rightarrow> key \<Rightarrow> string option \<Rightarrow> task_summary codex_run" where
  "codex_interrupt_task L now k actor token nt = task_call L now (interrupt_task now k actor token nt)"

definition codex_request_approval ::
  "lib \<Rightarrow> instant \<Rightarrow> string \<Rightarrow> string \<Rightarrow> string \<Rightarrow> key \<Rightarrow> string \<Rightarrow> string option \<Rightarrow> task_summary codex_run" where
  "codex_request_approval L now aid k actor token why nt = task_call L now (request_approval now aid k actor token why nt)"

definition codex_resolve_approval :: "lib \<Rightarrow> instant \<Rightarrow> string \<Rightarrow> string \<Rightarrow> string \<Rightarrow> string option \<Rightarrow> task_summary codex_run" where
  "codex_resolve_approval L now k who resolution nt = task_call L now (resolve_approval now k who resolution nt)"

definition codex_heartbeat_task ::
  "lib \<Rightarrow> instant \<Rightarrow> string \<Rightarrow> string \<Rightarrow> key \<Rightarrow> string \<Rightarrow> string option \<Rightarrow> int \<Rightarrow> int \<Rightarrow> int \<Rightarrow> int \<Rightarrow> int \<Rightarrow> task_summary codex_run" where
  "codex_heartbeat_task L now k actor token phase summary commands reads writes tests secs =
     task_call L now (heartbeat_task now k actor token phase summary commands reads writes tests secs)"

definition note_obj :: "lib \<Rightarrow> task_note \<Rightarrow> obj" where
  "note_obj L n = [(''actorId'', JStr (tn_actor n)), (''kind'', JStr (tn_kind n)), (''content'', JStr (tn_content n)),
     (''createdAt'', jtime L (tn_created n))]"

definition codex_add_note :: "lib \<Rightarrow> instant \<Rightarrow> string \<Rightarrow> string \<Rightarrow> string \<Rightarrow> string \<Rightarrow> obj codex_run" where
  "codex_add_note L now k actor kind content = bindS (remote_step (add_note now k actor kind content)) (\<lambda>n. doneS (note_obj L n))"

definition codex_list_notes :: "lib \<Rightarrow> string \<Rightarrow> obj list codex_run" where
  "codex_list_notes L k = bindS (remote_read (list_notes k)) (\<lambda>ns. doneS (map (note_obj L) ns))"

text \<open>The agent does not know its lease token: the service takes it from the current assignment.\<close>

definition with_assignment ::
  "codex_lib \<Rightarrow> instant \<Rightarrow> string \<Rightarrow> (assignment \<Rightarrow> remote \<Rightarrow> remote_error + task_summary \<times> remote) \<Rightarrow> task_summary codex_run" where
  "with_assignment Z now k f =
     bindS (remote_read (get_task k)) (\<lambda>t.
       case ts_assignment t of None \<Rightarrow> failS (CodexError ''task_not_claimed'') | Some a \<Rightarrow> task_call (z_lib Z) now (f a))"

definition agent_heartbeat_task ::
  "codex_lib \<Rightarrow> instant \<Rightarrow> string \<Rightarrow> string \<Rightarrow> string \<Rightarrow> string option \<Rightarrow> int \<Rightarrow> int \<Rightarrow> int \<Rightarrow> int \<Rightarrow> task_summary codex_run" where
  "agent_heartbeat_task Z now k actor phase summary commands reads writes tests =
     with_assignment Z now k (\<lambda>a. heartbeat_task now k actor (g_token a) phase summary commands reads writes tests 120)"

definition agent_add_evidence ::
  "codex_lib \<Rightarrow> instant \<Rightarrow> string \<Rightarrow> string \<Rightarrow> string \<Rightarrow> string \<Rightarrow> obj \<Rightarrow> task_summary codex_run" where
  "agent_add_evidence Z now k actor kind summary payload = task_call (z_lib Z) now (add_evidence now k actor kind summary payload)"

definition agent_complete_task :: "codex_lib \<Rightarrow> instant \<Rightarrow> string \<Rightarrow> string \<Rightarrow> string option \<Rightarrow> task_summary codex_run" where
  "agent_complete_task Z now k actor summary = with_assignment Z now k (\<lambda>a. complete_task now k actor (g_token a) summary)"

definition agent_fail_task :: "codex_lib \<Rightarrow> instant \<Rightarrow> string \<Rightarrow> string \<Rightarrow> obj option \<Rightarrow> task_summary codex_run" where
  "agent_fail_task Z now k actor err =
     with_assignment Z now k (\<lambda>a. fail_task now k actor (g_token a)
       (compact_text (z_lib Z) (obj_get (case err of None \<Rightarrow> [] | Some e \<Rightarrow> e) ''message'') ''Unknown error''))"

end
