(* ===== verification/CodexFlow.thy ===== *)
theory CodexFlow
  imports CodexService
begin

text \<open>
  What holds in every state the remote Codex services reach: a step relation with every call that
  writes, the invariant that the kernel queue shadows the command queue, and the fate of a command.
\<close>

section \<open>Frames\<close>

lemma publish_frame [simp]:
  "cx_commands (codex_publish L now m t p s) = cx_commands s" "cx_kernel (codex_publish L now m t p s) = cx_kernel s"
  "cx_tasks (codex_publish L now m t p s) = cx_tasks s" "cx_machines (codex_publish L now m t p s) = cx_machines s"
  "cx_threads (codex_publish L now m t p s) = cx_threads s" "cx_messages (codex_publish L now m t p s) = cx_messages s"
  by (simp_all add: codex_publish_def)

lemma command_row_publish [simp]: "command_row k (codex_publish L now m t p s) = command_row k s"
  by (simp add: command_row_def)

text \<open>\<open>fewer s s'\<close>: no command was added or changed, and the kernel queue is as it was.\<close>

definition fewer :: "codex \<Rightarrow> codex \<Rightarrow> bool" where
  "fewer s s' \<longleftrightarrow> (\<exists>P. cx_commands s' = filter P (cx_commands s)) \<and> cx_kernel s' = cx_kernel s"

lemma fewer_same: "cx_commands s' = cx_commands s \<Longrightarrow> cx_kernel s' = cx_kernel s \<Longrightarrow> fewer s s'"
  unfolding fewer_def by (intro conjI exI [of _ "\<lambda>_. True"]) auto

lemma fewer_refl [simp]: "fewer s s"
  by (rule fewer_same) simp_all

lemma fewer_trans: "fewer a b \<Longrightarrow> fewer b c \<Longrightarrow> fewer a c"
  unfolding fewer_def by (metis filter_filter)

lemma fewer_drop [simp]: "fewer s (drop_commands ids s)"
  by (auto simp: fewer_def drop_commands_def)

lemma fewer_publish [simp]: "fewer s (codex_publish L now m t p s)"
  by (rule fewer_same) simp_all

lemma fewer_fold: "(\<And>x s. x \<in> set xs \<Longrightarrow> fewer s (f x s)) \<Longrightarrow> fewer s (fold f xs s)"
  by (induction xs arbitrary: s) (auto intro: fewer_trans)

lemma fewer_list [simp]: "fewer s (snd (list_thread_commands L now m t limit stale s))"
  by (simp add: list_thread_commands_def Let_def split: prod.split)

lemma fewer_active [simp]: "fewer s (snd (get_active_thread_command L now m t ty s))"
  using fewer_list [of s L now m t 20 False]
  by (cases "list_thread_commands L now m t 20 False s") (simp add: get_active_thread_command_def)

lemma fewer_latest [simp]: "fewer s (snd (get_latest_turn_id L now m t s))"
  using fewer_list [of s L now m t 20 False]
  by (cases "list_thread_commands L now m t 20 False s") (simp add: get_latest_turn_id_def split: list.split)

lemma fewer_snapshot [simp]: "fewer s (snd (get_thread_snapshot Z now m t limit after s))"
  by (simp add: get_thread_snapshot_def Let_def split: prod.split option.split)

lemma fewer_apply_snapshot: "apply_snapshot Z now m gone item s = Inr s' \<Longrightarrow> fewer s s'"
  by (auto simp: apply_snapshot_def bindE_Inr_iff Let_def thread_set_def add_thread_def intro!: fewer_same split: if_splits)

lemma fewer_snapshots: "foldE (apply_snapshot Z now m gone) snaps s = Inr s' \<Longrightarrow> fewer s s'"
  by (induction snaps arbitrary: s) (auto simp: bindE_Inr_iff dest: fewer_apply_snapshot intro: fewer_trans)

lemma fewer_sync_tx:
  assumes "sync_tx Z now m machine threads snapshots s = Inr (changed, s')"
  shows "fewer s s'"
proof -
  have listed: "fewer u (list_thread L m p u)" for L p u
    by (rule fewer_same) (simp_all add: list_thread_def Let_def thread_set_def add_thread_def)
  have pruned: "fewer u (prune_threads m inc (put_machine r u))" for inc r u
    by (rule fewer_same) (simp_all add: prune_threads_def put_machine_def Let_def)
  obtain r items inc gone snaps s2 ids where
      f: "foldE (apply_snapshot Z now m gone) snaps (fold (list_thread (z_lib Z) m) items (prune_threads m inc (put_machine r s))) = Inr s2"
    and s': "s' = fold (drop_stale (z_lib Z) now m) ids s2"
    using assms by (auto simp: sync_tx_def bindE_Inr_iff Let_def)
  have "fewer s (fold (list_thread (z_lib Z) m) items (prune_threads m inc (put_machine r s)))"
    by (rule fewer_trans [OF pruned fewer_fold]) (rule listed)
  moreover have "fewer s2 s'" unfolding s' by (rule fewer_fold) (simp add: drop_stale_def)
  ultimately show ?thesis using fewer_snapshots [OF f] fewer_trans by blast
qed

lemma fewer_sync [simp]: "fewer s (snd (apply_agent_sync Z now machine threads snapshots s))"
proof -
  have "fewer u (fold (\<lambda>t. codex_publish L now m t p) ts u)" for L m p ts u by (rule fewer_fold) simp
  then have "fewer s b \<Longrightarrow> fewer s (fold (\<lambda>t. codex_publish L now m t p) ts (codex_publish L now m x y b))" for L m p ts x y b
    by (blast intro: fewer_trans fewer_publish)
  then show ?thesis
    by (auto simp: apply_agent_sync_def Let_def dest!: fewer_sync_tx split: sum.split option.split prod.split)
qed

section \<open>Steps\<close>

text \<open>
  A write of the state service or of the task service under it; \<open>k\<close> is a command id that no step
  draws again (\<open>uuid4\<close>). The reads that delete stale commands are writes too.
\<close>

inductive codex_step :: "codex_lib \<Rightarrow> string \<Rightarrow> codex \<Rightarrow> codex \<Rightarrow> bool" for Z k where
  enqueued: "j \<noteq> k \<Longrightarrow> j \<noteq> [] \<Longrightarrow> codex_step Z k s (snd (enqueue_command (z_lib Z) now j ty m t who prompt turn task s))"
| claimed: "codex_step Z k s (snd (claim_next_command (z_lib Z) now m worker s))"
| completed: "codex_step Z k s (snd (complete_command (z_lib Z) now j worker result s))"
| failed: "codex_step Z k s (snd (fail_command (z_lib Z) now j worker err s))"
| thinned: "fewer s s' \<Longrightarrow> codex_step Z k s s'"

abbreviation codex_steps :: "codex_lib \<Rightarrow> string \<Rightarrow> codex \<Rightarrow> codex \<Rightarrow> bool" where
  "codex_steps Z k \<equiv> (codex_step Z k)\<^sup>*\<^sup>*"

text \<open>Reads, syncs, subscriptions, publications and the task service are steps of the last kind.\<close>

lemma thinned_steps:
  "codex_step Z k s (snd (list_thread_commands L now m t limit stale s))"
  "codex_step Z k s (snd (get_thread_snapshot Z now m t lim after s))"
  "codex_step Z k s (snd (apply_agent_sync Z now machine threads snapshots s))"
  "codex_step Z k s (codex_publish L now m t p s)"
  "codex_step Z k s (s\<lparr>cx_tasks := r\<rparr>)"
  "codex_step Z k s (snd (codex_subscribe m t s))"
  "codex_step Z k s (codex_unsubscribe i s)"
  by (rule thinned; simp add: codex_subscribe_def codex_unsubscribe_def fewer_same)+

section \<open>The fate of a command\<close>

text \<open>\<open>taken k s\<close>: the command, if it is still stored, is not waiting.\<close>

definition taken :: "string \<Rightarrow> codex \<Rightarrow> bool" where
  "taken k s \<longleftrightarrow> (\<forall>c \<in> set (cx_commands s). y_id c = k \<longrightarrow> y_status c \<noteq> COMMAND_QUEUED)"

lemma taken_fewer: "fewer s s' \<Longrightarrow> taken k s \<Longrightarrow> taken k s'"
  by (auto simp: fewer_def taken_def)

lemma taken_set:
  "taken k s \<Longrightarrow> y_id c' = j \<Longrightarrow> y_status c' \<noteq> COMMAND_QUEUED \<Longrightarrow> taken k ((command_set j (\<lambda>_. c') s)\<lparr>cx_kernel := q\<rparr>)"
  by (auto simp: taken_def command_set_def row_upd_def)

lemma taken_publish [simp]: "taken k (codex_publish L now m t p s) \<longleftrightarrow> taken k s"
  by (simp add: taken_def)

lemma command_row_id: "command_row k s = Some c \<Longrightarrow> y_id c = k \<and> c \<in> set (cx_commands s)"
  unfolding command_row_def by (rule row_get_SomeD)

lemma taken_settle:
  assumes "taken k s" "\<And>c. y_id (f c) = y_id c" "\<And>c. y_status (f c) \<noteq> COMMAND_QUEUED"
  shows "taken k (snd (settle_command L now j f st res err s))"
  using assms by (auto simp: settle_command_def Let_def split: option.split dest!: command_row_id intro!: taken_set)

lemma waiting_command:
  assumes "waiting_commands m s = c # cs"
  shows "c \<in> set (cx_commands s) \<and> y_machine c = m \<and> y_status c = COMMAND_QUEUED"
proof -
  have "c \<in> set (waiting_commands m s)" by (simp add: assms)
  then show ?thesis unfolding waiting_commands_def set_select_asc by simp
qed

lemma codex_step_taken: "codex_step Z k s s' \<Longrightarrow> taken k s \<Longrightarrow> taken k s'"
proof (induction rule: codex_step.induct)
  case (enqueued j s now ty m t who prompt turn task)
  then show ?case
    by (auto simp: enqueue_command_def Let_def taken_def split: sum.split)
next
  case (claimed s now m worker)
  then show ?case
    by (auto simp: claim_next_command_def Let_def split: list.split intro!: taken_set)
next
  case (completed s now j worker result)
  then show ?case unfolding complete_command_def by (intro taken_settle) simp_all
next
  case (failed s now j worker err)
  then show ?case unfolding fail_command_def by (intro taken_settle) simp_all
qed (rule taken_fewer)

lemma codex_steps_taken: "codex_steps Z k s s' \<Longrightarrow> taken k s \<Longrightarrow> taken k s'"
  by (induction rule: rtranclp_induct) (auto dest: codex_step_taken)

lemma claim_gives:
  assumes "claim_next_command L now m worker s = (Some c, s')"
  shows "taken (y_id c) s'" "\<exists>c0 \<in> set (cx_commands s). y_id c0 = y_id c \<and> y_status c0 = COMMAND_QUEUED \<and> y_machine c0 = m
    \<and> (\<forall>x \<in> set (cx_commands s). y_machine x = m \<and> y_status x = COMMAND_QUEUED \<longrightarrow> y_created c0 \<le> y_created x)"
proof -
  obtain c0 cs where w: "waiting_commands m s = c0 # cs"
    using assms by (auto simp: claim_next_command_def split: list.splits)
  have c: "y_id c = y_id c0" "y_status c = COMMAND_RUNNING" using assms w by (auto simp: claim_next_command_def Let_def)
  have s': "taken (y_id c) s'"
    using assms w c by (auto simp: claim_next_command_def Let_def taken_def command_set_def row_upd_def)
  have "y_created c0 \<le> y_created x" if "x \<in> set (cx_commands s)" "y_machine x = m \<and> y_status x = COMMAND_QUEUED" for x
    using select_asc_hd_min [of x "cx_commands s" "\<lambda>c. y_machine c = m \<and> y_status c = COMMAND_QUEUED" y_created] that w
    by (simp add: waiting_commands_def)
  with s' waiting_command [OF w] c show "taken (y_id c) s'"
    "\<exists>c0 \<in> set (cx_commands s). y_id c0 = y_id c \<and> y_status c0 = COMMAND_QUEUED \<and> y_machine c0 = m
      \<and> (\<forall>x \<in> set (cx_commands s). y_machine x = m \<and> y_status x = COMMAND_QUEUED \<longrightarrow> y_created c0 \<le> y_created x)"
    by auto
qed

lemma taken_not_claimed:
  assumes "taken k s" "claim_next_command L now m worker s = (Some c, s')"
  shows "y_id c \<noteq> k"
  using claim_gives(2) [OF assms(2)] assms(1) by (auto simp: taken_def)

section \<open>The kernel queue shadows the commands\<close>

definition shadow_status :: "string \<Rightarrow> string" where
  "shadow_status st = (if st = COMMAND_RUNNING then TASK_STATUS_CLAIMED else st)"

definition shadow_of :: "kqueue \<Rightarrow> command \<Rightarrow> bool" where
  "shadow_of q c \<longleftrightarrow>
     (\<exists>r. task_get (Ext (y_id c)) q = Some r \<and> k_status r = shadow_status (y_status c) \<and> k_owner r = y_worker c
        \<and> k_space r = remote_codex_machine_space_id (y_machine c))"

definition shadowed :: "codex \<Rightarrow> bool" where
  "shadowed s \<longleftrightarrow>
     (\<forall>c \<in> set (cx_commands s). y_status c \<in> {COMMAND_QUEUED, COMMAND_RUNNING, COMMAND_COMPLETED, COMMAND_FAILED}
        \<and> shadow_of (cx_kernel s) c)"

lemma shadowed_fewer: "fewer s s' \<Longrightarrow> shadowed s \<Longrightarrow> shadowed s'"
  by (auto simp: fewer_def shadowed_def)

lemma shadowed_publish [simp]: "shadowed (codex_publish L now m t p s) \<longleftrightarrow> shadowed s"
  by (simp add: shadowed_def)

lemma shadow_get_upd:
  "(\<And>r. k_id (f r) = k_id r) \<Longrightarrow>
     task_get k (task_upd j f q) = (if k = j then map_option f (task_get k q) else task_get k q)"
  by (simp add: task_get_def task_upd_def row_get_upd_same row_get_upd_other)

lemma shadow_row_keeps [simp]:
  "k_id (shadow_row now st owner res err r) = k_id r" "k_space (shadow_row now st owner res err r) = k_space r"
  "k_status (shadow_row now st owner res err r) = st" "k_owner (shadow_row now st (Some a) res err r) = Some a"
  by (simp_all add: shadow_row_def Let_def)

lemma shadow_of_other:
  "y_id x \<noteq> k \<Longrightarrow> shadow_of (mirror_command_transition now k st w res err q) x \<longleftrightarrow> shadow_of q x"
  by (simp add: shadow_of_def mirror_command_transition_def shadow_get_upd)

lemma shadow_of_moved:
  assumes "shadow_of q c" "y_id c' = y_id c" "y_machine c' = y_machine c" "y_worker c' = Some w" "st = shadow_status (y_status c')"
  shows "shadow_of (mirror_command_transition now (y_id c) st (Some w) res err q) c'"
  using assms by (auto simp: shadow_of_def mirror_command_transition_def shadow_get_upd)

lemma shadowed_move:
  assumes "shadowed s" "c \<in> set (cx_commands s)" "y_id c' = y_id c" "y_machine c' = y_machine c" "y_worker c' = Some w"
    and "y_status c' \<in> {COMMAND_RUNNING, COMMAND_COMPLETED, COMMAND_FAILED}" "st = shadow_status (y_status c')"
  shows "shadowed ((command_set (y_id c) (\<lambda>_. c') s)
     \<lparr>cx_kernel := mirror_command_transition now (y_id c) st (Some w) res err (cx_kernel s)\<rparr>)"
proof -
  let ?q = "mirror_command_transition now (y_id c) st (Some w) res err (cx_kernel s)"
  have "shadow_of ?q c'" using assms by (intro shadow_of_moved) (auto simp: shadowed_def)
  then have new: "y_status c' \<in> {COMMAND_QUEUED, COMMAND_RUNNING, COMMAND_COMPLETED, COMMAND_FAILED} \<and> shadow_of ?q c'"
    using assms(6) by blast
  have old: "y_status x \<in> {COMMAND_QUEUED, COMMAND_RUNNING, COMMAND_COMPLETED, COMMAND_FAILED} \<and> shadow_of ?q x"
    if "x \<in> set (cx_commands s)" "y_id x \<noteq> y_id c" for x
    using assms(1) that by (simp add: shadowed_def shadow_of_other)
  show ?thesis
    unfolding shadowed_def command_set_def row_upd_def using new old by (auto simp del: insert_iff)
qed

lemma shadowed_settle:
  assumes "shadowed s" "\<And>c. y_id (f c) = y_id c \<and> y_machine (f c) = y_machine c \<and> y_worker (f c) = Some (w c)"
    and "\<And>c. y_status (f c) = status" "status \<in> {COMMAND_COMPLETED, COMMAND_FAILED}"
  shows "shadowed (snd (settle_command L now k f status res err s))"
proof (cases "command_row k s")
  case (Some c)
  have c: "c \<in> set (cx_commands s)" "y_id c = k" using command_row_id [OF Some] by simp_all
  have st: "status = shadow_status (y_status (f c))" using assms(3) [of c] assms(4) by (auto simp: shadow_status_def)
  have "shadowed ((command_set (y_id c) (\<lambda>_. f c) s)
     \<lparr>cx_kernel := mirror_command_transition now (y_id c) status (Some (w c)) res err (cx_kernel s)\<rparr>)"
    by (rule shadowed_move [OF assms(1) c(1)]) (use assms(2,3) [of c] assms(4) st in auto)
  then show ?thesis using Some c(2) assms(2) [of c] by (simp add: settle_command_def Let_def)
qed (use assms(1) in \<open>simp add: settle_command_def\<close>)

lemma shadow_of_grow:
  "shadow_of q c \<Longrightarrow> shadow_of \<lparr>q_rows = q_rows q @ rows, q_next = n\<rparr> c"
  by (auto simp: shadow_of_def task_get_def row_get_append)

lemma shadowed_enqueue:
  assumes "shadowed s" "k \<noteq> []"
  shows "shadowed (snd (enqueue_command L now k ty m t who prompt turn task s))"
proof -
  have sp: "remote_codex_machine_space_id m \<noteq> []" by (simp add: remote_codex_machine_space_id_def)
  let ?r = "enqueue_command L now k ty m t who prompt turn task s"
  show ?thesis
  proof (cases "command_row k s = None \<and> row_get k_id (Ext k) (q_rows (cx_kernel s)) = None")
    case True
    obtain c row n where c: "cx_commands (snd ?r) = cx_commands s @ [c]"
        "cx_kernel (snd ?r) = \<lparr>q_rows = q_rows (cx_kernel s) @ [row], q_next = n\<rparr>"
      and row: "k_id row = Ext k" "k_status row = TASK_STATUS_QUEUED" "k_owner row = None" "k_space row = remote_codex_machine_space_id m"
      and c': "y_id c = k" "y_status c = COMMAND_QUEUED" "y_worker c = None" "y_machine c = m"
      using True assms(2) sp by (simp add: enqueue_command_def mirror_command_enqueue_def enqueue_def Let_def key_or_def)
    have "shadow_of (cx_kernel (snd ?r)) c"
      using True row c' c(2) by (simp add: shadow_of_def task_get_def row_get_append row_get_Cons shadow_status_def)
    moreover have "shadow_of (cx_kernel (snd ?r)) x" if "x \<in> set (cx_commands s)" for x
      using assms(1) that by (simp add: c(2) shadowed_def shadow_of_grow)
    ultimately show ?thesis using assms(1) c' by (auto simp: shadowed_def c(1))
  next
    case False
    then have "snd ?r = s"
      using assms(2) sp by (auto simp: enqueue_command_def mirror_command_enqueue_def enqueue_def Let_def key_or_def)
    with assms(1) show ?thesis by simp
  qed
qed

lemma codex_step_shadowed: "codex_step Z k s s' \<Longrightarrow> shadowed s \<Longrightarrow> shadowed s'"
proof (induction rule: codex_step.induct)
  case (enqueued j s now ty m t who prompt turn task)
  then show ?case by (intro shadowed_enqueue)
next
  case (claimed s now m worker)
  show ?case
  proof (cases "waiting_commands m s")
    case (Cons c cs)
    note c = waiting_command [OF Cons]
    show ?thesis unfolding claim_next_command_def Cons list.case Let_def snd_conv shadowed_publish
      by (rule shadowed_move [OF claimed]) (use c in \<open>simp_all add: shadow_status_def\<close>)
  qed (use claimed in \<open>simp add: claim_next_command_def\<close>)
next
  case (completed s now j worker result)
  then show ?case unfolding complete_command_def by (intro shadowed_settle) (auto simp: settled_worker_def)
next
  case (failed s now j worker err)
  then show ?case unfolding fail_command_def by (intro shadowed_settle) (auto simp: settled_worker_def)
qed (rule shadowed_fewer)

lemma codex_steps_shadowed: "codex_steps Z k s s' \<Longrightarrow> shadowed s \<Longrightarrow> shadowed s'"
  by (induction rule: rtranclp_induct) (auto dest: codex_step_shadowed)

end
