(* ===== verification/CodexCalls.thy ===== *)
theory CodexCalls
  imports CodexFlow
begin

text \<open>
  The calls of the remote Codex behavior as steps: every call of \<open>RemoteCodexBehaviorService\<close> is a
  sequence of the writes of \<open>CodexFlow\<close>, so the shadow of the command queue holds in every state the
  behavior reaches, and a claimed command is never handed out again.
\<close>

section \<open>Calls are sequences of steps\<close>

definition stepwise :: "codex_lib \<Rightarrow> string \<Rightarrow> 'a codex_run \<Rightarrow> bool" where
  "stepwise Z k m \<longleftrightarrow> (\<forall>s. codex_steps Z k s (snd (m s)))"

lemma stepwiseD: "stepwise Z k m \<Longrightarrow> codex_steps Z k s (snd (m s))"
  by (simp add: stepwise_def)

lemma stepwise_bind:
  assumes "stepwise Z k m" "\<And>x. stepwise Z k (f x)"
  shows "stepwise Z k (bindS m f)"
  unfolding stepwise_def
proof
  fix s
  obtain r s1 where m: "m s = (r, s1)" by (cases "m s")
  have 1: "codex_steps Z k s s1" using stepwiseD [OF assms(1), of s] m by simp
  show "codex_steps Z k s (snd (bindS m f s))"
    using 1 stepwiseD [OF assms(2)] by (cases r) (auto simp: bindS_def m intro: rtranclp_trans)
qed

lemma stepwise_thin: "(\<And>s. fewer s (snd (m s))) \<Longrightarrow> stepwise Z k m"
  by (auto simp: stepwise_def intro: thinned)

lemma stepwise_simps [simp]:
  "stepwise Z k (doneS x)" "stepwise Z k (failS e)" "stepwise Z k (state_read f)" "stepwise Z k (remote_read g)"
  by (auto intro!: stepwise_thin simp: doneS_def failS_def state_read_def remote_read_def)

lemma stepwise_remote [simp]: "stepwise Z k (remote_step f)"
  by (rule stepwise_thin) (auto simp: remote_step_def fewer_same split: sum.split prod.split)

lemma stepwise_publish [simp]: "stepwise Z k (state_step (\<lambda>s. ((), codex_publish L now m t p s)))"
  "stepwise Z k (publish_task L now x)"
  by (auto intro!: stepwise_thin simp: state_step_def publish_task_def)

lemma stepwise_reads [simp]:
  "stepwise Z k (state_step (list_thread_commands L now m t limit stale))"
  "stepwise Z k (state_step (get_active_thread_command L now m t ty))"
  "stepwise Z k (state_step (get_latest_turn_id L now m t))"
  "stepwise Z k (state_step (get_thread_snapshot Z' now m t limit' after))"
  by (rule stepwise_thin, simp add: state_step_def case_prod_beta)+

lemma stepwise_queue [simp]:
  "j \<noteq> k \<Longrightarrow> j \<noteq> [] \<Longrightarrow> stepwise Z k (enqueue_command (z_lib Z) now j ty m t who prompt turn task)"
  "stepwise Z k (state_step (claim_next_command (z_lib Z) now m worker))"
  "stepwise Z k (complete_command (z_lib Z) now i worker result)"
  "stepwise Z k (fail_command (z_lib Z) now i worker err)"
  by (auto simp: stepwise_def state_step_def case_prod_beta intro: codex_step.intros)

lemma stepwise_task_call [simp]: "stepwise Z k (task_call L now f)"
  unfolding task_call_def by (intro stepwise_bind) simp_all

lemma stepwise_cleanup [simp]: "stepwise Z k (maybe_cleanup_stale_task L now t c st latest)"
  unfolding maybe_cleanup_stale_task_def by (auto intro!: stepwise_bind split: option.split prod.split)

lemma stepwise_cleanup_each [simp]: "stepwise Z k (cleanup_each L now cs st latest ts)"
  by (induction ts) (auto intro!: stepwise_bind)

lemma stepwise_settle [simp]: "stepwise Z k (settle_with_command Z' now c f)"
  unfolding settle_with_command_def by (auto intro!: stepwise_bind split: option.split)

lemma stepwise_assignment [simp]: "stepwise Z k (with_assignment Z' now i f)"
  unfolding with_assignment_def by (auto intro!: stepwise_bind split: option.split)

lemma stepwise_sync [simp]: "stepwise Z k (apply_agent_sync Z' now machine threads snapshots)"
  by (rule stepwise_thin) simp

section \<open>The calls of the behavior\<close>

text \<open>\<open>k\<close> is an id that none of the calls draws for a new command.\<close>

inductive codex_call :: "codex_lib \<Rightarrow> string \<Rightarrow> codex \<Rightarrow> codex \<Rightarrow> bool" for Z k where
  turn: "ck \<noteq> k \<Longrightarrow> ck \<noteq> [] \<Longrightarrow> codex_call Z k s (snd (enqueue_turn Z now tk ck m t prompt files who s))"
| interrupt: "ck \<noteq> k \<Longrightarrow> ck \<noteq> [] \<Longrightarrow> codex_call Z k s (snd (enqueue_interrupt Z now tk ck m t who turn s))"
| thread_delete: "ck \<noteq> k \<Longrightarrow> ck \<noteq> [] \<Longrightarrow> codex_call Z k s (snd (enqueue_thread_delete Z now ck m t who s))"
| machine_wide: "ck \<noteq> k \<Longrightarrow> ck \<noteq> [] \<Longrightarrow> codex_call Z k s (snd (machine_command Z now ck ty m params who s))"
| claim: "codex_call Z k s (snd (claim_command Z now m worker s))"
| outcome: "codex_call Z k s (snd (record_command_result Z now i worker status result err s))"
| sync: "codex_call Z k s (snd (apply_agent_sync Z now machine threads snapshots s))"
| messages: "codex_call Z k s (snd (get_thread_messages Z now m t limit after s))"
| commands: "codex_call Z k s (snd (get_thread_commands Z now m t limit s))"
| tasks: "codex_call Z k s (snd (list_thread_tasks Z now m t statuses limit s))"
| task: "codex_call Z k s (snd (codex_get_task Z now i s))"
| task_write: "codex_call Z k s (snd (task_call L now f s))"
| agent_write: "codex_call Z k s (snd (with_assignment Z now i g s))"
| next_task: "codex_call Z k s (snd (claim_next_machine_task L now m actor secs exclude s))"
| noted: "codex_call Z k s (snd (codex_add_note L now i actor kind content s))"
| listen: "codex_call Z k s (snd (codex_subscribe m t s))"
| leave: "codex_call Z k s (codex_unsubscribe i s)"

abbreviation codex_calls :: "codex_lib \<Rightarrow> string \<Rightarrow> codex \<Rightarrow> codex \<Rightarrow> bool" where
  "codex_calls Z k \<equiv> (codex_call Z k)\<^sup>*\<^sup>*"

lemma stepwise_calls:
  "ck \<noteq> k \<Longrightarrow> ck \<noteq> [] \<Longrightarrow> stepwise Z k (enqueue_turn Z now tk ck m t prompt files who)"
  "ck \<noteq> k \<Longrightarrow> ck \<noteq> [] \<Longrightarrow> stepwise Z k (enqueue_interrupt Z now tk ck m t who turn)"
  "ck \<noteq> k \<Longrightarrow> ck \<noteq> [] \<Longrightarrow> stepwise Z k (enqueue_thread_delete Z now ck m t who)"
  "ck \<noteq> k \<Longrightarrow> ck \<noteq> [] \<Longrightarrow> stepwise Z k (machine_command Z now ck ty m params who)"
  "stepwise Z k (claim_command Z now m worker)"
  "stepwise Z k (record_command_result Z now i worker status result err)"
  "stepwise Z k (get_thread_messages Z now m t limit after)"
  "stepwise Z k (get_thread_commands Z now m t limit)"
  "stepwise Z k (list_thread_tasks Z now m t statuses limit)"
  "stepwise Z k (codex_get_task Z now i)"
  "stepwise Z k (claim_next_machine_task L now m actor secs exclude)"
  "stepwise Z k (codex_add_note L now i actor kind content)"
  unfolding enqueue_turn_def enqueue_interrupt_def enqueue_thread_delete_def machine_command_def claim_command_def
    record_command_result_def get_thread_messages_def get_thread_commands_def list_thread_tasks_def codex_get_task_def
    claim_next_machine_task_def codex_add_note_def browser_task_def Let_def
  by (auto intro!: stepwise_bind split: option.split)

lemma codex_call_steps: "codex_call Z k s s' \<Longrightarrow> codex_steps Z k s s'"
  by (induction rule: codex_call.induct)
    (auto intro: stepwiseD stepwise_calls thinned_steps r_into_rtranclp)

lemma codex_calls_steps: "codex_calls Z k s s' \<Longrightarrow> codex_steps Z k s s'"
  by (induction rule: rtranclp_induct) (auto dest: codex_call_steps intro: rtranclp_trans)

lemma claim_command_after:
  assumes "claim_next_command (z_lib Z) now m w s = (Some c, s1)"
  shows "codex_steps Z k s1 (snd (claim_command Z now m w s))"
proof -
  let ?rest = "case y_task c of None \<Rightarrow> doneS (Some c)
    | Some i \<Rightarrow> if i = [] then doneS (Some c)
         else bindS (remote_step (claim_task now i m 120)) (\<lambda>t.
              bindS (state_step (\<lambda>s. ((), codex_publish (z_lib Z) now (y_machine c) (y_thread c)
                [(''kind'', JStr ''task''), (''task'', JObj (task_to_browser (z_lib Z) t))] s))) (\<lambda>_. doneS (Some c)))"
  have "claim_command Z now m w s = ?rest s1"
    using assms by (simp add: claim_command_def Let_def bindS_def state_step_def)
  moreover have "stepwise Z k ?rest" by (auto intro!: stepwise_bind split: option.split)
  ultimately show ?thesis by (simp only: stepwiseD)
qed

end
