(* ===== verification/CodexProps.thy ===== *)
theory CodexProps
  imports CodexCalls
begin

text \<open>The properties of the remote Codex behavior, with the samples their witnesses run on.\<close>

section \<open>Samples\<close>

definition plain_lib :: lib where
  "plain_lib = \<lparr>l_uid = dec, l_iso = (\<lambda>t. dec (nat t)), l_dumps = (\<lambda>_. ''{}''), l_sorted = (\<lambda>_. ''{}''), l_b64 = id,
     l_sha256 = id, l_str = (\<lambda>_. ''?''), l_int = (\<lambda>_. None)\<rparr>"

definition plain_codex :: codex_lib where
  "plain_codex = \<lparr>z_lib = plain_lib, z_parse = (\<lambda>_. None), z_time = (\<lambda>_. Some 0)\<rparr>"

definition no_codex :: codex where
  "no_codex = \<lparr>cx_machines = [], cx_threads = [], cx_messages = [], cx_commands = [], cx_kernel = \<lparr>q_rows = [], q_next = 0\<rparr>,
     cx_tasks = no_remote, cx_listeners = [], cx_broker = None, cx_next = 0\<rparr>"

lemma no_codex_shadowed: "shadowed no_codex"
  by (simp add: shadowed_def no_codex_def)

text \<open>A machine that is online with one thread, two commands for it, the first of them claimed and done.\<close>

definition sample_machine :: obj where
  "sample_machine = [(''machineId'', JStr ''m''), (''capabilities'', JObj [(''liveControl'', JBool True)])]"

definition sample_synced :: codex where
  "sample_synced = snd (apply_agent_sync plain_codex 1 sample_machine [JObj [(''id'', JStr ''t'')]] [] no_codex)"

definition sample_queued :: codex where
  "sample_queued = snd (enqueue_fs_list plain_codex 3 ''c2'' ''m'' ''/'' []
     (snd (enqueue_fs_list plain_codex 2 ''c1'' ''m'' ''/'' [] sample_synced)))"

definition sample_claimed :: codex where
  "sample_claimed = snd (claim_command plain_codex 4 ''m'' ''w'' sample_queued)"

definition sample_done :: codex where
  "sample_done = snd (record_command_result plain_codex 5 ''c1'' ''w'' ''completed'' (Some []) None sample_claimed)"

section \<open>Samples evaluated\<close>

definition sample_probe :: "(string \<times> string) option \<times> string option \<times> (string \<times> string) list" where
  "sample_probe =
     (map_option (\<lambda>c. (y_id c, y_status c)) (fst (claim_next_command plain_lib 4 ''m'' ''w'' sample_queued)),
      (case sample_done of s \<Rightarrow> map_option y_id (fst (claim_next_command plain_lib 6 ''m'' ''w'' s))),
      (case sample_done of s \<Rightarrow> map (\<lambda>c. (y_id c, y_status c)) (cx_commands s)))"

lemma sample_probe_run:
  "sample_probe = (Some (''c1'', COMMAND_RUNNING), Some ''c2'', [(''c1'', COMMAND_COMPLETED), (''c2'', COMMAND_QUEUED)])"
  by code_simp

lemma sample_lib_id [simp]: "z_lib plain_codex = plain_lib"
  by (simp add: plain_codex_def)

lemma sample_done_call: "codex_call plain_codex k sample_claimed sample_done"
  unfolding sample_done_def by (rule codex_call.outcome)

lemma codex_sample_calls: "codex_calls plain_codex ''z'' no_codex sample_done"
proof -
  let ?q = "snd (enqueue_fs_list plain_codex 2 ''c1'' ''m'' ''/'' [] sample_synced)"
  have 1: "codex_call plain_codex ''z'' no_codex sample_synced" unfolding sample_synced_def by (rule codex_call.sync)
  have 2: "codex_call plain_codex ''z'' sample_synced ?q" "codex_call plain_codex ''z'' ?q sample_queued"
    unfolding sample_queued_def enqueue_fs_list_def by (rule codex_call.machine_wide; simp)+
  have 3: "codex_call plain_codex ''z'' sample_queued sample_claimed" unfolding sample_claimed_def by (rule codex_call.claim)
  note step = converse_rtranclp_into_rtranclp [where r = "codex_call plain_codex ''z''"]
  show ?thesis by (rule step [OF 1], rule step [OF 2(1)], rule step [OF 2(2)], rule step [OF 3], rule step [OF sample_done_call]) simp
qed

section \<open>Properties\<close>

text \<open>C13: A command is handed out once: after the call in which a machine's worker claims it, whether that
  call returns or raises, and whatever calls follow, no claim of any machine returns it again.\<close>

theorem command_delivered_once:
  assumes "fst (claim_next_command (z_lib Z) now m w s) = Some c" "codex_calls Z (y_id c) (snd (claim_command Z now m w s)) s2"
    and "fst (claim_next_command (z_lib Z) now' m' w' s2) = Some c'"
  shows "y_id c' \<noteq> y_id c"
proof -
  obtain s1 where s1: "claim_next_command (z_lib Z) now m w s = (Some c, s1)"
    using assms(1) by (cases "claim_next_command (z_lib Z) now m w s") simp
  have "codex_steps Z (y_id c) s1 (snd (claim_command Z now m w s))" by (rule claim_command_after [OF s1])
  then have "codex_steps Z (y_id c) s1 s2" using codex_calls_steps [OF assms(2)] by (rule rtranclp_trans)
  from codex_steps_taken [OF this claim_gives(1) [OF s1]] show ?thesis
    using taken_not_claimed assms(3) by (metis prod.collapse)
qed

theorem command_delivered_once_witness:
  "\<exists>c'. fst (claim_next_command plain_lib 6 ''m'' ''w'' sample_done) = Some c' \<and> y_id c' = ''c2'' \<and> y_id c' \<noteq> ''c1''"
proof -
  obtain c c' where c: "fst (claim_next_command plain_lib 4 ''m'' ''w'' sample_queued) = Some c" "y_id c = ''c1''"
    and c': "fst (claim_next_command plain_lib 6 ''m'' ''w'' sample_done) = Some c'" "y_id c' = ''c2''"
    using sample_probe_run by (auto simp: sample_probe_def)
  have "codex_calls plain_codex (y_id c) (snd (claim_command plain_codex 4 ''m'' ''w'' sample_queued)) sample_done"
    using sample_done_call unfolding sample_claimed_def by blast
  from command_delivered_once [of plain_codex, unfolded sample_lib_id, OF c(1) this c'(1)] c c' show ?thesis by auto
qed

text \<open>C33: The kernel queue shadows the command queue in every state the behavior reaches: each stored
  command has the kernel task of its id, in the machine's space, with the status that goes with the
  command's and with the same owner.\<close>

theorem kernel_shadow:
  assumes "codex_calls Z k no_codex s" "c \<in> set (cx_commands s)"
  shows "\<exists>r. task_get (Ext (y_id c)) (cx_kernel s) = Some r \<and> k_space r = remote_codex_machine_space_id (y_machine c)
    \<and> k_owner r = y_worker c
    \<and> (y_status c, k_status r) \<in> {(COMMAND_QUEUED, TASK_STATUS_QUEUED), (COMMAND_RUNNING, TASK_STATUS_CLAIMED),
         (COMMAND_COMPLETED, TASK_STATUS_COMPLETED), (COMMAND_FAILED, TASK_STATUS_FAILED)}"
proof -
  have "shadowed s" using codex_steps_shadowed [OF codex_calls_steps [OF assms(1)] no_codex_shadowed] .
  with assms(2) have "shadow_of (cx_kernel s) c" "y_status c \<in> {COMMAND_QUEUED, COMMAND_RUNNING, COMMAND_COMPLETED, COMMAND_FAILED}"
    by (auto simp: shadowed_def)
  then show ?thesis by (auto simp: shadow_of_def shadow_status_def)
qed

theorem kernel_shadow_witness:
  "\<exists>r. task_get (Ext ''c1'') (cx_kernel sample_done) = Some r \<and> k_status r = TASK_STATUS_COMPLETED"
proof -
  have "map (\<lambda>c. (y_id c, y_status c)) (cx_commands sample_done) = [(''c1'', COMMAND_COMPLETED), (''c2'', COMMAND_QUEUED)]"
    using sample_probe_run by (simp add: sample_probe_def)
  then have "(''c1'', COMMAND_COMPLETED) \<in> set (map (\<lambda>c. (y_id c, y_status c)) (cx_commands sample_done))" by simp
  then obtain c where "c \<in> set (cx_commands sample_done)" "y_id c = ''c1''" "y_status c = COMMAND_COMPLETED"
    unfolding set_map by (elim imageE) simp
  with kernel_shadow [OF codex_sample_calls this(1)] show ?thesis by auto
qed

text \<open>C34: What the browser uploads is what the worker gets: the attachments of a turn that was accepted come
  back from the stored command, with their data, exactly as the upload was normalized, in order.\<close>

theorem upload_reaches_worker:
  assumes "enqueue_turn Z now tk ck m t prompt files (requested_by_of (z_lib Z) auth email name subject client) s = (Inr (task, c), s')"
  shows "public_command_attachments (z_lib Z) (y_requested c) True
    = map attachment_obj (normalize_browser_turn_attachments (z_lib Z) files)"
proof -
  let ?L = "z_lib Z" let ?fs = "normalize_browser_turn_attachments ?L files"
  let ?who = "requested_by_of ?L auth email name subject client"
  let ?by = "if ?fs = [] then ?who else AList.update ''attachments'' (JArr (map attachment_obj ?fs)) ?who"
  have c: "y_requested c = serialize_requested_by ?L ?by"
    using assms by (auto simp: enqueue_turn_def Let_def bindS_Inr_iff enqueue_command_def doneS_def failS_def split: if_splits sum.splits option.splits)
  have "normalize_command_attachments ?L ?by = ?fs"
    using command_attachments_back [OF browser_attachments_ok [of ?L files], of ?L]
    by (auto simp: normalize_command_attachments_def requested_by_of_def py_or_def)
  then have "normalize_command_attachments ?L (y_requested c) = ?fs"
    using command_attachments_back [OF browser_attachments_ok [of ?L files], of ?L]
    by (auto simp: c serialize_requested_by_def Let_def normalize_command_attachments_def normalize_requested_by_def py_or_def)
  then show ?thesis by (simp add: public_command_attachments_def attachment_obj_def)
qed

definition sample_upload :: "json list" where
  "sample_upload = [JObj [(''name'', JStr ''n''), (''bytesBase64'', JStr '' b ''), (''size'', JInt 3)], JObj [(''name'', JStr ''x'')]]"

abbreviation sample_turn :: "(codex_error + task_summary \<times> command) \<times> codex" where
  "sample_turn \<equiv> enqueue_turn plain_codex 2 ''k1'' ''c1'' ''m'' ''t'' ''go'' sample_upload
     (requested_by_of plain_lib JNull JNull JNull JNull JNull) sample_synced"

lemma sample_turn_run:
  "(case sample_turn of (Inl _, _) \<Rightarrow> None | (Inr (t, c), _) \<Rightarrow> Some (y_id c)) = Some ''c1''"
  "normalize_browser_turn_attachments plain_lib sample_upload
     = [\<lparr>at_name = ''n'', at_mime = ''application/octet-stream'', at_kind = ''file'', at_size = 3, at_data = BytesBase64 ''b''\<rparr>]"
  by code_simp+

theorem upload_reaches_worker_witness:
  "\<exists>t c s'. sample_turn = (Inr (t, c), s') \<and> public_command_attachments plain_lib (y_requested c) True
     = [attachment_obj \<lparr>at_name = ''n'', at_mime = ''application/octet-stream'', at_kind = ''file'', at_size = 3, at_data = BytesBase64 ''b''\<rparr>]"
proof -
  obtain t c s' where "sample_turn = (Inr (t, c), s')"
    using sample_turn_run(1) by (auto split: prod.splits sum.splits)
  with upload_reaches_worker [of plain_codex 2 "''k1''" "''c1''" "''m''" "''t''" "''go''" sample_upload JNull JNull JNull JNull JNull
      sample_synced t c s'] show ?thesis by (simp add: sample_turn_run(2))
qed

text \<open>A claim can strand its command: when the task of the command taken cannot be claimed for the
  machine, the call raises after the command was committed as running, so nobody will run it and no
  later claim returns it.\<close>

theorem claim_strands_command:
  assumes "claim_next_command (z_lib Z) now m w s = (Some c, s1)" "y_task c = Some k" "k \<noteq> []"
    and "claim_task now k m 120 (cx_tasks s1) = Inl e"
  shows "claim_command Z now m w s = (Inl (CodexTask e), s1) \<and> y_status c = COMMAND_RUNNING \<and> c \<in> set (cx_commands s1) \<and> taken (y_id c) s1"
proof -
  have "claim_command Z now m w s = (Inl (CodexTask e), s1)"
    using assms by (simp add: claim_command_def Let_def bindS_def state_step_def remote_step_def)
  moreover have "y_status c = COMMAND_RUNNING \<and> c \<in> set (cx_commands s1)"
    using assms(1) waiting_command [of m s]
    by (auto simp: claim_next_command_def Let_def command_set_def row_upd_def split: list.splits)
  ultimately show ?thesis using claim_gives(1) [OF assms(1)] by blast
qed

definition sample_busy :: codex where
  "sample_busy = snd (enqueue_command plain_lib 3 ''c1'' TURN_START ''m'' ''t'' [] None None (Some ''k1'')
     (no_codex\<lparr>cx_tasks :=
        (case create_task 1 ''k1'' ''m'' ''t'' ''go'' [] ''browser'' None ''normal'' ''ann'' no_remote of
           Inl _ \<Rightarrow> no_remote
         | Inr (_, r) \<Rightarrow> (case claim_task 2 ''k1'' ''other'' 60 r of Inl _ \<Rightarrow> no_remote | Inr (_, r') \<Rightarrow> r'))\<rparr>))"

lemma sample_busy_run:
  "(case claim_next_command plain_lib 4 ''m'' ''w'' sample_busy of
      (None, _) \<Rightarrow> None
    | (Some c, s) \<Rightarrow> Some (y_task c, (case claim_task 4 ''k1'' ''m'' 120 (cx_tasks s) of Inl _ \<Rightarrow> True | Inr _ \<Rightarrow> False)))
   = Some (Some ''k1'', True)"
  by code_simp

theorem claim_strands_command_witness:
  "\<exists>e s1. claim_command plain_codex 4 ''m'' ''w'' sample_busy = (Inl (CodexTask e), s1)"
proof -
  obtain c s1 e where "claim_next_command plain_lib 4 ''m'' ''w'' sample_busy = (Some c, s1)" "y_task c = Some ''k1''"
      "claim_task 4 ''k1'' ''m'' 120 (cx_tasks s1) = Inl e"
    using sample_busy_run by (auto split: prod.splits option.splits sum.splits)
  with claim_strands_command [of plain_codex 4 "''m''" "''w''" sample_busy c s1 "''k1''" e] show ?thesis by auto
qed

end
