(* ===== verification/CodexSynced.thy ===== *)
theory CodexSynced
  imports CodexProps
begin

text \<open>What an agent's upload leaves: which threads are stored, and the upload that cannot be stored.\<close>

section \<open>The threads of a machine\<close>

definition ids_of :: "string \<Rightarrow> codex \<Rightarrow> string set" where
  "ids_of m s = ct_id ` set (filter (\<lambda>r. ct_machine r = m) (cx_threads s))"

text \<open>\<open>kept m s s'\<close>: the threads of every other machine are as they were.\<close>

definition kept :: "string \<Rightarrow> codex \<Rightarrow> codex \<Rightarrow> bool" where
  "kept m s s' \<longleftrightarrow> filter (\<lambda>r. ct_machine r \<noteq> m) (cx_threads s') = filter (\<lambda>r. ct_machine r \<noteq> m) (cx_threads s)"

lemma kept_refl [simp]: "kept m s s"
  by (simp add: kept_def)

lemma kept_trans: "kept m a b \<Longrightarrow> kept m b c \<Longrightarrow> kept m a c"
  by (simp add: kept_def)

lemma thread_row_None: "thread_row m t s = None \<longleftrightarrow> t \<notin> ids_of m s"
  by (auto simp: thread_row_def find_None_iff ids_of_def)

lemma thread_set_ids:
  assumes "\<And>r. ct_id (f r) = ct_id r \<and> ct_machine (f r) = ct_machine r"
  shows "ids_of m (thread_set m' t f s) = ids_of m s" "kept m s (thread_set m t f s)"
proof -
  have "ct_id ` set (filter (\<lambda>r. ct_machine r = m) (map (\<lambda>r. if ct_machine r = m' \<and> ct_id r = t then f r else r) rs))
      = ct_id ` set (filter (\<lambda>r. ct_machine r = m) rs)" for rs
    using assms by (induction rs) auto
  then show "ids_of m (thread_set m' t f s) = ids_of m s" by (simp add: ids_of_def thread_set_def)
  have "filter (\<lambda>r. ct_machine r \<noteq> m) (map (\<lambda>r. if ct_machine r = m \<and> ct_id r = t then f r else r) rs)
      = filter (\<lambda>r. ct_machine r \<noteq> m) rs" for rs
    using assms by (induction rs) auto
  then show "kept m s (thread_set m t f s)" by (simp add: kept_def thread_set_def)
qed

lemma add_thread_ids [simp]: "ids_of m (add_thread m t s) = insert t (ids_of m s)" "kept m s (add_thread m t s)"
proof -
  have "cx_threads (add_thread m t s) = cx_threads s @ [new_thread (cx_next s) m t]" by (simp add: add_thread_def)
  moreover have "ct_machine (new_thread k m t) = m" "ct_id (new_thread k m t) = t" for k by (simp_all add: new_thread_def)
  ultimately show "ids_of m (add_thread m t s) = insert t (ids_of m s)" "kept m s (add_thread m t s)"
    by (auto simp: ids_of_def kept_def)
qed

lemma listed_keys [simp]: "ct_id (listed_thread L p r) = ct_id r" "ct_machine (listed_thread L p r) = ct_machine r"
  by (simp_all add: listed_thread_def)

lemma snapshot_keys [simp]: "ct_id (snapshot_thread L p i t r) = ct_id r" "ct_machine (snapshot_thread L p i t r) = ct_machine r"
  by (simp_all add: snapshot_thread_def)

text \<open>An upsert: the row is found or added, then written.\<close>

lemma upsert_ids:
  assumes "\<And>r. ct_id (f r) = ct_id r \<and> ct_machine (f r) = ct_machine r"
  shows "ids_of m (thread_set m t f (if thread_row m t s = None then add_thread m t s else s)) = insert t (ids_of m s)"
    "kept m s (thread_set m t f (if thread_row m t s = None then add_thread m t s else s))"
proof -
  let ?u = "if thread_row m t s = None then add_thread m t s else s"
  have u: "ids_of m ?u = insert t (ids_of m s)" "kept m s ?u" by (auto simp: thread_row_None)
  show "ids_of m (thread_set m t f ?u) = insert t (ids_of m s)"
    using thread_set_ids(1) [of f m m t ?u] assms u(1) by blast
  show "kept m s (thread_set m t f ?u)"
    using thread_set_ids(2) [of f m ?u t] assms u(2) kept_trans by blast
qed

lemma list_thread_ids:
  "ids_of m (list_thread L m p s) = ids_of m s \<union> ({upload_id L p} - {[]})" "kept m s (list_thread L m p s)"
  using upsert_ids [where f = "listed_thread L p" and m = m and t = "upload_id L p" and s = s] by (auto simp: list_thread_def Let_def)

lemma list_threads_ids:
  "ids_of m (fold (list_thread L m) items s) = ids_of m s \<union> (upload_id L ` set items - {[]})"
  "kept m s (fold (list_thread L m) items s)"
proof (induction items arbitrary: s)
  case (Cons p items)
  {
    case 1 then show ?case by (auto simp: Cons.IH list_thread_ids)
  next
    case 2 then show ?case using Cons.IH(2) list_thread_ids(2) kept_trans by (simp, blast)
  }
qed simp_all

lemma apply_snapshot_ids:
  assumes "apply_snapshot Z now m gone item s = Inr s'"
  shows "ids_of m s' = ids_of m s \<union> ({snapshot_id (z_lib Z) item} - {[]} - set gone) \<and> kept m s s'"
proof -
  let ?L = "z_lib Z" let ?t = "snapshot_id ?L item"
  obtain p where p: "as_object (py_or (obj_get item ''thread'') (JObj [])) = Inr p"
    using assms by (auto simp: apply_snapshot_def bindE_Inr_iff)
  have t: "?t = upload_id ?L p"
    using p by (auto simp: as_object_def py_or_def snapshot_id_def upload_id_def compact_text_def value_text_def split: json.splits if_splits)
  show ?thesis
  proof (cases "?t = [] \<or> ?t \<in> set gone")
    case True
    then have "s' = s" using assms p t by (auto simp: apply_snapshot_def bindE_Inr_iff Let_def split: if_splits)
    with True show ?thesis by auto
  next
    case False
    then obtain synced ms row where "s' = (thread_set m ?t (snapshot_thread ?L p item synced)
        (if thread_row m ?t s = None then add_thread m ?t s else s))\<lparr>cx_messages := ms\<rparr>"
      using assms p unfolding apply_snapshot_def t by (auto simp: bindE_Inr_iff Let_def)
    moreover have "ids_of m (x\<lparr>cx_messages := ms\<rparr>) = ids_of m x" "kept m s (x\<lparr>cx_messages := ms\<rparr>) = kept m s x" for x
      by (simp_all add: ids_of_def kept_def)
    ultimately show ?thesis using upsert_ids [where f = "snapshot_thread ?L p item synced" and m = m and t = ?t and s = s] False by auto
  qed
qed

lemma apply_snapshots_ids:
  "foldE (apply_snapshot Z now m gone) snaps s = Inr s' \<Longrightarrow>
     ids_of m s' = ids_of m s \<union> (snapshot_id (z_lib Z) ` set snaps - {[]} - set gone) \<and> kept m s s'"
proof (induction snaps arbitrary: s)
  case (Cons i snaps)
  then obtain u where u: "apply_snapshot Z now m gone i s = Inr u" "foldE (apply_snapshot Z now m gone) snaps u = Inr s'"
    by (auto simp: bindE_Inr_iff)
  with apply_snapshot_ids [OF u(1)] Cons.IH [OF u(2)] show ?case by (auto intro: kept_trans)
qed simp

lemma drop_stale_threads [simp]: "cx_threads (fold (drop_stale L now m) ids s) = cx_threads s"
  by (induction ids arbitrary: s) (simp_all add: drop_stale_def drop_commands_def)

lemma publish_threads [simp]: "cx_threads (fold (\<lambda>t. codex_publish L now m t p) ts s) = cx_threads s"
  by (induction ts arbitrary: s) simp_all

lemma prune_ids:
  "ids_of m (prune_threads m inc (put_machine r s)) = ids_of m s \<inter> set inc" "kept m s (prune_threads m inc (put_machine r s))"
proof -
  have th: "cx_threads (prune_threads m inc (put_machine r s)) = filter (\<lambda>x. \<not> (ct_machine x = m \<and> ct_id x \<notin> set inc)) (cx_threads s)"
    by (auto simp: prune_threads_def put_machine_def Let_def intro: filter_cong)
  then show "ids_of m (prune_threads m inc (put_machine r s)) = ids_of m s \<inter> set inc" by (auto simp: ids_of_def)
  have "filter (\<lambda>x. ct_machine x \<noteq> m) (filter (\<lambda>x. \<not> (ct_machine x = m \<and> ct_id x \<notin> set inc)) rs) = filter (\<lambda>x. ct_machine x \<noteq> m) rs" for rs
    by (induction rs) auto
  with th show "kept m s (prune_threads m inc (put_machine r s))" by (simp add: kept_def)
qed

lemma objects_back: "mapE as_object xs = Inr ys \<longleftrightarrow> xs = map JObj ys"
proof -
  have "as_object x = Inr y \<longleftrightarrow> x = JObj y" for x y by (cases x) (auto simp: as_object_def)
  then show ?thesis by (induction xs arbitrary: ys) (auto simp: bindE_Inr_iff)
qed

lemma mapE_objects [simp]: "mapE as_object (map JObj ys) = Inr ys"
  by (simp add: objects_back)

section \<open>Properties\<close>

text \<open>An upload replaces the machine's threads: afterwards they are exactly the threads it lists and those
  new ones it only has a transcript of; the threads of every other machine are untouched.\<close>

theorem sync_replaces_threads:
  assumes "apply_agent_sync Z now machine (map JObj items) (map JObj snaps) s = (Inr public, s')"
    and "m = compacted (z_lib Z) (either_get machine ''machineId'' ''machine_id'')"
  shows "ids_of m s' = (upload_id (z_lib Z) ` set items \<union> (snapshot_id (z_lib Z) ` set snaps - ids_of m s)) - {[]} \<and> kept m s s'"
proof -
  let ?L = "z_lib Z" let ?inc = "filter (\<lambda>t. t \<noteq> []) (map (upload_id ?L) items)"
  let ?gone = "filter (\<lambda>t. t \<notin> set ?inc) (map ct_id (filter (\<lambda>x. ct_machine x = m) (cx_threads s)))"
  obtain u changed where tx: "sync_tx Z now m machine (map JObj items) (map JObj snaps) s = Inr (changed, u)"
    and th: "cx_threads s' = cx_threads u"
    using assms by (auto simp: apply_agent_sync_def Let_def split: if_splits sum.splits option.splits)
  obtain r s2 where f: "foldE (apply_snapshot Z now m ?gone) snaps
        (fold (list_thread ?L m) items (prune_threads m ?inc (put_machine r s))) = Inr s2"
    and u: "cx_threads u = cx_threads s2"
    using tx by (auto simp: sync_tx_def bindE_Inr_iff Let_def)
  let ?s1 = "fold (list_thread ?L m) items (prune_threads m ?inc (put_machine r s))"
  have inc: "set ?inc = upload_id ?L ` set items - {[]}" by auto
  have gone: "set ?gone = ids_of m s - set ?inc" by (auto simp: ids_of_def)
  have s1: "ids_of m ?s1 = set ?inc" "kept m s ?s1"
    using list_threads_ids [where m = m and L = ?L and items = items and s = "prune_threads m ?inc (put_machine r s)"]
      prune_ids [where m = m and inc = ?inc and r = r and s = s] inc
    by (auto intro: kept_trans)
  have s': "ids_of m s' = ids_of m s2" "kept m s s' = kept m s s2" using th u by (simp_all add: ids_of_def kept_def)
  note snap = apply_snapshots_ids [OF f, unfolded s1(1) gone, unfolded inc]
  have "kept m s s2" by (rule kept_trans [OF s1(2) conjunct2 [OF snap]])
  moreover have "ids_of m s2 = (upload_id ?L ` set items \<union> (snapshot_id ?L ` set snaps - ids_of m s)) - {[]}"
    unfolding conjunct1 [OF snap] by blast
  ultimately show ?thesis unfolding s' by blast
qed

text \<open>A transcript of a thread that the same upload no longer lists loses the whole upload: the rows just
  deleted are still taken for live ones, the messages hang on a deleted row, and the call raises with
  nothing stored.\<close>

theorem transcript_of_dropped_thread_fails:
  assumes "item \<in> set snaps" "snapshot_id (z_lib Z) item \<in> ids_of m s" "snapshot_id (z_lib Z) item \<noteq> []"
    and "snapshot_id (z_lib Z) item \<notin> upload_id (z_lib Z) ` set items" "obj_get item ''messages'' = JArr (x # xs)"
    and "m = compacted (z_lib Z) (either_get machine ''machineId'' ''machine_id'')"
  shows "\<exists>e. apply_agent_sync Z now machine (map JObj items) (map JObj snaps) s = (Inl e, s)"
proof -
  let ?L = "z_lib Z" let ?inc = "filter (\<lambda>t. t \<noteq> []) (map (upload_id ?L) items)"
  let ?gone = "filter (\<lambda>t. t \<notin> set ?inc) (map ct_id (filter (\<lambda>x. ct_machine x = m) (cx_threads s)))"
  have gone: "snapshot_id ?L item \<in> set ?gone" using assms(2,4) by (auto simp: ids_of_def)
  have "last_n DEFAULT_STORED_MESSAGE_WINDOW (x # xs) \<noteq> []" by (simp add: last_n_def DEFAULT_STORED_MESSAGE_WINDOW_def)
  then have "mapE f (last_n DEFAULT_STORED_MESSAGE_WINDOW (x # xs)) \<noteq> Inr []" for f :: "json \<Rightarrow> codex_error + codex_message"
    unfolding mapE_Inr_iff by (metis list_all2_Nil2)
  then have ms: "upload_messages ?L row item \<noteq> Inr []" for row
    using assms(5) by (auto simp: upload_messages_def bindE_Inr_iff py_or_def split: if_splits)
  obtain p where p: "obj_get item ''thread'' = JObj p" "snapshot_id ?L item = upload_id ?L p"
    using assms(3) by (auto simp: snapshot_id_def split: json.splits)
  have "p \<noteq> []" using assms(3) p by (auto simp: upload_id_def compact_text_def value_text_def)
  then have bad: "apply_snapshot Z now m ?gone item u \<noteq> Inr v" for u v
    using p gone assms(3) ms by (auto simp: apply_snapshot_def bindE_Inr_iff as_object_def py_or_def Let_def split: if_splits)
  have "foldE (apply_snapshot Z now m ?gone) ys u \<noteq> Inr v" if "item \<in> set ys" for ys u v
    using that bad by (induction ys arbitrary: u) (auto simp: bindE_Inr_iff)
  then have "sync_tx Z now m machine (map JObj items) (map JObj snaps) s \<noteq> Inr v" for v
    using assms(1) by (auto simp: sync_tx_def bindE_Inr_iff Let_def)
  then obtain e where "sync_tx Z now m machine (map JObj items) (map JObj snaps) s = Inl e"
    by (cases "sync_tx Z now m machine (map JObj items) (map JObj snaps) s") auto
  then show ?thesis using assms(6) by (auto simp: apply_agent_sync_def Let_def)
qed

lemma sample_synced_ids: "ids_of ''m'' sample_synced = {''t''}"
proof -
  have "map (\<lambda>r. (ct_machine r, ct_id r)) (cx_threads sample_synced) = [(''m'', ''t'')]" by code_simp
  moreover have "ids_of ''m'' sample_synced = {t. (''m'', t) \<in> set (map (\<lambda>r. (ct_machine r, ct_id r)) (cx_threads sample_synced))}"
    by (force simp: ids_of_def)
  ultimately show ?thesis by simp
qed

definition sample_transcript :: obj where
  "sample_transcript = [(''thread'', JObj [(''id'', JStr ''t'')]), (''messages'', JArr [JObj [(''text'', JStr ''hi'')]])]"

theorem transcript_of_dropped_thread_fails_witness:
  "\<exists>e. apply_agent_sync plain_codex 2 sample_machine (map JObj []) (map JObj [sample_transcript]) sample_synced = (Inl e, sample_synced)"
proof -
  have i: "snapshot_id (z_lib plain_codex) sample_transcript = ''t''"
    and m: "''m'' = compacted (z_lib plain_codex) (either_get sample_machine ''machineId'' ''machine_id'')"
    and x: "obj_get sample_transcript ''messages'' = JArr [JObj [(''text'', JStr ''hi'')]]" by code_simp+
  show ?thesis
    by (rule transcript_of_dropped_thread_fails [of sample_transcript _ _ _ sample_synced, OF _ _ _ _ x m])
      (simp_all only: i sample_synced_ids, simp_all)
qed

lemma sample_resync:
  "(case apply_agent_sync plain_codex 2 sample_machine (map JObj [[(''id'', JStr ''u'')]]) (map JObj []) sample_synced of
      (Inl _, _) \<Rightarrow> False | (Inr _, _) \<Rightarrow> True) = True"
  by code_simp

theorem sync_replaces_threads_witness:
  "ids_of ''m'' (snd (apply_agent_sync plain_codex 2 sample_machine (map JObj [[(''id'', JStr ''u'')]]) (map JObj []) sample_synced)) = {''u''}"
proof -
  have m: "''m'' = compacted (z_lib plain_codex) (either_get sample_machine ''machineId'' ''machine_id'')"
    and u: "upload_id (z_lib plain_codex) [(''id'', JStr ''u'')] = ''u''" by code_simp+
  obtain public s' where run: "apply_agent_sync plain_codex 2 sample_machine (map JObj [[(''id'', JStr ''u'')]]) (map JObj []) sample_synced
      = (Inr public, s')"
    using sample_resync by (auto split: prod.splits sum.splits)
  from sync_replaces_threads [OF run m] show ?thesis using u unfolding run by auto
qed

end
