(* ===== verification/Regex.thy ===== *)
theory Regex
  imports Strings
begin

text \<open>
  The part of Python's \<open>re\<close> that the bridge uses: a backtracking matcher whose answers come in the
  order in which \<open>re\<close> tries them, so that the first one is the match; on top of it \<open>match\<close>, \<open>fullmatch\<close>,
  \<open>search\<close>, \<open>finditer\<close> and \<open>sub\<close>, their length-capped forms of \<open>security/regex_safety.py\<close>, and the
  redaction of \<open>transcript_service.py\<close>. Characters are the first 256 code points, so alternatives that
  are written in Hangul never match and are left out of the patterns.
\<close>

section \<open>Patterns\<close>

datatype rx =
    Cls "char \<Rightarrow> bool"
  | Emp
  | Seq rx rx
  | Alt rx rx
  | Star bool rx
  | Grp string rx
  | Ref string
  | Wordb
  | Bos
  | Eos

text \<open>Where a match stands: the text behind (last character first), the text ahead, the groups.\<close>

record mstate =
  behind :: string
  ahead :: string
  groups :: "(string \<times> string) list"

definition is_digit_char :: "char \<Rightarrow> bool" where
  "is_digit_char c = (let n = (of_char c :: nat) in 48 \<le> n \<and> n \<le> 57)"
definition is_alpha_char :: "char \<Rightarrow> bool" where
  "is_alpha_char c = (let n = (of_char c :: nat) in (65 \<le> n \<and> n \<le> 90) \<or> (97 \<le> n \<and> n \<le> 122))"
definition is_word_char :: "char \<Rightarrow> bool" where
  "is_word_char c \<longleftrightarrow> is_alpha_char c \<or> is_digit_char c \<or> c = CHR ''_''"
definition is_name_char :: "char \<Rightarrow> bool" where
  "is_name_char c \<longleftrightarrow> is_word_char c \<or> c = CHR ''-''"

definition wordb :: "mstate \<Rightarrow> bool" where
  "wordb s \<longleftrightarrow> (behind s \<noteq> [] \<and> is_word_char (hd (behind s))) \<noteq> (ahead s \<noteq> [] \<and> is_word_char (hd (ahead s)))"

definition advance :: "nat \<Rightarrow> mstate \<Rightarrow> mstate" where
  "advance n s = s\<lparr>behind := rev (take n (ahead s)) @ behind s, ahead := drop n (ahead s)\<rparr>"

definition consumed :: "mstate \<Rightarrow> mstate \<Rightarrow> string" where
  "consumed s t = take (length (ahead s) - length (ahead t)) (ahead s)"

text \<open>
  A repetition tries the body as long as it moves on; a greedy one prefers more rounds. The counter
  bounds the rounds.
\<close>

fun rounds :: "bool \<Rightarrow> (mstate \<Rightarrow> mstate list) \<Rightarrow> nat \<Rightarrow> mstate \<Rightarrow> mstate list" where
  "rounds greedy f 0 s = [s]"
| "rounds greedy f (Suc n) s =
     (let further = concat (map (rounds greedy f n) (filter (\<lambda>t. length (ahead t) < length (ahead s)) (f s)))
      in if greedy then further @ [s] else s # further)"

primrec rx_matches :: "rx \<Rightarrow> mstate \<Rightarrow> mstate list" where
  "rx_matches (Cls p) s = (case ahead s of [] \<Rightarrow> [] | c # _ \<Rightarrow> if p c then [advance 1 s] else [])"
| "rx_matches Emp s = [s]"
| "rx_matches (Seq r1 r2) s = concat (map (rx_matches r2) (rx_matches r1 s))"
| "rx_matches (Alt r1 r2) s = rx_matches r1 s @ rx_matches r2 s"
| "rx_matches (Star greedy r) s = rounds greedy (rx_matches r) (length (ahead s)) s"
| "rx_matches (Grp g r) s = map (\<lambda>t. t\<lparr>groups := (g, consumed s t) # groups t\<rparr>) (rx_matches r s)"
| "rx_matches (Ref g) s =
     (case map_of (groups s) g of
        None \<Rightarrow> []
      | Some w \<Rightarrow> if lower (take (length w) (ahead s)) = lower w then [advance (length w) s] else [])"
| "rx_matches Wordb s = (if wordb s then [s] else [])"
| "rx_matches Bos s = (if behind s = [] then [s] else [])"
| "rx_matches Eos s = (if ahead s = [] \<or> ahead s = [CHR 0x0A] then [s] else [])"

fun sequ :: "rx list \<Rightarrow> rx" where
  "sequ [] = Emp"
| "sequ [r] = r"
| "sequ (r # s # rs) = Seq r (sequ (s # rs))"

fun alts :: "rx list \<Rightarrow> rx" where
  "alts [] = Cls (\<lambda>_. False)"
| "alts [r] = r"
| "alts (r # s # rs) = Alt r (alts (s # rs))"

definition lit :: "string \<Rightarrow> rx" where "lit s = sequ (map (\<lambda>c. Cls ((=) c)) s)"
definition lit_ci :: "string \<Rightarrow> rx" where
  "lit_ci s = sequ (map (\<lambda>c. Cls (\<lambda>d. lower_char d = lower_char c)) s)"
definition many :: "rx \<Rightarrow> rx" where "many r = Star True r"
definition some_of :: "rx \<Rightarrow> rx" where "some_of r = Seq r (Star True r)"
definition opt_rx :: "rx \<Rightarrow> rx" where "opt_rx r = Alt r Emp"
definition at_least :: "nat \<Rightarrow> rx \<Rightarrow> rx" where "at_least n r = sequ (replicate n r @ [Star True r])"
definition exactly :: "nat \<Rightarrow> rx \<Rightarrow> rx" where "exactly n r = sequ (replicate n r)"
definition spaces :: rx where "spaces = many (Cls is_space)"
definition any_lazy :: rx where "any_lazy = Star False (Cls (\<lambda>_. True))"

section \<open>The operations of \<open>re\<close>\<close>

definition at_start :: "string \<Rightarrow> mstate" where
  "at_start s = \<lparr>behind = [], ahead = s, groups = []\<rparr>"

definition first_match :: "rx \<Rightarrow> mstate \<Rightarrow> mstate option" where
  "first_match r s = (case rx_matches r s of [] \<Rightarrow> None | t # _ \<Rightarrow> Some t)"

definition re_match :: "rx \<Rightarrow> string \<Rightarrow> mstate option" where
  "re_match r s = first_match r (at_start s)"

definition re_fullmatch :: "rx \<Rightarrow> string \<Rightarrow> mstate option" where
  "re_fullmatch r s = List.find (\<lambda>t. ahead t = []) (rx_matches r (at_start s))"

text \<open>The leftmost place from which the pattern matches: where it starts and where it ends.\<close>

function scan :: "rx \<Rightarrow> mstate \<Rightarrow> (mstate \<times> mstate) option" where
  "scan r s = (case first_match r s of
                 Some t \<Rightarrow> Some (s, t)
               | None \<Rightarrow> if ahead s = [] then None else scan r (advance 1 s))"
  by auto
termination
  by (relation "measure (\<lambda>(_, s). length (ahead s))") (auto simp: advance_def)

declare scan.simps [simp del]

definition re_search :: "rx \<Rightarrow> string \<Rightarrow> (string \<times> mstate) option" where
  "re_search r s = map_option (\<lambda>(a, b). (consumed a b, b)) (scan r (at_start s))"

definition no_groups :: "mstate \<Rightarrow> mstate" where "no_groups s = s\<lparr>groups := []\<rparr>"

text \<open>
  The successive matches from left to right: for each the text skipped before it and its groups, then
  the text after the last. The patterns given to it match no empty text; an empty match would end it.
\<close>

function pieces :: "rx \<Rightarrow> mstate \<Rightarrow> (string \<times> (string \<times> string) list) list \<times> string" where
  "pieces r s =
     (case scan r s of
        None \<Rightarrow> ([], ahead s)
      | Some (a, b) \<Rightarrow>
          (if length (ahead b) < length (ahead a) \<and> length (ahead a) \<le> length (ahead s)
           then let q = pieces r (no_groups b) in ((consumed s a, groups b) # fst q, snd q)
           else ([], ahead s)))"
  by auto
termination
  by (relation "measure (\<lambda>(_, s). length (ahead s))") (auto simp: advance_def no_groups_def)

declare pieces.simps [simp del]

definition finditer :: "rx \<Rightarrow> string \<Rightarrow> (string \<times> string) list list" where
  "finditer r s = map snd (fst (pieces r (at_start s)))"

definition re_sub :: "rx \<Rightarrow> ((string \<times> string) list \<Rightarrow> string) \<Rightarrow> string \<Rightarrow> string" where
  "re_sub r f s = (let (ps, rest) = pieces r (at_start s) in concat (map (\<lambda>(t, g). t @ f g) ps) @ rest)"

definition group :: "mstate \<Rightarrow> string \<Rightarrow> string" where
  "group t g = (case map_of (groups t) g of None \<Rightarrow> [] | Some w \<Rightarrow> w)"

definition group_of :: "(string \<times> string) list \<Rightarrow> string \<Rightarrow> string" where
  "group_of gs g = (case map_of gs g of None \<Rightarrow> [] | Some w \<Rightarrow> w)"

section \<open>Capped input\<close>

definition MAX_REGEX_INPUT_LEN :: nat where "MAX_REGEX_INPUT_LEN = 8192"

definition bounded_match :: "rx \<Rightarrow> string \<Rightarrow> mstate option" where
  "bounded_match r s = (if MAX_REGEX_INPUT_LEN < length s then None else re_match r s)"

definition bounded_fullmatch :: "rx \<Rightarrow> string \<Rightarrow> mstate option" where
  "bounded_fullmatch r s = (if MAX_REGEX_INPUT_LEN < length s then None else re_fullmatch r s)"

definition bounded_search :: "rx \<Rightarrow> string \<Rightarrow> (string \<times> mstate) option" where
  "bounded_search r s = (if MAX_REGEX_INPUT_LEN < length s then None else re_search r s)"

definition bounded_sub :: "rx \<Rightarrow> ((string \<times> string) list \<Rightarrow> string) \<Rightarrow> string \<Rightarrow> string" where
  "bounded_sub r f s = (if MAX_REGEX_INPUT_LEN < length s then s else re_sub r f s)"

section \<open>Redaction\<close>

text \<open>The two \<open>TOKEN_PATTERNS\<close> of \<open>transcript_service.py\<close>: a named secret, and three dotted runs.\<close>

definition named_secret :: rx where
  "named_secret = sequ [Grp ''1'' (alts [lit_ci ''token'', lit_ci ''secret'', lit_ci ''password'']), spaces,
                        Cls (\<lambda>c. c = CHR '':'' \<or> c = CHR ''=''), spaces,
                        Grp ''2'' (some_of (Cls (\<lambda>c. \<not> is_space c)))]"

definition dotted_secret :: rx where
  "dotted_secret = sequ [Wordb, at_least 24 (Cls is_name_char), lit ''.'', at_least 6 (Cls is_name_char),
                         lit ''.'', at_least 20 (Cls is_name_char), Wordb]"

definition redacted :: "(string \<times> string) list \<Rightarrow> string" where
  "redacted g = (if g \<noteq> [] then group_of g ''1'' else ''secret'') @ ''=[REDACTED]''"

definition sanitize_text :: "string \<Rightarrow> string" where
  "sanitize_text content = strip (re_sub dotted_secret redacted (re_sub named_secret redacted content))"

section \<open>The matcher terminates by progress\<close>

lemma rounds_enough:
  "length (ahead s) \<le> n \<Longrightarrow> length (ahead s) \<le> m \<Longrightarrow> rounds greedy f n s = rounds greedy f m s"
proof (induction greedy f n s arbitrary: m rule: rounds.induct)
  case (1 greedy f s)
  then show ?case by (cases m) auto
next
  case (2 greedy f n s)
  show ?case
  proof (cases m)
    case 0
    then have "ahead s = []" using 2 by simp
    then show ?thesis using 0 by simp
  next
    case (Suc k)
    have eq: "map (rounds greedy f n) (filter (\<lambda>t. length (ahead t) < length (ahead s)) (f s))
        = map (rounds greedy f k) (filter (\<lambda>t. length (ahead t) < length (ahead s)) (f s))"
      using 2 Suc by (intro map_cong) auto
    show ?thesis unfolding Suc rounds.simps eq ..
  qed
qed

end
