(* ===== verification/SessionText.thy ===== *)
theory SessionText
  imports Regex Digest
begin

text \<open>
  The text handling of \<open>session_service.py\<close>: the patterns it searches for, the normal forms of task
  texts, what is shown in the Discord thread, and the prompts it writes for the agents. The one line of
  \<open>_quiet_discord_text\<close> that is written in Hangul is its UTF-8 encoding.
\<close>

section \<open>Lines\<close>

abbreviation nl :: char where "nl \<equiv> CHR 0x0A"

definition is_break :: "char \<Rightarrow> bool" where
  "is_break c = (let n = (of_char c :: nat) in (10 \<le> n \<and> n \<le> 13) \<or> (28 \<le> n \<and> n \<le> 30) \<or> n = 133)"

text \<open>\<open>str.splitlines()\<close>: a break ends a line, \<open>\\r\\n\<close> is one break, and nothing follows the last break.\<close>

fun splitlines_from :: "bool \<Rightarrow> string \<Rightarrow> string \<Rightarrow> string list" where
  "splitlines_from cr cur [] = (if cur = [] then [] else [rev cur])"
| "splitlines_from cr cur (c # s) =
     (if cr \<and> c = nl then splitlines_from False cur s
      else if is_break c then rev cur # splitlines_from (c = CHR 0x0D) [] s
      else splitlines_from False (c # cur) s)"

definition splitlines :: "string \<Rightarrow> string list" where "splitlines = splitlines_from False []"

definition full_lines :: "string \<Rightarrow> string list" where
  "full_lines text = filter (\<lambda>l. l \<noteq> []) (map strip (splitlines text))"

definition strip_chars :: "char list \<Rightarrow> string \<Rightarrow> string" where
  "strip_chars cs s = rev (dropWhile (\<lambda>c. c \<in> set cs) (rev (dropWhile (\<lambda>c. c \<in> set cs) s)))"

text \<open>A text whose every line ends with a line feed.\<close>

definition text_of :: "string list \<Rightarrow> string" where
  "text_of ls = concat (map (\<lambda>l. l @ [nl]) ls)"

definition join_by :: "string \<Rightarrow> string list \<Rightarrow> string" where
  "join_by sep ps = (case ps of [] \<Rightarrow> [] | p # qs \<Rightarrow> p @ concat (map (\<lambda>q. sep @ q) qs))"

section \<open>Patterns\<close>

definition TASK_CARD_ID_RE :: rx where
  "TASK_CARD_ID_RE = sequ [Wordb, lit_ci ''T-'', exactly 3 (Cls is_digit_char), Wordb]"
definition CANONICAL_TASK_KEY_RE :: rx where
  "CANONICAL_TASK_KEY_RE = sequ [Bos, lit_ci ''T-'', Grp ''number'' (some_of (Cls is_digit_char)), Eos]"
definition AGENT_PREFIX_RE :: rx where
  "AGENT_PREFIX_RE = sequ [Bos, spaces, lit ''@'', Grp ''agent'' (some_of (Cls is_name_char)), some_of (Cls is_space),
                           Grp ''body'' (some_of (Cls (\<lambda>_. True))), Eos]"
definition AGENT_THREAD_HEADER_RE :: rx where
  "AGENT_THREAD_HEADER_RE = sequ [Bos, spaces, lit ''**'', Grp ''agent'' (some_of (Cls is_name_char)),
                                  opt_rx (Seq (some_of (Cls is_space)) (lit ''error'')), lit ''**'']"
definition FOLLOW_UP_MESSAGE_RE :: rx where
  "FOLLOW_UP_MESSAGE_RE = sequ [Bos, spaces,
     alts (map lit_ci [''continue'', ''go'', ''proceed'', ''keep going'', ''ship it'', ''do it'']),
     spaces, many (Cls (\<lambda>c. c \<in> set ''.!?~'')), spaces, Eos]"
definition FOLLOW_UP_HINT_RE :: rx where
  "FOLLOW_UP_HINT_RE = sequ [Wordb,
     alts [lit_ci ''continue'', lit_ci ''keep going'', lit_ci ''go on'', lit_ci ''resume'', lit_ci ''carry on'',
           Seq (lit_ci ''pick up'') (opt_rx (lit_ci '' where you left off'')), lit_ci ''ship it'', lit_ci ''do it''], Wordb]"
definition HANDOFF_RE :: rx where
  "HANDOFF_RE = sequ [lit_ci ''[[handoff'', some_of (Cls is_space), lit_ci ''agent='',
     Grp ''quote'' (opt_rx (Cls (\<lambda>c. of_char c = (39::nat) \<or> of_char c = (34::nat)))),
     Grp ''agent'' (some_of (Cls is_name_char)), Ref ''quote'', spaces, lit '']]'', spaces,
     Grp ''body'' any_lazy, spaces, lit_ci ''[[/handoff]]'']"
definition DISCUSS_RE :: rx where
  "DISCUSS_RE = sequ [lit_ci ''[[discuss'', Grp ''attrs'' (many (Cls (\<lambda>c. c \<noteq> CHR '']''))), lit '']]'', spaces,
     Grp ''body'' any_lazy, spaces, lit_ci ''[[/discuss]]'']"
definition OPS_TYPE_RE :: rx where
  "OPS_TYPE_RE = sequ [Grp ''1'' (Alt Bos (Cls ((=) nl))), lit_ci ''OPS:'', spaces, lit_ci ''type='',
                       Grp ''type'' (some_of (Cls is_name_char))]"
definition DISCUSS_ATTR_RE :: rx where
  "DISCUSS_ATTR_RE = sequ [Grp ''1'' (Seq (Cls (\<lambda>c. is_alpha_char c \<or> c = CHR ''_'')) (many (Cls is_name_char))),
     spaces, lit ''='', spaces, Grp ''2'' (Cls (\<lambda>c. of_char c = (39::nat) \<or> of_char c = (34::nat))),
     Grp ''3'' (Star False (Cls (\<lambda>c. c \<noteq> nl))), Ref ''2'']"

section \<open>Trimming\<close>

definition HANDOFF_PREVIEW_LIMIT :: nat where "HANDOFF_PREVIEW_LIMIT = 240"
definition SESSION_SUMMARY_TEXT_LIMIT :: nat where "SESSION_SUMMARY_TEXT_LIMIT = 220"
definition FAILURE_PREVIEW_LIMIT :: nat where "FAILURE_PREVIEW_LIMIT = 260"
definition ORPHANED_JOB_PREVIEW_LIMIT :: nat where "ORPHANED_JOB_PREVIEW_LIMIT = 180"
definition QUIET_DISCORD_CHAR_LIMIT :: nat where "QUIET_DISCORD_CHAR_LIMIT = 520"
definition QUIET_DISCORD_LINE_LIMIT :: nat where "QUIET_DISCORD_LINE_LIMIT = 7"
definition MIN_HANDOFF_BODY_LENGTH :: nat where "MIN_HANDOFF_BODY_LENGTH = 40"

definition trim_context_text :: "string \<Rightarrow> nat \<Rightarrow> string" where
  "trim_context_text text limit =
     (let normalized = one_line text
      in if length normalized \<le> limit then normalized else rstrip (take (limit - 3) normalized) @ ''...'')"

definition trim_thread_text :: "string \<Rightarrow> nat \<Rightarrow> string" where
  "trim_thread_text text limit =
     (let normalized = one_line text; marker = '' [truncated]''
      in if length normalized \<le> limit then normalized
         else if limit \<le> length marker then take limit normalized
         else rstrip (take (limit - length marker) normalized) @ marker)"

definition omitted_note :: string where
  "omitted_note = ''HUMAN: '' @ map char_of
     [236, 158, 144, 236, 132, 184, 237, 149, 156, 32, 235, 130, 180, 236, 154, 169, 236, 157, 128, 32,
      236, 138, 164, 235, 160, 136, 235, 147, 156, 32, 237, 145, 156, 236, 139, 156, 236, 151, 144, 236, 132, 156,
      32, 236, 131, 157, 235, 158, 181, 235, 144, 152, 236, 151, 136, 236, 138, 181, 235, 139, 136, 235, 139, 164,
      46 :: nat]"

definition marked_line :: "string \<Rightarrow> string \<Rightarrow> string" where
  "marked_line marker line =
     (let body = one_line (drop (length marker) line) in if body = [] then marker else marker @ '' '' @ body)"

definition quiet_line :: "string \<Rightarrow> string" where
  "quiet_line line =
     (if prefix ''HUMAN:'' line then marked_line ''HUMAN:'' line
      else if prefix ''ISSUE:'' line then marked_line ''ISSUE:'' line
      else trim_thread_text line 180)"

definition quiet_discord_text :: "string \<Rightarrow> string" where
  "quiet_discord_text text =
     (let lines = full_lines (strip text)
      in if lines = [] then []
         else
           let visible = take QUIET_DISCORD_LINE_LIMIT lines;
               deferred = filter (prefix ''ISSUE:'') (drop QUIET_DISCORD_LINE_LIMIT lines);
               shown = fold (\<lambda>line acc. let f = marked_line ''ISSUE:'' line in if f \<in> set acc then acc else acc @ [f])
                         deferred (map quiet_line visible);
               trimmed = (if length visible + length deferred < length lines then shown @ [omitted_note] else shown);
               compact = join_with nl trimmed
           in if length compact \<le> QUIET_DISCORD_CHAR_LIMIT then compact
              else if list_ex (\<lambda>l. prefix ''HUMAN:'' l \<or> prefix ''ISSUE:'' l) trimmed then compact
              else trim_thread_text compact QUIET_DISCORD_CHAR_LIMIT)"

definition format_agent_thread_message :: "string \<Rightarrow> bool \<Rightarrow> string" where
  "format_agent_thread_message visible quiet = (if quiet then quiet_discord_text visible else strip visible)"

definition format_failure_thread_message :: "string \<Rightarrow> string \<Rightarrow> bool \<Rightarrow> bool \<Rightarrow> string" where
  "format_failure_thread_message agent error recovery quiet =
     (if contains ''OPS:'' error \<and> contains ''HUMAN:'' error
      then (if quiet then quiet_discord_text error else strip error)
      else
        let human = (if one_line error = [] then ''(no error details)'' else one_line error);
            issue = (if recovery then ''planner_recovery_queued'' else ''triage_required'');
            message = join_with nl
              [''OPS: type=failed | actor='' @ agent @ '' | task=none | state=failed | read=CURRENT_STATE.md | reason=bridge_failure'',
               ''HUMAN: '' @ human, ''ISSUE: '' @ issue]
        in if quiet then quiet_discord_text message else message)"

section \<open>Task texts\<close>

definition upper_char :: "char \<Rightarrow> char" where
  "upper_char c =
     (if 97 \<le> (of_char c :: nat) \<and> (of_char c :: nat) \<le> 122 then char_of ((of_char c :: nat) - 32) else c)"
definition upper :: "string \<Rightarrow> string" where "upper s = map upper_char s"

definition extract_task_id :: "string \<Rightarrow> string option" where
  "extract_task_id text = map_option (\<lambda>(w, _). upper w) (bounded_search TASK_CARD_ID_RE text)"

definition validate_handoff_body :: "string \<Rightarrow> string option" where
  "validate_handoff_body body =
     (let normalized = one_line body in
      if length normalized < MIN_HANDOFF_BODY_LENGTH then Some ''handoff is too short for a task-card-sized next step''
      else if bounded_search TASK_CARD_ID_RE normalized = None then Some ''handoff is missing a `T-###` task id''
      else if \<not> contains ''TASK_BOARD.md'' body \<or> \<not> contains ''CURRENT_STATE.md'' body
      then Some ''handoff must reference `TASK_BOARD.md` and `CURRENT_STATE.md`''
      else if \<not> contains ''Target summary:'' body then Some ''handoff must include a compact target summary''
      else None)"

definition extract_prefixed_line :: "string \<Rightarrow> string \<Rightarrow> string option" where
  "extract_prefixed_line text pre =
     map_option (\<lambda>l. if CHR '':'' \<in> set l then strip (tl (dropWhile (\<lambda>c. c \<noteq> CHR '':'') l)) else strip l)
       (List.find (\<lambda>l. prefix (lower pre) (lower (strip l))) (splitlines text))"

definition tagged :: "string \<Rightarrow> string list \<Rightarrow> string list" where
  "tagged tag ls = filter (\<lambda>b. b \<noteq> []) (map (\<lambda>l. strip (drop (length tag) l)) (filter (prefix tag) ls))"

definition normalize_task_payload_text :: "string \<Rightarrow> string" where
  "normalize_task_payload_text text =
     (let stripped = strip text; ls = full_lines stripped in
      if stripped = [] then []
      else if list_ex (\<lambda>l. list_ex (\<lambda>p. prefix p l) [''Target summary:'', ''Files:'', ''Done condition:'']) ls then stripped
      else if list_ex (\<lambda>l. list_ex (\<lambda>p. prefix p l) [''OPS:'', ''HUMAN:'', ''ANSWER:'', ''ISSUE:'', ''DONE:'']) ls
      then
        let preferred = tagged ''ANSWER:'' ls @ tagged ''HUMAN:'' ls @ map (\<lambda>i. ''Issue: '' @ i) (tagged ''ISSUE:'' ls);
            others = filter (\<lambda>l. \<not> prefix ''OPS:'' l) ls
        in if preferred \<noteq> [] then join_with nl preferred
           else if others \<noteq> [] then join_with nl others else stripped
      else stripped)"

definition derive_task_title_from_handoff :: "string \<Rightarrow> string" where
  "derive_task_title_from_handoff body =
     (let normalized = normalize_task_payload_text body;
          first_line = (case full_lines normalized of [] \<Rightarrow> ''Focused follow-up task'' | l # _ \<Rightarrow> l);
          candidate = (case extract_prefixed_line normalized ''Target summary:'' of
                         None \<Rightarrow> first_line | Some s \<Rightarrow> if s = [] then first_line else s);
          bare = strip_chars ('' -:'' @ [CHR 0x09]) (bounded_sub TASK_CARD_ID_RE (\<lambda>_. []) candidate)
      in take 96 (if bare = [] then ''Focused follow-up task'' else bare))"

definition derive_semantic_scope :: "string \<Rightarrow> string option" where
  "derive_semantic_scope text =
     (let normalized = strip_chars ''-''
            (re_sub (some_of (Cls (\<lambda>c. \<not> (is_alpha_char c \<and> lower_char c = c) \<and> \<not> is_digit_char c))) (\<lambda>_. ''-'') (lower text))
      in if take 64 normalized = [] then None else Some (take 64 normalized))"

text \<open>\<open>json.dumps\<close> of the file list is kept as the list; a missing or empty line of files gives no list.\<close>

definition file_list :: "string option \<Rightarrow> string list option" where
  "file_list scope = (case scope of
     None \<Rightarrow> None
   | Some s \<Rightarrow> if s = [] then None else Some (filter (\<lambda>i. i \<noteq> []) (map strip (split_on (CHR '','') s))))"

definition parse_scope_list :: "string list option \<Rightarrow> string list" where
  "parse_scope_list raw = (case raw of None \<Rightarrow> [] | Some fs \<Rightarrow> filter (\<lambda>i. i \<noteq> []) (map strip fs))"

section \<open>Kinds of transcript entries\<close>

definition classify_transcript_kind :: "string \<Rightarrow> string \<Rightarrow> string" where
  "classify_transcript_kind direction raw =
     (let content = strip raw; ls = full_lines content; has = (\<lambda>p. list_ex (prefix p) ls) in
      if direction = ''inbound'' then ''user''
      else if direction = ''system''
      then (if prefix ''discussion queued'' (lower content) then ''discuss_open''
            else if prefix ''discussion reply queued'' (lower content) then ''discuss_reply'' else ''status'')
      else if has ''ISSUE:'' then ''issue''
      else if has ''ANSWER:'' then ''answer''
      else if has ''DONE:'' then ''done''
      else if has ''HUMAN:'' then ''human''
      else case bounded_search OPS_TYPE_RE content of
             Some (_, m) \<Rightarrow> lower (strip (group m ''type''))
           | None \<Rightarrow> if has ''OPS:'' then ''ops'' else ''status'')"

definition extract_transcript_task_id :: "string \<Rightarrow> string option" where
  "extract_transcript_task_id content = map_option (\<lambda>(w, _). upper (strip w)) (bounded_search TASK_CARD_ID_RE content)"

definition should_route_to_planner_first :: "bool \<Rightarrow> string \<Rightarrow> bool" where
  "should_route_to_planner_first has_planner content =
     (let normalized = strip content in
      if \<not> has_planner then False
      else if normalized = [] then False
      else if bounded_search TASK_CARD_ID_RE normalized \<noteq> None then False
      else if bounded_match FOLLOW_UP_MESSAGE_RE normalized \<noteq> None then False
      else if length (one_line normalized) \<le> 48 \<and> bounded_search FOLLOW_UP_HINT_RE normalized \<noteq> None then False
      else True)"

section \<open>Small facts\<close>

lemma trim_context_length: "3 \<le> limit \<Longrightarrow> length (trim_context_text text limit) \<le> limit"
proof -
  assume "3 \<le> limit"
  have "length (rstrip s) \<le> length s" for s
    unfolding rstrip_def using length_dropWhile_le [of is_space "rev s"] by simp
  from this [of "take (limit - 3) (one_line text)"] \<open>3 \<le> limit\<close> show ?thesis
    by (auto simp: trim_context_text_def Let_def)
qed

end
