(* ===== verification/SessionPrompts.thy ===== *)
theory SessionPrompts
  imports SessionText
begin

text \<open>
  The prompts that \<open>session_service.py\<close> writes into the jobs it queues for the planner, the curator and
  the agents of a discussion. The texts are those of the source, their values filled in.
\<close>

definition build_recovery_prompt :: "string \<Rightarrow> string \<Rightarrow> string \<Rightarrow> string \<Rightarrow> string" where
  \<open>build_recovery_prompt agent kind work error =
     ''Recovery requested after `'' @ agent @ ''` failed while handling `'' @ kind @ ''` work.'' @ [nl] @ [nl] @
     ''Do not retry blindly. First stabilize the session state using the local workspace files.'' @ [nl] @ [nl] @
     ''Required recovery steps:'' @ [nl] @
     ''1. Read `CURRENT_STATE.md`, `STATUS.md`, `HANDOFFS.md`, and the latest relevant `AGENTS/*.md` / `RUN_LOGS/*.md` files.'' @
     [nl] @
     ''2. Write a short operator-facing `[[report]]...[[/report]]` that clearly says whether the session is blocked or can continue.'' @
     [nl] @
     ''3. If the work should continue, split it into a smaller handoff and queue only one focused next action.'' @ [nl] @
     ''4. If you truly need the operator, ask exactly one critical `[[question]]...[[/question]]`.'' @ [nl] @ [nl] @
     ''Failed agent: `'' @ agent @ ''`'' @ [nl] @
     ''Failed work summary: '' @ trim_context_text work FAILURE_PREVIEW_LIMIT @ [nl] @
     ''Failure summary: '' @ trim_context_text error FAILURE_PREVIEW_LIMIT @ [nl]\<close>

definition build_handoff_repair_prompt :: "string \<Rightarrow> string \<Rightarrow> string list \<Rightarrow> string" where
  \<open>build_handoff_repair_prompt source work rejections =
     ''Handoff repair requested after `'' @ source @ ''` emitted invalid follow-up work.'' @ [nl] @ [nl] @
     ''Rebuild the next steps using the task-card workflow.'' @ [nl] @ [nl] @
     ''Required behavior:'' @ [nl] @
     ''1. Read `CURRENT_STATE.md`, `TASK_BOARD.md`, `HANDOFFS.md`, and the relevant `AGENTS/*.md` / `RUN_LOGS/*.md` files.'' @
     [nl] @
     ''2. Refresh `TASK_BOARD.md` and any necessary `TASKS/T-###.md` cards before handing work off.'' @ [nl] @
     ''3. Queue only disjoint, task-card-sized follow-up work.'' @ [nl] @
     ''4. Every handoff body must contain a `T-###` line, a `Target summary:` line, and the exact reminder `Read CURRENT_STATE.md and TASK_BOARD.md first.`'' @
     [nl] @
     ''5. Keep each handoff compact and include `Files:` plus `Done condition:` so the next agent can execute it safely.'' @
     [nl] @
     ''6. Keep Discord output short: one `[[report]]...[[/report]]`, and only one critical `[[question]]...[[/question]]` if truly blocked.'' @
     [nl] @ [nl] @
     ''Rejected handoff reasons:'' @ [nl] @
     join_with nl (map (\<lambda>r. ''- '' @ r) rejections) @ [nl] @ [nl] @
     ''Source agent: `'' @ source @ ''`'' @ [nl] @
     ''Original work summary: '' @ trim_context_text work FAILURE_PREVIEW_LIMIT @ [nl]\<close>

definition discussion_request :: "string \<Rightarrow> string \<Rightarrow> string \<Rightarrow> string \<Rightarrow> string \<Rightarrow> string" where
  \<open>discussion_request source target anomaly task body =
     ''Discussion requested by `'' @ source @ ''` for anomaly `'' @ anomaly @ ''`.'' @ [nl] @ [nl] @
     ''Read `CURRENT_STATE.md`, `TASK_BOARD.md`, and the relevant `TASKS/*.md` card first.'' @ [nl] @
     ''Keep the thread-visible response short.'' @ [nl] @
     ''Reply to `'' @ source @ ''` with `[[discuss type="reply" to="'' @ source @ ''" anomaly="'' @ anomaly @
     ''"]]...[[/discuss]]`.'' @ [nl] @ [nl] @
     ''Current task reference: `'' @ task @ ''`'' @ [nl] @
     ''Target agent: `'' @ target @ ''`'' @ [nl] @
     ''Discussion request:'' @ [nl] @
     body @ [nl]\<close>

definition discussion_answer :: "string \<Rightarrow> string \<Rightarrow> string \<Rightarrow> string \<Rightarrow> string" where
  \<open>discussion_answer source anomaly task body =
     ''Discussion reply received from `'' @ source @ ''` for anomaly `'' @ anomaly @ ''`.'' @ [nl] @ [nl] @
     ''Read `CURRENT_STATE.md`, `TASK_BOARD.md`, and the relevant `TASKS/*.md` card first.'' @ [nl] @
     ''Decide the next action. If the anomaly is resolved, emit `[[discuss type="resolve" ...]]`. If it still needs broader attention, emit `[[discuss type="escalate" ...]]` or hand work off explicitly.'' @
     [nl] @ [nl] @
     ''Current task reference: `'' @ task @ ''`'' @ [nl] @
     ''Discussion reply:'' @ [nl] @
     body @ [nl]\<close>

definition planner_orchestration_text :: "string \<Rightarrow> string" where
  \<open>planner_orchestration_text request =
     ''Planner-first orchestration is required for the user request below.'' @ [nl] @ [nl] @
     ''Original request:'' @ [nl] @
     request @ [nl] @ [nl] @
     ''Required behavior:'' @ [nl] @
     ''1. Update `TASK_BOARD.md` before implementation handoffs.'' @ [nl] @
     ''2. Create or refresh any needed `TASKS/T-###.md` cards.'' @ [nl] @
     ''3. Queue only disjoint task-card-sized handoffs that can run safely in parallel.'' @ [nl] @
     ''4. Every handoff body must contain a `T-###` line, a `Target summary:` line, and the exact reminder `Read CURRENT_STATE.md and TASK_BOARD.md first.`'' @
     [nl] @
     ''5. Keep each handoff compact and include `Files:` plus `Done condition:` so the next agent can execute it safely.'' @
     [nl] @
     ''6. If work is not ready for implementation, keep ownership with planner and continue refining the local markdown artifacts.'' @
     [nl] @
     ''7. Keep Discord output to a short `[[report]]...[[/report]]`, and use `[[question]]...[[/question]]` only for truly critical blockers.'' @
     [nl]\<close>

definition planner_routing_text :: "string \<Rightarrow> string \<Rightarrow> string" where
  \<open>planner_routing_text request owner =
     ''LLM-assisted routing is required for the plain-text operator message below.'' @ [nl] @ [nl] @
     ''Original request:'' @ [nl] @
     request @ [nl] @ [nl] @
     ''Routing goal:'' @ [nl] @
     ''- Decide whether this is a follow-up to work already in progress, a new top-level request, or a truly blocking operator question.'' @
     [nl] @
     ''- The most likely current owner is `'' @ owner @ ''` unless the local workspace says otherwise.'' @ [nl] @ [nl] @
     ''Required behavior:'' @ [nl] @
     ''1. Read `CURRENT_STATE.md`, `CURRENT_TASK.md`, `TASK_BOARD.md`, and the relevant `TASKS/*.md` / `AGENTS/*.md` notes first.'' @
     [nl] @
     ''2. If this is a continuation of work already underway, do not re-plan from scratch. Keep Discord output short and either continue with planner or hand off one focused next step.'' @
     [nl] @
     ''3. If this is a new top-level request, refresh `TASK_BOARD.md`, create or update any needed `TASKS/T-###.md` cards, and then queue only disjoint task-card-sized handoffs.'' @
     [nl] @
     ''4. Every handoff body must contain a `T-###` line, a `Target summary:` line, and the exact reminder `Read CURRENT_STATE.md and TASK_BOARD.md first.`'' @
     [nl] @
     ''5. Keep each handoff compact and include `Files:` plus `Done condition:` so the next agent can execute it safely.'' @
     [nl] @
     ''6. Keep Discord output to a short `[[report]]...[[/report]]`, and use `[[question]]...[[/question]]` only for truly critical blockers.'' @
     [nl]\<close>

definition curator_event_text :: "string \<Rightarrow> string \<Rightarrow> string \<Rightarrow> string" where
  \<open>curator_event_text cause source details =
     ''Curator event triggered after `'' @ source @ ''` updated the shared flow.'' @ [nl] @ [nl] @
     ''Read CURRENT_STATE.md, TASK_BOARD.md, HANDOFFS.md, and the recent thread delta first.'' @ [nl] @
     ''Do not create new scope. Decide whether an existing task should be directed, requeued, discussed, or escalated.'' @
     [nl] @ [nl] @
     ''Reason: '' @ cause @ [nl] @
     ''Recent signals:'' @ [nl] @
     details @ [nl]\<close>

definition sweep_stale_handoff :: "string \<Rightarrow> string \<Rightarrow> string \<Rightarrow> string" where
  \<open>sweep_stale_handoff task target summary =
     ''Curator sweep triggered because a queued handoff has been idle for too long.'' @ [nl] @ [nl] @
     ''Read CURRENT_STATE.md, TASK_BOARD.md, HANDOFFS.md, and the referenced task card first.'' @ [nl] @
     ''Do not create new scope. Re-direct, requeue, open discuss, or escalate only if necessary.'' @ [nl] @ [nl] @
     ''Reason: stale queued handoff'' @ [nl] @
     ''Task: '' @ task @ [nl] @
     ''Target agent: '' @ target @ [nl] @
     ''Context: '' @ summary @ [nl]\<close>

definition sweep_stale_task :: "string \<Rightarrow> string \<Rightarrow> string \<Rightarrow> string" where
  \<open>sweep_stale_task task agent summary =
     ''Curator sweep triggered because a ready task has not been claimed for too long.'' @ [nl] @ [nl] @
     ''Read CURRENT_STATE.md, TASK_BOARD.md, HANDOFFS.md, and the relevant TASKS/*.md card first.'' @ [nl] @
     ''Do not create new scope. Re-direct, requeue, open discuss, or escalate only if necessary.'' @ [nl] @ [nl] @
     ''Reason: stale ready task'' @ [nl] @
     ''Task: '' @ task @ [nl] @
     ''Assigned agent: '' @ agent @ [nl] @
     ''Context: '' @ summary @ [nl]\<close>

definition sweep_partial_attachment :: "nat \<Rightarrow> nat \<Rightarrow> string \<Rightarrow> nat \<Rightarrow> string" where
  \<open>sweep_partial_attachment attached everyone status active =
     ''Curator sweep triggered because some workers are alive but the session is still not fully attached.'' @ [nl] @
     [nl] @
     ''Read CURRENT_STATE.md, TASK_BOARD.md, HANDOFFS.md, and the recent thread delta first.'' @ [nl] @
     ''Do not create new scope. Diagnose the attachment mismatch, direct an existing agent, open discuss, or escalate.'' @
     [nl] @ [nl] @
     ''Reason: partial worker attachment'' @ [nl] @
     ''Attached workers: '' @ dec attached @ ''/'' @ dec everyone @ [nl] @
     ''Session status: '' @ status @ [nl] @
     ''Active jobs: '' @ dec active @ [nl]\<close>

definition sweep_planner_bottleneck :: "string \<Rightarrow> int \<Rightarrow> string list \<Rightarrow> nat \<Rightarrow> nat \<Rightarrow> string" where
  \<open>sweep_planner_bottleneck kind running idle ready queued =
     ''Curator sweep triggered because planner is still busy while other agents are idle and actionable work exists.'' @
     [nl] @ [nl] @
     ''Read CURRENT_STATE.md, TASK_BOARD.md, HANDOFFS.md, and the latest task cards first.'' @ [nl] @
     ''Do not create new scope. Re-direct, requeue, open discuss, or escalate only if necessary.'' @ [nl] @ [nl] @
     ''Reason: planner bottleneck'' @ [nl] @
     ''Planner job type: '' @ kind @ [nl] @
     ''Planner running for: '' @ dec_int running @ ''s'' @ [nl] @
     ''Idle agents: '' @ join_by '', '' idle @ [nl] @
     ''Ready tasks: '' @ dec ready @ [nl] @
     ''Queued handoffs: '' @ dec queued @ [nl]\<close>

section \<open>Defaults\<close>

definition or_text :: "string option \<Rightarrow> string \<Rightarrow> string" where
  "or_text s d = (case s of None \<Rightarrow> d | Some t \<Rightarrow> if t = [] then d else t)"

definition build_discussion_prompt ::
  "string \<Rightarrow> string \<Rightarrow> string \<Rightarrow> string option \<Rightarrow> string option \<Rightarrow> string \<Rightarrow> string" where
  "build_discussion_prompt source target kind anomaly task body =
     (if kind = ''open''
      then discussion_request source target (or_text anomaly ''unspecified'') (or_text task ''none'') body
      else discussion_answer source (or_text anomaly ''unspecified'') (or_text task ''none'') body)"

definition request_text :: "string \<Rightarrow> string" where
  "request_text user = (if strip user = [] then ''(empty message)'' else strip user)"

definition build_planner_orchestration_prompt :: "string \<Rightarrow> string" where
  "build_planner_orchestration_prompt user = planner_orchestration_text (request_text user)"

definition build_planner_routing_prompt :: "string \<Rightarrow> string option \<Rightarrow> string option \<Rightarrow> string" where
  "build_planner_routing_prompt user last_active default_agent =
     planner_routing_text (request_text user) (or_text last_active (or_text default_agent ''planner''))"

definition build_curator_event_prompt :: "string \<Rightarrow> string \<Rightarrow> string list \<Rightarrow> string" where
  "build_curator_event_prompt cause source details =
     curator_event_text cause source
       (if details = [] then ''- no extra details'' else join_with nl (map (\<lambda>i. ''- '' @ i) details))"

end
