(* ===== verification/SessionState.thy ===== *)
theory SessionState
  imports SessionPrompts Broker Presence
begin

text \<open>
  The tables behind \<open>SessionService\<close> (\<open>session_service.py\<close>): sessions with their agents, the jobs that
  workers claim, the tasks and handoffs between agents with their audit trail, and the transcript. The
  kernel presence store and the subscription broker are the ones of \<open>Presence\<close> and \<open>Broker\<close>. Row
  identifiers are the numbers of one supply, \<open>l_uid\<close> their text.
\<close>

section \<open>Rows\<close>

record wsession =
  ws_id :: id
  ws_project :: string
  ws_target :: "string option"
  ws_preset :: "string option"
  ws_power_target :: "string option"
  ws_exec_target :: "string option"
  ws_thread :: string
  ws_guild :: string
  ws_channel :: string
  ws_workdir :: string
  ws_status :: string
  ws_desired :: string
  ws_power :: string
  ws_execution :: string
  ws_pause :: "string option"
  ws_recovered :: "instant option"
  ws_recovery :: "string option"
  ws_policy_version :: int
  ws_epoch :: int
  ws_by :: string
  ws_launcher :: "string option"
  ws_message :: "string option"
  ws_hash :: "string option"
  ws_announced :: "instant option"
  ws_send_ready :: bool
  ws_created :: instant
  ws_closed :: "instant option"

record wagent =
  wa_session :: id
  wa_name :: string
  wa_cli :: string
  wa_role :: string
  wa_default :: bool
  wa_status :: string
  wa_desired :: string
  wa_paused :: "string option"
  wa_heartbeat :: "instant option"
  wa_pid :: "int option"
  wa_worker :: "string option"
  wa_error :: "string option"
  wa_activity :: "string option"
  wa_activity_at :: "instant option"

record wjob =
  wj_id :: id
  wj_session :: id
  wj_agent :: string
  wj_type :: string
  wj_message :: "string option"
  wj_user :: string
  wj_input :: string
  wj_status :: string
  wj_task :: "id option"
  wj_handoff :: "id option"
  wj_epoch :: int
  wj_rev :: int
  wj_token :: "key option"
  wj_once :: string
  wj_worker :: "string option"
  wj_result :: "string option"
  wj_error :: "string option"
  wj_created :: instant
  wj_claimed :: "instant option"
  wj_completed :: "instant option"

record wtask =
  wt_id :: id
  wt_session :: id
  wt_key :: string
  wt_title :: string
  wt_role :: string
  wt_agent :: "string option"
  wt_source :: "string option"
  wt_scope :: "string option"
  wt_files :: "string list option"
  wt_state :: string
  wt_rev :: int
  wt_epoch :: int
  wt_token :: "key option"
  wt_worker :: "string option"
  wt_summary :: "string option"
  wt_body :: string
  wt_brief :: "string option"
  wt_log :: "string option"
  wt_created :: instant
  wt_updated :: instant
  wt_moved :: instant

record whandoff =
  wh_id :: id
  wh_session :: id
  wh_task :: id
  wh_source_job :: "id option"
  wh_claimed_by :: "id option"
  wh_source :: string
  wh_target :: string
  wh_role :: string
  wh_state :: string
  wh_rev :: int
  wh_epoch :: int
  wh_body :: string
  wh_created :: instant
  wh_claimed :: "instant option"
  wh_consumed :: "instant option"
  wh_updated :: instant

record wevent =
  we_id :: id
  we_session :: id
  we_task :: "id option"
  we_handoff :: "id option"
  we_kind :: string
  we_actor :: string
  we_payload :: obj
  we_created :: instant

record wentry =
  wx_id :: id
  wx_session :: id
  wx_direction :: string
  wx_actor :: string
  wx_content :: string
  wx_message :: "string option"
  wx_created :: instant

record session_operation =
  wo_id :: id
  wo_session :: id
  wo_type :: string
  wo_status :: string
  wo_by :: string
  wo_input :: obj
  wo_result :: "obj option"
  wo_created :: instant
  wo_completed :: "instant option"

record bridge =
  br_sessions :: "wsession list"
  br_agents :: "wagent list"
  br_jobs :: "wjob list"
  br_tasks :: "wtask list"
  br_handoffs :: "whandoff list"
  br_events :: "wevent list"
  br_entries :: "wentry list"
  br_operations :: "session_operation list"
  br_presence :: presence
  br_broker :: "broker option"
  br_next :: nat

datatype bridge_error =
  SessionNotFound | AgentNotFound | JobNotFound | JobOwned | SessionClosed | SessionPaused
  | UnknownAgent string | NoRoute string | LeaseRefused lease_error | UnpackNone

definition TERMINAL_JOB_STATES :: "string list" where
  "TERMINAL_JOB_STATES = [''completed'', ''failed'', ''cancelled'']"
definition READY_TASK_STATES :: "string list" where
  "READY_TASK_STATES = [''ready'', ''review'', ''verify'']"
definition TERMINAL_HANDOFF_STATES :: "string list" where
  "TERMINAL_HANDOFF_STATES = [''consumed'', ''superseded'', ''failed'']"
abbreviation LIVE_JOB_STATES :: "string list" where "LIVE_JOB_STATES \<equiv> [''pending'', ''in_progress'']"

section \<open>Transactions\<close>

text \<open>
  \<open>session_scope()\<close>: a raise rolls the database back; what the broker has handed out by then stays
  handed out.
\<close>

definition in_scope :: "(bridge \<Rightarrow> (bridge_error + 'a) \<times> bridge) \<Rightarrow> bridge \<Rightarrow> (bridge_error + 'a) \<times> bridge" where
  "in_scope f s = (case f s of
     (Inl e, s') \<Rightarrow> (Inl e, s\<lparr>br_broker := br_broker s'\<rparr>)
   | (Inr x, s') \<Rightarrow> (Inr x, s'))"

definition session_upd :: "id \<Rightarrow> (wsession \<Rightarrow> wsession) \<Rightarrow> bridge \<Rightarrow> bridge" where
  "session_upd k f s = s\<lparr>br_sessions := row_upd ws_id k f (br_sessions s)\<rparr>"
definition agent_upd :: "id \<Rightarrow> string \<Rightarrow> (wagent \<Rightarrow> wagent) \<Rightarrow> bridge \<Rightarrow> bridge" where
  "agent_upd k name f s = s\<lparr>br_agents := map (\<lambda>a. if wa_session a = k \<and> wa_name a = name then f a else a) (br_agents s)\<rparr>"
definition job_upd :: "id \<Rightarrow> (wjob \<Rightarrow> wjob) \<Rightarrow> bridge \<Rightarrow> bridge" where
  "job_upd k f s = s\<lparr>br_jobs := row_upd wj_id k f (br_jobs s)\<rparr>"
definition task_upd :: "id \<Rightarrow> (wtask \<Rightarrow> wtask) \<Rightarrow> bridge \<Rightarrow> bridge" where
  "task_upd k f s = s\<lparr>br_tasks := row_upd wt_id k f (br_tasks s)\<rparr>"
definition handoff_upd :: "id \<Rightarrow> (whandoff \<Rightarrow> whandoff) \<Rightarrow> bridge \<Rightarrow> bridge" where
  "handoff_upd k f s = s\<lparr>br_handoffs := row_upd wh_id k f (br_handoffs s)\<rparr>"

section \<open>Rows that must be there\<close>

definition session_row :: "id \<Rightarrow> bridge \<Rightarrow> wsession option" where
  "session_row k s = row_get ws_id k (br_sessions s)"
definition agents_of :: "id \<Rightarrow> bridge \<Rightarrow> wagent list" where
  "agents_of k s = filter (\<lambda>a. wa_session a = k) (br_agents s)"
definition agent_row :: "id \<Rightarrow> string \<Rightarrow> bridge \<Rightarrow> wagent option" where
  "agent_row k name s = List.find (\<lambda>a. wa_session a = k \<and> wa_name a = name) (br_agents s)"

definition require_session :: "id \<Rightarrow> bridge \<Rightarrow> (bridge_error + wsession) \<times> bridge" where
  "require_session k s = (case session_row k s of None \<Rightarrow> failS SessionNotFound s | Some r \<Rightarrow> doneS r s)"
definition thread_session :: "string \<Rightarrow> bridge \<Rightarrow> (bridge_error + wsession) \<times> bridge" where
  "thread_session thread s =
     (case row_get ws_thread thread (br_sessions s) of None \<Rightarrow> failS SessionNotFound s | Some r \<Rightarrow> doneS r s)"
definition require_agent :: "id \<Rightarrow> string \<Rightarrow> bridge \<Rightarrow> (bridge_error + wagent) \<times> bridge" where
  "require_agent k name s = (case agent_row k name s of None \<Rightarrow> failS AgentNotFound s | Some r \<Rightarrow> doneS r s)"

definition require_job :: "id \<Rightarrow> id \<Rightarrow> string \<Rightarrow> string \<Rightarrow> bridge \<Rightarrow> (bridge_error + wjob) \<times> bridge" where
  "require_job k sid agent worker s =
     (case List.find (\<lambda>j. wj_id j = k \<and> wj_session j = sid \<and> wj_agent j = agent) (br_jobs s) of
        None \<Rightarrow> failS JobNotFound s
      | Some j \<Rightarrow> if wj_worker j \<noteq> None \<and> wj_worker j \<noteq> Some worker then failS JobOwned s else doneS j s)"

section \<open>The transcript\<close>

definition entry_envelope :: "lib \<Rightarrow> wentry \<Rightarrow> envelope" where
  "entry_envelope L e = \<lparr>v_cursor = encode_event_cursor (wx_created e) (l_uid L (wx_id e)), v_space = l_uid L (wx_session e),
     v_id = l_uid L (wx_id e), v_kind = wx_direction e, v_actor = wx_actor e, v_body = Text (wx_content e),
     v_created = wx_created e\<rparr>"

definition add_entry :: "lib \<Rightarrow> instant \<Rightarrow> id \<Rightarrow> string \<Rightarrow> string \<Rightarrow> string \<Rightarrow> string option \<Rightarrow> bridge \<Rightarrow> bridge" where
  "add_entry L now sid direction who content msg s =
     (let e = \<lparr>wx_id = br_next s, wx_session = sid, wx_direction = direction, wx_actor = who,
               wx_content = sanitize_text content, wx_message = msg, wx_created = now\<rparr>
      in s\<lparr>br_entries := br_entries s @ [e], br_next := Suc (br_next s),
           br_broker := map_option (broker_publish now (l_uid L sid) (entry_envelope L e)) (br_broker s)\<rparr>)"

abbreviation note_entry :: "lib \<Rightarrow> instant \<Rightarrow> id \<Rightarrow> string \<Rightarrow> string \<Rightarrow> string option \<Rightarrow> bridge \<Rightarrow> bridge" where
  "note_entry L now sid who content msg \<equiv> add_entry L now sid ''system'' who content msg"

definition entries_newest :: "id \<Rightarrow> (wentry \<Rightarrow> bool) \<Rightarrow> bridge \<Rightarrow> wentry list" where
  "entries_newest sid p s = select_desc wx_created (\<lambda>e. wx_session e = sid \<and> p e) (br_entries s)"

definition RECENT_TRANSCRIPT_LIMIT :: nat where "RECENT_TRANSCRIPT_LIMIT = 12"
definition RECENT_TRANSCRIPT_ENTRY_LIMIT :: nat where "RECENT_TRANSCRIPT_ENTRY_LIMIT = 800"

definition load_recent_transcript :: "id \<Rightarrow> bridge \<Rightarrow> (string \<times> string \<times> string \<times> instant) list" where
  "load_recent_transcript sid s =
     map (\<lambda>e. (wx_direction e, wx_actor e, trim_context_text (wx_content e) RECENT_TRANSCRIPT_ENTRY_LIMIT, wx_created e))
       (rev (take RECENT_TRANSCRIPT_LIMIT (entries_newest sid (\<lambda>_. True) s)))"

definition load_transcript_direction :: "id \<Rightarrow> string \<Rightarrow> nat \<Rightarrow> bridge \<Rightarrow> wentry list" where
  "load_transcript_direction sid direction limit s =
     rev (take limit (entries_newest sid (\<lambda>e. wx_direction e = direction) s))"

section \<open>Presence and job leases\<close>

abbreviation ORCHESTRATION_SCOPE_KIND :: string where "ORCHESTRATION_SCOPE_KIND \<equiv> ''orchestration_session''"
abbreviation ORCHESTRATION_JOB_RESOURCE_KIND :: string where
  "ORCHESTRATION_JOB_RESOURCE_KIND \<equiv> ''orchestration_job''"
definition ORCHESTRATION_PRESENCE_TTL_SECONDS :: int where "ORCHESTRATION_PRESENCE_TTL_SECONDS = 180"
definition ORCHESTRATION_LEASE_TTL_SECONDS :: int where "ORCHESTRATION_LEASE_TTL_SECONDS = 180"

definition upsert_orchestration_presence ::
  "lib \<Rightarrow> instant \<Rightarrow> id \<Rightarrow> string \<Rightarrow> string \<Rightarrow> int \<Rightarrow> bridge \<Rightarrow> bridge" where
  "upsert_orchestration_presence L now sid who status ttl s =
     s\<lparr>br_presence := snd (upsert_actor_session now None who ORCHESTRATION_SCOPE_KIND (l_uid L sid) status ttl (br_presence s))\<rparr>"

definition with_presence ::
  "(presence \<Rightarrow> lease_error + rlease \<times> presence) \<Rightarrow> bridge \<Rightarrow> (bridge_error + unit) \<times> bridge" where
  "with_presence f s = (case f (br_presence s) of
     Inl e \<Rightarrow> failS (LeaseRefused e) s
   | Inr (_, p) \<Rightarrow> doneS () (s\<lparr>br_presence := p\<rparr>))"

definition claim_orchestration_job_lease ::
  "lib \<Rightarrow> instant \<Rightarrow> wjob \<Rightarrow> string \<Rightarrow> bridge \<Rightarrow> (bridge_error + unit) \<times> bridge" where
  "claim_orchestration_job_lease L now j who s =
     (case wj_token j of
        None \<Rightarrow> doneS () s
      | Some t \<Rightarrow> with_presence (claim_resource_lease now ORCHESTRATION_JOB_RESOURCE_KIND (l_uid L (wj_id j)) who (Some t)
                     ORCHESTRATION_LEASE_TTL_SECONDS (wj_status j)) s)"

definition current_job_lease :: "lib \<Rightarrow> instant \<Rightarrow> wjob \<Rightarrow> bridge \<Rightarrow> rlease option" where
  "current_job_lease L now j s =
     get_current_lease now ORCHESTRATION_JOB_RESOURCE_KIND (l_uid L (wj_id j)) (br_presence s)"

definition heartbeat_orchestration_job_lease ::
  "lib \<Rightarrow> instant \<Rightarrow> wjob \<Rightarrow> string \<Rightarrow> bridge \<Rightarrow> (bridge_error + unit) \<times> bridge" where
  "heartbeat_orchestration_job_lease L now j who s =
     (case wj_token j of
        None \<Rightarrow> doneS () s
      | Some t \<Rightarrow> (case current_job_lease L now j s of
                     None \<Rightarrow> doneS () s
                   | Some l \<Rightarrow> with_presence (heartbeat_resource_lease now (l_id l) who t ORCHESTRATION_LEASE_TTL_SECONDS
                                               (Some (wj_status j))) s))"

definition release_orchestration_job_lease ::
  "lib \<Rightarrow> instant \<Rightarrow> wjob \<Rightarrow> string \<Rightarrow> bridge \<Rightarrow> (bridge_error + unit) \<times> bridge" where
  "release_orchestration_job_lease L now j who s =
     (case wj_token j of
        None \<Rightarrow> doneS () s
      | Some t \<Rightarrow> (case current_job_lease L now j s of
                     None \<Rightarrow> doneS () s
                   | Some l \<Rightarrow> with_presence (release_resource_lease now (l_id l) who t ''released'') s))"

end
