(* ===== verification/SessionView.thy ===== *)
theory SessionView
  imports SessionState
begin

text \<open>
  What \<open>SessionService\<close> reads off its tables: who plans, who curates, which workers are attached, where
  an operator's message goes, what a session's startup state is, and the context that goes with a job.
\<close>

section \<open>Agents\<close>

definition named_agent :: "string \<Rightarrow> wagent list \<Rightarrow> wagent option" where
  "named_agent name as = List.find (\<lambda>a. lower (wa_name a) = name) as"

definition find_planner_agent :: "wagent list \<Rightarrow> wagent option" where
  "find_planner_agent as = (case named_agent ''planner'' as of
     Some a \<Rightarrow> Some a | None \<Rightarrow> List.find (\<lambda>a. contains ''plan'' (lower (wa_role a))) as)"

definition curating_role :: "string \<Rightarrow> bool" where
  "curating_role r \<longleftrightarrow> contains ''coordination'' (lower r) \<or> contains ''curat'' (lower r)"

definition find_curator_agent :: "wagent list \<Rightarrow> wagent option" where
  "find_curator_agent as = (case named_agent ''curator'' as of
     Some a \<Rightarrow> Some a | None \<Rightarrow> List.find (\<lambda>a. curating_role (wa_role a)) as)"

definition is_curator_agent :: "wagent \<Rightarrow> bool" where
  "is_curator_agent a \<longleftrightarrow> lower (wa_name a) = ''curator'' \<or> curating_role (wa_role a)"

definition has_busy_agent :: "wagent list \<Rightarrow> bool" where
  "has_busy_agent as = list_ex (\<lambda>a. wa_status a = ''busy'') as"

definition has_non_curator_busy_agent :: "wagent list \<Rightarrow> bool" where
  "has_non_curator_busy_agent as = list_ex (\<lambda>a. wa_status a = ''busy'' \<and> \<not> is_curator_agent a) as"

definition ATTACHMENT_SIGNAL_GRACE_SECONDS :: int where "ATTACHMENT_SIGNAL_GRACE_SECONDS = 120"

definition agent_has_attachment_signal :: "instant \<Rightarrow> wagent \<Rightarrow> bool" where
  "agent_has_attachment_signal now a \<longleftrightarrow>
     (case wa_worker a of Some w \<Rightarrow> w \<noteq> [] | None \<Rightarrow> False)
     \<or> (case wa_heartbeat a of None \<Rightarrow> False | Some t \<Rightarrow> now \<le> t + seconds ATTACHMENT_SIGNAL_GRACE_SECONDS)"

definition attached_agent_count :: "instant \<Rightarrow> wagent list \<Rightarrow> nat" where
  "attached_agent_count now as = length (filter (agent_has_attachment_signal now) as)"

section \<open>Jobs\<close>

definition jobs_where :: "id \<Rightarrow> (wjob \<Rightarrow> bool) \<Rightarrow> bridge \<Rightarrow> wjob list" where
  "jobs_where sid p s = filter (\<lambda>j. wj_session j = sid \<and> p j) (br_jobs s)"

definition active_job :: "id \<Rightarrow> string \<Rightarrow> bridge \<Rightarrow> wjob option" where
  "active_job sid agent s =
     List.find (\<lambda>j. wj_session j = sid \<and> wj_agent j = agent \<and> wj_status j = ''in_progress'') (br_jobs s)"

definition active_job_count :: "id \<Rightarrow> bridge \<Rightarrow> nat" where
  "active_job_count sid s = length (jobs_where sid (\<lambda>j. wj_status j = ''in_progress'') s)"

section \<open>Startup\<close>

definition format_ready_message :: "wagent list \<Rightarrow> string" where
  "format_ready_message as =
     (let sorted_agents = sort_key (\<lambda>a. Position 0 (wa_name a)) as;
          status_lines = map (\<lambda>a. ''- `'' @ wa_name a @ ''` ['' @ wa_cli a @ ''] '' @ wa_role a
                               @ (if wa_default a then '' (default)'' else [])) sorted_agents;
          hint = (case sorted_agents of
             [a] \<Rightarrow> ''Workers are ready. Send your next message directly in this thread and it will route to `''
                     @ wa_name a @ ''` automatically.''
           | _ \<Rightarrow> ''Workers are ready. Plain text without a reply or explicit agent tag is first interpreted by ''
                  @ ''the local planner for LLM-assisted routing. Reply to an agent message to continue directly ''
                  @ ''with that agent, or use '' @ join_by '', '' (map (\<lambda>a. ''`@'' @ wa_name a @ ''`'') sorted_agents)
                  @ '' when you want to override routing.'')
      in hint @ [nl] @ join_with nl status_lines)"

definition startup_status :: "instant \<Rightarrow> id \<Rightarrow> bridge \<Rightarrow> string" where
  "startup_status now sid s =
     (let as = agents_of sid s; attached = attached_agent_count now as in
      if attached \<ge> length as
      then (if jobs_where sid (\<lambda>j. wj_status j \<in> set LIVE_JOB_STATES) s \<noteq> [] then ''resuming_jobs'' else ''ready'')
      else if attached > 0 then ''launching'' else ''waiting_for_workers'')"

text \<open>\<open>_refresh_session_startup_state\<close>: the ready message to post, if one is due, and the new status.\<close>

definition refresh_session_startup_state ::
  "instant \<Rightarrow> id \<Rightarrow> string \<Rightarrow> bridge \<Rightarrow> string option \<times> bridge" where
  "refresh_session_startup_state now sid previous s =
     (case session_row sid s of
        None \<Rightarrow> (None, s)
      | Some row \<Rightarrow>
          (if ws_closed row \<noteq> None then (None, s)
           else if ws_desired row = ''paused'' then (None, session_upd sid (\<lambda>r. r\<lparr>ws_status := ''paused''\<rparr>) s)
           else if agents_of sid s = [] then (None, session_upd sid (\<lambda>r. r\<lparr>ws_status := ''ready''\<rparr>) s)
           else let st = startup_status now sid s
                in (if st = ''ready'' \<and> previous \<noteq> ''ready'' \<and> ws_send_ready row
                    then Some (format_ready_message (agents_of sid s)) else None,
                    session_upd sid (\<lambda>r. r\<lparr>ws_status := st\<rparr>) s)))"

section \<open>Routing a message\<close>

definition agent_called :: "string \<Rightarrow> wagent list \<Rightarrow> string option" where
  "agent_called name as = map_option wa_name (List.find (\<lambda>a. lower (wa_name a) = lower name) as)"

text \<open>The dictionary of names by their lower case: a later agent of the same name wins.\<close>

definition agent_names :: "wagent list \<Rightarrow> string \<Rightarrow> string option" where
  "agent_names as name = agent_called name (rev as)"

definition extract_agent_from_thread_message :: "string option \<Rightarrow> wagent list \<Rightarrow> string option" where
  "extract_agent_from_thread_message content as =
     (case content of
        None \<Rightarrow> None
      | Some c \<Rightarrow> if c = [] then None
                   else (case bounded_match AGENT_THREAD_HEADER_RE (strip c) of
                           None \<Rightarrow> None | Some m \<Rightarrow> agent_called (group m ''agent'') as))"

definition find_reply_agent :: "id \<Rightarrow> wagent list \<Rightarrow> string option \<Rightarrow> string option \<Rightarrow> bridge \<Rightarrow> string option" where
  "find_reply_agent sid as reply_id reply_content s =
     (if or_text reply_id [] = [] then extract_agent_from_thread_message reply_content as
      else case entries_newest sid (\<lambda>e. wx_direction e = ''outbound'' \<and> wx_message e = reply_id) s of
             [] \<Rightarrow> extract_agent_from_thread_message reply_content as
           | e # _ \<Rightarrow> (case agent_names as (wx_actor e) of
                          Some a \<Rightarrow> Some a | None \<Rightarrow> extract_agent_from_thread_message reply_content as))"

definition find_last_active_agent :: "id \<Rightarrow> wagent list \<Rightarrow> bridge \<Rightarrow> string option" where
  "find_last_active_agent sid as s =
     (case entries_newest sid (\<lambda>e. wx_direction e = ''outbound'') s of
        [] \<Rightarrow> None | e # _ \<Rightarrow> agent_names as (wx_actor e))"

definition find_default_agent :: "wagent list \<Rightarrow> string option" where
  "find_default_agent as = map_option wa_name (List.find wa_default as)"

record routing =
  rt_agent :: string
  rt_body :: string
  rt_input :: string
  rt_type :: string

abbreviation direct :: "string \<Rightarrow> string \<Rightarrow> routing" where
  "direct agent body \<equiv> \<lparr>rt_agent = agent, rt_body = body, rt_input = body, rt_type = ''message''\<rparr>"

definition route_untagged ::
  "id \<Rightarrow> wagent list \<Rightarrow> string \<Rightarrow> bridge \<Rightarrow> bridge_error + routing" where
  "route_untagged sid as body s =
     (let planner = find_planner_agent as; last_active = find_last_active_agent sid as s;
          default_agent = find_default_agent as
      in case planner of
           Some p \<Rightarrow>
             (if should_route_to_planner_first True body
              then Inr \<lparr>rt_agent = wa_name p, rt_body = body, rt_input = build_planner_orchestration_prompt body,
                        rt_type = ''orchestration''\<rparr>
              else Inr \<lparr>rt_agent = wa_name p, rt_body = body,
                        rt_input = build_planner_routing_prompt body last_active default_agent, rt_type = ''routing''\<rparr>)
         | None \<Rightarrow>
             (case last_active of
                Some a \<Rightarrow> Inr (direct a body)
              | None \<Rightarrow>
                  (case default_agent of
                     Some a \<Rightarrow> Inr (direct a body)
                   | None \<Rightarrow> Inl (NoRoute (''Multiple agents are available and no routing context was found. ''
                               @ ''Reply to an agent message or prefix with one of: ''
                               @ join_by '', '' (map (\<lambda>a. CHR ''@'' # wa_name a) as))))))"

definition resolve_agent ::
  "id \<Rightarrow> string \<Rightarrow> string option \<Rightarrow> string option \<Rightarrow> bridge \<Rightarrow> bridge_error + routing" where
  "resolve_agent sid content reply_id reply_content s =
     (let as = agents_of sid s; body = strip content in
      case bounded_match AGENT_PREFIX_RE content of
        Some m \<Rightarrow>
          (case agent_called (group m ''agent'') as of
             Some a \<Rightarrow> Inr (direct a (strip (group m ''body'')))
           | None \<Rightarrow> Inl (UnknownAgent (group m ''agent'')))
      | None \<Rightarrow>
          (case as of
             [a] \<Rightarrow> Inr (direct (wa_name a) body)
           | _ \<Rightarrow> (case find_reply_agent sid as reply_id reply_content s of
                      Some a \<Rightarrow> Inr (direct a body)
                    | None \<Rightarrow> route_untagged sid as body s)))"

section \<open>The context of a job\<close>

definition SESSION_SUMMARY_INBOUND_LIMIT :: nat where "SESSION_SUMMARY_INBOUND_LIMIT = 8"
definition SESSION_SUMMARY_OUTBOUND_LIMIT :: nat where "SESSION_SUMMARY_OUTBOUND_LIMIT = 6"
definition SESSION_SUMMARY_SYSTEM_LIMIT :: nat where "SESSION_SUMMARY_SYSTEM_LIMIT = 6"
definition SESSION_SUMMARY_PENDING_LIMIT :: nat where "SESSION_SUMMARY_PENDING_LIMIT = 6"

abbreviation brief :: "string \<Rightarrow> string" where "brief t \<equiv> trim_context_text t SESSION_SUMMARY_TEXT_LIMIT"

definition titled :: "string \<Rightarrow> string list \<Rightarrow> string list" where
  "titled title ls = (if ls = [] then [] else [[], title] @ ls)"

definition entry_line :: "wentry \<Rightarrow> string" where
  "entry_line e = ''- '' @ wx_actor e @ '': '' @ brief (wx_content e)"

definition job_line :: "wjob \<Rightarrow> string" where
  "job_line j = ''- '' @ wj_agent j @ '' ['' @ wj_type j @ ''] '' @ wj_status j @ '': '' @ brief (wj_input j)"

definition task_line :: "wtask \<Rightarrow> string" where
  "task_line t = ''- '' @ wt_key t @ '' ['' @ wt_role t @ ''] '' @ wt_state t @ '' owner=''
     @ or_text (wt_agent t) ''unassigned'' @ '': '' @ brief (or_text (wt_summary t) (wt_title t))"

definition handoff_line :: "bridge \<Rightarrow> whandoff \<Rightarrow> string" where
  "handoff_line s h = ''- '' @ (case row_get wt_id (wh_task h) (br_tasks s) of None \<Rightarrow> ''task-pending'' | Some t \<Rightarrow> wt_key t)
     @ '' '' @ wh_source h @ ''->'' @ wh_target h @ '': '' @ brief (wh_body h)"

definition build_session_summary :: "instant \<Rightarrow> wsession \<Rightarrow> string \<Rightarrow> bridge \<Rightarrow> string" where
  "build_session_summary now row current s =
     (let sid = ws_id row; as = agents_of sid s;
          notes = take SESSION_SUMMARY_SYSTEM_LIMIT (filter (\<lambda>e. \<not> prefix ''Worker '' (wx_content e))
                    (load_transcript_direction sid ''system'' (SESSION_SUMMARY_SYSTEM_LIMIT * 2) s));
          pending = take SESSION_SUMMARY_PENDING_LIMIT
                      (select_asc wj_created (\<lambda>j. wj_session j = sid \<and> wj_status j \<in> set LIVE_JOB_STATES) (br_jobs s));
          ready = take SESSION_SUMMARY_PENDING_LIMIT
                    (select_asc wt_updated (\<lambda>t. wt_session t = sid \<and> wt_state t \<in> set READY_TASK_STATES) (br_tasks s));
          queued = take SESSION_SUMMARY_PENDING_LIMIT
                     (select_asc wh_created (\<lambda>h. wh_session h = sid \<and> wh_state h = ''queued'') (br_handoffs s));
          attached = attached_agent_count now as;
          active = length (filter (\<lambda>j. wj_status j = ''in_progress'') pending)
      in join_with nl
           ([''Session overview:'', ''- Session title: '' @ ws_project row,
             ''- Target project: '' @ or_text (ws_target row) (ws_project row),
             ''- Profile: '' @ or_text (ws_preset row) ''unknown'', ''- Status: '' @ ws_status row,
             ''- Current agent: '' @ current, ''- Workdir: '' @ ws_workdir row,
             ''- Worker attachment: '' @ dec attached @ ''/'' @ dec (length as) @ '' attached'']
            @ (if 0 < attached \<and> attached < length as
               then [''- Startup note: work may already be running, but worker attachment is still incomplete (''
                     @ dec attached @ ''/'' @ dec (length as) @ '', active jobs='' @ dec active @ '')''] else [])
            @ (if or_text (ws_launcher row) [] = [] then [] else [''- Launcher: '' @ or_text (ws_launcher row) []])
            @ titled ''Key user directions:'' (map entry_line (load_transcript_direction sid ''inbound'' SESSION_SUMMARY_INBOUND_LIMIT s))
            @ titled ''Recent agent updates:'' (map entry_line (load_transcript_direction sid ''outbound'' SESSION_SUMMARY_OUTBOUND_LIMIT s))
            @ titled ''System notes:'' (map entry_line notes)
            @ titled ''Outstanding work:'' (map job_line pending)
            @ titled ''Ready queue:'' (map task_line ready)
            @ titled ''Queued handoffs:'' (map (handoff_line s) queued)))"

text \<open>The payload: the job and the session as they stand, the agents, and the context read before.\<close>

record job_payload =
  jp_job :: wjob
  jp_session :: wsession
  jp_agents :: "wagent list"
  jp_summary :: string
  jp_recent :: "(string \<times> string \<times> string \<times> instant) list"

definition to_job_payload ::
  "wjob \<Rightarrow> wsession \<Rightarrow> string \<Rightarrow> (string \<times> string \<times> string \<times> instant) list \<Rightarrow> bridge \<Rightarrow> job_payload" where
  "to_job_payload j row summary recent s =
     \<lparr>jp_job = j, jp_session = row, jp_agents = agents_of (ws_id row) s, jp_summary = summary, jp_recent = recent\<rparr>"

end
