(* ===== verification/SessionControl.thy ===== *)
theory SessionControl
  imports SessionView
begin

text \<open>
  The control blocks in an agent's output (\<open>_extract_control_updates\<close>): handoffs to other agents and
  discussion updates. Each block is taken out of the visible text; what is not acceptable is recorded
  as a rejection.
\<close>

record handoff_request =
  hr_target :: string
  hr_body :: string
  hr_task :: "string option"

record discuss_request =
  dr_type :: string
  dr_body :: string
  dr_anomaly :: "string option"
  dr_task :: "string option"
  dr_ask :: "string list"
  dr_to :: "string option"

definition MAX_HANDOFFS_PER_COMPLETION :: nat where "MAX_HANDOFFS_PER_COMPLETION = 4"
definition MAX_DISCUSSIONS_PER_COMPLETION :: nat where "MAX_DISCUSSIONS_PER_COMPLETION = 4"

section \<open>Handoffs\<close>

definition replace_handoff ::
  "wagent list \<Rightarrow> string \<Rightarrow> (string \<times> string) list \<Rightarrow> handoff_request list \<times> string list
     \<Rightarrow> handoff_request list \<times> string list" where
  "replace_handoff as source g acc =
     (let (handoffs, rejections) = acc; requested = strip (group_of g ''agent''); body = strip (group_of g ''body'');
          reject = (\<lambda>why. (handoffs, rejections @ [why]))
      in if MAX_HANDOFFS_PER_COMPLETION \<le> length handoffs
         then reject ''extra handoff ignored after reaching the per-completion limit''
         else case agent_names as requested of
                None \<Rightarrow> reject (''handoff to unknown agent `'' @ requested @ ''`'')
              | Some target \<Rightarrow>
                  (if lower target = lower source then reject ''self-handoff is not allowed''
                   else if body = [] then reject (''empty handoff for `'' @ target @ ''`'')
                   else case validate_handoff_body body of
                          Some e \<Rightarrow> reject (''handoff for `'' @ target @ ''` rejected: '' @ e)
                        | None \<Rightarrow> (handoffs @ [\<lparr>hr_target = target, hr_body = body, hr_task = extract_task_id body\<rparr>], rejections)))"

section \<open>Discussions\<close>

text \<open>A later attribute of the same name replaces the value of an earlier one.\<close>

definition parse_discuss_attrs :: "string \<Rightarrow> (string \<times> string) list" where
  "parse_discuss_attrs text =
     rev (map (\<lambda>g. (lower (strip (group_of g ''1'')), strip (group_of g ''3''))) (finditer DISCUSS_ATTR_RE text))"

definition attr :: "(string \<times> string) list \<Rightarrow> string \<Rightarrow> string \<Rightarrow> string" where
  "attr attrs k d = or_text (map_of attrs k) d"

definition replace_discuss ::
  "wagent list \<Rightarrow> string \<Rightarrow> (string \<times> string) list \<Rightarrow> discuss_request list \<times> string list
     \<Rightarrow> discuss_request list \<times> string list" where
  "replace_discuss as source g acc =
     (let (discussions, rejections) = acc; body = strip (group_of g ''body''); attrs = parse_discuss_attrs (group_of g ''attrs'');
          kind = lower (strip (attr attrs ''type'' ''open''));
          anomaly = strip (attr attrs ''anomaly'' (attr attrs ''id'' []));
          ask_names = filter (\<lambda>n. n \<noteq> []) (map strip (split_on (CHR '','') (strip (attr attrs ''ask'' (attr attrs ''with'' [])))));
          resolved = List.map_filter (agent_names as) ask_names;
          invalid = filter (\<lambda>n. agent_names as n = None) ask_names;
          to_name = strip (attr attrs ''to'' []);
          target = (if to_name = [] then None else agent_names as to_name);
          asked = (if kind = ''open'' then filter (\<lambda>n. lower n \<noteq> lower source) resolved else resolved);
          reject = (\<lambda>why. (discussions, rejections @ [why]))
      in if MAX_DISCUSSIONS_PER_COMPLETION \<le> length discussions
         then reject ''extra discuss block ignored after reaching the per-completion limit''
         else if kind \<notin> {''open'', ''reply'', ''resolve'', ''escalate''}
         then reject (''unsupported discuss type `'' @ (if kind = [] then ''none'' else kind) @ ''`'')
         else if body = [] then reject (''empty discuss block for `'' @ kind @ ''`'')
         else if invalid \<noteq> []
         then reject (''discussion references unknown agent(s): '' @ join_by '', '' (map (\<lambda>n. ''`'' @ n @ ''`'') invalid))
         else if to_name \<noteq> [] \<and> target = None then reject (''discussion target unknown agent `'' @ to_name @ ''`'')
         else if kind = ''open'' \<and> asked = [] then reject ''discussion_open requires at least one other agent in `ask=`''
         else if kind = ''reply'' \<and> target = None then reject ''discussion_reply requires a valid `to=` target''
         else (discussions @ [\<lparr>dr_type = kind, dr_body = body, dr_anomaly = (if anomaly = [] then None else Some anomaly),
                               dr_task = extract_task_id body, dr_ask = asked, dr_to = target\<rparr>], rejections))"

section \<open>Both\<close>

text \<open>The pieces of a capped substitution: nothing is replaced in a text over the cap.\<close>

definition bounded_pieces :: "rx \<Rightarrow> string \<Rightarrow> (string \<times> (string \<times> string) list) list \<times> string" where
  "bounded_pieces r s = (if MAX_REGEX_INPUT_LEN < length s then ([], s) else pieces r (at_start s))"

definition left_over :: "(string \<times> (string \<times> string) list) list \<times> string \<Rightarrow> string" where
  "left_over p = concat (map fst (fst p)) @ snd p"

record control_updates =
  cu_visible :: string
  cu_handoffs :: "handoff_request list"
  cu_bad_handoffs :: "string list"
  cu_discussions :: "discuss_request list"
  cu_bad_discussions :: "string list"

definition extract_control_updates :: "wagent list \<Rightarrow> string \<Rightarrow> string \<Rightarrow> control_updates" where
  "extract_control_updates as source output =
     (let hs = bounded_pieces HANDOFF_RE output; ds = bounded_pieces DISCUSS_RE (left_over hs);
          (handoffs, bad_handoffs) = fold (\<lambda>(_, g). replace_handoff as source g) (fst hs) ([], []);
          (discussions, bad_discussions) = fold (\<lambda>(_, g). replace_discuss as source g) (fst ds) ([], [])
      in \<lparr>cu_visible = strip (left_over ds), cu_handoffs = handoffs, cu_bad_handoffs = bad_handoffs,
          cu_discussions = discussions, cu_bad_discussions = bad_discussions\<rparr>)"

lemma bounded_pieces_sub: "left_over (bounded_pieces r s) = bounded_sub r (\<lambda>_. []) s"
proof -
  have "concat (map (\<lambda>(t, g). t @ []) ps) = concat (map fst ps)" for ps :: "(string \<times> (string \<times> string) list) list"
    by (induction ps) auto
  then show ?thesis
    by (simp add: bounded_pieces_def left_over_def bounded_sub_def re_sub_def Let_def split: prod.splits)
qed

section \<open>What gets through\<close>

definition handoff_ok :: "wagent list \<Rightarrow> string \<Rightarrow> handoff_request \<Rightarrow> bool" where
  "handoff_ok as source h \<longleftrightarrow>
     (\<exists>a \<in> set as. hr_target h = wa_name a \<and> lower (wa_name a) \<noteq> lower source)
     \<and> validate_handoff_body (hr_body h) = None \<and> hr_task h = extract_task_id (hr_body h)"

lemma agent_names_mem: "agent_names as n = Some t \<Longrightarrow> \<exists>a \<in> set as. t = wa_name a \<and> lower t = lower n"
  by (auto simp: agent_names_def agent_called_def dest!: find_SomeD)

lemma replace_handoff_ok:
  assumes "length (fst acc) \<le> MAX_HANDOFFS_PER_COMPLETION" "list_all (handoff_ok as source) (fst acc)"
  shows "length (fst (replace_handoff as source g acc)) \<le> MAX_HANDOFFS_PER_COMPLETION"
    "list_all (handoff_ok as source) (fst (replace_handoff as source g acc))"
  using assms
  by (auto simp: replace_handoff_def Let_def handoff_ok_def split: prod.splits option.splits dest: agent_names_mem)

end
