(* ===== verification/SessionTasks.thy ===== *)
theory SessionTasks
  imports SessionControl
begin

text \<open>
  The work that a completed job leaves behind: tasks and handoffs (\<open>_queue_handoffs\<close>), discussion jobs,
  rejections and the planner's repair job, the curator's events, the planner's recovery job, and the
  task a job was about.
\<close>

section \<open>Adding rows\<close>

definition append_task_event ::
  "instant \<Rightarrow> id \<Rightarrow> wtask \<Rightarrow> whandoff option \<Rightarrow> string \<Rightarrow> string \<Rightarrow> obj \<Rightarrow> bridge \<Rightarrow> bridge" where
  "append_task_event now sid t h kind who payload s =
     s\<lparr>br_events := br_events s @ [\<lparr>we_id = br_next s, we_session = sid, we_task = Some (wt_id t),
                      we_handoff = map_option wh_id h, we_kind = kind, we_actor = who, we_payload = payload, we_created = now\<rparr>],
        br_next := Suc (br_next s)\<rparr>"

text \<open>A job that waits for its agent.\<close>

definition queue_job ::
  "instant \<Rightarrow> id \<Rightarrow> string \<Rightarrow> string \<Rightarrow> string option \<Rightarrow> string \<Rightarrow> string \<Rightarrow> int \<Rightarrow> string \<Rightarrow> bridge \<Rightarrow> bridge" where
  "queue_job now sid agent kind msg user input epoch once s =
     s\<lparr>br_jobs := br_jobs s @ [\<lparr>wj_id = br_next s, wj_session = sid, wj_agent = agent, wj_type = kind, wj_message = msg,
                    wj_user = user, wj_input = input, wj_status = ''pending'', wj_task = None, wj_handoff = None,
                    wj_epoch = epoch, wj_rev = 0, wj_token = None, wj_once = once, wj_worker = None, wj_result = None,
                    wj_error = None, wj_created = now, wj_claimed = None, wj_completed = None\<rparr>],
        br_next := Suc (br_next s)\<rparr>"

text \<open>Idempotency keys: the parts, with colons between.\<close>

definition job_key :: "string list \<Rightarrow> string" where "job_key parts = join_with (CHR '':'') parts"

definition live_job :: "id \<Rightarrow> string \<Rightarrow> string list \<Rightarrow> bridge \<Rightarrow> bool" where
  "live_job sid agent kinds s \<longleftrightarrow>
     jobs_where sid (\<lambda>j. wj_agent j = agent \<and> wj_type j \<in> set kinds \<and> wj_status j \<in> set LIVE_JOB_STATES) s \<noteq> []"

section \<open>Notes in the transcript\<close>

definition duplicate_note :: "string \<Rightarrow> string \<Rightarrow> string \<Rightarrow> string" where
  "duplicate_note target key body =
     ''Duplicate handoff ignored for '' @ target @ '' ('' @ key @ ''): '' @ trim_context_text body HANDOFF_PREVIEW_LIMIT"

definition tag_text :: "string option \<Rightarrow> string" where
  "tag_text k = (if or_text k [] = [] then [] else '' ('' @ or_text k [] @ '')'')"

definition handoff_note :: "handoff_request \<Rightarrow> string" where
  "handoff_note h = ''Handoff queued to '' @ hr_target h @ tag_text (hr_task h) @ '': '' @ trim_context_text (hr_body h) HANDOFF_PREVIEW_LIMIT"

definition handoff_detail :: "wtask \<Rightarrow> string \<Rightarrow> string \<Rightarrow> string" where
  "handoff_detail t target body =
     wt_key t @ '' -> '' @ target @ '': '' @ trim_context_text (or_text (wt_summary t) body) HANDOFF_PREVIEW_LIMIT"

definition curator_note :: "string \<Rightarrow> string list \<Rightarrow> string" where
  "curator_note cause details =
     ''Curator event queued after '' @ cause @ '': '' @ trim_context_text (join_by '' | '' details) HANDOFF_PREVIEW_LIMIT"

definition discussion_note :: "string \<Rightarrow> string \<Rightarrow> discuss_request \<Rightarrow> string" where
  "discussion_note verb target d =
     verb @ '' queued to '' @ target @ tag_text (dr_anomaly d) @ '': '' @ trim_context_text (dr_body d) HANDOFF_PREVIEW_LIMIT"

definition repair_note :: "string \<Rightarrow> string list \<Rightarrow> string" where
  "repair_note source rejections =
     ''Planner handoff repair queued after '' @ source @ '' emitted invalid handoff data: ''
     @ trim_context_text (join_by '' ; '' rejections) FAILURE_PREVIEW_LIMIT"

definition recovery_note :: "string \<Rightarrow> string \<Rightarrow> string \<Rightarrow> string" where
  "recovery_note agent kind error =
     ''Planner recovery queued after '' @ agent @ '' '' @ kind @ '' failure: '' @ trim_context_text error FAILURE_PREVIEW_LIMIT"

definition rejection_note :: "string \<Rightarrow> string \<Rightarrow> string \<Rightarrow> string" where
  "rejection_note what source why = what @ '' rejected from '' @ source @ '': '' @ why"

section \<open>Tasks for handoffs\<close>

definition canonical_number :: "string \<Rightarrow> nat option" where
  "canonical_number key = map_option (\<lambda>m. numval (group m ''number'')) (bounded_fullmatch CANONICAL_TASK_KEY_RE (upper (strip key)))"

definition pad3 :: "nat \<Rightarrow> string" where
  "pad3 n = replicate (3 - length (dec n)) (CHR ''0'') @ dec n"

definition allocate_task_key :: "id \<Rightarrow> bridge \<Rightarrow> string" where
  "allocate_task_key sid s =
     (let keys = map wt_key (filter (\<lambda>t. wt_session t = sid) (br_tasks s));
          values = List.map_filter canonical_number (filter (\<lambda>k. k \<noteq> []) keys)
      in ''T-'' @ pad3 (case values of [] \<Rightarrow> 1 | _ \<Rightarrow> Max (set values) + 1))"

definition handoff_task_key :: "id \<Rightarrow> handoff_request \<Rightarrow> bridge \<Rightarrow> string" where
  "handoff_task_key sid h s =
     (case hr_task h of
        None \<Rightarrow> allocate_task_key sid s
      | Some k \<Rightarrow> if k \<noteq> [] \<and> bounded_fullmatch CANONICAL_TASK_KEY_RE (upper (strip k)) \<noteq> None then upper (strip k)
                   else allocate_task_key sid s)"

definition task_by_key :: "id \<Rightarrow> string \<Rightarrow> bridge \<Rightarrow> wtask option" where
  "task_by_key sid key s = List.find (\<lambda>t. wt_session t = sid \<and> wt_key t = key) (br_tasks s)"

definition live_handoff :: "whandoff \<Rightarrow> bool" where
  "live_handoff h \<longleftrightarrow> wh_state h \<in> {''queued'', ''claimed''}"

definition is_duplicate_ready_handoff :: "wsession \<Rightarrow> wtask \<Rightarrow> string \<Rightarrow> string \<Rightarrow> bridge \<Rightarrow> bool" where
  "is_duplicate_ready_handoff row t target body s \<longleftrightarrow>
     wt_epoch t = ws_epoch row
     \<and> \<not> (or_text (wt_agent t) [] \<noteq> [] \<and> lower (or_text (wt_agent t) []) \<noteq> lower target)
     \<and> strip (wt_body t) = strip body
     \<and> wt_state t \<in> {''ready'', ''in_progress'', ''review'', ''verify'', ''handoff_queued''}
     \<and> list_ex (\<lambda>h. wh_session h = ws_id row \<and> wh_task h = wt_id t \<and> wh_target h = target \<and> live_handoff h) (br_handoffs s)"

definition scope_of :: "string \<Rightarrow> string option" where
  "scope_of body = derive_semantic_scope (or_text (extract_prefixed_line body ''Target summary:'') body)"

definition fresh_task :: "instant \<Rightarrow> wsession \<Rightarrow> wagent \<Rightarrow> string \<Rightarrow> handoff_request \<Rightarrow> string \<Rightarrow> id \<Rightarrow> string \<Rightarrow> wtask" where
  "fresh_task now row target source h body k key =
     \<lparr>wt_id = k, wt_session = ws_id row, wt_key = key, wt_title = derive_task_title_from_handoff body,
      wt_role = wa_role target, wt_agent = Some (hr_target h), wt_source = Some source, wt_scope = scope_of body,
      wt_files = file_list (extract_prefixed_line body ''Files:''), wt_state = ''ready'', wt_rev = 1,
      wt_epoch = ws_epoch row, wt_token = None, wt_worker = None,
      wt_summary = extract_prefixed_line body ''Target summary:'', wt_body = body, wt_brief = None, wt_log = None,
      wt_created = now, wt_updated = now, wt_moved = now\<rparr>"

definition redirect_task :: "instant \<Rightarrow> wsession \<Rightarrow> wagent \<Rightarrow> string \<Rightarrow> handoff_request \<Rightarrow> string \<Rightarrow> wtask \<Rightarrow> wtask" where
  "redirect_task now row target source h body t =
     t\<lparr>wt_title := derive_task_title_from_handoff body, wt_role := wa_role target, wt_agent := Some (hr_target h),
        wt_source := Some source, wt_summary := extract_prefixed_line body ''Target summary:'', wt_body := body,
        wt_scope := scope_of body, wt_files := file_list (extract_prefixed_line body ''Files:''), wt_state := ''ready'',
        wt_rev := wt_rev t + 1, wt_epoch := ws_epoch row, wt_token := None, wt_worker := None,
        wt_updated := now, wt_moved := now,
        wt_brief := (if or_text (extract_prefixed_line body ''Done condition:'') [] = [] then wt_brief t else None),
        wt_log := (if or_text (extract_prefixed_line body ''Done condition:'') [] = [] then wt_log t else None)\<rparr>"

text \<open>\<open>_upsert_task_for_handoff\<close>: the task's row, the normal form of the body, and whether it is a duplicate.\<close>

definition upsert_task_for_handoff ::
  "instant \<Rightarrow> wsession \<Rightarrow> string \<Rightarrow> handoff_request \<Rightarrow> bridge \<Rightarrow> (bridge_error + wtask \<times> string \<times> bool) \<times> bridge" where
  "upsert_task_for_handoff now row source h =
     bindS (require_agent (ws_id row) (hr_target h)) (\<lambda>target s.
       let body = normalize_task_payload_text (hr_body h); key = handoff_task_key (ws_id row) h s
       in case task_by_key (ws_id row) key s of
            None \<Rightarrow>
              (let t = fresh_task now row target source h body (br_next s) key
               in doneS (t, body, False) (s\<lparr>br_tasks := br_tasks s @ [t], br_next := Suc (br_next s)\<rparr>))
          | Some t \<Rightarrow>
              (if is_duplicate_ready_handoff row t (hr_target h) body s then doneS (t, body, True) s
               else doneS (redirect_task now row target source h body t, body, False)
                      (task_upd (wt_id t) (redirect_task now row target source h body) s)))"

definition supersede_handoffs :: "instant \<Rightarrow> id \<Rightarrow> bridge \<Rightarrow> bridge" where
  "supersede_handoffs now k s =
     s\<lparr>br_handoffs := map (\<lambda>h. if wh_task h = k \<and> live_handoff h
          then h\<lparr>wh_state := ''superseded'', wh_updated := now,
                  wh_consumed := (case wh_consumed h of None \<Rightarrow> Some now | t \<Rightarrow> t)\<rparr> else h) (br_handoffs s)\<rparr>"

definition handoff_row :: "instant \<Rightarrow> wsession \<Rightarrow> string \<Rightarrow> wjob \<Rightarrow> handoff_request \<Rightarrow> wtask \<Rightarrow> string \<Rightarrow> bridge \<Rightarrow> whandoff" where
  "handoff_row now row source j h t body s =
     \<lparr>wh_id = br_next s, wh_session = ws_id row, wh_task = wt_id t, wh_source_job = Some (wj_id j), wh_claimed_by = None,
      wh_source = source, wh_target = hr_target h,
      wh_role = (case agent_row (ws_id row) (hr_target h) s of None \<Rightarrow> wt_role t | Some a \<Rightarrow> wa_role a),
      wh_state = ''queued'', wh_rev = wt_rev t, wh_epoch = ws_epoch row, wh_body = body, wh_created = now,
      wh_claimed = None, wh_consumed = None, wh_updated = now\<rparr>"

text \<open>The live handoffs of the task are superseded, the new one is queued and recorded.\<close>

definition add_handoff :: "whandoff \<Rightarrow> bridge \<Rightarrow> bridge" where
  "add_handoff h s = s\<lparr>br_handoffs := br_handoffs s @ [h], br_next := Suc (br_next s)\<rparr>"

definition post_handoff ::
  "lib \<Rightarrow> instant \<Rightarrow> wsession \<Rightarrow> string \<Rightarrow> wjob \<Rightarrow> handoff_request \<Rightarrow> wtask \<Rightarrow> string \<Rightarrow> bridge \<Rightarrow> bridge" where
  "post_handoff L now row source j h t body s =
     (let s1 = supersede_handoffs now (wt_id t) s; hrow = handoff_row now row source j h t body s1;
          s3 = append_task_event now (ws_id row) t (Some hrow) ''handoff_queued'' source
                 [(''target_agent'', JStr (hr_target h)), (''task_key'', JStr (wt_key t)), (''revision'', JInt (wt_rev t))]
                 (add_handoff hrow s1)
      in note_entry L now (ws_id row) source (handoff_note h) (wj_message j) s3)"

text \<open>One handoff of the list; the line it gives the curator, unless it repeats a live one.\<close>

definition queue_handoff ::
  "lib \<Rightarrow> instant \<Rightarrow> wsession \<Rightarrow> string \<Rightarrow> wjob \<Rightarrow> handoff_request \<Rightarrow> bridge \<Rightarrow> (bridge_error + string list) \<times> bridge" where
  "queue_handoff L now row source j h =
     bindS (upsert_task_for_handoff now row source h) (\<lambda>x s.
       if snd (snd x)
       then doneS [] (note_entry L now (ws_id row) ''bridge'' (duplicate_note (hr_target h) (wt_key (fst x)) (fst (snd x))) (wj_message j) s)
       else doneS [handoff_detail (fst x) (hr_target h) (fst (snd x))]
              (post_handoff L now row source j h (fst x) (fst (snd x)) s))"

section \<open>The curator\<close>

definition queue_curator_event ::
  "lib \<Rightarrow> instant \<Rightarrow> wsession \<Rightarrow> string \<Rightarrow> wjob \<Rightarrow> string \<Rightarrow> string list \<Rightarrow> bridge \<Rightarrow> bool \<times> bridge" where
  "queue_curator_event L now row source j cause details s =
     (case find_curator_agent (agents_of (ws_id row) s) of
        None \<Rightarrow> (False, s)
      | Some c \<Rightarrow>
          (if lower source = lower (wa_name c) then (False, s)
           else if live_job (ws_id row) (wa_name c) [''curation_event'', ''curation_sweep''] s then (False, s)
           else
             let trimmed = take 4 details;
                 s1 = queue_job now (ws_id row) (wa_name c) ''curation_event'' (wj_message j) (''agent:'' @ source)
                        (build_curator_event_prompt cause source trimmed) (ws_epoch row)
                        (job_key [''curation_event'', l_uid L (ws_id row), dec_int (ws_epoch row), cause, l_uid L (wj_id j)]) s
             in (True, note_entry L now (ws_id row) ''bridge''
                   (curator_note cause trimmed) (wj_message j) s1)))"

fun queue_each :: "('a \<Rightarrow> bridge \<Rightarrow> (bridge_error + string list) \<times> bridge) \<Rightarrow> 'a list \<Rightarrow> bridge
    \<Rightarrow> (bridge_error + string list) \<times> bridge" where
  "queue_each f [] s = doneS [] s"
| "queue_each f (x # xs) s =
     bindS (f x) (\<lambda>d. bindS (queue_each f xs) (\<lambda>ds. doneS (d @ ds))) s"

definition tell_curator ::
  "lib \<Rightarrow> instant \<Rightarrow> wsession \<Rightarrow> string \<Rightarrow> wjob \<Rightarrow> string \<Rightarrow> string list \<Rightarrow> bridge \<Rightarrow> (bridge_error + unit) \<times> bridge" where
  "tell_curator L now row source j cause details s =
     doneS () (if details = [] then s else snd (queue_curator_event L now row source j cause details s))"

definition queue_handoffs ::
  "lib \<Rightarrow> instant \<Rightarrow> wsession \<Rightarrow> string \<Rightarrow> wjob \<Rightarrow> handoff_request list \<Rightarrow> bridge \<Rightarrow> (bridge_error + unit) \<times> bridge" where
  "queue_handoffs L now row source j hs =
     bindS (queue_each (queue_handoff L now row source j) hs) (\<lambda>details.
       tell_curator L now row source j ''handoff_update'' details)"

section \<open>Discussions\<close>

definition queue_discussion_to ::
  "lib \<Rightarrow> instant \<Rightarrow> id \<Rightarrow> string \<Rightarrow> wjob \<Rightarrow> discuss_request \<Rightarrow> string \<Rightarrow> string \<Rightarrow> bridge \<Rightarrow> bridge" where
  "queue_discussion_to L now sid source j d verb target s =
     (let s1 = queue_job now sid target ''discussion'' (wj_message j) (''agent:'' @ source)
                 (build_discussion_prompt source target (dr_type d) (dr_anomaly d) (dr_task d) (dr_body d)) (wj_epoch j)
                 (job_key [''discuss'', l_uid L sid, or_text (dr_anomaly d) ''none'', source, target, dr_type d]) s
      in note_entry L now sid source
           (discussion_note verb target d) (wj_message j) s1)"

definition discussion_targets :: "discuss_request \<Rightarrow> string list" where
  "discussion_targets d =
     (if dr_type d = ''open'' then dr_ask d
      else if dr_type d = ''reply'' then (case dr_to d of None \<Rightarrow> [] | Some t \<Rightarrow> if t = [] then [] else [t])
      else [])"

definition discussion_verb :: "discuss_request \<Rightarrow> string" where
  "discussion_verb d = (if dr_type d = ''open'' then ''Discussion'' else ''Discussion reply'')"

definition discussion_details :: "discuss_request list \<Rightarrow> string list" where
  "discussion_details ds =
     concat (map (\<lambda>d. map (\<lambda>t. dr_type d @ '':'' @ t @ '':'' @ trim_context_text (dr_body d) HANDOFF_PREVIEW_LIMIT)
                     (discussion_targets d)) ds)"

definition queue_discussions ::
  "lib \<Rightarrow> instant \<Rightarrow> wsession \<Rightarrow> string \<Rightarrow> wjob \<Rightarrow> discuss_request list \<Rightarrow> bridge \<Rightarrow> (bridge_error + unit) \<times> bridge" where
  "queue_discussions L now row source j ds s =
     tell_curator L now row source j ''discussion_update'' (discussion_details ds)
       (fold (\<lambda>d. fold (queue_discussion_to L now (ws_id row) source j d (discussion_verb d)) (discussion_targets d)) ds s)"

section \<open>Rejections, repair and recovery\<close>

definition queue_planner_handoff_repair ::
  "lib \<Rightarrow> instant \<Rightarrow> wsession \<Rightarrow> string \<Rightarrow> wjob \<Rightarrow> string list \<Rightarrow> bridge \<Rightarrow> bool \<times> bridge" where
  "queue_planner_handoff_repair L now row source j rejections s =
     (case find_planner_agent (agents_of (ws_id row) s) of
        None \<Rightarrow> (False, s)
      | Some p \<Rightarrow>
          (if lower source = lower (wa_name p) then (False, s)
           else if live_job (ws_id row) (wa_name p) [''orchestration'', ''routing'', ''recovery'', ''handoff_repair''] s
           then (False, s)
           else
             let s1 = queue_job now (ws_id row) (wa_name p) ''handoff_repair'' (wj_message j) ''system:handoff-validator''
                        (build_handoff_repair_prompt source (wj_input j) rejections) (ws_epoch row)
                        (job_key [''handoff_repair'', l_uid L (ws_id row), l_uid L (wj_id j)]) s
             in (True, note_entry L now (ws_id row) ''bridge''
                   (repair_note source rejections) (wj_message j) s1)))"

definition record_handoff_rejections ::
  "lib \<Rightarrow> instant \<Rightarrow> wsession \<Rightarrow> string \<Rightarrow> wjob \<Rightarrow> string list \<Rightarrow> bridge \<Rightarrow> bridge" where
  "record_handoff_rejections L now row source j rejections s =
     (if rejections = [] then s
      else snd (queue_planner_handoff_repair L now row source j rejections
             (fold (\<lambda>r. note_entry L now (ws_id row) ''bridge'' (rejection_note ''Handoff'' source r) (wj_message j))
                rejections s)))"

definition record_discussion_rejections ::
  "lib \<Rightarrow> instant \<Rightarrow> id \<Rightarrow> string \<Rightarrow> wjob \<Rightarrow> string list \<Rightarrow> bridge \<Rightarrow> bridge" where
  "record_discussion_rejections L now sid source j rejections =
     fold (\<lambda>r. note_entry L now sid ''bridge'' (rejection_note ''Discussion update'' source r) (wj_message j)) rejections"

definition queue_planner_recovery ::
  "lib \<Rightarrow> instant \<Rightarrow> wsession \<Rightarrow> wjob \<Rightarrow> string \<Rightarrow> string \<Rightarrow> bridge \<Rightarrow> bool \<times> bridge" where
  "queue_planner_recovery L now row j agent error s =
     (if lower agent = ''planner'' then (False, s)
      else if wj_type j \<notin> {''handoff'', ''verification''} then (False, s)
      else case find_planner_agent (agents_of (ws_id row) s) of
             None \<Rightarrow> (False, s)
           | Some p \<Rightarrow>
               (if live_job (ws_id row) (wa_name p) [''recovery''] s then (False, s)
                else
                  let s1 = queue_job now (ws_id row) (wa_name p) ''recovery'' (wj_message j) ''system:recovery''
                             (build_recovery_prompt agent (wj_type j) (wj_input j) error) (ws_epoch row)
                             (job_key [''recovery'', l_uid L (ws_id row), l_uid L (wj_id j)]) s
                  in (True, note_entry L now (ws_id row) ''bridge''
                        (recovery_note agent (wj_type j) error) (wj_message j) s1)))"

section \<open>The task of a job\<close>

definition settled_handoff :: "instant \<Rightarrow> string \<Rightarrow> whandoff \<Rightarrow> whandoff" where
  "settled_handoff now outcome h =
     h\<lparr>wh_state := outcome, wh_updated := now, wh_consumed := (if outcome = ''consumed'' then Some now else wh_consumed h)\<rparr>"

definition settle_handoff :: "instant \<Rightarrow> string \<Rightarrow> wjob \<Rightarrow> bridge \<Rightarrow> whandoff option \<times> bridge" where
  "settle_handoff now outcome j s =
     (case wj_handoff j of
        None \<Rightarrow> (None, s)
      | Some k \<Rightarrow>
          (case row_get wh_id k (br_handoffs s) of
             None \<Rightarrow> (None, s)
           | Some h \<Rightarrow>
               (if wh_state h \<in> set TERMINAL_HANDOFF_STATES then (Some h, s)
                else (Some h, handoff_upd k (settled_handoff now outcome) s))))"

definition completed_state :: "bool \<Rightarrow> bool \<Rightarrow> wtask \<Rightarrow> string" where
  "completed_state same question t =
     (if same then (if wt_state t \<in> set READY_TASK_STATES then wt_state t else ''ready'')
      else if question then ''blocked_on_operator'' else ''done'')"

definition completed_task :: "instant \<Rightarrow> bool \<Rightarrow> bool \<Rightarrow> string \<Rightarrow> wtask \<Rightarrow> wtask" where
  "completed_task now same question report t =
     t\<lparr>wt_state := completed_state same question t, wt_rev := (if same then wt_rev t else wt_rev t + 1), wt_token := None,
        wt_worker := None, wt_log := None, wt_updated := now, wt_moved := now,
        wt_summary := (if report = [] then wt_summary t else Some (trim_context_text report SESSION_SUMMARY_TEXT_LIMIT))\<rparr>"

definition failed_task :: "instant \<Rightarrow> string \<Rightarrow> wtask \<Rightarrow> wtask" where
  "failed_task now error t =
     t\<lparr>wt_state := ''failed'', wt_rev := wt_rev t + 1, wt_token := None, wt_worker := None, wt_updated := now, wt_moved := now,
        wt_summary := Some (trim_context_text error SESSION_SUMMARY_TEXT_LIMIT)\<rparr>"

definition job_task :: "wjob \<Rightarrow> bridge \<Rightarrow> wtask option" where
  "job_task j s = (case wj_task j of None \<Rightarrow> None | Some k \<Rightarrow> row_get wt_id k (br_tasks s))"

definition hands_on :: "wtask \<Rightarrow> handoff_request list \<Rightarrow> bool" where
  "hands_on t hs \<longleftrightarrow> list_ex (\<lambda>h. upper (strip (or_text (hr_task h) [])) = upper (wt_key t)) hs"

text \<open>The task's new row, the handoff settled, and the event that records both.\<close>

definition settle_task ::
  "instant \<Rightarrow> wsession \<Rightarrow> wjob \<Rightarrow> string \<Rightarrow> (wtask \<Rightarrow> wtask) \<Rightarrow> string \<Rightarrow> string \<Rightarrow> obj \<Rightarrow> bridge \<Rightarrow> bridge" where
  "settle_task now row j who f outcome kind extra s =
     (case job_task j s of
        None \<Rightarrow> s
      | Some t \<Rightarrow>
          let hs = settle_handoff now outcome j (task_upd (wt_id t) f s)
          in append_task_event now (ws_id row) (f t) (fst hs) kind who
               ([(''state'', JStr (wt_state (f t))), (''revision'', JInt (wt_rev (f t)))] @ extra) (snd hs))"

definition synchronize_completed_task ::
  "instant \<Rightarrow> wsession \<Rightarrow> wjob \<Rightarrow> string \<Rightarrow> string \<Rightarrow> bool \<Rightarrow> handoff_request list \<Rightarrow> bridge \<Rightarrow> bridge" where
  "synchronize_completed_task now row j who report question hs s =
     settle_task now row j who
       (\<lambda>t. completed_task now (case job_task j s of None \<Rightarrow> False | Some t0 \<Rightarrow> hands_on t0 hs) question report t)
       ''consumed'' ''task_completed'' [(''handoff_count'', JInt (int (length hs)))] s"

definition synchronize_failed_task :: "instant \<Rightarrow> wsession \<Rightarrow> wjob \<Rightarrow> string \<Rightarrow> string \<Rightarrow> bridge \<Rightarrow> bridge" where
  "synchronize_failed_task now row j who error s =
     settle_task now row j who (failed_task now error) ''failed'' ''task_failed'' [] s"

end
