(* ===== verification/SessionPolicy.thy ===== *)
theory SessionPolicy
  imports SessionTasks
begin

text \<open>
  The policy of a session, \<open>services/policy_service.py\<close> over \<open>ProjectPolicy\<close> of \<open>schemas.py\<close>: the
  profile's policy until the first override, then the stored one. \<open>dk_profiles\<close> is the policy of a
  profile as the launchers registered it.
\<close>

record project_policy =
  pp_parallel :: int
  pp_auto_retry :: bool
  pp_max_retries :: int
  pp_quiet :: bool
  pp_approval :: string
  pp_cross :: bool

definition default_policy :: project_policy where
  "default_policy = \<lparr>pp_parallel = 1, pp_auto_retry = True, pp_max_retries = 1, pp_quiet = True,
                     pp_approval = ''critical_only'', pp_cross = True\<rparr>"

text \<open>\<open>ProjectPolicy.model_validate\<close>: the two clamping validators.\<close>

definition validate_policy :: "project_policy \<Rightarrow> project_policy" where
  "validate_policy p = p\<lparr>pp_parallel := max 1 (min (pp_parallel p) 8), pp_max_retries := max 0 (min (pp_max_retries p) 10)\<rparr>"

record policy_row =
  pr_session :: id
  pr_source :: string
  pr_policy :: project_policy
  pr_version :: int
  pr_by :: string
  pr_updated :: "instant option"

type_synonym policies = "policy_row list"

datatype policy_failure = UnknownKey string | NotBoolean string | NotInteger string

record desk =
  dk_lib :: lib
  dk_profiles :: "string \<Rightarrow> project_policy option"
  dk_policies :: policies

section \<open>Reading\<close>

definition ensure_policy :: "instant \<Rightarrow> id \<Rightarrow> project_policy \<Rightarrow> string \<Rightarrow> policies \<Rightarrow> policy_row \<times> policies" where
  "ensure_policy now sid profile by_whom ps =
     (case row_get pr_session sid ps of
        Some r \<Rightarrow> (r, ps)
      | None \<Rightarrow> let r = \<lparr>pr_session = sid, pr_source = ''preset'', pr_policy = validate_policy profile, pr_version = 1,
                           pr_by = by_whom, pr_updated = Some now\<rparr>
                in (r, ps @ [r]))"

definition get_policy_response :: "id \<Rightarrow> project_policy option \<Rightarrow> policies \<Rightarrow> policy_row option" where
  "get_policy_response sid profile ps =
     (case row_get pr_session sid ps of
        Some r \<Rightarrow> Some (r\<lparr>pr_policy := validate_policy (pr_policy r)\<rparr>)
      | None \<Rightarrow> map_option (\<lambda>p. \<lparr>pr_session = sid, pr_source = ''preset'', pr_policy = validate_policy p, pr_version = 1,
                                  pr_by = ''system'', pr_updated = None\<rparr>) profile)"

definition load_policy_summary :: "desk \<Rightarrow> wsession \<Rightarrow> project_policy option" where
  "load_policy_summary W row =
     (case ws_preset row of
        None \<Rightarrow> None
      | Some profile \<Rightarrow> map_option pr_policy (get_policy_response (ws_id row) (dk_profiles W profile) (dk_policies W)))"

section \<open>Overriding one value\<close>

text \<open>\<open>int(text)\<close>: a sign, then digits, with single underscores between digits.\<close>

definition int_of_text :: "string \<Rightarrow> int option" where
  "int_of_text t =
     (let (sign, ds) = (case t of [] \<Rightarrow> (1, []) | c # r \<Rightarrow> if c = CHR ''-'' then (- 1, r) else if c = CHR ''+'' then (1, r) else (1, t));
          parts = split_on (CHR ''_'') ds
      in if list_all (\<lambda>p. p \<noteq> [] \<and> list_all is_digit_char p) parts then Some (sign * int (numval (concat parts))) else None)"

definition coerce_policy_bool :: "string \<Rightarrow> policy_failure + bool" where
  "coerce_policy_bool raw =
     (let n = lower (strip raw) in
      if n \<in> {''true'', ''1'', ''yes'', ''on''} then Inr True
      else if n \<in> {''false'', ''0'', ''no'', ''off''} then Inr False else Inl (NotBoolean raw))"

definition coerce_policy_int :: "string \<Rightarrow> policy_failure + int" where
  "coerce_policy_int raw = (case int_of_text (strip raw) of None \<Rightarrow> Inl (NotInteger raw) | Some n \<Rightarrow> Inr n)"

definition set_field :: "string \<Rightarrow> string \<Rightarrow> project_policy \<Rightarrow> policy_failure + project_policy" where
  "set_field key raw p =
     (if key = ''max_parallel_agents'' then bindE (coerce_policy_int raw) (\<lambda>n. Inr (p\<lparr>pp_parallel := n\<rparr>))
      else if key = ''auto_retry'' then bindE (coerce_policy_bool raw) (\<lambda>b. Inr (p\<lparr>pp_auto_retry := b\<rparr>))
      else if key = ''max_retries'' then bindE (coerce_policy_int raw) (\<lambda>n. Inr (p\<lparr>pp_max_retries := n\<rparr>))
      else if key = ''quiet_discord'' then bindE (coerce_policy_bool raw) (\<lambda>b. Inr (p\<lparr>pp_quiet := b\<rparr>))
      else if key = ''approval_mode'' then Inr (p\<lparr>pp_approval := strip raw\<rparr>)
      else if key = ''allow_cross_agent_handoff'' then bindE (coerce_policy_bool raw) (\<lambda>b. Inr (p\<lparr>pp_cross := b\<rparr>))
      else Inl (UnknownKey key))"

definition set_policy_value ::
  "instant \<Rightarrow> id \<Rightarrow> project_policy \<Rightarrow> string \<Rightarrow> string \<Rightarrow> string \<Rightarrow> policies \<Rightarrow> policy_failure + policy_row \<times> policies" where
  "set_policy_value now sid profile key raw by_whom ps =
     (let (r, ps1) = ensure_policy now sid profile by_whom ps in
      bindE (set_field key raw (pr_policy r)) (\<lambda>p.
        let r' = r\<lparr>pr_policy := validate_policy p, pr_source := ''session_override'', pr_version := pr_version r + 1,
                   pr_by := by_whom, pr_updated := Some now\<rparr>
        in Inr (r', row_upd pr_session sid (\<lambda>_. r') ps1)))"

section \<open>Bounds\<close>

lemma validate_policy_bounds:
  "1 \<le> pp_parallel (validate_policy p)" "pp_parallel (validate_policy p) \<le> 8"
  by (simp_all add: validate_policy_def)

lemma load_policy_bounds:
  "load_policy_summary W row = Some p \<Longrightarrow> 1 \<le> pp_parallel p \<and> pp_parallel p \<le> 8"
  by (auto simp: load_policy_summary_def get_policy_response_def validate_policy_bounds split: option.splits)

end
