(* ===== verification/Catalog.thy ===== *)
theory Catalog
  imports SessionPolicy
begin

text \<open>
  Which machine runs a project: the manifests that the launchers register (\<open>worker_registry.py\<close>), the
  capability providers that tell whether such a machine is reachable (\<open>capabilities/\<close>), and the
  drift monitor over the artifacts that workers report (\<open>drift_monitor.py\<close>). A manifest is stored as the
  record itself; that pydantic reads back what it wrote is left to the library.
\<close>

section \<open>Manifests\<close>

record agent_manifest =
  am_name :: string
  am_cli :: string
  am_role :: string
  am_prompt :: string
  am_default :: bool
  am_timeout :: int

record finder_manifest =
  fm_roots :: "string list"
  fm_agent :: "string option"
  fm_prompt :: "string option"
  fm_depth :: int
  fm_candidates :: int
  fm_timeout :: int
  fm_exclude :: "string list"

record power_manifest =
  pm_target :: string
  pm_provider :: string
  pm_mac :: "string option"
  pm_broadcast :: "string option"

record execution_manifest =
  xm_target :: string
  xm_provider :: string
  xm_platform :: string
  xm_hint :: "string option"
  xm_pattern :: "string option"
  xm_auto :: bool

record verification_manifest =
  vm_enabled :: bool
  vm_provider :: string
  vm_dir :: string
  vm_timeout :: int
  vm_commands :: "(string \<times> string list) list"
  vm_approval :: bool

record manifest =
  mf_profile :: string
  mf_target :: "string option"
  mf_workdir :: string
  mf_guild :: string
  mf_channel :: string
  mf_users :: "string list"
  mf_template :: string
  mf_agents :: "agent_manifest list"
  mf_ready :: bool
  mf_restore :: bool
  mf_finder :: finder_manifest
  mf_power :: power_manifest
  mf_execution :: execution_manifest
  mf_policy :: project_policy
  mf_verification :: verification_manifest

text \<open>\<open>validate_default_agent\<close>.\<close>

definition one_default :: "manifest \<Rightarrow> bool" where
  "one_default m \<longleftrightarrow> \<not> (1 < length (mf_agents m) \<and> 1 < length (filter am_default (mf_agents m)))"

section \<open>The registry\<close>

record launcher =
  ln_id :: string
  ln_host :: string
  ln_status :: string
  ln_seen :: instant

record catalog_entry =
  ce_launcher :: string
  ce_profile :: string
  ce_manifest :: manifest

record catalog =
  ct_launchers :: "launcher list"
  ct_entries :: "catalog_entry list"

text \<open>A dictionary: a key keeps its first place and takes its last value.\<close>

definition dict_of :: "('k \<times> 'v) list \<Rightarrow> ('k \<times> 'v) list" where
  "dict_of ps = fold (\<lambda>(k, v). AList.update k v) ps []"

definition project_map :: "catalog_entry list \<Rightarrow> (string \<times> manifest) list" where
  "project_map es = dict_of (map (\<lambda>e. (ce_profile e, ce_manifest e)) es)"

definition entries_of :: "string \<Rightarrow> catalog \<Rightarrow> catalog_entry list" where
  "entries_of lid c = filter (\<lambda>e. ce_launcher e = lid) (ct_entries c)"

definition register_projects :: "instant \<Rightarrow> string \<Rightarrow> string \<Rightarrow> manifest list \<Rightarrow> catalog \<Rightarrow> catalog" where
  "register_projects now lid host projects c =
     (let fresh = \<lparr>ln_id = lid, ln_host = host, ln_status = ''online'', ln_seen = now\<rparr>
      in \<lparr>ct_launchers = (case row_get ln_id lid (ct_launchers c) of
             None \<Rightarrow> ct_launchers c @ [fresh]
           | Some _ \<Rightarrow> row_upd ln_id lid (\<lambda>l. l\<lparr>ln_host := host, ln_status := ''online'', ln_seen := now\<rparr>) (ct_launchers c)),
         ct_entries = filter (\<lambda>e. ce_launcher e \<noteq> lid) (ct_entries c)
           @ map (\<lambda>(p, m). \<lparr>ce_launcher = lid, ce_profile = p, ce_manifest = m\<rparr>)
               (dict_of (map (\<lambda>m. (mf_profile m, m)) projects))\<rparr>)"

definition is_launcher_id_active_elsewhere :: "instant \<Rightarrow> int \<Rightarrow> string \<Rightarrow> string \<Rightarrow> catalog \<Rightarrow> bool" where
  "is_launcher_id_active_elsewhere now stale lid host c =
     (case row_get ln_id lid (ct_launchers c) of
        None \<Rightarrow> False
      | Some l \<Rightarrow> ln_host l \<noteq> host \<and> now - ln_seen l < seconds stale)"

definition prune_stale_launchers :: "instant \<Rightarrow> int \<Rightarrow> catalog \<Rightarrow> catalog" where
  "prune_stale_launchers now stale c =
     c\<lparr>ct_launchers := map (\<lambda>l. if ln_seen l < now - seconds stale then l\<lparr>ln_status := ''stale''\<rparr> else l) (ct_launchers c)\<rparr>"

definition offers :: "catalog \<Rightarrow> string \<Rightarrow> launcher \<Rightarrow> bool" where
  "offers c project l \<longleftrightarrow> list_ex (\<lambda>e. ce_profile e = project) (entries_of (ln_id l) c)"

text \<open>The online launchers of a project, the one seen last first.\<close>

definition launchers_for :: "string \<Rightarrow> catalog \<Rightarrow> launcher list" where
  "launchers_for project c = select_desc ln_seen (\<lambda>l. ln_status l = ''online'' \<and> offers c project l) (ct_launchers c)"

definition find_launcher_for_project :: "instant \<Rightarrow> int \<Rightarrow> string \<Rightarrow> catalog \<Rightarrow> launcher option \<times> catalog" where
  "find_launcher_for_project now stale project c =
     (let c' = prune_stale_launchers now stale c
      in (case launchers_for project c' of [] \<Rightarrow> None | l # _ \<Rightarrow> Some l, c'))"

definition get_project :: "instant \<Rightarrow> int \<Rightarrow> string \<Rightarrow> catalog \<Rightarrow> manifest option \<times> catalog" where
  "get_project now stale project c =
     (let c' = prune_stale_launchers now stale c
      in (case launchers_for project c' of
            [] \<Rightarrow> None
          | l # _ \<Rightarrow> map_option ce_manifest (List.find (\<lambda>e. ce_profile e = project) (entries_of (ln_id l) c')), c'))"

definition get_projects_for_launcher :: "instant \<Rightarrow> int \<Rightarrow> string \<Rightarrow> catalog \<Rightarrow> (string \<times> manifest) list \<times> catalog" where
  "get_projects_for_launcher now stale lid c =
     (let c' = prune_stale_launchers now stale c
      in case row_get ln_id lid (ct_launchers c') of
           None \<Rightarrow> ([], c')
         | Some _ \<Rightarrow> (project_map (entries_of lid c'),
             c'\<lparr>ct_launchers := row_upd ln_id lid (\<lambda>l. l\<lparr>ln_status := ''online'', ln_seen := now\<rparr>) (ct_launchers c')\<rparr>))"

definition online_entries :: "catalog \<Rightarrow> catalog_entry list" where
  "online_entries c = filter (\<lambda>e. list_ex (\<lambda>l. ln_id l = ce_launcher e \<and> ln_status l = ''online'') (ct_launchers c)) (ct_entries c)"

definition list_project_names :: "instant \<Rightarrow> int \<Rightarrow> catalog \<Rightarrow> string list \<times> catalog" where
  "list_project_names now stale c =
     (let c' = prune_stale_launchers now stale c
      in (sort_key (Position 0) (remdups (map ce_profile (online_entries c'))), c'))"

definition active_launcher_count :: "instant \<Rightarrow> int \<Rightarrow> catalog \<Rightarrow> nat \<times> catalog" where
  "active_launcher_count now stale c =
     (let c' = prune_stale_launchers now stale c in (length (filter (\<lambda>l. ln_status l = ''online'') (ct_launchers c')), c'))"

definition tracked_project_count :: "instant \<Rightarrow> int \<Rightarrow> catalog \<Rightarrow> nat \<times> catalog" where
  "tracked_project_count now stale c =
     (let c' = prune_stale_launchers now stale c in (length (online_entries c'), c'))"

section \<open>Capability providers\<close>

record power_target =
  po_name :: string
  po_provider :: string
  po_mac :: "string option"
  po_broadcast :: "string option"

record execution_target =
  eo_name :: string
  eo_provider :: string
  eo_platform :: string
  eo_hint :: "string option"
  eo_auto :: bool

text \<open>
  The states the power providers answer: \<open>noop\<close>, \<open>wol\<close> or none. An address of twelve characters makes
  the packet, unless \<open>bytes.fromhex\<close> refuses them: then the call raises.
\<close>

definition hex_digit :: "char \<Rightarrow> bool" where
  "hex_digit c \<longleftrightarrow> c \<in> set ''0123456789abcdefABCDEF''"

definition hex_blank :: "char \<Rightarrow> bool" where
  "hex_blank c = (let n = (of_char c :: nat) in n = 32 \<or> (9 \<le> n \<and> n \<le> 13))"

fun fromhex_ok :: "string \<Rightarrow> bool" where
  "fromhex_ok [] = True"
| "fromhex_ok [c] = hex_blank c"
| "fromhex_ok (c # d # r) = (if hex_blank c then fromhex_ok (d # r) else hex_digit c \<and> hex_digit d \<and> fromhex_ok r)"

definition power_status :: "power_target \<Rightarrow> string" where
  "power_status t = (if po_provider t = ''noop'' then ''online'' else ''unknown'')"

definition mac_text :: "string \<Rightarrow> string" where
  "mac_text m = strip (filter (\<lambda>c. c \<noteq> CHR ''-'' \<and> c \<noteq> CHR '':'') m)"

definition power_wake :: "power_target \<Rightarrow> string option" where
  "power_wake t =
     (if po_provider t = ''noop'' then Some ''online''
      else if po_provider t = ''wol''
      then (case po_mac t of
              None \<Rightarrow> Some ''unknown''
            | Some m \<Rightarrow>
                (if length (mac_text m) \<noteq> 12 then Some ''unknown''
                 else if fromhex_ok (concat (replicate 16 (mac_text m))) then Some ''waking'' else None))
      else Some ''unknown'')"

record execution_status =
  es_state :: string
  es_launcher :: "string option"

definition status_for_project :: "instant \<Rightarrow> int \<Rightarrow> string \<Rightarrow> execution_target \<Rightarrow> catalog \<Rightarrow> execution_status \<times> catalog" where
  "status_for_project now stale project t c =
     (if eo_provider t \<noteq> ''windows_launcher'' then (\<lparr>es_state = ''unknown'', es_launcher = None\<rparr>, c)
      else let (r, c') = find_launcher_for_project now stale project c
           in (case r of
                 None \<Rightarrow> \<lparr>es_state = ''offline'', es_launcher = None\<rparr>
               | Some l \<Rightarrow> \<lparr>es_state = (if or_text (eo_hint t) [] \<noteq> [] \<and> Some (ln_id l) \<noteq> eo_hint t then ''degraded'' else ''online''),
                            es_launcher = Some (ln_id l)\<rparr>, c'))"

section \<open>Drift\<close>

record artifact_snapshot =
  sn_ready :: bool
  sn_label :: "string option"
  sn_updated :: "instant option"
  sn_task_state :: "string option"
  sn_task :: "string option"
  sn_task_updated :: "instant option"
  sn_artifact :: "instant option"
  sn_path :: "string option"

record drift_record =
  dw_worker :: string
  dw_status :: string
  dw_registered :: instant
  dw_heartbeat :: instant
  dw_snapshot :: "artifact_snapshot option"

type_synonym drift = "((id \<times> string) \<times> drift_record) list"

datatype drift_state = Ok | Warning | Drift | Unknown

record drift_evaluation =
  de_state :: drift_state
  de_reason :: "string option"
  de_ready :: "bool option"
  de_artifact :: "instant option"
  de_path :: "string option"
  de_task :: "string option"
  de_task_state :: "string option"

definition artifact_stale_after :: int where "artifact_stale_after = seconds (max 30 180)"
definition workspace_grace :: int where "workspace_grace = seconds (max 10 45)"

definition drift_register :: "instant \<Rightarrow> id \<Rightarrow> string \<Rightarrow> string \<Rightarrow> string \<Rightarrow> drift \<Rightarrow> drift" where
  "drift_register now sid agent worker status d =
     (let old = map_of d (sid, agent)
      in AList.update (sid, agent)
           \<lparr>dw_worker = worker, dw_status = status, dw_registered = (case old of None \<Rightarrow> now | Some r \<Rightarrow> dw_registered r),
            dw_heartbeat = now,
            dw_snapshot = (case old of None \<Rightarrow> None | Some r \<Rightarrow> if dw_worker r = worker then dw_snapshot r else None)\<rparr> d)"

definition record_heartbeat :: "instant \<Rightarrow> id \<Rightarrow> string \<Rightarrow> string \<Rightarrow> string \<Rightarrow> artifact_snapshot option \<Rightarrow> drift \<Rightarrow> drift" where
  "record_heartbeat now sid agent worker status snap d =
     AList.update (sid, agent)
       (let fresh = \<lparr>dw_worker = worker, dw_status = status, dw_registered = now, dw_heartbeat = now, dw_snapshot = snap\<rparr>
        in case map_of d (sid, agent) of
             None \<Rightarrow> fresh
           | Some r \<Rightarrow> if dw_worker r \<noteq> worker then fresh
                       else r\<lparr>dw_status := status, dw_heartbeat := now, dw_snapshot := snap\<rparr>) d"

definition clear_session :: "id \<Rightarrow> drift \<Rightarrow> drift" where
  "clear_session sid d = filter (\<lambda>((k, _), _). k \<noteq> sid) d"

abbreviation bare :: "drift_state \<Rightarrow> string \<Rightarrow> drift_evaluation" where
  "bare st why \<equiv> \<lparr>de_state = st, de_reason = Some why, de_ready = None, de_artifact = None, de_path = None, de_task = None,
                  de_task_state = None\<rparr>"

definition first_some :: "'a option list \<Rightarrow> 'a option" where
  "first_some xs = (case List.find (\<lambda>x. x \<noteq> None) xs of None \<Rightarrow> None | Some x \<Rightarrow> x)"

text \<open>\<open>a or b\<close> on optional texts: an empty text counts as absent.\<close>

definition or_some :: "string option \<Rightarrow> string option \<Rightarrow> string option" where
  "or_some a b = (if or_text a [] = [] then b else a)"

definition judged :: "drift_state \<Rightarrow> string \<Rightarrow> drift_evaluation \<Rightarrow> drift_evaluation" where
  "judged st why e = e\<lparr>de_state := st, de_reason := Some why\<rparr>"

definition evaluate_snapshot :: "instant \<Rightarrow> string \<Rightarrow> bool \<Rightarrow> artifact_snapshot \<Rightarrow> drift_evaluation" where
  "evaluate_snapshot now status overdue sn =
     (let last_at = first_some [sn_artifact sn, sn_task_updated sn, sn_updated sn];
          task_state = or_some (sn_task_state sn) (sn_label sn);
          base = \<lparr>de_state = Ok, de_reason = None, de_ready = Some (sn_ready sn), de_artifact = last_at, de_path = sn_path sn,
                  de_task = sn_task sn, de_task_state = task_state\<rparr>
      in if \<not> sn_ready sn
         then (if overdue then judged Drift ''Heartbeat is alive but the session workspace is missing.'' base
               else judged Warning ''Session workspace is still being created.'' base)
         else case last_at of
                None \<Rightarrow> (if overdue then judged Drift ''Heartbeat is alive but no shared markdown artifact has been written.'' base
                         else judged Warning ''Waiting for the first shared artifact write.'' base)
              | Some t \<Rightarrow>
                  (if status \<in> {''busy'', ''restarting''} \<and> now - t > artifact_stale_after
                   then judged Drift (''Heartbeat is alive but no shared artifact changed while the worker stayed busy for ''
                          @ dec_int (whole_seconds (now - t)) @ ''s.'') base
                   else if status = ''idle'' \<and> lower (or_text task_state []) = ''in_progress'' \<and> now - t > artifact_stale_after
                   then judged Drift (''Worker is idle but `CURRENT_TASK.md` still reports in-progress work ''
                          @ ''with no fresh artifact update.'') base
                   else base))"

definition evaluate_agent :: "instant \<Rightarrow> id \<Rightarrow> string \<Rightarrow> string \<Rightarrow> string option \<Rightarrow> drift \<Rightarrow> drift_evaluation" where
  "evaluate_agent now sid agent status worker d =
     (if status = ''offline'' then bare Unknown ''Worker is offline.''
      else case map_of d (sid, agent) of
             None \<Rightarrow> bare Unknown ''No drift telemetry received yet.''
           | Some r \<Rightarrow>
               if worker \<noteq> Some (dw_worker r) then bare Unknown ''No drift telemetry received yet.''
               else let overdue = (now - dw_registered r > workspace_grace \<and> status \<noteq> ''starting'')
                    in case dw_snapshot r of
                         None \<Rightarrow> (if overdue then bare Drift ''Heartbeat is alive but no artifact telemetry has been received.''
                                  else bare Warning ''Waiting for the first artifact heartbeat.'')
                       | Some sn \<Rightarrow> evaluate_snapshot now status overdue sn)"

end
