(* ===== verification/SessionClaim.thy ===== *)
theory SessionClaim
  imports SessionPolicy
begin

text \<open>
  How a worker gets its next job (\<open>claim_next_job\<close>): a pending job of its agent, else a queued handoff
  whose task may start, else, for the curator, a sweep of what has been idle for too long. A job left by
  a worker that was replaced goes back to the queue first.
\<close>

section \<open>Whether a task may start\<close>

definition scopes_clash :: "wtask \<Rightarrow> wtask \<Rightarrow> bool" where
  "scopes_clash t a \<longleftrightarrow>
     (wt_scope t \<noteq> None \<and> wt_scope t \<noteq> Some [] \<and> wt_scope t = wt_scope a)
     \<or> set (parse_scope_list (wt_files t)) \<inter> set (parse_scope_list (wt_files a)) \<noteq> {}"

definition can_self_claim_task :: "id \<Rightarrow> wtask \<Rightarrow> bridge \<Rightarrow> bool" where
  "can_self_claim_task sid t s \<longleftrightarrow>
     list_all (\<lambda>a. wt_session a = sid \<and> wt_state a = ''in_progress'' \<and> wt_id a \<noteq> wt_id t \<longrightarrow> \<not> scopes_clash t a) (br_tasks s)"

definition job_type_for_task :: "wtask \<Rightarrow> string" where
  "job_type_for_task t = (if wt_role t = ''verification'' then ''verification'' else ''handoff'')"

definition task_of :: "whandoff \<Rightarrow> bridge \<Rightarrow> wtask option" where
  "task_of h s = row_get wt_id (wh_task h) (br_tasks s)"

text \<open>The queued handoffs of this epoch for the agent or its role, oldest first.\<close>

definition handoffs_for :: "wsession \<Rightarrow> wagent \<Rightarrow> bridge \<Rightarrow> whandoff list" where
  "handoffs_for row a s =
     select_asc wh_created (\<lambda>h. wh_session h = ws_id row \<and> wh_state h = ''queued'' \<and> wh_epoch h = ws_epoch row
         \<and> (wh_target h = wa_name a \<or> wh_role h = wa_role a \<or> wh_role h = wa_name a)) (br_handoffs s)"

definition next_handoff :: "wsession \<Rightarrow> wagent \<Rightarrow> bridge \<Rightarrow> whandoff option" where
  "next_handoff row a s =
     List.find (\<lambda>h. case task_of h s of None \<Rightarrow> False | Some t \<Rightarrow> can_self_claim_task (ws_id row) t s) (handoffs_for row a s)"

section \<open>The context of a started job\<close>

definition job_context ::
  "instant \<Rightarrow> wsession \<Rightarrow> wagent \<Rightarrow> wjob \<Rightarrow> (wagent \<Rightarrow> wagent) \<Rightarrow> bridge \<Rightarrow> (bridge_error + job_payload option) \<times> bridge" where
  "job_context now row a j f s =
     (let recent = load_recent_transcript (ws_id row) s; summary = build_session_summary now row (wa_name a) s;
          s' = agent_upd (ws_id row) (wa_name a) f s
      in doneS (Some (to_job_payload j row summary recent s')) s')"

definition busy :: "wagent \<Rightarrow> wagent" where "busy a = a\<lparr>wa_status := ''busy''\<rparr>"

text \<open>The lease and the presence of a job that has just started.\<close>

definition occupy :: "lib \<Rightarrow> instant \<Rightarrow> wsession \<Rightarrow> wagent \<Rightarrow> wjob \<Rightarrow> bridge \<Rightarrow> (bridge_error + unit) \<times> bridge" where
  "occupy L now row a j =
     bindS (claim_orchestration_job_lease L now j (wa_name a)) (\<lambda>_ s.
       doneS () (upsert_orchestration_presence L now (ws_id row) (wa_name a) ''busy'' ORCHESTRATION_PRESENCE_TTL_SECONDS s))"

section \<open>A handoff becomes a job\<close>

definition task_job :: "lib \<Rightarrow> instant \<Rightarrow> wsession \<Rightarrow> wagent \<Rightarrow> string \<Rightarrow> whandoff \<Rightarrow> wtask \<Rightarrow> nat \<Rightarrow> wjob" where
  "task_job L now row a worker h t k =
     \<lparr>wj_id = k, wj_session = ws_id row, wj_agent = wa_name a, wj_type = job_type_for_task t, wj_message = None,
      wj_user = ''agent:'' @ wh_source h, wj_input = wh_body h, wj_status = ''in_progress'', wj_task = Some (wt_id t),
      wj_handoff = Some (wh_id h), wj_epoch = ws_epoch row, wj_rev = wt_rev t, wj_token = Some (Gen (Suc k)),
      wj_once = job_key [l_uid L (ws_id row), wt_key t, dec_int (wt_rev t), wa_name a], wj_worker = Some worker,
      wj_result = None, wj_error = None, wj_created = now, wj_claimed = Some now, wj_completed = None\<rparr>"

definition take_handoff ::
  "lib \<Rightarrow> instant \<Rightarrow> wsession \<Rightarrow> wagent \<Rightarrow> string \<Rightarrow> whandoff \<Rightarrow> wtask \<Rightarrow> bridge \<Rightarrow> wjob \<times> bridge" where
  "take_handoff L now row a worker h t s =
     (let k = br_next s; j = task_job L now row a worker h t k;
          s1 = s\<lparr>br_jobs := br_jobs s @ [j], br_next := Suc (Suc k)\<rparr>;
          s2 = task_upd (wt_id t) (\<lambda>t. t\<lparr>wt_state := ''in_progress'', wt_token := wj_token j, wt_worker := Some worker,
                                           wt_agent := Some (wa_name a), wt_updated := now, wt_moved := now\<rparr>) s1;
          s3 = handoff_upd (wh_id h) (\<lambda>h. h\<lparr>wh_state := ''claimed'', wh_claimed_by := Some k, wh_claimed := Some now,
                                             wh_updated := now\<rparr>) s2
      in (j, append_task_event now (ws_id row) t (Some h) ''task_claimed'' (wa_name a)
               [(''job_id'', JStr (l_uid L k)), (''lease_token'', JStr (l_uid L (Suc k))), (''revision'', JInt (wt_rev t))] s3))"

definition claim_ready_task_job ::
  "lib \<Rightarrow> instant \<Rightarrow> wsession \<Rightarrow> wagent \<Rightarrow> string \<Rightarrow> bridge \<Rightarrow> (bridge_error + job_payload option) \<times> bridge" where
  "claim_ready_task_job L now row a worker s =
     (case next_handoff row a s of
        None \<Rightarrow> doneS None s
      | Some h \<Rightarrow>
          (case task_of h s of
             None \<Rightarrow> doneS None s
           | Some t \<Rightarrow>
               (if wt_state t \<notin> set READY_TASK_STATES \<or> wt_epoch t \<noteq> ws_epoch row then doneS None s
                else let (j, s1) = take_handoff L now row a worker h t s
                     in bindS (occupy L now row a j) (\<lambda>_. job_context now row a j busy) s1)))"

section \<open>The curator's sweep\<close>

definition CURATION_READY_IDLE_SECONDS :: int where "CURATION_READY_IDLE_SECONDS = 180"
definition CURATION_PLANNER_IMBALANCE_SECONDS :: int where "CURATION_PLANNER_IMBALANCE_SECONDS = 180"
definition CURATION_ATTACHMENT_MISMATCH_SECONDS :: int where "CURATION_ATTACHMENT_MISMATCH_SECONDS = 60"

definition planner_bottleneck :: "instant \<Rightarrow> wsession \<Rightarrow> bridge \<Rightarrow> (string \<times> string) option" where
  "planner_bottleneck now row s =
     (let sid = ws_id row; as = agents_of sid s in
      case find_planner_agent as of
        None \<Rightarrow> None
      | Some p \<Rightarrow>
          let running = jobs_where sid (\<lambda>j. wj_agent j = wa_name p \<and> wj_status j = ''in_progress'') s in
          if running = [] \<or> list_ex (\<lambda>j. wj_claimed j = None) running then None
          else
            let j = hd (sort_key (\<lambda>j. the (wj_claimed j)) running); since = the (wj_claimed j);
                idle = map wa_name (filter (\<lambda>a. wa_name a \<noteq> wa_name p \<and> wa_name a \<noteq> ''curator'' \<and> wa_status a = ''idle'') as);
                queued = length (filter (\<lambda>h. wh_session h = sid \<and> wh_state h = ''queued'') (br_handoffs s));
                ready = length (filter (\<lambda>t. wt_session t = sid \<and> wt_state t \<in> set READY_TASK_STATES) (br_tasks s))
            in if now - since < seconds CURATION_PLANNER_IMBALANCE_SECONDS then None
               else if idle = [] then None
               else if queued = 0 \<and> ready = 0 then None
               else Some (sweep_planner_bottleneck (wj_type j) (whole_seconds (now - since)) idle ready queued, ''planner_bottleneck''))"

definition build_curator_sweep_prompt :: "instant \<Rightarrow> wsession \<Rightarrow> bridge \<Rightarrow> (string \<times> string) option" where
  "build_curator_sweep_prompt now row s =
     (let sid = ws_id row; as = agents_of sid s; threshold = now - seconds CURATION_READY_IDLE_SECONDS;
          stale_handoffs = select_asc wh_created (\<lambda>h. wh_session h = sid \<and> wh_state h = ''queued'' \<and> wh_created h \<le> threshold) (br_handoffs s);
          stale_tasks = select_asc wt_updated (\<lambda>t. wt_session t = sid \<and> wt_state t \<in> set READY_TASK_STATES \<and> wt_updated t \<le> threshold) (br_tasks s);
          attached = attached_agent_count now as
      in case (case stale_handoffs of [] \<Rightarrow> None | h # _ \<Rightarrow> map_option (Pair h) (task_of h s)) of
           Some (h, t) \<Rightarrow> Some (sweep_stale_handoff (wt_key t) (wh_target h) (trim_context_text (wh_body h) HANDOFF_PREVIEW_LIMIT), ''stale_handoff'')
         | None \<Rightarrow>
             (case stale_tasks of
                t # _ \<Rightarrow> Some (sweep_stale_task (wt_key t) (or_text (wt_agent t) ''unassigned'')
                               (trim_context_text (or_text (wt_summary t) (wt_title t)) HANDOFF_PREVIEW_LIMIT), ''stale_ready_task'')
              | [] \<Rightarrow>
                  (if ws_status row \<in> {''waiting_for_workers'', ''launching'', ''restarting_workers''}
                      \<and> 0 < attached \<and> attached < length as
                      \<and> ws_created row \<le> now - seconds CURATION_ATTACHMENT_MISMATCH_SECONDS
                   then Some (sweep_partial_attachment attached (length as) (ws_status row) (active_job_count sid s), ''partial_attachment'')
                   else planner_bottleneck now row s)))"

definition sweep_job :: "lib \<Rightarrow> instant \<Rightarrow> wsession \<Rightarrow> wagent \<Rightarrow> string \<Rightarrow> string \<Rightarrow> string \<Rightarrow> nat \<Rightarrow> wjob" where
  "sweep_job L now row a worker prompt cause k =
     \<lparr>wj_id = k, wj_session = ws_id row, wj_agent = wa_name a, wj_type = ''curation_sweep'', wj_message = None,
      wj_user = ''system:curator'', wj_input = prompt, wj_status = ''in_progress'', wj_task = None, wj_handoff = None,
      wj_epoch = ws_epoch row, wj_rev = 0, wj_token = Some (Gen (Suc k)),
      wj_once = job_key [''curation_sweep'', l_uid L (ws_id row), dec_int (ws_epoch row), cause], wj_worker = Some worker,
      wj_result = None, wj_error = None, wj_created = now, wj_claimed = Some now, wj_completed = None\<rparr>"

text \<open>The source unpacks the pair of prompt and cause; when there is nothing to sweep that pair is \<open>None\<close>.\<close>

definition claim_curator_sweep_job ::
  "lib \<Rightarrow> instant \<Rightarrow> wsession \<Rightarrow> wagent \<Rightarrow> string \<Rightarrow> bridge \<Rightarrow> (bridge_error + job_payload option) \<times> bridge" where
  "claim_curator_sweep_job L now row a worker s =
     (if \<not> is_curator_agent a then doneS None s
      else case build_curator_sweep_prompt now row s of
             None \<Rightarrow> failS UnpackNone s
           | Some (prompt, cause) \<Rightarrow>
               (if \<not> has_non_curator_busy_agent (agents_of (ws_id row) s) \<and> cause \<noteq> ''partial_attachment'' then doneS None s
                else
                  let k = br_next s; j = sweep_job L now row a worker prompt cause k;
                      s1 = agent_upd (ws_id row) (wa_name a) busy (s\<lparr>br_jobs := br_jobs s @ [j], br_next := Suc (Suc k)\<rparr>);
                      s2 = note_entry L now (ws_id row) ''bridge'' (''Curator sweep started: '' @ cause) None s1
                  in bindS (occupy L now row a j) (\<lambda>_. job_context now row a j (\<lambda>x. x)) s2))"

section \<open>Orphaned jobs\<close>

definition requeued :: "wjob \<Rightarrow> wjob" where
  "requeued j = j\<lparr>wj_status := ''pending'', wj_worker := None, wj_claimed := None, wj_completed := None\<rparr>"

definition orphan_note :: "string \<Rightarrow> string \<Rightarrow> string \<Rightarrow> string \<Rightarrow> string" where
  "orphan_note agent old worker input =
     ''Recovered orphaned job for '' @ agent @ '' after worker replacement ('' @ old @ '' -> '' @ worker @ ''): ''
     @ trim_context_text input ORPHANED_JOB_PREVIEW_LIMIT"

definition recover_orphaned_job ::
  "lib \<Rightarrow> instant \<Rightarrow> id \<Rightarrow> wagent \<Rightarrow> wjob \<Rightarrow> string \<Rightarrow> bridge \<Rightarrow> (bridge_error + bool) \<times> bridge" where
  "recover_orphaned_job L now sid a j worker s =
     (case wj_worker j of
        None \<Rightarrow> doneS False s
      | Some old \<Rightarrow>
          (if old = worker \<or> wa_worker a \<noteq> Some worker then doneS False s
           else bindS (release_orchestration_job_lease L now j (wa_name a)) (\<lambda>_ s1.
                  doneS True (note_entry L now sid ''bridge''
                    (orphan_note (wa_name a) old worker (wj_input j)) (wj_message j)
                    (job_upd (wj_id j) requeued s1))) s))"

section \<open>Claiming\<close>

definition started :: "instant \<Rightarrow> wsession \<Rightarrow> string \<Rightarrow> key \<Rightarrow> wjob \<Rightarrow> wjob" where
  "started now row worker fresh j =
     j\<lparr>wj_status := ''in_progress'', wj_claimed := Some now, wj_worker := Some worker,
        wj_token := Some (case wj_token j of None \<Rightarrow> fresh | Some t \<Rightarrow> t), wj_epoch := ws_epoch row\<rparr>"

definition start_pending_job ::
  "lib \<Rightarrow> instant \<Rightarrow> wsession \<Rightarrow> wagent \<Rightarrow> string \<Rightarrow> wjob \<Rightarrow> bridge \<Rightarrow> (bridge_error + job_payload option) \<times> bridge" where
  "start_pending_job L now row a worker j s =
     (let f = started now row worker (Gen (br_next s));
          s1 = agent_upd (ws_id row) (wa_name a) busy (job_upd (wj_id j) f (s\<lparr>br_next := Suc (br_next s)\<rparr>))
      in bindS (occupy L now row a (f j)) (\<lambda>_. job_context now row a (f j) (\<lambda>x. x)) s1)"

definition pending_jobs :: "id \<Rightarrow> string \<Rightarrow> bridge \<Rightarrow> wjob list" where
  "pending_jobs sid agent s =
     select_asc wj_created (\<lambda>j. wj_session j = sid \<and> wj_agent j = agent \<and> wj_status j = ''pending'') (br_jobs s)"

definition rest_agent :: "id \<Rightarrow> string \<Rightarrow> string \<Rightarrow> bridge \<Rightarrow> (bridge_error + job_payload option) \<times> bridge" where
  "rest_agent sid name st s = doneS None (agent_upd sid name (\<lambda>a. a\<lparr>wa_status := st\<rparr>) s)"

definition find_work ::
  "lib \<Rightarrow> instant \<Rightarrow> wsession \<Rightarrow> wagent \<Rightarrow> string \<Rightarrow> bridge \<Rightarrow> (bridge_error + job_payload option) \<times> bridge" where
  "find_work L now row a worker =
     bindS (claim_ready_task_job L now row a worker) (\<lambda>p1. case p1 of
       Some p \<Rightarrow> doneS (Some p)
     | None \<Rightarrow> bindS (if is_curator_agent a then claim_curator_sweep_job L now row a worker else doneS None) (\<lambda>p2. case p2 of
         Some p \<Rightarrow> doneS (Some p)
       | None \<Rightarrow> rest_agent (ws_id row) (wa_name a) ''idle''))"

definition claim_when_free ::
  "lib \<Rightarrow> instant \<Rightarrow> int \<Rightarrow> wsession \<Rightarrow> wagent \<Rightarrow> string \<Rightarrow> bridge \<Rightarrow> (bridge_error + job_payload option) \<times> bridge" where
  "claim_when_free L now cap row a worker s =
     (if cap \<le> int (active_job_count (ws_id row) s) \<and> \<not> is_curator_agent a
      then rest_agent (ws_id row) (wa_name a) ''idle'' s
      else case pending_jobs (ws_id row) (wa_name a) s of
             [] \<Rightarrow> find_work L now row a worker s
           | j # _ \<Rightarrow> start_pending_job L now row a worker j s)"

definition max_parallel_agents :: "desk \<Rightarrow> wsession \<Rightarrow> bridge \<Rightarrow> int" where
  "max_parallel_agents W row s =
     (case load_policy_summary W row of
        Some p \<Rightarrow> pp_parallel p | None \<Rightarrow> max 1 (int (length (agents_of (ws_id row) s))))"

definition asleep :: "wsession \<Rightarrow> bool" where
  "asleep row \<longleftrightarrow> ws_desired row = ''paused'' \<or> ws_status row \<in> {''paused'', ''awaiting_launcher'', ''waking_execution_plane''}"

definition claim_next_job ::
  "desk \<Rightarrow> instant \<Rightarrow> id \<Rightarrow> string \<Rightarrow> string \<Rightarrow> bridge \<Rightarrow> (bridge_error + job_payload option) \<times> bridge" where
  "claim_next_job W now sid agent worker = in_scope
     (bindS (require_session sid) (\<lambda>row.
        if ws_status row = ''closed'' then doneS None
        else bindS (require_agent sid agent) (\<lambda>a s.
          if asleep row
          then (if ws_desired row = ''paused'' then rest_agent sid agent ''paused'' s else doneS None s)
          else case active_job sid agent s of
                 None \<Rightarrow> claim_when_free (dk_lib W) now (max_parallel_agents W row s) row a worker s
               | Some j \<Rightarrow>
                   bindS (recover_orphaned_job (dk_lib W) now sid a j worker) (\<lambda>recovered s1.
                     if recovered then claim_when_free (dk_lib W) now (max_parallel_agents W row s1) row a worker s1
                     else rest_agent sid agent ''busy'' s1) s)))"

end
