(* ===== verification/SessionJobs.thy ===== *)
theory SessionJobs
  imports SessionClaim
begin

text \<open>
  The other requests of the workers and the operator on a session: results and failures of jobs,
  registrations and heartbeats of workers, messages from the Discord thread, restart, reset, pause and
  close. What is posted to the thread after a transaction is returned by it.
\<close>

section \<open>Results\<close>

text \<open>\<open>_validate_job_concurrency\<close>: a token, revision or epoch that the worker leaves out is not compared.\<close>

definition validate_job_concurrency :: "wjob \<Rightarrow> wsession \<Rightarrow> key option \<Rightarrow> int option \<Rightarrow> int option \<Rightarrow> bool" where
  "validate_job_concurrency j row token revision epoch \<longleftrightarrow>
     (epoch = None \<or> epoch = Some (wj_epoch j)) \<and> wj_epoch j = ws_epoch row
     \<and> (wj_token j = None \<or> token = None \<or> wj_token j = token)
     \<and> (wj_rev j = 0 \<or> revision = None \<or> revision = Some (wj_rev j))"

record report =
  rp_job :: id
  rp_session :: id
  rp_agent :: string
  rp_worker :: string
  rp_text :: string
  rp_thread :: "string option"
  rp_token :: "key option"
  rp_rev :: "int option"
  rp_epoch :: "int option"
  rp_pid :: "int option"

definition rested :: "instant \<Rightarrow> wsession \<Rightarrow> int option \<Rightarrow> string option \<Rightarrow> wagent \<Rightarrow> wagent" where
  "rested now row pid err a =
     a\<lparr>wa_status := (if ws_desired row = ''paused'' then ''paused'' else ''idle''), wa_pid := pid,
        wa_heartbeat := Some now, wa_error := err, wa_activity := None, wa_activity_at := None\<rparr>"

text \<open>The job's row takes its outcome, its lease is given back and the agent rests.\<close>

definition end_job ::
  "lib \<Rightarrow> instant \<Rightarrow> wsession \<Rightarrow> wjob \<Rightarrow> wagent \<Rightarrow> (wjob \<Rightarrow> wjob) \<Rightarrow> int option \<Rightarrow> string option \<Rightarrow> bridge
     \<Rightarrow> (bridge_error + unit) \<times> bridge" where
  "end_job L now row j a f pid err s =
     bindS (release_orchestration_job_lease L now j (wa_name a)) (\<lambda>_ s1.
       doneS () (upsert_orchestration_presence L now (ws_id row) (wa_name a)
         (if ws_desired row = ''paused'' then ''paused'' else ''idle'') ORCHESTRATION_PRESENCE_TTL_SECONDS
         (agent_upd (ws_id row) (wa_name a) (rested now row pid err) s1)))
       (job_upd (wj_id j) f s)"

definition quiet_mode :: "desk \<Rightarrow> wsession \<Rightarrow> bool" where
  "quiet_mode W row = (case load_policy_summary W row of Some p \<Rightarrow> pp_quiet p | None \<Rightarrow> True)"

definition completed :: "instant \<Rightarrow> string \<Rightarrow> wjob \<Rightarrow> wjob" where
  "completed now display j = j\<lparr>wj_status := ''completed'', wj_result := Some display, wj_completed := Some now\<rparr>"

definition apply_completion ::
  "desk \<Rightarrow> instant \<Rightarrow> report \<Rightarrow> wjob \<Rightarrow> wagent \<Rightarrow> wsession \<Rightarrow> bridge \<Rightarrow> (bridge_error + string option) \<times> bridge" where
  "apply_completion W now q j a row s =
     (let L = dk_lib W; clean = sanitize_text (rp_text q); as = agents_of (ws_id row) s;
          u = extract_control_updates as clean (rp_agent q);
          thread_text = (case rp_thread q of None \<Rightarrow> [] | Some t \<Rightarrow> sanitize_text t);
          display = (if thread_text = [] then cu_visible u else thread_text);
          message = format_agent_thread_message display (quiet_mode W row)
      in bindS (end_job L now row j a (completed now display) (rp_pid q) None) (\<lambda>_.
         bindS (queue_handoffs L now row (rp_agent q) j (cu_handoffs u)) (\<lambda>_.
         bindS (queue_discussions L now row (rp_agent q) j (cu_discussions u)) (\<lambda>_ s1.
           let s2 = record_handoff_rejections L now row (rp_agent q) j (cu_bad_handoffs u) s1;
               s3 = record_discussion_rejections L now (ws_id row) (rp_agent q) j (cu_bad_discussions u) s2;
               s4 = synchronize_completed_task now row j (rp_agent q) (cu_visible u)
                      (contains ''[[question]]'' (lower clean)) (cu_handoffs u) s3
           in doneS (if message = [] then None else Some message) s4))) s)"

text \<open>Both ways a job ends check the same things first; a stale report changes nothing.\<close>

definition on_live_job ::
  "(wjob \<Rightarrow> wagent \<Rightarrow> wsession \<Rightarrow> bridge \<Rightarrow> (bridge_error + string option) \<times> bridge) \<Rightarrow> report \<Rightarrow> bridge
     \<Rightarrow> (bridge_error + string option) \<times> bridge" where
  "on_live_job act q = in_scope
     (bindS (require_job (rp_job q) (rp_session q) (rp_agent q) (rp_worker q)) (\<lambda>j.
      bindS (require_agent (rp_session q) (rp_agent q)) (\<lambda>a.
      bindS (require_session (rp_session q)) (\<lambda>row.
        if wj_status j \<in> set TERMINAL_JOB_STATES then doneS None
        else if \<not> validate_job_concurrency j row (rp_token q) (rp_rev q) (rp_epoch q) then doneS None
        else act j a row))))"

definition complete_job :: "desk \<Rightarrow> instant \<Rightarrow> report \<Rightarrow> bridge \<Rightarrow> (bridge_error + string option) \<times> bridge" where
  "complete_job W now q = on_live_job (apply_completion W now q) q"

definition failed :: "instant \<Rightarrow> string \<Rightarrow> wjob \<Rightarrow> wjob" where
  "failed now err j = j\<lparr>wj_status := ''failed'', wj_error := Some err, wj_completed := Some now\<rparr>"

definition apply_failure ::
  "desk \<Rightarrow> instant \<Rightarrow> report \<Rightarrow> wjob \<Rightarrow> wagent \<Rightarrow> wsession \<Rightarrow> bridge \<Rightarrow> (bridge_error + string option) \<times> bridge" where
  "apply_failure W now q j a row s =
     (let L = dk_lib W; clean = sanitize_text (rp_text q)
      in bindS (end_job L now row j a (failed now clean) (rp_pid q) (Some clean)) (\<lambda>_ s1.
           let rs = queue_planner_recovery L now row j (rp_agent q) clean (synchronize_failed_task now row j (rp_agent q) clean s1)
           in doneS (Some (format_failure_thread_message (rp_agent q) clean (fst rs) (quiet_mode W row))) (snd rs)) s)"

definition fail_job :: "desk \<Rightarrow> instant \<Rightarrow> report \<Rightarrow> bridge \<Rightarrow> (bridge_error + string option) \<times> bridge" where
  "fail_job W now q = on_live_job (apply_failure W now q) q"

text \<open>What was posted to the thread is recorded with the ids that Discord gave the chunks.\<close>

definition record_outbound_thread_messages ::
  "lib \<Rightarrow> instant \<Rightarrow> id \<Rightarrow> string \<Rightarrow> (string \<times> string) list \<Rightarrow> bridge \<Rightarrow> bridge" where
  "record_outbound_thread_messages L now sid agent chunks =
     fold (\<lambda>(m, chunk). add_entry L now sid ''outbound'' agent chunk (Some m)) chunks"

section \<open>Workers\<close>

definition enlisted :: "instant \<Rightarrow> wsession \<Rightarrow> string \<Rightarrow> int option \<Rightarrow> wagent \<Rightarrow> wagent" where
  "enlisted now row worker pid a =
     a\<lparr>wa_worker := Some worker, wa_pid := pid, wa_status := (if ws_desired row = ''paused'' then ''paused'' else ''idle''),
        wa_heartbeat := Some now, wa_error := None, wa_activity := None, wa_activity_at := None\<rparr>"

definition brought_online :: "wsession \<Rightarrow> wsession" where
  "brought_online r = r\<lparr>ws_execution := ''online'', ws_status := (if ws_desired r = ''paused'' then ''paused'' else ''launching'')\<rparr>"

definition register_worker ::
  "lib \<Rightarrow> instant \<Rightarrow> id \<Rightarrow> string \<Rightarrow> string \<Rightarrow> int option \<Rightarrow> bridge \<Rightarrow> (bridge_error + string option) \<times> bridge" where
  "register_worker L now sid agent worker pid = in_scope
     (bindS (require_session sid) (\<lambda>row.
      bindS (require_agent sid agent) (\<lambda>a s.
        let s1 = session_upd sid brought_online (agent_upd sid agent (enlisted now row worker pid) s);
            (message, s2) = refresh_session_startup_state now sid (ws_status row) s1;
            s3 = note_entry L now sid agent (''Worker '' @ worker @ '' registered for agent '' @ agent @ ''.'') None s2
        in doneS message (upsert_orchestration_presence L now sid agent
             (if ws_desired row = ''paused'' then ''paused'' else ''idle'') ORCHESTRATION_PRESENCE_TTL_SECONDS s3))))"

definition beaten :: "instant \<Rightarrow> string \<Rightarrow> string \<Rightarrow> int option \<Rightarrow> string option \<Rightarrow> wagent \<Rightarrow> wagent" where
  "beaten now worker status pid activity a =
     (let st = (if wa_desired a = ''paused'' \<and> status \<noteq> ''busy'' then ''paused'' else status);
          line = strip (sanitize_text (or_text activity [])); shown = (st = ''busy'' \<and> line \<noteq> [])
      in a\<lparr>wa_worker := Some worker, wa_status := st, wa_pid := pid, wa_heartbeat := Some now,
            wa_activity := (if shown then Some line else None), wa_activity_at := (if shown then Some now else None)\<rparr>)"

text \<open>The answer of the transaction: whether the status message in the thread is due.\<close>

definition status_due :: "instant \<Rightarrow> wagent \<Rightarrow> wagent \<Rightarrow> wsession \<Rightarrow> wsession \<Rightarrow> bridge \<Rightarrow> bool" where
  "status_due now old new before after s \<longleftrightarrow>
     (wa_status old \<noteq> ''busy'' \<and> wa_status new = ''busy'') \<or> (wa_status old = ''busy'' \<and> wa_status new \<noteq> ''busy'')
     \<or> ws_status before \<noteq> ws_status after
     \<or> ((has_busy_agent (agents_of (ws_id before) s) \<or> 0 < active_job_count (ws_id before) s)
        \<and> (case ws_announced after of None \<Rightarrow> True | Some t \<Rightarrow> seconds 60 \<le> now - t))"

definition worker_heartbeat ::
  "lib \<Rightarrow> instant \<Rightarrow> id \<Rightarrow> string \<Rightarrow> string \<Rightarrow> string \<Rightarrow> int option \<Rightarrow> string option \<Rightarrow> bridge
     \<Rightarrow> (bridge_error + bool) \<times> bridge" where
  "worker_heartbeat L now sid agent worker status pid activity = in_scope
     (bindS (require_session sid) (\<lambda>row.
      bindS (require_agent sid agent) (\<lambda>a s.
        let f = beaten now worker status pid activity;
            s1 = upsert_orchestration_presence L now sid agent (wa_status (f a)) ORCHESTRATION_PRESENCE_TTL_SECONDS
                   (agent_upd sid agent f s)
        in bindS (case active_job sid agent s1 of
                    None \<Rightarrow> doneS () | Some j \<Rightarrow> heartbeat_orchestration_job_lease L now j agent) (\<lambda>_ s2.
             let s3 = snd (refresh_session_startup_state now sid (ws_status row) s2)
             in bindS (require_session sid) (\<lambda>row' s4. doneS (status_due now a (f a) row row' s4) s4) s3) s1)))"

section \<open>The operator\<close>

definition routing_label :: "string \<Rightarrow> string" where
  "routing_label kind =
     (if kind = ''orchestration'' then ''Planner-first orchestration''
      else if kind = ''routing'' then ''LLM-assisted routing''
      else if kind = ''handoff_repair'' then ''Planner handoff repair'' else ''Planner coordination'')"

definition routing_note :: "routing \<Rightarrow> string" where
  "routing_note rt = routing_label (rt_type rt) @ '' routed the request to '' @ rt_agent rt @ '' as `'' @ rt_type rt @ ''` work.''"

record operator_message =
  om_id :: string
  om_user :: string
  om_content :: string
  om_author :: string
  om_reply :: "string option"
  om_reply_content :: "string option"

definition route_discord_message ::
  "lib \<Rightarrow> instant \<Rightarrow> string \<Rightarrow> operator_message \<Rightarrow> bridge \<Rightarrow> (bridge_error + string) \<times> bridge" where
  "route_discord_message L now thread m = in_scope
     (bindS (thread_session thread) (\<lambda>row s.
        if ws_status row = ''closed'' then failS SessionClosed s
        else if ws_desired row = ''paused'' \<or> ws_status row = ''paused'' then failS SessionPaused s
        else case resolve_agent (ws_id row) (om_content m) (om_reply m) (om_reply_content m) s of
               Inl e \<Rightarrow> failS e s
             | Inr rt \<Rightarrow>
                 let sid = ws_id row;
                     s1 = add_entry L now sid ''inbound'' (om_author m) (rt_body rt) (Some (om_id m)) s;
                     s2 = (if rt_type rt = ''message'' then s1
                           else note_entry L now sid ''bridge''
                                  (routing_note rt)
                                  (Some (om_id m)) s1)
                 in doneS (rt_agent rt) (queue_job now sid (rt_agent rt) (rt_type rt) (Some (om_id m)) (om_user m) (rt_input rt)
                      (ws_epoch row) (job_key [''discord'', l_uid L sid, om_id m, rt_agent rt]) s2)))"

definition enqueue_restart ::
  "lib \<Rightarrow> instant \<Rightarrow> id \<Rightarrow> string \<Rightarrow> string \<Rightarrow> bridge \<Rightarrow> (bridge_error + job_payload option) \<times> bridge" where
  "enqueue_restart L now sid agent by_whom = in_scope
     (bindS (require_session sid) (\<lambda>row s.
        case agent_row sid agent s of
          None \<Rightarrow> failS (UnknownAgent agent) s
        | Some a \<Rightarrow>
            let s1 = queue_job now sid agent ''restart'' None by_whom (''Restart requested by '' @ by_whom) (ws_epoch row)
                       (job_key [''restart'', l_uid L sid, agent, by_whom]) s;
                s2 = note_entry L now sid by_whom (''Restart requested for agent '' @ agent @ ''.'') None s1
            in job_context now row a (last (br_jobs s1)) (\<lambda>x. x) s2))"

definition cancelled :: "instant \<Rightarrow> string \<Rightarrow> wjob \<Rightarrow> wjob" where
  "cancelled now why j = j\<lparr>wj_status := ''cancelled'', wj_completed := Some now, wj_error := Some why\<rparr>"

text \<open>The jobs of a list are cancelled in turn, each after its lease was given back.\<close>

fun cancel_jobs :: "lib \<Rightarrow> instant \<Rightarrow> string \<Rightarrow> wjob list \<Rightarrow> bridge \<Rightarrow> (bridge_error + unit) \<times> bridge" where
  "cancel_jobs L now why [] s = doneS () s"
| "cancel_jobs L now why (j # js) s =
     bindS (release_orchestration_job_lease L now j (wj_agent j)) (\<lambda>_ s1.
       cancel_jobs L now why js (job_upd (wj_id j) (cancelled now why) s1)) s"

section \<open>Reset\<close>

definition reset_task :: "instant \<Rightarrow> int \<Rightarrow> wtask \<Rightarrow> wtask" where
  "reset_task now epoch t =
     t\<lparr>wt_token := None, wt_worker := None, wt_epoch := epoch,
        wt_state := (if wt_state t \<in> {''in_progress'', ''review'', ''verify'', ''ready''} then ''ready'' else wt_state t),
        wt_updated := now, wt_moved := now\<rparr>"

definition reset_handoff :: "instant \<Rightarrow> int \<Rightarrow> whandoff \<Rightarrow> whandoff" where
  "reset_handoff now epoch h =
     h\<lparr>wh_state := (if wh_state h = ''claimed'' then ''queued'' else wh_state h), wh_epoch := epoch, wh_updated := now\<rparr>"

definition cancel_pending :: "instant \<Rightarrow> id \<Rightarrow> string \<Rightarrow> bridge \<Rightarrow> bridge" where
  "cancel_pending now sid why s =
     s\<lparr>br_jobs := map (\<lambda>j. if wj_session j = sid \<and> wj_status j = ''pending'' then cancelled now why j else j) (br_jobs s)\<rparr>"

definition restart_agent :: "lib \<Rightarrow> instant \<Rightarrow> id \<Rightarrow> int \<Rightarrow> string \<Rightarrow> wagent \<Rightarrow> bridge \<Rightarrow> bridge" where
  "restart_agent L now sid epoch by_whom a s =
     queue_job now sid (wa_name a) ''restart'' None by_whom (''Reset requested by '' @ by_whom) epoch
       (job_key [''reset'', l_uid L sid, wa_name a, by_whom, dec_int epoch])
       (upsert_orchestration_presence L now sid (wa_name a) ''idle'' 60 s)"

definition reset_session :: "lib \<Rightarrow> instant \<Rightarrow> id \<Rightarrow> string \<Rightarrow> bridge \<Rightarrow> (bridge_error + unit) \<times> bridge" where
  "reset_session L now sid by_whom = in_scope
     (bindS (require_session sid) (\<lambda>row s.
        let epoch = ws_epoch row + 1; why = ''Cancelled by session reset.'';
            s1 = cancel_pending now sid why (session_upd sid (\<lambda>r. r\<lparr>ws_epoch := epoch\<rparr>) s)
        in bindS (cancel_jobs L now why (jobs_where sid (\<lambda>j. wj_status j = ''in_progress'') s1)) (\<lambda>_ s2.
             let s3 = s2\<lparr>br_tasks := map (\<lambda>t. if wt_session t = sid then reset_task now epoch t else t) (br_tasks s2),
                         br_handoffs := map (\<lambda>h. if wh_session h = sid then reset_handoff now epoch h else h) (br_handoffs s2)\<rparr>;
                 s4 = fold (restart_agent L now sid epoch by_whom) (agents_of sid s3) s3
             in doneS () (note_entry L now sid by_whom ''Session reset requested.'' None s4)) s1))"

section \<open>Pause and close\<close>

definition add_operation ::
  "instant \<Rightarrow> id \<Rightarrow> string \<Rightarrow> string \<Rightarrow> string \<Rightarrow> obj \<Rightarrow> instant option \<Rightarrow> bridge \<Rightarrow> bridge" where
  "add_operation now sid kind status by_whom input finished s =
     s\<lparr>br_operations := br_operations s @ [\<lparr>wo_id = br_next s, wo_session = sid, wo_type = kind, wo_status = status,
          wo_by = by_whom, wo_input = input, wo_result = None, wo_created = now, wo_completed = finished\<rparr>], br_next := Suc (br_next s)\<rparr>"

definition paused_agent :: "string \<Rightarrow> wagent \<Rightarrow> wagent" where
  "paused_agent why a = a\<lparr>wa_desired := ''paused'', wa_paused := Some why,
     wa_status := (if wa_status a = ''busy'' then ''busy'' else ''paused'')\<rparr>"

definition resumed_agent :: "wagent \<Rightarrow> wagent" where
  "resumed_agent a = a\<lparr>wa_desired := ''ready'', wa_paused := None,
     wa_status := (if wa_status a = ''paused'' then ''starting'' else wa_status a)\<rparr>"

definition each_agent :: "id \<Rightarrow> (wagent \<Rightarrow> wagent) \<Rightarrow> bridge \<Rightarrow> bridge" where
  "each_agent sid f s = s\<lparr>br_agents := map (\<lambda>a. if wa_session a = sid then f a else a) (br_agents s)\<rparr>"

definition pause :: "lib \<Rightarrow> instant \<Rightarrow> id \<Rightarrow> string \<Rightarrow> string option \<Rightarrow> bridge \<Rightarrow> (bridge_error + unit) \<times> bridge" where
  "pause L now sid by_whom cause = in_scope
     (bindS (require_session sid) (\<lambda>row s.
        let why = or_text cause (''Paused by '' @ by_whom);
            s1 = session_upd sid (\<lambda>r. r\<lparr>ws_desired := ''paused'', ws_status := ''paused'', ws_pause := Some why\<rparr>) s;
            s2 = cancel_pending now sid ''Cancelled while session was paused.'' (each_agent sid (paused_agent why) s1);
            s3 = add_operation now sid ''pause'' ''completed'' by_whom [(''reason'', JStr why)] (Some now) s2
        in doneS () (note_entry L now sid by_whom (''Session paused. Reason: '' @ why) None s3)))"

text \<open>The first transaction of \<open>resume\<close>; waking the execution plane follows it.\<close>

definition resume_request :: "lib \<Rightarrow> instant \<Rightarrow> id \<Rightarrow> string \<Rightarrow> bridge \<Rightarrow> (bridge_error + unit) \<times> bridge" where
  "resume_request L now sid by_whom = in_scope
     (bindS (require_session sid) (\<lambda>row s.
        let s1 = session_upd sid (\<lambda>r. r\<lparr>ws_desired := ''ready'', ws_pause := None\<rparr>) s;
            s2 = add_operation now sid ''resume'' ''pending'' by_whom [] None (each_agent sid resumed_agent s1)
        in doneS () (note_entry L now sid by_whom ''Session resume requested.'' None s2)))"

definition close_agents :: "lib \<Rightarrow> instant \<Rightarrow> id \<Rightarrow> bridge \<Rightarrow> bridge" where
  "close_agents L now sid s =
     fold (\<lambda>a s. upsert_orchestration_presence L now sid (wa_name a) ''offline'' 60
             (agent_upd sid (wa_name a) (\<lambda>r. r\<lparr>wa_status := ''offline'', wa_desired := ''closed''\<rparr>) s)) (agents_of sid s) s"

definition close_session_row ::
  "lib \<Rightarrow> instant \<Rightarrow> wsession \<Rightarrow> string \<Rightarrow> string \<Rightarrow> string \<Rightarrow> bridge \<Rightarrow> (bridge_error + unit) \<times> bridge" where
  "close_session_row L now row by_whom content why s =
     (let sid = ws_id row;
          s1 = session_upd sid (\<lambda>r. r\<lparr>ws_status := ''closed'', ws_desired := ''closed'', ws_closed := Some now\<rparr>) s;
          s2 = close_agents L now sid s1
      in bindS (cancel_jobs L now why (jobs_where sid (\<lambda>j. wj_status j \<in> set LIVE_JOB_STATES) s2)) (\<lambda>_ s3.
           doneS () (note_entry L now sid by_whom content None s3)) s2)"

definition close_session :: "lib \<Rightarrow> instant \<Rightarrow> string \<Rightarrow> string \<Rightarrow> bridge \<Rightarrow> (bridge_error + unit) \<times> bridge" where
  "close_session L now thread by_whom = in_scope
     (bindS (thread_session thread) (\<lambda>row. close_session_row L now row by_whom ''Session closed from Discord.'' ''Session closed.''))"

definition cleanup_session_thread ::
  "lib \<Rightarrow> instant \<Rightarrow> string \<Rightarrow> string \<Rightarrow> string \<Rightarrow> bridge \<Rightarrow> (bridge_error + unit) \<times> bridge" where
  "cleanup_session_thread L now thread by_whom cause = in_scope
     (bindS (thread_session thread) (\<lambda>row.
        if ws_closed row = None then close_session_row L now row by_whom cause ''Session cleaned up.'' else doneS ()))"

end
