(* ===== verification/SessionReply.thy ===== *)
theory SessionReply
  imports Catalog SessionJobs
begin

text \<open>
  The answers of \<open>SessionService\<close> about a session: its row with agents, tasks and queued handoffs, the
  drift of each agent, the targets it runs on, its policy and the operation under way.
\<close>

section \<open>Agents\<close>

record agent_reply =
  ag_row :: wagent
  ag_drift :: drift_evaluation

definition to_agent_response :: "instant \<Rightarrow> drift \<Rightarrow> wagent \<Rightarrow> agent_reply" where
  "to_agent_response now d a =
     \<lparr>ag_row = a, ag_drift = evaluate_agent now (wa_session a) (wa_name a) (wa_status a) (wa_worker a) d\<rparr>"

text \<open>Agents in drift, and sessions that have one, over the sessions not closed.\<close>

definition drifting :: "instant \<Rightarrow> drift \<Rightarrow> wagent \<Rightarrow> bool" where
  "drifting now d a \<longleftrightarrow> de_state (ag_drift (to_agent_response now d a)) = Drift"

definition get_drift_overview :: "instant \<Rightarrow> drift \<Rightarrow> bridge \<Rightarrow> nat \<times> nat" where
  "get_drift_overview now d s =
     (let live = filter (\<lambda>r. ws_closed r = None) (br_sessions s);
          per = map (\<lambda>r. length (filter (drifting now d) (agents_of (ws_id r) s))) live
      in (sum_list per, length (filter (\<lambda>n. 0 < n) per)))"

section \<open>Tasks and handoffs\<close>

record task_summary =
  ts_id :: id
  ts_key :: string
  ts_title :: string
  ts_role :: string
  ts_agent :: "string option"
  ts_source :: "string option"
  ts_scope :: "string option"
  ts_files :: "string list"
  ts_state :: string
  ts_rev :: int
  ts_epoch :: int
  ts_summary :: "string option"
  ts_body :: string
  ts_brief :: "string option"
  ts_log :: "string option"
  ts_created :: instant
  ts_updated :: instant
  ts_moved :: instant

definition to_task_summary :: "wtask \<Rightarrow> task_summary" where
  "to_task_summary t =
     \<lparr>ts_id = wt_id t, ts_key = wt_key t, ts_title = wt_title t, ts_role = wt_role t, ts_agent = wt_agent t,
      ts_source = wt_source t, ts_scope = wt_scope t,
      ts_files = (case wt_files t of None \<Rightarrow> [] | Some fs \<Rightarrow> filter (\<lambda>f. strip f \<noteq> []) fs),
      ts_state = wt_state t, ts_rev = wt_rev t, ts_epoch = wt_epoch t, ts_summary = wt_summary t, ts_body = wt_body t,
      ts_brief = wt_brief t, ts_log = wt_log t, ts_created = wt_created t, ts_updated = wt_updated t, ts_moved = wt_moved t\<rparr>"

record handoff_summary =
  hs_id :: id
  hs_task :: id
  hs_key :: string
  hs_source :: string
  hs_target :: string
  hs_role :: string
  hs_state :: string
  hs_rev :: int
  hs_epoch :: int
  hs_body :: string
  hs_created :: instant
  hs_claimed :: "instant option"
  hs_consumed :: "instant option"

definition to_handoff_summary :: "bridge \<Rightarrow> whandoff \<Rightarrow> handoff_summary" where
  "to_handoff_summary s h =
     \<lparr>hs_id = wh_id h, hs_task = wh_task h, hs_key = (case task_of h s of None \<Rightarrow> [] | Some t \<Rightarrow> wt_key t), hs_source = wh_source h,
      hs_target = wh_target h, hs_role = wh_role h, hs_state = wh_state h, hs_rev = wh_rev h, hs_epoch = wh_epoch h,
      hs_body = wh_body h, hs_created = wh_created h, hs_claimed = wh_claimed h, hs_consumed = wh_consumed h\<rparr>"

section \<open>Targets and operations\<close>

record power_summary =
  ps_name :: string
  ps_provider :: string
  ps_state :: string

definition load_power_target_summary :: "power_target list \<Rightarrow> wsession \<Rightarrow> power_summary option" where
  "load_power_target_summary ps row =
     (case ws_power_target row of
        None \<Rightarrow> None
      | Some n \<Rightarrow> if n = [] then None
                  else map_option (\<lambda>t. \<lparr>ps_name = po_name t, ps_provider = po_provider t, ps_state = ws_power row\<rparr>) (row_get po_name n ps))"

record execution_summary =
  xs_name :: string
  xs_provider :: string
  xs_platform :: string
  xs_state :: string
  xs_launcher :: "string option"
  xs_auto :: bool

definition load_execution_target_summary :: "execution_target list \<Rightarrow> wsession \<Rightarrow> execution_summary option" where
  "load_execution_target_summary xs row =
     (case ws_exec_target row of
        None \<Rightarrow> None
      | Some n \<Rightarrow> if n = [] then None
                  else map_option (\<lambda>t. \<lparr>xs_name = eo_name t, xs_provider = eo_provider t, xs_platform = eo_platform t,
                         xs_state = ws_execution row, xs_launcher = ws_launcher row, xs_auto = eo_auto t\<rparr>) (row_get eo_name n xs))"

text \<open>The newest operation that is pending or running.\<close>

definition load_active_operation :: "bridge \<Rightarrow> wsession \<Rightarrow> session_operation option" where
  "load_active_operation s row =
     (case select_desc wo_created (\<lambda>p. wo_session p = ws_id row \<and> wo_status p \<in> {''pending'', ''running''}) (br_operations s) of
        [] \<Rightarrow> None | p # _ \<Rightarrow> Some p)"

definition load_policy_row :: "desk \<Rightarrow> wsession \<Rightarrow> policy_row option" where
  "load_policy_row W row =
     (case ws_preset row of
        None \<Rightarrow> None | Some profile \<Rightarrow> get_policy_response (ws_id row) (dk_profiles W profile) (dk_policies W))"

section \<open>The summary of a session\<close>

record session_summary =
  ss_row :: wsession
  ss_power :: "power_summary option"
  ss_execution :: "execution_summary option"
  ss_policy :: "policy_row option"
  ss_operation :: "session_operation option"
  ss_pending :: nat
  ss_active :: nat
  ss_tasks :: "task_summary list"
  ss_handoffs :: "handoff_summary list"
  ss_agents :: "agent_reply list"

definition to_summary_response ::
  "desk \<Rightarrow> instant \<Rightarrow> power_target list \<Rightarrow> execution_target list \<Rightarrow> drift \<Rightarrow> wsession \<Rightarrow> bridge \<Rightarrow> session_summary" where
  "to_summary_response W now ps xs d row s =
     (let sid = ws_id row in
      \<lparr>ss_row = row, ss_power = load_power_target_summary ps row, ss_execution = load_execution_target_summary xs row,
       ss_policy = load_policy_row W row, ss_operation = load_active_operation s row,
       ss_pending = length (jobs_where sid (\<lambda>j. wj_status j = ''pending'') s),
       ss_active = active_job_count sid s,
       ss_tasks = map to_task_summary (select_asc wt_created (\<lambda>t. wt_session t = sid) (br_tasks s)),
       ss_handoffs = map (to_handoff_summary s)
          (select_asc wh_created (\<lambda>h. wh_session h = sid \<and> wh_state h = ''queued'') (br_handoffs s)),
       ss_agents = map (to_agent_response now d) (agents_of sid s)\<rparr>)"

section \<open>A launcher's share\<close>

record session_launch =
  la_session :: id
  la_project :: string
  la_target :: "string option"
  la_preset :: string
  la_workdir :: string
  la_status :: string
  la_agents :: "agent_reply list"

definition to_launch_response :: "instant \<Rightarrow> drift \<Rightarrow> wsession \<Rightarrow> bridge \<Rightarrow> session_launch" where
  "to_launch_response now d row s =
     \<lparr>la_session = ws_id row, la_project = ws_project row, la_target = ws_target row, la_preset = or_text (ws_preset row) [],
      la_workdir = ws_workdir row, la_status = ws_status row, la_agents = map (to_agent_response now d) (agents_of (ws_id row) s)\<rparr>"

end
