(* ===== verification/Plant.thy ===== *)
theory Plant
  imports SessionReply
begin

text \<open>
  Sessions and the machines they run on. The state of a bridge process beyond the session tables: the
  launcher catalog, the drift monitor, power and execution targets, session policies and project finds.
  Here sessions are created and handed to launchers, and project finds wait for a launcher's answer.
\<close>

section \<open>State\<close>

record find_candidate =
  fc_path :: string
  fc_name :: string
  fc_why :: "string option"
  fc_score :: "json option"

record find_row =
  fd_id :: id
  fd_preset :: string
  fd_query :: string
  fd_by :: string
  fd_guild :: string
  fd_channel :: string
  fd_status :: string
  fd_launcher :: "string option"
  fd_path :: "string option"
  fd_name :: "string option"
  fd_reason :: "string option"
  fd_confidence :: "json option"
  fd_candidates :: "find_candidate list"
  fd_error :: "string option"
  fd_session :: "id option"
  fd_thread :: "string option"
  fd_created :: instant
  fd_claimed :: "instant option"
  fd_completed :: "instant option"

record verify_artifact =
  va_kind :: string
  va_label :: string
  va_path :: string
  va_created :: instant

record review_decision =
  vd_decision :: string
  vd_reviewer :: string
  vd_note :: "string option"
  vd_created :: instant

record verify_run =
  vr_id :: id
  vr_session :: id
  vr_by :: string
  vr_profile :: string
  vr_mode :: string
  vr_provider :: string
  vr_workdir :: string
  vr_dir :: string
  vr_timeout :: int
  vr_command :: "string list"
  vr_status :: string
  vr_review :: bool
  vr_launcher :: "string option"
  vr_summary :: "string option"
  vr_error :: "string option"
  vr_artifacts :: "verify_artifact list"
  vr_decisions :: "review_decision list"
  vr_created :: instant
  vr_claimed :: "instant option"
  vr_completed :: "instant option"
  vr_reviewed :: "instant option"

record plant =
  pl_bridge :: bridge
  pl_catalog :: catalog
  pl_drift :: drift
  pl_power :: "power_target list"
  pl_exec :: "execution_target list"
  pl_policies :: policies
  pl_finds :: "find_row list"
  pl_runs :: "verify_run list"

datatype plant_error =
  NoProfiles | UnknownProfile string | SeveralProfiles | WrongGuild | WrongChannel | UserNotAllowed
  | NoFinderRoots string | FindNotFound | FindOwned | EmptyWorkdir | SessionGone | NotHexAddress
  | TargetUnmatched string | TargetPending string | TargetUnresolved string string | TargetMismatch string
  | ProfileGone string | VerifyDisabled string | ModeMissing string | RunMissing | RunOwned string | BadDecision | NothingToReview
  | PolicyMissing | PolicyRefused policy_failure | OnBridge bridge_error

text \<open>The settings of the process and what it takes from outside.\<close>

record settings =
  se_lib :: lib
  se_stale :: int

abbreviation catalog_do :: "(catalog \<Rightarrow> 'a \<times> catalog) \<Rightarrow> plant \<Rightarrow> 'a \<times> plant" where
  "catalog_do f s \<equiv> (case f (pl_catalog s) of (x, c) \<Rightarrow> (x, s\<lparr>pl_catalog := c\<rparr>))"

definition on_bridge :: "(bridge \<Rightarrow> bridge) \<Rightarrow> plant \<Rightarrow> plant" where
  "on_bridge f s = s\<lparr>pl_bridge := f (pl_bridge s)\<rparr>"

text \<open>What the session service sees of the catalog and the policies.\<close>

definition desk_of :: "settings \<Rightarrow> instant \<Rightarrow> plant \<Rightarrow> desk" where
  "desk_of G now s = \<lparr>dk_lib = se_lib G, dk_profiles = (\<lambda>p. map_option mf_policy (fst (get_project now (se_stale G) p (pl_catalog s)))),
                     dk_policies = pl_policies s\<rparr>"

definition summary_of :: "settings \<Rightarrow> instant \<Rightarrow> wsession \<Rightarrow> plant \<Rightarrow> session_summary" where
  "summary_of G now row s = to_summary_response (desk_of G now s) now (pl_power s) (pl_exec s) (pl_drift s) row (pl_bridge s)"

definition get_session_summary :: "settings \<Rightarrow> instant \<Rightarrow> id \<Rightarrow> plant \<Rightarrow> plant_error + session_summary" where
  "get_session_summary G now sid s =
     (case session_row sid (pl_bridge s) of None \<Rightarrow> Inl (OnBridge SessionNotFound) | Some r \<Rightarrow> Inr (summary_of G now r s))"

definition get_session_summary_by_thread :: "settings \<Rightarrow> instant \<Rightarrow> string \<Rightarrow> plant \<Rightarrow> plant_error + session_summary" where
  "get_session_summary_by_thread G now thread s =
     (case row_get ws_thread thread (br_sessions (pl_bridge s)) of
        None \<Rightarrow> Inl (OnBridge SessionNotFound) | Some r \<Rightarrow> Inr (summary_of G now r s))"

definition get_session_exists_by_thread_id :: "string \<Rightarrow> plant \<Rightarrow> bool" where
  "get_session_exists_by_thread_id thread s \<longleftrightarrow> row_get ws_thread thread (br_sessions (pl_bridge s)) \<noteq> None"

section \<open>The profile of a request\<close>

definition resolve_manifest :: "settings \<Rightarrow> instant \<Rightarrow> string option \<Rightarrow> plant \<Rightarrow> (plant_error + manifest \<times> string) \<times> plant" where
  "resolve_manifest G now preset s =
     (let st = se_stale G; (names, s1) = catalog_do (list_project_names now st) s;
          pick = (\<lambda>p. case catalog_do (get_project now st p) s1 of
                    (Some m, s2) \<Rightarrow> (Inr (m, p), s2) | (None, s2) \<Rightarrow> (Inl (UnknownProfile p), s2))
      in if names = [] then (Inl NoProfiles, s1)
         else if or_text preset [] \<noteq> [] then pick (or_text preset [])
         else case names of
                [n] \<Rightarrow> pick n
              | _ \<Rightarrow> if ''sample'' \<in> set names then pick ''sample'' else (Inl SeveralProfiles, s1))"

definition validate_session_start :: "manifest \<Rightarrow> string \<Rightarrow> string \<Rightarrow> string \<Rightarrow> plant_error option" where
  "validate_session_start m user guild channel =
     (if mf_guild m \<noteq> guild then Some WrongGuild
      else if mf_channel m \<noteq> channel then Some WrongChannel
      else if user \<notin> set (mf_users m) then Some UserNotAllowed else None)"

section \<open>Creating a session\<close>

definition fresh_session ::
  "instant \<Rightarrow> string \<Rightarrow> string \<Rightarrow> string \<Rightarrow> manifest \<Rightarrow> string \<Rightarrow> string \<Rightarrow> string \<Rightarrow> id \<Rightarrow> wsession" where
  "fresh_session now project target preset m user thread workdir k =
     \<lparr>ws_id = k, ws_project = project, ws_target = Some target, ws_preset = Some preset, ws_power_target = None,
      ws_exec_target = None, ws_thread = thread, ws_guild = mf_guild m, ws_channel = mf_channel m, ws_workdir = workdir,
      ws_status = ''requested'', ws_desired = ''ready'', ws_power = ''unknown'', ws_execution = ''unknown'', ws_pause = None,
      ws_recovered = None, ws_recovery = None, ws_policy_version = 1, ws_epoch = 1, ws_by = user, ws_launcher = None,
      ws_message = None, ws_hash = None, ws_announced = None, ws_send_ready = mf_ready m, ws_created = now, ws_closed = None\<rparr>"

definition fresh_agent :: "id \<Rightarrow> agent_manifest \<Rightarrow> wagent" where
  "fresh_agent k a =
     \<lparr>wa_session = k, wa_name = am_name a, wa_cli = am_cli a, wa_role = am_role a, wa_default = am_default a,
      wa_status = ''starting'', wa_desired = ''ready'', wa_paused = None, wa_heartbeat = None, wa_pid = None, wa_worker = None,
      wa_error = None, wa_activity = None, wa_activity_at = None\<rparr>"

definition creation_note :: "string \<Rightarrow> string \<Rightarrow> string \<Rightarrow> string \<Rightarrow> string" where
  "creation_note project target preset workdir =
     ''Session created with title '' @ project @ '' targeting '' @ target @ '' using profile '' @ preset @ ''. Workdir: '' @ workdir"

text \<open>The Discord thread was opened before the transaction: \<open>thread\<close> is its id.\<close>

definition create_session_with_manifest ::
  "settings \<Rightarrow> instant \<Rightarrow> string \<Rightarrow> string \<Rightarrow> string \<Rightarrow> manifest \<Rightarrow> string \<Rightarrow> string option \<Rightarrow> string \<Rightarrow> plant
     \<Rightarrow> (plant_error + session_summary) \<times> plant" where
  "create_session_with_manifest G now project target preset m user workdir_override thread s =
     (let workdir = strip (or_text workdir_override (mf_workdir m)) in
      if workdir = [] then (Inl EmptyWorkdir, s)
      else
        let b = pl_bridge s; k = br_next b; row = fresh_session now project target preset m user thread workdir k;
            b1 = b\<lparr>br_sessions := br_sessions b @ [row], br_next := Suc k, br_agents := br_agents b @ map (fresh_agent k) (mf_agents m)\<rparr>;
            b2 = note_entry (se_lib G) now k ''bridge'' (creation_note project target preset workdir) None b1;
            s1 = s\<lparr>pl_bridge := b2\<rparr>
        in (Inr (summary_of G now row s1), s1))"

text \<open>Without a start workflow a session is created at once.\<close>

definition create_session_from_project ::
  "settings \<Rightarrow> instant \<Rightarrow> string \<Rightarrow> string option \<Rightarrow> string option \<Rightarrow> string \<Rightarrow> string \<Rightarrow> string \<Rightarrow> string option \<Rightarrow> string \<Rightarrow> plant
     \<Rightarrow> (plant_error + session_summary) \<times> plant" where
  "create_session_from_project G now project target preset user guild channel workdir_override thread s =
     (case resolve_manifest G now preset s of
        (Inl e, s1) \<Rightarrow> (Inl e, s1)
      | (Inr (m, selected), s1) \<Rightarrow>
          (case validate_session_start m user guild channel of
             Some e \<Rightarrow> (Inl e, s1)
           | None \<Rightarrow> create_session_with_manifest G now project (or_text target project) selected m user workdir_override thread s1))"

section \<open>Launches\<close>

definition LAUNCHABLE_STATES :: "string list" where
  "LAUNCHABLE_STATES = [''requested'', ''waiting_for_workers'', ''launching'', ''awaiting_launcher'', ''restarting_workers'']"

definition launchable :: "(string \<times> manifest) list \<Rightarrow> wsession \<Rightarrow> bool" where
  "launchable ms r \<longleftrightarrow> (\<exists>p. ws_preset r = Some p \<and> p \<in> fst ` set ms) \<and> ws_status r \<in> set LAUNCHABLE_STATES
     \<and> ws_desired r \<noteq> ''paused'' \<and> ws_closed r = None"

text \<open>A session that is launching already is offered again only by a profile that restores its last session.\<close>

definition offered :: "(string \<times> manifest) list \<Rightarrow> wsession \<Rightarrow> bool" where
  "offered ms r = (case map_of ms (or_text (ws_preset r) []) of
     None \<Rightarrow> False | Some m \<Rightarrow> ws_status r \<noteq> ''launching'' \<or> mf_restore m)"

definition launched :: "string \<Rightarrow> wsession \<Rightarrow> wsession" where
  "launched lid r = r\<lparr>ws_status := ''launching'', ws_execution := ''launching'', ws_launcher := Some lid\<rparr>"

definition claim_launches :: "settings \<Rightarrow> instant \<Rightarrow> string \<Rightarrow> nat \<Rightarrow> plant \<Rightarrow> session_launch list \<times> plant" where
  "claim_launches G now lid capacity s =
     (let (ms, s1) = catalog_do (get_projects_for_launcher now (se_stale G) lid) s in
      if ms = [] then ([], s1)
      else
        let rows = take capacity (filter (offered ms) (select_asc ws_created (launchable ms) (br_sessions (pl_bridge s1))));
            b = fold (\<lambda>r. session_upd (ws_id r) (launched lid)) rows (pl_bridge s1)
        in (map (\<lambda>r. to_launch_response now (pl_drift s1) (launched lid r) b) rows, s1\<lparr>pl_bridge := b\<rparr>))"

section \<open>Project finds\<close>

definition enqueue_project_find ::
  "settings \<Rightarrow> instant \<Rightarrow> string \<Rightarrow> string option \<Rightarrow> string \<Rightarrow> string \<Rightarrow> string \<Rightarrow> plant \<Rightarrow> (plant_error + find_row) \<times> plant" where
  "enqueue_project_find G now query_text preset user guild channel s =
     (case resolve_manifest G now preset s of
        (Inl e, s1) \<Rightarrow> (Inl e, s1)
      | (Inr (m, selected), s1) \<Rightarrow>
          (case validate_session_start m user guild channel of
             Some e \<Rightarrow> (Inl e, s1)
           | None \<Rightarrow>
               (if fm_roots (mf_finder m) = [] then (Inl (NoFinderRoots selected), s1)
                else
                  let b = pl_bridge s1;
                      row = \<lparr>fd_id = br_next b, fd_preset = selected, fd_query = strip query_text, fd_by = user, fd_guild = guild,
                             fd_channel = channel, fd_status = ''pending'', fd_launcher = None, fd_path = None, fd_name = None,
                             fd_reason = None, fd_confidence = None, fd_candidates = [], fd_error = None, fd_session = None,
                             fd_thread = None, fd_created = now, fd_claimed = None, fd_completed = None\<rparr>
                  in (Inr row, s1\<lparr>pl_finds := pl_finds s1 @ [row], pl_bridge := b\<lparr>br_next := Suc (br_next b)\<rparr>\<rparr>))))"

definition find_claimed :: "instant \<Rightarrow> string \<Rightarrow> find_row \<Rightarrow> find_row" where
  "find_claimed now lid r = r\<lparr>fd_status := ''claimed'', fd_launcher := Some lid, fd_claimed := Some now\<rparr>"

definition claim_project_finds :: "settings \<Rightarrow> instant \<Rightarrow> string \<Rightarrow> nat \<Rightarrow> plant \<Rightarrow> (find_row \<times> finder_manifest) list \<times> plant" where
  "claim_project_finds G now lid capacity s =
     (let (ms, s1) = catalog_do (get_projects_for_launcher now (se_stale G) lid) s;
          finders = filter (\<lambda>(_, m). fm_roots (mf_finder m) \<noteq> []) ms;
          rows = take capacity (select_asc fd_created (\<lambda>r. fd_preset r \<in> fst ` set finders \<and> fd_status r = ''pending'') (pl_finds s1))
      in if finders = [] then ([], s1)
         else (List.map_filter (\<lambda>r. map_option (\<lambda>m. (find_claimed now lid r, mf_finder m)) (map_of ms (fd_preset r))) rows,
               s1\<lparr>pl_finds := map (\<lambda>r. if fd_id r \<in> fd_id ` set rows then find_claimed now lid r else r) (pl_finds s1)\<rparr>))"

record find_answer =
  fa_status :: string
  fa_path :: "string option"
  fa_name :: "string option"
  fa_reason :: "string option"
  fa_confidence :: "json option"
  fa_candidates :: "find_candidate list"
  fa_error :: "string option"

definition find_completed :: "instant \<Rightarrow> string \<Rightarrow> find_answer \<Rightarrow> find_row \<Rightarrow> find_row" where
  "find_completed now lid a r =
     r\<lparr>fd_launcher := Some lid, fd_status := fa_status a, fd_path := fa_path a, fd_name := fa_name a, fd_reason := fa_reason a,
        fd_confidence := fa_confidence a, fd_error := fa_error a, fd_candidates := fa_candidates a, fd_completed := Some now\<rparr>"

definition update_find :: "id \<Rightarrow> (find_row \<Rightarrow> plant_error + find_row) \<Rightarrow> plant \<Rightarrow> (plant_error + find_row) \<times> plant" where
  "update_find k f s =
     (case row_get fd_id k (pl_finds s) of
        None \<Rightarrow> (Inl FindNotFound, s)
      | Some r \<Rightarrow> (case f r of
                     Inl e \<Rightarrow> (Inl e, s)
                   | Inr r' \<Rightarrow> (Inr r', s\<lparr>pl_finds := row_upd fd_id k (\<lambda>_. r') (pl_finds s)\<rparr>)))"

definition complete_project_find :: "instant \<Rightarrow> id \<Rightarrow> string \<Rightarrow> find_answer \<Rightarrow> plant \<Rightarrow> (plant_error + find_row) \<times> plant" where
  "complete_project_find now k lid a =
     update_find k (\<lambda>r. if fd_launcher r \<noteq> None \<and> fd_launcher r \<noteq> Some lid then Inl FindOwned else Inr (find_completed now lid a r))"

definition get_project_find :: "id \<Rightarrow> plant \<Rightarrow> plant_error + find_row" where
  "get_project_find k s = (case row_get fd_id k (pl_finds s) of None \<Rightarrow> Inl FindNotFound | Some r \<Rightarrow> Inr r)"

definition mark_project_find_started :: "instant \<Rightarrow> id \<Rightarrow> session_summary \<Rightarrow> plant \<Rightarrow> (plant_error + find_row) \<times> plant" where
  "mark_project_find_started now k x =
     update_find k (\<lambda>r. Inr (r\<lparr>fd_status := ''started'', fd_session := Some (ws_id (ss_row x)), fd_thread := Some (ws_thread (ss_row x)),
       fd_completed := (case fd_completed r of None \<Rightarrow> Some now | Some t \<Rightarrow> Some t)\<rparr>))"

section \<open>Waiting for a find\<close>

definition FIND_TERMINAL_STATES :: "string list" where
  "FIND_TERMINAL_STATES = [''selected'', ''needs_clarification'', ''no_match'', ''failed'', ''started'']"

text \<open>
  The loop of \<open>wait_for_project_find\<close>. \<open>clock 0\<close> is when the call starts, \<open>clock n\<close> what the event loop's clock shows when the loop is
  entered for the \<open>n\<close>-th time, \<open>world n\<close> the tables as the poll after it reads them. Whether it returns
  depends on the clock, so not returning is \<open>None\<close>.
\<close>

partial_function (option) wait_from ::
  "(nat \<Rightarrow> int) \<Rightarrow> (nat \<Rightarrow> plant) \<Rightarrow> id \<Rightarrow> int \<Rightarrow> nat \<Rightarrow> (plant_error + find_row option) option" where
  "wait_from clock world k deadline n =
     (if clock n < deadline
      then (case get_project_find k (world n) of
              Inl e \<Rightarrow> Some (Inl e)
            | Inr r \<Rightarrow> if fd_status r \<in> set FIND_TERMINAL_STATES then Some (Inr (Some r))
                       else wait_from clock world k deadline (Suc n))
      else Some (Inr None))"

definition wait_for_project_find ::
  "(nat \<Rightarrow> int) \<Rightarrow> (nat \<Rightarrow> plant) \<Rightarrow> id \<Rightarrow> int \<Rightarrow> (plant_error + find_row option) option" where
  "wait_for_project_find clock world k timeout = wait_from clock world k (clock 0 + timeout) 1"

end
