(* ===== verification/Recovery.thy ===== *)
theory Recovery
  imports Plant
begin

text \<open>
  The recovery loop (\<open>services/recovery_service.py\<close>), the start, resume and policy workflows
  (\<open>workflows/\<close>). What Discord answers about a thread is an argument, as are the paths of the file system.
\<close>

section \<open>Attachment\<close>

definition STARTUP_SESSION_STATUSES :: "string list" where
  "STARTUP_SESSION_STATUSES = [''requested'', ''waking_execution_plane'', ''awaiting_launcher'', ''waiting_for_workers'', ''launching'',
     ''restarting_workers'']"

record recovery_settings =
  rs_stale_worker :: int
  rs_timeout :: int

text \<open>A worker not heard of for too long is let go; its agent starts again unless it was busy.\<close>

definition clear_stale_worker :: "recovery_settings \<Rightarrow> instant \<Rightarrow> wagent \<Rightarrow> wagent" where
  "clear_stale_worker R now a =
     (let st = (if wa_status a = ''busy'' then ''busy'' else ''starting'')
      in case wa_heartbeat a of
           None \<Rightarrow> a\<lparr>wa_worker := None, wa_status := st\<rparr>
         | Some t \<Rightarrow> if t + seconds (rs_stale_worker R) < now then a\<lparr>wa_worker := None, wa_pid := None, wa_status := st\<rparr> else a)"

definition recovery_attached :: "recovery_settings \<Rightarrow> instant \<Rightarrow> wagent \<Rightarrow> bool" where
  "recovery_attached R now a \<longleftrightarrow>
     or_text (wa_worker a) [] \<noteq> [] \<or> (case wa_heartbeat a of None \<Rightarrow> False | Some t \<Rightarrow> now \<le> t + seconds (rs_stale_worker R))"

definition is_stalled_start :: "recovery_settings \<Rightarrow> instant \<Rightarrow> wsession \<Rightarrow> wagent list \<Rightarrow> bool" where
  "is_stalled_start R now row as \<longleftrightarrow> ws_status row \<in> set STARTUP_SESSION_STATUSES \<and> ws_closed row = None
     \<and> \<not> now < ws_created row + seconds (rs_timeout R) \<and> filter (recovery_attached R now) as = []"

section \<open>Giving a session up\<close>

definition gone_agent :: "string \<Rightarrow> wagent \<Rightarrow> wagent" where
  "gone_agent why a = a\<lparr>wa_worker := None, wa_pid := None, wa_status := ''offline'', wa_desired := ''closed'', wa_paused := Some why\<rparr>"

definition dropped_job :: "instant \<Rightarrow> string \<Rightarrow> wjob \<Rightarrow> wjob" where
  "dropped_job now why j = j\<lparr>wj_status := ''cancelled'', wj_completed := Some now,
     wj_error := (if or_text (wj_error j) [] = [] then Some why else wj_error j)\<rparr>"

definition drop_jobs :: "instant \<Rightarrow> id \<Rightarrow> string \<Rightarrow> bridge \<Rightarrow> bridge" where
  "drop_jobs now sid why s =
     s\<lparr>br_jobs := map (\<lambda>j. if wj_session j = sid \<and> wj_status j \<in> set LIVE_JOB_STATES then dropped_job now why j else j) (br_jobs s)\<rparr>"

definition end_operations :: "instant \<Rightarrow> id \<Rightarrow> string \<Rightarrow> string \<Rightarrow> (session_operation \<Rightarrow> obj option) \<Rightarrow> bridge \<Rightarrow> bridge" where
  "end_operations now sid kind outcome result s =
     s\<lparr>br_operations := map (\<lambda>p. if wo_session p = sid \<and> wo_type p = kind \<and> wo_status p \<in> {''pending'', ''running''}
          then p\<lparr>wo_status := outcome, wo_result := result p, wo_completed := Some now\<rparr> else p) (br_operations s)\<rparr>"

definition complete_operations :: "instant \<Rightarrow> id \<Rightarrow> string \<Rightarrow> bridge \<Rightarrow> bridge" where
  "complete_operations now sid kind = end_operations now sid kind ''completed'' wo_result"

definition fail_operations :: "instant \<Rightarrow> id \<Rightarrow> string \<Rightarrow> obj \<Rightarrow> bridge \<Rightarrow> bridge" where
  "fail_operations now sid kind result = end_operations now sid kind ''failed'' (\<lambda>_. Some result)"

definition stalled_note :: "bool \<Rightarrow> int \<Rightarrow> string \<Rightarrow> string" where
  "stalled_note seen timeout why =
     (if seen
      then ''Startup stalled after worker heartbeats were seen, but no workers remained attached after '' @ dec_int timeout
           @ '' seconds. Session marked failed_start during '' @ why @ '' recovery.''
      else ''Startup timed out with no workers attached after '' @ dec_int timeout @ '' seconds. ''
           @ ''Session marked failed_start during '' @ why @ '' recovery.'')"

definition stalled_pause :: "bool \<Rightarrow> string" where
  "stalled_pause seen = (if seen then ''Startup stalled after worker heartbeats were seen but attachment did not finish.''
     else ''Startup timed out before any worker attached.'')"

definition fail_stalled_start :: "lib \<Rightarrow> recovery_settings \<Rightarrow> instant \<Rightarrow> id \<Rightarrow> string \<Rightarrow> bridge \<Rightarrow> bridge" where
  "fail_stalled_start L R now sid why s =
     (let seen = list_ex (\<lambda>a. wa_heartbeat a \<noteq> None) (agents_of sid s);
          s1 = session_upd sid (\<lambda>r. r\<lparr>ws_status := ''failed_start'', ws_desired := ''closed'', ws_execution := ''stalled_start'',
                 ws_closed := Some now, ws_pause := Some (stalled_pause seen)\<rparr>) s;
          s2 = each_agent sid (gone_agent (if seen then ''Startup stalled before attachment finished.'' else ''Startup timed out.'')) s1;
          s3 = drop_jobs now sid ''Cancelled because the session startup timed out.'' s2;
          s4 = note_entry L now sid ''bridge'' (stalled_note seen (rs_timeout R) why) None s3
      in fail_operations now sid ''start''
           [(''reason'', JStr ''stalled_start_timeout''), (''timeout_seconds'', JInt (rs_timeout R))] s4)"

definition missing_note :: "string \<Rightarrow> string" where
  "missing_note why = ''Discord thread is missing. Opscure automatically closed the session during '' @ why @ '' recovery.''"

definition close_missing_thread_session :: "lib \<Rightarrow> instant \<Rightarrow> id \<Rightarrow> string \<Rightarrow> bridge \<Rightarrow> bridge" where
  "close_missing_thread_session L now sid why s =
     (let s1 = session_upd sid (\<lambda>r. r\<lparr>ws_status := ''closed'', ws_desired := ''closed'', ws_execution := ''thread_missing'',
                 ws_closed := Some now, ws_pause := Some ''Discord thread was deleted; session closed automatically.''\<rparr>) s;
          s2 = each_agent sid (gone_agent ''Discord thread deleted; session closed.'') s1;
          s3 = drop_jobs now sid ''Cancelled because the Discord thread was deleted.'' s2;
          s4 = note_entry L now sid ''bridge'' (missing_note why) None s3
      in fold (\<lambda>kind. fail_operations now sid kind [(''reason'', JStr ''discord_thread_missing''), (''recovery_reason'', JStr why)])
           [''start'', ''resume'', ''pause''] s4)"

section \<open>Recovering a session\<close>

definition target_named :: "('t \<Rightarrow> string) \<Rightarrow> string option \<Rightarrow> 't list \<Rightarrow> 't option" where
  "target_named name n ts = (if or_text n [] = [] then None else row_get name (or_text n []) ts)"

definition recovered_row :: "instant \<Rightarrow> string \<Rightarrow> wsession \<Rightarrow> wsession" where
  "recovered_row now why r = r\<lparr>ws_recovered := Some now, ws_recovery := Some why\<rparr>"

text \<open>What the providers answer about the session's targets goes on its row.\<close>

definition probe_targets :: "settings \<Rightarrow> instant \<Rightarrow> wsession \<Rightarrow> plant \<Rightarrow> execution_status option \<times> plant" where
  "probe_targets G now row s =
     (let pstate = (case target_named po_name (ws_power_target row) (pl_power s) of None \<Rightarrow> ''unknown'' | Some t \<Rightarrow> power_status t);
          (st, s1) = (case target_named eo_name (ws_exec_target row) (pl_exec s) of
             Some t \<Rightarrow> if or_text (ws_preset row) [] = [] then (None, s)
                       else (case catalog_do (status_for_project now (se_stale G) (or_text (ws_preset row) []) t) s of (x, s1) \<Rightarrow> (Some x, s1))
           | None \<Rightarrow> (None, s));
          f = (\<lambda>r. r\<lparr>ws_power := pstate, ws_execution := (case st of None \<Rightarrow> ''unknown'' | Some x \<Rightarrow> es_state x),
                     ws_launcher := (case st of None \<Rightarrow> ws_launcher r
                        | Some x \<Rightarrow> if or_text (es_launcher x) [] = [] then ws_launcher r else es_launcher x)\<rparr>)
      in (st, on_bridge (session_upd (ws_id row) f) s1))"

definition paused_by_recovery :: "instant \<Rightarrow> id \<Rightarrow> bridge \<Rightarrow> bridge" where
  "paused_by_recovery now sid s =
     complete_operations now sid ''pause''
       (each_agent sid (\<lambda>a. a\<lparr>wa_desired := ''paused'', wa_status := (if wa_status a = ''busy'' then ''busy'' else ''paused'')\<rparr>)
         (session_upd sid (\<lambda>r. r\<lparr>ws_status := ''paused''\<rparr>) s))"

definition settled_agent :: "recovery_settings \<Rightarrow> instant \<Rightarrow> wagent \<Rightarrow> wagent" where
  "settled_agent R now a =
     a\<lparr>wa_desired := ''ready'',
        wa_status := (if \<not> recovery_attached R now a then ''starting''
                      else if wa_status a \<in> {''starting'', ''offline''} then ''idle'' else wa_status a)\<rparr>"

definition ready_agent :: "wagent \<Rightarrow> wagent" where
  "ready_agent a = (if wa_status a = ''paused'' then a\<lparr>wa_desired := ''ready'', wa_status := ''idle'', wa_paused := None\<rparr>
                    else a\<lparr>wa_desired := ''ready''\<rparr>)"

text \<open>The workers of a session whose execution plane is up: some missing, or all there.\<close>

definition settle_workers :: "recovery_settings \<Rightarrow> instant \<Rightarrow> id \<Rightarrow> bridge \<Rightarrow> bridge" where
  "settle_workers R now sid s =
     (let as = agents_of sid s; attached = length (filter (recovery_attached R now) as);
          live = (jobs_where sid (\<lambda>j. wj_status j \<in> set LIVE_JOB_STATES) s \<noteq> [])
      in if attached < length as
         then complete_operations now sid ''start''
                (each_agent sid (settled_agent R now)
                  (session_upd sid (\<lambda>r. r\<lparr>ws_status := (if 0 < attached then ''launching'' else ''waiting_for_workers'')\<rparr>) s))
         else complete_operations now sid ''resume'' (complete_operations now sid ''start''
                (session_upd sid (\<lambda>r. r\<lparr>ws_status := (if live then ''resuming_jobs'' else ''ready'')\<rparr>) (each_agent sid ready_agent s))))"

text \<open>
  \<open>recover_session\<close>: \<open>missing\<close> is what Discord answered about the thread. The answer is the thread to
  clean up, if the start had stalled.
\<close>

definition recover_awake ::
  "settings \<Rightarrow> recovery_settings \<Rightarrow> instant \<Rightarrow> wsession \<Rightarrow> string \<Rightarrow> bool \<Rightarrow> plant \<Rightarrow> (plant_error + string option) \<times> plant" where
  "recover_awake G R now row why wake s =
     (let sid = ws_id row; (st, s1) = probe_targets G now row s; ptgt = target_named po_name (ws_power_target row) (pl_power s) in
      if ws_desired row = ''paused'' then (Inr None, on_bridge (paused_by_recovery now sid) s1)
      else
        let s2 = on_bridge (each_agent sid (clear_stale_worker R now)) s1 in
        if is_stalled_start R now row (agents_of sid (pl_bridge s2))
        then (Inr (Some (ws_thread row)), on_bridge (fail_stalled_start (se_lib G) R now sid why) s2)
        else if (case st of None \<Rightarrow> True | Some x \<Rightarrow> es_state x \<in> {''offline'', ''awaiting_launcher''})
        then (case (if wake then ptgt else None) of
                None \<Rightarrow> (Inr None, on_bridge (session_upd sid (\<lambda>r. r\<lparr>ws_status := ''awaiting_launcher''\<rparr>)) s2)
              | Some t \<Rightarrow> (case power_wake t of
                             None \<Rightarrow> (Inl NotHexAddress, s)
                           | Some p \<Rightarrow> (Inr None, on_bridge (session_upd sid (\<lambda>r. r\<lparr>ws_power := p, ws_status := ''waking_execution_plane''\<rparr>)) s2)))
        else (Inr None, on_bridge (settle_workers R now sid) s2))"

definition recover_session ::
  "settings \<Rightarrow> recovery_settings \<Rightarrow> instant \<Rightarrow> id \<Rightarrow> string \<Rightarrow> bool \<Rightarrow> bool \<Rightarrow> plant \<Rightarrow> (plant_error + string option) \<times> plant" where
  "recover_session G R now sid why wake missing s =
     (case session_row sid (pl_bridge s) of
        None \<Rightarrow> (Inr None, s)
      | Some row \<Rightarrow>
          (if ws_closed row \<noteq> None then (Inr None, s)
           else
             let s1 = on_bridge (session_upd sid (recovered_row now why)) s in
             if missing then (Inr None, on_bridge (close_missing_thread_session (se_lib G) now sid why) s1)
             else
               let s2 = snd (catalog_do (get_project now (se_stale G) (or_text (ws_preset row) [])) s1)
               in case recover_awake G R now row why wake s2 of
                    (Inl e, s3) \<Rightarrow> (Inl e, s\<lparr>pl_catalog := pl_catalog s3\<rparr>)
                  | (Inr x, s3) \<Rightarrow> (Inr x, s3)))"

text \<open>One tick of the background loop: every open session in turn, until one raises.\<close>

fun recover_each :: "settings \<Rightarrow> recovery_settings \<Rightarrow> instant \<Rightarrow> string \<Rightarrow> (string \<Rightarrow> bool) \<Rightarrow> id list \<Rightarrow> plant \<Rightarrow> (plant_error + unit) \<times> plant" where
  "recover_each G R now why missing [] s = (Inr (), s)"
| "recover_each G R now why missing (k # ks) s =
     (case recover_session G R now k why False
             (case session_row k (pl_bridge s) of None \<Rightarrow> False | Some r \<Rightarrow> missing (ws_thread r)) s of
        (Inl e, s1) \<Rightarrow> (Inl e, s1)
      | (Inr _, s1) \<Rightarrow> recover_each G R now why missing ks s1)"

definition recover_open_sessions ::
  "settings \<Rightarrow> recovery_settings \<Rightarrow> instant \<Rightarrow> string \<Rightarrow> (string \<Rightarrow> bool) \<Rightarrow> plant \<Rightarrow> (plant_error + unit) \<times> plant" where
  "recover_open_sessions G R now why missing s =
     recover_each G R now why missing (map ws_id (filter (\<lambda>r. ws_closed r = None) (br_sessions (pl_bridge s)))) s"

section \<open>Resume and policy\<close>

definition lift_bridge :: "(bridge \<Rightarrow> (bridge_error + 'a) \<times> bridge) \<Rightarrow> plant \<Rightarrow> (plant_error + 'a) \<times> plant" where
  "lift_bridge f s = (case f (pl_bridge s) of
     (Inl e, b) \<Rightarrow> (Inl (OnBridge e), s\<lparr>pl_bridge := b\<rparr>) | (Inr x, b) \<Rightarrow> (Inr x, s\<lparr>pl_bridge := b\<rparr>))"

definition resume :: "settings \<Rightarrow> recovery_settings \<Rightarrow> instant \<Rightarrow> id \<Rightarrow> string \<Rightarrow> bool \<Rightarrow> plant \<Rightarrow> (plant_error + wsession) \<times> plant" where
  "resume G R now sid by_whom missing s =
     (case lift_bridge (resume_request (se_lib G) now sid by_whom) s of
        (Inl e, s1) \<Rightarrow> (Inl e, s1)
      | (Inr _, s1) \<Rightarrow>
          (case recover_session G R now sid ''resume-request'' True missing s1 of
             (Inl e, s2) \<Rightarrow> (Inl e, s2)
           | (Inr _, s2) \<Rightarrow> (case session_row sid (pl_bridge s2) of None \<Rightarrow> (Inl SessionGone, s2) | Some r \<Rightarrow> (Inr r, s2))))"

definition show_policy :: "settings \<Rightarrow> instant \<Rightarrow> id \<Rightarrow> plant \<Rightarrow> (plant_error + policy_row) \<times> plant" where
  "show_policy G now sid s =
     (case session_row sid (pl_bridge s) of
        None \<Rightarrow> (Inl SessionGone, s)
      | Some row \<Rightarrow>
          (case resolve_manifest G now (ws_preset row) s of
             (Inl e, s1) \<Rightarrow> (Inl e, s1)
           | (Inr (m, _), s1) \<Rightarrow>
               (case get_policy_response sid (Some (mf_policy m)) (pl_policies s1) of
                  None \<Rightarrow> (Inl PolicyMissing, s1) | Some p \<Rightarrow> (Inr p, s1))))"

definition set_policy :: "settings \<Rightarrow> instant \<Rightarrow> id \<Rightarrow> string \<Rightarrow> string \<Rightarrow> string \<Rightarrow> plant \<Rightarrow> (plant_error + policy_row) \<times> plant" where
  "set_policy G now sid key raw by_whom s =
     (case session_row sid (pl_bridge s) of
        None \<Rightarrow> (Inl SessionGone, s)
      | Some row \<Rightarrow>
          (case resolve_manifest G now (ws_preset row) s of
             (Inl e, s1) \<Rightarrow> (Inl e, s1)
           | (Inr (m, _), s1) \<Rightarrow>
               (case set_policy_value now sid (mf_policy m) key raw by_whom (pl_policies s1) of
                  Inl e \<Rightarrow> (Inl (PolicyRefused e), s1)
                | Inr (p, ps) \<Rightarrow>
                    (Inr p, on_bridge (session_upd sid (\<lambda>r. r\<lparr>ws_policy_version := pr_version p\<rparr>)) (s1\<lparr>pl_policies := ps\<rparr>)))))"

end
