(* ===== verification/StartFlow.thy ===== *)
theory StartFlow
  imports Recovery
begin

text \<open>
  \<open>workflows/start_workflow.py\<close>: an open session for the same target is taken up again, otherwise the
  target is resolved to a directory, a session is created with its capabilities and recovered once. The
  path functions (\<open>ntpath\<close>, \<open>Path.resolve\<close>) depend on the file system and are a parameter.
\<close>

definition START_REUSE_SESSION_STATUSES :: "string list" where
  "START_REUSE_SESSION_STATUSES = [''requested'', ''waking_execution_plane'', ''awaiting_launcher'', ''waiting_for_workers'', ''launching'',
     ''restarting_workers'', ''resuming_jobs'', ''ready'', ''paused'']"

record paths =
  pa_derived :: "string \<Rightarrow> string"
  pa_base :: "string \<Rightarrow> string"
  pa_compare :: "string \<Rightarrow> string"
  pa_canonical :: "string \<Rightarrow> string"

text \<open>A request to start a session, and what the outside answers to it.\<close>

record start_request =
  st_project :: string
  st_target :: "string option"
  st_preset :: "string option"
  st_user :: string
  st_guild :: string
  st_channel :: string
  st_workdir :: "string option"

record start_outside =
  so_thread :: string
  so_missing :: bool
  so_answer :: "find_row option"

section \<open>An existing session\<close>

definition same_place :: "start_request \<Rightarrow> string \<Rightarrow> string option \<Rightarrow> wsession \<Rightarrow> bool" where
  "same_place q target selected r \<longleftrightarrow> ws_target r = Some target \<and> ws_guild r = st_guild q \<and> ws_channel r = st_channel q
     \<and> ws_closed r = None \<and> (selected = None \<or> ws_preset r = selected)"

definition find_existing_session_id :: "start_request \<Rightarrow> string \<Rightarrow> string option \<Rightarrow> bridge \<Rightarrow> id option" where
  "find_existing_session_id q target selected s =
     (case select_desc ws_created (\<lambda>r. ws_project r = st_project q \<and> same_place q target selected r) (br_sessions s) of
        r # _ \<Rightarrow> Some (ws_id r)
      | [] \<Rightarrow> (case select_desc ws_created (\<lambda>r. same_place q target selected r \<and> ws_status r \<in> set START_REUSE_SESSION_STATUSES)
                     (br_sessions s) of
                 [] \<Rightarrow> None | r # _ \<Rightarrow> Some (ws_id r)))"

section \<open>The directory of a target\<close>

definition resolved_default_target_name :: "paths \<Rightarrow> manifest \<Rightarrow> string" where
  "resolved_default_target_name P m =
     (let derived = pa_derived P (mf_workdir m)
      in strip (if or_text (mf_target m) [] \<noteq> [] then or_text (mf_target m) [] else if derived \<noteq> [] then derived else mf_profile m))"

definition matches_manifest_default_target :: "paths \<Rightarrow> manifest \<Rightarrow> string \<Rightarrow> bool" where
  "matches_manifest_default_target P m target \<longleftrightarrow>
     lower target \<in> {lower (resolved_default_target_name P m), lower (pa_base P (mf_workdir m)), lower (pa_compare P (mf_workdir m)),
                     lower (mf_profile m)}"

text \<open>What is made of the launcher's answer to a project find.\<close>

definition target_of_answer :: "paths \<Rightarrow> manifest \<Rightarrow> string \<Rightarrow> find_row option \<Rightarrow> plant_error + string \<times> string" where
  "target_of_answer P m target answer =
     (case answer of
        None \<Rightarrow> Inl (TargetPending target)
      | Some r \<Rightarrow>
          (let path = or_text (fd_path r) [] in
           if fd_status r \<noteq> ''selected'' \<or> path = []
           then Inl (TargetUnresolved target (or_text (fd_reason r) ''no matching project path was selected''))
           else if lower target \<noteq> lower (resolved_default_target_name P m) \<and> pa_compare P path = pa_compare P (mf_workdir m)
           then Inl (TargetMismatch target)
           else Inr (or_text (fd_name r) target, pa_canonical P path)))"

definition resolve_target_workdir ::
  "settings \<Rightarrow> paths \<Rightarrow> instant \<Rightarrow> manifest \<Rightarrow> string \<Rightarrow> string \<Rightarrow> start_request \<Rightarrow> find_row option \<Rightarrow> plant
     \<Rightarrow> (plant_error + string \<times> string) \<times> plant" where
  "resolve_target_workdir G P now m selected target q answer s =
     (if or_text (st_workdir q) [] \<noteq> [] then (Inr (target, or_text (st_workdir q) []), s)
      else if matches_manifest_default_target P m target then (Inr (resolved_default_target_name P m, mf_workdir m), s)
      else if fm_roots (mf_finder m) = [] then (Inl (TargetUnmatched target), s)
      else case enqueue_project_find G now target (Some selected) (st_user q) (st_guild q) (st_channel q) s of
             (Inl e, s1) \<Rightarrow> (Inl e, s1)
           | (Inr _, s1) \<Rightarrow> (target_of_answer P m target answer, s1))"

section \<open>Capabilities\<close>

definition colon :: "string \<Rightarrow> string \<Rightarrow> string" where "colon a b = a @ '':'' @ b"

definition add_named :: "('t \<Rightarrow> string) \<Rightarrow> 't \<Rightarrow> 't list \<Rightarrow> 't list" where
  "add_named name t ts = (case row_get name (name t) ts of None \<Rightarrow> ts @ [t] | Some _ \<Rightarrow> ts)"

definition capable_row :: "string \<Rightarrow> string \<Rightarrow> wsession \<Rightarrow> wsession" where
  "capable_row pname xname r =
     r\<lparr>ws_power_target := Some pname, ws_exec_target := Some xname, ws_desired := ''ready'',
        ws_policy_version := (if ws_policy_version r = 0 then 1 else ws_policy_version r)\<rparr>"

definition ensure_session_capabilities ::
  "instant \<Rightarrow> id \<Rightarrow> manifest \<Rightarrow> string \<Rightarrow> plant \<Rightarrow> (plant_error + unit) \<times> plant" where
  "ensure_session_capabilities now sid m by_whom s =
     (case session_row sid (pl_bridge s) of
        None \<Rightarrow> (Inl SessionGone, s)
      | Some row \<Rightarrow>
          (let profile = or_text (ws_preset row) (mf_profile m); pm = mf_power m; xm = mf_execution m;
               ptgt = \<lparr>po_name = colon profile (pm_target pm), po_provider = pm_provider pm, po_mac = pm_mac pm, po_broadcast = pm_broadcast pm\<rparr>;
               xtgt = \<lparr>eo_name = colon profile (xm_target xm), eo_provider = xm_provider xm, eo_platform = xm_platform xm,
                            eo_hint = xm_hint xm, eo_auto = xm_auto xm\<rparr>;
               b1 = session_upd sid (capable_row (po_name ptgt) (eo_name xtgt)) (pl_bridge s);
               input = [(''profile'', JStr profile), (''session_title'', JStr (ws_project row)),
                        (''target_project_name'', JStr (or_text (ws_target row) (ws_project row))), (''workdir'', JStr (ws_workdir row))]
           in (Inr (), s\<lparr>pl_power := add_named po_name ptgt (pl_power s), pl_exec := add_named eo_name xtgt (pl_exec s),
                 pl_policies := snd (ensure_policy now sid (mf_policy m) by_whom (pl_policies s)),
                 pl_bridge := add_operation now sid ''start'' ''pending'' by_whom input None b1\<rparr>)))"

section \<open>Starting\<close>

definition then_do :: "(plant_error + 'a) \<times> plant \<Rightarrow> ('a \<Rightarrow> plant \<Rightarrow> (plant_error + 'b) \<times> plant) \<Rightarrow> (plant_error + 'b) \<times> plant" where
  "then_do m f = (case m of (Inl e, s) \<Rightarrow> (Inl e, s) | (Inr x, s) \<Rightarrow> f x s)"

text \<open>
  The profile is resolved, then the request is checked against it. The exception of either is kept for
  later; when the check fails the profile stays assigned.
\<close>

definition start_profile ::
  "settings \<Rightarrow> instant \<Rightarrow> start_request \<Rightarrow> plant \<Rightarrow> ((manifest \<times> string) option \<times> plant_error option) \<times> plant" where
  "start_profile G now q s =
     (case resolve_manifest G now (st_preset q) s of
        (Inl e, s1) \<Rightarrow> ((None, Some e), s1)
      | (Inr (m, selected), s1) \<Rightarrow> ((Some (m, selected), validate_session_start m (st_user q) (st_guild q) (st_channel q)), s1))"

definition reuse_session ::
  "settings \<Rightarrow> recovery_settings \<Rightarrow> instant \<Rightarrow> start_request \<Rightarrow> (manifest \<times> string) option \<Rightarrow> bool \<Rightarrow> id \<Rightarrow> plant
     \<Rightarrow> (plant_error + session_summary) \<times> plant" where
  "reuse_session G R now q profile missing sid s =
     then_do (case profile of None \<Rightarrow> (Inr (), s) | Some (m, _) \<Rightarrow> ensure_session_capabilities now sid m (st_user q) s) (\<lambda>_ s1.
     then_do (recover_session G R now sid ''project-start-reuse'' True missing s1) (\<lambda>_ s2.
     (get_session_summary G now sid s2, s2)))"

definition start_new ::
  "settings \<Rightarrow> recovery_settings \<Rightarrow> paths \<Rightarrow> instant \<Rightarrow> start_request \<Rightarrow> start_outside \<Rightarrow> manifest \<Rightarrow> string \<Rightarrow> string \<Rightarrow> plant
     \<Rightarrow> (plant_error + session_summary) \<times> plant" where
  "start_new G R P now q out m selected target s =
     then_do (resolve_target_workdir G P now m selected target q (so_answer out) s) (\<lambda>(name, workdir) s1.
     then_do (create_session_with_manifest G now (st_project q) name selected m (st_user q) (Some workdir) (so_thread out) s1) (\<lambda>x s2.
     let sid = ws_id (ss_row x) in
     then_do (ensure_session_capabilities now sid m (st_user q) s2) (\<lambda>_ s3.
     then_do (recover_session G R now sid ''project-start'' True (so_missing out) s3) (\<lambda>_ s4.
     (get_session_summary G now sid s4, s4)))))"

definition start_run ::
  "settings \<Rightarrow> recovery_settings \<Rightarrow> paths \<Rightarrow> instant \<Rightarrow> start_request \<Rightarrow> start_outside \<Rightarrow> plant \<Rightarrow> (plant_error + session_summary) \<times> plant" where
  "start_run G R P now q out s =
     (let target = strip (or_text (st_target q) (st_project q));
          ((profile, problem), s1) = start_profile G now q s;
          selected = (case profile of None \<Rightarrow> st_preset q | Some (_, p) \<Rightarrow> Some p)
      in case find_existing_session_id q target selected (pl_bridge s1) of
           Some sid \<Rightarrow> reuse_session G R now q profile (so_missing out) sid s1
         | None \<Rightarrow>
             (case profile of
                None \<Rightarrow> (Inl (case problem of None \<Rightarrow> NoProfiles | Some e \<Rightarrow> e), s1)
              | Some (m, p) \<Rightarrow> start_new G R P now q out m p target s1))"

end
