(* ===== verification/SessionInv.thy ===== *)
theory SessionInv
  imports SessionJobs Settle
begin

text \<open>
  Invariants of the tables of \<open>SessionService\<close>: identifiers are unique and come from the supply, an
  agent has one job in progress at most, a task has one live handoff at most, and tasks in progress in
  a session do not share their scope. \<open>moved K s s'\<close> says what every request keeps; only the jobs
  with an id in \<open>K\<close> may have been started.
\<close>

section \<open>The invariant\<close>

abbreviation running :: "wjob \<Rightarrow> bool" where "running j \<equiv> wj_status j = ''in_progress''"
abbreviation terminal :: "wjob \<Rightarrow> bool" where "terminal j \<equiv> wj_status j \<in> set TERMINAL_JOB_STATES"

definition keyed :: "('r \<Rightarrow> nat) \<Rightarrow> nat \<Rightarrow> 'r list \<Rightarrow> bool" where
  "keyed key n rows \<longleftrightarrow> distinct (map key rows) \<and> (\<forall>r \<in> set rows. key r < n)"

text \<open>A handoff is in the session of its task.\<close>

definition housed_in :: "nat \<Rightarrow> wtask list \<Rightarrow> whandoff \<Rightarrow> bool" where
  "housed_in n ts h \<longleftrightarrow> wh_task h < n \<and> (\<forall>t \<in> set ts. wt_id t = wh_task h \<longrightarrow> wt_session t = wh_session h)"

definition work_inv :: "bridge \<Rightarrow> bool" where
  "work_inv s \<longleftrightarrow> keyed wj_id (br_next s) (br_jobs s) \<and> keyed wt_id (br_next s) (br_tasks s)
     \<and> keyed wh_id (br_next s) (br_handoffs s) \<and> list_all (housed_in (br_next s) (br_tasks s)) (br_handoffs s)"

definition one_active :: "bridge \<Rightarrow> bool" where
  "one_active s \<longleftrightarrow> (\<forall>i \<in> set (br_jobs s). \<forall>j \<in> set (br_jobs s).
     running i \<and> running j \<and> wj_session i = wj_session j \<and> wj_agent i = wj_agent j \<longrightarrow> wj_id i = wj_id j)"

definition one_live :: "bridge \<Rightarrow> bool" where
  "one_live s \<longleftrightarrow> (\<forall>g \<in> set (br_handoffs s). \<forall>h \<in> set (br_handoffs s).
     live_handoff g \<and> live_handoff h \<and> wh_task g = wh_task h \<longrightarrow> wh_id g = wh_id h)"

definition scopes_apart :: "bridge \<Rightarrow> bool" where
  "scopes_apart s \<longleftrightarrow> (\<forall>t \<in> set (br_tasks s). \<forall>u \<in> set (br_tasks s).
     wt_state t = ''in_progress'' \<and> wt_state u = ''in_progress'' \<and> wt_session t = wt_session u \<and> wt_id t \<noteq> wt_id u
     \<longrightarrow> \<not> scopes_clash t u)"

definition bridge_inv :: "bridge \<Rightarrow> bool" where
  "bridge_inv s \<longleftrightarrow> work_inv s \<and> one_active s \<and> one_live s \<and> scopes_apart s"

lemma keyed_append: "keyed key n rows \<Longrightarrow> key r = n \<Longrightarrow> keyed key (Suc n) (rows @ [r])"
  by (auto simp: keyed_def)

lemma keyed_mono: "keyed key n rows \<Longrightarrow> n \<le> m \<Longrightarrow> keyed key m rows"
  by (auto simp: keyed_def)

lemma keyed_map: "keyed key n rows \<Longrightarrow> (\<And>r. key (f r) = key r) \<Longrightarrow> keyed key n (map f rows)"
  by (simp add: keyed_def o_def)

lemma keyed_upd: "keyed key n rows \<Longrightarrow> (\<And>r. key (f r) = key r) \<Longrightarrow> keyed key n (row_upd key k f rows)"
  unfolding row_upd_def by (rule keyed_map) auto

lemma housed_mono: "list_all (housed_in n ts) hs \<Longrightarrow> n \<le> m \<Longrightarrow> list_all (housed_in m ts) hs"
  by (auto simp: list_all_iff housed_in_def)

lemma work_inv_mono:
  assumes "work_inv s" "br_jobs s' = br_jobs s" "br_tasks s' = br_tasks s" "br_handoffs s' = br_handoffs s" "br_next s \<le> br_next s'"
  shows "work_inv s'"
  using assms keyed_mono housed_mono unfolding work_inv_def by metis

section \<open>What every request keeps\<close>

definition job_kept :: "id set \<Rightarrow> wjob \<Rightarrow> wjob \<Rightarrow> bool" where
  "job_kept K j j' \<longleftrightarrow> wj_id j' = wj_id j \<and> wj_session j' = wj_session j \<and> wj_agent j' = wj_agent j
     \<and> (terminal j \<longrightarrow> j' = j) \<and> (running j' \<longrightarrow> running j \<or> wj_id j \<in> K)"

definition jobs_kept :: "id set \<Rightarrow> bridge \<Rightarrow> bridge \<Rightarrow> bool" where
  "jobs_kept K s s' \<longleftrightarrow>
     (\<forall>j \<in> set (br_jobs s). \<exists>j' \<in> set (br_jobs s'). job_kept K j j')
     \<and> (\<forall>j' \<in> set (br_jobs s'). (\<exists>j \<in> set (br_jobs s). job_kept K j j') \<or> (br_next s \<le> wj_id j' \<and> (running j' \<longrightarrow> wj_id j' \<in> K)))"

definition moved :: "id set \<Rightarrow> bridge \<Rightarrow> bridge \<Rightarrow> bool" where
  "moved K s s' \<longleftrightarrow> br_next s \<le> br_next s' \<and>
     (work_inv s \<longrightarrow> work_inv s' \<and> jobs_kept K s s' \<and> (one_live s \<longrightarrow> one_live s') \<and> (scopes_apart s \<longrightarrow> scopes_apart s'))"

lemma job_keptD:
  assumes "job_kept K j j'"
  shows "wj_id j' = wj_id j" "wj_session j' = wj_session j" "wj_agent j' = wj_agent j"
    "running j' \<Longrightarrow> running j \<or> wj_id j \<in> K" "terminal j \<Longrightarrow> j' = j"
  using assms by (auto simp: job_kept_def)

lemma job_kept_refl: "job_kept K j j"
  by (simp add: job_kept_def)

lemma job_kept_trans: "job_kept K i j \<Longrightarrow> job_kept M j k \<Longrightarrow> job_kept (K \<union> M) i k"
  unfolding job_kept_def by auto

lemma job_kept_mono: "job_kept K i j \<Longrightarrow> K \<subseteq> M \<Longrightarrow> job_kept M i j"
  unfolding job_kept_def by auto

lemma jobs_kept_trans:
  assumes ab: "jobs_kept K a b" and bc: "jobs_kept M b c" and n: "br_next a \<le> br_next b"
  shows "jobs_kept (K \<union> M) a c"
proof (unfold jobs_kept_def, intro conjI ballI)
  fix i assume "i \<in> set (br_jobs a)"
  then obtain j k where "j \<in> set (br_jobs b)" "job_kept K i j" "k \<in> set (br_jobs c)" "job_kept M j k"
    using ab bc unfolding jobs_kept_def by meson
  then show "\<exists>k \<in> set (br_jobs c). job_kept (K \<union> M) i k" using job_kept_trans by blast
next
  fix k assume "k \<in> set (br_jobs c)"
  then consider j where "j \<in> set (br_jobs b)" "job_kept M j k" | "br_next b \<le> wj_id k" "running k \<longrightarrow> wj_id k \<in> M"
    using bc unfolding jobs_kept_def by meson
  then show "(\<exists>i \<in> set (br_jobs a). job_kept (K \<union> M) i k) \<or> (br_next a \<le> wj_id k \<and> (running k \<longrightarrow> wj_id k \<in> K \<union> M))"
  proof cases
    case 1
    then consider i where "i \<in> set (br_jobs a)" "job_kept K i j" | "br_next a \<le> wj_id j" "running j \<longrightarrow> wj_id j \<in> K"
      using ab unfolding jobs_kept_def by meson
    then show ?thesis
    proof cases
      case 1
      then show ?thesis using \<open>job_kept M j k\<close> job_kept_trans by blast
    next
      case 2
      then show ?thesis using \<open>job_kept M j k\<close> unfolding job_kept_def by auto
    qed
  next
    case 2
    then show ?thesis using n by auto
  qed
qed

lemma moved_trans:
  "moved K a b \<Longrightarrow> moved M b c \<Longrightarrow> moved (K \<union> M) a c" (is "_ \<Longrightarrow> _ \<Longrightarrow> ?thesis")
proof -
  assume ab: "moved K a b" and bc: "moved M b c"
  then have n: "br_next a \<le> br_next b" "br_next b \<le> br_next c" unfolding moved_def by blast+
  show ?thesis
  proof (cases "work_inv a")
    case True
    with ab have b: "work_inv b" "jobs_kept K a b" "one_live a \<longrightarrow> one_live b" "scopes_apart a \<longrightarrow> scopes_apart b"
      unfolding moved_def by blast+
    with bc have c: "work_inv c" "jobs_kept M b c" "one_live b \<longrightarrow> one_live c" "scopes_apart b \<longrightarrow> scopes_apart c"
      unfolding moved_def by blast+
    show ?thesis unfolding moved_def using n b c jobs_kept_trans [OF b(2) c(2) n(1)] by simp
  qed (use n in \<open>simp add: moved_def\<close>)
qed

lemma moved_after: "moved {} a b \<Longrightarrow> moved K b c \<Longrightarrow> moved K a c"
  using moved_trans [of "{}" a b K c] by simp

lemma moved_before: "moved K a b \<Longrightarrow> moved {} b c \<Longrightarrow> moved K a c"
  using moved_trans [of K a b "{}" c] by simp

lemma jobs_kept_same: "br_jobs s' = br_jobs s \<Longrightarrow> jobs_kept K s s'"
  unfolding jobs_kept_def using job_kept_refl by auto

text \<open>Whatever leaves jobs, tasks and handoffs alone.\<close>

lemma moved_same:
  assumes "br_jobs s' = br_jobs s" "br_tasks s' = br_tasks s" "br_handoffs s' = br_handoffs s" "br_next s \<le> br_next s'"
  shows "moved K s s'"
proof -
  have "work_inv s \<longrightarrow> work_inv s'" using assms work_inv_mono by blast
  moreover have "one_live s' = one_live s" "scopes_apart s' = scopes_apart s"
    unfolding one_live_def scopes_apart_def assms(2,3) by (rule refl)+
  ultimately show ?thesis unfolding moved_def using jobs_kept_same [OF assms(1)] assms(4) by blast
qed

lemma moved_refl: "moved K s s"
  by (rule moved_same) simp_all

lemma bridge_inv_moved:
  assumes inv: "bridge_inv s" and m: "moved K s s'" and act: "one_active s'"
  shows "bridge_inv s'"
  using assms unfolding bridge_inv_def moved_def by blast

lemma one_active_quiet:
  assumes "one_active s" "jobs_kept {} s s'"
  shows "one_active s'"
proof (unfold one_active_def, intro ballI impI)
  fix i j assume ij: "i \<in> set (br_jobs s')" "j \<in> set (br_jobs s')"
    and r: "running i \<and> running j \<and> wj_session i = wj_session j \<and> wj_agent i = wj_agent j"
  obtain i0 where i0: "i0 \<in> set (br_jobs s)" "job_kept {} i0 i" using ij(1) r assms(2) unfolding jobs_kept_def by blast
  obtain j0 where j0: "j0 \<in> set (br_jobs s)" "job_kept {} j0 j" using ij(2) r assms(2) unfolding jobs_kept_def by blast
  note ki = job_keptD [OF i0(2)] and kj = job_keptD [OF j0(2)]
  have "running i0" "running j0" using ki(4) kj(4) r by auto
  moreover have "wj_session i0 = wj_session j0" "wj_agent i0 = wj_agent j0" using ki(2,3) kj(2,3) r by simp_all
  ultimately have "wj_id i0 = wj_id j0"
    using assms(1) [unfolded one_active_def, rule_format, OF i0(1) j0(1)] by simp
  then show "wj_id i = wj_id j" using i0 j0 unfolding job_kept_def by simp
qed

lemma bridge_inv_quiet: "bridge_inv s \<Longrightarrow> moved {} s s' \<Longrightarrow> bridge_inv s'"
  using bridge_inv_moved one_active_quiet unfolding bridge_inv_def moved_def by blast

text \<open>One job of an idle agent starts.\<close>

lemma one_active_start:
  assumes act: "one_active s" and kept: "jobs_kept {k} s s'"
    and idle: "\<forall>j \<in> set (br_jobs s). running j \<longrightarrow> wj_session j \<noteq> sid \<or> wj_agent j \<noteq> agent"
    and new: "\<forall>j \<in> set (br_jobs s'). wj_id j = k \<longrightarrow> wj_session j = sid \<and> wj_agent j = agent"
  shows "one_active s'"
proof (unfold one_active_def, intro ballI impI)
  fix i j assume ij: "i \<in> set (br_jobs s')" "j \<in> set (br_jobs s')"
    and r: "running i \<and> running j \<and> wj_session i = wj_session j \<and> wj_agent i = wj_agent j"
  have old: "wj_id x = k \<or> (\<exists>x0 \<in> set (br_jobs s). running x0 \<and> job_kept {k} x0 x)" if "x \<in> set (br_jobs s')" "running x" for x
    using kept that unfolding jobs_kept_def job_kept_def by fastforce
  show "wj_id i = wj_id j"
  proof (cases "wj_id i = k \<or> wj_id j = k")
    case True
    show ?thesis
    proof (rule ccontr)
      assume ne: "wj_id i \<noteq> wj_id j"
      with True obtain x y where xy: "x \<in> set (br_jobs s')" "y \<in> set (br_jobs s')" "wj_id x = k" "wj_id y \<noteq> k" "running y"
        "wj_session y = wj_session x" "wj_agent y = wj_agent x"
        using ij r by metis
      then obtain y0 where "y0 \<in> set (br_jobs s)" "running y0" "job_kept {k} y0 y" using old by blast
      then show False using idle new xy unfolding job_kept_def by auto
    qed
  next
    case False
    then obtain i0 j0 where "i0 \<in> set (br_jobs s)" "running i0" "job_kept {k} i0 i" "j0 \<in> set (br_jobs s)" "running j0" "job_kept {k} j0 j"
      using old ij r by meson
    note i0 = this(1-3) and j0 = this(4-6)
    note ki = job_keptD [OF i0(3)] and kj = job_keptD [OF j0(3)]
    have "wj_session i0 = wj_session j0" "wj_agent i0 = wj_agent j0" using ki(2,3) kj(2,3) r by simp_all
    then have "wj_id i0 = wj_id j0"
      using act [unfolded one_active_def, rule_format, OF i0(1) j0(1)] i0(2) j0(2) by simp
    then show ?thesis using ki(1) kj(1) by simp
  qed
qed

end
