(* ===== verification/SessionMoves.thy ===== *)
theory SessionMoves
  imports SessionInv
begin

text \<open>
  \<open>moved\<close> for the updates that the requests are made of, and for the requests that start no job.
\<close>

named_theorems moves

section \<open>Changes of one table\<close>

lemma moved_jobs:
  assumes t: "br_tasks s' = br_tasks s" "br_handoffs s' = br_handoffs s"
    and j: "br_jobs s' = map f (br_jobs s) @ new" and n: "br_next s + length new \<le> br_next s'"
    and f: "\<And>j. j \<in> set (br_jobs s) \<Longrightarrow> job_kept K j (f j)"
    and new: "map wj_id new = [br_next s..<br_next s + length new]"
    and quiet: "\<And>j. j \<in> set new \<Longrightarrow> running j \<Longrightarrow> wj_id j \<in> K"
  shows "moved K s s'"
proof -
  have fid: "wj_id (f j) = wj_id j" if "j \<in> set (br_jobs s)" for j using f [OF that] by (simp add: job_kept_def)
  have nid: "br_next s \<le> wj_id j \<and> wj_id j < br_next s + length new" if "j \<in> set new" for j
    using that new by (metis atLeastLessThan_iff image_eqI set_map set_upt)
  have ids: "map (\<lambda>j. wj_id (f j)) (br_jobs s) = map wj_id (br_jobs s)" using fid by simp
  have "keyed wj_id (br_next s') (br_jobs s')" if k: "keyed wj_id (br_next s) (br_jobs s)"
  proof -
    have "distinct (map wj_id (br_jobs s'))"
      using k nid by (auto simp: j o_def ids keyed_def new)
    moreover have "\<forall>r \<in> set (br_jobs s'). wj_id r < br_next s'"
      using k n nid fid by (fastforce simp: j keyed_def)
    ultimately show ?thesis by (simp add: keyed_def)
  qed
  then have "work_inv s \<longrightarrow> work_inv s'"
    using n unfolding work_inv_def t by (meson keyed_mono housed_mono le_add1 le_trans)
  moreover have "jobs_kept K s s'"
    unfolding jobs_kept_def j using f quiet nid by (auto; blast)
  moreover have "one_live s' = one_live s" "scopes_apart s' = scopes_apart s"
    unfolding one_live_def scopes_apart_def t by (rule refl)+
  ultimately show ?thesis using n unfolding moved_def by simp
qed

definition task_kept :: "wtask \<Rightarrow> wtask \<Rightarrow> bool" where
  "task_kept t t' \<longleftrightarrow> wt_id t' = wt_id t \<and> wt_session t' = wt_session t
     \<and> (wt_state t' = ''in_progress'' \<longrightarrow> wt_state t = ''in_progress'' \<and> wt_scope t' = wt_scope t \<and> wt_files t' = wt_files t)"

lemma moved_tasks:
  assumes same: "br_jobs s' = br_jobs s" "br_handoffs s' = br_handoffs s"
    and t: "br_tasks s' = map f (br_tasks s) @ new" and n: "br_next s + length new \<le> br_next s'"
    and f: "\<And>t. task_kept t (f t)"
    and new: "map wt_id new = [br_next s..<br_next s + length new]"
    and quiet: "\<And>t. t \<in> set new \<Longrightarrow> wt_state t \<noteq> ''in_progress''"
  shows "moved K s s'"
proof -
  have fid: "wt_id (f t) = wt_id t" for t using f [of t] by (simp add: task_kept_def)
  have nid: "br_next s \<le> wt_id j \<and> wt_id j < br_next s + length new" if "j \<in> set new" for j
    using that new by (metis atLeastLessThan_iff image_eqI set_map set_upt)
  have "keyed wt_id (br_next s') (br_tasks s')" if k: "keyed wt_id (br_next s) (br_tasks s)"
  proof -
    have "distinct (map wt_id (br_tasks s'))"
      using k nid by (auto simp: t o_def fid keyed_def new)
    moreover have "\<forall>r \<in> set (br_tasks s'). wt_id r < br_next s'"
      using k n nid fid by (fastforce simp: t keyed_def)
    ultimately show ?thesis by (simp add: keyed_def)
  qed
  moreover have "list_all (housed_in (br_next s') (br_tasks s')) (br_handoffs s)"
    if h: "list_all (housed_in (br_next s) (br_tasks s)) (br_handoffs s)"
  proof (unfold list_all_iff housed_in_def, intro ballI conjI impI)
    fix g assume g: "g \<in> set (br_handoffs s)"
    then have low: "wh_task g < br_next s" using h by (simp add: list_all_iff housed_in_def)
    then show "wh_task g < br_next s'" using n by linarith
    fix u assume u: "u \<in> set (br_tasks s')" "wt_id u = wh_task g"
    then have "u \<notin> set new" using low nid by fastforce
    then obtain u0 where u0: "u0 \<in> set (br_tasks s)" "u = f u0" using u(1) unfolding t by auto
    then have "wt_id u0 = wh_task g" "wt_session u = wt_session u0" using f [of u0] u(2) by (simp_all add: task_kept_def)
    then show "wt_session u = wh_session g" using h g u0(1) by (simp add: list_all_iff housed_in_def)
  qed
  ultimately have "work_inv s \<longrightarrow> work_inv s'"
    using n unfolding work_inv_def same by (meson keyed_mono le_add1 le_trans)
  moreover have "scopes_apart s'" if s: "scopes_apart s"
  proof (unfold scopes_apart_def, intro ballI impI)
    fix a b assume ab: "a \<in> set (br_tasks s')" "b \<in> set (br_tasks s')"
      and r: "wt_state a = ''in_progress'' \<and> wt_state b = ''in_progress'' \<and> wt_session a = wt_session b \<and> wt_id a \<noteq> wt_id b"
    obtain a0 where a0: "a0 \<in> set (br_tasks s)" "a = f a0" using ab(1) r quiet unfolding t by auto
    obtain b0 where b0: "b0 \<in> set (br_tasks s)" "b = f b0" using ab(2) r quiet unfolding t by auto
    have "\<not> scopes_clash a0 b0"
      using s a0 b0 r f [of a0] f [of b0] unfolding scopes_apart_def task_kept_def by simp
    then show "\<not> scopes_clash a b"
      using a0 b0 r f [of a0] f [of b0] unfolding scopes_clash_def task_kept_def by simp
  qed
  moreover have "one_live s' = one_live s" unfolding one_live_def same by (rule refl)
  ultimately show ?thesis using n jobs_kept_same [OF same(1)] unfolding moved_def by simp
qed

text \<open>A new live handoff comes after the live ones of its task were superseded.\<close>

lemma moved_handoffs:
  assumes same: "br_jobs s' = br_jobs s" "br_tasks s' = br_tasks s"
    and h: "br_handoffs s' = map f (br_handoffs s) @ new" and n: "br_next s + length new \<le> br_next s'"
    and f: "\<And>h. wh_id (f h) = wh_id h \<and> wh_task (f h) = wh_task h \<and> wh_session (f h) = wh_session h \<and> (live_handoff (f h) \<longrightarrow> live_handoff h)"
    and new: "map wh_id new = [br_next s..<br_next s + length new]" "length new \<le> 1"
    and house: "list_all (housed_in (br_next s) (br_tasks s)) new"
    and gone: "\<And>h g. h \<in> set (br_handoffs s) \<Longrightarrow> g \<in> set new \<Longrightarrow> live_handoff (f h) \<Longrightarrow> wh_task h \<noteq> wh_task g"
  shows "moved K s s'"
proof -
  have nid: "br_next s \<le> wh_id j \<and> wh_id j < br_next s + length new" if "j \<in> set new" for j
    using that new by (metis atLeastLessThan_iff image_eqI set_map set_upt)
  have "keyed wh_id (br_next s') (br_handoffs s')" if k: "keyed wh_id (br_next s) (br_handoffs s)"
  proof -
    have "distinct (map wh_id (br_handoffs s'))"
      using k nid by (auto simp: h o_def f keyed_def new)
    moreover have "\<forall>r \<in> set (br_handoffs s'). wh_id r < br_next s'"
      using k n nid f by (fastforce simp: h keyed_def)
    ultimately show ?thesis by (simp add: keyed_def)
  qed
  moreover have "list_all (housed_in (br_next s') (br_tasks s)) (br_handoffs s')"
    if "list_all (housed_in (br_next s) (br_tasks s)) (br_handoffs s)"
  proof -
    have "list_all (housed_in (br_next s) (br_tasks s)) (br_handoffs s')"
      using that house unfolding h list_all_append by (simp add: list_all_iff housed_in_def f)
    then show ?thesis using n by (auto intro: housed_mono)
  qed
  ultimately have "work_inv s \<longrightarrow> work_inv s'"
    using n unfolding work_inv_def same by (meson keyed_mono le_add1 le_trans)
  moreover have "one_live s'" if s: "one_live s"
  proof (unfold one_live_def, intro ballI impI)
    fix a b assume ab: "a \<in> set (br_handoffs s')" "b \<in> set (br_handoffs s')"
      and r: "live_handoff a \<and> live_handoff b \<and> wh_task a = wh_task b"
    have one: "a = b" if "a \<in> set new" "b \<in> set new" using new(2) that by (cases new) auto
    have clash: False if x: "x \<in> f ` set (br_handoffs s)" "y \<in> set new" "live_handoff x" "wh_task x = wh_task y" for x y
      using x gone f by fastforce
    from ab consider "a \<in> set new" "b \<in> set new" | "a \<in> f ` set (br_handoffs s)" "b \<in> set new"
      | "a \<in> set new" "b \<in> f ` set (br_handoffs s)" | "a \<in> f ` set (br_handoffs s)" "b \<in> f ` set (br_handoffs s)"
      unfolding h by auto
    then show "wh_id a = wh_id b"
    proof cases
      case 1
      then show ?thesis using one by simp
    next
      case 2
      then show ?thesis using clash [of a b] r by simp
    next
      case 3
      then show ?thesis using clash [of b a] r by simp
    next
      case 4
      then obtain a0 b0 where a0: "a0 \<in> set (br_handoffs s)" "a = f a0" and b0: "b0 \<in> set (br_handoffs s)" "b = f b0" by blast
      have "live_handoff a0" "live_handoff b0" "wh_task a0 = wh_task b0" using r f a0(2) b0(2) by metis+
      then have "wh_id a0 = wh_id b0" using s a0(1) b0(1) unfolding one_live_def by blast
      then show ?thesis using f a0(2) b0(2) by metis
    qed
  qed
  moreover have "scopes_apart s' = scopes_apart s" unfolding scopes_apart_def same by (rule refl)
  ultimately show ?thesis using n jobs_kept_same [OF same(1)] unfolding moved_def by simp
qed

section \<open>Small updates\<close>

lemma moved_add_entry [moves]: "moved K s (add_entry L now sid d w c m s)"
  by (rule moved_same) (simp_all add: add_entry_def Let_def)

lemma moved_task_event [moves]: "moved K s (append_task_event now sid t h k w p s)"
  by (rule moved_same) (simp_all add: append_task_event_def)

lemma moved_upsert [moves]: "moved K s (upsert_orchestration_presence L now sid w st ttl s)"
  by (rule moved_same) (simp_all add: upsert_orchestration_presence_def)

lemma moved_agent_upd [moves]: "moved K s (agent_upd sid name f s)"
  by (rule moved_same) (simp_all add: agent_upd_def)

lemma moved_session_upd [moves]: "moved K s (session_upd sid f s)"
  by (rule moved_same) (simp_all add: session_upd_def)

lemma moved_each_agent [moves]: "moved K s (each_agent sid f s)"
  by (rule moved_same) (simp_all add: each_agent_def)

lemma moved_operation [moves]: "moved K s (add_operation now sid k st w i t s)"
  by (rule moved_same) (simp_all add: add_operation_def)

lemma moved_queue_job [moves]: "moved K s (queue_job now sid agent kind msg user input epoch once s)"
  by (rule moved_jobs [where f = "\<lambda>j. j" and new = "[last (br_jobs (queue_job now sid agent kind msg user input epoch once s))]"])
    (auto simp: queue_job_def job_kept_refl)

lemma moved_job_upd:
  assumes "\<And>j. j \<in> set (br_jobs s) \<Longrightarrow> wj_id j = k \<Longrightarrow> job_kept K j (f j)"
  shows "moved K s (job_upd k f s)"
  by (rule moved_jobs [where f = "\<lambda>j. if wj_id j = k then f j else j" and new = "[]"])
    (use assms in \<open>auto simp: job_upd_def row_upd_def job_kept_refl\<close>)

lemma moved_task_upd:
  assumes "\<And>t. task_kept t (f t)"
  shows "moved K s (task_upd k f s)"
  by (rule moved_tasks [where f = "\<lambda>t. if wt_id t = k then f t else t" and new = "[]"])
    (use assms in \<open>auto simp: task_upd_def row_upd_def task_kept_def\<close>)

lemma moved_handoff_upd:
  assumes "\<And>h. wh_id (f h) = wh_id h \<and> wh_task (f h) = wh_task h \<and> wh_session (f h) = wh_session h \<and> (live_handoff (f h) \<longrightarrow> live_handoff h)"
  shows "moved K s (handoff_upd k f s)"
  by (rule moved_handoffs [where f = "\<lambda>h. if wh_id h = k then f h else h" and new = "[]"])
    (use assms in \<open>auto simp: handoff_upd_def row_upd_def\<close>)

lemma moved_fold: "(\<And>x s. moved {} s (f x s)) \<Longrightarrow> moved {} s (fold f xs s)"
  by (induction xs arbitrary: s) (auto intro: moved_refl moved_after)

section \<open>Chains\<close>

definition keeps :: "(bridge \<Rightarrow> (bridge_error + 'a) \<times> bridge) \<Rightarrow> bool" where
  "keeps m \<longleftrightarrow> (\<forall>s. moved {} s (snd (m s)))"

lemma keeps_bind: "keeps m \<Longrightarrow> (\<And>x. keeps (f x)) \<Longrightarrow> keeps (bindS m f)"
  unfolding keeps_def
proof
  fix s assume m: "\<forall>s. moved {} s (snd (m s))" and f: "\<And>x. \<forall>s. moved {} s (snd (f x s))"
  obtain r s1 where r: "m s = (r, s1)" by (cases "m s")
  with m have "moved {} s s1" by (metis snd_conv)
  then show "moved {} s (snd (bindS m f s))"
    using f by (cases r) (auto simp: bindS_def r intro: moved_after)
qed

lemma moved_bindS:
  assumes "moved K s (snd (m s))" "\<And>x s1. m s = (Inr x, s1) \<Longrightarrow> moved {} s1 (snd (f x s1))"
  shows "moved K s (snd (bindS m f s))"
proof -
  obtain r s1 where r: "m s = (r, s1)" by (cases "m s")
  with assms(1) have "moved K s s1" by simp
  then show ?thesis
    using assms(2) by (cases r) (auto simp: bindS_def r intro: moved_before)
qed

lemma keeps_done: "keeps (doneS x)"
  by (simp add: keeps_def doneS_def moved_refl)

lemma keeps_fail: "keeps (failS e)"
  by (simp add: keeps_def failS_def moved_refl)

lemma moved_done [simp]: "snd (doneS x s) = s"
  by (simp add: doneS_def)

lemma moved_fail [simp]: "snd (failS e s) = s"
  by (simp add: failS_def)

lemma keeps_require:
  "keeps (require_session k)" "keeps (require_agent k name)" "keeps (thread_session thread)" "keeps (require_job i k name w)"
  by (simp_all add: keeps_def require_session_def require_agent_def thread_session_def require_job_def moved_refl split: option.split)

lemma keeps_with_presence: "keeps (with_presence f)"
  unfolding keeps_def with_presence_def
  by (auto simp: moved_refl split: sum.split intro: moved_same)

lemma keeps_leases:
  "keeps (claim_orchestration_job_lease L now j w)"
  "keeps (heartbeat_orchestration_job_lease L now j w)"
  "keeps (release_orchestration_job_lease L now j w)"
  using keeps_with_presence keeps_done
  by (auto simp: keeps_def claim_orchestration_job_lease_def heartbeat_orchestration_job_lease_def
      release_orchestration_job_lease_def moved_refl split: option.split)

lemma moved_in_scope:
  assumes "moved K s (snd (f s))" shows "moved K s (snd (in_scope f s))"
  using assms by (auto simp: in_scope_def split: prod.split sum.split intro: moved_same)

end
