(* ===== verification/SessionKeeps.thy ===== *)
theory SessionKeeps
  imports SessionMoves
begin

text \<open>
  The requests that start no job: results, failures, heartbeats, registrations, messages, restart,
  reset, pause, resume and close. Each is \<open>moved {}\<close>.
\<close>

section \<open>Successful runs\<close>

lemma moved_if_inv: "br_next s \<le> br_next s' \<Longrightarrow> (work_inv s \<Longrightarrow> moved K s s') \<Longrightarrow> moved K s s'"
  unfolding moved_def by blast

lemma moved_scope:
  assumes "\<And>x s'. f s = (Inr x, s') \<Longrightarrow> moved K s s'"
  shows "moved K s (snd (in_scope f s))"
  using assms by (cases "f s"; cases "fst (f s)") (auto simp: in_scope_def intro!: moved_same)

lemma in_scope_Inr: "in_scope f s = (Inr x, s') \<longleftrightarrow> f s = (Inr x, s')"
  by (auto simp: in_scope_def split: prod.splits sum.splits)

definition keepsR :: "(bridge \<Rightarrow> (bridge_error + 'a) \<times> bridge) \<Rightarrow> bool" where
  "keepsR m \<longleftrightarrow> (\<forall>s x s'. m s = (Inr x, s') \<longrightarrow> moved {} s s')"

lemma keepsRD: "keepsR m \<Longrightarrow> m s = (Inr x, s') \<Longrightarrow> moved {} s s'"
  unfolding keepsR_def by blast

lemma keepsR_keeps: "keeps m \<Longrightarrow> keepsR m"
  unfolding keeps_def keepsR_def by (metis snd_conv)

lemma keepsR_bind:
  assumes "keepsR m" "\<And>x. keepsR (f x)" shows "keepsR (bindS m f)"
  unfolding keepsR_def bindS_Inr_iff
proof (intro allI impI, elim exE conjE)
  fix s y s' x s1
  assume "m s = (Inr x, s1)" "f x s1 = (Inr y, s')"
  then show "moved {} s s'" using moved_after [OF keepsRD [OF assms(1)] keepsRD [OF assms(2)]] by blast
qed

lemma keepsR_done: "(\<And>s. moved {} s (g s)) \<Longrightarrow> keepsR (\<lambda>s. doneS x (g s))"
  by (auto simp: keepsR_def doneS_def)

lemmas keepsR_steps = keepsR_keeps [OF keeps_done] keepsR_keeps [OF keeps_fail]
  keeps_require [THEN keepsR_keeps] keeps_leases [THEN keepsR_keeps]

lemma moved_refreshed [moves]: "moved {} s (snd (refresh_session_startup_state now sid p s))"
  by (auto simp: refresh_session_startup_state_def Let_def moved_refl moved_session_upd split: option.split)

section \<open>Handoffs and discussions\<close>

lemma task_kept_redirect: "task_kept t (redirect_task now row target source h body t)"
  by (simp add: task_kept_def redirect_task_def)

lemma keepsR_upsert: "keepsR (upsert_task_for_handoff now row source h)"
proof -
  have new: "moved {} s (s\<lparr>br_tasks := br_tasks s @ [t], br_next := Suc (br_next s)\<rparr>)"
    if "wt_id t = br_next s" "wt_state t = ''ready''" for s :: bridge and t
    by (rule moved_tasks [where f = "\<lambda>t. t" and new = "[t]"]) (use that in \<open>auto simp: task_kept_def\<close>)
  have fresh: "wt_id (fresh_task now row target source h body k key) = k"
    "wt_state (fresh_task now row target source h body k key) = ''ready''" for target body k key
    by (simp_all add: fresh_task_def)
  show ?thesis
    unfolding upsert_task_for_handoff_def
  proof (rule keepsR_bind)
    fix target
    show "keepsR (\<lambda>s. let body = normalize_task_payload_text (hr_body h); key = handoff_task_key (ws_id row) h s
       in case task_by_key (ws_id row) key s of
            None \<Rightarrow>
              (let t = fresh_task now row target source h body (br_next s) key
               in doneS (t, body, False) (s\<lparr>br_tasks := br_tasks s @ [t], br_next := Suc (br_next s)\<rparr>))
          | Some t \<Rightarrow>
              (if is_duplicate_ready_handoff row t (hr_target h) body s then doneS (t, body, True) s
               else doneS (redirect_task now row target source h body t, body, False)
                      (task_upd (wt_id t) (redirect_task now row target source h body) s)))"
      unfolding keepsR_def
      by (auto simp: Let_def doneS_def new fresh moved_refl task_kept_redirect moved_task_upd split: option.splits if_splits)
  qed (rule keepsR_steps)
qed

lemma moved_live_handoff:
  assumes "wh_id h = br_next s" "wh_task h = k" "housed_in (br_next s) (br_tasks s) h"
  shows "moved {} s (add_handoff h (supersede_handoffs now k s))"
  by (rule moved_handoffs [where new = "[h]" and f = "\<lambda>h. if wh_task h = k \<and> live_handoff h
          then h\<lparr>wh_state := ''superseded'', wh_updated := now,
                  wh_consumed := (case wh_consumed h of None \<Rightarrow> Some now | t \<Rightarrow> t)\<rparr> else h"])
    (use assms in \<open>auto simp: supersede_handoffs_def add_handoff_def live_handoff_def split: if_splits\<close>)

text \<open>The task that was looked up or made is in the session of the request.\<close>

definition has_task :: "wsession \<Rightarrow> wtask \<Rightarrow> bridge \<Rightarrow> bool" where
  "has_task row t s \<longleftrightarrow> (\<exists>u \<in> set (br_tasks s). wt_id u = wt_id t \<and> wt_session u = ws_id row)"

lemma upsert_has_task:
  assumes "upsert_task_for_handoff now row source h s = (Inr x, s')"
  shows "has_task row (fst x) s'"
proof -
  have found: "t \<in> set (br_tasks s) \<and> wt_session t = ws_id row" if "task_by_key (ws_id row) key s = Some t" for key t s
    using find_SomeD [OF that [unfolded task_by_key_def]] by blast
  have same: "wt_id (redirect_task now row a source h b t) = wt_id t" "wt_session (redirect_task now row a source h b t) = wt_session t" for a b t
    by (simp_all add: redirect_task_def)
  have new: "wt_session (fresh_task now row a source h b k key) = ws_id row" for a b k key by (simp add: fresh_task_def)
  obtain a s1 where r: "(let body = normalize_task_payload_text (hr_body h); key = handoff_task_key (ws_id row) h s1
       in case task_by_key (ws_id row) key s1 of
            None \<Rightarrow>
              (let t = fresh_task now row a source h body (br_next s1) key
               in doneS (t, body, False) (s1\<lparr>br_tasks := br_tasks s1 @ [t], br_next := Suc (br_next s1)\<rparr>))
          | Some t \<Rightarrow>
              (if is_duplicate_ready_handoff row t (hr_target h) body s1 then doneS (t, body, True) s1
               else doneS (redirect_task now row a source h body t, body, False)
                      (task_upd (wt_id t) (redirect_task now row a source h body) s1)))
      = (Inr x :: bridge_error + wtask \<times> string \<times> bool, s')"
    using assms unfolding upsert_task_for_handoff_def bindS_Inr_iff by blast
  show ?thesis
  proof (cases "task_by_key (ws_id row) (handoff_task_key (ws_id row) h s1) s1")
    case None
    then show ?thesis using r by (auto simp: Let_def doneS_def has_task_def new)
  next
    case (Some t)
    note t = found [OF Some]
    show ?thesis
    proof (cases "is_duplicate_ready_handoff row t (hr_target h) (normalize_task_payload_text (hr_body h)) s1")
      case True
      then have "fst x = t" "s' = s1" using r Some by (auto simp: Let_def doneS_def)
      then show ?thesis using t by (auto simp: has_task_def)
    next
      case False
      let ?f = "redirect_task now row a source h (normalize_task_payload_text (hr_body h))"
      from False have x: "fst x = ?f t" and s': "s' = task_upd (wt_id t) ?f s1" using r Some by (auto simp: Let_def doneS_def)
      have "?f t \<in> set (br_tasks s')" using t unfolding s' by (force simp: task_upd_def row_upd_def)
      then show ?thesis unfolding has_task_def x using t same by metis
    qed
  qed
qed

lemma moved_post_handoff:
  assumes "has_task row t s" shows "moved {} s (post_handoff L now row source j h t body s)"
proof (rule moved_if_inv)
  let ?s1 = "supersede_handoffs now (wt_id t) s"
  let ?h = "handoff_row now row source j h t body ?s1"
  assume inv: "work_inv s"
  obtain u where u: "u \<in> set (br_tasks s)" "wt_id u = wt_id t" "wt_session u = ws_id row"
    using assms by (auto simp: has_task_def)
  have "wt_session v = ws_id row" if "v \<in> set (br_tasks s)" "wt_id v = wt_id t" for v
  proof -
    have "v = u" using inv that u by (simp add: work_inv_def keyed_def distinct_map inj_on_def)
    then show ?thesis using u by simp
  qed
  moreover have "wt_id t < br_next s" using inv u by (auto simp: work_inv_def keyed_def)
  moreover have k: "wh_id ?h = br_next s" "wh_task ?h = wt_id t" "wh_session ?h = ws_id row"
    by (simp_all add: handoff_row_def supersede_handoffs_def)
  ultimately have "housed_in (br_next s) (br_tasks s) ?h" by (simp add: housed_in_def)
  from moved_live_handoff [OF k(1,2) this] show "moved {} s (post_handoff L now row source j h t body s)"
    unfolding post_handoff_def Let_def by (rule moved_before [OF moved_before [OF _ moved_task_event] moved_add_entry])
qed (simp add: post_handoff_def Let_def add_entry_def append_task_event_def add_handoff_def supersede_handoffs_def)

lemma keepsR_queue_handoff: "keepsR (queue_handoff L now row source j h)"
  unfolding keepsR_def queue_handoff_def bindS_Inr_iff
proof (intro allI impI, elim exE conjE)
  fix s y s' x s1
  assume up: "upsert_task_for_handoff now row source h s = (Inr x, s1)"
    and e: "(if snd (snd x)
       then doneS [] (note_entry L now (ws_id row) ''bridge'' (duplicate_note (hr_target h) (wt_key (fst x)) (fst (snd x))) (wj_message j) s1)
       else doneS [handoff_detail (fst x) (hr_target h) (fst (snd x))]
              (post_handoff L now row source j h (fst x) (fst (snd x)) s1)) = (Inr y, s')"
  have "moved {} s1 s'"
    using e moved_post_handoff [OF upsert_has_task [OF up]] by (auto simp: doneS_def moved_add_entry split: if_splits)
  then show "moved {} s s'" by (rule moved_after [OF keepsRD [OF keepsR_upsert up]])
qed

lemma keepsR_queue_each: "(\<And>x. keepsR (f x)) \<Longrightarrow> keepsR (queue_each f xs)"
proof (induction xs)
  case (Cons x xs)
  have "queue_each f (x # xs) = bindS (f x) (\<lambda>d. bindS (queue_each f xs) (\<lambda>ds. doneS (d @ ds)))"
    by (rule ext) simp
  moreover have "keepsR (bindS (f x) (\<lambda>d. bindS (queue_each f xs) (\<lambda>ds. doneS (d @ ds))))"
    using Cons by (intro keepsR_bind keepsR_steps) auto
  ultimately show ?case by (simp only:)
qed (simp add: keepsR_def doneS_def moved_refl)

lemmas moved_queue_note = moved_before [OF moved_queue_job moved_add_entry]

lemma moved_curator_event [moves]: "moved {} s (snd (queue_curator_event L now row source j cause ds s))"
  unfolding queue_curator_event_def Let_def by (simp add: moved_refl moved_queue_note split: option.split)

lemma keepsR_tell_curator: "keepsR (tell_curator L now row source j cause ds)"
  unfolding tell_curator_def by (rule keepsR_done) (simp add: moved_refl moved_curator_event)

lemma keepsR_queue_handoffs: "keepsR (queue_handoffs L now row source j hs)"
  unfolding queue_handoffs_def by (intro keepsR_bind keepsR_queue_each keepsR_queue_handoff keepsR_tell_curator)

lemma keepsR_queue_discussions: "keepsR (queue_discussions L now row source j ds)"
proof -
  have one: "moved {} s (queue_discussion_to L now sid source j d verb t s)" for s sid d verb t
    unfolding queue_discussion_to_def Let_def by (rule moved_before [OF moved_queue_job moved_add_entry])
  let ?g = "\<lambda>s. fold (\<lambda>d. fold (queue_discussion_to L now (ws_id row) source j d (discussion_verb d)) (discussion_targets d)) ds s"
  have each: "moved {} s (?g s)" for s
    by (rule moved_fold, rule moved_fold, rule one)
  have "tell_curator L now row source j ''discussion_update'' (discussion_details ds) (?g s) = (Inr x, s') \<Longrightarrow> moved {} (?g s) s'" for s x s'
    by (rule keepsRD [OF keepsR_tell_curator])
  then show ?thesis
    unfolding keepsR_def queue_discussions_def using moved_after [OF each] by blast
qed

lemma moved_repair [moves]: "moved {} s (snd (queue_planner_handoff_repair L now row source j rs s))"
  unfolding queue_planner_handoff_repair_def Let_def by (simp add: moved_refl moved_queue_note split: option.split)

lemma moved_handoff_rejections [moves]: "moved {} s (record_handoff_rejections L now row source j rs s)"
proof -
  have "moved {} s (fold (\<lambda>r. note_entry L now (ws_id row) ''bridge'' (rejection_note ''Handoff'' source r) (wj_message j)) rs s)"
    by (rule moved_fold) (rule moved_add_entry)
  then show ?thesis
    unfolding record_handoff_rejections_def using moved_refl moved_before [OF _ moved_repair] by simp
qed

lemma moved_discussion_rejections [moves]: "moved {} s (record_discussion_rejections L now sid source j rs s)"
  unfolding record_discussion_rejections_def by (rule moved_fold) (rule moved_add_entry)

lemma moved_planner_recovery [moves]: "moved {} s (snd (queue_planner_recovery L now row j agent err s))"
  unfolding queue_planner_recovery_def Let_def by (simp add: moved_refl moved_queue_note split: option.split)

section \<open>The task of a finished job\<close>

lemma moved_settle:
  "outcome \<notin> {''queued'', ''claimed''} \<Longrightarrow> moved {} s (snd (settle_handoff now outcome j s))"
  unfolding settle_handoff_def
  by (auto simp: moved_refl live_handoff_def settled_handoff_def intro!: moved_handoff_upd split: option.split)

lemma moved_settle_task:
  assumes "\<And>t. task_kept t (f t)" "outcome \<notin> {''queued'', ''claimed''}"
  shows "moved {} s (settle_task now row j who f outcome kind extra s)"
proof (cases "job_task j s")
  case (Some t)
  show ?thesis
    unfolding settle_task_def Some option.case Let_def
    by (rule moved_before [OF moved_after [OF moved_task_upd moved_settle] moved_task_event]) (rule assms)+
qed (simp add: settle_task_def moved_refl)

lemma moved_completed_task: "moved {} s (synchronize_completed_task now row j who report q hs s)"
  unfolding synchronize_completed_task_def
  by (rule moved_settle_task) (auto simp: task_kept_def completed_task_def completed_state_def READY_TASK_STATES_def)

lemma moved_failed_task: "moved {} s (synchronize_failed_task now row j who err s)"
  unfolding synchronize_failed_task_def by (rule moved_settle_task) (auto simp: task_kept_def failed_task_def)

section \<open>Results\<close>

text \<open>A job that is not terminal takes an outcome.\<close>

lemma moved_outcome:
  assumes j: "j \<in> set (br_jobs s)" "\<not> terminal j"
    and f: "\<And>x. job_kept {} j (f j)"
  shows "moved {} s (job_upd (wj_id j) f s)"
proof (rule moved_if_inv)
  assume "work_inv s"
  then have d: "distinct (map wj_id (br_jobs s))" by (simp add: work_inv_def keyed_def)
  show "moved {} s (job_upd (wj_id j) f s)"
  proof (rule moved_job_upd)
    fix i assume "i \<in> set (br_jobs s)" "wj_id i = wj_id j"
    then have "i = j" using d j(1) by (simp add: distinct_map inj_on_def)
    then show "job_kept {} i (f i)" using f by simp
  qed
qed (simp add: job_upd_def)

lemma end_job_moved:
  assumes "end_job L now row j a f pid err s = (Inr x, s')" and j: "j \<in> set (br_jobs s)" "\<not> terminal j" "job_kept {} j (f j)"
  shows "moved {} s s'"
proof -
  obtain s1 where r: "release_orchestration_job_lease L now j (wa_name a) (job_upd (wj_id j) f s) = (Inr (), s1)"
    and s': "s' = upsert_orchestration_presence L now (ws_id row) (wa_name a) (if ws_desired row = ''paused'' then ''paused'' else ''idle'')
         ORCHESTRATION_PRESENCE_TTL_SECONDS (agent_upd (ws_id row) (wa_name a) (rested now row pid err) s1)"
    using assms(1) unfolding end_job_def bindS_Inr_iff doneS_def by auto
  have "moved {} s (job_upd (wj_id j) f s)" by (rule moved_outcome) (rule j)+
  moreover have "moved {} (job_upd (wj_id j) f s) s1" using keepsRD [OF keeps_leases(3) [THEN keepsR_keeps] r] .
  ultimately show ?thesis unfolding s' by (rule moved_before [OF moved_before [OF moved_after moved_agent_upd] moved_upsert])
qed

lemma job_kept_outcomes:
  assumes "\<not> terminal j"
  shows "job_kept {} j (completed now d j)" "job_kept {} j (failed now e j)" "job_kept {} j (cancelled now w j)"
  using assms by (auto simp: job_kept_def completed_def failed_def cancelled_def)

lemma apply_completion_moved:
  assumes "apply_completion W now q j a row s = (Inr x, s')" "j \<in> set (br_jobs s)" "\<not> terminal j"
  shows "moved {} s s'"
proof -
  let ?u = "extract_control_updates (agents_of (ws_id row) s) (sanitize_text (rp_text q)) (rp_agent q)"
  obtain d u1 u2 u3 s1 s2 s3 where
    1: "end_job (dk_lib W) now row j a (completed now d) (rp_pid q) None s = (Inr u1, s1)"
    and 2: "queue_handoffs (dk_lib W) now row (rp_agent q) j (cu_handoffs ?u) s1 = (Inr u2, s2)"
    and 3: "queue_discussions (dk_lib W) now row (rp_agent q) j (cu_discussions ?u) s2 = (Inr u3, s3)"
    and s': "synchronize_completed_task now row j (rp_agent q) (cu_visible ?u)
                      (contains ''[[question]]'' (lower (sanitize_text (rp_text q)))) (cu_handoffs ?u)
                      (record_discussion_rejections (dk_lib W) now (ws_id row) (rp_agent q) j (cu_bad_discussions ?u)
                        (record_handoff_rejections (dk_lib W) now row (rp_agent q) j (cu_bad_handoffs ?u) s3)) = s'"
    using assms(1) unfolding apply_completion_def Let_def bindS_Inr_iff doneS_def prod.inject by blast
  have "moved {} s s1" using end_job_moved [OF 1 assms(2,3) job_kept_outcomes(1) [OF assms(3)]] .
  moreover have "moved {} s1 s2" "moved {} s2 s3"
    using keepsRD [OF keepsR_queue_handoffs 2] keepsRD [OF keepsR_queue_discussions 3] by simp_all
  ultimately have "moved {} s s3" using moved_after by blast
  then show ?thesis unfolding s' [symmetric]
    by (rule moved_before [OF moved_before [OF moved_before [OF _ moved_handoff_rejections] moved_discussion_rejections] moved_completed_task])
qed

lemma apply_failure_moved:
  assumes "apply_failure W now q j a row s = (Inr x, s')" "j \<in> set (br_jobs s)" "\<not> terminal j"
  shows "moved {} s s'"
proof -
  let ?e = "sanitize_text (rp_text q)"
  obtain u1 s1 where 1: "end_job (dk_lib W) now row j a (failed now ?e) (rp_pid q) (Some ?e) s = (Inr u1, s1)"
    and s': "snd (queue_planner_recovery (dk_lib W) now row j (rp_agent q) ?e
                        (synchronize_failed_task now row j (rp_agent q) ?e s1)) = s'"
    using assms(1) unfolding apply_failure_def Let_def bindS_Inr_iff doneS_def prod.inject by blast
  show ?thesis unfolding s' [symmetric]
    by (rule moved_before [OF moved_before [OF end_job_moved [OF 1 assms(2,3) job_kept_outcomes(2) [OF assms(3)]] moved_failed_task] moved_planner_recovery])
qed

lemma require_jobD:
  "require_job k sid agent worker s = (Inr j, s') \<Longrightarrow>
     s' = s \<and> j \<in> set (br_jobs s) \<and> wj_id j = k \<and> wj_session j = sid \<and> wj_agent j = agent \<and> (wj_worker j = None \<or> wj_worker j = Some worker)"
  unfolding require_job_def failS_def doneS_def by (auto split: option.splits if_splits dest: find_SomeD)

lemma require_agentD: "require_agent k name s = (Inr a, s') \<Longrightarrow> s' = s \<and> a \<in> set (br_agents s) \<and> wa_session a = k \<and> wa_name a = name"
  unfolding require_agent_def agent_row_def failS_def doneS_def by (auto split: option.splits dest: find_SomeD)

lemma require_sessionD: "require_session k s = (Inr r, s') \<Longrightarrow> s' = s \<and> session_row k s = Some r"
  unfolding require_session_def failS_def doneS_def by (auto split: option.splits)

lemma on_live_job_moved:
  assumes act: "\<And>j a row s x s'. act j a row s = (Inr x, s') \<Longrightarrow> j \<in> set (br_jobs s) \<Longrightarrow> \<not> terminal j \<Longrightarrow> moved {} s s'"
  shows "moved {} s (snd (on_live_job act q s))"
  unfolding on_live_job_def
proof (rule moved_scope)
  fix x s'
  assume "bindS (require_job (rp_job q) (rp_session q) (rp_agent q) (rp_worker q)) (\<lambda>j.
      bindS (require_agent (rp_session q) (rp_agent q)) (\<lambda>a.
      bindS (require_session (rp_session q)) (\<lambda>row.
        if wj_status j \<in> set TERMINAL_JOB_STATES then doneS None
        else if \<not> validate_job_concurrency j row (rp_token q) (rp_rev q) (rp_epoch q) then doneS None
        else act j a row))) s = (Inr x, s')"
  then obtain j a row where j: "j \<in> set (br_jobs s)"
    and r: "(if wj_status j \<in> set TERMINAL_JOB_STATES then doneS None
        else if \<not> validate_job_concurrency j row (rp_token q) (rp_rev q) (rp_epoch q) then doneS None
        else act j a row) s = (Inr x, s')"
    unfolding bindS_Inr_iff by (blast dest: require_jobD require_agentD require_sessionD)
  show "moved {} s s'"
  proof (cases "terminal j \<or> \<not> validate_job_concurrency j row (rp_token q) (rp_rev q) (rp_epoch q)")
    case True
    then have "s' = s" using r by (auto simp: doneS_def split: if_splits)
    then show ?thesis by (simp add: moved_refl)
  next
    case False
    then show ?thesis using r act j by auto
  qed
qed

lemma moved_complete_job: "moved {} s (snd (complete_job W now q s))"
  unfolding complete_job_def by (rule on_live_job_moved) (rule apply_completion_moved)

lemma moved_fail_job: "moved {} s (snd (fail_job W now q s))"
  unfolding fail_job_def by (rule on_live_job_moved) (rule apply_failure_moved)

section \<open>Workers and operators\<close>

lemma moved_record_outbound: "moved {} s (record_outbound_thread_messages L now sid agent chunks s)"
  unfolding record_outbound_thread_messages_def by (rule moved_fold) (auto simp: moved_add_entry split: prod.split)

lemma moved_register_worker: "moved {} s (snd (register_worker L now sid agent worker pid s))"
  unfolding register_worker_def
proof (rule moved_scope, unfold bindS_Inr_iff, elim exE conjE)
  fix x s' row s1 a s2
  assume r: "require_session sid s = (Inr row, s1)" "require_agent sid agent s1 = (Inr a, s2)"
    and e: "(let s1 = session_upd sid brought_online (agent_upd sid agent (enlisted now row worker pid) s2);
            (message, s2) = refresh_session_startup_state now sid (ws_status row) s1;
            s3 = note_entry L now sid agent (''Worker '' @ worker @ '' registered for agent '' @ agent @ ''.'') None s2
        in doneS message (upsert_orchestration_presence L now sid agent
             (if ws_desired row = ''paused'' then ''paused'' else ''idle'') ORCHESTRATION_PRESENCE_TTL_SECONDS s3)) = (Inr x, s')"
  let ?s1 = "session_upd sid brought_online (agent_upd sid agent (enlisted now row worker pid) s2)"
  obtain c st d where s': "s' = upsert_orchestration_presence L now sid agent st ORCHESTRATION_PRESENCE_TTL_SECONDS
      (add_entry L now sid ''system'' agent c d (snd (refresh_session_startup_state now sid (ws_status row) ?s1)))"
    using e unfolding Let_def doneS_def prod.case_eq_if prod.inject by blast
  have "s2 = s" using r by (auto dest: require_sessionD require_agentD)
  then show "moved {} s s'" unfolding s'
    by (auto intro: moved_before [OF moved_before [OF moved_before [OF moved_before [OF moved_agent_upd moved_session_upd] moved_refreshed] moved_add_entry] moved_upsert])
qed

lemma keepsR_after: "keepsR m \<Longrightarrow> (\<And>s. moved {} s (g s)) \<Longrightarrow> keepsR (\<lambda>s. m (g s))"
  unfolding keepsR_def using moved_after by blast

lemma keepsR_doneS: "(\<And>s. moved {} s (g s)) \<Longrightarrow> keepsR (\<lambda>s. doneS (h s) (g s))"
  by (auto simp: keepsR_def doneS_def)

lemma moved_scope_keeps: "keepsR m \<Longrightarrow> moved {} s (snd (in_scope m s))"
  by (rule moved_scope) (rule keepsRD)

lemma keepsR_refresh: "keepsR (\<lambda>s. bindS (require_session sid) (\<lambda>r t. doneS (h r t) t) (snd (refresh_session_startup_state now sid p s)))"
  by (rule keepsR_after) (intro keepsR_bind keepsR_steps keepsR_doneS moved_refl moved_refreshed)+

lemma moved_heartbeat: "moved {} s (snd (worker_heartbeat L now sid agent worker status pid activity s))"
  unfolding worker_heartbeat_def
proof (rule moved_scope_keeps, intro keepsR_bind keepsR_steps)
  fix row a
  have act: "keepsR (case oj of None \<Rightarrow> doneS () | Some j \<Rightarrow> heartbeat_orchestration_job_lease L now j agent)" for oj
    by (cases oj) (simp_all add: keepsR_steps)
  show "keepsR (\<lambda>s. let f = beaten now worker status pid activity;
            s1 = upsert_orchestration_presence L now sid agent (wa_status (f a)) ORCHESTRATION_PRESENCE_TTL_SECONDS
                   (agent_upd sid agent f s)
        in bindS (case active_job sid agent s1 of
                    None \<Rightarrow> doneS () | Some j \<Rightarrow> heartbeat_orchestration_job_lease L now j agent) (\<lambda>_ s2.
             let s3 = snd (refresh_session_startup_state now sid (ws_status row) s2)
             in bindS (require_session sid) (\<lambda>row' s4. doneS (status_due now a (f a) row row' s4) s4) s3) s1)"
    unfolding keepsR_def Let_def
  proof (intro allI impI)
    fix s x s'
    let ?s1 = "upsert_orchestration_presence L now sid agent (wa_status (beaten now worker status pid activity a)) ORCHESTRATION_PRESENCE_TTL_SECONDS
                   (agent_upd sid agent (beaten now worker status pid activity) s)"
    assume run: "bindS (case active_job sid agent ?s1 of None \<Rightarrow> doneS () | Some j \<Rightarrow> heartbeat_orchestration_job_lease L now j agent)
       (\<lambda>_ s2. bindS (require_session sid) (\<lambda>row' s4. doneS (status_due now a (beaten now worker status pid activity a) row row' s4) s4)
             (snd (refresh_session_startup_state now sid (ws_status row) s2))) ?s1 = (Inr x, s')"
    have "moved {} ?s1 s'"
      by (rule keepsR_bind [THEN keepsRD, rotated 2], rule run, rule act, rule keepsR_refresh)
    then show "moved {} s s'" by (rule moved_after [OF moved_before [OF moved_agent_upd moved_upsert]])
  qed
qed

lemma moved_route: "moved {} s (snd (route_discord_message L now thread m s))"
  unfolding route_discord_message_def
proof (rule moved_scope_keeps, intro keepsR_bind keepsR_steps)
  fix row
  have q: "moved {} s (queue_job now sid ag k g u i ep once
      (if b then add_entry L now sid d w c n s else add_entry L now sid d2 w2 c2 n2 (add_entry L now sid d w c n s)))"
    for s sid ag k g u i ep once b d w c n d2 w2 c2 n2
    by (auto intro: moved_before [OF moved_add_entry moved_queue_job] moved_before [OF moved_before [OF moved_add_entry moved_add_entry] moved_queue_job])
  show "keepsR (\<lambda>s. if ws_status row = ''closed'' then failS SessionClosed s
        else if ws_desired row = ''paused'' \<or> ws_status row = ''paused'' then failS SessionPaused s
        else case resolve_agent (ws_id row) (om_content m) (om_reply m) (om_reply_content m) s of
               Inl e \<Rightarrow> failS e s
             | Inr rt \<Rightarrow>
                 let sid = ws_id row;
                     s1 = add_entry L now sid ''inbound'' (om_author m) (rt_body rt) (Some (om_id m)) s;
                     s2 = (if rt_type rt = ''message'' then s1
                           else note_entry L now sid ''bridge'' (routing_note rt) (Some (om_id m)) s1)
                 in doneS (rt_agent rt) (queue_job now sid (rt_agent rt) (rt_type rt) (Some (om_id m)) (om_user m) (rt_input rt)
                      (ws_epoch row) (job_key [''discord'', l_uid L sid, om_id m, rt_agent rt]) s2))"
    unfolding keepsR_def Let_def failS_def doneS_def using q by (auto split: sum.splits)
qed

lemma keepsR_context: "keepsR (job_context now row a j f)"
  unfolding job_context_def Let_def by (rule keepsR_doneS) (rule moved_agent_upd)

lemma moved_enqueue_restart: "moved {} s (snd (enqueue_restart L now sid agent by_whom s))"
  unfolding enqueue_restart_def
proof (rule moved_scope_keeps, intro keepsR_bind keepsR_steps)
  fix row :: wsession
  let ?q = "\<lambda>s. queue_job now sid agent ''restart'' None by_whom (''Restart requested by '' @ by_whom) (ws_epoch row)
                       (job_key [''restart'', l_uid L sid, agent, by_whom]) s"
  let ?n = "\<lambda>s. note_entry L now sid by_whom (''Restart requested for agent '' @ agent @ ''.'') None (?q s)"
  have "moved {} s s'" if run: "(case agent_row sid agent s of None \<Rightarrow> failS (UnknownAgent agent) s
      | Some a \<Rightarrow> job_context now row a (last (br_jobs (?q s))) (\<lambda>x. x) (?n s)) = (Inr x, s')" for s x s'
  proof (cases "agent_row sid agent s")
    case (Some a)
    show ?thesis by (rule moved_after [OF moved_queue_note]) (rule keepsRD [OF keepsR_context run [unfolded Some option.case]])
  qed (use run in \<open>simp add: failS_def\<close>)
  then show "keepsR (\<lambda>s. case agent_row sid agent s of
          None \<Rightarrow> failS (UnknownAgent agent) s
        | Some a \<Rightarrow>
            let s1 = ?q s; s2 = note_entry L now sid by_whom (''Restart requested for agent '' @ agent @ ''.'') None s1
            in job_context now row a (last (br_jobs s1)) (\<lambda>x. x) s2)"
    unfolding keepsR_def Let_def by blast
qed

section \<open>Cancelling\<close>

lemma moved_cancel_pending: "moved {} s (cancel_pending now sid why s)"
  by (rule moved_jobs [where new = "[]" and f = "\<lambda>j. if wj_session j = sid \<and> wj_status j = ''pending'' then cancelled now why j else j"])
    (auto simp: cancel_pending_def job_kept_def cancelled_def TERMINAL_JOB_STATES_def)

lemma release_keeps_jobs:
  "release_orchestration_job_lease L now j w s = (Inr x, s') \<Longrightarrow> br_jobs s' = br_jobs s"
  by (auto simp: release_orchestration_job_lease_def with_presence_def doneS_def failS_def split: option.splits sum.splits)

lemma cancel_jobs_moved:
  "cancel_jobs L now why js s = (Inr x, s') \<Longrightarrow> \<forall>j \<in> set js. j \<in> set (br_jobs s) \<and> \<not> terminal j \<Longrightarrow>
     distinct (map wj_id js) \<Longrightarrow> moved {} s s'"
proof (induction js arbitrary: s)
  case Nil
  then show ?case by (simp add: doneS_def moved_refl)
next
  case (Cons j js)
  obtain u s1 where r: "release_orchestration_job_lease L now j (wj_agent j) s = (Inr u, s1)"
    and run: "cancel_jobs L now why js (job_upd (wj_id j) (cancelled now why) s1) = (Inr x, s')"
    using Cons.prems(1) unfolding cancel_jobs.simps bindS_Inr_iff by blast
  have jobs: "br_jobs s1 = br_jobs s" using release_keeps_jobs [OF r] .
  have j: "j \<in> set (br_jobs s1)" "\<not> terminal j" using Cons.prems(2) jobs by simp_all
  have 1: "moved {} s s1" using keepsRD [OF keeps_leases(3) [THEN keepsR_keeps] r] .
  have 2: "moved {} s1 (job_upd (wj_id j) (cancelled now why) s1)"
    by (rule moved_outcome [OF j]) (use j(2) in \<open>simp add: job_kept_outcomes\<close>)
  have stay: "\<forall>i \<in> set js. i \<in> set (br_jobs (job_upd (wj_id j) (cancelled now why) s1)) \<and> \<not> terminal i"
  proof
    fix i assume i: "i \<in> set js"
    have "wj_id j \<notin> wj_id ` set js" using Cons.prems(3) by simp
    then have "wj_id i \<noteq> wj_id j" using i by (metis image_eqI)
    then show "i \<in> set (br_jobs (job_upd (wj_id j) (cancelled now why) s1)) \<and> \<not> terminal i"
      using Cons.prems(2) i jobs by (auto simp: job_upd_def row_upd_def image_iff intro!: bexI [of _ i])
  qed
  have 3: "moved {} (job_upd (wj_id j) (cancelled now why) s1) s'"
    by (rule Cons.IH [OF run stay]) (use Cons.prems(3) in simp)
  from moved_after [OF moved_after [OF 1 2] 3] show ?case .
qed

lemma cancel_where_moved:
  assumes run: "cancel_jobs L now why (jobs_where sid p s) s = (Inr x, s')"
    and live: "\<And>j. p j \<Longrightarrow> wj_status j \<in> set LIVE_JOB_STATES" and d: "distinct (map wj_id (br_jobs s))"
  shows "moved {} s s'"
proof (rule cancel_jobs_moved [OF run])
  show "distinct (map wj_id (jobs_where sid p s))" unfolding jobs_where_def by (rule distinct_map_filter [OF d])
  show "\<forall>j \<in> set (jobs_where sid p s). j \<in> set (br_jobs s) \<and> \<not> terminal j"
    using live by (fastforce simp: jobs_where_def TERMINAL_JOB_STATES_def)
qed

lemma next_grows: "moved K s s' \<Longrightarrow> br_next s \<le> br_next s'"
  by (simp add: moved_def)

lemma moved_distinct: "moved K s s' \<Longrightarrow> work_inv s \<Longrightarrow> distinct (map wj_id (br_jobs s'))"
  by (auto simp: moved_def work_inv_def keyed_def)

end
