(* ===== verification/SessionStarts.thy ===== *)
theory SessionStarts
  imports SessionSteps
begin

text \<open>
  Claims keep the invariant: the one job a claim starts belongs to an agent that has none in progress,
  and the task behind it shares no scope with a task in progress.
\<close>

section \<open>One transition\<close>

definition goes :: "bridge \<Rightarrow> bridge \<Rightarrow> bool" where
  "goes s s' \<longleftrightarrow> (bridge_inv s \<longrightarrow> bridge_inv s' \<and> (\<exists>K. moved K s s'))"

lemma goes_moved: "moved {} s s' \<Longrightarrow> goes s s'"
  unfolding goes_def using bridge_inv_quiet by blast

lemma goes_trans: "goes a b \<Longrightarrow> goes b c \<Longrightarrow> goes a c"
  unfolding goes_def using moved_trans by blast

lemma goes_refl: "goes s s"
  by (rule goes_moved) (rule moved_refl)

lemma goes_if_inv: "(bridge_inv s \<Longrightarrow> goes s s') \<Longrightarrow> goes s s'"
  unfolding goes_def by blast

definition free_agent :: "id \<Rightarrow> string \<Rightarrow> bridge \<Rightarrow> bool" where
  "free_agent sid agent s \<longleftrightarrow> (\<forall>j \<in> set (br_jobs s). running j \<longrightarrow> wj_session j \<noteq> sid \<or> wj_agent j \<noteq> agent)"

lemma free_agent_active: "active_job sid agent s = None \<longleftrightarrow> free_agent sid agent s"
  by (auto simp: active_job_def free_agent_def find_None_iff_all)

section \<open>A job starts\<close>

lemma goes_added:
  assumes "wj_id j = br_next s" "wj_session j = sid" "wj_agent j = agent" "free_agent sid agent s"
  shows "goes s (s\<lparr>br_jobs := br_jobs s @ [j], br_next := Suc (Suc (br_next s))\<rparr>)" (is "goes s ?s")
proof (rule goes_if_inv)
  assume inv: "bridge_inv s"
  have m: "moved {br_next s} s ?s"
    by (rule moved_jobs [where f = "\<lambda>j. j" and new = "[j]"]) (use assms in \<open>auto simp: job_kept_refl\<close>)
  have w: "work_inv s" "one_active s" using inv by (simp_all add: bridge_inv_def)
  then have "\<forall>i \<in> set (br_jobs s). wj_id i \<noteq> br_next s" by (auto simp: work_inv_def keyed_def)
  then have new: "\<forall>i \<in> set (br_jobs ?s). wj_id i = br_next s \<longrightarrow> wj_session i = sid \<and> wj_agent i = agent"
    using assms by auto
  have "jobs_kept {br_next s} s ?s" using m w unfolding moved_def by blast
  then have "one_active ?s"
    using one_active_start [OF w(2) _ _ new] assms(4) unfolding free_agent_def by blast
  then show "goes s ?s" unfolding goes_def using bridge_inv_moved [OF inv m] m by blast
qed

lemma goes_started:
  assumes j: "j \<in> set (br_jobs s)" "\<not> terminal j" "free_agent (wj_session j) (wj_agent j) s"
    and f: "\<And>i. wj_id (f i) = wj_id i \<and> wj_session (f i) = wj_session i \<and> wj_agent (f i) = wj_agent i"
  shows "goes s (job_upd (wj_id j) f s)" (is "goes s ?s")
proof (rule goes_if_inv)
  assume inv: "bridge_inv s"
  have w: "work_inv s" "one_active s" using inv by (simp_all add: bridge_inv_def)
  then have d: "distinct (map wj_id (br_jobs s))" by (simp add: work_inv_def keyed_def)
  have only: "i = j" if "i \<in> set (br_jobs s)" "wj_id i = wj_id j" for i
    using d j(1) that by (simp add: distinct_map inj_on_def)
  have m: "moved {wj_id j} s ?s"
    by (rule moved_job_upd) (use only j(2) f in \<open>auto simp: job_kept_def\<close>)
  have new: "\<forall>i \<in> set (br_jobs ?s). wj_id i = wj_id j \<longrightarrow> wj_session i = wj_session j \<and> wj_agent i = wj_agent j"
    using only f by (auto simp: job_upd_def row_upd_def)
  have "jobs_kept {wj_id j} s ?s" using m w unfolding moved_def by blast
  then have "one_active ?s"
    using one_active_start [OF w(2) _ _ new] j(3) unfolding free_agent_def by blast
  then show "goes s ?s" unfolding goes_def using bridge_inv_moved [OF inv m] m by blast
qed

lemma goes_next: "goes s (s\<lparr>br_next := Suc (br_next s)\<rparr>)"
  by (intro goes_moved moved_same) simp_all

text \<open>A task starts whose scope is free.\<close>

definition sets_off :: "(wtask \<Rightarrow> wtask) \<Rightarrow> bool" where
  "sets_off g \<longleftrightarrow> (\<forall>u. wt_id (g u) = wt_id u \<and> wt_session (g u) = wt_session u \<and> wt_scope (g u) = wt_scope u \<and> wt_files (g u) = wt_files u)"

lemma scopes_clash_sym: "scopes_clash t u \<Longrightarrow> scopes_clash u t"
  unfolding scopes_clash_def by auto

lemma scopes_clash_sets_off:
  "sets_off g \<Longrightarrow> scopes_clash (g t) u = scopes_clash t u" "sets_off g \<Longrightarrow> scopes_clash u (g t) = scopes_clash u t"
  by (simp_all add: sets_off_def scopes_clash_def)

lemma goes_task:
  assumes t: "t \<in> set (br_tasks s)" and free: "can_self_claim_task (wt_session t) t s" and g: "sets_off g"
  shows "goes s (task_upd (wt_id t) g s)" (is "goes s ?s")
proof (rule goes_if_inv)
  assume inv: "bridge_inv s"
  then have w: "work_inv s" "scopes_apart s" by (simp_all add: bridge_inv_def)
  have only: "u = t" if "u \<in> set (br_tasks s)" "wt_id u = wt_id t" for u
    using w(1) t that by (simp add: work_inv_def keyed_def distinct_map inj_on_def)
  have tasks: "br_tasks ?s = map (\<lambda>u. if wt_id u = wt_id t then g u else u) (br_tasks s)"
    by (simp add: task_upd_def row_upd_def)
  have gk: "wt_id (g u) = wt_id u" "wt_session (g u) = wt_session u" for u using g by (simp_all add: sets_off_def)
  have wi: "work_inv ?s"
    using w(1) gk unfolding work_inv_def task_upd_def by (auto intro: keyed_upd simp: list_all_iff housed_in_def dest!: row_upd_mem)
  have quiet: "\<not> scopes_clash t u"
    if "u \<in> set (br_tasks s)" "wt_state u = ''in_progress''" "wt_session u = wt_session t" "wt_id u \<noteq> wt_id t" for u
    using free that unfolding can_self_claim_task_def list_all_iff by blast
  have "scopes_apart ?s"
  proof (unfold scopes_apart_def, intro ballI impI)
    fix a b assume ab: "a \<in> set (br_tasks ?s)" "b \<in> set (br_tasks ?s)"
      and r: "wt_state a = ''in_progress'' \<and> wt_state b = ''in_progress'' \<and> wt_session a = wt_session b \<and> wt_id a \<noteq> wt_id b"
    have origin: "x = g t \<or> (x \<in> set (br_tasks s) \<and> wt_id x \<noteq> wt_id t)" if "x \<in> set (br_tasks ?s)" for x
      using that only unfolding tasks by auto
    consider "a = g t" "b \<in> set (br_tasks s)" "wt_id b \<noteq> wt_id t" | "b = g t" "a \<in> set (br_tasks s)" "wt_id a \<noteq> wt_id t"
      | "a \<in> set (br_tasks s)" "b \<in> set (br_tasks s)"
      using origin [OF ab(1)] origin [OF ab(2)] r by auto
    then show "\<not> scopes_clash a b"
    proof cases
      case 1
      then show ?thesis using quiet [of b] r gk scopes_clash_sets_off(1) [OF g] by simp
    next
      case 2
      then show ?thesis using quiet [of a] r gk scopes_clash_sets_off(2) [OF g] scopes_clash_sym by metis
    next
      case 3
      then show ?thesis using w(2) r unfolding scopes_apart_def by blast
    qed
  qed
  moreover have jobs: "br_jobs ?s = br_jobs s" "br_handoffs ?s = br_handoffs s" "br_next ?s = br_next s"
    by (simp_all add: task_upd_def)
  moreover have "one_live ?s = one_live s" "one_active ?s = one_active s"
    unfolding one_live_def one_active_def jobs by (rule refl)+
  ultimately have "bridge_inv ?s" "moved {} s ?s"
    using inv wi jobs_kept_same [OF jobs(1)] unfolding bridge_inv_def moved_def by auto
  then show "goes s ?s" unfolding goes_def by blast
qed

section \<open>Claims\<close>

definition goesR :: "(bridge \<Rightarrow> (bridge_error + 'a) \<times> bridge) \<Rightarrow> bridge \<Rightarrow> bool" where
  "goesR m s \<longleftrightarrow> (\<forall>x s'. m s = (Inr x, s') \<longrightarrow> goes s s')"

lemma goesR_after: "goes s t \<Longrightarrow> (\<And>x s'. m = (Inr x, s') \<Longrightarrow> goes t s') \<Longrightarrow> m = (Inr x, s') \<Longrightarrow> goes s s'"
  using goes_trans by blast

lemma keepsR_goes: "keepsR m \<Longrightarrow> m s = (Inr x, s') \<Longrightarrow> goes s s'"
  by (rule goes_moved) (rule keepsRD)

lemma keepsR_occupied:
  "keepsR (bindS (occupy L now row a j) (\<lambda>_. job_context now row b k f))"
  unfolding occupy_def by (intro keepsR_bind keepsR_steps keepsR_doneS keepsR_context moved_upsert)

lemma goes_start_pending:
  assumes run: "start_pending_job L now row a worker j s = (Inr x, s')"
    and j: "j \<in> set (br_jobs s)" "wj_status j = ''pending''" "wj_session j = sid" "wj_agent j = agent" and free: "free_agent sid agent s"
  shows "goes s s'"
proof -
  let ?f = "started now row worker (Gen (br_next s))"
  let ?s0 = "s\<lparr>br_next := Suc (br_next s)\<rparr>"
  have "goes ?s0 (job_upd (wj_id j) ?f ?s0)"
    by (rule goes_started) (use j free in \<open>auto simp: TERMINAL_JOB_STATES_def free_agent_def started_def\<close>)
  then have 1: "goes s (agent_upd (ws_id row) (wa_name a) busy (job_upd (wj_id j) ?f ?s0))"
    using goes_next goes_trans goes_moved [OF moved_agent_upd] by blast
  show ?thesis
    by (rule goes_trans [OF 1]) (rule keepsR_goes [OF keepsR_occupied run [unfolded start_pending_job_def Let_def]])
qed

lemma task_ofD: "task_of h s = Some t \<Longrightarrow> t \<in> set (br_tasks s) \<and> wt_id t = wh_task h"
  unfolding task_of_def using row_get_SomeD by fastforce

lemma next_handoffD:
  assumes "next_handoff row a s = Some h"
  shows "h \<in> set (br_handoffs s)" "wh_session h = ws_id row" "wh_state h = ''queued''"
    "\<exists>t. task_of h s = Some t \<and> can_self_claim_task (ws_id row) t s"
  using find_SomeD [OF assms [unfolded next_handoff_def]] by (auto simp: handoffs_for_def split: option.splits)

lemma goes_take_handoff:
  assumes h: "next_handoff row a s = Some h" and t: "task_of h s = Some t" and free: "free_agent (ws_id row) (wa_name a) s"
  shows "goes s (snd (take_handoff L now row a worker h t s))"
proof (rule goes_if_inv)
  assume inv: "bridge_inv s"
  let ?k = "br_next s" and ?j = "task_job L now row a worker h t (br_next s)"
  let ?s1 = "s\<lparr>br_jobs := br_jobs s @ [?j], br_next := Suc (Suc ?k)\<rparr>"
  let ?g = "\<lambda>t. t\<lparr>wt_state := ''in_progress'', wt_token := wj_token ?j, wt_worker := Some worker,
                                           wt_agent := Some (wa_name a), wt_updated := now, wt_moved := now\<rparr>"
  let ?c = "\<lambda>h. h\<lparr>wh_state := ''claimed'', wh_claimed_by := Some ?k, wh_claimed := Some now, wh_updated := now\<rparr>"
  have house: "wt_session t = ws_id row"
    using inv next_handoffD(1,2) [OF h] task_ofD [OF t] by (auto simp: bridge_inv_def work_inv_def list_all_iff housed_in_def)
  have can: "can_self_claim_task (wt_session t) t s" using next_handoffD(4) [OF h] t house by simp
  have 1: "goes s ?s1" by (rule goes_added [OF _ _ _ free]) (simp_all add: task_job_def)
  have 2: "goes ?s1 (task_upd (wt_id t) ?g ?s1)"
    by (rule goes_task) (use can task_ofD [OF t] in \<open>auto simp: can_self_claim_task_def sets_off_def\<close>)
  have 3: "goes u (handoff_upd (wh_id h) ?c u)" if "br_handoffs u = br_handoffs s" for u
  proof (rule goes_moved, rule moved_handoffs [where f = "\<lambda>g. if wh_id g = wh_id h \<and> g = h then ?c g else g" and new = "[]"])
    have "g = h" if "g \<in> set (br_handoffs s)" "wh_id g = wh_id h" for g
      using inv next_handoffD(1) [OF h] that by (simp add: bridge_inv_def work_inv_def keyed_def distinct_map inj_on_def)
    then show "br_handoffs (handoff_upd (wh_id h) ?c u) = map (\<lambda>g. if wh_id g = wh_id h \<and> g = h then ?c g else g) (br_handoffs u) @ []"
      using that by (auto simp: handoff_upd_def row_upd_def)
    show "wh_id (if wh_id g = wh_id h \<and> g = h then ?c g else g) = wh_id g
        \<and> wh_task (if wh_id g = wh_id h \<and> g = h then ?c g else g) = wh_task g
        \<and> wh_session (if wh_id g = wh_id h \<and> g = h then ?c g else g) = wh_session g
        \<and> (live_handoff (if wh_id g = wh_id h \<and> g = h then ?c g else g) \<longrightarrow> live_handoff g)" for g
      using next_handoffD(3) [OF h] by (auto simp: live_handoff_def)
  qed (simp_all add: handoff_upd_def)
  have "goes s (handoff_upd (wh_id h) ?c (task_upd (wt_id t) ?g ?s1))"
    by (rule goes_trans [OF goes_trans [OF 1 2] 3]) (simp add: task_upd_def)
  then show "goes s (snd (take_handoff L now row a worker h t s))"
    unfolding take_handoff_def Let_def snd_conv by (rule goes_trans) (rule goes_moved [OF moved_task_event])
qed

lemma goes_claim_ready:
  assumes "claim_ready_task_job L now row a worker s = (Inr x, s')" "free_agent (ws_id row) (wa_name a) s"
  shows "goes s s' \<and> (x = None \<longrightarrow> s' = s)"
proof (cases "\<exists>h t. next_handoff row a s = Some h \<and> task_of h s = Some t \<and> wt_state t \<in> set READY_TASK_STATES \<and> wt_epoch t = ws_epoch row")
  case True
  then obtain h t where h: "next_handoff row a s = Some h" "task_of h s = Some t" "wt_state t \<in> set READY_TASK_STATES" "wt_epoch t = ws_epoch row"
    by blast
  let ?j = "fst (take_handoff L now row a worker h t s)" and ?s1 = "snd (take_handoff L now row a worker h t s)"
  have run: "bindS (occupy L now row a ?j) (\<lambda>_. job_context now row a ?j busy) ?s1 = (Inr x, s')"
    using assms(1) h by (simp add: claim_ready_task_job_def case_prod_beta)
  have "goes s s'" by (rule goes_trans [OF goes_take_handoff [OF h(1,2) assms(2)] keepsR_goes [OF keepsR_occupied run]])
  moreover have "x \<noteq> None" using run unfolding bindS_Inr_iff job_context_def Let_def doneS_def by blast
  ultimately show ?thesis by blast
next
  case False
  then have "claim_ready_task_job L now row a worker s = (Inr None, s)"
    by (auto simp: claim_ready_task_job_def doneS_def split: option.split)
  then show ?thesis using assms(1) by (simp add: goes_refl)
qed

lemma goes_sweep:
  assumes "claim_curator_sweep_job L now row a worker s = (Inr x, s')" "free_agent (ws_id row) (wa_name a) s"
  shows "goes s s'"
proof (cases "is_curator_agent a \<and> (\<exists>prompt cause. build_curator_sweep_prompt now row s = Some (prompt, cause)
    \<and> (has_non_curator_busy_agent (agents_of (ws_id row) s) \<or> cause = ''partial_attachment''))")
  case True
  then obtain prompt cause where p: "is_curator_agent a" "build_curator_sweep_prompt now row s = Some (prompt, cause)"
    "has_non_curator_busy_agent (agents_of (ws_id row) s) \<or> cause = ''partial_attachment''" by blast
  let ?j = "sweep_job L now row a worker prompt cause (br_next s)"
  let ?n = "note_entry L now (ws_id row) ''bridge'' (''Curator sweep started: '' @ cause) None
     (agent_upd (ws_id row) (wa_name a) busy (s\<lparr>br_jobs := br_jobs s @ [?j], br_next := Suc (Suc (br_next s))\<rparr>))"
  have run: "bindS (occupy L now row a ?j) (\<lambda>_. job_context now row a ?j (\<lambda>x. x)) ?n = (Inr x, s')"
    using assms(1) p unfolding claim_curator_sweep_job_def Let_def by (auto split: if_splits)
  have "goes s (s\<lparr>br_jobs := br_jobs s @ [?j], br_next := Suc (Suc (br_next s))\<rparr>)"
    by (rule goes_added [OF _ _ _ assms(2)]) (simp_all add: sweep_job_def)
  then have "goes s ?n" by (rule goes_trans) (rule goes_moved [OF moved_before [OF moved_agent_upd moved_add_entry]])
  then show ?thesis by (rule goes_trans) (rule keepsR_goes [OF keepsR_occupied run])
next
  case False
  then have "s' = s"
    using assms(1) unfolding claim_curator_sweep_job_def Let_def by (auto simp: doneS_def failS_def split: option.splits if_splits)
  then show ?thesis by (simp add: goes_refl)
qed

lemma goes_rest: "rest_agent sid name st s = (Inr x, s') \<Longrightarrow> goes s s'"
  by (auto simp: rest_agent_def doneS_def intro: goes_moved moved_agent_upd)

lemma goes_find_work:
  assumes run: "find_work L now row a worker s = (Inr x, s')" and free: "free_agent (ws_id row) (wa_name a) s"
  shows "goes s s'"
proof -
  obtain p s1 where 1: "claim_ready_task_job L now row a worker s = (Inr p, s1)"
    and r: "(case p of Some p \<Rightarrow> doneS (Some p)
     | None \<Rightarrow> bindS (if is_curator_agent a then claim_curator_sweep_job L now row a worker else doneS None) (\<lambda>p2. case p2 of
         Some p \<Rightarrow> doneS (Some p)
       | None \<Rightarrow> rest_agent (ws_id row) (wa_name a) ''idle'')) s1 = (Inr x, s')"
    using run unfolding find_work_def bindS_Inr_iff by blast
  note ready = goes_claim_ready [OF 1 free]
  show ?thesis
  proof (cases p)
    case (Some q)
    then show ?thesis using r ready by (simp add: doneS_def)
  next
    case None
    with ready have s1: "s1 = s" by simp
    obtain p2 s2 where 2: "(if is_curator_agent a then claim_curator_sweep_job L now row a worker else doneS None) s = (Inr p2, s2)"
      and r2: "(case p2 of Some p \<Rightarrow> doneS (Some p) | None \<Rightarrow> rest_agent (ws_id row) (wa_name a) ''idle'') s2 = (Inr x, s')"
      using r unfolding None option.case s1 bindS_Inr_iff by blast
    have "goes s s2" using 2 goes_sweep [OF _ free] by (auto simp: doneS_def goes_refl split: if_splits)
    moreover have "goes s2 s'" using r2 goes_rest by (cases p2) (auto simp: doneS_def goes_refl)
    ultimately show ?thesis by (rule goes_trans)
  qed
qed

lemma pending_jobs_mem: "j \<in> set (pending_jobs sid agent s) \<Longrightarrow>
    j \<in> set (br_jobs s) \<and> wj_session j = sid \<and> wj_agent j = agent \<and> wj_status j = ''pending''"
  by (simp add: pending_jobs_def)

lemma goes_claim_when_free:
  assumes run: "claim_when_free L now cap row a worker s = (Inr x, s')" and free: "free_agent (ws_id row) (wa_name a) s"
  shows "goes s s'"
proof (cases "cap \<le> int (active_job_count (ws_id row) s) \<and> \<not> is_curator_agent a")
  case True
  then show ?thesis using run goes_rest by (simp add: claim_when_free_def)
next
  case False
  show ?thesis
  proof (cases "pending_jobs (ws_id row) (wa_name a) s")
    case Nil
    then show ?thesis using run False goes_find_work [OF _ free] by (auto simp: claim_when_free_def)
  next
    case (Cons j js)
    then have "j \<in> set (pending_jobs (ws_id row) (wa_name a) s)" by simp
    note j = pending_jobs_mem [OF this]
    have "start_pending_job L now row a worker j s = (Inr x, s')" using run False Cons by (auto simp: claim_when_free_def)
    then show ?thesis by (rule goes_start_pending) (use j free in auto)
  qed
qed

text \<open>A recovered job waits again, and it was the only one of its agent.\<close>

lemma recover_frees:
  assumes inv: "bridge_inv s" and j: "active_job sid agent s = Some j"
    and run: "recover_orphaned_job L now sid a j worker s = (Inr r, s')"
  shows "goes s s' \<and> (r \<longrightarrow> free_agent sid agent s')"
proof (cases "\<exists>old. wj_worker j = Some old \<and> old \<noteq> worker \<and> wa_worker a = Some worker")
  case False
  then have "s' = s \<and> \<not> r" using run by (auto simp: recover_orphaned_job_def doneS_def split: option.splits if_splits)
  then show ?thesis by (simp add: goes_refl)
next
  case True
  then obtain old where old: "wj_worker j = Some old" "old \<noteq> worker" "wa_worker a = Some worker" by blast
  have jm: "j \<in> set (br_jobs s)" "wj_session j = sid" "wj_agent j = agent" "running j"
    using find_SomeD [OF j [unfolded active_job_def]] by simp_all
  obtain u s1 where rel: "release_orchestration_job_lease L now j (wa_name a) s = (Inr u, s1)"
    and s': "s' = note_entry L now sid ''bridge'' (orphan_note (wa_name a) old worker (wj_input j)) (wj_message j) (job_upd (wj_id j) requeued s1)"
    using run old unfolding recover_orphaned_job_def by (auto simp: bindS_Inr_iff doneS_def)
  have jobs: "br_jobs s1 = br_jobs s" using release_keeps_jobs [OF rel] .
  have act: "one_active s" using inv by (simp add: bridge_inv_def)
  have nt: "\<not> terminal j" using jm(4) by (auto simp: TERMINAL_JOB_STATES_def)
  have "moved {} s1 (job_upd (wj_id j) requeued s1)"
    by (rule moved_outcome) (use jm jobs nt in \<open>auto simp: job_kept_def requeued_def\<close>)
  then have "moved {} s s'"
    unfolding s' using moved_before [OF moved_after [OF keepsRD [OF keeps_leases(3) [THEN keepsR_keeps] rel]] moved_add_entry] by blast
  moreover have "free_agent sid agent s'"
  proof (unfold free_agent_def, intro ballI impI)
    fix i assume i: "i \<in> set (br_jobs s')" "running i"
    then have i0: "i \<in> set (br_jobs s)" "wj_id i \<noteq> wj_id j"
      unfolding s' using jobs by (auto simp: add_entry_def Let_def job_upd_def row_upd_def requeued_def split: if_splits)
    show "wj_session i \<noteq> sid \<or> wj_agent i \<noteq> agent"
      using act [unfolded one_active_def, rule_format, OF i0(1) jm(1)] i0(2) i(2) jm(2-4) by auto
  qed
  ultimately show ?thesis using goes_moved by blast
qed

lemma goes_claim_next_job: "goes s (snd (claim_next_job W now sid agent worker s))"
proof (rule goes_if_inv)
  assume inv: "bridge_inv s"
  show "goes s (snd (claim_next_job W now sid agent worker s))"
  proof (cases "fst (claim_next_job W now sid agent worker s)")
    case (Inl e)
    then have "moved {} s (snd (claim_next_job W now sid agent worker s))"
      unfolding claim_next_job_def in_scope_def by (auto split: prod.splits sum.splits intro: moved_same)
    then show ?thesis by (rule goes_moved)
  next
    case (Inr x)
    let ?s' = "snd (claim_next_job W now sid agent worker s)"
    have run: "claim_next_job W now sid agent worker s = (Inr x, ?s')" using Inr by (metis prod.collapse)
    obtain row where row: "session_row sid s = Some row"
      and r0: "(if ws_status row = ''closed'' then doneS None
        else bindS (require_agent sid agent) (\<lambda>a s.
          if asleep row
          then (if ws_desired row = ''paused'' then rest_agent sid agent ''paused'' s else doneS None s)
          else case active_job sid agent s of
                 None \<Rightarrow> claim_when_free (dk_lib W) now (max_parallel_agents W row s) row a worker s
               | Some j \<Rightarrow>
                   bindS (recover_orphaned_job (dk_lib W) now sid a j worker) (\<lambda>recovered s1.
                     if recovered then claim_when_free (dk_lib W) now (max_parallel_agents W row s1) row a worker s1
                     else rest_agent sid agent ''busy'' s1) s)) s = (Inr x, ?s')"
      using run unfolding claim_next_job_def in_scope_Inr bindS_Inr_iff by (auto dest!: require_sessionD)
    have sid: "ws_id row = sid" using row row_get_SomeD unfolding session_row_def by fastforce
    show ?thesis
    proof (cases "ws_status row = ''closed''")
      case True
      then show ?thesis using r0 by (simp add: doneS_def goes_refl)
    next
      case False
      then obtain a where a: "wa_name a = agent"
        and r: "(if asleep row
          then (if ws_desired row = ''paused'' then rest_agent sid agent ''paused'' s else doneS None s)
          else case active_job sid agent s of
                 None \<Rightarrow> claim_when_free (dk_lib W) now (max_parallel_agents W row s) row a worker s
               | Some j \<Rightarrow>
                   bindS (recover_orphaned_job (dk_lib W) now sid a j worker) (\<lambda>recovered s1.
                     if recovered then claim_when_free (dk_lib W) now (max_parallel_agents W row s1) row a worker s1
                     else rest_agent sid agent ''busy'' s1) s) = (Inr x, ?s')"
        using r0 unfolding bindS_Inr_iff by (auto dest!: require_agentD simp: bindS_Inr_iff)
      show ?thesis
      proof (cases "asleep row")
        case True
        then show ?thesis using r goes_rest by (auto simp: doneS_def goes_refl split: if_splits)
      next
        case awake: False
        show ?thesis
        proof (cases "active_job sid agent s")
          case None
          then have "free_agent (ws_id row) (wa_name a) s" using free_agent_active sid a by simp
          moreover have "claim_when_free (dk_lib W) now (max_parallel_agents W row s) row a worker s = (Inr x, ?s')"
            using r awake None by simp
          ultimately show ?thesis using goes_claim_when_free by blast
        next
          case (Some j)
          then obtain b s1 where rec: "recover_orphaned_job (dk_lib W) now sid a j worker s = (Inr b, s1)"
            and r1: "(if b then claim_when_free (dk_lib W) now (max_parallel_agents W row s1) row a worker s1
                     else rest_agent sid agent ''busy'' s1) = (Inr x, ?s')"
            using r awake by (auto simp: bindS_Inr_iff)
          note rf = recover_frees [OF inv Some rec]
          have "goes s1 ?s'"
            using r1 rf goes_rest goes_claim_when_free [where row = row and a = a] sid a by (auto split: if_splits)
          then show ?thesis using rf goes_trans by blast
        qed
      qed
    qed
  qed
qed

section \<open>Requests\<close>

inductive session_act :: "desk \<Rightarrow> instant \<Rightarrow> bridge \<Rightarrow> bridge \<Rightarrow> bool" for W now where
  claim: "session_act W now s (snd (claim_next_job W now sid agent worker s))"
| complete: "session_act W now s (snd (complete_job W now q s))"
| fail: "session_act W now s (snd (fail_job W now q s))"
| beat: "session_act W now s (snd (worker_heartbeat (dk_lib W) now sid agent worker status pid activity s))"
| register: "session_act W now s (snd (register_worker (dk_lib W) now sid agent worker pid s))"
| route: "session_act W now s (snd (route_discord_message (dk_lib W) now thread m s))"
| posted: "session_act W now s (record_outbound_thread_messages (dk_lib W) now sid agent chunks s)"
| restart: "session_act W now s (snd (enqueue_restart (dk_lib W) now sid agent by_whom s))"
| reset: "session_act W now s (snd (reset_session (dk_lib W) now sid by_whom s))"
| pause: "session_act W now s (snd (pause (dk_lib W) now sid by_whom cause s))"
| resume: "session_act W now s (snd (resume_request (dk_lib W) now sid by_whom s))"
| close: "session_act W now s (snd (close_session (dk_lib W) now thread by_whom s))"
| cleanup: "session_act W now s (snd (cleanup_session_thread (dk_lib W) now thread by_whom cause s))"

lemma session_act_goes: "session_act W now s s' \<Longrightarrow> goes s s'"
  by (induction rule: session_act.induct)
    (intro goes_claim_next_job goes_moved moved_complete_job moved_fail_job moved_heartbeat moved_register_worker moved_route
      moved_record_outbound moved_enqueue_restart moved_reset_session moved_pause moved_resume moved_close_session moved_cleanup)+

lemma session_run_inv: "timed_run (session_act W) ts s s' \<Longrightarrow> bridge_inv s \<Longrightarrow> bridge_inv s'"
  by (induction ts arbitrary: s) (auto dest!: session_act_goes simp: goes_def)

section \<open>Jobs settle\<close>

definition job_at :: "bridge \<Rightarrow> id \<Rightarrow> wjob option" where "job_at s k = row_get wj_id k (br_jobs s)"

definition sound_act :: "desk \<Rightarrow> instant \<Rightarrow> bridge \<Rightarrow> bridge \<Rightarrow> bool" where
  "sound_act W now s s' \<longleftrightarrow> bridge_inv s \<and> session_act W now s s'"

lemma job_at_kept:
  assumes "sound_act W now s s'" "job_at s k = Some j"
  shows "\<exists>K j'. job_at s' k = Some j' \<and> job_kept K j j'"
proof -
  have g: "bridge_inv s" "bridge_inv s'" "\<exists>K. moved K s s'"
    using assms(1) session_act_goes unfolding sound_act_def goes_def by blast+
  then obtain K where "jobs_kept K s s'" unfolding moved_def bridge_inv_def by blast
  moreover have "j \<in> set (br_jobs s)" "wj_id j = k" using assms(2) row_get_SomeD unfolding job_at_def by fastforce+
  ultimately obtain j' where j': "j' \<in> set (br_jobs s')" "job_kept K j j'" unfolding jobs_kept_def by blast
  then have "wj_id j' = k" using \<open>wj_id j = k\<close> by (simp add: job_kept_def)
  moreover have "distinct (map wj_id (br_jobs s'))" using g(2) by (simp add: bridge_inv_def work_inv_def keyed_def)
  ultimately have "job_at s' k = Some j'" using row_get_distinct [OF _ j'(1)] unfolding job_at_def by blast
  then show ?thesis using j'(2) by blast
qed

interpretation session_jobs: settling job_at terminal "sound_act W"
  by unfold_locales (use job_at_kept in \<open>fastforce simp: job_kept_def\<close>)+

lemma timed_run_sound: "timed_run (session_act W) ts s s' \<Longrightarrow> bridge_inv s \<Longrightarrow> timed_run (sound_act W) ts s s'"
proof (induction ts arbitrary: s)
  case (Cons now ts)
  then obtain s1 where s1: "session_act W now s s1" "timed_run (session_act W) ts s1 s'" by auto
  then have "bridge_inv s1" using Cons.prems(2) session_act_goes unfolding goes_def by blast
  then show ?case using Cons s1 unfolding sound_act_def by auto
qed simp

end
