(* ===== verification/PlantProps.thy ===== *)
theory PlantProps
  imports Plant
begin

text \<open>Properties of the launcher catalog, the drift monitor and the project finds.\<close>

section \<open>Registration\<close>

lemma dict_of_distinct: "distinct (map fst (dict_of ps))"
proof -
  have "distinct (map fst acc) \<Longrightarrow> distinct (map fst (fold (\<lambda>(k, v). AList.update k v) ps acc))" for acc :: "('a \<times> 'b) list"
    by (induction ps arbitrary: acc) (auto simp: distinct_update)
  then show ?thesis by (simp add: dict_of_def)
qed

lemma update_new: "k \<notin> fst ` set al \<Longrightarrow> AList.update k v al = al @ [(k, v)]"
  by (induction al) auto

lemma fold_update_fresh:
  "distinct (map fst (acc @ ps)) \<Longrightarrow> fold (\<lambda>(k, v). AList.update k v) ps acc = acc @ ps"
proof (induction ps arbitrary: acc)
  case (Cons p ps)
  have "AList.update (fst p) (snd p) acc = acc @ [p]"
    using Cons.prems update_new [of "fst p" acc "snd p"] by auto
  then show ?case using Cons.IH [of "acc @ [p]"] Cons.prems by (cases p) auto
qed simp

lemma dict_of_same: "distinct (map fst ps) \<Longrightarrow> dict_of ps = ps"
  unfolding dict_of_def by (simp add: fold_update_fresh)

lemma project_map_registered:
  "project_map (map (\<lambda>(p, m). \<lparr>ce_launcher = lid, ce_profile = p, ce_manifest = m\<rparr>) (dict_of ps)) = dict_of ps"
  by (simp add: project_map_def o_def case_prod_beta dict_of_same dict_of_distinct)

text \<open>what a launcher registered is what it is given back, for any later read and whatever else the
  catalog holds: one manifest per profile name, the last one where a name was repeated.\<close>
theorem registration_reads_back:
  "fst (get_projects_for_launcher now stale lid (register_projects since lid host ms c)) = dict_of (map (\<lambda>m. (mf_profile m, m)) ms)"
proof -
  let ?c = "prune_stale_launchers now stale (register_projects since lid host ms c)"
  have "row_get ln_id lid (ct_launchers ?c) \<noteq> None"
    by (simp add: prune_stale_launchers_def register_projects_def Let_def row_get_map row_get_append row_get_upd_same row_get_Cons
        split: option.split)
  moreover have "entries_of lid ?c = map (\<lambda>(p, m). \<lparr>ce_launcher = lid, ce_profile = p, ce_manifest = m\<rparr>) (dict_of (map (\<lambda>m. (mf_profile m, m)) ms))"
    by (simp add: entries_of_def prune_stale_launchers_def register_projects_def Let_def filter_map o_def case_prod_beta)
  ultimately show ?thesis by (auto simp: get_projects_for_launcher_def Let_def project_map_registered)
qed

section \<open>Which launcher runs a project\<close>

definition alive_for :: "instant \<Rightarrow> int \<Rightarrow> string \<Rightarrow> catalog \<Rightarrow> launcher \<Rightarrow> bool" where
  "alive_for now stale p c l \<longleftrightarrow> l \<in> set (ct_launchers c) \<and> ln_status l = ''online'' \<and> now - seconds stale \<le> ln_seen l \<and> offers c p l"

lemma launchers_for_pruned:
  "set (launchers_for p (prune_stale_launchers now stale c)) = {l. alive_for now stale p c l}"
  by (auto simp: launchers_for_def prune_stale_launchers_def alive_for_def offers_def entries_of_def image_iff not_less)

lemma hd_select_desc: "select_desc key p rows = x # xs \<Longrightarrow> r \<in> set rows \<Longrightarrow> p r \<Longrightarrow> key r \<le> key x"
proof -
  assume a: "select_desc key p rows = x # xs" "r \<in> set rows" "p r"
  have "sorted (map (\<lambda>r. - key r) (x # xs))" using sorted_sort_key [of "\<lambda>r. - key r" "filter p rows"] a(1) unfolding select_desc_def by metis
  moreover have "r \<in> set (x # xs)" using a set_select_desc [of key p rows] by simp
  ultimately show ?thesis by auto
qed

text \<open>the manifest of a project comes from a launcher that is online, was seen within the stale window
  and registered it, and no other such launcher was seen later.\<close>
theorem project_comes_from_freshest:
  assumes "fst (get_project now stale p c) = Some m"
  shows "\<exists>l. alive_for now stale p c l \<and> (\<exists>e \<in> set (ct_entries c). ce_launcher e = ln_id l \<and> ce_profile e = p \<and> ce_manifest e = m)
     \<and> (\<forall>k. alive_for now stale p c k \<longrightarrow> ln_seen k \<le> ln_seen l)"
proof -
  let ?c = "prune_stale_launchers now stale c"
  obtain l ls where l: "launchers_for p ?c = l # ls"
    and m: "map_option ce_manifest (List.find (\<lambda>e. ce_profile e = p) (entries_of (ln_id l) ?c)) = Some m"
    using assms by (auto simp: get_project_def Let_def split: list.splits)
  have "alive_for now stale p c l" using launchers_for_pruned [of p now stale c] l by auto
  moreover have "\<exists>e \<in> set (ct_entries c). ce_launcher e = ln_id l \<and> ce_profile e = p \<and> ce_manifest e = m"
    using m by (auto dest!: find_SomeD simp: entries_of_def prune_stale_launchers_def)
  moreover have "ln_seen k \<le> ln_seen l" if "alive_for now stale p c k" for k
  proof -
    have "k \<in> set (launchers_for p ?c)" using that launchers_for_pruned [of p now stale c] by simp
    then show ?thesis using hd_select_desc [OF l [unfolded launchers_for_def]] by (simp add: launchers_for_def)
  qed
  ultimately show ?thesis by blast
qed

section \<open>Drift\<close>

text \<open>a worker is reported as drifting only when it is the attached one, not offline, and either its grace
  period is over without a workspace or an artifact, or it is busy, restarting or idle on a task in progress
  with its last artifact older than the limit.\<close>
theorem drift_only_when_overdue:
  assumes "de_state (evaluate_agent now sid agent status worker d) = Drift"
  shows "status \<noteq> ''offline'' \<and> (\<exists>r. map_of d (sid, agent) = Some r \<and> worker = Some (dw_worker r)
     \<and> ((now - dw_registered r > seconds 45 \<and> status \<noteq> ''starting'')
        \<or> (\<exists>sn t. dw_snapshot r = Some sn \<and> first_some [sn_artifact sn, sn_task_updated sn, sn_updated sn] = Some t
              \<and> now - t > seconds 180 \<and> status \<in> {''busy'', ''restarting'', ''idle''})))"
  using assms
  by (auto simp: evaluate_agent_def evaluate_snapshot_def judged_def Let_def workspace_grace_def artifact_stale_after_def
      split: option.splits if_splits)

definition late_worker :: drift where
  "late_worker = [((8, ''coder''), \<lparr>dw_worker = ''w1'', dw_status = ''busy'', dw_registered = 0, dw_heartbeat = 0, dw_snapshot = None\<rparr>)]"

theorem drift_only_when_overdue_witness:
  "\<exists>r. map_of late_worker (8, ''coder'') = Some r \<and> (60000000::int) - dw_registered r > seconds 45"
proof -
  have "de_state (evaluate_agent 60000000 8 ''coder'' ''busy'' (Some ''w1'') late_worker) = Drift" by code_simp
  from drift_only_when_overdue [OF this] show ?thesis by (auto simp: late_worker_def)
qed

section \<open>Waiting for a launcher's answer\<close>

lemma wait_from_returns:
  assumes step: "0 < poll" "\<And>n. clock (Suc n) + poll \<le> clock (Suc (Suc n))"
  shows "\<exists>r. wait_from clock world k deadline (Suc n) = Some r
     \<and> (r = Inr None \<or> (\<exists>p. clock (Suc p) < deadline
           \<and> (case get_project_find k (world (Suc p)) of
                Inl e \<Rightarrow> r = Inl e | Inr row \<Rightarrow> fd_status row \<in> set FIND_TERMINAL_STATES \<and> r = Inr (Some row))))"
proof (induction "nat (deadline - clock (Suc n))" arbitrary: n rule: less_induct)
  case less
  show ?case
  proof (cases "clock (Suc n) < deadline")
    case False
    then show ?thesis by (simp add: wait_from.simps)
  next
    case True
    show ?thesis
    proof (cases "\<exists>row. get_project_find k (world (Suc n)) = Inr row \<and> fd_status row \<notin> set FIND_TERMINAL_STATES")
      case False
      then show ?thesis using True
        by (intro exI [of _ "case get_project_find k (world (Suc n)) of Inl e \<Rightarrow> Inl e | Inr row \<Rightarrow> Inr (Some row)"])
          (subst wait_from.simps, auto split: sum.splits intro!: exI [of _ n])
    next
      case again: True
      have "nat (deadline - clock (Suc (Suc n))) < nat (deadline - clock (Suc n))" using step(1) step(2) [of n] True by linarith
      from less [OF this] show ?thesis using again True by (subst wait_from.simps) auto
    qed
  qed
qed

text \<open>C35: waiting for a project find always ends: with a clock that moves on by the poll interval at each
  sleep, the loop returns the answer of a poll made before the deadline, its error, or nothing at the deadline.\<close>
theorem wait_for_project_find_returns:
  assumes "0 < poll" "\<And>n. clock (Suc n) + poll \<le> clock (Suc (Suc n))"
  shows "\<exists>r. wait_for_project_find clock world k timeout = Some r
     \<and> (r = Inr None \<or> (\<exists>p. clock (Suc p) < clock 0 + timeout
           \<and> (case get_project_find k (world (Suc p)) of
                Inl e \<Rightarrow> r = Inl e | Inr row \<Rightarrow> fd_status row \<in> set FIND_TERMINAL_STATES \<and> r = Inr (Some row))))"
  unfolding wait_for_project_find_def One_nat_def using wait_from_returns [of poll clock world k "clock 0 + timeout" 0] assms by blast

definition one_find :: find_row where
  "one_find = \<lparr>fd_id = 5, fd_preset = ''p'', fd_query = ''q'', fd_by = ''u'', fd_guild = ''g'', fd_channel = ''c'', fd_status = ''claimed'',
     fd_launcher = Some ''pc'', fd_path = None, fd_name = None, fd_reason = None, fd_confidence = None, fd_candidates = [],
     fd_error = None, fd_session = None, fd_thread = None, fd_created = 0, fd_claimed = Some 1, fd_completed = None\<rparr>"

definition find_plant :: "find_row \<Rightarrow> plant" where
  "find_plant r = \<lparr>pl_bridge = \<lparr>br_sessions = [], br_agents = [], br_jobs = [], br_tasks = [], br_handoffs = [], br_events = [],
       br_entries = [], br_operations = [], br_presence = \<lparr>p_sessions = [], p_leases = [], p_next = 0\<rparr>, br_broker = None, br_next = 9\<rparr>,
     pl_catalog = \<lparr>ct_launchers = [], ct_entries = []\<rparr>, pl_drift = [], pl_power = [], pl_exec = [], pl_policies = [],
     pl_finds = [r], pl_runs = []\<rparr>"

theorem wait_for_project_find_returns_witness:
  "\<exists>r. wait_for_project_find (\<lambda>n. 3 * int n) (\<lambda>n. find_plant (if n < 4 then one_find else one_find\<lparr>fd_status := ''selected''\<rparr>)) 5 75 = Some r"
  using wait_for_project_find_returns [of 3 "\<lambda>n. 3 * int n"
      "\<lambda>n. find_plant (if n < 4 then one_find else one_find\<lparr>fd_status := ''selected''\<rparr>)" 5 75] by auto

section \<open>Claiming finds\<close>

lemma claim_finds_ids:
  assumes "claim_project_finds G now lid n s = (xs, s')" "x \<in> set xs"
  shows "\<exists>r \<in> set (pl_finds s). fd_status r = ''pending'' \<and> fst x = find_claimed now lid r
     \<and> (\<forall>q \<in> set (pl_finds s'). fd_id q = fd_id r \<longrightarrow> fd_status q = ''claimed'' \<and> fd_launcher q = Some lid)"
proof -
  obtain ms s1 where c: "catalog_do (get_projects_for_launcher now (se_stale G) lid) s = (ms, s1)" by fastforce
  have f1: "pl_finds s1 = pl_finds s" using c by (auto split: prod.splits)
  define finders where "finders = filter (\<lambda>(_, m). fm_roots (mf_finder m) \<noteq> []) ms"
  define rows where "rows = take n (select_asc fd_created (\<lambda>r. fd_preset r \<in> fst ` set finders \<and> fd_status r = ''pending'') (pl_finds s1))"
  have run: "xs = List.map_filter (\<lambda>r. map_option (\<lambda>m. (find_claimed now lid r, mf_finder m)) (map_of ms (fd_preset r))) rows"
    "pl_finds s' = map (\<lambda>r. if fd_id r \<in> fd_id ` set rows then find_claimed now lid r else r) (pl_finds s)"
    using assms c unfolding claim_project_finds_def Let_def c prod.case finders_def [symmetric] rows_def [symmetric]
    by (auto simp: f1 split: if_splits)
  obtain r where r: "r \<in> set rows" "fst x = find_claimed now lid r"
    using assms(2) unfolding run(1) by (auto simp: List.map_filter_def)
  have "r \<in> set (pl_finds s)" "fd_status r = ''pending''"
    using r(1) set_take_subset [of n "select_asc fd_created (\<lambda>r. fd_preset r \<in> fst ` set finders \<and> fd_status r = ''pending'') (pl_finds s1)"]
    unfolding rows_def by (auto simp: f1 select_asc_def)
  moreover have "\<forall>q \<in> set (pl_finds s'). fd_id q = fd_id r \<longrightarrow> fd_status q = ''claimed'' \<and> fd_launcher q = Some lid"
    using r(1) unfolding run(2) by (auto simp: find_claimed_def)
  ultimately show ?thesis using r(2) by blast
qed

text \<open>C36: two launchers never get the same project find: of two claims in a row, by whichever launchers, the
  second returns none of the finds that the first returned.\<close>
theorem find_claimed_once:
  assumes "claim_project_finds G now lid n s = (xs, s1)" "claim_project_finds G later other m s1 = (ys, s2)"
  shows "fd_id ` fst ` set xs \<inter> fd_id ` fst ` set ys = {}"
proof -
  have "fd_id (fst x) \<noteq> fd_id (fst y)" if xy: "x \<in> set xs" "y \<in> set ys" for x y
  proof -
    obtain r where r: "fst x = find_claimed now lid r" "\<forall>q \<in> set (pl_finds s1). fd_id q = fd_id r \<longrightarrow> fd_status q = ''claimed''"
      using claim_finds_ids [OF assms(1) xy(1)] by blast
    obtain q where q: "q \<in> set (pl_finds s1)" "fd_status q = ''pending''" "fst y = find_claimed later other q"
      using claim_finds_ids [OF assms(2) xy(2)] by blast
    have "fd_id q \<noteq> fd_id r" using r(2) q(1,2) by fastforce
    then show ?thesis using r(1) q(3) by (simp add: find_claimed_def)
  qed
  then show ?thesis by (auto simp: image_iff)
qed

definition finder_manifest_of :: "string \<Rightarrow> manifest" where
  "finder_manifest_of p = \<lparr>mf_profile = p, mf_target = None, mf_workdir = ''/w'', mf_guild = ''g'', mf_channel = ''c'', mf_users = [''u''],
     mf_template = [], mf_agents = [], mf_ready = True, mf_restore = False,
     mf_finder = \<lparr>fm_roots = [''/r''], fm_agent = None, fm_prompt = None, fm_depth = 4, fm_candidates = 12, fm_timeout = 120, fm_exclude = []\<rparr>,
     mf_power = \<lparr>pm_target = ''d'', pm_provider = ''noop'', pm_mac = None, pm_broadcast = None\<rparr>,
     mf_execution = \<lparr>xm_target = ''d'', xm_provider = ''windows_launcher'', xm_platform = ''w'', xm_hint = None, xm_pattern = None, xm_auto = True\<rparr>,
     mf_policy = default_policy,
     mf_verification = \<lparr>vm_enabled = False, vm_provider = ''command'', vm_dir = ''v'', vm_timeout = 300, vm_commands = [], vm_approval = False\<rparr>\<rparr>"

definition finder_plant :: plant where
  "finder_plant = (find_plant (one_find\<lparr>fd_status := ''pending''\<rparr>))\<lparr>pl_catalog :=
     register_projects 0 ''b'' ''h2'' [finder_manifest_of ''p''] (register_projects 0 ''a'' ''h1'' [finder_manifest_of ''p''] \<lparr>ct_launchers = [], ct_entries = []\<rparr>)\<rparr>"

definition plain_settings :: settings where
  "plain_settings = \<lparr>se_lib = \<lparr>l_uid = dec, l_iso = (\<lambda>t. dec (nat t)), l_dumps = (\<lambda>_. ''{}''), l_sorted = (\<lambda>_. ''{}''), l_b64 = id,
     l_sha256 = id, l_str = (\<lambda>_. ''?''), l_int = (\<lambda>_. None)\<rparr>, se_stale = 60\<rparr>"

theorem find_claimed_once_witness:
  "fd_id ` fst ` set (fst (claim_project_finds plain_settings 1 ''a'' 1 finder_plant)) = {5}
   \<and> fd_id ` fst ` set (fst (claim_project_finds plain_settings 1 ''a'' 1 finder_plant))
     \<inter> fd_id ` fst ` set (fst (claim_project_finds plain_settings 2 ''b'' 1 (snd (claim_project_finds plain_settings 1 ''a'' 1 finder_plant)))) = {}"
proof
  have "map (fd_id \<circ> fst) (fst (claim_project_finds plain_settings 1 ''a'' 1 finder_plant)) = [5]" by code_simp
  from arg_cong [OF this, of set] show "fd_id ` fst ` set (fst (claim_project_finds plain_settings 1 ''a'' 1 finder_plant)) = {5}"
    by (simp add: image_comp)
  show "fd_id ` fst ` set (fst (claim_project_finds plain_settings 1 ''a'' 1 finder_plant))
     \<inter> fd_id ` fst ` set (fst (claim_project_finds plain_settings 2 ''b'' 1 (snd (claim_project_finds plain_settings 1 ''a'' 1 finder_plant)))) = {}"
    by (rule find_claimed_once [OF surjective_pairing surjective_pairing])
qed

theorem project_comes_from_freshest_witness:
  "\<exists>l. alive_for 1 60 ''p'' (pl_catalog finder_plant) l"
proof -
  have "fst (get_project 1 60 ''p'' (pl_catalog finder_plant)) = Some (finder_manifest_of ''p'')" by code_simp
  from project_comes_from_freshest [OF this] show ?thesis by blast
qed

end
