(* ===== verification/PlantRuns.thy ===== *)
theory PlantRuns
  imports StartFlow SessionStarts PlantProps
begin

text \<open>
  The session tables under everything that happens in the bridge process: the workers' and the operator's
  requests, launches, finds, the recovery loop, starts, resumes and policy changes. All of them keep the
  invariant of the session tables.
\<close>

section \<open>What recovery keeps\<close>

lemma moved_drop_jobs [moves]: "moved {} s (drop_jobs now sid why s)"
  by (rule moved_jobs [where new = "[]" and f = "\<lambda>j. if wj_session j = sid \<and> wj_status j \<in> set LIVE_JOB_STATES then dropped_job now why j else j"])
    (auto simp: drop_jobs_def job_kept_def dropped_job_def TERMINAL_JOB_STATES_def)

lemma moved_end_operations [moves]: "moved {} s (end_operations now sid kind out res s)"
  by (rule moved_same) (simp_all add: end_operations_def)

lemma moved_operations [moves]: "moved {} s (complete_operations now sid kind s)" "moved {} s (fail_operations now sid kind r s)"
  by (simp_all add: complete_operations_def fail_operations_def moved_end_operations)

lemma moved_fail_stalled [moves]: "moved {} s (fail_stalled_start L R now sid why s)"
  unfolding fail_stalled_start_def Let_def
  by (rule moved_before [OF moved_before [OF moved_before [OF moved_before [OF moved_session_upd moved_each_agent] moved_drop_jobs]
        moved_add_entry] moved_operations(2)])

lemma moved_missing_thread [moves]: "moved {} s (close_missing_thread_session L now sid why s)"
  unfolding close_missing_thread_session_def Let_def
  by (rule moved_before [OF moved_before [OF moved_before [OF moved_before [OF moved_session_upd moved_each_agent] moved_drop_jobs]
        moved_add_entry] moved_fold]) (rule moved_operations(2))

lemma moved_paused_by_recovery [moves]: "moved {} s (paused_by_recovery now sid s)"
  unfolding paused_by_recovery_def
  by (rule moved_before [OF moved_before [OF moved_session_upd moved_each_agent] moved_operations(1)])

lemma moved_settle_workers [moves]: "moved {} s (settle_workers R now sid s)"
  unfolding settle_workers_def Let_def
  by (auto intro: moved_before [OF moved_before [OF moved_session_upd moved_each_agent] moved_operations(1)]
      moved_before [OF moved_before [OF moved_before [OF moved_each_agent moved_session_upd] moved_operations(1)] moved_operations(1)])

section \<open>Steps of the plant\<close>

definition plant_goes :: "plant \<Rightarrow> plant \<Rightarrow> bool" where
  "plant_goes s s' \<longleftrightarrow> goes (pl_bridge s) (pl_bridge s')"

lemma plant_goes_same: "pl_bridge s' = pl_bridge s \<Longrightarrow> plant_goes s s'"
  by (simp add: plant_goes_def goes_refl)

lemma plant_goes_trans: "plant_goes a b \<Longrightarrow> plant_goes b c \<Longrightarrow> plant_goes a c"
  unfolding plant_goes_def by (rule goes_trans)

lemma plant_goes_on: "moved {} (pl_bridge s) (f (pl_bridge s)) \<Longrightarrow> plant_goes s (on_bridge f s)"
  by (simp add: plant_goes_def on_bridge_def goes_moved)

lemma catalog_same: "pl_bridge (snd (catalog_do f s)) = pl_bridge s"
  by (simp split: prod.split)

lemma probe_targets_goes: "plant_goes s (snd (probe_targets G now row s))"
  unfolding probe_targets_def Let_def
  by (auto simp: plant_goes_def on_bridge_def split: prod.split option.split intro!: goes_moved moved_session_upd)

lemma recover_awake_goes: "plant_goes s (snd (recover_awake G R now row why wake s))"
proof -
  obtain st s1 where p: "probe_targets G now row s = (st, s1)" by fastforce
  then have 1: "plant_goes s s1" using probe_targets_goes [of s G now row] by simp
  let ?s2 = "on_bridge (each_agent (ws_id row) (clear_stale_worker R now)) s1"
  have 2: "plant_goes s ?s2" by (rule plant_goes_trans [OF 1]) (rule plant_goes_on, rule moved_each_agent)
  show ?thesis
    unfolding recover_awake_def Let_def p prod.case
    by (auto split: option.split intro: plant_goes_trans [OF 2 plant_goes_on] plant_goes_trans [OF 1 plant_goes_on] plant_goes_same
        moved_paused_by_recovery moved_fail_stalled moved_session_upd moved_settle_workers)
qed

lemma recover_session_goes: "plant_goes s (snd (recover_session G R now sid why wake missing s))"
proof (cases "\<exists>row. session_row sid (pl_bridge s) = Some row \<and> ws_closed row = None")
  case False
  then show ?thesis by (auto simp: recover_session_def plant_goes_same split: option.split)
next
  case True
  then obtain row where row: "session_row sid (pl_bridge s) = Some row" "ws_closed row = None" by blast
  let ?s1 = "on_bridge (session_upd sid (recovered_row now why)) s"
  let ?s2 = "snd (catalog_do (get_project now (se_stale G) (or_text (ws_preset row) [])) ?s1)"
  have 1: "plant_goes s ?s1" by (rule plant_goes_on) (rule moved_session_upd)
  have 2: "plant_goes s ?s2" by (rule plant_goes_trans [OF 1 plant_goes_same]) (rule catalog_same)
  have 3: "plant_goes s (on_bridge (close_missing_thread_session (se_lib G) now sid why) ?s1)"
    by (rule plant_goes_trans [OF 1 plant_goes_on]) (rule moved_missing_thread)
  have 4: "plant_goes s (snd (recover_awake G R now row why wake ?s2))" by (rule plant_goes_trans [OF 2 recover_awake_goes])
  show ?thesis
    using 3 4 row
    by (cases "recover_awake G R now row why wake ?s2")
      (auto simp: recover_session_def Let_def plant_goes_same split: sum.splits)
qed

lemma recover_each_goes: "plant_goes s (snd (recover_each G R now why missing ks s))"
proof (induction ks arbitrary: s)
  case (Cons k ks)
  show ?case
    using recover_session_goes [of s G R now k why False] plant_goes_trans Cons.IH
    by (auto split: prod.split sum.split) (metis prod.sel(2))+
qed (simp add: plant_goes_same)

lemma lift_bridge_goes: "(\<And>b. goes b (snd (f b))) \<Longrightarrow> plant_goes s (snd (lift_bridge f s))"
  by (cases "f (pl_bridge s)") (auto simp: lift_bridge_def plant_goes_def split: sum.split, (metis prod.sel(2))+)

lemma then_do_goes:
  assumes "plant_goes s (snd m)" "\<And>x s1. plant_goes s1 (snd (f x s1))"
  shows "plant_goes s (snd (then_do m f))"
  using assms plant_goes_trans by (cases m) (auto simp: then_do_def split: sum.split)

section \<open>Creation, launches, finds\<close>

lemma resolve_same: "pl_bridge (snd (resolve_manifest G now preset s)) = pl_bridge s"
  by (auto simp: resolve_manifest_def Let_def split: prod.splits option.splits list.splits)

lemma create_goes: "plant_goes s (snd (create_session_with_manifest G now project target preset m user w thread s))"
proof (cases "strip (or_text w (mf_workdir m)) = []")
  case False
  have "moved {} (pl_bridge s) (note_entry L now k who c None
      ((pl_bridge s)\<lparr>br_sessions := rows, br_next := Suc (br_next (pl_bridge s)), br_agents := as\<rparr>))" for L k who c rows as
    by (rule moved_before [OF moved_same moved_add_entry]) simp_all
  then show ?thesis using False by (simp add: create_session_with_manifest_def Let_def plant_goes_def goes_moved)
qed (simp add: create_session_with_manifest_def Let_def plant_goes_same)

lemma create_from_project_goes: "plant_goes s (snd (create_session_from_project G now project target preset user guild channel w thread s))"
proof -
  obtain x s1 where r: "resolve_manifest G now preset s = (x, s1)" by fastforce
  then have "plant_goes s s1" using resolve_same [of G now preset s] plant_goes_same [of s1 s] by simp
  then show ?thesis
    using r plant_goes_trans [OF _ create_goes] by (auto simp: create_session_from_project_def split: sum.split option.split)
qed

lemma launches_goes: "plant_goes s (snd (claim_launches G now lid n s))"
proof -
  obtain ms s1 where c: "catalog_do (get_projects_for_launcher now (se_stale G) lid) s = (ms, s1)" by fastforce
  then have b: "pl_bridge s1 = pl_bridge s" by (auto split: prod.splits)
  have "goes (pl_bridge s) (fold (\<lambda>r. session_upd (ws_id r) (launched lid)) rows (pl_bridge s))" for rows :: "wsession list"
    by (rule goes_moved, rule moved_fold) (rule moved_session_upd)
  then show ?thesis unfolding claim_launches_def Let_def c prod.case by (simp add: plant_goes_def goes_refl b)
qed

lemma enqueue_find_goes: "plant_goes s (snd (enqueue_project_find G now q preset user guild channel s))"
proof -
  obtain x s1 where r: "resolve_manifest G now preset s = (x, s1)" by fastforce
  then have b: "pl_bridge s1 = pl_bridge s" using resolve_same [of G now preset s] by simp
  have "moved {} (pl_bridge s) ((pl_bridge s)\<lparr>br_next := Suc (br_next (pl_bridge s))\<rparr>)" by (rule moved_same) simp_all
  then show ?thesis
    using r b by (auto simp: enqueue_project_find_def Let_def plant_goes_def goes_moved goes_refl split: sum.split option.split)
qed

lemma find_updates_goes:
  "plant_goes s (snd (claim_project_finds G now lid n s))" "plant_goes s (snd (update_find k f s))"
  by (auto simp: claim_project_finds_def update_find_def Let_def intro!: plant_goes_same split: prod.splits option.split sum.split)

section \<open>The workflows\<close>

lemma resume_goes: "plant_goes s (snd (resume G R now sid who missing s))"
proof -
  obtain x s1 where l: "lift_bridge (resume_request (se_lib G) now sid who) s = (x, s1)" by fastforce
  have 1: "plant_goes s s1" using lift_bridge_goes [of "resume_request (se_lib G) now sid who" s] l moved_resume goes_moved by (metis snd_conv)
  obtain y s2 where r: "recover_session G R now sid ''resume-request'' True missing s1 = (y, s2)" by fastforce
  have 2: "plant_goes s s2" using plant_goes_trans [OF 1] recover_session_goes r by (metis snd_conv)
  show ?thesis using 1 2 by (auto simp: resume_def l r split: sum.split option.split)
qed

lemma set_policy_goes: "plant_goes s (snd (set_policy G now sid key raw who s))"
proof (cases "session_row sid (pl_bridge s)")
  case (Some row)
  obtain x s1 where r: "resolve_manifest G now (ws_preset row) s = (x, s1)" by fastforce
  then have b: "pl_bridge s1 = pl_bridge s" using resolve_same [of G now "ws_preset row" s] by simp
  show ?thesis using Some r b
    by (auto simp: set_policy_def plant_goes_def on_bridge_def goes_refl goes_moved moved_session_upd split: sum.split prod.split)
qed (simp add: set_policy_def plant_goes_same)

lemma capabilities_goes: "plant_goes s (snd (ensure_session_capabilities now sid m who s))"
proof (cases "session_row sid (pl_bridge s)")
  case (Some row)
  have "moved {} (pl_bridge s) (add_operation now sid k st w i t (session_upd sid f (pl_bridge s)))" for k st w i t f
    by (rule moved_before [OF moved_session_upd moved_operation])
  then show ?thesis using Some by (simp add: ensure_session_capabilities_def Let_def plant_goes_def goes_moved)
qed (simp add: ensure_session_capabilities_def plant_goes_same)

lemma resolve_target_goes: "plant_goes s (snd (resolve_target_workdir G P now m sel target q ans s))"
proof -
  obtain x s1 where r: "enqueue_project_find G now target (Some sel) (st_user q) (st_guild q) (st_channel q) s = (x, s1)" by fastforce
  then have "plant_goes s s1" using enqueue_find_goes by (metis snd_conv)
  then show ?thesis using r by (auto simp: resolve_target_workdir_def plant_goes_same split: sum.split)
qed

lemma reuse_goes: "plant_goes s (snd (reuse_session G R now q pr missing sid s))"
  unfolding reuse_session_def
  by (intro then_do_goes recover_session_goes)
    (auto split: option.split prod.split intro: capabilities_goes plant_goes_same)

lemma start_new_goes: "plant_goes s (snd (start_new G R P now q out m sel target s))"
  unfolding start_new_def
  by (intro then_do_goes resolve_target_goes) 
    (auto simp: Let_def split: prod.split intro!: then_do_goes create_goes capabilities_goes recover_session_goes intro: plant_goes_same)

lemma start_run_goes: "plant_goes s (snd (start_run G R P now q out s))"
proof -
  obtain x s1 where r: "start_profile G now q s = (x, s1)" by fastforce
  then have "pl_bridge s1 = pl_bridge s"
    using resolve_same [of G now "st_preset q" s] by (auto simp: start_profile_def split: prod.splits sum.splits)
  then have 1: "plant_goes s s1" by (rule plant_goes_same)
  show ?thesis
    using 1 plant_goes_trans [OF 1 reuse_goes] plant_goes_trans [OF 1 start_new_goes]
    by (auto simp: start_run_def Let_def r split: prod.split option.split)
qed

section \<open>Runs\<close>

inductive plant_act :: "settings \<Rightarrow> recovery_settings \<Rightarrow> paths \<Rightarrow> instant \<Rightarrow> plant \<Rightarrow> plant \<Rightarrow> bool" for G R P now where
  request: "session_act (desk_of G now s) now (pl_bridge s) b \<Longrightarrow> plant_act G R P now s (s\<lparr>pl_bridge := b, pl_drift := d\<rparr>)"
| enlist: "plant_act G R P now s (s\<lparr>pl_catalog := register_projects now lid host ms (pl_catalog s)\<rparr>)"
| start: "plant_act G R P now s (snd (start_run G R P now q out s))"
| create: "plant_act G R P now s (snd (create_session_from_project G now project target preset user guild channel w thread s))"
| launches: "plant_act G R P now s (snd (claim_launches G now lid n s))"
| seek: "plant_act G R P now s (snd (enqueue_project_find G now text preset user guild channel s))"
| offer: "plant_act G R P now s (snd (claim_project_finds G now lid n s))"
| answer: "plant_act G R P now s (snd (complete_project_find now k lid a s))"
| mark: "plant_act G R P now s (snd (mark_project_find_started now k x s))"
| recover: "plant_act G R P now s (snd (recover_session G R now sid why wake missing s))"
| tick: "plant_act G R P now s (snd (recover_open_sessions G R now why probe s))"
| resume: "plant_act G R P now s (snd (resume G R now sid who missing s))"
| policy: "plant_act G R P now s (snd (set_policy G now sid key raw who s))"

lemma plant_act_goes: "plant_act G R P now s s' \<Longrightarrow> plant_goes s s'"
proof (induction rule: plant_act.induct)
  case (request s b d)
  then show ?case by (simp add: plant_goes_def session_act_goes)
qed (simp_all only: plant_goes_same [OF plant.select_convs(1)] start_run_goes create_from_project_goes launches_goes enqueue_find_goes
    find_updates_goes complete_project_find_def mark_project_find_started_def recover_session_goes recover_open_sessions_def
    recover_each_goes resume_goes set_policy_goes, simp add: plant_goes_same)

text \<open>C2: whatever happens in the bridge process and in whatever order - workers, operators, launchers, the
  recovery loop, starts and resumes - an agent never has two jobs in progress, a task never has two live
  handoffs, tasks in progress in one session never share a file or a scope, and identifiers stay unique.\<close>
theorem plant_runs_keep_invariant:
  "timed_run (plant_act G R P) ts s s' \<Longrightarrow> bridge_inv (pl_bridge s) \<Longrightarrow> bridge_inv (pl_bridge s')"
proof (induction ts arbitrary: s)
  case (Cons now ts)
  then obtain s1 where "plant_act G R P now s s1" "timed_run (plant_act G R P) ts s1 s'" by auto
  then show ?case using Cons plant_act_goes unfolding plant_goes_def goes_def by blast
qed simp

end
