(* ===== verification/SessionProps.thy ===== *)
theory SessionProps
  imports SessionStarts
begin

text \<open>
  The properties of the session workflow, with the small session their witnesses run on: an operator's
  thread with a coder and a curator, one task handed to the coder and one finished job.
\<close>

section \<open>A session\<close>

definition bench_lib :: lib where
  "bench_lib = \<lparr>l_uid = dec, l_iso = (\<lambda>t. dec (nat t)), l_dumps = (\<lambda>_. ''{}''), l_sorted = (\<lambda>_. ''{}''), l_b64 = id,
     l_sha256 = id, l_str = (\<lambda>_. ''?''), l_int = (\<lambda>_. None)\<rparr>"

definition bench_desk :: desk where
  "bench_desk = \<lparr>dk_lib = bench_lib, dk_profiles = (\<lambda>_. None), dk_policies = []\<rparr>"

definition bench_session :: wsession where
  "bench_session = \<lparr>ws_id = 8, ws_project = ''demo'', ws_target = None, ws_preset = None, ws_power_target = None,
     ws_exec_target = None, ws_thread = ''77'', ws_guild = ''g'', ws_channel = ''c'', ws_workdir = ''/w'', ws_status = ''ready'',
     ws_desired = ''ready'', ws_power = ''unknown'', ws_execution = ''online'', ws_pause = None, ws_recovered = None, ws_recovery = None,
     ws_policy_version = 1, ws_epoch = 1, ws_by = ''op'', ws_launcher = None, ws_message = None, ws_hash = None, ws_announced = None, ws_send_ready = False, ws_created = 0, ws_closed = None\<rparr>"

definition bench_agent :: "string \<Rightarrow> string \<Rightarrow> wagent" where
  "bench_agent name role = \<lparr>wa_session = 8, wa_name = name, wa_cli = ''cli'', wa_role = role, wa_default = False,
     wa_status = ''idle'', wa_desired = ''ready'', wa_paused = None, wa_heartbeat = Some 0, wa_pid = None, wa_worker = Some ''w1'',
     wa_error = None, wa_activity = None, wa_activity_at = None\<rparr>"

definition bench_job :: "id \<Rightarrow> string \<Rightarrow> wjob" where
  "bench_job k status = \<lparr>wj_id = k, wj_session = 8, wj_agent = ''coder'', wj_type = ''handoff'', wj_message = None, wj_user = ''u'',
     wj_input = ''go'', wj_status = status, wj_task = Some 2, wj_handoff = Some 3, wj_epoch = 1, wj_rev = 1, wj_token = None,
     wj_once = ''k'', wj_worker = Some ''w1'', wj_result = None, wj_error = None, wj_created = 0, wj_claimed = Some 0, wj_completed = None\<rparr>"

definition bench_task :: wtask where
  "bench_task = \<lparr>wt_id = 2, wt_session = 8, wt_key = ''T-001'', wt_title = ''t'', wt_role = ''code'', wt_agent = Some ''coder'',
     wt_source = None, wt_scope = None, wt_files = Some [''a.py''], wt_state = ''ready'', wt_rev = 1, wt_epoch = 1, wt_token = None,
     wt_worker = None, wt_summary = None, wt_body = ''go'', wt_brief = None, wt_log = None, wt_created = 0, wt_updated = 0, wt_moved = 0\<rparr>"

definition bench_handoff :: "id \<Rightarrow> string \<Rightarrow> whandoff" where
  "bench_handoff k state = \<lparr>wh_id = k, wh_session = 8, wh_task = 2, wh_source_job = None, wh_claimed_by = None, wh_source = ''planner'',
     wh_target = ''coder'', wh_role = ''code'', wh_state = state, wh_rev = 1, wh_epoch = 1, wh_body = ''go'', wh_created = 0,
     wh_claimed = None, wh_consumed = None, wh_updated = 0\<rparr>"

definition bench :: bridge where
  "bench = \<lparr>br_sessions = [bench_session], br_agents = [bench_agent ''coder'' ''code'', bench_agent ''curator'' ''coordination''],
     br_jobs = [bench_job 4 ''completed''], br_tasks = [bench_task], br_handoffs = [bench_handoff 3 ''queued''], br_events = [],
     br_entries = [], br_operations = [], br_presence = \<lparr>p_sessions = [], p_leases = [], p_next = 0\<rparr>, br_broker = None, br_next = 9\<rparr>"

lemmas bench_defs = bench_def bench_session_def bench_agent_def bench_job_def bench_task_def bench_handoff_def

lemma bench_inv: "bridge_inv bench"
  by (simp add: bench_defs bridge_inv_def work_inv_def keyed_def housed_in_def one_active_def one_live_def scopes_apart_def)

section \<open>Runs of requests\<close>

text \<open>whatever workers and the operator ask of the session service and in whatever order, an agent
  never has two jobs in progress, a task never has two live handoffs, tasks in progress in one session
  never share a file or a scope, and row identifiers stay unique.\<close>
theorem session_runs_keep_invariant:
  "timed_run (session_act W) ts s s' \<Longrightarrow> bridge_inv s \<Longrightarrow> bridge_inv s'"
  by (rule session_run_inv)

theorem session_runs_keep_invariant_witness:
  "bridge_inv (snd (fail_job bench_desk 7 q (snd (claim_next_job bench_desk 5 8 ''coder'' ''w1'' bench))))"
proof (rule session_runs_keep_invariant [OF _ bench_inv])
  show "timed_run (session_act bench_desk) [5, 7] bench
     (snd (fail_job bench_desk 7 q (snd (claim_next_job bench_desk 5 8 ''coder'' ''w1'' bench))))"
    by (auto intro: session_act.claim session_act.fail)
qed

text \<open>C17: a job that is completed, failed or cancelled stays exactly as it is, whatever is requested
  afterwards: late reports, resets, restarts, replaced workers.\<close>
theorem finished_job_is_final:
  "timed_run (session_act W) ts s s' \<Longrightarrow> bridge_inv s \<Longrightarrow> job_at s k = Some j \<Longrightarrow> wj_status j \<in> set TERMINAL_JOB_STATES \<Longrightarrow>
     job_at s' k = Some j"
  by (rule session_jobs.run_stays [OF timed_run_sound])

theorem finished_job_is_final_witness:
  "job_at (snd (reset_session bench_lib 5 8 ''op'' bench)) 4 = Some (bench_job 4 ''completed'')"
proof (rule finished_job_is_final [OF _ bench_inv])
  show "timed_run (session_act bench_desk) [5] bench (snd (reset_session bench_lib 5 8 ''op'' bench))"
    using session_act.reset [of bench_desk 5 bench 8 "''op''"] by (simp add: bench_desk_def)
qed (simp_all add: bench_defs job_at_def row_get_def TERMINAL_JOB_STATES_def)

section \<open>Reports\<close>

lemma stale_report_gives_none:
  assumes "\<And>j row. List.find (\<lambda>j. wj_id j = rp_job q \<and> wj_session j = rp_session q \<and> wj_agent j = rp_agent q) (br_jobs s) = Some j \<Longrightarrow>
      session_row (rp_session q) s = Some row \<Longrightarrow>
      wj_status j \<in> set TERMINAL_JOB_STATES \<or> \<not> validate_job_concurrency j row (rp_token q) (rp_rev q) (rp_epoch q)"
  shows "snd (on_live_job act q s) = s"
  using assms
  by (auto simp: on_live_job_def in_scope_def bindS_def require_job_def require_agent_def require_session_def failS_def doneS_def
      split: prod.splits sum.splits option.splits if_splits)

text \<open>C7: a completion for a job that is already over, or whose lease token, task revision or epoch is not
  the job's, changes nothing at all: neither the job, nor its task and handoff, nor the transcript.\<close>
theorem stale_completion_ignored:
  assumes "List.find (\<lambda>j. wj_id j = rp_job q \<and> wj_session j = rp_session q \<and> wj_agent j = rp_agent q) (br_jobs s) = Some j"
    and "session_row (rp_session q) s = Some row"
    and "wj_status j \<in> set TERMINAL_JOB_STATES \<or> wj_epoch j \<noteq> ws_epoch row \<or> (\<exists>t u. wj_token j = Some t \<and> rp_token q = Some u \<and> t \<noteq> u)
      \<or> (\<exists>r. wj_rev j \<noteq> 0 \<and> rp_rev q = Some r \<and> r \<noteq> wj_rev j) \<or> (\<exists>e. rp_epoch q = Some e \<and> e \<noteq> wj_epoch j)"
  shows "snd (complete_job W now q s) = s"
  unfolding complete_job_def
  by (rule stale_report_gives_none) (use assms in \<open>auto simp: validate_job_concurrency_def\<close>)

definition bench_report :: report where
  "bench_report = \<lparr>rp_job = 4, rp_session = 8, rp_agent = ''coder'', rp_worker = ''w1'', rp_text = ''done'', rp_thread = None,
     rp_token = None, rp_rev = None, rp_epoch = None, rp_pid = None\<rparr>"

theorem stale_completion_ignored_witness: "snd (complete_job bench_desk 5 bench_report bench) = bench"
  by (rule stale_completion_ignored [where j = "bench_job 4 ''completed''" and row = bench_session])
    (simp_all add: bench_defs bench_report_def session_row_def row_get_def TERMINAL_JOB_STATES_def)

section \<open>Repeated handoffs\<close>

lemma note_entry_tables [simp]:
  "br_tasks (add_entry L now sid d w c m s) = br_tasks s" "br_handoffs (add_entry L now sid d w c m s) = br_handoffs s"
  "br_agents (add_entry L now sid d w c m s) = br_agents s" "br_jobs (add_entry L now sid d w c m s) = br_jobs s"
  "br_sessions (add_entry L now sid d w c m s) = br_sessions s"
  by (simp_all add: add_entry_def Let_def)

lemma task_event_tables [simp]:
  "br_tasks (append_task_event now sid t h k w p s) = br_tasks s" "br_handoffs (append_task_event now sid t h k w p s) = br_handoffs s"
  "br_agents (append_task_event now sid t h k w p s) = br_agents s"
  by (simp_all add: append_task_event_def)

lemma find_append: "List.find p (xs @ ys) = (case List.find p xs of None \<Rightarrow> List.find p ys | Some x \<Rightarrow> Some x)"
  by (induction xs) auto

lemma find_task_upd:
  assumes "List.find (\<lambda>t. wt_session t = sid \<and> wt_key t = key) ts = Some t"
    and "\<And>u. wt_session (f u) = wt_session u \<and> wt_key (f u) = wt_key u"
  shows "List.find (\<lambda>t. wt_session t = sid \<and> wt_key t = key) (row_upd wt_id (wt_id t) f ts) = Some (f t)"
  using assms(1) by (induction ts) (auto simp: row_upd_def assms(2) split: if_splits)

lemma queue_handoff_again:
  assumes dup: "task_by_key (ws_id row) key s = Some t" "is_duplicate_ready_handoff row t (hr_target h) (normalize_task_payload_text (hr_body h)) s"
    and key: "handoff_task_key (ws_id row) h s = key" and a: "agent_row (ws_id row) (hr_target h) s = Some a"
  shows "queue_handoff L now row source j h s =
     (Inr [], note_entry L now (ws_id row) ''bridge'' (duplicate_note (hr_target h) (wt_key t) (normalize_task_payload_text (hr_body h))) (wj_message j) s)"
  by (simp add: queue_handoff_def upsert_task_for_handoff_def bindS_def require_agent_def a Let_def dup key doneS_def)

lemma post_handoff_tables:
  "br_tasks (post_handoff L now row source j h t body s) = br_tasks s" "br_agents (post_handoff L now row source j h t body s) = br_agents s"
  "\<exists>g \<in> set (br_handoffs (post_handoff L now row source j h t body s)).
     wh_session g = ws_id row \<and> wh_task g = wt_id t \<and> wh_target g = hr_target h \<and> live_handoff g"
  by (simp_all add: post_handoff_def Let_def supersede_handoffs_def add_handoff_def handoff_row_def live_handoff_def)

lemma posted_is_duplicate:
  assumes "wt_epoch t = ws_epoch row" "wt_agent t = Some (hr_target h)" "wt_body t = body" "wt_state t = ''ready''"
  shows "is_duplicate_ready_handoff row t (hr_target h) body (post_handoff L now row source j h t body s)"
  using assms post_handoff_tables(3) [of L now row source j h t body s]
  by (auto simp: is_duplicate_ready_handoff_def or_text_def list_ex_iff)

lemma first_handoff:
  assumes a: "agent_row (ws_id row) (hr_target h) s = Some a" and key: "\<And>s. handoff_task_key (ws_id row) h s = key"
  shows "\<exists>t. task_by_key (ws_id row) key (snd (queue_handoff L now row source j h s)) = Some t
     \<and> is_duplicate_ready_handoff row t (hr_target h) (normalize_task_payload_text (hr_body h)) (snd (queue_handoff L now row source j h s))
     \<and> agent_row (ws_id row) (hr_target h) (snd (queue_handoff L now row source j h s)) = Some a"
proof (cases "task_by_key (ws_id row) key s")
  case None
  let ?b = "normalize_task_payload_text (hr_body h)" and ?t = "fresh_task now row a source h (normalize_task_payload_text (hr_body h)) (br_next s) key"
  let ?s1 = "s\<lparr>br_tasks := br_tasks s @ [?t], br_next := Suc (br_next s)\<rparr>"
  have run: "snd (queue_handoff L now row source j h s) = post_handoff L now row source j h ?t ?b ?s1"
    by (simp add: queue_handoff_def upsert_task_for_handoff_def bindS_def require_agent_def a Let_def None key doneS_def)
  have "task_by_key (ws_id row) key (post_handoff L now row source j h ?t ?b ?s1) = Some ?t"
    using None by (simp add: task_by_key_def post_handoff_tables find_append fresh_task_def)
  moreover have "is_duplicate_ready_handoff row ?t (hr_target h) ?b (post_handoff L now row source j h ?t ?b ?s1)"
    by (rule posted_is_duplicate) (simp_all add: fresh_task_def)
  ultimately show ?thesis unfolding run using a by (simp add: agent_row_def post_handoff_tables)
next
  case (Some t)
  let ?b = "normalize_task_payload_text (hr_body h)"
  show ?thesis
  proof (cases "is_duplicate_ready_handoff row t (hr_target h) ?b s")
    case True
    then show ?thesis
      using queue_handoff_again [OF Some True key a] Some a
      by (simp add: task_by_key_def is_duplicate_ready_handoff_def agent_row_def)
  next
    case False
    let ?f = "redirect_task now row a source h ?b"
    let ?s1 = "task_upd (wt_id t) ?f s"
    have run: "snd (queue_handoff L now row source j h s) = post_handoff L now row source j h (?f t) ?b ?s1"
      by (simp add: queue_handoff_def upsert_task_for_handoff_def bindS_def require_agent_def a Let_def Some False key doneS_def)
    have "task_by_key (ws_id row) key (post_handoff L now row source j h (?f t) ?b ?s1) = Some (?f t)"
      using find_task_upd [OF Some [unfolded task_by_key_def], of ?f]
      by (simp add: task_by_key_def post_handoff_tables task_upd_def redirect_task_def)
    moreover have "is_duplicate_ready_handoff row (?f t) (hr_target h) ?b (post_handoff L now row source j h (?f t) ?b ?s1)"
      by (rule posted_is_duplicate) (simp_all add: redirect_task_def)
    ultimately show ?thesis unfolding run using a by (simp add: agent_row_def post_handoff_tables task_upd_def)
  qed
qed

text \<open>C18: an agent that repeats a handoff that names its task card queues nothing new: the second time
  the tasks and the handoffs stay as the first left them, and only a note of the duplicate is added.\<close>
theorem repeated_handoff_queues_once:
  assumes "agent_row (ws_id row) (hr_target h) s = Some a" "hr_task h = Some k" "k \<noteq> []"
    "bounded_fullmatch CANONICAL_TASK_KEY_RE (upper (strip k)) \<noteq> None"
  shows "let s1 = snd (queue_handoff L now row source j h s); again = queue_handoff L later row source j h s1
     in fst again = Inr [] \<and> br_tasks (snd again) = br_tasks s1 \<and> br_handoffs (snd again) = br_handoffs s1"
proof -
  have key: "handoff_task_key (ws_id row) h s = upper (strip k)" for s using assms by (simp add: handoff_task_key_def)
  obtain t where "task_by_key (ws_id row) (upper (strip k)) (snd (queue_handoff L now row source j h s)) = Some t"
    "is_duplicate_ready_handoff row t (hr_target h) (normalize_task_payload_text (hr_body h)) (snd (queue_handoff L now row source j h s))"
    "agent_row (ws_id row) (hr_target h) (snd (queue_handoff L now row source j h s)) = Some a"
    using first_handoff [OF assms(1) key] by blast
  then show ?thesis by (simp add: queue_handoff_again [OF _ _ key] Let_def)
qed

definition bench_request :: handoff_request where
  "bench_request = \<lparr>hr_target = ''coder'', hr_body = ''fix'', hr_task = Some ''T-001''\<rparr>"

theorem repeated_handoff_queues_once_witness:
  "let s1 = snd (queue_handoff bench_lib 5 bench_session ''planner'' (bench_job 4 ''completed'') bench_request bench);
       again = queue_handoff bench_lib 6 bench_session ''planner'' (bench_job 4 ''completed'') bench_request s1
   in fst again = Inr [] \<and> br_tasks (snd again) = br_tasks s1 \<and> br_handoffs (snd again) = br_handoffs s1"
proof (rule repeated_handoff_queues_once)
  show "agent_row (ws_id bench_session) (hr_target bench_request) bench = Some (bench_agent ''coder'' ''code'')"
    by (simp add: bench_defs bench_request_def agent_row_def)
  show "hr_task bench_request = Some ''T-001''" by (simp add: bench_request_def)
  show "bounded_fullmatch CANONICAL_TASK_KEY_RE (upper (strip ''T-001'')) \<noteq> None" by code_simp
qed simp

section \<open>Reset\<close>

lemma queue_job_tables [simp]:
  "br_sessions (queue_job now sid agent kind msg user input epoch once s) = br_sessions s"
  "br_sessions (upsert_orchestration_presence L now sid w st ttl s) = br_sessions s"
  "br_jobs (upsert_orchestration_presence L now sid w st ttl s) = br_jobs s"
  by (simp_all add: queue_job_def upsert_orchestration_presence_def)

lemma release_tables:
  assumes "release_orchestration_job_lease L now j w s = (Inr x, s')"
  shows "br_jobs s' = br_jobs s \<and> br_sessions s' = br_sessions s"
  using assms
  by (auto simp: release_orchestration_job_lease_def with_presence_def doneS_def failS_def split: option.splits sum.splits prod.splits)

lemma cancel_jobs_tables:
  "cancel_jobs L now why js s = (Inr x, s') \<Longrightarrow>
     br_jobs s' = map (\<lambda>j. if wj_id j \<in> wj_id ` set js then cancelled now why j else j) (br_jobs s) \<and> br_sessions s' = br_sessions s"
proof (induction js arbitrary: s)
  case (Cons i js)
  then obtain u s1 where r: "release_orchestration_job_lease L now i (wj_agent i) s = (Inr u, s1)"
    and run: "cancel_jobs L now why js (job_upd (wj_id i) (cancelled now why) s1) = (Inr x, s')"
    unfolding cancel_jobs.simps bindS_Inr_iff by blast
  from Cons.IH [OF run] release_tables [OF r] show ?case
    by (auto simp: job_upd_def row_upd_def cancelled_def)
qed (simp add: doneS_def)

definition restart_of :: "id \<Rightarrow> int \<Rightarrow> wjob \<Rightarrow> bool" where
  "restart_of sid epoch j \<longleftrightarrow> wj_type j = ''restart'' \<and> wj_status j = ''pending'' \<and> wj_epoch j = epoch"

lemma restart_agents_sessions: "br_sessions (fold (restart_agent L now sid epoch w) as s) = br_sessions s"
  by (induction as arbitrary: s) (simp_all add: restart_agent_def)

lemma restart_agent_jobs: "j \<in> set (br_jobs (restart_agent L now sid epoch w a s)) \<Longrightarrow> j \<in> set (br_jobs s) \<or> restart_of sid epoch j"
  by (auto simp: restart_agent_def queue_job_def restart_of_def upsert_orchestration_presence_def)

lemma restart_agents_jobs:
  "j \<in> set (br_jobs (fold (restart_agent L now sid epoch w) as s)) \<Longrightarrow> j \<in> set (br_jobs s) \<or> restart_of sid epoch j"
proof (induction as arbitrary: s)
  case (Cons a as)
  then have "j \<in> set (br_jobs (restart_agent L now sid epoch w a s)) \<or> restart_of sid epoch j" by simp
  then show ?case using restart_agent_jobs by blast
qed simp

text \<open>C19: after a reset the only live jobs of the session are the restarts it has just queued, and they
  carry the new epoch; every job that was waiting or running before is cancelled.\<close>
theorem reset_leaves_only_restarts:
  assumes "reset_session L now sid by_whom s = (Inr x, s')"
    and "j \<in> set (br_jobs s')" "wj_session j = sid" "wj_status j \<in> set LIVE_JOB_STATES"
  shows "wj_type j = ''restart'' \<and> wj_status j = ''pending'' \<and> map_option ws_epoch (session_row sid s') = Some (wj_epoch j)
     \<and> map_option (\<lambda>r. ws_epoch r + 1) (session_row sid s) = Some (wj_epoch j)"
proof -
  obtain row s0 where r0: "require_session sid s = (Inr row, s0)"
    and run0: "(let epoch = ws_epoch row + 1; why = ''Cancelled by session reset.'';
            s1 = cancel_pending now sid why (session_upd sid (\<lambda>r. r\<lparr>ws_epoch := epoch\<rparr>) s0)
        in bindS (cancel_jobs L now why (jobs_where sid (\<lambda>j. wj_status j = ''in_progress'') s1)) (\<lambda>_ s2.
             let s3 = s2\<lparr>br_tasks := map (\<lambda>t. if wt_session t = sid then reset_task now epoch t else t) (br_tasks s2),
                         br_handoffs := map (\<lambda>h. if wh_session h = sid then reset_handoff now epoch h else h) (br_handoffs s2)\<rparr>;
                 s4 = fold (restart_agent L now sid epoch by_whom) (agents_of sid s3) s3
             in doneS () (note_entry L now sid by_whom ''Session reset requested.'' None s4)) s1) = (Inr x, s')"
    using assms(1) unfolding reset_session_def in_scope_Inr bindS_Inr_iff by blast
  have row: "s0 = s" "session_row sid s = Some row" using r0 by (blast dest: require_sessionD)+
  define e why where "e = ws_epoch row + 1" and "why = ''Cancelled by session reset.''"
  let ?s1 = "cancel_pending now sid why (session_upd sid (\<lambda>r. r\<lparr>ws_epoch := e\<rparr>) s)"
  obtain u s2 as where c: "cancel_jobs L now why (jobs_where sid (\<lambda>j. wj_status j = ''in_progress'') ?s1) ?s1 = (Inr u, s2)"
    and out: "note_entry L now sid by_whom ''Session reset requested.'' None (fold (restart_agent L now sid e by_whom) as
      (s2\<lparr>br_tasks := map (\<lambda>t. if wt_session t = sid then reset_task now e t else t) (br_tasks s2),
          br_handoffs := map (\<lambda>h. if wh_session h = sid then reset_handoff now e h else h) (br_handoffs s2)\<rparr>)) = s'"
    using run0 unfolding Let_def bindS_Inr_iff doneS_def prod.inject row(1) e_def why_def by blast
  obtain s3 where s3: "br_jobs s3 = br_jobs s2" "br_sessions s3 = br_sessions s2"
    and s': "s' = note_entry L now sid by_whom ''Session reset requested.'' None (fold (restart_agent L now sid e by_whom) as s3)"
    by (rule that [OF _ _ out [symmetric]]) simp_all
  note t = cancel_jobs_tables [OF c]
  have sess: "br_sessions s' = row_upd ws_id sid (\<lambda>r. r\<lparr>ws_epoch := e\<rparr>) (br_sessions s)"
    using t s3 by (simp add: s' restart_agents_sessions cancel_pending_def session_upd_def)
  have new: "session_row sid s' = Some (row\<lparr>ws_epoch := e\<rparr>)"
    using row(2) by (simp add: session_row_def sess row_get_upd_same)
  have "\<not> (j \<in> set (br_jobs s2))"
  proof
    assume "j \<in> set (br_jobs s2)"
    then obtain i where i: "i \<in> set (br_jobs ?s1)"
      "j = (if wj_id i \<in> wj_id ` set (jobs_where sid (\<lambda>j. wj_status j = ''in_progress'') ?s1) then cancelled now why i else i)"
      using t by auto
    then have "j = i" "wj_id i \<notin> wj_id ` set (jobs_where sid (\<lambda>j. wj_status j = ''in_progress'') ?s1)"
      using assms(4) by (auto simp: cancelled_def split: if_splits)
    then have pending: "wj_status j = ''pending''" using i(1) assms(3,4) by (auto simp: jobs_where_def)
    have "i \<in> (\<lambda>k. if wj_session k = sid \<and> wj_status k = ''pending'' then cancelled now why k else k) ` set (br_jobs s)"
      using i(1) by (simp add: cancel_pending_def session_upd_def)
    then obtain k where "i = (if wj_session k = sid \<and> wj_status k = ''pending'' then cancelled now why k else k)" by blast
    then show False using pending \<open>j = i\<close> assms(3) by (cases "wj_session k = sid \<and> wj_status k = ''pending''") (simp_all add: cancelled_def)
  qed
  then have "restart_of sid e j"
    using assms(2) s3(1) restart_agents_jobs [of j L now sid e by_whom as s3] by (auto simp: s')
  then show ?thesis using new row(2) by (simp add: restart_of_def e_def)
qed

lemma reset_when_idle:
  assumes "session_row sid s = Some row" "list_all (\<lambda>j. wj_status j \<noteq> ''in_progress'') (br_jobs s)"
  shows "\<exists>why said s3. br_jobs s3 = map (\<lambda>j. if wj_session j = sid \<and> wj_status j = ''pending'' then cancelled now why j else j) (br_jobs s)
     \<and> reset_session L now sid w s = (Inr (), note_entry L now sid w said None
         (fold (restart_agent L now sid (ws_epoch row + 1) w) (agents_of sid s) s3))"
proof -
  define why said e where "why = ''Cancelled by session reset.''" and "said = ''Session reset requested.''" and "e = ws_epoch row + 1"
  define s1 where "s1 = cancel_pending now sid why (session_upd sid (\<lambda>r. r\<lparr>ws_epoch := e\<rparr>) s)"
  define s3 where "s3 = s1\<lparr>br_tasks := map (\<lambda>t. if wt_session t = sid then reset_task now e t else t) (br_tasks s1),
                 br_handoffs := map (\<lambda>h. if wh_session h = sid then reset_handoff now e h else h) (br_handoffs s1)\<rparr>"
  have none: "jobs_where sid (\<lambda>j. wj_status j = ''in_progress'') s1 = []"
  proof -
    have "wj_status j \<noteq> ''in_progress''" if "j \<in> set (br_jobs s1)" for j
    proof -
      have "j \<in> (\<lambda>k. if wj_session k = sid \<and> wj_status k = ''pending'' then cancelled now why k else k) ` set (br_jobs s)"
        using that by (simp add: s1_def cancel_pending_def session_upd_def)
      then obtain k where k: "k \<in> set (br_jobs s)" "j = (if wj_session k = sid \<and> wj_status k = ''pending'' then cancelled now why k else k)"
        by blast
      have "wj_status k \<noteq> ''in_progress''" using assms(2) k(1) by (simp add: list_all_iff)
      then show ?thesis using k(2) by (cases "wj_session k = sid \<and> wj_status k = ''pending''") (simp_all add: cancelled_def)
    qed
    then show ?thesis by (simp add: jobs_where_def filter_empty_conv)
  qed
  have as: "agents_of sid s3 = agents_of sid s" by (simp add: s3_def s1_def agents_of_def cancel_pending_def session_upd_def)
  have jobs: "br_jobs s3 = map (\<lambda>j. if wj_session j = sid \<and> wj_status j = ''pending'' then cancelled now why j else j) (br_jobs s)"
    by (simp add: s3_def s1_def cancel_pending_def session_upd_def)
  have "reset_session L now sid w s = (Inr (), note_entry L now sid w said None
         (fold (restart_agent L now sid e w) (agents_of sid s3) s3))"
    unfolding reset_session_def in_scope_def bindS_def require_session_def assms(1) option.case doneS_def prod.case sum.case Let_def
      why_def [symmetric] said_def [symmetric] e_def [symmetric] s1_def [symmetric] none cancel_jobs.simps
    unfolding s3_def [symmetric] by (rule refl)
  then show ?thesis unfolding as e_def using jobs by blast
qed

lemma restart_agent_rows:
  "map wj_status (br_jobs (restart_agent L now sid e w a s)) = map wj_status (br_jobs s) @ [''pending'']"
  "map wj_session (br_jobs (restart_agent L now sid e w a s)) = map wj_session (br_jobs s) @ [sid]"
  by (simp_all add: restart_agent_def queue_job_def)

lemma bench_reset:
  "\<exists>s2. reset_session bench_lib 5 8 ''op'' bench = (Inr (), s2) \<and> map wj_status (br_jobs s2) = [''completed'', ''pending'', ''pending'']
     \<and> map wj_session (br_jobs s2) = [8, 8, 8]"
proof -
  have row: "session_row 8 bench = Some bench_session" by (simp add: session_row_def bench_def bench_session_def row_get_Cons)
  have jobs: "br_jobs bench = [bench_job 4 ''completed'']" by (simp add: bench_def)
  have as: "agents_of 8 bench = [bench_agent ''coder'' ''code'', bench_agent ''curator'' ''coordination'']"
    by (simp add: agents_of_def bench_def bench_agent_def)
  have "list_all (\<lambda>j. wj_status j \<noteq> ''in_progress'') (br_jobs bench)" unfolding jobs by (simp add: bench_job_def)
  from reset_when_idle [OF row this, of 5 bench_lib "''op''"] obtain s3 said where s3: "br_jobs s3 = [bench_job 4 ''completed'']"
    "reset_session bench_lib 5 8 ''op'' bench = (Inr (), note_entry bench_lib 5 8 ''op'' said None
         (fold (restart_agent bench_lib 5 8 (ws_epoch bench_session + 1) ''op'') (agents_of 8 bench) s3))"
    unfolding jobs by (auto simp: bench_job_def)
  then show ?thesis unfolding as by (simp add: restart_agent_rows bench_job_def)
qed

theorem reset_leaves_only_restarts_witness:
  "\<exists>s2 j. reset_session bench_lib 5 8 ''op'' bench = (Inr (), s2) \<and> j \<in> set (br_jobs s2)
     \<and> wj_type j = ''restart'' \<and> map_option ws_epoch (session_row 8 s2) = Some (wj_epoch j)"
proof -
  obtain s2 where s2: "reset_session bench_lib 5 8 ''op'' bench = (Inr (), s2)"
    "map wj_status (br_jobs s2) = [''completed'', ''pending'', ''pending'']" "map wj_session (br_jobs s2) = [8, 8, 8]"
    using bench_reset by (elim exE conjE) (rule that)
  let ?j = "br_jobs s2 ! 1"
  have len: "length (br_jobs s2) = 3" using arg_cong [OF s2(2), of length] by simp
  have at: "f ?j = map f (br_jobs s2) ! 1" for f :: "wjob \<Rightarrow> 'x" by (rule nth_map [symmetric]) (simp add: len)
  have j: "?j \<in> set (br_jobs s2)" "wj_session ?j = 8" "wj_status ?j \<in> set LIVE_JOB_STATES"
    by (rule nth_mem, simp add: len) (simp_all only: at s2(2,3), simp_all)
  from reset_leaves_only_restarts [OF s2(1) j] s2(1) j(1) show ?thesis by blast
qed

section \<open>What an agent's answer may ask for\<close>

lemma fold_replace_handoff_ok:
  assumes "length (fst acc) \<le> MAX_HANDOFFS_PER_COMPLETION" "list_all (handoff_ok as source) (fst acc)"
  shows "length (fst (fold (\<lambda>(t, g). replace_handoff as source g) ps acc)) \<le> MAX_HANDOFFS_PER_COMPLETION
     \<and> list_all (handoff_ok as source) (fst (fold (\<lambda>(t, g). replace_handoff as source g) ps acc))"
  using assms by (induction ps arbitrary: acc) (auto simp: replace_handoff_ok split: prod.splits)

text \<open>C20: whatever an agent writes, at most four handoffs of its answer are taken, and each of them goes to
  another agent of the session, has a body that passes validation, and is filed under the task card that the
  body names.\<close>
theorem answer_handoffs_are_valid:
  "length (cu_handoffs (extract_control_updates as source answer)) \<le> 4
     \<and> list_all (handoff_ok as source) (cu_handoffs (extract_control_updates as source answer))"
  using fold_replace_handoff_ok [of "([], [])" as source "fst (bounded_pieces HANDOFF_RE answer)"]
  by (simp add: extract_control_updates_def Let_def case_prod_beta MAX_HANDOFFS_PER_COMPLETION_def)

section \<open>Where an operator's message goes\<close>

lemma find_agent_mem: "map_option wa_name (List.find p as) = Some n \<Longrightarrow> \<exists>a \<in> set as. wa_name a = n"
  by (auto dest!: find_SomeD)

lemma named_agent_mem: "find_planner_agent as = Some p \<Longrightarrow> p \<in> set as"
  by (auto simp: find_planner_agent_def named_agent_def dest!: find_SomeD split: option.splits)

lemma agent_called_mem: "agent_called n as = Some t \<Longrightarrow> \<exists>a \<in> set as. wa_name a = t"
  unfolding agent_called_def by (rule find_agent_mem)

lemma agent_names_member: "agent_names as n = Some t \<Longrightarrow> \<exists>a \<in> set as. wa_name a = t"
  unfolding agent_names_def using agent_called_mem by fastforce

lemma find_reply_agent_mem: "find_reply_agent sid as i c s = Some t \<Longrightarrow> \<exists>a \<in> set as. wa_name a = t"
  by (auto simp: find_reply_agent_def extract_agent_from_thread_message_def split: if_splits list.splits option.splits
      dest: agent_called_mem agent_names_member)

lemma route_untagged_mem: "route_untagged sid as body s = Inr rt \<Longrightarrow> \<exists>a \<in> set as. wa_name a = rt_agent rt"
  by (auto simp: route_untagged_def Let_def find_last_active_agent_def find_default_agent_def split: if_splits option.splits list.splits
      dest!: named_agent_mem agent_names_member find_SomeD)

text \<open>a message that is routed at all goes to an agent of the same session, whether by its tag, as a
  reply, by way of the planner, or by default.\<close>
theorem routed_to_a_member:
  "resolve_agent sid content reply_id reply_content s = Inr rt \<Longrightarrow>
     \<exists>a \<in> set (br_agents s). wa_session a = sid \<and> wa_name a = rt_agent rt"
proof -
  assume r: "resolve_agent sid content reply_id reply_content s = Inr rt"
  define as where "as = agents_of sid s"
  have "\<exists>a \<in> set as. wa_name a = rt_agent rt"
  proof (cases "bounded_match AGENT_PREFIX_RE content")
    case (Some m)
    then show ?thesis
      using r unfolding resolve_agent_def Let_def as_def [symmetric] by (auto split: option.splits dest: agent_called_mem)
  next
    case None
    show ?thesis
    proof (cases "\<exists>a. as = [a]")
      case True
      then show ?thesis using r None unfolding resolve_agent_def Let_def as_def [symmetric] by auto
    next
      case False
      then have "(case find_reply_agent sid as reply_id reply_content s of
          Some a \<Rightarrow> Inr (direct a (strip content)) | None \<Rightarrow> route_untagged sid as (strip content) s) = Inr rt"
        using r None unfolding resolve_agent_def Let_def as_def [symmetric] by (auto split: list.splits)
      then show ?thesis by (auto split: option.splits dest: find_reply_agent_mem route_untagged_mem)
    qed
  qed
  then show ?thesis by (auto simp: as_def agents_of_def)
qed

definition bench_alone :: bridge where
  "bench_alone = bench\<lparr>br_agents := [bench_agent ''coder'' ''code'']\<rparr>"

theorem routed_to_a_member_witness:
  "\<exists>a \<in> set (br_agents bench_alone). wa_session a = 8 \<and> wa_name a = ''coder''"
proof -
  have "bounded_match AGENT_PREFIX_RE ''go'' = None" by code_simp
  then have "resolve_agent 8 ''go'' None None bench_alone = Inr (direct ''coder'' (strip ''go''))"
    by (simp add: resolve_agent_def bench_alone_def bench_defs agents_of_def Let_def)
  from routed_to_a_member [OF this] show ?thesis by simp
qed

section \<open>Defects\<close>

text \<open>a curator that polls while there is nothing to sweep gets an error instead of no job: the poll
  unpacks the missing pair of prompt and cause.\<close>
theorem idle_curator_poll_raises:
  assumes "session_row sid s = Some row" "ws_status row \<noteq> ''closed''" "\<not> asleep row"
    and "agent_row sid agent s = Some a" "is_curator_agent a" "active_job sid agent s = None" "pending_jobs sid agent s = []"
    and "next_handoff row a s = None" "build_curator_sweep_prompt now row s = None"
  shows "fst (claim_next_job W now sid agent worker s) = Inl UnpackNone"
proof -
  have "ws_id row = sid" "wa_name a = agent"
    using assms(1,4) row_get_SomeD unfolding session_row_def agent_row_def by (fastforce dest: find_SomeD)+
  then show ?thesis
    using assms by (simp add: claim_next_job_def in_scope_def bindS_def require_session_def require_agent_def doneS_def failS_def
        claim_when_free_def find_work_def claim_ready_task_job_def claim_curator_sweep_job_def)
qed

theorem idle_curator_poll_raises_witness:
  "fst (claim_next_job bench_desk 5 8 ''curator'' ''w2'' bench) = Inl UnpackNone"
proof (rule idle_curator_poll_raises)
  show "agent_row 8 ''curator'' bench = Some (bench_agent ''curator'' ''coordination'')"
    by (simp add: bench_defs agent_row_def)
  show "session_row 8 bench = Some bench_session" by (simp add: bench_defs session_row_def row_get_Cons)
  show "is_curator_agent (bench_agent ''curator'' ''coordination'')" by code_simp
  show "active_job 8 ''curator'' bench = None" by (simp add: bench_defs active_job_def)
  show "pending_jobs 8 ''curator'' bench = []" by (simp add: bench_defs pending_jobs_def select_asc_def)
  show "next_handoff bench_session (bench_agent ''curator'' ''coordination'') bench = None"
    by (simp add: bench_defs next_handoff_def handoffs_for_def select_asc_def)
  show "build_curator_sweep_prompt 5 bench_session bench = None" by code_simp
qed (simp_all add: bench_session_def asleep_def)

text \<open>a worker that registers late on a closed session brings it back to \<open>launching\<close>: the row stays
  stamped as closed, but the checks for the status \<open>closed\<close> no longer hold it.\<close>
theorem late_registration_reopens:
  assumes "session_row sid s = Some row" "ws_closed row = Some t" "ws_desired row = ''closed''" "agent_row sid agent s = Some a"
  shows "\<exists>row'. session_row sid (snd (register_worker L now sid agent worker pid s)) = Some row'
     \<and> ws_closed row' = Some t \<and> ws_status row' = ''launching''"
  using assms
  by (simp add: register_worker_def in_scope_def bindS_def require_session_def require_agent_def doneS_def Let_def
      refresh_session_startup_state_def session_row_def session_upd_def agent_upd_def row_get_upd_same brought_online_def)

definition bench_closed :: bridge where
  "bench_closed = bench\<lparr>br_sessions := [bench_session\<lparr>ws_status := ''closed'', ws_desired := ''closed'', ws_closed := Some 4\<rparr>]\<rparr>"

theorem late_registration_reopens_witness:
  "\<exists>row'. session_row 8 (snd (register_worker bench_lib 5 8 ''coder'' ''w1'' None bench_closed)) = Some row'
     \<and> ws_closed row' = Some 4 \<and> ws_status row' = ''launching''"
  by (rule late_registration_reopens [where a = "bench_agent ''coder'' ''code''"
        and row = "bench_session\<lparr>ws_status := ''closed'', ws_desired := ''closed'', ws_closed := Some 4\<rparr>"])
    (simp_all add: bench_closed_def bench_defs session_row_def agent_row_def row_get_Cons)

text \<open>when a job ends whose task has been handed on again in the meantime, the task is marked done although
  the new handoff is still queued; no later claim can take that handoff, because its task is not ready.\<close>
theorem stale_completion_strands_handoff:
  assumes "job_task j s = Some t" "\<not> hands_on t hs" "h \<in> set (br_handoffs s)" "wh_task h = wt_id t" "wj_handoff j \<noteq> Some (wh_id h)"
  shows "h \<in> set (br_handoffs (synchronize_completed_task now row j who report False hs s))
     \<and> (\<forall>u. task_of h (synchronize_completed_task now row j who report False hs s) = Some u \<longrightarrow> wt_state u \<notin> set READY_TASK_STATES)"
proof -
  obtain k where k: "wj_task j = Some k" "row_get wt_id k (br_tasks s) = Some t"
    using assms(1) by (auto simp: job_task_def split: option.splits)
  then have id: "wt_id t = k" by (auto dest: row_get_SomeD)
  let ?f = "\<lambda>u. completed_task now (hands_on t hs) False report u" and ?s' = "synchronize_completed_task now row j who report False hs s"
  have run: "br_tasks ?s' = br_tasks (task_upd k ?f s)"
    "br_handoffs ?s' = br_handoffs (snd (settle_handoff now ''consumed'' j (task_upd k ?f s)))"
    using assms(1) id by (simp_all add: synchronize_completed_task_def settle_task_def settle_handoff_def handoff_upd_def
        split: option.split)
  have "row_get wt_id k (br_tasks ?s') = Some (?f t)"
    using k(2) by (simp add: run task_upd_def row_get_upd_same completed_task_def)
  moreover have "wt_state (?f t) = ''done''" using assms(2) by (simp add: completed_task_def completed_state_def)
  ultimately have "\<forall>u. task_of h ?s' = Some u \<longrightarrow> wt_state u \<notin> set READY_TASK_STATES"
    using assms(4) id by (simp add: task_of_def READY_TASK_STATES_def)
  moreover have "h \<in> set (br_handoffs ?s')"
    using assms(3,5) unfolding run
    by (auto simp: settle_handoff_def task_upd_def handoff_upd_def row_upd_def image_iff intro!: bexI [of _ h] split: option.splits)
  ultimately show ?thesis by blast
qed

definition bench_rehanded :: bridge where
  "bench_rehanded = bench\<lparr>br_jobs := [bench_job 4 ''in_progress''], br_handoffs := [bench_handoff 3 ''superseded'', bench_handoff 6 ''queued'']\<rparr>"

theorem stale_completion_strands_handoff_witness:
  "bench_handoff 6 ''queued'' \<in> set (br_handoffs
     (synchronize_completed_task 7 bench_session (bench_job 4 ''in_progress'') ''coder'' ''ok'' False [] bench_rehanded))"
  using stale_completion_strands_handoff [of "bench_job 4 ''in_progress''" bench_rehanded bench_task "[]" "bench_handoff 6 ''queued''"]
  by (simp add: bench_rehanded_def bench_defs job_task_def hands_on_def row_get_Cons)

end
