(* ===== verification/FlowProps.thy ===== *)
theory FlowProps
  imports PlantRuns SessionProps
begin

text \<open>Properties of the start workflow, of policies, and of runs of the whole bridge process.\<close>

section \<open>What stays of a session row\<close>

definition core :: "wsession \<Rightarrow> id \<times> string \<times> string \<times> string option" where
  "core r = (ws_id r, ws_by r, ws_workdir r, ws_preset r)"

definition cores :: "bridge \<Rightarrow> (id \<times> string \<times> string \<times> string option) list" where
  "cores b = map core (br_sessions b)"

lemma cores_session_upd: "(\<And>r. core (f r) = core r) \<Longrightarrow> cores (session_upd k f b) = cores b"
  by (simp add: cores_def session_upd_def row_upd_def)

lemma cores_same [simp]:
  "cores (add_entry L now sid d w c m b) = cores b" "cores (each_agent sid g b) = cores b" "cores (drop_jobs now sid why b) = cores b"
  "cores (end_operations now sid kind out res b) = cores b" "cores (complete_operations now sid kind b) = cores b"
  "cores (fail_operations now sid kind obj b) = cores b" "cores (add_operation now sid k st w i t b) = cores b"
  by (simp_all add: cores_def each_agent_def drop_jobs_def end_operations_def complete_operations_def fail_operations_def
      add_operation_def)

lemma cores_recovery [simp]:
  "cores (fail_stalled_start L R now sid why b) = cores b" "cores (close_missing_thread_session L now sid why b) = cores b"
  "cores (paused_by_recovery now sid b) = cores b" "cores (settle_workers R now sid b) = cores b"
  by (simp_all add: fail_stalled_start_def close_missing_thread_session_def paused_by_recovery_def settle_workers_def Let_def
      cores_session_upd core_def)

lemma cores_on_bridge: "(\<And>b. cores (f b) = cores b) \<Longrightarrow> cores (pl_bridge (on_bridge f s)) = cores (pl_bridge s)"
  by (simp add: on_bridge_def)

lemma cores_probe: "cores (pl_bridge (snd (probe_targets G now row s))) = cores (pl_bridge s)"
  by (auto simp: probe_targets_def Let_def on_bridge_def cores_session_upd core_def split: prod.split option.split)

lemma cores_recover_awake: "cores (pl_bridge (snd (recover_awake G R now row why wake s))) = cores (pl_bridge s)"
proof -
  obtain st s1 where p: "probe_targets G now row s = (st, s1)" by fastforce
  then have "cores (pl_bridge s1) = cores (pl_bridge s)" using cores_probe [of G now row s] by simp
  then show ?thesis
    by (auto simp: recover_awake_def Let_def p on_bridge_def cores_session_upd core_def split: option.split)
qed

lemma cores_recover_session: "cores (pl_bridge (snd (recover_session G R now sid why wake missing s))) = cores (pl_bridge s)"
proof (cases "\<exists>row. session_row sid (pl_bridge s) = Some row \<and> ws_closed row = None")
  case False
  then show ?thesis by (auto simp: recover_session_def split: option.split)
next
  case True
  then obtain row where row: "session_row sid (pl_bridge s) = Some row" "ws_closed row = None" by blast
  let ?s1 = "on_bridge (session_upd sid (recovered_row now why)) s"
  let ?s2 = "snd (catalog_do (get_project now (se_stale G) (or_text (ws_preset row) [])) ?s1)"
  have 1: "cores (pl_bridge ?s1) = cores (pl_bridge s)" by (simp add: on_bridge_def cores_session_upd core_def recovered_row_def)
  then have 2: "cores (pl_bridge (snd (recover_awake G R now row why wake ?s2))) = cores (pl_bridge s)"
    using cores_recover_awake catalog_same by metis
  show ?thesis
    using 1 2 row by (cases "recover_awake G R now row why wake ?s2")
      (auto simp: recover_session_def Let_def on_bridge_def split: sum.splits)
qed

lemma cores_capabilities: "cores (pl_bridge (snd (ensure_session_capabilities now sid m who s))) = cores (pl_bridge s)"
  by (auto simp: ensure_session_capabilities_def Let_def cores_session_upd core_def capable_row_def split: option.split)

section \<open>Who may start a session\<close>

lemma then_do_set:
  assumes "x \<in> set (cores (pl_bridge (snd m)))" "\<And>y t. x \<in> set (cores (pl_bridge t)) \<Longrightarrow> x \<in> set (cores (pl_bridge (snd (f y t))))"
  shows "x \<in> set (cores (pl_bridge (snd (then_do m f))))"
  using assms by (cases m) (auto simp: then_do_def split: sum.split)

lemma created_core:
  assumes "create_session_with_manifest G now project target preset m user w thread s = (Inr x, s1)"
  shows "(ws_id (ss_row x), user, strip (or_text w (mf_workdir m)), Some preset) \<in> set (cores (pl_bridge s1))"
  using assms
  by (auto simp: create_session_with_manifest_def Let_def cores_def core_def fresh_session_def summary_of_def to_summary_response_def
      split: if_splits)

text \<open>C38: the start workflow lets through what the profile forbids: when the profile is found but the user, guild
  or channel is not allowed to start it, and no session is there to take up, the refusal is dropped and
  the user gets a session of that profile in the directory asked for.\<close>
theorem start_ignores_permissions:
  assumes "resolve_manifest G now (st_preset q) s = (Inr (m, p), s1)"
    and "validate_session_start m (st_user q) (st_guild q) (st_channel q) = Some refused"
    and "find_existing_session_id q (strip (or_text (st_target q) (st_project q))) (Some p) (pl_bridge s1) = None"
    and "st_workdir q = Some w" "strip w \<noteq> []"
  shows "\<exists>k. (k, st_user q, strip w, Some p) \<in> set (cores (pl_bridge (snd (start_run G R P now q out s))))"
proof -
  let ?t = "strip (or_text (st_target q) (st_project q))"
  have w: "w \<noteq> []" using assms(5) by (auto simp: strip_def)
  have run: "start_run G R P now q out s = start_new G R P now q out m p ?t s1"
    using assms(1,2,3) by (simp add: start_run_def start_profile_def)
  have res: "resolve_target_workdir G P now m p ?t q (so_answer out) s1 = (Inr (?t, w), s1)"
    using assms(4) w by (simp add: resolve_target_workdir_def or_text_def)
  obtain x s2 where c: "create_session_with_manifest G now (st_project q) ?t p m (st_user q) (Some w) (so_thread out) s1 = (Inr x, s2)"
    using assms(5) w by (auto simp: create_session_with_manifest_def Let_def or_text_def)
  let ?c = "(ws_id (ss_row x), st_user q, strip w, Some p)"
  have in2: "?c \<in> set (cores (pl_bridge s2))" using created_core [OF c] w by (simp add: or_text_def)
  let ?rest = "\<lambda>x s2. let sid = ws_id (ss_row x) in
     then_do (ensure_session_capabilities now sid m (st_user q) s2) (\<lambda>_ s3.
     then_do (recover_session G R now sid ''project-start'' True (so_missing out) s3) (\<lambda>_ s4.
     (get_session_summary G now sid s4, s4)))"
  have "?c \<in> set (cores (pl_bridge (snd (?rest x s2))))"
    unfolding Let_def
    by (intro then_do_set) (simp_all add: cores_capabilities cores_recover_session in2)
  moreover have "start_new G R P now q out m p ?t s1 = ?rest x s2"
    unfolding start_new_def res by (simp add: then_do_def c)
  ultimately show ?thesis unfolding run by auto
qed

definition stranger :: start_request where
  "stranger = \<lparr>st_project = ''demo'', st_target = None, st_preset = None, st_user = ''mallory'', st_guild = ''g'', st_channel = ''c'',
     st_workdir = Some ''/home''\<rparr>"

definition plain_recovery :: recovery_settings where
  "plain_recovery = \<lparr>rs_stale_worker = 60, rs_timeout = 300\<rparr>"
definition plain_paths :: paths where
  "plain_paths = \<lparr>pa_derived = id, pa_base = id, pa_compare = id, pa_canonical = id\<rparr>"
definition no_answer :: start_outside where
  "no_answer = \<lparr>so_thread = ''t'', so_missing = False, so_answer = None\<rparr>"

theorem start_ignores_permissions_witness:
  "\<exists>k. (k, ''mallory'', ''/home'', Some ''p'') \<in> set (cores (pl_bridge (snd (start_run plain_settings plain_recovery plain_paths 1 stranger no_answer finder_plant))))"
proof -
  have r: "fst (resolve_manifest plain_settings 1 (st_preset stranger) finder_plant) = Inr (finder_manifest_of ''p'', ''p'')" by code_simp
  obtain s1 where s1: "resolve_manifest plain_settings 1 (st_preset stranger) finder_plant = (Inr (finder_manifest_of ''p'', ''p''), s1)"
    using r by (metis prod.collapse)
  then have b: "pl_bridge s1 = pl_bridge finder_plant" using resolve_same by (metis snd_conv)
  have v: "validate_session_start (finder_manifest_of ''p'') (st_user stranger) (st_guild stranger) (st_channel stranger) = Some UserNotAllowed"
    by (simp add: validate_session_start_def finder_manifest_of_def stranger_def)
  have none: "br_sessions (pl_bridge finder_plant) = []" by (simp add: finder_plant_def find_plant_def)
  have "find_existing_session_id stranger (strip (or_text (st_target stranger) (st_project stranger))) (Some ''p'') (pl_bridge s1) = None"
    by (simp add: find_existing_session_id_def b none select_desc_def)
  moreover have "st_workdir stranger = Some ''/home''" "st_user stranger = ''mallory''" by (simp_all add: stranger_def)
  moreover have "strip ''/home'' = ''/home''" by code_simp
  ultimately show ?thesis using start_ignores_permissions [OF s1 v, of "''/home''" plain_recovery plain_paths no_answer] by simp
qed

section \<open>Policies\<close>

lemma validate_policy_idem: "validate_policy (validate_policy p) = validate_policy p"
  by (simp add: validate_policy_def)

text \<open>
  A policy as the table stores it, key by key, and the override as \<open>_coerce_value\<close> states it: the type of
  the value that is there decides how the text is read, then the validators of the key clamp it.
\<close>

definition policy_dump :: "project_policy \<Rightarrow> obj" where
  "policy_dump p = [(''max_parallel_agents'', JInt (pp_parallel p)), (''auto_retry'', JBool (pp_auto_retry p)),
     (''max_retries'', JInt (pp_max_retries p)), (''quiet_discord'', JBool (pp_quiet p)),
     (''approval_mode'', JStr (pp_approval p)), (''allow_cross_agent_handoff'', JBool (pp_cross p))]"

definition coerce_value :: "string \<Rightarrow> json \<Rightarrow> policy_failure + json" where
  "coerce_value raw existing =
     (case existing of
        JBool _ \<Rightarrow> bindE (coerce_policy_bool raw) (\<lambda>b. Inr (JBool b))
      | JInt _ \<Rightarrow> bindE (coerce_policy_int raw) (\<lambda>n. Inr (JInt n))
      | _ \<Rightarrow> Inr (JStr (strip raw)))"

definition clamped :: "string \<Rightarrow> json \<Rightarrow> json" where
  "clamped key v =
     (case v of
        JInt n \<Rightarrow> JInt (if key = ''max_parallel_agents'' then max 1 (min n 8) else if key = ''max_retries'' then max 0 (min n 10) else n)
      | _ \<Rightarrow> v)"

lemma dump_validated: "policy_dump (validate_policy p) = map (\<lambda>(k, x). (k, clamped k x)) (policy_dump p)"
  by (simp add: policy_dump_def validate_policy_def clamped_def)

lemma set_field_dump:
  assumes "set_field key raw p = Inr p'"
  shows "\<exists>v0 v. map_of (policy_dump p) key = Some v0 \<and> coerce_value raw v0 = Inr v
     \<and> policy_dump p' = map (\<lambda>(k, x). (k, if k = key then v else x)) (policy_dump p)"
  using assms
  by (auto simp: set_field_def policy_dump_def coerce_value_def bindE_Inr_iff split: if_splits)

text \<open>C37: Setting a policy value of a session stores that value. The key is one of the policy, its new value is
  the text read as the type of the value before and clamped as the key demands (at most eight agents,
  at most ten retries), every other key keeps its value, clamped likewise, no other session's row changes, and what was
  stored is what every later read of the session's policy gives, whatever profile it comes with.\<close>
theorem policy_override_reads_back:
  assumes "set_policy_value now sid profile key raw who ps = Inr (r, ps')"
  shows "let old = policy_dump (case row_get pr_session sid ps of None \<Rightarrow> validate_policy profile | Some q \<Rightarrow> pr_policy q) in
    (\<exists>v0 v. map_of old key = Some v0 \<and> coerce_value raw v0 = Inr v
       \<and> policy_dump (pr_policy r) = map (\<lambda>(k, x). (k, clamped k (if k = key then v else x))) old)
    \<and> get_policy_response sid other ps' = Some r \<and> pr_source r = ''session_override''
    \<and> (\<forall>j. j \<noteq> sid \<longrightarrow> row_get pr_session j ps' = row_get pr_session j ps)"
proof -
  let ?old = "case row_get pr_session sid ps of None \<Rightarrow> validate_policy profile | Some q \<Rightarrow> pr_policy q"
  obtain r0 ps1 where e: "ensure_policy now sid profile who ps = (r0, ps1)" by fastforce
  then have got: "row_get pr_session sid ps1 = Some r0" and old: "pr_policy r0 = ?old"
    and others: "\<And>j. j \<noteq> sid \<Longrightarrow> row_get pr_session j ps1 = row_get pr_session j ps"
    by (auto simp: ensure_policy_def Let_def row_get_append row_get_Cons split: option.splits)
  then have sid: "pr_session r0 = sid" by (auto dest: row_get_SomeD)
  obtain p where p: "set_field key raw ?old = Inr p" and r: "r = r0\<lparr>pr_policy := validate_policy p, pr_source := ''session_override'',
      pr_version := pr_version r0 + 1, pr_by := who, pr_updated := Some now\<rparr>" and ps': "ps' = row_upd pr_session sid (\<lambda>_. r) ps1"
    using assms by (auto simp: set_policy_value_def e bindE_Inr_iff Let_def simp flip: old)
  have "row_get pr_session sid ps' = Some r"
    unfolding ps' using got sid by (subst row_get_upd_same) (auto simp: r)
  then have "get_policy_response sid other ps' = Some r" by (simp add: get_policy_response_def r validate_policy_idem)
  moreover have "row_get pr_session j ps' = row_get pr_session j ps" if "j \<noteq> sid" for j
    unfolding ps' using others [OF that] sid that by (subst row_get_upd_other) (auto simp: r)
  moreover obtain v0 v where v: "map_of (policy_dump ?old) key = Some v0" "coerce_value raw v0 = Inr v"
    "policy_dump p = map (\<lambda>(k, x). (k, if k = key then v else x)) (policy_dump ?old)"
    using set_field_dump [OF p] by blast
  then have "policy_dump (pr_policy r) = map (\<lambda>(k, x). (k, clamped k (if k = key then v else x))) (policy_dump ?old)"
    by (simp add: r dump_validated case_prod_beta comp_def)
  ultimately show ?thesis using v(1,2) unfolding Let_def by (auto simp: r)
qed

theorem policy_override_reads_back_witness:
  "\<exists>r ps'. set_policy_value 5 8 default_policy ''max_parallel_agents'' '' 12 '' ''op'' [] = Inr (r, ps')
     \<and> map_of (policy_dump (pr_policy r)) ''max_parallel_agents'' = Some (JInt 8)
     \<and> map_of (policy_dump (pr_policy r)) ''max_retries'' = Some (JInt 1)
     \<and> get_policy_response 8 None ps' = Some r"
proof -
  have "(case set_policy_value 5 8 default_policy ''max_parallel_agents'' '' 12 '' ''op'' [] of Inl _ \<Rightarrow> False | Inr _ \<Rightarrow> True)" by code_simp
  then obtain r ps' where run: "set_policy_value 5 8 default_policy ''max_parallel_agents'' '' 12 '' ''op'' [] = Inr (r, ps')"
    by (auto split: sum.splits)
  have c: "coerce_value '' 12 '' (JInt n) = Inr (JInt 12)" for n
  proof -
    have "coerce_policy_int '' 12 '' = Inr 12" by code_simp
    then show ?thesis by (simp add: coerce_value_def)
  qed
  from policy_override_reads_back [OF run, of None] run show ?thesis
    by (auto simp: Let_def policy_dump_def clamped_def default_policy_def validate_policy_def c)
qed

section \<open>Runs of the whole process\<close>

theorem plant_runs_keep_invariant_witness:
  "bridge_inv (pl_bridge (snd (recover_session plain_settings plain_recovery 5 8 ''tick'' False False
     ((find_plant one_find)\<lparr>pl_bridge := bench\<rparr>))))"
proof (rule plant_runs_keep_invariant)
  show "timed_run (plant_act plain_settings plain_recovery plain_paths) [5] ((find_plant one_find)\<lparr>pl_bridge := bench\<rparr>)
     (snd (recover_session plain_settings plain_recovery 5 8 ''tick'' False False ((find_plant one_find)\<lparr>pl_bridge := bench\<rparr>)))"
    by (auto intro: plant_act.recover)
  show "bridge_inv (pl_bridge ((find_plant one_find)\<lparr>pl_bridge := bench\<rparr>))" by (simp add: bench_inv)
qed

end
