(* ===== verification/Verify.thy ===== *)
theory Verify
  imports FlowProps
begin

text \<open>
  Verification runs of a session (\<open>services/verification_service.py\<close>): queued by an operator, claimed and
  completed by a launcher, reviewed by an operator. \<open>dir_of\<close> stands for the path arithmetic of \<open>pathlib\<close>
  over the working directory, the artifact directory, the session and the run. The reviews and artifacts
  of a run are kept in the order they were added.
\<close>

section \<open>Queueing and claiming\<close>

definition TERMINAL_VERIFY_STATES :: "string list" where
  "TERMINAL_VERIFY_STATES = [''completed'', ''failed'', ''approved'', ''rejected'']"

definition queued_note :: "string \<Rightarrow> string \<Rightarrow> string \<Rightarrow> string" where
  "queued_note k mode profile = ''Queued verification run `'' @ k @ ''` in mode `'' @ mode @ ''` for profile `'' @ profile @ ''`.''"

definition load_manifest_for_session :: "settings \<Rightarrow> instant \<Rightarrow> wsession \<Rightarrow> plant \<Rightarrow> (plant_error + manifest) \<times> plant" where
  "load_manifest_for_session G now row s =
     (let profile = or_text (ws_preset row) (ws_project row) in
      case catalog_do (get_project now (se_stale G) profile) s of
        (None, s1) \<Rightarrow> (Inl (ProfileGone profile), s1) | (Some m, s1) \<Rightarrow> (Inr m, s1))"

definition enqueue_run ::
  "settings \<Rightarrow> (string \<Rightarrow> string \<Rightarrow> id \<Rightarrow> string \<Rightarrow> string) \<Rightarrow> instant \<Rightarrow> id \<Rightarrow> string \<Rightarrow> string \<Rightarrow> plant \<Rightarrow> (plant_error + verify_run) \<times> plant" where
  "enqueue_run G dir_of now sid mode who s =
     (case session_row sid (pl_bridge s) of
        None \<Rightarrow> (Inl SessionGone, s)
      | Some row \<Rightarrow>
          (case load_manifest_for_session G now row s of
             (Inl e, s1) \<Rightarrow> (Inl e, s1)
           | (Inr m, s1) \<Rightarrow>
               (let v = mf_verification m; command = (case map_of (vm_commands v) mode of None \<Rightarrow> [] | Some c \<Rightarrow> c) in
                if \<not> vm_enabled v then (Inl (VerifyDisabled (mf_profile m)), s1)
                else if command = [] then (Inl (ModeMissing mode), s1)
                else
                  let b = pl_bridge s1; k = br_next b; text_id = l_uid (se_lib G) k;
                      run = \<lparr>vr_id = k, vr_session = sid, vr_by = who, vr_profile = mf_profile m, vr_mode = mode,
                             vr_provider = vm_provider v, vr_workdir = ws_workdir row,
                             vr_dir = dir_of (ws_workdir row) (vm_dir v) sid text_id, vr_timeout = vm_timeout v,
                             vr_command = command, vr_status = ''pending'', vr_review = vm_approval v, vr_launcher = None,
                             vr_summary = None, vr_error = None, vr_artifacts = [], vr_decisions = [], vr_created = now,
                             vr_claimed = None, vr_completed = None, vr_reviewed = None\<rparr>
                  in (Inr run, s1\<lparr>pl_runs := pl_runs s1 @ [run],
                        pl_bridge := note_entry (se_lib G) now sid ''verification'' (queued_note text_id mode (mf_profile m)) None
                          (b\<lparr>br_next := Suc k\<rparr>)\<rparr>))))"

definition run_claimed :: "instant \<Rightarrow> string \<Rightarrow> verify_run \<Rightarrow> verify_run" where
  "run_claimed now lid r = r\<lparr>vr_status := ''claimed'', vr_launcher := Some lid,
     vr_claimed := (case vr_claimed r of None \<Rightarrow> Some now | Some t \<Rightarrow> Some t)\<rparr>"

definition claim_runs :: "settings \<Rightarrow> instant \<Rightarrow> string \<Rightarrow> nat \<Rightarrow> plant \<Rightarrow> verify_run list \<times> plant" where
  "claim_runs G now lid capacity s =
     (let (ms, s1) = catalog_do (get_projects_for_launcher now (se_stale G) lid) s;
          rows = take capacity (select_asc vr_created (\<lambda>r. vr_status r = ''pending'' \<and> vr_profile r \<in> fst ` set ms) (pl_runs s1))
      in if ms = [] then ([], s1)
         else (map (run_claimed now lid) (filter (\<lambda>r. session_row (vr_session r) (pl_bridge s1) \<noteq> None) rows),
               s1\<lparr>pl_runs := map (\<lambda>r. if vr_id r \<in> vr_id ` set rows then run_claimed now lid r else r) (pl_runs s1)\<rparr>))"

section \<open>Completing\<close>

definition resolve_completion_status :: "verify_run \<Rightarrow> string \<Rightarrow> string" where
  "resolve_completion_status r requested =
     (if lower (strip requested) = ''completed'' then (if vr_review r then ''review_pending'' else ''completed'') else ''failed'')"

definition artifact_preview :: "verify_artifact list \<Rightarrow> string" where
  "artifact_preview as =
     (let t = join_by '', '' (map (\<lambda>a. va_kind a @ '':'' @ va_label a) (take 4 as)) in if t = [] then ''no artifacts'' else t)"

definition completion_transcript :: "string \<Rightarrow> verify_run \<Rightarrow> verify_artifact list \<Rightarrow> string" where
  "completion_transcript k r as =
     ''Verification run `'' @ k @ ''` finished with status `'' @ vr_status r @ ''` in mode `'' @ vr_mode r
     @ ''`. Artifacts: '' @ artifact_preview as @ ''.''"

definition verify_thread_message :: "verify_run \<Rightarrow> verify_artifact list \<Rightarrow> string" where
  "verify_thread_message r as =
     (let summary = strip (or_text (vr_summary r) (or_text (vr_error r) [])) in
      ''**verification '' @ vr_status r @ ''**'' @ [nl] @ ''Run `'' @ vr_mode r @ ''` on profile `'' @ vr_profile r @ ''`.''
      @ (if summary = [] then [] else nl # summary)
      @ (if as = [] then []
         else nl # ''Artifacts:'' @ nl # join_by [nl]
                (map (\<lambda>a. ''- `'' @ va_label a @ ''` ['' @ va_kind a @ ''] `'' @ va_path a @ ''`'') (take 5 as)))
      @ (if vr_status r = ''review_pending'' then nl # ''Use `/verify approve` or `/verify reject` after inspecting the artifacts.'' else []))"

definition run_completed ::
  "instant \<Rightarrow> string \<Rightarrow> string \<Rightarrow> string option \<Rightarrow> string option \<Rightarrow> verify_artifact list \<Rightarrow> verify_run \<Rightarrow> verify_run" where
  "run_completed now lid requested summary err as r =
     r\<lparr>vr_launcher := Some lid, vr_summary := summary, vr_error := err,
        vr_completed := (case vr_completed r of None \<Rightarrow> Some now | Some t \<Rightarrow> Some t),
        vr_status := resolve_completion_status r requested,
        vr_artifacts := vr_artifacts r @ map (\<lambda>a. a\<lparr>va_created := now\<rparr>) as\<rparr>"

definition update_run :: "id \<Rightarrow> (verify_run \<Rightarrow> verify_run) \<Rightarrow> plant \<Rightarrow> plant" where
  "update_run k f s = s\<lparr>pl_runs := row_upd vr_id k f (pl_runs s)\<rparr>"

text \<open>The answer: the run and the message for the thread, if the run was not over before.\<close>

definition complete_run ::
  "settings \<Rightarrow> instant \<Rightarrow> id \<Rightarrow> string \<Rightarrow> string \<Rightarrow> string option \<Rightarrow> string option \<Rightarrow> verify_artifact list \<Rightarrow> plant
     \<Rightarrow> (plant_error + verify_run \<times> string option) \<times> plant" where
  "complete_run G now k lid requested summary err as s =
     (case row_get vr_id k (pl_runs s) of
        None \<Rightarrow> (Inl RunMissing, s)
      | Some r \<Rightarrow>
          (if session_row (vr_session r) (pl_bridge s) = None then (Inl SessionGone, s)
           else if or_text (vr_launcher r) [] \<noteq> [] \<and> vr_launcher r \<noteq> Some lid then (Inl (RunOwned (or_text (vr_launcher r) [])), s)
           else if vr_status r \<in> set TERMINAL_VERIFY_STATES \<or> vr_status r = ''review_pending'' then (Inr (r, None), s)
           else
             let r' = run_completed now lid requested summary err as r;
                 s1 = update_run k (\<lambda>_. r') s;
                 s2 = on_bridge (note_entry (se_lib G) now (vr_session r) ''verification''
                        (completion_transcript (l_uid (se_lib G) k) r' as) None) s1
             in (Inr (r', Some (verify_thread_message r' as)), s2)))"

section \<open>Reviewing\<close>

definition latest_run :: "id \<Rightarrow> bool \<Rightarrow> plant \<Rightarrow> verify_run option" where
  "latest_run sid prefer_review s =
     (case (if prefer_review then select_desc vr_created (\<lambda>r. vr_session r = sid \<and> vr_status r = ''review_pending'') (pl_runs s) else []) of
        r # _ \<Rightarrow> Some r
      | [] \<Rightarrow> (case select_desc vr_created (\<lambda>r. vr_session r = sid) (pl_runs s) of [] \<Rightarrow> None | r # _ \<Rightarrow> Some r))"

definition get_latest_run :: "id \<Rightarrow> plant \<Rightarrow> plant_error + verify_run option" where
  "get_latest_run sid s = (if session_row sid (pl_bridge s) = None then Inl SessionGone else Inr (latest_run sid False s))"

definition run_reviewed :: "instant \<Rightarrow> string \<Rightarrow> string \<Rightarrow> string option \<Rightarrow> verify_run \<Rightarrow> verify_run" where
  "run_reviewed now decision who note_text r =
     r\<lparr>vr_decisions := vr_decisions r @ [\<lparr>vd_decision = decision, vd_reviewer = who, vd_note = note_text, vd_created = now\<rparr>],
        vr_status := decision, vr_reviewed := (case vr_reviewed r of None \<Rightarrow> Some now | Some t \<Rightarrow> Some t)\<rparr>"

definition review_note :: "string \<Rightarrow> string \<Rightarrow> string \<Rightarrow> string option \<Rightarrow> string" where
  "review_note k decision who note_text =
     ''Verification run `'' @ k @ ''` was `'' @ decision @ ''` by `'' @ who @ ''`.''
     @ (if or_text note_text [] = [] then [] else '' Note: '' @ or_text note_text [])"

definition review_latest ::
  "settings \<Rightarrow> instant \<Rightarrow> id \<Rightarrow> string \<Rightarrow> string \<Rightarrow> string option \<Rightarrow> plant \<Rightarrow> (plant_error + verify_run) \<times> plant" where
  "review_latest G now sid decision who note_text s =
     (if decision \<notin> {''approved'', ''rejected''} then (Inl BadDecision, s)
      else if session_row sid (pl_bridge s) = None then (Inl SessionGone, s)
      else case latest_run sid True s of
             None \<Rightarrow> (Inl NothingToReview, s)
           | Some r \<Rightarrow>
               (let r' = run_reviewed now decision who note_text r;
                    s1 = update_run (vr_id r) (\<lambda>_. r') s
                in (Inr r', on_bridge (note_entry (se_lib G) now sid ''verification-review''
                      (review_note (l_uid (se_lib G) (vr_id r)) decision who note_text) None) s1)))"

section \<open>Runs settle until they are reviewed\<close>

definition run_over :: "verify_run \<Rightarrow> bool" where
  "run_over r \<longleftrightarrow> vr_status r \<in> set TERMINAL_VERIFY_STATES \<or> vr_status r = ''review_pending''"

definition runs_keyed :: "plant \<Rightarrow> bool" where
  "runs_keyed s \<longleftrightarrow> distinct (map vr_id (pl_runs s)) \<and> (\<forall>r \<in> set (pl_runs s). vr_id r < br_next (pl_bridge s))"

inductive verify_act :: "settings \<Rightarrow> (string \<Rightarrow> string \<Rightarrow> id \<Rightarrow> string \<Rightarrow> string) \<Rightarrow> instant \<Rightarrow> plant \<Rightarrow> plant \<Rightarrow> bool" for G dir_of now where
  enqueue: "runs_keyed s \<Longrightarrow> verify_act G dir_of now s (snd (enqueue_run G dir_of now sid mode who s))"
| claim: "runs_keyed s \<Longrightarrow> verify_act G dir_of now s (snd (claim_runs G now lid n s))"
| complete: "runs_keyed s \<Longrightarrow> verify_act G dir_of now s (snd (complete_run G now k lid requested summary err as s))"

definition run_at :: "plant \<Rightarrow> id \<Rightarrow> verify_run option" where "run_at s k = row_get vr_id k (pl_runs s)"

lemma run_at_enqueue: "run_at s k = Some r \<Longrightarrow> run_at (snd (enqueue_run G dir_of now sid mode who s)) k = Some r"
  by (auto simp: run_at_def enqueue_run_def load_manifest_for_session_def Let_def row_get_append
      split: option.split prod.splits option.splits)

lemma run_at_claim:
  assumes "runs_keyed s" "run_at s k = Some r"
  shows "\<exists>r'. run_at (snd (claim_runs G now lid n s)) k = Some r' \<and> (vr_status r \<noteq> ''pending'' \<longrightarrow> r' = r)"
proof -
  obtain ms s1 where c: "catalog_do (get_projects_for_launcher now (se_stale G) lid) s = (ms, s1)" by fastforce
  have runs: "pl_runs s1 = pl_runs s" using c by (auto split: prod.splits)
  define rows where "rows = take n (select_asc vr_created (\<lambda>r. vr_status r = ''pending'' \<and> vr_profile r \<in> fst ` set ms) (pl_runs s1))"
  have r: "r \<in> set (pl_runs s)" "vr_id r = k" using assms(2) row_get_SomeD unfolding run_at_def by fastforce+
  have "q = r" if "q \<in> set rows" "vr_id q = k" for q
  proof -
    have "q \<in> set (pl_runs s)" using that(1) set_take_subset unfolding rows_def by (fastforce simp: runs select_asc_def)
    then show ?thesis using assms(1) r that(2) unfolding runs_keyed_def by (metis eq_key_imp_eq_value distinct_map inj_onD)
  qed
  then have pending: "vr_status r = ''pending''" if "k \<in> vr_id ` set rows"
    using that set_take_subset unfolding rows_def by (fastforce simp: select_asc_def)
  define f where "f = (\<lambda>r. if vr_id r \<in> vr_id ` set rows then run_claimed now lid r else r)"
  have keys: "vr_id (f q) = vr_id q" for q by (simp add: f_def run_claimed_def)
  have "row_get vr_id k (map f (pl_runs s)) = map_option f (row_get vr_id k (pl_runs s))" by (rule row_get_map) (rule keys)
  then have "run_at (s1\<lparr>pl_runs := map f (pl_runs s1)\<rparr>) k = Some (f r)"
    using assms(2) by (simp add: run_at_def runs)
  moreover have "run_at s1 k = Some r" using assms(2) by (simp add: run_at_def runs)
  ultimately show ?thesis
    unfolding claim_runs_def Let_def c prod.case rows_def [symmetric] f_def [symmetric] using pending r(2)
    by (cases "ms = []") (auto simp: f_def)
qed

lemma run_at_update:
  assumes "run_at s i = Some r" "vr_id q = k"
  shows "run_at (update_run k (\<lambda>_. q) s) i = Some (if i = k then q else r)"
  using assms row_get_upd_same [of vr_id k "\<lambda>_. q" "pl_runs s"] row_get_upd_other [of i k vr_id "\<lambda>_. q" "pl_runs s"]
  by (auto simp: run_at_def update_run_def)

lemma run_at_complete:
  assumes "run_at s i = Some r"
  shows "\<exists>r'. run_at (snd (complete_run G now k lid requested summary err as s)) i = Some r' \<and> (run_over r \<longrightarrow> r' = r)"
proof (cases "run_at s k")
  case None
  then show ?thesis using assms by (simp add: complete_run_def run_at_def)
next
  case (Some q)
  have k: "vr_id (run_completed now lid requested summary err as q) = k"
    using Some row_get_SomeD by (fastforce simp: run_at_def run_completed_def)
  note up = run_at_update [OF assms k]
  have "i = k \<Longrightarrow> q = r" using Some assms by simp
  then show ?thesis using Some assms up
    by (auto simp: complete_run_def run_at_def Let_def on_bridge_def run_over_def)
qed

lemma verify_act_run:
  "verify_act G dir_of now s s' \<Longrightarrow> run_at s k = Some r \<Longrightarrow> \<exists>r'. run_at s' k = Some r' \<and> (run_over r \<longrightarrow> r' = r)"
proof (induction rule: verify_act.induct)
  case (claim s lid n)
  then show ?case using run_at_claim [of s k r] by (fastforce simp: run_over_def TERMINAL_VERIFY_STATES_def)
qed (auto dest: run_at_enqueue run_at_complete)

interpretation verify_runs: settling run_at run_over "verify_act G dir_of"
  by unfold_locales (use verify_act_run in \<open>blast+\<close>)

text \<open>C40: a verification run that is over, or waits for its review, keeps its result whatever launchers and
  operators queue, claim or report afterwards: only a review changes it.\<close>
theorem verified_run_is_final:
  "timed_run (verify_act G dir_of) ts s s' \<Longrightarrow> run_at s k = Some r \<Longrightarrow> run_over r \<Longrightarrow> run_at s' k = Some r"
  by (rule verify_runs.run_stays)

text \<open>an operator can decide on a run that nobody has finished: if the newest run of the session is still
  pending or claimed it becomes approved, and the result that its launcher then reports is dropped.\<close>
theorem unfinished_run_approved:
  assumes "session_row sid (pl_bridge s) \<noteq> None" "latest_run sid True s = Some r" "vr_status r \<in> {''pending'', ''claimed''}"
    and "row_get vr_id (vr_id r) (pl_runs s) = Some r" "vr_session r = sid" "vr_launcher r = None \<or> vr_launcher r = Some lid"
  shows "let s1 = snd (review_latest G now sid ''approved'' who note_text s);
     s2 = snd (complete_run G later (vr_id r) lid requested summary err as s1)
     in map_option vr_status (run_at s2 (vr_id r)) = Some ''approved'' \<and> map_option vr_artifacts (run_at s2 (vr_id r)) = Some (vr_artifacts r)"
proof -
  let ?r' = "run_reviewed now ''approved'' who note_text r"
  obtain row where row: "session_row sid (pl_bridge s) = Some row" using assms(1) by blast
  define s1 where "s1 = snd (review_latest G now sid ''approved'' who note_text s)"
  have s1: "row_get vr_id (vr_id r) (pl_runs s1) = Some ?r'" "session_row sid (pl_bridge s1) = Some row"
    using assms(2,4) row
    by (simp_all add: s1_def review_latest_def Let_def update_run_def on_bridge_def row_get_upd_same run_reviewed_def session_row_def)
  have "snd (complete_run G later (vr_id r) lid requested summary err as s1) = s1"
    using s1 assms(5,6) by (auto simp: complete_run_def run_reviewed_def TERMINAL_VERIFY_STATES_def)
  then show ?thesis unfolding Let_def s1_def [symmetric] run_at_def by (simp add: s1 run_reviewed_def)
qed

definition sample_run :: "string \<Rightarrow> verify_run" where
  "sample_run st = \<lparr>vr_id = 6, vr_session = 8, vr_by = ''op'', vr_profile = ''p'', vr_mode = ''smoke'', vr_provider = ''command'',
     vr_workdir = ''/w'', vr_dir = ''/v'', vr_timeout = 300, vr_command = [''t''], vr_status = st, vr_review = True,
     vr_launcher = Some ''pc'', vr_summary = None, vr_error = None, vr_artifacts = [], vr_decisions = [], vr_created = 0,
     vr_claimed = Some 1, vr_completed = None, vr_reviewed = None\<rparr>"

definition verify_plant :: "string \<Rightarrow> plant" where
  "verify_plant st = (find_plant one_find)\<lparr>pl_bridge := bench, pl_runs := [sample_run st]\<rparr>"

theorem verified_run_is_final_witness:
  "run_at (snd (complete_run plain_settings 5 6 ''pc'' ''failed'' None None [] (verify_plant ''review_pending''))) 6
     = Some (sample_run ''review_pending'')"
proof (rule verified_run_is_final)
  show "timed_run (verify_act plain_settings (\<lambda>_ _ _ _. [])) [5] (verify_plant ''review_pending'')
     (snd (complete_run plain_settings 5 6 ''pc'' ''failed'' None None [] (verify_plant ''review_pending'')))"
    by (auto intro!: verify_act.complete simp: runs_keyed_def verify_plant_def sample_run_def bench_def)
qed (simp_all add: run_at_def verify_plant_def sample_run_def run_over_def row_get_Cons)

theorem unfinished_run_approved_witness:
  "map_option vr_status (run_at (snd (complete_run plain_settings 7 6 ''pc'' ''failed'' None None []
     (snd (review_latest plain_settings 5 8 ''approved'' ''op'' None (verify_plant ''claimed''))))) 6) = Some ''approved''"
  using unfinished_run_approved [of 8 "verify_plant ''claimed''" "sample_run ''claimed''" "''pc''" plain_settings 5 "''op''" None 7
      "''failed''" None None "[]"]
  by (simp add: verify_plant_def latest_run_def select_desc_def sample_run_def session_row_def bench_def bench_session_def row_get_Cons Let_def)

end
