(* ===== verification/ThreadDelta.thy ===== *)
theory ThreadDelta
  imports SessionProps "HOL-Library.Sublist"
begin

text \<open>
  \<open>get_thread_delta\<close>: the part of a session's transcript that an agent has not read yet. A cursor is the
  time and the id of the last entry read; parsing a time back is the library's \<open>fromisoformat\<close>.
\<close>

section \<open>Cursors\<close>

abbreviation THREAD_CURSOR_SEPARATOR :: char where "THREAD_CURSOR_SEPARATOR \<equiv> CHR ''|''"
definition THREAD_DELTA_FETCH_LIMIT :: nat where "THREAD_DELTA_FETCH_LIMIT = 120"

type_synonym marker = "(instant \<times> string) option"

definition encode_thread_cursor :: "lib \<Rightarrow> wentry \<Rightarrow> string" where
  "encode_thread_cursor L e = l_iso L (wx_created e) @ THREAD_CURSOR_SEPARATOR # l_uid L (wx_id e)"

definition decode_thread_cursor :: "(string \<Rightarrow> instant option) \<Rightarrow> string option \<Rightarrow> marker" where
  "decode_thread_cursor from_iso cursor =
     (let s = or_text cursor []; raw = takeWhile (\<lambda>c. c \<noteq> THREAD_CURSOR_SEPARATOR) s;
          rest = dropWhile (\<lambda>c. c \<noteq> THREAD_CURSOR_SEPARATOR) s
      in if rest = [] \<or> raw = [] \<or> tl rest = [] then None else map_option (\<lambda>t. (t, tl rest)) (from_iso raw))"

definition thread_entry_after_cursor :: "lib \<Rightarrow> marker \<Rightarrow> wentry \<Rightarrow> bool" where
  "thread_entry_after_cursor L m e =
     (case m of None \<Rightarrow> True | Some (t, i) \<Rightarrow> t < wx_created e \<or> (wx_created e = t \<and> str_less i (l_uid L (wx_id e))))"

section \<open>One page\<close>

record thread_event =
  te_cursor :: string
  te_entry :: wentry
  te_kind :: string
  te_task :: "string option"

record delta_request =
  dq_cursor :: "string option"
  dq_kinds :: "string list"
  dq_task :: "string option"
  dq_limit :: nat

definition entry_kind :: "wentry \<Rightarrow> string" where
  "entry_kind e = classify_transcript_kind (wx_direction e) (wx_content e)"

definition wanted :: "delta_request \<Rightarrow> wentry \<Rightarrow> bool" where
  "wanted q e \<longleftrightarrow>
     (let kinds = map lower (filter (\<lambda>k. k \<noteq> []) (map strip (dq_kinds q))); task = upper (strip (or_text (dq_task q) []))
      in (kinds = [] \<or> entry_kind e \<in> set kinds) \<and> (task = [] \<or> extract_transcript_task_id (wx_content e) = Some task))"

definition thread_event_of :: "lib \<Rightarrow> wentry \<Rightarrow> thread_event" where
  "thread_event_of L e = \<lparr>te_cursor = encode_thread_cursor L e, te_entry = e, te_kind = entry_kind e,
     te_task = extract_transcript_task_id (wx_content e)\<rparr>"

text \<open>The loop over the rows: the next cursor moves with every entry looked at, wanted or not.\<close>

fun delta_scan :: "lib \<Rightarrow> delta_request \<Rightarrow> marker \<Rightarrow> wentry list \<Rightarrow> string option \<Rightarrow> thread_event list \<Rightarrow> string option \<times> thread_event list" where
  "delta_scan L q m [] nxt acc = (nxt, acc)"
| "delta_scan L q m (e # es) nxt acc =
     (if \<not> thread_entry_after_cursor L m e then delta_scan L q m es nxt acc
      else if \<not> wanted q e then delta_scan L q m es (Some (encode_thread_cursor L e)) acc
      else let acc' = acc @ [thread_event_of L e] in
           if dq_limit q \<le> length acc' then (Some (encode_thread_cursor L e), acc')
           else delta_scan L q m es (Some (encode_thread_cursor L e)) acc')"

definition thread_entries :: "lib \<Rightarrow> id \<Rightarrow> bridge \<Rightarrow> wentry list" where
  "thread_entries L sid s = sort_key (\<lambda>e. Position (wx_created e) (l_uid L (wx_id e))) (filter (\<lambda>e. wx_session e = sid) (br_entries s))"

definition delta_rows :: "lib \<Rightarrow> id \<Rightarrow> marker \<Rightarrow> bridge \<Rightarrow> wentry list" where
  "delta_rows L sid m s =
     (case m of
        None \<Rightarrow> rev (take THREAD_DELTA_FETCH_LIMIT (rev (thread_entries L sid s)))
      | Some (t, _) \<Rightarrow> take THREAD_DELTA_FETCH_LIMIT (filter (\<lambda>e. t \<le> wx_created e) (thread_entries L sid s)))"

definition get_thread_delta ::
  "lib \<Rightarrow> (string \<Rightarrow> instant option) \<Rightarrow> id \<Rightarrow> string \<Rightarrow> delta_request \<Rightarrow> bridge \<Rightarrow> bridge_error + string option \<times> thread_event list" where
  "get_thread_delta L from_iso sid agent q s =
     (if session_row sid s = None then Inl SessionNotFound
      else if agent_row sid agent s = None then Inl AgentNotFound
      else let m = decode_thread_cursor from_iso (dq_cursor q)
           in Inr (delta_scan L q m (delta_rows L sid m s) (dq_cursor q) []))"

section \<open>What a page holds\<close>

definition ahead :: "lib \<Rightarrow> id \<Rightarrow> marker \<Rightarrow> bridge \<Rightarrow> wentry list" where
  "ahead L sid m s = filter (thread_entry_after_cursor L m) (thread_entries L sid s)"

lemma delta_scan_prefix:
  "\<exists>ys. prefix ys (filter (thread_entry_after_cursor L m) rows)
     \<and> delta_scan L q m rows nxt acc = (if ys = [] then nxt else Some (encode_thread_cursor L (last ys)), acc @ map (thread_event_of L) (filter (wanted q) ys))
     \<and> (ys = [] \<longrightarrow> filter (thread_entry_after_cursor L m) rows = [])
     \<and> (ys \<noteq> filter (thread_entry_after_cursor L m) rows \<longrightarrow> dq_limit q \<le> length acc + length (filter (wanted q) ys))"
proof (induction rows arbitrary: nxt acc)
  case (Cons e es)
  show ?case
  proof (cases "thread_entry_after_cursor L m e")
    case False
    then show ?thesis using Cons by simp
  next
    case after: True
    show ?thesis
    proof (cases "wanted q e \<and> dq_limit q \<le> length acc + 1")
      case True
      then show ?thesis using after by (intro exI [of _ "[e]"]) (simp add: Let_def)
    next
      case False
      let ?acc = "if wanted q e then acc @ [thread_event_of L e] else acc"
      obtain ys where ys: "prefix ys (filter (thread_entry_after_cursor L m) es)"
        "delta_scan L q m es (Some (encode_thread_cursor L e)) ?acc
           = (if ys = [] then Some (encode_thread_cursor L e) else Some (encode_thread_cursor L (last ys)), ?acc @ map (thread_event_of L) (filter (wanted q) ys))"
        "ys \<noteq> filter (thread_entry_after_cursor L m) es \<longrightarrow> dq_limit q \<le> length ?acc + length (filter (wanted q) ys)"
        using Cons.IH [of "Some (encode_thread_cursor L e)" ?acc] by auto
      then show ?thesis using False after by (intro exI [of _ "e # ys"]) (auto simp: Let_def)
    qed
  qed
qed simp

lemma prefix_filter_take: "prefix (filter p (take n xs)) (filter p xs)"
  by (metis append_take_drop_id filter_append prefixI)

lemma after_window:
  "filter (thread_entry_after_cursor L (Some (t, i))) (filter (\<lambda>e. t \<le> wx_created e) xs) = filter (thread_entry_after_cursor L (Some (t, i))) xs"
  by (induction xs) (auto simp: thread_entry_after_cursor_def)

lemma after_fetched:
  "prefix (filter (thread_entry_after_cursor L (Some (t, i))) (delta_rows L sid (Some (t, i)) s)) (ahead L sid (Some (t, i)) s)"
proof -
  let ?p = "thread_entry_after_cursor L (Some (t, i))"
  show ?thesis
    using after_window [of L t i "thread_entries L sid s"] prefix_filter_take [of ?p THREAD_DELTA_FETCH_LIMIT "filter (\<lambda>e. t \<le> wx_created e) (thread_entries L sid s)"]
    by (simp only: delta_rows_def ahead_def option.case prod.case)
qed

text \<open>Entries the fetch may return although they are not after the cursor: same time, id not larger.\<close>

definition already_read :: "lib \<Rightarrow> id \<Rightarrow> instant \<Rightarrow> string \<Rightarrow> bridge \<Rightarrow> wentry list" where
  "already_read L sid t i s =
     filter (\<lambda>e. t \<le> wx_created e \<and> \<not> thread_entry_after_cursor L (Some (t, i)) e) (thread_entries L sid s)"

text \<open>The fetch leaves out entries that are ahead only when it is full.\<close>

lemma fetch_full:
  assumes "filter (thread_entry_after_cursor L (Some (t, i))) (delta_rows L sid (Some (t, i)) s) \<noteq> ahead L sid (Some (t, i)) s"
  shows "120 \<le> length (already_read L sid t i s)
      + length (filter (thread_entry_after_cursor L (Some (t, i))) (delta_rows L sid (Some (t, i)) s))"
proof -
  let ?after = "thread_entry_after_cursor L (Some (t, i))"
  let ?xs = "filter (\<lambda>e. t \<le> wx_created e) (thread_entries L sid s)"
  have all: "filter ?after ?xs = ahead L sid (Some (t, i)) s" unfolding ahead_def by (rule after_window)
  have rows: "delta_rows L sid (Some (t, i)) s = take 120 ?xs" by (simp add: delta_rows_def THREAD_DELTA_FETCH_LIMIT_def)
  have "120 < length ?xs"
  proof (rule ccontr)
    assume "\<not> 120 < length ?xs"
    then have "take 120 ?xs = ?xs" by simp
    with assms all rows show False by simp
  qed
  then have "120 = length (take 120 ?xs)" by simp
  also have "\<dots> = length (filter (\<lambda>e. \<not> ?after e) (take 120 ?xs)) + length (filter ?after (take 120 ?xs))"
    using sum_length_filter_compl [of ?after "take 120 ?xs"] by linarith
  also have "length (filter (\<lambda>e. \<not> ?after e) (take 120 ?xs)) \<le> length (filter (\<lambda>e. \<not> ?after e) ?xs)"
    by (rule prefix_length_le) (rule prefix_filter_take)
  finally show ?thesis unfolding rows by (simp add: already_read_def conj_commute)
qed

text \<open>C39: A page of the transcript after a cursor is what lies ahead of it, from its start and without gaps,
  less what was not asked for, and the next cursor is that of the last entry looked at. The page stops
  short of what is ahead only when it holds the limit asked for, or when the fetch of 120 rows is
  used up by the entries looked at and entries at or before the cursor; and when no entry was
  looked at, nothing is ahead or entries at or before the cursor filled the fetch. So an empty page may
  leave wanted entries behind 120 unwanted ones, but then the cursor has moved on.\<close>
theorem thread_delta_page:
  assumes "get_thread_delta L from_iso sid agent q s = Inr (nxt, evs)"
    and "decode_thread_cursor from_iso (dq_cursor q) = Some (t, i)"
  shows "\<exists>ys. prefix ys (ahead L sid (Some (t, i)) s) \<and> map te_entry evs = filter (wanted q) ys
     \<and> nxt = (if ys = [] then dq_cursor q else Some (encode_thread_cursor L (last ys)))
     \<and> (ys \<noteq> ahead L sid (Some (t, i)) s \<longrightarrow> dq_limit q \<le> length evs \<or> 120 \<le> length (already_read L sid t i s) + length ys)
     \<and> (ys = [] \<longrightarrow> ahead L sid (Some (t, i)) s = [] \<or> 120 \<le> length (already_read L sid t i s))"
proof -
  let ?m = "Some (t, i)"
  let ?fetched = "filter (thread_entry_after_cursor L ?m) (delta_rows L sid ?m s)"
  have run: "delta_scan L q ?m (delta_rows L sid ?m s) (dq_cursor q) [] = (nxt, evs)"
    using assms by (auto simp: get_thread_delta_def Let_def split: if_splits)
  obtain ys where ys: "prefix ys ?fetched"
    "delta_scan L q ?m (delta_rows L sid ?m s) (dq_cursor q) [] = (if ys = [] then dq_cursor q
        else Some (encode_thread_cursor L (last ys)), map (thread_event_of L) (filter (wanted q) ys))"
    "ys = [] \<longrightarrow> ?fetched = []" "ys \<noteq> ?fetched \<longrightarrow> dq_limit q \<le> length (filter (wanted q) ys)"
    using delta_scan_prefix [of L ?m "delta_rows L sid ?m s" q "dq_cursor q" "[]"] by auto
  have evs: "evs = map (thread_event_of L) (filter (wanted q) ys)"
    and nxt: "nxt = (if ys = [] then dq_cursor q else Some (encode_thread_cursor L (last ys)))"
    using ys(2) run by simp_all
  have "ys \<noteq> ahead L sid ?m s \<longrightarrow> dq_limit q \<le> length evs \<or> 120 \<le> length (already_read L sid t i s) + length ys"
    using ys(4) fetch_full [of L t i sid s] evs by (cases "ys = ?fetched") auto
  moreover have "ys = [] \<longrightarrow> ahead L sid ?m s = [] \<or> 120 \<le> length (already_read L sid t i s)"
    using ys(3) fetch_full [of L t i sid s] by fastforce
  moreover have "prefix ys (ahead L sid ?m s)" using prefix_order.trans [OF ys(1) after_fetched] .
  ultimately show ?thesis using evs nxt by (intro exI [of _ ys]) (simp add: o_def thread_event_of_def)
qed

text \<open>a cursor reads back as the time and the id of its entry, when a printed time parses back and holds no bar.\<close>
theorem thread_cursor_roundtrip:
  assumes "from_iso (l_iso L (wx_created e)) = Some (wx_created e)" "THREAD_CURSOR_SEPARATOR \<notin> set (l_iso L (wx_created e))"
    "l_iso L (wx_created e) \<noteq> []" "l_uid L (wx_id e) \<noteq> []"
  shows "decode_thread_cursor from_iso (Some (encode_thread_cursor L e)) = Some (wx_created e, l_uid L (wx_id e))"
proof -
  have "takeWhile (\<lambda>c. c \<noteq> THREAD_CURSOR_SEPARATOR) (encode_thread_cursor L e) = l_iso L (wx_created e)"
    "dropWhile (\<lambda>c. c \<noteq> THREAD_CURSOR_SEPARATOR) (encode_thread_cursor L e) = THREAD_CURSOR_SEPARATOR # l_uid L (wx_id e)"
    unfolding encode_thread_cursor_def using assms(2) by (subst takeWhile_append2 dropWhile_append2; auto)+
  then show ?thesis using assms by (simp add: decode_thread_cursor_def or_text_def encode_thread_cursor_def)
qed

section \<open>A short thread\<close>

definition thread_iso :: "string \<Rightarrow> instant option" where "thread_iso s = Some (int (numval s))"

definition thread_row :: "nat \<Rightarrow> wentry" where
  "thread_row k = \<lparr>wx_id = k, wx_session = 8, wx_direction = ''inbound'', wx_actor = ''op'', wx_content = ''go'', wx_message = None,
     wx_created = int k\<rparr>"

definition thread_request :: delta_request where
  "thread_request = \<lparr>dq_cursor = Some (encode_thread_cursor bench_lib (thread_row 5)), dq_kinds = [''user''], dq_task = None, dq_limit = 12\<rparr>"

definition thread_bench :: bridge where
  "thread_bench = bench\<lparr>br_entries := [thread_row 5, thread_row 6, thread_row 7]\<rparr>"

theorem thread_cursor_roundtrip_witness:
  "decode_thread_cursor thread_iso (Some (encode_thread_cursor bench_lib (thread_row 5))) = Some (5, ''5'')"
proof -
  have "thread_iso (l_iso bench_lib (wx_created (thread_row 5))) = Some (wx_created (thread_row 5))" by code_simp
  moreover have "THREAD_CURSOR_SEPARATOR \<notin> set (l_iso bench_lib (wx_created (thread_row 5)))" by code_simp
  moreover have "l_iso bench_lib (wx_created (thread_row 5)) \<noteq> []" "l_uid bench_lib (wx_id (thread_row 5)) \<noteq> []" by code_simp+
  ultimately have "decode_thread_cursor thread_iso (Some (encode_thread_cursor bench_lib (thread_row 5)))
      = Some (wx_created (thread_row 5), l_uid bench_lib (wx_id (thread_row 5)))" by (rule thread_cursor_roundtrip)
  also have "\<dots> = Some (5, ''5'')" by code_simp
  finally show ?thesis .
qed

theorem thread_delta_page_witness:
  "\<exists>nxt evs. get_thread_delta bench_lib thread_iso 8 ''coder'' thread_request thread_bench = Inr (nxt, evs)
     \<and> (\<exists>ys. ys = ahead bench_lib 8 (Some (5, ''5'')) thread_bench \<and> ys \<noteq> [] \<and> map te_entry evs = filter (wanted thread_request) ys)"
proof -
  have cur: "decode_thread_cursor thread_iso (dq_cursor thread_request) = Some (5, ''5'')" by code_simp
  have "session_row 8 thread_bench \<noteq> None" "agent_row 8 ''coder'' thread_bench \<noteq> None"
    by (simp_all add: thread_bench_def bench_defs session_row_def agent_row_def row_get_Cons)
  then obtain x where "get_thread_delta bench_lib thread_iso 8 ''coder'' thread_request thread_bench = Inr x"
    unfolding get_thread_delta_def Let_def by (metis (no_types))
  then obtain nxt evs where run: "get_thread_delta bench_lib thread_iso 8 ''coder'' thread_request thread_bench = Inr (nxt, evs)"
    by (cases x) blast
  have es: "br_entries thread_bench = [thread_row 5, thread_row 6, thread_row 7]" by (simp add: thread_bench_def)
  have "map wx_id (filter (thread_entry_after_cursor bench_lib (Some (5, ''5'')))
      (sort_key (\<lambda>e. Position (wx_created e) (l_uid bench_lib (wx_id e)))
        (filter (\<lambda>e. wx_session e = 8) [thread_row 5, thread_row 6, thread_row 7]))) = [6, 7]" by code_simp
  then have some: "ahead bench_lib 8 (Some (5, ''5'')) thread_bench \<noteq> []" unfolding ahead_def thread_entries_def es by force
  have few: "length (thread_entries bench_lib 8 thread_bench) \<le> 3"
    unfolding thread_entries_def es length_sort using length_filter_le [of _ "[thread_row 5, thread_row 6, thread_row 7]"] by simp
  have le: "length (filter p (thread_entries bench_lib 8 thread_bench)) \<le> 3" for p
    using few length_filter_le [of p "thread_entries bench_lib 8 thread_bench"] by linarith
  obtain ys where ys: "prefix ys (ahead bench_lib 8 (Some (5, ''5'')) thread_bench)" "map te_entry evs = filter (wanted thread_request) ys"
    "ys \<noteq> ahead bench_lib 8 (Some (5, ''5'')) thread_bench \<longrightarrow> dq_limit thread_request \<le> length evs
       \<or> 120 \<le> length (already_read bench_lib 8 5 ''5'' thread_bench) + length ys"
    using thread_delta_page [OF run cur] by blast
  have short: "length ys \<le> 3" "length (already_read bench_lib 8 5 ''5'' thread_bench) \<le> 3"
    using prefix_length_le [OF ys(1)] le by (auto simp: ahead_def already_read_def intro: order.trans)
  have "length evs \<le> 3" using arg_cong [OF ys(2), of length] length_filter_le [of "wanted thread_request" ys] short(1)
    by (metis length_map order.trans)
  then have "ys = ahead bench_lib 8 (Some (5, ''5'')) thread_bench" using ys(3) short by (auto simp: thread_request_def)
  with run some ys(2) show ?thesis by auto
qed

end
