(* ===== verification/Sweep.thy ===== *)
theory Sweep
  imports DualWrite
begin

text \<open>
  The two background sweepers over protocol v2: \<open>kernel/v2/policy_sweeper.py\<close> defers on behalf of addressees
  whose reply window has elapsed, \<open>kernel/v2/progression_sweeper.py\<close> nudges the inferred next responder of
  an idle operation. Both read the tables first and write afterwards through the chat service; a write that
  fails is logged and the tick goes on. One tick is given one clock reading.
\<close>

section \<open>Policy sweeper: plans\<close>

text \<open>What Python iterates over in \<open>value or []\<close>; a number raises.\<close>

fun handles_in :: "json \<Rightarrow> chat_error + json list" where
  "handles_in (JArr xs) = Inr xs"
| "handles_in (JStr s) = Inr (map (\<lambda>c. JStr [c]) s)"
| "handles_in (JObj kvs) = Inr (map (JStr \<circ> fst) kvs)"
| "handles_in v = (if truthy v then Inl (Crash ''not iterable'') else Inr [])"

text \<open>The window of \<open>by_round_seq\<close> has elapsed: \<open>by is not None and not max_seq < by\<close>.\<close>

fun elapsed :: "int \<Rightarrow> json \<Rightarrow> chat_error + bool" where
  "elapsed newest JNull = Inr False"
| "elapsed newest (JInt n) = Inr (n \<le> newest)"
| "elapsed newest (JBool b) = Inr ((if b then 1 else 0) \<le> newest)"
| "elapsed newest (JFloat m e) = Inr (if 0 \<le> e then m * 10 ^ nat e \<le> newest else m \<le> newest * 10 ^ nat (- e))"
| "elapsed newest v = Inl (Crash ''unorderable types'')"

text \<open>The pairs of an actor and the event it answered, with a deferral or with any other speech.\<close>

definition answers :: "(string \<Rightarrow> bool) \<Rightarrow> event list \<Rightarrow> (id \<times> id) list" where
  "answers P evs = List.map_filter (\<lambda>ev.
     case (e_replies_to ev, speech_action (e_kind ev)) of
       (Some k, Some action) \<Rightarrow> if P action then Some (e_actor ev, k) else None
     | _ \<Rightarrow> None) evs"

definition participant_ids :: "id \<Rightarrow> v2db \<Rightarrow> (string \<times> id) list" where
  "participant_ids op db =
     (let members = map p_actor (list_participants op db)
      in map (\<lambda>a. (a_handle a, a_id a)) (rev (filter (\<lambda>a. a_id a \<in> set members) (actors db))))"

text \<open>One addressee of a trigger. The keys deferred so far grow as plans are made.\<close>

definition plan_handle ::
  "(string \<times> id) list \<Rightarrow> (id \<times> id) list \<Rightarrow> id \<Rightarrow> id \<Rightarrow> json \<Rightarrow> (id \<times> string \<times> id) list \<times> (id \<times> id) list
     \<Rightarrow> chat_error + (id \<times> string \<times> id) list \<times> (id \<times> id) list" where
  "plan_handle who replies conv trigger v acc =
     (if unhashable v then Inl (Crash ''unhashable handle'')
      else case v of
        JStr h \<Rightarrow>
          (case map_of who h of
             None \<Rightarrow> Inr acc
           | Some a \<Rightarrow> if (a, trigger) \<in> set (snd acc) \<or> (a, trigger) \<in> set replies then Inr acc
                       else Inr (fst acc @ [(conv, h, trigger)], (a, trigger) # snd acc))
      | _ \<Rightarrow> Inr acc)"

definition plan_trigger ::
  "(string \<times> id) list \<Rightarrow> (id \<times> id) list \<Rightarrow> id \<Rightarrow> int \<Rightarrow> event \<Rightarrow> (id \<times> string \<times> id) list \<times> (id \<times> id) list
     \<Rightarrow> chat_error + (id \<times> string \<times> id) list \<times> (id \<times> id) list" where
  "plan_trigger who replies conv newest trigger acc =
     (case event_expected_response trigger of
        None \<Rightarrow> Inr acc
      | Some ex \<Rightarrow>
          (if ex = [] then Inr acc
           else bindE (elapsed newest (obj_get ex ''by_round_seq'')) (\<lambda>due.
                if \<not> due then Inr acc
                else bindE (handles_in (obj_get ex ''from_actor_handles'')) (\<lambda>hs.
                     foldE (plan_handle who replies conv (e_id trigger)) hs acc))))"

text \<open>\<open>scalar_one_or_none\<close> raises when several conversations are mirrored into one operation.\<close>

definition plan_defers_for_op :: "operation \<Rightarrow> chat \<Rightarrow> chat_error + (id \<times> string \<times> id) list" where
  "plan_defers_for_op op db =
     (case filter (\<lambda>c. c_v2 c = Some (o_id op)) (w_convs db) of
        [] \<Rightarrow> Inr []
      | [c] \<Rightarrow>
          (let evs = list_events (o_id op) None [] 1000 (w_v2 db);
               newest = fold max (map e_seq (tl evs)) (e_seq (hd evs))
           in if evs = [] then Inr []
              else bindE (foldE (plan_trigger (participant_ids (o_id op) (w_v2 db)) (answers (\<lambda>a. a \<noteq> ''defer'') evs) (c_id c) newest)
                            evs ([], answers (\<lambda>a. a = ''defer'') evs))
                     (\<lambda>(plans, _). Inr plans))
      | _ \<Rightarrow> Inl (Crash ''MultipleResultsFound''))"

definition sweep_plans :: "chat \<Rightarrow> chat_error + (id \<times> string \<times> id) list" where
  "sweep_plans db =
     bindE (mapE (\<lambda>op. plan_defers_for_op op db) (filter (\<lambda>op. o_state op \<noteq> ''closed'') (operations (w_v2 db))))
       (\<lambda>ps. Inr (concat ps))"

section \<open>Policy sweeper: deferring\<close>

definition defer_request :: "string \<Rightarrow> id \<Rightarrow> speech_request" where
  "defer_request h trigger =
     \<lparr>z_actor = dropWhile (\<lambda>c. c = CHR ''@'') h, z_actor_kind = ''ai'', z_kind = ''defer'',
      z_content = ''(auto-defer: by_round_seq elapsed without reply from '' @ h @ '')'', z_to = None, z_many = [], z_reply = None,
      z_reply_v2 = Some trigger, z_private = [], z_expected = JNull\<rparr>"

text \<open>The schema refuses an empty actor name before the service is called.\<close>

definition emit_defer ::
  "lib \<Rightarrow> wiring \<Rightarrow> (string \<Rightarrow> string) \<Rightarrow> instant \<Rightarrow> id \<times> string \<times> id \<Rightarrow> service \<Rightarrow> bool \<times> service" where
  "emit_defer L W clean now plan s =
     (case plan of (conv, h, trigger) \<Rightarrow>
        if z_actor (defer_request h trigger) = [] then (False, s)
        else case submit_speech L W clean now conv (defer_request h trigger) s of
               (Inl _, s') \<Rightarrow> (False, s') | (Inr _, s') \<Rightarrow> (True, s'))"

fun emit_defers ::
  "lib \<Rightarrow> wiring \<Rightarrow> (string \<Rightarrow> string) \<Rightarrow> instant \<Rightarrow> (id \<times> string \<times> id) list \<Rightarrow> service \<Rightarrow> nat \<times> service" where
  "emit_defers L W clean now [] s = (0, s)"
| "emit_defers L W clean now (p # ps) s =
     (let (sent, s1) = emit_defer L W clean now p s; (n, s2) = emit_defers L W clean now ps s1
      in (n + (if sent then 1 else 0), s2))"

definition policy_sweep_once :: "lib \<Rightarrow> wiring \<Rightarrow> (string \<Rightarrow> string) \<Rightarrow> instant \<Rightarrow> nat run" where
  "policy_sweep_once L W clean now s =
     (case sweep_plans (s_db s) of
        Inl e \<Rightarrow> (Inl e, s)
      | Inr plans \<Rightarrow> (case emit_defers L W clean now plans s of (n, s') \<Rightarrow> (Inr n, s')))"

section \<open>Progression sweeper: decisions\<close>

datatype sweep_decision = Nudge | Defer | Skip

record sweep_action =
  sa_op :: id
  sa_action :: sweep_decision
  sa_reason :: string
  sa_target :: "id option"
  sa_handle :: "string option"
  sa_reply :: "id option"

text \<open>The settings: the idle time, the cap on nudges, and the text \<open>idle N s\<close> with which a reason starts.\<close>

record progression =
  pg_idle :: int
  pg_retries :: int
  pg_label :: string

definition skipped :: "id \<Rightarrow> string \<Rightarrow> sweep_action" where
  "skipped op why = \<lparr>sa_op = op, sa_action = Skip, sa_reason = why, sa_target = None, sa_handle = None, sa_reply = None\<rparr>"

definition next_responder :: "event \<Rightarrow> v2db \<Rightarrow> (string + id) option" where
  "next_responder e db =
     infer_implicit_responder (event_expected_response e) (e_addressed e)
       (case e_replies_to e of None \<Rightarrow> None | Some k \<Rightarrow> map_option e_actor (get_event k db))"

text \<open>The actor behind an inferred responder: both its id and its handle must be known.\<close>

definition responder_actor :: "string + id \<Rightarrow> v2db \<Rightarrow> (id \<times> string) option" where
  "responder_actor r db =
     (case r of
        Inl h \<Rightarrow> (case get_actor_by_handle h db of None \<Rightarrow> None | Some a \<Rightarrow> if h = [] then None else Some (a_id a, h))
      | Inr k \<Rightarrow> (case get_actor k db of None \<Rightarrow> None | Some a \<Rightarrow> if a_handle a = [] then None else Some (k, a_handle a)))"

definition channel_text :: "string + id \<Rightarrow> string" where
  "channel_text r = (case r of Inl _ \<Rightarrow> ''handle'' | Inr _ \<Rightarrow> ''actor_id'')"

definition nudges_for :: "id \<Rightarrow> event list \<Rightarrow> nat" where
  "nudges_for k evs = length (filter (\<lambda>e. e_kind e = EVENT_SYSTEM_NUDGE \<and> e_replies_to e = Some k) evs)"

definition stalled_action :: "progression \<Rightarrow> id \<Rightarrow> event \<Rightarrow> string + id \<Rightarrow> id \<times> string \<Rightarrow> event list \<Rightarrow> sweep_action" where
  "stalled_action P op e r who later =
     (let n = nudges_for (e_id e) later;
          act = (\<lambda>d why. \<lparr>sa_op = op, sa_action = d, sa_reason = why, sa_target = Some (fst who), sa_handle = Some (snd who),
                           sa_reply = Some (e_id e)\<rparr>)
      in if pg_retries P \<le> int n then act Defer (''escalating after '' @ dec_int (int n) @ '' nudges'')
         else act Nudge (pg_label P @ '', channel='' @ channel_text r))"

definition classify_op :: "progression \<Rightarrow> instant \<Rightarrow> operation \<Rightarrow> v2db \<Rightarrow> sweep_action" where
  "classify_op P cutoff op db =
     (case last_speech_event_for_op (o_id op) db of
        None \<Rightarrow> skipped (o_id op) ''no speech events''
      | Some e \<Rightarrow>
          (if cutoff < e_created e then skipped (o_id op) ''not idle yet''
           else case next_responder e db of
             None \<Rightarrow> skipped (o_id op) ''terminal''
           | Some r \<Rightarrow>
               (case responder_actor r db of
                  None \<Rightarrow> skipped (o_id op) ''stale or unknown actor for inferred responder''
                | Some who \<Rightarrow>
                    (let later = list_events (o_id op) (Some (e_seq e)) [] 500 db in
                     if fst who = e_actor e then skipped (o_id op) ''self-loop''
                     else if list_ex (\<lambda>x. e_actor x = fst who) later then skipped (o_id op) ''already replied''
                     else stalled_action P (o_id op) e r who later))))"

definition progression_tick :: "progression \<Rightarrow> instant \<Rightarrow> v2db \<Rightarrow> sweep_action list" where
  "progression_tick P now db = map (\<lambda>op. classify_op P (now - pg_idle P) op db) (recent_active_ops None 200 db)"

section \<open>Progression sweeper: emitting\<close>

definition resolve_v1_conv_id :: "chat \<Rightarrow> id \<Rightarrow> id option" where
  "resolve_v1_conv_id db op = map_option c_id (List.find (\<lambda>c. c_v2 c = Some op) (w_convs db))"

definition decision_text :: "sweep_decision \<Rightarrow> string" where
  "decision_text d = (case d of Nudge \<Rightarrow> ''nudge'' | Defer \<Rightarrow> ''defer'' | Skip \<Rightarrow> ''skip'')"

definition action_payload :: "lib \<Rightarrow> sweep_action \<Rightarrow> obj" where
  "action_payload L a =
     [(''reason'', JStr (sa_reason a)), (''target_handle'', jopt JStr (sa_handle a)),
      (''trigger_event_id'', jopt (jkey L) (sa_reply a)), (''decision'', JStr (decision_text (sa_action a)))]"

definition progression_emit :: "lib \<Rightarrow> instant \<Rightarrow> sweep_action \<Rightarrow> id \<Rightarrow> service \<Rightarrow> service" where
  "progression_emit L now a conv s =
     snd (emit_system_event L now conv (if sa_action a = Nudge then EVENT_SYSTEM_NUDGE else ''chat.speech.defer'')
            (sa_handle a) (sa_reply a) (action_payload L a) s)"

definition progression_tick_once :: "lib \<Rightarrow> progression \<Rightarrow> instant \<Rightarrow> service \<Rightarrow> service" where
  "progression_tick_once L P now s =
     fold (\<lambda>(a, k) s'. case k of None \<Rightarrow> s' | Some conv \<Rightarrow> progression_emit L now a conv s')
       (map (\<lambda>a. (a, resolve_v1_conv_id (s_db s) (sa_op a))) (filter (\<lambda>a. sa_action a \<noteq> Skip) (progression_tick P now (w_v2 (s_db s))))) s"

end
