(* ===== verification/SweepProps.thy ===== *)
theory SweepProps
  imports Sweep Collab
begin

text \<open>
  What the sweepers promise: a deferral is planned exactly for the silent addressees of an elapsed window, and
  a trigger is nudged at most as often as the settings allow, whatever else is said; and what becomes of
  an escalation.
\<close>

section \<open>Deferral plans\<close>

lemma foldE_collect:
  assumes "foldE f xs acc = Inr acc'" "good S acc"
    and "\<And>x S acc acc'. x \<in> set xs \<Longrightarrow> good S acc \<Longrightarrow> f x acc = Inr acc' \<Longrightarrow> good (S \<union> g x) acc'"
  shows "good (S \<union> (\<Union>x \<in> set xs. g x)) acc'"
  using assms
proof (induction xs arbitrary: acc S)
  case (Cons x xs)
  obtain acc1 where f: "f x acc = Inr acc1" and r: "foldE f xs acc1 = Inr acc'"
    using Cons.prems(1) by (auto simp: bindE_Inr_iff)
  have "good (S \<union> g x) acc1" using Cons.prems(2) f by (intro Cons.prems(3)) auto
  then have "good ((S \<union> g x) \<union> (\<Union>y \<in> set xs. g y)) acc'"
    by (rule Cons.IH [OF r]) (simp add: Cons.prems(3))
  then show ?case by (simp add: Un_assoc)
qed simp

text \<open>The pairs a fold has met so far, the plans made for them, the keys taken.\<close>

definition planned :: "(string \<times> id) list \<Rightarrow> (id \<times> id) set \<Rightarrow> (id \<times> id) set \<Rightarrow> id \<Rightarrow> (string \<times> id) set
     \<Rightarrow> (id \<times> string \<times> id) list \<times> (id \<times> id) list \<Rightarrow> bool" where
  "planned who replies base conv S acc \<longleftrightarrow> distinct (fst acc)
     \<and> set (fst acc) = {(conv, h, t) |h t. (h, t) \<in> S \<and> (\<exists>a. map_of who h = Some a \<and> (a, t) \<notin> replies \<and> (a, t) \<notin> base)}
     \<and> set (snd acc) = base \<union> {(a, t) |a t. \<exists>h. (h, t) \<in> S \<and> map_of who h = Some a \<and> (a, t) \<notin> replies}"

definition told_apart :: "(string \<times> id) list \<Rightarrow> bool" where
  "told_apart who \<longleftrightarrow> (\<forall>h h' a. map_of who h = Some a \<longrightarrow> map_of who h' = Some a \<longrightarrow> h = h')"

lemma plan_handle_planned:
  assumes "told_apart who" "planned who (set replies) base conv S acc" "plan_handle who replies conv t v acc = Inr acc'"
  shows "planned who (set replies) base conv (S \<union> {(h, t) |h. v = JStr h}) acc'"
proof (cases "\<exists>h a. v = JStr h \<and> map_of who h = Some a")
  case False
  then have "acc' = acc" using assms(3) by (auto simp: plan_handle_def split: json.splits option.splits if_splits)
  with assms(2) False show ?thesis by (auto simp: planned_def)
next
  case True
  then obtain h a where v: "v = JStr h" "map_of who h = Some a" by blast
  have one: "h' = h" if "map_of who h' = Some a" for h' using assms(1) v(2) that unfolding told_apart_def by blast
  let ?Q = "\<lambda>h t. \<exists>a. map_of who h = Some a \<and> (a, t) \<notin> set replies \<and> (a, t) \<notin> base"
  let ?R = "\<lambda>S a t. \<exists>h. (h, t) \<in> S \<and> map_of who h = Some a \<and> (a, t) \<notin> set replies"
  show ?thesis
  proof (cases "(a, t) \<in> set (snd acc) \<or> (a, t) \<in> set replies")
    case True
    then have same: "acc' = acc" using assms(3) v by (auto simp: plan_handle_def)
    have old: "(a, t) \<in> base \<or> (a, t) \<in> set replies \<or> (h, t) \<in> S"
      using True assms(2) one unfolding planned_def by blast
    have S: "S \<union> {(h, t) |h. v = JStr h} = insert (h, t) S" using v(1) by auto
    have d: "distinct (fst acc)" and A: "set (fst acc) = {(conv, h, t) |h t. (h, t) \<in> S \<and> ?Q h t}"
      and B: "set (snd acc) = base \<union> {(a, t) |a t. ?R S a t}"
      using assms(2) unfolding planned_def by blast+
    have "?Q h' t' \<Longrightarrow> (h', t') \<in> insert (h, t) S \<longleftrightarrow> (h', t') \<in> S" for h' t' using old v(2) by auto
    then have "set (fst acc') = {(conv, h', t') |h' t'. (h', t') \<in> insert (h, t) S \<and> ?Q h' t'}"
      unfolding same A by blast
    moreover have "(a', t') \<in> base \<or> ?R (insert (h, t) S) a' t' \<longleftrightarrow> (a', t') \<in> base \<or> ?R S a' t'" for a' t'
      using old v(2) by auto
    then have "set (snd acc') = base \<union> {(a', t') |a' t'. ?R (insert (h, t) S) a' t'}" unfolding same B by blast
    ultimately show ?thesis using d unfolding planned_def S same by blast
  next
    case False
    then have acc': "acc' = (fst acc @ [(conv, h, t)], (a, t) # snd acc)" using assms(3) v by (simp add: plan_handle_def)
    have fresh: "(a, t) \<notin> base" "(h, t) \<notin> S" using False assms(2) v unfolding planned_def by auto
    have Q: "?Q h t" using v(2) False fresh(1) by blast
    have S: "S \<union> {(h, t) |h. v = JStr h} = insert (h, t) S" using v(1) by auto
    have d: "distinct (fst acc)" and A: "set (fst acc) = {(conv, h, t) |h t. (h, t) \<in> S \<and> ?Q h t}"
      and B: "set (snd acc) = base \<union> {(a, t) |a t. \<exists>h. (h, t) \<in> S \<and> map_of who h = Some a \<and> (a, t) \<notin> set replies}"
      using assms(2) unfolding planned_def by blast+
    have "distinct (fst acc')" unfolding acc' using d A fresh(2) by simp
    moreover have "set (fst acc') = {(conv, h', t') |h' t'. (h', t') \<in> insert (h, t) S \<and> ?Q h' t'}"
      unfolding acc' using A Q by auto
    moreover have "set (snd acc') = base \<union> {(a', t') |a' t'. \<exists>h'. (h', t') \<in> insert (h, t) S \<and> map_of who h' = Some a' \<and> (a', t') \<notin> set replies}"
      unfolding acc' snd_conv list.set(2) B using v(2) False by auto
    ultimately show ?thesis unfolding planned_def S by blast
  qed
qed

text \<open>The window of a trigger has elapsed and the trigger names the handle.\<close>

definition names :: "int \<Rightarrow> event \<Rightarrow> string set" where
  "names newest e = {h. \<exists>ex hs. event_expected_response e = Some ex \<and> ex \<noteq> [] \<and> elapsed newest (obj_get ex ''by_round_seq'') = Inr True
     \<and> handles_in (obj_get ex ''from_actor_handles'') = Inr hs \<and> JStr h \<in> set hs}"

lemma plan_trigger_planned:
  assumes "told_apart who" "planned who (set replies) base conv S acc" "plan_trigger who replies conv newest e acc = Inr acc'"
  shows "planned who (set replies) base conv (S \<union> {(h, e_id e) |h. h \<in> names newest e}) acc'"
proof (cases "\<exists>ex. event_expected_response e = Some ex \<and> ex \<noteq> [] \<and> elapsed newest (obj_get ex ''by_round_seq'') = Inr True")
  case False
  then have "names newest e = {}" by (auto simp: names_def)
  moreover have "acc' = acc"
    using False assms(3) by (auto simp: plan_trigger_def bindE_Inr_iff split: option.splits if_splits)
  ultimately show ?thesis using assms(2) by simp
next
  case True
  then obtain ex where ex: "event_expected_response e = Some ex" "ex \<noteq> []" "elapsed newest (obj_get ex ''by_round_seq'') = Inr True"
    by blast
  then obtain hs where hs: "handles_in (obj_get ex ''from_actor_handles'') = Inr hs"
    and run: "foldE (plan_handle who replies conv (e_id e)) hs acc = Inr acc'"
    using assms(3) by (auto simp: plan_trigger_def bindE_Inr_iff)
  have "planned who (set replies) base conv (S \<union> (\<Union>v \<in> set hs. {(h, e_id e) |h. v = JStr h})) acc'"
    by (rule foldE_collect [where good = "planned who (set replies) base conv", OF run assms(2)])
      (rule plan_handle_planned [OF assms(1)])
  moreover have "(\<Union>v \<in> set hs. {(h, e_id e) |h. v = JStr h}) = {(h, e_id e) |h. h \<in> names newest e}"
    using ex hs by (auto simp: names_def)
  ultimately show ?thesis by simp
qed

lemma participant_ids_apart: "db_ok v \<Longrightarrow> told_apart (participant_ids op v)"
proof -
  assume ok: "db_ok v"
  have row: "\<exists>a \<in> set (actors v). a_handle a = h \<and> a_id a = k" if "map_of (participant_ids op v) h = Some k" for h k
    using map_of_SomeD [OF that] by (auto simp: participant_ids_def Let_def)
  have "distinct (map a_id (actors v))" using ok by (simp add: inv_defs fresh_keys_def)
  then have "a_handle a = a_handle b" if "a \<in> set (actors v)" "b \<in> set (actors v)" "a_id a = a_id b" for a b
    using that by (metis distinct_map inj_onD)
  then show ?thesis using row unfolding told_apart_def by metis
qed

lemma set_answers: "(a, t) \<in> set (answers P evs) \<longleftrightarrow>
    (\<exists>e \<in> set evs. e_actor e = a \<and> e_replies_to e = Some t \<and> (\<exists>x. speech_action (e_kind e) = Some x \<and> P x))"
  by (induction evs) (auto simp: answers_def map_filter_simps split: option.splits)

text \<open>The plans for an operation, over the events the sweeper reads: the first thousand of the log.\<close>

lemma planned_from_page:
  assumes "db_ok (w_v2 db)" "filter (\<lambda>c. c_v2 c = Some (o_id op)) (w_convs db) = [c]"
    and "evs = list_events (o_id op) None [] 1000 (w_v2 db)" "evs \<noteq> []" "plan_defers_for_op op db = Inr plans"
  shows "distinct plans \<and> set plans = {(c_id c, h, e_id e) |h e. e \<in> set evs \<and> h \<in> names (Max (e_seq ` set evs)) e
     \<and> (\<exists>a. map_of (participant_ids (o_id op) (w_v2 db)) h = Some a
          \<and> \<not> (\<exists>x \<in> set evs. e_actor x = a \<and> e_replies_to x = Some (e_id e) \<and> speech_action (e_kind x) \<noteq> None))}"
proof -
  let ?who = "participant_ids (o_id op) (w_v2 db)"
  let ?replies = "answers (\<lambda>a. a \<noteq> ''defer'') evs" and ?defers = "answers (\<lambda>a. a = ''defer'') evs"
  let ?top = "fold max (map e_seq (tl evs)) (e_seq (hd evs))"
  have evs: "e_seq ` set evs = set (e_seq (hd evs) # map e_seq (tl evs))" using assms(4) by (cases evs) auto
  have newest: "?top = Max (e_seq ` set evs)" unfolding evs by (rule Max.set_eq_fold [symmetric])
  obtain acc' where run: "foldE (plan_trigger ?who ?replies (c_id c) ?top) evs ([], ?defers) = Inr acc'" and plans: "plans = fst acc'"
    using assms(5) assms(4) unfolding plan_defers_for_op_def assms(2) assms(3) [symmetric]
    by (auto simp: Let_def bindE_Inr_iff)
  have "planned ?who (set ?replies) (set ?defers) (c_id c) {} ([], ?defers)" by (simp add: planned_def)
  from foldE_collect [where good = "planned ?who (set ?replies) (set ?defers) (c_id c)", OF run this
      plan_trigger_planned [OF participant_ids_apart [OF assms(1)]]]
  have "planned ?who (set ?replies) (set ?defers) (c_id c) (\<Union>e \<in> set evs. {(h, e_id e) |h. h \<in> names ?top e}) acc'" by simp
  then have d: "distinct plans" and s: "set plans = {(c_id c, h, t) |h t. (h, t) \<in> (\<Union>e \<in> set evs. {(h, e_id e) |h. h \<in> names ?top e})
      \<and> (\<exists>a. map_of ?who h = Some a \<and> (a, t) \<notin> set ?replies \<and> (a, t) \<notin> set ?defers)}"
    unfolding planned_def plans by simp_all
  have none: "((a, t) \<notin> set ?replies \<and> (a, t) \<notin> set ?defers) \<longleftrightarrow>
      \<not> (\<exists>x \<in> set evs. e_actor x = a \<and> e_replies_to x = Some t \<and> speech_action (e_kind x) \<noteq> None)" for a t
    unfolding set_answers by blast
  show ?thesis unfolding s none newest using d by blast
qed

text \<open>C14: For an operation whose log has at most a thousand events, the plans are, without repetition, exactly the
  addressees that have to be deferred: the window of a trigger of the log has elapsed by the newest
  event, the trigger names the handle, the handle is a participant's, and that participant has answered
  the trigger with no speech at all, deferral or other. Of a longer log the sweeper reads the first thousand
  events alone.\<close>
theorem defers_planned_exactly:
  assumes "db_ok (w_v2 db)" "filter (\<lambda>c. c_v2 c = Some (o_id op)) (w_convs db) = [c]"
    and "log = op_events (o_id op) (w_v2 db)" "log \<noteq> []" "length log \<le> 1000" "plan_defers_for_op op db = Inr plans"
  shows "distinct plans \<and> set plans = {(c_id c, h, e_id e) |h e. e \<in> set log \<and> h \<in> names (Max (e_seq ` set log)) e
     \<and> (\<exists>a. map_of (participant_ids (o_id op) (w_v2 db)) h = Some a
          \<and> \<not> (\<exists>x \<in> set log. e_actor x = a \<and> e_replies_to x = Some (e_id e) \<and> speech_action (e_kind x) \<noteq> None))}"
proof -
  have "log = list_events (o_id op) None [] 1000 (w_v2 db)"
    using assms(3,5) by (simp add: scanned_events [OF assms(1)])
  from planned_from_page [OF assms(1,2) this assms(4,6)] show ?thesis .
qed

section \<open>What the system says to an actor\<close>

lemma join_missing_actors: "join_missing now op role ids known db = Inr (known', db') \<Longrightarrow> actors db' = actors db"
  by (induction ids arbitrary: known db) (auto simp: bindE_Inr_iff add_participant_def split: if_splits)

lemma system_message_parts:
  assumes "mirror_message now (Some op) ''system'' kd body (Some h) [] re None None db = Inr (r, db')" "db_ok db"
    and "at_handle h = h" "h \<noteq> []"
  shows "\<exists>act db1 a db2 ev. ensure_actor_by_handle now ''@system'' None ''human'' [] db = Inr (act, db1)
     \<and> ensure_actor_by_handle now h None ''ai'' [] db1 = Inr (a, db2) \<and> db_ok db1 \<and> db_ok db2 \<and> actors db' = actors db2
     \<and> events db' = events db @ [ev] \<and> e_actor ev = a_id act \<and> e_addressed ev = [a_id a] \<and> e_created ev = now \<and> r = Some (e_id ev)"
proof -
  obtain who ids ps db5 ev where p: "message_people now op ''system'' (Some h) [] None db = Inr ((who, ids, ps), db5)"
    and ins: "insert_event_serial now (message_event op kd body re None (who, ids, ps)) db5 = Inr (ev, db')"
    and r: "r = Some (e_id ev)"
    using assms(1) unfolding mirror_message_split by (auto simp: bindE_Inr_iff)
  have to: "addressed_handles (Some h) [] = [h]" using assms(3,4) by (simp add: addressed_handles_def normalize_handle_def)
  have me: "normalize_handle (Some ''system'') = Some ''@system''" by (simp add: normalize_handle_def at_handle_def)
  obtain act db1 db2 known db3 db4 where
      1: "ensure_actor_by_handle now ''@system'' None ''human'' [] db = Inr (act, db1)"
    and 2: "ensure_all now [h] db1 = Inr (ids, db2)"
    and 3: "join_missing now op ''addressed'' ids (map p_actor (list_participants op db2)) db2 = Inr (known, db3)"
    and 4: "(if a_id act \<in> set known then Inr db3 else add_participant now op (a_id act) ''speaker'' db3) = Inr db4"
    and 5: "private_ids now None db4 = Inr (ps, db5)" and who: "who = a_id act"
    using p unfolding message_people_def to me by (auto simp: bindE_Inr_iff)
  obtain a where a: "ensure_actor_by_handle now h None ''ai'' [] db1 = Inr (a, db2)" "ids = [a_id a]"
    using 2 by (auto simp: bindE_Inr_iff ensure_default_def)
  have ok1: "db_ok db1" using assms(2) 1 by (rule ensure_actor_ok)
  have ok2: "db_ok db2" using ok1 a(1) by (rule ensure_actor_ok)
  have "actors db4 = actors db3" using 4 by (auto simp: add_participant_def split: if_splits)
  moreover have "db5 = db4" using 5 by (simp add: private_ids_def)
  moreover have "actors db3 = actors db2" using 3 by (rule join_missing_actors)
  ultimately have rows: "actors db5 = actors db2" by simp
  have eff: "db_ok db5" "people_only db db5" using message_people_effect [OF assms(2) p] by auto
  have same: "events db5 = events db" using eff(2) by (simp add: people_only_def)
  from ins eff(1) have "ev = mk_event now (message_event op kd body re None (who, ids, ps)) (e_seq ev) db5
      \<and> db' = db5\<lparr>events := events db5 @ [ev], next_id := Suc (next_id db5)\<rparr>"
    by (auto simp: insert_event_serial_eq db_ok_def Let_def mk_event_def split: if_splits)
  then have ev: "ev = mk_event now (message_event op kd body re None (who, ids, ps)) (e_seq ev) db5"
    and db': "db' = db5\<lparr>events := events db5 @ [ev], next_id := Suc (next_id db5)\<rparr>" by blast+
  have "e_actor ev = who" "e_addressed ev = ids" "e_created ev = now"
    by (subst ev, simp add: mk_event_def message_event_def)+
  then show ?thesis using 1 a ok1 ok2 r who rows same db' by auto
qed

lemma system_message_event:
  assumes "mirror_message now (Some op) ''system'' kd body (Some h) [] re None None db = Inr (r, db')" "db_ok db"
    and "at_handle h = h" "h \<noteq> []" "h \<noteq> ''@system''" "get_actor_by_handle h db = Some t"
  shows "\<exists>ev t'. events db' = events db @ [ev] \<and> e_addressed ev = [a_id t] \<and> e_actor ev \<noteq> a_id t \<and> e_created ev = now
     \<and> r = Some (e_id ev) \<and> get_actor (a_id t) db' = Some t' \<and> a_handle t' = h"
proof -
  obtain act db1 a db2 ev where 1: "ensure_actor_by_handle now ''@system'' None ''human'' [] db = Inr (act, db1)"
    and 2: "ensure_actor_by_handle now h None ''ai'' [] db1 = Inr (a, db2)" and ok: "db_ok db1" "db_ok db2"
    and rows: "actors db' = actors db2" and ev: "events db' = events db @ [ev]" "e_actor ev = a_id act" "e_addressed ev = [a_id a]"
      "e_created ev = now" "r = Some (e_id ev)"
    using system_message_parts [OF assms(1-4)] by blast
  have h1: "get_actor_by_handle h db1 = Some t" using ensure_actor_lookup(2) [OF assms(2) 1 assms(5)] assms(6) by simp
  have ida: "a_id a = a_id t" using ensure_actor_lookup(6) [OF ok(1) 2] h1 by simp
  have get2: "get_actor (a_id a) db2 = Some a" and ha: "a_handle a = h"
    using ensure_actor_get [OF ok(1) 2] ensure_actor_lookup(3) [OF ok(1) 2] by blast+
  have "get_actor_by_handle ''@system'' db1 = Some act" using assms(2) 1 by (rule ensure_actor_lookup(1))
  then have s: "act \<in> set (actors db1)" "a_handle act = ''@system''" using get_actor_by_handle_SomeD by blast+
  have t: "t \<in> set (actors db1)" "a_handle t = h" using get_actor_by_handle_SomeD [OF h1] by blast+
  have "distinct (map a_id (actors db1))" using ok(1) by (simp add: inv_defs fresh_keys_def)
  then have "a_id act \<noteq> a_id t" using s t assms(5) by (metis distinct_map inj_onD)
  moreover have "get_actor (a_id t) db' = Some a" using get2 ida rows by simp
  ultimately show ?thesis using ev ida ha by auto
qed

text \<open>What a call of the system does to the log of the protocol tables: nothing, or one more event.\<close>

lemma announce_db: "announce L now c m s = (Inr (), s\<lparr>s_broker := s_broker (snd (announce L now c m s))\<rparr>)"
  by (simp add: announce_def bindS_def publish_message_def fan_out_def Let_def)

lemma emit_system_mirror:
  assumes "emit_system_event L now k kd to re p s = (Inr (mid, ev), s')" "get_conv k (s_db s) = Some c" "c_v2 c = Some op"
  shows "mirror_message now (Some op) ''system'' kd (Dumped (JObj p)) to [] re None None (w_v2 (s_db s)) = Inr (ev, w_v2 (s_db s'))
     \<and> w_convs (s_db s') = w_convs (s_db s)"
proof -
  obtain db' m where run: "tx (\<lambda>db. bindE (require_conv k db) (\<lambda>c.
         bindE (add_message now c ''system'' kd to None None (Dumped (JObj p)) db) (\<lambda>(m, db1).
         bindE (mirror_v1_message_to_v2 now m c None None re db1) (\<lambda>(m', db2). Inr ((c, m'), db2))))) s = (Inr (c, m), s\<lparr>s_db := db'\<rparr>)"
    and s': "s_db s' = db'" "ev = m_v2 m"
    using assms(1,2) unfolding emit_system_event_def bindS_Inr_iff
    by (fastforce simp: tx_Inr_iff bindE_Inr_iff require_conv_def doneS_def announce_def bindS_def publish_message_def fan_out_def Let_def)
  show ?thesis
    using run assms(2,3) unfolding s'
    by (auto simp: tx_Inr_iff bindE_Inr_iff add_message_def Let_def mirror_v1_message_to_v2_def v2_parent_def map_err_Inr_iff
        split: if_splits dest!: arg_cong [where f = s_db])
qed

section \<open>An escalation is a new trigger\<close>

lemma last_speech_appended:
  assumes "events db' = events db @ [e]" "like_speech (e_kind e)" "e_op e = op" "\<forall>x \<in> set (events db). e_op x = op \<longrightarrow> e_seq x < e_seq e"
  shows "last_speech_event_for_op op db' = Some e"
proof -
  let ?p = "\<lambda>e. e_op e = op \<and> like_speech (e_kind e)"
  have "e_seq x \<le> e_seq (hd (select_desc e_seq ?p (events db')))" if "x \<in> set (events db')" "?p x" for x
    by (rule select_desc_hd_max) (use that in auto)
  moreover have ne: "select_desc e_seq ?p (events db') \<noteq> []"
    by (rule select_desc_hd_max [of e]) (use assms in auto)
  have mem: "hd (select_desc e_seq ?p (events db')) \<in> {r \<in> set (events db'). ?p r}"
    using hd_in_set [OF ne] by simp
  moreover have "e_seq e \<le> e_seq (hd (select_desc e_seq ?p (events db')))"
    by (rule select_desc_hd_max) (use assms in auto)
  ultimately have "hd (select_desc e_seq ?p (events db')) = e"
    using assms(1,4) by fastforce
  with ne show ?thesis unfolding last_speech_event_for_op_def by (cases "select_desc e_seq ?p (events db')") auto
qed

lemma classified_target:
  assumes "db_ok v" "classify_op P cutoff op v = a" "sa_action a \<noteq> Skip" "sa_handle a = Some h"
  shows "\<exists>t. get_actor_by_handle h v = Some t \<and> sa_target a = Some (a_id t)"
proof -
  obtain e r who later where w: "responder_actor r v = Some who" "a = stalled_action P (o_id op) e r who later"
    using assms(2,3) by (auto simp: classify_op_def skipped_def Let_def split: option.splits if_splits)
  have a: "sa_target a = Some (fst who)" "h = snd who"
    using assms(4) w(2) by (auto simp: stalled_action_def Let_def split: if_splits)
  show ?thesis
  proof (cases r)
    case (Inl g)
    then show ?thesis using w(1) a by (auto simp: responder_actor_def split: option.splits if_splits)
  next
    case (Inr k)
    then obtain t where t: "get_actor k v = Some t" "who = (k, a_handle t)"
      using w(1) by (auto simp: responder_actor_def split: option.splits if_splits)
    have row: "t \<in> set (actors v)" "a_id t = k" using row_get_SomeD [OF t(1)] by auto
    have "distinct (map a_handle (actors v))" using assms(1) by (simp add: inv_defs)
    then have "get_actor_by_handle (a_handle t) v = Some t"
      using row(1) unfolding get_actor_by_handle_def by (rule row_get_distinct)
    then show ?thesis using a t(2) row(2) by auto
  qed
qed

text \<open>C16: the cap on nudges does not end the nudging: when the sweeper escalates, its deferral is itself the
  newest speech of the operation, addressed to the same actor, so once it is as old as the idle time and the
  actor is still silent the next decision is to nudge that actor again, with the count starting over.\<close>
theorem escalation_restarts_nudging:
  assumes "db_ok (w_v2 (s_db s))" "get_conv k (s_db s) = Some c" "c_v2 c = Some (o_id op)"
    and "a = classify_op P idle_since op (w_v2 (s_db s))" "sa_action a = Defer"
    and "sa_handle a = Some h" "at_handle h = h" "h \<noteq> ''@system''" "1 \<le> pg_retries P"
    and "emit_system_event L now k ''chat.speech.defer'' (sa_handle a) (sa_reply a) (action_payload L a) s = (Inr (mid, Some ev), s')"
    and "now \<le> cutoff"
  shows "let b = classify_op P cutoff op (w_v2 (s_db s')) in
           sa_action b = Nudge \<and> sa_target b = sa_target a \<and> sa_reply b = Some ev"
proof -
  let ?v = "w_v2 (s_db s)" and ?v' = "w_v2 (s_db s')"
  have hne: "h \<noteq> []" using assms(7) by (auto simp: at_handle_def)
  obtain t where t: "get_actor_by_handle h ?v = Some t" "sa_target a = Some (a_id t)"
    using classified_target [OF assms(1) assms(4) [symmetric]] assms(5,6) by auto
  have mir: "mirror_message now (Some (o_id op)) ''system'' ''chat.speech.defer'' (Dumped (JObj (action_payload L a))) (Some h) []
      (sa_reply a) None None ?v = Inr (Some ev, ?v')"
    using conjunct1 [OF emit_system_mirror [OF assms(10,2,3)]] assms(6) by simp
  obtain e t' where e: "events ?v' = events ?v @ [e]" "e_addressed e = [a_id t]" "e_actor e \<noteq> a_id t" "e_created e = now"
      "ev = e_id e" "get_actor (a_id t) ?v' = Some t'" "a_handle t' = h"
    using system_message_event [OF mir assms(1,7) hne assms(8) t(1)] by auto
  have eff: "db_ok ?v'" "e_kind e = ''chat.speech.defer''" "e_op e = o_id op" "e_seq e = int (length (op_events (o_id op) ?v)) + 1"
      "e_payload e = (''text'', JObj (action_payload L a)) # lifecycle_part ''chat.speech.defer'' (Dumped (JObj (action_payload L a))) @ meta_part None"
    using mirror_message_effect [OF assms(1) mir] e(1) by auto
  have seq: "e_seq x < e_seq e" if "x \<in> set (events ?v)" "e_op x = o_id op" for x
    using log_seq_bounds [of ?v x] assms(1) that eff(4) by (auto simp: db_ok_def op_events_def)
  have sp: "like_speech (e_kind e)" unfolding eff(2) by code_simp
  have last: "last_speech_event_for_op (o_id op) ?v' = Some e"
    by (rule last_speech_appended [OF e(1) sp eff(3)]) (use seq in blast)
  have lp: "lifecycle_part ''chat.speech.defer'' b = []" for b
    by (simp add: lifecycle_part_def, code_simp)
  have ex: "event_expected_response e = None"
    by (simp add: event_expected_response_def eff(5) lp meta_part_def py_or_def)
  have nr: "next_responder e ?v' = Some (Inr (a_id t))"
    by (simp add: next_responder_def infer_implicit_responder_def ex e(2))
  have who: "responder_actor (Inr (a_id t)) ?v' = Some (a_id t, h)"
    using e(6,7) hne by (simp add: responder_actor_def)
  have later: "list_events (o_id op) (Some (e_seq e)) [] 500 ?v' = []"
  proof -
    have "\<not> (e_op x = o_id op \<and> e_seq e < e_seq x)" if "x \<in> set (events ?v')" for x using that seq [of x] e(1) by auto
    then have "filter (\<lambda>x. e_op x = o_id op \<and> e_seq e < e_seq x) (events ?v') = []" by (simp add: filter_empty_conv)
    then show ?thesis by (simp add: list_events_def select_asc_def)
  qed
  show ?thesis
    using assms(9,11) e(3,4,5) t(2)
    by (simp add: classify_op_def last nr who later stalled_action_def nudges_for_def Let_def)
qed

section \<open>How often a trigger is nudged\<close>

lemma nudges_for_simps [simp]:
  "nudges_for k [] = 0"
  "nudges_for k (xs @ ys) = nudges_for k xs + nudges_for k ys"
  "nudges_for k [e] = (if e_kind e = EVENT_SYSTEM_NUDGE \<and> e_replies_to e = Some k then 1 else 0)"
  by (simp_all add: nudges_for_def)

text \<open>A nudge comes after its trigger, in the same operation.\<close>

definition nudges_placed :: "v2db \<Rightarrow> bool" where
  "nudges_placed v \<longleftrightarrow> (\<forall>x \<in> set (events v). \<forall>k. e_kind x = EVENT_SYSTEM_NUDGE \<longrightarrow> e_replies_to x = Some k \<longrightarrow>
     (\<exists>e \<in> set (events v). e_id e = k \<and> e_op e = e_op x \<and> e_seq e < e_seq x))"

definition triggered :: "v2db \<Rightarrow> sweep_action \<Rightarrow> bool" where
  "triggered v a \<longleftrightarrow> (\<exists>e \<in> set (events v). sa_reply a = Some (e_id e) \<and> e_op e = sa_op a)"

lemma emit_cases:
  assumes "chat_ok (s_db s)" "get_conv conv (s_db s) = Some c" "c_v2 c = Some (sa_op a)"
  shows "let s' = progression_emit L now a conv s in chat_ok (s_db s') \<and> w_convs (s_db s') = w_convs (s_db s)
     \<and> (w_v2 (s_db s') = w_v2 (s_db s) \<or> (\<exists>ev. events (w_v2 (s_db s')) = events (w_v2 (s_db s)) @ [ev]
          \<and> e_kind ev = (if sa_action a = Nudge then EVENT_SYSTEM_NUDGE else ''chat.speech.defer'') \<and> e_replies_to ev = sa_reply a
          \<and> e_op ev = sa_op a \<and> e_seq ev = int (length (op_events (sa_op a) (w_v2 (s_db s)))) + 1))"
proof -
  let ?kd = "if sa_action a = Nudge then EVENT_SYSTEM_NUDGE else ''chat.speech.defer''"
  let ?m = "emit_system_event L now conv ?kd (sa_handle a) (sa_reply a) (action_payload L a)"
  define s' where "s' = progression_emit L now a conv s"
  have s': "snd (?m s) = s'" by (simp add: s'_def progression_emit_def)
  have "advances W (s_db s) (s_db s)" for W using assms(1) by (simp add: advances_def)
  then have ok: "chat_ok (s_db s')" using triple_keep [OF emit_system_ok] s' advances_ok by metis
  show ?thesis
  proof (cases "fst (?m s)")
    case (Inl e)
    then have "?m s = (Inl e, s')" using s' by (metis prod.collapse)
    then have "s' = s"
      by (auto simp: emit_system_event_def bindS_def tx_def announce_def publish_message_def fan_out_def doneS_def Let_def
          split: sum.splits prod.splits)
    then show ?thesis using ok unfolding Let_def s'_def [symmetric] by simp
  next
    case (Inr r)
    then have run: "?m s = (Inr (fst r, snd r), s')" using s' by (metis prod.collapse)
    from emit_system_mirror [OF run assms(2,3)]
    have mir: "mirror_message now (Some (sa_op a)) ''system'' ?kd (Dumped (JObj (action_payload L a))) (sa_handle a) []
        (sa_reply a) None None (w_v2 (s_db s)) = Inr (snd r, w_v2 (s_db s'))"
      and convs: "w_convs (s_db s') = w_convs (s_db s)" by blast+
    show ?thesis unfolding Let_def s'_def [symmetric]
      using ok convs mirror_message_effect [OF chat_okD(1) [OF assms(1)] mir] by blast
  qed
qed

text \<open>The writing phase of a tick, for any list of decisions on triggers of their own.\<close>

abbreviation emits :: "lib \<Rightarrow> instant \<Rightarrow> (sweep_action \<times> id option) list \<Rightarrow> service \<Rightarrow> service" where
  "emits L now ps s \<equiv> fold (\<lambda>(a, k) s'. case k of None \<Rightarrow> s' | Some conv \<Rightarrow> progression_emit L now a conv s') ps s"

definition sound_plan :: "chat \<Rightarrow> sweep_action \<times> id option \<Rightarrow> bool" where
  "sound_plan db p \<longleftrightarrow> triggered (w_v2 db) (fst p)
     \<and> (\<forall>conv. snd p = Some conv \<longrightarrow> (\<exists>c. get_conv conv db = Some c \<and> c_v2 c = Some (sa_op (fst p))))"

definition nudge_targets :: "(sweep_action \<times> id option) list \<Rightarrow> id option list" where
  "nudge_targets ps = map (\<lambda>p. sa_reply (fst p)) (filter (\<lambda>p. sa_action (fst p) = Nudge) ps)"

lemma placed_append:
  assumes "nudges_placed v" "events v' = events v @ [ev]"
    and "\<And>k. e_replies_to ev = Some k \<Longrightarrow> \<exists>e \<in> set (events v). e_id e = k \<and> e_op e = e_op ev \<and> e_seq e < e_seq ev"
  shows "nudges_placed v'"
  unfolding nudges_placed_def
proof (intro ballI allI impI)
  fix x k assume x: "x \<in> set (events v')" "e_kind x = EVENT_SYSTEM_NUDGE" "e_replies_to x = Some k"
  have "\<exists>e \<in> set (events v). e_id e = k \<and> e_op e = e_op x \<and> e_seq e < e_seq x"
  proof (cases "x = ev")
    case False
    then have "x \<in> set (events v)" using x(1) assms(2) by simp
    with assms(1) x(2,3) show ?thesis unfolding nudges_placed_def by blast
  qed (use assms(3) x(3) in blast)
  then show "\<exists>e \<in> set (events v'). e_id e = k \<and> e_op e = e_op x \<and> e_seq e < e_seq x" unfolding assms(2) by auto
qed

lemma placed_more:
  assumes "nudges_placed v" "events v' = events v @ new" "\<forall>e \<in> set new. e_kind e \<noteq> EVENT_SYSTEM_NUDGE"
  shows "nudges_placed v'"
  unfolding nudges_placed_def
proof (intro ballI allI impI)
  fix x k assume "x \<in> set (events v')" "e_kind x = EVENT_SYSTEM_NUDGE" "e_replies_to x = Some k"
  then have "\<exists>e \<in> set (events v). e_id e = k \<and> e_op e = e_op x \<and> e_seq e < e_seq x"
    using assms unfolding nudges_placed_def by auto
  then show "\<exists>e \<in> set (events v'). e_id e = k \<and> e_op e = e_op x \<and> e_seq e < e_seq x" unfolding assms(2) by auto
qed

lemma emit_step:
  assumes "chat_ok (s_db s)" "nudges_placed (w_v2 (s_db s))" "sound_plan (s_db s) (a, Some conv)"
    and s': "s' = progression_emit L now a conv s"
  shows "chat_ok (s_db s') \<and> nudges_placed (w_v2 (s_db s'))
     \<and> w_convs (s_db s') = w_convs (s_db s) \<and> prefix (events (w_v2 (s_db s))) (events (w_v2 (s_db s')))
     \<and> (\<forall>k. nudges_for k (events (w_v2 (s_db s'))) \<le> nudges_for k (events (w_v2 (s_db s)))
          + (if sa_action a = Nudge \<and> sa_reply a = Some k then 1 else 0))"
proof -
  let ?v = "w_v2 (s_db s)"
  obtain c where c: "get_conv conv (s_db s) = Some c" "c_v2 c = Some (sa_op a)" and tr: "triggered ?v a"
    using assms(3) by (auto simp: sound_plan_def)
  have em: "chat_ok (s_db s')" "w_convs (s_db s') = w_convs (s_db s)" and alt: "w_v2 (s_db s') = ?v \<or> (\<exists>ev. events (w_v2 (s_db s')) = events ?v @ [ev]
          \<and> e_kind ev = (if sa_action a = Nudge then EVENT_SYSTEM_NUDGE else ''chat.speech.defer'') \<and> e_replies_to ev = sa_reply a
          \<and> e_op ev = sa_op a \<and> e_seq ev = int (length (op_events (sa_op a) ?v)) + 1)"
    using emit_cases [OF assms(1) c, of L now] unfolding Let_def s' [symmetric] by blast+
  from alt show ?thesis
  proof (elim disjE exE conjE)
    assume "w_v2 (s_db s') = ?v"
    then show ?thesis using em assms(2) by simp
  next
    fix ev assume ev: "events (w_v2 (s_db s')) = events ?v @ [ev]"
      "e_kind ev = (if sa_action a = Nudge then EVENT_SYSTEM_NUDGE else ''chat.speech.defer'')" "e_replies_to ev = sa_reply a"
      "e_op ev = sa_op a" "e_seq ev = int (length (op_events (sa_op a) ?v)) + 1"
    obtain e where e: "e \<in> set (events ?v)" "sa_reply a = Some (e_id e)" "e_op e = sa_op a" using tr by (auto simp: triggered_def)
    have "e_seq e < e_seq ev" using log_seq_bounds [OF db_okD(4) [OF chat_okD(1) [OF assms(1)]] e(1)] e(3) ev(5) by simp
    then have "nudges_placed (w_v2 (s_db s'))"
      using placed_append [OF assms(2) ev(1)] e ev(3,4) by (metis option.inject)
    moreover have "nudges_for k [ev] \<le> (if sa_action a = Nudge \<and> sa_reply a = Some k then 1 else 0)" for k
      using ev(2,3) by simp
    ultimately show ?thesis using em ev(1) by auto
  qed
qed

lemma emits_bound:
  assumes "chat_ok (s_db s)" "nudges_placed (w_v2 (s_db s))" "\<forall>p \<in> set ps. sound_plan (s_db s) p"
  shows "let s' = emits L now ps s in chat_ok (s_db s') \<and> nudges_placed (w_v2 (s_db s'))
     \<and> prefix (events (w_v2 (s_db s))) (events (w_v2 (s_db s')))
     \<and> (\<forall>k. nudges_for k (events (w_v2 (s_db s'))) \<le> nudges_for k (events (w_v2 (s_db s))) + count_list (nudge_targets ps) (Some k))"
  using assms
proof (induction ps arbitrary: s)
  case (Cons p ps)
  obtain a kc where p: "p = (a, kc)" by fastforce
  define s1 where "s1 = (case kc of None \<Rightarrow> s | Some conv \<Rightarrow> progression_emit L now a conv s)"
  have st: "chat_ok (s_db s1) \<and> nudges_placed (w_v2 (s_db s1)) \<and> w_convs (s_db s1) = w_convs (s_db s)
     \<and> prefix (events (w_v2 (s_db s))) (events (w_v2 (s_db s1)))
     \<and> (\<forall>k. nudges_for k (events (w_v2 (s_db s1))) \<le> nudges_for k (events (w_v2 (s_db s)))
          + (if sa_action a = Nudge \<and> sa_reply a = Some k then 1 else 0))"
  proof (cases kc)
    case None
    then show ?thesis using Cons.prems(1,2) by (simp add: s1_def)
  next
    case (Some conv)
    then show ?thesis
      using emit_step [of s a conv s1 L now] Cons.prems p by (simp add: s1_def)
  qed
  have later: "sound_plan (s_db s1) q" if "sound_plan (s_db s) q" for q
    using that st by (auto simp: sound_plan_def triggered_def dest!: set_mono_prefix)
  have IH: "let s' = emits L now ps s1 in chat_ok (s_db s') \<and> nudges_placed (w_v2 (s_db s'))
     \<and> prefix (events (w_v2 (s_db s1))) (events (w_v2 (s_db s')))
     \<and> (\<forall>k. nudges_for k (events (w_v2 (s_db s'))) \<le> nudges_for k (events (w_v2 (s_db s1))) + count_list (nudge_targets ps) (Some k))"
    by (rule Cons.IH) (use st later Cons.prems(3) in auto)
  have fold: "emits L now (p # ps) s = emits L now ps s1" by (simp add: p s1_def)
  have "count_list (nudge_targets (p # ps)) (Some k) = (if sa_action a = Nudge \<and> sa_reply a = Some k then 1 else 0) + count_list (nudge_targets ps) (Some k)" for k
    by (simp add: nudge_targets_def p)
  moreover have "prefix (events (w_v2 (s_db s))) (events (w_v2 (s_db (emits L now ps s1))))"
    using st IH prefix_order.trans unfolding Let_def by blast
  moreover have "nudges_for k (events (w_v2 (s_db (emits L now ps s1)))) \<le> nudges_for k (events (w_v2 (s_db s)))
      + ((if sa_action a = Nudge \<and> sa_reply a = Some k then 1 else 0) + count_list (nudge_targets ps) (Some k))" for k
  proof -
    have "nudges_for k (events (w_v2 (s_db (emits L now ps s1)))) \<le> nudges_for k (events (w_v2 (s_db s1))) + count_list (nudge_targets ps) (Some k)"
      using IH unfolding Let_def by blast
    moreover have "nudges_for k (events (w_v2 (s_db s1))) \<le> nudges_for k (events (w_v2 (s_db s)))
          + (if sa_action a = Nudge \<and> sa_reply a = Some k then 1 else 0)" using st by blast
    ultimately show ?thesis by linarith
  qed
  ultimately show ?case using IH unfolding Let_def fold by presburger
qed (simp add: nudge_targets_def)

lemma classified_trigger:
  assumes "classify_op P cutoff op v = a" "sa_action a \<noteq> Skip"
  shows "\<exists>e \<in> set (events v). sa_reply a = Some (e_id e) \<and> e_op e = o_id op \<and> sa_op a = o_id op
     \<and> (sa_action a = Nudge \<longrightarrow> int (nudges_for (e_id e) (list_events (o_id op) (Some (e_seq e)) [] 500 v)) < pg_retries P)"
proof -
  obtain e r who where e: "last_speech_event_for_op (o_id op) v = Some e"
    and a: "a = stalled_action P (o_id op) e r who (list_events (o_id op) (Some (e_seq e)) [] 500 v)"
    using assms by (auto simp: classify_op_def skipped_def Let_def split: option.splits if_splits)
  let ?xs = "select_desc e_seq (\<lambda>e. e_op e = o_id op \<and> like_speech (e_kind e)) (events v)"
  have "e \<in> set ?xs" using e unfolding last_speech_event_for_op_def by (cases ?xs) auto
  then have "e \<in> set (events v)" "e_op e = o_id op" by simp_all
  moreover have "sa_reply a = Some (e_id e) \<and> sa_op a = o_id op
     \<and> (sa_action a = Nudge \<longrightarrow> int (nudges_for (e_id e) (list_events (o_id op) (Some (e_seq e)) [] 500 v)) < pg_retries P)"
    unfolding a by (simp add: stalled_action_def Let_def)
  ultimately show ?thesis by blast
qed

lemma all_nudges_counted:
  assumes "db_ok v" "nudges_placed v" "length (op_events op v) \<le> 500" "e \<in> set (events v)" "e_op e = op"
  shows "nudges_for (e_id e) (list_events op (Some (e_seq e)) [] 500 v) = nudges_for (e_id e) (events v)"
proof -
  let ?later = "filter (\<lambda>x. e_seq e < e_seq x) (op_events op v)"
  have "length ?later \<le> 500" using assms(3) length_filter_le le_trans by blast
  then have "list_events op (Some (e_seq e)) [] 500 v = ?later"
    by (simp add: list_events_eq [OF assms(1)] clamp_limit_def)
  moreover have "(x \<in> set (events v) \<and> e_kind x = EVENT_SYSTEM_NUDGE \<and> e_replies_to x = Some (e_id e))
      \<Longrightarrow> e_op x = op \<and> e_seq e < e_seq x" for x
  proof -
    assume x: "x \<in> set (events v) \<and> e_kind x = EVENT_SYSTEM_NUDGE \<and> e_replies_to x = Some (e_id e)"
    then obtain e' where e': "e' \<in> set (events v)" "e_id e' = e_id e" "e_op e' = e_op x" "e_seq e' < e_seq x"
      using assms(2) unfolding nudges_placed_def by blast
    have "distinct (map e_id (events v))" using assms(1) by (simp add: inv_defs fresh_keys_def)
    then have "e' = e" using e'(1,2) assms(4) by (metis distinct_map inj_onD)
    then show ?thesis using e'(3,4) assms(5) by simp
  qed
  ultimately show ?thesis
    by (simp add: nudges_for_def op_events_def) (intro arg_cong [where f = length] filter_cong; blast)
qed

lemma count_list_distinct: "distinct xs \<Longrightarrow> count_list xs x \<le> 1"
  by (induction xs) auto

definition due_ops :: "progression \<Rightarrow> instant \<Rightarrow> service \<Rightarrow> operation list" where
  "due_ops P now s = filter (\<lambda>op. sa_action (classify_op P (now - pg_idle P) op (w_v2 (s_db s))) \<noteq> Skip)
     (recent_active_ops None 200 (w_v2 (s_db s)))"

definition due_plans :: "progression \<Rightarrow> instant \<Rightarrow> service \<Rightarrow> (sweep_action \<times> id option) list" where
  "due_plans P now s = map (\<lambda>op. let a = classify_op P (now - pg_idle P) op (w_v2 (s_db s)) in (a, resolve_v1_conv_id (s_db s) (sa_op a)))
     (due_ops P now s)"

lemma tick_emits: "progression_tick_once L P now s = emits L now (due_plans P now s) s"
  by (simp add: progression_tick_once_def progression_tick_def due_plans_def due_ops_def filter_map o_def Let_def)

lemma due_plans_sound: "chat_ok (s_db s) \<Longrightarrow> p \<in> set (due_plans P now s) \<Longrightarrow> sound_plan (s_db s) p"
proof -
  let ?cl = "\<lambda>op. classify_op P (now - pg_idle P) op (w_v2 (s_db s))"
  assume ok: "chat_ok (s_db s)" and p: "p \<in> set (due_plans P now s)"
  from p obtain op where op: "op \<in> set (due_ops P now s)" "p = (?cl op, resolve_v1_conv_id (s_db s) (sa_op (?cl op)))"
    unfolding due_plans_def set_map Let_def by (rule imageE)
  have "\<exists>c. get_conv conv (s_db s) = Some c \<and> c_v2 c = Some (sa_op (?cl op))"
    if "resolve_v1_conv_id (s_db s) (sa_op (?cl op)) = Some conv" for conv
    using that get_conv_iff [OF ok] by (auto simp: resolve_v1_conv_id_def dest!: find_SomeD)
  moreover have "triggered (w_v2 (s_db s)) (?cl op)"
    using classified_trigger [OF refl, of P "now - pg_idle P" op "w_v2 (s_db s)"] op(1) by (auto simp: triggered_def due_ops_def)
  ultimately show ?thesis unfolding op(2) by (simp add: sound_plan_def)
qed

lemma tick_shape:
  assumes "chat_ok (s_db s)" "nudges_placed (w_v2 (s_db s))"
  shows "chat_ok (s_db (progression_tick_once L P now s)) \<and> nudges_placed (w_v2 (s_db (progression_tick_once L P now s)))
     \<and> prefix (events (w_v2 (s_db s))) (events (w_v2 (s_db (progression_tick_once L P now s))))"
  using emits_bound [OF assms, of "due_plans P now s" L now] due_plans_sound [OF assms(1)] unfolding tick_emits Let_def by blast

lemma tick_bound:
  assumes "chat_ok (s_db s)" "nudges_placed (w_v2 (s_db s))" "\<forall>op. length (op_events op (w_v2 (s_db s))) \<le> 500"
    and "\<forall>k. int (nudges_for k (events (w_v2 (s_db s)))) \<le> pg_retries P" "s' = progression_tick_once L P now s"
  shows "chat_ok (s_db s') \<and> nudges_placed (w_v2 (s_db s'))
     \<and> (\<forall>k. int (nudges_for k (events (w_v2 (s_db s')))) \<le> pg_retries P)"
proof -
  let ?v = "w_v2 (s_db s)" and ?cl = "\<lambda>op. classify_op P (now - pg_idle P) op (w_v2 (s_db s))"
  define ops where "ops = due_ops P now s"
  define ps where "ps = due_plans P now s"
  have s': "s' = emits L now ps s" by (simp add: assms(5) tick_emits ps_def)
  note ok = chat_okD(1) [OF assms(1)]
  have trig: "\<exists>e \<in> set (events ?v). sa_reply (?cl op) = Some (e_id e) \<and> e_op e = o_id op \<and> sa_op (?cl op) = o_id op
     \<and> (sa_action (?cl op) = Nudge \<longrightarrow> int (nudges_for (e_id e) (events ?v)) < pg_retries P)" if "op \<in> set ops" for op
  proof -
    have "sa_action (?cl op) \<noteq> Skip" using that by (simp add: ops_def due_ops_def)
    from classified_trigger [OF refl this] all_nudges_counted [OF ok assms(2)] assms(3) show ?thesis by fastforce
  qed
  have "\<forall>p \<in> set ps. sound_plan (s_db s) p" using due_plans_sound [OF assms(1)] by (simp add: ps_def)
  with emits_bound [OF assms(1,2), of ps L now] have em: "chat_ok (s_db s')" "nudges_placed (w_v2 (s_db s'))"
      "\<And>k. nudges_for k (events (w_v2 (s_db s'))) \<le> nudges_for k (events ?v) + count_list (nudge_targets ps) (Some k)"
    unfolding Let_def s' by blast+
  have targets: "nudge_targets ps = map (\<lambda>op. sa_reply (?cl op)) (filter (\<lambda>op. sa_action (?cl op) = Nudge) ops)"
    by (simp add: nudge_targets_def ps_def due_plans_def ops_def filter_map o_def Let_def)
  have dops: "distinct ops" "inj_on o_id (set ops)"
  proof -
    have d: "distinct (map o_id (operations ?v))" using ok by (simp add: inv_defs fresh_keys_def)
    then show "distinct ops" by (auto simp: ops_def due_ops_def recent_active_ops_def select_desc_def distinct_map)
    have "set ops \<subseteq> set (operations ?v)"
      by (auto simp: ops_def due_ops_def recent_active_ops_def dest: in_set_takeD)
    then show "inj_on o_id (set ops)" using d by (meson distinct_map inj_on_subset)
  qed
  have de: "inj_on e_id (set (events ?v))" using ok by (simp add: inv_defs fresh_keys_def distinct_map)
  have "inj_on (\<lambda>op. sa_reply (?cl op)) (set ops)"
  proof (rule inj_onI)
    fix x y assume xy: "x \<in> set ops" "y \<in> set ops" "sa_reply (?cl x) = sa_reply (?cl y)"
    obtain e e' where "e \<in> set (events ?v)" "e' \<in> set (events ?v)" "e_id e = e_id e'" "e_op e = o_id x" "e_op e' = o_id y"
      using trig [OF xy(1)] trig [OF xy(2)] xy(3) by auto
    then have "o_id x = o_id y" using de by (metis inj_onD)
    then show "x = y" using dops(2) xy(1,2) by (meson inj_onD)
  qed
  then have "distinct (nudge_targets ps)"
    unfolding targets distinct_map using dops(1) by (auto intro: inj_on_subset)
  then have one: "count_list (nudge_targets ps) (Some k) \<le> 1" for k by (rule count_list_distinct)
  have "int (nudges_for k (events (w_v2 (s_db s')))) \<le> pg_retries P" for k
  proof (cases "Some k \<in> set (nudge_targets ps)")
    case True
    then obtain op where op: "op \<in> set ops" "sa_action (?cl op) = Nudge" "sa_reply (?cl op) = Some k" by (auto simp: targets)
    then have "int (nudges_for k (events ?v)) < pg_retries P" using trig [OF op(1)] by auto
    then show ?thesis using em(3) [of k] one [of k] by linarith
  next
    case False
    then have "count_list (nudge_targets ps) (Some k) = 0" by (simp add: count_list_0_iff)
    then show ?thesis using em(3) [of k] assms(4) by (metis add.right_neutral of_nat_mono order_trans)
  qed
  with em show ?thesis by blast
qed

text \<open>
  The sweeper among the other services: between its ticks anything may be appended to the logs except
  nudges, which nobody else writes.
\<close>

inductive nudge_run :: "lib \<Rightarrow> progression \<Rightarrow> service \<Rightarrow> service \<Rightarrow> bool" for L P where
  start: "nudge_run L P s s"
| tick: "nudge_run L P s s1 \<Longrightarrow> nudge_run L P s (progression_tick_once L P now s1)"
| other: "nudge_run L P s s1 \<Longrightarrow> chat_ok (s_db s2) \<Longrightarrow> events (w_v2 (s_db s2)) = events (w_v2 (s_db s1)) @ new \<Longrightarrow>
     \<forall>e \<in> set new. e_kind e \<noteq> EVENT_SYSTEM_NUDGE \<Longrightarrow> nudge_run L P s s2"

definition no_nudges :: "service \<Rightarrow> bool" where
  "no_nudges s \<longleftrightarrow> (\<forall>e \<in> set (events (w_v2 (s_db s))). e_kind e \<noteq> EVENT_SYSTEM_NUDGE)"

lemma no_nudges_start: "no_nudges s \<Longrightarrow> nudges_placed (w_v2 (s_db s)) \<and> nudges_for k (events (w_v2 (s_db s))) = 0"
  unfolding no_nudges_def nudges_placed_def nudges_for_def by (auto simp: filter_empty_conv)

lemma run_shape: "nudge_run L P s s' \<Longrightarrow> chat_ok (s_db s) \<Longrightarrow> no_nudges s \<Longrightarrow> chat_ok (s_db s') \<and> nudges_placed (w_v2 (s_db s'))"
proof (induction rule: nudge_run.induct)
  case (other s s1 s2 new)
  then show ?case using placed_more by blast
qed (use no_nudges_start tick_shape in blast)+

text \<open>C15: no trigger is nudged more often than the settings allow: over any run of ticks and of other
  services, as long as no log is longer than the page of 500 events the sweeper counts in.\<close>
theorem nudges_bounded:
  assumes "nudge_run L P s s'" "chat_ok (s_db s)" "no_nudges s"
    and "0 \<le> pg_retries P" "\<forall>op. length (op_events op (w_v2 (s_db s'))) \<le> 500"
  shows "int (nudges_for k (events (w_v2 (s_db s')))) \<le> pg_retries P"
proof -
  have "chat_ok (s_db s') \<and> nudges_placed (w_v2 (s_db s')) \<and> (\<forall>k. int (nudges_for k (events (w_v2 (s_db s')))) \<le> pg_retries P)"
    using assms(1,2,3,5)
  proof (induction rule: nudge_run.induct)
    case (start s0)
    then show ?case using no_nudges_start assms(4) by simp
  next
    case (tick s0 s1 now)
    note shape = run_shape [OF tick.hyps tick.prems(1,2)]
    have "prefix (op_events op (w_v2 (s_db s1))) (op_events op (w_v2 (s_db (progression_tick_once L P now s1))))" for op
      using tick_shape [of s1 L P now] shape unfolding op_events_def by (auto simp: prefix_def)
    then have few: "\<forall>op. length (op_events op (w_v2 (s_db s1))) \<le> 500"
      using tick.prems(3) prefix_length_le le_trans by blast
    show ?case using tick_bound [OF conjunct1 [OF shape] conjunct2 [OF shape] few _ refl] tick.IH [OF tick.prems(1,2) few] by blast
  next
    case (other s0 s1 s2 new)
    have ev: "op_events op (w_v2 (s_db s2)) = op_events op (w_v2 (s_db s1)) @ filter (\<lambda>e. e_op e = op) new" for op
      unfolding op_events_def other.hyps(3) by simp
    have few: "\<forall>op. length (op_events op (w_v2 (s_db s1))) \<le> 500" using other.prems(3) unfolding ev length_append by (meson add_leD1)
    note IH = other.IH [OF other.prems(1,2) few]
    have "filter (\<lambda>e. e_kind e = EVENT_SYSTEM_NUDGE \<and> e_replies_to e = Some k) new = []" for k
      using other.hyps(4) by (auto simp: filter_empty_conv)
    then have "nudges_for k (events (w_v2 (s_db s2))) = nudges_for k (events (w_v2 (s_db s1)))" for k
      unfolding other.hyps(3) by (simp add: nudges_for_def)
    moreover have "nudges_placed (w_v2 (s_db s2))"
      using placed_more [OF _ other.hyps(3,4)] IH by blast
    ultimately show ?case using IH other.hyps(2) by simp
  qed
  then show ?thesis by blast
qed

section \<open>A stalled conversation\<close>

text \<open>Ann asked Bob something; \<open>ex\<close> is the expected response she declared, if any.\<close>

definition sample_question :: "obj option \<Rightarrow> event" where
  "sample_question ex =
     \<lparr>e_id = 4, e_op = 3, e_actor = 1, e_seq = 1, e_kind = ''chat.speech.question'', e_payload = (''text'', JStr ''why'') # meta_part ex,
      e_addressed = [2], e_replies_to = None, e_private = None, e_created = 2\<rparr>"

definition sample_desk :: "obj option \<Rightarrow> v2db" where
  "sample_desk ex =
     \<lparr>actors = map (\<lambda>(k, h). \<lparr>a_id = k, a_handle = h, a_display = h, a_kind = ''ai'', a_caps = [], a_status = ''online'', a_last_seen = None\<rparr>)
                  [(1, ''@ann''), (2, ''@bob'')],
      operations = [\<lparr>o_id = 3, o_space = ''chat:r'', o_parent = None, o_kind = KIND_INQUIRY, o_state = STATE_OPEN, o_title = ''why'',
        o_intent = None, o_metadata = [], o_resolution = None, o_summary = None, o_closed_by = None, o_created = 1, o_updated = 2,
        o_closed_at = None\<rparr>],
      participants = map (\<lambda>(k, r). \<lparr>p_op = 3, p_actor = k, p_role = r, p_joined = 1, p_seen_seq = 0\<rparr>) [(1, ''opener''), (2, ''addressed'')],
      events = [sample_question ex], artifacts = [], tokens = [], next_id = 5\<rparr>"

definition sample_talk :: "obj option \<Rightarrow> chat" where
  "sample_talk ex =
     \<lparr>w_threads = [\<lparr>h_id = 1, h_guild = ''g'', h_channel = ''c'', h_discord = ''d'', h_title = ''room'', h_topic = None, h_created_by = ''ann'',
        h_status = ''active'', h_turns = 0, h_last_actor = None, h_last_preview = None, h_last_at = None, h_created = 0\<rparr>],
      w_members = [], w_states = [],
      w_convs = [\<lparr>c_id = 2, c_thread = 1, c_kind = KIND_INQUIRY, c_title = ''why'', c_intent = None, c_state = CONVERSATION_STATE_OPEN,
        c_opener = ''ann'', c_owner = Some ''ann'', c_expected = Some ''bob'', c_parent = None, c_task = None, c_v2 = Some 3,
        c_resolution = None, c_summary = None, c_closed_by = None, c_general = False, c_last_speech = Some 2, c_speech_count = 1,
        c_warned_at = None, c_warnings = 0, c_unaddressed = 0, c_created = 1, c_updated = 2, c_closed_at = None\<rparr>],
      w_messages = [\<lparr>m_id = 3, m_thread = 1, m_conv = Some 2, m_actor = ''ann'', m_kind = ''chat.speech.question'', m_to = Some ''bob'',
        m_many = None, m_replies_to = None, m_body = Text ''why'', m_v2 = Some 4, m_created = 2\<rparr>],
      w_reads = [], w_v2 = sample_desk ex, w_tasks = no_remote, w_next = 4\<rparr>"

definition sample_stalled :: service where
  "sample_stalled = empty_service\<lparr>s_db := sample_talk None\<rparr>"
definition sample_patience :: progression where
  "sample_patience = \<lparr>pg_idle = 10, pg_retries = 1, pg_label = ''idle''\<rparr>"
definition sample_nudged :: service where
  "sample_nudged = progression_tick_once sample_lib sample_patience 100 sample_stalled"

lemma sample_desk_ok: "db_ok (sample_desk ex)"
  by (simp add: inv_defs fresh_keys_def sample_desk_def log_ok_def op_events_def sample_question_def numbered_def)

lemma sample_talk_ok: "chat_ok (sample_talk ex)"
  using sample_desk_ok [of ex] op_reach_refl [of KIND_INQUIRY]
  by (simp add: chat_ok_def sample_talk_def fresh_keys_def links_ok_def mirrored_def agrees_def view_def conv_log_def copied_def
      sample_desk_def op_events_def sample_question_def lifecycle_ok_def row_get_Cons get_operation_def)

lemma sample_stalled_ok: "chat_ok (s_db sample_stalled)"
  using sample_talk_ok by (simp add: sample_stalled_def)

text \<open>What the witnesses use of these states, computed in one evaluation per state.\<close>

definition sample_op :: "service \<Rightarrow> operation" where "sample_op s = hd (operations (w_v2 (s_db s)))"
definition sample_decision :: "service \<Rightarrow> sweep_action" where
  "sample_decision s = classify_op sample_patience 200 (sample_op s) (w_v2 (s_db s))"
definition sample_escalation :: "service \<Rightarrow> (chat_error + id \<times> id option) \<times> service" where
  "sample_escalation s = emit_system_event sample_lib 300 2 ''chat.speech.defer'' (sa_handle (sample_decision s)) (sa_reply (sample_decision s))
     (action_payload sample_lib (sample_decision s)) s"
definition nudged_report :: "service \<Rightarrow> bool" where
  "nudged_report s \<longleftrightarrow> length (events (w_v2 (s_db s))) = 2 \<and> nudges_for 4 (events (w_v2 (s_db s))) = 1
     \<and> map_option c_v2 (get_conv 2 (s_db s)) = Some (Some 3) \<and> o_id (sample_op s) = 3
     \<and> sa_action (sample_decision s) = Defer \<and> sa_handle (sample_decision s) = Some ''@bob''
     \<and> (case fst (sample_escalation s) of Inr (_, Some _) \<Rightarrow> True | _ \<Rightarrow> False)"
definition stalled_report :: "service \<Rightarrow> bool" where
  "stalled_report s \<longleftrightarrow> list_all (\<lambda>e. e_kind e \<noteq> EVENT_SYSTEM_NUDGE) (events (w_v2 (s_db s)))
     \<and> nudged_report (progression_tick_once sample_lib sample_patience 100 s)"

lemma sample_stalled_report: "stalled_report sample_stalled" by code_simp

lemmas sample_nudged_facts = sample_stalled_report [unfolded stalled_report_def nudged_report_def, folded sample_nudged_def]

lemma sample_nudged_run: "nudge_run sample_lib sample_patience sample_stalled sample_nudged" "no_nudges sample_stalled"
  using nudge_run.tick [OF nudge_run.start] sample_nudged_facts
  by (simp_all add: sample_nudged_def no_nudges_def list_all_iff)

theorem nudges_bounded_witness:
  "nudges_for 4 (events (w_v2 (s_db sample_nudged))) = 1 \<and> int (nudges_for 4 (events (w_v2 (s_db sample_nudged)))) \<le> 1"
proof -
  have "length (op_events op (w_v2 (s_db sample_nudged))) \<le> 2" for op
    using length_filter_le [of "\<lambda>e. e_op e = op" "events (w_v2 (s_db sample_nudged))"] sample_nudged_facts by (simp add: op_events_def)
  then have "\<forall>op. length (op_events op (w_v2 (s_db sample_nudged))) \<le> 500" by (meson le_trans numeral_le_iff semiring_norm(68,69,71,78))
  then have "int (nudges_for 4 (events (w_v2 (s_db sample_nudged)))) \<le> pg_retries sample_patience"
    by (intro nudges_bounded [OF sample_nudged_run(1) sample_stalled_ok sample_nudged_run(2)]) (simp_all add: sample_patience_def)
  then show ?thesis using sample_nudged_facts by (simp add: sample_patience_def)
qed

theorem escalation_restarts_nudging_witness:
  "sa_action (classify_op sample_patience 320 (sample_op sample_nudged) (w_v2 (s_db (snd (sample_escalation sample_nudged))))) = Nudge"
proof -
  let ?a = "sample_decision sample_nudged"
  have ok: "db_ok (w_v2 (s_db sample_nudged))"
    using run_shape [OF sample_nudged_run(1) sample_stalled_ok sample_nudged_run(2)] chat_okD(1) by blast
  obtain c where c: "get_conv 2 (s_db sample_nudged) = Some c" "c_v2 c = Some (o_id (sample_op sample_nudged))"
    using sample_nudged_facts by auto
  obtain mid ev where "fst (sample_escalation sample_nudged) = Inr (mid, Some ev)"
    using sample_nudged_facts by (auto split: sum.splits prod.splits option.splits)
  then have run: "emit_system_event sample_lib 300 2 ''chat.speech.defer'' (sa_handle ?a) (sa_reply ?a) (action_payload sample_lib ?a)
      sample_nudged = (Inr (mid, Some ev), snd (sample_escalation sample_nudged))"
    unfolding sample_escalation_def by (metis prod.collapse)
  have a: "?a = classify_op sample_patience 200 (sample_op sample_nudged) (w_v2 (s_db sample_nudged))" "sa_action ?a = Defer"
    "sa_handle ?a = Some ''@bob''" using sample_nudged_facts by (simp_all add: sample_decision_def)
  have n: "at_handle ''@bob'' = ''@bob''" "''@bob'' \<noteq> ''@system''" "1 \<le> pg_retries sample_patience" "(300::int) \<le> 320"
    by (simp_all add: at_handle_def sample_patience_def)
  from escalation_restarts_nudging [OF ok c a n(1-3) run n(4)] show ?thesis unfolding Let_def by blast
qed

definition sample_deadline :: service where
  "sample_deadline = empty_service
     \<lparr>s_db := sample_talk (Some [(''from_actor_handles'', JArr [JStr ''@bob'']), (''by_round_seq'', JInt 1)])\<rparr>"

definition deadline_report :: "service \<Rightarrow> bool" where
  "deadline_report s \<longleftrightarrow> map c_id (filter (\<lambda>c. c_v2 c = Some (o_id (sample_op s))) (w_convs (s_db s))) = [2]
     \<and> op_events (o_id (sample_op s)) (w_v2 (s_db s)) \<noteq> [] \<and> length (op_events (o_id (sample_op s)) (w_v2 (s_db s))) \<le> 1000
     \<and> plan_defers_for_op (sample_op s) (s_db s) = Inr [(2, ''@bob'', 4)]"

lemma sample_deadline_report: "deadline_report sample_deadline" by code_simp

lemmas sample_deadline_facts = sample_deadline_report [unfolded deadline_report_def]

theorem defers_planned_exactly_witness:
  "let evs = op_events (o_id (sample_op sample_deadline)) (w_v2 (s_db sample_deadline))
   in \<exists>e \<in> set evs. e_id e = 4 \<and> ''@bob'' \<in> names (Max (e_seq ` set evs)) e"
proof -
  have ok: "db_ok (w_v2 (s_db sample_deadline))" by (simp add: sample_deadline_def sample_talk_def sample_desk_ok)
  define evs where "evs = op_events (o_id (sample_op sample_deadline)) (w_v2 (s_db sample_deadline))"
  have ne: "evs \<noteq> []" "length evs \<le> 1000" and plan: "plan_defers_for_op (sample_op sample_deadline) (s_db sample_deadline) = Inr [(2, ''@bob'', 4)]"
    using sample_deadline_facts by (simp_all add: evs_def)
  obtain c where c: "filter (\<lambda>c. c_v2 c = Some (o_id (sample_op sample_deadline))) (w_convs (s_db sample_deadline)) = [c]"
    using sample_deadline_facts by (auto simp: map_eq_Cons_conv)
  note all = conjunct2 [OF defers_planned_exactly [OF ok c evs_def ne plan]]
  have "(2, ''@bob'', 4) \<in> set [(2::nat, ''@bob'', 4::nat)]" by simp
  from this [unfolded all] obtain e where "e \<in> set evs" "''@bob'' \<in> names (Max (e_seq ` set evs)) e" "e_id e = 4"
    unfolding mem_Collect_eq by (elim exE conjE) (simp only: prod.inject)
  then show ?thesis unfolding Let_def evs_def [symmetric] by blast
qed

end
