(* ===== verification/Spec2Isabelle.thy ===== *)
theory Spec2Isabelle
  imports KernelTasks Scratch Idle TaskOutcome CodexSynced Verify ThreadDelta SweepProps
begin

text \<open>
  A verification library for the bridge of this repository, the Python service under
  \<open>src/nas_bridge/app/\<close>: chat rooms with a protocol for conversations, remote task and command queues,
  and sessions in which command line agents work on a project under an operator's eye.

  \<^bold>\<open>The parts and how they interact.\<close>
  Everything above the kernel is a service that opens a database transaction (\<open>session_scope\<close>), works on
  rows, commits, and then publishes to an in-process broker. The kernel owns what the services share: the
  protocol v2 tables with their event logs, a task queue, presence and leases, approvals, a
  scratch store and the subscription broker. A chat conversation is written twice, as its own rows and as
  an operation of protocol v2; the chat task coordinator drives a remote task beside it; two background
  sweepers watch the operations. The remote Codex services run a command queue whose rows are shadowed in
  the kernel's task queue. The session services hand jobs to workers, turn the control blocks of their
  answers into task cards and handoffs, and are started, paused, recovered and verified by workflows that
  talk to the launchers registered in the catalog.

  \<^bold>\<open>Which theory models what\<close> (paths under \<open>src/nas_bridge/app/\<close>).
  \<^item> Prelude: \<open>Base\<close> (decoded JSON, error results, strings, tables as lists of rows), \<open>Strings\<close>, and the
    shared contracts \<open>Lease\<close> and \<open>Settle\<close>.
  \<^item> Protocol v2 (\<open>kernel/v2/\<close>): \<open>Contract\<close> and \<open>Validators\<close> (\<open>contract.py\<close>), \<open>StateMachine\<close>
    (\<open>state_machine.py\<close>), \<open>Store\<close>, \<open>StoreInv\<close>, \<open>EventLog\<close> (\<open>models.py\<close>, \<open>repository.py\<close>), \<open>Actors\<close>
    (\<open>actor_service.py\<close>, \<open>capabilities.py\<close>), \<open>PolicyEngine\<close> (\<open>policy_engine.py\<close>), \<open>Mirror\<close>
    (\<open>operation_mirror.py\<close>), \<open>Sweep\<close>, \<open>SweepProps\<close> (\<open>policy_sweeper.py\<close>, \<open>progression_sweeper.py\<close>).
  \<^item> Kernel services (\<open>kernel/\<close>): \<open>KernelTasks\<close> (\<open>tasks.py\<close>), \<open>Presence\<close> (\<open>presence.py\<close>), \<open>Approvals\<close>
    (\<open>approvals.py\<close>), \<open>Scratch\<close> (\<open>scratch.py\<close>), \<open>Feed\<close> (\<open>events.py\<close>), \<open>Broker\<close> (\<open>subscriptions.py\<close>).
  \<^item> Remote tasks: \<open>RemoteTasks\<close> (\<open>services/remote_task_service.py\<close>, \<open>kernel/operations.py\<close>).
  \<^item> Chat (\<open>behaviors/chat/\<close>): \<open>ChatStore\<close> (\<open>models.py\<close>), \<open>Room\<close>, \<open>Conversation\<close>, \<open>Lifecycle\<close>, \<open>DualWrite\<close>,
    \<open>Idle\<close>, \<open>Conduct\<close> (\<open>conversation_service.py\<close>), \<open>ChatRoom\<close> (\<open>service.py\<close>), \<open>TaskCoordinator\<close>,
    \<open>TaskOutcome\<close> (\<open>task_coordinator.py\<close>), \<open>Collab\<close> (the services as one transition system), \<open>Digest\<close>
    (\<open>behaviors/digest/service.py\<close>).
  \<^item> Remote Codex (\<open>behaviors/remote_codex/\<close>): \<open>CodexValues\<close>, \<open>CodexState\<close>, \<open>CodexQueue\<close>, \<open>CodexSync\<close>,
    \<open>CodexSynced\<close> (\<open>state_service.py\<close>), \<open>CodexService\<close>, \<open>CodexCalls\<close>, \<open>CodexFlow\<close>, \<open>CodexProps\<close> (\<open>service.py\<close>).
  \<^item> Sessions: \<open>Regex\<close> (\<open>security/regex_safety.py\<close> and the part of \<open>re\<close> in use), \<open>SessionText\<close>,
    \<open>SessionPrompts\<close>, \<open>SessionState\<close>, \<open>SessionView\<close>, \<open>SessionControl\<close>, \<open>SessionTasks\<close>, \<open>SessionClaim\<close>,
    \<open>SessionJobs\<close>, \<open>SessionReply\<close>, \<open>ThreadDelta\<close> (\<open>session_service.py\<close>, \<open>transcript_service.py\<close>),
    \<open>SessionPolicy\<close> (\<open>services/policy_service.py\<close>); the invariant and its preservation in \<open>SessionInv\<close>,
    \<open>SessionMoves\<close>, \<open>SessionKeeps\<close>, \<open>SessionSteps\<close>, \<open>SessionStarts\<close>; properties in \<open>SessionProps\<close>.
  \<^item> The plant around the sessions: \<open>Catalog\<close> (\<open>worker_registry.py\<close>, \<open>capabilities/\<close>, \<open>drift_monitor.py\<close>),
    \<open>Plant\<close> (creation, launches and project finds of \<open>session_service.py\<close>), \<open>Recovery\<close>
    (\<open>services/recovery_service.py\<close>, \<open>workflows/pause_workflow.py\<close>, \<open>workflows/policy_workflow.py\<close>),
    \<open>StartFlow\<close> (\<open>workflows/start_workflow.py\<close>), \<open>Verify\<close> (\<open>services/verification_service.py\<close>); properties in
    \<open>PlantProps\<close>, \<open>PlantRuns\<close>, \<open>FlowProps\<close>.

  \<^bold>\<open>How the code is rendered.\<close>
  A table is the list of its rows in insertion order, a row is a record with the columns of the model class, and
  a query is a filter with the sort and the limit of the statement. An operation takes the state and returns a
  result and the new state; an exception is a value of an error datatype (\<open>Inl\<close>), and a transaction that
  raises leaves the tables as they were. Where a call commits several transactions, it is the sequence of
  them, so a raise in the middle keeps what was committed before. Times are integers in microseconds and
  come in as arguments, one clock reading per call; fresh keys are natural numbers from a counter. JSON
  columns hold the decoded value.

  \<^bold>\<open>What the lemmas show.\<close>
  For each component an invariant of its tables, kept by every operation; the interfaces between components
  are locales (\<open>event_log\<close>, \<open>lease_provider\<close>, \<open>settling\<close>, \<open>deadline\<close>), interpreted on the models of the code, whose run
  lemmas give the safety properties over arbitrary interleavings. On these rest: gap-free event logs,
  mutual exclusion of leases and of tasks, decisions that are made once, the coherent dual write of
  conversations, what becomes of every message a reader follows (given once, ahead, or missed by entering
  late), delivery exactly once of commands and project finds, the refinement of the
  assignment table to leases and of the command queue to the kernel queue, fencing of late job reports,
  the session invariant over every run of the bridge process, bounded nudging, and the termination of the
  wait for a project find. Mutual exclusion of resource leases holds for a holder that does not itself
  write the status \<open>expired\<close>; \<open>Presence\<close> shows what happens otherwise. Some theorems show where the code does not keep what it promises: an
  approval that is stranded half-way, a permission check that is dropped, an escalation that starts the
  nudging over, a review of an unfinished run, a closed session that a late registration reopens.

  \<^bold>\<open>Bounds and fuel.\<close>
  The matcher of \<open>Regex\<close> runs a starred pattern for at most as many rounds as there are characters left;
  \<open>Regex.rounds_enough\<close> shows that more rounds change nothing. The wait loop of \<open>Plant\<close> is a partial
  function; \<open>PlantProps\<close> proves that it returns when the clock moves on. All other recursion is over lists
  or has a measure. Limits of the source (1000 events of a scan, 500 of a nudge count, 120 of a delta, four
  handoffs of an answer) are in the definitions.

  \<^bold>\<open>Parameters.\<close>
  What is not under \<open>src/\<close> is an argument: the renderings of keys, times, JSON, base64 and hashes (one
  library record), \<open>fromisoformat\<close>, the path functions of \<open>pathlib\<close> and \<open>ntpath\<close>, the Discord thread
  created or probed for a session, and the clock of the wait loop.

  \<^bold>\<open>Not modelled.\<close>
  Routers (but for the one stored row a router edits itself, the intent of a ratification:
  \<open>Store.patch_intent\<close> for \<open>append_event\<close> of \<open>api/v2_operations.py\<close>), middleware, the Discord gateway, command and message presenters and the announcement service: they
  parse, format and post. The remote Claude behavior, which repeats the command queue of remote Codex
  without its shadow. The endless loops around a tick of a sweeper or of the recovery, and the schema
  migrations. The launcher on the PC, its connectors, the scripts and the test drivers are separate client
  processes over HTTP, subprocesses and the file system. Float values are kept as mantissa and exponent and
  are only compared.
\<close>

end
